(* ===== verification/Prelude.thy ===== *)
theory Prelude
  imports Complex_Main "HOL-Library.AList" "HOL-Library.Char_ord" "HOL-Library.List_Lexorder"
    "HOL-Library.Product_Lexorder"
begin

text \<open>
  What every component theory shares: the value types (Python floats, JSON values), the
  insertion-ordered dictionary (a Python \<open>dict\<close>, and a database table keyed by its primary
  key), list slices with a history bound, Python's \<open>round\<close>, stable descending sorts and the
  first maximum of a list, each with the lemmas that the components use.

  Floats are modelled by exact rationals: \<open>rat\<close> is executable and ordered, every float the
  code reads is a rational, and the properties proved here are about comparisons, sums and
  products whose rounding error the code does not rely on.
\<close>

section \<open>Value types\<close>

type_synonym pyfloat = rat

text \<open>The successive readings of the clock during an operation.\<close>

type_synonym clock = "nat \<Rightarrow> pyfloat"

datatype json =
    JNull
  | JBool bool
  | JNum rat
  | JStr string
  | JList "json list"
  | JObj "(string \<times> json) list"

named_theorems dict_simps \<open>lookups, keys and updates of insertion-ordered dictionaries\<close>
named_theorems frame_simps \<open>what an operation leaves unchanged\<close>

section \<open>Insertion-ordered dictionaries\<close>

text \<open>
  \<open>d[k] = v\<close> replaces the value in place or appends a new entry at the end, \<open>del d[k]\<close> drops
  the entry: exactly \<open>AList.update\<close> and \<open>AList.delete\<close>. The iteration order of a dict is the
  order of the association list.
\<close>

type_synonym ('k, 'v) dict = "('k \<times> 'v) list"

abbreviation dget :: "('k, 'v) dict \<Rightarrow> 'k \<Rightarrow> 'v option" where
  "dget d k \<equiv> map_of d k"

abbreviation dput :: "'k \<Rightarrow> 'v \<Rightarrow> ('k, 'v) dict \<Rightarrow> ('k, 'v) dict" where
  "dput k v d \<equiv> AList.update k v d"

abbreviation ddel :: "'k \<Rightarrow> ('k, 'v) dict \<Rightarrow> ('k, 'v) dict" where
  "ddel k d \<equiv> AList.delete k d"

abbreviation dkeys :: "('k, 'v) dict \<Rightarrow> 'k list" where
  "dkeys d \<equiv> map fst d"

abbreviation dvalues :: "('k, 'v) dict \<Rightarrow> 'v list" where
  "dvalues d \<equiv> map snd d"

definition dwf :: "('k, 'v) dict \<Rightarrow> bool" where
  "dwf d \<longleftrightarrow> distinct (dkeys d)"

lemma dget_dput [simp, dict_simps]: "dget (dput k v d) k' = (if k' = k then Some v else dget d k')"
  by (simp add: AList.update_conv')

lemma dget_ddel [simp, dict_simps]: "dget (ddel k d) k' = (if k' = k then None else dget d k')"
  by (simp add: AList.delete_conv')

lemma set_dkeys_dput [simp, dict_simps]: "fst ` set (dput k v d) = insert k (fst ` set d)"
  by (simp add: AList.dom_update)

lemma set_dkeys_ddel [simp, dict_simps]: "fst ` set (ddel k d) = fst ` set d - {k}"
  by (simp add: dom_map_of_conv_image_fst [symmetric] AList.delete_conv' dom_def)
    (auto split: if_splits)

lemma dwf_Nil [simp]: "dwf []"
  by (simp add: dwf_def)

lemma dwf_dput [simp, intro]: "dwf d \<Longrightarrow> dwf (dput k v d)"
  by (simp add: dwf_def AList.distinct_update)

lemma dwf_ddel [simp, intro]: "dwf d \<Longrightarrow> dwf (ddel k d)"
  by (simp add: dwf_def AList.distinct_delete)

lemma dget_None_iff: "dget d k = None \<longleftrightarrow> k \<notin> fst ` set d"
  by (simp add: map_of_eq_None_iff)

lemma dget_SomeD: "dget d k = Some v \<Longrightarrow> (k, v) \<in> set d"
  by (rule map_of_SomeD)

lemma dget_in_keys: "dget d k = Some v \<Longrightarrow> k \<in> fst ` set d"
  by (force dest: map_of_SomeD)

lemma dwf_dget_iff: "dwf d \<Longrightarrow> dget d k = Some v \<longleftrightarrow> (k, v) \<in> set d"
  by (simp add: dwf_def map_of_eq_Some_iff)

lemma dput_new: "k \<notin> fst ` set d \<Longrightarrow> dput k v d = d @ [(k, v)]"
  by (induction d) auto

lemma set_dput: "dwf d \<Longrightarrow> set (dput k v d) = insert (k, v) {p \<in> set d. fst p \<noteq> k}"
proof -
  assume wf: "dwf d"
  have "(a, b) \<in> set (dput k v d) \<longleftrightarrow> (a, b) \<in> insert (k, v) {p \<in> set d. fst p \<noteq> k}" for a b
    using dwf_dget_iff [OF dwf_dput [OF wf], of k v a b] dwf_dget_iff [OF wf, of a b]
    by (auto split: if_splits)
  then show ?thesis by (metis (no_types, lifting) set_eqI surj_pair)
qed

lemma set_dput_subset: "set (dput k v d) \<subseteq> insert (k, v) (set d)"
  by (induction d) auto

lemma set_ddel: "set (ddel k d) = {p \<in> set d. fst p \<noteq> k}"
  by (induction d) auto

lemma dput_same: "dget d k = Some v \<Longrightarrow> dput k v d = d"
  by (rule AList.update_triv)

lemma length_dput: "length (dput k v d) = (if k \<in> fst ` set d then length d else Suc (length d))"
  by (induction d) auto

lemma length_dput_known: "dget d k \<noteq> None \<Longrightarrow> length (dput k v d) = length d"
  by (auto simp: length_dput dget_None_iff)

lemma length_ddel_less: "k \<in> fst ` set d \<Longrightarrow> length (ddel k d) < length d"
  by (force simp: AList.delete_eq intro!: length_filter_less)

lemma length_ddel:
  "dwf d \<Longrightarrow> dget d k \<noteq> None \<Longrightarrow> Suc (length (ddel k d)) = length d"
proof (induction d)
  case (Cons p d)
  show ?case
  proof (cases "fst p = k")
    case True
    with Cons.prems(1) have "k \<notin> fst ` set d" by (auto simp: dwf_def)
    then have "ddel k d = d" by (force simp: AList.delete_eq filter_id_conv)
    with True show ?thesis by simp
  next
    case False
    with Cons show ?thesis by (simp add: dwf_def)
  qed
qed simp

text \<open>Updating every value of a dictionary (a loop over \<open>d.values()\<close> that mutates them).\<close>

definition dmap :: "('k \<Rightarrow> 'v \<Rightarrow> 'v) \<Rightarrow> ('k, 'v) dict \<Rightarrow> ('k, 'v) dict" where
  "dmap f d = map (\<lambda>(k, v). (k, f k v)) d"

lemma dkeys_dmap [simp, dict_simps]: "dkeys (dmap f d) = dkeys d"
  by (induction d) (auto simp: dmap_def)

lemma dget_dmap [simp, dict_simps]: "dget (dmap f d) k = map_option (f k) (dget d k)"
  by (induction d) (auto simp: dmap_def)

lemma dwf_dmap [simp]: "dwf (dmap f d) = dwf d"
  unfolding dwf_def by (simp only: dkeys_dmap)

lemma set_fst_dmap [simp]: "fst ` set (dmap f d) = fst ` set d"
  by (metis dkeys_dmap list.set_map)

lemma length_dmap [simp]: "length (dmap f d) = length d"
  by (simp add: dmap_def)

lemma dvalues_dmap: "dvalues (dmap (\<lambda>_. f) d) = map f (dvalues d)"
  by (simp add: dmap_def case_prod_unfold)

lemma filter_eq_one: "distinct xs \<Longrightarrow> x \<in> set xs \<Longrightarrow> filter (\<lambda>y. y = x) xs = [x]"
  by (induction xs) (auto simp: filter_empty_conv)

text \<open>A table of records keyed by one of their own fields, and rebuilding it from its rows.\<close>

definition keyed :: "('v \<Rightarrow> 'k) \<Rightarrow> ('k, 'v) dict \<Rightarrow> bool" where
  "keyed f d \<longleftrightarrow> dwf d \<and> (\<forall>p \<in> set d. f (snd p) = fst p)"

lemma keyed_Nil [simp]: "keyed f []"
  by (simp add: keyed_def)

lemma keyed_dput [intro]: "keyed f d \<Longrightarrow> f v = k \<Longrightarrow> keyed f (dput k v d)"
  by (auto simp: keyed_def set_dput)

lemma keyed_ddel [intro]: "keyed f d \<Longrightarrow> keyed f (ddel k d)"
  by (auto simp: keyed_def set_ddel)

lemma keyed_dget: "keyed f d \<Longrightarrow> dget d k = Some v \<Longrightarrow> f v = k"
  by (auto simp: keyed_def dest!: map_of_SomeD)

lemma keyed_member: "keyed f d \<Longrightarrow> v \<in> set (dvalues d) \<longleftrightarrow> dget d (f v) = Some v"
  unfolding keyed_def by (auto simp: dwf_dget_iff intro: rev_image_eqI)

lemma dwf_same_dget: "dwf d \<Longrightarrow> dwf e \<Longrightarrow> set d = set e \<Longrightarrow> dget d k = dget e k"
  by (metis dwf_def map_of_inject_set)

lemma fold_dput_values:
  assumes "keyed f d" and "fst ` set d \<inter> fst ` set e = {}"
  shows "fold (\<lambda>v. dput (f v) v) (dvalues d) e = e @ d"
  using assms
proof (induction d arbitrary: e)
  case (Cons p d)
  obtain k v where p: "p = (k, v)" by (cases p)
  from Cons.prems p have "f v = k" "k \<notin> fst ` set e" "keyed f d" "k \<notin> fst ` set d"
    by (auto simp: keyed_def dwf_def)
  moreover from this Cons.prems p have "fst ` set d \<inter> fst ` set (e @ [(k, v)]) = {}" by auto
  ultimately show ?case using Cons.IH [of "e @ [(k, v)]"] p by (simp add: dput_new)
qed simp

lemma rebuild_keyed: "keyed f d \<Longrightarrow> fold (\<lambda>v. dput (f v) v) (dvalues d) [] = d"
  by (simp add: fold_dput_values)

text \<open>A loop keeps what its body keeps.\<close>

lemma fold_inv: "(\<And>x s. P s \<Longrightarrow> P (f x s)) \<Longrightarrow> P s \<Longrightarrow> P (fold f xs s)"
  by (induction xs arbitrary: s) auto

section \<open>Strings\<close>

definition starts_with :: "string \<Rightarrow> string \<Rightarrow> bool" where
  "starts_with p s \<longleftrightarrow> take (length p) s = p"

text \<open>The ASCII characters that \<open>str.strip\<close> removes.\<close>

definition is_space :: "char \<Rightarrow> bool" where
  "is_space c \<longleftrightarrow> (let n = (of_char c :: nat) in n = 32 \<or> (9 \<le> n \<and> n \<le> 13) \<or> (28 \<le> n \<and> n \<le> 31))"

definition py_strip :: "string \<Rightarrow> string" where
  "py_strip s = rev (dropWhile is_space (rev (dropWhile is_space s)))"

definition rstrip_slash :: "string \<Rightarrow> string" where
  "rstrip_slash s = rev (dropWhile (\<lambda>c. c = CHR ''/'') (rev s))"

text \<open>\<open>str.lower\<close> on ASCII letters.\<close>

definition to_lower :: "char \<Rightarrow> char" where
  "to_lower c = (let n = (of_char c :: nat) in if 65 \<le> n \<and> n \<le> 90 then char_of (n + 32) else c)"

definition to_upper :: "char \<Rightarrow> char" where
  "to_upper c = (let n = (of_char c :: nat) in if 97 \<le> n \<and> n \<le> 122 then char_of (n - 32) else c)"

definition py_lower :: "string \<Rightarrow> string" where
  "py_lower s = map to_lower s"

text \<open>Python truth of an optional string: \<open>None\<close> and the empty string are both false.\<close>

definition truthy :: "string option \<Rightarrow> string option" where
  "truthy s = (case s of Some x \<Rightarrow> if x = [] then None else Some x | None \<Rightarrow> None)"

lemma truthy_Some [simp]: "truthy s = Some x \<longleftrightarrow> s = Some x \<and> x \<noteq> []"
  by (auto simp: truthy_def split: option.splits)

lemma truthy_None: "truthy s = None \<longleftrightarrow> s = None \<or> s = Some []"
  by (auto simp: truthy_def split: option.splits if_splits)

text \<open>Decimal notation, as an f-string prints a natural number.\<close>

fun string_of_nat :: "nat \<Rightarrow> string" where
  "string_of_nat n =
     (if n < 10 then [char_of (48 + n)] else string_of_nat (n div 10) @ [char_of (48 + n mod 10)])"

declare string_of_nat.simps [simp del]

definition string_of_int :: "int \<Rightarrow> string" where
  "string_of_int i = (if i < 0 then CHR ''-'' # string_of_nat (nat (- i)) else string_of_nat (nat i))"

text \<open>
  \<open>int(s)\<close> on a string: blanks around it are ignored, one sign and single underscores between
  digits are allowed, anything else is a \<open>ValueError\<close>. The flag says whether the last character
  was a digit. Digits outside ASCII are not modelled.
\<close>

definition digit_value :: "char \<Rightarrow> int option" where
  "digit_value c = (let n = (of_char c :: nat) in if 48 \<le> n \<and> n \<le> 57 then Some (int n - 48) else None)"

fun py_digits :: "int \<Rightarrow> bool \<Rightarrow> string \<Rightarrow> int option" where
  "py_digits acc ok [] = (if ok then Some acc else None)"
| "py_digits acc ok (c # cs) =
     (case digit_value c of
        Some d \<Rightarrow> py_digits (10 * acc + d) True cs
      | None \<Rightarrow> if c = CHR ''_'' \<and> ok then py_digits acc False cs else None)"

definition py_int :: "string \<Rightarrow> int option" where
  "py_int s =
     (case py_strip s of
        [] \<Rightarrow> None
      | c # cs \<Rightarrow> if c = CHR ''-'' then map_option uminus (py_digits 0 False cs)
                 else if c = CHR ''+'' then py_digits 0 False cs
                 else py_digits 0 False (c # cs))"

lemma digit_value_char_of: "k < 10 \<Longrightarrow> digit_value (char_of (48 + k :: nat)) = Some (int k)"
  by (simp add: digit_value_def Let_def of_char_of)

text \<open>Decimal notation is read back.\<close>

lemma py_digits_string_of_nat:
  "\<exists>k. py_digits acc ok (string_of_nat n @ cs) = py_digits (acc * 10 ^ k + int n) True cs"
proof (induction n arbitrary: acc ok cs rule: string_of_nat.induct)
  case (1 n)
  show ?case
  proof (cases "n < 10")
    case True
    then have "py_digits acc ok (string_of_nat n @ cs) = py_digits (acc * 10 ^ 1 + int n) True cs"
      by (simp add: string_of_nat.simps [of n] digit_value_char_of mult.commute)
    then show ?thesis by blast
  next
    case False
    then obtain k where "py_digits acc ok (string_of_nat (n div 10) @ char_of (48 + n mod 10) # cs)
        = py_digits (acc * 10 ^ k + int (n div 10)) True (char_of (48 + n mod 10) # cs)"
      using 1 by blast
    then have "py_digits acc ok (string_of_nat n @ cs)
        = py_digits (10 * (acc * 10 ^ k + int (n div 10)) + int (n mod 10)) True cs"
      using False by (simp add: string_of_nat.simps [of n] digit_value_char_of)
    also have "10 * (acc * 10 ^ k + int (n div 10)) + int (n mod 10) = acc * 10 ^ Suc k + int n"
    proof -
      have "int n = 10 * int (n div 10) + int (n mod 10)"
        using div_mult_mod_eq [of n 10] by linarith
      then show ?thesis by (simp add: algebra_simps)
    qed
    finally show ?thesis by blast
  qed
qed

lemma string_of_nat_digits: "\<exists>c cs. string_of_nat n = c # cs \<and> digit_value c \<noteq> None"
proof (induction n rule: string_of_nat.induct)
  case (1 n)
  then show ?case
    by (cases "n < 10") (auto simp: string_of_nat.simps [of n] digit_value_char_of)
qed

lemma string_of_nat_set: "c \<in> set (string_of_nat n) \<Longrightarrow> digit_value c \<noteq> None"
proof (induction n rule: string_of_nat.induct)
  case (1 n)
  then show ?case
    by (cases "n < 10") (auto simp: string_of_nat.simps [of n] digit_value_char_of)
qed

lemma digit_not_space: "digit_value c \<noteq> None \<Longrightarrow> \<not> is_space c"
  by (auto simp: digit_value_def is_space_def Let_def split: if_splits)

lemma py_strip_id:
  "\<lbrakk>s \<noteq> []; \<not> is_space (hd s); \<not> is_space (last s)\<rbrakk> \<Longrightarrow> py_strip s = s"
  by (simp add: py_strip_def dropWhile_eq_self_iff [THEN iffD2] hd_rev)

lemma py_int_string_of_int: "py_int (string_of_int i) = Some i"
proof -
  have nat: "py_digits 0 False (string_of_nat n) = Some (int n)" for n
    using py_digits_string_of_nat [of 0 False n "[]"] by auto
  have strip: "py_strip (string_of_int i) = string_of_int i"
  proof (rule py_strip_id)
    obtain c cs where c: "string_of_nat (nat (if i < 0 then - i else i)) = c # cs" "digit_value c \<noteq> None"
      using string_of_nat_digits by blast
    show "string_of_int i \<noteq> []" using c by (auto simp: string_of_int_def)
    show "\<not> is_space (hd (string_of_int i))"
      using c digit_not_space by (auto simp: string_of_int_def is_space_def)
    have "last (string_of_int i) \<in> set (string_of_nat (nat (if i < 0 then - i else i)))"
      using c by (auto simp: string_of_int_def)
    then show "\<not> is_space (last (string_of_int i))"
      by (intro digit_not_space string_of_nat_set)
  qed
  have sign: "string_of_nat n \<noteq> CHR ''-'' # cs" "string_of_nat n \<noteq> CHR ''+'' # cs" for n cs
    using string_of_nat_digits [of n] by (auto simp: digit_value_def)
  show ?thesis
  proof (cases "i < 0")
    case True
    with strip nat show ?thesis by (simp add: py_int_def string_of_int_def)
  next
    case False
    obtain c cs where c: "string_of_nat (nat i) = c # cs" using string_of_nat_digits by blast
    with sign have "c \<noteq> CHR ''-''" "c \<noteq> CHR ''+''" by metis+
    then have "py_int (c # cs) = py_digits 0 False (c # cs)"
      using False strip c by (simp add: py_int_def string_of_int_def del: py_digits.simps)
    with False c nat [of "nat i"] show ?thesis by (simp add: string_of_int_def)
  qed
qed

section \<open>Slices and bounded histories\<close>

text \<open>
  \<open>xs[-n:]\<close>: the last \<open>n\<close> elements, and the whole list for \<open>n = 0\<close>, because \<open>-0\<close> is \<open>0\<close>.
\<close>

definition py_last :: "nat \<Rightarrow> 'a list \<Rightarrow> 'a list" where
  "py_last n xs = (if n = 0 then xs else drop (length xs - n) xs)"

text \<open>The idiom \<open>if len(xs) > n: xs = xs[-n:]\<close> that bounds every history list of the code.\<close>

definition py_cap :: "nat \<Rightarrow> 'a list \<Rightarrow> 'a list" where
  "py_cap n xs = (if n < length xs then py_last n xs else xs)"

lemma length_py_cap: "0 < n \<Longrightarrow> length (py_cap n xs) \<le> n"
  by (simp add: py_cap_def py_last_def)

lemma py_cap_small: "length xs \<le> n \<Longrightarrow> py_cap n xs = xs"
  by (simp add: py_cap_def)

lemma py_cap_nested: "0 < n \<Longrightarrow> py_cap n (py_cap n xs @ ys) = py_cap n (xs @ ys)"
  by (auto simp: py_cap_def py_last_def add.commute)

lemma py_cap_suffix: "\<exists>ys. xs = ys @ py_cap n xs"
  by (auto simp: py_cap_def py_last_def) (metis append_take_drop_id)

lemma set_py_cap: "set (py_cap n xs) \<subseteq> set xs"
  by (auto simp: py_cap_def py_last_def dest: in_set_dropD)

lemma last_py_cap: "xs \<noteq> [] \<Longrightarrow> last (py_cap n xs) = last xs"
  by (auto simp: py_cap_def py_last_def)

lemma py_cap_snoc_mem: "x \<in> set (py_cap n (xs @ [x]))"
proof -
  have "py_cap n (xs @ [x]) \<noteq> []" by (simp add: py_cap_def py_last_def)
  then have "last (py_cap n (xs @ [x])) \<in> set (py_cap n (xs @ [x]))" by (rule last_in_set)
  then show ?thesis by (simp add: last_py_cap)
qed

section \<open>Python's round and stable sorts\<close>

definition round_half_even :: "rat \<Rightarrow> int" where
  "round_half_even x =
     (let f = \<lfloor>x\<rfloor>; d = x - of_int f
      in if d < 1 / 2 then f else if d > 1 / 2 then f + 1 else if even f then f else f + 1)"

definition py_round :: "rat \<Rightarrow> nat \<Rightarrow> rat" where
  "py_round x n = of_int (round_half_even (x * 10 ^ n)) / 10 ^ n"

lemma round_half_even_cases:
  "round_half_even x = \<lfloor>x\<rfloor> \<or> round_half_even x = \<lfloor>x\<rfloor> + 1"
  by (auto simp: round_half_even_def Let_def)

lemma round_half_even_mono:
  assumes "x \<le> y"
  shows "round_half_even x \<le> round_half_even y"
proof (cases "\<lfloor>x\<rfloor> = \<lfloor>y\<rfloor>")
  case True
  with assms show ?thesis by (auto simp: round_half_even_def Let_def)
next
  case False
  with assms have "\<lfloor>x\<rfloor> + 1 \<le> \<lfloor>y\<rfloor>" using floor_mono by fastforce
  then show ?thesis using round_half_even_cases [of x] round_half_even_cases [of y] by auto
qed

lemma py_round_mono: "x \<le> y \<Longrightarrow> py_round x n \<le> py_round y n"
  by (simp add: py_round_def divide_right_mono mult_right_mono round_half_even_mono)

lemma round_half_even_of_int [simp]: "round_half_even (of_int i) = i"
  by (simp add: round_half_even_def Let_def)

lemma py_round_0 [simp]: "py_round 0 n = 0"
  using round_half_even_of_int [of 0] by (simp add: py_round_def)

text \<open>\<open>xs.sort(key=f, reverse=True)\<close> is stable: ties keep their order.\<close>

definition sort_desc :: "('a \<Rightarrow> 'b::{linorder, ordered_ab_group_add}) \<Rightarrow> 'a list \<Rightarrow> 'a list" where
  "sort_desc f xs = sort_key (\<lambda>x. - f x) xs"

lemma set_sort_desc [simp]: "set (sort_desc f xs) = set xs"
  by (simp add: sort_desc_def)

lemma length_sort_desc [simp]: "length (sort_desc f xs) = length xs"
  by (simp add: sort_desc_def)

lemma distinct_sort_desc [simp]: "distinct (sort_desc f xs) = distinct xs"
  by (simp add: sort_desc_def)

lemma sort_desc_Nil_iff [simp]: "sort_desc f xs = [] \<longleftrightarrow> xs = []"
  by (metis length_0_conv length_sort_desc)

lemma sort_desc_stable: "filter (\<lambda>x. f x = v) (sort_desc f xs) = filter (\<lambda>x. f x = v) xs"
  using sort_key_stable [of "\<lambda>x. - f x" "- v" xs] by (simp add: sort_desc_def)

lemma sorted_sort_desc: "sorted_wrt (\<lambda>a b. f b \<le> f a) (sort_desc f xs)"
  using sorted_sort_key [of "\<lambda>x. - f x" xs] by (simp add: sort_desc_def sorted_wrt_map)

lemma sort_desc_hd_max:
  assumes "x \<in> set xs"
  shows "f x \<le> f (hd (sort_desc f xs))"
proof -
  from assms obtain y ys where eq: "sort_desc f xs = y # ys"
    by (metis list.exhaust list.set_cases set_sort_desc sort_desc_Nil_iff)
  with assms have "x = y \<or> x \<in> set ys" by (metis set_ConsD set_sort_desc)
  with sorted_sort_desc [of f xs] eq show ?thesis by auto
qed

lemma sort_desc_take_max:
  assumes "x \<in> set (take n (sort_desc f xs))" and "y \<in> set (drop n (sort_desc f xs))"
  shows "f y \<le> f x"
  using sorted_sort_desc [of f xs] assms
  by (metis append_take_drop_id sorted_wrt_append)

lemma insort_key_map: "insort_key g (h x) (map h ys) = map h (insort_key (\<lambda>x. g (h x)) x ys)"
  by (induction ys) auto

lemma sort_key_map: "sort_key g (map h xs) = map h (sort_key (\<lambda>x. g (h x)) xs)"
  by (induction xs) (simp_all add: insort_key_map)

lemma sort_desc_map: "sort_desc g (map h xs) = map h (sort_desc (\<lambda>x. g (h x)) xs)"
  by (simp add: sort_desc_def sort_key_map)

lemma map_fst_decorated: "map fst (map (\<lambda>x. (x, f x)) xs) = xs"
  by (induction xs) auto

text \<open>Decorate with the score, sort, undecorate: the sort of the plain elements by their score.\<close>

lemma map_fst_sort_desc_decorated:
  "map fst (sort_desc snd (map (\<lambda>x. (x, f x)) xs)) = sort_desc f xs"
  by (simp only: sort_desc_map map_fst_decorated snd_conv)

text \<open>\<open>max(xs, key=f)\<close> and \<open>min(xs, key=f)\<close>: the first element with the extreme key.\<close>

fun py_max :: "('a \<Rightarrow> 'b::linorder) \<Rightarrow> 'a \<Rightarrow> 'a list \<Rightarrow> 'a" where
  "py_max f b [] = b"
| "py_max f b (x # xs) = py_max f (if f b < f x then x else b) xs"

fun py_min :: "('a \<Rightarrow> 'b::linorder) \<Rightarrow> 'a \<Rightarrow> 'a list \<Rightarrow> 'a" where
  "py_min f b [] = b"
| "py_min f b (x # xs) = py_min f (if f x < f b then x else b) xs"

lemma py_max_in: "py_max f b xs \<in> insert b (set xs)"
  by (induction f b xs rule: py_max.induct) auto

lemma py_max_ge: "x \<in> insert b (set xs) \<Longrightarrow> f x \<le> f (py_max f b xs)"
proof (induction f b xs arbitrary: x rule: py_max.induct)
  case (2 f b y ys)
  let ?m = "py_max f (if f b < f y then y else b) ys"
  have m: "f (if f b < f y then y else b) \<le> f ?m" by (rule "2.IH") simp
  show ?case
  proof (cases "x \<in> set ys")
    case True
    then show ?thesis using "2.IH" [of x] by simp
  next
    case False
    with "2.prems" m show ?thesis by (auto split: if_splits)
  qed
qed simp

lemma py_min_in: "py_min f b xs \<in> insert b (set xs)"
  by (induction f b xs rule: py_min.induct) auto

lemma py_min_le: "x \<in> insert b (set xs) \<Longrightarrow> f (py_min f b xs) \<le> f x"
proof (induction f b xs arbitrary: x rule: py_min.induct)
  case (2 f b y ys)
  let ?m = "py_min f (if f y < f b then y else b) ys"
  have m: "f ?m \<le> f (if f y < f b then y else b)" by (rule "2.IH") simp
  show ?case
  proof (cases "x \<in> set ys")
    case True
    then show ?thesis using "2.IH" [of x] by simp
  next
    case False
    with "2.prems" m show ?thesis by (auto split: if_splits)
  qed
qed simp

section \<open>Runs that answer\<close>

text \<open>A list of operations, each of which changes the state and reports something.\<close>

fun run_outputs :: "('o \<Rightarrow> 's \<Rightarrow> 's \<times> 'e list) \<Rightarrow> 'o list \<Rightarrow> 's \<Rightarrow> 's \<times> 'e list" where
  "run_outputs step [] s = (s, [])"
| "run_outputs step (p # ps) s =
     (let (s1, es) = step p s; (s2, es') = run_outputs step ps s1 in (s2, es @ es'))"

lemma run_outputs_mem:
  "run_outputs step ps s = (s', es) \<Longrightarrow> e \<in> set es \<Longrightarrow> \<exists>p \<in> set ps. \<exists>s1. e \<in> set (snd (step p s1))"
proof (induction ps arbitrary: s es)
  case (Cons p ps)
  obtain s1 es1 where one: "step p s = (s1, es1)" by fastforce
  obtain es2 where rest: "run_outputs step ps s1 = (s', es2)" and es: "es = es1 @ es2"
    using Cons.prems(1) one by (auto split: prod.splits)
  show ?case
  proof (cases "e \<in> set es1")
    case True
    then have "e \<in> set (snd (step p s))" by (simp add: one)
    then show ?thesis by auto
  next
    case False
    with Cons.prems(2) es have "e \<in> set es2" by simp
    from Cons.IH [OF rest this] show ?thesis by auto
  qed
qed simp

lemma run_outputs_map:
  "run_outputs step ps s = (s', es) \<Longrightarrow> (\<And>p s1. p \<in> set ps \<Longrightarrow> map g (snd (step p s1)) = h p) \<Longrightarrow> map g es = concat (map h ps)"
proof (induction ps arbitrary: s es)
  case (Cons p ps)
  obtain s1 es1 where one: "step p s = (s1, es1)" by fastforce
  obtain es2 where rest: "run_outputs step ps s1 = (s', es2)" and es: "es = es1 @ es2"
    using Cons.prems(1) one by (auto split: prod.splits)
  have "map g es2 = concat (map h ps)" using Cons.prems(2) by (intro Cons.IH [OF rest]) simp
  moreover have "map g es1 = h p" using Cons.prems(2) [of p s] by (simp add: one)
  ultimately show ?case by (simp add: es)
qed simp

section \<open>Counting in a dictionary\<close>

text \<open>\<open>d[k] = d.get(k, 0) + 1\<close>.\<close>

definition tally :: "'k \<Rightarrow> ('k, nat) dict \<Rightarrow> ('k, nat) dict" where
  "tally k d = dput k ((case dget d k of Some n \<Rightarrow> n | None \<Rightarrow> 0) + 1) d"

definition tally_of :: "('k, nat) dict \<Rightarrow> 'k \<Rightarrow> nat" where
  "tally_of d k = (case dget d k of Some n \<Rightarrow> n | None \<Rightarrow> 0)"

lemma tally_of_tally [simp]: "tally_of (tally k d) j = (if j = k then Suc (tally_of d k) else tally_of d j)"
  by (simp add: tally_of_def tally_def)

lemma tally_of_Nil [simp]: "tally_of [] k = 0"
  by (simp add: tally_of_def)

lemma tally_of_fold: "tally_of (fold tally ks d) k = tally_of d k + count_list ks k"
  by (induction ks arbitrary: d) auto

end
