(* ===== verification/ClusterTypes.thy ===== *)
theory ClusterTypes
  imports Prelude
begin

text \<open>
  The data of \<open>shared/models.py\<close>: job requests and records, node registrations and states,
  events. A subclass of the source is a record extension, so that an operation on a
  \<open>JobRequest\<close> applies to a \<open>JobRecord\<close>. The free-text \<open>status\<close> field only ever holds the four
  values that the code writes, and is a datatype. A log line \<open>f"{ts}: {message}"\<close> is the pair
  of its time and its message.
\<close>

datatype job_type = Ai | Code | System | Shell

datatype job_power = Low | Medium | High

datatype node_type = GPU | CPU | EDGE

datatype job_status = Queued | Running | Completed | Failed

text \<open>The power levels are ordered as the autoscaler's preference takes them.\<close>

fun power_rank :: "job_power \<Rightarrow> nat" where
  "power_rank Low = 0"
| "power_rank Medium = 1"
| "power_rank High = 2"

instantiation job_power :: linorder
begin

definition less_eq_job_power :: "job_power \<Rightarrow> job_power \<Rightarrow> bool" where
  "less_eq_job_power a b \<longleftrightarrow> power_rank a \<le> power_rank b"

definition less_job_power :: "job_power \<Rightarrow> job_power \<Rightarrow> bool" where
  "less_job_power a b \<longleftrightarrow> power_rank a < power_rank b"

instance
proof
  fix a b :: job_power
  show "a \<le> b \<Longrightarrow> b \<le> a \<Longrightarrow> a = b"
    by (cases a; cases b) (simp_all add: less_eq_job_power_def)
qed (auto simp: less_eq_job_power_def less_job_power_def)

end

record job_request =
  job_id :: string
  job_type :: job_type
  job_task :: string
  job_required_nodes :: int
  job_power :: job_power
  job_gpu_required :: bool

text \<open>The bounds that the pydantic field \<open>required_nodes\<close> enforces on every request.\<close>

definition valid_job_request :: "'a job_request_scheme \<Rightarrow> bool" where
  "valid_job_request r \<longleftrightarrow> 1 \<le> job_required_nodes r \<and> job_required_nodes r \<le> 5"

record job_record = job_request +
  job_assigned_nodes :: "string list"
  job_status :: job_status
  job_result :: "json option"
  job_attempts :: int
  job_created_at :: pyfloat
  job_updated_at :: pyfloat
  job_started_at :: pyfloat
  job_finished_at :: pyfloat
  job_execution_logs :: "(pyfloat \<times> string) list"
  job_originating_cluster_id :: "string option"
  job_report_to_federation :: bool
  job_federation_controller_url :: "string option"

record node_registration =
  node_id :: string
  node_host :: string
  node_port :: int
  node_type :: node_type
  node_has_gpu :: bool
  node_secret :: string

record node_state = node_registration +
  node_current_load :: pyfloat
  node_healthy :: bool
  node_running_jobs :: "string list"
  node_last_seen :: pyfloat
  node_avg_latency_ms :: pyfloat
  node_queue_size :: int
  node_jobs_completed_ok :: int
  node_jobs_failed :: int
  node_total_cpu_ms :: pyfloat
  node_historical_load_ema :: pyfloat

record event_record =
  event_ts :: pyfloat
  event_level :: string
  event_event :: string
  event_details :: "(string \<times> json) list"

text \<open>\<open>NodeState(**payload.model_dump(), last_seen=now_ts())\<close> with every other field at its default.\<close>

definition node_state_of :: "node_registration \<Rightarrow> pyfloat \<Rightarrow> node_state" where
  "node_state_of r t =
     \<lparr>node_id = node_id r, node_host = node_host r, node_port = node_port r,
      node_type = node_type r, node_has_gpu = node_has_gpu r, node_secret = node_secret r,
      node_current_load = 0, node_healthy = True, node_running_jobs = [], node_last_seen = t,
      node_avg_latency_ms = 0, node_queue_size = 0, node_jobs_completed_ok = 0,
      node_jobs_failed = 0, node_total_cpu_ms = 0, node_historical_load_ema = 0\<rparr>"

lemma node_id_node_state_of [simp]: "node_id (node_state_of r t) = node_id r"
  by (simp add: node_state_of_def)

section \<open>Names and figures\<close>

text \<open>The enumerations are strings in requests: their names, and the members that a name stands for.\<close>

fun type_name :: "job_type \<Rightarrow> string" where
  "type_name Ai = ''ai''"
| "type_name Code = ''code''"
| "type_name System = ''system''"
| "type_name Shell = ''shell''"

definition type_of_name :: "string \<Rightarrow> job_type option" where
  "type_of_name s = List.find (\<lambda>ty. type_name ty = s) [Ai, Code, System, Shell]"

fun power_name :: "job_power \<Rightarrow> string" where
  "power_name Low = ''low''"
| "power_name Medium = ''medium''"
| "power_name High = ''high''"

definition power_of_name :: "string \<Rightarrow> job_power option" where
  "power_of_name s = List.find (\<lambda>p. power_name p = s) [Low, Medium, High]"

lemma names_read [simp]: "type_of_name (type_name ty) = Some ty" "power_of_name (power_name p) = Some p"
  by (cases ty; simp add: type_of_name_def) (cases p; simp add: power_of_name_def)

text \<open>The mean of a figure over the nodes of a cluster, which the services that describe a cluster report.\<close>

definition node_mean :: "(node_state \<Rightarrow> rat) \<Rightarrow> node_state list \<Rightarrow> rat" where
  "node_mean f ns = (if ns = [] then 0 else sum_list (map f ns) / of_nat (length ns))"

end
