(* ===== verification/ClusterMemory.thy ===== *)
theory ClusterMemory
  imports ClusterTypes
begin

text \<open>
  \<open>control_plane/memory.py\<close>: the in-memory view of the cluster (\<open>ClusterMemory\<close>) and the
  database it writes through to. The database is the record of its six tables. A JSON payload
  column holds the record it encodes (the standard library's \<open>json\<close> is the identity on these
  records), the secondary-key columns of the tables are the keys of dictionaries, and the two
  \<open>AUTOINCREMENT\<close> tables keep their row numbers. \<open>mem_pg\<close> says whether a PostgreSQL pool is
  set; every operation has the branch of the source for either backend. Clock readings are
  arguments.
\<close>

section \<open>State\<close>

record cluster_db =
  db_nodes :: "(string, node_state) dict"
  db_jobs :: "(string, job_record) dict"
  db_queue :: "(nat \<times> string) list"
  db_queue_seq :: nat
  db_events :: "(nat \<times> event_record) list"
  db_event_seq :: nat
  db_node_secrets :: "(string, string) dict"
  db_registry_kv :: "(string, json \<times> pyfloat) dict"

record cluster_memory =
  mem_nodes :: "(string, node_state) dict"
  mem_jobs :: "(string, job_record) dict"
  mem_queue :: "string list"
  mem_events :: "event_record list"
  mem_pg :: bool
  mem_db :: cluster_db

text \<open>The tables that the two \<open>_init\<close> functions create.\<close>

definition init_sqlite :: cluster_db where
  "init_sqlite =
     \<lparr>db_nodes = [], db_jobs = [], db_queue = [], db_queue_seq = 1, db_events = [],
      db_event_seq = 1, db_node_secrets = [], db_registry_kv = []\<rparr>"

section \<open>Restoring after a restart\<close>

text \<open>
  The loops \<open>self.nodes[node.node_id] = node\<close> and \<open>self.jobs[job.id] = job\<close> over the payloads,
  and the queue and the events in the order of their row numbers.
\<close>

definition restore_nodes :: "cluster_db \<Rightarrow> (string, node_state) dict" where
  "restore_nodes db = fold (\<lambda>n. dput (node_id n) n) (dvalues (db_nodes db)) []"

definition restore_jobs :: "cluster_db \<Rightarrow> (string, job_record) dict" where
  "restore_jobs db = fold (\<lambda>j. dput (job_id j) j) (dvalues (db_jobs db)) []"

definition queue_rows :: "cluster_db \<Rightarrow> string list" where
  "queue_rows db = map snd (sort_key fst (db_queue db))"

definition restore_sqlite :: "bool \<Rightarrow> cluster_db \<Rightarrow> cluster_memory" where
  "restore_sqlite pg db =
     \<lparr>mem_nodes = restore_nodes db, mem_jobs = restore_jobs db, mem_queue = queue_rows db,
      mem_events = map snd (sort_key fst (db_events db)), mem_pg = pg, mem_db = db\<rparr>"

section \<open>Writing through\<close>

definition upd_db :: "(cluster_db \<Rightarrow> cluster_db) \<Rightarrow> cluster_memory \<Rightarrow> cluster_memory" where
  "upd_db f m = m\<lparr>mem_db := f (mem_db m)\<rparr>"

definition persist_node :: "node_state \<Rightarrow> cluster_memory \<Rightarrow> cluster_memory" where
  "persist_node n = upd_db (\<lambda>db. db\<lparr>db_nodes := dput (node_id n) n (db_nodes db)\<rparr>)"

definition save_job_row :: "job_record \<Rightarrow> cluster_memory \<Rightarrow> cluster_memory" where
  "save_job_row j = upd_db (\<lambda>db. db\<lparr>db_jobs := dput (job_id j) j (db_jobs db)\<rparr>)"

text \<open>\<open>DELETE FROM queue\<close>, then one row per queued id; the row counter is never reset.\<close>

definition persist_queue_sqlite :: "cluster_memory \<Rightarrow> cluster_memory" where
  "persist_queue_sqlite m =
     upd_db (\<lambda>db. db\<lparr>db_queue := enumerate (db_queue_seq db) (mem_queue m),
                     db_queue_seq := db_queue_seq db + length (mem_queue m)\<rparr>) m"

text \<open>
  \<open>INSERT ... WHERE NOT EXISTS\<close>. The \<open>BIGSERIAL\<close> default is drawn only for a row that is
  inserted.
\<close>

definition append_queue_pg :: "string \<Rightarrow> cluster_memory \<Rightarrow> cluster_memory" where
  "append_queue_pg jid =
     upd_db (\<lambda>db. if jid \<in> snd ` set (db_queue db) then db
                  else db\<lparr>db_queue := db_queue db @ [(db_queue_seq db, jid)],
                          db_queue_seq := db_queue_seq db + 1\<rparr>)"

definition save_node_secret :: "string \<Rightarrow> string \<Rightarrow> cluster_memory \<Rightarrow> cluster_memory" where
  "save_node_secret nid secret =
     upd_db (\<lambda>db. db\<lparr>db_node_secrets := dput nid secret (db_node_secrets db)\<rparr>)"

definition get_node_secret :: "string \<Rightarrow> cluster_memory \<Rightarrow> string option" where
  "get_node_secret nid m = dget (db_node_secrets (mem_db m)) nid"

section \<open>Jobs and the queue\<close>

definition save_job :: "job_record \<Rightarrow> cluster_memory \<Rightarrow> cluster_memory" where
  "save_job j m = save_job_row j (m\<lparr>mem_jobs := dput (job_id j) j (mem_jobs m)\<rparr>)"

definition persist_queue :: "cluster_memory \<Rightarrow> cluster_memory" where
  "persist_queue m = (if mem_pg m then m else persist_queue_sqlite m)"

definition queue_snapshot :: "cluster_memory \<Rightarrow> string list" where
  "queue_snapshot m = (if mem_pg m then queue_rows (mem_db m) else mem_queue m)"

definition append_if_absent :: "'a \<Rightarrow> 'a list \<Rightarrow> 'a list" where
  "append_if_absent x xs = (if x \<in> set xs then xs else xs @ [x])"

definition ensure_job_queued :: "string \<Rightarrow> cluster_memory \<Rightarrow> cluster_memory" where
  "ensure_job_queued jid m =
     (let m1 = m\<lparr>mem_queue := append_if_absent jid (mem_queue m)\<rparr>
      in if mem_pg m then append_queue_pg jid m1 else persist_queue_sqlite m1)"

definition enqueue_job :: "job_record \<Rightarrow> cluster_memory \<Rightarrow> cluster_memory" where
  "enqueue_job j m =
     (let m1 = m\<lparr>mem_jobs := dput (job_id j) j (mem_jobs m),
                 mem_queue := append_if_absent (job_id j) (mem_queue m)\<rparr>;
          m2 = save_job j m1
      in if mem_pg m then append_queue_pg (job_id j) m2 else persist_queue_sqlite m2)"

text \<open>
  The row that \<open>SELECT ... ORDER BY queue_id LIMIT 1 FOR UPDATE SKIP LOCKED\<close> finds when other
  replicas hold the rows of \<open>locked\<close>.
\<close>

definition first_unlocked :: "nat list \<Rightarrow> (nat \<times> string) list \<Rightarrow> (nat \<times> string) option" where
  "first_unlocked locked rows =
     (case filter (\<lambda>r. fst r \<notin> set locked) (sort_key fst rows) of [] \<Rightarrow> None | r # _ \<Rightarrow> Some r)"

definition pop_next_job_sqlite :: "cluster_memory \<Rightarrow> cluster_memory \<times> job_record option" where
  "pop_next_job_sqlite m =
     (case mem_queue m of
        [] \<Rightarrow> (m, None)
      | jid # rest \<Rightarrow>
          (persist_queue_sqlite (m\<lparr>mem_queue := rest\<rparr>), dget (mem_jobs m) jid))"

text \<open>
  \<open>if not job_id\<close> also holds for an empty id; \<open>deque.remove\<close> drops the first occurrence and its
  \<open>ValueError\<close> is swallowed, which is \<open>remove1\<close>.
\<close>

definition pop_next_job_pg :: "nat list \<Rightarrow> cluster_memory \<Rightarrow> cluster_memory \<times> job_record option" where
  "pop_next_job_pg locked m =
     (case first_unlocked locked (db_queue (mem_db m)) of
        None \<Rightarrow> (m, None)
      | Some (qid, jid) \<Rightarrow>
          let m1 = upd_db (\<lambda>db. db\<lparr>db_queue := filter (\<lambda>r. fst r \<noteq> qid) (db_queue db)\<rparr>) m
          in if jid = [] then (m1, None)
             else case dget (mem_jobs m1) jid of
               Some j \<Rightarrow> (m1\<lparr>mem_queue := remove1 jid (mem_queue m1)\<rparr>, Some j)
             | None \<Rightarrow>
                 (case dget (db_jobs (mem_db m1)) jid of
                    None \<Rightarrow> (m1, None)
                  | Some j \<Rightarrow>
                      (m1\<lparr>mem_jobs := dput (job_id j) j (mem_jobs m1),
                          mem_queue := remove1 jid (mem_queue m1)\<rparr>, Some j)))"

definition pop_next_job :: "nat list \<Rightarrow> cluster_memory \<Rightarrow> cluster_memory \<times> job_record option" where
  "pop_next_job locked m =
     (if mem_pg m then pop_next_job_pg locked m else pop_next_job_sqlite m)"

section \<open>Events, registry, nodes\<close>

definition emit :: "pyfloat \<Rightarrow> string \<Rightarrow> string \<Rightarrow> (string \<times> json) list \<Rightarrow> cluster_memory \<Rightarrow> cluster_memory"
  where
  "emit t level ev details m =
     (let r = \<lparr>event_ts = t, event_level = level, event_event = ev, event_details = details\<rparr>
      in upd_db (\<lambda>db. db\<lparr>db_events := db_events db @ [(db_event_seq db, r)],
                         db_event_seq := db_event_seq db + 1\<rparr>)
           (m\<lparr>mem_events := mem_events m @ [r]\<rparr>))"

definition registry_put :: "pyfloat \<Rightarrow> string \<Rightarrow> json \<Rightarrow> cluster_memory \<Rightarrow> cluster_memory" where
  "registry_put t k v = upd_db (\<lambda>db. db\<lparr>db_registry_kv := dput k (v, t) (db_registry_kv db)\<rparr>)"

definition registry_get :: "string \<Rightarrow> cluster_memory \<Rightarrow> json option" where
  "registry_get k m = map_option fst (dget (db_registry_kv (mem_db m)) k)"

definition rejoin :: "node_state \<Rightarrow> node_state \<Rightarrow> node_state" where
  "rejoin n existing =
     existing\<lparr>node_host := node_host n, node_port := node_port n, node_type := node_type n,
              node_has_gpu := node_has_gpu n, node_healthy := True\<rparr>"

definition add_node :: "pyfloat \<Rightarrow> node_state \<Rightarrow> cluster_memory \<Rightarrow> cluster_memory" where
  "add_node t n m =
     (let stored = (case dget (mem_nodes m) (node_id n) of Some e \<Rightarrow> rejoin n e | None \<Rightarrow> n);
          snapshot = stored\<lparr>node_last_seen := t\<rparr>;
          m1 = m\<lparr>mem_nodes := dput (node_id n) snapshot (mem_nodes m)\<rparr>
      in emit t ''info'' ''node_joined'' [(''node_id'', JStr (node_id n))] (persist_node snapshot m1))"

definition remove_node :: "pyfloat \<Rightarrow> string \<Rightarrow> cluster_memory \<Rightarrow> cluster_memory \<times> node_state option"
  where
  "remove_node t nid m =
     (let node = dget (mem_nodes m) nid;
          m1 = upd_db (\<lambda>db. db\<lparr>db_nodes := ddel nid (db_nodes db)\<rparr>)
                 (m\<lparr>mem_nodes := ddel nid (mem_nodes m)\<rparr>)
      in (if node \<noteq> None
          then emit t ''warning'' ''node_removed'' [(''node_id'', JStr nid)] m1 else m1, node))"

section \<open>The database is in step with the memory\<close>

text \<open>
  What the SQLite backend keeps between any two operations: each table holds exactly the rows of
  the in-memory view, and the numbered tables are in the order of the in-memory lists.
\<close>

definition synced :: "cluster_memory \<Rightarrow> bool" where
  "synced m \<longleftrightarrow>
     \<not> mem_pg m
     \<and> keyed node_id (mem_nodes m) \<and> keyed node_id (db_nodes (mem_db m))
     \<and> set (db_nodes (mem_db m)) = set (mem_nodes m)
     \<and> keyed job_id (mem_jobs m) \<and> keyed job_id (db_jobs (mem_db m))
     \<and> set (db_jobs (mem_db m)) = set (mem_jobs m)
     \<and> map snd (db_queue (mem_db m)) = mem_queue m \<and> sorted (map fst (db_queue (mem_db m)))
     \<and> map snd (db_events (mem_db m)) = mem_events m \<and> sorted (map fst (db_events (mem_db m)))
     \<and> (\<forall>e \<in> set (db_events (mem_db m)). fst e < db_event_seq (mem_db m))"

text \<open>What a restart of the control plane would read back is the memory it had.\<close>

definition durable :: "cluster_memory \<Rightarrow> bool" where
  "durable m \<longleftrightarrow>
     (let r = restore_sqlite False (mem_db m)
      in set (mem_nodes r) = set (mem_nodes m) \<and> set (mem_jobs r) = set (mem_jobs m)
         \<and> mem_queue r = mem_queue m \<and> mem_events r = mem_events m)"

definition empty_memory :: cluster_memory where
  "empty_memory = restore_sqlite False init_sqlite"

lemmas memory_defs =
  upd_db_def persist_node_def save_job_row_def persist_queue_sqlite_def save_node_secret_def
  save_job_def ensure_job_queued_def enqueue_job_def pop_next_job_def pop_next_job_sqlite_def
  registry_put_def add_node_def remove_node_def persist_queue_def

lemma restore_synced:
  "synced m \<Longrightarrow> restore_nodes (mem_db m) = db_nodes (mem_db m)
     \<and> restore_jobs (mem_db m) = db_jobs (mem_db m) \<and> queue_rows (mem_db m) = mem_queue m
     \<and> map snd (sort_key fst (db_events (mem_db m))) = mem_events m"
  by (simp add: synced_def restore_nodes_def restore_jobs_def queue_rows_def rebuild_keyed
      sort_key_id_if_sorted)

lemma synced_durable: "synced m \<Longrightarrow> durable m"
  by (frule restore_synced) (simp add: durable_def restore_sqlite_def synced_def)

lemma synced_restore: "synced m \<Longrightarrow> synced (restore_sqlite False (mem_db m))"
  by (frule restore_synced) (simp add: restore_sqlite_def synced_def)

lemma synced_empty [simp]: "synced empty_memory"
  by (simp add: synced_def empty_memory_def restore_sqlite_def init_sqlite_def restore_nodes_def
      restore_jobs_def queue_rows_def)

lemma synced_sqlite: "synced m \<Longrightarrow> \<not> mem_pg m"
  by (simp add: synced_def)

lemma synced_save_job [intro]: "synced m \<Longrightarrow> synced (save_job j m)"
  by (auto simp: synced_def memory_defs set_dput keyed_def)

lemma enumerate_snd [simp]: "map snd (enumerate n xs) = xs"
  by (simp add: enumerate_eq_zip)

lemma synced_requeue: "synced m \<Longrightarrow> synced (persist_queue_sqlite (m\<lparr>mem_queue := q\<rparr>))"
  by (simp add: synced_def memory_defs enumerate_eq_zip)

lemma synced_persist_queue [intro]: "synced m \<Longrightarrow> synced (persist_queue m)"
  using synced_requeue [of m "mem_queue m"] by (simp add: persist_queue_def synced_sqlite)

lemma synced_ensure_job_queued [intro]: "synced m \<Longrightarrow> synced (ensure_job_queued jid m)"
  by (simp add: ensure_job_queued_def synced_sqlite synced_requeue)

lemma enqueue_job_sqlite:
  "\<not> mem_pg m \<Longrightarrow> enqueue_job j m =
     persist_queue_sqlite
       ((save_job j m)\<lparr>mem_queue := append_if_absent (job_id j) (mem_queue m)\<rparr>)"
  by (cases m) (simp add: enqueue_job_def save_job_def save_job_row_def upd_db_def)

lemma synced_enqueue_job [intro]: "synced m \<Longrightarrow> synced (enqueue_job j m)"
  by (simp add: enqueue_job_sqlite synced_sqlite synced_requeue synced_save_job)

lemma synced_pop_next_job:
  "synced m \<Longrightarrow> pop_next_job locked m = (m1, r) \<Longrightarrow> synced m1"
  by (auto simp: pop_next_job_def pop_next_job_sqlite_def synced_sqlite synced_requeue
      split: list.splits)

lemma synced_emit [intro]: "synced m \<Longrightarrow> synced (emit t l e d m)"
  by (auto simp: synced_def emit_def upd_db_def Let_def sorted_append less_imp_le)

lemma synced_save_node_secret [intro]: "synced m \<Longrightarrow> synced (save_node_secret nid s m)"
  by (simp add: synced_def memory_defs)

lemma synced_registry_put [intro]: "synced m \<Longrightarrow> synced (registry_put t k v m)"
  by (simp add: synced_def memory_defs)

lemma rejoin_id [simp]: "node_id (rejoin n e) = node_id e"
  by (simp add: rejoin_def)

lemma synced_put_persist:
  "synced m \<Longrightarrow> synced (persist_node n (m\<lparr>mem_nodes := dput (node_id n) n (mem_nodes m)\<rparr>))"
  by (auto simp: synced_def memory_defs set_dput keyed_def)

lemma add_node_alt:
  assumes "keyed node_id (mem_nodes m)"
  obtains s where "node_id s = node_id n"
    and "add_node t n m = emit t ''info'' ''node_joined'' [(''node_id'', JStr (node_id n))]
           (persist_node s (m\<lparr>mem_nodes := dput (node_id s) s (mem_nodes m)\<rparr>))"
proof
  let ?s = "(case dget (mem_nodes m) (node_id n) of Some e \<Rightarrow> rejoin n e | None \<Rightarrow> n)
              \<lparr>node_last_seen := t\<rparr>"
  show *: "node_id ?s = node_id n"
    using keyed_dget [OF assms] by (auto split: option.splits)
  show "add_node t n m = emit t ''info'' ''node_joined'' [(''node_id'', JStr (node_id n))]
           (persist_node ?s (m\<lparr>mem_nodes := dput (node_id ?s) ?s (mem_nodes m)\<rparr>))"
    unfolding * by (simp add: add_node_def Let_def)
qed

lemma synced_add_node: "synced m \<Longrightarrow> synced (add_node t n m)"
proof -
  assume m: "synced m"
  then have "keyed node_id (mem_nodes m)" by (simp add: synced_def)
  then obtain s where "node_id s = node_id n"
    and "add_node t n m = emit t ''info'' ''node_joined'' [(''node_id'', JStr (node_id n))]
           (persist_node s (m\<lparr>mem_nodes := dput (node_id s) s (mem_nodes m)\<rparr>))"
    by (rule add_node_alt)
  note eq = this(2)
  show ?thesis unfolding eq by (intro synced_emit synced_put_persist m)
qed

lemma synced_remove_node [intro]: "synced m \<Longrightarrow> synced (fst (remove_node t nid m))"
  by (auto simp: remove_node_def Let_def upd_db_def intro!: synced_emit)
    (auto simp: synced_def set_ddel keyed_def)

end
