(* ===== verification/JobQueue.thy ===== *)
theory JobQueue
  imports ClusterMemory
begin

text \<open>
  \<open>storage/job_queue.py\<close>: the life cycle of a job. Each function mutates the job and saves it,
  so it returns the new job with the new memory.
\<close>

definition MAX_JOB_RETRIES :: int where
  "MAX_JOB_RETRIES = 3"

fun status_name :: "job_status \<Rightarrow> string" where
  "status_name Queued = ''queued''"
| "status_name Running = ''running''"
| "status_name Completed = ''completed''"
| "status_name Failed = ''failed''"

definition build_job_record :: "pyfloat \<Rightarrow> job_request \<Rightarrow> job_record" where
  "build_job_record t r =
     \<lparr>job_id = job_id r, job_type = job_type r, job_task = job_task r,
      job_required_nodes = job_required_nodes r, job_power = job_power r,
      job_gpu_required = job_gpu_required r, job_assigned_nodes = [], job_status = Queued,
      job_result = None, job_attempts = 0, job_created_at = t, job_updated_at = t,
      job_started_at = 0, job_finished_at = 0, job_execution_logs = [(t, ''job accepted'')],
      job_originating_cluster_id = None, job_report_to_federation = False,
      job_federation_controller_url = None\<rparr>"

definition log_job ::
    "pyfloat \<Rightarrow> string \<Rightarrow> job_record \<times> cluster_memory \<Rightarrow> job_record \<times> cluster_memory" where
  "log_job t msg jm =
     (let j = (fst jm)\<lparr>job_updated_at := t,
                      job_execution_logs := job_execution_logs (fst jm) @ [(t, msg)]\<rparr>
      in (j, save_job j (snd jm)))"

definition mark_running ::
    "pyfloat \<Rightarrow> job_record \<times> cluster_memory \<Rightarrow> job_record \<times> cluster_memory" where
  "mark_running t jm =
     (let j = fst jm;
          j1 = (if job_started_at j = 0 then j\<lparr>job_started_at := t\<rparr> else j);
          j2 = j1\<lparr>job_status := Running, job_updated_at := t, job_attempts := job_attempts j1 + 1\<rparr>
      in log_job t ''job running'' (j2, snd jm))"

definition mark_finished ::
    "pyfloat \<Rightarrow> bool \<Rightarrow> job_record \<times> cluster_memory \<Rightarrow> job_record \<times> cluster_memory" where
  "mark_finished t ok jm =
     (let st = (if ok then Completed else Failed);
          j = (fst jm)\<lparr>job_finished_at := t, job_updated_at := t, job_status := st\<rparr>
      in log_job t (''job finished status='' @ status_name st) (j, snd jm))"

definition requeue_or_fail ::
    "pyfloat \<Rightarrow> string \<Rightarrow> job_record \<times> cluster_memory \<Rightarrow> job_record \<times> cluster_memory" where
  "requeue_or_fail t reason jm =
     (let j = fst jm
      in if job_attempts j \<ge> MAX_JOB_RETRIES
         then log_job t (''retry exhausted; failed: '' @ reason) (j\<lparr>job_status := Failed\<rparr>, snd jm)
         else let (j1, m1) = log_job t (''requeued: '' @ reason) (j\<lparr>job_status := Queued\<rparr>, snd jm)
              in (j1, ensure_job_queued (job_id j1) m1))"

end
