(* ===== verification/NodeScheduler.thy ===== *)
theory NodeScheduler
  imports ClusterTypes
begin

text \<open>
  \<open>scheduler/weighted.py\<close> and its thin wrapper \<open>control_plane/scheduler.py\<close>: the weighted score
  of a node for a job, the ranking of the eligible nodes and the selection of the best ones.
\<close>

definition latency_prediction_ms :: "node_state \<Rightarrow> rat" where
  "latency_prediction_ms n =
     (let load_hint = node_historical_load_ema n * 1200
      in max (max (node_avg_latency_ms n) load_hint) 1)"

definition history_reliability :: "node_state \<Rightarrow> rat" where
  "history_reliability n =
     (let total = node_jobs_completed_ok n + node_jobs_failed n
      in if total \<le> 0 then 1 / 2 else of_int (node_jobs_completed_ok n) / of_int total)"

definition node_score :: "node_state \<Rightarrow> 'a job_request_scheme \<Rightarrow> rat" where
  "node_score n j =
     (let load_component = max 0 (1 - node_current_load n) * (32 / 100);
          gpu0 = (if job_gpu_required j \<and> node_has_gpu n then 28 / 100
                  else if node_has_gpu n then 12 / 100 else 0);
          pred = latency_prediction_ms n;
          latency_component = max 0 (1 - min pred 2500 / 2500) * (18 / 100);
          queue_component = max 0 (1 - of_int (min (node_queue_size n) 50) / 50) * (10 / 100);
          history_component = (history_reliability n - 1 / 2) * (30 / 100);
          gpu1 = (if job_power j = High \<and> \<not> node_has_gpu n then gpu0 - 25 / 100 else gpu0);
          gpu2 = (if job_gpu_required j \<and> \<not> node_has_gpu n then gpu1 - 55 / 100 else gpu1)
      in py_round (load_component + gpu2 + latency_component + queue_component
                   + history_component) 6)"

definition rank_nodes :: "'a job_request_scheme \<Rightarrow> node_state list \<Rightarrow> (node_state \<times> rat) list" where
  "rank_nodes j ns =
     (let eligible = filter node_healthy ns;
          eligible' = (if job_gpu_required j then filter node_has_gpu eligible else eligible)
      in sort_desc snd (map (\<lambda>n. (n, node_score n j)) eligible'))"

text \<open>
  \<open>ranked[: job.required_nodes]\<close>; pydantic keeps \<open>required_nodes\<close> between 1 and 5, so the slice
  bound is never negative.
\<close>

definition select_best_nodes :: "'a job_request_scheme \<Rightarrow> node_state list \<Rightarrow> node_state list" where
  "select_best_nodes j ns = map fst (take (nat (job_required_nodes j)) (rank_nodes j ns))"

definition select_nodes :: "'a job_request_scheme \<Rightarrow> node_state list \<Rightarrow> node_state list" where
  "select_nodes j ns = select_best_nodes j ns"

section \<open>Eligibility and optimality\<close>

definition eligible :: "'a job_request_scheme \<Rightarrow> node_state \<Rightarrow> bool" where
  "eligible j n \<longleftrightarrow> node_healthy n \<and> (job_gpu_required j \<longrightarrow> node_has_gpu n)"

lemma rank_nodes_alt:
  "rank_nodes j ns = sort_desc snd (map (\<lambda>n. (n, node_score n j)) (filter (eligible j) ns))"
proof -
  have "filter (eligible j) ns =
      (if job_gpu_required j then filter node_has_gpu (filter node_healthy ns)
       else filter node_healthy ns)"
    by (auto simp: eligible_def intro: filter_cong)
  then show ?thesis by (simp only: rank_nodes_def Let_def)
qed

lemma set_rank_nodes:
  "set (rank_nodes j ns) = {(n, node_score n j) | n. n \<in> set ns \<and> eligible j n}"
  by (auto simp: rank_nodes_alt)

lemma fst_rank_nodes:
  "map fst (rank_nodes j ns) = sort_desc (\<lambda>n. node_score n j) (filter (eligible j) ns)"
  by (simp only: rank_nodes_alt map_fst_sort_desc_decorated)

lemma select_nodes_alt:
  "select_nodes j ns =
     take (nat (job_required_nodes j)) (sort_desc (\<lambda>n. node_score n j) (filter (eligible j) ns))"
  by (simp only: select_nodes_def select_best_nodes_def take_map [symmetric] fst_rank_nodes)

lemma set_select_nodes: "n \<in> set (select_nodes j ns) \<Longrightarrow> n \<in> set ns \<and> eligible j n"
  by (auto simp: select_nodes_alt dest!: in_set_takeD)

lemma length_select_nodes:
  "length (select_nodes j ns) = min (length (filter (eligible j) ns)) (nat (job_required_nodes j))"
  by (simp add: select_nodes_alt)

lemma distinct_select_nodes: "distinct ns \<Longrightarrow> distinct (select_nodes j ns)"
  by (simp add: select_nodes_alt)

lemma select_nodes_best:
  assumes "a \<in> set (select_nodes j ns)" "b \<in> set ns" "eligible j b" "b \<notin> set (select_nodes j ns)"
  shows "node_score b j \<le> node_score a j"
proof -
  let ?s = "sort_desc (\<lambda>n. node_score n j) (filter (eligible j) ns)"
    and ?k = "nat (job_required_nodes j)"
  have a: "a \<in> set (take ?k ?s)" using assms(1) by (simp add: select_nodes_alt)
  have "b \<in> set ?s" using assms by simp
  moreover have "b \<notin> set (take ?k ?s)" using assms(4) by (simp add: select_nodes_alt)
  ultimately have "b \<in> set (drop ?k ?s)" by (metis Un_iff append_take_drop_id set_append)
  with a show ?thesis by (rule sort_desc_take_max)
qed

text \<open>
  The score stays in a fixed band for a node whose load lies in the unit interval and whose
  counters are consistent.
\<close>

lemma history_reliability_unit:
  assumes "0 \<le> node_jobs_completed_ok n" "0 \<le> node_jobs_failed n"
  shows "0 \<le> history_reliability n \<and> history_reliability n \<le> 1"
  using assms by (auto simp: history_reliability_def Let_def field_simps)

end
