(* ===== verification/ControlPlane.thy ===== *)
theory ControlPlane
  imports JobQueue NodeScheduler
begin

text \<open>
  The handlers of the control plane: \<open>control_plane/app.py\<close> (scheduling, job results,
  heartbeats, registration, provisioning, node authentication), \<open>control_plane/nodes.py\<close>
  (dispatch and registration) and \<open>control_plane/health.py\<close> (dead nodes). Every handler is a
  function of the memory; the clock reading of the call, the answers of the network and the
  verdicts of the token library are its arguments. Jobs and nodes are shared objects in the
  source: a handler that mutates a node writes it back (\<open>put_node\<close>) before it calls
  \<open>add_node\<close>, as the aliasing of the source does.
\<close>

section \<open>Authentication of a node\<close>

type_synonym http_error = "nat \<times> string"

text \<open>
  \<open>require_token\<close>: the argument is the raw header and the configured token (empty: no check).
\<close>

definition require_token :: "string \<Rightarrow> string option \<Rightarrow> http_error option" where
  "require_token api_token authorization =
     (if api_token = [] then None
      else case authorization of
        None \<Rightarrow> Some (401, ''missing bearer token'')
      | Some h \<Rightarrow>
          if \<not> starts_with ''Bearer '' h then Some (401, ''missing bearer token'')
          else if py_strip (drop 7 h) \<noteq> api_token then Some (403, ''invalid token'') else None)"

text \<open>
  \<open>verify_jwt\<close> is the token library's verdict on the stripped node token, \<open>verify_sig\<close> the HMAC
  check of the request with the node's stored secret and id.
\<close>

definition require_node_auth ::
    "bool \<Rightarrow> (string \<Rightarrow> string option) \<Rightarrow> (string \<Rightarrow> string \<Rightarrow> bool) \<Rightarrow> cluster_memory
      \<Rightarrow> string option \<Rightarrow> string option \<Rightarrow> string option \<Rightarrow> http_error + string" where
  "require_node_auth jwt_configured verify_jwt verify_sig m node_jwt body_id header_id =
     (let jwt_claim = (if jwt_configured
                       then Option.bind (truthy node_jwt) (\<lambda>tok. truthy (verify_jwt (py_strip tok))) else None)
      in case jwt_claim of
        Some claim \<Rightarrow>
          if truthy body_id \<noteq> None \<and> body_id \<noteq> Some claim
          then Inl (403, ''node id mismatch vs jwt'')
          else if truthy header_id \<noteq> None \<and> header_id \<noteq> Some claim
          then Inl (403, ''node header mismatch vs jwt'')
          else Inr claim
      | None \<Rightarrow>
          (case (case truthy header_id of Some i \<Rightarrow> Some i | None \<Rightarrow> truthy body_id) of
             None \<Rightarrow> Inl (401, ''missing node identity'')
           | Some nid \<Rightarrow>
               (case truthy (get_node_secret nid m) of
                  None \<Rightarrow> Inl (403, ''unknown node'')
                | Some secret \<Rightarrow>
                    if verify_sig secret nid then Inr nid
                    else Inl (403, ''invalid node signature''))))"

section \<open>Registration and dispatch\<close>

definition put_node :: "node_state \<Rightarrow> cluster_memory \<Rightarrow> cluster_memory" where
  "put_node n m = m\<lparr>mem_nodes := dput (node_id n) n (mem_nodes m)\<rparr>"

text \<open>A node of the memory, mutated by the handler and then passed to \<open>memory.add_node\<close>.\<close>

definition store_node :: "pyfloat \<Rightarrow> node_state \<Rightarrow> cluster_memory \<Rightarrow> cluster_memory" where
  "store_node t n m = add_node t n (put_node n m)"

definition register_node :: "pyfloat \<Rightarrow> node_registration \<Rightarrow> cluster_memory \<Rightarrow> cluster_memory" where
  "register_node t r m =
     (let m1 = add_node t (node_state_of r t) m
      in if node_secret r \<noteq> [] then save_node_secret (node_id r) (node_secret r) m1 else m1)"

text \<open>
  \<open>POST /register_node\<close> refuses a registration without a secret.
\<close>

definition register ::
    "pyfloat \<Rightarrow> node_registration \<Rightarrow> cluster_memory \<Rightarrow> http_error + cluster_memory" where
  "register t r m =
     (if node_secret r = [] then Inl (400, ''node_secret required'') else Inr (register_node t r m))"

text \<open>
  What the POST to a node can do: answer 2xx with a JSON body after some milliseconds, answer
  2xx with a body that is not JSON (\<open>resp.json()\<close> raises a \<open>RequestException\<close> after the node has
  been updated), or fail.
\<close>

datatype http_outcome = HttpOk pyfloat | HttpBadJson pyfloat string | HttpFail string

definition node_after_dispatch :: "pyfloat \<Rightarrow> pyfloat \<Rightarrow> string \<Rightarrow> node_state \<Rightarrow> node_state" where
  "node_after_dispatch t lat jid n =
     (let jobs = node_running_jobs n @ [jid]
      in n\<lparr>node_current_load := min 1 (node_current_load n + 2 / 10),
           node_running_jobs := jobs,
           node_last_seen := t,
           node_avg_latency_ms :=
             (if node_avg_latency_ms n = 0 then lat
              else node_avg_latency_ms n * (7 / 10) + lat * (3 / 10)),
           node_queue_size := int (length jobs)\<rparr>)"

definition dispatch_ok ::
    "pyfloat \<Rightarrow> pyfloat \<Rightarrow> node_state \<Rightarrow> job_record \<Rightarrow> cluster_memory \<Rightarrow> cluster_memory" where
  "dispatch_ok t lat n j m =
     (let n1 = node_after_dispatch t lat (job_id j) n
      in emit t ''info'' ''job_dispatched'' [(''job_id'', JStr (job_id j)), (''node_id'', JStr (node_id n))]
           (store_node t n1 m))"

definition dispatch_failed ::
    "pyfloat \<Rightarrow> string \<Rightarrow> node_state \<Rightarrow> job_record \<Rightarrow> cluster_memory \<Rightarrow> cluster_memory" where
  "dispatch_failed t err n j m =
     emit t ''error'' ''job_dispatch_failed''
       [(''job_id'', JStr (job_id j)), (''node_id'', JStr (node_id n)), (''error'', JStr err)] m"

definition dispatch_job ::
    "pyfloat \<Rightarrow> http_outcome \<Rightarrow> node_state \<Rightarrow> job_record \<Rightarrow> cluster_memory
      \<Rightarrow> cluster_memory \<times> bool" where
  "dispatch_job t out n j m =
     (case out of
        HttpOk lat \<Rightarrow> (dispatch_ok t lat n j m, True)
      | HttpBadJson lat err \<Rightarrow> (dispatch_failed t err n j (dispatch_ok t lat n j m), False)
      | HttpFail err \<Rightarrow> (dispatch_failed t err n j m, False))"

section \<open>One scheduling step\<close>

text \<open>The loop over the candidates; it collects the nodes that took the job.\<close>

fun dispatch_all ::
    "pyfloat \<Rightarrow> (string \<Rightarrow> http_outcome) \<Rightarrow> node_state list \<Rightarrow> job_record \<times> cluster_memory
      \<Rightarrow> string list \<Rightarrow> (job_record \<times> cluster_memory) \<times> string list" where
  "dispatch_all t net [] jm assigned = (jm, assigned)"
| "dispatch_all t net (n # ns) jm assigned =
     (let (m1, ok) = dispatch_job t (net (node_id n)) n (fst jm) (snd jm)
      in if ok then dispatch_all t net ns (fst jm, m1) (assigned @ [node_id n])
         else dispatch_all t net ns
                (log_job t (''dispatch failure node='' @ node_id n) (fst jm, m1)) assigned)"

definition schedule_job ::
    "pyfloat \<Rightarrow> (string \<Rightarrow> http_outcome) \<Rightarrow> job_record \<Rightarrow> cluster_memory \<Rightarrow> cluster_memory" where
  "schedule_job t net j m =
     (if job_status j = Completed \<or> job_status j = Failed then m
      else if job_attempts j \<ge> MAX_JOB_RETRIES
      then snd (log_job t ''retry limit reached before dispatch'' (j\<lparr>job_status := Failed\<rparr>, m))
      else let candidates = select_nodes j (dvalues (mem_nodes m)) in
        if int (length candidates) < job_required_nodes j
        then emit t ''warning'' ''insufficient_nodes'' [(''job_id'', JStr (job_id j))]
               (snd (requeue_or_fail t ''insufficient_nodes'' (j, m)))
        else let (jm, assigned) = dispatch_all t net candidates (mark_running t (j, m)) [] in
          if int (length assigned) \<ge> job_required_nodes j
          then persist_queue (save_job ((fst jm)\<lparr>job_assigned_nodes := assigned\<rparr>) (snd jm))
          else snd (requeue_or_fail t ''partial_dispatch_failure'' jm))"

definition schedule_once ::
    "bool \<Rightarrow> pyfloat \<Rightarrow> nat list \<Rightarrow> (string \<Rightarrow> http_outcome) \<Rightarrow> cluster_memory \<Rightarrow> cluster_memory" where
  "schedule_once leader t locked net m =
     (if \<not> leader then m
      else case pop_next_job locked m of
        (m1, None) \<Rightarrow> m1
      | (m1, Some j) \<Rightarrow> schedule_job t net j m1)"

section \<open>Handlers\<close>

definition submit_job ::
    "bool \<Rightarrow> pyfloat \<Rightarrow> nat list \<Rightarrow> (string \<Rightarrow> http_outcome) \<Rightarrow> job_request \<Rightarrow> cluster_memory
      \<Rightarrow> cluster_memory" where
  "submit_job leader t locked net r m =
     (let rec = build_job_record t r
      in schedule_once leader t locked net
           (emit t ''info'' ''job_submitted'' [(''job_id'', JStr (job_id rec))] (enqueue_job rec m)))"

definition ema :: "rat \<Rightarrow> node_state \<Rightarrow> node_state" where
  "ema beta n =
     n\<lparr>node_historical_load_ema :=
         beta * node_current_load n + (1 - beta) * node_historical_load_ema n\<rparr>"

text \<open>The statistics of the reporting node, then the release of every assigned node.\<close>

definition record_result :: "pyfloat \<Rightarrow> rat \<Rightarrow> bool \<Rightarrow> string \<Rightarrow> cluster_memory \<Rightarrow> cluster_memory" where
  "record_result t beta ok nid m =
     (case dget (mem_nodes m) nid of
        None \<Rightarrow> m
      | Some n \<Rightarrow>
          let n1 = (if ok then n\<lparr>node_jobs_completed_ok := node_jobs_completed_ok n + 1\<rparr>
                    else n\<lparr>node_jobs_failed := node_jobs_failed n + 1\<rparr>);
              n2 = ema beta n1
          in store_node t n2 m)"

definition release_node :: "pyfloat \<Rightarrow> string \<Rightarrow> string \<Rightarrow> cluster_memory \<Rightarrow> cluster_memory" where
  "release_node t jid nid m =
     (case dget (mem_nodes m) nid of
        None \<Rightarrow> m
      | Some n \<Rightarrow> store_node t (n\<lparr>node_current_load := max 0 (node_current_load n - 2 / 10),
                                 node_running_jobs := remove1 jid (node_running_jobs n)\<rparr>) m)"

definition release_nodes :: "pyfloat \<Rightarrow> string \<Rightarrow> string list \<Rightarrow> cluster_memory \<Rightarrow> cluster_memory" where
  "release_nodes t jid nids m = fold (release_node t jid) nids m"

definition job_result ::
    "bool \<Rightarrow> pyfloat \<Rightarrow> nat list \<Rightarrow> (string \<Rightarrow> http_outcome) \<Rightarrow> rat \<Rightarrow> string \<Rightarrow> string
      \<Rightarrow> json \<Rightarrow> bool \<Rightarrow> cluster_memory \<Rightarrow> http_error + cluster_memory" where
  "job_result leader t locked net beta auth_node_id jid payload ok m =
     (case dget (mem_jobs m) jid of
        None \<Rightarrow> Inl (404, ''job not found'')
      | Some j \<Rightarrow>
          let (j1, m1) = mark_finished t ok (j\<lparr>job_result := Some payload\<rparr>, m);
              m2 = record_result t beta ok auth_node_id m1;
              m3 = release_nodes t jid (job_assigned_nodes j1) m2;
              m4 = emit t ''info'' ''job_finished''
                     [(''job_id'', JStr jid), (''status'', JStr (status_name (job_status j1))),
                      (''node_id'', JStr auth_node_id)] m3;
              m5 = (if job_status j1 = Failed
                    then snd (requeue_or_fail t ''node_reported_failure'' (j1, m4)) else m4)
          in Inr (schedule_once leader t locked net m5))"

record heartbeat_payload =
  hb_current_load :: "pyfloat option"
  hb_running_jobs :: "string list option"
  hb_queue_size :: "int option"
  hb_avg_latency_ms :: "pyfloat option"

definition or_else :: "'a \<Rightarrow> 'a option \<Rightarrow> 'a" where
  "or_else d x = (case x of Some v \<Rightarrow> v | None \<Rightarrow> d)"

definition heartbeat ::
    "pyfloat \<Rightarrow> rat \<Rightarrow> string \<Rightarrow> heartbeat_payload \<Rightarrow> cluster_memory \<Rightarrow> http_error + cluster_memory"
  where
  "heartbeat t beta auth_node_id p m =
     (case dget (mem_nodes m) auth_node_id of
        None \<Rightarrow> Inl (404, ''node not registered'')
      | Some n \<Rightarrow>
          let jobs = or_else (node_running_jobs n) (hb_running_jobs p);
              n1 = n\<lparr>node_current_load := or_else (node_current_load n) (hb_current_load p),
                     node_running_jobs := jobs,
                     node_queue_size := or_else (int (length jobs)) (hb_queue_size p),
                     node_avg_latency_ms := or_else (node_avg_latency_ms n) (hb_avg_latency_ms p),
                     node_last_seen := t,
                     node_healthy := True\<rparr>;
              n2 = ema beta n1;
              m1 = store_node t n2 m
          in Inr (registry_put t (''node:'' @ auth_node_id)
                    (JObj [(''host'', JStr (node_host n2)), (''port'', JNum (of_int (node_port n2))),
                           (''last_seen'', JNum t), (''load'', JNum (node_current_load n2)),
                           (''healthy'', JBool True)]) m1))"

section \<open>Dead nodes\<close>

definition requeue_job :: "pyfloat \<Rightarrow> string \<Rightarrow> cluster_memory \<Rightarrow> cluster_memory" where
  "requeue_job t jid m =
     (case dget (mem_jobs m) jid of
        None \<Rightarrow> m
      | Some j \<Rightarrow> emit t ''warning'' ''job_requeued'' [(''job_id'', JStr jid)]
                   (snd (requeue_or_fail t ''node_dead_recovery'' (j, m))))"

definition requeue_jobs :: "pyfloat \<Rightarrow> string list \<Rightarrow> cluster_memory \<Rightarrow> cluster_memory" where
  "requeue_jobs t jids m = fold (requeue_job t) jids m"

text \<open>The loop runs over a snapshot of the items.\<close>

definition check_node ::
    "pyfloat \<Rightarrow> pyfloat \<Rightarrow> string \<times> node_state \<Rightarrow> cluster_memory \<Rightarrow> cluster_memory" where
  "check_node now dead_after row m =
     (let nid = fst row; n = snd row
      in if now - node_last_seen n > dead_after
         then let m1 = emit now ''error'' ''node_dead''
                         [(''node_id'', JStr nid), (''last_seen'', JNum (node_last_seen n))]
                         (m\<lparr>mem_nodes := dput nid (n\<lparr>node_healthy := False\<rparr>) (mem_nodes m)\<rparr>)
              in requeue_jobs now (node_running_jobs n) (fst (remove_node now nid m1))
         else m)"

definition check_nodes_once :: "pyfloat \<Rightarrow> pyfloat \<Rightarrow> cluster_memory \<Rightarrow> cluster_memory" where
  "check_nodes_once now dead_after m = fold (check_node now dead_after) (mem_nodes m) m"

section \<open>The handlers keep the database in step\<close>

lemma synced_store_node [intro]:
  assumes "synced m"
  shows "synced (store_node t n m)"
proof -
  have "keyed node_id (mem_nodes (put_node n m))"
    using assms by (auto simp: put_node_def synced_def)
  then obtain s where s: "node_id s = node_id n"
    and eq: "add_node t n (put_node n m) =
      emit t ''info'' ''node_joined'' [(''node_id'', JStr (node_id n))]
        (persist_node s ((put_node n m)\<lparr>mem_nodes := dput (node_id s) s (mem_nodes (put_node n m))\<rparr>))"
    by (rule add_node_alt)
  have "(put_node n m)\<lparr>mem_nodes := dput (node_id s) s (mem_nodes (put_node n m))\<rparr>
      = m\<lparr>mem_nodes := dput (node_id s) s (mem_nodes m)\<rparr>"
    by (simp add: put_node_def s)
  then show ?thesis unfolding store_node_def eq by (simp only: synced_emit synced_put_persist assms)
qed

text \<open>Node operations and events leave the jobs and the queue alone.\<close>

lemma node_ops_frame [simp, frame_simps]:
  "mem_jobs (emit t l e d m) = mem_jobs m" "mem_queue (emit t l e d m) = mem_queue m"
  "mem_jobs (add_node t n m) = mem_jobs m" "mem_queue (add_node t n m) = mem_queue m"
  "mem_jobs (put_node n m) = mem_jobs m" "mem_queue (put_node n m) = mem_queue m"
  "mem_jobs (store_node t n m) = mem_jobs m" "mem_queue (store_node t n m) = mem_queue m"
  "mem_jobs (save_node_secret nid s m) = mem_jobs m"
  "mem_queue (save_node_secret nid s m) = mem_queue m"
  "mem_jobs (registry_put t k v m) = mem_jobs m" "mem_queue (registry_put t k v m) = mem_queue m"
  "mem_jobs (fst (remove_node t nid m)) = mem_jobs m"
  "mem_queue (fst (remove_node t nid m)) = mem_queue m"
  by (simp_all add: emit_def put_node_def store_node_def memory_defs Let_def)

lemma job_ops_frame [simp, frame_simps]:
  "mem_jobs (save_job j m) = dput (job_id j) j (mem_jobs m)"
  "mem_queue (save_job j m) = mem_queue m"
  "mem_jobs (ensure_job_queued jid m) = mem_jobs m"
  "mem_queue (ensure_job_queued jid m) = append_if_absent jid (mem_queue m)"
  "mem_jobs (persist_queue m) = mem_jobs m" "mem_queue (persist_queue m) = mem_queue m"
  "mem_jobs (enqueue_job j m) = dput (job_id j) j (mem_jobs m)"
  "mem_queue (enqueue_job j m) = append_if_absent (job_id j) (mem_queue m)"
  by (simp_all add: memory_defs append_queue_pg_def Let_def)

lemma set_append_if_absent [simp]: "set (append_if_absent x xs) = insert x (set xs)"
  by (auto simp: append_if_absent_def)

lemma distinct_append_if_absent [simp]: "distinct (append_if_absent x xs) = distinct xs"
  by (auto simp: append_if_absent_def)

section \<open>The job invariant\<close>

text \<open>
  \<open>X\<close> is the set of jobs in the hands of the running handler, which may be queued without
  standing in the queue.
\<close>

definition attempts_ok :: "job_record \<Rightarrow> bool" where
  "attempts_ok j \<longleftrightarrow> 0 \<le> job_attempts j \<and> job_attempts j \<le> MAX_JOB_RETRIES"

definition cp_inv :: "string set \<Rightarrow> cluster_memory \<Rightarrow> bool" where
  "cp_inv X m \<longleftrightarrow>
     synced m \<and> distinct (mem_queue m) \<and> set (mem_queue m) \<subseteq> fst ` set (mem_jobs m)
     \<and> (\<forall>k j. dget (mem_jobs m) k = Some j \<longrightarrow>
           attempts_ok j \<and> (job_status j = Queued \<longrightarrow> k \<in> set (mem_queue m) \<or> k \<in> X))"

lemma cp_inv_synced: "cp_inv X m \<Longrightarrow> synced m"
  by (simp add: cp_inv_def)

lemma cp_inv_mono: "cp_inv X m \<Longrightarrow> X \<subseteq> Y \<Longrightarrow> cp_inv Y m"
  by (auto simp: cp_inv_def)

lemma cp_inv_frame:
  "cp_inv X m \<Longrightarrow> synced m' \<Longrightarrow> mem_jobs m' = mem_jobs m \<Longrightarrow> mem_queue m' = mem_queue m
     \<Longrightarrow> cp_inv X m'"
  by (simp add: cp_inv_def)

lemma cp_inv_emit [intro]: "cp_inv X m \<Longrightarrow> cp_inv X (emit t l e d m)"
  by (rule cp_inv_frame) (auto dest: cp_inv_synced)

lemma cp_inv_add_node: "cp_inv X m \<Longrightarrow> cp_inv X (add_node t n m)"
  by (rule cp_inv_frame) (auto dest: cp_inv_synced synced_add_node)

lemma cp_inv_store_node [intro]: "cp_inv X m \<Longrightarrow> cp_inv X (store_node t n m)"
  by (rule cp_inv_frame) (auto dest: cp_inv_synced)

lemma cp_inv_registry_put [intro]: "cp_inv X m \<Longrightarrow> cp_inv X (registry_put t k v m)"
  by (rule cp_inv_frame) (auto dest: cp_inv_synced)

lemma cp_inv_save_node_secret [intro]: "cp_inv X m \<Longrightarrow> cp_inv X (save_node_secret nid s m)"
  by (rule cp_inv_frame) (auto dest: cp_inv_synced)

lemma cp_inv_persist_queue [intro]: "cp_inv X m \<Longrightarrow> cp_inv X (persist_queue m)"
  by (rule cp_inv_frame) (auto dest: cp_inv_synced)

lemma cp_inv_remove_node [intro]: "cp_inv X m \<Longrightarrow> cp_inv X (fst (remove_node t nid m))"
  by (rule cp_inv_frame) (auto dest: cp_inv_synced)

lemma cp_inv_save_job:
  assumes "cp_inv X m" "attempts_ok j" "X \<subseteq> insert (job_id j) Y"
    and "job_status j = Queued \<Longrightarrow> job_id j \<in> set (mem_queue m) \<union> Y"
  shows "cp_inv Y (save_job j m)"
  using assms by (auto simp: cp_inv_def)

lemma cp_inv_ensure_job_queued:
  assumes "cp_inv X m" "jid \<in> fst ` set (mem_jobs m)" "X \<subseteq> insert jid Y"
  shows "cp_inv Y (ensure_job_queued jid m)"
  using assms by (auto simp: cp_inv_def)

lemma cp_inv_enqueue_job:
  "cp_inv X m \<Longrightarrow> attempts_ok j \<Longrightarrow> cp_inv X (enqueue_job j m)"
  by (auto simp: cp_inv_def)

lemma cp_inv_dget: "cp_inv X m \<Longrightarrow> dget (mem_jobs m) k = Some j \<Longrightarrow> job_id j = k \<and> attempts_ok j"
  by (auto simp: cp_inv_def synced_def dest: keyed_dget)

text \<open>The functions of the job queue, on a job in hand.\<close>

lemma log_job_simps [simp]:
  "job_id (fst (log_job t s jm)) = job_id (fst jm)"
  "job_attempts (fst (log_job t s jm)) = job_attempts (fst jm)"
  "job_status (fst (log_job t s jm)) = job_status (fst jm)"
  "job_assigned_nodes (fst (log_job t s jm)) = job_assigned_nodes (fst jm)"
  "attempts_ok (fst (log_job t s jm)) = attempts_ok (fst jm)"
  "mem_queue (snd (log_job t s jm)) = mem_queue (snd jm)"
  "mem_jobs (snd (log_job t s jm)) = dput (job_id (fst jm)) (fst (log_job t s jm)) (mem_jobs (snd jm))"
  by (simp_all add: log_job_def attempts_ok_def Let_def)

lemma cp_inv_log_job:
  assumes "cp_inv X (snd jm)" "attempts_ok (fst jm)" "X \<subseteq> insert (job_id (fst jm)) Y"
    and "job_status (fst jm) = Queued \<Longrightarrow> job_id (fst jm) \<in> set (mem_queue (snd jm)) \<union> Y"
  shows "cp_inv Y (snd (log_job t s jm))"
proof -
  have "snd (log_job t s jm) = save_job (fst (log_job t s jm)) (snd jm)"
    by (simp add: log_job_def Let_def)
  then show ?thesis using assms cp_inv_save_job [of X "snd jm" "fst (log_job t s jm)" Y] by simp
qed

lemma cp_inv_requeue_or_fail:
  assumes "cp_inv {job_id (fst jm)} (snd jm)" "attempts_ok (fst jm)"
  shows "cp_inv {} (snd (requeue_or_fail t r jm))"
proof (cases "job_attempts (fst jm) \<ge> MAX_JOB_RETRIES")
  case True
  with assms show ?thesis
    by (auto simp: requeue_or_fail_def Let_def attempts_ok_def intro!: cp_inv_log_job)
next
  case False
  let ?l = "log_job t (''requeued: '' @ r) ((fst jm)\<lparr>job_status := Queued\<rparr>, snd jm)"
  have "cp_inv {job_id (fst jm)} (snd ?l)"
    using assms by (intro cp_inv_log_job [of "{job_id (fst jm)}"]) (auto simp: attempts_ok_def)
  then have "cp_inv {} (ensure_job_queued (job_id (fst jm)) (snd ?l))"
    by (rule cp_inv_ensure_job_queued) auto
  with False show ?thesis by (simp add: requeue_or_fail_def Let_def case_prod_unfold)
qed

section \<open>Every handler keeps the invariant\<close>

lemma cp_inv_dispatch_job: "cp_inv X m \<Longrightarrow> cp_inv X (fst (dispatch_job t out n j m))"
  by (auto simp: dispatch_job_def dispatch_ok_def dispatch_failed_def Let_def
      split: http_outcome.splits)

lemma cp_inv_dispatch_all:
  assumes "cp_inv {} (snd jm)" "attempts_ok (fst jm)" "job_status (fst jm) \<noteq> Queued"
  shows "cp_inv {} (snd (fst (dispatch_all t net ns jm asg)))
    \<and> attempts_ok (fst (fst (dispatch_all t net ns jm asg)))
    \<and> job_status (fst (fst (dispatch_all t net ns jm asg))) \<noteq> Queued"
  using assms
proof (induction ns arbitrary: jm asg)
  case (Cons n ns)
  obtain m1 ok where d: "dispatch_job t (net (node_id n)) n (fst jm) (snd jm) = (m1, ok)"
    by (cases "dispatch_job t (net (node_id n)) n (fst jm) (snd jm)")
  from cp_inv_dispatch_job [OF Cons.prems(1), of t "net (node_id n)" n "fst jm"] d
  have m1: "cp_inv {} m1" by simp
  let ?l = "log_job t (''dispatch failure node='' @ node_id n) (fst jm, m1)"
  have l: "cp_inv {} (snd ?l)"
    using m1 Cons.prems by (intro cp_inv_log_job [of "{}"]) auto
  show ?case
  proof (cases ok)
    case True
    with d m1 Cons.prems Cons.IH [of "(fst jm, m1)" "asg @ [node_id n]"] show ?thesis by simp
  next
    case False
    with d l Cons.prems Cons.IH [of ?l asg] show ?thesis by simp
  qed
qed simp

lemma mark_running_simps [simp]:
  "job_id (fst (mark_running t jm)) = job_id (fst jm)"
  "job_status (fst (mark_running t jm)) = Running"
  "job_attempts (fst (mark_running t jm)) = job_attempts (fst jm) + 1"
  by (simp_all add: mark_running_def Let_def)

lemma cp_inv_mark_running:
  assumes "cp_inv {job_id (fst jm)} (snd jm)" "attempts_ok (fst jm)"
    "job_attempts (fst jm) < MAX_JOB_RETRIES"
  shows "cp_inv {} (snd (mark_running t jm))" "attempts_ok (fst (mark_running t jm))"
proof -
  show "cp_inv {} (snd (mark_running t jm))"
    unfolding mark_running_def Let_def using assms
    by (intro cp_inv_log_job [of "{job_id (fst jm)}"]) (auto simp: attempts_ok_def)
  show "attempts_ok (fst (mark_running t jm))"
    using assms by (simp add: attempts_ok_def)
qed

lemma cp_inv_schedule_job:
  assumes m: "cp_inv {job_id j} m" and j: "attempts_ok j"
    and stored: "dget (mem_jobs m) (job_id j) = Some j"
  shows "cp_inv {} (schedule_job t net j m)"
proof -
  have done_case: "cp_inv {} m" if "job_status j = Completed \<or> job_status j = Failed"
  proof -
    have "k \<noteq> job_id j" if "dget (mem_jobs m) k = Some i" "job_status i = Queued" for k i
      using that stored \<open>job_status j = Completed \<or> job_status j = Failed\<close> by auto
    with m show ?thesis unfolding cp_inv_def by blast
  qed
  have exhausted: "cp_inv {} (snd (log_job t s (j\<lparr>job_status := Failed\<rparr>, m)))" for s
    using m j by (intro cp_inv_log_job [of "{job_id j}"]) (auto simp: attempts_ok_def)
  have dispatched: "cp_inv {} (if int (length asg) \<ge> job_required_nodes j
        then persist_queue (save_job ((fst jm)\<lparr>job_assigned_nodes := asg\<rparr>) (snd jm))
        else snd (requeue_or_fail t ''partial_dispatch_failure'' jm))"
    if a: "\<not> job_attempts j \<ge> MAX_JOB_RETRIES"
      and d: "dispatch_all t net ns (mark_running t (j, m)) [] = (jm, asg)" for jm asg ns
  proof -
    have r: "cp_inv {} (snd (mark_running t (j, m)))" "attempts_ok (fst (mark_running t (j, m)))"
      using cp_inv_mark_running [of "(j, m)" t] m j a by auto
    from cp_inv_dispatch_all [OF r, of t net ns "[]"] d
    have q: "cp_inv {} (snd jm)" "attempts_ok (fst jm)" "job_status (fst jm) \<noteq> Queued" by auto
    then have "cp_inv {} (save_job ((fst jm)\<lparr>job_assigned_nodes := asg\<rparr>) (snd jm))"
      by (intro cp_inv_save_job [of "{}"]) (auto simp: attempts_ok_def)
    with q show ?thesis
      by (auto intro!: cp_inv_requeue_or_fail intro: cp_inv_mono)
  qed
  show ?thesis
    using done_case exhausted dispatched cp_inv_requeue_or_fail [of "(j, m)"] m j
    by (auto simp: schedule_job_def Let_def split: prod.split)
qed

lemma cp_inv_pop:
  assumes m: "cp_inv {} m" and p: "pop_next_job locked m = (m1, Some j)"
  shows "cp_inv {job_id j} m1" "attempts_ok j" "dget (mem_jobs m1) (job_id j) = Some j"
proof -
  from m have pg: "\<not> mem_pg m" and s1: "synced m1"
    using synced_pop_next_job [OF cp_inv_synced [OF m] p] by (auto simp: cp_inv_def synced_def)
  from p pg obtain jid rest where "mem_queue m = jid # rest" and g: "dget (mem_jobs m) jid = Some j"
    and "m1 = persist_queue_sqlite (m\<lparr>mem_queue := rest\<rparr>)"
    by (simp add: pop_next_job_def pop_next_job_sqlite_def split: list.splits)
  with cp_inv_dget [OF m g] have q: "mem_queue m = job_id j # rest" "mem_queue m1 = rest"
    and js: "mem_jobs m1 = mem_jobs m" "dget (mem_jobs m) (job_id j) = Some j"
    by (simp_all add: persist_queue_sqlite_def upd_db_def)
  show "cp_inv {job_id j} m1" using m q js s1 by (auto simp: cp_inv_def)
  show "attempts_ok j" using cp_inv_dget [OF m js(2)] by simp
  show "dget (mem_jobs m1) (job_id j) = Some j" using js by simp
qed

lemma cp_inv_pop_None:
  assumes m: "cp_inv {} m" and p: "pop_next_job locked m = (m1, None)"
  shows "m1 = m" "mem_queue m = []"
proof -
  from m have pg: "\<not> mem_pg m" and "set (mem_queue m) \<subseteq> fst ` set (mem_jobs m)"
    by (auto simp: cp_inv_def synced_def)
  then have "jid \<in> set (mem_queue m) \<Longrightarrow> dget (mem_jobs m) jid \<noteq> None" for jid
    by (auto simp: dget_None_iff)
  then have "dget (mem_jobs m) (hd (mem_queue m)) \<noteq> None" if "mem_queue m \<noteq> []"
    using that by (cases "mem_queue m") auto
  with p pg show "m1 = m" "mem_queue m = []"
    by (auto simp: pop_next_job_def pop_next_job_sqlite_def split: list.splits)
qed

lemma cp_inv_schedule_once [intro]:
  assumes m: "cp_inv {} m"
  shows "cp_inv {} (schedule_once leader t locked net m)"
proof -
  obtain m1 r where p: "pop_next_job locked m = (m1, r)" by (cases "pop_next_job locked m")
  show ?thesis
  proof (cases r)
    case None
    with cp_inv_pop_None(1) [OF m, of locked m1] p have "m1 = m" by simp
    with None p m show ?thesis by (simp add: schedule_once_def)
  next
    case (Some j)
    with cp_inv_schedule_job [OF cp_inv_pop [OF m]] p m show ?thesis
      by (simp add: schedule_once_def)
  qed
qed

lemma cp_inv_submit_job [intro]:
  "cp_inv {} m \<Longrightarrow> cp_inv {} (submit_job leader t locked net r m)"
  by (auto simp: submit_job_def Let_def build_job_record_def attempts_ok_def MAX_JOB_RETRIES_def
      intro!: cp_inv_enqueue_job cp_inv_schedule_once)

lemma cp_inv_register_node [intro]: "cp_inv X m \<Longrightarrow> cp_inv X (register_node t r m)"
  by (auto simp: register_node_def Let_def cp_inv_add_node)

lemma cp_inv_record_result [intro]: "cp_inv X m \<Longrightarrow> cp_inv X (record_result t beta ok nid m)"
  by (auto simp: record_result_def Let_def split: option.splits)

lemma cp_inv_release_node [intro]: "cp_inv X m \<Longrightarrow> cp_inv X (release_node t jid nid m)"
  by (auto simp: release_node_def split: option.split)

lemma cp_inv_release_nodes [intro]: "cp_inv X m \<Longrightarrow> cp_inv X (release_nodes t jid nids m)"
  unfolding release_nodes_def by (rule fold_inv) auto

lemma mark_finished_simps [simp]:
  "job_id (fst (mark_finished t ok jm)) = job_id (fst jm)"
  "attempts_ok (fst (mark_finished t ok jm)) = attempts_ok (fst jm)"
  "job_status (fst (mark_finished t ok jm)) = (if ok then Completed else Failed)"
  by (simp_all add: mark_finished_def attempts_ok_def Let_def)

lemma cp_inv_mark_finished:
  "cp_inv {} (snd jm) \<Longrightarrow> attempts_ok (fst jm) \<Longrightarrow> cp_inv {} (snd (mark_finished t ok jm))"
  unfolding mark_finished_def Let_def
  by (intro cp_inv_log_job [of "{}"]) (auto simp: attempts_ok_def split: if_splits)

lemma cp_inv_job_result:
  assumes m: "cp_inv {} m"
    and r: "job_result leader t locked net beta nid jid payload ok m = Inr m'"
  shows "cp_inv {} m'"
proof -
  from r obtain j where j: "dget (mem_jobs m) jid = Some j"
    by (auto simp: job_result_def split: option.splits)
  define jm where "jm = mark_finished t ok (j\<lparr>job_result := Some payload\<rparr>, m)"
  have a: "attempts_ok (j\<lparr>job_result := Some payload\<rparr>)"
    using cp_inv_dget [OF m j] by (simp add: attempts_ok_def)
  with m have "cp_inv {} (snd jm)" "attempts_ok (fst jm)"
    unfolding jm_def by (auto intro: cp_inv_mark_finished)
  then have e: "cp_inv {} (emit t l e d (release_nodes t jid ns (record_result t beta ok nid (snd jm))))"
    for l e d ns by auto
  then have "cp_inv {} (snd (requeue_or_fail t r (fst jm,
      emit t l e d (release_nodes t jid ns (record_result t beta ok nid (snd jm))))))" for r l e d ns
    using cp_inv_mono [OF e] \<open>attempts_ok (fst jm)\<close> by (intro cp_inv_requeue_or_fail) simp_all
  with e r j show ?thesis
    by (auto simp: job_result_def jm_def [symmetric] Let_def case_prod_unfold)
qed

lemma cp_inv_heartbeat:
  "cp_inv {} m \<Longrightarrow> heartbeat t beta nid p m = Inr m' \<Longrightarrow> cp_inv {} m'"
  by (auto simp: heartbeat_def Let_def split: option.splits)

lemma cp_inv_requeue_job [intro]:
  assumes m: "cp_inv {} m"
  shows "cp_inv {} (requeue_job t jid m)"
proof (cases "dget (mem_jobs m) jid")
  case (Some j)
  have "cp_inv {} (snd (requeue_or_fail t r (j, m)))" for r
    using cp_inv_dget [OF m Some] cp_inv_mono [OF m] by (intro cp_inv_requeue_or_fail) auto
  with Some show ?thesis by (auto simp: requeue_job_def)
qed (simp add: requeue_job_def m)

lemma cp_inv_requeue_jobs [intro]: "cp_inv {} m \<Longrightarrow> cp_inv {} (requeue_jobs t jids m)"
  unfolding requeue_jobs_def by (rule fold_inv) auto

lemma remove_node_mutated:
  "fst (remove_node t nid (emit t1 l e d (m\<lparr>mem_nodes := dput nid n (mem_nodes m)\<rparr>)))
     = (if nid \<in> fst ` set (mem_nodes m) then fst (remove_node t nid (emit t1 l e d m))
        else emit t ''warning'' ''node_removed'' [(''node_id'', JStr nid)]
               (fst (remove_node t nid (emit t1 l e d m))))"
proof -
  have "dget (mem_nodes m) nid = None \<longleftrightarrow> nid \<notin> fst ` set (mem_nodes m)"
    by (rule dget_None_iff)
  then show ?thesis
    by (cases m) (auto simp: remove_node_def Let_def emit_def upd_db_def AList.delete_update_same)
qed

lemma cp_inv_check_node [intro]:
  assumes "cp_inv {} m"
  shows "cp_inv {} (check_node now da row m)"
proof -
  have "cp_inv {} (fst (remove_node now nid
      (emit now l e d (m\<lparr>mem_nodes := dput nid n (mem_nodes m)\<rparr>))))" for nid l e d n
    unfolding remove_node_mutated using assms by auto
  then show ?thesis using assms by (auto simp: check_node_def Let_def)
qed

lemma cp_inv_check_nodes_once [intro]: "cp_inv {} m \<Longrightarrow> cp_inv {} (check_nodes_once now da m)"
  unfolding check_nodes_once_def by (rule fold_inv) auto

end
