(* ===== verification/JobDispatch.thy ===== *)
theory JobDispatch
  imports ControlPlane
begin

text \<open>
  What one call of \<open>schedule_once\<close> does to the job that it took (\<open>control_plane/app.py\<close>), branch by
  branch, what the death of a node does to the jobs it reported
  (\<open>control_plane/health.py\<close>), and what a successful node authentication proves about the caller.
\<close>

section \<open>The dispatch loop\<close>

text \<open>A node takes the job when its answer is 2xx with a JSON body.\<close>

definition accepts :: "(string \<Rightarrow> http_outcome) \<Rightarrow> node_state \<Rightarrow> bool" where
  "accepts net n = (case net (node_id n) of HttpOk lat \<Rightarrow> True | _ \<Rightarrow> False)"

lemma dispatch_job_frame:
  "snd (dispatch_job t (net (node_id n)) n j m) = accepts net n"
  "mem_jobs (fst (dispatch_job t out n j m)) = mem_jobs m"
  "mem_queue (fst (dispatch_job t out n j m)) = mem_queue m"
  by (auto simp: accepts_def dispatch_job_def dispatch_ok_def dispatch_failed_def Let_def
      split: http_outcome.splits)

text \<open>The loop changes only the log of the job, and keeps the stored copy up to date.\<close>

lemma dispatch_all_outcome:
  assumes "dispatch_all t net ns jm asg = (jm', asg')"
    and "dget (mem_jobs (snd jm)) (job_id (fst jm)) = Some (fst jm)"
  shows "asg' = asg @ map node_id (filter (accepts net) ns)
    \<and> job_id (fst jm') = job_id (fst jm) \<and> job_status (fst jm') = job_status (fst jm)
    \<and> job_attempts (fst jm') = job_attempts (fst jm)
    \<and> job_required_nodes (fst jm') = job_required_nodes (fst jm)
    \<and> mem_queue (snd jm') = mem_queue (snd jm)
    \<and> dget (mem_jobs (snd jm')) (job_id (fst jm)) = Some (fst jm')"
  using assms
proof (induction ns arbitrary: jm asg)
  case (Cons n ns)
  obtain m1 ok where d: "dispatch_job t (net (node_id n)) n (fst jm) (snd jm) = (m1, ok)"
    by (cases "dispatch_job t (net (node_id n)) n (fst jm) (snd jm)")
  have ok: "ok = accepts net n" "mem_jobs m1 = mem_jobs (snd jm)" "mem_queue m1 = mem_queue (snd jm)"
    using dispatch_job_frame(1) [of t net n "fst jm" "snd jm"]
      dispatch_job_frame(2,3) [of t "net (node_id n)" n "fst jm" "snd jm"] d by simp_all
  let ?l = "log_job t (''dispatch failure node='' @ node_id n) (fst jm, m1)"
  have req: "job_required_nodes (fst ?l) = job_required_nodes (fst jm)"
    by (simp add: log_job_def Let_def)
  show ?case
  proof (cases "accepts net n")
    case True
    with Cons.prems d ok Cons.IH [of "(fst jm, m1)" "asg @ [node_id n]"] show ?thesis by simp
  next
    case False
    with Cons.prems d ok req Cons.IH [of ?l asg] show ?thesis by simp
  qed
qed simp

lemma mark_running_stored:
  "dget (mem_jobs (snd (mark_running t jm))) (job_id (fst jm)) = Some (fst (mark_running t jm))"
  "mem_queue (snd (mark_running t jm)) = mem_queue (snd jm)"
  "job_required_nodes (fst (mark_running t jm)) = job_required_nodes (fst jm)"
  by (simp_all add: mark_running_def log_job_def Let_def)

text \<open>What a retry does to the stored job and the queue.\<close>

lemma requeue_or_fail_stored:
  "\<exists>i. dget (mem_jobs (snd (requeue_or_fail t r jm))) (job_id (fst jm)) = Some i
     \<and> job_attempts i = job_attempts (fst jm)
     \<and> (if job_attempts (fst jm) \<ge> MAX_JOB_RETRIES then job_status i = Failed
        else job_status i = Queued \<and> job_id (fst jm) \<in> set (mem_queue (snd (requeue_or_fail t r jm))))"
  by (auto simp: requeue_or_fail_def Let_def case_prod_unfold)

section \<open>Every branch of the scheduler\<close>

text \<open>
  The stored job after a scheduling step on a job that is not finished: which status it has, how
  many attempts, on which nodes, and whether it waits in the queue.
\<close>

definition job_outcome :: "string \<Rightarrow> cluster_memory \<Rightarrow> (job_status \<times> int) option" where
  "job_outcome jid m = map_option (\<lambda>j. (job_status j, job_attempts j)) (dget (mem_jobs m) jid)"

definition expected_outcome ::
    "(string \<Rightarrow> http_outcome) \<Rightarrow> job_record \<Rightarrow> cluster_memory \<Rightarrow> job_status \<times> int" where
  "expected_outcome net j m =
     (let candidates = select_nodes j (dvalues (mem_nodes m)); a = job_attempts j
      in if a \<ge> MAX_JOB_RETRIES then (Failed, a)
         else if int (length candidates) < job_required_nodes j then (Queued, a)
         else if list_all (accepts net) candidates then (Running, a + 1)
         else if a + 1 \<ge> MAX_JOB_RETRIES then (Failed, a + 1) else (Queued, a + 1))"

lemma enough_accept:
  assumes "int (length (select_nodes j ns)) \<ge> job_required_nodes j"
  shows "job_required_nodes j \<le> int (length (filter P (select_nodes j ns)))
    \<longleftrightarrow> list_all P (select_nodes j ns)"
proof (cases "list_all P (select_nodes j ns)")
  case True
  then have "filter P (select_nodes j ns) = select_nodes j ns" by (simp add: list_all_iff)
  with assms True show ?thesis by simp
next
  case False
  then obtain x where "x \<in> set (select_nodes j ns)" "\<not> P x" by (auto simp: list_all_iff)
  then have "length (filter P (select_nodes j ns)) < length (select_nodes j ns)"
    by (rule length_filter_less)
  moreover have "length (select_nodes j ns) \<le> nat (job_required_nodes j)"
    by (simp add: length_select_nodes)
  ultimately have "length (filter P (select_nodes j ns)) < nat (job_required_nodes j)" by linarith
  then have "int (length (filter P (select_nodes j ns))) < job_required_nodes j" by linarith
  with False show ?thesis by simp
qed

lemma schedule_job_dispatch:
  assumes "\<not> (job_status j = Completed \<or> job_status j = Failed)" "job_attempts j < MAX_JOB_RETRIES"
    and "\<not> int (length (select_nodes j (dvalues (mem_nodes m)))) < job_required_nodes j"
  shows "\<exists>jm asg. dispatch_all t net (select_nodes j (dvalues (mem_nodes m))) (mark_running t (j, m)) []
      = (jm, asg)
    \<and> asg = map node_id (filter (accepts net) (select_nodes j (dvalues (mem_nodes m))))
    \<and> job_id (fst jm) = job_id j \<and> job_status (fst jm) = Running
    \<and> job_attempts (fst jm) = job_attempts j + 1
    \<and> schedule_job t net j m =
        (if list_all (accepts net) (select_nodes j (dvalues (mem_nodes m)))
         then persist_queue (save_job ((fst jm)\<lparr>job_assigned_nodes := asg\<rparr>) (snd jm))
         else snd (requeue_or_fail t ''partial_dispatch_failure'' jm))"
proof -
  let ?c = "select_nodes j (dvalues (mem_nodes m))"
  obtain jm asg where d: "dispatch_all t net ?c (mark_running t (j, m)) [] = (jm, asg)"
    by (cases "dispatch_all t net ?c (mark_running t (j, m)) []")
  have "dget (mem_jobs (snd (mark_running t (j, m)))) (job_id (fst (mark_running t (j, m))))
      = Some (fst (mark_running t (j, m)))"
    using mark_running_stored(1) [of t "(j, m)"] by simp
  note o = dispatch_all_outcome [OF d this]
  have o': "asg = map node_id (filter (accepts net) ?c)" "job_id (fst jm) = job_id j"
    "job_status (fst jm) = Running" "job_attempts (fst jm) = job_attempts j + 1"
    using o by (simp_all add: mark_running_stored)
  have "int (length asg) \<ge> job_required_nodes j \<longleftrightarrow> list_all (accepts net) ?c"
    using assms(3) enough_accept [of j "dvalues (mem_nodes m)" "accepts net"]
    by (simp add: o')
  then have "schedule_job t net j m =
        (if list_all (accepts net) ?c
         then persist_queue (save_job ((fst jm)\<lparr>job_assigned_nodes := asg\<rparr>) (snd jm))
         else snd (requeue_or_fail t ''partial_dispatch_failure'' jm))"
    using assms d by (simp add: schedule_job_def Let_def)
  with d o' show ?thesis by blast
qed

lemma schedule_job_running:
  assumes "job_status j = Queued \<or> job_status j = Running" "job_attempts j < MAX_JOB_RETRIES"
    and "job_required_nodes j \<le> int (length (select_nodes j (dvalues (mem_nodes m))))"
    and "list_all (accepts net) (select_nodes j (dvalues (mem_nodes m)))"
  shows "map_option job_assigned_nodes (dget (mem_jobs (schedule_job t net j m)) (job_id j))
    = Some (map node_id (select_nodes j (dvalues (mem_nodes m))))"
proof -
  let ?c = "select_nodes j (dvalues (mem_nodes m))"
  have st: "\<not> (job_status j = Completed \<or> job_status j = Failed)"
    "\<not> int (length ?c) < job_required_nodes j" using assms by auto
  have "filter (accepts net) ?c = ?c" using assms(4) by (simp add: list_all_iff)
  with schedule_job_dispatch [OF st(1) assms(2) st(2), of t net] assms(4) show ?thesis by auto
qed

text \<open>
  C23: a scheduling step leaves a job in exactly the state that the number of eligible nodes and
  their answers call for: failed when its attempts are used up, queued with its attempts kept
  when too few nodes are eligible, running when every selected node takes it, and otherwise queued
  again, or failed when this was the last attempt.
\<close>

theorem schedule_job_outcome:
  assumes "job_status j = Queued \<or> job_status j = Running"
  shows "job_outcome (job_id j) (schedule_job t net j m) = Some (expected_outcome net j m)"
proof -
  let ?c = "select_nodes j (dvalues (mem_nodes m))"
  have st: "\<not> (job_status j = Completed \<or> job_status j = Failed)" using assms by auto
  consider (exhausted) "job_attempts j \<ge> MAX_JOB_RETRIES"
    | (few) "job_attempts j < MAX_JOB_RETRIES" "int (length ?c) < job_required_nodes j"
    | (go) "job_attempts j < MAX_JOB_RETRIES" "\<not> int (length ?c) < job_required_nodes j"
    by linarith
  then show ?thesis
  proof cases
    case exhausted
    with st show ?thesis
      by (simp add: schedule_job_def expected_outcome_def job_outcome_def Let_def)
  next
    case few
    with st requeue_or_fail_stored [of t "''insufficient_nodes''" "(j, m)"] show ?thesis
      by (auto simp: schedule_job_def expected_outcome_def job_outcome_def Let_def)
  next
    case go
    obtain jm asg where d: "job_id (fst jm) = job_id j" "job_status (fst jm) = Running"
      "job_attempts (fst jm) = job_attempts j + 1"
      "schedule_job t net j m =
        (if list_all (accepts net) ?c
         then persist_queue (save_job ((fst jm)\<lparr>job_assigned_nodes := asg\<rparr>) (snd jm))
         else snd (requeue_or_fail t ''partial_dispatch_failure'' jm))"
      using schedule_job_dispatch [OF st go, of t net] by blast
    from go d requeue_or_fail_stored [of t "''partial_dispatch_failure''" jm] show ?thesis
      by (auto simp: expected_outcome_def job_outcome_def Let_def)
  qed
qed

definition idle_node :: "string \<Rightarrow> node_state" where
  "idle_node nid =
     node_state_of \<lparr>node_id = nid, node_host = ''h'', node_port = 9100, node_type = CPU,
       node_has_gpu = False, node_secret = ''s''\<rparr> 0"

definition small_job :: "string \<Rightarrow> int \<Rightarrow> job_record" where
  "small_job jid k =
     build_job_record 0 \<lparr>job_id = jid, job_type = Code, job_task = [], job_required_nodes = k,
       job_power = Low, job_gpu_required = False\<rparr>"

definition two_nodes :: cluster_memory where
  "two_nodes = empty_memory\<lparr>mem_nodes := [(''a'', idle_node ''a''), (''b'', idle_node ''b'')]\<rparr>"

lemma small_job_simps [simp]:
  "job_id (small_job jid k) = jid" "job_status (small_job jid k) = Queued"
  "job_attempts (small_job jid k) = 0" "job_required_nodes (small_job jid k) = k"
  "job_gpu_required (small_job jid k) = False"
  by (simp_all add: small_job_def build_job_record_def)

lemma two_nodes_select:
  "length (select_nodes (small_job jid 2) (dvalues (mem_nodes two_nodes))) = 2"
  by (simp add: length_select_nodes two_nodes_def eligible_def idle_node_def node_state_of_def)

theorem schedule_job_outcome_witness:
  "job_outcome ''j'' (schedule_job 1 (\<lambda>_. HttpOk 5) (small_job ''j'' 2) two_nodes) = Some (Running, 1)"
  using schedule_job_outcome [of "small_job ''j'' 2" 1 "\<lambda>_. HttpOk 5" two_nodes]
  by (simp add: expected_outcome_def Let_def two_nodes_select MAX_JOB_RETRIES_def accepts_def
      list_all_iff)

text \<open>
  when a job runs, it runs on the best nodes: on exactly as many as it requires, all of them
  healthy, known and with a GPU if the job needs one, none of them twice, and no eligible node
  that was left out has a better score.
\<close>

theorem running_job_has_best_nodes:
  assumes "job_status j = Queued \<or> job_status j = Running" "0 \<le> job_required_nodes j"
    and nodes: "keyed node_id (mem_nodes m)"
    and run: "expected_outcome net j m = (Running, a)"
  shows "\<exists>chosen.
      map_option job_assigned_nodes (dget (mem_jobs (schedule_job t net j m)) (job_id j))
        = Some (map node_id chosen)
      \<and> int (length chosen) = job_required_nodes j \<and> distinct (map node_id chosen)
      \<and> (\<forall>n \<in> set chosen. dget (mem_nodes m) (node_id n) = Some n \<and> eligible j n \<and> accepts net n)
      \<and> (\<forall>n \<in> set (dvalues (mem_nodes m)). eligible j n \<longrightarrow> n \<in> set chosen
            \<or> (\<forall>c \<in> set chosen. node_score n j \<le> node_score c j))"
proof (intro exI conjI ballI impI)
  let ?c = "select_nodes j (dvalues (mem_nodes m))"
  have go: "job_attempts j < MAX_JOB_RETRIES" "job_required_nodes j \<le> int (length ?c)"
    "list_all (accepts net) ?c"
    using run by (auto simp: expected_outcome_def Let_def split: if_splits)
  show "map_option job_assigned_nodes (dget (mem_jobs (schedule_job t net j m)) (job_id j))
      = Some (map node_id ?c)"
    using assms(1) go by (rule schedule_job_running)
  show "int (length ?c) = job_required_nodes j"
    using go(2) assms(2) by (simp add: length_select_nodes)
  have ids: "map node_id (dvalues (mem_nodes m)) = dkeys (mem_nodes m)"
    using nodes by (auto simp: keyed_def)
  have "distinct (map node_id (dvalues (mem_nodes m)))"
    using nodes by (simp only: ids) (simp add: keyed_def dwf_def)
  then show "distinct (map node_id ?c)"
    using set_select_nodes [of _ j "dvalues (mem_nodes m)"]
    by (auto simp only: distinct_map intro: distinct_select_nodes inj_on_subset)
  fix n assume n: "n \<in> set ?c"
  then have "n \<in> set (dvalues (mem_nodes m))" and e: "eligible j n"
    using set_select_nodes by blast+
  then show "dget (mem_nodes m) (node_id n) = Some n"
    using nodes by (auto simp: keyed_def dwf_dget_iff)
  show "eligible j n" by (rule e)
  show "accepts net n" using go(3) n by (simp add: list_all_iff)
next
  fix n assume "n \<in> set (dvalues (mem_nodes m))" "eligible j n"
  then show "n \<in> set (select_nodes j (dvalues (mem_nodes m)))
      \<or> (\<forall>c \<in> set (select_nodes j (dvalues (mem_nodes m))). node_score n j \<le> node_score c j)"
    using select_nodes_best by blast
qed

theorem running_job_has_best_nodes_witness:
  "\<exists>chosen :: node_state list. map_option job_assigned_nodes
      (dget (mem_jobs (schedule_job 1 (\<lambda>_. HttpOk 5) (small_job ''j'' 2) two_nodes)) ''j'')
    = Some (map node_id chosen) \<and> int (length chosen) = 2"
proof -
  have e: "expected_outcome (\<lambda>_. HttpOk 5) (small_job ''j'' 2) two_nodes = (Running, 1)"
    by (simp add: expected_outcome_def Let_def two_nodes_select MAX_JOB_RETRIES_def accepts_def
        list_all_iff)
  have k: "keyed node_id (mem_nodes two_nodes)"
    by (simp add: two_nodes_def keyed_def dwf_def idle_node_def node_state_of_def)
  have "job_status (small_job ''j'' 2) = Queued \<or> job_status (small_job ''j'' 2) = Running"
    "0 \<le> job_required_nodes (small_job ''j'' 2)" by simp_all
  from running_job_has_best_nodes [OF this k e, of 1] show ?thesis
    by (rule ex_forward) (elim conjE, simp only: small_job_simps)
qed

section \<open>Dead nodes\<close>

text \<open>
  the recovery of a dead node does not look at the status of the jobs that the node last
  reported: a job that is already completed, with attempts left, is put back into the queue and
  will run again.
\<close>

theorem dead_node_revives_finished_job:
  assumes "dget (mem_jobs m) jid = Some j" "job_id j = jid" "job_status j = Completed"
    and "job_attempts j < MAX_JOB_RETRIES"
  shows "job_outcome jid (requeue_job t jid m) = Some (Queued, job_attempts j)
    \<and> jid \<in> set (mem_queue (requeue_job t jid m))"
  using assms requeue_or_fail_stored [of t "''node_dead_recovery''" "(j, m)"]
  by (auto simp: requeue_job_def job_outcome_def)

definition done_job :: job_record where
  "done_job = (small_job ''j'' 1)\<lparr>job_status := Completed, job_attempts := 1\<rparr>"

theorem dead_node_revives_finished_job_witness:
  "job_outcome ''j'' (requeue_job 9 ''j'' (empty_memory\<lparr>mem_jobs := [(''j'', done_job)]\<rparr>))
     = Some (Queued, 1)"
proof -
  have "job_attempts done_job = 1" by (simp add: done_job_def)
  with dead_node_revives_finished_job [of "empty_memory\<lparr>mem_jobs := [(''j'', done_job)]\<rparr>" "''j''" done_job 9]
  show ?thesis by (simp add: done_job_def MAX_JOB_RETRIES_def)
qed

section \<open>Authentication\<close>

text \<open>
  What stands behind an authenticated node id: a token that the token library accepts for this
  id, or a signature that the node's stored secret verifies.
\<close>

definition proven_identity ::
    "bool \<Rightarrow> (string \<Rightarrow> string option) \<Rightarrow> (string \<Rightarrow> string \<Rightarrow> bool) \<Rightarrow> cluster_memory
      \<Rightarrow> string option \<Rightarrow> string \<Rightarrow> bool" where
  "proven_identity jwt_configured verify_jwt verify_sig m node_jwt nid \<longleftrightarrow>
     (jwt_configured \<and> (\<exists>tok. node_jwt = Some tok \<and> verify_jwt (py_strip tok) = Some nid))
     \<or> (\<exists>secret. get_node_secret nid m = Some secret \<and> secret \<noteq> [] \<and> verify_sig secret nid)"

text \<open>
  a request is served as node \<open>nid\<close> only with proof of that identity, and never for a node id
  that contradicts the id in its body when the token decides, or the one in its header.
\<close>

theorem node_auth_sound:
  assumes "require_node_auth jwt_configured verify_jwt verify_sig m node_jwt body_id header_id = Inr nid"
  shows "nid \<noteq> [] \<and> proven_identity jwt_configured verify_jwt verify_sig m node_jwt nid
    \<and> (header_id \<noteq> None \<and> header_id \<noteq> Some [] \<longrightarrow> header_id = Some nid)"
  using assms
  by (auto simp: require_node_auth_def proven_identity_def Let_def truthy_None
      split: option.splits if_splits bind_splits)

theorem node_auth_sound_witness:
  "proven_identity True (\<lambda>tok. if tok = ''t'' then Some ''n1'' else None) (\<lambda>_ _. False) empty_memory
     (Some '' t'') ''n1''"
  using node_auth_sound [of True "\<lambda>tok. if tok = ''t'' then Some ''n1'' else None" "\<lambda>_ _. False"
      empty_memory "Some '' t''" "Some ''n1''" None "''n1''"]
  by (simp add: require_node_auth_def truthy_def py_strip_def is_space_def)

end
