(* ===== verification/ClusterRun.thy ===== *)
theory ClusterRun
  imports ControlPlane
begin

text \<open>
  Runs of the control plane: every request and every tick of a background loop is an event, a
  handler that answers an HTTP error leaves the memory alone, and a restart reads the memory
  back from the database. The properties are about every run from the empty database.
\<close>

section \<open>Provisioning\<close>

text \<open>
  What the provisioner answers: a node description, a description that does not convert (an
  exception that the handler does not catch), or no usable response.
\<close>

datatype provision_outcome = ProvOk node_registration | ProvMalformed | ProvFail

definition provision_node ::
    "pyfloat \<Rightarrow> provision_outcome \<Rightarrow> node_type \<Rightarrow> cluster_memory \<Rightarrow> cluster_memory" where
  "provision_node t out ntype m =
     (case out of
        ProvMalformed \<Rightarrow> m
      | ProvOk r \<Rightarrow>
          emit t ''info'' ''node_spinup_requested''
            [(''node_id'', JStr (node_id r)), (''source'', JStr ''provisioner'')]
            (register_node t (r\<lparr>node_secret := []\<rparr>) m)
      | ProvFail \<Rightarrow>
          let count = length (mem_nodes m) + 1;
              nid = ''autoscaled-'' @ string_of_nat count;
              r = \<lparr>node_id = nid, node_host = ''127.0.0.1'', node_port = int (9100 + count),
                   node_type = ntype, node_has_gpu = (ntype = GPU), node_secret = []\<rparr>
          in emit t ''warning'' ''node_spinup_fallback'' [(''node_id'', JStr nid)]
               (register_node t r m))"

section \<open>Events and runs\<close>

datatype cp_event =
    Submit bool pyfloat "string \<Rightarrow> http_outcome" job_request
  | Tick bool pyfloat "string \<Rightarrow> http_outcome"
  | Result bool pyfloat "string \<Rightarrow> http_outcome" rat string string json bool
  | Heartbeat pyfloat rat string heartbeat_payload
  | Register pyfloat node_registration
  | HealthCheck pyfloat pyfloat
  | Provision pyfloat provision_outcome node_type
  | RegistryPut pyfloat string json
  | Restart

fun cp_step :: "cp_event \<Rightarrow> cluster_memory \<Rightarrow> cluster_memory" where
  "cp_step (Submit leader t net r) m = submit_job leader t [] net r m"
| "cp_step (Tick leader t net) m = schedule_once leader t [] net m"
| "cp_step (Result leader t net beta nid jid payload ok) m =
     (case job_result leader t [] net beta nid jid payload ok m of Inl e \<Rightarrow> m | Inr m' \<Rightarrow> m')"
| "cp_step (Heartbeat t beta nid p) m =
     (case heartbeat t beta nid p m of Inl e \<Rightarrow> m | Inr m' \<Rightarrow> m')"
| "cp_step (Register t r) m = (case register t r m of Inl e \<Rightarrow> m | Inr m' \<Rightarrow> m')"
| "cp_step (HealthCheck now dead_after) m = check_nodes_once now dead_after m"
| "cp_step (Provision t out ntype) m = provision_node t out ntype m"
| "cp_step (RegistryPut t k v) m = registry_put t k v m"
| "cp_step Restart m = restore_sqlite False (mem_db m)"

definition cp_run :: "cp_event list \<Rightarrow> cluster_memory \<Rightarrow> cluster_memory" where
  "cp_run evs m = fold cp_step evs m"

section \<open>The invariant of all runs\<close>

lemma cp_inv_provision_node: "cp_inv {} m \<Longrightarrow> cp_inv {} (provision_node t out ntype m)"
  by (auto simp: provision_node_def Let_def split: provision_outcome.split)

lemma cp_inv_restart:
  assumes m: "cp_inv {} m"
  shows "cp_inv {} (restore_sqlite False (mem_db m))"
proof -
  note s = cp_inv_synced [OF m]
  have js: "mem_jobs (restore_sqlite False (mem_db m)) = db_jobs (mem_db m)"
    and q: "mem_queue (restore_sqlite False (mem_db m)) = mem_queue m"
    using restore_synced [OF s] by (simp_all add: restore_sqlite_def)
  have "dget (db_jobs (mem_db m)) k = dget (mem_jobs m) k" for k
    using s by (auto simp: synced_def keyed_def intro: dwf_same_dget)
  moreover have "set (db_jobs (mem_db m)) = set (mem_jobs m)"
    using s by (simp add: synced_def)
  ultimately show ?thesis
    using m synced_restore [OF s] unfolding cp_inv_def js q by simp
qed

lemma cp_inv_step: "cp_inv {} m \<Longrightarrow> cp_inv {} (cp_step ev m)"
  by (cases ev)
    (auto simp: register_def cp_inv_provision_node cp_inv_restart
      dest: cp_inv_job_result cp_inv_heartbeat split: sum.splits)

lemma cp_inv_empty: "cp_inv {} empty_memory"
  unfolding cp_inv_def using synced_empty
  by (simp add: empty_memory_def restore_sqlite_def init_sqlite_def restore_jobs_def
      queue_rows_def)

lemma cp_inv_run: "cp_inv {} (cp_run evs empty_memory)"
  unfolding cp_run_def using cp_inv_empty by (rule fold_inv [rotated]) (rule cp_inv_step)

definition no_lost_jobs :: "cluster_memory \<Rightarrow> bool" where
  "no_lost_jobs m \<longleftrightarrow>
     (\<forall>p \<in> set (mem_jobs m). job_status (snd p) = Queued \<longrightarrow> fst p \<in> set (mem_queue m))"

definition attempts_bounded :: "cluster_memory \<Rightarrow> bool" where
  "attempts_bounded m \<longleftrightarrow>
     (\<forall>p \<in> set (mem_jobs m). 0 \<le> job_attempts (snd p) \<and> job_attempts (snd p) \<le> MAX_JOB_RETRIES)"

definition queue_well_formed :: "cluster_memory \<Rightarrow> bool" where
  "queue_well_formed m \<longleftrightarrow> distinct (mem_queue m) \<and> set (mem_queue m) \<subseteq> fst ` set (mem_jobs m)"

lemma cp_inv_job_rows:
  assumes "cp_inv {} m" "p \<in> set (mem_jobs m)"
  shows "dget (mem_jobs m) (fst p) = Some (snd p)"
proof -
  have "dwf (mem_jobs m)" using assms(1) by (simp add: cp_inv_def synced_def keyed_def)
  with assms(2) show ?thesis by (simp add: dwf_dget_iff)
qed

text \<open>What the invariant promises.\<close>

lemma cp_inv_promises:
  assumes m: "cp_inv {} m"
  shows "durable m" "no_lost_jobs m" "attempts_bounded m" "queue_well_formed m"
proof -
  show "durable m" by (rule synced_durable) (rule cp_inv_synced [OF m])
  show "no_lost_jobs m" "attempts_bounded m"
    using m cp_inv_job_rows [OF m] by (fastforce simp: no_lost_jobs_def attempts_bounded_def cp_inv_def attempts_ok_def)+
  show "queue_well_formed m" using m by (simp add: queue_well_formed_def cp_inv_def)
qed

section \<open>Properties of every run\<close>


text \<open>
  C2: no job is lost: in every reachable memory each job whose status is queued stands in the
  queue.
\<close>

theorem queued_jobs_never_lost: "no_lost_jobs (cp_run evs empty_memory)"
  by (rule cp_inv_promises) (rule cp_inv_run)


text \<open>
  The queue never holds a job twice and only holds known jobs, so that a pop from a queue
  that is not empty always yields a job.
\<close>

theorem queue_always_well_formed: "queue_well_formed (cp_run evs empty_memory)"
  by (rule cp_inv_promises) (rule cp_inv_run)

end
