(* ===== verification/Autoscaler.thy ===== *)
theory Autoscaler
  imports ClusterRun
begin

text \<open>
  \<open>control_plane/autoscaler.py\<close>: the smoothed observations of the cluster, the decision to add a
  node, and one turn of the autoscaler loop with the installer of \<open>control_plane/app.py\<close> as its
  callback. The module globals are the record \<open>autoscaler\<close>.
\<close>

record autoscaler =
  queue_obs :: "nat list"
  ema_queue :: rat
  ema_load :: rat
  ema_gpu :: rat

definition fresh_autoscaler :: autoscaler where
  "fresh_autoscaler = \<lparr>queue_obs = [], ema_queue = 0, ema_load = 0, ema_gpu = 0\<rparr>"

definition ALPHA :: rat where
  "ALPHA = 35 / 100"

definition mean :: "rat list \<Rightarrow> rat" where
  "mean xs = sum_list xs / of_nat (length xs)"

definition avg_cluster_load :: "cluster_memory \<Rightarrow> rat" where
  "avg_cluster_load m =
     (if mem_nodes m = [] then 0 else mean (map node_current_load (dvalues (mem_nodes m))))"

definition gpu_saturation :: "cluster_memory \<Rightarrow> rat" where
  "gpu_saturation m =
     (let gpu_nodes = filter (\<lambda>n. node_type n = GPU) (dvalues (mem_nodes m))
      in if gpu_nodes = [] then 0 else mean (map node_current_load gpu_nodes))"

definition smooth :: "rat \<Rightarrow> rat \<Rightarrow> rat" where
  "smooth x prev = ALPHA * x + (1 - ALPHA) * prev"

definition observe :: "cluster_memory \<Rightarrow> autoscaler \<Rightarrow> autoscaler" where
  "observe m a =
     (let q = length (queue_snapshot m)
      in \<lparr>queue_obs = py_cap 24 (queue_obs a @ [q]),
          ema_queue = smooth (of_nat q) (ema_queue a),
          ema_load = smooth (avg_cluster_load m) (ema_load a),
          ema_gpu = smooth (gpu_saturation m) (ema_gpu a)\<rparr>)"

text \<open>The decision on the state after the observation; \<open>q\<close> is the newest queue length.\<close>

definition wants_node :: "nat \<Rightarrow> rat \<Rightarrow> rat \<Rightarrow> rat \<Rightarrow> nat \<Rightarrow> autoscaler \<Rightarrow> bool" where
  "wants_node q queue_threshold load_threshold gpu_threshold horizon_min a =
     (let obs = queue_obs a; len = length obs in
      if ema_queue a \<ge> queue_threshold then True
      else if ema_load a > load_threshold then True
      else if ema_gpu a > gpu_threshold then True
      else if len \<ge> horizon_min
      then if int (last obs) - int (hd obs) \<ge> 2 \<and> q \<ge> 1 then True
           else if len \<ge> horizon_min + 2
           then (of_nat (last obs) - of_nat (obs ! (len - 3))) / 2 > (8 / 10 :: rat)
                \<and> ema_queue a > queue_threshold * (55 / 100)
           else False
      else False)"

definition evaluate_scaling ::
    "rat \<Rightarrow> rat \<Rightarrow> rat \<Rightarrow> nat \<Rightarrow> cluster_memory \<Rightarrow> autoscaler \<Rightarrow> autoscaler \<times> bool" where
  "evaluate_scaling qt lt gt hm m a =
     (let a' = observe m a in (a', wants_node (length (queue_snapshot m)) qt lt gt hm a'))"

text \<open>The counter of the queued jobs by power; a missing key counts 0.\<close>

definition type_count :: "job_power \<Rightarrow> cluster_memory \<Rightarrow> nat" where
  "type_count p m =
     count_list (map job_power (filter (\<lambda>j. job_status j = Queued) (dvalues (mem_jobs m)))) p"

definition desired_node_type :: "cluster_memory \<Rightarrow> node_type" where
  "desired_node_type m =
     (if type_count High m > 0 then GPU
      else if type_count Medium m > 0 then CPU
      else EDGE)"

fun node_type_name :: "node_type \<Rightarrow> string" where
  "node_type_name GPU = ''gpu''"
| "node_type_name CPU = ''cpu''"
| "node_type_name EDGE = ''edge''"

text \<open>One turn of the loop; \<open>out\<close> is what the provisioner answers.\<close>

definition autoscale_once ::
    "bool \<Rightarrow> pyfloat \<Rightarrow> provision_outcome \<Rightarrow> cluster_memory \<times> autoscaler
      \<Rightarrow> cluster_memory \<times> autoscaler" where
  "autoscale_once leader t out s =
     (if \<not> leader then s
      else let (a, scale) = evaluate_scaling 4 (75 / 100) (80 / 100) 3 (fst s) (snd s)
           in if scale
              then let ntype = desired_node_type (fst s)
                   in (provision_node t out ntype
                         (emit t ''warning'' ''scaling_triggered''
                            [(''node_type'', JStr (node_type_name ntype))] (fst s)), a)
              else (fst s, a))"

section \<open>The smoothed values\<close>

lemma smooth_mono: "x \<le> y \<Longrightarrow> e \<le> f \<Longrightarrow> smooth x e \<le> smooth y f"
  unfolding smooth_def ALPHA_def by (intro add_mono mult_left_mono) simp_all

lemma smooth_fixed: "smooth c c = c"
  by (simp add: smooth_def ALPHA_def field_simps)

lemma smooth_le: "x \<le> c \<Longrightarrow> e \<le> c \<Longrightarrow> smooth x e \<le> c"
  using smooth_mono [of x c e c] by (simp add: smooth_fixed)

lemma mean_le: "\<lbrakk>xs \<noteq> []; \<forall>x \<in> set xs. x \<le> c\<rbrakk> \<Longrightarrow> mean xs \<le> c"
proof -
  assume ne: "xs \<noteq> []" and le: "\<forall>x \<in> set xs. x \<le> c"
  have "sum_list xs \<le> of_nat (length xs) * c"
    using le by (induction xs) (auto simp: algebra_simps intro: add_mono)
  with ne show ?thesis by (simp add: mean_def field_simps)
qed

lemma loads_le:
  assumes "\<forall>n \<in> set (dvalues (mem_nodes m)). node_current_load n \<le> c" "0 \<le> c"
  shows "avg_cluster_load m \<le> c" "gpu_saturation m \<le> c"
  using assms by (auto simp: avg_cluster_load_def gpu_saturation_def Let_def intro!: mean_le)

section \<open>When the autoscaler acts\<close>

definition observe_all :: "cluster_memory list \<Rightarrow> autoscaler \<Rightarrow> autoscaler" where
  "observe_all ms a = fold observe ms a"

text \<open>A cluster whose queue stands at \<open>q\<close> and whose nodes carry at most the load \<open>c\<close>.\<close>

definition steady :: "nat \<Rightarrow> rat \<Rightarrow> cluster_memory \<Rightarrow> bool" where
  "steady q c m \<longleftrightarrow> length (queue_snapshot m) = q
     \<and> (\<forall>n \<in> set (dvalues (mem_nodes m)). node_current_load n \<le> c)"

definition calm :: "nat \<Rightarrow> rat \<Rightarrow> autoscaler \<Rightarrow> bool" where
  "calm q c a \<longleftrightarrow> set (queue_obs a) \<subseteq> {q} \<and> ema_queue a \<le> of_nat q \<and> ema_load a \<le> c \<and> ema_gpu a \<le> c"

lemma calm_observe:
  assumes "calm q c a" "steady q c m" "0 \<le> c"
  shows "calm q c (observe m a)"
  using assms loads_le [of m c] set_py_cap [of 24 "queue_obs a @ [q]"]
  by (auto simp: calm_def steady_def observe_def Let_def intro!: smooth_le)

lemma obs_observe: "queue_obs (observe m a) \<noteq> []"
  using py_cap_snoc_mem [of "length (queue_snapshot m)" 24 "queue_obs a"]
  by (auto simp: observe_def Let_def)

lemma calm_wants_nothing:
  assumes "calm q c a" "queue_obs a \<noteq> []" "of_nat q < qt" "c \<le> lt" "c \<le> gt" "0 < hm"
  shows "\<not> wants_node q' qt lt gt hm a"
proof -
  have q: "x = q" if "x \<in> set (queue_obs a)" for x using assms(1) that by (auto simp: calm_def)
  have "last (queue_obs a) = q" "hd (queue_obs a) = q" using assms(2) q by simp_all
  moreover have "queue_obs a ! (length (queue_obs a) - 3) = q" using assms(2) q by simp
  ultimately show ?thesis using assms by (auto simp: wants_node_def calm_def Let_def)
qed

text \<open>
  A calm cluster never grows: while the queue stays at a constant length below the threshold
  and no node carries more load than the load thresholds allow, no evaluation asks for a node.
\<close>

theorem calm_cluster_never_scales:
  assumes "\<forall>m \<in> set (ms @ [m]). steady q c m" "of_nat q < qt" "0 \<le> c" "c \<le> lt" "c \<le> gt" "0 < hm"
  shows "\<not> snd (evaluate_scaling qt lt gt hm m (observe_all ms fresh_autoscaler))"
proof -
  have "calm q c fresh_autoscaler" using assms(3) by (simp add: calm_def fresh_autoscaler_def)
  then have "calm q c (observe_all ms fresh_autoscaler)"
    using assms(1,3) unfolding observe_all_def
    by (intro fold_invariant [where Q = "\<lambda>m. steady q c m" and P = "calm q c"])
      (auto intro: calm_observe)
  then have "calm q c (observe m (observe_all ms fresh_autoscaler))"
    using assms(1,3) by (intro calm_observe) auto
  with assms show ?thesis
    unfolding evaluate_scaling_def Let_def snd_conv
    by (intro calm_wants_nothing [of q c]) (auto simp: obs_observe)
qed

definition idle_memory :: cluster_memory where
  "idle_memory = empty_memory\<lparr>mem_queue := [''a'', ''b'', ''c'']\<rparr>"

theorem calm_cluster_never_scales_example:
  "\<not> snd (evaluate_scaling 4 (75 / 100) (80 / 100) 3 idle_memory
     (observe_all [idle_memory, idle_memory, idle_memory] fresh_autoscaler))"
  by (rule calm_cluster_never_scales [where q = 3 and c = 0])
    (simp_all add: steady_def queue_snapshot_def idle_memory_def empty_memory_def restore_sqlite_def
      init_sqlite_def restore_nodes_def)

text \<open>A sustained overload: every node carries at least the load \<open>c\<close>.\<close>

definition overload :: "rat \<Rightarrow> cluster_memory \<Rightarrow> bool" where
  "overload c m \<longleftrightarrow> mem_nodes m \<noteq> [] \<and> (\<forall>n \<in> set (dvalues (mem_nodes m)). c \<le> node_current_load n)"

lemma mean_ge: "\<lbrakk>xs \<noteq> []; \<forall>x \<in> set xs. c \<le> x\<rbrakk> \<Longrightarrow> c \<le> mean xs"
proof -
  assume ne: "xs \<noteq> []" and le: "\<forall>x \<in> set xs. c \<le> x"
  have "of_nat (length xs) * c \<le> sum_list xs"
    using le by (induction xs) (auto simp: algebra_simps intro: add_mono)
  with ne show ?thesis by (simp add: mean_def field_simps)
qed

lemma ema_load_overloaded:
  "overload c m \<Longrightarrow> ema_load (observe m a) \<ge> smooth c (ema_load a)"
  by (auto simp: observe_def overload_def avg_cluster_load_def Let_def intro!: smooth_mono mean_ge)

fun smooth_times :: "nat \<Rightarrow> rat \<Rightarrow> rat \<Rightarrow> rat" where
  "smooth_times 0 c e = e"
| "smooth_times (Suc n) c e = smooth_times n c (smooth c e)"

lemma smooth_times_mono: "e \<le> f \<Longrightarrow> smooth_times n c e \<le> smooth_times n c f"
  by (induction n arbitrary: e f) (simp_all add: smooth_mono)

lemma ema_load_observe_all:
  assumes "\<forall>m \<in> set ms. overload c m"
  shows "smooth_times (length ms) c (ema_load a) \<le> ema_load (observe_all ms a)"
  using assms
proof (induction ms arbitrary: a)
  case (Cons m ms)
  have "smooth_times (length ms) c (smooth c (ema_load a)) \<le> smooth_times (length ms) c (ema_load (observe m a))"
    using Cons.prems by (intro smooth_times_mono ema_load_overloaded) simp
  also have "\<dots> \<le> ema_load (observe_all ms (observe m a))" using Cons by simp
  finally show ?case by (simp add: observe_all_def)
qed (simp add: observe_all_def)

text \<open>
  a cluster whose nodes all stay at a load of at least nine tenths grows at the fifth
  evaluation at the latest.
\<close>

theorem overload_scales_within_five:
  assumes "length ms = 4" "\<forall>m \<in> set (ms @ [m]). overload (9 / 10) m" "0 \<le> ema_load a"
  shows "snd (evaluate_scaling 4 (75 / 100) (80 / 100) 3 m (observe_all ms a))"
proof -
  have "smooth_times 5 (9 / 10) 0 \<le> smooth_times (length (ms @ [m])) (9 / 10) (ema_load a)"
    using smooth_times_mono [OF assms(3)] assms(1) by simp
  also have "\<dots> \<le> ema_load (observe_all (ms @ [m]) a)"
    using assms(2) by (rule ema_load_observe_all)
  finally have "75 / 100 < ema_load (observe m (observe_all ms a))"
    by (simp add: numeral_eq_Suc smooth_def ALPHA_def observe_all_def)
  then show ?thesis by (simp add: evaluate_scaling_def wants_node_def Let_def)
qed

definition busy_memory :: cluster_memory where
  "busy_memory = empty_memory\<lparr>mem_nodes := [(''a'',
     (node_state_of \<lparr>node_id = ''a'', node_host = ''h'', node_port = 9100, node_type = CPU,
       node_has_gpu = False, node_secret = ''s''\<rparr> 0)\<lparr>node_current_load := 1\<rparr>)]\<rparr>"

theorem overload_scales_within_five_witness:
  "snd (evaluate_scaling 4 (75 / 100) (80 / 100) 3 busy_memory
     (observe_all [busy_memory, busy_memory, busy_memory, busy_memory] fresh_autoscaler))"
  by (rule overload_scales_within_five)
    (simp_all add: overload_def busy_memory_def node_state_of_def fresh_autoscaler_def)

lemma desired_node_type_spec:
  "desired_node_type m = GPU \<longleftrightarrow>
     (\<exists>j \<in> set (dvalues (mem_jobs m)). job_status j = Queued \<and> job_power j = High)"
  "desired_node_type m = EDGE \<longleftrightarrow>
     (\<forall>j \<in> set (dvalues (mem_jobs m)). job_status j = Queued \<longrightarrow> job_power j = Low)"
proof -
  have pos: "0 < type_count p m \<longleftrightarrow>
      (\<exists>j \<in> set (dvalues (mem_jobs m)). job_status j = Queued \<and> job_power j = p)" for p
    using count_list_0_iff [of "map job_power (filter (\<lambda>j. job_status j = Queued) (dvalues (mem_jobs m)))" p]
    unfolding type_count_def by (auto simp: neq0_conv [symmetric] simp del: neq0_conv)
  show "desired_node_type m = GPU \<longleftrightarrow>
     (\<exists>j \<in> set (dvalues (mem_jobs m)). job_status j = Queued \<and> job_power j = High)"
    using pos [of High] by (simp add: desired_node_type_def)
  have "desired_node_type m = EDGE \<longleftrightarrow> \<not> 0 < type_count High m \<and> \<not> 0 < type_count Medium m"
    by (simp add: desired_node_type_def)
  moreover have "p = Low \<longleftrightarrow> p \<noteq> High \<and> p \<noteq> Medium" for p
    by (cases p) simp_all
  ultimately show "desired_node_type m = EDGE \<longleftrightarrow>
     (\<forall>j \<in> set (dvalues (mem_jobs m)). job_status j = Queued \<longrightarrow> job_power j = Low)"
    unfolding pos by blast
qed

end
