(* ===== verification/ReplicatedQueue.thy ===== *)
theory ReplicatedQueue
  imports Prelude
begin

text \<open>
  \<open>distributed_queue/replicated_queue.py\<close> and the queue part of
  \<open>distributed_queue/queue_sync.py\<close>: job replicas with an owner and a lease. The table \<open>rep_jobs\<close>
  maps a job id to its payload and to \<open>lease_until\<close>. The length of a lease
  (\<open>ARSONIST_MESH_QUEUE_LEASE_SEC\<close>) is the argument \<open>lease\<close>.
\<close>

section \<open>State and operations\<close>

record rep_job =
  rj_job_id :: string
  rj_state :: string
  rj_owner_cluster_id :: string
  rj_claim_token :: string
  rj_updated_at :: pyfloat
  rj_payload_digest :: string

type_synonym rep_jobs = "(string, rep_job \<times> pyfloat) dict"

definition rq_upsert :: "pyfloat \<Rightarrow> pyfloat \<Rightarrow> rep_job \<Rightarrow> rep_jobs \<Rightarrow> rep_jobs" where
  "rq_upsert lease t st q =
     (let st' = st\<lparr>rj_updated_at := t\<rparr>
      in dput (rj_job_id st') (st', rj_updated_at st' + lease) q)"

definition rq_get :: "string \<Rightarrow> rep_jobs \<Rightarrow> rep_job option" where
  "rq_get jid q = map_option fst (dget q jid)"

definition try_claim ::
    "pyfloat \<Rightarrow> pyfloat \<Rightarrow> string \<Rightarrow> string \<Rightarrow> rep_jobs \<Rightarrow> rep_jobs \<times> rep_job option" where
  "try_claim lease t jid cluster q =
     (case rq_get jid q of
        None \<Rightarrow> (q, None)
      | Some st \<Rightarrow>
          let lease_until = (case dget q jid of Some row \<Rightarrow> snd row | None \<Rightarrow> 0)
          in if rj_owner_cluster_id st \<noteq> [] \<and> rj_owner_cluster_id st \<noteq> cluster \<and> lease_until > t
             then (q, None)
             else let st' = st\<lparr>rj_owner_cluster_id := cluster, rj_state := ''assigned''\<rparr>
                  in (rq_upsert lease t st' q, Some (st'\<lparr>rj_updated_at := t\<rparr>)))"

definition reconcile_orphan :: "pyfloat \<Rightarrow> pyfloat \<Rightarrow> string \<Rightarrow> rep_jobs \<Rightarrow> rep_jobs" where
  "reconcile_orphan lease t jid q =
     (case rq_get jid q of
        None \<Rightarrow> q
      | Some st \<Rightarrow> rq_upsert lease t (st\<lparr>rj_state := ''orphaned''\<rparr>) q)"

text \<open>\<open>ORDER BY job_id ASC LIMIT ?\<close>.\<close>

definition list_states :: "nat \<Rightarrow> rep_jobs \<Rightarrow> rep_job list" where
  "list_states limit q = map (fst \<circ> snd) (take limit (sort_key fst q))"

definition build_queue_delta :: "string option \<Rightarrow> rep_jobs \<Rightarrow> rep_job list" where
  "build_queue_delta since q =
     (let states = list_states 200 q;
          states' = (case truthy since of None \<Rightarrow> states
                     | Some s \<Rightarrow> filter (\<lambda>st. rj_job_id st > s) states)
      in take 200 states')"

text \<open>\<open>None\<close> stands for a dictionary that does not validate as a \<open>ReplicatedJobState\<close>.\<close>

definition apply_queue_delta ::
    "pyfloat \<Rightarrow> pyfloat \<Rightarrow> rep_job option list \<Rightarrow> rep_jobs \<Rightarrow> rep_jobs \<times> nat" where
  "apply_queue_delta lease t jobs q =
     fold (\<lambda>j (q, n). case j of None \<Rightarrow> (q, n) | Some st \<Rightarrow> (rq_upsert lease t st q, n + 1))
       jobs (q, 0)"

section \<open>Ownership\<close>

text \<open>The owner of a job whose lease lives at time \<open>t\<close>.\<close>

definition live_owner :: "pyfloat \<Rightarrow> string \<Rightarrow> rep_jobs \<Rightarrow> string option" where
  "live_owner t jid q =
     (case dget q jid of
        None \<Rightarrow> None
      | Some (st, until) \<Rightarrow>
          if rj_owner_cluster_id st \<noteq> [] \<and> t < until then Some (rj_owner_cluster_id st) else None)"

lemma rq_upsert_dget [simp]:
  "dget (rq_upsert lease t st q) k =
     (if k = rj_job_id st then Some (st\<lparr>rj_updated_at := t\<rparr>, t + lease) else dget q k)"
  by (simp add: rq_upsert_def Let_def)

lemma rq_keyed_upsert:
  "keyed (rj_job_id \<circ> fst) q \<Longrightarrow> keyed (rj_job_id \<circ> fst) (rq_upsert lease t st q)"
  by (auto simp: rq_upsert_def Let_def)

lemma rq_row_id: "keyed (rj_job_id \<circ> fst) q \<Longrightarrow> dget q jid = Some (st, u) \<Longrightarrow> rj_job_id st = jid"
  by (drule (1) keyed_dget) simp

lemma try_claim_SomeE:
  assumes "keyed (rj_job_id \<circ> fst) q" "try_claim lease t jid c q = (q', Some st)"
  obtains old u where "dget q jid = Some (old, u)" "rj_job_id old = jid"
    "q' = rq_upsert lease t (old\<lparr>rj_owner_cluster_id := c, rj_state := ''assigned''\<rparr>) q"
    "st = old\<lparr>rj_owner_cluster_id := c, rj_state := ''assigned'', rj_updated_at := t\<rparr>"
  using assms rq_row_id [OF assms(1)]
  by (auto simp: try_claim_def rq_get_def Let_def split: option.splits if_splits)

text \<open>
  Whoever claims a job becomes its live owner for one lease, in state assigned.
\<close>

lemma try_claim_owner:
  assumes "keyed (rj_job_id \<circ> fst) q" "try_claim lease t jid c q = (q', Some st)"
    "c \<noteq> []" "t' < t + lease"
  shows "live_owner t' jid q' = Some c \<and> rj_state st = ''assigned'' \<and> rj_job_id st = jid"
  using assms(3,4) by (rule_tac try_claim_SomeE [OF assms(1,2)]) (simp add: live_owner_def)

lemma try_claim_other_denied:
  "live_owner t jid q = Some c \<Longrightarrow> c' \<noteq> c \<Longrightarrow> try_claim lease t jid c' q = (q, None)"
  by (auto simp: try_claim_def rq_get_def live_owner_def split: option.splits if_splits)

lemma try_claim_decides:
  "rq_get jid q \<noteq> None \<Longrightarrow>
     snd (try_claim lease t jid c q) \<noteq> None
       \<longleftrightarrow> (case live_owner t jid q of None \<Rightarrow> True | Some o' \<Rightarrow> o' = c)"
  by (auto simp: try_claim_def rq_get_def live_owner_def Let_def split: option.splits)

lemma try_claim_other_job:
  "keyed (rj_job_id \<circ> fst) q \<Longrightarrow> k \<noteq> jid \<Longrightarrow> dget (fst (try_claim lease t jid c q)) k = dget q k"
  by (auto simp: try_claim_def rq_get_def Let_def split: option.splits dest: rq_row_id)

lemma try_claim_keyed:
  "keyed (rj_job_id \<circ> fst) q \<Longrightarrow> keyed (rj_job_id \<circ> fst) (fst (try_claim lease t jid c q))"
  by (auto simp: try_claim_def Let_def rq_keyed_upsert split: option.split)

text \<open>Claim attempts \<open>(t, cluster)\<close> on one job, one after the other.\<close>

fun granted_claims :: "pyfloat \<Rightarrow> string \<Rightarrow> (pyfloat \<times> string) list \<Rightarrow> rep_jobs \<Rightarrow> string list" where
  "granted_claims lease jid [] q = []"
| "granted_claims lease jid ((t, c) # cs) q =
     (let (q', r) = try_claim lease t jid c q
      in (if r \<noteq> None then [c] else []) @ granted_claims lease jid cs q')"

lemma claims_denied:
  "dget q jid = Some (st, until) \<Longrightarrow> rj_owner_cluster_id st = c \<Longrightarrow> c \<noteq> []
     \<Longrightarrow> list_all (\<lambda>(t, c'). t < until \<and> c' \<noteq> c) cs \<Longrightarrow> granted_claims lease jid cs q = []"
proof (induction cs)
  case (Cons p cs)
  obtain t c' where p: "p = (t, c')" by (cases p)
  have "live_owner t jid q = Some c" using Cons.prems p by (simp add: live_owner_def)
  then have "try_claim lease t jid c' q = (q, None)"
    using Cons.prems p by (intro try_claim_other_denied) auto
  with Cons p show ?case by simp
qed simp


definition sample_job :: rep_job where
  "sample_job = \<lparr>rj_job_id = ''j1'', rj_state = ''queued'', rj_owner_cluster_id = [],
     rj_claim_token = ''tok'', rj_updated_at = 0, rj_payload_digest = []\<rparr>"


text \<open>
  the merge of a remote delta overwrites ownership: while a cluster's lease on a job lives,
  one \<open>apply_queue_delta\<close> that carries the job with another owner hands the job to that owner,
  whose claim then succeeds within the first lease.
\<close>

theorem delta_steals_live_lease:
  assumes "live_owner t (rj_job_id st) q = Some c" and "rj_owner_cluster_id st \<noteq> []" and "0 < lease"
  shows "let q' = fst (apply_queue_delta lease t [Some st] q)
    in live_owner t (rj_job_id st) q' = Some (rj_owner_cluster_id st)
       \<and> snd (try_claim lease t (rj_job_id st) (rj_owner_cluster_id st) q') \<noteq> None"
  using assms
  by (auto simp: apply_queue_delta_def live_owner_def try_claim_def rq_get_def Let_def)

theorem delta_steals_live_lease_witness:
  "live_owner 100 ''j1''
     (fst (apply_queue_delta 45 100 [Some (sample_job\<lparr>rj_owner_cluster_id := ''b''\<rparr>)]
        [(''j1'', sample_job\<lparr>rj_owner_cluster_id := ''a''\<rparr>, 120)])) = Some ''b''"
  using delta_steals_live_lease
    [of 100 "sample_job\<lparr>rj_owner_cluster_id := ''b''\<rparr>"
      "[(''j1'', sample_job\<lparr>rj_owner_cluster_id := ''a''\<rparr>, 120)]" "''a''" 45]
  by (simp add: sample_job_def live_owner_def Let_def)

text \<open>
  A claim looks at the owner and the lease only: a job that is already completed goes back
  to assigned when it is claimed by its owner, or by anyone after the lease.
\<close>

theorem completed_job_reclaimed:
  assumes "dget q jid = Some (st, until)" and "rj_state st = ''completed''" and "until \<le> t"
  shows "map_option rj_state (snd (try_claim lease t jid c q)) = Some ''assigned''"
  using assms by (simp add: try_claim_def rq_get_def Let_def)

theorem completed_job_reclaimed_example:
  "map_option rj_state (snd (try_claim 45 200 ''j1'' ''b''
     [(''j1'', sample_job\<lparr>rj_state := ''completed'', rj_owner_cluster_id := ''a''\<rparr>, 150)]))
   = Some ''assigned''"
  by (rule completed_job_reclaimed
      [where st = "sample_job\<lparr>rj_state := ''completed'', rj_owner_cluster_id := ''a''\<rparr>" and until = 150])
    (simp_all add: sample_job_def)

text \<open>An orphan keeps its owner and gets a fresh lease, so others cannot claim it before that ends.\<close>

lemma orphan_not_claimable:
  assumes "dget q jid = Some (st, until)" "rj_job_id st = jid" "rj_owner_cluster_id st \<noteq> []"
    "t' < t + lease" "c \<noteq> rj_owner_cluster_id st"
  shows "snd (try_claim lease t' jid c (reconcile_orphan lease t jid q)) = None"
  using assms by (simp add: reconcile_orphan_def rq_get_def try_claim_def)

end
