(* ===== verification/EventLog.thy ===== *)
theory EventLog
  imports Prelude
begin

text \<open>
  \<open>distributed_queue/event_log.py\<close> and \<open>mesh/anti_entropy.py\<close>: the append-only mesh event log
  with replay and deduplication by event id, and the cursor bookkeeping of anti-entropy. The
  table \<open>mesh_events\<close> is the list of its rows in the order of their \<open>AUTOINCREMENT\<close> numbers. Fresh
  UUIDs and clock readings are arguments; an insertion that violates \<open>UNIQUE\<close> is the error value
  \<open>IntegrityError\<close>, and consumes no row number.
\<close>

section \<open>State and operations\<close>

record mesh_event =
  ev_event_id :: string
  ev_seq :: nat
  ev_ts :: pyfloat
  ev_event_type :: string
  ev_payload :: json
  ev_source_cluster_id :: string

record event_log =
  log_rows :: "mesh_event list"
  log_next_seq :: nat

datatype db_error = IntegrityError

definition empty_log :: event_log where
  "empty_log = \<lparr>log_rows = [], log_next_seq = 1\<rparr>"

definition insert_row :: "mesh_event \<Rightarrow> event_log \<Rightarrow> db_error + event_log" where
  "insert_row ev l =
     (if ev_event_id ev \<in> set (map ev_event_id (log_rows l)) then Inl IntegrityError
      else Inr \<lparr>log_rows = log_rows l @ [ev\<lparr>ev_seq := log_next_seq l\<rparr>],
                log_next_seq = log_next_seq l + 1\<rparr>)"

text \<open>\<open>append\<close> lets an \<open>IntegrityError\<close> through to its caller.\<close>

definition log_append ::
    "string \<Rightarrow> pyfloat \<Rightarrow> string \<Rightarrow> json \<Rightarrow> string \<Rightarrow> event_log
      \<Rightarrow> db_error + (event_log \<times> mesh_event)" where
  "log_append uuid t etype payload source l =
     (let ev = \<lparr>ev_event_id = uuid, ev_seq = 0, ev_ts = t, ev_event_type = etype,
                ev_payload = payload, ev_source_cluster_id = source\<rparr>
      in case insert_row ev l of
        Inl e \<Rightarrow> Inl e
      | Inr l' \<Rightarrow> Inr (l', ev\<lparr>ev_seq := log_next_seq l\<rparr>))"

text \<open>\<open>SELECT MAX(seq)\<close>, 0 for an empty table.\<close>

definition last_seq :: "event_log \<Rightarrow> nat" where
  "last_seq l = fold max (map ev_seq (log_rows l)) 0"

definition replay :: "nat \<Rightarrow> nat \<Rightarrow> event_log \<Rightarrow> mesh_event list" where
  "replay since limit l =
     take limit (sort_key ev_seq (filter (\<lambda>e. ev_seq e > since) (log_rows l)))"

definition tail :: "nat \<Rightarrow> event_log \<Rightarrow> mesh_event list" where
  "tail limit l =
     (let last = last_seq l
      in if last = 0 then []
         else sort_key ev_seq (filter (\<lambda>e. ev_seq e > last - limit) (log_rows l)))"

text \<open>A dictionary of a remote event; every key may be missing.\<close>

record remote_event =
  re_event_id :: "string option"
  re_ts :: "pyfloat option"
  re_event_type :: "string option"
  re_payload :: "json option"
  re_source_cluster_id :: "string option"

definition default :: "'a \<Rightarrow> 'a option \<Rightarrow> 'a" where
  "default d x = (case x of Some v \<Rightarrow> v | None \<Rightarrow> d)"

definition event_of_remote :: "pyfloat \<Rightarrow> remote_event \<Rightarrow> mesh_event" where
  "event_of_remote now e =
     \<lparr>ev_event_id = default [] (re_event_id e), ev_seq = 0, ev_ts = default now (re_ts e),
      ev_event_type = default ''UNKNOWN'' (re_event_type e),
      ev_payload = default (JObj []) (re_payload e),
      ev_source_cluster_id = default [] (re_source_cluster_id e)\<rparr>"

text \<open>The body of the loop: skip an event without id, swallow the \<open>IntegrityError\<close> of a known one.\<close>

definition merge_event :: "pyfloat \<Rightarrow> remote_event \<Rightarrow> event_log \<times> nat \<Rightarrow> event_log \<times> nat" where
  "merge_event now e acc =
     (if default [] (re_event_id e) = [] then acc
      else case insert_row (event_of_remote now e) (fst acc) of
        Inl IntegrityError \<Rightarrow> acc
      | Inr l' \<Rightarrow> (l', snd acc + 1))"

definition merge_events :: "pyfloat \<Rightarrow> remote_event list \<Rightarrow> event_log \<Rightarrow> event_log \<times> nat" where
  "merge_events now es l = fold (merge_event now) es (l, 0)"

section \<open>Anti-entropy cursors\<close>

type_synonym cursors = "(string, int) dict"

definition plan_pull :: "string \<Rightarrow> int \<Rightarrow> event_log \<Rightarrow> cursors \<Rightarrow> (int \<times> int) \<times> cursors" where
  "plan_pull remote remote_last_seq l cs =
     (let local = int (last_seq l);
          last_cursor = (case dget cs remote of Some c \<Rightarrow> c | None \<Rightarrow> 0);
          start = max last_cursor (remote_last_seq - 200)
      in ((start, local), dput remote (max last_cursor remote_last_seq) cs))"

text \<open>The digest is a hash of the ids of the last 50 events; \<open>hash_ids\<close> is that hash.\<close>

definition local_summary :: "(string list \<Rightarrow> 'd) \<Rightarrow> event_log \<Rightarrow> nat \<times> 'd" where
  "local_summary hash_ids l = (last_seq l, hash_ids (map ev_event_id (tail 50 l)))"

section \<open>The log invariant\<close>

definition log_wf :: "event_log \<Rightarrow> bool" where
  "log_wf l \<longleftrightarrow>
     map ev_seq (log_rows l) = [1..<log_next_seq l] \<and> distinct (map ev_event_id (log_rows l))"

definition log_ids :: "event_log \<Rightarrow> string set" where
  "log_ids l = set (map ev_event_id (log_rows l))"

lemma log_wf_empty [simp]: "log_wf empty_log"
  by (simp add: log_wf_def empty_log_def)

lemma log_wf_next: "log_wf l \<Longrightarrow> 1 \<le> log_next_seq l \<Longrightarrow> length (log_rows l) = log_next_seq l - 1"
  by (metis length_map length_upt log_wf_def)

lemma insert_row_wf: "log_wf l \<Longrightarrow> 1 \<le> log_next_seq l \<Longrightarrow> insert_row ev l = Inr l' \<Longrightarrow> log_wf l'"
  by (auto simp: insert_row_def log_wf_def split: if_splits)

lemma insert_row_next: "insert_row ev l = Inr l' \<Longrightarrow> log_next_seq l' = log_next_seq l + 1"
  by (auto simp: insert_row_def split: if_splits)

definition log_ok :: "event_log \<Rightarrow> bool" where
  "log_ok l \<longleftrightarrow> log_wf l \<and> 1 \<le> log_next_seq l"

lemma log_ok_empty [simp]: "log_ok empty_log"
  by (simp add: log_ok_def empty_log_def log_wf_def)

lemma insert_row_ok: "log_ok l \<Longrightarrow> insert_row ev l = Inr l' \<Longrightarrow> log_ok l'"
  using insert_row_wf insert_row_next by (fastforce simp: log_ok_def)

lemma insert_row_rows:
  "insert_row ev l = Inr l' \<Longrightarrow> log_rows l' = log_rows l @ [ev\<lparr>ev_seq := log_next_seq l\<rparr>]"
  by (auto simp: insert_row_def split: if_splits)

lemma insert_row_fails_iff: "insert_row ev l = Inl e \<longleftrightarrow> ev_event_id ev \<in> log_ids l"
  by (cases e) (auto simp: insert_row_def log_ids_def)

lemma log_append_ok: "log_ok l \<Longrightarrow> log_append u t et p s l = Inr (l', ev) \<Longrightarrow> log_ok l'"
  by (auto simp: log_append_def Let_def insert_row_ok split: sum.splits)

lemma merge_event_cases:
  obtains "merge_event now e acc = acc" "default [] (re_event_id e) = [] \<or> default [] (re_event_id e) \<in> log_ids (fst acc)"
  | l' where "insert_row (event_of_remote now e) (fst acc) = Inr l'" "merge_event now e acc = (l', snd acc + 1)"
      "default [] (re_event_id e) \<noteq> []" "default [] (re_event_id e) \<notin> log_ids (fst acc)"
proof (cases "default [] (re_event_id e) = []")
  case True
  then show ?thesis by (intro that(1)) (simp_all add: merge_event_def)
next
  case False
  then show ?thesis
    by (cases "insert_row (event_of_remote now e) (fst acc)")
      (auto simp: merge_event_def insert_row_fails_iff event_of_remote_def insert_row_def log_ids_def
        intro: that split: db_error.splits if_splits)
qed

lemma merge_event_ok: "log_ok (fst acc) \<Longrightarrow> log_ok (fst (merge_event now e acc))"
  by (rule merge_event_cases [of now e acc]) (auto intro: insert_row_ok)

lemma merge_event_ids:
  "log_ids (fst (merge_event now e acc)) =
     log_ids (fst acc) \<union> ({default [] (re_event_id e)} - {[]})"
  by (rule merge_event_cases [of now e acc])
    (auto simp: log_ids_def event_of_remote_def dest!: insert_row_rows)

lemma merge_event_prefix: "\<exists>new. log_rows (fst (merge_event now e acc)) = log_rows (fst acc) @ new"
  by (rule merge_event_cases [of now e acc]) (auto dest: insert_row_rows)

lemma merge_event_count:
  "length (log_rows (fst (merge_event now e acc))) + snd acc =
     length (log_rows (fst acc)) + snd (merge_event now e acc)"
  by (rule merge_event_cases [of now e acc]) (auto dest: insert_row_rows)

text \<open>The ids that a batch of remote events offers.\<close>

definition offered :: "remote_event list \<Rightarrow> string set" where
  "offered es = set (map (\<lambda>e. default [] (re_event_id e)) es) - {[]}"

lemma fold_merge_event:
  "log_ids (fst (fold (merge_event now) es acc)) = log_ids (fst acc) \<union> offered es
   \<and> (\<exists>new. log_rows (fst (fold (merge_event now) es acc)) = log_rows (fst acc) @ new)
   \<and> length (log_rows (fst (fold (merge_event now) es acc))) + snd acc =
       length (log_rows (fst acc)) + snd (fold (merge_event now) es acc)"
proof (induction es arbitrary: acc)
  case Nil
  then show ?case by (simp add: offered_def)
next
  case (Cons e es)
  from merge_event_prefix [of now e acc] Cons.IH [of "merge_event now e acc"]
    merge_event_ids [of now e acc] merge_event_count [of now e acc]
  show ?case by (auto simp: offered_def)
qed

lemma merge_events_ok: "log_ok l \<Longrightarrow> log_ok (fst (merge_events now es l))"
  unfolding merge_events_def
  by (rule fold_inv [where P = "\<lambda>acc. log_ok (fst acc)"]) (auto intro: merge_event_ok)

lemma merge_events_ids: "log_ids (fst (merge_events now es l)) = log_ids l \<union> offered es"
  using fold_merge_event [of now es "(l, 0)"] by (simp add: merge_events_def)

lemma merge_events_prefix: "\<exists>new. log_rows (fst (merge_events now es l)) = log_rows l @ new"
  using fold_merge_event [of now es "(l, 0)"] by (simp add: merge_events_def)

lemma merge_events_count:
  "length (log_rows (fst (merge_events now es l))) = length (log_rows l) + snd (merge_events now es l)"
  using fold_merge_event [of now es "(l, 0)"] by (simp add: merge_events_def)

lemma merge_known: "offered es \<subseteq> log_ids l \<Longrightarrow> merge_events now es l = (l, 0)"
proof -
  assume "offered es \<subseteq> log_ids l"
  then have "fold (merge_event now) es (l, n) = (l, n)" for n
  proof (induction es)
    case (Cons e es)
    then have "merge_event now e (l, n) = (l, n)"
      by (auto simp: merge_event_def insert_row_def log_ids_def offered_def event_of_remote_def)
    with Cons show ?case by (auto simp: offered_def)
  qed simp
  then show ?thesis by (simp add: merge_events_def)
qed

section \<open>Reading the log\<close>

lemma log_ok_rows_sorted: "log_ok l \<Longrightarrow> sorted (map ev_seq (log_rows l))"
  by (simp add: log_ok_def log_wf_def)

lemma log_ok_drop_sort:
  "log_ok l \<Longrightarrow> sort_key ev_seq (drop k (log_rows l)) = drop k (log_rows l)"
  by (intro sort_key_id_if_sorted)
    (simp add: drop_map [symmetric] sorted_wrt_drop log_ok_rows_sorted)

lemma fold_max_upt: "fold max [1..<Suc n] 0 = n"
  by (induction n) auto

lemma last_seq_eq: "log_ok l \<Longrightarrow> last_seq l = length (log_rows l)"
proof -
  assume ok: "log_ok l"
  then have "length (log_rows l) = log_next_seq l - 1"
    using log_wf_next by (simp add: log_ok_def)
  moreover have "fold max [1..<log_next_seq l] 0 = log_next_seq l - 1"
    using ok fold_max_upt [of "log_next_seq l - 1"] by (simp add: log_ok_def)
  ultimately show ?thesis using ok by (simp add: last_seq_def log_ok_def log_wf_def)
qed

lemma filter_seq_drop:
  "map ev_seq rows = [1..<Suc (length rows)] \<Longrightarrow> filter (\<lambda>e. ev_seq e > k) rows = drop k rows"
proof (induction rows rule: rev_induct)
  case (snoc x xs)
  then show ?case by (cases "k \<le> length xs") auto
qed simp

lemma log_ok_drop: "log_ok l \<Longrightarrow> filter (\<lambda>e. ev_seq e > k) (log_rows l) = drop k (log_rows l)"
  using log_wf_next by (intro filter_seq_drop) (auto simp: log_ok_def log_wf_def)

lemma replay_eq: "log_ok l \<Longrightarrow> replay since limit l = take limit (drop since (log_rows l))"
  by (simp add: replay_def log_ok_drop log_ok_drop_sort)

lemma tail_eq: "log_ok l \<Longrightarrow> tail limit l = drop (length (log_rows l) - limit) (log_rows l)"
  by (auto simp: tail_def Let_def last_seq_eq log_ok_drop log_ok_drop_sort)

section \<open>Properties\<close>

datatype log_op =
    Append string pyfloat string json string
  | Merge pyfloat "remote_event list"

fun log_step :: "log_op \<Rightarrow> event_log \<Rightarrow> event_log" where
  "log_step (Append u t et p s) l = (case log_append u t et p s l of Inl e \<Rightarrow> l | Inr (l', ev) \<Rightarrow> l')"
| "log_step (Merge now es) l = fst (merge_events now es l)"

lemma log_step_ok: "log_ok l \<Longrightarrow> log_ok (log_step op l)"
  by (cases op) (auto simp: merge_events_ok split: sum.split dest: log_append_ok)

lemma log_run_ok: "log_ok l \<Longrightarrow> log_ok (fold log_step ops l)"
  by (rule fold_inv [where P = log_ok]) (auto intro: log_step_ok)

text \<open>
  C7: whatever is appended and merged, the log numbers its events 1, 2, 3, \<open>...\<close> without a gap,
  never holds an event id twice, and reports the number of its last event as \<open>last_seq\<close>.
\<close>

theorem event_log_numbering:
  "log_wf (fold log_step ops empty_log)
   \<and> last_seq (fold log_step ops empty_log) = length (log_rows (fold log_step ops empty_log))"
  using log_run_ok [OF log_ok_empty] last_seq_eq by (simp add: log_ok_def)

text \<open>
  merging is append-only, adds exactly the offered ids that the log does not hold, counts the
  rows it added, and is idempotent: the same batch again changes nothing and counts 0.
\<close>

theorem merge_events_exact:
  "(\<exists>new. log_rows (fst (merge_events now es l)) = log_rows l @ new
      \<and> length new = snd (merge_events now es l))
   \<and> log_ids (fst (merge_events now es l)) = log_ids l \<union> offered es
   \<and> merge_events now' es (fst (merge_events now es l)) = (fst (merge_events now es l), 0)"
proof (intro conjI)
  show "\<exists>new. log_rows (fst (merge_events now es l)) = log_rows l @ new
      \<and> length new = snd (merge_events now es l)"
    using merge_events_prefix [of now es l] merge_events_count [of now es l] by auto
  show ids: "log_ids (fst (merge_events now es l)) = log_ids l \<union> offered es"
    by (rule merge_events_ids)
  show "merge_events now' es (fst (merge_events now es l)) = (fst (merge_events now es l), 0)"
    by (rule merge_known) (simp add: ids)
qed

definition remote_of_event :: "mesh_event \<Rightarrow> remote_event" where
  "remote_of_event e =
     \<lparr>re_event_id = Some (ev_event_id e), re_ts = Some (ev_ts e),
      re_event_type = Some (ev_event_type e), re_payload = Some (ev_payload e),
      re_source_cluster_id = Some (ev_source_cluster_id e)\<rparr>"

lemma offered_replayed: "offered (map remote_of_event es) = set (map ev_event_id es) - {[]}"
  by (auto simp: offered_def remote_of_event_def default_def)


definition sample_remote :: "string \<Rightarrow> remote_event" where
  "sample_remote i = \<lparr>re_event_id = Some i, re_ts = Some 1, re_event_type = None, re_payload = None,
     re_source_cluster_id = None\<rparr>"


text \<open>
  Paging through the log loses and repeats nothing: a page of \<open>limit\<close> events and then
  everything after the last number of that page is everything after the old cursor.
\<close>

theorem replay_pages:
  assumes "log_ok l" and "replay since limit l \<noteq> []"
  shows "replay since (last_seq l) l =
    replay since limit l @ replay (ev_seq (last (replay since limit l))) (last_seq l) l"
proof -
  let ?n = "length (log_rows l)"
  have page: "replay since limit l = take limit (drop since (log_rows l))"
    and since: "since < ?n" and limit: "0 < limit"
    using assms by (auto simp: replay_eq)
  let ?k = "min limit (?n - since)"
  have k: "length (replay since limit l) = ?k" "0 < ?k" "since + ?k \<le> ?n"
    using since limit by (auto simp: page)
  have "last (replay since limit l) = log_rows l ! (since + ?k - 1)"
    using k since assms(2) by (simp add: last_conv_nth page)
  moreover have "map ev_seq (log_rows l) ! (since + ?k - 1) = since + ?k"
  proof -
    have seqs: "map ev_seq (log_rows l) = [1..<log_next_seq l]" and "?n = log_next_seq l - 1"
      using assms(1) log_wf_next [of l] by (simp_all add: log_ok_def log_wf_def)
    with k have "1 + (since + ?k - 1) < log_next_seq l" by linarith
    with k(2) show ?thesis unfolding seqs by (subst nth_upt) simp_all
  qed
  ultimately have "ev_seq (last (replay since limit l)) = since + ?k"
    using k by simp
  moreover have "drop since (log_rows l) = take ?k (drop since (log_rows l)) @ drop (since + ?k) (log_rows l)"
    by (metis append_take_drop_id drop_drop add.commute)
  moreover have "take ?k (drop since (log_rows l)) = take limit (drop since (log_rows l))"
    by (auto simp: min_def)
  ultimately show ?thesis using assms(1) by (simp add: replay_eq last_seq_eq)
qed

theorem replay_pages_example:
  "replay 0 2 (fst (merge_events 2 (map sample_remote [''x'', ''y'']) empty_log)) =
     replay 0 1 (fst (merge_events 2 (map sample_remote [''x'', ''y'']) empty_log))
     @ replay 1 2 (fst (merge_events 2 (map sample_remote [''x'', ''y'']) empty_log))"
proof -
  let ?l = "fst (merge_events 2 (map sample_remote [''x'', ''y'']) empty_log)"
  have l: "?l = \<lparr>log_rows = [(event_of_remote 2 (sample_remote ''x''))\<lparr>ev_seq := 1\<rparr>,
      (event_of_remote 2 (sample_remote ''y''))\<lparr>ev_seq := 2\<rparr>], log_next_seq = 3\<rparr>"
    by (simp add: merge_events_def merge_event_def insert_row_def sample_remote_def default_def
        empty_log_def event_of_remote_def)
  have ok: "log_ok ?l" by (rule merge_events_ok) simp
  have s: "last_seq ?l = 2" unfolding l by (simp add: last_seq_def)
  have p: "replay 0 1 ?l = [(event_of_remote 2 (sample_remote ''x''))\<lparr>ev_seq := 1\<rparr>]"
    unfolding replay_eq [OF ok] unfolding l by simp
  then have "replay 0 1 ?l \<noteq> []" by simp
  from replay_pages [OF ok this] show ?thesis unfolding s p by (simp add: p [symmetric])
qed

lemma plan_pull_monotone:
  "(case dget cs r of Some c \<Rightarrow> c | None \<Rightarrow> 0) \<le> fst (fst (plan_pull r n l cs))
   \<and> (case dget cs r of Some c \<Rightarrow> c | None \<Rightarrow> 0) \<le> (case dget (snd (plan_pull r n l cs)) r of Some c \<Rightarrow> c | None \<Rightarrow> 0)"
  by (simp add: plan_pull_def Let_def)

end
