(* ===== verification/Lease.thy ===== *)
theory Lease
  imports Prelude
begin

text \<open>
  Leases: a named resource, its holder and the time its lease expires. Three services of the
  code grant them: \<open>consensus/distributed_lock.py\<close>, \<open>consensus/election.py\<close> and the lock table of
  \<open>global_control/consensus.py\<close>. The interface they share is a locale: the decision of \<open>acquire\<close>,
  its effect, and, for the services that have one, the effect of \<open>release\<close>. What a client relies
  on (exclusion while a lease lives, renewal, hand-over after expiry or release) is proved once
  from the interface and read off for each service by its interpretation.
\<close>

section \<open>The interface\<close>

type_synonym ('n, 'h) lease_request = "rat \<times> 'n \<times> 'h \<times> rat"

text \<open>
  Every request for \<open>n\<close> in the list comes from another holder than \<open>h\<close> and before time \<open>e\<close>.
\<close>

definition competing :: "'n \<Rightarrow> 'h \<Rightarrow> rat \<Rightarrow> ('n, 'h) lease_request list \<Rightarrow> bool" where
  "competing n h e rs \<longleftrightarrow> list_all (\<lambda>(t, m, h', d). m = n \<longrightarrow> t < e \<and> h' \<noteq> h) rs"

locale lease_service =
  fixes acquire :: "rat \<Rightarrow> 'n \<Rightarrow> 'h \<Rightarrow> rat \<Rightarrow> 's \<Rightarrow> bool \<times> 's"
    and owner :: "'s \<Rightarrow> 'n \<Rightarrow> ('h \<times> rat) option"
  assumes granted_iff: "fst (acquire t n h d s) \<longleftrightarrow>
      (case owner s n of None \<Rightarrow> True | Some (h', e) \<Rightarrow> e \<le> t \<or> h' = h)"
    and owner_granted: "fst (acquire t n h d s) \<Longrightarrow>
      owner (snd (acquire t n h d s)) n' = (if n' = n then Some (h, t + d) else owner s n')"
    and owner_denied: "\<not> fst (acquire t n h d s) \<Longrightarrow> owner (snd (acquire t n h d s)) n' = owner s n'"
begin

text \<open>A request \<open>(t, n, h, d)\<close>: at time \<open>t\<close>, holder \<open>h\<close> asks for \<open>n\<close> for \<open>d\<close> seconds.\<close>

fun serve :: "('n, 'h) lease_request list \<Rightarrow> 's \<Rightarrow> 's" where
  "serve [] s = s"
| "serve ((t, n, h, d) # rs) s = serve rs (snd (acquire t n h d s))"

text \<open>The holders that a sequence of requests grants \<open>n\<close> to, in order.\<close>

fun winners :: "'n \<Rightarrow> ('n, 'h) lease_request list \<Rightarrow> 's \<Rightarrow> 'h list" where
  "winners n [] s = []"
| "winners n ((t, m, h, d) # rs) s =
     (if m = n \<and> fst (acquire t m h d s) then [h] else []) @ winners n rs (snd (acquire t m h d s))"

lemma granted_owner: "fst (acquire t n h d s) \<Longrightarrow> owner (snd (acquire t n h d s)) n = Some (h, t + d)"
  by (simp add: owner_granted)

lemma live_lease_denies:
  "owner s n = Some (h, e) \<Longrightarrow> t < e \<Longrightarrow> h' \<noteq> h \<Longrightarrow> \<not> fst (acquire t n h' d s)"
  by (simp add: granted_iff)

lemma renewal_granted: "owner s n = Some (h, e) \<Longrightarrow> fst (acquire t n h d s)"
  by (simp add: granted_iff)

lemma expired_granted: "owner s n = Some (h, e) \<Longrightarrow> e \<le> t \<Longrightarrow> fst (acquire t n h' d s)"
  by (simp add: granted_iff)

lemma free_granted: "owner s n = None \<Longrightarrow> fst (acquire t n h d s)"
  by (simp add: granted_iff)

lemma other_resource_untouched: "n' \<noteq> n \<Longrightarrow> owner (snd (acquire t n h d s)) n' = owner s n'"
  by (cases "fst (acquire t n h d s)") (simp_all add: owner_granted owner_denied)

text \<open>
  Exclusion over a whole history: as long as a lease lives and its holder does not ask again, no
  request of another holder for the resource is granted, and the lease stays as it is.
\<close>

lemma exclusive_history:
  assumes "owner s n = Some (h, e)" and "competing n h e rs"
  shows "owner (serve rs s) n = Some (h, e) \<and> winners n rs s = []"
  using assms
proof (induction rs arbitrary: s)
  case (Cons r rs)
  obtain t m h' d where r: "r = (t, m, h', d)" by (cases r)
  let ?s = "snd (acquire t m h' d s)"
  have head: "\<not> fst (acquire t n h' d s)" if "m = n"
    using Cons.prems r that by (intro live_lease_denies) (auto simp: competing_def)
  then have "owner ?s n = Some (h, e)"
    using Cons.prems(1) by (cases "m = n") (simp_all add: owner_denied other_resource_untouched)
  moreover have "competing n h e rs" using Cons.prems(2) by (simp add: competing_def)
  ultimately show ?case using Cons.IH [of ?s] r head by auto
qed simp

end

locale releasable_lease = lease_service acquire owner
  for acquire :: "rat \<Rightarrow> 'n \<Rightarrow> 'h \<Rightarrow> rat \<Rightarrow> 's \<Rightarrow> bool \<times> 's"
    and owner :: "'s \<Rightarrow> 'n \<Rightarrow> ('h \<times> rat) option" +
  fixes release :: "'n \<Rightarrow> 'h \<Rightarrow> 's \<Rightarrow> 's"
  assumes owner_release: "owner (release n h s) n' =
      (if n' = n \<and> map_option fst (owner s n) = Some h then None else owner s n')"
begin

lemma release_frees:
  "owner s n = Some (h, e) \<Longrightarrow> fst (acquire t n h' d (release n h s))"
  by (rule free_granted) (simp add: owner_release)

lemma foreign_release_ignored:
  "owner s n = Some (h, e) \<Longrightarrow> h' \<noteq> h \<Longrightarrow> owner (release n h' s) m = owner s m"
  by (simp add: owner_release)

lemma release_idempotent: "owner (release n h (release n h s)) m = owner (release n h s) m"
  by (auto simp: owner_release)

end

section \<open>The SQLite mutex\<close>

text \<open>\<open>DistributedLock\<close>: the table \<open>dist_locks\<close> maps a name to its holder and expiry.\<close>

type_synonym dist_locks = "(string, string \<times> pyfloat) dict"

definition lock_acquire ::
    "pyfloat \<Rightarrow> string \<Rightarrow> string \<Rightarrow> pyfloat \<Rightarrow> dist_locks \<Rightarrow> bool \<times> dist_locks" where
  "lock_acquire t name holder ttl locks =
     (case dget locks name of
        Some (h, e) \<Rightarrow>
          if e > t \<and> h \<noteq> holder then (False, locks)
          else (True, dput name (holder, t + ttl) locks)
      | None \<Rightarrow> (True, dput name (holder, t + ttl) locks))"

definition lock_release :: "string \<Rightarrow> string \<Rightarrow> dist_locks \<Rightarrow> dist_locks" where
  "lock_release name holder locks =
     (case dget locks name of
        Some (h, e) \<Rightarrow> if h = holder then ddel name locks else locks
      | None \<Rightarrow> locks)"

interpretation dl: releasable_lease lock_acquire dget lock_release
  by unfold_locales (auto simp: lock_acquire_def lock_release_def split: option.splits if_splits)



section \<open>Leader election by lease\<close>

text \<open>\<open>LeaderElection\<close>: the table \<open>leader_lease\<close>; \<open>renew\<close> asks again and drops the answer.\<close>

type_synonym leader_lease = "(string, string \<times> pyfloat) dict"

definition try_acquire ::
    "pyfloat \<Rightarrow> string \<Rightarrow> string \<Rightarrow> pyfloat \<Rightarrow> leader_lease \<Rightarrow> bool \<times> leader_lease" where
  "try_acquire t scope holder ttl leases =
     (case dget leases scope of
        Some (h, e) \<Rightarrow>
          if e > t \<and> h \<noteq> holder then (False, leases)
          else (True, dput scope (holder, t + ttl) leases)
      | None \<Rightarrow> (True, dput scope (holder, t + ttl) leases))"

definition renew :: "pyfloat \<Rightarrow> string \<Rightarrow> string \<Rightarrow> pyfloat \<Rightarrow> leader_lease \<Rightarrow> leader_lease" where
  "renew t scope holder ttl leases = snd (try_acquire t scope holder ttl leases)"

interpretation le: lease_service try_acquire dget
  by unfold_locales (auto simp: try_acquire_def split: option.splits if_splits)

text \<open>
  A leader that renews its lease in time is never replaced: whatever other candidates ask
  for before the old lease expires, the renewal finds the leader in office and extends its lease.
\<close>

theorem leader_keeps_office:
  assumes "dget leases scope = Some (h, e)" and "competing scope h e rs" and "0 < ttl"
  shows "dget (renew t scope h ttl (le.serve rs leases)) scope = Some (h, t + ttl)"
proof -
  have "dget (le.serve rs leases) scope = Some (h, e)"
    using assms by (simp add: le.exclusive_history)
  then show ?thesis unfolding renew_def by (intro le.granted_owner le.renewal_granted)
qed

theorem leader_keeps_office_example:
  "dget (renew 25 ''mesh'' ''a'' 30 (le.serve [(20, ''mesh'', ''b'', 30)] [(''mesh'', ''a'', 28)]))
     ''mesh'' = Some (''a'', 25 + 30)"
  by (rule leader_keeps_office [where e = 28]) (simp_all add: competing_def)

section \<open>The lock table of the global control plane\<close>

text \<open>
  \<open>GlobalConsensus.acquire_lock\<close> and \<open>release_lock\<close>; an entry also records when it was acquired.
\<close>

record lock_entry =
  le_holder :: string
  le_expiry :: pyfloat
  le_acquired_at :: pyfloat

type_synonym lock_table = "(string, lock_entry) dict"

definition acquire_lock ::
    "pyfloat \<Rightarrow> string \<Rightarrow> string \<Rightarrow> pyfloat \<Rightarrow> lock_table \<Rightarrow> bool \<times> lock_table" where
  "acquire_lock ts name holder ttl locks =
     (let entry = \<lparr>le_holder = holder, le_expiry = ts + ttl, le_acquired_at = ts\<rparr>
      in case dget locks name of
        Some e \<Rightarrow>
          if le_expiry e > ts \<and> le_holder e \<noteq> holder then (False, locks)
          else (True, dput name entry locks)
      | None \<Rightarrow> (True, dput name entry locks))"

definition release_lock :: "string \<Rightarrow> string \<Rightarrow> lock_table \<Rightarrow> bool \<times> lock_table" where
  "release_lock name holder locks =
     (case dget locks name of
        None \<Rightarrow> (False, locks)
      | Some e \<Rightarrow> if le_holder e \<noteq> holder then (False, locks) else (True, ddel name locks))"

definition lock_owner :: "lock_table \<Rightarrow> string \<Rightarrow> (string \<times> pyfloat) option" where
  "lock_owner locks name = map_option (\<lambda>e. (le_holder e, le_expiry e)) (dget locks name)"

interpretation gl: releasable_lease acquire_lock lock_owner "\<lambda>n h s. snd (release_lock n h s)"
  by unfold_locales
    (auto simp: acquire_lock_def release_lock_def lock_owner_def Let_def
      split: option.splits if_splits)

text \<open>
  the global lock table hands over only by release or expiry: while a lease lives, requests of
  others fail, and its release by the holder (and only by the holder) lets the next request in.
\<close>

theorem global_lock_hand_over:
  assumes "lock_owner locks n = Some (h, e)" and "t < e" and "h' \<noteq> h"
  shows "\<not> fst (acquire_lock t n h' d locks)
    \<and> \<not> fst (acquire_lock t n h' d (snd (release_lock n h' locks)))
    \<and> fst (acquire_lock t n h' d (snd (release_lock n h locks)))"
proof (intro conjI)
  show "\<not> fst (acquire_lock t n h' d locks)"
    using assms by (rule gl.live_lease_denies)
  have "lock_owner (snd (release_lock n h' locks)) n = Some (h, e)"
    using assms by (simp add: gl.foreign_release_ignored)
  then show "\<not> fst (acquire_lock t n h' d (snd (release_lock n h' locks)))"
    using assms(2,3) by (rule gl.live_lease_denies)
  show "fst (acquire_lock t n h' d (snd (release_lock n h locks)))"
    using assms(1) by (rule gl.release_frees)
qed

theorem global_lock_hand_over_witness:
  "fst (acquire_lock 5 ''x'' ''b'' 10 (snd (release_lock ''x'' ''a''
     [(''x'', \<lparr>le_holder = ''a'', le_expiry = 9, le_acquired_at = 1\<rparr>)])))"
  by (rule global_lock_hand_over
      [of "[(''x'', \<lparr>le_holder = ''a'', le_expiry = 9, le_acquired_at = 1\<rparr>)]" "''x''" "''a''" 9 5
        "''b''", THEN conjunct2, THEN conjunct2])
    (simp_all add: lock_owner_def)

end
