(* ===== verification/GlobalConsensus.thy ===== *)
theory GlobalConsensus
  imports Lease
begin

text \<open>
  The leader state machine of \<open>global_control/consensus.py\<close> (\<open>GlobalConsensus\<close>): the periodic
  tick, promotion, and the heartbeat of another leader. Calls of \<open>on_promote\<close> and \<open>on_demote\<close> are
  recorded in order; an exception in a callback is swallowed by the source and has no effect.
  The lock table of the same class is in theory Lease. A group of nodes that exchange heartbeats
  is an inductive step relation.
\<close>

section \<open>One node\<close>

datatype leader_state = Leader | Follower | Candidate

datatype callback = OnPromote | OnDemote

record consensus =
  gc_node_id :: string
  gc_lease_ttl :: pyfloat
  gc_state :: leader_state
  gc_leader_id :: "string option"
  gc_lease_expiry :: pyfloat
  gc_callbacks :: "callback list"
  gc_locks :: lock_table

definition new_consensus :: "string \<Rightarrow> pyfloat \<Rightarrow> consensus" where
  "new_consensus nid ttl =
     \<lparr>gc_node_id = nid, gc_lease_ttl = ttl, gc_state = Follower, gc_leader_id = None,
      gc_lease_expiry = 0, gc_callbacks = [], gc_locks = []\<rparr>"

definition try_promote :: "pyfloat \<Rightarrow> consensus \<Rightarrow> consensus" where
  "try_promote ts c =
     c\<lparr>gc_state := Leader, gc_leader_id := Some (gc_node_id c),
       gc_lease_expiry := ts + gc_lease_ttl c,
       gc_callbacks := (if gc_state c \<noteq> Leader then gc_callbacks c @ [OnPromote] else gc_callbacks c)\<rparr>"

definition consensus_tick :: "pyfloat \<Rightarrow> consensus \<Rightarrow> consensus" where
  "consensus_tick ts c =
     (if gc_state c = Leader then c\<lparr>gc_lease_expiry := ts + gc_lease_ttl c\<rparr>
      else if gc_lease_expiry c > 0 \<and> ts > gc_lease_expiry c then try_promote ts c
      else if gc_leader_id c = None then try_promote ts c
      else c)"

definition receive_heartbeat :: "string \<Rightarrow> pyfloat \<Rightarrow> consensus \<Rightarrow> consensus" where
  "receive_heartbeat leader_id expiry c =
     (if leader_id \<noteq> gc_node_id c
      then (if gc_state c = Leader
            then c\<lparr>gc_state := Follower, gc_callbacks := gc_callbacks c @ [OnDemote]\<rparr> else c)
           \<lparr>gc_leader_id := Some leader_id, gc_lease_expiry := expiry\<rparr>
      else c)"

definition consensus_status :: "consensus \<Rightarrow> string \<times> leader_state \<times> string option \<times> pyfloat \<times> nat" where
  "consensus_status c =
     (gc_node_id c, gc_state c, gc_leader_id c, gc_lease_expiry c, length (gc_locks c))"

text \<open>\<open>acquire_lock\<close> and \<open>release_lock\<close> on the node's own lock table.\<close>

definition node_acquire_lock ::
    "pyfloat \<Rightarrow> string \<Rightarrow> string \<Rightarrow> pyfloat \<Rightarrow> consensus \<Rightarrow> bool \<times> consensus" where
  "node_acquire_lock ts name holder ttl c =
     (let (ok, locks) = acquire_lock ts name holder ttl (gc_locks c) in (ok, c\<lparr>gc_locks := locks\<rparr>))"

datatype consensus_event =
    TickAt pyfloat
  | HeartbeatFrom string pyfloat
  | AcquireLock pyfloat string string pyfloat

fun consensus_step :: "consensus_event \<Rightarrow> consensus \<Rightarrow> consensus" where
  "consensus_step (TickAt ts) c = consensus_tick ts c"
| "consensus_step (HeartbeatFrom l e) c = receive_heartbeat l e c"
| "consensus_step (AcquireLock ts n h ttl) c = snd (node_acquire_lock ts n h ttl c)"

text \<open>
  A leader names itself, a node with a leader record that names itself is the leader, no node is
  ever a candidate, and the callbacks alternate, the last one telling the current role.
\<close>

fun alternating :: "callback \<Rightarrow> callback list \<Rightarrow> bool" where
  "alternating c [] = True"
| "alternating c (x # xs) = (x = c \<and> alternating (if c = OnPromote then OnDemote else OnPromote) xs)"

definition role_ok :: "consensus \<Rightarrow> bool" where
  "role_ok c \<longleftrightarrow>
     gc_state c \<noteq> Candidate
     \<and> (gc_state c = Leader \<longleftrightarrow> gc_leader_id c = Some (gc_node_id c))
     \<and> alternating OnPromote (gc_callbacks c)
     \<and> (gc_state c = Leader \<longleftrightarrow> odd (length (gc_callbacks c)))"

lemma alternating_snoc:
  "alternating c (xs @ [x]) \<longleftrightarrow> alternating c xs
     \<and> x = (if even (length xs) then c else if c = OnPromote then OnDemote else OnPromote)"
  by (induction c xs rule: alternating.induct) (auto, (metis callback.exhaust)+)

lemma role_ok_step: "role_ok c \<Longrightarrow> role_ok (consensus_step ev c)"
  by (cases ev)
    (auto simp: role_ok_def consensus_tick_def try_promote_def receive_heartbeat_def
      node_acquire_lock_def alternating_snoc case_prod_unfold Let_def)

text \<open>
  C9: at any time a node of the global control plane regards itself as leader exactly when its
  leader record names it, it is never a candidate, and its promotion and demotion callbacks
  alternate, beginning with a promotion.
\<close>

theorem consensus_roles: "role_ok (fold consensus_step evs (new_consensus nid ttl))"
proof (rule fold_inv [where P = role_ok])
  show "role_ok (new_consensus nid ttl)" by (simp add: role_ok_def new_consensus_def)
qed (rule role_ok_step)

lemma live_lease_respected:
  "gc_state c \<noteq> Leader \<Longrightarrow> gc_leader_id c = Some l \<Longrightarrow> ts \<le> gc_lease_expiry c
     \<Longrightarrow> consensus_tick ts c = c"
  by (simp add: consensus_tick_def)

section \<open>A group of nodes\<close>

text \<open>
  Each node ticks on its own clock; a leader's heartbeat carries its id and its lease expiry and
  may be delivered to any node, or to none.
\<close>

type_synonym group = "(string, consensus) dict"

inductive group_step :: "group \<Rightarrow> group \<Rightarrow> bool" where
  tick: "dget g n = Some c \<Longrightarrow> group_step g (dput n (consensus_tick ts c) g)"
| heartbeat: "dget g n = Some c \<Longrightarrow> dget g l = Some leader \<Longrightarrow> gc_state leader = Leader \<Longrightarrow>
     group_step g (dput n (receive_heartbeat (gc_node_id leader) (gc_lease_expiry leader) c) g)"

inductive group_reachable :: "group \<Rightarrow> group \<Rightarrow> bool" for g0 where
  start: "group_reachable g0 g0"
| step: "group_reachable g0 g \<Longrightarrow> group_step g g' \<Longrightarrow> group_reachable g0 g'"

inductive_cases group_stepE: "group_step g g'"

definition group_ok :: "group \<Rightarrow> bool" where
  "group_ok g \<longleftrightarrow> keyed gc_node_id g \<and> (\<forall>p \<in> set g. role_ok (snd p))"

lemma gc_node_id_steps [simp]:
  "gc_node_id (consensus_tick ts c) = gc_node_id c"
  "gc_node_id (receive_heartbeat l e c) = gc_node_id c"
  by (simp_all add: consensus_tick_def try_promote_def receive_heartbeat_def)

lemma group_step_ok: "group_step g g' \<Longrightarrow> group_ok g \<Longrightarrow> group_ok g'"
proof (erule group_stepE)
  fix n c ts
  assume "g' = dput n (consensus_tick ts c) g" "dget g n = Some c" "group_ok g"
  then show "group_ok g'"
    using role_ok_step [of c "TickAt ts"]
    by (auto simp: group_ok_def set_dput keyed_def dest!: map_of_SomeD)
next
  fix n c l leader
  assume "g' = dput n (receive_heartbeat (gc_node_id leader) (gc_lease_expiry leader) c) g"
    "dget g n = Some c" "group_ok g"
  then show "group_ok g'"
    using role_ok_step [of c "HeartbeatFrom (gc_node_id leader) (gc_lease_expiry leader)"]
    by (auto simp: group_ok_def set_dput keyed_def dest!: map_of_SomeD)
qed

lemma group_reachable_ok: "group_reachable g0 g \<Longrightarrow> group_ok g0 \<Longrightarrow> group_ok g"
  by (induction rule: group_reachable.induct) (auto intro: group_step_ok)

definition leaders :: "group \<Rightarrow> string list" where
  "leaders g = dkeys (filter (\<lambda>p. gc_state (snd p) = Leader) g)"

text \<open>
  the election does not exclude two leaders: every node that ticks before it has heard of a
  leader promotes itself, so that from a fresh group of two nodes a state with two leaders is
  reachable in two steps.
\<close>

theorem consensus_split_brain:
  assumes "a \<noteq> b"
  shows "\<exists>g. group_reachable [(a, new_consensus a ttl), (b, new_consensus b ttl)] g
    \<and> leaders g = [a, b]"
proof -
  let ?ca = "new_consensus a ttl" and ?cb = "new_consensus b ttl"
  let ?g0 = "[(a, ?ca), (b, ?cb)]"
  let ?g1 = "dput a (consensus_tick 0 ?ca) ?g0"
  let ?g2 = "dput b (consensus_tick 0 ?cb) ?g1"
  have "group_step ?g0 ?g1" by (rule group_step.tick) simp
  moreover have "group_step ?g1 ?g2" by (rule group_step.tick) (use assms in simp)
  ultimately have "group_reachable ?g0 ?g2"
    by (blast intro: group_reachable.intros)
  moreover have "leaders ?g2 = [a, b]"
    using assms by (simp add: leaders_def consensus_tick_def new_consensus_def try_promote_def)
  ultimately show ?thesis by blast
qed

theorem consensus_split_brain_witness:
  "\<exists>g. group_reachable [(''eu'', new_consensus ''eu'' 30), (''us'', new_consensus ''us'' 30)] g
    \<and> leaders g = [''eu'', ''us'']"
  by (rule consensus_split_brain) simp

end
