(* ===== verification/GlobalState.thy ===== *)
theory GlobalState
  imports Prelude
begin

text \<open>
  \<open>global_control/global_state.py\<close> (the versioned key-value store with its change log) and
  \<open>global_control/replication.py\<close> (\<open>StateReplicator\<close>, its client). The table \<open>global_kv\<close> maps a
  namespace and a key to value, version and time; \<open>dumps\<close> and \<open>loads\<close> are \<open>json.dumps\<close> and
  \<open>json.loads\<close> (\<open>None\<close> for a \<open>JSONDecodeError\<close>).
\<close>

section \<open>The versioned store\<close>

record kv_row =
  kv_v :: string
  kv_version :: int
  kv_updated_at :: pyfloat

record change_row =
  ch_namespace :: string
  ch_k :: string
  ch_old_version :: "int option"
  ch_new_version :: int
  ch_ts :: pyfloat

record global_state =
  gs_kv :: "(string \<times> string, kv_row) dict"
  gs_changelog :: "change_row list"

definition empty_state :: global_state where
  "empty_state = \<lparr>gs_kv = [], gs_changelog = []\<rparr>"

definition gs_version :: "string \<times> string \<Rightarrow> global_state \<Rightarrow> int" where
  "gs_version nk s = (case dget (gs_kv s) nk of Some r \<Rightarrow> kv_version r | None \<Rightarrow> 0)"

definition serialize :: "(json \<Rightarrow> string) \<Rightarrow> json \<Rightarrow> string" where
  "serialize dumps v = (case v of JStr s \<Rightarrow> s | _ \<Rightarrow> dumps v)"

definition gs_put ::
    "(json \<Rightarrow> string) \<Rightarrow> pyfloat \<Rightarrow> string \<Rightarrow> string \<Rightarrow> json \<Rightarrow> global_state \<Rightarrow> global_state \<times> int" where
  "gs_put dumps ts ns k v s =
     (let old_ver = gs_version (ns, k) s; new_ver = old_ver + 1
      in (\<lparr>gs_kv = dput (ns, k) \<lparr>kv_v = serialize dumps v, kv_version = new_ver, kv_updated_at = ts\<rparr>
                    (gs_kv s),
           gs_changelog = gs_changelog s @
             [\<lparr>ch_namespace = ns, ch_k = k,
               ch_old_version = (if old_ver \<noteq> 0 then Some old_ver else None),
               ch_new_version = new_ver, ch_ts = ts\<rparr>]\<rparr>, new_ver))"

definition decode :: "(string \<Rightarrow> json option) \<Rightarrow> string \<Rightarrow> json" where
  "decode loads v = (case loads v of Some j \<Rightarrow> j | None \<Rightarrow> JStr v)"

definition gs_get ::
    "(string \<Rightarrow> json option) \<Rightarrow> string \<Rightarrow> string \<Rightarrow> global_state \<Rightarrow> (json \<times> int \<times> pyfloat) option" where
  "gs_get loads ns k s =
     map_option (\<lambda>r. (decode loads (kv_v r), kv_version r, kv_updated_at r)) (dget (gs_kv s) (ns, k))"

definition gs_delete :: "string \<Rightarrow> string \<Rightarrow> global_state \<Rightarrow> global_state \<times> bool" where
  "gs_delete ns k s = (s\<lparr>gs_kv := ddel (ns, k) (gs_kv s)\<rparr>, (ns, k) \<in> fst ` set (gs_kv s))"

definition gs_list_keys :: "string \<Rightarrow> global_state \<Rightarrow> string list" where
  "gs_list_keys ns s = sort (map snd (filter (\<lambda>nk. fst nk = ns) (dkeys (gs_kv s))))"

definition gs_list_namespaces :: "global_state \<Rightarrow> string list" where
  "gs_list_namespaces s = sort (remdups (map fst (dkeys (gs_kv s))))"

text \<open>An empty namespace string counts as no filter; rows come newest first.\<close>

definition gs_changelog_query ::
    "string option \<Rightarrow> int \<Rightarrow> nat \<Rightarrow> global_state \<Rightarrow> change_row list" where
  "gs_changelog_query ns since limit s =
     take limit (rev (filter (\<lambda>r. (case truthy ns of None \<Rightarrow> True | Some n \<Rightarrow> ch_namespace r = n)
                                   \<and> ch_new_version r > since) (gs_changelog s)))"

section \<open>Versioned stores in general\<close>

text \<open>
  What replication relies on: a write raises the version of its key by one and touches no other
  key, a delete resets it to 0.
\<close>

locale versioned_store =
  fixes put :: "'w \<Rightarrow> 'k \<Rightarrow> 's \<Rightarrow> 's"
    and delete :: "'k \<Rightarrow> 's \<Rightarrow> 's"
    and version :: "'k \<Rightarrow> 's \<Rightarrow> int"
  assumes version_put: "version k' (put w k s) = (if k' = k then version k s + 1 else version k' s)"
    and version_delete: "version k' (delete k s) = (if k' = k then 0 else version k' s)"
begin

definition writes :: "('w \<times> 'k) list \<Rightarrow> 's \<Rightarrow> 's" where
  "writes ws s = fold (\<lambda>(w, k). put w k) ws s"

lemma version_writes: "version k (writes ws s) = version k s + int (count_list (map snd ws) k)"
  unfolding writes_def by (induction ws arbitrary: s) (auto simp: version_put)

lemma version_mono: "version k s \<le> version k (writes ws s)"
  by (simp add: version_writes)

lemma recreated_version: "version k (put w k (delete k s)) = 1"
  by (simp add: version_put version_delete)

end

lemma gs_version_put:
  "gs_version nk (fst (gs_put dumps ts ns k v s)) =
     (if nk = (ns, k) then gs_version (ns, k) s + 1 else gs_version nk s)"
  by (simp add: gs_version_def gs_put_def Let_def)

lemma gs_version_delete:
  "gs_version nk (fst (gs_delete ns k s)) = (if nk = (ns, k) then 0 else gs_version nk s)"
  by (simp add: gs_version_def gs_delete_def)

interpretation vs: versioned_store
  "\<lambda>(dumps, ts, v) (ns, k) s. fst (gs_put dumps ts ns k v s)"
  "\<lambda>(ns, k) s. fst (gs_delete ns k s)" gs_version
  by unfold_locales (auto simp: gs_version_put gs_version_delete split: prod.splits)

lemma gs_put_version: "snd (gs_put dumps ts ns k v s) = gs_version (ns, k) s + 1"
  by (simp add: gs_put_def Let_def)

lemma gs_get_put:
  "gs_get loads ns' k' (fst (gs_put dumps ts ns k v s)) =
     (if ns' = ns \<and> k' = k then Some (decode loads (serialize dumps v), gs_version (ns, k) s + 1, ts)
      else gs_get loads ns' k' s)"
  by (simp add: gs_get_def gs_put_def Let_def)

text \<open>
  a read returns what the last write of the key stored, with its version and time: every
  value that is not a string, and every string that is not itself the text of a JSON value.
\<close>

theorem global_state_read_back:
  assumes "case v of JStr x \<Rightarrow> loads x = None | _ \<Rightarrow> loads (dumps v) = Some v"
  shows "gs_get loads ns k (fst (gs_put dumps ts ns k v s)) =
    Some (v, gs_version (ns, k) s + 1, ts)"
  using assms by (auto simp: gs_get_put decode_def serialize_def split: json.splits)

theorem global_state_read_back_witness:
  "gs_get (\<lambda>x. if x = ''7'' then Some (JNum 7) else None) ''cfg'' ''n''
     (fst (gs_put (\<lambda>_. ''7'') 5 ''cfg'' ''n'' (JNum 7) empty_state)) = Some (JNum 7, 0 + 1, 5)"
  using global_state_read_back
    [where v = "JNum 7" and loads = "\<lambda>x. if x = ''7'' then Some (JNum 7) else None" and
      dumps = "\<lambda>_. ''7''" and ns = "''cfg''" and k = "''n''" and ts = 5 and s = empty_state]
  by (simp add: gs_version_def empty_state_def)

text \<open>
  A string whose text is JSON does not survive the store: it is stored undecorated and comes
  back as the value it spells, so that the string 7 is read as the number 7.
\<close>

theorem global_state_string_confusion:
  assumes "loads x = Some j" and "j \<noteq> JStr x"
  shows "map_option fst (gs_get loads ns k (fst (gs_put dumps ts ns k (JStr x) s))) \<noteq> Some (JStr x)"
  using assms by (simp add: gs_get_put decode_def serialize_def)

theorem global_state_string_confusion_example:
  "map_option fst (gs_get (\<lambda>x. if x = ''7'' then Some (JNum 7) else None) ''cfg'' ''n''
     (fst (gs_put (\<lambda>_. ''7'') 5 ''cfg'' ''n'' (JStr ''7'') empty_state))) \<noteq> Some (JStr ''7'')"
  by (rule global_state_string_confusion [where j = "JNum 7"]) simp_all

section \<open>The replicator\<close>

record checkpoint =
  cp_region_id :: string
  cp_namespace :: string
  cp_version :: int
  cp_ts :: pyfloat

record change =
  chg_namespace :: string
  chg_key :: string
  chg_value :: json
  chg_version :: int
  chg_ts :: pyfloat

record replicator =
  rep_local_region :: string
  rep_checkpoints :: "(string, checkpoint) dict"
  rep_pending :: "change list"
  rep_conflict_count :: nat
  rep_sync_count :: nat

definition new_replicator :: "string \<Rightarrow> replicator" where
  "new_replicator region =
     \<lparr>rep_local_region = region, rep_checkpoints = [], rep_pending = [], rep_conflict_count = 0,
      rep_sync_count = 0\<rparr>"

definition enqueue_change :: "change \<Rightarrow> replicator \<Rightarrow> replicator" where
  "enqueue_change c r = r\<lparr>rep_pending := rep_pending r @ [c]\<rparr>"

text \<open>
  One \<open>_sync_tick\<close>. The callback is absent (\<open>None\<close>), returns (\<open>Some True\<close>) or raises
  (\<open>Some False\<close>); \<open>arrivals\<close> are the changes that other threads enqueue while it runs. The result
  includes the batch that was delivered.
\<close>

definition sync_tick ::
    "bool option \<Rightarrow> change list \<Rightarrow> replicator \<Rightarrow> replicator \<times> change list" where
  "sync_tick on_sync arrivals r =
     (let batch = rep_pending r; r1 = r\<lparr>rep_pending := arrivals\<rparr>
      in if batch \<noteq> [] \<and> on_sync \<noteq> None
         then if on_sync = Some True then (r1\<lparr>rep_sync_count := rep_sync_count r + 1\<rparr>, batch)
              else (r1\<lparr>rep_pending := batch @ rep_pending r1\<rparr>, [])
         else (r1, []))"

definition resolve_conflict :: "json \<times> int \<times> pyfloat \<Rightarrow> change \<Rightarrow> json" where
  "resolve_conflict local remote =
     (if chg_ts remote \<ge> snd (snd local) then chg_value remote else fst local)"

datatype outcome = Applied | Conflict | Skipped

definition apply_change ::
    "(json \<Rightarrow> string) \<Rightarrow> (string \<Rightarrow> json option) \<Rightarrow> pyfloat \<Rightarrow> change \<Rightarrow> global_state
      \<Rightarrow> global_state \<times> outcome" where
  "apply_change dumps loads ts c s =
     (let ns = chg_namespace c; key = chg_key c;
          local = gs_get loads ns key s;
          local_version = (case local of Some (v, ver, u) \<Rightarrow> ver | None \<Rightarrow> 0)
      in if chg_version c \<le> local_version then (s, Skipped)
         else case local of
           Some l \<Rightarrow>
             if local_version > 0 \<and> chg_version c \<noteq> local_version + 1
             then (fst (gs_put dumps ts ns key (resolve_conflict l c) s), Conflict)
             else (fst (gs_put dumps ts ns key (chg_value c) s), Applied)
         | None \<Rightarrow> (fst (gs_put dumps ts ns key (chg_value c) s), Applied))"

fun apply_remote_changes ::
    "(json \<Rightarrow> string) \<Rightarrow> (string \<Rightarrow> json option) \<Rightarrow> pyfloat \<Rightarrow> change list \<Rightarrow> global_state
      \<Rightarrow> global_state \<times> outcome list" where
  "apply_remote_changes dumps loads ts [] s = (s, [])"
| "apply_remote_changes dumps loads ts (c # cs) s =
     (let (s1, o1) = apply_change dumps loads ts c s;
          (s2, os) = apply_remote_changes dumps loads ts cs s1
      in (s2, o1 # os))"

text \<open>The counts that the call returns, and the conflict counter of the replicator.\<close>

definition apply_counts :: "outcome list \<Rightarrow> nat \<times> nat \<times> nat" where
  "apply_counts os = (count_list os Applied, count_list os Conflict, count_list os Skipped)"

definition count_conflicts :: "outcome list \<Rightarrow> replicator \<Rightarrow> replicator" where
  "count_conflicts os r = r\<lparr>rep_conflict_count := rep_conflict_count r + count_list os Conflict\<rparr>"

definition checkpoint_key :: "string \<Rightarrow> string \<Rightarrow> string" where
  "checkpoint_key region ns = region @ '':'' @ ns"

definition update_checkpoint :: "pyfloat \<Rightarrow> string \<Rightarrow> string \<Rightarrow> int \<Rightarrow> replicator \<Rightarrow> replicator" where
  "update_checkpoint t region ns version r =
     r\<lparr>rep_checkpoints := dput (checkpoint_key region ns)
         \<lparr>cp_region_id = region, cp_namespace = ns, cp_version = version, cp_ts = t\<rparr>
         (rep_checkpoints r)\<rparr>"

definition get_checkpoint :: "string \<Rightarrow> string \<Rightarrow> replicator \<Rightarrow> checkpoint option" where
  "get_checkpoint region ns r = dget (rep_checkpoints r) (checkpoint_key region ns)"

section \<open>The change log\<close>

lemma changelog_put:
  "gs_changelog (fst (gs_put dumps ts ns k v s)) = gs_changelog s @
     [\<lparr>ch_namespace = ns, ch_k = k,
       ch_old_version = (if gs_version (ns, k) s \<noteq> 0 then Some (gs_version (ns, k) s) else None),
       ch_new_version = gs_version (ns, k) s + 1, ch_ts = ts\<rparr>]"
  by (simp add: gs_put_def Let_def)

definition log_of :: "string \<Rightarrow> string \<Rightarrow> global_state \<Rightarrow> int list" where
  "log_of ns k s =
     map ch_new_version (filter (\<lambda>r. ch_namespace r = ns \<and> ch_k r = k) (gs_changelog s))"

definition put_all :: "(json \<Rightarrow> string) \<Rightarrow> (pyfloat \<times> string \<times> string \<times> json) list \<Rightarrow> global_state \<Rightarrow> global_state"
  where "put_all dumps ws s = fold (\<lambda>(ts, ns, k, v) s. fst (gs_put dumps ts ns k v s)) ws s"

lemma put_all_writes:
  "put_all dumps ws s = vs.writes (map (\<lambda>(ts, ns, k, v). ((dumps, ts, v), (ns, k))) ws) s"
  unfolding put_all_def vs.writes_def by (induction ws arbitrary: s) auto


section \<open>What replication guarantees\<close>

datatype sync_event = Enqueue change | Sync bool "change list"

fun sync_step :: "sync_event \<Rightarrow> replicator \<times> change list \<Rightarrow> replicator \<times> change list" where
  "sync_step (Enqueue c) (r, sent) = (enqueue_change c r, sent)"
| "sync_step (Sync ok arrivals) (r, sent) =
     (let (r', batch) = sync_tick (Some ok) arrivals r in (r', sent @ batch))"

fun enqueued :: "sync_event \<Rightarrow> change list" where
  "enqueued (Enqueue c) = [c]"
| "enqueued (Sync ok arrivals) = arrivals"

lemma sync_step_conserves:
  "snd (sync_step ev (r, sent)) @ rep_pending (fst (sync_step ev (r, sent))) =
     sent @ rep_pending r @ enqueued ev"
  by (cases ev) (auto simp: enqueue_change_def sync_tick_def Let_def)


text \<open>Without a callback, a tick empties the pending list and delivers nothing.\<close>

lemma sync_without_callback_drops:
  "rep_pending (fst (sync_tick None [] r)) = [] \<and> snd (sync_tick None [] r) = []"
  by (simp add: sync_tick_def Let_def)

lemma gs_get_version:
  "gs_get loads ns k s = Some (v, ver, u) \<Longrightarrow> gs_version (ns, k) s = ver"
  "gs_get loads ns k s = None \<Longrightarrow> gs_version (ns, k) s = 0"
  by (auto simp: gs_get_def gs_version_def)

lemma apply_change_next:
  assumes "chg_version c = gs_version (chg_namespace c, chg_key c) s + 1"
  shows "apply_change dumps loads ts c s =
    (fst (gs_put dumps ts (chg_namespace c) (chg_key c) (chg_value c) s), Applied)"
  using assms
  by (auto simp: apply_change_def Let_def dest: gs_get_version split: option.splits)

lemma apply_change_old:
  "chg_version c \<le> gs_version (chg_namespace c, chg_key c) s \<Longrightarrow>
     apply_change dumps loads ts c s = (s, Skipped)"
  by (auto simp: apply_change_def Let_def dest: gs_get_version split: option.splits)

lemma apply_change_gap:
  assumes "0 < gs_version (chg_namespace c, chg_key c) s"
    "gs_version (chg_namespace c, chg_key c) s + 1 < chg_version c"
  shows "snd (apply_change dumps loads ts c s) = Conflict
    \<and> gs_version (chg_namespace c, chg_key c) (fst (apply_change dumps loads ts c s))
        = gs_version (chg_namespace c, chg_key c) s + 1"
proof (cases "gs_get loads (chg_namespace c) (chg_key c) s")
  case None
  with gs_get_version(2) [OF None] assms show ?thesis by simp
next
  case (Some l)
  obtain v ver u where l: "l = (v, ver, u)" by (cases l)
  with Some have "gs_version (chg_namespace c, chg_key c) s = ver" using gs_get_version(1) by simp
  with assms Some l show ?thesis by (simp add: apply_change_def Let_def gs_version_put)
qed

text \<open>The changes of one key in the order of their versions, starting after version \<open>n\<close>.\<close>

fun in_order :: "string \<Rightarrow> string \<Rightarrow> int \<Rightarrow> change list \<Rightarrow> bool" where
  "in_order ns k n [] = True"
| "in_order ns k n (c # cs) =
     (chg_namespace c = ns \<and> chg_key c = k \<and> chg_version c = n + 1 \<and> in_order ns k (n + 1) cs)"

lemma apply_in_order:
  assumes "in_order ns k (gs_version (ns, k) s) cs"
  shows "apply_remote_changes dumps loads ts cs s =
      (put_all dumps (map (\<lambda>c. (ts, ns, k, chg_value c)) cs) s, replicate (length cs) Applied)"
  using assms
proof (induction cs arbitrary: s)
  case (Cons c cs)
  then have "apply_change dumps loads ts c s = (fst (gs_put dumps ts ns k (chg_value c) s), Applied)"
    using apply_change_next [of c s] by simp
  moreover have "in_order ns k (gs_version (ns, k) (fst (gs_put dumps ts ns k (chg_value c) s))) cs"
    using Cons.prems by (simp add: gs_version_put)
  ultimately show ?case
    using Cons.IH [of "fst (gs_put dumps ts ns k (chg_value c) s)"] by (simp add: put_all_def)
qed (simp add: put_all_def)

lemma apply_all_old:
  assumes "\<forall>c \<in> set cs. chg_version c \<le> gs_version (chg_namespace c, chg_key c) s"
  shows "apply_remote_changes dumps loads ts cs s = (s, replicate (length cs) Skipped)"
  using assms by (induction cs) (auto simp: apply_change_old)

lemma in_order_bounds:
  "in_order ns k n cs \<Longrightarrow> c \<in> set cs \<Longrightarrow>
     chg_namespace c = ns \<and> chg_key c = k \<and> chg_version c \<le> n + int (length cs)"
  by (induction cs arbitrary: n) fastforce+

lemma put_all_version:
  "gs_version (ns, k) (put_all dumps (map (\<lambda>c. (ts, ns, k, chg_value c)) cs) s)
     = gs_version (ns, k) s + int (length cs)"
  by (induction cs arbitrary: s) (simp_all add: put_all_def gs_version_put)

text \<open>
  a replica that receives the changes of a key in version order applies all of them without a
  conflict, ends at the version of the last one, and skips every one of them when the batch is
  delivered again.
\<close>

theorem in_order_replication:
  assumes "in_order ns k (gs_version (ns, k) s) cs"
  shows "apply_counts (snd (apply_remote_changes dumps loads ts cs s)) = (length cs, 0, 0)
    \<and> gs_version (ns, k) (fst (apply_remote_changes dumps loads ts cs s))
        = gs_version (ns, k) s + int (length cs)
    \<and> apply_remote_changes dumps loads ts' cs (fst (apply_remote_changes dumps loads ts cs s))
        = (fst (apply_remote_changes dumps loads ts cs s), replicate (length cs) Skipped)"
proof (intro conjI)
  note ap = apply_in_order [OF assms(1), of dumps loads ts]
  have cl: "count_list (replicate n x) y = (if x = y then n else 0)" for n x and y :: outcome
    by (induction n) auto
  show "apply_counts (snd (apply_remote_changes dumps loads ts cs s)) = (length cs, 0, 0)"
    by (simp add: ap apply_counts_def cl)
  let ?s = "fst (apply_remote_changes dumps loads ts cs s)"
  show ver: "gs_version (ns, k) ?s = gs_version (ns, k) s + int (length cs)"
    by (simp add: ap put_all_version)
  show "apply_remote_changes dumps loads ts' cs ?s = (?s, replicate (length cs) Skipped)"
    using in_order_bounds [OF assms(1)] ver by (intro apply_all_old) auto
qed

definition sample_change :: "int \<Rightarrow> json \<Rightarrow> change" where
  "sample_change n v =
     \<lparr>chg_namespace = ''cfg'', chg_key = ''k'', chg_value = v, chg_version = n, chg_ts = 1\<rparr>"

theorem in_order_replication_witness:
  "apply_counts (snd (apply_remote_changes (\<lambda>_. ''x'') (\<lambda>_. None) 5
     [sample_change 1 JNull, sample_change 2 (JBool True)] empty_state)) = (2, 0, 0)"
  using in_order_replication [of "''cfg''" "''k''" empty_state
      "[sample_change 1 JNull, sample_change 2 (JBool True)]" "\<lambda>_. ''x''" "\<lambda>_. None" 5 6]
  by (simp add: sample_change_def gs_version_def empty_state_def)

lemma fresh_version: "gs_version nk empty_state = 0"
  by (simp add: gs_version_def empty_state_def)

text \<open>
  Behind a gap the replica does not catch up: a change whose version is more than two ahead
  is a conflict, is stored under the next local version instead of its own, and is a conflict
  again when it is delivered again.
\<close>

theorem gap_conflict_repeats:
  assumes "0 < gs_version (chg_namespace c, chg_key c) s"
    and "gs_version (chg_namespace c, chg_key c) s + 2 < chg_version c"
  shows "snd (apply_remote_changes dumps loads ts [c, c] s) = [Conflict, Conflict]
    \<and> gs_version (chg_namespace c, chg_key c) (fst (apply_remote_changes dumps loads ts [c, c] s))
        = gs_version (chg_namespace c, chg_key c) s + 2"
proof -
  let ?s = "fst (apply_change dumps loads ts c s)"
  have a: "snd (apply_change dumps loads ts c s) = Conflict"
    "gs_version (chg_namespace c, chg_key c) ?s = gs_version (chg_namespace c, chg_key c) s + 1"
    using apply_change_gap [of c s dumps loads ts] assms by auto
  then have "snd (apply_change dumps loads ts c ?s) = Conflict
      \<and> gs_version (chg_namespace c, chg_key c) (fst (apply_change dumps loads ts c ?s))
          = gs_version (chg_namespace c, chg_key c) ?s + 1"
    using assms by (intro apply_change_gap) auto
  with a show ?thesis by (simp add: case_prod_unfold Let_def)
qed

theorem gap_conflict_repeats_example:
  "snd (apply_remote_changes (\<lambda>_. ''x'') (\<lambda>_. None) 5 [sample_change 9 JNull, sample_change 9 JNull]
     (fst (gs_put (\<lambda>_. ''x'') 1 ''cfg'' ''k'' JNull empty_state))) = [Conflict, Conflict]"
  by (rule gap_conflict_repeats [THEN conjunct1])
    (simp_all add: sample_change_def gs_version_put fresh_version)

text \<open>
  A key that is deleted and written again at the source restarts at version 1, which every replica
  that knows the key skips.
\<close>

lemma recreated_key_skipped:
  assumes "chg_version c = gs_version (chg_namespace c, chg_key c)
      (fst (gs_put dumps t (chg_namespace c) (chg_key c) v
        (fst (gs_delete (chg_namespace c) (chg_key c) source))))"
    and "0 < gs_version (chg_namespace c, chg_key c) replica"
  shows "apply_change dumps loads ts c replica = (replica, Skipped)"
proof (rule apply_change_old)
  have "chg_version c = 1"
    using assms(1) vs.recreated_version [of "(chg_namespace c, chg_key c)" "(dumps, t, v)" source]
    by simp
  with assms(2) show "chg_version c \<le> gs_version (chg_namespace c, chg_key c) replica" by simp
qed

text \<open>Two checkpoints share a key when a region name contains the separator.\<close>

lemma checkpoint_keys_collide:
  "get_checkpoint ''eu'' ''west:regions'' (update_checkpoint t ''eu:west'' ''regions'' n r) \<noteq> None"
  by (simp add: get_checkpoint_def update_checkpoint_def checkpoint_key_def)

end
