(* ===== verification/Signatures.thy ===== *)
theory Signatures
  imports Prelude
begin

text \<open>
  The three request signatures of the system: \<open>mesh/mesh_protocol.py\<close> (gossip between clusters),
  \<open>federation/federation_security.py\<close> (clusters and the federation controller) and
  \<open>security/hmac_auth.py\<close> (nodes and the control plane). The HMAC, the digest and the canonical
  JSON text are arguments: \<open>hmac key message\<close> is the hexadecimal code. A clock reading is
  \<open>int(time.time())\<close>. What a verifier promises is the locale \<open>signed_channel\<close>; a signature that
  does not cover its timestamp is \<open>time_blind_channel\<close>.
\<close>

section \<open>The contract of a signed channel\<close>

locale signed_channel =
  fixes accept :: "int \<Rightarrow> 'k \<Rightarrow> 'p \<Rightarrow> string option \<Rightarrow> string option \<Rightarrow> bool"
    and mac :: "'k \<Rightarrow> 'p \<Rightarrow> int \<Rightarrow> string"
    and skew :: int
    and armed :: "'k \<Rightarrow> bool"
  assumes accept_sound: "armed k \<Longrightarrow> accept now k p ts sig \<Longrightarrow>
      \<exists>t n. ts = Some t \<and> py_int t = Some n \<and> \<bar>now - n\<bar> \<le> skew \<and> sig = Some (mac k p n)"
    and accept_complete: "\<bar>now - n\<bar> \<le> skew \<Longrightarrow> mac k p n \<noteq> [] \<Longrightarrow>
      accept now k p (Some (string_of_int n)) (Some (mac k p n))"
begin

lemma stale_rejected:
  assumes "armed k" "py_int t = Some n" "skew < \<bar>now - n\<bar>"
  shows "\<not> accept now k p (Some t) sig"
proof
  assume "accept now k p (Some t) sig"
  from accept_sound [OF assms(1) this] assms(2,3) show False by auto
qed

lemma unsigned_rejected: "armed k \<Longrightarrow> \<not> accept now k p ts None"
  using accept_sound by fastforce

lemma forged_rejected:
  assumes "armed k" "\<And>n. s \<noteq> mac k p n"
  shows "\<not> accept now k p ts (Some s)"
proof
  assume "accept now k p ts (Some s)"
  from accept_sound [OF assms(1) this] assms(2) show False by auto
qed

end

locale time_blind_channel = signed_channel accept mac skew armed
  for accept :: "int \<Rightarrow> 'k \<Rightarrow> 'p \<Rightarrow> string option \<Rightarrow> string option \<Rightarrow> bool"
    and mac :: "'k \<Rightarrow> 'p \<Rightarrow> int \<Rightarrow> string" and skew :: int and armed :: "'k \<Rightarrow> bool" +
  assumes mac_blind: "mac k p n = mac k p n'"
    and skew_nonneg: "0 \<le> skew"
begin

lemma replay_accepted:
  assumes "armed k" "accept now k p ts sig" "sig \<noteq> Some []"
  shows "accept later k p (Some (string_of_int later)) sig"
proof -
  obtain n where "sig = Some (mac k p n)" using accept_sound [OF assms(1,2)] by blast
  then have "sig = Some (mac k p later)" using mac_blind [of k p n later] by simp
  with assms(3) skew_nonneg accept_complete [of later later k p] show ?thesis by simp
qed

end

section \<open>The mesh\<close>

type_synonym hmac_fun = "string \<Rightarrow> string \<Rightarrow> string"

definition MAX_SKEW :: int where
  "MAX_SKEW = 300"

definition sign_mesh_payload :: "hmac_fun \<Rightarrow> string \<Rightarrow> string \<Rightarrow> string" where
  "sign_mesh_payload hmac secret canonical = hmac secret canonical"

definition verify_mesh_payload :: "hmac_fun \<Rightarrow> string \<Rightarrow> string \<Rightarrow> string option \<Rightarrow> bool" where
  "verify_mesh_payload hmac secret canonical signature =
     (if secret = [] then True
      else case truthy signature of
        None \<Rightarrow> False
      | Some s \<Rightarrow> sign_mesh_payload hmac secret canonical = s)"

definition verify_mesh_timestamp :: "int \<Rightarrow> string \<Rightarrow> string option \<Rightarrow> bool" where
  "verify_mesh_timestamp now secret ts_header =
     (if secret = [] then True
      else case truthy ts_header of
        None \<Rightarrow> False
      | Some t \<Rightarrow>
          (case py_int (py_strip t) of None \<Rightarrow> False | Some n \<Rightarrow> \<bar>now - n\<bar> \<le> MAX_SKEW))"

definition verify_incoming_gossip ::
    "hmac_fun \<Rightarrow> int \<Rightarrow> string \<Rightarrow> string \<Rightarrow> string option \<Rightarrow> string option \<Rightarrow> bool" where
  "verify_incoming_gossip hmac now secret canonical ts sig =
     (if \<not> verify_mesh_timestamp now secret ts then False
      else verify_mesh_payload hmac secret canonical sig)"

definition mesh_auth_headers :: "hmac_fun \<Rightarrow> int \<Rightarrow> string \<Rightarrow> string \<Rightarrow> string \<times> string" where
  "mesh_auth_headers hmac now secret canonical =
     (sign_mesh_payload hmac secret canonical, string_of_int now)"

section \<open>The federation\<close>

definition sign_payload :: "hmac_fun \<Rightarrow> string \<Rightarrow> string \<Rightarrow> string" where
  "sign_payload hmac secret canonical = hmac secret canonical"

definition verify_payload :: "hmac_fun \<Rightarrow> string \<Rightarrow> string \<Rightarrow> string option \<Rightarrow> bool" where
  "verify_payload hmac secret canonical signature =
     (if secret = [] then True
      else case truthy signature of
        None \<Rightarrow> False
      | Some s \<Rightarrow> sign_payload hmac secret canonical = s)"

definition verify_timestamp_header :: "int \<Rightarrow> string option \<Rightarrow> bool" where
  "verify_timestamp_header now timestamp_header =
     (case truthy timestamp_header of
        None \<Rightarrow> False
      | Some t \<Rightarrow>
          (case py_int (py_strip t) of None \<Rightarrow> False | Some n \<Rightarrow> \<bar>now - n\<bar> \<le> MAX_SKEW))"

definition verify_signed_cluster_request ::
    "hmac_fun \<Rightarrow> int \<Rightarrow> string \<Rightarrow> string \<Rightarrow> string option \<Rightarrow> string option \<Rightarrow> bool" where
  "verify_signed_cluster_request hmac now secret canonical signature timestamp_header =
     (if secret = [] then True
      else if \<not> verify_timestamp_header now timestamp_header then False
      else verify_payload hmac secret canonical signature)"

section \<open>Nodes\<close>

text \<open>Letters outside ASCII are left alone by \<open>upper\<close> here; HTTP methods have none.\<close>

definition to_upper :: "char \<Rightarrow> char" where
  "to_upper c = (let n = (of_char c :: nat) in if 97 \<le> n \<and> n \<le> 122 then char_of (n - 32) else c)"

record signed_request =
  req_node_id :: string
  req_method :: string
  req_path :: string
  req_body :: "string option"

text \<open>The digest of the body: of the canonical JSON text, or of no bytes at all.\<close>

definition request_message :: "(string \<Rightarrow> string) \<Rightarrow> signed_request \<Rightarrow> int \<Rightarrow> string" where
  "request_message sha256 r ts =
     req_node_id r @ '':'' @ string_of_int ts @ '':'' @ map to_upper (req_method r) @ '':''
       @ req_path r @ '':'' @ sha256 (case req_body r of None \<Rightarrow> [] | Some b \<Rightarrow> b)"

definition sign_request ::
    "hmac_fun \<Rightarrow> (string \<Rightarrow> string) \<Rightarrow> string \<Rightarrow> signed_request \<Rightarrow> int \<Rightarrow> string" where
  "sign_request hmac sha256 secret r ts = hmac secret (request_message sha256 r ts)"

definition verify_headers ::
    "hmac_fun \<Rightarrow> (string \<Rightarrow> string) \<Rightarrow> int \<Rightarrow> int \<Rightarrow> string \<Rightarrow> signed_request \<Rightarrow> string option
      \<Rightarrow> string option \<Rightarrow> bool" where
  "verify_headers hmac sha256 max_skew now secret r ts signature =
     (if truthy ts = None \<or> truthy signature = None then False
      else case Option.bind ts py_int of
        None \<Rightarrow> False
      | Some n \<Rightarrow>
          if \<bar>now - n\<bar> > max_skew then False
          else signature = Some (sign_request hmac sha256 secret r n))"

definition build_auth_headers ::
    "hmac_fun \<Rightarrow> (string \<Rightarrow> string) \<Rightarrow> int \<Rightarrow> string \<Rightarrow> signed_request \<Rightarrow> string \<times> string \<times> string" where
  "build_auth_headers hmac sha256 now secret r =
     (req_node_id r, string_of_int now, sign_request hmac sha256 secret r now)"

section \<open>The three channels\<close>

lemma string_of_int_ne [simp]: "string_of_int n \<noteq> []"
  using string_of_nat_digits [of "nat n"] by (auto simp: string_of_int_def)

lemma hd_dropWhile_suffix: "dropWhile P xs \<noteq> [] \<Longrightarrow> last (dropWhile P xs) = last xs"
  by (induction xs) auto

lemma py_strip_Nil: "py_strip [] = []"
  by (simp add: py_strip_def)

lemma py_strip_idem: "py_strip (py_strip s) = py_strip s"
proof (cases "py_strip s = []")
  case False
  let ?u = "dropWhile is_space s" and ?v = "dropWhile is_space (rev (dropWhile is_space s))"
  have v: "?v \<noteq> []" "py_strip s = rev ?v" using False by (auto simp: py_strip_def)
  then have u: "?u \<noteq> []" by (metis dropWhile.simps(1) rev.simps(1))
  have "\<not> is_space (hd ?v)" by (rule hd_dropWhile [OF v(1)])
  moreover have "last ?v = hd ?u" using v u hd_dropWhile_suffix [OF v(1)] by (simp add: last_rev)
  then have "\<not> is_space (last ?v)" using hd_dropWhile [OF u] by simp
  ultimately show ?thesis using v by (auto intro: py_strip_id simp: hd_rev last_rev)
qed (simp add: py_strip_Nil)

lemma py_int_strip [simp]: "py_int (py_strip s) = py_int s"
  by (simp add: py_int_def py_strip_idem)

lemma py_int_Nil [simp]: "py_int [] = None"
  by (simp add: py_int_def py_strip_def)

text \<open>When each verifier accepts, with a secret in place.\<close>

lemma mesh_accepts_iff:
  "secret \<noteq> [] \<Longrightarrow> verify_incoming_gossip hmac now secret canonical ts sig \<longleftrightarrow>
     (\<exists>t n. ts = Some t \<and> py_int t = Some n \<and> \<bar>now - n\<bar> \<le> MAX_SKEW)
     \<and> sig = Some (hmac secret canonical) \<and> sig \<noteq> Some []"
  by (cases ts; cases sig)
    (auto simp: verify_incoming_gossip_def verify_mesh_timestamp_def verify_mesh_payload_def
      sign_mesh_payload_def truthy_def split: option.splits)

lemma federation_accepts_iff:
  "secret \<noteq> [] \<Longrightarrow> verify_signed_cluster_request hmac now secret canonical sig ts \<longleftrightarrow>
     (\<exists>t n. ts = Some t \<and> py_int t = Some n \<and> \<bar>now - n\<bar> \<le> MAX_SKEW)
     \<and> sig = Some (hmac secret canonical) \<and> sig \<noteq> Some []"
  by (cases ts; cases sig)
    (auto simp: verify_signed_cluster_request_def verify_timestamp_header_def verify_payload_def
      sign_payload_def truthy_def split: option.splits)

lemma node_accepts_iff:
  "verify_headers hmac sha256 max_skew now secret r ts sig \<longleftrightarrow>
     (\<exists>t n. ts = Some t \<and> py_int t = Some n \<and> \<bar>now - n\<bar> \<le> max_skew
       \<and> sig = Some (sign_request hmac sha256 secret r n) \<and> sig \<noteq> Some [])"
  by (cases ts; cases sig) (auto simp: verify_headers_def truthy_def split: option.splits)

lemma open_accepts:
  "verify_incoming_gossip hmac now [] canonical ts sig"
  "verify_signed_cluster_request hmac now [] canonical sig ts"
  by (simp_all add: verify_incoming_gossip_def verify_mesh_timestamp_def verify_mesh_payload_def
      verify_signed_cluster_request_def)

definition mesh_accept :: "int \<Rightarrow> hmac_fun \<times> string \<Rightarrow> string \<Rightarrow> string option \<Rightarrow> string option \<Rightarrow> bool" where
  "mesh_accept now k canonical ts sig = verify_incoming_gossip (fst k) now (snd k) canonical ts sig"

definition federation_accept ::
    "int \<Rightarrow> hmac_fun \<times> string \<Rightarrow> string \<Rightarrow> string option \<Rightarrow> string option \<Rightarrow> bool" where
  "federation_accept now k canonical ts sig =
     verify_signed_cluster_request (fst k) now (snd k) canonical sig ts"

definition node_accept ::
    "int \<Rightarrow> hmac_fun \<times> (string \<Rightarrow> string) \<times> string \<Rightarrow> signed_request \<Rightarrow> string option
      \<Rightarrow> string option \<Rightarrow> bool" where
  "node_accept now k r ts sig = verify_headers (fst k) (fst (snd k)) 60 now (snd (snd k)) r ts sig"

interpretation mesh: time_blind_channel mesh_accept
  "\<lambda>k canonical n. fst k (snd k) canonical" MAX_SKEW "\<lambda>k. snd k \<noteq> []"
proof (unfold_locales, goal_cases)
  case (2 now n k p)
  then show ?case
    by (cases "snd k = []") (auto simp: mesh_accept_def mesh_accepts_iff open_accepts py_int_string_of_int)
qed (auto simp: mesh_accept_def mesh_accepts_iff MAX_SKEW_def)

interpretation fed: time_blind_channel federation_accept
  "\<lambda>k canonical n. fst k (snd k) canonical" MAX_SKEW "\<lambda>k. snd k \<noteq> []"
proof (unfold_locales, goal_cases)
  case (2 now n k p)
  then show ?case
    by (cases "snd k = []")
      (auto simp: federation_accept_def federation_accepts_iff open_accepts py_int_string_of_int)
qed (auto simp: federation_accept_def federation_accepts_iff MAX_SKEW_def)

interpretation node: signed_channel node_accept
  "\<lambda>k r n. sign_request (fst k) (fst (snd k)) (snd (snd k)) r n" 60 "\<lambda>_. True"
  by unfold_locales (auto simp: node_accept_def node_accepts_iff py_int_string_of_int)

section \<open>Replays\<close>

text \<open>
  a gossip message whose signature was accepted once is accepted at any later time: the
  signature covers the body but not the timestamp header, which whoever replays the message can
  renew.
\<close>

theorem gossip_replay_accepted:
  assumes "secret \<noteq> []" "sig \<noteq> Some []"
    and "verify_incoming_gossip hmac now secret canonical ts sig"
  shows "verify_incoming_gossip hmac later secret canonical (Some (string_of_int later)) sig"
  using mesh.replay_accepted [of "(hmac, secret)" now canonical ts sig later] assms
  by (simp add: mesh_accept_def)

definition plain_hmac :: hmac_fun where
  "plain_hmac k msg = k @ msg"

theorem gossip_replay_accepted_witness:
  "verify_incoming_gossip plain_hmac 90000 ''s'' ''{}'' (Some (string_of_int 90000)) (Some ''s{}'')"
  by (rule gossip_replay_accepted [where now = 7 and ts = "Some (string_of_int 7)"])
    (simp_all add: mesh_accepts_iff py_int_string_of_int plain_hmac_def MAX_SKEW_def)

text \<open>The decimal notation of a number contains no separator and determines the number.\<close>

lemma string_of_int_chars: "c \<in> set (string_of_int n) \<Longrightarrow> c \<noteq> CHR '':''"
  using string_of_nat_set by (fastforce simp: string_of_int_def digit_value_def split: if_splits)

lemma separated_eq:
  "\<lbrakk>xs @ c # ys = xs' @ c # ys'; c \<notin> set xs; c \<notin> set xs'\<rbrakk> \<Longrightarrow> xs = xs' \<and> ys = ys'"
  by (induction xs arbitrary: xs') (case_tac [!] xs', auto)

lemma request_message_time:
  assumes "request_message sha256 r n = request_message sha256 r n'"
  shows "n = n'"
proof -
  have "string_of_int n = string_of_int n'"
    using assms string_of_int_chars
      separated_eq [of "string_of_int n" "CHR '':''" _ "string_of_int n'"]
    by (auto simp: request_message_def)
  then show ?thesis by (metis option.inject py_int_string_of_int)
qed

text \<open>
  a node's request cannot be replayed: when the HMAC does not confuse two messages, a
  signature that was accepted once is refused, under whatever timestamp header, from two skew
  periods later on.
\<close>

theorem node_replay_rejected:
  assumes "inj (hmac secret)" "verify_headers hmac sha256 60 now secret r ts sig" "now + 120 < later"
  shows "\<not> verify_headers hmac sha256 60 later secret r ts' sig"
proof
  assume late: "verify_headers hmac sha256 60 later secret r ts' sig"
  from assms(2) obtain n where n: "\<bar>now - n\<bar> \<le> 60" "sig = Some (sign_request hmac sha256 secret r n)"
    by (auto simp: node_accepts_iff)
  from late obtain n' where n': "\<bar>later - n'\<bar> \<le> 60" "sig = Some (sign_request hmac sha256 secret r n')"
    by (auto simp: node_accepts_iff)
  have "request_message sha256 r n = request_message sha256 r n'"
    using n(2) n'(2) injD [OF assms(1)] by (simp add: sign_request_def)
  then have "n = n'" by (rule request_message_time)
  with n(1) n'(1) assms(3) show False by linarith
qed

definition sample_request :: signed_request where
  "sample_request = \<lparr>req_node_id = ''n1'', req_method = ''post'', req_path = ''/x'', req_body = None\<rparr>"

theorem node_replay_rejected_witness:
  "\<not> verify_headers plain_hmac (\<lambda>b. b) 60 1000 ''s'' sample_request (Some (string_of_int 1000))
     (Some (sign_request plain_hmac (\<lambda>b. b) ''s'' sample_request 7))"
proof (rule node_replay_rejected [where now = 7 and ts = "Some (string_of_int 7)"])
  show "inj (plain_hmac ''s'')" by (simp add: inj_def plain_hmac_def)
  show "verify_headers plain_hmac (\<lambda>b. b) 60 7 ''s'' sample_request (Some (string_of_int 7))
     (Some (sign_request plain_hmac (\<lambda>b. b) ''s'' sample_request 7))"
    by (simp add: node_accepts_iff py_int_string_of_int) (simp add: sign_request_def plain_hmac_def)
qed simp

end
