(* ===== verification/PeerRegistry.thy ===== *)
theory PeerRegistry
  imports ClusterMemory
begin

text \<open>
  The decentralised peer cache of \<open>mesh/peer_registry.py\<close>, the gossip service of
  \<open>mesh/gossip.py\<close> that fills it, and the decisions taken on it: routing
  (\<open>mesh/mesh_router.py\<close>) and failover (\<open>mesh/mesh_failover.py\<close>). The \<open>peers\<close> table is a
  dictionary from cluster ids to records; its \<open>updated_at\<close> column is written but never read and is
  left out. Payloads are JSON images of the records.
\<close>

section \<open>Peers\<close>

record peer =
  peer_cluster_id :: string
  peer_public_url :: string
  peer_region :: string
  peer_gpu_capacity :: int
  peer_load :: rat
  peer_health :: string
  peer_latency_ms :: rat
  peer_last_seen :: pyfloat
  peer_queue_depth :: int
  peer_version :: int
  peer_reliability :: rat
  peer_hop_distance :: int

record gossip_state =
  gos_cluster_id :: string
  gos_public_url :: string
  gos_region :: string
  gos_gpu_capacity :: int
  gos_load :: rat
  gos_health :: string
  gos_queue_depth :: int
  gos_latency_ms :: rat
  gos_heartbeat_ts :: pyfloat
  gos_version :: int
  gos_reliability :: rat
  gos_hop_distance :: int

type_synonym registry = "(string, peer) dict"

definition to_peer_record :: "pyfloat \<Rightarrow> gossip_state \<Rightarrow> peer" where
  "to_peer_record t s =
     \<lparr>peer_cluster_id = gos_cluster_id s, peer_public_url = rstrip_slash (gos_public_url s),
      peer_region = gos_region s, peer_gpu_capacity = gos_gpu_capacity s, peer_load = gos_load s,
      peer_health = gos_health s, peer_latency_ms = gos_latency_ms s,
      peer_last_seen = (if gos_heartbeat_ts s = 0 then t else gos_heartbeat_ts s),
      peer_queue_depth = gos_queue_depth s, peer_version = gos_version s,
      peer_reliability = gos_reliability s,
      peer_hop_distance = (if gos_hop_distance s = 0 then 1 else gos_hop_distance s)\<rparr>"

definition list_peers :: "registry \<Rightarrow> peer list" where
  "list_peers r = map snd (sort_key fst r)"

definition should_replace :: "peer \<Rightarrow> peer \<Rightarrow> bool" where
  "should_replace cur nxt =
     (if peer_version nxt > peer_version cur then True
      else if peer_version nxt = peer_version cur \<and> peer_last_seen nxt \<ge> peer_last_seen cur then True
      else peer_last_seen nxt > peer_last_seen cur + 1)"

text \<open>One state of a batch: the table and the number of rows written so far.\<close>

definition merge_peer :: "peer \<Rightarrow> registry \<times> nat \<Rightarrow> registry \<times> nat" where
  "merge_peer p rc =
     (let (r, changed) = rc in
      case dget r (peer_cluster_id p) of
        Some cur \<Rightarrow>
          if should_replace cur p then (dput (peer_cluster_id p) p r, changed + 1) else (r, changed)
      | None \<Rightarrow> (dput (peer_cluster_id p) p r, changed + 1))"

definition merge_state :: "peer list \<Rightarrow> registry \<Rightarrow> registry \<times> nat" where
  "merge_state ps r = fold merge_peer ps (r, 0)"

definition expire_stale :: "pyfloat \<Rightarrow> pyfloat \<Rightarrow> registry \<Rightarrow> registry \<times> nat" where
  "expire_stale ttl t r =
     (let stale = filter (\<lambda>p. t - peer_last_seen p > ttl) (dvalues r)
      in (fold (\<lambda>p. ddel (peer_cluster_id p)) stale r, length stale))"

definition score_peer :: "peer \<Rightarrow> rat" where
  "score_peer p =
     (let load_penalty = peer_load p * 2;
          q_penalty = of_int (min (peer_queue_depth p) 500) * (5 / 100);
          lat_penalty = min (peer_latency_ms p) 5000 / 500;
          health = (if peer_health p = ''healthy'' then 1
                    else if peer_health p = ''degraded'' then 5 / 10 else 1 / 10);
          hop_penalty = of_int (min (peer_hop_distance p) 6) * (7 / 100)
      in peer_reliability p * health * 10 - load_penalty - q_penalty - lat_penalty - hop_penalty)"

definition update_latency_hint :: "pyfloat \<Rightarrow> string \<Rightarrow> rat \<Rightarrow> registry \<Rightarrow> registry" where
  "update_latency_hint t cid sample_ms r =
     (case dget r cid of
        None \<Rightarrow> r
      | Some p \<Rightarrow>
          dput cid (p\<lparr>peer_latency_ms := 35 / 100 * sample_ms + (1 - 35 / 100) * peer_latency_ms p,
                      peer_last_seen := t\<rparr>) r)"

section \<open>The table stays keyed\<close>

lemma keyed_merge_peer: "keyed peer_cluster_id (fst rc) \<Longrightarrow> keyed peer_cluster_id (fst (merge_peer p rc))"
  by (cases rc) (auto simp: merge_peer_def Let_def split: option.splits)

lemma keyed_merge_state: "keyed peer_cluster_id r \<Longrightarrow> keyed peer_cluster_id (fst (merge_state ps r))"
  unfolding merge_state_def
  by (rule fold_inv [where P = "\<lambda>rc. keyed peer_cluster_id (fst rc)"]) (auto intro: keyed_merge_peer)

lemma merge_peer_dget:
  "dget (fst (merge_peer p rc)) k =
     (if k = peer_cluster_id p
      then (case dget (fst rc) k of
              Some cur \<Rightarrow> if should_replace cur p then Some p else Some cur
            | None \<Rightarrow> Some p)
      else dget (fst rc) k)"
  by (cases rc) (auto simp: merge_peer_def Let_def split: option.splits)

section \<open>When gossip converges\<close>

text \<open>
  Two states of one cluster are coherent when the later version was not seen more than the
  tolerance of one second before the earlier one, and equal version and time mean the same state.
\<close>

definition coherent :: "peer set \<Rightarrow> bool" where
  "coherent S \<longleftrightarrow>
     (\<forall>p \<in> S. \<forall>q \<in> S. peer_cluster_id p = peer_cluster_id q \<longrightarrow>
        (peer_version p < peer_version q \<longrightarrow> peer_last_seen p \<le> peer_last_seen q + 1)
        \<and> (peer_version p = peer_version q \<and> peer_last_seen p = peer_last_seen q \<longrightarrow> p = q))"

definition newer :: "peer \<Rightarrow> peer \<Rightarrow> bool" where
  "newer p q \<longleftrightarrow> peer_version p < peer_version q
     \<or> (peer_version p = peer_version q \<and> peer_last_seen p \<le> peer_last_seen q)"

lemma coherent_replace:
  assumes "coherent S" "p \<in> S" "q \<in> S" "peer_cluster_id p = peer_cluster_id q"
  shows "should_replace p q \<longleftrightarrow> newer p q"
proof -
  have "peer_last_seen q \<le> peer_last_seen p + 1" if "peer_version q < peer_version p"
    using assms that by (auto simp: coherent_def)
  then show ?thesis by (auto simp: should_replace_def newer_def)
qed

lemma newer_antisym:
  "coherent S \<Longrightarrow> p \<in> S \<Longrightarrow> q \<in> S \<Longrightarrow> peer_cluster_id p = peer_cluster_id q
     \<Longrightarrow> newer p q \<Longrightarrow> newer q p \<Longrightarrow> p = q"
  by (auto simp: coherent_def newer_def)

lemma newer_trans: "newer p q \<Longrightarrow> newer q r \<Longrightarrow> newer p r"
  by (auto simp: newer_def)

lemma newer_linear: "newer p q \<or> newer q p"
  by (auto simp: newer_def)

text \<open>The entry of cluster \<open>k\<close> is the newest of the states that were offered.\<close>

definition newest :: "string \<Rightarrow> peer set \<Rightarrow> peer option \<Rightarrow> bool" where
  "newest k S e \<longleftrightarrow>
     (case e of
        None \<Rightarrow> \<forall>p \<in> S. peer_cluster_id p \<noteq> k
      | Some q \<Rightarrow> q \<in> S \<and> peer_cluster_id q = k \<and> (\<forall>p \<in> S. peer_cluster_id p = k \<longrightarrow> newer p q))"

lemma newest_unique: "coherent S \<Longrightarrow> newest k S e \<Longrightarrow> newest k S e' \<Longrightarrow> e = e'"
  by (auto simp: newest_def split: option.splits intro: newer_antisym)

lemma newest_insert:
  assumes "coherent (insert p S)" "newest k S e"
  shows "newest k (insert p S)
    (if k = peer_cluster_id p
     then (case e of Some cur \<Rightarrow> if should_replace cur p then Some p else Some cur | None \<Rightarrow> Some p)
     else e)"
proof (cases e)
  case None
  with assms(2) show ?thesis by (auto simp: newest_def newer_def)
next
  case (Some cur)
  with assms(2) have cur: "cur \<in> S" "peer_cluster_id cur = k"
    "\<forall>q \<in> S. peer_cluster_id q = k \<longrightarrow> newer q cur" by (simp_all add: newest_def)
  show ?thesis
  proof (cases "k = peer_cluster_id p")
    case True
    have r: "should_replace cur p \<longleftrightarrow> newer cur p"
      using cur True by (intro coherent_replace [OF assms(1)]) auto
    show ?thesis
    proof (cases "newer cur p")
      case yes: True
      have "newer q p" if "q \<in> S" "peer_cluster_id q = k" for q
        using cur(3) that newer_trans [OF _ yes] by blast
      with True yes r Some show ?thesis by (simp add: newest_def newer_def)
    next
      case False
      then have "newer p cur" using newer_linear by blast
      with True False r Some cur show ?thesis by (simp add: newest_def)
    qed
  next
    case False
    with Some cur show ?thesis by (simp add: newest_def)
  qed
qed

lemma merge_state_newest:
  assumes "coherent (set ps \<union> S)" "\<And>k. newest k S (dget r k)"
  shows "newest k (set ps \<union> S) (dget (fst (merge_state ps r)) k)"
proof -
  have "newest k (set ps \<union> S) (dget (fst (fold merge_peer ps rc)) k)"
    if "coherent (set ps \<union> S)" "\<And>k. newest k S (dget (fst rc) k)" for rc
    using that
  proof (induction ps arbitrary: rc S)
    case (Cons p ps)
    have "coherent (insert p S)" using Cons.prems(1) by (auto simp: coherent_def)
    then have "newest k (insert p S) (dget (fst (merge_peer p rc)) k)" for k
      using newest_insert [of p S k "dget (fst rc) k"] Cons.prems(2) by (simp add: merge_peer_dget)
    then show ?case
      using Cons.IH [of "insert p S" "merge_peer p rc"] Cons.prems(1) by simp
  qed simp
  from this [of "(r, 0)"] assms show ?thesis by (simp add: merge_state_def)
qed

text \<open>
  C10: gossip converges: two registries that have merged the same coherent states hold the same
  entry for every cluster, in whatever order, grouping and multiplicity the states arrived, and
  that entry is the newest of them.
\<close>

theorem gossip_converges:
  assumes "coherent (set ps)" "set ps = set qs"
  shows "dget (fst (merge_state ps [])) k = dget (fst (merge_state qs [])) k
    \<and> newest k (set ps) (dget (fst (merge_state ps [])) k)"
proof -
  have n: "newest k {} (dget [] k)" for k by (simp add: newest_def)
  have "newest k (set ps) (dget (fst (merge_state ps [])) k)"
    using merge_state_newest [of ps "{}" "[]" k] assms(1) n by simp
  moreover have "newest k (set ps) (dget (fst (merge_state qs [])) k)"
    using merge_state_newest [of qs "{}" "[]" k] assms n by simp
  ultimately show ?thesis using newest_unique [OF assms(1)] by blast
qed

definition seen_peer :: "int \<Rightarrow> pyfloat \<Rightarrow> peer" where
  "seen_peer v t =
     \<lparr>peer_cluster_id = ''eu'', peer_public_url = ''u'', peer_region = ''r'', peer_gpu_capacity = 0,
      peer_load = 0, peer_health = ''healthy'', peer_latency_ms = 0, peer_last_seen = t,
      peer_queue_depth = 0, peer_version = v, peer_reliability = 1, peer_hop_distance = 1\<rparr>"

theorem gossip_converges_witness:
  "dget (fst (merge_state [seen_peer 1 5, seen_peer 2 9] [])) ''eu''
     = dget (fst (merge_state [seen_peer 2 9, seen_peer 1 5, seen_peer 2 9] [])) ''eu''"
  using gossip_converges [of "[seen_peer 1 5, seen_peer 2 9]" "[seen_peer 2 9, seen_peer 1 5, seen_peer 2 9]" "''eu''"]
  by (simp add: coherent_def seen_peer_def insert_commute)

text \<open>
  Without coherence the merge is not a maximum: an old version that was seen recently and a
  newer version that was seen long ago replace each other, so the registry holds whichever of the
  two was merged last.
\<close>

theorem gossip_conflict_flips:
  assumes "peer_cluster_id p = peer_cluster_id q" "peer_version p < peer_version q"
    and "peer_last_seen q + 1 < peer_last_seen p"
    and "dget r (peer_cluster_id p) \<in> {None, Some p, Some q}"
  shows "dget (fst (merge_state [p, q] r)) (peer_cluster_id p) = Some q
    \<and> dget (fst (merge_state [q, p] r)) (peer_cluster_id p) = Some p"
proof -
  have "should_replace p q" "should_replace q p" "should_replace p p" "should_replace q q"
    using assms by (simp_all add: should_replace_def)
  then show ?thesis
    using assms(1,4) by (cases "dget r (peer_cluster_id p)") (auto simp: merge_state_def merge_peer_dget)
qed

theorem gossip_conflict_flips_example:
  "dget (fst (merge_state [seen_peer 1 9, seen_peer 2 5] [])) ''eu'' = Some (seen_peer 2 5)"
  using gossip_conflict_flips [of "seen_peer 1 9" "seen_peer 2 5" "[]"]
  by (simp add: seen_peer_def)

end
