(* ===== verification/MeshRouting.thy ===== *)
theory MeshRouting
  imports PeerRegistry
begin

text \<open>
  The services of the mesh on top of the peer registry: one gossip round
  (\<open>mesh/gossip.py\<close>), the ranking of the peers for a job (\<open>mesh/mesh_router.py\<close>), failover
  targets and orphaned jobs (\<open>mesh/mesh_failover.py\<close>), and the partition bookkeeping
  (\<open>mesh/partition_handler.py\<close>). The random choice of peers and the answers of the network are
  arguments. Within a round the envelopes are built before the first answer arrives, as the
  cooperative scheduler of the source runs every push up to its request.
\<close>

section \<open>Gossip\<close>

record gossip_metrics =
  gossip_messages_in :: nat
  gossip_success :: nat
  gossip_failures :: nat

record gossip_envelope =
  env_sender :: gossip_state
  env_peers :: "gossip_state list"

definition gossip_of_peer :: "peer \<Rightarrow> gossip_state" where
  "gossip_of_peer p =
     \<lparr>gos_cluster_id = peer_cluster_id p, gos_public_url = peer_public_url p,
      gos_region = peer_region p, gos_gpu_capacity = peer_gpu_capacity p, gos_load = peer_load p,
      gos_health = peer_health p, gos_queue_depth = peer_queue_depth p,
      gos_latency_ms = peer_latency_ms p, gos_heartbeat_ts = peer_last_seen p,
      gos_version = peer_version p, gos_reliability = peer_reliability p,
      gos_hop_distance = peer_hop_distance p\<rparr>"

text \<open>\<open>merged\<close> is also what \<open>on_merge\<close> is called with.\<close>

definition handle_incoming ::
    "pyfloat \<Rightarrow> gossip_envelope \<Rightarrow> registry \<times> gossip_metrics \<Rightarrow> (registry \<times> gossip_metrics) \<times> nat" where
  "handle_incoming t env s =
     (let (r, merged) = merge_state (map (to_peer_record t) (env_sender env # env_peers env)) (fst s)
      in ((r, (snd s)\<lparr>gossip_messages_in := gossip_messages_in (snd s) + 1\<rparr>), merged))"

definition build_envelope :: "string \<Rightarrow> nat \<Rightarrow> gossip_state \<Rightarrow> registry \<Rightarrow> gossip_envelope" where
  "build_envelope local fanout snap r =
     (let cap = max (fanout * 4) 8
      in \<lparr>env_sender = snap,
          env_peers = map gossip_of_peer
            (filter (\<lambda>p. peer_cluster_id p \<noteq> local) (take cap (list_peers r)))\<rparr>)"

text \<open>The answer of a peer: a status code after some milliseconds, or an exception.\<close>

definition push_answered ::
    "pyfloat \<Rightarrow> string \<Rightarrow> (nat \<times> rat) option \<Rightarrow> registry \<times> gossip_metrics
      \<Rightarrow> registry \<times> gossip_metrics" where
  "push_answered t cid answer s =
     (case answer of
        Some (status, ms) \<Rightarrow>
          if status = 200
          then (update_latency_hint t cid ms (fst s),
                (snd s)\<lparr>gossip_success := gossip_success (snd s) + 1\<rparr>)
          else (fst s, (snd s)\<lparr>gossip_failures := gossip_failures (snd s) + 1\<rparr>)
      | None \<Rightarrow> (fst s, (snd s)\<lparr>gossip_failures := gossip_failures (snd s) + 1\<rparr>))"

text \<open>
  A round: the stale peers are dropped, the envelope goes to the peers that \<open>pick\<close> chooses, or to
  the seed addresses when no peer is left, and the answers are booked.
\<close>

definition gossip_round ::
    "pyfloat \<Rightarrow> pyfloat \<Rightarrow> string \<Rightarrow> nat \<Rightarrow> string list \<Rightarrow> (string list \<Rightarrow> string list)
      \<Rightarrow> (string \<Rightarrow> (nat \<times> rat) option) \<Rightarrow> gossip_state \<Rightarrow> registry \<times> gossip_metrics
      \<Rightarrow> (registry \<times> gossip_metrics) \<times> gossip_envelope \<times> string list" where
  "gossip_round t ttl local fanout seeds pick net snap s =
     (let r = fst (expire_stale ttl t (fst s));
          env = build_envelope local fanout snap r;
          others = filter (\<lambda>cid. cid \<noteq> local) (map peer_cluster_id (list_peers r));
          targets = (if others = [] then map (\<lambda>base. ''seed::'' @ base) seeds else pick others)
      in (fold (\<lambda>cid. push_answered t cid (net cid)) targets (r, snd s), env, targets))"

section \<open>Routing\<close>

record route_decision =
  rd_target_cluster_id :: string
  rd_target_public_url :: string
  rd_score :: rat
  rd_reason :: string
  rd_hops :: int

definition router_score ::
    "rat \<Rightarrow> string \<Rightarrow> 'a job_request_scheme \<Rightarrow> peer \<Rightarrow> rat \<times> string" where
  "router_score net local_region job p =
     (if job_gpu_required job \<and> peer_gpu_capacity p \<le> 0 then (-1000000000, ''no_gpu'')
      else if peer_health p = ''offline'' then (-1000000000, ''offline'')
      else let region_bonus = (if peer_region p = local_region then 35 / 100 else 0);
               hop_penalty = net * of_int (min (peer_hop_distance p) 8);
               gpu_bonus = (if job_gpu_required job
                            then of_int (min (peer_gpu_capacity p) 32) * (4 / 100)
                            else of_int (min (peer_gpu_capacity p) 32) * (1 / 100))
           in (score_peer p + region_bonus + gpu_bonus - hop_penalty,
               if region_bonus \<noteq> 0 then ''region'' else ''remote_region''))"

definition route_of_peer ::
    "rat \<Rightarrow> string \<Rightarrow> 'a job_request_scheme \<Rightarrow> peer \<Rightarrow> route_decision" where
  "route_of_peer net local_region job p =
     (let (score, reason) = router_score net local_region job p
      in \<lparr>rd_target_cluster_id = peer_cluster_id p, rd_target_public_url = peer_public_url p,
          rd_score = score, rd_reason = reason,
          rd_hops = max 1 (if peer_hop_distance p = 0 then 1 else peer_hop_distance p)\<rparr>)"

definition rank_peers_for_job ::
    "rat \<Rightarrow> string \<Rightarrow> string \<Rightarrow> 'a job_request_scheme \<Rightarrow> registry \<Rightarrow> route_decision list" where
  "rank_peers_for_job net local local_region job r =
     sort_desc rd_score
       (map (route_of_peer net local_region job)
         (filter (\<lambda>p. peer_cluster_id p \<noteq> local) (list_peers r)))"

definition best_forward ::
    "rat \<Rightarrow> string \<Rightarrow> string \<Rightarrow> 'a job_request_scheme \<Rightarrow> registry \<Rightarrow> route_decision option" where
  "best_forward net local local_region job r =
     (case rank_peers_for_job net local local_region job r of
        [] \<Rightarrow> None
      | d # ds \<Rightarrow> if rd_score d > -100000000 then Some d else None)"

section \<open>Failover\<close>

definition job_alive :: "pyfloat \<Rightarrow> pyfloat \<Rightarrow> cluster_memory \<Rightarrow> job_record \<Rightarrow> bool" where
  "job_alive t stale_sec m j =
     list_ex (\<lambda>nid. case dget (mem_nodes m) nid of
         None \<Rightarrow> False
       | Some n \<Rightarrow> node_healthy n \<and> t - node_last_seen n < stale_sec) (job_assigned_nodes j)"

definition detect_orphaned_jobs :: "pyfloat \<Rightarrow> pyfloat \<Rightarrow> cluster_memory \<Rightarrow> string list" where
  "detect_orphaned_jobs t stale_sec m =
     map job_id (filter (\<lambda>j. job_status j = Running \<and> \<not> job_alive t stale_sec m j
                            \<and> job_assigned_nodes j \<noteq> []) (dvalues (mem_jobs m)))"

definition failover_score :: "string \<Rightarrow> peer \<Rightarrow> rat" where
  "failover_score prefer_region p =
     (if peer_region p = prefer_region then score_peer p + 5 / 10 else score_peer p)"

definition suggest_step ::
    "string \<Rightarrow> bool \<Rightarrow> peer \<Rightarrow> string option \<times> rat \<Rightarrow> string option \<times> rat" where
  "suggest_step prefer_region require_gpu p best =
     (if require_gpu \<and> peer_gpu_capacity p \<le> 0 then best
      else if peer_health p = ''offline'' then best
      else if failover_score prefer_region p > snd best
      then (Some (rstrip_slash (peer_public_url p)), failover_score prefer_region p)
      else best)"

definition suggest_failover_target :: "string \<Rightarrow> bool \<Rightarrow> registry \<Rightarrow> string option" where
  "suggest_failover_target prefer_region require_gpu r =
     fst (fold (suggest_step prefer_region require_gpu) (list_peers r) (None, -1000000000))"

section \<open>Partitions\<close>

record partition_state =
  part_unreachable :: "string set"
  part_last_ts :: pyfloat

definition mark_unreachable :: "pyfloat \<Rightarrow> string list \<Rightarrow> partition_state \<Rightarrow> partition_state" where
  "mark_unreachable t cids s =
     s\<lparr>part_unreachable := part_unreachable s \<union> set cids, part_last_ts := t\<rparr>"

definition mark_reachable :: "string \<Rightarrow> partition_state \<Rightarrow> partition_state" where
  "mark_reachable cid s = s\<lparr>part_unreachable := part_unreachable s - {cid}\<rparr>"

definition classify_event :: "pyfloat \<Rightarrow> string \<Rightarrow> partition_state \<Rightarrow> partition_state \<times> bool" where
  "classify_event t event s =
     (if event = ''PARTITION_DETECTED'' then (s\<lparr>part_last_ts := t\<rparr>, True) else (s, False))"

section \<open>What a round relays\<close>

lemma set_list_peers [simp]: "set (list_peers r) = set (dvalues r)"
  by (simp add: list_peers_def)

lemma dget_fold_ddel:
  "dget (fold (\<lambda>p. ddel (f p)) ps r) k = (if k \<in> f ` set ps then None else dget r k)"
  by (induction ps arbitrary: r) (auto simp: AList.delete_conv')

text \<open>After an expiry exactly the peers seen within the time to live are left.\<close>

lemma expire_exact:
  assumes "keyed peer_cluster_id r"
  shows "dget (fst (expire_stale ttl t r)) k =
    (case dget r k of Some p \<Rightarrow> if t - peer_last_seen p > ttl then None else Some p | None \<Rightarrow> None)"
proof -
  have dget: "dget r k = Some p \<longleftrightarrow> (k, p) \<in> set r" for p
    using assms by (simp add: keyed_def dwf_dget_iff)
  have key: "peer_cluster_id (snd e) = fst e" if "e \<in> set r" for e
    using assms that by (simp add: keyed_def)
  have "k \<in> peer_cluster_id ` set (filter (\<lambda>p. t - peer_last_seen p > ttl) (dvalues r))
      \<longleftrightarrow> (\<exists>p. dget r k = Some p \<and> t - peer_last_seen p > ttl)"
    using key dget by (fastforce simp: image_iff)
  then show ?thesis
    by (auto simp: expire_stale_def Let_def dget_fold_ddel split: option.splits)
qed

lemma keyed_fold_ddel: "keyed f r \<Longrightarrow> keyed f (fold (\<lambda>p. ddel (g p)) ps r)"
  by (rule fold_inv) (auto simp: keyed_def set_ddel)

lemma envelope_bounded:
  "length (env_peers (build_envelope local fanout snap r)) \<le> max (fanout * 4) 8"
  "e \<in> set (env_peers (build_envelope local fanout snap r)) \<Longrightarrow> gos_cluster_id e \<noteq> local"
proof -
  let ?xs = "take (max (fanout * 4) 8) (list_peers r)"
  have "length (filter P ?xs) \<le> max (fanout * 4) 8" for P
    by (rule order_trans [OF length_filter_le]) simp
  then show "length (env_peers (build_envelope local fanout snap r)) \<le> max (fanout * 4) 8"
    by (simp add: build_envelope_def Let_def)
  show "e \<in> set (env_peers (build_envelope local fanout snap r)) \<Longrightarrow> gos_cluster_id e \<noteq> local"
    by (auto simp: build_envelope_def Let_def gossip_of_peer_def)
qed

text \<open>
  A relayed state is one of the first peers in the order of their ids: a peer that stands behind
  them is in no envelope, however many rounds are run.
\<close>

lemma relay_prefix:
  assumes "list_peers r = xs @ ys" "length xs = max (fanout * 4) 8"
  shows "env_peers (build_envelope local fanout snap r)
    = map gossip_of_peer (filter (\<lambda>p. peer_cluster_id p \<noteq> local) xs)"
  using assms by (simp add: build_envelope_def Let_def)

text \<open>A relayed state arrives as it was sent.\<close>

lemma gossip_round_trip:
  assumes "rstrip_slash (peer_public_url p) = peer_public_url p" "peer_last_seen p \<noteq> 0"
    "peer_hop_distance p \<noteq> 0"
  shows "to_peer_record t (gossip_of_peer p) = p"
  using assms by (cases p) (simp add: to_peer_record_def gossip_of_peer_def)

section \<open>Routing decisions\<close>

definition can_take :: "'a job_request_scheme \<Rightarrow> peer \<Rightarrow> bool" where
  "can_take job p \<longleftrightarrow> (job_gpu_required job \<longrightarrow> peer_gpu_capacity p > 0) \<and> peer_health p \<noteq> ''offline''"

lemma unable_score: "\<not> can_take job p \<Longrightarrow> fst (router_score net reg job p) = -1000000000"
  by (auto simp: can_take_def router_score_def)

lemma route_of_peer_simps [simp]:
  "rd_target_cluster_id (route_of_peer net reg job p) = peer_cluster_id p"
  "rd_target_public_url (route_of_peer net reg job p) = peer_public_url p"
  "rd_score (route_of_peer net reg job p) = fst (router_score net reg job p)"
  by (simp_all add: route_of_peer_def case_prod_unfold Let_def)

text \<open>
  C25: a job is forwarded only to a known peer other than the local cluster that is not offline
  and has a GPU if the job needs one, and no other such peer has a better score.
\<close>

theorem best_forward_sound:
  assumes "best_forward net local reg job r = Some d"
  shows "\<exists>p \<in> set (dvalues r). peer_cluster_id p \<noteq> local \<and> can_take job p \<and> d = route_of_peer net reg job p
    \<and> (\<forall>q \<in> set (dvalues r). peer_cluster_id q \<noteq> local \<longrightarrow>
         fst (router_score net reg job q) \<le> rd_score d)"
proof -
  let ?ps = "filter (\<lambda>p. peer_cluster_id p \<noteq> local) (list_peers r)"
  let ?ds = "map (route_of_peer net reg job) ?ps"
  from assms obtain ds where ds: "sort_desc rd_score ?ds = d # ds" and s: "rd_score d > -100000000"
    by (auto simp: best_forward_def rank_peers_for_job_def split: list.splits if_splits)
  then have "d \<in> set ?ds" by (metis list.set_intros(1) set_sort_desc)
  then obtain p where p: "p \<in> set (dvalues r)" "peer_cluster_id p \<noteq> local" "d = route_of_peer net reg job p"
    by auto
  have "can_take job p" using s p(3) unable_score [of job p net reg] by fastforce
  moreover have "fst (router_score net reg job q) \<le> rd_score d"
    if "q \<in> set (dvalues r)" "peer_cluster_id q \<noteq> local" for q
  proof -
    have "route_of_peer net reg job q \<in> set ?ds" using that by auto
    from sort_desc_hd_max [OF this, of rd_score] ds show ?thesis by simp
  qed
  ultimately show ?thesis using p by blast
qed

definition plain_job :: job_request where
  "plain_job = \<lparr>job_id = ''j'', job_type = Code, job_task = [], job_required_nodes = 1,
     job_power = Low, job_gpu_required = False\<rparr>"

theorem best_forward_sound_witness:
  "\<exists>d. best_forward 0 ''us'' ''r'' plain_job [(''eu'', seen_peer 1 5)] = Some d
     \<and> rd_target_cluster_id d = ''eu''"
proof -
  have "best_forward 0 ''us'' ''r'' plain_job [(''eu'', seen_peer 1 5)]
      = Some (route_of_peer 0 ''r'' plain_job (seen_peer 1 5))"
    by (simp add: best_forward_def rank_peers_for_job_def list_peers_def seen_peer_def sort_desc_def
        router_score_def plain_job_def score_peer_def)
  from best_forward_sound [OF this] this show ?thesis by (auto simp: seen_peer_def)
qed

lemma suggest_step_best:
  assumes "fold (suggest_step reg gpu) ps (b, s) = (b', s')"
  shows "s \<le> s'
    \<and> (\<forall>p \<in> set ps. (gpu \<longrightarrow> 0 < peer_gpu_capacity p) \<and> peer_health p \<noteq> ''offline''
          \<longrightarrow> failover_score reg p \<le> s')
    \<and> ((b', s') = (b, s)
       \<or> (\<exists>p \<in> set ps. (gpu \<longrightarrow> 0 < peer_gpu_capacity p) \<and> peer_health p \<noteq> ''offline''
            \<and> b' = Some (rstrip_slash (peer_public_url p)) \<and> s' = failover_score reg p))"
  using assms
proof (induction ps arbitrary: b s)
  case (Cons p ps)
  let ?q = "suggest_step reg gpu p (b, s)"
  have "fold (suggest_step reg gpu) ps (fst ?q, snd ?q) = (b', s')" using Cons.prems by simp
  note IH = Cons.IH [OF this]
  show ?case
    using IH by (auto simp: suggest_step_def split: if_splits)
qed simp

text \<open>A failover target is a live peer of the best score, with a GPU if one is required.\<close>

lemma suggest_failover_sound:
  assumes "suggest_failover_target reg gpu r = Some url"
  shows "\<exists>p \<in> set (dvalues r). (gpu \<longrightarrow> 0 < peer_gpu_capacity p) \<and> peer_health p \<noteq> ''offline''
    \<and> url = rstrip_slash (peer_public_url p)
    \<and> (\<forall>q \<in> set (dvalues r). (gpu \<longrightarrow> 0 < peer_gpu_capacity q) \<and> peer_health q \<noteq> ''offline''
          \<longrightarrow> failover_score reg q \<le> failover_score reg p)"
proof -
  obtain b s where f: "fold (suggest_step reg gpu) (list_peers r) (None, -1000000000) = (b, s)"
    by (cases "fold (suggest_step reg gpu) (list_peers r) (None, -1000000000)")
  with assms have "b = Some url" by (simp add: suggest_failover_target_def)
  with suggest_step_best [OF f] show ?thesis by auto
qed

text \<open>
  Orphan detection reports exactly the running jobs with nodes of which none is healthy and recent.
\<close>

lemma detect_orphaned_iff:
  "jid \<in> set (detect_orphaned_jobs t stale m) \<longleftrightarrow>
     (\<exists>j \<in> set (dvalues (mem_jobs m)). job_id j = jid \<and> job_status j = Running
        \<and> job_assigned_nodes j \<noteq> []
        \<and> (\<forall>nid \<in> set (job_assigned_nodes j). \<forall>n. dget (mem_nodes m) nid = Some n \<longrightarrow>
              \<not> (node_healthy n \<and> t - node_last_seen n < stale)))"
  by (auto simp: detect_orphaned_jobs_def job_alive_def list_ex_iff split: option.splits)

end
