(* ===== verification/DecisionEngine.thy ===== *)
theory DecisionEngine
  imports Prelude
begin

text \<open>
  \<open>coordination/distributed_decision_engine.py\<close>: proposals, votes, execution and completion of
  infrastructure decisions. A proposal is a shared object that its dictionary entry refers to;
  every operation updates that entry. The free metadata of a proposal and of an event is not
  modelled, an event is its type, its proposal and its time. Texts of rationales are arguments of
  the proposals that \<open>analyze_and_propose\<close> makes.
\<close>

section \<open>State\<close>

datatype decision_type = Scaling | Migration | Placement | Repair | Failover | Rebalance | CarbonShift

datatype decision_priority = PCritical | PHigh | PNormal | PLow

datatype decision_status = Proposed | Voting | Approved | Executing | Completed_d | Rejected | Failed_d

record proposal =
  dp_id :: string
  dp_type :: decision_type
  dp_priority :: decision_priority
  dp_status :: decision_status
  dp_source_region :: string
  dp_target_region :: string
  dp_score :: rat
  dp_votes_for :: int
  dp_votes_against :: int
  dp_quorum_needed :: int
  dp_proposed_at :: pyfloat
  dp_decided_at :: pyfloat
  dp_executed_at :: pyfloat

record engine =
  de_quorum_size :: int
  de_max_history :: nat
  de_proposals :: "(string, proposal) dict"
  de_completed :: "proposal list"
  de_total_proposed :: nat
  de_total_approved :: nat
  de_total_rejected :: nat
  de_total_executed :: nat
  de_events :: "(string \<times> string \<times> pyfloat) list"

definition new_engine :: "int \<Rightarrow> nat \<Rightarrow> engine" where
  "new_engine q mh =
     \<lparr>de_quorum_size = q, de_max_history = mh, de_proposals = [], de_completed = [],
      de_total_proposed = 0, de_total_approved = 0, de_total_rejected = 0, de_total_executed = 0,
      de_events = []\<rparr>"

section \<open>Operations\<close>

definition de_add_event :: "pyfloat \<Rightarrow> string \<Rightarrow> string \<Rightarrow> engine \<Rightarrow> engine" where
  "de_add_event t ty pid e = e\<lparr>de_events := py_cap (de_max_history e) (de_events e @ [(ty, pid, t)])\<rparr>"

definition de_finalize :: "string \<Rightarrow> engine \<Rightarrow> engine" where
  "de_finalize pid e =
     (case dget (de_proposals e) pid of
        None \<Rightarrow> e
      | Some p \<Rightarrow> e\<lparr>de_proposals := ddel pid (de_proposals e),
                    de_completed := py_cap (de_max_history e) (de_completed e @ [p])\<rparr>)"

definition set_proposal :: "proposal \<Rightarrow> engine \<Rightarrow> engine" where
  "set_proposal p e = e\<lparr>de_proposals := dput (dp_id p) p (de_proposals e)\<rparr>"

definition propose :: "pyfloat \<Rightarrow> proposal \<Rightarrow> engine \<Rightarrow> engine \<times> proposal" where
  "propose t p e =
     (let p1 = p\<lparr>dp_proposed_at := t, dp_status := Proposed, dp_quorum_needed := de_quorum_size e\<rparr>;
          e1 = set_proposal p1 e;
          e2 = e1\<lparr>de_total_proposed := de_total_proposed e1 + 1\<rparr>
      in (de_add_event t ''decision_proposed'' (dp_id p1) e2, p1))"

definition count_vote :: "bool \<Rightarrow> proposal \<Rightarrow> proposal" where
  "count_vote approve p =
     (if approve then p\<lparr>dp_votes_for := dp_votes_for p + 1\<rparr>
      else p\<lparr>dp_votes_against := dp_votes_against p + 1\<rparr>)"

definition vote :: "pyfloat \<Rightarrow> string \<Rightarrow> bool \<Rightarrow> engine \<Rightarrow> engine \<times> proposal option" where
  "vote t pid approve e =
     (case dget (de_proposals e) pid of
        None \<Rightarrow> (e, None)
      | Some p \<Rightarrow>
          let p1 = count_vote approve p in
          if dp_votes_for p1 \<ge> dp_quorum_needed p1
          then let p2 = p1\<lparr>dp_status := Approved, dp_decided_at := t\<rparr>;
                   e1 = set_proposal p2 e;
                   e2 = e1\<lparr>de_total_approved := de_total_approved e1 + 1\<rparr>
               in (de_add_event t ''decision_approved'' pid e2, Some p2)
          else if dp_votes_against p1 \<ge> dp_quorum_needed p1
          then let p2 = p1\<lparr>dp_status := Rejected, dp_decided_at := t\<rparr>;
                   e1 = set_proposal p2 e;
                   e2 = e1\<lparr>de_total_rejected := de_total_rejected e1 + 1\<rparr>
               in (de_add_event t ''decision_rejected'' pid (de_finalize pid e2), Some p2)
          else (set_proposal p1 e, Some p1))"

definition auto_approve :: "pyfloat \<Rightarrow> string \<Rightarrow> engine \<Rightarrow> engine \<times> proposal option" where
  "auto_approve t pid e =
     (case dget (de_proposals e) pid of
        None \<Rightarrow> (e, None)
      | Some p \<Rightarrow>
          let p1 = p\<lparr>dp_votes_for := dp_quorum_needed p, dp_status := Approved, dp_decided_at := t\<rparr>;
              e1 = set_proposal p1 e;
              e2 = e1\<lparr>de_total_approved := de_total_approved e1 + 1\<rparr>
          in (de_add_event t ''decision_auto_approved'' pid e2, Some p1))"

definition execute :: "pyfloat \<Rightarrow> string \<Rightarrow> engine \<Rightarrow> engine \<times> proposal option" where
  "execute t pid e =
     (case dget (de_proposals e) pid of
        None \<Rightarrow> (e, None)
      | Some p \<Rightarrow>
          if dp_status p \<noteq> Approved then (e, None)
          else let p1 = p\<lparr>dp_status := Executing, dp_executed_at := t\<rparr>
               in (set_proposal p1 e, Some p1))"

definition complete_d :: "pyfloat \<Rightarrow> string \<Rightarrow> bool \<Rightarrow> engine \<Rightarrow> engine \<times> proposal option" where
  "complete_d t pid success e =
     (case dget (de_proposals e) pid of
        None \<Rightarrow> (e, None)
      | Some p \<Rightarrow>
          let p1 = p\<lparr>dp_status := (if success then Completed_d else Failed_d)\<rparr>;
              e1 = set_proposal p1 e;
              e2 = e1\<lparr>de_total_executed := de_total_executed e1 + 1\<rparr>
          in (de_add_event t (if success then ''decision_completed'' else ''decision_failed'') pid
                (de_finalize pid e2), Some p1))"

definition pending_proposals :: "engine \<Rightarrow> proposal list" where
  "pending_proposals e =
     filter (\<lambda>p. dp_status p = Proposed \<or> dp_status p = Voting) (dvalues (de_proposals e))"

definition approved_proposals :: "engine \<Rightarrow> proposal list" where
  "approved_proposals e = filter (\<lambda>p. dp_status p = Approved) (dvalues (de_proposals e))"

definition recent_completed :: "nat \<Rightarrow> engine \<Rightarrow> proposal list" where
  "recent_completed limit e = take limit (rev (de_completed e))"

section \<open>Analysis of the telemetry\<close>

text \<open>A region's entry, with the defaults of the missing values filled in where they are read.\<close>

record region_telemetry =
  rt_region_id :: "string option"
  rt_saturation :: "rat option"
  rt_thermal :: "rat option"
  rt_status :: "string option"
  rt_carbon :: "rat option"

definition or_default :: "'a \<Rightarrow> 'a option \<Rightarrow> 'a" where
  "or_default d x = (case x of Some v \<Rightarrow> v | None \<Rightarrow> d)"

definition rid_of :: "region_telemetry \<Rightarrow> string" where
  "rid_of r = or_default [] (rt_region_id r)"

definition draft ::
    "string \<Rightarrow> decision_type \<Rightarrow> decision_priority \<Rightarrow> string \<Rightarrow> string \<Rightarrow> rat \<Rightarrow> proposal" where
  "draft pid ty prio src target score =
     \<lparr>dp_id = pid, dp_type = ty, dp_priority = prio, dp_status = Proposed, dp_source_region = src,
      dp_target_region = target, dp_score = score, dp_votes_for = 0, dp_votes_against = 0,
      dp_quorum_needed = 1, dp_proposed_at = 0, dp_decided_at = 0, dp_executed_at = 0\<rparr>"

definition stamped :: "string \<Rightarrow> string \<Rightarrow> int \<Rightarrow> string" where
  "stamped prefix rid ts = prefix @ rid @ ''-'' @ string_of_int ts"

definition region_drafts :: "int \<Rightarrow> region_telemetry list \<Rightarrow> region_telemetry \<Rightarrow> proposal list" where
  "region_drafts ts regions r =
     (let rid = rid_of r;
          sat = or_default 0 (rt_saturation r);
          thermal = or_default 0 (rt_thermal r);
          low_thermal = filter (\<lambda>q. or_default 0 (rt_thermal q) < 4 / 10 \<and> rid_of q \<noteq> rid) regions;
          carbon = or_default (5 / 10) (rt_carbon r);
          green = filter (\<lambda>q. or_default 1 (rt_carbon q) < 3 / 10 \<and> rid_of q \<noteq> rid) regions
      in (if sat > 9 / 10
          then [draft (stamped ''scale-'' rid ts) Scaling PHigh rid [] sat] else [])
         @ (if thermal > 85 / 100 \<and> low_thermal \<noteq> []
            then [draft (stamped ''migrate-thermal-'' rid ts) Migration PHigh rid
                    (rid_of (py_min (\<lambda>q. or_default 1 (rt_thermal q)) (hd low_thermal) (tl low_thermal))) thermal] else [])
         @ (if rt_status r = Some ''degraded''
            then [draft (stamped ''repair-'' rid ts) Repair PCritical rid [] (95 / 100)] else [])
         @ (if carbon > 7 / 10 \<and> green \<noteq> []
            then [draft (stamped ''carbon-shift-'' rid ts) CarbonShift PLow rid
                    (rid_of (py_min (\<lambda>q. or_default 1 (rt_carbon q)) (hd green) (tl green))) carbon] else []))"

definition propose_all :: "pyfloat \<Rightarrow> proposal list \<Rightarrow> engine \<Rightarrow> engine \<times> proposal list" where
  "propose_all t ps e =
     fold (\<lambda>p (e, out). let (e1, p1) = propose t p e in (e1, out @ [p1])) ps (e, [])"

definition analyze_and_propose ::
    "pyfloat \<Rightarrow> region_telemetry list \<Rightarrow> engine \<Rightarrow> engine \<times> proposal list" where
  "analyze_and_propose t regions e =
     propose_all t (concat (map (region_drafts (floor t) regions) regions)) e"

section \<open>The invariant\<close>

text \<open>
  An open proposal has been proposed, approved or is executing, and the latter two only with
  enough votes.
\<close>

definition open_ok :: "proposal \<Rightarrow> bool" where
  "open_ok p \<longleftrightarrow>
     dp_status p = Proposed
     \<or> ((dp_status p = Approved \<or> dp_status p = Executing) \<and> dp_quorum_needed p \<le> dp_votes_for p)"

definition final_ok :: "proposal \<Rightarrow> bool" where
  "final_ok p \<longleftrightarrow> dp_status p = Completed_d \<or> dp_status p = Rejected \<or> dp_status p = Failed_d"

definition engine_ok :: "engine \<Rightarrow> bool" where
  "engine_ok e \<longleftrightarrow>
     keyed dp_id (de_proposals e) \<and> (\<forall>p \<in> set (dvalues (de_proposals e)). open_ok p)
     \<and> (\<forall>p \<in> set (de_completed e). final_ok p)
     \<and> length (de_completed e) \<le> de_max_history e \<and> length (de_events e) \<le> de_max_history e
     \<and> length (de_proposals e) + de_total_rejected e + de_total_executed e \<le> de_total_proposed e"

lemma engine_ok_event [intro]:
  "engine_ok e \<Longrightarrow> 0 < de_max_history e \<Longrightarrow> engine_ok (de_add_event t ty pid e)"
  by (simp add: engine_ok_def de_add_event_def length_py_cap)

lemma engine_ok_set:
  assumes "engine_ok e" "dget (de_proposals e) (dp_id p) \<noteq> None" "open_ok p"
  shows "engine_ok (set_proposal p e)"
  using assms by (auto simp: engine_ok_def set_proposal_def set_dput keyed_def length_dput_known)

text \<open>A finished proposal leaves the open ones; \<open>bump\<close> counts it.\<close>

lemma engine_ok_finish:
  assumes e: "engine_ok e" "0 < de_max_history e"
    and p: "dget (de_proposals e) (dp_id p) \<noteq> None" "final_ok p"
    and bump: "r + x = de_total_rejected e + de_total_executed e + 1"
  shows "engine_ok (de_finalize (dp_id p)
    ((set_proposal p e)\<lparr>de_total_rejected := r, de_total_executed := x\<rparr>))"
proof -
  have k: "keyed dp_id (de_proposals e)" using e by (simp add: engine_ok_def)
  have d: "ddel (dp_id p) (dput (dp_id p) p (de_proposals e)) = ddel (dp_id p) (de_proposals e)"
    by (simp add: AList.delete_update_same)
  have len: "length (ddel (dp_id p) (de_proposals e)) + 1 = length (de_proposals e)"
    using k p(1) by (simp add: keyed_def length_ddel)
  have sub: "set (ddel (dp_id p) (de_proposals e)) \<subseteq> set (de_proposals e)"
    using k by (auto simp: keyed_def set_ddel)
  have "keyed dp_id (ddel (dp_id p) (de_proposals e))"
    using k sub by (auto simp: keyed_def)
  with e p bump len sub set_py_cap [of "de_max_history e" "de_completed e @ [p]"] show ?thesis
    by (auto simp: engine_ok_def de_finalize_def set_proposal_def d length_py_cap)
qed

lemma max_history_ops [simp]:
  "de_max_history (de_add_event t ty pid e) = de_max_history e"
  "de_max_history (set_proposal p e) = de_max_history e"
  "de_max_history (de_finalize pid e) = de_max_history e"
  by (simp_all add: de_add_event_def set_proposal_def de_finalize_def split: option.split)

lemma engine_ok_dget:
  assumes "engine_ok e" "dget (de_proposals e) pid = Some p"
  shows "dp_id p = pid" "open_ok p"
proof -
  show "dp_id p = pid" using assms by (auto simp: engine_ok_def dest: keyed_dget)
  have "p \<in> set (dvalues (de_proposals e))"
    using map_of_SomeD [OF assms(2)] by force
  with assms(1) show "open_ok p" by (auto simp: engine_ok_def)
qed

lemma engine_ok_approved:
  "engine_ok e \<Longrightarrow> engine_ok (e\<lparr>de_total_approved := n\<rparr>)"
  by (simp add: engine_ok_def)

datatype engine_op =
    Propose pyfloat proposal
  | Vote pyfloat string bool
  | AutoApprove pyfloat string
  | Execute pyfloat string
  | Complete pyfloat string bool

fun engine_step :: "engine_op \<Rightarrow> engine \<Rightarrow> engine" where
  "engine_step (Propose t p) e = fst (propose t p e)"
| "engine_step (Vote t pid b) e = fst (vote t pid b e)"
| "engine_step (AutoApprove t pid) e = fst (auto_approve t pid e)"
| "engine_step (Execute t pid) e = fst (execute t pid e)"
| "engine_step (Complete t pid b) e = fst (complete_d t pid b e)"

lemma engine_ok_propose:
  assumes "engine_ok e" "0 < de_max_history e"
  shows "engine_ok (fst (propose t p e))"
proof -
  let ?p = "p\<lparr>dp_proposed_at := t, dp_status := Proposed, dp_quorum_needed := de_quorum_size e\<rparr>"
  have "engine_ok ((set_proposal ?p e)\<lparr>de_total_proposed := de_total_proposed e + 1\<rparr>)"
    using assms by (auto simp: engine_ok_def set_proposal_def set_dput keyed_def open_ok_def length_dput)
  with assms show ?thesis by (auto simp: propose_def Let_def set_proposal_def)
qed

lemma engine_ok_vote:
  assumes e: "engine_ok e" "0 < de_max_history e"
  shows "engine_ok (fst (vote t pid b e))"
proof (cases "dget (de_proposals e) pid")
  case (Some p)
  note p = engine_ok_dget [OF e(1) Some]
  have cv: "dp_id (count_vote b p) = pid" "dp_quorum_needed (count_vote b p) = dp_quorum_needed p"
    "dp_status (count_vote b p) = dp_status p" "dp_votes_for p \<le> dp_votes_for (count_vote b p)"
    using p by (simp_all add: count_vote_def)
  have cvo: "open_ok (count_vote b p)" using p(2) cv by (auto simp: open_ok_def)
  have "engine_ok (set_proposal (count_vote b p) e)"
    using e cv cvo Some by (intro engine_ok_set) simp_all
  moreover have "engine_ok (set_proposal ((count_vote b p)\<lparr>dp_status := Approved, dp_decided_at := t\<rparr>) e)"
    if "dp_quorum_needed p \<le> dp_votes_for (count_vote b p)"
    using e cv that Some by (intro engine_ok_set) (simp_all add: open_ok_def)
  moreover have "engine_ok (de_finalize pid
      ((set_proposal q e)\<lparr>de_total_rejected := de_total_rejected e + 1\<rparr>))"
    if "q = (count_vote b p)\<lparr>dp_status := Rejected, dp_decided_at := t\<rparr>" for q
    using engine_ok_finish [OF e, of q "de_total_rejected e + 1" "de_total_executed e"] that cv Some
    by (simp add: final_ok_def set_proposal_def)
  ultimately show ?thesis
    using Some cv e
    by (auto simp: vote_def Let_def set_proposal_def intro!: engine_ok_event engine_ok_approved)
qed (simp add: vote_def e)

lemma engine_ok_step:
  assumes e: "engine_ok e" "0 < de_max_history e"
  shows "engine_ok (engine_step op e)"
proof (cases op)
  case (Complete t pid b)
  show ?thesis
  proof (cases "dget (de_proposals e) pid")
    case (Some p)
    note p = engine_ok_dget [OF e(1) Some]
    have "engine_ok (de_finalize pid
        ((set_proposal q e)\<lparr>de_total_executed := de_total_executed e + 1\<rparr>))"
      if "q = p\<lparr>dp_status := (if b then Completed_d else Failed_d)\<rparr>" for q
      using engine_ok_finish [OF e, of q "de_total_rejected e" "de_total_executed e + 1"] that p Some
      by (simp add: final_ok_def set_proposal_def)
    with Complete Some e show ?thesis
      by (auto simp: complete_d_def Let_def set_proposal_def intro!: engine_ok_event)
  qed (simp add: Complete complete_d_def e)
next
  case (AutoApprove t pid)
  show ?thesis
  proof (cases "dget (de_proposals e) pid")
    case (Some p)
    note p = engine_ok_dget [OF e(1) Some]
    have "engine_ok (set_proposal (p\<lparr>dp_votes_for := dp_quorum_needed p, dp_status := Approved,
        dp_decided_at := t\<rparr>) e)"
      using e p Some by (intro engine_ok_set) (simp_all add: open_ok_def)
    with AutoApprove Some e show ?thesis
      by (auto simp: auto_approve_def Let_def set_proposal_def intro!: engine_ok_event engine_ok_approved)
  qed (simp add: AutoApprove auto_approve_def e)
next
  case (Execute t pid)
  show ?thesis
  proof (cases "dget (de_proposals e) pid")
    case (Some p)
    note p = engine_ok_dget [OF e(1) Some]
    have "engine_ok (set_proposal (p\<lparr>dp_status := Executing, dp_executed_at := t\<rparr>) e)"
      if "dp_status p = Approved"
      using e p Some that by (intro engine_ok_set) (simp_all add: open_ok_def)
    with Execute Some e show ?thesis by (simp add: execute_def Let_def)
  qed (simp add: Execute execute_def e)
qed (simp_all add: engine_ok_propose engine_ok_vote e)

text \<open>
  after any sequence of proposals, votes, approvals, executions and completions the engine
  holds an approved or executing proposal only with at least the votes of its quorum, keeps in
  its history only decisions that are over, keeps both histories within their bound, and has
  not finished more decisions than were proposed.
\<close>

theorem decision_engine_invariant:
  assumes "0 < mh"
  shows "engine_ok (fold engine_step ops (new_engine q mh))"
proof -
  have step: "de_max_history (engine_step op e) = de_max_history e" for op e
    by (cases op) (auto simp: propose_def vote_def auto_approve_def execute_def complete_d_def Let_def
        set_proposal_def split: option.splits)
  let ?P = "\<lambda>e. engine_ok e \<and> 0 < de_max_history e"
  have "?P (fold engine_step ops (new_engine q mh))"
  proof (rule fold_inv [where P = ?P])
    show "?P (engine_step op e)" if "?P e" for op e using that engine_ok_step step by simp
    show "?P (new_engine q mh)" using assms by (simp add: new_engine_def engine_ok_def)
  qed
  then show ?thesis by simp
qed

theorem decision_engine_invariant_witness:
  "engine_ok (fold engine_step
     [Propose 1 (draft ''p'' Scaling PHigh ''eu'' [] 1), Vote 2 ''p'' True, Execute 3 ''p'',
      Complete 4 ''p'' True] (new_engine 1 500))"
  by (rule decision_engine_invariant) simp

text \<open>
  a vote that arrives while an approved decision is being executed, for or against it, sets
  it back to approved and counts a second approval, so that it can be executed again.
\<close>

theorem late_vote_reopens_execution:
  assumes "dget (de_proposals e) pid = Some p" "dp_id p = pid" "dp_status p = Executing"
    and "dp_quorum_needed p \<le> dp_votes_for p"
  shows "de_total_approved (fst (vote t pid b e)) = de_total_approved e + 1
    \<and> map_option dp_status (snd (execute t' pid (fst (vote t pid b e)))) = Some Executing"
proof -
  have "dp_quorum_needed (count_vote b p) \<le> dp_votes_for (count_vote b p)" "dp_id (count_vote b p) = pid"
    using assms by (simp_all add: count_vote_def)
  with assms(1) show ?thesis
    by (simp add: vote_def execute_def set_proposal_def de_add_event_def Let_def)
qed

theorem late_vote_reopens_execution_witness:
  "map_option dp_status (snd (execute 5 ''p'' (fst (vote 4 ''p'' False
     (fold engine_step [Propose 1 (draft ''p'' Scaling PHigh ''eu'' [] 1), Vote 2 ''p'' True,
       Execute 3 ''p''] (new_engine 1 500)))))) = Some Executing"
proof -
  let ?e = "fold engine_step [Propose 1 (draft ''p'' Scaling PHigh ''eu'' [] 1), Vote 2 ''p'' True,
       Execute 3 ''p''] (new_engine 1 500)"
  obtain p where "dget (de_proposals ?e) ''p'' = Some p" "dp_id p = ''p''" "dp_status p = Executing"
    "dp_quorum_needed p \<le> dp_votes_for p"
    by (simp add: propose_def vote_def execute_def set_proposal_def de_add_event_def Let_def
        new_engine_def draft_def count_vote_def)
  from late_vote_reopens_execution [OF this] show ?thesis by blast
qed

end
