(* ===== verification/ConsensusMesh.thy ===== *)
theory ConsensusMesh
  imports Prelude
begin

text \<open>
  \<open>coordination/consensus_mesh.py\<close>: membership and health of the mesh nodes, the election of a
  leader, and rounds of voting with a quorum. The metadata of nodes, rounds and events is not
  modelled; an event is its type, its subject and its time. \<open>int(x)\<close> of a number that is not
  negative is \<open>floor\<close>.
\<close>

section \<open>State\<close>

datatype mesh_role = RLeader | RFollower | RCandidate | RObserver

datatype vote_result = VPending | VAccepted | VRejected | VTimeout

record mesh_node =
  mn_id :: string
  mn_region :: string
  mn_state :: mesh_role
  mn_term :: nat
  mn_last_heartbeat :: pyfloat
  mn_is_healthy :: bool

record cround =
  cr_id :: string
  cr_topic :: string
  cr_term :: nat
  cr_proposer :: string
  cr_votes_for :: int
  cr_votes_against :: int
  cr_quorum :: int
  cr_result :: vote_result
  cr_proposed_at :: pyfloat
  cr_decided_at :: pyfloat

record cmesh =
  cm_quorum_fraction :: rat
  cm_max_history :: nat
  cm_nodes :: "(string, mesh_node) dict"
  cm_rounds :: "(string, cround) dict"
  cm_completed :: "cround list"
  cm_current_term :: nat
  cm_leader_id :: "string option"
  cm_events :: "(string \<times> string \<times> pyfloat) list"

definition new_cmesh :: "rat \<Rightarrow> nat \<Rightarrow> cmesh" where
  "new_cmesh qf mh =
     \<lparr>cm_quorum_fraction = qf, cm_max_history = mh, cm_nodes = [], cm_rounds = [],
      cm_completed = [], cm_current_term = 0, cm_leader_id = None, cm_events = []\<rparr>"

section \<open>Membership and health\<close>

definition mesh_register_node :: "pyfloat \<Rightarrow> mesh_node \<Rightarrow> cmesh \<Rightarrow> cmesh" where
  "mesh_register_node t n m =
     (let n1 = n\<lparr>mn_last_heartbeat := t, mn_term := cm_current_term m\<rparr>
      in m\<lparr>cm_nodes := dput (mn_id n1) n1 (cm_nodes m),
           cm_events := cm_events m @ [(''node_joined'', mn_id n1, t)]\<rparr>)"

definition mesh_remove_node :: "string \<Rightarrow> cmesh \<Rightarrow> cmesh \<times> bool" where
  "mesh_remove_node nid m =
     (if dget (cm_nodes m) nid = None then (m, False)
      else let m1 = m\<lparr>cm_nodes := ddel nid (cm_nodes m)\<rparr>
           in (if cm_leader_id m1 = Some nid then m1\<lparr>cm_leader_id := None\<rparr> else m1, True))"

definition mesh_heartbeat :: "pyfloat \<Rightarrow> string \<Rightarrow> cmesh \<Rightarrow> cmesh \<times> bool" where
  "mesh_heartbeat t nid m =
     (case dget (cm_nodes m) nid of
        None \<Rightarrow> (m, False)
      | Some n \<Rightarrow>
          (m\<lparr>cm_nodes := dput nid (n\<lparr>mn_last_heartbeat := t, mn_is_healthy := True\<rparr>) (cm_nodes m)\<rparr>,
           True))"

definition check_health :: "pyfloat \<Rightarrow> pyfloat \<Rightarrow> cmesh \<Rightarrow> cmesh \<times> string list" where
  "check_health t timeout m =
     (let late = (\<lambda>n. t - mn_last_heartbeat n > timeout)
      in (m\<lparr>cm_nodes := dmap (\<lambda>_ n. if late n then n\<lparr>mn_is_healthy := False\<rparr> else n) (cm_nodes m)\<rparr>,
          map mn_id (filter late (dvalues (cm_nodes m)))))"

section \<open>Elections and rounds\<close>

definition healthy_nodes :: "cmesh \<Rightarrow> mesh_node list" where
  "healthy_nodes m = filter mn_is_healthy (dvalues (cm_nodes m))"

definition election_key :: "mesh_node \<Rightarrow> pyfloat \<times> string" where
  "election_key n = (mn_last_heartbeat n, mn_id n)"

definition elect_leader :: "pyfloat \<Rightarrow> cmesh \<Rightarrow> cmesh \<times> string option" where
  "elect_leader t m =
     (let m1 = m\<lparr>cm_current_term := Suc (cm_current_term m)\<rparr> in
      case healthy_nodes m1 of
        [] \<Rightarrow> (m1\<lparr>cm_leader_id := None\<rparr>, None)
      | h # hs \<Rightarrow>
          let best = mn_id (py_max election_key h hs);
              ns = dmap (\<lambda>_ n. n\<lparr>mn_state := (if mn_id n = best then RLeader else RFollower),
                              mn_term := cm_current_term m1\<rparr>) (cm_nodes m1)
          in (m1\<lparr>cm_nodes := ns, cm_leader_id := Some best,
                 cm_events := py_cap (cm_max_history m1)
                   (cm_events m1 @ [(''leader_elected'', best, t)])\<rparr>, Some best))"

definition round_quorum :: "cmesh \<Rightarrow> int" where
  "round_quorum m =
     max 1 (floor (of_nat (length (healthy_nodes m)) * cm_quorum_fraction m) + 1)"

definition propose_round :: "pyfloat \<Rightarrow> cround \<Rightarrow> cmesh \<Rightarrow> cmesh \<times> cround" where
  "propose_round t r m =
     (let r1 = r\<lparr>cr_proposed_at := t, cr_term := cm_current_term m, cr_quorum := round_quorum m\<rparr>
      in (m\<lparr>cm_rounds := dput (cr_id r1) r1 (cm_rounds m),
            cm_events := cm_events m @ [(''round_proposed'', cr_id r1, t)]\<rparr>, r1))"

definition finalize_round :: "string \<Rightarrow> cmesh \<Rightarrow> cmesh" where
  "finalize_round rid m =
     (case dget (cm_rounds m) rid of
        None \<Rightarrow> m
      | Some r \<Rightarrow> m\<lparr>cm_rounds := ddel rid (cm_rounds m),
                    cm_completed := py_cap (cm_max_history m) (cm_completed m @ [r])\<rparr>)"

definition put_round :: "string \<Rightarrow> cround \<Rightarrow> cmesh \<Rightarrow> cmesh" where
  "put_round rid r m = m\<lparr>cm_rounds := dput rid r (cm_rounds m)\<rparr>"

definition cast_vote :: "bool \<Rightarrow> cround \<Rightarrow> cround" where
  "cast_vote approve r =
     (if approve then r\<lparr>cr_votes_for := cr_votes_for r + 1\<rparr>
      else r\<lparr>cr_votes_against := cr_votes_against r + 1\<rparr>)"

definition vote_round :: "pyfloat \<Rightarrow> string \<Rightarrow> bool \<Rightarrow> cmesh \<Rightarrow> cmesh \<times> cround option" where
  "vote_round t rid approve m =
     (case dget (cm_rounds m) rid of
        None \<Rightarrow> (m, None)
      | Some r \<Rightarrow>
          if cr_result r \<noteq> VPending then (m, None)
          else let r1 = cast_vote approve r in
            if cr_votes_for r1 \<ge> cr_quorum r1
            then let r2 = r1\<lparr>cr_result := VAccepted, cr_decided_at := t\<rparr>
                 in (finalize_round rid (put_round rid r2 m), Some r2)
            else if cr_votes_against r1 \<ge> cr_quorum r1
            then let r2 = r1\<lparr>cr_result := VRejected, cr_decided_at := t\<rparr>
                 in (finalize_round rid (put_round rid r2 m), Some r2)
            else (put_round rid r1 m, Some r1))"

definition auto_approve_round :: "pyfloat \<Rightarrow> string \<Rightarrow> cmesh \<Rightarrow> cmesh \<times> cround option" where
  "auto_approve_round t rid m =
     (case dget (cm_rounds m) rid of
        None \<Rightarrow> (m, None)
      | Some r \<Rightarrow>
          let r1 = r\<lparr>cr_votes_for := cr_quorum r, cr_result := VAccepted, cr_decided_at := t\<rparr>
          in (finalize_round rid (put_round rid r1 m), Some r1))"

definition active_nodes :: "cmesh \<Rightarrow> mesh_node list" where
  "active_nodes m = healthy_nodes m"

definition pending_rounds :: "cmesh \<Rightarrow> cround list" where
  "pending_rounds m = filter (\<lambda>r. cr_result r = VPending) (dvalues (cm_rounds m))"

definition recent_rounds :: "nat \<Rightarrow> cmesh \<Rightarrow> cround list" where
  "recent_rounds limit m = take limit (rev (cm_completed m))"

section \<open>Elections\<close>

definition leaders_of :: "cmesh \<Rightarrow> string list" where
  "leaders_of m = map mn_id (filter (\<lambda>n. mn_state n = RLeader) (dvalues (cm_nodes m)))"

text \<open>
  C16: an election among at least one healthy node ends with exactly one node in the leader
  state: the one that the result and the leader record name, a healthy one with the most recent
  heartbeat; every node is in the new term.
\<close>

theorem elected_leader_unique:
  assumes nodes: "keyed mn_id (cm_nodes m)" and h: "healthy_nodes m \<noteq> []"
  shows "\<exists>b \<in> set (healthy_nodes m).
      snd (elect_leader t m) = Some (mn_id b) \<and> cm_leader_id (fst (elect_leader t m)) = Some (mn_id b)
      \<and> leaders_of (fst (elect_leader t m)) = [mn_id b]
      \<and> (\<forall>n \<in> set (healthy_nodes m). mn_last_heartbeat n \<le> mn_last_heartbeat b)
      \<and> (\<forall>n \<in> set (dvalues (cm_nodes (fst (elect_leader t m)))). mn_term n = cm_current_term m + 1)"
proof -
  obtain x xs where hn: "healthy_nodes m = x # xs" using h by (cases "healthy_nodes m") auto
  have hn1: "healthy_nodes (m\<lparr>cm_current_term := Suc (cm_current_term m)\<rparr>) = x # xs"
    using hn by (simp add: healthy_nodes_def)
  let ?b = "py_max election_key x xs"
  have b: "?b \<in> set (healthy_nodes m)" using py_max_in [of election_key x xs] hn by simp
  then have bn: "?b \<in> set (dvalues (cm_nodes m))" by (simp add: healthy_nodes_def)
  have max: "mn_last_heartbeat n \<le> mn_last_heartbeat ?b" if "n \<in> set (healthy_nodes m)" for n
    using py_max_ge [of n x xs election_key] that hn by (auto simp: election_key_def less_eq_prod_def)
  have "map mn_id (dvalues (cm_nodes m)) = dkeys (cm_nodes m)"
    using nodes by (auto simp: keyed_def)
  then have "distinct (map mn_id (dvalues (cm_nodes m)))"
    using nodes by (simp only: keyed_def dwf_def)
  then have one: "filter (\<lambda>i. i = mn_id ?b) (map mn_id (dvalues (cm_nodes m))) = [mn_id ?b]"
    using bn by (intro filter_eq_one) (assumption, metis imageI list.set_map)
  have "leaders_of (fst (elect_leader t m)) = [mn_id ?b]"
    using one by (simp add: leaders_of_def elect_leader_def hn1 Let_def dvalues_dmap filter_map comp_def
        if_distrib [of "\<lambda>s. s = RLeader"] cong: if_cong)
  with b max show ?thesis
    by (intro bexI [of _ ?b]) (auto simp: elect_leader_def hn1 Let_def dmap_def)
qed

definition member :: "string \<Rightarrow> pyfloat \<Rightarrow> mesh_node" where
  "member nid t =
     \<lparr>mn_id = nid, mn_region = [], mn_state = RFollower, mn_term = 0, mn_last_heartbeat = t,
      mn_is_healthy = True\<rparr>"

theorem elected_leader_unique_witness:
  "\<exists>b. leaders_of (fst (elect_leader 9 (fst (elect_leader 8
     (mesh_register_node 2 (member ''b'' 0) (mesh_register_node 1 (member ''a'' 0)
       (new_cmesh (1 / 2) 500))))))) = [b]"
proof -
  let ?m = "fst (elect_leader 8 (mesh_register_node 2 (member ''b'' 0)
    (mesh_register_node 1 (member ''a'' 0) (new_cmesh (1 / 2) 500))))"
  have "keyed mn_id (cm_nodes ?m) \<and> healthy_nodes ?m \<noteq> []"
    by (simp add: elect_leader_def mesh_register_node_def member_def new_cmesh_def healthy_nodes_def
        Let_def keyed_def dwf_def dmap_def)
  then show ?thesis using elected_leader_unique [of ?m 9] by blast
qed

section \<open>Rounds\<close>

text \<open>A quorum for half of the healthy nodes is a strict majority, so two quorums intersect.\<close>

lemma quorum_majority:
  assumes "cm_quorum_fraction m = 1 / 2"
  shows "int (length (healthy_nodes m)) < 2 * round_quorum m"
proof -
  let ?x = "of_nat (length (healthy_nodes m)) * (1 / 2) :: rat"
  have "?x < of_int (floor ?x + 1)" using floor_correct [of ?x] by simp
  moreover have "floor ?x + 1 \<le> round_quorum m" by (simp add: round_quorum_def assms)
  ultimately have "?x < of_int (round_quorum m)" by (meson less_le_trans of_int_le_iff)
  then have "(of_int (int (length (healthy_nodes m))) :: rat) < of_int (2 * round_quorum m)" by simp
  then show ?thesis by (simp only: of_int_less_iff)
qed

definition open_round_ok :: "cround \<Rightarrow> bool" where
  "open_round_ok r \<longleftrightarrow>
     cr_result r = VPending \<and> 0 \<le> cr_votes_for r \<and> cr_votes_for r < cr_quorum r
     \<and> 0 \<le> cr_votes_against r \<and> cr_votes_against r < cr_quorum r"

definition decided_ok :: "cround \<Rightarrow> bool" where
  "decided_ok r \<longleftrightarrow>
     (cr_result r = VAccepted \<and> cr_votes_for r = cr_quorum r \<and> cr_votes_against r < cr_quorum r)
     \<or> (cr_result r = VRejected \<and> cr_votes_against r = cr_quorum r \<and> cr_votes_for r < cr_quorum r)"

definition rounds_ok :: "cmesh \<Rightarrow> bool" where
  "rounds_ok m \<longleftrightarrow>
     keyed cr_id (cm_rounds m) \<and> (\<forall>r \<in> set (dvalues (cm_rounds m)). open_round_ok r)
     \<and> (\<forall>r \<in> set (cm_completed m). decided_ok r) \<and> length (cm_completed m) \<le> cm_max_history m"

definition draft_round :: "string \<Rightarrow> string \<Rightarrow> string \<Rightarrow> cround" where
  "draft_round rid topic proposer =
     \<lparr>cr_id = rid, cr_topic = topic, cr_term = 0, cr_proposer = proposer, cr_votes_for = 0,
      cr_votes_against = 0, cr_quorum = 1, cr_result = VPending, cr_proposed_at = 0,
      cr_decided_at = 0\<rparr>"

datatype mesh_op =
    Join pyfloat mesh_node
  | Leave string
  | Beat pyfloat string
  | CheckHealth pyfloat pyfloat
  | Elect pyfloat
  | ProposeRound pyfloat string string string
  | VoteRound pyfloat string bool
  | AutoApproveRound pyfloat string

fun mesh_step :: "mesh_op \<Rightarrow> cmesh \<Rightarrow> cmesh" where
  "mesh_step (Join t n) m = mesh_register_node t n m"
| "mesh_step (Leave nid) m = fst (mesh_remove_node nid m)"
| "mesh_step (Beat t nid) m = fst (mesh_heartbeat t nid m)"
| "mesh_step (CheckHealth t timeout) m = fst (check_health t timeout m)"
| "mesh_step (Elect t) m = fst (elect_leader t m)"
| "mesh_step (ProposeRound t rid topic who) m = fst (propose_round t (draft_round rid topic who) m)"
| "mesh_step (VoteRound t rid b) m = fst (vote_round t rid b m)"
| "mesh_step (AutoApproveRound t rid) m = fst (auto_approve_round t rid m)"

text \<open>What no operation on the members touches.\<close>

lemma member_ops_frame:
  assumes "op = Join t n \<or> op = Leave nid \<or> op = Beat t nid \<or> op = CheckHealth t d \<or> op = Elect t"
  shows "cm_rounds (mesh_step op m) = cm_rounds m" "cm_completed (mesh_step op m) = cm_completed m"
    "cm_max_history (mesh_step op m) = cm_max_history m"
  using assms
  by (auto simp: mesh_register_node_def mesh_remove_node_def mesh_heartbeat_def check_health_def
      elect_leader_def Let_def split: option.splits list.splits)

lemma rounds_ok_put:
  "rounds_ok m \<Longrightarrow> open_round_ok r \<Longrightarrow> rounds_ok (put_round (cr_id r) r m)"
  by (auto simp: rounds_ok_def put_round_def set_dput keyed_def)

lemma rounds_ok_finalize:
  assumes "rounds_ok m" "0 < cm_max_history m" "decided_ok r"
  shows "rounds_ok (finalize_round (cr_id r) (put_round (cr_id r) r m))"
proof -
  have k: "keyed cr_id (cm_rounds m)" using assms(1) by (simp add: rounds_ok_def)
  then have "keyed cr_id (ddel (cr_id r) (cm_rounds m))"
    by (auto simp: keyed_def set_ddel)
  with assms set_py_cap [of "cm_max_history m" "cm_completed m @ [r]"] show ?thesis
    by (auto simp: rounds_ok_def finalize_round_def put_round_def AList.delete_update_same set_ddel
        length_py_cap)
qed

lemma rounds_ok_dget:
  assumes "rounds_ok m" "dget (cm_rounds m) rid = Some r"
  shows "cr_id r = rid \<and> open_round_ok r"
proof -
  have "cr_id r = rid" using assms by (auto simp: rounds_ok_def dest: keyed_dget)
  moreover have "r \<in> set (dvalues (cm_rounds m))" using map_of_SomeD [OF assms(2)] by force
  ultimately show ?thesis using assms(1) unfolding rounds_ok_def by blast
qed

lemma rounds_ok_vote:
  assumes m: "rounds_ok m" "0 < cm_max_history m"
  shows "rounds_ok (fst (vote_round t rid b m))"
proof (cases "dget (cm_rounds m) rid")
  case (Some r)
  define r1 where "r1 = cast_vote b r"
  have r: "cr_id r = rid" "open_round_ok r" using rounds_ok_dget [OF m(1) Some] by auto
  then have r1: "cr_id r1 = rid" "cr_result r1 = VPending" "0 \<le> cr_votes_for r1" "0 \<le> cr_votes_against r1"
    "cr_votes_for r1 \<le> cr_quorum r1" "cr_votes_against r1 \<le> cr_quorum r1"
    "cr_votes_for r1 < cr_quorum r1 \<or> cr_votes_against r1 < cr_quorum r1"
    by (auto simp: r1_def cast_vote_def open_round_ok_def)
  have acc: "rounds_ok (finalize_round rid (put_round rid (r1\<lparr>cr_result := VAccepted, cr_decided_at := t\<rparr>) m))"
    if "cr_quorum r1 \<le> cr_votes_for r1"
    using rounds_ok_finalize [OF m, of "r1\<lparr>cr_result := VAccepted, cr_decided_at := t\<rparr>"] r1 that
    by (simp add: decided_ok_def)
  have rej: "rounds_ok (finalize_round rid (put_round rid (r1\<lparr>cr_result := VRejected, cr_decided_at := t\<rparr>) m))"
    if "cr_quorum r1 \<le> cr_votes_against r1" "\<not> cr_quorum r1 \<le> cr_votes_for r1"
    using rounds_ok_finalize [OF m, of "r1\<lparr>cr_result := VRejected, cr_decided_at := t\<rparr>"] r1 that
    by (simp add: decided_ok_def)
  have "rounds_ok (put_round rid r1 m)"
    if "\<not> cr_quorum r1 \<le> cr_votes_for r1" "\<not> cr_quorum r1 \<le> cr_votes_against r1"
    using rounds_ok_put [OF m(1), of r1] r1 that by (simp add: open_round_ok_def)
  with Some m acc rej show ?thesis
    by (simp add: vote_round_def r1_def [symmetric] Let_def)
qed (simp add: vote_round_def m)

lemma rounds_ok_step:
  assumes m: "rounds_ok m" "0 < cm_max_history m"
  shows "rounds_ok (mesh_step op m)"
proof (cases op)
  case (ProposeRound t rid topic who)
  let ?r = "(draft_round rid topic who)\<lparr>cr_proposed_at := t, cr_term := cm_current_term m,
    cr_quorum := round_quorum m\<rparr>"
  have "rounds_ok (put_round (cr_id ?r) ?r m)"
    using m(1) by (rule rounds_ok_put) (simp add: open_round_ok_def draft_round_def round_quorum_def)
  with ProposeRound show ?thesis
    by (simp add: propose_round_def put_round_def rounds_ok_def Let_def)
next
  case (AutoApproveRound t rid)
  show ?thesis
  proof (cases "dget (cm_rounds m) rid")
    case (Some r)
    have r: "cr_id r = rid" "open_round_ok r" using rounds_ok_dget [OF m(1) Some] by auto
    with rounds_ok_finalize [OF m, of "r\<lparr>cr_votes_for := cr_quorum r, cr_result := VAccepted,
        cr_decided_at := t\<rparr>"] AutoApproveRound Some show ?thesis
      by (simp add: auto_approve_round_def Let_def decided_ok_def open_round_ok_def)
  qed (simp add: AutoApproveRound auto_approve_round_def m)
next
  case (VoteRound t rid b)
  with m show ?thesis by (simp add: rounds_ok_vote)
qed (use m member_ops_frame [of op] in \<open>auto simp: rounds_ok_def\<close>)

text \<open>
  whatever happens to the members and the rounds, an open round is undecided with both
  counts below its quorum, a round in the history was decided by reaching exactly the quorum on
  one side only, and the history keeps its bound.
\<close>

theorem mesh_rounds_invariant:
  assumes "0 < mh"
  shows "rounds_ok (fold mesh_step ops (new_cmesh qf mh))"
proof -
  have fin: "cm_max_history (finalize_round rid m) = cm_max_history m" for rid m
    by (simp add: finalize_round_def split: option.split)
  have step: "cm_max_history (mesh_step op m) = cm_max_history m" for op m
    by (cases op) (auto simp: fin mesh_register_node_def mesh_remove_node_def mesh_heartbeat_def
        check_health_def elect_leader_def propose_round_def vote_round_def auto_approve_round_def
        put_round_def Let_def split: option.splits list.splits)
  let ?P = "\<lambda>m. rounds_ok m \<and> 0 < cm_max_history m"
  have "?P (fold mesh_step ops (new_cmesh qf mh))"
  proof (rule fold_inv [where P = ?P])
    show "?P (mesh_step op m)" if "?P m" for op m using that rounds_ok_step step by simp
    show "?P (new_cmesh qf mh)" using assms by (simp add: new_cmesh_def rounds_ok_def)
  qed
  then show ?thesis by simp
qed

theorem mesh_rounds_invariant_witness:
  "rounds_ok (fold mesh_step
     [Join 1 (member ''a'' 0), ProposeRound 2 ''r'' ''topic'' ''a'', VoteRound 3 ''r'' True]
     (new_cmesh (1 / 2) 500))"
  by (rule mesh_rounds_invariant) simp

end
