(* ===== verification/StateReplication.thy ===== *)
theory StateReplication
  imports Prelude
begin

text \<open>
  \<open>replication/state_replication.py\<close>: the outbound queue of state changes, its flush to every peer
  region in batches, the checkpoints, and the changes that arrive from other regions. The send
  function of a flush is an argument: whether sending the batch to a peer succeeds (a raised
  exception is a failure, a missing function a success). The enqueueing of changes and the flush
  are atomic steps, as the lock makes them; the loop over the peers runs outside the lock.
\<close>

record state_change =
  sc_namespace :: string
  sc_key :: string
  sc_value :: json
  sc_version :: int
  sc_source_region :: string
  sc_ts :: pyfloat

record irep =
  ir_local_region :: string
  ir_peer_regions :: "string list"
  ir_batch_size :: nat
  ir_outbound :: "state_change list"
  ir_checkpoints :: "(string, int) dict"
  ir_sync_count :: nat
  ir_conflict_count :: nat
  ir_entries_sent :: nat
  ir_entries_received :: nat

definition new_irep :: "string \<Rightarrow> string list \<Rightarrow> nat \<Rightarrow> irep" where
  "new_irep region peers batch =
     \<lparr>ir_local_region = region, ir_peer_regions = peers, ir_batch_size = batch, ir_outbound = [],
      ir_checkpoints = [], ir_sync_count = 0, ir_conflict_count = 0, ir_entries_sent = 0,
      ir_entries_received = 0\<rparr>"

definition ir_enqueue :: "pyfloat \<Rightarrow> string \<Rightarrow> string \<Rightarrow> json \<Rightarrow> int \<Rightarrow> irep \<Rightarrow> irep" where
  "ir_enqueue t ns k v ver r =
     r\<lparr>ir_outbound := ir_outbound r @
        [\<lparr>sc_namespace = ns, sc_key = k, sc_value = v, sc_version = ver,
          sc_source_region = ir_local_region r, sc_ts = t\<rparr>]\<rparr>"

definition ir_get_checkpoint :: "string \<Rightarrow> irep \<Rightarrow> int" where
  "ir_get_checkpoint peer r = (case dget (ir_checkpoints r) peer of Some v \<Rightarrow> v | None \<Rightarrow> 0)"

definition max_version :: "state_change list \<Rightarrow> int" where
  "max_version batch = Max (set (map sc_version batch))"

text \<open>One peer of a flush; the sent batches are collected for the properties.\<close>

definition flush_peer ::
    "(string \<Rightarrow> bool) \<Rightarrow> state_change list \<Rightarrow> string \<Rightarrow> irep \<times> (string \<times> state_change) list
      \<Rightarrow> irep \<times> (string \<times> state_change) list" where
  "flush_peer send batch peer rs =
     (let (r, sent) = rs in
      if send peer
      then (r\<lparr>ir_entries_sent := ir_entries_sent r + length batch,
              ir_checkpoints := dput peer (max (ir_get_checkpoint peer r) (max_version batch))
                (ir_checkpoints r)\<rparr>,
            sent @ map (\<lambda>c. (peer, c)) batch)
      else (r, sent))"

definition ir_flush :: "(string \<Rightarrow> bool) \<Rightarrow> irep \<Rightarrow> irep \<times> (string \<times> state_change) list" where
  "ir_flush send r =
     (let batch = take (ir_batch_size r) (ir_outbound r);
          r1 = r\<lparr>ir_outbound := drop (ir_batch_size r) (ir_outbound r)\<rparr>
      in if batch = [] then (r1, [])
         else let (r2, sent) = fold (flush_peer send batch) (ir_peer_regions r1) (r1, [])
              in (r2\<lparr>ir_sync_count := ir_sync_count r2 + 1\<rparr>, sent))"

text \<open>
  Received changes: a change of this region is skipped; the apply function accepts, refuses or
  raises (\<open>None\<close>); without an apply function every change counts as applied.
\<close>

record receive_counts =
  rc_applied :: nat
  rc_skipped :: nat
  rc_conflicts :: nat

definition receive_change ::
    "(state_change \<Rightarrow> bool option) option \<Rightarrow> state_change \<Rightarrow> irep \<times> receive_counts
      \<Rightarrow> irep \<times> receive_counts" where
  "receive_change apply_fn c rs =
     (let (r, n) = rs in
      if sc_source_region c = ir_local_region r then (r, n\<lparr>rc_skipped := rc_skipped n + 1\<rparr>)
      else let ok = (case apply_fn of None \<Rightarrow> Some True | Some f \<Rightarrow> f c);
               (r1, n1) = (if ok = Some True then (r, n\<lparr>rc_applied := rc_applied n + 1\<rparr>)
                           else (r\<lparr>ir_conflict_count := ir_conflict_count r + 1\<rparr>,
                                 n\<lparr>rc_conflicts := rc_conflicts n + 1\<rparr>))
           in (r1\<lparr>ir_entries_received := ir_entries_received r1 + 1\<rparr>, n1))"

definition receive_changes ::
    "(state_change \<Rightarrow> bool option) option \<Rightarrow> state_change list \<Rightarrow> irep \<Rightarrow> irep \<times> receive_counts" where
  "receive_changes apply_fn cs r =
     fold (receive_change apply_fn) cs (r, \<lparr>rc_applied = 0, rc_skipped = 0, rc_conflicts = 0\<rparr>)"

definition add_peer :: "string \<Rightarrow> irep \<Rightarrow> irep" where
  "add_peer p r =
     (if p \<in> set (ir_peer_regions r) then r else r\<lparr>ir_peer_regions := ir_peer_regions r @ [p]\<rparr>)"

definition remove_peer :: "string \<Rightarrow> irep \<Rightarrow> irep" where
  "remove_peer p r =
     (if p \<in> set (ir_peer_regions r) then r\<lparr>ir_peer_regions := remove1 p (ir_peer_regions r)\<rparr> else r)"

section \<open>Delivery\<close>

lemma flush_fold:
  assumes "fold (flush_peer send batch) ps (r, sent) = (r', sent')"
  shows "sent' = sent @ concat (map (\<lambda>p. map (\<lambda>c. (p, c)) batch) (filter send ps))
    \<and> ir_outbound r' = ir_outbound r \<and> ir_peer_regions r' = ir_peer_regions r
    \<and> ir_batch_size r' = ir_batch_size r
    \<and> (\<forall>q. ir_get_checkpoint q r \<le> ir_get_checkpoint q r')
    \<and> (\<forall>q \<in> set ps. send q \<longrightarrow> max_version batch \<le> ir_get_checkpoint q r')"
  using assms
proof (induction ps arbitrary: r sent)
  case (Cons p ps)
  obtain r1 s1 where f: "flush_peer send batch p (r, sent) = (r1, s1)"
    by (cases "flush_peer send batch p (r, sent)")
  have one: "ir_get_checkpoint q r \<le> ir_get_checkpoint q r1"
    "send p \<Longrightarrow> max_version batch \<le> ir_get_checkpoint p r1" for q
    using f by (auto simp: flush_peer_def ir_get_checkpoint_def split: if_splits)
  have IH: "fold (flush_peer send batch) ps (r1, s1) = (r', sent')" using Cons.prems f by simp
  note IH = Cons.IH [OF IH]
  have "ir_get_checkpoint q r \<le> ir_get_checkpoint q r'" for q
    using one(1) [of q] IH by (meson order_trans)
  moreover have "max_version batch \<le> ir_get_checkpoint p r'" if "send p"
    using one(2) [OF that] IH by (meson order_trans)
  ultimately show ?case
    using IH f by (auto simp: flush_peer_def split: if_splits)
qed simp

lemma flush_sends:
  "snd (ir_flush send r) =
     concat (map (\<lambda>p. map (\<lambda>c. (p, c)) (take (ir_batch_size r) (ir_outbound r)))
       (filter send (ir_peer_regions r)))
   \<and> ir_outbound (fst (ir_flush send r)) = drop (ir_batch_size r) (ir_outbound r)
   \<and> ir_peer_regions (fst (ir_flush send r)) = ir_peer_regions r
   \<and> ir_batch_size (fst (ir_flush send r)) = ir_batch_size r"
proof -
  let ?b = "take (ir_batch_size r) (ir_outbound r)"
  let ?r1 = "r\<lparr>ir_outbound := drop (ir_batch_size r) (ir_outbound r)\<rparr>"
  obtain r2 sent where f: "fold (flush_peer send ?b) (ir_peer_regions r) (?r1, []) = (r2, sent)"
    by (cases "fold (flush_peer send ?b) (ir_peer_regions r) (?r1, [])")
  from flush_fold [OF f] f show ?thesis
    by (cases "?b = []") (auto simp: ir_flush_def Let_def)
qed

text \<open>
  a flush drops what it cannot send: a peer whose send fails never receives the changes of
  the batch, because they have left the outbound queue for good, whether the other peers received
  them or not.
\<close>

theorem failed_batch_is_lost:
  assumes "c \<in> set (take (ir_batch_size r) (ir_outbound r))" "distinct (ir_outbound r)" "\<not> send p"
  shows "(p, c) \<notin> set (snd (ir_flush send r)) \<and> c \<notin> set (ir_outbound (fst (ir_flush send r)))"
proof -
  have "c \<notin> set (drop (ir_batch_size r) (ir_outbound r))"
    using assms(1,2) set_take_disj_set_drop_if_distinct [of "ir_outbound r" "ir_batch_size r" "ir_batch_size r"]
    by auto
  with assms(3) show ?thesis by (auto simp: flush_sends)
qed

theorem failed_batch_is_lost_witness:
  "ir_outbound (fst (ir_flush (\<lambda>_. False) (ir_enqueue 1 ''ns'' ''k'' JNull 1 (new_irep ''eu'' [''us''] 50)))) = []"
proof -
  let ?r = "ir_enqueue 1 ''ns'' ''k'' JNull 1 (new_irep ''eu'' [''us''] 50)"
  obtain c where c: "ir_outbound ?r = [c]" by (simp add: ir_enqueue_def new_irep_def)
  have b: "ir_batch_size ?r = 50" by (simp add: ir_enqueue_def new_irep_def)
  from failed_batch_is_lost [of c ?r "\<lambda>_. False" "''us''"] c b show ?thesis by (simp add: flush_sends)
qed

text \<open>Checkpoints never go back, and a peer that received a batch is at least at its newest version.\<close>

lemma checkpoint_monotone: "ir_get_checkpoint q r \<le> ir_get_checkpoint q (fst (ir_flush send r))"
proof -
  let ?b = "take (ir_batch_size r) (ir_outbound r)"
  let ?r1 = "r\<lparr>ir_outbound := drop (ir_batch_size r) (ir_outbound r)\<rparr>"
  obtain r2 sent where f: "fold (flush_peer send ?b) (ir_peer_regions r) (?r1, []) = (r2, sent)"
    by (cases "fold (flush_peer send ?b) (ir_peer_regions r) (?r1, [])")
  from flush_fold [OF f] f show ?thesis
    by (cases "?b = []") (auto simp: ir_flush_def Let_def ir_get_checkpoint_def)
qed

text \<open>Every received change is counted exactly once.\<close>

lemma receive_counts_total:
  "fold (receive_change f) cs (r, n) = (r', n') \<Longrightarrow>
     rc_applied n' + rc_skipped n' + rc_conflicts n'
       = rc_applied n + rc_skipped n + rc_conflicts n + length cs
     \<and> ir_entries_received r' + rc_skipped n' = ir_entries_received r + rc_skipped n + length cs
     \<and> ir_conflict_count r' + rc_conflicts n = ir_conflict_count r + rc_conflicts n'
     \<and> ir_local_region r' = ir_local_region r"
proof (induction cs arbitrary: r n)
  case (Cons c cs)
  obtain r1 n1 where s: "receive_change f c (r, n) = (r1, n1)" by (cases "receive_change f c (r, n)")
  with Cons.prems have "fold (receive_change f) cs (r1, n1) = (r', n')" by simp
  from Cons.IH [OF this] s show ?case by (auto simp: receive_change_def Let_def split: if_splits)
qed simp

end
