(* ===== verification/Identity.thy ===== *)
theory Identity
  imports Prelude
begin

text \<open>
  The identity store and the tenant naming scheme: \<open>identity/*.py\<close> (organizations, users, roles,
  permissions, API tokens, token claims), \<open>tenancy/*.py\<close>, \<open>deployments/*.py\<close>. The identifiers,
  secrets and salts that the random generators return, the clock, the digest and the verdict of
  the token library are arguments.
\<close>

section \<open>Strings\<close>

text \<open>\<open>s.split(sep, 1)\<close> when \<open>sep\<close> occurs in \<open>s\<close>: the text before and after its first occurrence.\<close>

fun py_partition :: "string \<Rightarrow> string \<Rightarrow> (string \<times> string) option" where
  "py_partition sep [] = (if sep = [] then Some ([], []) else None)"
| "py_partition sep (c # cs) =
     (if starts_with sep (c # cs) then Some ([], drop (length sep) (c # cs))
      else map_option (\<lambda>(a, b). (c # a, b)) (py_partition sep cs))"

lemma py_partition_first:
  assumes "sep \<noteq> []" "\<And>i. i < length xs \<Longrightarrow> \<not> starts_with sep (drop i (xs @ sep @ ys))"
  shows "py_partition sep (xs @ sep @ ys) = Some (xs, ys)"
  using assms(2)
proof (induction xs)
  case Nil
  obtain c cs where "sep = c # cs" using assms(1) by (cases sep) auto
  then show ?case by (simp add: starts_with_def)
next
  case (Cons x xs)
  have "\<not> starts_with sep (x # xs @ sep @ ys)" using Cons.prems [of 0] by simp
  moreover have "py_partition sep (xs @ sep @ ys) = Some (xs, ys)"
  proof (rule Cons.IH)
    show "\<not> starts_with sep (drop i (xs @ sep @ ys))" if "i < length xs" for i
      using Cons.prems [of "Suc i"] that by simp
  qed
  ultimately show ?case by simp
qed

section \<open>Roles and permissions\<close>

datatype role = Admin | Dev | Billing | Viewer

definition INFERENCE_CALL :: string where "INFERENCE_CALL = ''inference:call''"
definition ORG_MANAGE :: string where "ORG_MANAGE = ''org:manage''"
definition USER_MANAGE :: string where "USER_MANAGE = ''user:manage''"
definition BILLING_READ :: string where "BILLING_READ = ''billing:read''"
definition BILLING_MANAGE :: string where "BILLING_MANAGE = ''billing:manage''"
definition API_KEY_ROTATE :: string where "API_KEY_ROTATE = ''api_key:rotate''"
definition DEPLOY_READ :: string where "DEPLOY_READ = ''deploy:read''"
definition DEPLOY_MANAGE :: string where "DEPLOY_MANAGE = ''deploy:manage''"
definition AUDIT_READ :: string where "AUDIT_READ = ''audit:read''"

lemmas permission_defs = INFERENCE_CALL_def ORG_MANAGE_def USER_MANAGE_def BILLING_READ_def
  BILLING_MANAGE_def API_KEY_ROTATE_def DEPLOY_READ_def DEPLOY_MANAGE_def AUDIT_READ_def

fun permissions_for :: "role \<Rightarrow> string list" where
  "permissions_for Admin =
     [INFERENCE_CALL, ORG_MANAGE, USER_MANAGE, BILLING_READ, BILLING_MANAGE, API_KEY_ROTATE,
      DEPLOY_READ, DEPLOY_MANAGE, AUDIT_READ]"
| "permissions_for Dev = [INFERENCE_CALL, DEPLOY_READ, DEPLOY_MANAGE]"
| "permissions_for Billing = [BILLING_READ, BILLING_MANAGE, INFERENCE_CALL]"
| "permissions_for Viewer = [DEPLOY_READ, BILLING_READ]"

definition has_permission :: "role \<Rightarrow> string \<Rightarrow> bool" where
  "has_permission r p \<longleftrightarrow> p \<in> set (permissions_for r)"

section \<open>The identity store\<close>

record organization =
  org_id :: string
  org_name :: string
  org_slug :: string
  org_plan :: string

record user =
  user_id :: string
  user_email :: string
  user_display_name :: string
  user_password_hash :: string

record api_token =
  tok_id :: string
  tok_org_id :: string
  tok_name :: string
  tok_hash :: string
  tok_prefix :: string
  tok_created_at :: string
  tok_revoked :: bool

record identity_state =
  st_orgs :: "(string, organization) dict"
  st_users :: "(string, user) dict"
  st_memberships :: "(string, (string \<times> role) list) dict"
  st_api_tokens :: "(string, api_token) dict"
  st_token_hash_index :: "(string, string) dict"

datatype identity_error = KeyError string

definition empty_identity :: identity_state where
  "empty_identity =
     \<lparr>st_orgs = [], st_users = [], st_memberships = [], st_api_tokens = [], st_token_hash_index = []\<rparr>"

definition create_organization ::
    "string \<Rightarrow> string \<Rightarrow> string \<Rightarrow> string \<Rightarrow> identity_state \<Rightarrow> identity_state \<times> organization" where
  "create_organization oid name slug plan s =
     (let org = \<lparr>org_id = oid, org_name = name,
                 org_slug = map (\<lambda>c. if c = CHR '' '' then CHR ''-'' else c) (py_lower slug),
                 org_plan = plan\<rparr>
      in (s\<lparr>st_orgs := dput oid org (st_orgs s),
            st_memberships := (if dget (st_memberships s) oid = None
                               then dput oid [] (st_memberships s) else st_memberships s)\<rparr>, org))"

definition get_organization :: "string \<Rightarrow> identity_state \<Rightarrow> organization option" where
  "get_organization oid s = dget (st_orgs s) oid"

definition update_org_plan ::
    "string \<Rightarrow> string \<Rightarrow> identity_state \<Rightarrow> identity_state \<times> organization option" where
  "update_org_plan oid plan s =
     (case dget (st_orgs s) oid of
        None \<Rightarrow> (s, None)
      | Some org \<Rightarrow> let org1 = org\<lparr>org_plan := plan\<rparr>
                    in (s\<lparr>st_orgs := dput oid org1 (st_orgs s)\<rparr>, Some org1))"

definition hash_password :: "(string \<Rightarrow> string) \<Rightarrow> string \<Rightarrow> string \<Rightarrow> string" where
  "hash_password sha256 salt password = salt @ ''$'' @ sha256 (salt @ password)"

definition verify_password :: "(string \<Rightarrow> string) \<Rightarrow> user \<Rightarrow> string \<Rightarrow> bool" where
  "verify_password sha256 u password =
     (if user_password_hash u = [] then False
      else case py_partition ''$'' (user_password_hash u) of
        None \<Rightarrow> False
      | Some (salt, stored) \<Rightarrow> sha256 (salt @ password) = stored)"

definition create_user ::
    "(string \<Rightarrow> string) \<Rightarrow> string \<Rightarrow> string \<Rightarrow> string \<Rightarrow> string \<Rightarrow> string \<Rightarrow> identity_state
      \<Rightarrow> identity_state \<times> user" where
  "create_user sha256 uid salt email display_name password s =
     (let u = \<lparr>user_id = uid, user_email = py_strip (py_lower email),
               user_display_name = display_name,
               user_password_hash = hash_password sha256 salt password\<rparr>
      in (s\<lparr>st_users := dput uid u (st_users s)\<rparr>, u))"

definition get_user :: "string \<Rightarrow> identity_state \<Rightarrow> user option" where
  "get_user uid s = dget (st_users s) uid"

definition get_user_by_email :: "string \<Rightarrow> identity_state \<Rightarrow> user option" where
  "get_user_by_email email s =
     List.find (\<lambda>u. user_email u = py_strip (py_lower email)) (dvalues (st_users s))"

text \<open>The rows of an organization: the first row of the user is updated, or one is appended.\<close>

fun set_role :: "string \<Rightarrow> role \<Rightarrow> (string \<times> role) list \<Rightarrow> (string \<times> role) list \<times> string" where
  "set_role uid r [] = ([(uid, r)], ''added'')"
| "set_role uid r (row # rows) =
     (if fst row = uid then ((uid, r) # rows, ''updated'')
      else let (rows', status) = set_role uid r rows in (row # rows', status))"

definition add_user_to_org ::
    "string \<Rightarrow> string \<Rightarrow> role \<Rightarrow> identity_state \<Rightarrow> identity_error + identity_state \<times> string" where
  "add_user_to_org uid oid r s =
     (if dget (st_users s) uid = None \<or> dget (st_orgs s) oid = None
      then Inl (KeyError ''unknown user or org'')
      else let rows = (case dget (st_memberships s) oid of Some rs \<Rightarrow> rs | None \<Rightarrow> []);
               (rows', status) = set_role uid r rows
           in Inr (s\<lparr>st_memberships := dput oid rows' (st_memberships s)\<rparr>, status))"

definition membership :: "string \<Rightarrow> string \<Rightarrow> identity_state \<Rightarrow> role option" where
  "membership uid oid s =
     (case dget (st_memberships s) oid of None \<Rightarrow> None
      | Some rows \<Rightarrow> map_option snd (List.find (\<lambda>row. fst row = uid) rows))"

definition user_can :: "string \<Rightarrow> string \<Rightarrow> string \<Rightarrow> identity_state \<Rightarrow> bool" where
  "user_can uid oid permission s =
     (case membership uid oid s of None \<Rightarrow> False | Some r \<Rightarrow> has_permission r permission)"

section \<open>API tokens\<close>

definition create_org_api_token ::
    "(string \<Rightarrow> string) \<Rightarrow> string \<Rightarrow> string \<Rightarrow> string \<Rightarrow> string \<Rightarrow> string \<Rightarrow> identity_state
      \<Rightarrow> identity_error + identity_state \<times> string \<times> string" where
  "create_org_api_token sha256 random tid now oid name s =
     (if dget (st_orgs s) oid = None then Inl (KeyError ''unknown org'')
      else let secret = ''sk_'' @ random; digest = sha256 secret;
               rec = \<lparr>tok_id = tid, tok_org_id = oid, tok_name = name, tok_hash = digest,
                      tok_prefix = take 12 secret, tok_created_at = now, tok_revoked = False\<rparr>
           in Inr (s\<lparr>st_api_tokens := dput tid rec (st_api_tokens s),
                     st_token_hash_index := dput digest tid (st_token_hash_index s)\<rparr>, tid, secret))"

definition verify_org_api_secret ::
    "(string \<Rightarrow> string) \<Rightarrow> string \<Rightarrow> identity_state \<Rightarrow> (string \<times> string \<times> string) option" where
  "verify_org_api_secret sha256 secret s =
     (if \<not> starts_with ''sk_'' secret then None
      else case truthy (dget (st_token_hash_index s) (sha256 secret)) of
        None \<Rightarrow> None
      | Some tid \<Rightarrow>
          (case dget (st_api_tokens s) tid of
             None \<Rightarrow> None
           | Some rec \<Rightarrow> if tok_revoked rec then None else Some (tok_org_id rec, tid, tok_name rec)))"

definition revoke_org_api_token :: "string \<Rightarrow> identity_state \<Rightarrow> identity_state \<times> bool" where
  "revoke_org_api_token tid s =
     (case dget (st_api_tokens s) tid of
        None \<Rightarrow> (s, False)
      | Some rec \<Rightarrow>
          (s\<lparr>st_api_tokens := dput tid (rec\<lparr>tok_revoked := True\<rparr>) (st_api_tokens s),
             st_token_hash_index := ddel (tok_hash rec) (st_token_hash_index s)\<rparr>, True))"

definition revoke_org_api_token_for_org ::
    "string \<Rightarrow> string \<Rightarrow> identity_state \<Rightarrow> identity_state \<times> bool" where
  "revoke_org_api_token_for_org oid tid s =
     (case dget (st_api_tokens s) tid of
        None \<Rightarrow> (s, False)
      | Some rec \<Rightarrow> if tok_org_id rec \<noteq> oid then (s, False) else revoke_org_api_token tid s)"

definition rotate_org_api_token ::
    "(string \<Rightarrow> string) \<Rightarrow> string \<Rightarrow> string \<Rightarrow> string \<Rightarrow> string \<Rightarrow> identity_state
      \<Rightarrow> identity_state \<times> (identity_error + string \<times> string)" where
  "rotate_org_api_token sha256 random new_tid now tid s =
     (case dget (st_api_tokens s) tid of
        None \<Rightarrow> (s, Inl (KeyError ''token not found''))
      | Some rec \<Rightarrow>
          if tok_revoked rec then (s, Inl (KeyError ''token not found''))
          else let s1 = fst (revoke_org_api_token tid s)
               in case create_org_api_token sha256 random new_tid now (tok_org_id rec) (tok_name rec) s1 of
                    Inl e \<Rightarrow> (s1, Inl e)
                  | Inr (s2, issued) \<Rightarrow> (s2, Inr issued))"

definition list_org_tokens :: "string \<Rightarrow> identity_state \<Rightarrow> api_token list" where
  "list_org_tokens oid s = filter (\<lambda>rec. tok_org_id rec = oid) (dvalues (st_api_tokens s))"

section \<open>Token life cycle\<close>

datatype identity_op =
    CreateOrg string string string string
  | CreateUser string string string string string
  | UpdatePlan string string
  | AddMember string string role
  | CreateToken string string string string string
  | RevokeToken string
  | RevokeFor string string
  | RotateToken string string string string

fun identity_step :: "(string \<Rightarrow> string) \<Rightarrow> identity_op \<Rightarrow> identity_state \<Rightarrow> identity_state" where
  "identity_step sha (CreateOrg oid name slug plan) s = fst (create_organization oid name slug plan s)"
| "identity_step sha (CreateUser uid salt email name pw) s = fst (create_user sha uid salt email name pw s)"
| "identity_step sha (UpdatePlan oid plan) s = fst (update_org_plan oid plan s)"
| "identity_step sha (AddMember uid oid r) s =
     (case add_user_to_org uid oid r s of Inl e \<Rightarrow> s | Inr (s1, x) \<Rightarrow> s1)"
| "identity_step sha (CreateToken random tid now oid name) s =
     (case create_org_api_token sha random tid now oid name s of Inl e \<Rightarrow> s | Inr (s1, x) \<Rightarrow> s1)"
| "identity_step sha (RevokeToken tid) s = fst (revoke_org_api_token tid s)"
| "identity_step sha (RevokeFor oid tid) s = fst (revoke_org_api_token_for_org oid tid s)"
| "identity_step sha (RotateToken random new_tid now tid) s =
     fst (rotate_org_api_token sha random new_tid now tid s)"

text \<open>The token id that an operation issues; the generator never returns an id twice.\<close>

fun issued_id :: "identity_op \<Rightarrow> string option" where
  "issued_id (CreateToken random tid now oid name) = Some tid"
| "issued_id (RotateToken random new_tid now tid) = Some new_tid"
| "issued_id op = None"

definition token_dead :: "string \<Rightarrow> identity_state \<Rightarrow> bool" where
  "token_dead tid s \<longleftrightarrow> (\<exists>rec. dget (st_api_tokens s) tid = Some rec \<and> tok_revoked rec)"

lemma token_dead_revoke: "token_dead tid s \<Longrightarrow> token_dead tid (fst (revoke_org_api_token tid' s))"
  by (auto simp: token_dead_def revoke_org_api_token_def split: option.splits)

lemma token_dead_create:
  "token_dead tid s \<Longrightarrow> tid' \<noteq> tid \<Longrightarrow>
     create_org_api_token sha random tid' now oid name s = Inr (s', x) \<Longrightarrow> token_dead tid s'"
  by (auto simp: token_dead_def create_org_api_token_def Let_def split: if_splits)

lemma token_dead_step:
  assumes "token_dead tid s" "issued_id op \<noteq> Some tid"
  shows "token_dead tid (identity_step sha op s)"
proof (cases op)
  case (RotateToken random new_tid now old)
  with assms show ?thesis
    by (auto simp: rotate_org_api_token_def Let_def token_dead_revoke split: option.splits sum.splits
        intro: token_dead_create [OF token_dead_revoke])
next
  case (CreateToken random new_tid now oid name)
  with assms show ?thesis by (auto split: sum.splits intro: token_dead_create)
next
  case (RevokeFor oid tid')
  with assms show ?thesis
    by (auto simp: revoke_org_api_token_for_org_def token_dead_revoke split: option.splits)
next
  case (RevokeToken tid')
  with assms show ?thesis by (simp add: token_dead_revoke)
next
  case (AddMember uid oid r)
  with assms show ?thesis
    by (auto simp: add_user_to_org_def token_dead_def Let_def case_prod_unfold split: sum.splits if_splits)
qed (use assms in \<open>auto simp: token_dead_revoke create_organization_def create_user_def
    update_org_plan_def token_dead_def Let_def split: option.splits\<close>)

lemma dead_not_verified: "token_dead tid s \<Longrightarrow> verify_org_api_secret sha secret s \<noteq> Some (oid, tid, name)"
  by (auto simp: verify_org_api_secret_def token_dead_def split: option.splits if_splits)

text \<open>
  C14: a revoked API token is dead: no secret is ever accepted as that token again, whatever is
  created, revoked or rotated afterwards, provided that the token ids issued later are new.
\<close>

theorem revoked_token_stays_dead:
  assumes "dget (st_api_tokens s) tid \<noteq> None" "\<forall>op \<in> set ops. issued_id op \<noteq> Some tid"
  shows "verify_org_api_secret sha secret
      (fold (identity_step sha) ops (fst (revoke_org_api_token tid s))) \<noteq> Some (oid, tid, name)"
proof -
  have "token_dead tid (fst (revoke_org_api_token tid s))"
    using assms(1) by (auto simp: token_dead_def revoke_org_api_token_def)
  then have "token_dead tid (fold (identity_step sha) ops (fst (revoke_org_api_token tid s)))"
    using assms(2)
    by (intro fold_invariant [where Q = "\<lambda>op. issued_id op \<noteq> Some tid" and P = "token_dead tid"])
      (auto intro: token_dead_step)
  then show ?thesis by (rule dead_not_verified)
qed

definition one_token :: identity_state where
  "one_token = empty_identity\<lparr>st_orgs := [(''o'', \<lparr>org_id = ''o'', org_name = ''n'',
     org_slug = ''n'', org_plan = ''free''\<rparr>)], st_api_tokens := [(''t'', \<lparr>tok_id = ''t'',
     tok_org_id = ''o'', tok_name = ''d'', tok_hash = ''sk_x'', tok_prefix = ''sk_x'',
     tok_created_at = ''now'', tok_revoked = False\<rparr>)], st_token_hash_index := [(''sk_x'', ''t'')]\<rparr>"

theorem revoked_token_stays_dead_witness:
  "verify_org_api_secret (\<lambda>x. x) ''sk_x'' one_token = Some (''o'', ''t'', ''d'')
   \<and> verify_org_api_secret (\<lambda>x. x) ''sk_x''
      (fold (identity_step (\<lambda>x. x)) [CreateToken ''x'' ''t2'' ''now'' ''o'' ''d'']
        (fst (revoke_org_api_token ''t'' one_token))) \<noteq> Some (''o'', ''t'', ''d'')"
proof (intro conjI)
  show "verify_org_api_secret (\<lambda>x. x) ''sk_x'' one_token = Some (''o'', ''t'', ''d'')"
    by (simp add: verify_org_api_secret_def one_token_def starts_with_def truthy_def)
  show "verify_org_api_secret (\<lambda>x. x) ''sk_x''
      (fold (identity_step (\<lambda>x. x)) [CreateToken ''x'' ''t2'' ''now'' ''o'' ''d'']
        (fst (revoke_org_api_token ''t'' one_token))) \<noteq> Some (''o'', ''t'', ''d'')"
    by (rule revoked_token_stays_dead) (simp_all add: one_token_def)
qed

lemma created_token_verifies:
  assumes "create_org_api_token sha random tid now oid name s = Inr (s', tid', secret)" "tid \<noteq> []"
  shows "verify_org_api_secret sha secret s' = Some (oid, tid, name) \<and> tid' = tid"
  using assms
  by (auto simp: create_org_api_token_def verify_org_api_secret_def starts_with_def truthy_def Let_def
      split: if_splits)

text \<open>
  A rotation hands the organization over to the new secret: the new secret is accepted for
  the same organization and name, and the old token id never again.
\<close>

theorem rotation_hands_over:
  assumes "rotate_org_api_token sha random new_tid now tid s = (s', Inr (tid', secret))"
    and "new_tid \<noteq> []" "new_tid \<noteq> tid"
  shows "\<exists>rec. dget (st_api_tokens s) tid = Some rec
    \<and> verify_org_api_secret sha secret s' = Some (tok_org_id rec, new_tid, tok_name rec)
    \<and> (\<forall>x oid name. verify_org_api_secret sha x s' \<noteq> Some (oid, tid, name))"
proof -
  obtain rec where rec: "dget (st_api_tokens s) tid = Some rec"
    and c: "create_org_api_token sha random new_tid now (tok_org_id rec) (tok_name rec)
      (fst (revoke_org_api_token tid s)) = Inr (s', tid', secret)"
    using assms(1) by (auto simp: rotate_org_api_token_def Let_def split: option.splits if_splits sum.splits)
  have "token_dead tid (fst (revoke_org_api_token tid s))"
    using rec by (simp add: token_dead_def revoke_org_api_token_def)
  with c assms(3) have "token_dead tid s'" by (metis token_dead_create)
  with rec created_token_verifies [OF c assms(2)] dead_not_verified show ?thesis by blast
qed

theorem rotation_hands_over_example:
  "\<exists>s' secret. rotate_org_api_token (\<lambda>x. x) ''y'' ''t2'' ''now'' ''t'' one_token = (s', Inr (''t2'', secret))
     \<and> verify_org_api_secret (\<lambda>x. x) secret s' = Some (''o'', ''t2'', ''d'')"
proof -
  obtain s' where r: "rotate_org_api_token (\<lambda>x. x) ''y'' ''t2'' ''now'' ''t'' one_token
      = (s', Inr (''t2'', ''sk_y''))"
    by (simp add: rotate_org_api_token_def one_token_def revoke_org_api_token_def
        create_org_api_token_def Let_def)
  from rotation_hands_over [OF r] r show ?thesis by (auto simp: one_token_def)
qed

section \<open>Users and members\<close>

lemma py_partition_char:
  "c \<notin> set xs \<Longrightarrow> py_partition [c] (xs @ [c] @ ys) = Some (xs, ys)"
proof (rule py_partition_first)
  fix i assume "c \<notin> set xs" "i < length xs"
  then have "drop i (xs @ [c] @ ys) = xs ! i # drop (Suc i) (xs @ [c] @ ys)" "xs ! i \<noteq> c"
    by (simp_all add: Cons_nth_drop_Suc [symmetric] nth_append) (metis nth_mem)
  then show "\<not> starts_with [c] (drop i (xs @ [c] @ ys))" by (simp add: starts_with_def)
qed simp

text \<open>A password is accepted exactly when its digest under the stored salt is the stored one.\<close>

lemma password_round_trip:
  assumes "CHR ''$'' \<notin> set salt"
  shows "verify_password sha (snd (create_user sha uid salt email name pw s)) pw'
    \<longleftrightarrow> sha (salt @ pw') = sha (salt @ pw)"
  using py_partition_char [OF assms, of "sha (salt @ pw)"]
  by (simp add: verify_password_def create_user_def hash_password_def Let_def)

lemma find_set_role:
  "List.find (\<lambda>row. fst row = u) (fst (set_role uid r rows)) =
     (if u = uid then Some (uid, r) else List.find (\<lambda>row. fst row = u) rows)"
  by (induction uid r rows rule: set_role.induct) (auto simp: case_prod_unfold Let_def)

lemma membership_add:
  assumes "add_user_to_org uid oid r s = Inr (s', status)"
  shows "membership u o' s' = (if u = uid \<and> o' = oid then Some r else membership u o' s)"
  using assms
  by (auto simp: add_user_to_org_def membership_def find_set_role Let_def case_prod_unfold
      split: if_splits option.splits)

section \<open>Tenants and their names\<close>

record tenant_context =
  tc_org_id :: string
  tc_user_id :: "string option"
  tc_token_id :: "string option"
  tc_role :: "string option"
  tc_auth_kind :: string

definition to_headers :: "tenant_context \<Rightarrow> (string \<times> string) list" where
  "to_headers c =
     [(''X-Arsonist-Org-Id'', tc_org_id c)]
     @ (case truthy (tc_user_id c) of Some u \<Rightarrow> [(''X-Arsonist-User-Id'', u)] | None \<Rightarrow> [])"

definition resolve_tenant_header :: "string option \<Rightarrow> tenant_context \<Rightarrow> string + string" where
  "resolve_tenant_header org_header c =
     (if truthy org_header \<noteq> None \<and> org_header \<noteq> Some (tc_org_id c)
      then Inl ''org header mismatch'' else Inr (tc_org_id c))"

definition workload_labels :: "string \<Rightarrow> (string, json) dict \<Rightarrow> (string, json) dict" where
  "workload_labels oid base =
     dput ''arsonist.io/tenant-isolation'' (JStr ''strict'')
       (dput ''arsonist.io/org-id'' (JStr oid) base)"

definition namespaced_model_id :: "string \<Rightarrow> string \<Rightarrow> string" where
  "namespaced_model_id oid model_id = oid @ ''::'' @ model_id"

definition strip_namespace :: "string \<Rightarrow> string \<times> string" where
  "strip_namespace namespaced =
     (case py_partition ''::'' namespaced of Some (a, b) \<Rightarrow> (a, b) | None \<Rightarrow> ([], namespaced))"

definition namespaced_deployment_id :: "string \<Rightarrow> string \<Rightarrow> string" where
  "namespaced_deployment_id oid deployment_id = oid @ ''__'' @ deployment_id"

definition parse_namespaced_id :: "string \<Rightarrow> string \<times> string" where
  "parse_namespaced_id namespaced =
     (case py_partition ''__'' namespaced of Some (a, b) \<Rightarrow> (a, b) | None \<Rightarrow> ([], namespaced))"

definition registry_prefix :: "string \<Rightarrow> string" where
  "registry_prefix oid = ''v12:org:'' @ oid @ '':''"

definition deployment_key :: "string \<Rightarrow> string \<Rightarrow> string" where
  "deployment_key oid name = registry_prefix oid @ ''deploy:'' @ name"

text \<open>\<open>s.split(':', 3)\<close> after the fixed prefix, which holds the first two separators.\<close>

definition parse_registry_key :: "string \<Rightarrow> (string \<times> string) option" where
  "parse_registry_key full_key =
     (if \<not> starts_with ''v12:org:'' full_key then None
      else py_partition '':'' (drop (length ''v12:org:'') full_key))"

text \<open>The identifiers of the store: a prefix, an underscore and hexadecimal digits.\<close>

definition new_id :: "string \<Rightarrow> string \<Rightarrow> string" where
  "new_id prefix hex = prefix @ ''_'' @ take 16 hex"

lemma drop_append_short: "i < length xs \<Longrightarrow> drop i (xs @ ys) = xs ! i # drop (Suc i) xs @ ys"
  by (metis Cons_nth_drop_Suc append_Cons drop_append diff_is_0_eq drop_0 less_imp_le_nat)

lemma py_partition_double:
  assumes "\<And>i. i < length xs \<Longrightarrow> xs ! i = c \<Longrightarrow> Suc i < length xs \<and> xs ! Suc i \<noteq> c"
  shows "py_partition [c, c] (xs @ [c, c] @ ys) = Some (xs, ys)"
proof (rule py_partition_first)
  fix i assume i: "i < length xs"
  have d: "drop i (xs @ [c, c] @ ys) = xs ! i # drop (Suc i) xs @ [c, c] @ ys"
    using i by (rule drop_append_short)
  show "\<not> starts_with [c, c] (drop i (xs @ [c, c] @ ys))"
  proof (cases "xs ! i = c")
    case True
    with assms i have "Suc i < length xs" "xs ! Suc i \<noteq> c" by auto
    moreover from this(1) have "drop (Suc i) xs = xs ! Suc i # drop (Suc (Suc i)) xs"
      by (rule Cons_nth_drop_Suc [symmetric])
    ultimately show ?thesis by (simp only: d) (simp add: starts_with_def)
  next
    case False
    then show ?thesis by (simp only: d) (simp add: starts_with_def)
  qed
qed simp

text \<open>
  the names that carry a tenant can be taken apart again: from the namespaced model id, the
  namespaced deployment id and the registry key of an organization with a generated id one gets
  back exactly that organization and the rest, whatever the rest contains.
\<close>

theorem tenant_names_round_trip:
  assumes "CHR ''_'' \<notin> set hex" "CHR '':'' \<notin> set hex" "hex \<noteq> []"
  shows "strip_namespace (namespaced_model_id (new_id ''org'' hex) x) = (new_id ''org'' hex, x)
    \<and> parse_namespaced_id (namespaced_deployment_id (new_id ''org'' hex) x) = (new_id ''org'' hex, x)
    \<and> parse_registry_key (deployment_key (new_id ''org'' hex) x)
        = Some (new_id ''org'' hex, ''deploy:'' @ x)"
proof -
  let ?h = "take 16 hex" and ?oid = "new_id ''org'' hex"
  have h: "CHR ''_'' \<notin> set ?h" "CHR '':'' \<notin> set ?h" "?h \<noteq> []"
    using assms by (auto dest: in_set_takeD)
  have colon: "CHR '':'' \<notin> set ?oid" using h by (auto simp: new_id_def)
  have "py_partition ''::'' (?oid @ ''::'' @ x) = Some (?oid, x)"
    using colon by (intro py_partition_double) (metis nth_mem)
  moreover have "py_partition ''__'' (?oid @ ''__'' @ x) = Some (?oid, x)"
  proof (rule py_partition_double)
    fix i assume i: "i < length ?oid" "?oid ! i = CHR ''_''"
    obtain c cs where c: "?h = c # cs" "c \<noteq> CHR ''_''" using h by (cases "?h") auto
    have "i = 3"
    proof (rule ccontr)
      assume "i \<noteq> 3"
      with i(1) consider "i < 3" | "4 \<le> i" "i - 4 < length ?h" by (fastforce simp: new_id_def)
      then show False
      proof cases
        case 1
        then have "i = 0 \<or> i = 1 \<or> i = 2" by linarith
        with i(2) show False by (auto simp: new_id_def)
      next
        case 2
        obtain k where k: "i = Suc (Suc (Suc (Suc k)))" using 2(1)
          by (intro that [of "i - 4"]) linarith
        have "?oid ! i = ?h ! k" by (simp add: new_id_def k)
        moreover have "k < length ?h" using 2(2) k by simp
        ultimately show False using i(2) h(1) by (metis nth_mem)
      qed
    qed
    then show "Suc i < length ?oid \<and> ?oid ! Suc i \<noteq> CHR ''_''"
      using c by (simp add: new_id_def)
  qed
  moreover have "py_partition '':'' (?oid @ '':'' @ ''deploy:'' @ x) = Some (?oid, ''deploy:'' @ x)"
    using colon by (rule py_partition_char)
  ultimately show ?thesis
    by (simp add: strip_namespace_def namespaced_model_id_def parse_namespaced_id_def
        namespaced_deployment_id_def parse_registry_key_def deployment_key_def registry_prefix_def
        starts_with_def)
qed

theorem tenant_names_round_trip_witness:
  "strip_namespace (namespaced_model_id (new_id ''org'' ''0a1b'') ''m::v2'') = (''org_0a1b'', ''m::v2'')"
  using tenant_names_round_trip [of "''0a1b''" "''m::v2''"] by (simp add: new_id_def)

end
