(* ===== verification/Billing.thy ===== *)
theory Billing
  imports Identity
begin

text \<open>
  Usage, limits and invoices of the tenants: \<open>billing/*.py\<close>, \<open>gateway/quota_manager.py\<close>,
  \<open>gateway/rate_limit.py\<close> and \<open>gateway/usage_meter.py\<close>, for a deployment without Redis: the counters
  and the request windows live in the process. A counter is a locale (\<open>meter\<close>), a budget on it is
  checked and then charged in two separate steps, as the source takes the lock twice.
\<close>

section \<open>Usage\<close>

record usage_row =
  ur_ts :: string
  ur_metric :: string
  ur_amount :: rat
  ur_unit :: string
  ur_meta :: json

record billing_state =
  bs_meter :: "(string \<times> string, rat) dict"
  bs_usage :: "(string, usage_row list) dict"
  bs_custom :: "(string, (string, rat) dict) dict"

definition empty_billing :: billing_state where
  "empty_billing = \<lparr>bs_meter = [], bs_usage = [], bs_custom = []\<rparr>"

definition USAGE_CAP :: nat where
  "USAGE_CAP = 50000"

definition usage_of :: "string \<Rightarrow> billing_state \<Rightarrow> usage_row list" where
  "usage_of oid s = (case dget (bs_usage s) oid of Some rows \<Rightarrow> rows | None \<Rightarrow> [])"

definition record_usage ::
    "string \<Rightarrow> string \<Rightarrow> string \<Rightarrow> rat \<Rightarrow> string \<Rightarrow> json \<Rightarrow> billing_state \<Rightarrow> billing_state" where
  "record_usage now oid metric amount unit meta s =
     s\<lparr>bs_usage := dput oid (py_cap USAGE_CAP (usage_of oid s @
        [\<lparr>ur_ts = now, ur_metric = metric, ur_amount = amount, ur_unit = unit, ur_meta = meta\<rparr>]))
        (bs_usage s)\<rparr>"

definition recent_usage :: "string \<Rightarrow> nat \<Rightarrow> billing_state \<Rightarrow> usage_row list" where
  "recent_usage oid limit s = py_last limit (usage_of oid s)"

definition add_amount :: "usage_row \<Rightarrow> (string, rat) dict \<Rightarrow> (string, rat) dict" where
  "add_amount r out =
     dput (ur_metric r) ((case dget out (ur_metric r) of Some x \<Rightarrow> x | None \<Rightarrow> 0) + ur_amount r) out"

definition usage_totals :: "string \<Rightarrow> billing_state \<Rightarrow> (string, rat) dict" where
  "usage_totals oid s = fold add_amount (usage_of oid s) []"

section \<open>Counters\<close>

definition get_meter :: "string \<Rightarrow> string \<Rightarrow> billing_state \<Rightarrow> rat" where
  "get_meter oid key s = (case dget (bs_meter s) (oid, key) of Some x \<Rightarrow> x | None \<Rightarrow> 0)"

definition incr_meter :: "string \<Rightarrow> string \<Rightarrow> string \<Rightarrow> rat \<Rightarrow> billing_state \<Rightarrow> billing_state \<times> rat" where
  "incr_meter now oid key amount s =
     (let new_val = get_meter oid key s + amount
      in (record_usage now oid key amount ''count'' (JObj [])
            (s\<lparr>bs_meter := dput (oid, key) new_val (bs_meter s)\<rparr>), new_val))"

section \<open>Plans\<close>

fun default_limits :: "string \<Rightarrow> (string, rat) dict option" where
  "default_limits plan =
     (if plan = ''free'' then Some
        [(''requests_per_sec'', 5), (''tokens_per_minute'', 20000), (''gpu_seconds_per_day'', 60),
         (''max_concurrency'', 2), (''storage_gb'', 1)]
      else if plan = ''pro'' then Some
        [(''requests_per_sec'', 50), (''tokens_per_minute'', 500000),
         (''gpu_seconds_per_day'', 36000), (''max_concurrency'', 32), (''storage_gb'', 100)]
      else if plan = ''enterprise'' then Some
        [(''requests_per_sec'', 500), (''tokens_per_minute'', 5000000),
         (''gpu_seconds_per_day'', 864000), (''max_concurrency'', 256), (''storage_gb'', 5000)]
      else None)"

definition get_subscription ::
    "string \<Rightarrow> identity_state \<Rightarrow> billing_state \<Rightarrow> string \<times> (string, rat) dict" where
  "get_subscription oid ids s =
     (let plan = (case get_organization oid ids of Some org \<Rightarrow> org_plan org | None \<Rightarrow> ''free'');
          limits = (case default_limits plan of Some l \<Rightarrow> l | None \<Rightarrow> the (default_limits ''free''))
      in (plan, case dget (bs_custom s) oid of
                  Some custom \<Rightarrow> fold (\<lambda>(k, v). dput k v) custom limits
                | None \<Rightarrow> limits))"

definition set_custom_limits :: "string \<Rightarrow> (string, rat) dict \<Rightarrow> billing_state \<Rightarrow> billing_state" where
  "set_custom_limits oid limits s = s\<lparr>bs_custom := dput oid limits (bs_custom s)\<rparr>"

definition limit_of :: "string \<Rightarrow> rat \<Rightarrow> string \<Rightarrow> identity_state \<Rightarrow> billing_state \<Rightarrow> rat" where
  "limit_of name default_limit oid ids s =
     (case dget (snd (get_subscription oid ids s)) name of Some x \<Rightarrow> x | None \<Rightarrow> default_limit)"

section \<open>Budgets\<close>

definition window_key :: "string \<Rightarrow> int \<Rightarrow> int \<Rightarrow> string" where
  "window_key prefix seconds now = prefix @ '':'' @ string_of_int (now div seconds)"

definition consume_tokens ::
    "string \<Rightarrow> int \<Rightarrow> string \<Rightarrow> rat \<Rightarrow> identity_state \<Rightarrow> billing_state \<Rightarrow> billing_state \<times> bool \<times> string" where
  "consume_tokens ts now oid n ids s =
     (let tpm = limit_of ''tokens_per_minute'' 1000000000 oid ids s;
          minute_key = window_key ''tokens'' 60 now;
          used = get_meter oid minute_key s
      in if used + n > tpm then (s, False, ''tokens_per_minute'')
         else (fst (incr_meter ts oid minute_key n s), True, []))"

definition check_gpu_budget ::
    "string \<Rightarrow> int \<Rightarrow> string \<Rightarrow> rat \<Rightarrow> identity_state \<Rightarrow> billing_state \<Rightarrow> billing_state \<times> bool \<times> string" where
  "check_gpu_budget ts now oid seconds ids s =
     (let cap = limit_of ''gpu_seconds_per_day'' 1000000000000 oid ids s;
          day_key = window_key ''gpu_sec'' 86400 now;
          used = get_meter oid day_key s
      in if used + seconds > cap then (s, False, ''gpu_seconds_per_day'')
         else (fst (incr_meter ts oid day_key seconds s), True, []))"

text \<open>The record of a chat answer; the tenant is known or absent.\<close>

definition maybe_record_chat ::
    "string \<Rightarrow> int \<Rightarrow> string option \<Rightarrow> string \<Rightarrow> rat \<Rightarrow> string \<Rightarrow> identity_state \<Rightarrow> billing_state \<Rightarrow> billing_state"
  where
  "maybe_record_chat ts now org model latency_ms content ids s =
     (case truthy org of
        None \<Rightarrow> s
      | Some oid \<Rightarrow>
          let est = max 1 (of_nat (length content) / 4);
              (s1, ok, reason) = consume_tokens ts now oid est ids s
          in if \<not> ok then s1
             else record_usage ts oid ''gpu_proxy_ms'' latency_ms ''ms'' (JObj [(''model'', JStr model)])
                    (record_usage ts oid ''tokens'' est ''tokens''
                      (JObj [(''model'', JStr model), (''kind'', JStr ''chat'')]) s1))"

definition maybe_record_units ::
    "string \<Rightarrow> int \<Rightarrow> string option \<Rightarrow> string \<Rightarrow> rat \<Rightarrow> string \<Rightarrow> identity_state \<Rightarrow> billing_state \<Rightarrow> billing_state"
  where
  "maybe_record_units ts now org model units kind ids s =
     (case truthy org of
        None \<Rightarrow> s
      | Some oid \<Rightarrow>
          let est = max 1 units;
              (s1, ok, reason) = consume_tokens ts now oid est ids s
          in if \<not> ok then s1
             else record_usage ts oid ''tokens'' est ''tokens''
                    (JObj [(''model'', JStr model), (''kind'', JStr kind)]) s1)"

definition maybe_record_embed ::
    "string \<Rightarrow> int \<Rightarrow> string option \<Rightarrow> string \<Rightarrow> nat \<Rightarrow> identity_state \<Rightarrow> billing_state \<Rightarrow> billing_state" where
  "maybe_record_embed ts now org model dims ids s =
     maybe_record_units ts now org model (of_nat dims / 8) ''embed'' ids s"

definition maybe_record_generate ::
    "string \<Rightarrow> int \<Rightarrow> string option \<Rightarrow> string \<Rightarrow> string \<Rightarrow> identity_state \<Rightarrow> billing_state \<Rightarrow> billing_state" where
  "maybe_record_generate ts now org model txt ids s =
     maybe_record_units ts now org model (of_nat (length txt) / 4) ''generate'' ids s"

section \<open>Request windows\<close>

definition allow_window :: "rat \<Rightarrow> rat \<Rightarrow> rat list \<Rightarrow> rat list \<times> bool \<times> rat" where
  "allow_window rps now q =
     (let q1 = dropWhile (\<lambda>t. now - t > 1) q; n = of_nat (length q1)
      in if n \<ge> rps then (q1, False, n) else (q1 @ [now], True, n + 1))"

definition allow_request ::
    "string \<Rightarrow> rat \<Rightarrow> rat \<Rightarrow> (string, rat list) dict \<Rightarrow> (string, rat list) dict \<times> bool \<times> rat" where
  "allow_request oid rps now w =
     (let (q, ok, n) = allow_window rps now (case dget w oid of Some q \<Rightarrow> q | None \<Rightarrow> [])
      in (dput oid q w, ok, n))"

section \<open>Invoices\<close>

record line_item =
  li_metric :: string
  li_amount :: rat
  li_unit_price :: rat
  li_description :: string

record invoice =
  inv_id :: string
  inv_org_id :: string
  inv_period :: string
  inv_created_at :: string
  inv_lines :: "line_item list"
  inv_total_usd :: rat
  inv_status :: string

definition invoice_total :: "line_item list \<Rightarrow> rat" where
  "invoice_total ls = sum_list (map (\<lambda>x. li_amount x * li_unit_price x) ls)"

definition generate_invoice ::
    "string \<Rightarrow> string \<Rightarrow> string \<Rightarrow> string \<Rightarrow> line_item list \<Rightarrow> (string, invoice) dict
      \<Rightarrow> (string, invoice) dict \<times> invoice" where
  "generate_invoice iid now oid period ls invs =
     (let doc = \<lparr>inv_id = iid, inv_org_id = oid, inv_period = period, inv_created_at = now,
                 inv_lines = ls, inv_total_usd = py_round (invoice_total ls) 4,
                 inv_status = ''draft''\<rparr>
      in (dput iid doc invs, doc))"

definition finalize_invoice ::
    "string \<Rightarrow> (string, invoice) dict \<Rightarrow> (string, invoice) dict \<times> invoice option" where
  "finalize_invoice iid invs =
     (case dget invs iid of
        None \<Rightarrow> (invs, None)
      | Some doc \<Rightarrow> let doc1 = doc\<lparr>inv_status := ''final''\<rparr> in (dput iid doc1 invs, Some doc1))"

definition usage_lines :: "(string, rat) dict \<Rightarrow> (string, rat) dict \<Rightarrow> line_item list" where
  "usage_lines prices totals =
     (let price = (\<lambda>m. case dget prices m of Some p \<Rightarrow> p | None \<Rightarrow> 0)
      in map (\<lambda>(m, q). \<lparr>li_metric = m, li_amount = q, li_unit_price = price m, li_description = m\<rparr>)
           (filter (\<lambda>(m, q). q \<noteq> 0 \<and> price m \<noteq> 0) totals))"

definition from_usage_snapshot ::
    "string \<Rightarrow> string \<Rightarrow> string \<Rightarrow> string \<Rightarrow> (string, rat) dict \<Rightarrow> billing_state
      \<Rightarrow> (string, invoice) dict \<Rightarrow> (string, invoice) dict \<times> invoice" where
  "from_usage_snapshot iid now oid period prices s invs =
     (let ls = usage_lines prices (usage_totals oid s);
          ls1 = (if ls = [] then [\<lparr>li_metric = ''minimum'', li_amount = 1, li_unit_price = 0,
                                    li_description = ''no billable usage''\<rparr>] else ls)
      in generate_invoice iid now oid period ls1 invs)"

section \<open>The rate limit\<close>

text \<open>The times of the admitted requests among requests at the times \<open>ts\<close>.\<close>

fun admissions :: "rat \<Rightarrow> rat list \<Rightarrow> rat list \<Rightarrow> rat list" where
  "admissions rps [] q = []"
| "admissions rps (now # ts) q =
     (let (q', ok, n) = allow_window rps now q
      in if ok then now # admissions rps ts q' else admissions rps ts q')"

abbreviation in_second :: "rat \<Rightarrow> rat \<Rightarrow> bool" where
  "in_second T t \<equiv> T - 1 \<le> t \<and> t \<le> T"

lemma admissions_Cons:
  "admissions rps (now # ts) q =
     (if of_nat (length (dropWhile (\<lambda>t. now - t > 1) q)) \<ge> rps
      then admissions rps ts (dropWhile (\<lambda>t. now - t > 1) q)
      else now # admissions rps ts (dropWhile (\<lambda>t. now - t > 1) q @ [now]))"
  by (simp add: allow_window_def Let_def)

declare admissions.simps(2) [simp del]

lemma set_admissions: "set (admissions rps ts q) \<subseteq> set ts"
  by (induction ts arbitrary: q) (auto simp: admissions_Cons split: if_splits)

lemma length_filter_rat:
  "length xs \<le> n \<Longrightarrow> of_nat n < (c :: rat) \<Longrightarrow> of_nat (length (filter P xs)) < c"
  by (meson le_less_trans le_trans length_filter_le of_nat_le_iff)

lemma admissions_window:
  assumes "sorted (q @ ts)" "\<And>T. of_nat (length (filter (in_second T) q)) < rps + 1"
  shows "of_nat (length (filter (in_second T) (q @ admissions rps ts q))) < rps + 1"
  using assms
proof (induction ts arbitrary: q)
  case (Cons now ts)
  define q1 where "q1 = dropWhile (\<lambda>t. now - t > 1) q"
  define d where "d = takeWhile (\<lambda>t. now - t > 1) q"
  have q: "q = d @ q1" by (simp add: d_def q1_def)
  have old: "now - t > 1" if "t \<in> set d" for t using that unfolding d_def by (auto dest: set_takeWhileD)
  define rest where "rest = (if of_nat (length q1) \<ge> rps then admissions rps ts q1
    else now # admissions rps ts (q1 @ [now]))"
  have step: "admissions rps (now # ts) q = rest"
    by (simp add: rest_def admissions_Cons q1_def [symmetric])
  have "set rest \<subseteq> insert now (set ts)" using set_admissions by (auto simp: rest_def)
  then have later: "now \<le> t" if "t \<in> set rest" for t
    using that Cons.prems(1) by (auto simp: sorted_append)
  show ?case
  proof (cases "filter (in_second T) d = []")
    case False
    then obtain t where t: "t \<in> set d" "T - 1 \<le> t" by (auto simp: filter_empty_conv)
    have "T < now" using t(2) old [OF t(1)] by linarith
    then have "filter (in_second T) rest = []" using later by (fastforce simp: filter_empty_conv)
    with Cons.prems(2) [of T] show ?thesis by (simp add: step)
  next
    case nod: True
    have sub: "of_nat (length (filter (in_second T') q1)) < rps + 1" for T'
    proof -
      have "length (filter (in_second T') q1) \<le> length (filter (in_second T') q)" by (simp add: q)
      then have "(of_nat (length (filter (in_second T') q1)) :: rat) \<le> of_nat (length (filter (in_second T') q))"
        by (rule of_nat_mono)
      with Cons.prems(2) [of T'] show ?thesis by linarith
    qed
    show ?thesis
    proof (cases "of_nat (length q1) \<ge> rps")
      case True
      have "sorted (q1 @ ts)" using Cons.prems(1) by (simp add: q sorted_append)
      from Cons.IH [OF this sub] True nod show ?thesis by (simp add: step) (simp add: rest_def q)
    next
      case False
      have "of_nat (length (filter (in_second T') (q1 @ [now]))) < rps + 1" for T'
        by (rule length_filter_rat [where n = "Suc (length q1)"]) (use False in simp_all)
      moreover have "sorted ((q1 @ [now]) @ ts)" using Cons.prems(1) by (auto simp: q sorted_append)
      ultimately have "of_nat (length (filter (in_second T) ((q1 @ [now]) @ admissions rps ts (q1 @ [now])))) < rps + 1"
        using Cons.IH by blast
      with False nod show ?thesis by (simp add: step) (simp add: rest_def q)
    qed
  qed
qed simp

text \<open>
  C27: the request window keeps its promise: among requests in the order of their times, fewer
  than \<open>rps + 1\<close> are admitted within any second, wherever it begins.
\<close>

theorem rate_limit_window:
  assumes "sorted ts" "0 \<le> rps"
  shows "of_nat (length (filter (in_second T) (admissions rps ts []))) < rps + 1"
  using admissions_window [of "[]" ts rps T] assms by simp

theorem rate_limit_window_witness:
  "of_nat (length (filter (in_second 1) (admissions 2 [0, 0, 1, 1, 5 / 2] []))) < (2 :: rat) + 1"
  by (rule rate_limit_window) simp_all

section \<open>Budgets on a counter\<close>

locale meter =
  fixes charge :: "'a \<Rightarrow> 'k \<Rightarrow> rat \<Rightarrow> 's \<Rightarrow> 's"
    and balance :: "'k \<Rightarrow> 's \<Rightarrow> rat"
  assumes balance_charge:
    "balance k' (charge a k n s) = balance k' s + (if k' = k then n else 0)"
begin

definition spend :: "rat \<Rightarrow> 'a \<Rightarrow> 'k \<Rightarrow> rat \<Rightarrow> 's \<Rightarrow> 's" where
  "spend cap a k n s = (if balance k s + n > cap then s else charge a k n s)"

lemma spend_bounded: "balance k' s \<le> cap' \<Longrightarrow> (k' = k \<Longrightarrow> cap' = cap) \<Longrightarrow> balance k' (spend cap a k n s) \<le> cap'"
  by (auto simp: spend_def balance_charge)

text \<open>Two requests that both check the balance before either is charged pass the cap together.\<close>

lemma check_then_charge_race:
  assumes "balance k s + n \<le> cap" "balance k s + n' \<le> cap" "cap < balance k s + n + n'"
  shows "cap < balance k (charge a' k n' (charge a k n s))"
  using assms by (simp add: balance_charge)

end

lemma get_meter_record [simp]: "get_meter oid key (record_usage now o' m a u meta s) = get_meter oid key s"
  by (simp add: get_meter_def record_usage_def)

interpretation tenant: meter "\<lambda>ts (oid, key) n s. fst (incr_meter ts oid key n s)"
  "\<lambda>(oid, key) s. get_meter oid key s"
  by unfold_locales
    (auto simp: incr_meter_def Let_def get_meter_def record_usage_def split: if_splits option.splits)

lemma consume_tokens_spend:
  "fst (consume_tokens ts now oid n ids s) =
     tenant.spend (limit_of ''tokens_per_minute'' 1000000000 oid ids s) ts
       (oid, window_key ''tokens'' 60 now) n s"
  by (simp add: consume_tokens_def tenant.spend_def Let_def)

lemma limit_of_custom: "bs_custom s' = bs_custom s \<Longrightarrow> limit_of name d oid ids s' = limit_of name d oid ids s"
  by (simp add: limit_of_def get_subscription_def)

lemma custom_consume: "bs_custom (fst (consume_tokens ts now oid n ids s)) = bs_custom s"
  by (simp add: consume_tokens_def incr_meter_def record_usage_def Let_def)

definition consume_all ::
    "identity_state \<Rightarrow> (string \<times> int \<times> string \<times> rat) list \<Rightarrow> billing_state \<Rightarrow> billing_state" where
  "consume_all ids reqs s = fold (\<lambda>(ts, now, oid, n) s. fst (consume_tokens ts now oid n ids s)) reqs s"

text \<open>
  requests that are served one after the other never use more tokens in a minute than the
  plan of their organization allows, whichever organizations ask when and for how much.
\<close>

theorem token_budget_kept:
  assumes "get_meter oid (window_key ''tokens'' 60 t) s \<le> limit_of ''tokens_per_minute'' 1000000000 oid ids s"
  shows "get_meter oid (window_key ''tokens'' 60 t) (consume_all ids reqs s)
    \<le> limit_of ''tokens_per_minute'' 1000000000 oid ids s"
proof -
  let ?cap = "\<lambda>o' s :: billing_state. limit_of ''tokens_per_minute'' 1000000000 o' ids s"
  let ?P = "\<lambda>s'. get_meter oid (window_key ''tokens'' 60 t) s' \<le> ?cap oid s \<and> bs_custom s' = bs_custom s"
  have "?P (consume_all ids reqs s)"
    unfolding consume_all_def
  proof (rule fold_inv [where P = ?P])
    show "?P s" using assms by simp
  next
    fix r :: "string \<times> int \<times> string \<times> rat" and s' assume p: "?P s'"
    obtain ts now o' n where r: "r = (ts, now, o', n)" by (cases r)
    have "?cap o' s' = ?cap o' s" using p by (intro limit_of_custom) simp
    then have "get_meter oid (window_key ''tokens'' 60 t) (fst (consume_tokens ts now o' n ids s')) \<le> ?cap oid s"
      using p tenant.spend_bounded [of "(oid, window_key ''tokens'' 60 t)" s' "?cap oid s"
          "(o', window_key ''tokens'' 60 now)" "?cap o' s" ts n]
      by (simp add: consume_tokens_spend)
    then show "?P ((\<lambda>(ts, now, oid, n) s. fst (consume_tokens ts now oid n ids s)) r s')"
      using p by (simp add: r custom_consume)
  qed
  then show ?thesis by simp
qed

theorem token_budget_kept_witness:
  "get_meter ''o'' (window_key ''tokens'' 60 7)
     (consume_all empty_identity [([], 7, ''o'', 15000), ([], 8, ''o'', 15000)] empty_billing)
   \<le> limit_of ''tokens_per_minute'' 1000000000 ''o'' empty_identity empty_billing"
  by (rule token_budget_kept)
    (simp add: get_meter_def empty_billing_def limit_of_def get_subscription_def get_organization_def
      empty_identity_def)

section \<open>Invoices\<close>

definition price_in :: "(string, rat) dict \<Rightarrow> string \<Rightarrow> rat" where
  "price_in prices m = (case dget prices m of Some p \<Rightarrow> p | None \<Rightarrow> 0)"

definition worth :: "(string, rat) dict \<Rightarrow> (string, rat) dict \<Rightarrow> rat" where
  "worth prices totals = sum_list (map (\<lambda>(m, q). q * price_in prices m) totals)"

lemma worth_dput:
  "worth prices (dput m v d) =
     worth prices d + (v - (case dget d m of Some x \<Rightarrow> x | None \<Rightarrow> 0)) * price_in prices m"
  by (induction d) (auto simp: worth_def algebra_simps)

lemma worth_add_amount:
  "worth prices (add_amount r d) = worth prices d + ur_amount r * price_in prices (ur_metric r)"
  by (simp add: add_amount_def worth_dput)

lemma worth_totals:
  "worth prices (usage_totals oid s) =
     sum_list (map (\<lambda>r. ur_amount r * price_in prices (ur_metric r)) (usage_of oid s))"
proof -
  have "worth prices (fold add_amount rows d) =
      worth prices d + sum_list (map (\<lambda>r. ur_amount r * price_in prices (ur_metric r)) rows)" for rows d
    by (induction rows arbitrary: d) (simp_all add: worth_add_amount)
  from this [of "usage_of oid s" "[]"] show ?thesis by (simp add: usage_totals_def worth_def)
qed

lemma invoice_total_usage_lines: "invoice_total (usage_lines prices d) = worth prices d"
  by (induction d) (auto simp: invoice_total_def usage_lines_def worth_def price_in_def [abs_def] Let_def)

text \<open>
  an invoice from the usage of an organization bills exactly its recorded usage: its total is
  the rounded sum, over all recorded rows, of amount times price.
\<close>

theorem invoice_bills_usage:
  "inv_total_usd (snd (from_usage_snapshot iid now oid period prices s invs)) =
     py_round (sum_list (map (\<lambda>r. ur_amount r * price_in prices (ur_metric r)) (usage_of oid s))) 4"
proof (cases "usage_lines prices (usage_totals oid s)")
  case Nil
  then have "worth prices (usage_totals oid s) = 0"
    using invoice_total_usage_lines [of prices "usage_totals oid s"] by (simp add: invoice_total_def)
  with Nil show ?thesis
    by (simp add: from_usage_snapshot_def generate_invoice_def invoice_total_def worth_totals Let_def)
next
  case (Cons l ls)
  then show ?thesis
    using invoice_total_usage_lines [of prices "usage_totals oid s"]
    by (simp add: from_usage_snapshot_def generate_invoice_def worth_totals Let_def)
qed

text \<open>The cap on the rows of an organization forgets usage that has not been billed.\<close>

lemma usage_cap_forgets:
  assumes "length (usage_of oid s) = USAGE_CAP"
  shows "usage_of oid (record_usage now oid m a u meta s) =
    tl (usage_of oid s) @ [\<lparr>ur_ts = now, ur_metric = m, ur_amount = a, ur_unit = u, ur_meta = meta\<rparr>]"
proof -
  have "usage_of oid s \<noteq> []" using assms by (auto simp: USAGE_CAP_def)
  then show ?thesis
    using assms by (cases "usage_of oid s")
      (simp_all add: usage_of_def record_usage_def py_cap_def py_last_def USAGE_CAP_def split: option.splits)
qed

end
