(* ===== verification/Gateway.thy ===== *)
theory Gateway
  imports Billing
begin

text \<open>
  The tenant gateway: \<open>gateway/auth.py\<close>, \<open>gateway/api_gateway.py\<close> and the audit trail
  \<open>audit/*.py\<close>, on the identity store and the billing state, without Redis. The verdict of the
  token library is the argument \<open>jwt\<close>: the claims of a token that verifies. A claim that is not a
  string counts as absent, as the type checks of the source treat it. Identifiers, secrets and time
  stamps are arguments. An HTTP error is its status code with its detail.
\<close>

type_synonym http_error = "nat \<times> string"

section \<open>Audit trail\<close>

type_synonym audit_row = "(string \<times> json) list"

definition AUDIT_CAP :: nat where
  "AUDIT_CAP = 10000"

definition append_audit :: "string \<Rightarrow> audit_row \<Rightarrow> audit_row list \<Rightarrow> audit_row list" where
  "append_audit now event rows = py_cap AUDIT_CAP (rows @ [fold (\<lambda>(k, v). dput k v) event [(''ts'', JStr now)]])"

definition audit_query :: "string option \<Rightarrow> nat \<Rightarrow> audit_row list \<Rightarrow> audit_row list" where
  "audit_query oid limit rows =
     py_last limit
       (case truthy oid of
          Some o' \<Rightarrow> filter (\<lambda>x. dget x ''org_id'' = Some (JStr o')) rows
        | None \<Rightarrow> rows)"

definition log_security_event :: "string \<Rightarrow> string \<Rightarrow> audit_row \<Rightarrow> audit_row list \<Rightarrow> audit_row list" where
  "log_security_event now kind ctx rows =
     append_audit now ([(''type'', JStr ''security''), (''event'', JStr kind)] @ ctx) rows"

section \<open>Claims\<close>

record claims =
  cl_scope :: "string option"
  cl_org_id :: "string option"
  cl_sub :: "string option"
  cl_role :: "string option"

definition USER_SCOPE :: string where "USER_SCOPE = ''arsonist-user''"
definition API_KEY_SCOPE :: string where "API_KEY_SCOPE = ''arsonist-api-key''"

record subject =
  sub_scope :: string
  sub_org_id :: string
  sub_sub :: string
  sub_role :: "string option"

definition decode_v12_subject :: "(string \<Rightarrow> claims option) \<Rightarrow> string \<Rightarrow> subject option" where
  "decode_v12_subject jwt token =
     (case jwt token of
        None \<Rightarrow> None
      | Some c \<Rightarrow>
          (case cl_scope c of
             None \<Rightarrow> None
           | Some scope \<Rightarrow>
               if scope \<noteq> USER_SCOPE \<and> scope \<noteq> API_KEY_SCOPE then None
               else (case (cl_org_id c, cl_sub c) of
                       (Some oid, Some sub) \<Rightarrow>
                         Some \<lparr>sub_scope = scope, sub_org_id = oid, sub_sub = sub,
                               sub_role = (if scope = USER_SCOPE then cl_role c else None)\<rparr>
                     | _ \<Rightarrow> None)))"

text \<open>The claims of the tokens that the program issues.\<close>

definition user_claims :: "string \<Rightarrow> string \<Rightarrow> string \<Rightarrow> claims" where
  "user_claims uid oid r =
     \<lparr>cl_scope = Some USER_SCOPE, cl_org_id = Some oid, cl_sub = Some uid, cl_role = Some r\<rparr>"

definition api_key_claims :: "string \<Rightarrow> string \<Rightarrow> claims" where
  "api_key_claims oid tid =
     \<lparr>cl_scope = Some API_KEY_SCOPE, cl_org_id = Some oid, cl_sub = Some tid, cl_role = None\<rparr>"

section \<open>Bearer authentication\<close>

text \<open>The raw token of a bearer header.\<close>

definition bearer :: "string option \<Rightarrow> string option" where
  "bearer authorization =
     (case truthy authorization of
        None \<Rightarrow> None
      | Some h \<Rightarrow> if starts_with ''Bearer '' h then Some (py_strip (drop 7 h)) else None)"

record auth_result =
  ar_tenant :: "tenant_context option"
  ar_legacy_ok :: bool

definition authenticate_bearer ::
    "(string \<Rightarrow> string) \<Rightarrow> (string \<Rightarrow> claims option) \<Rightarrow> bool \<Rightarrow> string set \<Rightarrow> string option
      \<Rightarrow> identity_state \<Rightarrow> http_error + auth_result" where
  "authenticate_bearer sha jwt allow_legacy legacy_tokens authorization ids =
     (case bearer authorization of
        None \<Rightarrow> Inl (401, ''missing bearer token'')
      | Some raw \<Rightarrow>
          if starts_with ''sk_'' raw
          then (case verify_org_api_secret sha raw ids of
                  None \<Rightarrow> Inl (403, ''invalid api key'')
                | Some (oid, tid, name) \<Rightarrow>
                    Inr \<lparr>ar_tenant = Some \<lparr>tc_org_id = oid, tc_user_id = None, tc_token_id = Some tid,
                                          tc_role = None, tc_auth_kind = ''api_key''\<rparr>,
                         ar_legacy_ok = False\<rparr>)
          else (case decode_v12_subject jwt raw of
                  Some c \<Rightarrow>
                    Inr \<lparr>ar_tenant = Some
                           (if sub_scope c = API_KEY_SCOPE
                            then \<lparr>tc_org_id = sub_org_id c, tc_user_id = None,
                                  tc_token_id = Some (sub_sub c), tc_role = None,
                                  tc_auth_kind = ''jwt''\<rparr>
                            else \<lparr>tc_org_id = sub_org_id c, tc_user_id = Some (sub_sub c),
                                  tc_token_id = None,
                                  tc_role = Some (case truthy (sub_role c) of Some r \<Rightarrow> r | None \<Rightarrow> ''viewer''),
                                  tc_auth_kind = ''jwt''\<rparr>),
                         ar_legacy_ok = False\<rparr>
                | None \<Rightarrow>
                    if allow_legacy \<and> raw \<in> legacy_tokens
                    then Inr \<lparr>ar_tenant = None, ar_legacy_ok = True\<rparr>
                    else Inl (403, ''v12 requires org JWT or sk_ API key'')))"

datatype caller = UserCaller string | KeyCaller string

definition require_org_caller ::
    "(string \<Rightarrow> string) \<Rightarrow> (string \<Rightarrow> claims option) \<Rightarrow> string option \<Rightarrow> string \<Rightarrow> identity_state
      \<Rightarrow> http_error + caller" where
  "require_org_caller sha jwt authorization oid ids =
     (case bearer authorization of
        None \<Rightarrow> Inl (401, ''missing bearer token'')
      | Some raw \<Rightarrow>
          if starts_with ''sk_'' raw
          then (case verify_org_api_secret sha raw ids of
                  None \<Rightarrow> Inl (403, ''invalid org api key'')
                | Some (o', tid, name) \<Rightarrow>
                    if o' \<noteq> oid then Inl (403, ''invalid org api key'') else Inr (KeyCaller tid))
          else (case decode_v12_subject jwt raw of
                  None \<Rightarrow> Inl (403, ''org scope mismatch'')
                | Some c \<Rightarrow>
                    if sub_org_id c \<noteq> oid then Inl (403, ''org scope mismatch'')
                    else if sub_scope c = USER_SCOPE then Inr (UserCaller (sub_sub c))
                    else if sub_scope c = API_KEY_SCOPE then Inr (KeyCaller (sub_sub c))
                    else Inl (403, ''unsupported credential'')))"

definition require_user_for_org ::
    "(string \<Rightarrow> string) \<Rightarrow> (string \<Rightarrow> claims option) \<Rightarrow> string option \<Rightarrow> string \<Rightarrow> identity_state
      \<Rightarrow> http_error + string" where
  "require_user_for_org sha jwt authorization oid ids =
     (case require_org_caller sha jwt authorization oid ids of
        Inl e \<Rightarrow> Inl e
      | Inr (KeyCaller tid) \<Rightarrow> Inl (403, ''user session required'')
      | Inr (UserCaller uid) \<Rightarrow> Inr uid)"

text \<open>The check that the token and invoice endpoints share: a member whose role has a permission.\<close>

definition require_permission ::
    "(string \<Rightarrow> string) \<Rightarrow> (string \<Rightarrow> claims option) \<Rightarrow> string option \<Rightarrow> string \<Rightarrow> string \<Rightarrow> string
      \<Rightarrow> identity_state \<Rightarrow> http_error + string" where
  "require_permission sha jwt authorization oid permission detail ids =
     (case require_user_for_org sha jwt authorization oid ids of
        Inl e \<Rightarrow> Inl e
      | Inr uid \<Rightarrow>
          (case (if uid = [] then None else membership uid oid ids) of
             None \<Rightarrow> Inl (403, detail)
           | Some r \<Rightarrow> if has_permission r permission then Inr uid else Inl (403, detail)))"

section \<open>Endpoints\<close>

record gateway_state =
  gw_ids :: identity_state
  gw_billing :: billing_state
  gw_invoices :: "(string, invoice) dict"
  gw_audit :: "audit_row list"
  gw_windows :: "(string, rat list) dict"

record bootstrap_request =
  br_name :: string
  br_slug :: string
  br_owner_email :: string
  br_owner_password :: string
  br_owner_name :: string

record fresh_values =
  fv_org_id :: string
  fv_user_id :: string
  fv_salt :: string
  fv_random :: string
  fv_token_id :: string
  fv_now :: string

definition bootstrap_org ::
    "(string \<Rightarrow> string) \<Rightarrow> string \<Rightarrow> string option \<Rightarrow> bootstrap_request \<Rightarrow> fresh_values \<Rightarrow> gateway_state
      \<Rightarrow> http_error + gateway_state \<times> organization \<times> string \<times> string" where
  "bootstrap_org sha bootstrap_token authorization r v g =
     (if bootstrap_token = [] \<or> authorization \<noteq> Some (''Bearer '' @ bootstrap_token)
      then Inl (403, ''bootstrap forbidden'')
      else
        let (s1, org) = create_organization (fv_org_id v) (br_name r) (br_slug r) ''free'' (gw_ids g);
            (s2, u) = create_user sha (fv_user_id v) (fv_salt v) (br_owner_email r) (br_owner_name r)
                        (br_owner_password r) s1
        in case add_user_to_org (user_id u) (org_id org) Admin s2 of
             Inl (KeyError e) \<Rightarrow> Inl (500, e)
           | Inr (s3, status) \<Rightarrow>
               (case create_org_api_token sha (fv_random v) (fv_token_id v) (fv_now v) (org_id org)
                       ''primary'' s3 of
                  Inl (KeyError e) \<Rightarrow> Inl (500, e)
                | Inr (s4, tid, secret) \<Rightarrow>
                    Inr (g\<lparr>gw_ids := s4,
                           gw_audit := append_audit (fv_now v)
                             [(''type'', JStr ''org_bootstrap''), (''org_id'', JStr (org_id org)),
                              (''user_id'', JStr (user_id u))] (gw_audit g)\<rparr>,
                         org, user_id u, secret)))"

definition get_org ::
    "(string \<Rightarrow> string) \<Rightarrow> (string \<Rightarrow> claims option) \<Rightarrow> string option \<Rightarrow> string \<Rightarrow> gateway_state
      \<Rightarrow> http_error + organization \<times> (string, rat) dict" where
  "get_org sha jwt authorization oid g =
     (case require_org_caller sha jwt authorization oid (gw_ids g) of
        Inl e \<Rightarrow> Inl e
      | Inr c \<Rightarrow>
          (case get_organization oid (gw_ids g) of
             None \<Rightarrow> Inl (404, ''unknown org'')
           | Some org \<Rightarrow> Inr (org, snd (get_subscription oid (gw_ids g) (gw_billing g)))))"

definition post_invoice ::
    "(string \<Rightarrow> string) \<Rightarrow> (string \<Rightarrow> claims option) \<Rightarrow> string option \<Rightarrow> string \<Rightarrow> string \<Rightarrow> string
      \<Rightarrow> string \<Rightarrow> (string, rat) dict \<Rightarrow> gateway_state \<Rightarrow> http_error + gateway_state \<times> invoice" where
  "post_invoice sha jwt authorization oid iid now period prices g =
     (case require_permission sha jwt authorization oid BILLING_READ ''billing role required'' (gw_ids g) of
        Inl e \<Rightarrow> Inl e
      | Inr uid \<Rightarrow>
          let (invs, doc) = from_usage_snapshot iid now oid period prices (gw_billing g) (gw_invoices g)
          in Inr (g\<lparr>gw_invoices := invs\<rparr>, doc))"

definition tokens_list ::
    "(string \<Rightarrow> string) \<Rightarrow> (string \<Rightarrow> claims option) \<Rightarrow> string option \<Rightarrow> string \<Rightarrow> gateway_state
      \<Rightarrow> http_error + api_token list" where
  "tokens_list sha jwt authorization oid g =
     (case require_permission sha jwt authorization oid ORG_MANAGE ''admin required'' (gw_ids g) of
        Inl e \<Rightarrow> Inl e
      | Inr uid \<Rightarrow> Inr (list_org_tokens oid (gw_ids g)))"

definition tokens_create ::
    "(string \<Rightarrow> string) \<Rightarrow> (string \<Rightarrow> claims option) \<Rightarrow> string option \<Rightarrow> string \<Rightarrow> fresh_values
      \<Rightarrow> gateway_state \<Rightarrow> http_error + gateway_state \<times> string \<times> string" where
  "tokens_create sha jwt authorization oid v g =
     (case require_permission sha jwt authorization oid ORG_MANAGE ''admin required'' (gw_ids g) of
        Inl e \<Rightarrow> Inl e
      | Inr uid \<Rightarrow>
          (case create_org_api_token sha (fv_random v) (fv_token_id v) (fv_now v) oid ''manual'' (gw_ids g) of
             Inl (KeyError e) \<Rightarrow> Inl (500, e)
           | Inr (s, tid, secret) \<Rightarrow> Inr (g\<lparr>gw_ids := s\<rparr>, tid, secret)))"

definition tokens_del ::
    "(string \<Rightarrow> string) \<Rightarrow> (string \<Rightarrow> claims option) \<Rightarrow> string option \<Rightarrow> string \<Rightarrow> string
      \<Rightarrow> gateway_state \<Rightarrow> http_error + gateway_state" where
  "tokens_del sha jwt authorization oid tid g =
     (case require_permission sha jwt authorization oid ORG_MANAGE ''admin required'' (gw_ids g) of
        Inl e \<Rightarrow> Inl e
      | Inr uid \<Rightarrow>
          let (s, ok) = revoke_org_api_token_for_org oid tid (gw_ids g)
          in if \<not> ok then Inl (404, ''token not found'') else Inr (g\<lparr>gw_ids := s\<rparr>))"

fun role_name :: "role \<Rightarrow> string" where
  "role_name Admin = ''admin''"
| "role_name Dev = ''dev''"
| "role_name Billing = ''billing''"
| "role_name Viewer = ''viewer''"

text \<open>A login: on success the claims that the issued token carries.\<close>

definition open_session ::
    "(string \<Rightarrow> string) \<Rightarrow> string \<Rightarrow> string \<Rightarrow> string \<Rightarrow> string \<Rightarrow> gateway_state
      \<Rightarrow> gateway_state \<times> (http_error + claims)" where
  "open_session sha now email password oid g =
     (let u = get_user_by_email email (gw_ids g) in
      case (case u of None \<Rightarrow> None | Some x \<Rightarrow> if verify_password sha x password then Some x else None) of
        None \<Rightarrow> (g\<lparr>gw_audit := log_security_event now ''auth_failure'' [(''email'', JStr email)] (gw_audit g)\<rparr>,
                 Inl (401, ''invalid credentials''))
      | Some x \<Rightarrow>
          (case membership (user_id x) oid (gw_ids g) of
             None \<Rightarrow> (g, Inl (403, ''not a member of org''))
           | Some r \<Rightarrow>
               (g\<lparr>gw_audit := append_audit now [(''type'', JStr ''session''), (''org_id'', JStr oid),
                     (''user_id'', JStr (user_id x))] (gw_audit g)\<rparr>,
                Inr (user_claims (user_id x) oid (role_name r)))))"

definition get_audit ::
    "(string \<Rightarrow> string) \<Rightarrow> (string \<Rightarrow> claims option) \<Rightarrow> string option \<Rightarrow> string \<Rightarrow> gateway_state
      \<Rightarrow> http_error + audit_row list" where
  "get_audit sha jwt authorization oid g =
     (case require_org_caller sha jwt authorization oid (gw_ids g) of
        Inl e \<Rightarrow> Inl e
      | Inr c \<Rightarrow> Inr (audit_query (Some oid) 200 (gw_audit g)))"

section \<open>The middleware\<close>

datatype gateway_decision =
    Bypass
  | Legacy
  | Forward tenant_context
  | Refuse http_error

definition json_path :: "string \<Rightarrow> string \<times> json" where
  "json_path path = (''path'', JStr path)"

text \<open>
  What happens to a request before the application sees it. \<open>clock\<close> is the monotonic clock of the
  rate limit. Without Redis the concurrency check always passes.
\<close>

definition gateway_request ::
    "(string \<Rightarrow> string) \<Rightarrow> (string \<Rightarrow> claims option) \<Rightarrow> bool \<Rightarrow> string set \<Rightarrow> string \<Rightarrow> rat
      \<Rightarrow> string \<Rightarrow> string \<Rightarrow> string option \<Rightarrow> gateway_state \<Rightarrow> gateway_state \<times> gateway_decision" where
  "gateway_request sha jwt allow_legacy legacy now clock http_method path authorization g =
     (if \<not> (starts_with ''/v1'' path \<or> starts_with ''/v12'' path) then (g, Bypass)
      else if http_method = ''POST'' \<and> rstrip_slash path = ''/v12/orgs'' then (g, Bypass)
      else if starts_with ''/v12/session'' path then (g, Bypass)
      else case authenticate_bearer sha jwt allow_legacy legacy authorization (gw_ids g) of
        Inl e \<Rightarrow>
          (g\<lparr>gw_audit := log_security_event now ''auth_failure'' [json_path path] (gw_audit g)\<rparr>, Refuse e)
      | Inr res \<Rightarrow>
          (case ar_tenant res of
             None \<Rightarrow>
               (g\<lparr>gw_audit := append_audit now [(''type'', JStr ''gateway''), json_path path,
                    (''legacy'', JBool True)] (gw_audit g)\<rparr>, Legacy)
           | Some tenant \<Rightarrow>
               let oid = tc_org_id tenant;
                   rps = limit_of ''requests_per_sec'' 10 oid (gw_ids g) (gw_billing g);
                   (w, ok, n) = allow_request oid rps clock (gw_windows g);
                   g1 = g\<lparr>gw_windows := w\<rparr>
               in if \<not> ok
                  then (g1\<lparr>gw_audit := log_security_event now ''rate_limited''
                          [(''org_id'', JStr oid), (''n'', JNum n)] (gw_audit g1)\<rparr>,
                        Refuse (429, ''rate limit exceeded''))
                  else (g1, Forward tenant)))"

text \<open>The audit row of a forwarded request, once its response is known.\<close>

definition gateway_done ::
    "string \<Rightarrow> string \<Rightarrow> string \<Rightarrow> rat \<Rightarrow> rat \<Rightarrow> gateway_state \<Rightarrow> gateway_state" where
  "gateway_done now oid path dt_ms status g =
     g\<lparr>gw_audit := append_audit now [(''type'', JStr ''gateway''), (''org_id'', JStr oid), json_path path,
        (''latency_ms'', JNum (py_round dt_ms 3)), (''status'', JNum status)] (gw_audit g)\<rparr>"

section \<open>Who may do what\<close>

lemma require_permission_Inr:
  assumes "require_permission sha jwt auth oid perm detail ids = Inr uid"
  shows "uid \<noteq> [] \<and> user_can uid oid perm ids
    \<and> (\<exists>raw c. bearer auth = Some raw \<and> \<not> starts_with ''sk_'' raw \<and> decode_v12_subject jwt raw = Some c
         \<and> sub_org_id c = oid \<and> sub_scope c = USER_SCOPE \<and> sub_sub c = uid)"
  using assms
  by (auto simp: require_permission_def require_user_for_org_def require_org_caller_def user_can_def
      split: option.splits if_splits sum.splits caller.splits prod.splits)

text \<open>The tokens of every organization but one are the same in two stores.\<close>

definition same_tokens_but :: "string \<Rightarrow> identity_state \<Rightarrow> identity_state \<Rightarrow> bool" where
  "same_tokens_but oid s s' \<longleftrightarrow>
     (\<forall>tid rec. dget (st_api_tokens s) tid = Some rec \<longrightarrow> tok_org_id rec \<noteq> oid \<longrightarrow>
        dget (st_api_tokens s') tid = Some rec)"

text \<open>
  only a user whose session token names the organization and who is a member of it with the
  right to manage it revokes one of its tokens; the token is one of this organization, and the
  tokens of all other organizations stay as they are.
\<close>

theorem token_revocation_isolated:
  assumes "tokens_del sha jwt auth oid tid g = Inr g'"
  shows "(\<exists>uid raw c. user_can uid oid ORG_MANAGE (gw_ids g) \<and> bearer auth = Some raw
        \<and> decode_v12_subject jwt raw = Some c \<and> sub_org_id c = oid \<and> sub_sub c = uid)
    \<and> (\<exists>rec. dget (st_api_tokens (gw_ids g)) tid = Some rec \<and> tok_org_id rec = oid)
    \<and> token_dead tid (gw_ids g') \<and> same_tokens_but oid (gw_ids g) (gw_ids g')"
proof -
  obtain uid where uid: "require_permission sha jwt auth oid ORG_MANAGE ''admin required'' (gw_ids g) = Inr uid"
    and r: "revoke_org_api_token_for_org oid tid (gw_ids g) = (gw_ids g', True)"
    using assms by (auto simp: tokens_del_def Let_def case_prod_unfold prod_eq_iff split: sum.splits if_splits)
  obtain rec where rec: "dget (st_api_tokens (gw_ids g)) tid = Some rec" "tok_org_id rec = oid"
    "revoke_org_api_token tid (gw_ids g) = (gw_ids g', True)"
    using r by (auto simp: revoke_org_api_token_for_org_def split: option.splits if_splits)
  have "st_api_tokens (fst (revoke_org_api_token tid (gw_ids g)))
      = dput tid (rec\<lparr>tok_revoked := True\<rparr>) (st_api_tokens (gw_ids g))"
    by (simp add: revoke_org_api_token_def rec(1))
  then have "st_api_tokens (gw_ids g') = dput tid (rec\<lparr>tok_revoked := True\<rparr>) (st_api_tokens (gw_ids g))"
    by (simp add: rec(3))
  then have "token_dead tid (gw_ids g')" "same_tokens_but oid (gw_ids g) (gw_ids g')"
    using rec by (auto simp: token_dead_def same_tokens_but_def)
  with require_permission_Inr [OF uid] rec show ?thesis by blast
qed

definition sample_gateway :: gateway_state where
  "sample_gateway =
     \<lparr>gw_ids = one_token\<lparr>st_memberships := [(''o'', [(''u'', Admin)])]\<rparr>, gw_billing = empty_billing,
      gw_invoices = [], gw_audit = [], gw_windows = []\<rparr>"

definition sample_jwt :: "string \<Rightarrow> claims option" where
  "sample_jwt tok = (if tok = ''J'' then Some (user_claims ''u'' ''o'' ''admin'') else None)"

lemma sample_bearer: "bearer (Some ''Bearer J'') = Some ''J''"
  by (simp add: bearer_def truthy_def starts_with_def py_strip_def is_space_def)

theorem token_revocation_isolated_witness:
  "\<exists>g'. tokens_del (\<lambda>x. x) sample_jwt (Some ''Bearer J'') ''o'' ''t'' sample_gateway = Inr g'
     \<and> token_dead ''t'' (gw_ids g')"
proof -
  obtain g' where r: "tokens_del (\<lambda>x. x) sample_jwt (Some ''Bearer J'') ''o'' ''t'' sample_gateway = Inr g'"
    by (simp add: tokens_del_def require_permission_def require_user_for_org_def require_org_caller_def
        sample_bearer starts_with_def decode_v12_subject_def sample_jwt_def user_claims_def
        sample_gateway_def membership_def has_permission_def one_token_def
        revoke_org_api_token_for_org_def revoke_org_api_token_def)
  from token_revocation_isolated [OF r] r show ?thesis by blast
qed

text \<open>
  revoking an API token does not reach the JWT that stands for it: the gateway goes on
  accepting that JWT for the organization, because its check never looks at the token store.
\<close>

theorem key_jwt_survives_revocation:
  assumes "bearer auth = Some raw" "\<not> starts_with ''sk_'' raw" "jwt raw = Some (api_key_claims oid tid)"
  shows "require_org_caller sha jwt auth oid (fst (revoke_org_api_token tid ids)) = Inr (KeyCaller tid)"
  using assms
  by (simp add: require_org_caller_def decode_v12_subject_def api_key_claims_def USER_SCOPE_def
      API_KEY_SCOPE_def)

theorem key_jwt_survives_revocation_witness:
  "require_org_caller (\<lambda>x. x) (\<lambda>_. Some (api_key_claims ''o'' ''t'')) (Some ''Bearer J'') ''o''
     (fst (revoke_org_api_token ''t'' one_token)) = Inr (KeyCaller ''t'')"
  by (rule key_jwt_survives_revocation [OF sample_bearer]) (simp_all add: starts_with_def)

text \<open>The secret itself is refused from the revocation on.\<close>

lemma revoked_secret_refused:
  assumes "dget (st_api_tokens ids) tid \<noteq> None"
  shows "require_org_caller sha jwt (Some (''Bearer '' @ secret)) oid (fst (revoke_org_api_token tid ids))
    = Inr (KeyCaller tid) \<Longrightarrow> \<not> starts_with ''sk_'' (py_strip secret)"
proof -
  have "token_dead tid (fst (revoke_org_api_token tid ids))"
    using assms by (auto simp: token_dead_def revoke_org_api_token_def)
  then show "require_org_caller sha jwt (Some (''Bearer '' @ secret)) oid (fst (revoke_org_api_token tid ids))
    = Inr (KeyCaller tid) \<Longrightarrow> \<not> starts_with ''sk_'' (py_strip secret)"
    using dead_not_verified [of tid "fst (revoke_org_api_token tid ids)" sha "py_strip secret"]
    by (auto simp: require_org_caller_def bearer_def truthy_def starts_with_def
        split: option.splits if_splits prod.splits)
qed

text \<open>Billing a period takes no more than the right to read the bills, which every viewer has.\<close>

lemma viewer_can_invoice:
  assumes "require_user_for_org sha jwt auth oid (gw_ids g) = Inr uid" "uid \<noteq> []"
    and "membership uid oid (gw_ids g) = Some Viewer"
  shows "\<exists>g' doc. post_invoice sha jwt auth oid iid now period prices g = Inr (g', doc)
    \<and> dget (gw_invoices g') iid = Some doc"
  using assms
  by (auto simp: post_invoice_def require_permission_def has_permission_def from_usage_snapshot_def
      generate_invoice_def Let_def)

lemma user_claims_accepted:
  "\<lbrakk>bearer auth = Some raw; \<not> starts_with ''sk_'' raw; jwt raw = Some (user_claims uid oid r)\<rbrakk> \<Longrightarrow>
     require_org_caller sha jwt auth oid ids = Inr (UserCaller uid)"
  by (simp add: require_org_caller_def decode_v12_subject_def user_claims_def)

text \<open>The session of a member carries the role of the membership, and opens the gateway.\<close>

lemma session_claims_accepted:
  assumes "snd (open_session sha now email password oid g) = Inr c" "jwt raw = Some c"
    and "bearer auth = Some raw" "\<not> starts_with ''sk_'' raw"
  shows "\<exists>u. get_user_by_email email (gw_ids g) = Some u \<and> verify_password sha u password
    \<and> require_org_caller sha jwt auth oid (gw_ids g) = Inr (UserCaller (user_id u))"
  using assms
  by (auto simp: open_session_def Let_def user_claims_accepted split: option.splits if_splits)

end
