(* ===== verification/Federation.thy ===== *)
theory Federation
  imports Prelude
begin

text \<open>
  The federation controller: its persistent registry (\<open>federation/registry.py\<close>,
  \<open>federation/federation_models.py\<close>), the heartbeats of the clusters (\<open>federation/heartbeat.py\<close>),
  the routing of global jobs (\<open>global_scheduler/cross_cluster_scheduler.py\<close>,
  \<open>federation/router.py\<close>), failover (\<open>federation/failover.py\<close>) and the request handlers of
  \<open>federation/controller.py\<close> after their authentication (theory Signatures). A table is a
  dictionary over its primary key; the place of a replaced row does not matter, because every
  listing sorts. A log line is the pair of its time and its text; one reading of the clock serves
  one call. What a push to a cluster answers is an argument: \<open>None\<close> or the error text.
\<close>

section \<open>Data\<close>

datatype cluster_health = HHealthy | HDegraded | HOffline | HUnknown

record cluster_registration =
  cl_id :: string
  cl_region :: string
  cl_url :: string
  cl_api_token :: string
  cl_node_count :: int
  cl_gpu_capacity :: int
  cl_current_load :: rat
  cl_queue_depth :: int
  cl_avg_latency_ms :: rat
  cl_health :: cluster_health

record cluster = cluster_registration +
  cl_last_heartbeat :: pyfloat
  cl_registered_at :: pyfloat
  cl_misses :: int

datatype gj_status = GQueued | GRouted | GRunning | GCompleted | GFailed | GMigrated

record global_job =
  gj_id :: string
  gj_type :: string
  gj_task :: string
  gj_required_nodes :: int
  gj_power :: string
  gj_gpu_required :: bool
  gj_status :: gj_status
  gj_origin :: "string option"
  gj_preferred_region :: "string option"
  gj_assigned :: "string option"
  gj_logs :: "(pyfloat \<times> string) list"
  gj_result :: "json option"
  gj_created_at :: pyfloat
  gj_updated_at :: pyfloat

record federation =
  fed_clusters :: "(string, cluster) dict"
  fed_jobs :: "(string, global_job) dict"
  fed_kv :: "(string, int) dict"
  fed_events :: "(pyfloat \<times> string \<times> json) list"

definition empty_federation :: federation where
  "empty_federation = \<lparr>fed_clusters = [], fed_jobs = [], fed_kv = [], fed_events = []\<rparr>"

section \<open>The registry\<close>

definition upsert_cluster :: "cluster \<Rightarrow> federation \<Rightarrow> federation" where
  "upsert_cluster c f = f\<lparr>fed_clusters := dput (cl_id c) c (fed_clusters f)\<rparr>"

definition get_cluster :: "string \<Rightarrow> federation \<Rightarrow> cluster option" where
  "get_cluster cid f = dget (fed_clusters f) cid"

definition list_clusters :: "federation \<Rightarrow> cluster list" where
  "list_clusters f = map snd (sort_key fst (fed_clusters f))"

definition delete_cluster :: "string \<Rightarrow> federation \<Rightarrow> federation" where
  "delete_cluster cid f = f\<lparr>fed_clusters := ddel cid (fed_clusters f)\<rparr>"

definition save_global_job :: "pyfloat \<Rightarrow> global_job \<Rightarrow> federation \<Rightarrow> federation" where
  "save_global_job t j f = f\<lparr>fed_jobs := dput (gj_id j) (j\<lparr>gj_updated_at := t\<rparr>) (fed_jobs f)\<rparr>"

definition get_global_job :: "string \<Rightarrow> federation \<Rightarrow> global_job option" where
  "get_global_job jid f = dget (fed_jobs f) jid"

definition list_global_jobs :: "gj_status option \<Rightarrow> federation \<Rightarrow> global_job list" where
  "list_global_jobs status f =
     (let jobs = sort_desc gj_updated_at (dvalues (fed_jobs f))
      in case status of None \<Rightarrow> jobs | Some st \<Rightarrow> filter (\<lambda>j. gj_status j = st) jobs)"

definition get_metric :: "string \<Rightarrow> federation \<Rightarrow> int" where
  "get_metric key f = (case dget (fed_kv f) key of Some v \<Rightarrow> v | None \<Rightarrow> 0)"

definition increment_metric :: "string \<Rightarrow> int \<Rightarrow> federation \<Rightarrow> federation \<times> int" where
  "increment_metric key delta f =
     (let nxt = get_metric key f + delta in (f\<lparr>fed_kv := dput key nxt (fed_kv f)\<rparr>, nxt))"

definition emit_event :: "pyfloat \<Rightarrow> string \<Rightarrow> json \<Rightarrow> federation \<Rightarrow> federation" where
  "emit_event t ty details f = f\<lparr>fed_events := fed_events f @ [(t, ty, details)]\<rparr>"

definition recent_events :: "nat \<Rightarrow> federation \<Rightarrow> (pyfloat \<times> string \<times> json) list" where
  "recent_events limit f = take limit (rev (fed_events f))"

section \<open>Scoring and routing\<close>

fun health_weight :: "cluster_health \<Rightarrow> rat" where
  "health_weight HHealthy = 20 / 100"
| "health_weight HDegraded = 10 / 100"
| "health_weight HUnknown = 5 / 100"
| "health_weight HOffline = 0"

definition score_cluster :: "global_job \<Rightarrow> cluster \<Rightarrow> rat" where
  "score_cluster j c =
     (if cl_health c = HOffline then - 1
      else let load_penalty = cl_current_load c * (35 / 100);
               queue_penalty = of_int (min (cl_queue_depth c) 500) / 500 * (22 / 100);
               latency_component = max 0 (1 - min (cl_avg_latency_ms c) 3000 / 3000) * (18 / 100);
               gpu_bonus = (if gj_gpu_required j
                            then of_int (min (cl_gpu_capacity c) 64) / 64 * (40 / 100)
                            else of_int (min (cl_gpu_capacity c) 64) / 64 * (10 / 100));
               node_capacity = of_int (min (cl_node_count c) 100) / 100 * (5 / 100);
               region_bonus = (case truthy (gj_preferred_region j) of
                   None \<Rightarrow> 0
                 | Some r \<Rightarrow> if cl_region c \<noteq> [] \<and> py_lower (py_strip r) = py_lower (py_strip (cl_region c))
                             then 12 / 100 else 0)
           in py_round (1 - load_penalty - queue_penalty + latency_component + gpu_bonus
                + health_weight (cl_health c) + node_capacity + region_bonus) 6)"

definition rank_clusters :: "global_job \<Rightarrow> cluster list \<Rightarrow> (cluster \<times> rat) list" where
  "rank_clusters j cs =
     sort_desc snd
       (filter (\<lambda>(c, s). \<not> s < 0)
         (map (\<lambda>c. (c, score_cluster j c)) (filter (\<lambda>c. cl_health c \<noteq> HOffline) cs)))"

definition best_cluster :: "global_job \<Rightarrow> cluster list \<Rightarrow> cluster option \<times> (string \<times> string \<times> rat) list" where
  "best_cluster j cs =
     (let ranked = rank_clusters j cs
      in (if ranked = [] then None else Some (fst (hd ranked)),
          map (\<lambda>(c, s). (cl_id c, cl_region c, s)) ranked))"

text \<open>The target, empty when there is none, and its score.\<close>

definition decide_route :: "federation \<Rightarrow> global_job \<Rightarrow> string \<times> rat \<times> (string \<times> string \<times> rat) list" where
  "decide_route f j =
     (let healthy = filter (\<lambda>c. cl_health c \<noteq> HOffline) (list_clusters f);
          (target, ranked) = best_cluster j healthy
      in case target of
           None \<Rightarrow> ([], 0, ranked)
         | Some c \<Rightarrow> (cl_id c, if ranked = [] then 0 else snd (snd (hd ranked)), ranked))"

section \<open>Heartbeats\<close>

record fed_heartbeat =
  fh_cluster_id :: string
  fh_node_count :: int
  fh_gpu_capacity :: int
  fh_current_load :: rat
  fh_queue_depth :: int
  fh_avg_latency_ms :: rat
  fh_health :: cluster_health

fun health_name :: "cluster_health \<Rightarrow> string" where
  "health_name HHealthy = ''healthy''"
| "health_name HDegraded = ''degraded''"
| "health_name HOffline = ''offline''"
| "health_name HUnknown = ''unknown''"

datatype fed_error = UnknownCluster | NotFound string | Conflict_url string | Unreachable string
  | Disappeared

definition apply_heartbeat ::
    "pyfloat \<Rightarrow> fed_heartbeat \<Rightarrow> federation \<Rightarrow> fed_error + federation \<times> cluster" where
  "apply_heartbeat t p f =
     (case get_cluster (fh_cluster_id p) f of
        None \<Rightarrow> Inl UnknownCluster
      | Some c \<Rightarrow>
          let rec = c\<lparr>cl_node_count := fh_node_count p, cl_gpu_capacity := fh_gpu_capacity p,
                      cl_current_load := fh_current_load p, cl_queue_depth := fh_queue_depth p,
                      cl_avg_latency_ms := fh_avg_latency_ms p, cl_health := fh_health p,
                      cl_last_heartbeat := t, cl_misses := 0\<rparr>;
              f1 = upsert_cluster rec f
          in Inr (if cl_health c = HOffline \<and> fh_health p \<noteq> HOffline
                  then emit_event t ''cluster_recovered''
                         (JObj [(''cluster_id'', JStr (fh_cluster_id p)),
                                (''health_state'', JStr (health_name (fh_health p)))]) f1
                  else f1, rec))"

text \<open>One cluster of the sweep: the registry and the ids that went offline.\<close>

definition sweep_cluster ::
    "pyfloat \<Rightarrow> pyfloat \<Rightarrow> cluster \<Rightarrow> federation \<times> string list \<Rightarrow> federation \<times> string list" where
  "sweep_cluster now timeout c fo =
     (if cl_health c = HOffline \<or> cl_last_heartbeat c \<le> 0 then fo
      else if now - cl_last_heartbeat c > timeout
      then (emit_event now ''cluster_offline''
              (JObj [(''cluster_id'', JStr (cl_id c)), (''last_heartbeat'', JNum (cl_last_heartbeat c)),
                     (''timeout_sec'', JNum timeout)])
              (upsert_cluster (c\<lparr>cl_health := HOffline, cl_misses := cl_misses c + 1\<rparr>) (fst fo)),
            snd fo @ [cl_id c])
      else fo)"

definition sweep_stale_clusters :: "pyfloat \<Rightarrow> pyfloat \<Rightarrow> federation \<Rightarrow> federation \<times> string list" where
  "sweep_stale_clusters now timeout f = fold (sweep_cluster now timeout) (list_clusters f) (f, [])"

definition revive_cluster_if_heartbeat :: "string \<Rightarrow> federation \<Rightarrow> federation" where
  "revive_cluster_if_heartbeat cid f =
     (case get_cluster cid f of
        None \<Rightarrow> f
      | Some c \<Rightarrow> if cl_health c = HOffline then upsert_cluster (c\<lparr>cl_health := HDegraded\<rparr>) f else f)"

section \<open>Failover\<close>

definition active_status :: "gj_status \<Rightarrow> bool" where
  "active_status st \<longleftrightarrow> st = GQueued \<or> st = GRouted \<or> st = GRunning \<or> st = GMigrated"

definition reroute_job ::
    "pyfloat \<Rightarrow> string \<Rightarrow> cluster list \<Rightarrow> global_job
      \<Rightarrow> federation \<times> (global_job \<times> cluster) list \<Rightarrow> federation \<times> (global_job \<times> cluster) list" where
  "reroute_job t dead others j fp =
     (if gj_assigned j \<noteq> Some dead then fp
      else if \<not> active_status (gj_status j) then fp
      else let g = j\<lparr>gj_logs := gj_logs j @ [(t, ''failover from '' @ dead)]\<rparr>
           in case fst (best_cluster g others) of
                None \<Rightarrow> (save_global_job t (g\<lparr>gj_status := GQueued, gj_assigned := None\<rparr>) (fst fp), snd fp)
              | Some c \<Rightarrow>
                  let g1 = g\<lparr>gj_assigned := Some (cl_id c), gj_status := GMigrated,
                             gj_logs := gj_logs g @ [(t, ''rerouted to '' @ cl_id c @ '' (failover)'')]\<rparr>
                  in (fst (increment_metric ''failover_reroutes_total'' 1
                        (save_global_job t g1 (fst fp))),
                      snd fp @ [(g1\<lparr>gj_updated_at := t\<rparr>, c)]))"

definition reroute_jobs_from_dead_cluster ::
    "pyfloat \<Rightarrow> string \<Rightarrow> federation \<Rightarrow> federation \<times> (global_job \<times> cluster) list" where
  "reroute_jobs_from_dead_cluster t dead f =
     (let others = filter (\<lambda>c. cl_id c \<noteq> dead \<and> cl_health c \<noteq> HOffline) (list_clusters f);
          (f1, pushes) = fold (reroute_job t dead others) (list_global_jobs None f) (f, []);
          f2 = emit_event t ''failover''
                 (JObj [(''ts'', JNum t), (''dead_cluster_id'', JStr dead),
                        (''jobs_rerouted'', JNum (of_nat (length pushes))), (''detail'', JStr [])]) f1
      in (fst (increment_metric ''failover_events_total'' 1 f2), pushes))"

text \<open>
  One turn of the watch loop. The pushes to the new clusters follow each failover; an error there
  is only logged and leaves the registry alone.
\<close>

definition federation_watch_once :: "pyfloat \<Rightarrow> pyfloat \<Rightarrow> federation \<Rightarrow> federation \<times> string list" where
  "federation_watch_once t timeout f =
     (let (f1, dead) = sweep_stale_clusters t timeout f
      in (fold (\<lambda>cid f. fst (reroute_jobs_from_dead_cluster t cid f)) dead f1, dead))"

section \<open>Request handlers\<close>

definition require_federation_token :: "string \<Rightarrow> string option \<Rightarrow> (nat \<times> string) option" where
  "require_federation_token api_token authorization =
     (if api_token = [] then None
      else case truthy authorization of
        None \<Rightarrow> Some (401, ''missing bearer token'')
      | Some h \<Rightarrow>
          if \<not> starts_with ''Bearer '' h then Some (401, ''missing bearer token'')
          else if py_strip (drop 7 h) \<noteq> api_token then Some (403, ''invalid token'') else None)"

definition normalize_cp_url :: "string \<Rightarrow> string" where
  "normalize_cp_url url = py_lower (rstrip_slash url)"

definition register_cluster ::
    "pyfloat \<Rightarrow> cluster_registration \<Rightarrow> federation \<Rightarrow> fed_error + federation" where
  "register_cluster t r f =
     (case List.find (\<lambda>c. cl_id c \<noteq> cl_id r \<and> normalize_cp_url (cl_url c) = normalize_cp_url (cl_url r))
             (list_clusters f) of
        Some c \<Rightarrow> Inl (Conflict_url (cl_id c))
      | None \<Rightarrow>
          let c = cluster_registration.extend r
                (cluster.fields t (case get_cluster (cl_id r) f of Some e \<Rightarrow> cl_registered_at e | None \<Rightarrow> t) 0)
          in Inr (emit_event t ''cluster_register''
                   (JObj [(''cluster_id'', JStr (cl_id r)), (''region'', JStr (cl_region r))])
                   (upsert_cluster c f)))"

record submit_body =
  sb_id :: "string option"
  sb_type :: string
  sb_task :: string
  sb_required_nodes :: int
  sb_power :: string
  sb_gpu_required :: bool
  sb_origin :: "string option"
  sb_preferred_region :: "string option"

definition new_global_job :: "pyfloat \<Rightarrow> string \<Rightarrow> submit_body \<Rightarrow> global_job" where
  "new_global_job t fresh b =
     \<lparr>gj_id = (case truthy (sb_id b) of Some i \<Rightarrow> i | None \<Rightarrow> fresh), gj_type = sb_type b,
      gj_task = sb_task b, gj_required_nodes = sb_required_nodes b, gj_power = sb_power b,
      gj_gpu_required = sb_gpu_required b, gj_status = GQueued, gj_origin = sb_origin b,
      gj_preferred_region = sb_preferred_region b, gj_assigned = None,
      gj_logs = [(t, ''accepted by federation'')], gj_result = None, gj_created_at = t,
      gj_updated_at = t\<rparr>"

datatype submit_response = SubmittedQueued | SubmittedRouted string rat

definition submit_global_job ::
    "pyfloat \<Rightarrow> string \<Rightarrow> (string \<Rightarrow> string option) \<Rightarrow> submit_body \<Rightarrow> federation
      \<Rightarrow> federation \<times> (fed_error + submit_response)" where
  "submit_global_job t fresh push b f =
     (let gj = new_global_job t fresh b;
          f1 = save_global_job t gj f;
          (target, score, ranked) = decide_route f1 gj
      in if target = [] then (f1, Inr SubmittedQueued)
         else let routed = gj\<lparr>gj_assigned := Some target, gj_status := GRouted,
                             gj_logs := gj_logs gj @ [(t, ''routed to '' @ target)]\<rparr>;
                  f2 = save_global_job t routed f1
              in case get_cluster target f2 of
                   None \<Rightarrow> (f2, Inl Disappeared)
                 | Some c \<Rightarrow>
                     (case push (cl_id c) of
                        None \<Rightarrow> (fst (increment_metric ''cross_cluster_transfers_total'' 1 f2),
                                 Inr (SubmittedRouted target score))
                      | Some err \<Rightarrow>
                          (save_global_job t (routed\<lparr>gj_status := GQueued, gj_assigned := None,
                             gj_logs := gj_logs routed @ [(t, ''route push failed: '' @ err)]\<rparr>) f2,
                           Inl (Unreachable err))))"

definition global_job_complete ::
    "pyfloat \<Rightarrow> string \<Rightarrow> string \<Rightarrow> bool \<Rightarrow> json option \<Rightarrow> federation \<Rightarrow> fed_error + federation" where
  "global_job_complete t jid cid ok result f =
     (case get_global_job jid f of
        None \<Rightarrow> Inl (NotFound jid)
      | Some j \<Rightarrow>
          Inr (save_global_job t
                 (j\<lparr>gj_status := (if ok then GCompleted else GFailed),
                    gj_result := Some (case result of Some r \<Rightarrow> r | None \<Rightarrow> JObj []),
                    gj_logs := gj_logs j @ [(t, ''completed by '' @ cid @ '' ok='' @ (if ok then ''True'' else ''False''))]\<rparr>) f))"

section \<open>Failover leaves nothing behind\<close>

definition assigned_active :: "string \<Rightarrow> federation \<Rightarrow> bool" where
  "assigned_active cid f \<longleftrightarrow>
     (\<exists>j \<in> set (dvalues (fed_jobs f)). gj_assigned j = Some cid \<and> active_status (gj_status j))"

lemma fed_ops_frame [simp]:
  "fed_clusters (save_global_job t j f) = fed_clusters f"
  "fed_clusters (emit_event t ty d f) = fed_clusters f"
  "fed_jobs (emit_event t ty d f) = fed_jobs f"
  "fed_clusters (fst (increment_metric k n f)) = fed_clusters f"
  "fed_jobs (fst (increment_metric k n f)) = fed_jobs f"
  "fed_jobs (upsert_cluster c f) = fed_jobs f"
  "fed_clusters (upsert_cluster c f) = dput (cl_id c) c (fed_clusters f)"
  "fed_jobs (save_global_job t j f) = dput (gj_id j) (j\<lparr>gj_updated_at := t\<rparr>) (fed_jobs f)"
  by (simp_all add: save_global_job_def emit_event_def increment_metric_def upsert_cluster_def Let_def)

lemma best_cluster_in: "fst (best_cluster j cs) = Some c \<Longrightarrow> c \<in> set cs \<and> cl_health c \<noteq> HOffline"
proof -
  assume b: "fst (best_cluster j cs) = Some c"
  then have "rank_clusters j cs \<noteq> []" "c = fst (hd (rank_clusters j cs))"
    by (auto simp: best_cluster_def Let_def split: if_splits)
  then have "(c, snd (hd (rank_clusters j cs))) \<in> set (rank_clusters j cs)" by simp
  then show ?thesis by (auto simp: rank_clusters_def)
qed

definition fed_ok :: "federation \<Rightarrow> bool" where
  "fed_ok f \<longleftrightarrow> keyed cl_id (fed_clusters f) \<and> keyed gj_id (fed_jobs f)"

text \<open>What rerouting one job stores: nothing, or the job with a live assignment or none.\<close>

lemma reroute_job_cases:
  obtains (skip) "reroute_job t dead others j fp = fp"
      "gj_assigned j \<noteq> Some dead \<or> \<not> active_status (gj_status j)"
  | (moved) g where "gj_id g = gj_id j" "gj_assigned j = Some dead" "active_status (gj_status j)"
      "fed_jobs (fst (reroute_job t dead others j fp)) = dput (gj_id j) g (fed_jobs (fst fp))"
      "fed_clusters (fst (reroute_job t dead others j fp)) = fed_clusters (fst fp)"
      "gj_assigned g = None \<or> (\<exists>c \<in> set others. gj_assigned g = Some (cl_id c))"
proof (cases "gj_assigned j \<noteq> Some dead \<or> \<not> active_status (gj_status j)")
  case True
  then show ?thesis by (intro skip) (auto simp: reroute_job_def)
next
  case False
  let ?g = "j\<lparr>gj_logs := gj_logs j @ [(t, ''failover from '' @ dead)]\<rparr>"
  show ?thesis
  proof (cases "fst (best_cluster ?g others)")
    case None
    with False show ?thesis
      by (intro moved [of "?g\<lparr>gj_status := GQueued, gj_assigned := None, gj_updated_at := t\<rparr>"])
        (simp_all add: reroute_job_def Let_def)
  next
    case (Some c)
    with best_cluster_in [OF Some] False show ?thesis
      by (intro moved [of "?g\<lparr>gj_assigned := Some (cl_id c), gj_status := GMigrated,
            gj_logs := gj_logs ?g @ [(t, ''rerouted to '' @ cl_id c @ '' (failover)'')],
            gj_updated_at := t\<rparr>"])
        (auto simp: reroute_job_def Let_def)
  qed
qed

lemma reroute_fold:
  assumes "keyed gj_id (fed_jobs (fst fp))"
    and "x \<in> set (dvalues (fed_jobs (fst (fold (reroute_job t dead others) js fp))))"
  shows "(x \<in> set (dvalues (fed_jobs (fst fp)))
        \<and> \<not> (\<exists>j \<in> set js. gj_id j = gj_id x \<and> gj_assigned j = Some dead \<and> active_status (gj_status j)))
    \<or> gj_assigned x = None \<or> (\<exists>c \<in> set others. gj_assigned x = Some (cl_id c))"
  using assms
proof (induction js arbitrary: fp)
  case (Cons j js)
  let ?fp = "reroute_job t dead others j fp"
  have step: "keyed gj_id (fed_jobs (fst ?fp))
    \<and> (x \<in> set (dvalues (fed_jobs (fst ?fp))) \<longrightarrow>
        (x \<in> set (dvalues (fed_jobs (fst fp)))
          \<and> \<not> (gj_id j = gj_id x \<and> gj_assigned j = Some dead \<and> active_status (gj_status j)))
        \<or> gj_assigned x = None \<or> (\<exists>c \<in> set others. gj_assigned x = Some (cl_id c)))"
  proof (cases rule: reroute_job_cases [of t dead others j fp])
    case skip
    with Cons.prems(1) show ?thesis by auto
  next
    case (moved g)
    have w: "dwf (fed_jobs (fst fp))" using Cons.prems(1) by (simp add: keyed_def)
    have k: "gj_id (snd p) = fst p" if "p \<in> set (fed_jobs (fst fp))" for p
      using Cons.prems(1) that by (simp add: keyed_def)
    show ?thesis
      using moved Cons.prems(1) k by (auto simp: set_dput [OF w] image_iff keyed_dput) force+
  qed
  from Cons.IH [of ?fp] step Cons.prems(2) show ?case by auto
qed simp

lemma reroute_fold_frame:
  "keyed gj_id (fed_jobs (fst fp)) \<Longrightarrow>
     fed_clusters (fst (fold (reroute_job t dead others) js fp)) = fed_clusters (fst fp)
     \<and> keyed gj_id (fed_jobs (fst (fold (reroute_job t dead others) js fp)))"
proof (induction js arbitrary: fp)
  case (Cons j js)
  have "fed_clusters (fst (reroute_job t dead others j fp)) = fed_clusters (fst fp)
      \<and> keyed gj_id (fed_jobs (fst (reroute_job t dead others j fp)))"
    using Cons.prems by (cases rule: reroute_job_cases [of t dead others j fp]) auto
  with Cons.IH [of "reroute_job t dead others j fp"] show ?case by simp
qed simp

lemma set_list_clusters [simp]: "set (list_clusters f) = set (dvalues (fed_clusters f))"
  by (simp add: list_clusters_def)

lemma set_list_jobs [simp]: "set (list_global_jobs None f) = set (dvalues (fed_jobs f))"
  by (simp add: list_global_jobs_def Let_def)

text \<open>
  Failover of one cluster: the clusters stay, no active job is left on the dead cluster, and no
  cluster that is offline or dead gets a job it did not have.
\<close>

lemma reroute_spec:
  fixes t dead
  assumes "keyed gj_id (fed_jobs f)"
  defines "f' \<equiv> fst (reroute_jobs_from_dead_cluster t dead f)"
  shows "fed_clusters f' = fed_clusters f" "keyed gj_id (fed_jobs f')"
    "\<not> assigned_active dead f'"
    "(\<forall>c \<in> set (dvalues (fed_clusters f)). cl_id c = cid \<longrightarrow> cl_health c = HOffline) \<Longrightarrow>
       assigned_active cid f' \<Longrightarrow> assigned_active cid f"
proof -
  let ?others = "filter (\<lambda>c. cl_id c \<noteq> dead \<and> cl_health c \<noteq> HOffline) (list_clusters f)"
  let ?r = "fold (reroute_job t dead ?others) (list_global_jobs None f) (f, [])"
  have jobs: "fed_jobs f' = fed_jobs (fst ?r)" and cl: "fed_clusters f' = fed_clusters (fst ?r)"
    by (simp_all add: f'_def reroute_jobs_from_dead_cluster_def Let_def case_prod_unfold)
  show "fed_clusters f' = fed_clusters f" "keyed gj_id (fed_jobs f')"
    using reroute_fold_frame [of "(f, [])" t dead ?others "list_global_jobs None f"] assms(1)
    by (simp_all add: jobs cl)
  have all: "set (list_global_jobs None f) = set (dvalues (fed_jobs f))"
    by (simp add: list_global_jobs_def Let_def)
  have x: "(x \<in> set (dvalues (fed_jobs f)) \<and> \<not> (gj_assigned x = Some dead \<and> active_status (gj_status x)))
      \<or> gj_assigned x = None \<or> (\<exists>c \<in> set ?others. gj_assigned x = Some (cl_id c))"
    if "x \<in> set (dvalues (fed_jobs f'))" for x
    using reroute_fold [of "(f, [])" x t dead ?others "list_global_jobs None f"] assms(1) that all
    by (auto simp: jobs)
  have others: "cl_id c \<noteq> dead \<and> c \<in> set (dvalues (fed_clusters f)) \<and> cl_health c \<noteq> HOffline"
    if "c \<in> set ?others" for c using that by auto
  show "\<not> assigned_active dead f'"
  proof
    assume "assigned_active dead f'"
    then obtain y where y: "y \<in> set (dvalues (fed_jobs f'))" "gj_assigned y = Some dead" "active_status (gj_status y)"
      unfolding assigned_active_def by blast
    from x [OF y(1)] show False
    proof (elim disjE bexE)
      fix c assume "c \<in> set ?others" "gj_assigned y = Some (cl_id c)"
      with others [of c] y(2) show False by simp
    qed (use y in simp_all)
  qed
  show "assigned_active cid f" if off: "\<forall>c \<in> set (dvalues (fed_clusters f)). cl_id c = cid \<longrightarrow> cl_health c = HOffline"
    and act: "assigned_active cid f'"
  proof -
    obtain y where y: "y \<in> set (dvalues (fed_jobs f'))" "gj_assigned y = Some cid" "active_status (gj_status y)"
      using act unfolding assigned_active_def by blast
    from x [OF y(1)] have "y \<in> set (dvalues (fed_jobs f))"
    proof (elim disjE bexE)
      fix c assume "c \<in> set ?others" "gj_assigned y = Some (cl_id c)"
      note c = this
      from c(2) y(2) have "cid = cl_id c" by (metis option.inject)
      with others [OF c(1)] off show ?thesis by blast
    qed (use y(2) in simp_all)
    with y show ?thesis unfolding assigned_active_def by blast
  qed
qed

lemma sweep_fold:
  assumes "fold (sweep_cluster now timeout) cs (f, out) = (f', out')"
    and "keyed cl_id (fed_clusters f)" "distinct (map cl_id cs)"
  shows "fed_jobs f' = fed_jobs f \<and> keyed cl_id (fed_clusters f')
    \<and> (\<forall>cid. cid \<in> set out' \<longrightarrow> cid \<in> set out \<or>
          (\<exists>c. dget (fed_clusters f') cid = Some c \<and> cl_health c = HOffline))
    \<and> (\<forall>cid. cid \<notin> cl_id ` set cs \<longrightarrow> dget (fed_clusters f') cid = dget (fed_clusters f) cid)"
  using assms
proof (induction cs arbitrary: f out)
  case (Cons c cs)
  obtain f1 o1 where s: "sweep_cluster now timeout c (f, out) = (f1, o1)"
    by (cases "sweep_cluster now timeout c (f, out)")
  have one: "fed_jobs f1 = fed_jobs f \<and> keyed cl_id (fed_clusters f1)
      \<and> (\<forall>cid. cid \<in> set o1 \<longrightarrow> cid \<in> set out \<or>
            (cid = cl_id c \<and> (\<exists>c. dget (fed_clusters f1) cid = Some c \<and> cl_health c = HOffline)))
      \<and> (\<forall>cid. cid \<noteq> cl_id c \<longrightarrow> dget (fed_clusters f1) cid = dget (fed_clusters f) cid)"
    using s Cons.prems(2) by (auto simp: sweep_cluster_def intro!: keyed_dput split: if_splits)
  have "fold (sweep_cluster now timeout) cs (f1, o1) = (f', out')" using Cons.prems(1) s by simp
  from Cons.IH [OF this] one Cons.prems(3)
  have IH: "fed_jobs f' = fed_jobs f1 \<and> keyed cl_id (fed_clusters f')
    \<and> (\<forall>cid. cid \<in> set out' \<longrightarrow> cid \<in> set o1 \<or>
          (\<exists>c. dget (fed_clusters f') cid = Some c \<and> cl_health c = HOffline))
    \<and> (\<forall>cid. cid \<notin> cl_id ` set cs \<longrightarrow> dget (fed_clusters f') cid = dget (fed_clusters f1) cid)"
    by auto
  have "cl_id c \<notin> cl_id ` set cs" using Cons.prems(3) by auto
  with IH have keep: "dget (fed_clusters f') (cl_id c) = dget (fed_clusters f1) (cl_id c)" by blast
  have "cid \<in> set out \<or> (\<exists>c. dget (fed_clusters f') cid = Some c \<and> cl_health c = HOffline)"
    if "cid \<in> set out'" for cid
  proof -
    have "cid \<in> set o1 \<or> (\<exists>c. dget (fed_clusters f') cid = Some c \<and> cl_health c = HOffline)"
      using IH that by blast
    moreover have "cid \<in> set o1 \<Longrightarrow> cid \<in> set out \<or>
        (cid = cl_id c \<and> (\<exists>c. dget (fed_clusters f1) cid = Some c \<and> cl_health c = HOffline))"
      using one by blast
    ultimately show ?thesis using keep by auto
  qed
  moreover have "dget (fed_clusters f') cid = dget (fed_clusters f) cid" if "cid \<notin> cl_id ` set (c # cs)" for cid
    using IH one that by simp
  ultimately show ?case using IH one by simp
qed simp

definition offline_in :: "federation \<Rightarrow> string \<Rightarrow> bool" where
  "offline_in f cid \<longleftrightarrow> (\<forall>c \<in> set (dvalues (fed_clusters f)). cl_id c = cid \<longrightarrow> cl_health c = HOffline)"

definition reroute_all :: "pyfloat \<Rightarrow> string list \<Rightarrow> federation \<Rightarrow> federation" where
  "reroute_all t dead f = fold (\<lambda>cid f. fst (reroute_jobs_from_dead_cluster t cid f)) dead f"

lemma reroute_all_spec:
  "keyed gj_id (fed_jobs f) \<Longrightarrow>
     fed_clusters (reroute_all t dead f) = fed_clusters f \<and> keyed gj_id (fed_jobs (reroute_all t dead f))
     \<and> (\<forall>cid. offline_in f cid \<longrightarrow> assigned_active cid (reroute_all t dead f) \<longrightarrow>
            assigned_active cid f \<and> cid \<notin> set dead)"
proof (induction dead arbitrary: f)
  case (Cons d dead)
  let ?f = "fst (reroute_jobs_from_dead_cluster t d f)"
  note r = reroute_spec [OF Cons.prems, where t = t and dead = d]
  have "offline_in ?f cid" if "offline_in f cid" for cid using that r(1) by (simp add: offline_in_def)
  moreover have "assigned_active cid f \<and> cid \<noteq> d" if "offline_in f cid" "assigned_active cid ?f" for cid
    using r(3) r(4) [of cid] that by (auto simp: offline_in_def)
  ultimately show ?case using Cons.IH [OF r(2)] r(1) by (auto simp: reroute_all_def)
qed (simp add: reroute_all_def)

lemma distinct_list_clusters:
  assumes "keyed cl_id (fed_clusters f)"
  shows "distinct (map cl_id (list_clusters f))"
proof -
  have d: "distinct (map fst (sort_key fst (fed_clusters f)))"
    using assms by (simp add: keyed_def dwf_def distinct_map)
  have "map cl_id (list_clusters f) = map fst (sort_key fst (fed_clusters f))"
    using assms by (auto simp: list_clusters_def keyed_def)
  with d show ?thesis by (simp only:)
qed

lemma watch_spec:
  assumes "fed_ok f"
  shows "fed_ok (fst (federation_watch_once t timeout f))
    \<and> (\<forall>cid \<in> set (snd (federation_watch_once t timeout f)).
          \<not> assigned_active cid (fst (federation_watch_once t timeout f)))"
proof -
  obtain f1 dead where s: "sweep_stale_clusters t timeout f = (f1, dead)"
    by (cases "sweep_stale_clusters t timeout f")
  have w: "federation_watch_once t timeout f = (reroute_all t dead f1, dead)"
    by (simp add: federation_watch_once_def s reroute_all_def)
  have k: "keyed cl_id (fed_clusters f)" "keyed gj_id (fed_jobs f)" using assms by (auto simp: fed_ok_def)
  from sweep_fold [of t timeout "list_clusters f" f "[]" f1 dead] s k distinct_list_clusters [OF k(1)]
  have f1: "fed_jobs f1 = fed_jobs f" "keyed cl_id (fed_clusters f1)"
    and off: "\<And>cid. cid \<in> set dead \<Longrightarrow> \<exists>c. dget (fed_clusters f1) cid = Some c \<and> cl_health c = HOffline"
    by (auto simp: sweep_stale_clusters_def)
  have "offline_in f1 cid" if cid: "cid \<in> set dead" for cid
    unfolding offline_in_def
  proof (intro ballI impI)
    fix c assume c: "c \<in> set (dvalues (fed_clusters f1))" "cl_id c = cid"
    then have "dget (fed_clusters f1) cid = Some c"
      using f1(2) by (auto simp: keyed_def dwf_dget_iff)
    with off [OF cid] show "cl_health c = HOffline" by simp
  qed
  with reroute_all_spec [of f1 t dead] f1 k show ?thesis by (auto simp: w fed_ok_def)
qed

section \<open>Runs of the controller\<close>

datatype fed_op =
    RegisterCluster pyfloat cluster_registration
  | SubmitJob pyfloat string "string \<Rightarrow> string option" submit_body
  | FedHeartbeat pyfloat fed_heartbeat
  | CompleteJob pyfloat string string bool "json option"
  | Watch pyfloat pyfloat

fun fed_step :: "fed_op \<Rightarrow> federation \<Rightarrow> federation" where
  "fed_step (RegisterCluster t r) f = (case register_cluster t r f of Inl e \<Rightarrow> f | Inr f1 \<Rightarrow> f1)"
| "fed_step (SubmitJob t fresh push b) f = fst (submit_global_job t fresh push b f)"
| "fed_step (FedHeartbeat t p) f = (case apply_heartbeat t p f of Inl e \<Rightarrow> f | Inr (f1, c) \<Rightarrow> f1)"
| "fed_step (CompleteJob t jid cid ok r) f = (case global_job_complete t jid cid ok r f of Inl e \<Rightarrow> f | Inr f1 \<Rightarrow> f1)"
| "fed_step (Watch t timeout) f = fst (federation_watch_once t timeout f)"

lemma cl_id_extend [simp]:
  "cl_id (cluster_registration.extend r (cluster.fields a b d)) = cl_id r"
  "cl_url (cluster_registration.extend r (cluster.fields a b d)) = cl_url r"
  by (simp_all add: cluster_registration.defs cluster.defs)

lemma fed_ok_step: "fed_ok f \<Longrightarrow> fed_ok (fed_step op f)"
proof (cases op)
  case (RegisterCluster t r)
  then show "fed_ok f \<Longrightarrow> ?thesis"
    by (auto simp: register_cluster_def fed_ok_def Let_def split: option.splits)
next
  case (SubmitJob t fresh push b)
  then show "fed_ok f \<Longrightarrow> ?thesis"
    by (auto simp: submit_global_job_def fed_ok_def Let_def case_prod_unfold split: option.splits)
next
  case (FedHeartbeat t p)
  then show "fed_ok f \<Longrightarrow> ?thesis"
    by (auto simp: apply_heartbeat_def get_cluster_def fed_ok_def Let_def dest: keyed_dget split: option.splits)
next
  case (CompleteJob t jid cid ok r)
  then show "fed_ok f \<Longrightarrow> ?thesis"
    by (auto simp: global_job_complete_def fed_ok_def Let_def split: option.splits)
next
  case (Watch t timeout)
  then show "fed_ok f \<Longrightarrow> ?thesis" using watch_spec by simp
qed

lemma fed_ok_run: "fed_ok (fold fed_step ops empty_federation)"
proof (rule fold_inv [where P = fed_ok])
  show "fed_ok empty_federation" by (simp add: fed_ok_def empty_federation_def)
qed (rule fed_ok_step)

text \<open>
  C15: failover is complete: in whatever state the controller is, when a turn of the watch loop
  declares clusters dead, no queued, routed, running or migrated job is assigned to any of them
  afterwards.
\<close>

theorem failover_evacuates:
  "list_all (\<lambda>cid. \<not> assigned_active cid
       (fst (federation_watch_once t timeout (fold fed_step ops empty_federation))))
     (snd (federation_watch_once t timeout (fold fed_step ops empty_federation)))"
  using watch_spec [OF fed_ok_run] by (simp add: list_all_iff)


section \<open>A control plane has one cluster\<close>

definition url_of :: "federation \<Rightarrow> string \<Rightarrow> string option" where
  "url_of f cid = map_option cl_url (dget (fed_clusters f) cid)"

definition urls_unique :: "federation \<Rightarrow> bool" where
  "urls_unique f \<longleftrightarrow> fed_ok f \<and>
     (\<forall>a b u v. url_of f a = Some u \<longrightarrow> url_of f b = Some v
        \<longrightarrow> normalize_cp_url u = normalize_cp_url v \<longrightarrow> a = b)"

lemma urls_unique_frame: "urls_unique f \<Longrightarrow> fed_ok f' \<Longrightarrow> url_of f' = url_of f \<Longrightarrow> urls_unique f'"
  by (simp add: urls_unique_def)

lemma url_of_same_clusters: "fed_clusters f' = fed_clusters f \<Longrightarrow> url_of f' = url_of f"
  by (simp add: url_of_def fun_eq_iff)

lemma sweep_urls:
  assumes "\<forall>c \<in> set cs. url_of (fst fo) (cl_id c) = Some (cl_url c)"
  shows "url_of (fst (fold (sweep_cluster now timeout) cs fo)) = url_of (fst fo)"
  using assms
proof (induction cs arbitrary: fo)
  case (Cons c cs)
  have "url_of (fst (sweep_cluster now timeout c fo)) = url_of (fst fo)"
    using Cons.prems by (auto simp: sweep_cluster_def url_of_def fun_eq_iff)
  with Cons show ?case by simp
qed simp

lemma listed_url: "fed_ok f \<Longrightarrow> c \<in> set (dvalues (fed_clusters f)) \<Longrightarrow> url_of f (cl_id c) = Some (cl_url c)"
  using keyed_member [of cl_id "fed_clusters f" c] by (simp add: url_of_def fed_ok_def)

lemma url_listed:
  assumes "url_of f a = Some u" "fed_ok f"
  obtains c where "c \<in> set (dvalues (fed_clusters f))" "cl_id c = a" "cl_url c = u"
proof -
  have k: "keyed cl_id (fed_clusters f)" using assms(2) by (simp add: fed_ok_def)
  obtain c where c: "dget (fed_clusters f) a = Some c" "cl_url c = u"
    using assms(1) by (auto simp: url_of_def)
  moreover have "cl_id c = a" by (rule keyed_dget [OF k c(1)])
  ultimately show ?thesis using that keyed_member [OF k, of c] by simp
qed

lemma watch_urls: "fed_ok f \<Longrightarrow> url_of (fst (federation_watch_once t timeout f)) = url_of f"
proof -
  assume ok: "fed_ok f"
  obtain f1 dead where s: "sweep_stale_clusters t timeout f = (f1, dead)"
    by (cases "sweep_stale_clusters t timeout f")
  have f1: "fed_jobs f1 = fed_jobs f"
    using sweep_fold [of t timeout "list_clusters f" f "[]" f1 dead] s ok distinct_list_clusters
    by (simp add: sweep_stale_clusters_def fed_ok_def)
  have "url_of f1 = url_of f"
    using sweep_urls [of "list_clusters f" "(f, [])" t timeout] s listed_url [OF ok]
    by (simp add: sweep_stale_clusters_def)
  moreover have "fed_clusters (reroute_all t dead f1) = fed_clusters f1"
    using reroute_all_spec [of f1 t dead] f1 ok by (simp add: fed_ok_def)
  ultimately have "url_of (reroute_all t dead f1) = url_of f"
    by (metis url_of_same_clusters)
  then show ?thesis by (simp add: federation_watch_once_def s reroute_all_def)
qed

lemma register_urls:
  assumes "urls_unique f" "register_cluster t r f = Inr f1"
  shows "urls_unique f1"
proof -
  have ok: "fed_ok f" using assms(1) by (simp add: urls_unique_def)
  have ok1: "fed_ok f1" using fed_ok_step [OF ok, of "RegisterCluster t r"] assms(2) by simp
  have new: "url_of f1 = (url_of f)(cl_id r := Some (cl_url r))"
    using assms(2) by (auto simp: register_cluster_def Let_def url_of_def fun_eq_iff split: option.splits)
  have free: "normalize_cp_url u \<noteq> normalize_cp_url (cl_url r)"
    if u: "url_of f a = Some u" and a: "a \<noteq> cl_id r" for a u
  proof -
    obtain c where c: "c \<in> set (dvalues (fed_clusters f))" "cl_id c = a" "cl_url c = u"
      by (rule url_listed [OF u ok])
    have "List.find (\<lambda>c. cl_id c \<noteq> cl_id r \<and> normalize_cp_url (cl_url c) = normalize_cp_url (cl_url r))
        (list_clusters f) = None"
      using assms(2) by (simp add: register_cluster_def split: option.splits)
    with c a show ?thesis by (auto simp: find_None_iff)
  qed
  show ?thesis
    unfolding urls_unique_def
  proof (intro conjI allI impI)
    fix a b u v
    assume a: "url_of f1 a = Some u" and b: "url_of f1 b = Some v"
      and n: "normalize_cp_url u = normalize_cp_url v"
    show "a = b"
    proof (cases "a = cl_id r \<or> b = cl_id r")
      case True
      with a b n free [of a u] free [of b v] show ?thesis by (auto simp: new split: if_splits)
    next
      case False
      with a b n assms(1) show ?thesis by (simp add: new urls_unique_def)
    qed
  qed (rule ok1)
qed

lemma urls_unique_step: "urls_unique f \<Longrightarrow> urls_unique (fed_step op f)"
proof -
  assume u: "urls_unique f"
  then have ok: "fed_ok f" by (simp add: urls_unique_def)
  show ?thesis
  proof (cases op)
    case (RegisterCluster t r)
    with u register_urls [OF u] show ?thesis by (auto split: sum.splits)
  next
    case (Watch t timeout)
    show ?thesis
      by (rule urls_unique_frame [OF u fed_ok_step [OF ok]]) (simp add: Watch watch_urls [OF ok])
  next
    case (SubmitJob t fresh push b)
    show ?thesis
      by (rule urls_unique_frame [OF u fed_ok_step [OF ok] url_of_same_clusters])
        (simp add: SubmitJob submit_global_job_def Let_def case_prod_unfold split: option.split)
  next
    case (FedHeartbeat t p)
    show ?thesis
      by (rule urls_unique_frame [OF u fed_ok_step [OF ok]])
        (use ok in \<open>auto simp: FedHeartbeat apply_heartbeat_def get_cluster_def Let_def url_of_def fed_ok_def
          fun_eq_iff dest: keyed_dget split: option.split\<close>)
  next
    case (CompleteJob t jid cid good r)
    show ?thesis
      by (rule urls_unique_frame [OF u fed_ok_step [OF ok] url_of_same_clusters])
        (simp add: CompleteJob global_job_complete_def Let_def split: option.split)
  qed
qed

lemma urls_unique_run: "urls_unique (fold fed_step ops empty_federation)"
proof (rule fold_inv [where P = urls_unique])
  show "urls_unique empty_federation"
    by (simp add: urls_unique_def fed_ok_def empty_federation_def url_of_def)
qed (rule urls_unique_step)

definition example_registration :: "string \<Rightarrow> string \<Rightarrow> cluster_registration" where
  "example_registration cid url =
     \<lparr>cl_id = cid, cl_region = ''eu'', cl_url = url, cl_api_token = ''t'', cl_node_count = 4,
      cl_gpu_capacity = 2, cl_current_load = 0, cl_queue_depth = 0, cl_avg_latency_ms = 100,
      cl_health = HHealthy\<rparr>"

definition example_submission :: submit_body where
  "example_submission =
     \<lparr>sb_id = Some ''j'', sb_type = ''inference'', sb_task = ''t'', sb_required_nodes = 1,
      sb_power = ''low'', sb_gpu_required = False, sb_origin = None, sb_preferred_region = None\<rparr>"

text \<open>
  a control plane is never registered under two ids: in every state the controller can
  reach, two listed clusters whose URLs agree up to case and trailing slashes are the same row.
\<close>

theorem control_planes_unique:
  assumes "c \<in> set (list_clusters (fold fed_step ops empty_federation))"
    and "d \<in> set (list_clusters (fold fed_step ops empty_federation))"
    and "normalize_cp_url (cl_url c) = normalize_cp_url (cl_url d)"
  shows "c = d"
proof -
  let ?f = "fold fed_step ops empty_federation"
  have ok: "fed_ok ?f" using urls_unique_run [of ops] by (simp add: urls_unique_def)
  have m: "c \<in> set (dvalues (fed_clusters ?f))" "d \<in> set (dvalues (fed_clusters ?f))"
    using assms(1,2) by (simp_all only: set_list_clusters)
  have "cl_id c = cl_id d"
    using urls_unique_run [of ops] listed_url [OF ok m(1)] listed_url [OF ok m(2)] assms(3)
    unfolding urls_unique_def by blast
  moreover have k: "keyed cl_id (fed_clusters ?f)" using ok by (simp only: fed_ok_def)
  ultimately show ?thesis
    using m keyed_member [OF k, of c] keyed_member [OF k, of d] by (metis option.inject)
qed

lemma example_clusters:
  "list_clusters (fold fed_step
     [RegisterCluster 1 (example_registration ''a'' ''http://cp/''),
      RegisterCluster 2 (example_registration ''b'' ''HTTP://cp'')] empty_federation)
   = [cluster_registration.extend (example_registration ''a'' ''http://cp/'') (cluster.fields 1 1 0)]"
  by code_simp

theorem control_planes_unique_witness:
  "list_all (\<lambda>c. c = cluster_registration.extend (example_registration ''a'' ''http://cp/'') (cluster.fields 1 1 0))
    (list_clusters (fold fed_step
      [RegisterCluster 1 (example_registration ''a'' ''http://cp/''),
       RegisterCluster 2 (example_registration ''b'' ''HTTP://cp'')] empty_federation))"
  unfolding list_all_iff
proof
  let ?ops = "[RegisterCluster 1 (example_registration ''a'' ''http://cp/''),
    RegisterCluster 2 (example_registration ''b'' ''HTTP://cp'')]"
  let ?d = "cluster_registration.extend (example_registration ''a'' ''http://cp/'') (cluster.fields 1 1 0)"
  fix c assume c: "c \<in> set (list_clusters (fold fed_step ?ops empty_federation))"
  have d: "?d \<in> set (list_clusters (fold fed_step ?ops empty_federation))"
    by (simp only: example_clusters list.set) simp
  from c have "cl_url c = cl_url ?d" by (simp only: example_clusters list.set) simp
  then show "c = ?d" by (intro control_planes_unique [OF c d]) simp
qed

section \<open>A job that waits, waits for good\<close>

text \<open>The operations that write the row of one job: its submission under that id and a report on it.\<close>

fun touches_job :: "string \<Rightarrow> fed_op \<Rightarrow> bool" where
  "touches_job jid (SubmitJob t fresh push b) = (gj_id (new_global_job t fresh b) = jid)"
| "touches_job jid (CompleteJob t i cid good r) = (i = jid)"
| "touches_job jid op = False"

lemma reroute_other:
  assumes "\<forall>j \<in> set js. gj_id j = jid \<longrightarrow> gj_assigned j = None"
  shows "dget (fed_jobs (fst (fold (reroute_job t dead others) js fp))) jid = dget (fed_jobs (fst fp)) jid"
  using assms
proof (induction js arbitrary: fp)
  case (Cons j js)
  have "dget (fed_jobs (fst (reroute_job t dead others j fp))) jid = dget (fed_jobs (fst fp)) jid"
    using Cons.prems by (cases rule: reroute_job_cases [of t dead others j fp]) auto
  with Cons show ?case by simp
qed simp

lemma reroute_all_other:
  assumes "keyed gj_id (fed_jobs f)" "dget (fed_jobs f) jid = Some j" "gj_assigned j = None"
  shows "dget (fed_jobs (reroute_all t dead f)) jid = Some j"
  using assms(1,2)
proof (induction dead arbitrary: f)
  case (Cons d dead)
  have "\<forall>g \<in> set (list_global_jobs None f). gj_id g = jid \<longrightarrow> gj_assigned g = None"
  proof (intro ballI impI)
    fix g assume g: "g \<in> set (list_global_jobs None f)" "gj_id g = jid"
    then have "g \<in> set (dvalues (fed_jobs f))" by (simp only: set_list_jobs)
    with g(2) Cons.prems show "gj_assigned g = None"
      using keyed_member [OF Cons.prems(1), of g] assms(3) by simp
  qed
  from reroute_other [OF this]
  have "dget (fed_jobs (fst (reroute_jobs_from_dead_cluster t d f))) jid = Some j"
    using Cons.prems(2) by (simp add: reroute_jobs_from_dead_cluster_def Let_def case_prod_unfold)
  with Cons.IH reroute_spec(2) [OF Cons.prems(1)] show ?case by (simp add: reroute_all_def)
qed (simp add: reroute_all_def)

lemma fed_step_other_job:
  assumes "fed_ok f" "dget (fed_jobs f) jid = Some j" "gj_assigned j = None" "\<not> touches_job jid op"
  shows "dget (fed_jobs (fed_step op f)) jid = Some j"
proof (cases op)
  case (Watch t timeout)
  obtain f1 dead where s: "sweep_stale_clusters t timeout f = (f1, dead)"
    by (cases "sweep_stale_clusters t timeout f")
  have f1: "fed_jobs f1 = fed_jobs f"
    using sweep_fold [of t timeout "list_clusters f" f "[]" f1 dead] s assms(1) distinct_list_clusters
    by (simp add: sweep_stale_clusters_def fed_ok_def)
  have "dget (fed_jobs (reroute_all t dead f1)) jid = Some j"
    using reroute_all_other [of f1 jid j t dead] f1 assms(1-3) by (simp add: fed_ok_def)
  then show ?thesis by (simp add: Watch federation_watch_once_def s reroute_all_def)
next
  case (SubmitJob t fresh push b)
  then have "gj_id (new_global_job t fresh b) \<noteq> jid" using assms(4) by simp
  then show ?thesis
    using SubmitJob assms(2) by (simp add: submit_global_job_def Let_def case_prod_unfold split: option.split)
next
  case (RegisterCluster t r)
  with assms show ?thesis by (auto simp: register_cluster_def Let_def split: option.split)
next
  case (FedHeartbeat t p)
  with assms show ?thesis by (auto simp: apply_heartbeat_def Let_def split: option.split)
next
  case (CompleteJob t i cid good r)
  then have "i \<noteq> jid" using assms(4) by simp
  with CompleteJob assms show ?thesis
    by (auto simp: global_job_complete_def get_global_job_def fed_ok_def Let_def dest: keyed_dget split: option.split)
qed

text \<open>
  a job the controller has left queued without a cluster (none was available, the push
  failed, or failover found no target) stays exactly as it is, whatever registrations,
  heartbeats, other jobs and turns of the watch loop follow, until it is submitted again or
  somebody reports on it: no part of the controller picks it up.
\<close>

theorem queued_job_never_retried:
  assumes "dget (fed_jobs (fold fed_step before empty_federation)) jid = Some j"
    and "gj_assigned j = None"
    and "list_all (\<lambda>op. \<not> touches_job jid op) later"
  shows "dget (fed_jobs (fold fed_step (before @ later) empty_federation)) jid = Some j"
proof -
  have "fed_ok (fold fed_step later f) \<and> dget (fed_jobs (fold fed_step later f)) jid = Some j"
    if "fed_ok f" "dget (fed_jobs f) jid = Some j" for f
    using that assms(3)
    by (induction later arbitrary: f) (simp_all add: fed_step_other_job [OF _ _ assms(2)] fed_ok_step)
  from this [OF fed_ok_run assms(1)] show ?thesis by simp
qed

definition example_waiting :: "fed_op list" where
  "example_waiting = [SubmitJob 1 ''x'' (\<lambda>_. None) example_submission]"

definition example_later :: "fed_op list" where
  "example_later =
     [RegisterCluster 2 (example_registration ''a'' ''http://cp''),
      FedHeartbeat 3 \<lparr>fh_cluster_id = ''a'', fh_node_count = 4, fh_gpu_capacity = 2, fh_current_load = 0,
        fh_queue_depth = 0, fh_avg_latency_ms = 1, fh_health = HHealthy\<rparr>,
      Watch 4 45]"

theorem queued_job_never_retried_witness:
  "map_option gj_status (dget (fed_jobs (fold fed_step (example_waiting @ example_later) empty_federation)) ''j'')
     = Some GQueued
   \<and> map cl_health (list_clusters (fold fed_step (example_waiting @ example_later) empty_federation)) = [HHealthy]"
proof
  have 1: "dget (fed_jobs (fold fed_step example_waiting empty_federation)) ''j''
      = Some (new_global_job 1 ''x'' example_submission)" by code_simp
  have 2: "gj_assigned (new_global_job 1 ''x'' example_submission) = None" by code_simp
  have 3: "list_all (\<lambda>op. \<not> touches_job ''j'' op) example_later" by code_simp
  have "gj_status (new_global_job 1 ''x'' example_submission) = GQueued" by code_simp
  with queued_job_never_retried [OF 1 2 3] show "map_option gj_status
      (dget (fed_jobs (fold fed_step (example_waiting @ example_later) empty_federation)) ''j'') = Some GQueued"
    by simp
  show "map cl_health (list_clusters (fold fed_step (example_waiting @ example_later) empty_federation))
    = [HHealthy]" by code_simp
qed

text \<open>A report is taken from any cluster, at any time: this one fails a job that is completed.\<close>

lemma late_report_overwrites:
  "map gj_status (list_global_jobs None (fold fed_step
      [RegisterCluster 1 (example_registration ''a'' ''http://cp''),
       SubmitJob 2 ''x'' (\<lambda>_. None) example_submission, CompleteJob 3 ''j'' ''a'' True None] empty_federation))
    = [GCompleted]"
  "map gj_status (list_global_jobs None (fold fed_step
      [RegisterCluster 1 (example_registration ''a'' ''http://cp''),
       SubmitJob 2 ''x'' (\<lambda>_. None) example_submission, CompleteJob 3 ''j'' ''a'' True None,
       CompleteJob 4 ''j'' ''stranger'' False None] empty_federation))
    = [GFailed]"
  by code_simp+

text \<open>The watch loop does declare clusters dead, and moves their jobs.\<close>

lemma watch_example:
  "(let (f, dead) = federation_watch_once 100 45 (fold fed_step
      [RegisterCluster 1 (example_registration ''a'' ''http://cp''),
       SubmitJob 2 ''x'' (\<lambda>_. None) example_submission,
       RegisterCluster 90 (example_registration ''b'' ''http://other'')] empty_federation)
    in (dead, map (\<lambda>j. (gj_assigned j, gj_status j)) (list_global_jobs None f)))
   = ([''a''], [(Some ''b'', GMigrated)])"
  by code_simp

end
