(* ===== verification/Caches.thy ===== *)
theory Caches
  imports Prelude
begin

text \<open>
  The two caches with a size budget: \<open>edge/edge_cache.py\<close> (values of one edge node, bounded in
  entries and bytes) and \<open>replication/cache_replication.py\<close> (the regional cache fabric with
  invalidation between regions). Both evict the entry that was used longest ago. What they share,
  the accounting of the bytes in use, is a locale over a table and a counter.
\<close>

section \<open>Accounting\<close>

definition dsum :: "('v \<Rightarrow> int) \<Rightarrow> ('k, 'v) dict \<Rightarrow> int" where
  "dsum f d = sum_list (map f (dvalues d))"

lemma dsum_simps [simp]: "dsum f [] = 0" "dsum f ((k, v) # d) = f v + dsum f d"
  by (simp_all add: dsum_def)

lemma ddel_absent: "k \<notin> fst ` set d \<Longrightarrow> ddel k d = d"
  by (force simp: AList.delete_eq filter_id_conv)

lemma dsum_ddel:
  "dwf d \<Longrightarrow> dsum f (ddel k d) = dsum f d - (case dget d k of Some v \<Rightarrow> f v | None \<Rightarrow> 0)"
proof (induction d)
  case (Cons p d)
  obtain j v where p: "p = (j, v)" by (cases p)
  have d: "j \<notin> fst ` set d" "dwf d" using Cons.prems p by (auto simp: dwf_def)
  show ?case
  proof (cases "j = k")
    case True
    then show ?thesis using d p ddel_absent [of k d] by simp
  next
    case False
    then show ?thesis using Cons.IH [OF d(2)] p by (simp split: option.split)
  qed
qed simp

lemma dsum_dput:
  "dwf d \<Longrightarrow> dsum f (dput k v d) = dsum f d - (case dget d k of Some u \<Rightarrow> f u | None \<Rightarrow> 0) + f v"
proof (induction d)
  case (Cons p d)
  obtain j u where p: "p = (j, u)" by (cases p)
  with Cons have "dsum f (dput k v d) = dsum f d - (case dget d k of Some u \<Rightarrow> f u | None \<Rightarrow> 0) + f v"
    by (simp add: dwf_def)
  with p show ?case by (simp split: option.split)
qed simp

lemma dsum_dmap: "(\<And>k v. f (g k v) = f v) \<Longrightarrow> dsum f (dmap g d) = dsum f d"
  by (induction d) (auto simp: dmap_def)

lemma dsum_nonneg: "\<forall>v \<in> set (dvalues d). 0 \<le> f v \<Longrightarrow> 0 \<le> dsum f d"
  by (induction d) auto

lemma ddel_None: "dget d k = None \<Longrightarrow> ddel k d = d"
  by (simp add: ddel_absent dget_None_iff)

text \<open>The first key whose entry was used longest ago: \<open>min(entries, key=...)\<close>.\<close>

definition lru_key :: "('e \<Rightarrow> 'o::linorder) \<Rightarrow> ('k, 'e) dict \<Rightarrow> 'k" where
  "lru_key used d = fst (py_min (\<lambda>p. used (snd p)) (hd d) (tl d))"

lemma lru_key_oldest:
  assumes "d \<noteq> []" "dwf d"
  obtains e where "dget d (lru_key used d) = Some e" "\<And>k v. dget d k = Some v \<Longrightarrow> used e \<le> used v"
proof -
  obtain x xs where d: "d = x # xs" using assms(1) by (cases d) auto
  let ?p = "py_min (\<lambda>p. used (snd p)) x xs"
  have "?p \<in> set d" using py_min_in [of "\<lambda>p. used (snd p)" x xs] by (simp add: d)
  then have "dget d (lru_key used d) = Some (snd ?p)"
    using assms(2) dwf_dget_iff [of d "fst ?p" "snd ?p"] by (simp add: d lru_key_def)
  moreover have "used (snd ?p) \<le> used v" if "dget d k = Some v" for k v
    using py_min_le [of "(k, v)" x xs "\<lambda>p. used (snd p)"] dget_SomeD [OF that] by (simp add: d)
  ultimately show ?thesis by (rule that)
qed

text \<open>A store with a counter of the bytes in use, from which single entries are removed.\<close>

locale accounted_store =
  fixes entries :: "'s \<Rightarrow> ('k, 'e) dict"
    and in_use :: "'s \<Rightarrow> int"
    and size :: "'e \<Rightarrow> int"
    and remove :: "'k \<Rightarrow> 's \<Rightarrow> 's"
  assumes entries_remove: "entries (remove k s) = ddel k (entries s)"
    and in_use_remove: "in_use (remove k s) =
        in_use s - (case dget (entries s) k of Some e \<Rightarrow> size e | None \<Rightarrow> 0)"
begin

definition accounted :: "'s \<Rightarrow> bool" where
  "accounted s \<longleftrightarrow> dwf (entries s) \<and> in_use s = dsum size (entries s)"

lemma accounted_remove: "accounted s \<Longrightarrow> accounted (remove k s)"
  by (simp add: accounted_def entries_remove in_use_remove dsum_ddel)

lemma accounted_remove_all: "accounted s \<Longrightarrow> accounted (fold remove ks s)"
  by (induction ks arbitrary: s) (simp_all add: accounted_remove)

lemma dget_remove_all:
  "dget (entries (fold remove ks s)) k = (if k \<in> set ks then None else dget (entries s) k)"
  by (induction ks arbitrary: s) (auto simp: entries_remove)

lemma remove_less:
  assumes "accounted s" "entries s \<noteq> []"
  shows "length (entries (remove (lru_key used (entries s)) s)) < length (entries s)"
proof -
  obtain e where "dget (entries s) (lru_key used (entries s)) = Some e"
    using lru_key_oldest assms by (metis accounted_def)
  then show ?thesis using length_ddel_less dget_in_keys by (metis entries_remove)
qed

text \<open>Removing entries of non-negative size never raises the use.\<close>

lemma in_use_remove_le:
  assumes "\<forall>e \<in> set (dvalues (entries s)). 0 \<le> size e"
  shows "in_use (remove k s) \<le> in_use s"
    "\<forall>e \<in> set (dvalues (entries (remove k s))). 0 \<le> size e"
  using assms by (auto simp: in_use_remove entries_remove set_ddel split: option.split dest!: dget_SomeD)

lemma in_use_remove_all_le:
  assumes "\<forall>e \<in> set (dvalues (entries s)). 0 \<le> size e"
  shows "in_use (fold remove ks s) \<le> in_use s
    \<and> length (entries (fold remove ks s)) \<le> length (entries s)
    \<and> (\<forall>e \<in> set (dvalues (entries (fold remove ks s))). 0 \<le> size e)"
  using assms
proof (induction ks arbitrary: s)
  case (Cons k ks)
  have "length (entries (remove k s)) \<le> length (entries s)"
    by (simp add: entries_remove AList.delete_eq length_filter_le)
  with Cons.IH [of "remove k s"] in_use_remove_le [OF Cons.prems, of k] show ?case by simp
qed simp

end

section \<open>The cache of an edge node\<close>

record edge_entry =
  ee_value :: json
  ee_size_bytes :: int
  ee_ttl_sec :: pyfloat
  ee_created_at :: pyfloat
  ee_accessed_at :: pyfloat
  ee_access_count :: nat

record edge_cache =
  ec_entries :: "(string, edge_entry) dict"
  ec_max_entries :: int
  ec_max_size_bytes :: int
  ec_current_size :: int
  ec_hit_count :: nat
  ec_miss_count :: nat
  ec_eviction_count :: nat

definition new_edge_cache :: "int \<Rightarrow> int \<Rightarrow> edge_cache" where
  "new_edge_cache max_entries max_size =
     \<lparr>ec_entries = [], ec_max_entries = max_entries, ec_max_size_bytes = max_size,
      ec_current_size = 0, ec_hit_count = 0, ec_miss_count = 0, ec_eviction_count = 0\<rparr>"

definition entry_expired :: "pyfloat \<Rightarrow> edge_entry \<Rightarrow> bool" where
  "entry_expired now e \<longleftrightarrow> now - ee_created_at e > ee_ttl_sec e"

definition remove_entry :: "string \<Rightarrow> edge_cache \<Rightarrow> edge_cache" where
  "remove_entry k c =
     (case dget (ec_entries c) k of
        None \<Rightarrow> c
      | Some e \<Rightarrow> c\<lparr>ec_entries := ddel k (ec_entries c),
                     ec_current_size := ec_current_size c - ee_size_bytes e\<rparr>)"

definition evict_lru :: "edge_cache \<Rightarrow> edge_cache" where
  "evict_lru c =
     (if ec_entries c = [] then c
      else let c1 = remove_entry (lru_key ee_accessed_at (ec_entries c)) c
           in c1\<lparr>ec_eviction_count := ec_eviction_count c1 + 1\<rparr>)"

text \<open>
  The loop of \<open>put\<close>, which does not end when no entry is left and the limit is not positive.
\<close>

partial_function (option) evict_for :: "int \<Rightarrow> edge_cache \<Rightarrow> edge_cache option" where
  "evict_for n c =
     (if int (length (ec_entries c)) \<ge> ec_max_entries c
         \<or> (ec_current_size c + n > ec_max_size_bytes c \<and> ec_entries c \<noteq> [])
      then evict_for n (evict_lru c) else Some c)"

definition edge_put ::
    "pyfloat \<Rightarrow> string \<Rightarrow> json \<Rightarrow> int \<Rightarrow> pyfloat \<Rightarrow> edge_cache \<Rightarrow> edge_cache option" where
  "edge_put t k v n ttl c =
     (case evict_for n (remove_entry k c) of
        None \<Rightarrow> None
      | Some c1 \<Rightarrow>
          Some (c1\<lparr>ec_entries := dput k \<lparr>ee_value = v, ee_size_bytes = n, ee_ttl_sec = ttl,
                     ee_created_at = t, ee_accessed_at = t, ee_access_count = 0\<rparr> (ec_entries c1),
                   ec_current_size := ec_current_size c1 + n\<rparr>))"

definition edge_get :: "pyfloat \<Rightarrow> string \<Rightarrow> edge_cache \<Rightarrow> edge_cache \<times> json option" where
  "edge_get t k c =
     (case dget (ec_entries c) k of
        None \<Rightarrow> (c\<lparr>ec_miss_count := ec_miss_count c + 1\<rparr>, None)
      | Some e \<Rightarrow>
          if entry_expired t e
          then let c1 = remove_entry k c in (c1\<lparr>ec_miss_count := ec_miss_count c1 + 1\<rparr>, None)
          else (c\<lparr>ec_entries := dput k (e\<lparr>ee_accessed_at := t, ee_access_count := ee_access_count e + 1\<rparr>)
                    (ec_entries c),
                  ec_hit_count := ec_hit_count c + 1\<rparr>, Some (ee_value e)))"

definition edge_delete :: "string \<Rightarrow> edge_cache \<Rightarrow> edge_cache \<times> bool" where
  "edge_delete k c =
     (if dget (ec_entries c) k = None then (c, False) else (remove_entry k c, True))"

definition edge_clear :: "edge_cache \<Rightarrow> edge_cache \<times> nat" where
  "edge_clear c = (c\<lparr>ec_entries := [], ec_current_size := 0\<rparr>, length (ec_entries c))"

definition edge_cleanup :: "pyfloat \<Rightarrow> edge_cache \<Rightarrow> edge_cache \<times> nat" where
  "edge_cleanup t c =
     (let expired = map fst (filter (\<lambda>p. entry_expired t (snd p)) (ec_entries c))
      in (fold remove_entry expired c, length expired))"

definition hot_keys :: "nat \<Rightarrow> edge_cache \<Rightarrow> string list" where
  "hot_keys limit c =
     map fst (take limit (sort_desc (\<lambda>p. int (ee_access_count (snd p))) (ec_entries c)))"

interpretation ec: accounted_store ec_entries ec_current_size ee_size_bytes remove_entry
  by unfold_locales
    (simp_all add: remove_entry_def ddel_None split: option.split)

lemma edge_frame [simp]:
  "ec_max_entries (remove_entry k c) = ec_max_entries c"
  "ec_max_size_bytes (remove_entry k c) = ec_max_size_bytes c"
  "ec_max_entries (evict_lru c) = ec_max_entries c"
  "ec_max_size_bytes (evict_lru c) = ec_max_size_bytes c"
  by (simp_all add: remove_entry_def evict_lru_def Let_def split: option.split)

lemma evict_lru_step:
  assumes "ec_entries c \<noteq> []"
  shows "ec_entries (evict_lru c) = ddel (lru_key ee_accessed_at (ec_entries c)) (ec_entries c)"
    "ec.accounted c \<Longrightarrow> ec.accounted (evict_lru c)"
    "ec.accounted c \<Longrightarrow> length (ec_entries (evict_lru c)) < length (ec_entries c)"
  using assms ec.accounted_remove [of c "lru_key ee_accessed_at (ec_entries c)"]
    ec.remove_less [of c ee_accessed_at]
  by (simp_all add: evict_lru_def Let_def ec.entries_remove ec.accounted_def)

text \<open>
  What the eviction loop leaves: room for \<open>n\<close> bytes and one more entry, and of the old entries
  those that were used last.
\<close>

definition evicted :: "int \<Rightarrow> edge_cache \<Rightarrow> edge_cache \<Rightarrow> bool" where
  "evicted n c c' \<longleftrightarrow> ec.accounted c'
     \<and> ec_max_entries c' = ec_max_entries c \<and> ec_max_size_bytes c' = ec_max_size_bytes c
     \<and> int (length (ec_entries c')) < ec_max_entries c'
     \<and> (ec_entries c' = [] \<or> ec_current_size c' + n \<le> ec_max_size_bytes c')
     \<and> (\<forall>k. dget (ec_entries c') k = None \<or> dget (ec_entries c') k = dget (ec_entries c) k)
     \<and> (\<forall>k e k' e'. dget (ec_entries c) k = Some e \<longrightarrow> dget (ec_entries c') k = None
          \<longrightarrow> dget (ec_entries c') k' = Some e' \<longrightarrow> ee_accessed_at e \<le> ee_accessed_at e')"

lemma evicted_step:
  assumes "ec_entries c \<noteq> []" "ec.accounted c" "evicted n (evict_lru c) c'"
  shows "evicted n c c'"
proof -
  let ?k = "lru_key ee_accessed_at (ec_entries c)"
  obtain old where old: "dget (ec_entries c) ?k = Some old"
      "\<And>k v. dget (ec_entries c) k = Some v \<Longrightarrow> ee_accessed_at old \<le> ee_accessed_at v"
    using lru_key_oldest [of "ec_entries c" ee_accessed_at] assms(1,2) by (auto simp: ec.accounted_def)
  have step: "dget (ec_entries (evict_lru c)) k = (if k = ?k then None else dget (ec_entries c) k)" for k
    by (simp add: evict_lru_step(1) [OF assms(1)])
  have sub: "dget (ec_entries c') k = None \<or> dget (ec_entries c') k = dget (ec_entries c) k" for k
    using assms(3) unfolding evicted_def step by metis
  have "ee_accessed_at e \<le> ee_accessed_at e'"
    if "dget (ec_entries c) k = Some e" "dget (ec_entries c') k = None" "dget (ec_entries c') k' = Some e'"
    for k e k' e'
  proof (cases "k = ?k")
    case True
    with that old sub [of k'] show ?thesis by (metis option.distinct(1) option.inject)
  next
    case False
    with that step [of k] have "dget (ec_entries (evict_lru c)) k = Some e" by simp
    with that(2,3) assms(3) show ?thesis unfolding evicted_def by blast
  qed
  with sub assms(3) show ?thesis unfolding evicted_def edge_frame by blast
qed

lemma evict_for_ends:
  assumes "0 < ec_max_entries c" "ec.accounted c"
  shows "\<exists>c'. evict_for n c = Some c' \<and> evicted n c c'"
  using assms
proof (induction "length (ec_entries c)" arbitrary: c rule: less_induct)
  case less
  let ?go = "int (length (ec_entries c)) \<ge> ec_max_entries c
         \<or> (ec_current_size c + n > ec_max_size_bytes c \<and> ec_entries c \<noteq> [])"
  show ?case
  proof (cases ?go)
    case True
    with less.prems(1) have ne: "ec_entries c \<noteq> []" by auto
    note step = evict_lru_step [OF ne]
    obtain c' where c': "evict_for n (evict_lru c) = Some c'" "evicted n (evict_lru c) c'"
      using less.hyps [OF step(3)] step(2) less.prems by auto
    with evicted_step [OF ne less.prems(2)] True show ?thesis by (simp add: evict_for.simps [of n c])
  next
    case False
    with less.prems(2) show ?thesis by (auto simp: evict_for.simps [of n c] evicted_def)
  qed
qed

text \<open>With a limit that is not positive, \<open>put\<close> never returns.\<close>

lemma evict_for_hangs:
  assumes "ec_entries c = []" "ec_max_entries c \<le> 0"
  shows "evict_for n c = None"
proof -
  have "\<not> (ec_entries d = [] \<and> ec_max_entries d \<le> 0)" if "evict_for m d = Some y" for m d y
    by (rule evict_for.raw_induct [OF _ that]) (auto simp: evict_lru_def split: if_splits)
  with assms show ?thesis by (cases "evict_for n c") auto
qed

section \<open>Runs of the edge cache\<close>

datatype edge_op =
    EPut pyfloat string json int pyfloat
  | EGet pyfloat string
  | EDelete string
  | EClear
  | ECleanup pyfloat

fun edge_step :: "edge_op \<Rightarrow> edge_cache \<Rightarrow> edge_cache option" where
  "edge_step (EPut t k v n ttl) c = edge_put t k v n ttl c"
| "edge_step (EGet t k) c = Some (fst (edge_get t k c))"
| "edge_step (EDelete k) c = Some (fst (edge_delete k c))"
| "edge_step EClear c = Some (fst (edge_clear c))"
| "edge_step (ECleanup t) c = Some (fst (edge_cleanup t c))"

fun edge_run :: "edge_op list \<Rightarrow> edge_cache \<Rightarrow> edge_cache option" where
  "edge_run [] c = Some c"
| "edge_run (op # ops) c = Option.bind (edge_step op c) (edge_run ops)"

fun op_size_ok :: "edge_op \<Rightarrow> bool" where
  "op_size_ok (EPut t k v n ttl) = (0 \<le> n)"
| "op_size_ok op = True"

definition edge_ok :: "edge_cache \<Rightarrow> bool" where
  "edge_ok c \<longleftrightarrow> ec.accounted c \<and> 0 < ec_max_entries c
     \<and> int (length (ec_entries c)) \<le> ec_max_entries c
     \<and> (\<forall>e \<in> set (dvalues (ec_entries c)). 0 \<le> ee_size_bytes e)
     \<and> (ec_current_size c \<le> ec_max_size_bytes c \<or> length (ec_entries c) \<le> 1)"

lemma remove_all_frame:
  "ec_max_entries (fold remove_entry ks c) = ec_max_entries c"
  "ec_max_size_bytes (fold remove_entry ks c) = ec_max_size_bytes c"
  by (induction ks arbitrary: c) simp_all

lemma edge_ok_remove_all: "edge_ok c \<Longrightarrow> edge_ok (fold remove_entry ks c)"
proof -
  assume ok: "edge_ok c"
  then have s: "\<forall>e \<in> set (dvalues (ec_entries c)). 0 \<le> ee_size_bytes e" unfolding edge_ok_def by blast
  note le = ec.in_use_remove_all_le [OF s, of ks]
  have "ec.accounted (fold remove_entry ks c)"
    using ok unfolding edge_ok_def by (intro ec.accounted_remove_all) blast
  with ok le show ?thesis unfolding edge_ok_def remove_all_frame by linarith
qed

lemma edge_ok_remove: "edge_ok c \<Longrightarrow> edge_ok (remove_entry k c)"
  using edge_ok_remove_all [of c "[k]"] by simp

lemma edge_ok_frame:
  "edge_ok c \<Longrightarrow> edge_ok (c\<lparr>ec_miss_count := m\<rparr>)" "edge_ok c \<Longrightarrow> edge_ok (c\<lparr>ec_hit_count := m\<rparr>)"
  by (auto simp: edge_ok_def ec.accounted_def)

text \<open>Replacing an entry by one of the same size.\<close>

lemma edge_ok_touch:
  assumes "edge_ok c" "dget (ec_entries c) k = Some e" "ee_size_bytes e' = ee_size_bytes e"
  shows "edge_ok (c\<lparr>ec_entries := dput k e' (ec_entries c)\<rparr>)"
proof -
  have wf: "dwf (ec_entries c)" using assms(1) by (simp add: edge_ok_def ec.accounted_def)
  have "0 \<le> ee_size_bytes e'"
    using dget_SomeD [OF assms(2)] assms(1,3) by (force simp: edge_ok_def)
  moreover have "length (dput k e' (ec_entries c)) = length (ec_entries c)"
    using assms(2) by (simp add: length_dput_known)
  ultimately show ?thesis
    using assms wf by (auto simp: edge_ok_def ec.accounted_def dsum_dput set_dput [OF wf])
qed

lemma evicted_values:
  assumes "evicted n c c'" "e \<in> set (dvalues (ec_entries c'))"
  shows "e \<in> set (dvalues (ec_entries c))"
proof -
  obtain k where "(k, e) \<in> set (ec_entries c')" using assms(2) by auto
  moreover have "dwf (ec_entries c')" using assms(1) by (simp add: evicted_def ec.accounted_def)
  ultimately have "dget (ec_entries c') k = Some e" by (simp add: dwf_dget_iff)
  with assms(1) have "dget (ec_entries c) k = Some e" unfolding evicted_def by (metis option.distinct(1))
  then show ?thesis using dget_SomeD by force
qed

text \<open>\<open>put\<close> returns, and is the eviction loop followed by one insertion.\<close>

lemma edge_put_cases:
  assumes "edge_ok c"
  obtains c1 where "evicted n (remove_entry k c) c1" "dget (ec_entries c1) k = None"
    "edge_put t k v n ttl c = Some (c1\<lparr>ec_entries := dput k \<lparr>ee_value = v, ee_size_bytes = n,
        ee_ttl_sec = ttl, ee_created_at = t, ee_accessed_at = t, ee_access_count = 0\<rparr> (ec_entries c1),
        ec_current_size := ec_current_size c1 + n\<rparr>)"
proof -
  have ok: "edge_ok (remove_entry k c)" by (rule edge_ok_remove [OF assms])
  then obtain c1 where c1: "evict_for n (remove_entry k c) = Some c1" "evicted n (remove_entry k c) c1"
    using evict_for_ends [of "remove_entry k c" n] by (auto simp: edge_ok_def)
  moreover have "dget (ec_entries c1) k = None"
  proof -
    have "dget (ec_entries (remove_entry k c)) k = None" by (simp add: ec.entries_remove)
    then show ?thesis using c1(2) unfolding evicted_def by metis
  qed
  ultimately show ?thesis using that by (simp add: edge_put_def)
qed

lemma edge_put_ok:
  assumes "edge_ok c" "0 \<le> n"
  shows "\<exists>c'. edge_put t k v n ttl c = Some c' \<and> edge_ok c'
    \<and> ec_max_entries c' = ec_max_entries c \<and> ec_max_size_bytes c' = ec_max_size_bytes c"
proof (rule edge_put_cases [OF assms(1), where k = k and n = n and t = t and v = v and ttl = ttl])
  fix c1 :: edge_cache
  let ?e = "\<lparr>ee_value = v, ee_size_bytes = n, ee_ttl_sec = ttl, ee_created_at = t, ee_accessed_at = t,
    ee_access_count = 0\<rparr>"
  assume ev: "evicted n (remove_entry k c) c1" and none: "dget (ec_entries c1) k = None"
    and put: "edge_put t k v n ttl c = Some (c1\<lparr>ec_entries := dput k ?e (ec_entries c1),
        ec_current_size := ec_current_size c1 + n\<rparr>)"
  have ok: "edge_ok (remove_entry k c)" by (rule edge_ok_remove [OF assms(1)])
  have d: "dput k ?e (ec_entries c1) = ec_entries c1 @ [(k, ?e)]"
    using none by (simp add: dput_new dget_None_iff)
  have wf: "dwf (ec_entries c1)" using ev by (simp add: evicted_def ec.accounted_def)
  have vals: "\<forall>e \<in> set (dvalues (ec_entries c1)). 0 \<le> ee_size_bytes e"
    using ok evicted_values [OF ev] unfolding edge_ok_def by blast
  have sum: "dsum ee_size_bytes (dput k ?e (ec_entries c1)) = dsum ee_size_bytes (ec_entries c1) + n"
    using dsum_dput [OF wf, of ee_size_bytes k ?e] none by simp
  let ?c = "c1\<lparr>ec_entries := dput k ?e (ec_entries c1), ec_current_size := ec_current_size c1 + n\<rparr>"
  have "ec.accounted ?c" using ev sum wf by (simp add: evicted_def ec.accounted_def)
  moreover have "int (length (ec_entries ?c)) \<le> ec_max_entries ?c" using ev d by (simp add: evicted_def)
  moreover have "\<forall>e \<in> set (dvalues (ec_entries ?c)). 0 \<le> ee_size_bytes e"
    using vals assms(2) d by auto
  moreover have "ec_current_size ?c \<le> ec_max_size_bytes ?c \<or> length (ec_entries ?c) \<le> 1"
    using ev d by (auto simp: evicted_def)
  moreover have "0 < ec_max_entries ?c" "ec_max_entries ?c = ec_max_entries c"
      "ec_max_size_bytes ?c = ec_max_size_bytes c"
    using ev assms(1) by (simp_all add: evicted_def edge_ok_def)
  ultimately show ?thesis unfolding put edge_ok_def by blast
qed

lemma edge_step_ok:
  assumes "edge_ok c" "op_size_ok op"
  shows "\<exists>c'. edge_step op c = Some c' \<and> edge_ok c'
    \<and> ec_max_entries c' = ec_max_entries c \<and> ec_max_size_bytes c' = ec_max_size_bytes c"
proof (cases op)
  case (EPut t k v n ttl)
  with edge_put_ok assms show ?thesis by simp
next
  case (EGet t k)
  with assms(1) show ?thesis
    by (auto simp: edge_get_def Let_def edge_ok_frame edge_ok_remove split: option.split
        intro!: edge_ok_touch edge_ok_frame)
next
  case (EDelete k)
  with assms(1) show ?thesis by (auto simp: edge_delete_def edge_ok_remove)
next
  case EClear
  with assms(1) show ?thesis by (simp add: edge_clear_def edge_ok_def ec.accounted_def)
next
  case (ECleanup t)
  with assms(1) show ?thesis by (simp add: edge_cleanup_def Let_def edge_ok_remove_all remove_all_frame)
qed

lemma edge_run_ok:
  "edge_ok c \<Longrightarrow> list_all op_size_ok ops \<Longrightarrow> \<exists>c'. edge_run ops c = Some c' \<and> edge_ok c'
    \<and> ec_max_entries c' = ec_max_entries c \<and> ec_max_size_bytes c' = ec_max_size_bytes c"
proof (induction ops arbitrary: c)
  case (Cons op ops)
  then obtain c1 where "edge_step op c = Some c1" "edge_ok c1"
      "ec_max_entries c1 = ec_max_entries c" "ec_max_size_bytes c1 = ec_max_size_bytes c"
    using edge_step_ok [of c op] by auto
  with Cons.IH [of c1] Cons.prems(2) show ?case by simp
qed simp

text \<open>
  C11: an edge cache with a positive entry limit keeps its bounds: every sequence of operations
  returns, and after it the cache holds at most the allowed number of entries, counts exactly the
  bytes of its entries, and is within its byte budget unless one single entry exceeds it alone.
\<close>

theorem edge_cache_bounded:
  assumes "0 < max_entries" "list_all op_size_ok ops"
  shows "\<exists>c. edge_run ops (new_edge_cache max_entries max_size) = Some c
    \<and> int (length (ec_entries c)) \<le> max_entries
    \<and> ec_current_size c = dsum ee_size_bytes (ec_entries c)
    \<and> (ec_current_size c \<le> max_size \<or> length (ec_entries c) \<le> 1)"
proof -
  have "edge_ok (new_edge_cache max_entries max_size)"
    using assms(1) by (simp add: new_edge_cache_def edge_ok_def ec.accounted_def)
  from edge_run_ok [OF this assms(2)] obtain c
    where c: "edge_run ops (new_edge_cache max_entries max_size) = Some c" "edge_ok c"
      "ec_max_entries c = max_entries" "ec_max_size_bytes c = max_size"
    by (auto simp: new_edge_cache_def)
  then show ?thesis by (auto simp: edge_ok_def ec.accounted_def)
qed

definition example_edge_ops :: "edge_op list" where
  "example_edge_ops =
     [EPut 1 ''a'' JNull 60 100, EPut 2 ''b'' (JBool True) 50 100, EGet 3 ''b'',
      EPut 4 ''c'' JNull 40 100, ECleanup 200]"

theorem edge_cache_bounded_witness:
  "\<exists>c. edge_run example_edge_ops (new_edge_cache 2 100) = Some c \<and> int (length (ec_entries c)) \<le> 2"
  using edge_cache_bounded [of 2 example_edge_ops 100] by (auto simp: example_edge_ops_def)

text \<open>
  a value that was put into the edge cache is read back until its time to live is over, and
  room is made for it by giving up only entries that were used no later than every entry that
  stays; all of these stay as they were.
\<close>

theorem edge_put_get:
  assumes "edge_ok c" "t' - t \<le> ttl"
  shows "\<exists>c'. edge_put t k v n ttl c = Some c' \<and> snd (edge_get t' k c') = Some v
    \<and> (\<forall>j e. j \<noteq> k \<longrightarrow> dget (ec_entries c) j = Some e \<longrightarrow>
          dget (ec_entries c') j = Some e
          \<or> dget (ec_entries c') j = None
            \<and> (\<forall>i f. i \<noteq> k \<longrightarrow> dget (ec_entries c') i = Some f \<longrightarrow> ee_accessed_at e \<le> ee_accessed_at f))"
proof (rule edge_put_cases [OF assms(1), where k = k and n = n and t = t and v = v and ttl = ttl])
  fix c1 :: edge_cache
  let ?e = "\<lparr>ee_value = v, ee_size_bytes = n, ee_ttl_sec = ttl, ee_created_at = t, ee_accessed_at = t,
    ee_access_count = 0\<rparr>"
  let ?c = "c1\<lparr>ec_entries := dput k ?e (ec_entries c1), ec_current_size := ec_current_size c1 + n\<rparr>"
  assume ev: "evicted n (remove_entry k c) c1" and put: "edge_put t k v n ttl c = Some ?c"
  have "snd (edge_get t' k ?c) = Some v"
    using assms(2) by (simp add: edge_get_def entry_expired_def)
  moreover have "dget (ec_entries ?c) j = Some e
      \<or> dget (ec_entries ?c) j = None
        \<and> (\<forall>i f. i \<noteq> k \<longrightarrow> dget (ec_entries ?c) i = Some f \<longrightarrow> ee_accessed_at e \<le> ee_accessed_at f)"
    if j: "j \<noteq> k" "dget (ec_entries c) j = Some e" for j e
  proof -
    have e: "dget (ec_entries (remove_entry k c)) j = Some e" using j by (simp add: ec.entries_remove)
    have other: "dget (ec_entries ?c) i = dget (ec_entries c1) i" if "i \<noteq> k" for i using that by simp
    from ev e have "dget (ec_entries c1) j = None \<or> dget (ec_entries c1) j = Some e"
      unfolding evicted_def by metis
    then show ?thesis
      using ev e other j(1) unfolding evicted_def by metis
  qed
  ultimately show ?thesis using put by blast
qed

theorem edge_put_get_witness:
  "\<exists>c'. edge_put 1 ''a'' JNull 10 5 (new_edge_cache 1 100) = Some c' \<and> snd (edge_get 6 ''a'' c') = Some JNull"
  using edge_put_get [of "new_edge_cache 1 100" 6 1 5 "''a''" JNull 10]
  by (auto simp: new_edge_cache_def edge_ok_def ec.accounted_def)

section \<open>The regional cache fabric\<close>

datatype cache_entry_type = CModel | CTokenizer | CEmbedding | CInferenceOutput

fun entry_type_name :: "cache_entry_type \<Rightarrow> string" where
  "entry_type_name CModel = ''model''"
| "entry_type_name CTokenizer = ''tokenizer''"
| "entry_type_name CEmbedding = ''embedding''"
| "entry_type_name CInferenceOutput = ''inference_output''"

record fabric_entry =
  fe_type :: cache_entry_type
  fe_region_id :: string
  fe_size_bytes :: int
  fe_ttl_sec :: pyfloat
  fe_created_at :: pyfloat
  fe_last_accessed :: pyfloat
  fe_access_count :: nat
  fe_invalidated :: bool

record cache_fabric =
  cf_local_region :: string
  cf_max_size_bytes :: int
  cf_warming_threshold :: nat
  cf_entries :: "(string, fabric_entry) dict"
  cf_current_size :: int
  cf_hit_count :: nat
  cf_miss_count :: nat
  cf_eviction_count :: nat
  cf_invalidation_count :: nat
  cf_warm :: "string set"

definition new_fabric :: "string \<Rightarrow> int \<Rightarrow> nat \<Rightarrow> cache_fabric" where
  "new_fabric region max_size threshold =
     \<lparr>cf_local_region = region, cf_max_size_bytes = max_size, cf_warming_threshold = threshold,
      cf_entries = [], cf_current_size = 0, cf_hit_count = 0, cf_miss_count = 0,
      cf_eviction_count = 0, cf_invalidation_count = 0, cf_warm = {}\<rparr>"

definition fabric_expired :: "pyfloat \<Rightarrow> fabric_entry \<Rightarrow> bool" where
  "fabric_expired now e \<longleftrightarrow> now - fe_created_at e > fe_ttl_sec e"

text \<open>\<open>del entries[key]\<close> or \<open>entries.pop(key)\<close> with the adjustment of the size.\<close>

definition drop_entry :: "string \<Rightarrow> cache_fabric \<Rightarrow> cache_fabric" where
  "drop_entry k c =
     (case dget (cf_entries c) k of
        None \<Rightarrow> c
      | Some e \<Rightarrow> c\<lparr>cf_entries := ddel k (cf_entries c),
                     cf_current_size := cf_current_size c - fe_size_bytes e\<rparr>)"

definition fabric_evict :: "cache_fabric \<Rightarrow> cache_fabric" where
  "fabric_evict c =
     (if cf_entries c = [] then c
      else let c1 = drop_entry (lru_key fe_last_accessed (cf_entries c)) c
           in c1\<lparr>cf_eviction_count := cf_eviction_count c1 + 1\<rparr>)"

lemma py_min_mem: "d \<noteq> [] \<Longrightarrow> lru_key used d \<in> fst ` set d"
  using py_min_in [of "\<lambda>p. used (snd p)" "hd d" "tl d"] by (cases d) (auto simp: lru_key_def)

lemma fabric_evict_less: "cf_entries c \<noteq> [] \<Longrightarrow> length (cf_entries (fabric_evict c)) < length (cf_entries c)"
proof -
  assume ne: "cf_entries c \<noteq> []"
  let ?k = "lru_key fe_last_accessed (cf_entries c)"
  have k: "?k \<in> fst ` set (cf_entries c)" by (rule py_min_mem [OF ne])
  then have "dget (cf_entries c) ?k \<noteq> None" by (simp only: dget_None_iff) simp
  then obtain e where "dget (cf_entries c) ?k = Some e" by blast
  then have "cf_entries (fabric_evict c) = ddel ?k (cf_entries c)"
    using ne by (simp add: fabric_evict_def drop_entry_def Let_def)
  with length_ddel_less [OF k] show ?thesis by simp
qed

text \<open>The loop of \<open>put\<close>; an empty cache ends it.\<close>

function fabric_make_room :: "int \<Rightarrow> cache_fabric \<Rightarrow> cache_fabric" where
  "fabric_make_room n c =
     (if cf_current_size c + n > cf_max_size_bytes c \<and> cf_entries c \<noteq> []
      then fabric_make_room n (fabric_evict c) else c)"
  by auto
termination
  by (relation "measure (\<lambda>(n, c). length (cf_entries c))") (auto intro: fabric_evict_less)

declare fabric_make_room.simps [simp del]

definition fabric_put ::
    "pyfloat \<Rightarrow> string \<Rightarrow> cache_entry_type \<Rightarrow> int \<Rightarrow> pyfloat \<Rightarrow> cache_fabric \<Rightarrow> cache_fabric" where
  "fabric_put t k ty n ttl c =
     (let e = \<lparr>fe_type = ty, fe_region_id = cf_local_region c, fe_size_bytes = n, fe_ttl_sec = ttl,
               fe_created_at = t, fe_last_accessed = t, fe_access_count = 0, fe_invalidated = False\<rparr>;
          c1 = fabric_make_room n c;
          c2 = (case dget (cf_entries c1) k of
                  Some old \<Rightarrow> c1\<lparr>cf_current_size := cf_current_size c1 - fe_size_bytes old\<rparr>
                | None \<Rightarrow> c1)
      in c2\<lparr>cf_entries := dput k e (cf_entries c2), cf_current_size := cf_current_size c2 + n\<rparr>)"

definition fabric_get :: "pyfloat \<Rightarrow> string \<Rightarrow> cache_fabric \<Rightarrow> cache_fabric \<times> fabric_entry option" where
  "fabric_get t k c =
     (case dget (cf_entries c) k of
        None \<Rightarrow> (c\<lparr>cf_miss_count := cf_miss_count c + 1\<rparr>, None)
      | Some e \<Rightarrow>
          if fabric_expired t e \<or> fe_invalidated e
          then let c1 = drop_entry k c in (c1\<lparr>cf_miss_count := cf_miss_count c1 + 1\<rparr>, None)
          else let e1 = e\<lparr>fe_last_accessed := t, fe_access_count := fe_access_count e + 1\<rparr>
               in (c\<lparr>cf_entries := dput k e1 (cf_entries c), cf_hit_count := cf_hit_count c + 1,
                     cf_warm := (if fe_access_count e1 \<ge> cf_warming_threshold c
                                 then insert k (cf_warm c) else cf_warm c)\<rparr>, Some e1))"

text \<open>What \<open>invalidate\<close> tells the other regions is the second component, if anything.\<close>

definition fabric_invalidate ::
    "bool \<Rightarrow> string \<Rightarrow> cache_fabric \<Rightarrow> cache_fabric \<times> (string \<times> string) option \<times> bool" where
  "fabric_invalidate propagate k c =
     (case dget (cf_entries c) k of
        None \<Rightarrow> (c, None, False)
      | Some e \<Rightarrow>
          (c\<lparr>cf_entries := dput k (e\<lparr>fe_invalidated := True\<rparr>) (cf_entries c),
             cf_invalidation_count := cf_invalidation_count c + 1\<rparr>,
           if propagate then Some (k, cf_local_region c) else None, True))"

definition to_invalidate :: "cache_entry_type \<Rightarrow> fabric_entry \<Rightarrow> bool" where
  "to_invalidate ty e \<longleftrightarrow> fe_type e = ty \<and> \<not> fe_invalidated e"

definition fabric_invalidate_type ::
    "bool \<Rightarrow> cache_entry_type \<Rightarrow> cache_fabric \<Rightarrow> cache_fabric \<times> (string \<times> string) option \<times> nat" where
  "fabric_invalidate_type propagate ty c =
     (let n = length (filter (to_invalidate ty) (dvalues (cf_entries c)))
      in (c\<lparr>cf_entries := dmap (\<lambda>k e. if to_invalidate ty e then e\<lparr>fe_invalidated := True\<rparr> else e)
               (cf_entries c),
            cf_invalidation_count := cf_invalidation_count c + n\<rparr>,
          if propagate \<and> n > 0 then Some (''type:'' @ entry_type_name ty, cf_local_region c) else None, n))"

definition receive_invalidation :: "string \<Rightarrow> string \<Rightarrow> cache_fabric \<Rightarrow> cache_fabric" where
  "receive_invalidation k source c =
     (if source = cf_local_region c then c else fst (fabric_invalidate False k c))"

definition get_warm_candidates :: "cache_fabric \<Rightarrow> cache_fabric \<times> string set" where
  "get_warm_candidates c = (c\<lparr>cf_warm := {}\<rparr>, cf_warm c)"

definition fabric_cleanup :: "pyfloat \<Rightarrow> cache_fabric \<Rightarrow> cache_fabric \<times> nat" where
  "fabric_cleanup t c =
     (let dead = map fst (filter (\<lambda>p. fabric_expired t (snd p) \<or> fe_invalidated (snd p)) (cf_entries c));
          c1 = fold drop_entry dead c
      in (c1\<lparr>cf_eviction_count := cf_eviction_count c1 + length dead\<rparr>, length dead))"

interpretation cf: accounted_store cf_entries cf_current_size fe_size_bytes drop_entry
  by unfold_locales (simp_all add: drop_entry_def ddel_None split: option.split)

lemma drop_entry_frame [simp]:
  "cf_max_size_bytes (drop_entry k c) = cf_max_size_bytes c"
  "cf_local_region (drop_entry k c) = cf_local_region c"
  by (simp_all add: drop_entry_def split: option.split)

lemma drop_all_frame [simp]:
  "cf_max_size_bytes (fold drop_entry ks c) = cf_max_size_bytes c"
  "cf_local_region (fold drop_entry ks c) = cf_local_region c"
  by (induction ks arbitrary: c) simp_all

definition fabric_ok :: "cache_fabric \<Rightarrow> bool" where
  "fabric_ok c \<longleftrightarrow> cf.accounted c \<and> (\<forall>e \<in> set (dvalues (cf_entries c)). 0 \<le> fe_size_bytes e)
     \<and> (cf_current_size c \<le> cf_max_size_bytes c \<or> length (cf_entries c) \<le> 1)"

lemma fabric_ok_frame:
  "fabric_ok c \<Longrightarrow> fabric_ok (c\<lparr>cf_miss_count := m\<rparr>)" "fabric_ok c \<Longrightarrow> fabric_ok (c\<lparr>cf_hit_count := m\<rparr>)"
  "fabric_ok c \<Longrightarrow> fabric_ok (c\<lparr>cf_eviction_count := m\<rparr>)"
  "fabric_ok c \<Longrightarrow> fabric_ok (c\<lparr>cf_invalidation_count := m\<rparr>)"
  "fabric_ok c \<Longrightarrow> fabric_ok (c\<lparr>cf_warm := w\<rparr>)"
  by (auto simp: fabric_ok_def cf.accounted_def)

lemma fabric_ok_drop_all: "fabric_ok c \<Longrightarrow> fabric_ok (fold drop_entry ks c)"
proof -
  assume ok: "fabric_ok c"
  then have s: "\<forall>e \<in> set (dvalues (cf_entries c)). 0 \<le> fe_size_bytes e" unfolding fabric_ok_def by blast
  note le = cf.in_use_remove_all_le [OF s, of ks]
  have "cf.accounted (fold drop_entry ks c)"
    using ok unfolding fabric_ok_def by (intro cf.accounted_remove_all) blast
  with ok le show ?thesis unfolding fabric_ok_def drop_all_frame by linarith
qed

lemma fabric_ok_drop: "fabric_ok c \<Longrightarrow> fabric_ok (drop_entry k c)"
  using fabric_ok_drop_all [of c "[k]"] by simp

lemma fabric_evict_drop:
  obtains k where "cf_entries c \<noteq> []" "fabric_evict c = (drop_entry k c)\<lparr>cf_eviction_count := cf_eviction_count (drop_entry k c) + 1\<rparr>"
  | "cf_entries c = []" "fabric_evict c = c"
  by (auto simp: fabric_evict_def Let_def)

lemma fabric_evict_ok: "fabric_ok c \<Longrightarrow> fabric_ok (fabric_evict c)"
  by (cases rule: fabric_evict_drop [of c]) (simp_all add: fabric_ok_drop fabric_ok_frame del: One_nat_def)

lemma fabric_evict_frame:
  "cf_max_size_bytes (fabric_evict c) = cf_max_size_bytes c"
  "cf_local_region (fabric_evict c) = cf_local_region c"
  "dget (cf_entries (fabric_evict c)) k = None \<or> dget (cf_entries (fabric_evict c)) k = dget (cf_entries c) k"
  by (cases rule: fabric_evict_drop [of c]; simp add: cf.entries_remove)+

lemma make_room_spec:
  "fabric_ok c \<Longrightarrow> fabric_ok (fabric_make_room n c)
     \<and> cf_max_size_bytes (fabric_make_room n c) = cf_max_size_bytes c
     \<and> cf_local_region (fabric_make_room n c) = cf_local_region c
     \<and> (cf_entries (fabric_make_room n c) = []
        \<or> cf_current_size (fabric_make_room n c) + n \<le> cf_max_size_bytes c)
     \<and> (dget (cf_entries (fabric_make_room n c)) k = None
        \<or> dget (cf_entries (fabric_make_room n c)) k = dget (cf_entries c) k)"
proof (induction n c rule: fabric_make_room.induct)
  case (1 n c)
  show ?case
  proof (cases "cf_current_size c + n > cf_max_size_bytes c \<and> cf_entries c \<noteq> []")
    case True
    note IH = "1.IH" [OF True fabric_evict_ok [OF "1.prems"]]
    have "fabric_make_room n c = fabric_make_room n (fabric_evict c)"
      using True by (simp add: fabric_make_room.simps [of n c])
    with IH fabric_evict_frame(3) [of c k] fabric_evict_frame(1,2) [of c] show ?thesis by auto
  next
    case False
    then have "fabric_make_room n c = c" by (subst fabric_make_room.simps) auto
    with False "1.prems" show ?thesis by auto
  qed
qed

lemma fabric_ok_replace:
  assumes "fabric_ok c" "dget (cf_entries c) k = Some e" "fe_size_bytes e' = fe_size_bytes e"
  shows "fabric_ok (c\<lparr>cf_entries := dput k e' (cf_entries c)\<rparr>)"
proof -
  have wf: "dwf (cf_entries c)" using assms(1) by (simp add: fabric_ok_def cf.accounted_def)
  have "0 \<le> fe_size_bytes e'"
    using dget_SomeD [OF assms(2)] assms(1,3) by (force simp: fabric_ok_def)
  moreover have "length (dput k e' (cf_entries c)) = length (cf_entries c)"
    using assms(2) by (simp add: length_dput_known)
  ultimately show ?thesis
    using assms wf by (auto simp: fabric_ok_def cf.accounted_def dsum_dput set_dput [OF wf])
qed

lemma fabric_put_ok:
  assumes "fabric_ok c" "0 \<le> n"
  shows "fabric_ok (fabric_put t k ty n ttl c)"
    "cf_max_size_bytes (fabric_put t k ty n ttl c) = cf_max_size_bytes c"
    "cf_local_region (fabric_put t k ty n ttl c) = cf_local_region c"
    "j \<noteq> k \<Longrightarrow> dget (cf_entries (fabric_put t k ty n ttl c)) j = None
       \<or> dget (cf_entries (fabric_put t k ty n ttl c)) j = dget (cf_entries c) j"
proof -
  let ?c1 = "fabric_make_room n c"
  let ?old = "case dget (cf_entries ?c1) k of Some e \<Rightarrow> fe_size_bytes e | None \<Rightarrow> 0"
  let ?e = "\<lparr>fe_type = ty, fe_region_id = cf_local_region c, fe_size_bytes = n, fe_ttl_sec = ttl,
    fe_created_at = t, fe_last_accessed = t, fe_access_count = 0, fe_invalidated = False\<rparr>"
  note room = make_room_spec [OF assms(1), of n]
  have put: "fabric_put t k ty n ttl c = ?c1\<lparr>cf_entries := dput k ?e (cf_entries ?c1),
      cf_current_size := cf_current_size ?c1 - ?old + n\<rparr>"
    by (auto simp: fabric_put_def Let_def split: option.split)
  have ok1: "fabric_ok ?c1" using room by blast
  then have wf: "dwf (cf_entries ?c1)" and size1: "cf_current_size ?c1 = dsum fe_size_bytes (cf_entries ?c1)"
    and nn: "\<forall>p \<in> set (cf_entries ?c1). 0 \<le> fe_size_bytes (snd p)"
    by (auto simp: fabric_ok_def cf.accounted_def)
  have old: "0 \<le> ?old" using nn by (auto split: option.split dest!: dget_SomeD)
  have vals: "\<forall>p \<in> set (dput k ?e (cf_entries ?c1)). 0 \<le> fe_size_bytes (snd p)"
    using nn assms(2) by (auto simp: set_dput [OF wf])
  have small: "cf_current_size ?c1 - ?old + n \<le> cf_max_size_bytes c
      \<or> length (dput k ?e (cf_entries ?c1)) \<le> 1"
  proof (cases "cf_entries ?c1 = []")
    case False
    with room have "cf_current_size ?c1 + n \<le> cf_max_size_bytes c" by blast
    with old show ?thesis by linarith
  qed simp
  show "fabric_ok (fabric_put t k ty n ttl c)"
    using vals small size1 wf room
    by (simp add: put fabric_ok_def cf.accounted_def dsum_dput del: One_nat_def)
  show "cf_max_size_bytes (fabric_put t k ty n ttl c) = cf_max_size_bytes c"
    "cf_local_region (fabric_put t k ty n ttl c) = cf_local_region c"
    using room by (simp_all add: put)
  show "j \<noteq> k \<Longrightarrow> dget (cf_entries (fabric_put t k ty n ttl c)) j = None
       \<or> dget (cf_entries (fabric_put t k ty n ttl c)) j = dget (cf_entries c) j"
    using make_room_spec [OF assms(1), of n j] by (simp add: put)
qed

lemma fabric_invalidate_type_ok: "fabric_ok c \<Longrightarrow> fabric_ok (fst (fabric_invalidate_type propagate ty c))"
proof -
  assume ok: "fabric_ok c"
  let ?g = "\<lambda>k e. if to_invalidate ty e then e\<lparr>fe_invalidated := True\<rparr> else e"
  have "dsum fe_size_bytes (dmap ?g (cf_entries c)) = dsum fe_size_bytes (cf_entries c)"
    by (rule dsum_dmap) simp
  moreover have "\<forall>p \<in> set (dmap ?g (cf_entries c)). 0 \<le> fe_size_bytes (snd p)"
    using ok by (auto simp: fabric_ok_def dmap_def)
  ultimately show ?thesis
    using ok by (auto simp: fabric_invalidate_type_def Let_def fabric_ok_def cf.accounted_def)
qed

section \<open>Runs of the fabric\<close>

datatype fabric_op =
    FPut pyfloat string cache_entry_type int pyfloat
  | FGet pyfloat string
  | FInvalidate bool string
  | FInvalidateType cache_entry_type
  | FReceive string string
  | FWarm
  | FCleanup pyfloat

fun fabric_step :: "fabric_op \<Rightarrow> cache_fabric \<Rightarrow> cache_fabric" where
  "fabric_step (FPut t k ty n ttl) c = fabric_put t k ty n ttl c"
| "fabric_step (FGet t k) c = fst (fabric_get t k c)"
| "fabric_step (FInvalidate p k) c = fst (fabric_invalidate p k c)"
| "fabric_step (FInvalidateType ty) c = fst (fabric_invalidate_type True ty c)"
| "fabric_step (FReceive k source) c = receive_invalidation k source c"
| "fabric_step FWarm c = fst (get_warm_candidates c)"
| "fabric_step (FCleanup t) c = fst (fabric_cleanup t c)"

fun fabric_size_ok :: "fabric_op \<Rightarrow> bool" where
  "fabric_size_ok (FPut t k ty n ttl) = (0 \<le> n)"
| "fabric_size_ok op = True"

lemma fabric_invalidate_ok: "fabric_ok c \<Longrightarrow> fabric_ok (fst (fabric_invalidate p k c))"
  by (auto simp: fabric_invalidate_def split: option.split intro!: fabric_ok_frame fabric_ok_replace)

lemma fabric_step_ok: "fabric_ok c \<Longrightarrow> fabric_size_ok op \<Longrightarrow> fabric_ok (fabric_step op c)"
  by (cases op)
    (auto simp: fabric_get_def fabric_put_ok fabric_invalidate_ok fabric_invalidate_type_ok Let_def
      receive_invalidation_def get_warm_candidates_def fabric_cleanup_def fabric_ok_drop fabric_ok_drop_all
      split: option.split intro!: fabric_ok_frame fabric_ok_replace)

lemma fabric_step_max: "fabric_ok c \<Longrightarrow> fabric_size_ok op \<Longrightarrow>
    cf_max_size_bytes (fabric_step op c) = cf_max_size_bytes c"
  by (cases op)
    (auto simp: fabric_get_def fabric_put_ok fabric_invalidate_def fabric_invalidate_type_def Let_def
      receive_invalidation_def get_warm_candidates_def fabric_cleanup_def split: option.split)

lemma fabric_run_ok:
  "fabric_ok c \<Longrightarrow> list_all fabric_size_ok ops \<Longrightarrow> fabric_ok (fold fabric_step ops c)
    \<and> cf_max_size_bytes (fold fabric_step ops c) = cf_max_size_bytes c"
  by (induction ops arbitrary: c) (simp_all add: fabric_step_ok fabric_step_max)

text \<open>
  the cache fabric never loses count: after any sequence of puts, reads, invalidations and
  clean-ups the size it records is the sum of the sizes of its entries, and it is within the budget
  unless a single entry exceeds it alone.
\<close>

theorem fabric_accounting:
  assumes "list_all fabric_size_ok ops"
  shows "cf_current_size (fold fabric_step ops (new_fabric region max_size threshold))
      = dsum fe_size_bytes (cf_entries (fold fabric_step ops (new_fabric region max_size threshold)))
    \<and> (cf_current_size (fold fabric_step ops (new_fabric region max_size threshold)) \<le> max_size
       \<or> length (cf_entries (fold fabric_step ops (new_fabric region max_size threshold))) \<le> 1)"
proof -
  have "fabric_ok (new_fabric region max_size threshold)"
    by (simp add: fabric_ok_def cf.accounted_def new_fabric_def)
  moreover have "cf_max_size_bytes (new_fabric region max_size threshold) = max_size"
    by (simp add: new_fabric_def)
  ultimately show ?thesis
    using fabric_run_ok [OF _ assms] unfolding fabric_ok_def cf.accounted_def by metis
qed

definition example_fabric_ops :: "fabric_op list" where
  "example_fabric_ops =
     [FPut 1 ''a'' CModel 60 100, FPut 2 ''b'' CTokenizer 70 100, FGet 3 ''b'', FPut 4 ''b'' CModel 20 100,
      FInvalidateType CModel, FCleanup 5]"

theorem fabric_accounting_witness:
  "cf_current_size (fold fabric_step example_fabric_ops (new_fabric ''eu'' 100 5))
   = dsum fe_size_bytes (cf_entries (fold fabric_step example_fabric_ops (new_fabric ''eu'' 100 5)))"
  using fabric_accounting [of example_fabric_ops "''eu''" 100 5] by (simp add: example_fabric_ops_def)

text \<open>An entry that a read must not return any more.\<close>

definition fabric_stale :: "string \<Rightarrow> cache_fabric \<Rightarrow> bool" where
  "fabric_stale k c \<longleftrightarrow> (case dget (cf_entries c) k of None \<Rightarrow> True | Some e \<Rightarrow> fe_invalidated e)"

fun puts_key :: "string \<Rightarrow> fabric_op \<Rightarrow> bool" where
  "puts_key k (FPut t j ty n ttl) = (j = k)"
| "puts_key k op = False"

lemma fabric_stale_sub:
  "fabric_stale k c \<Longrightarrow> dget (cf_entries c') k = None \<or> dget (cf_entries c') k = dget (cf_entries c) k
    \<Longrightarrow> fabric_stale k c'"
  by (auto simp: fabric_stale_def split: option.splits)

lemma fabric_stale_step:
  assumes "fabric_ok c" "fabric_stale k c" "fabric_size_ok op" "\<not> puts_key k op"
  shows "fabric_stale k (fabric_step op c)"
proof (cases op)
  case (FPut t j ty n ttl)
  with assms fabric_put_ok(4) [of c n k j t ty ttl] show ?thesis by (auto intro: fabric_stale_sub)
next
  case (FGet t j)
  with assms show ?thesis
    by (auto simp: fabric_get_def fabric_stale_def Let_def cf.entries_remove split: option.splits)
next
  case (FInvalidate p j)
  with assms show ?thesis by (auto simp: fabric_invalidate_def fabric_stale_def split: option.splits)
next
  case (FInvalidateType ty)
  with assms show ?thesis
    by (auto simp: fabric_invalidate_type_def fabric_stale_def Let_def split: option.splits)
next
  case (FReceive j source)
  with assms show ?thesis
    by (auto simp: receive_invalidation_def fabric_invalidate_def fabric_stale_def split: option.splits)
next
  case FWarm
  with assms show ?thesis by (simp add: get_warm_candidates_def fabric_stale_def)
next
  case (FCleanup t)
  with assms show ?thesis
    by (auto simp: fabric_cleanup_def Let_def cf.dget_remove_all intro!: fabric_stale_sub [OF assms(2)])
qed

lemma fabric_stale_run:
  "fabric_ok c \<Longrightarrow> fabric_stale k c \<Longrightarrow> list_all fabric_size_ok ops
    \<Longrightarrow> list_all (\<lambda>op. \<not> puts_key k op) ops \<Longrightarrow> fabric_stale k (fold fabric_step ops c)"
  by (induction ops arbitrary: c) (simp_all add: fabric_stale_step fabric_step_ok)

text \<open>
  an invalidation that arrives from another region takes effect at once and for good: no read
  of the key returns anything until the key is put again, whatever else happens in the cache.
\<close>

theorem invalidation_sticks:
  assumes "fabric_ok c" "source \<noteq> cf_local_region c"
    and "list_all fabric_size_ok ops" "list_all (\<lambda>op. \<not> puts_key k op) ops"
  shows "snd (fabric_get t k (fold fabric_step ops (receive_invalidation k source c))) = None"
proof -
  have "fabric_ok (receive_invalidation k source c)"
    using assms(1,2) by (simp add: receive_invalidation_def fabric_invalidate_ok)
  moreover have "fabric_stale k (receive_invalidation k source c)"
    using assms(2) by (simp add: receive_invalidation_def fabric_invalidate_def fabric_stale_def split: option.split)
  ultimately have "fabric_stale k (fold fabric_step ops (receive_invalidation k source c))"
    using fabric_stale_run assms(3,4) by blast
  then show ?thesis by (auto simp: fabric_stale_def fabric_get_def Let_def split: option.splits)
qed

theorem invalidation_sticks_witness:
  "snd (fabric_get 4 ''m'' (fold fabric_step [FPut 3 ''x'' CModel 1 100, FGet 3 ''m'']
     (receive_invalidation ''m'' ''us'' (fabric_put 1 ''m'' CModel 10 100 (new_fabric ''eu'' 100 5))))) = None"
proof -
  have "fabric_ok (fabric_put 1 ''m'' CModel 10 100 (new_fabric ''eu'' 100 5))"
    by (rule fabric_put_ok) (simp_all add: fabric_ok_def cf.accounted_def new_fabric_def)
  moreover have "cf_local_region (fabric_put 1 ''m'' CModel 10 100 (new_fabric ''eu'' 100 5)) = ''eu''"
    by code_simp
  ultimately show ?thesis by (intro invalidation_sticks) simp_all
qed

text \<open>
  The bulk invalidation names its type in place of a key, but the receiving side looks the name up
  among its keys: the other regions keep every entry of that type.
\<close>

lemma bulk_invalidation_stays_local:
  assumes "snd (fabric_invalidate_type True ty c) = (Some (msg, source), n)"
    and "dget (cf_entries other) (''type:'' @ entry_type_name ty) = None"
  shows "receive_invalidation msg source other = other"
  using assms by (auto simp: fabric_invalidate_type_def receive_invalidation_def fabric_invalidate_def Let_def split: if_splits)

end
