(* ===== verification/EdgeRuntime.thy ===== *)
theory EdgeRuntime
  imports Caches
begin

text \<open>
  \<open>edge/edge_runtime.py\<close>: the runtime of an edge node with its two-level result cache (memory over
  SQLite), its outbox and its connection state; the background thread is modelled by its turns.
  Further the small buffers of an edge node: \<open>edge/edge_node.py\<close> (a persistent outbox),
  \<open>edge/offline_sync.py\<close> (batching with a byte limit) and \<open>edge/delayed_jobs.py\<close> (jobs by their
  time of delivery). A result is a JSON object; the empty one counts as no result. What the sync
  callback does is an argument: absent, or whether it returns or raises.
\<close>

section \<open>State\<close>

datatype edge_state = EOnline | EOffline | ESyncing | EDegraded

type_synonym result = "(string \<times> json) list"

record local_entry =
  le_data :: result
  le_accessed_at :: pyfloat
  le_access_count :: nat

record db_entry =
  dbe_payload :: result
  dbe_created_at :: pyfloat
  dbe_accessed_at :: pyfloat
  dbe_access_count :: nat

record out_row =
  or_id :: nat
  or_payload :: json
  or_created_at :: pyfloat
  or_synced :: bool

record edge_runtime =
  er_node_id :: string
  er_cache_max_entries :: int
  er_state :: edge_state
  er_connected :: bool
  er_local :: "(string, local_entry) dict"
  er_db_cache :: "(string, db_entry) dict"
  er_outbox :: "out_row list"
  er_next_id :: nat
  er_requests_served :: nat
  er_cache_hits :: nat
  er_cache_misses :: nat
  er_offline_requests :: nat

text \<open>A runtime with a fresh database.\<close>

definition new_runtime :: "string \<Rightarrow> int \<Rightarrow> edge_runtime" where
  "new_runtime node_id cache_max =
     \<lparr>er_node_id = node_id, er_cache_max_entries = cache_max, er_state = EOnline,
      er_connected = True, er_local = [], er_db_cache = [], er_outbox = [], er_next_id = 1,
      er_requests_served = 0, er_cache_hits = 0, er_cache_misses = 0, er_offline_requests = 0\<rparr>"

section \<open>The cache\<close>

definition get_cache :: "pyfloat \<Rightarrow> string \<Rightarrow> edge_runtime \<Rightarrow> edge_runtime \<times> result option" where
  "get_cache t k r =
     (case dget (er_local r) k of
        Some e \<Rightarrow>
          (r\<lparr>er_local := dput k (e\<lparr>le_accessed_at := t, le_access_count := le_access_count e + 1\<rparr>)
              (er_local r)\<rparr>, Some (le_data e))
      | None \<Rightarrow>
          (case dget (er_db_cache r) k of
             Some e \<Rightarrow>
               (r\<lparr>er_db_cache := dput k (e\<lparr>dbe_accessed_at := t, dbe_access_count := dbe_access_count e + 1\<rparr>)
                   (er_db_cache r),
                  er_local := dput k \<lparr>le_data = dbe_payload e, le_accessed_at = t, le_access_count = 1\<rparr>
                   (er_local r)\<rparr>, Some (dbe_payload e))
           | None \<Rightarrow> (r, None)))"

definition put_cache :: "pyfloat \<Rightarrow> string \<Rightarrow> result \<Rightarrow> edge_runtime \<Rightarrow> edge_runtime" where
  "put_cache t k data r =
     (let l = dput k \<lparr>le_data = data, le_accessed_at = t, le_access_count = 0\<rparr> (er_local r);
          l' = (if int (length l) > er_cache_max_entries r then ddel (lru_key le_accessed_at l) l else l)
      in r\<lparr>er_local := l',
           er_db_cache := dput k \<lparr>dbe_payload = data, dbe_created_at = t, dbe_accessed_at = t,
             dbe_access_count = 0\<rparr> (er_db_cache r)\<rparr>)"

section \<open>Requests, results and the connection\<close>

definition handle_request :: "pyfloat \<Rightarrow> string \<Rightarrow> edge_runtime \<Rightarrow> edge_runtime \<times> result option" where
  "handle_request t k r =
     (let (r1, cached) = get_cache t k (r\<lparr>er_requests_served := er_requests_served r + 1\<rparr>)
      in if cached \<noteq> None \<and> cached \<noteq> Some []
         then (r1\<lparr>er_cache_hits := er_cache_hits r1 + 1\<rparr>, cached)
         else let r2 = r1\<lparr>er_cache_misses := er_cache_misses r1 + 1\<rparr>
              in (if \<not> er_connected r2 then r2\<lparr>er_offline_requests := er_offline_requests r2 + 1\<rparr> else r2,
                  None))"

definition enqueue_outbox :: "pyfloat \<Rightarrow> json \<Rightarrow> edge_runtime \<Rightarrow> edge_runtime" where
  "enqueue_outbox t payload r =
     r\<lparr>er_outbox := er_outbox r @ [\<lparr>or_id = er_next_id r, or_payload = payload, or_created_at = t,
          or_synced = False\<rparr>],
       er_next_id := er_next_id r + 1\<rparr>"

definition result_message :: "pyfloat \<Rightarrow> string \<Rightarrow> edge_runtime \<Rightarrow> json" where
  "result_message t k r =
     JObj [(''type'', JStr ''inference_result''), (''node_id'', JStr (er_node_id r)),
           (''request_key'', JStr k), (''ts'', JNum t)]"

definition store_result :: "pyfloat \<Rightarrow> string \<Rightarrow> result \<Rightarrow> edge_runtime \<Rightarrow> edge_runtime" where
  "store_result t k data r =
     (let r1 = put_cache t k data r in enqueue_outbox t (result_message t k r1) r1)"

definition set_connected :: "bool \<Rightarrow> edge_runtime \<Rightarrow> edge_runtime" where
  "set_connected c r =
     (let r1 = r\<lparr>er_connected := c\<rparr>
      in if c \<and> \<not> er_connected r then r1\<lparr>er_state := ESyncing\<rparr>
         else if \<not> c \<and> er_connected r then r1\<lparr>er_state := EOffline\<rparr> else r1)"

section \<open>The outbox\<close>

definition unsynced :: "edge_runtime \<Rightarrow> out_row list" where
  "unsynced r = filter (\<lambda>row. \<not> or_synced row) (er_outbox r)"

definition mark_synced :: "nat list \<Rightarrow> out_row list \<Rightarrow> out_row list" where
  "mark_synced ids rows = map (\<lambda>row. if or_id row \<in> set ids then row\<lparr>or_synced := True\<rparr> else row) rows"

definition settle :: "edge_runtime \<Rightarrow> edge_runtime" where
  "settle r = (if er_state r = ESyncing then r\<lparr>er_state := EOnline\<rparr> else r)"

text \<open>The runtime and the payloads that the callback took.\<close>

definition flush_outbox :: "bool option \<Rightarrow> edge_runtime \<Rightarrow> edge_runtime \<times> json list" where
  "flush_outbox on_sync r =
     (let rows = take 100 (unsynced r)
      in if rows = [] then (settle r, [])
         else if on_sync = Some False then (r, [])
         else let r1 = r\<lparr>er_outbox := mark_synced (map or_id rows) (er_outbox r)\<rparr>
              in (if unsynced r1 = [] then settle r1 else r1,
                  if on_sync = None then [] else map or_payload rows))"

definition sync_turn :: "bool option \<Rightarrow> edge_runtime \<Rightarrow> edge_runtime \<times> json list" where
  "sync_turn on_sync r = (if er_connected r then flush_outbox on_sync r else (r, []))"

section \<open>Runs\<close>

datatype runtime_op =
    Request pyfloat string
  | Store pyfloat string result
  | SetConnected bool
  | SyncTurn bool

text \<open>With a callback in place; the flag of a turn says whether the callback returns.\<close>

fun runtime_step :: "runtime_op \<Rightarrow> edge_runtime \<times> json list \<Rightarrow> edge_runtime \<times> json list" where
  "runtime_step (Request t k) (r, sent) = (fst (handle_request t k r), sent)"
| "runtime_step (Store t k data) (r, sent) = (store_result t k data r, sent)"
| "runtime_step (SetConnected c) (r, sent) = (set_connected c r, sent)"
| "runtime_step (SyncTurn ok) (r, sent) =
     (let (r1, batch) = sync_turn (Some ok) r in (r1, sent @ batch))"

lemma get_cache_frame [simp]:
  "er_outbox (fst (get_cache t k r)) = er_outbox r" "er_next_id (fst (get_cache t k r)) = er_next_id r"
  "er_connected (fst (get_cache t k r)) = er_connected r" "er_state (fst (get_cache t k r)) = er_state r"
  "er_node_id (fst (get_cache t k r)) = er_node_id r"
  by (simp_all add: get_cache_def split: option.split)

lemma handle_request_frame [simp]:
  "er_outbox (fst (handle_request t k r)) = er_outbox r"
  "er_next_id (fst (handle_request t k r)) = er_next_id r"
  "er_connected (fst (handle_request t k r)) = er_connected r"
  "er_state (fst (handle_request t k r)) = er_state r"
  "er_node_id (fst (handle_request t k r)) = er_node_id r"
  by (simp_all add: handle_request_def Let_def case_prod_unfold)

lemma put_cache_frame [simp]:
  "er_outbox (put_cache t k d r) = er_outbox r" "er_next_id (put_cache t k d r) = er_next_id r"
  "er_connected (put_cache t k d r) = er_connected r" "er_state (put_cache t k d r) = er_state r"
  "er_node_id (put_cache t k d r) = er_node_id r"
  by (simp_all add: put_cache_def Let_def)

section \<open>The outbox delivers in order\<close>

definition outbox_ok :: "edge_runtime \<Rightarrow> json list \<Rightarrow> bool" where
  "outbox_ok r sent \<longleftrightarrow> distinct (map or_id (er_outbox r))
     \<and> (\<forall>x \<in> set (er_outbox r). or_id x < er_next_id r)
     \<and> (\<exists>pre post. er_outbox r = pre @ post \<and> (\<forall>x \<in> set pre. or_synced x)
          \<and> (\<forall>x \<in> set post. \<not> or_synced x) \<and> sent = map or_payload pre)"

lemma outbox_ok_sent: "outbox_ok r sent \<Longrightarrow> sent @ map or_payload (unsynced r) = map or_payload (er_outbox r)"
  by (auto simp: outbox_ok_def unsynced_def filter_empty_conv filter_id_conv)

lemma mark_synced_prefix:
  assumes "distinct (map or_id (pre @ rows @ post))"
  shows "mark_synced (map or_id rows) (pre @ rows @ post)
       = pre @ map (\<lambda>x. x\<lparr>or_synced := True\<rparr>) rows @ post"
proof -
  have other: "mark_synced (map or_id rows) xs = xs" if "or_id ` set xs \<inter> or_id ` set rows = {}" for xs
  proof -
    have "or_id x \<notin> set (map or_id rows)" if "x \<in> set xs" for x
      using that \<open>or_id ` set xs \<inter> or_id ` set rows = {}\<close> by auto
    then show ?thesis by (auto simp: mark_synced_def intro: map_idI)
  qed
  have "mark_synced (map or_id rows) pre = pre" using assms by (intro other) auto
  moreover have "mark_synced (map or_id rows) post = post" using assms by (intro other) auto
  moreover have "mark_synced (map or_id rows) rows = map (\<lambda>x. x\<lparr>or_synced := True\<rparr>) rows"
    by (simp add: mark_synced_def)
  ultimately show ?thesis by (simp add: mark_synced_def)
qed

lemma settle_frame [simp]:
  "er_outbox (settle r) = er_outbox r" "er_next_id (settle r) = er_next_id r"
  "er_connected (settle r) = er_connected r" "er_node_id (settle r) = er_node_id r"
  "er_local (settle r) = er_local r" "er_db_cache (settle r) = er_db_cache r"
  by (simp_all add: settle_def)

text \<open>A flush that succeeds takes the next hundred rows.\<close>

lemma flush_outbox_ok:
  assumes "outbox_ok r sent"
  shows "outbox_ok (fst (flush_outbox (Some ok) r)) (sent @ snd (flush_outbox (Some ok) r))"
    "map or_payload (er_outbox (fst (flush_outbox (Some ok) r))) = map or_payload (er_outbox r)"
    "ok \<Longrightarrow> length (unsynced (fst (flush_outbox (Some ok) r))) = length (unsynced r) - 100"
proof -
  obtain pre post where p: "er_outbox r = pre @ post" "\<forall>x \<in> set pre. or_synced x"
      "\<forall>x \<in> set post. \<not> or_synced x" "sent = map or_payload pre"
    using assms unfolding outbox_ok_def by blast
  have un: "unsynced r = post" using p by (auto simp: unsynced_def filter_empty_conv filter_id_conv)
  let ?rows = "take 100 post" and ?rest = "drop 100 post"
  let ?out = "pre @ map (\<lambda>x. x\<lparr>or_synced := True\<rparr>) ?rows @ ?rest"
  have d: "distinct (map or_id (pre @ ?rows @ ?rest))" using assms p(1) by (simp add: outbox_ok_def flip: map_append)
  have mark: "mark_synced (map or_id ?rows) (er_outbox r) = ?out"
    using mark_synced_prefix [OF d] p(1) by simp
  let ?r = "fst (flush_outbox (Some ok) r)"
  have out: "er_outbox ?r = (if ok \<and> ?rows \<noteq> [] then ?out else er_outbox r)"
    and batch: "snd (flush_outbox (Some ok) r) = (if ok then map or_payload ?rows else [])"
    and nid: "er_next_id ?r = er_next_id r"
    by (simp_all add: flush_outbox_def Let_def un mark)
  have split: "er_outbox r = pre @ ?rows @ ?rest" using p(1) by simp
  have ids: "map or_id ?out = map or_id (er_outbox r)" unfolding split map_append by simp
  have pay: "map or_payload ?out = map or_payload (er_outbox r)" unfolding split map_append by simp
  show "map or_payload (er_outbox ?r) = map or_payload (er_outbox r)" using pay unfolding out by presburger
  have "or_id ` set ?out = or_id ` set (er_outbox r)" using ids by (metis list.set_map)
  moreover have "\<forall>i \<in> or_id ` set (er_outbox r). i < er_next_id r" using assms by (simp add: outbox_ok_def)
  ultimately have lt: "\<forall>x \<in> set ?out. or_id x < er_next_id r" by (metis imageI)
  show "outbox_ok ?r (sent @ snd (flush_outbox (Some ok) r))"
  proof (cases "ok \<and> ?rows \<noteq> []")
    case True
    have "er_outbox ?r = (pre @ map (\<lambda>x. x\<lparr>or_synced := True\<rparr>) ?rows) @ ?rest"
      using True out by simp
    moreover have "sent @ snd (flush_outbox (Some ok) r) = map or_payload (pre @ map (\<lambda>x. x\<lparr>or_synced := True\<rparr>) ?rows)"
      using True batch p(4) by (simp add: comp_def)
    moreover have "\<forall>x \<in> set ?rest. \<not> or_synced x" using p(3) by (meson in_set_dropD)
    moreover have "\<forall>x \<in> set (pre @ map (\<lambda>x. x\<lparr>or_synced := True\<rparr>) ?rows). or_synced x" using p(2) by auto
    moreover have "distinct (map or_id (er_outbox ?r))" using True out ids assms by (simp add: outbox_ok_def)
    ultimately show ?thesis using lt nid True out unfolding outbox_ok_def by metis
  next
    case False
    then have "er_outbox ?r = er_outbox r" "snd (flush_outbox (Some ok) r) = []" using out batch by auto
    with assms nid show ?thesis by (simp add: outbox_ok_def)
  qed
  show "length (unsynced ?r) = length (unsynced r) - 100" if ok
  proof (cases "?rows = []")
    case True
    with out un show ?thesis by (simp add: unsynced_def)
  next
    case False
    then have "unsynced ?r = ?rest"
      using that p(2,3) out
      by (auto simp: unsynced_def filter_empty_conv filter_id_conv dest: in_set_dropD)
    then show ?thesis by (simp add: un)
  qed
qed

text \<open>The messages of the results that a run stores, in order.\<close>

fun stored_message :: "string \<Rightarrow> runtime_op \<Rightarrow> json list" where
  "stored_message node (Store t k data) =
     [JObj [(''type'', JStr ''inference_result''), (''node_id'', JStr node),
            (''request_key'', JStr k), (''ts'', JNum t)]]"
| "stored_message node op = []"

lemma sync_turn_ok:
  assumes "outbox_ok r sent"
  shows "outbox_ok (fst (sync_turn (Some ok) r)) (sent @ snd (sync_turn (Some ok) r))"
    "map or_payload (er_outbox (fst (sync_turn (Some ok) r))) = map or_payload (er_outbox r)"
  using assms flush_outbox_ok [OF assms] by (simp_all add: sync_turn_def)

lemma flush_frame [simp]:
  "er_node_id (fst (flush_outbox cb r)) = er_node_id r" "er_connected (fst (flush_outbox cb r)) = er_connected r"
  "er_local (fst (flush_outbox cb r)) = er_local r" "er_db_cache (fst (flush_outbox cb r)) = er_db_cache r"
  by (simp_all add: flush_outbox_def Let_def)

lemma store_result_outbox:
  "er_outbox (store_result t k data r) = er_outbox r @
     [\<lparr>or_id = er_next_id r, or_payload = result_message t k r, or_created_at = t, or_synced = False\<rparr>]"
  "er_next_id (store_result t k data r) = er_next_id r + 1"
  "er_node_id (store_result t k data r) = er_node_id r"
  by (simp_all add: store_result_def enqueue_outbox_def result_message_def Let_def)

lemma outbox_ok_store: "outbox_ok r sent \<Longrightarrow> outbox_ok (store_result t k data r) sent"
proof -
  assume ok: "outbox_ok r sent"
  let ?row = "\<lparr>or_id = er_next_id r, or_payload = result_message t k r, or_created_at = t, or_synced = False\<rparr>"
  obtain pre post where p: "er_outbox r = pre @ post" "\<forall>x \<in> set pre. or_synced x"
      "\<forall>x \<in> set post. \<not> or_synced x" "sent = map or_payload pre"
    using ok unfolding outbox_ok_def by blast
  have "er_outbox (store_result t k data r) = pre @ (post @ [?row])" by (simp add: store_result_outbox p(1))
  moreover have "\<forall>x \<in> set (post @ [?row]). \<not> or_synced x" using p(3) by simp
  moreover have "distinct (map or_id (er_outbox (store_result t k data r)))"
    using ok by (auto simp: store_result_outbox outbox_ok_def)
  moreover have "\<forall>x \<in> set (er_outbox (store_result t k data r)). or_id x < er_next_id (store_result t k data r)"
    using ok by (auto simp: store_result_outbox outbox_ok_def)
  ultimately show ?thesis using p(2,4) unfolding outbox_ok_def by blast
qed

lemma outbox_ok_frame:
  "outbox_ok r sent \<Longrightarrow> er_outbox r' = er_outbox r \<Longrightarrow> er_next_id r' = er_next_id r \<Longrightarrow> outbox_ok r' sent"
  by (simp add: outbox_ok_def)

lemma set_connected_frame [simp]:
  "er_outbox (set_connected c r) = er_outbox r" "er_next_id (set_connected c r) = er_next_id r"
  "er_node_id (set_connected c r) = er_node_id r" "er_connected (set_connected c r) = c"
  "er_local (set_connected c r) = er_local r" "er_db_cache (set_connected c r) = er_db_cache r"
  by (simp_all add: set_connected_def Let_def)

lemma runtime_step_ok:
  assumes "outbox_ok r sent" "runtime_step op (r, sent) = (r', sent')"
  shows "outbox_ok r' sent' \<and> er_node_id r' = er_node_id r
    \<and> map or_payload (er_outbox r') = map or_payload (er_outbox r) @ stored_message (er_node_id r) op"
proof (cases op)
  case (Store t k data)
  with assms outbox_ok_store [OF assms(1)] show ?thesis
    by (auto simp: store_result_outbox result_message_def)
next
  case (SyncTurn good)
  with assms sync_turn_ok [OF assms(1), of good] show ?thesis
    by (auto simp: case_prod_unfold Let_def sync_turn_def)
next
  case (Request t k)
  with assms show ?thesis by (auto intro: outbox_ok_frame)
next
  case (SetConnected c)
  with assms show ?thesis by (auto intro: outbox_ok_frame)
qed

lemma runtime_run_ok:
  assumes "outbox_ok r sent" "fold runtime_step ops (r, sent) = (r', sent')"
  shows "outbox_ok r' sent' \<and> er_node_id r' = er_node_id r
    \<and> map or_payload (er_outbox r') = map or_payload (er_outbox r) @ concat (map (stored_message (er_node_id r)) ops)"
  using assms
proof (induction ops arbitrary: r sent)
  case (Cons op ops)
  obtain r1 s1 where one: "runtime_step op (r, sent) = (r1, s1)" by (cases "runtime_step op (r, sent)")
  from runtime_step_ok [OF Cons.prems(1) one] have ok1: "outbox_ok r1 s1" "er_node_id r1 = er_node_id r"
      "map or_payload (er_outbox r1) = map or_payload (er_outbox r) @ stored_message (er_node_id r) op" by auto
  have "fold runtime_step ops (r1, s1) = (r', sent')" using Cons.prems(2) one by simp
  from Cons.IH [OF ok1(1) this] ok1(2,3) show ?case by simp
qed simp

text \<open>
  no result of an edge node is lost on its way upstream: with a sync callback in place, what
  it took followed by what waits in the outbox is the messages of all stored results in their
  order, whatever requests, disconnections and failing syncs happen in between.
\<close>

theorem edge_outbox_conserved:
  "snd (fold runtime_step ops (new_runtime node n, []))
     @ map or_payload (unsynced (fst (fold runtime_step ops (new_runtime node n, []))))
   = concat (map (stored_message node) ops)"
proof -
  obtain r sent where run: "fold runtime_step ops (new_runtime node n, []) = (r, sent)"
    by (cases "fold runtime_step ops (new_runtime node n, [])")
  have "outbox_ok (new_runtime node n) []" by (simp add: outbox_ok_def new_runtime_def)
  from runtime_run_ok [OF this run] have ok: "outbox_ok r sent"
    and all: "map or_payload (er_outbox r) = concat (map (stored_message node) ops)"
    by (auto simp: new_runtime_def)
  show ?thesis using outbox_ok_sent [OF ok] all by (simp add: run)
qed

text \<open>Without a callback a flush marks the rows as synced although nobody took them.\<close>

lemma flush_without_callback_loses:
  "unsynced r \<noteq> [] \<Longrightarrow> length (unsynced r) \<le> 100 \<Longrightarrow>
     unsynced (fst (flush_outbox None r)) = [] \<and> snd (flush_outbox None r) = []"
proof -
  assume un: "unsynced r \<noteq> []" "length (unsynced r) \<le> 100"
  let ?r = "r\<lparr>er_outbox := mark_synced (map or_id (unsynced r)) (er_outbox r)\<rparr>"
  have "or_synced row \<or> or_id row \<in> or_id ` set (unsynced r)" if "row \<in> set (er_outbox r)" for row
    using that by (auto simp: unsynced_def)
  then have "unsynced ?r = []"
    unfolding unsynced_def [of ?r] by (auto simp: mark_synced_def filter_empty_conv)
  moreover have "unsynced (settle ?r) = unsynced ?r" by (simp add: unsynced_def)
  ultimately show ?thesis using un by (simp add: flush_outbox_def Let_def)
qed

section \<open>Connection state\<close>

definition connection_ok :: "edge_runtime \<Rightarrow> bool" where
  "connection_ok r \<longleftrightarrow> (er_connected r \<longrightarrow> er_state r = EOnline \<or> er_state r = ESyncing)
     \<and> (\<not> er_connected r \<longrightarrow> er_state r = EOffline)"

lemma store_result_frame [simp]:
  "er_connected (store_result t k data r) = er_connected r" "er_state (store_result t k data r) = er_state r"
  by (simp_all add: store_result_def enqueue_outbox_def Let_def)

lemma connection_ok_flush: "connection_ok r \<Longrightarrow> er_connected r \<Longrightarrow> connection_ok (fst (flush_outbox cb r))"
  by (auto simp: connection_ok_def flush_outbox_def settle_def Let_def)

lemma connection_ok_step: "connection_ok r \<Longrightarrow> connection_ok (fst (runtime_step op (r, sent)))"
proof (cases op)
  case (SetConnected c)
  then show "connection_ok r \<Longrightarrow> ?thesis" by (auto simp: connection_ok_def set_connected_def Let_def)
next
  case (SyncTurn good)
  then show "connection_ok r \<Longrightarrow> ?thesis"
    using connection_ok_flush [of r "Some good"] by (simp add: sync_turn_def case_prod_unfold Let_def)
qed (simp_all add: connection_ok_def)

lemma connection_ok_run: "connection_ok r \<Longrightarrow> connection_ok (fst (fold runtime_step ops (r, sent)))"
proof (induction ops arbitrary: r sent)
  case (Cons op ops)
  obtain r1 s1 where one: "runtime_step op (r, sent) = (r1, s1)" by (cases "runtime_step op (r, sent)")
  with connection_ok_step [OF Cons.prems, of op sent] have "connection_ok r1" by simp
  with Cons.IH one show ?case by simp
qed simp

fun sync_turns :: "nat \<Rightarrow> edge_runtime \<Rightarrow> edge_runtime" where
  "sync_turns 0 r = r"
| "sync_turns (Suc n) r = sync_turns n (fst (sync_turn (Some True) r))"

lemma flush_settles:
  assumes "outbox_ok r sent" "connection_ok r" "er_connected r" "length (unsynced r) \<le> 100"
  shows "unsynced (fst (flush_outbox (Some True) r)) = []" "er_state (fst (flush_outbox (Some True) r)) = EOnline"
proof -
  show un: "unsynced (fst (flush_outbox (Some True) r)) = []"
    using flush_outbox_ok(3) [OF assms(1), of True] assms(4) by simp
  have st: "er_state (settle q) = EOnline" if "er_state q = er_state r" for q
    using that assms(2,3) by (auto simp: connection_ok_def settle_def)
  have "unsynced (settle q) = unsynced q" for q by (simp add: unsynced_def)
  with un show "er_state (fst (flush_outbox (Some True) r)) = EOnline"
    by (auto simp: flush_outbox_def Let_def st split: if_splits)
qed

lemma sync_turns_settle:
  assumes "outbox_ok r sent" "connection_ok r" "er_connected r" "length (unsynced r) \<le> 100 * n" "0 < n"
  shows "unsynced (sync_turns n r) = [] \<and> er_state (sync_turns n r) = EOnline"
  using assms
proof (induction n arbitrary: r sent)
  case (Suc n)
  let ?r = "fst (flush_outbox (Some True) r)"
  have turn: "fst (sync_turn (Some True) r) = ?r" using Suc.prems(3) by (simp add: sync_turn_def)
  show ?case
  proof (cases "n = 0")
    case True
    with flush_settles [OF Suc.prems(1-3)] Suc.prems(4) turn show ?thesis by simp
  next
    case False
    have "length (unsynced ?r) \<le> 100 * n"
      using flush_outbox_ok(3) [OF Suc.prems(1), of True] Suc.prems(4) by simp
    with Suc.IH [OF flush_outbox_ok(1) [OF Suc.prems(1)] connection_ok_flush [OF Suc.prems(2,3)]]
      False Suc.prems(3) turn show ?thesis by simp
  qed
qed simp

text \<open>
  an edge node that is connected catches up: whatever happened before, when it has at most
  \<open>100 n\<close> messages waiting, \<open>n\<close> turns of the sync loop whose callback returns empty the outbox and
  bring the node to the state online, also after a disconnection.
\<close>

theorem edge_catches_up:
  assumes "er_connected (fst (fold runtime_step ops (new_runtime node m, [])))"
    and "length (unsynced (fst (fold runtime_step ops (new_runtime node m, [])))) \<le> 100 * n" "0 < n"
  shows "unsynced (sync_turns n (fst (fold runtime_step ops (new_runtime node m, [])))) = []
    \<and> er_state (sync_turns n (fst (fold runtime_step ops (new_runtime node m, [])))) = EOnline"
proof -
  let ?run = "fold runtime_step ops (new_runtime node m, [])"
  have "outbox_ok (new_runtime node m) []" by (simp add: outbox_ok_def new_runtime_def)
  from runtime_run_ok [OF this, of ops "fst ?run" "snd ?run"] have "outbox_ok (fst ?run) (snd ?run)" by simp
  moreover have "connection_ok (fst ?run)"
    by (rule connection_ok_run) (simp add: connection_ok_def new_runtime_def)
  ultimately show ?thesis using sync_turns_settle assms by blast
qed

definition example_edge_run :: "runtime_op list" where
  "example_edge_run =
     [SetConnected False, Store 1 ''q'' [(''a'', JNull)], SyncTurn True, Request 2 ''q'', SetConnected True]"

theorem edge_catches_up_witness:
  "er_state (fst (fold runtime_step example_edge_run (new_runtime ''n'' 10, []))) = ESyncing
   \<and> er_state (sync_turns 1 (fst (fold runtime_step example_edge_run (new_runtime ''n'' 10, [])))) = EOnline"
proof
  show "er_state (fst (fold runtime_step example_edge_run (new_runtime ''n'' 10, []))) = ESyncing"
    by code_simp
  have "er_connected (fst (fold runtime_step example_edge_run (new_runtime ''n'' 10, [])))" by code_simp
  moreover have "length (unsynced (fst (fold runtime_step example_edge_run (new_runtime ''n'' 10, [])))) \<le> 100 * 1"
    by code_simp
  ultimately show "er_state (sync_turns 1 (fst (fold runtime_step example_edge_run (new_runtime ''n'' 10, [])))) = EOnline"
    using edge_catches_up [of example_edge_run "''n''" 10 1] by simp
qed

section \<open>Results survive eviction\<close>

definition holds_result :: "string \<Rightarrow> result \<Rightarrow> edge_runtime \<Rightarrow> bool" where
  "holds_result k data r \<longleftrightarrow> map_option dbe_payload (dget (er_db_cache r) k) = Some data
     \<and> (case dget (er_local r) k of None \<Rightarrow> True | Some e \<Rightarrow> le_data e = data)"

lemma holds_result_put: "holds_result k data (put_cache t k data r)"
  by (auto simp: holds_result_def put_cache_def Let_def split: option.split)

lemma holds_result_put_other: "holds_result k data r \<Longrightarrow> j \<noteq> k \<Longrightarrow> holds_result k data (put_cache t j d r)"
  by (auto simp: holds_result_def put_cache_def Let_def split: option.splits)

lemma holds_result_get: "holds_result k data r \<Longrightarrow> holds_result k data (fst (get_cache t j r))"
  by (auto simp: holds_result_def get_cache_def split: option.splits)

lemma holds_result_frame:
  "holds_result k data r \<Longrightarrow> er_local r' = er_local r \<Longrightarrow> er_db_cache r' = er_db_cache r \<Longrightarrow> holds_result k data r'"
  by (simp add: holds_result_def)

lemma get_cache_holds: "holds_result k data r \<Longrightarrow> snd (get_cache t k r) = Some data"
  by (auto simp: holds_result_def get_cache_def split: option.splits)

fun stores_key :: "string \<Rightarrow> runtime_op \<Rightarrow> bool" where
  "stores_key k (Store t j data) = (j = k)"
| "stores_key k op = False"

lemma holds_result_step:
  assumes "holds_result k data r" "\<not> stores_key k op"
  shows "holds_result k data (fst (runtime_step op (r, sent)))"
proof (cases op)
  case (Request t j)
  have "holds_result k data (r\<lparr>er_requests_served := er_requests_served r + 1\<rparr>)"
    using assms(1) by (simp add: holds_result_def)
  then have "holds_result k data (fst (get_cache t j (r\<lparr>er_requests_served := er_requests_served r + 1\<rparr>)))"
    by (rule holds_result_get)
  with Request show ?thesis
    by (auto simp: handle_request_def Let_def case_prod_unfold intro: holds_result_frame)
next
  case (Store t j d)
  then have "j \<noteq> k" using assms(2) by simp
  from holds_result_put_other [OF assms(1) this, of t d] Store show ?thesis
    by (simp add: store_result_def enqueue_outbox_def Let_def holds_result_def)
next
  case (SetConnected c)
  with assms(1) show ?thesis by (auto intro: holds_result_frame)
next
  case (SyncTurn good)
  with assms(1) show ?thesis
    by (auto simp: case_prod_unfold Let_def sync_turn_def intro: holds_result_frame)
qed

lemma holds_result_run:
  "holds_result k data r \<Longrightarrow> list_all (\<lambda>op. \<not> stores_key k op) ops
    \<Longrightarrow> holds_result k data (fst (fold runtime_step ops (r, sent)))"
proof (induction ops arbitrary: r sent)
  case (Cons op ops)
  obtain r1 s1 where one: "runtime_step op (r, sent) = (r1, s1)" by (cases "runtime_step op (r, sent)")
  with holds_result_step [OF Cons.prems(1), of op sent] Cons.prems(2) have "holds_result k data r1" by simp
  with Cons.IH Cons.prems(2) one show ?case by simp
qed simp

text \<open>
  a result that an edge node stored is served from its cache until a new result is stored under
  the same key: neither eviction from memory nor the loss of the connection takes it away. The
  empty result is the exception: it is stored and never served.
\<close>

theorem edge_result_survives:
  assumes "data \<noteq> []" "list_all (\<lambda>op. \<not> stores_key k op) ops"
  shows "snd (handle_request t' k (fst (fold runtime_step ops (store_result t k data r, [])))) = Some data
    \<and> snd (handle_request t' k (store_result t k [] r)) = None"
proof
  have "holds_result k d (store_result t k d r)" for d
    unfolding store_result_def Let_def enqueue_outbox_def
    by (rule holds_result_frame [OF holds_result_put]) simp_all
  note store = this
  have served: "snd (handle_request t' k q) = (if d = [] then None else Some d)" if "holds_result k d q" for d q
  proof -
    have "holds_result k d (q\<lparr>er_requests_served := er_requests_served q + 1\<rparr>)"
      using that by (simp add: holds_result_def)
    from get_cache_holds [OF this, of t'] show ?thesis
      by (simp add: handle_request_def Let_def case_prod_unfold)
  qed
  from served [OF holds_result_run [OF store assms(2)]] assms(1)
  show "snd (handle_request t' k (fst (fold runtime_step ops (store_result t k data r, [])))) = Some data" by simp
  from served [OF store, of "[]"] show "snd (handle_request t' k (store_result t k [] r)) = None" by simp
qed

theorem edge_result_survives_witness:
  "snd (handle_request 9 ''q'' (fst (fold runtime_step
      [Store 2 ''x'' [(''b'', JNull)], SetConnected False, Store 3 ''y'' [(''c'', JNull)]]
      (store_result 1 ''q'' [(''a'', JNull)] (new_runtime ''n'' 1), [])))) = Some [(''a'', JNull)]"
  using edge_result_survives [of "[(''a'', JNull)]" "''q''"
      "[Store 2 ''x'' [(''b'', JNull)], SetConnected False, Store 3 ''y'' [(''c'', JNull)]]"
      9 1 "new_runtime ''n'' 1"]
  by simp

section \<open>The buffers of an edge node\<close>

text \<open>\<open>EdgeNodeController\<close>: rows with their id and a sent flag.\<close>

type_synonym node_outbox = "(nat \<times> json \<times> pyfloat \<times> bool) list"

definition enqueue_metric :: "pyfloat \<Rightarrow> nat \<Rightarrow> json \<Rightarrow> node_outbox \<Rightarrow> node_outbox" where
  "enqueue_metric t rid payload rows = rows @ [(rid, payload, t, False)]"

definition pending_rows :: "nat \<Rightarrow> node_outbox \<Rightarrow> (nat \<times> json) list" where
  "pending_rows limit rows =
     map (\<lambda>(rid, p, t, sent). (rid, p)) (take limit (filter (\<lambda>(rid, p, t, sent). \<not> sent) rows))"

definition mark_sent :: "nat \<Rightarrow> node_outbox \<Rightarrow> node_outbox" where
  "mark_sent i rows = map (\<lambda>(rid, p, t, sent). (rid, p, t, sent \<or> rid = i)) rows"

text \<open>
  \<open>OfflineSyncBuffer\<close> over the compressed chunks (the compression is a library call): a batch that
  is too large is cut, and the rest is gone.
\<close>

definition drain :: "nat \<Rightarrow> 'b list list \<Rightarrow> 'b list list \<times> 'b list \<times> string" where
  "drain max_bytes chunks =
     (let merged = concat chunks
      in if merged = [] then ([], [], ''identity'')
         else ([], if length merged > max_bytes then take max_bytes merged else merged, ''zlib''))"

lemma drain_cuts:
  "length (concat chunks) > max_bytes \<Longrightarrow>
     fst (drain max_bytes chunks) = [] \<and> length (fst (snd (drain max_bytes chunks))) = max_bytes
     \<and> fst (snd (drain max_bytes chunks)) @ drop max_bytes (concat chunks) = concat chunks"
  by (cases "concat chunks = []") (simp_all add: drain_def Let_def del: concat_eq_Nil_conv)

text \<open>
  \<open>DelayedJobQueue\<close>: the binary heap of pairs is the sorted list of its elements, of which the
  least is the head.
\<close>

type_synonym delayed_jobs = "(pyfloat \<times> string) list"

definition push_delayed :: "pyfloat \<Rightarrow> string \<Rightarrow> pyfloat \<Rightarrow> delayed_jobs \<Rightarrow> delayed_jobs" where
  "push_delayed now jid delay_sec heap = insort (now + max 0 delay_sec, jid) heap"

fun pop_ready :: "pyfloat \<Rightarrow> delayed_jobs \<Rightarrow> delayed_jobs \<times> string list" where
  "pop_ready now [] = ([], [])"
| "pop_ready now ((d, jid) # heap) =
     (if d \<le> now then let (rest, ready) = pop_ready now heap in (rest, jid # ready)
      else ((d, jid) # heap, []))"

lemma push_delayed_sorted: "sorted heap \<Longrightarrow> sorted (push_delayed now jid d heap)"
  by (simp add: push_delayed_def sorted_insort)

text \<open>A poll hands out exactly the due jobs, earliest first, and keeps the others.\<close>

lemma pop_ready_exact:
  "sorted heap \<Longrightarrow> pop_ready now heap =
     (filter (\<lambda>j. \<not> fst j \<le> now) heap, map snd (filter (\<lambda>j. fst j \<le> now) heap))"
proof (induction heap)
  case (Cons j heap)
  obtain d jid where j: "j = (d, jid)" by (cases j)
  show ?case
  proof (cases "d \<le> now")
    case False
    have "\<forall>i \<in> set heap. \<not> fst i \<le> now" using Cons.prems j False by (fastforce simp: less_eq_prod_def)
    then show ?thesis using j False by (simp add: filter_id_conv filter_empty_conv)
  qed (use Cons j in simp)
qed simp

end
