(* ===== verification/Bags.thy ===== *)
theory Bags
  imports Prelude "HOL-Library.Multiset"
begin

text \<open>
  What enters a service and what leaves it, as multisets of ids: the keys of a dictionary, and the
  locale \<open>conservation\<close>, which states once what a service owes to the things it accepts. The runtimes of
  \<open>Runtime\<close> and \<open>Executions\<close> interpret it.
\<close>

section \<open>Keys\<close>

lemma mset_dkeys_ddel: "dwf d \<Longrightarrow> dget d k = Some v \<Longrightarrow> mset (dkeys d) = add_mset k (mset (dkeys (ddel k d)))"
proof (induction d)
  case (Cons p d)
  obtain j u where p: "p = (j, u)" by (cases p)
  have d: "j \<notin> fst ` set d" "dwf d" using Cons.prems(1) p by (auto simp: dwf_def)
  show ?case
  proof (cases "j = k")
    case True
    then have "ddel k d = d" using d(1) by (force simp: AList.delete_eq filter_id_conv)
    with True p show ?thesis by simp
  next
    case False
    with Cons.IH [OF d(2)] Cons.prems(2) p show ?thesis by simp
  qed
qed simp

lemma mset_dkeys_dput:
  "mset (dkeys (dput k v d)) = (if dget d k = None then add_mset k (mset (dkeys d)) else mset (dkeys d))"
proof (cases "dget d k")
  case None
  then show ?thesis by (simp add: dput_new dget_None_iff)
next
  case (Some w)
  have "dkeys (dput k v d) = dkeys d" using Some by (induction d) auto
  with Some show ?thesis by simp
qed

lemma distinct_if_count: "\<forall>a. count (mset xs) a \<le> 1 \<Longrightarrow> distinct xs"
  unfolding distinct_count_atmost_1
proof
  fix a assume le: "\<forall>a. count (mset xs) a \<le> 1"
  show "count (mset xs) a = (if a \<in> set xs then 1 else 0)"
  proof (cases "a \<in> set xs")
    case True
    then have "count (mset xs) a \<noteq> 0" by simp
    moreover have "count (mset xs) a \<le> 1" using le by simp
    ultimately have "count (mset xs) a = 1" by linarith
    with True show ?thesis by simp
  qed simp
qed

lemma mset_sort_desc: "mset (sort_desc f xs) = mset xs"
  by (simp add: sort_desc_def)

lemma distinct_map_sort_desc: "distinct (map g (sort_desc f xs)) = distinct (map g xs)"
  by (rule mset_eq_imp_distinct_iff) (simp add: mset_sort_desc)

section \<open>Services that keep what they accept\<close>

text \<open>
  A step may offer ids, accepts some of them and ends some. \<open>live\<close> are the ids inside. The law: a
  step whose offered ids are new neither loses nor duplicates an id.
\<close>

fun run_ops :: "('o \<Rightarrow> 's \<Rightarrow> 's \<times> 'i list \<times> 'i list) \<Rightarrow> 'o list \<Rightarrow> 's \<Rightarrow> 's \<times> 'i list \<times> 'i list" where
  "run_ops step [] s = (s, [], [])"
| "run_ops step (p # ps) s =
     (let (s1, acc, fin) = step p s; (s2, acc', fin') = run_ops step ps s1 in (s2, acc @ acc', fin @ fin'))"

locale conservation =
  fixes ok :: "'s \<Rightarrow> bool"
    and live :: "'s \<Rightarrow> 'i multiset"
    and offered :: "'o \<Rightarrow> 'i list"
    and step :: "'o \<Rightarrow> 's \<Rightarrow> 's \<times> 'i list \<times> 'i list"
  assumes conserves: "ok s \<Longrightarrow> \<forall>i. count (live s) i + count (mset (offered p)) i \<le> 1 \<Longrightarrow> step p s = (s', acc, fin)
      \<Longrightarrow> ok s' \<and> live s' + mset fin = live s + mset acc \<and> mset acc \<subseteq># mset (offered p)"
begin

lemma run_conserves:
  assumes "ok s" and "\<forall>i. count (live s) i + count (mset (concat (map offered ps))) i \<le> 1"
    and "run_ops step ps s = (s', acc, fin)"
  shows "ok s' \<and> live s' + mset fin = live s + mset acc \<and> mset acc \<subseteq># mset (concat (map offered ps))"
  using assms
proof (induction ps arbitrary: s acc fin)
  case (Cons p ps)
  obtain s1 a f where one: "step p s = (s1, a, f)" by (cases "step p s")
  obtain s2 a' f' where rest: "run_ops step ps s1 = (s2, a', f')" by (cases "run_ops step ps s1")
  have eqs: "s' = s2" "acc = a @ a'" "fin = f @ f'" using Cons.prems(3) one rest by auto
  have total: "count (live s) i + (count (mset (offered p)) i + count (mset (concat (map offered ps))) i) \<le> 1" for i
    using Cons.prems(2) by (simp add: add.assoc)
  have "\<forall>i. count (live s) i + count (mset (offered p)) i \<le> 1"
    using total by (metis add.assoc add_leD1)
  from conserves [OF Cons.prems(1) this one]
  have st: "ok s1" "live s1 + mset f = live s + mset a" "mset a \<subseteq># mset (offered p)" by blast+
  have "\<forall>i. count (live s1) i + count (mset (concat (map offered ps))) i \<le> 1"
  proof
    fix i
    have "count (live s1) i \<le> count (live s) i + count (mset a) i"
      using arg_cong [OF st(2), of "\<lambda>m. count m i"] by simp
    moreover have "count (mset a) i \<le> count (mset (offered p)) i" using st(3) by (rule mset_subset_eq_count)
    ultimately show "count (live s1) i + count (mset (concat (map offered ps))) i \<le> 1"
      using total [of i] by linarith
  qed
  from Cons.IH [OF st(1) this, of a' f'] rest eqs(1)
  have "ok s2 \<and> live s2 + mset f' = live s1 + mset a' \<and> mset a' \<subseteq># mset (concat (map offered ps))" by blast
  then show ?case using st(2,3)
    by (simp add: eqs subset_mset.add_mono) (metis (no_types, lifting) add.assoc add.commute)
qed (simp add: empty_le)

text \<open>From an empty service, with ids that are offered once.\<close>

lemma run_from_empty:
  assumes "ok s" "live s = {#}" "distinct (concat (map offered ps))" "run_ops step ps s = (s', acc, fin)"
  shows "ok s' \<and> live s' + mset fin = mset acc \<and> distinct acc"
proof -
  let ?ids = "concat (map offered ps)"
  have le: "count (mset ?ids) i \<le> 1" for i
    using assms(3) unfolding distinct_count_atmost_1 by (metis dual_order.refl zero_le_one)
  with run_conserves [OF assms(1) _ assms(4)] assms(2)
  have *: "ok s'" "live s' + mset fin = mset acc" "mset acc \<subseteq># mset ?ids" by auto
  have "\<forall>i. count (mset acc) i \<le> 1" using mset_subset_eq_count [OF *(3)] le by (meson le_trans)
  with * distinct_if_count show ?thesis by blast
qed

end

end
