(* ===== verification/EdgeScheduler.thy ===== *)
theory EdgeScheduler
  imports Bags
begin

text \<open>
  \<open>edge/edge_scheduler.py\<close>: workloads wait in a list by priority, are assigned to the edge node
  with the most free slots, and finish. The statuses are a datatype; the measured times are kept.
\<close>

section \<open>State and operations\<close>

datatype workload_status = WQueued | WRunning | WCompleted | WFailed

record edge_workload =
  wl_id :: string
  wl_model_id :: string
  wl_priority :: int
  wl_max_latency_ms :: pyfloat
  wl_offline_capable :: bool
  wl_submitted_at :: pyfloat
  wl_started_at :: pyfloat
  wl_completed_at :: pyfloat
  wl_status :: workload_status
  wl_assigned_node :: string

definition new_workload :: "pyfloat \<Rightarrow> string \<Rightarrow> string \<Rightarrow> int \<Rightarrow> pyfloat \<Rightarrow> bool \<Rightarrow> edge_workload" where
  "new_workload t wid model priority max_latency offline =
     \<lparr>wl_id = wid, wl_model_id = model, wl_priority = priority, wl_max_latency_ms = max_latency,
      wl_offline_capable = offline, wl_submitted_at = t, wl_started_at = 0, wl_completed_at = 0,
      wl_status = WQueued, wl_assigned_node = []\<rparr>"

record edge_scheduler =
  es_queue :: "edge_workload list"
  es_running :: "(string, edge_workload) dict"
  es_completed :: "edge_workload list"
  es_capacity :: "(string, int) dict"
  es_load :: "(string, int) dict"

definition new_edge_scheduler :: edge_scheduler where
  "new_edge_scheduler =
     \<lparr>es_queue = [], es_running = [], es_completed = [], es_capacity = [], es_load = []\<rparr>"

definition load_of :: "string \<Rightarrow> edge_scheduler \<Rightarrow> int" where
  "load_of n s = (case dget (es_load s) n of Some l \<Rightarrow> l | None \<Rightarrow> 0)"

definition es_register_node :: "string \<Rightarrow> int \<Rightarrow> edge_scheduler \<Rightarrow> edge_scheduler" where
  "es_register_node n capacity s =
     s\<lparr>es_capacity := dput n capacity (es_capacity s),
       es_load := (if dget (es_load s) n = None then dput n 0 (es_load s) else es_load s)\<rparr>"

definition requeued :: "edge_workload \<Rightarrow> edge_workload" where
  "requeued w = w\<lparr>wl_status := WQueued, wl_assigned_node := []\<rparr>"

definition es_unregister_node :: "string \<Rightarrow> edge_scheduler \<Rightarrow> edge_scheduler \<times> edge_workload list" where
  "es_unregister_node n s =
     (let orphaned = map requeued (filter (\<lambda>w. wl_assigned_node w = n) (dvalues (es_running s)))
      in (s\<lparr>es_capacity := ddel n (es_capacity s), es_load := ddel n (es_load s),
            es_running := fold ddel (map wl_id orphaned) (es_running s),
            es_queue := es_queue s @ orphaned\<rparr>, orphaned))"

definition es_submit :: "edge_workload \<Rightarrow> edge_scheduler \<Rightarrow> edge_scheduler" where
  "es_submit w s = s\<lparr>es_queue := sort_desc wl_priority (es_queue s @ [w])\<rparr>"

text \<open>The loop of \<open>_pick_node\<close>: the best node so far and its headroom, from \<open>-1\<close>.\<close>

definition better_node :: "edge_scheduler \<Rightarrow> string \<times> int \<Rightarrow> string option \<times> int \<Rightarrow> string option \<times> int" where
  "better_node s nc best =
     (let headroom = snd nc - load_of (fst nc) s
      in if headroom > 0 \<and> headroom > snd best then (Some (fst nc), headroom) else best)"

definition pick_node :: "edge_scheduler \<Rightarrow> string option" where
  "pick_node s = fst (fold (better_node s) (es_capacity s) (None, -1))"

definition es_schedule_next :: "pyfloat \<Rightarrow> edge_scheduler \<Rightarrow> edge_scheduler \<times> edge_workload option" where
  "es_schedule_next t s =
     (case es_queue s of
        [] \<Rightarrow> (s, None)
      | w # ws \<Rightarrow>
          (case truthy (pick_node s) of
             None \<Rightarrow> (s, None)
           | Some n \<Rightarrow>
               let w1 = w\<lparr>wl_assigned_node := n, wl_started_at := t, wl_status := WRunning\<rparr>
               in (s\<lparr>es_queue := ws, es_running := dput (wl_id w1) w1 (es_running s),
                     es_load := dput n (load_of n s + 1) (es_load s)\<rparr>, Some w1)))"

definition es_complete :: "pyfloat \<Rightarrow> string \<Rightarrow> bool \<Rightarrow> edge_scheduler \<Rightarrow> edge_scheduler \<times> edge_workload option" where
  "es_complete t wid success s =
     (case dget (es_running s) wid of
        None \<Rightarrow> (s, None)
      | Some w \<Rightarrow>
          let w1 = w\<lparr>wl_completed_at := t, wl_status := (if success then WCompleted else WFailed)\<rparr>;
              n = wl_assigned_node w1
          in (s\<lparr>es_running := ddel wid (es_running s),
                es_load := (case dget (es_load s) n of
                              Some l \<Rightarrow> dput n (max 0 (l - 1)) (es_load s) | None \<Rightarrow> es_load s),
                es_completed := py_cap 500 (es_completed s @ [w1])\<rparr>, Some w1))"

section \<open>Choosing a node\<close>

text \<open>The chosen node is the first of those with the most free slots.\<close>

lemma pick_node_spec:
  assumes "dwf (es_capacity s)"
  shows "pick_node s = Some n \<Longrightarrow> \<exists>c. dget (es_capacity s) n = Some c \<and> load_of n s < c
      \<and> (\<forall>m d. dget (es_capacity s) m = Some d \<longrightarrow> d - load_of m s \<le> c - load_of n s)"
    "pick_node s = None \<Longrightarrow> dget (es_capacity s) m = Some d \<Longrightarrow> d \<le> load_of m s"
proof -
  have inv: "case fold (better_node s) cs best of
      (None, h) \<Rightarrow> best = (None, h) \<and> (\<forall>(m, d) \<in> set cs. d - load_of m s \<le> max 0 h)
    | (Some n, h) \<Rightarrow> (best = (Some n, h) \<or> (\<exists>c. (n, c) \<in> set cs \<and> h = c - load_of n s \<and> 0 < h))
        \<and> snd best \<le> h \<and> (\<forall>(m, d) \<in> set cs. d - load_of m s \<le> max 0 h)" for cs best
  proof (induction cs arbitrary: best)
    case Nil
    show ?case by (cases best) (auto split: option.split)
  next
    case (Cons nc cs)
    show ?case
      using Cons.IH [of "better_node s nc best"]
      by (cases nc; cases best) (auto simp: better_node_def Let_def split: option.splits prod.splits if_splits)
  qed
  obtain b h where f: "fold (better_node s) (es_capacity s) (None, -1) = (b, h)" by fastforce
  show "\<exists>c. dget (es_capacity s) n = Some c \<and> load_of n s < c
      \<and> (\<forall>m d. dget (es_capacity s) m = Some d \<longrightarrow> d - load_of m s \<le> c - load_of n s)"
    if "pick_node s = Some n"
  proof -
    have b: "b = Some n" using that f by (simp add: pick_node_def)
    from inv [where cs = "es_capacity s" and best = "(None, -1)"] f b obtain c
      where c: "(n, c) \<in> set (es_capacity s)" "h = c - load_of n s" "0 < h"
        and best: "\<forall>(m, d) \<in> set (es_capacity s). d - load_of m s \<le> max 0 h" by auto
    have "d - load_of m s \<le> c - load_of n s" if "dget (es_capacity s) m = Some d" for m d
      using best dget_SomeD [OF that] c(2,3) by fastforce
    with c assms show ?thesis by (auto simp: dwf_dget_iff)
  qed
  show "d \<le> load_of m s" if "pick_node s = None" "dget (es_capacity s) m = Some d"
  proof -
    have "b = None" using that(1) f by (simp add: pick_node_def)
    with inv [where cs = "es_capacity s" and best = "(None, -1)"] f
    have "h = -1" "\<forall>(m, d) \<in> set (es_capacity s). d - load_of m s \<le> max 0 h" by auto
    with dget_SomeD [OF that(2)] show ?thesis by fastforce
  qed
qed

section \<open>Runs\<close>

datatype sched_op =
    RegisterNode string int
  | UnregisterNode string
  | SubmitWorkload edge_workload
  | ScheduleNext pyfloat
  | CompleteWorkload pyfloat string bool

text \<open>The second component collects the ids of the workloads that finished.\<close>

fun sched_step :: "sched_op \<Rightarrow> edge_scheduler \<times> string list \<Rightarrow> edge_scheduler \<times> string list" where
  "sched_step (RegisterNode n c) (s, done) = (es_register_node n c s, done)"
| "sched_step (UnregisterNode n) (s, done) = (fst (es_unregister_node n s), done)"
| "sched_step (SubmitWorkload w) (s, done) = (es_submit w s, done)"
| "sched_step (ScheduleNext t) (s, done) = (fst (es_schedule_next t s), done)"
| "sched_step (CompleteWorkload t wid success) (s, done) =
     (let (s1, w) = es_complete t wid success s
      in (s1, case w of None \<Rightarrow> done | Some w \<Rightarrow> done @ [wl_id w]))"

fun submitted :: "sched_op \<Rightarrow> string list" where
  "submitted (SubmitWorkload w) = [wl_id w]"
| "submitted op = []"

text \<open>The workloads that run on a node, and all ids the scheduler still has.\<close>

definition on_node :: "string \<Rightarrow> edge_scheduler \<Rightarrow> edge_workload list" where
  "on_node n s = dvalues (filter (\<lambda>p. wl_assigned_node (snd p) = n) (es_running s))"

definition live_ids :: "edge_scheduler \<Rightarrow> string multiset" where
  "live_ids s = mset (map wl_id (es_queue s)) + mset (dkeys (es_running s))"

definition loads_exact :: "edge_scheduler \<Rightarrow> bool" where
  "loads_exact s \<longleftrightarrow>
     (\<forall>n. dget (es_load s) n = (if dget (es_capacity s) n = None then None else Some (int (length (on_node n s)))))
   \<and> (\<forall>n. dget (es_capacity s) n = None \<longrightarrow> on_node n s = [])"

definition sched_ok :: "edge_scheduler \<Rightarrow> bool" where
  "sched_ok s \<longleftrightarrow> dwf (es_capacity s) \<and> keyed wl_id (es_running s) \<and> loads_exact s"

lemma fold_ddel: "fold ddel ks d = filter (\<lambda>p. fst p \<notin> set ks) d"
proof (induction ks arbitrary: d)
  case (Cons k ks)
  then show ?case by (auto simp: AList.delete_eq case_prod_unfold intro: filter_cong)
qed simp

lemma fold_ddel_filter:
  assumes "keyed f d"
  shows "fold ddel (map f (filter P (dvalues d))) d = filter (\<lambda>p. \<not> P (snd p)) d"
proof -
  have mem: "fst p \<in> set (map f (filter P (dvalues d))) \<longleftrightarrow> P (snd p)" if "p \<in> set d" for p
  proof
    assume "fst p \<in> set (map f (filter P (dvalues d)))"
    then obtain q where q: "q \<in> set d" "P (snd q)" "f (snd q) = fst p" by auto
    then have "fst q = fst p" using assms by (simp add: keyed_def)
    then have "q = p" using q(1) that assms by (metis dwf_dget_iff keyed_def option.inject prod.collapse)
    with q show "P (snd p)" by simp
  next
    assume "P (snd p)"
    moreover have "f (snd p) = fst p" using assms that by (simp add: keyed_def)
    ultimately show "fst p \<in> set (map f (filter P (dvalues d)))" using that by force
  qed
  show ?thesis unfolding fold_ddel by (intro filter_cong refl) (simp only: mem)
qed

lemma keyed_filter: "keyed f d \<Longrightarrow> keyed f (filter P d)"
  by (auto simp: keyed_def dwf_def distinct_map_filter)

lemma unregister_running:
  "keyed wl_id (es_running s) \<Longrightarrow>
     es_running (fst (es_unregister_node n s)) = filter (\<lambda>p. wl_assigned_node (snd p) \<noteq> n) (es_running s)"
proof -
  assume k: "keyed wl_id (es_running s)"
  show ?thesis
    using fold_ddel_filter [OF k, of "\<lambda>w. wl_assigned_node w = n"]
    by (simp add: es_unregister_node_def Let_def requeued_def comp_def)
qed

lemma on_node_unregister:
  assumes "keyed wl_id (es_running s)"
  shows "on_node m (fst (es_unregister_node n s)) = (if m = n then [] else on_node m s)"
  unfolding on_node_def unregister_running [OF assms]
  by (auto simp: filter_empty_conv intro: arg_cong [where f = "map snd"] filter_cong)

lemma mset_filter_split:
  "mset (map f xs) = mset (map f (filter P xs)) + mset (map f (filter (\<lambda>x. \<not> P x) xs))"
  by (induction xs) auto

lemma live_ids_unregister:
  assumes "keyed wl_id (es_running s)"
  shows "live_ids (fst (es_unregister_node n s)) = live_ids s"
proof -
  let ?d = "es_running s" and ?P = "\<lambda>p. wl_assigned_node (snd p) = n"
  have q: "map wl_id (es_queue (fst (es_unregister_node n s)))
      = map wl_id (es_queue s) @ map fst (filter ?P ?d)"
  proof -
    have eq: "map wl_id (filter (\<lambda>w. wl_assigned_node w = n) (dvalues d)) = map fst (filter ?P d)"
      if "\<forall>p \<in> set d. wl_id (snd p) = fst p" for d
      using that by (induction d) auto
    have "\<forall>p \<in> set ?d. wl_id (snd p) = fst p" using assms by (simp add: keyed_def)
    from eq [OF this] show ?thesis by (simp add: es_unregister_node_def Let_def requeued_def comp_def)
  qed
  show ?thesis
    using mset_filter_split [of fst ?d ?P]
    by (simp add: live_ids_def q unregister_running [OF assms] del: mset_map)
qed

lemma on_node_dput:
  assumes "dget (es_running s) (wl_id w) = None"
  shows "on_node n (s\<lparr>es_running := dput (wl_id w) w (es_running s)\<rparr>)
       = on_node n s @ (if wl_assigned_node w = n then [w] else [])"
  using assms by (simp add: on_node_def dput_new dget_None_iff)

lemma length_filter_ddel:
  "dwf d \<Longrightarrow> dget d k = Some v \<Longrightarrow>
     length (filter (\<lambda>p. P (snd p)) (ddel k d)) = length (filter (\<lambda>p. P (snd p)) d) - (if P v then 1 else 0)
     \<and> (P v \<longrightarrow> 0 < length (filter (\<lambda>p. P (snd p)) d))"
proof (induction d)
  case (Cons p d)
  obtain j u where p: "p = (j, u)" by (cases p)
  have d: "j \<notin> fst ` set d" "dwf d" using Cons.prems(1) p by (auto simp: dwf_def)
  show ?case
  proof (cases "j = k")
    case True
    then have "ddel k d = d" using d(1) by (force simp: AList.delete_eq filter_id_conv)
    with True Cons.prems(2) p show ?thesis by simp
  next
    case False
    then have v: "dget d k = Some v" using Cons.prems(2) p by simp
    have "ddel k (p # d) = p # ddel k d" using False p by simp
    moreover have "length (filter (\<lambda>p. P (snd p)) d) = 0 \<Longrightarrow> \<not> P v"
      using Cons.IH [OF d(2) v] by auto
    ultimately show ?thesis using Cons.IH [OF d(2) v] by (cases "P v"; cases "P (snd p)") simp_all
  qed
qed simp

text \<open>One step keeps the loads exact and moves ids only from submission to completion.\<close>

lemma register_ok: "sched_ok s \<Longrightarrow> sched_ok (es_register_node n c s)"
  by (auto simp: sched_ok_def loads_exact_def es_register_node_def on_node_def)

lemma unregister_ok: "sched_ok s \<Longrightarrow> sched_ok (fst (es_unregister_node n s))"
proof -
  assume ok: "sched_ok s"
  then have k: "keyed wl_id (es_running s)" by (simp add: sched_ok_def)
  let ?s = "fst (es_unregister_node n s)"
  have tables: "es_load ?s = ddel n (es_load s)" "es_capacity ?s = ddel n (es_capacity s)"
    by (simp_all add: es_unregister_node_def Let_def)
  have "keyed wl_id (es_running ?s)" by (simp add: unregister_running [OF k] keyed_filter [OF k])
  moreover have "loads_exact ?s"
    using ok by (simp add: loads_exact_def tables on_node_unregister [OF k] sched_ok_def)
  ultimately show ?thesis using ok by (simp add: sched_ok_def tables)
qed

lemma schedule_cases:
  obtains (idle) "es_schedule_next t s = (s, None)"
  | (start) w ws n where "es_queue s = w # ws" "pick_node s = Some n" "n \<noteq> []"
      "es_schedule_next t s =
        (let w1 = w\<lparr>wl_assigned_node := n, wl_started_at := t, wl_status := WRunning\<rparr>
         in (s\<lparr>es_queue := ws, es_running := dput (wl_id w1) w1 (es_running s),
               es_load := dput n (load_of n s + 1) (es_load s)\<rparr>, Some w1))"
proof (cases "es_queue s")
  case (Cons w ws)
  show ?thesis
  proof (cases "truthy (pick_node s)")
    case (Some n)
    then have "pick_node s = Some n" "n \<noteq> []" by simp_all
    with Cons show ?thesis by (intro start) (simp_all add: es_schedule_next_def truthy_def Let_def)
  qed (use Cons in \<open>intro idle, simp add: es_schedule_next_def\<close>)
qed (intro idle, simp add: es_schedule_next_def)

lemma schedule_ok:
  assumes "sched_ok s" "\<forall>w \<in> set (es_queue s). dget (es_running s) (wl_id w) = None"
  shows "sched_ok (fst (es_schedule_next t s)) \<and> live_ids (fst (es_schedule_next t s)) = live_ids s"
proof (cases rule: schedule_cases [of t s])
  case (start w ws n)
  let ?w = "w\<lparr>wl_assigned_node := n, wl_started_at := t, wl_status := WRunning\<rparr>"
  let ?s = "fst (es_schedule_next t s)"
  have s: "es_running ?s = dput (wl_id w) ?w (es_running s)" "es_capacity ?s = es_capacity s"
      "es_load ?s = dput n (load_of n s + 1) (es_load s)" "es_queue ?s = ws"
    by (simp_all add: start(4) Let_def)
  have fresh: "dget (es_running s) (wl_id ?w) = None" using assms(2) start(1) by simp
  have on: "on_node m ?s = on_node m s @ (if n = m then [?w] else [])" for m
    using on_node_dput [OF fresh, of m] by (simp add: on_node_def s)
  obtain cap where cap: "dget (es_capacity s) n = Some cap"
    using pick_node_spec(1) [of s n] start(2) assms(1) by (auto simp: sched_ok_def)
  have "loads_exact ?s"
    using assms(1) cap by (auto simp: sched_ok_def loads_exact_def s on load_of_def)
  moreover have "keyed wl_id (es_running ?s)" using assms(1) by (auto simp: sched_ok_def s)
  moreover have "live_ids ?s = live_ids s"
    using fresh start(1) by (simp add: live_ids_def s dput_new dget_None_iff)
  ultimately show ?thesis using assms(1) by (simp add: sched_ok_def s)
qed (use assms in simp)

lemma complete_ok:
  assumes "sched_ok s" "es_complete t wid success s = (s', res)"
  shows "sched_ok s'" "live_ids s = live_ids s' + (case res of None \<Rightarrow> {#} | Some w \<Rightarrow> {#wl_id w#})"
proof -
  have "sched_ok s' \<and> live_ids s = live_ids s' + (case res of None \<Rightarrow> {#} | Some w \<Rightarrow> {#wl_id w#})"
  proof (cases "dget (es_running s) wid")
    case None
    with assms show ?thesis by (auto simp: es_complete_def)
  next
    case (Some w)
    have k: "keyed wl_id (es_running s)" and wf: "dwf (es_running s)"
      using assms(1) by (auto simp: sched_ok_def keyed_def)
    have wid: "wl_id w = wid" by (rule keyed_dget [OF k Some])
    have s': "es_running s' = ddel wid (es_running s)" "es_capacity s' = es_capacity s" "es_queue s' = es_queue s"
        "es_load s' = (case dget (es_load s) (wl_assigned_node w) of
            Some l \<Rightarrow> dput (wl_assigned_node w) (max 0 (l - 1)) (es_load s) | None \<Rightarrow> es_load s)"
        and res: "map_option wl_id res = Some wid"
      using assms(2) Some wid by (auto simp: es_complete_def Let_def split: option.split)
    have on: "length (on_node m s') = length (on_node m s) - (if wl_assigned_node w = m then 1 else 0)
        \<and> (wl_assigned_node w = m \<longrightarrow> 0 < length (on_node m s))" for m
      using length_filter_ddel [OF wf Some, of "\<lambda>w. wl_assigned_node w = m"] by (simp add: on_node_def s')
    have some: "dget (es_capacity s) (wl_assigned_node w) \<noteq> None"
      using assms(1) on [of "wl_assigned_node w"] unfolding sched_ok_def loads_exact_def by auto
    let ?a = "wl_assigned_node w"
    have exact: "loads_exact s" using assms(1) by (simp add: sched_ok_def)
    have one: "int (length (on_node ?a s')) = int (length (on_node ?a s)) - 1" "0 < length (on_node ?a s)"
      using on [of ?a] by (simp_all add: of_nat_diff Suc_le_eq)
    have other: "length (on_node m s') = length (on_node m s)" if "m \<noteq> ?a" for m using on [of m] that by auto
    have gone: "on_node m s' = []" if "dget (es_capacity s) m = None" for m
      using on [of m] exact that unfolding loads_exact_def by simp
    have load: "dget (es_load s) ?a = Some (int (length (on_node ?a s)))"
      using exact some unfolding loads_exact_def by simp
    have "es_load s' = dput ?a (int (length (on_node ?a s'))) (es_load s)"
      using one by (simp add: s'(4) load)
    then have "loads_exact s'"
      using exact some other gone unfolding loads_exact_def s'(2) by auto
    moreover have "live_ids s = add_mset wid (live_ids s')"
      using mset_dkeys_ddel [OF wf Some] by (simp add: live_ids_def s')
    ultimately show ?thesis using assms(1) res k by (auto simp: sched_ok_def s')
  qed
  then show "sched_ok s'" "live_ids s = live_ids s' + (case res of None \<Rightarrow> {#} | Some w \<Rightarrow> {#wl_id w#})" by auto
qed

definition ids_fresh :: "edge_scheduler \<Rightarrow> string list \<Rightarrow> bool" where
  "ids_fresh s ids \<longleftrightarrow> distinct ids \<and> (\<forall>i. count (live_ids s) i + count (mset ids) i \<le> 1)"

lemma fresh_queue:
  assumes "ids_fresh s ids" "w \<in> set (es_queue s)"
  shows "dget (es_running s) (wl_id w) = None"
proof (rule ccontr)
  assume "dget (es_running s) (wl_id w) \<noteq> None"
  then have "wl_id w \<in> set (dkeys (es_running s))" by (simp add: dget_None_iff)
  then have "1 \<le> count (mset (dkeys (es_running s))) (wl_id w)" by (simp only: count_greater_eq_one_iff set_mset_mset)
  moreover have "wl_id w \<in> set (map wl_id (es_queue s))" using assms(2) by simp
  then have "1 \<le> count (mset (map wl_id (es_queue s))) (wl_id w)" by (simp only: count_greater_eq_one_iff set_mset_mset)
  ultimately have "2 \<le> count (live_ids s) (wl_id w)" unfolding live_ids_def count_union by linarith
  moreover have "count (live_ids s) (wl_id w) + count (mset ids) (wl_id w) \<le> 1"
    using assms(1) by (simp add: ids_fresh_def)
  ultimately show False by linarith
qed

lemma sched_step_ok:
  assumes "sched_ok s" "ids_fresh s (submitted op @ ids)" "sched_step op (s, fin) = (s', fin')"
  shows "sched_ok s' \<and> ids_fresh s' ids
    \<and> live_ids s' + mset fin' = live_ids s + mset fin + mset (submitted op)"
proof -
  have "sched_ok s' \<and> live_ids s' + mset fin' = live_ids s + mset fin + mset (submitted op)
    \<and> (\<forall>i. count (live_ids s') i \<le> count (live_ids s) i + count (mset (submitted op)) i)"
  proof (cases op)
    case (RegisterNode n c)
    with assms(1,3) register_ok show ?thesis by (auto simp: live_ids_def es_register_node_def)
  next
    case (UnregisterNode n)
    with assms(1,3) unregister_ok live_ids_unregister show ?thesis by (auto simp: sched_ok_def)
  next
    case (SubmitWorkload w)
    then have "sched_ok s'" "live_ids s' = add_mset (wl_id w) (live_ids s)" "fin' = fin"
      using assms(1,3)
      by (auto simp: sched_ok_def loads_exact_def on_node_def live_ids_def es_submit_def mset_sort_desc)
    with SubmitWorkload show ?thesis by simp
  next
    case (ScheduleNext t)
    have "\<forall>w \<in> set (es_queue s). dget (es_running s) (wl_id w) = None"
      using fresh_queue [OF assms(2)] by blast
    from schedule_ok [OF assms(1) this, of t] ScheduleNext assms(3) show ?thesis by auto
  next
    case (CompleteWorkload t wid good)
    obtain s1 res where c: "es_complete t wid good s = (s1, res)" by (cases "es_complete t wid good s")
    from complete_ok [OF assms(1) c] c CompleteWorkload assms(3) show ?thesis by (auto split: option.splits)
  qed
  moreover have "\<forall>i. count (live_ids s) i + count (mset (submitted op)) i + count (mset ids) i \<le> 1" "distinct ids"
    using assms(2) by (auto simp: ids_fresh_def add.assoc)
  ultimately show ?thesis unfolding ids_fresh_def by (meson add_le_mono1 order_trans)
qed

lemma sched_run_ok:
  "sched_ok s \<Longrightarrow> ids_fresh s (concat (map submitted ops)) \<Longrightarrow> fold sched_step ops (s, fin) = (s', fin')
    \<Longrightarrow> sched_ok s' \<and> ids_fresh s' [] \<and> live_ids s' + mset fin' = live_ids s + mset fin + mset (concat (map submitted ops))"
proof (induction ops arbitrary: s fin)
  case Nil
  then show ?case by (auto simp: ids_fresh_def)
next
  case (Cons op ops)
  obtain s1 f1 where one: "sched_step op (s, fin) = (s1, f1)" by (cases "sched_step op (s, fin)")
  have "ids_fresh s (submitted op @ concat (map submitted ops))" using Cons.prems(2) by simp
  from sched_step_ok [OF Cons.prems(1) this one] Cons.IH [of s1 f1] Cons.prems(3) one
  show ?case by (simp add: add.assoc)
qed

lemma sched_start: "sched_ok new_edge_scheduler" "distinct ids \<Longrightarrow> ids_fresh new_edge_scheduler ids"
proof -
  show "sched_ok new_edge_scheduler"
    by (simp add: sched_ok_def loads_exact_def on_node_def new_edge_scheduler_def)
  show "distinct ids \<Longrightarrow> ids_fresh new_edge_scheduler ids"
    by (auto simp: ids_fresh_def live_ids_def new_edge_scheduler_def distinct_count_atmost_1)
qed

text \<open>
  C13: the edge scheduler neither loses nor duplicates a workload: when no id is submitted twice,
  the ids that wait, the ids that run and the ids that finished are together exactly the ids that
  were submitted, whichever nodes come and go meanwhile.
\<close>

theorem edge_workloads_conserved:
  assumes "distinct (concat (map submitted ops))"
  shows "mset (map wl_id (es_queue (fst (fold sched_step ops (new_edge_scheduler, [])))))
      + mset (dkeys (es_running (fst (fold sched_step ops (new_edge_scheduler, [])))))
      + mset (snd (fold sched_step ops (new_edge_scheduler, [])))
    = mset (concat (map submitted ops))"
proof -
  let ?run = "fold sched_step ops (new_edge_scheduler, [])"
  from sched_run_ok [OF sched_start(1) sched_start(2) [OF assms], of "[]" "fst ?run" "snd ?run"]
  show ?thesis by (simp add: live_ids_def new_edge_scheduler_def)
qed

definition example_sched_ops :: "sched_op list" where
  "example_sched_ops =
     [RegisterNode ''n'' 2, SubmitWorkload (new_workload 1 ''a'' ''m'' 0 0 False),
      SubmitWorkload (new_workload 1 ''b'' ''m'' 5 0 False), ScheduleNext 2, ScheduleNext 3,
      CompleteWorkload 4 ''b'' True, UnregisterNode ''n'']"

theorem edge_workloads_conserved_witness:
  "mset (map wl_id (es_queue (fst (fold sched_step example_sched_ops (new_edge_scheduler, [])))))
      + mset (dkeys (es_running (fst (fold sched_step example_sched_ops (new_edge_scheduler, [])))))
      + mset (snd (fold sched_step example_sched_ops (new_edge_scheduler, [])))
    = {#''a'', ''b''#}"
  using edge_workloads_conserved [of example_sched_ops]
  by (simp add: example_sched_ops_def new_workload_def)

text \<open>
  the scheduler never overfills a node: the node it gives a workload is registered, runs no
  more workloads than its capacity afterwards, and had the most free slots of all nodes.
\<close>

theorem edge_capacity_respected:
  assumes "distinct (concat (map submitted ops))"
    and "snd (es_schedule_next t (fst (fold sched_step ops (new_edge_scheduler, [])))) = Some w"
  shows "let s = fst (fold sched_step ops (new_edge_scheduler, [])); n = wl_assigned_node w in
    \<exists>c. dget (es_capacity s) n = Some c \<and> int (length (on_node n (fst (es_schedule_next t s)))) \<le> c
      \<and> (\<forall>m d. dget (es_capacity s) m = Some d \<longrightarrow>
            d - int (length (on_node m s)) \<le> c - int (length (on_node n s)))"
proof -
  let ?run = "fold sched_step ops (new_edge_scheduler, [])" and ?s = "fst (fold sched_step ops (new_edge_scheduler, []))"
  from sched_run_ok [OF sched_start(1) sched_start(2) [OF assms(1)], of "[]" ?s "snd ?run"]
  have ok: "sched_ok ?s" and fresh: "ids_fresh ?s []" by auto
  have load: "load_of m ?s = int (length (on_node m ?s))" for m
    using ok by (auto simp: sched_ok_def loads_exact_def load_of_def split: option.split)
  show ?thesis
  proof (cases rule: schedule_cases [of t ?s])
    case (start v ws n)
    have w: "w = v\<lparr>wl_assigned_node := n, wl_started_at := t, wl_status := WRunning\<rparr>"
      using assms(2) start(4) by (simp add: Let_def)
    have "dget (es_running ?s) (wl_id w) = None"
      using fresh_queue [OF fresh, of v] start(1) by (simp add: w)
    from on_node_dput [OF this, of n]
    have "length (on_node n (fst (es_schedule_next t ?s))) = Suc (length (on_node n ?s))"
      by (simp add: start(4) Let_def on_node_def w)
    with pick_node_spec(1) [of ?s n] start(2) ok show ?thesis
      by (auto simp: Let_def w load sched_ok_def)
  qed (use assms(2) in simp)
qed

definition example_busy :: "sched_op list" where
  "example_busy =
     [RegisterNode ''n'' 2, RegisterNode ''k'' 1, SubmitWorkload (new_workload 1 ''a'' ''m'' 9 0 False),
      ScheduleNext 2, SubmitWorkload (new_workload 3 ''b'' ''m'' 0 0 False)]"

theorem edge_capacity_respected_witness:
  "\<exists>c. dget (es_capacity (fst (fold sched_step example_busy (new_edge_scheduler, [])))) ''n'' = Some c
     \<and> int (length (on_node ''n'' (fst (es_schedule_next 4 (fst (fold sched_step example_busy (new_edge_scheduler, []))))))) \<le> c"
proof -
  have d: "distinct (concat (map submitted example_busy))" by (simp add: example_busy_def new_workload_def)
  have s: "snd (es_schedule_next 4 (fst (fold sched_step example_busy (new_edge_scheduler, []))))
    = Some ((new_workload 3 ''b'' ''m'' 0 0 False)\<lparr>wl_started_at := 4, wl_status := WRunning, wl_assigned_node := ''n''\<rparr>)"
    by code_simp
  from edge_capacity_respected [OF d s] show ?thesis by (auto simp: Let_def)
qed

text \<open>
  Workloads of a node that leaves are appended to the queue without sorting it: a workload of
  priority 9 then waits behind one of priority 0, until the next submission sorts the queue.
\<close>

lemma requeue_breaks_priority:
  "map wl_priority (es_queue (fst (fold sched_step (example_busy @ [UnregisterNode ''n'']) (new_edge_scheduler, []))))
   = [0, 9]"
  by code_simp

end
