(* ===== verification/Regions.thy ===== *)
theory Regions
  imports Prelude
begin

text \<open>
  The global regions: their persistent registry (\<open>regions/region_registry.py\<close>), the health monitor
  (\<open>regions/region_health.py\<close>), the capacity tracker (\<open>regions/regional_capacity.py\<close>) and the
  automatic failover (\<open>routing/smart_failover.py\<close>), which all write the status of a region. The
  registry is a table keyed by the region id. An update of a heartbeat names the attribute that it
  sets; the id of a region is not among them. The callback of a failover only observes.
\<close>

section \<open>The registry\<close>

datatype region_status = RActive | RDegraded | RDraining | ROffline

datatype region_type = RCloud | REdge | RHybrid

record gpu_inventory =
  gi_total_gpus :: int
  gi_available_gpus :: int
  gi_gpu_types :: "(string, int) dict"
  gi_total_vram_gb :: rat
  gi_available_vram_gb :: rat

record region =
  rg_id :: string
  rg_display_name :: string
  rg_location :: string
  rg_latitude :: rat
  rg_longitude :: rat
  rg_type :: region_type
  rg_status :: region_status
  rg_capacity :: rat
  rg_gpu_inventory :: gpu_inventory
  rg_avg_latency_ms :: rat
  rg_saturation :: rat
  rg_edge_connectivity :: bool
  rg_failover_priority :: int
  rg_failover_target :: "string option"
  rg_endpoint_url :: string
  rg_metadata :: json
  rg_registered_at :: pyfloat
  rg_last_heartbeat :: pyfloat
  rg_updated_at :: pyfloat

record region_db =
  db_regions :: "(string, region) dict"
  db_region_events :: "(pyfloat \<times> string \<times> json) list"

definition empty_region_db :: region_db where
  "empty_region_db = \<lparr>db_regions = [], db_region_events = []\<rparr>"

definition region_event :: "pyfloat \<Rightarrow> string \<Rightarrow> json \<Rightarrow> region_db \<Rightarrow> region_db" where
  "region_event t ty details db = db\<lparr>db_region_events := db_region_events db @ [(t, ty, details)]\<rparr>"

definition get_region :: "string \<Rightarrow> region_db \<Rightarrow> region option" where
  "get_region rid db = dget (db_regions db) rid"

definition register_region :: "pyfloat \<Rightarrow> region \<Rightarrow> region_db \<Rightarrow> region_db" where
  "register_region t r db =
     (let r1 = r\<lparr>rg_registered_at := (if rg_registered_at r = 0 then t else rg_registered_at r),
                 rg_last_heartbeat := t, rg_updated_at := t\<rparr>
      in region_event t ''region_registered'' (JObj [(''region_id'', JStr (rg_id r))])
           (db\<lparr>db_regions := dput (rg_id r) r1 (db_regions db)\<rparr>))"

datatype region_update =
    SetStatus region_status
  | SetCapacity rat
  | SetGpuInventory gpu_inventory
  | SetLatency rat
  | SetSaturation rat
  | SetEdgeConnectivity bool
  | SetFailover int "string option"
  | SetEndpoint string
  | SetUnknown

fun apply_update :: "region_update \<Rightarrow> region \<Rightarrow> region" where
  "apply_update (SetStatus st) r = r\<lparr>rg_status := st\<rparr>"
| "apply_update (SetCapacity c) r = r\<lparr>rg_capacity := c\<rparr>"
| "apply_update (SetGpuInventory g) r = r\<lparr>rg_gpu_inventory := g\<rparr>"
| "apply_update (SetLatency l) r = r\<lparr>rg_avg_latency_ms := l\<rparr>"
| "apply_update (SetSaturation s) r = r\<lparr>rg_saturation := s\<rparr>"
| "apply_update (SetEdgeConnectivity b) r = r\<lparr>rg_edge_connectivity := b\<rparr>"
| "apply_update (SetFailover p tgt) r = r\<lparr>rg_failover_priority := p, rg_failover_target := tgt\<rparr>"
| "apply_update (SetEndpoint u) r = r\<lparr>rg_endpoint_url := u\<rparr>"
| "apply_update SetUnknown r = r"

definition region_heartbeat ::
    "pyfloat \<Rightarrow> string \<Rightarrow> region_update list \<Rightarrow> region_db \<Rightarrow> region_db \<times> region option" where
  "region_heartbeat t rid updates db =
     (case get_region rid db of
        None \<Rightarrow> (db, None)
      | Some r \<Rightarrow>
          let r1 = fold apply_update updates (r\<lparr>rg_last_heartbeat := t, rg_updated_at := t\<rparr>)
          in (db\<lparr>db_regions := dput rid r1 (db_regions db)\<rparr>, Some r1))"

definition list_regions :: "region_status option \<Rightarrow> region_type option \<Rightarrow> region_db \<Rightarrow> region list" where
  "list_regions st ty db =
     (let rs = map snd (sort_key fst (db_regions db));
          rs1 = (case st of None \<Rightarrow> rs | Some s \<Rightarrow> filter (\<lambda>r. rg_status r = s) rs)
      in case ty of None \<Rightarrow> rs1 | Some y \<Rightarrow> filter (\<lambda>r. rg_type r = y) rs1)"

definition serving :: "region \<Rightarrow> bool" where
  "serving r \<longleftrightarrow> rg_status r = RActive \<or> rg_status r = RDegraded"

definition active_regions :: "region_db \<Rightarrow> region list" where
  "active_regions db = filter serving (list_regions None None db)"

definition remove_region :: "pyfloat \<Rightarrow> string \<Rightarrow> region_db \<Rightarrow> region_db" where
  "remove_region t rid db =
     region_event t ''region_removed'' (JObj [(''region_id'', JStr rid)])
       (db\<lparr>db_regions := ddel rid (db_regions db)\<rparr>)"

fun region_status_name :: "region_status \<Rightarrow> string" where
  "region_status_name RActive = ''active''"
| "region_status_name RDegraded = ''degraded''"
| "region_status_name RDraining = ''draining''"
| "region_status_name ROffline = ''offline''"

definition update_status :: "pyfloat \<Rightarrow> string \<Rightarrow> region_status \<Rightarrow> region_db \<Rightarrow> region_db \<times> region option" where
  "update_status t rid st db =
     (case get_region rid db of
        None \<Rightarrow> (db, None)
      | Some r \<Rightarrow>
          let r1 = r\<lparr>rg_status := st, rg_updated_at := t\<rparr>
          in (region_event t ''region_status_changed''
                (JObj [(''region_id'', JStr rid), (''old'', JStr (region_status_name (rg_status r))),
                       (''new'', JStr (region_status_name st))])
                (db\<lparr>db_regions := dput rid r1 (db_regions db)\<rparr>), Some r1))"

section \<open>Health\<close>

type_synonym health_history = "(string, (pyfloat \<times> region_status) list) dict"

definition evaluate_region :: "pyfloat \<Rightarrow> rat \<Rightarrow> rat \<Rightarrow> region \<Rightarrow> pyfloat \<Rightarrow> region_status" where
  "evaluate_region timeout degraded_latency degraded_saturation r ts =
     (if rg_status r = RDraining then RDraining
      else if ts - rg_last_heartbeat r > timeout then ROffline
      else if rg_avg_latency_ms r > degraded_latency \<or> rg_saturation r > degraded_saturation
      then RDegraded else RActive)"

definition record_health :: "string \<Rightarrow> region_status \<Rightarrow> pyfloat \<Rightarrow> health_history \<Rightarrow> health_history" where
  "record_health rid st ts h =
     (let old = (case dget h rid of Some xs \<Rightarrow> xs | None \<Rightarrow> [])
      in dput rid (py_cap 100 (old @ [(ts, st)])) h)"

text \<open>One region of a check, with the thresholds \<open>(timeout, latency, saturation)\<close>.\<close>

definition check_region ::
    "rat \<times> rat \<times> rat \<Rightarrow> pyfloat \<Rightarrow> region \<Rightarrow> region_db \<times> health_history \<Rightarrow> region_db \<times> health_history" where
  "check_region th ts r s =
     (let new = evaluate_region (fst th) (fst (snd th)) (snd (snd th)) r ts
      in (if new \<noteq> rg_status r then fst (update_status ts (rg_id r) new (fst s)) else fst s,
          record_health (rg_id r) new ts (snd s)))"

definition check_regions ::
    "rat \<times> rat \<times> rat \<Rightarrow> pyfloat \<Rightarrow> region_db \<times> health_history \<Rightarrow> region_db \<times> health_history" where
  "check_regions th ts s = fold (check_region th ts) (list_regions None None (fst s)) s"

definition get_health_history :: "string \<Rightarrow> nat \<Rightarrow> health_history \<Rightarrow> (pyfloat \<times> region_status) list" where
  "get_health_history rid limit h = take limit (rev (case dget h rid of Some xs \<Rightarrow> xs | None \<Rightarrow> []))"

section \<open>Capacity\<close>

definition update_capacity ::
    "pyfloat \<Rightarrow> string \<Rightarrow> gpu_inventory option \<Rightarrow> rat option \<Rightarrow> rat option \<Rightarrow> region_db
      \<Rightarrow> region_db \<times> region option" where
  "update_capacity t rid gpu saturation capacity db =
     region_heartbeat t rid
       ((case gpu of Some g \<Rightarrow> [SetGpuInventory g] | None \<Rightarrow> [])
        @ (case saturation of Some x \<Rightarrow> [SetSaturation x] | None \<Rightarrow> [])
        @ (case capacity of Some c \<Rightarrow> [SetCapacity c] | None \<Rightarrow> [])) db"

record capacity_summary =
  cs_total_regions :: nat
  cs_active_regions :: nat
  cs_total_gpus :: int
  cs_available_gpus :: int
  cs_total_vram_gb :: rat
  cs_available_vram_gb :: rat
  cs_avg_saturation :: rat

definition global_capacity_summary :: "region_db \<Rightarrow> capacity_summary" where
  "global_capacity_summary db =
     (let rs = list_regions None None db; act = filter serving rs
      in \<lparr>cs_total_regions = length rs, cs_active_regions = length act,
          cs_total_gpus = sum_list (map (\<lambda>r. gi_total_gpus (rg_gpu_inventory r)) rs),
          cs_available_gpus = sum_list (map (\<lambda>r. gi_available_gpus (rg_gpu_inventory r)) rs),
          cs_total_vram_gb = py_round (sum_list (map (\<lambda>r. gi_total_vram_gb (rg_gpu_inventory r)) rs)) 2,
          cs_available_vram_gb = py_round (sum_list (map (\<lambda>r. gi_available_vram_gb (rg_gpu_inventory r)) rs)) 2,
          cs_avg_saturation =
            (if act \<noteq> [] then py_round (sum_list (map rg_saturation act) / of_nat (length act)) 4 else 0)\<rparr>)"

definition find_available_regions :: "int \<Rightarrow> rat \<Rightarrow> region_db \<Rightarrow> region list" where
  "find_available_regions min_gpus max_saturation db =
     sort_key rg_saturation
       (filter (\<lambda>r. gi_available_gpus (rg_gpu_inventory r) \<ge> min_gpus \<and> rg_saturation r \<le> max_saturation)
         (active_regions db))"

section \<open>Failover\<close>

datatype failover_trigger =
    LatencySpike | RegionOutage | GpuExhaustion | NetworkPartition | DeploymentFailure | ManualFailover

record failover_event =
  fo_source :: string
  fo_target :: string
  fo_trigger :: failover_trigger
  fo_ts :: pyfloat

record failover =
  fv_events :: "failover_event list"
  fv_total :: nat

definition LATENCY_SPIKE_THRESHOLD_MS :: rat where
  "LATENCY_SPIKE_THRESHOLD_MS = 1000"

definition GPU_EXHAUSTION_THRESHOLD :: rat where
  "GPU_EXHAUSTION_THRESHOLD = 95 / 100"

definition failover_trigger_of :: "region \<Rightarrow> failover_trigger option" where
  "failover_trigger_of r =
     (if rg_status r = ROffline then Some RegionOutage
      else if rg_avg_latency_ms r > LATENCY_SPIKE_THRESHOLD_MS then Some LatencySpike
      else if gi_total_gpus (rg_gpu_inventory r) > 0 \<and> gi_available_gpus (rg_gpu_inventory r) = 0
      then Some GpuExhaustion
      else if rg_saturation r > GPU_EXHAUSTION_THRESHOLD then Some GpuExhaustion
      else None)"

definition failover_candidates :: "region \<Rightarrow> region_db \<Rightarrow> region list" where
  "failover_candidates r db =
     sort_key (\<lambda>c. (rg_failover_priority c, rg_saturation c))
       (filter (\<lambda>c. rg_saturation c < 85 / 100)
         (filter (\<lambda>c. rg_id c \<noteq> rg_id r) (active_regions db)))"

definition select_failover_target :: "region \<Rightarrow> region_db \<Rightarrow> region option" where
  "select_failover_target r db =
     (case Option.bind (truthy (rg_failover_target r)) (\<lambda>tgt. get_region tgt db) of
        Some c \<Rightarrow> if rg_status c = RActive then Some c
                  else (case failover_candidates r db of [] \<Rightarrow> None | x # xs \<Rightarrow> Some x)
      | None \<Rightarrow> (case failover_candidates r db of [] \<Rightarrow> None | x # xs \<Rightarrow> Some x))"

definition execute_failover ::
    "pyfloat \<Rightarrow> region \<Rightarrow> region \<Rightarrow> failover_trigger \<Rightarrow> region_db \<times> failover \<Rightarrow> region_db \<times> failover" where
  "execute_failover t source target trigger s =
     (fst (update_status t (rg_id source) RDraining (fst s)),
      (snd s)\<lparr>fv_events := py_cap 200 (fv_events (snd s) @
                [\<lparr>fo_source = rg_id source, fo_target = rg_id target, fo_trigger = trigger, fo_ts = t\<rparr>]),
              fv_total := fv_total (snd s) + 1\<rparr>)"

definition failover_region :: "pyfloat \<Rightarrow> region \<Rightarrow> region_db \<times> failover \<Rightarrow> region_db \<times> failover" where
  "failover_region t r s =
     (case failover_trigger_of r of
        None \<Rightarrow> s
      | Some trigger \<Rightarrow>
          (case select_failover_target r (fst s) of
             None \<Rightarrow> s
           | Some target \<Rightarrow> execute_failover t r target trigger s))"

definition failover_check :: "pyfloat \<Rightarrow> region_db \<times> failover \<Rightarrow> region_db \<times> failover" where
  "failover_check t s = fold (failover_region t) (list_regions None None (fst s)) s"

definition trigger_manual_failover ::
    "pyfloat \<Rightarrow> string \<Rightarrow> string \<Rightarrow> region_db \<times> failover \<Rightarrow> (region_db \<times> failover) \<times> bool" where
  "trigger_manual_failover t source target s =
     (case (get_region source (fst s), get_region target (fst s)) of
        (Some r, Some c) \<Rightarrow> (execute_failover t r c ManualFailover s, True)
      | _ \<Rightarrow> (s, False))"

definition recover_region :: "pyfloat \<Rightarrow> string \<Rightarrow> region_db \<Rightarrow> region_db \<times> region option" where
  "recover_region t rid db = update_status t rid RActive db"

section \<open>The status of a region\<close>

definition regions_ok :: "region_db \<Rightarrow> bool" where
  "regions_ok db \<longleftrightarrow> keyed rg_id (db_regions db)"

definition status_of :: "string \<Rightarrow> region_db \<Rightarrow> region_status option" where
  "status_of rid db = map_option rg_status (dget (db_regions db) rid)"

lemma region_event_frame [simp]: "db_regions (region_event t ty d db) = db_regions db"
  by (simp add: region_event_def)

lemma update_status_frame [simp]:
  "status_of j (fst (update_status t i st db)) =
     (if j = i \<and> status_of i db \<noteq> None then Some st else status_of j db)"
  "regions_ok db \<Longrightarrow> regions_ok (fst (update_status t i st db))"
proof -
  show "status_of j (fst (update_status t i st db)) =
      (if j = i \<and> status_of i db \<noteq> None then Some st else status_of j db)"
    by (cases "dget (db_regions db) i") (simp_all add: update_status_def status_of_def get_region_def Let_def)
  show "regions_ok (fst (update_status t i st db))" if ok: "regions_ok db"
  proof (cases "get_region i db")
    case (Some r)
    have id: "rg_id r = i" using Some ok unfolding regions_ok_def get_region_def by (metis keyed_dget)
    have "keyed rg_id (dput i (r\<lparr>rg_status := st, rg_updated_at := t\<rparr>) (db_regions db))"
      by (rule keyed_dput) (use ok id in \<open>simp_all add: regions_ok_def\<close>)
    then show ?thesis by (simp add: Some update_status_def regions_ok_def Let_def)
  qed (use ok in \<open>simp add: update_status_def\<close>)
qed

lemma apply_update_frame: "rg_id (fold apply_update us r) = rg_id r"
proof (induction us arbitrary: r)
  case (Cons u us)
  have "rg_id (apply_update u r) = rg_id r" by (cases u) simp_all
  with Cons show ?case by simp
qed simp

text \<open>The rows of a listing are the rows of the table, each id once.\<close>

lemma set_list_regions: "regions_ok db \<Longrightarrow> r \<in> set (list_regions None None db) \<longleftrightarrow> get_region (rg_id r) db = Some r"
  using keyed_member [of rg_id "db_regions db" r]
  by (simp add: list_regions_def regions_ok_def get_region_def)

lemma distinct_list_regions:
  assumes "regions_ok db"
  shows "distinct (map rg_id (list_regions None None db))"
proof -
  have d: "distinct (map fst (sort_key fst (db_regions db)))"
    using assms by (simp add: regions_ok_def keyed_def dwf_def distinct_map)
  have "map rg_id (list_regions None None db) = map fst (sort_key fst (db_regions db))"
    using assms by (auto simp: list_regions_def regions_ok_def keyed_def)
  with d show ?thesis by (simp only:)
qed

lemma active_regions_iff:
  "regions_ok db \<Longrightarrow> r \<in> set (active_regions db) \<longleftrightarrow> get_region (rg_id r) db = Some r \<and> serving r"
  by (auto simp: active_regions_def set_list_regions)

section \<open>The health check\<close>

lemma check_fold:
  assumes "distinct (map rg_id rs)" "\<forall>r \<in> set rs. status_of (rg_id r) (fst s) = Some (rg_status r)"
  shows "status_of j (fst (fold (check_region th ts) rs s)) =
      (case find (\<lambda>r. rg_id r = j) rs of
         Some r \<Rightarrow> Some (evaluate_region (fst th) (fst (snd th)) (snd (snd th)) r ts)
       | None \<Rightarrow> status_of j (fst s))"
  using assms
proof (induction rs arbitrary: s)
  case (Cons r rs)
  let ?new = "evaluate_region (fst th) (fst (snd th)) (snd (snd th)) r ts"
  have one: "status_of i (fst (check_region th ts r s)) = (if i = rg_id r then Some ?new else status_of i (fst s))" for i
    using Cons.prems(2) by (auto simp: check_region_def Let_def)
  have "\<forall>q \<in> set rs. status_of (rg_id q) (fst (check_region th ts r s)) = Some (rg_status q)"
  proof
    fix q assume q: "q \<in> set rs"
    moreover have "rg_id r \<notin> rg_id ` set rs" using Cons.prems(1) by simp
    ultimately have "rg_id q \<noteq> rg_id r" by (metis imageI)
    with q Cons.prems(2) show "status_of (rg_id q) (fst (check_region th ts r s)) = Some (rg_status q)"
      by (simp add: one)
  qed
  from Cons.IH [OF _ this] Cons.prems(1)
  have rest: "status_of j (fst (fold (check_region th ts) (r # rs) s)) =
      (case find (\<lambda>r. rg_id r = j) rs of
         Some r \<Rightarrow> Some (evaluate_region (fst th) (fst (snd th)) (snd (snd th)) r ts)
       | None \<Rightarrow> status_of j (fst (check_region th ts r s)))" by simp
  show ?case
  proof (cases "rg_id r = j")
    case True
    have "rg_id r \<notin> rg_id ` set rs" using Cons.prems(1) by simp
    then have "\<not> (\<exists>x. x \<in> set rs \<and> rg_id x = j)" unfolding True by blast
    then have "find (\<lambda>r. rg_id r = j) rs = None" by (simp only: find_None_iff not_False_eq_True)
    with rest one [of j] show ?thesis using True by simp
  next
    case False
    with rest one [of j] show ?thesis by (auto split: option.split)
  qed
qed simp

lemma find_region:
  assumes "regions_ok db"
  shows "find (\<lambda>r. rg_id r = j) (list_regions None None db) = get_region j db"
proof (cases "get_region j db")
  case None
  then have "rg_id r \<noteq> j" if "r \<in> set (list_regions None None db)" for r
    using that set_list_regions [OF assms, of r] by auto
  with None show ?thesis by (simp add: find_None_iff)
next
  case (Some r)
  have id: "rg_id r = j" using Some assms by (auto simp: get_region_def regions_ok_def dest: keyed_dget)
  then have mem: "r \<in> set (list_regions None None db)" using Some set_list_regions [OF assms] by simp
  have "find (\<lambda>r. rg_id r = j) (list_regions None None db) \<noteq> None"
    using mem id by (auto simp: find_None_iff)
  then obtain q where q: "find (\<lambda>r. rg_id r = j) (list_regions None None db) = Some q" by blast
  then have "q \<in> set (list_regions None None db)" "rg_id q = j" by (auto simp: find_Some_iff)
  then have "get_region j db = Some q" using set_list_regions [OF assms, of q] by simp
  with q Some show ?thesis by simp
qed

lemma check_regions_status:
  assumes "regions_ok db"
  shows "status_of rid (fst (check_regions th ts (db, h))) =
    map_option (\<lambda>r. evaluate_region (fst th) (fst (snd th)) (snd (snd th)) r ts) (get_region rid db)"
proof -
  have "\<forall>r \<in> set (list_regions None None db). status_of (rg_id r) db = Some (rg_status r)"
    using set_list_regions [OF assms] by (auto simp: status_of_def get_region_def)
  then show ?thesis
    using check_fold [OF distinct_list_regions [OF assms], of "(db, h)" rid th ts]
    by (auto simp: check_regions_def find_region [OF assms] status_of_def get_region_def split: option.split)
qed

text \<open>
  a health check gives every region the status its own record calls for: draining stays
  draining, a silent region is offline, a slow or saturated one degraded, any other active; it
  neither adds nor removes a region.
\<close>

theorem health_check_exact:
  assumes "regions_ok db"
  shows "status_of rid (fst (check_regions (timeout, latency, saturation) ts (db, h))) =
    map_option (\<lambda>r. evaluate_region timeout latency saturation r ts) (get_region rid db)"
  by (simp add: check_regions_status [OF assms])

lemma check_regions_draining:
  assumes "regions_ok db" "get_region rid db = Some r" "rg_status r = RDraining"
  shows "status_of rid (fst (check_regions th ts (db, h))) = Some RDraining"
  by (simp add: check_regions_status [OF assms(1)] assms(2,3) evaluate_region_def)

definition demo_region :: "string \<Rightarrow> region_status \<Rightarrow> rat \<Rightarrow> pyfloat \<Rightarrow> region" where
  "demo_region rid st saturation hb =
     \<lparr>rg_id = rid, rg_display_name = rid, rg_location = [], rg_latitude = 0, rg_longitude = 0, rg_type = RCloud,
      rg_status = st, rg_capacity = 1,
      rg_gpu_inventory = \<lparr>gi_total_gpus = 8, gi_available_gpus = 4, gi_gpu_types = [], gi_total_vram_gb = 640,
        gi_available_vram_gb = 320\<rparr>,
      rg_avg_latency_ms = 40, rg_saturation = saturation, rg_edge_connectivity = False, rg_failover_priority = 0,
      rg_failover_target = None, rg_endpoint_url = [], rg_metadata = JNull, rg_registered_at = 0,
      rg_last_heartbeat = hb, rg_updated_at = hb\<rparr>"

definition demo_db :: region_db where
  "demo_db = \<lparr>db_regions = [(''eu'', demo_region ''eu'' RActive (1 / 2) 10),
     (''us'', demo_region ''us'' RActive (99 / 100) 95)], db_region_events = []\<rparr>"

lemma demo_ok: "regions_ok demo_db"
  by (simp add: regions_ok_def keyed_def dwf_def demo_db_def demo_region_def)

theorem health_check_exact_witness:
  "status_of ''eu'' (fst (check_regions (60, 500, 9 / 10) 100 (demo_db, []))) = Some ROffline"
  using health_check_exact [OF demo_ok, of "''eu''" 60 500 "9 / 10" 100 "[]"]
  by (simp add: demo_db_def demo_region_def get_region_def evaluate_region_def)

section \<open>Failover\<close>

lemma select_target_sound:
  assumes ok: "regions_ok db" and c: "select_failover_target r db = Some c"
  shows "get_region (rg_id c) db = Some c \<and> serving c
    \<and> (rg_id c \<noteq> rg_id r \<or> rg_failover_target r = Some (rg_id r))
    \<and> (rg_failover_target r = Some (rg_id c) \<and> rg_status c = RActive
       \<or> rg_saturation c < 85 / 100
         \<and> (\<forall>d. get_region (rg_id d) db = Some d \<longrightarrow> serving d \<longrightarrow> rg_id d \<noteq> rg_id r \<longrightarrow> rg_saturation d < 85 / 100
              \<longrightarrow> (rg_failover_priority c, rg_saturation c) \<le> (rg_failover_priority d, rg_saturation d)))"
proof -
  let ?key = "\<lambda>c. (rg_failover_priority c, rg_saturation c)"
  consider (configured) tgt where "rg_failover_target r = Some tgt" "get_region tgt db = Some c" "rg_status c = RActive"
    | (best) cs where "failover_candidates r db = c # cs"
  proof (cases "Option.bind (truthy (rg_failover_target r)) (\<lambda>tgt. get_region tgt db)")
    case (Some x)
    then obtain tgt where tgt: "rg_failover_target r = Some tgt" "get_region tgt db = Some x"
      by (cases "truthy (rg_failover_target r)") simp_all
    show ?thesis
    proof (cases "rg_status x = RActive")
      case True
      with c Some have "x = c" by (simp add: select_failover_target_def)
      with tgt True configured show ?thesis by blast
    next
      case False
      with c Some best show ?thesis by (simp add: select_failover_target_def split: list.splits)
    qed
  next
    case None
    with c best show ?thesis by (simp add: select_failover_target_def split: list.splits)
  qed
  then show ?thesis
  proof cases
    case configured
    have id: "tgt = rg_id c" using configured(2) ok unfolding regions_ok_def get_region_def by (metis keyed_dget)
    have "serving c" using configured(3) by (simp add: serving_def)
    moreover have "rg_id c \<noteq> rg_id r \<or> rg_failover_target r = Some (rg_id r)"
      using configured(1) unfolding id by metis
    ultimately show ?thesis using configured unfolding id by blast
  next
    case best
    then have "c \<in> set (failover_candidates r db)" by simp
    then have mem: "get_region (rg_id c) db = Some c" "serving c" "rg_id c \<noteq> rg_id r" "rg_saturation c < 85 / 100"
      by (auto simp: failover_candidates_def active_regions_iff [OF ok])
    have sorted: "sorted (map ?key (failover_candidates r db))" by (simp add: failover_candidates_def)
    have "?key c \<le> ?key d" if "d \<in> set (failover_candidates r db)" for d
      using sorted that best by auto
    with mem show ?thesis by (auto simp: failover_candidates_def active_regions_iff [OF ok])
  qed
qed

lemma execute_failover_frame [simp]:
  "regions_ok (fst s) \<Longrightarrow> regions_ok (fst (execute_failover t r c tr s))"
  "status_of j (fst (execute_failover t r c tr s)) =
     (if j = rg_id r \<and> status_of j (fst s) \<noteq> None then Some RDraining else status_of j (fst s))"
  by (auto simp: execute_failover_def)

definition serving_id :: "string \<Rightarrow> region_db \<Rightarrow> bool" where
  "serving_id rid db \<longleftrightarrow> status_of rid db = Some RActive \<or> status_of rid db = Some RDegraded"

lemma serving_id_iff:
  assumes "regions_ok db"
  shows "active_regions db \<noteq> [] \<longleftrightarrow> (\<exists>rid. serving_id rid db)"
proof
  assume "active_regions db \<noteq> []"
  then obtain r where "r \<in> set (active_regions db)" using list.set_sel(1) by blast
  then have "get_region (rg_id r) db = Some r" "serving r" by (simp_all add: active_regions_iff [OF assms])
  then have "serving_id (rg_id r) db" by (simp add: serving_id_def status_of_def get_region_def serving_def)
  then show "\<exists>rid. serving_id rid db" by blast
next
  assume "\<exists>rid. serving_id rid db"
  then obtain rid r where r: "get_region rid db = Some r" "serving r"
    by (auto simp: serving_id_def status_of_def get_region_def serving_def)
  have "rid = rg_id r" using r(1) assms unfolding regions_ok_def get_region_def by (metis keyed_dget)
  with r have "get_region (rg_id r) db = Some r" by blast
  with r(2) have "r \<in> set (active_regions db)" by (simp only: active_regions_iff [OF assms])
  then show "active_regions db \<noteq> []" by auto
qed

lemma failover_region_serving:
  assumes "regions_ok (fst s)" "rg_failover_target r \<noteq> Some (rg_id r)" "\<exists>rid. serving_id rid (fst s)"
  shows "regions_ok (fst (failover_region t r s)) \<and> (\<exists>rid. serving_id rid (fst (failover_region t r s)))"
proof (cases "failover_region t r s = s")
  case False
  then obtain tr c where sel: "select_failover_target r (fst s) = Some c"
    and step: "failover_region t r s = execute_failover t r c tr s"
    by (auto simp: failover_region_def split: option.splits)
  from select_target_sound [OF assms(1) sel] assms(2)
  have "serving_id (rg_id c) (fst s)" "rg_id c \<noteq> rg_id r"
    by (auto simp: serving_id_def status_of_def get_region_def serving_def)
  with assms(1) step show ?thesis by (auto simp: serving_id_def intro!: exI [of _ "rg_id c"])
qed (use assms in simp)

text \<open>
  a failover check never takes the last serving region: unless a region names itself as its
  failover target, some region is still active or degraded after the check if one was before,
  however many regions fail at once.
\<close>

theorem failover_keeps_serving:
  assumes "regions_ok db" "active_regions db \<noteq> []"
    and "list_all (\<lambda>r. rg_failover_target r \<noteq> Some (rg_id r)) (list_regions None None db)"
  shows "active_regions (fst (failover_check t (db, f))) \<noteq> []"
proof -
  have run: "regions_ok (fst (fold (failover_region t) rs s)) \<and> (\<exists>rid. serving_id rid (fst (fold (failover_region t) rs s)))"
    if "list_all (\<lambda>r. rg_failover_target r \<noteq> Some (rg_id r)) rs" "regions_ok (fst s)" "\<exists>rid. serving_id rid (fst s)" for rs s
    using that
  proof (induction rs arbitrary: s)
    case (Cons r rs)
    with failover_region_serving [of s r t] show ?case by simp
  qed simp
  from run [OF assms(3), of "(db, f)"] assms(1,2)
  show ?thesis by (simp add: failover_check_def serving_id_iff)
qed

theorem failover_keeps_serving_witness:
  "active_regions (fst (failover_check 100 (demo_db, \<lparr>fv_events = [], fv_total = 0\<rparr>))) \<noteq> []"
proof (rule failover_keeps_serving [OF demo_ok])
  show "active_regions demo_db \<noteq> []"
    by (simp add: active_regions_def list_regions_def serving_def demo_db_def demo_region_def)
  show "list_all (\<lambda>r. rg_failover_target r \<noteq> Some (rg_id r)) (list_regions None None demo_db)"
    by (simp add: list_regions_def demo_db_def demo_region_def list_all_iff)
qed

text \<open>A region that names itself is its own target: the check drains it though nothing else serves.\<close>

lemma self_target_drained:
  assumes "db_regions db = [(i, r)]" "rg_id r = i" "i \<noteq> []" "rg_failover_target r = Some i"
    "rg_status r = RActive" "rg_avg_latency_ms r > LATENCY_SPIKE_THRESHOLD_MS"
  shows "active_regions (fst (failover_check t (db, f))) = []"
  using assms
  by (simp add: failover_check_def list_regions_def failover_region_def failover_trigger_of_def
      select_failover_target_def truthy_def get_region_def execute_failover_def update_status_def
      active_regions_def serving_def region_event_def Let_def)

section \<open>A drained region\<close>

datatype region_op =
    HealthCheck "rat \<times> rat \<times> rat" pyfloat
  | FailoverCheck pyfloat
  | ManualOp pyfloat string string
  | HeartbeatOp pyfloat string "region_update list"
  | CapacityOp pyfloat string "gpu_inventory option" "rat option" "rat option"
  | RegisterOp pyfloat region
  | RecoverOp pyfloat string
  | RemoveOp pyfloat string

fun region_step :: "region_op \<Rightarrow> region_db \<times> health_history \<times> failover \<Rightarrow> region_db \<times> health_history \<times> failover" where
  "region_step (HealthCheck th t) (db, h, f) = (let (db1, h1) = check_regions th t (db, h) in (db1, h1, f))"
| "region_step (FailoverCheck t) (db, h, f) = (let (db1, f1) = failover_check t (db, f) in (db1, h, f1))"
| "region_step (ManualOp t a b) (db, h, f) =
     (let (db1, f1) = fst (trigger_manual_failover t a b (db, f)) in (db1, h, f1))"
| "region_step (HeartbeatOp t i us) (db, h, f) = (fst (region_heartbeat t i us db), h, f)"
| "region_step (CapacityOp t i g s c) (db, h, f) = (fst (update_capacity t i g s c db), h, f)"
| "region_step (RegisterOp t r) (db, h, f) = (register_region t r db, h, f)"
| "region_step (RecoverOp t i) (db, h, f) = (fst (recover_region t i db), h, f)"
| "region_step (RemoveOp t i) (db, h, f) = (remove_region t i db, h, f)"

text \<open>The operations by which somebody else decides what becomes of a region.\<close>

fun decides :: "string \<Rightarrow> region_op \<Rightarrow> bool" where
  "decides rid (HeartbeatOp t i us) \<longleftrightarrow> i = rid \<and> (\<exists>st. SetStatus st \<in> set us)"
| "decides rid (RegisterOp t r) \<longleftrightarrow> rg_id r = rid"
| "decides rid (RecoverOp t i) \<longleftrightarrow> i = rid"
| "decides rid (RemoveOp t i) \<longleftrightarrow> i = rid"
| "decides rid _ \<longleftrightarrow> False"

lemma updates_keep_status: "\<nexists>st. SetStatus st \<in> set us \<Longrightarrow> rg_status (fold apply_update us r) = rg_status r"
proof (induction us arbitrary: r)
  case (Cons u us)
  then have "rg_status (apply_update u r) = rg_status r" by (cases u) auto
  with Cons show ?case by simp
qed simp

lemma heartbeat_frame:
  assumes "regions_ok db"
  shows "regions_ok (fst (region_heartbeat t i us db))"
    and "\<not> (i = rid \<and> (\<exists>st. SetStatus st \<in> set us)) \<Longrightarrow> status_of rid (fst (region_heartbeat t i us db)) = status_of rid db"
proof -
  show "regions_ok (fst (region_heartbeat t i us db))"
  proof (cases "get_region i db")
    case (Some r)
    have "rg_id r = i" using Some assms unfolding regions_ok_def get_region_def by (metis keyed_dget)
    then have "keyed rg_id (dput i (fold apply_update us (r\<lparr>rg_last_heartbeat := t, rg_updated_at := t\<rparr>)) (db_regions db))"
      by (intro keyed_dput) (use assms in \<open>simp_all add: regions_ok_def apply_update_frame\<close>)
    then show ?thesis by (simp add: Some region_heartbeat_def regions_ok_def Let_def)
  qed (use assms in \<open>simp add: region_heartbeat_def\<close>)
  show "status_of rid (fst (region_heartbeat t i us db)) = status_of rid db"
    if "\<not> (i = rid \<and> (\<exists>st. SetStatus st \<in> set us))"
    using that updates_keep_status
    by (cases "get_region i db") (auto simp: region_heartbeat_def status_of_def get_region_def Let_def)
qed

lemma checks_frame:
  assumes "regions_ok db"
  shows "regions_ok (fst (check_regions th ts (db, h)))"
    and "regions_ok (fst (failover_check t (db, f)))"
    and "status_of rid db = Some RDraining \<Longrightarrow> status_of rid (fst (check_regions th ts (db, h))) = Some RDraining"
    and "status_of rid db = Some RDraining \<Longrightarrow> status_of rid (fst (failover_check t (db, f))) = Some RDraining"
proof -
  show "regions_ok (fst (check_regions th ts (db, h)))" unfolding check_regions_def
    by (rule fold_inv [where P = "\<lambda>s. regions_ok (fst s)"]) (simp_all add: assms check_region_def Let_def)
  show "regions_ok (fst (failover_check t (db, f)))" unfolding failover_check_def
    by (rule fold_inv [where P = "\<lambda>s. regions_ok (fst s)"]) (simp_all add: assms failover_region_def split: option.split)
  show "status_of rid (fst (failover_check t (db, f))) = Some RDraining" if "status_of rid db = Some RDraining"
    unfolding failover_check_def
    by (rule fold_inv [where P = "\<lambda>s. status_of rid (fst s) = Some RDraining"])
      (simp_all add: that failover_region_def split: option.split)
  show "status_of rid (fst (check_regions th ts (db, h))) = Some RDraining" if dr: "status_of rid db = Some RDraining"
  proof -
    obtain r where "get_region rid db = Some r" "rg_status r = RDraining"
      using dr unfolding status_of_def get_region_def by (cases "dget (db_regions db) rid") simp_all
    then show ?thesis using check_regions_draining [OF assms, of rid r] by simp
  qed
qed

lemma draining_step:
  assumes "regions_ok (fst s)" "status_of rid (fst s) = Some RDraining" "\<not> decides rid opn"
  shows "regions_ok (fst (region_step opn s)) \<and> status_of rid (fst (region_step opn s)) = Some RDraining"
proof -
  obtain db h f where s: "s = (db, h, f)" by (cases s)
  with assms have ok: "regions_ok db" and dr: "status_of rid db = Some RDraining" by simp_all
  show ?thesis
  proof (cases opn)
    case (HealthCheck th t)
    with s checks_frame(1,3) [OF ok] dr show ?thesis by (simp add: case_prod_unfold Let_def)
  next
    case (FailoverCheck t)
    with s checks_frame(2,4) [OF ok] dr show ?thesis by (simp add: case_prod_unfold Let_def)
  next
    case (ManualOp t a b)
    with s ok dr show ?thesis
      by (auto simp: case_prod_unfold Let_def trigger_manual_failover_def split: option.split)
  next
    case (HeartbeatOp t i us)
    with s heartbeat_frame [OF ok] assms(3) dr show ?thesis by auto
  next
    case (CapacityOp t i g sa ca)
    have "\<nexists>st. SetStatus st \<in> set ((case g of Some g \<Rightarrow> [SetGpuInventory g] | None \<Rightarrow> [])
        @ (case sa of Some x \<Rightarrow> [SetSaturation x] | None \<Rightarrow> []) @ (case ca of Some c \<Rightarrow> [SetCapacity c] | None \<Rightarrow> []))"
      by (auto split: option.split)
    with CapacityOp s heartbeat_frame [OF ok] dr show ?thesis by (auto simp: update_capacity_def)
  next
    case (RegisterOp t r)
    with s ok dr assms(3) show ?thesis
      by (auto simp: register_region_def Let_def regions_ok_def status_of_def intro!: keyed_dput)
  next
    case (RecoverOp t i)
    with s ok dr assms(3) show ?thesis by (auto simp: recover_region_def)
  next
    case (RemoveOp t i)
    with s ok dr assms(3) show ?thesis
      by (auto simp: remove_region_def regions_ok_def status_of_def intro!: keyed_ddel)
  qed
qed

text \<open>
  a drained region stays drained: whatever health checks, failover checks, heartbeats and
  capacity reports follow, however healthy it is, its status is draining until somebody sets it,
  registers it again or recovers it by hand.
\<close>

theorem draining_is_forever:
  assumes "regions_ok (fst s)" "status_of rid (fst s) = Some RDraining"
    and "list_all (\<lambda>opn. \<not> decides rid opn) ops"
  shows "status_of rid (fst (fold region_step ops s)) = Some RDraining"
  using assms
proof (induction ops arbitrary: s)
  case (Cons opn ops)
  with draining_step [of s rid opn] show ?case by simp
qed simp

definition drained_db :: region_db where
  "drained_db = \<lparr>db_regions = [(''eu'', demo_region ''eu'' RDraining (1 / 10) 100)], db_region_events = []\<rparr>"

theorem draining_is_forever_witness:
  "status_of ''eu'' (fst (fold region_step
      [HeartbeatOp 101 ''eu'' [SetSaturation 0], HealthCheck (60, 500, 9 / 10) 102, FailoverCheck 103]
      (drained_db, [], \<lparr>fv_events = [], fv_total = 0\<rparr>))) = Some RDraining"
  by (rule draining_is_forever)
    (simp_all add: regions_ok_def keyed_def dwf_def status_of_def drained_db_def demo_region_def)

end
