(* ===== verification/Routing.thy ===== *)
theory Routing
  imports Regions
begin

text \<open>
  Choosing a region for a request: the measured latencies (\<open>regions/latency_map.py\<close>), the latency
  router (\<open>routing/latency_router.py\<close>), the affinity rules (\<open>routing/request_affinity.py\<close>) and the
  scoring router (\<open>routing/global_router.py\<close>), all over the region registry. The locale
  \<open>region_choice\<close> is what a chooser of regions promises; the three routers and the failover are
  its interpretations.
\<close>

section \<open>Measured latencies\<close>

record latency_map =
  lm_inter :: "(string \<times> string, rat) dict"
  lm_client :: "(string \<times> string, rat) dict"
  lm_history :: "(pyfloat \<times> string \<times> string \<times> rat) list"
  lm_alpha :: rat

definition new_latency_map :: "rat \<Rightarrow> latency_map" where
  "new_latency_map alpha = \<lparr>lm_inter = [], lm_client = [], lm_history = [], lm_alpha = alpha\<rparr>"

definition record_sample :: "rat \<Rightarrow> string \<times> string \<Rightarrow> rat \<Rightarrow> (string \<times> string, rat) dict \<Rightarrow> (string \<times> string, rat) dict" where
  "record_sample alpha key latency d =
     (case dget d key of
        Some prev \<Rightarrow> dput key (prev * (1 - alpha) + latency * alpha) d
      | None \<Rightarrow> dput key latency d)"

definition record_inter_region :: "pyfloat \<Rightarrow> string \<Rightarrow> string \<Rightarrow> rat \<Rightarrow> latency_map \<Rightarrow> latency_map" where
  "record_inter_region t a b latency m =
     m\<lparr>lm_inter := record_sample (lm_alpha m) (a, b) latency (lm_inter m),
       lm_history := py_cap 1000 (lm_history m @ [(t, a, b, latency)])\<rparr>"

definition record_client_region :: "string \<Rightarrow> string \<Rightarrow> rat \<Rightarrow> latency_map \<Rightarrow> latency_map" where
  "record_client_region client rid latency m =
     m\<lparr>lm_client := record_sample (lm_alpha m) (client, rid) latency (lm_client m)\<rparr>"

definition get_inter_region :: "string \<Rightarrow> string \<Rightarrow> latency_map \<Rightarrow> rat option" where
  "get_inter_region a b m = dget (lm_inter m) (a, b)"

definition get_client_region :: "string \<Rightarrow> string \<Rightarrow> latency_map \<Rightarrow> rat option" where
  "get_client_region client rid m = dget (lm_client m) (client, rid)"

text \<open>The pairs \<open>(latency, region)\<close> that have a measurement, in the order of the candidates.\<close>

definition measured :: "(string \<Rightarrow> rat option) \<Rightarrow> string list \<Rightarrow> (rat \<times> string) list" where
  "measured f ids = concat (map (\<lambda>rid. case f rid of Some l \<Rightarrow> [(l, rid)] | None \<Rightarrow> []) ids)"

definition best_region_for_client :: "string \<Rightarrow> string list \<Rightarrow> latency_map \<Rightarrow> string option" where
  "best_region_for_client client ids m =
     (case sort_key fst (measured (\<lambda>rid. get_client_region client rid m) ids) of
        [] \<Rightarrow> None | x # xs \<Rightarrow> Some (snd x))"

definition recent_measurements :: "nat \<Rightarrow> latency_map \<Rightarrow> (pyfloat \<times> string \<times> string \<times> rat) list" where
  "recent_measurements limit m = take limit (rev (lm_history m))"

section \<open>The latency router\<close>

definition gpu_candidates :: "bool \<Rightarrow> string list \<Rightarrow> region_db \<Rightarrow> region list" where
  "gpu_candidates require_gpu exclude db =
     filter (\<lambda>r. rg_id r \<notin> set exclude)
       (if require_gpu then filter (\<lambda>r. gi_available_gpus (rg_gpu_inventory r) > 0) (active_regions db)
        else active_regions db)"

definition by_latency :: "region list \<Rightarrow> string option" where
  "by_latency rs = (case sort_key rg_avg_latency_ms rs of [] \<Rightarrow> None | r # _ \<Rightarrow> Some (rg_id r))"

definition route_by_client :: "latency_map \<Rightarrow> string \<Rightarrow> bool \<Rightarrow> string list \<Rightarrow> region_db \<Rightarrow> string option" where
  "route_by_client m client require_gpu exclude db =
     (let cs = gpu_candidates require_gpu exclude db
      in if cs = [] then None
         else case truthy (best_region_for_client client (map rg_id cs) m) of
                Some best \<Rightarrow> Some best
              | None \<Rightarrow> by_latency cs)"

definition route_by_region :: "latency_map \<Rightarrow> string \<Rightarrow> bool \<Rightarrow> string list \<Rightarrow> region_db \<Rightarrow> string option" where
  "route_by_region m source require_gpu exclude db =
     (let cs = gpu_candidates require_gpu (source # exclude) db
      in if cs = [] then None
         else case sort (measured (\<lambda>rid. get_inter_region source rid m) (map rg_id cs)) of
                (l, rid) # _ \<Rightarrow> Some rid
              | [] \<Rightarrow> by_latency cs)"

definition ranked_by_latency :: "latency_map \<Rightarrow> string \<Rightarrow> nat \<Rightarrow> region_db \<Rightarrow> (rat \<times> string) list" where
  "ranked_by_latency m source limit db =
     take limit (sort (measured (\<lambda>rid. get_inter_region source rid m)
       (filter (\<lambda>rid. rid \<noteq> source) (map rg_id (active_regions db)))))"

section \<open>Affinity\<close>

record affinity_rule =
  af_target :: string
  af_weight :: rat
  af_created_at :: pyfloat
  af_ttl_sec :: pyfloat

definition af_expired :: "pyfloat \<Rightarrow> affinity_rule \<Rightarrow> bool" where
  "af_expired now a \<longleftrightarrow> now - af_created_at a > af_ttl_sec a"

record affinity =
  am_session :: "(string, affinity_rule) dict"
  am_model :: "(string, affinity_rule) dict"
  am_client :: "(string, affinity_rule) dict"

definition new_affinity :: affinity where
  "new_affinity = \<lparr>am_session = [], am_model = [], am_client = []\<rparr>"

definition set_session_affinity :: "pyfloat \<Rightarrow> string \<Rightarrow> string \<Rightarrow> pyfloat \<Rightarrow> affinity \<Rightarrow> affinity" where
  "set_session_affinity t sid rid ttl a =
     a\<lparr>am_session := dput sid \<lparr>af_target = rid, af_weight = 1, af_created_at = t, af_ttl_sec = ttl\<rparr> (am_session a)\<rparr>"

definition set_model_affinity :: "pyfloat \<Rightarrow> string \<Rightarrow> string \<Rightarrow> rat \<Rightarrow> affinity \<Rightarrow> affinity" where
  "set_model_affinity t mid rid weight a =
     a\<lparr>am_model := dput mid \<lparr>af_target = rid, af_weight = weight, af_created_at = t, af_ttl_sec = 86400\<rparr> (am_model a)\<rparr>"

definition set_client_affinity :: "pyfloat \<Rightarrow> string \<Rightarrow> string \<Rightarrow> pyfloat \<Rightarrow> affinity \<Rightarrow> affinity" where
  "set_client_affinity t cid rid ttl a =
     a\<lparr>am_client := dput cid \<lparr>af_target = rid, af_weight = 1, af_created_at = t, af_ttl_sec = ttl\<rparr> (am_client a)\<rparr>"

definition live_target :: "pyfloat \<Rightarrow> string \<Rightarrow> (string, affinity_rule) dict \<Rightarrow> string option" where
  "live_target now k d =
     (case dget d k of Some rule \<Rightarrow> if af_expired now rule then None else Some (af_target rule) | None \<Rightarrow> None)"

definition get_session_affinity :: "pyfloat \<Rightarrow> string \<Rightarrow> affinity \<Rightarrow> affinity \<times> string option" where
  "get_session_affinity now sid a =
     (case dget (am_session a) sid of
        None \<Rightarrow> (a, None)
      | Some rule \<Rightarrow>
          if af_expired now rule then (a\<lparr>am_session := ddel sid (am_session a)\<rparr>, None)
          else (a, Some (af_target rule)))"

definition resolve_affinity :: "pyfloat \<Rightarrow> string \<Rightarrow> string \<Rightarrow> string \<Rightarrow> affinity \<Rightarrow> affinity \<times> string option" where
  "resolve_affinity now sid mid cid a =
     (let (a1, by_session) = (if sid \<noteq> [] then get_session_affinity now sid a else (a, None));
          by_model = (if mid \<noteq> [] then live_target now mid (am_model a1) else None);
          by_client = (if cid \<noteq> [] then live_target now cid (am_client a1) else None)
      in (a1, case truthy by_session of
                Some r \<Rightarrow> Some r
              | None \<Rightarrow> (case truthy by_model of Some r \<Rightarrow> Some r | None \<Rightarrow> truthy by_client)))"

definition expired_keys :: "pyfloat \<Rightarrow> (string, affinity_rule) dict \<Rightarrow> string list" where
  "expired_keys now d = map fst (filter (\<lambda>p. af_expired now (snd p)) d)"

definition affinity_cleanup :: "pyfloat \<Rightarrow> affinity \<Rightarrow> affinity \<times> nat" where
  "affinity_cleanup now a =
     (\<lparr>am_session = fold ddel (expired_keys now (am_session a)) (am_session a),
       am_model = fold ddel (expired_keys now (am_model a)) (am_model a),
       am_client = fold ddel (expired_keys now (am_client a)) (am_client a)\<rparr>,
      length (expired_keys now (am_session a)) + length (expired_keys now (am_model a))
        + length (expired_keys now (am_client a)))"

section \<open>The scoring router\<close>

datatype routing_strategy = Nearest | Weighted | LeastLoaded | GpuAffinity | ModelLocality

record routing_request =
  rq_id :: string
  rq_client_region :: string
  rq_model_id :: string
  rq_require_gpu :: bool
  rq_min_vram_gb :: rat
  rq_preferred_region :: string
  rq_strategy :: routing_strategy

record routing_decision =
  rd_request_id :: string
  rd_target :: string
  rd_score :: rat
  rd_strategy_used :: routing_strategy
  rd_fallbacks :: "string list"
  rd_time_ms :: rat
  rd_ts :: pyfloat

record global_router =
  gr_latency :: latency_map
  gr_model_locations :: "(string, string list) dict"
  gr_decisions :: "routing_decision list"
  gr_total_routed :: nat

definition route_candidates :: "routing_request \<Rightarrow> region_db \<Rightarrow> region list" where
  "route_candidates q db =
     (let cs = active_regions db;
          cs1 = (if rq_require_gpu q then filter (\<lambda>r. gi_available_gpus (rg_gpu_inventory r) > 0) cs else cs)
      in if rq_min_vram_gb q > 0
         then filter (\<lambda>r. gi_available_vram_gb (rg_gpu_inventory r) \<ge> rq_min_vram_gb q) cs1 else cs1)"

definition latency_score :: "global_router \<Rightarrow> routing_request \<Rightarrow> region \<Rightarrow> rat" where
  "latency_score g q r =
     (case if rq_client_region q \<noteq> [] then get_inter_region (rq_client_region q) (rg_id r) (gr_latency g) else None of
        Some ms \<Rightarrow> max 0 (1 - ms / 500)
      | None \<Rightarrow> if rg_avg_latency_ms r > 0 then max 0 (1 - rg_avg_latency_ms r / 500) else 1 / 2)"

definition gpu_score :: "region \<Rightarrow> rat" where
  "gpu_score r =
     (if gi_total_gpus (rg_gpu_inventory r) = 0 then 0
      else of_int (gi_available_gpus (rg_gpu_inventory r)) / of_int (gi_total_gpus (rg_gpu_inventory r)))"

definition base_score :: "global_router \<Rightarrow> routing_request \<Rightarrow> region \<Rightarrow> rat" where
  "base_score g q r =
     30 / 100 * latency_score g q r
     + 25 / 100 * (1 - rg_saturation r)
     + 20 / 100 * gpu_score r
     + 15 / 100 * (1 - min (rg_saturation r * 8 / 10) 1)
     + 10 / 100 * (if rg_edge_connectivity r then 1 else 1 / 2)"

definition compute_score :: "global_router \<Rightarrow> routing_request \<Rightarrow> region \<Rightarrow> rat" where
  "compute_score g q r =
     (let s = base_score g q r;
          s1 = (if rq_preferred_region q \<noteq> [] \<and> rg_id r = rq_preferred_region q then s + 15 / 100 else s);
          s2 = (if rq_model_id q \<noteq> [] \<and> rq_strategy q = ModelLocality
                   \<and> rg_id r \<in> set (case dget (gr_model_locations g) (rq_model_id q) of Some l \<Rightarrow> l | None \<Rightarrow> [])
                then s1 + 20 / 100 else s1)
      in if rg_status r = RDegraded then s2 * (7 / 10) else s2)"

definition scored_candidates :: "global_router \<Rightarrow> routing_request \<Rightarrow> region_db \<Rightarrow> (string \<times> rat) list" where
  "scored_candidates g q db =
     sort_desc snd (map (\<lambda>r. (rg_id r, compute_score g q r)) (route_candidates q db))"

text \<open>\<open>t0\<close> and \<open>t\<close> are the times at which the decision starts and ends.\<close>

definition route :: "pyfloat \<Rightarrow> pyfloat \<Rightarrow> routing_request \<Rightarrow> region_db \<Rightarrow> global_router \<Rightarrow> global_router \<times> routing_decision option" where
  "route t0 t q db g =
     (case scored_candidates g q db of
        [] \<Rightarrow> (g, None)
      | (best, score) # rest \<Rightarrow>
          let d = \<lparr>rd_request_id = rq_id q, rd_target = best, rd_score = py_round score 4,
                   rd_strategy_used = rq_strategy q, rd_fallbacks = map fst (take 3 rest),
                   rd_time_ms = py_round ((t - t0) * 1000) 2, rd_ts = t\<rparr>
          in (g\<lparr>gr_decisions := py_cap 500 (gr_decisions g @ [d]),
                gr_total_routed := gr_total_routed g + 1\<rparr>, Some d))"

definition update_model_locations :: "string \<Rightarrow> string list \<Rightarrow> global_router \<Rightarrow> global_router" where
  "update_model_locations mid rs g = g\<lparr>gr_model_locations := dput mid rs (gr_model_locations g)\<rparr>"

definition recent_decisions :: "nat \<Rightarrow> global_router \<Rightarrow> routing_decision list" where
  "recent_decisions limit g = take limit (rev (gr_decisions g))"

section \<open>What a chooser of regions promises\<close>

lemma draining_run:
  assumes "regions_ok (fst s)" "status_of rid (fst s) = Some RDraining" "list_all (\<lambda>opn. \<not> decides rid opn) ops"
  shows "regions_ok (fst (fold region_step ops s)) \<and> status_of rid (fst (fold region_step ops s)) = Some RDraining"
  using assms
proof (induction ops arbitrary: s)
  case (Cons opn ops)
  with draining_step [of s rid opn] show ?case by simp
qed simp

locale region_choice =
  fixes choice :: "'q \<Rightarrow> region_db \<Rightarrow> string set"
  assumes choice_serving: "regions_ok db \<Longrightarrow> rid \<in> choice q db \<Longrightarrow> serving_id rid db"
begin

text \<open>A region that was drained is not chosen until somebody brings it back.\<close>

lemma avoids_drained:
  assumes "regions_ok (fst s)" "status_of rid (fst s) = Some RDraining" "list_all (\<lambda>opn. \<not> decides rid opn) ops"
  shows "rid \<notin> choice q (fst (fold region_step ops s))"
proof
  assume "rid \<in> choice q (fst (fold region_step ops s))"
  with choice_serving draining_run [OF assms] have "serving_id rid (fst (fold region_step ops s))" by blast
  with draining_run [OF assms] show False by (simp add: serving_id_def)
qed

end

lemma active_serving_id: "regions_ok db \<Longrightarrow> r \<in> set (active_regions db) \<Longrightarrow> serving_id (rg_id r) db"
  by (auto simp: active_regions_iff serving_id_def serving_def status_of_def get_region_def)

lemma set_measured: "(l, rid) \<in> set (measured f ids) \<longleftrightarrow> rid \<in> set ids \<and> f rid = Some l"
  by (auto simp: measured_def split: option.splits)

lemma by_latency_in: "by_latency rs = Some rid \<Longrightarrow> \<exists>r \<in> set rs. rg_id r = rid"
proof -
  assume h: "by_latency rs = Some rid"
  then obtain r xs where s: "sort_key rg_avg_latency_ms rs = r # xs" and id: "rg_id r = rid"
    by (auto simp: by_latency_def split: list.splits)
  have "r \<in> set (sort_key rg_avg_latency_ms rs)" unfolding s by simp
  with id show ?thesis by auto
qed

lemma best_region_in: "best_region_for_client client ids m = Some rid \<Longrightarrow> rid \<in> set ids"
proof -
  let ?xs = "measured (\<lambda>rid. get_client_region client rid m) ids"
  assume "best_region_for_client client ids m = Some rid"
  then obtain l xs where s: "sort_key fst ?xs = (l, rid) # xs"
    by (auto simp: best_region_for_client_def split: list.splits)
  have "(l, rid) \<in> set (sort_key fst ?xs)" unfolding s by simp
  then show ?thesis by (simp add: set_measured)
qed

lemma gpu_candidates_active: "r \<in> set (gpu_candidates g ex db) \<Longrightarrow> r \<in> set (active_regions db) \<and> rg_id r \<notin> set ex"
  by (auto simp: gpu_candidates_def split: if_splits)

lemma route_by_client_in:
  assumes "route_by_client m client g ex db = Some rid"
  shows "\<exists>r \<in> set (gpu_candidates g ex db). rg_id r = rid"
proof (cases "truthy (best_region_for_client client (map rg_id (gpu_candidates g ex db)) m)")
  case None
  with assms by_latency_in show ?thesis by (auto simp: route_by_client_def Let_def split: if_splits)
next
  case (Some best)
  then have "best \<in> set (map rg_id (gpu_candidates g ex db))" by (metis best_region_in truthy_Some)
  moreover have "rid = best" using Some assms by (simp add: route_by_client_def Let_def truthy_def split: if_splits)
  ultimately show ?thesis by auto
qed

lemma route_by_region_in:
  assumes "route_by_region m source g ex db = Some rid"
  shows "\<exists>r \<in> set (gpu_candidates g (source # ex) db). rg_id r = rid"
proof (cases "sort (measured (\<lambda>rid. get_inter_region source rid m) (map rg_id (gpu_candidates g (source # ex) db)))")
  case Nil
  with assms by_latency_in show ?thesis by (auto simp: route_by_region_def Let_def split: if_splits)
next
  case (Cons x xs)
  have "x \<in> set (measured (\<lambda>rid. get_inter_region source rid m) (map rg_id (gpu_candidates g (source # ex) db)))"
    using Cons by (metis list.set_intros(1) set_sort)
  then have "snd x \<in> set (map rg_id (gpu_candidates g (source # ex) db))" by (metis prod.collapse set_measured)
  with Cons assms show ?thesis by (cases x) (auto simp: route_by_region_def Let_def split: if_splits)
qed

lemma route_candidates_active: "r \<in> set (route_candidates q db) \<Longrightarrow> r \<in> set (active_regions db)"
  by (auto simp: route_candidates_def Let_def split: if_splits)

lemma scored_in: "rid \<in> fst ` set (scored_candidates g q db) \<longleftrightarrow> rid \<in> rg_id ` set (route_candidates q db)"
  by (auto simp: scored_candidates_def image_iff)

definition route_choice :: "pyfloat \<times> pyfloat \<times> routing_request \<times> global_router \<Rightarrow> region_db \<Rightarrow> string set" where
  "route_choice a db =
     (case a of (t0, t, q, g) \<Rightarrow>
        case snd (route t0 t q db g) of None \<Rightarrow> {} | Some d \<Rightarrow> insert (rd_target d) (set (rd_fallbacks d)))"

lemma route_choice_in: "rid \<in> route_choice (t0, t, q, g) db \<Longrightarrow> rid \<in> rg_id ` set (route_candidates q db)"
proof -
  assume h: "rid \<in> route_choice (t0, t, q, g) db"
  show ?thesis
  proof (cases "scored_candidates g q db")
    case Nil
    with h show ?thesis by (simp add: route_choice_def route_def)
  next
    case (Cons x xs)
    obtain best score where x: "x = (best, score)" by (cases x)
    have "rid = best \<or> rid \<in> fst ` set (take 3 xs)"
      using h Cons x by (simp add: route_choice_def route_def Let_def)
    then have "rid \<in> fst ` set (scored_candidates g q db)"
      unfolding Cons x using in_set_takeD by fastforce
    then show ?thesis by (simp only: scored_in)
  qed
qed

interpretation client_routing: region_choice "\<lambda>(m, client, g, ex) db. set_option (route_by_client m client g ex db)"
  by unfold_locales (auto dest!: route_by_client_in gpu_candidates_active intro: active_serving_id)

interpretation region_routing: region_choice "\<lambda>(m, source, g, ex) db. set_option (route_by_region m source g ex db)"
  by unfold_locales (auto dest!: route_by_region_in gpu_candidates_active intro: active_serving_id)

interpretation global_routing: region_choice route_choice
  by unfold_locales (auto dest!: route_choice_in dest: route_candidates_active intro: active_serving_id)

interpretation failover_routing: region_choice "\<lambda>r db. rg_id ` set_option (select_failover_target r db)"
proof unfold_locales
  fix db rid and r :: region
  assume ok: "regions_ok db" and "rid \<in> rg_id ` set_option (select_failover_target r db)"
  then obtain c where c: "select_failover_target r db = Some c" and rid: "rid = rg_id c" by auto
  have "get_region (rg_id c) db = Some c" "serving c" using select_target_sound [OF ok c] by blast+
  then show "serving_id rid db" unfolding rid by (auto simp: serving_id_def serving_def status_of_def get_region_def)
qed

text \<open>
  C21: no router sends a request to a drained region: whatever checks, heartbeats and capacity
  reports follow a failover, neither latency router nor the scoring router nor the failover chooses
  the drained region, not even as a fallback.
\<close>

theorem drained_region_avoided:
  assumes "regions_ok (fst s)" "status_of rid (fst s) = Some RDraining"
    and "list_all (\<lambda>opn. \<not> decides rid opn) ops"
  defines "db \<equiv> fst (fold region_step ops s)"
  shows "route_by_client m client gpu ex db \<noteq> Some rid \<and> route_by_region m source gpu ex db \<noteq> Some rid
    \<and> (case snd (route t0 t q db g) of None \<Rightarrow> True | Some d \<Rightarrow> rid \<noteq> rd_target d \<and> rid \<notin> set (rd_fallbacks d))
    \<and> (case select_failover_target r db of None \<Rightarrow> True | Some c \<Rightarrow> rg_id c \<noteq> rid)"
proof -
  have "rid \<notin> route_choice (t0, t, q, g) db"
    unfolding db_def by (rule global_routing.avoids_drained [OF assms(1-3)])
  then have "case snd (route t0 t q db g) of None \<Rightarrow> True | Some d \<Rightarrow> rid \<noteq> rd_target d \<and> rid \<notin> set (rd_fallbacks d)"
    by (auto simp: route_choice_def split: option.splits)
  moreover have "case select_failover_target r db of None \<Rightarrow> True | Some c \<Rightarrow> rg_id c \<noteq> rid"
    using failover_routing.avoids_drained [OF assms(1-3), of r]
    unfolding db_def by (auto split: option.split)
  ultimately show ?thesis
    using client_routing.avoids_drained [OF assms(1-3), of "(m, client, gpu, ex)"]
      region_routing.avoids_drained [OF assms(1-3), of "(m, source, gpu, ex)"]
    unfolding db_def by auto
qed

theorem drained_region_avoided_witness:
  "route_by_client (new_latency_map (3 / 10)) ''c'' False []
     (fst (fold region_step [HeartbeatOp 101 ''eu'' []] (drained_db, [], \<lparr>fv_events = [], fv_total = 0\<rparr>))) \<noteq> Some ''eu''"
proof -
  let ?s = "(drained_db, [], \<lparr>fv_events = [], fv_total = 0\<rparr>) :: region_db \<times> health_history \<times> failover"
  have "regions_ok (fst ?s)" "status_of ''eu'' (fst ?s) = Some RDraining"
    by (simp_all add: regions_ok_def keyed_def dwf_def status_of_def drained_db_def demo_region_def)
  moreover have "list_all (\<lambda>opn. \<not> decides ''eu'' opn) [HeartbeatOp 101 ''eu'' []]" by simp
  ultimately show ?thesis using drained_region_avoided [of ?s "''eu''" "[HeartbeatOp 101 ''eu'' []]"] by blast
qed

section \<open>The scoring router\<close>

definition may_serve :: "routing_request \<Rightarrow> region \<Rightarrow> bool" where
  "may_serve q r \<longleftrightarrow> (\<not> rq_require_gpu q \<or> gi_available_gpus (rg_gpu_inventory r) > 0)
     \<and> (rq_min_vram_gb q \<le> 0 \<or> gi_available_vram_gb (rg_gpu_inventory r) \<ge> rq_min_vram_gb q)"

lemma route_candidates_iff:
  "regions_ok db \<Longrightarrow> r \<in> set (route_candidates q db) \<longleftrightarrow> get_region (rg_id r) db = Some r \<and> serving r \<and> may_serve q r"
  by (auto simp: route_candidates_def may_serve_def active_regions_iff Let_def)

lemma scored_distinct:
  assumes "regions_ok db"
  shows "distinct (map fst (scored_candidates g q db))"
proof -
  have "distinct (map rg_id (active_regions db))"
    using distinct_list_regions [OF assms] by (simp add: active_regions_def distinct_map_filter)
  then have "distinct (map rg_id (route_candidates q db))"
    by (simp add: route_candidates_def Let_def distinct_map_filter)
  then have "distinct (map fst (map (\<lambda>r. (rg_id r, compute_score g q r)) (route_candidates q db)))"
    by (simp add: comp_def)
  then show ?thesis by (simp only: scored_candidates_def distinct_map set_sort_desc distinct_sort_desc)
qed

text \<open>
  the scoring router sends a request to an active or degraded region that meets its GPU and
  memory needs and has the best score of all that do; the fallbacks are other such regions; and it
  refuses only when no region qualifies.
\<close>

theorem route_picks_best:
  assumes "regions_ok db"
  shows "case snd (route t0 t q db g) of
      None \<Rightarrow> \<forall>c. get_region (rg_id c) db = Some c \<longrightarrow> serving c \<longrightarrow> \<not> may_serve q c
    | Some d \<Rightarrow> (\<exists>r. get_region (rd_target d) db = Some r \<and> serving r \<and> may_serve q r
        \<and> (\<forall>c. get_region (rg_id c) db = Some c \<longrightarrow> serving c \<longrightarrow> may_serve q c \<longrightarrow> compute_score g q c \<le> compute_score g q r))
        \<and> distinct (rd_target d # rd_fallbacks d)
        \<and> (\<forall>x \<in> set (rd_fallbacks d). \<exists>c. get_region x db = Some c \<and> serving c \<and> may_serve q c)"
proof (cases "scored_candidates g q db")
  case Nil
  then have "route_candidates q db = []" by (simp add: scored_candidates_def)
  then have "\<forall>c. c \<notin> set (route_candidates q db)" by simp
  with Nil show ?thesis by (simp add: route_def route_candidates_iff [OF assms])
next
  case (Cons x xs)
  obtain best score where x: "x = (best, score)" by (cases x)
  have mem: "\<exists>c. rg_id c = rid \<and> compute_score g q c = sc \<and> get_region rid db = Some c \<and> serving c \<and> may_serve q c"
    if "(rid, sc) \<in> set (scored_candidates g q db)" for rid sc
    using that route_candidates_iff [OF assms] by (auto simp: scored_candidates_def)
  obtain r where r: "rg_id r = best" "compute_score g q r = score" "get_region best db = Some r" "serving r" "may_serve q r"
    using mem [of best score] Cons x by auto
  have hd: "fst (hd (scored_candidates g q db)) = best" "snd (hd (scored_candidates g q db)) = score" by (simp_all add: Cons x)
  have top: "compute_score g q c \<le> score"
    if "get_region (rg_id c) db = Some c" "serving c" "may_serve q c" for c
  proof -
    have "(rg_id c, compute_score g q c) \<in> set (map (\<lambda>r. (rg_id r, compute_score g q r)) (route_candidates q db))"
      using that route_candidates_iff [OF assms] by auto
    from sort_desc_hd_max [OF this, of snd] hd show ?thesis by (simp add: scored_candidates_def)
  qed
  have dist: "distinct (best # map fst xs)" using scored_distinct [OF assms, of g q] by (simp add: Cons x)
  then have "distinct (best # map fst (take 3 xs))"
    by (auto simp: take_map [symmetric] dest: in_set_takeD)
  moreover have "\<exists>c. get_region y db = Some c \<and> serving c \<and> may_serve q c" if y: "y \<in> set (map fst (take 3 xs))" for y
  proof -
    obtain sc where "(y, sc) \<in> set (take 3 xs)" using y by auto
    then have "(y, sc) \<in> set (scored_candidates g q db)" using Cons by (auto dest: in_set_takeD)
    with mem show ?thesis by blast
  qed
  moreover have "\<exists>r. get_region best db = Some r \<and> serving r \<and> may_serve q r
      \<and> (\<forall>c. get_region (rg_id c) db = Some c \<longrightarrow> serving c \<longrightarrow> may_serve q c \<longrightarrow> compute_score g q c \<le> compute_score g q r)"
    using r top by (intro exI [of _ r]) (simp only: r(2), blast)
  ultimately show ?thesis using Cons x by (simp add: route_def Let_def)
qed

definition demo_request :: routing_request where
  "demo_request = \<lparr>rq_id = ''q'', rq_client_region = [], rq_model_id = [], rq_require_gpu = True, rq_min_vram_gb = 10,
     rq_preferred_region = [], rq_strategy = Weighted\<rparr>"

definition demo_router :: global_router where
  "demo_router = \<lparr>gr_latency = new_latency_map 1, gr_model_locations = [], gr_decisions = [], gr_total_routed = 0\<rparr>"

lemma demo_eligible:
  "\<exists>c. get_region (rg_id c) demo_db = Some c \<and> serving c \<and> may_serve demo_request c"
  by (rule exI [of _ "demo_region ''eu'' RActive (1 / 2) 10"])
    (simp add: get_region_def demo_db_def demo_region_def serving_def may_serve_def demo_request_def)

theorem route_picks_best_witness:
  "\<exists>d. snd (route 0 1 demo_request demo_db demo_router) = Some d \<and> distinct (rd_target d # rd_fallbacks d)"
proof (cases "snd (route 0 1 demo_request demo_db demo_router)")
  case None
  then have "\<forall>c. get_region (rg_id c) demo_db = Some c \<longrightarrow> serving c \<longrightarrow> \<not> may_serve demo_request c"
    using route_picks_best [OF demo_ok, of demo_request demo_router 0 1] by (simp only: option.case)
  with demo_eligible show ?thesis by blast
next
  case (Some d)
  then show ?thesis
    using route_picks_best [OF demo_ok, of demo_request demo_router 0 1] by (simp only: option.case) blast
qed

text \<open>
  the routing strategies nearest, weighted, least loaded and GPU affinity are one and the same:
  replacing one by another changes nothing about a decision but the name that it reports.
\<close>

theorem strategies_equivalent:
  assumes "rq_strategy q \<noteq> ModelLocality" "st \<noteq> ModelLocality"
  shows "snd (route t0 t (q\<lparr>rq_strategy := st\<rparr>) db g)
    = map_option (\<lambda>d. d\<lparr>rd_strategy_used := st\<rparr>) (snd (route t0 t q db g))"
proof -
  have "compute_score g (q\<lparr>rq_strategy := st\<rparr>) r = compute_score g q r" for r
    using assms by (simp add: compute_score_def base_score_def latency_score_def Let_def)
  moreover have "route_candidates (q\<lparr>rq_strategy := st\<rparr>) db = route_candidates q db"
    by (simp add: route_candidates_def Let_def)
  ultimately have "scored_candidates g (q\<lparr>rq_strategy := st\<rparr>) db = scored_candidates g q db"
    by (simp add: scored_candidates_def)
  then show ?thesis by (simp add: route_def Let_def split: list.split prod.split)
qed

theorem strategies_equivalent_witness:
  "map_option rd_target (snd (route 0 1 \<lparr>rq_id = ''q'', rq_client_region = [], rq_model_id = [], rq_require_gpu = False,
      rq_min_vram_gb = 0, rq_preferred_region = [], rq_strategy = Nearest\<rparr> demo_db g))
   = map_option rd_target (snd (route 0 1 \<lparr>rq_id = ''q'', rq_client_region = [], rq_model_id = [], rq_require_gpu = False,
      rq_min_vram_gb = 0, rq_preferred_region = [], rq_strategy = LeastLoaded\<rparr> demo_db g))"
  using strategies_equivalent [of "\<lparr>rq_id = ''q'', rq_client_region = [], rq_model_id = [], rq_require_gpu = False,
      rq_min_vram_gb = 0, rq_preferred_region = [], rq_strategy = LeastLoaded\<rparr>" Nearest 0 1 demo_db g]
  by (simp add: option.map_comp comp_def)

section \<open>The latency estimate\<close>

definition add_sample :: "pyfloat \<times> string \<times> string \<times> rat \<Rightarrow> latency_map \<Rightarrow> latency_map" where
  "add_sample x m = (case x of (t, a, b, l) \<Rightarrow> record_inter_region t a b l m)"

definition samples_of :: "string \<Rightarrow> string \<Rightarrow> (pyfloat \<times> string \<times> string \<times> rat) list \<Rightarrow> rat list" where
  "samples_of a b xs = map (\<lambda>x. snd (snd (snd x))) (filter (\<lambda>x. fst (snd x) = a \<and> fst (snd (snd x)) = b) xs)"

lemma mix_between:
  fixes lo :: rat
  assumes "0 \<le> a" "a \<le> 1" "lo \<le> p" "p \<le> hi" "lo \<le> x" "x \<le> hi"
  shows "lo \<le> p * (1 - a) + x * a \<and> p * (1 - a) + x * a \<le> hi"
proof
  have "lo * (1 - a) \<le> p * (1 - a)" "lo * a \<le> x * a" using assms by (simp_all add: mult_right_mono)
  then have "lo * (1 - a) + lo * a \<le> p * (1 - a) + x * a" by linarith
  then show "lo \<le> p * (1 - a) + x * a" by (simp add: algebra_simps)
  have "p * (1 - a) \<le> hi * (1 - a)" "x * a \<le> hi * a" using assms by (simp_all add: mult_right_mono)
  then have "p * (1 - a) + x * a \<le> hi * (1 - a) + hi * a" by linarith
  then show "p * (1 - a) + x * a \<le> hi" by (simp add: algebra_simps)
qed

lemma estimate_inv:
  assumes "0 \<le> lm_alpha m" "lm_alpha m \<le> 1"
  shows "lm_alpha (fold add_sample xs m) = lm_alpha m
    \<and> (get_inter_region a b (fold add_sample xs m) = None \<longleftrightarrow> get_inter_region a b m = None \<and> samples_of a b xs = [])
    \<and> (\<forall>e. get_inter_region a b (fold add_sample xs m) = Some e
        \<longrightarrow> (\<forall>l \<in> set (samples_of a b xs). lo \<le> l \<and> l \<le> hi)
        \<longrightarrow> (\<forall>e0. get_inter_region a b m = Some e0 \<longrightarrow> lo \<le> e0 \<and> e0 \<le> hi) \<longrightarrow> lo \<le> e \<and> e \<le> hi)"
  using assms
proof (induction xs arbitrary: m)
  case Nil
  show ?case by (simp add: samples_of_def)
next
  case (Cons x xs)
  obtain t c d l where x: "x = (t, c, d, l)" by (cases x) auto
  let ?m = "add_sample x m"
  have al: "lm_alpha ?m = lm_alpha m" by (simp add: x add_sample_def record_inter_region_def)
  have new: "get_inter_region a b ?m =
      (if (a, b) = (c, d) then Some (case get_inter_region a b m of Some p \<Rightarrow> p * (1 - lm_alpha m) + l * lm_alpha m | None \<Rightarrow> l)
       else get_inter_region a b m)"
    by (auto simp: x add_sample_def record_inter_region_def record_sample_def get_inter_region_def split: option.split)
  have smp: "samples_of a b (x # xs) = (if (a, b) = (c, d) then [l] else []) @ samples_of a b xs"
    by (auto simp: samples_of_def x)
  note IH = Cons.IH [of ?m, unfolded al, OF Cons.prems]
  have between: "lo \<le> e1 \<and> e1 \<le> hi"
    if "get_inter_region a b ?m = Some e1" "\<forall>l \<in> set (samples_of a b (x # xs)). lo \<le> l \<and> l \<le> hi"
      "\<forall>e0. get_inter_region a b m = Some e0 \<longrightarrow> lo \<le> e0 \<and> e0 \<le> hi" for e1
  proof (cases "(a, b) = (c, d)")
    case True
    then have l: "lo \<le> l" "l \<le> hi" using that(2) smp by auto
    show ?thesis
    proof (cases "get_inter_region a b m")
      case None
      with that(1) new True l show ?thesis by simp
    next
      case (Some p)
      with that(3) have "lo \<le> p" "p \<le> hi" by auto
      with mix_between [OF Cons.prems this l] that(1) new True Some show ?thesis by simp
    qed
  next
    case False
    with that(1,3) new show ?thesis by auto
  qed
  have none: "get_inter_region a b ?m = None \<longleftrightarrow> get_inter_region a b m = None \<and> (a, b) \<noteq> (c, d)" using new by auto
  have nil: "samples_of a b (x # xs) = [] \<longleftrightarrow> (a, b) \<noteq> (c, d) \<and> samples_of a b xs = []" by (simp add: smp)
  have sub: "set (samples_of a b xs) \<subseteq> set (samples_of a b (x # xs))" using smp by auto
  show ?case
  proof (intro conjI allI impI)
    show "lm_alpha (fold add_sample (x # xs) m) = lm_alpha m" using IH by simp
    show "get_inter_region a b (fold add_sample (x # xs) m) = None \<longleftrightarrow>
        get_inter_region a b m = None \<and> samples_of a b (x # xs) = []"
      using IH none nil by (simp only: fold_Cons comp_apply) blast
    fix e assume h: "get_inter_region a b (fold add_sample (x # xs) m) = Some e"
      "\<forall>l \<in> set (samples_of a b (x # xs)). lo \<le> l \<and> l \<le> hi"
      "\<forall>e0. get_inter_region a b m = Some e0 \<longrightarrow> lo \<le> e0 \<and> e0 \<le> hi"
    have "\<forall>e1. get_inter_region a b ?m = Some e1 \<longrightarrow> lo \<le> e1 \<and> e1 \<le> hi" using between h(2,3) by blast
    moreover have "get_inter_region a b (fold add_sample xs ?m) = Some e" using h(1) by simp
    ultimately show "lo \<le> e" "e \<le> hi" using IH h(2) sub by blast+
  qed
qed

text \<open>
  the latency estimate of a pair of regions never leaves the range of what was measured for
  that pair, and exists exactly when something was measured; the measurements of other pairs have
  no influence.
\<close>

theorem latency_within_samples:
  assumes "0 \<le> alpha" "alpha \<le> 1"
  shows "case get_inter_region a b (fold add_sample xs (new_latency_map alpha)) of
      None \<Rightarrow> samples_of a b xs = []
    | Some e \<Rightarrow> samples_of a b xs \<noteq> [] \<and> Min (set (samples_of a b xs)) \<le> e \<and> e \<le> Max (set (samples_of a b xs))"
proof -
  let ?m = "new_latency_map alpha"
  let ?S = "set (samples_of a b xs)"
  have m: "0 \<le> lm_alpha ?m" "lm_alpha ?m \<le> 1" "get_inter_region a b ?m = None"
    using assms by (simp_all add: new_latency_map_def get_inter_region_def)
  note inv = estimate_inv [OF m(1,2), where a = a and b = b and xs = xs and lo = "Min ?S" and hi = "Max ?S"]
  show ?thesis
  proof (cases "get_inter_region a b (fold add_sample xs ?m)")
    case None
    with inv m(3) show ?thesis by simp
  next
    case (Some e)
    moreover have "\<forall>l \<in> ?S. Min ?S \<le> l \<and> l \<le> Max ?S" by simp
    ultimately have "Min ?S \<le> e \<and> e \<le> Max ?S" using inv m(3) by (metis option.distinct(1))
    with Some inv m(3) show ?thesis by auto
  qed
qed

theorem latency_within_samples_witness:
  "\<exists>e. get_inter_region ''a'' ''b'' (fold add_sample [(1, ''a'', ''b'', 10), (2, ''b'', ''a'', 900), (3, ''a'', ''b'', 20)]
      (new_latency_map (3 / 10))) = Some e \<and> 10 \<le> e \<and> e \<le> 20"
  using latency_within_samples [of "3 / 10" "''a''" "''b''" "[(1, ''a'', ''b'', 10), (2, ''b'', ''a'', 900), (3, ''a'', ''b'', 20)]"]
  by (auto simp: samples_of_def split: option.splits)

section \<open>Affinity\<close>

definition affinity_ok :: "affinity \<Rightarrow> bool" where
  "affinity_ok a \<longleftrightarrow> dwf (am_session a) \<and> dwf (am_model a) \<and> dwf (am_client a)"

lemma dget_ddels: "dget (fold ddel ks d) k = (if k \<in> set ks then None else dget d k)"
  by (induction ks arbitrary: d) auto

lemma live_target_cleanup:
  assumes "dwf d" "now \<le> later"
  shows "live_target later k (fold ddel (expired_keys now d) d) = live_target later k d"
proof (cases "k \<in> set (expired_keys now d)")
  case True
  then obtain rule where "(k, rule) \<in> set d" "af_expired now rule" by (auto simp: expired_keys_def)
  with assms have "dget d k = Some rule" "af_expired later rule" by (auto simp: dwf_dget_iff af_expired_def)
  with True show ?thesis by (simp add: live_target_def dget_ddels)
next
  case False
  then show ?thesis by (simp add: live_target_def dget_ddels)
qed

lemma session_live_target: "snd (get_session_affinity now k a) = live_target now k (am_session a)"
  by (simp add: get_session_affinity_def live_target_def split: option.split)

lemma session_keeps: "am_model (fst (get_session_affinity now k a)) = am_model a"
    "am_client (fst (get_session_affinity now k a)) = am_client a"
  by (simp_all add: get_session_affinity_def split: option.split)

lemma resolve_eq:
  "snd (resolve_affinity now sid mid cid a) =
     (case truthy (if sid \<noteq> [] then live_target now sid (am_session a) else None) of
        Some r \<Rightarrow> Some r
      | None \<Rightarrow> (case truthy (if mid \<noteq> [] then live_target now mid (am_model a) else None) of
          Some r \<Rightarrow> Some r
        | None \<Rightarrow> truthy (if cid \<noteq> [] then live_target now cid (am_client a) else None)))"
  by (simp add: resolve_affinity_def Let_def case_prod_unfold session_live_target session_keeps cong: option.case_cong)

text \<open>
  C30: cleaning up expired affinity rules is invisible: every later request is resolved as it would
  have been without the clean-up.
\<close>

theorem affinity_cleanup_invisible:
  assumes "affinity_ok a" "now \<le> later"
  shows "snd (resolve_affinity later sid mid cid (fst (affinity_cleanup now a))) = snd (resolve_affinity later sid mid cid a)"
  using assms live_target_cleanup
  by (simp add: resolve_eq affinity_cleanup_def affinity_ok_def cong: option.case_cong)

theorem affinity_cleanup_invisible_witness:
  "snd (resolve_affinity 50 ''s'' ''m'' [] (fst (affinity_cleanup 40
      (set_session_affinity 0 ''s'' ''eu'' 10 (set_model_affinity 0 ''m'' ''us'' 1 new_affinity))))) = Some ''us''"
  using affinity_cleanup_invisible [of "set_session_affinity 0 ''s'' ''eu'' 10 (set_model_affinity 0 ''m'' ''us'' 1 new_affinity)"
      40 50 "''s''" "''m''" "[]"]
  by (simp add: affinity_ok_def set_session_affinity_def set_model_affinity_def new_affinity_def dwf_def
      resolve_eq live_target_def af_expired_def truthy_def)

text \<open>A session rule wins over the rules of the model and of the client while it lives.\<close>

lemma session_affinity_wins:
  "\<lbrakk>sid \<noteq> []; rid \<noteq> []; now - t \<le> ttl\<rbrakk> \<Longrightarrow>
    snd (resolve_affinity now sid mid cid (set_session_affinity t sid rid ttl a)) = Some rid"
  by (simp add: resolve_eq set_session_affinity_def live_target_def af_expired_def truthy_def)

end
