(* ===== verification/Repair.thy ===== *)
theory Repair
  imports Prelude "HOL-Library.Multiset"
begin

text \<open>
  The repair services: \<open>repair/deployment_repair.py\<close>, \<open>repair/workload_rebuilder.py\<close>,
  \<open>repair/failure_recovery.py\<close> and \<open>repair/auto_healing.py\<close>. Their records are Python objects that
  sit in several collections at once (the bounded history, the table of active ones, the caller's
  hands), so each service has a store of objects, a reference is an index into it, and a collection
  holds references. A step that releases the lock in between is split there. Descriptions and
  rollback plans are texts for people and are left out. The locale \<open>work_list\<close> is what the two
  queues of requests share.
\<close>

section \<open>Objects\<close>

definition on_obj :: "nat \<Rightarrow> ('r \<Rightarrow> 'r) \<Rightarrow> 'r list \<Rightarrow> 'r list" where
  "on_obj i f objs = objs[i := f (objs ! i)]"

lemma length_on_obj [simp]: "length (on_obj i f objs) = length objs"
  by (simp add: on_obj_def)

lemma nth_on_obj: "i < length objs \<Longrightarrow> on_obj i f objs ! j = (if j = i then f (objs ! j) else objs ! j)"
  by (simp add: on_obj_def nth_list_update)

text \<open>Counting objects: a change that turns \<open>P\<close> on adds one, one that turns it off removes one.\<close>

lemma count_on_obj:
  "i < length objs \<Longrightarrow> length (filter P (on_obj i f objs)) + (if P (objs ! i) then 1 else 0)
     = length (filter P objs) + (if P (f (objs ! i)) then 1 else 0)"
proof (induction objs arbitrary: i)
  case (Cons x xs)
  show ?case
  proof (cases i)
    case (Suc k)
    with Cons.IH [of k] Cons.prems show ?thesis by (simp add: on_obj_def)
  qed (simp add: on_obj_def)
qed simp

definition py_trunc :: "rat \<Rightarrow> int" where
  "py_trunc x = (if x \<ge> 0 then \<lfloor>x\<rfloor> else \<lceil>x\<rceil>)"

text \<open>An f-string id: prefix, subject and the second of its creation.\<close>

definition stamped_id :: "string \<Rightarrow> string \<Rightarrow> pyfloat \<Rightarrow> string" where
  "stamped_id prefix subject t = prefix @ subject @ ''-'' @ string_of_int (py_trunc t)"

section \<open>A list of requests that are carried out one after the other\<close>

locale work_list =
  fixes ident :: "'r \<Rightarrow> string"
    and pending :: "'r \<Rightarrow> bool"
    and complete :: "'t \<Rightarrow> 'r \<Rightarrow> 'r"
  assumes ident_complete: "ident (complete t r) = ident r"
    and complete_done: "\<not> pending (complete t r)"
begin

definition first_pending :: "string \<Rightarrow> nat list \<Rightarrow> 'r list \<Rightarrow> nat option" where
  "first_pending rid w objs = find (\<lambda>i. ident (objs ! i) = rid \<and> pending (objs ! i)) w"

definition open_refs :: "nat list \<Rightarrow> 'r list \<Rightarrow> nat list" where
  "open_refs w objs = filter (\<lambda>i. pending (objs ! i)) w"

fun carry_out :: "nat list \<Rightarrow> 't list \<Rightarrow> string list \<Rightarrow> 'r list \<Rightarrow> nat list \<times> 'r list" where
  "carry_out w (t # ts) (rid # ids) objs =
     (case first_pending rid w objs of
        None \<Rightarrow> carry_out w ts ids objs
      | Some i \<Rightarrow> let (refs, objs') = carry_out w ts ids (on_obj i (complete t) objs) in (i # refs, objs'))"
| "carry_out w _ _ objs = ([], objs)"

lemma first_pending_Some:
  "first_pending rid w objs = Some i \<Longrightarrow> i \<in> set w \<and> ident (objs ! i) = rid \<and> pending (objs ! i)"
  by (auto simp: first_pending_def find_Some_iff)

lemma open_refs_done:
  assumes "distinct w" "\<forall>j \<in> set w. j < length objs" "i \<in> set (open_refs w objs)"
  shows "mset (open_refs w objs) = add_mset i (mset (open_refs w (on_obj i (complete t) objs)))"
proof -
  have i: "i < length objs" using assms(2,3) by (auto simp: open_refs_def)
  have "open_refs w (on_obj i (complete t) objs) = filter (\<lambda>j. i \<noteq> j) (open_refs w objs)"
    unfolding open_refs_def by (auto simp: nth_on_obj [OF i] complete_done intro: filter_cong)
  moreover have "distinct (open_refs w objs)" using assms(1) by (simp add: open_refs_def)
  then have "filter (\<lambda>j. i \<noteq> j) (open_refs w objs) = remove1 i (open_refs w objs)"
    by (simp only: distinct_remove1_removeAll removeAll_filter_not_eq)
  ultimately show ?thesis using assms(3) by simp
qed

text \<open>
  When the ids are those of all pending requests, in any order, every request is found, carried out
  once, and none is left: also when several share an id.
\<close>

lemma carry_out_all:
  assumes "distinct w" "\<forall>j \<in> set w. j < length objs" "length ts = length ids"
    and "mset ids = image_mset (\<lambda>i. ident (objs ! i)) (mset (open_refs w objs))"
    and "carry_out w ts ids objs = (refs, objs')"
  shows "mset refs = mset (open_refs w objs) \<and> open_refs w objs' = [] \<and> length objs' = length objs
    \<and> map (\<lambda>i. ident (objs ! i)) refs = ids"
  using assms
proof (induction ids arbitrary: ts objs refs objs')
  case Nil
  then show ?case by (cases ts) auto
next
  case (Cons rid ids)
  obtain t us where ts: "ts = t # us" "length us = length ids" using Cons.prems(3) by (cases ts) auto
  have "rid \<in># image_mset (\<lambda>i. ident (objs ! i)) (mset (open_refs w objs))"
    by (simp only: Cons.prems(4) [symmetric]) simp
  then obtain j where "j \<in> set (open_refs w objs)" "ident (objs ! j) = rid" by auto
  then have "first_pending rid w objs \<noteq> None" by (auto simp: first_pending_def find_None_iff open_refs_def)
  then obtain i where i: "first_pending rid w objs = Some i" by blast
  note fp = first_pending_Some [OF i]
  then have mem: "i \<in> set (open_refs w objs)" by (simp add: open_refs_def)
  have len: "i < length objs" using fp Cons.prems(2) by blast
  let ?o = "on_obj i (complete t) objs"
  have id: "ident (?o ! j) = ident (objs ! j)" for j by (simp add: nth_on_obj [OF len] ident_complete)
  note split = open_refs_done [OF Cons.prems(1,2) mem, of t]
  have ms: "mset ids = image_mset (\<lambda>i. ident (?o ! i)) (mset (open_refs w ?o))"
    using Cons.prems(4) fp by (simp add: split id)
  obtain refs1 where run: "carry_out w us ids ?o = (refs1, objs')" "refs = i # refs1"
    using Cons.prems(5) ts i by (cases "carry_out w us ids ?o") (auto simp: Let_def)
  have "\<forall>j \<in> set w. j < length ?o" using Cons.prems(2) by simp
  from Cons.IH [OF Cons.prems(1) this ts(2) ms run(1)] run(2) split fp id show ?case by simp
qed

end

section \<open>Work that is admitted up to a limit\<close>

locale admission =
  fixes active :: "'s \<Rightarrow> (string, 'v) dict"
    and limit :: "'s \<Rightarrow> int"
    and step :: "'op \<Rightarrow> 's \<Rightarrow> 's"
  assumes limit_step: "limit (step opn s) = limit s"
    and active_step: "(\<exists>k v. active (step opn s) = dput k v (active s) \<and> int (length (active s)) < limit s)
      \<or> (\<exists>k. active (step opn s) = ddel k (active s)) \<or> active (step opn s) = active s"
begin

lemma within_limit_step:
  assumes "int (length (active s)) \<le> max 0 (limit s)"
  shows "int (length (active (step opn s))) \<le> max 0 (limit s)"
  using active_step [of opn s]
proof (elim disjE exE conjE)
  fix k v assume "active (step opn s) = dput k v (active s)" "int (length (active s)) < limit s"
  then show ?thesis by (simp add: length_dput)
next
  fix k assume "active (step opn s) = ddel k (active s)"
  moreover have "length (ddel k (active s)) \<le> length (active s)" by (simp add: AList.delete_eq)
  ultimately show ?thesis using assms by simp
qed (use assms in simp)

text \<open>However the beginnings and ends interleave, no more than the limit are under way.\<close>

lemma within_limit:
  assumes "int (length (active s)) \<le> max 0 (limit s)"
  shows "int (length (active (fold step ops s))) \<le> max 0 (limit s) \<and> limit (fold step ops s) = limit s"
  using assms
proof (induction ops arbitrary: s)
  case (Cons opn ops)
  with Cons.IH [of "step opn s"] within_limit_step show ?case by (simp add: limit_step)
qed simp

end

section \<open>Deployment repair\<close>

datatype repair_action = Redeploy | RollbackVersion | ScaleReplace | ConfigFix | ResourceAdjust

datatype repair_status = RepPending | Repairing | Repaired | RepFailed

record repair =
  rp_id :: string
  rp_deployment :: string
  rp_region :: string
  rp_action :: repair_action
  rp_status :: repair_status
  rp_reason :: string
  rp_rollback_target :: string
  rp_created_at :: pyfloat
  rp_started_at :: pyfloat
  rp_completed_at :: pyfloat
  rp_time_ms :: rat
  rp_result :: string

record repair_manager =
  rm_objs :: "repair list"
  rm_repairs :: "nat list"
  rm_max_history :: nat
  rm_total_repaired :: nat
  rm_events :: "(string \<times> string \<times> repair_action \<times> rat \<times> pyfloat) list"

definition new_repair_manager :: "nat \<Rightarrow> repair_manager" where
  "new_repair_manager max_history =
     \<lparr>rm_objs = [], rm_repairs = [], rm_max_history = max_history, rm_total_repaired = 0, rm_events = []\<rparr>"

fun contains :: "string \<Rightarrow> string \<Rightarrow> bool" where
  "contains p [] = (p = [])"
| "contains p (c # cs) = (starts_with p (c # cs) \<or> contains p cs)"

definition select_repair :: "string \<Rightarrow> repair_action" where
  "select_repair failure_reason =
     (let reason = py_lower failure_reason
      in if contains ''config'' reason then ConfigFix
         else if contains ''oom'' reason \<or> contains ''resource'' reason then ResourceAdjust
         else if contains ''version'' reason \<or> contains ''incompatible'' reason then RollbackVersion
         else if contains ''scale'' reason then ScaleReplace
         else Redeploy)"

definition request_repair ::
    "pyfloat \<Rightarrow> string \<Rightarrow> string \<Rightarrow> string \<Rightarrow> string \<Rightarrow> repair_manager \<Rightarrow> repair_manager" where
  "request_repair t dep rg reason target m =
     (let r = \<lparr>rp_id = stamped_id ''repair-'' dep t, rp_deployment = dep, rp_region = rg,
               rp_action = select_repair reason, rp_status = RepPending, rp_reason = reason,
               rp_rollback_target = target, rp_created_at = t, rp_started_at = 0, rp_completed_at = 0,
               rp_time_ms = 0, rp_result = []\<rparr>
      in m\<lparr>rm_objs := rm_objs m @ [r],
           rm_repairs := py_cap (rm_max_history m) (rm_repairs m @ [length (rm_objs m)])\<rparr>)"

definition repair_done :: "pyfloat \<times> pyfloat \<Rightarrow> repair \<Rightarrow> repair" where
  "repair_done t r =
     r\<lparr>rp_started_at := fst t, rp_status := Repaired, rp_completed_at := snd t,
       rp_time_ms := py_round ((snd t - fst t) * 1000) 1, rp_result := ''repaired''\<rparr>"

text \<open>\<open>None\<close> is the \<open>ValueError\<close>; the result is the reference of the record.\<close>

definition execute_repair :: "pyfloat \<times> pyfloat \<Rightarrow> string \<Rightarrow> repair_manager \<Rightarrow> (repair_manager \<times> nat) option" where
  "execute_repair t rid m =
     (case find (\<lambda>i. rp_id (rm_objs m ! i) = rid \<and> rp_status (rm_objs m ! i) = RepPending) (rm_repairs m) of
        None \<Rightarrow> None
      | Some i \<Rightarrow>
          let objs = on_obj i (repair_done t) (rm_objs m); r = objs ! i
          in Some (m\<lparr>rm_objs := objs, rm_total_repaired := rm_total_repaired m + 1,
                     rm_events := py_cap (rm_max_history m)
                       (rm_events m @ [(rid, rp_deployment r, rp_action r, rp_time_ms r, rp_completed_at r)])\<rparr>, i))"

fun repair_each :: "(pyfloat \<times> pyfloat) list \<Rightarrow> string list \<Rightarrow> repair_manager \<Rightarrow> repair_manager \<times> nat list" where
  "repair_each (t # ts) (rid # ids) m =
     (case execute_repair t rid m of
        None \<Rightarrow> repair_each ts ids m
      | Some (m1, i) \<Rightarrow> let (m2, refs) = repair_each ts ids m1 in (m2, i # refs))"
| "repair_each _ _ m = (m, [])"

definition pending_repairs :: "repair_manager \<Rightarrow> nat list" where
  "pending_repairs m = filter (\<lambda>i. rp_status (rm_objs m ! i) = RepPending) (rm_repairs m)"

definition repair_all_pending :: "(pyfloat \<times> pyfloat) list \<Rightarrow> repair_manager \<Rightarrow> repair_manager \<times> nat list" where
  "repair_all_pending ts m = repair_each ts (map (\<lambda>i. rp_id (rm_objs m ! i)) (pending_repairs m)) m"

interpretation dr: work_list rp_id "\<lambda>r. rp_status r = RepPending" repair_done
  by unfold_locales (simp_all add: repair_done_def)

lemma execute_repair_eq:
  "execute_repair t rid m = None \<longleftrightarrow> dr.first_pending rid (rm_repairs m) (rm_objs m) = None"
  "execute_repair t rid m = Some (m', i) \<Longrightarrow> dr.first_pending rid (rm_repairs m) (rm_objs m) = Some i
     \<and> rm_objs m' = on_obj i (repair_done t) (rm_objs m) \<and> rm_repairs m' = rm_repairs m
     \<and> rm_total_repaired m' = rm_total_repaired m + 1"
  by (auto simp: execute_repair_def dr.first_pending_def Let_def split: option.splits)

lemma repair_each_eq:
  assumes "length ts = length ids"
  shows "case repair_each ts ids m of (m', refs) \<Rightarrow>
     dr.carry_out (rm_repairs m) ts ids (rm_objs m) = (refs, rm_objs m') \<and> rm_repairs m' = rm_repairs m
     \<and> rm_total_repaired m' = rm_total_repaired m + length refs"
  using assms
proof (induction ids arbitrary: ts m)
  case Nil
  then show ?case by simp
next
  case (Cons rid ids)
  obtain t us where ts: "ts = t # us" "length us = length ids" using Cons.prems by (cases ts) auto
  show ?case
  proof (cases "execute_repair t rid m")
    case None
    then have "dr.first_pending rid (rm_repairs m) (rm_objs m) = None"
      using execute_repair_eq(1) [of t rid m] by blast
    with None Cons.IH [OF ts(2), of m] ts(1) show ?thesis by simp
  next
    case (Some p)
    obtain m1 i where p: "p = (m1, i)" by (cases p)
    note fp = execute_repair_eq(2) [OF Some [unfolded p]]
    obtain m2 refs where run: "repair_each us ids m1 = (m2, refs)" by fastforce
    from Cons.IH [OF ts(2), of m1] fp run Some p ts(1) show ?thesis by (simp add: Let_def)
  qed
qed

section \<open>Rebuilding workloads\<close>

datatype rebuild_status = RebPending | Rebuilding | RebCompleted | RebFailed

record rebuild =
  rb_id :: string
  rb_workload :: string
  rb_region :: string
  rb_target_region :: string
  rb_reason :: string
  rb_status :: rebuild_status
  rb_preserve_state :: bool
  rb_priority :: int
  rb_created_at :: pyfloat
  rb_started_at :: pyfloat
  rb_completed_at :: pyfloat
  rb_time_ms :: rat
  rb_result :: string

record rebuilder =
  wr_objs :: "rebuild list"
  wr_requests :: "nat list"
  wr_active :: "(string, nat) dict"
  wr_max_concurrent :: int
  wr_max_history :: nat
  wr_total_rebuilt :: nat
  wr_events :: "(string \<times> string \<times> string \<times> rat \<times> pyfloat) list"

definition new_rebuilder :: "int \<Rightarrow> nat \<Rightarrow> rebuilder" where
  "new_rebuilder max_concurrent max_history =
     \<lparr>wr_objs = [], wr_requests = [], wr_active = [], wr_max_concurrent = max_concurrent,
      wr_max_history = max_history, wr_total_rebuilt = 0, wr_events = []\<rparr>"

definition request_rebuild ::
    "pyfloat \<Rightarrow> string \<Rightarrow> string \<Rightarrow> string \<Rightarrow> string \<Rightarrow> bool \<Rightarrow> int \<Rightarrow> rebuilder \<Rightarrow> rebuilder" where
  "request_rebuild t wid rg target reason preserve priority m =
     (let r = \<lparr>rb_id = stamped_id ''rebuild-'' wid t, rb_workload = wid, rb_region = rg, rb_target_region = target,
               rb_reason = reason, rb_status = RebPending, rb_preserve_state = preserve, rb_priority = priority,
               rb_created_at = t, rb_started_at = 0, rb_completed_at = 0, rb_time_ms = 0, rb_result = []\<rparr>
      in m\<lparr>wr_objs := wr_objs m @ [r],
           wr_requests := py_cap (wr_max_history m) (wr_requests m @ [length (wr_objs m)])\<rparr>)"

datatype rebuild_error = NoPendingRebuild | MaxConcurrentRebuilds

text \<open>The two halves of \<open>execute_rebuild\<close>: under the lock, and after the work.\<close>

definition begin_rebuild :: "pyfloat \<Rightarrow> string \<Rightarrow> rebuilder \<Rightarrow> rebuild_error + rebuilder \<times> nat" where
  "begin_rebuild t rid m =
     (case find (\<lambda>i. rb_id (wr_objs m ! i) = rid \<and> rb_status (wr_objs m ! i) = RebPending) (wr_requests m) of
        None \<Rightarrow> Inl NoPendingRebuild
      | Some i \<Rightarrow>
          if int (length (wr_active m)) \<ge> wr_max_concurrent m then Inl MaxConcurrentRebuilds
          else Inr (m\<lparr>wr_objs := on_obj i (\<lambda>r. r\<lparr>rb_status := Rebuilding, rb_started_at := t\<rparr>) (wr_objs m),
                      wr_active := dput rid i (wr_active m)\<rparr>, i))"

definition rebuild_finished :: "pyfloat \<Rightarrow> rebuild \<Rightarrow> rebuild" where
  "rebuild_finished t r =
     r\<lparr>rb_status := RebCompleted, rb_completed_at := t, rb_time_ms := py_round ((t - rb_started_at r) * 1000) 1,
       rb_result := ''rebuilt_successfully''\<rparr>"

definition finish_rebuild :: "pyfloat \<Rightarrow> string \<Rightarrow> nat \<Rightarrow> rebuilder \<Rightarrow> rebuilder" where
  "finish_rebuild t rid i m =
     (let objs = on_obj i (rebuild_finished t) (wr_objs m); r = objs ! i
      in m\<lparr>wr_objs := objs, wr_active := ddel rid (wr_active m), wr_total_rebuilt := wr_total_rebuilt m + 1,
           wr_events := py_cap (wr_max_history m)
             (wr_events m @ [(rid, rb_workload r, if rb_target_region r \<noteq> [] then rb_target_region r else rb_region r,
                rb_time_ms r, t)])\<rparr>)"

definition execute_rebuild :: "pyfloat \<times> pyfloat \<Rightarrow> string \<Rightarrow> rebuilder \<Rightarrow> rebuild_error + rebuilder \<times> nat" where
  "execute_rebuild t rid m =
     (case begin_rebuild (fst t) rid m of Inl e \<Rightarrow> Inl e | Inr (m1, i) \<Rightarrow> Inr (finish_rebuild (snd t) rid i m1, i))"

text \<open>The loop stops at the first error.\<close>

fun rebuild_each :: "(pyfloat \<times> pyfloat) list \<Rightarrow> string list \<Rightarrow> rebuilder \<Rightarrow> rebuilder \<times> nat list" where
  "rebuild_each (t # ts) (rid # ids) m =
     (case execute_rebuild t rid m of
        Inl e \<Rightarrow> (m, [])
      | Inr (m1, i) \<Rightarrow> let (m2, refs) = rebuild_each ts ids m1 in (m2, i # refs))"
| "rebuild_each _ _ m = (m, [])"

definition pending_rebuilds :: "rebuilder \<Rightarrow> nat list" where
  "pending_rebuilds m = filter (\<lambda>i. rb_status (wr_objs m ! i) = RebPending) (wr_requests m)"

definition rebuild_all_pending :: "(pyfloat \<times> pyfloat) list \<Rightarrow> rebuilder \<Rightarrow> rebuilder \<times> nat list" where
  "rebuild_all_pending ts m =
     rebuild_each ts (map (\<lambda>i. rb_id (wr_objs m ! i))
       (sort_desc (\<lambda>i. rb_priority (wr_objs m ! i)) (pending_rebuilds m))) m"

definition rebuild_done :: "pyfloat \<times> pyfloat \<Rightarrow> rebuild \<Rightarrow> rebuild" where
  "rebuild_done t r = rebuild_finished (snd t) (r\<lparr>rb_status := Rebuilding, rb_started_at := fst t\<rparr>)"

interpretation wr: work_list rb_id "\<lambda>r. rb_status r = RebPending" rebuild_done
  by unfold_locales (simp_all add: rebuild_done_def rebuild_finished_def)

definition rebuilder_ok :: "rebuilder \<Rightarrow> bool" where
  "rebuilder_ok m \<longleftrightarrow> distinct (wr_requests m) \<and> (\<forall>i \<in> set (wr_requests m). i < length (wr_objs m))"

lemma execute_rebuild_eq:
  assumes "rebuilder_ok m" "wr_active m = []" "0 < wr_max_concurrent m"
  shows "case wr.first_pending rid (wr_requests m) (wr_objs m) of
      None \<Rightarrow> execute_rebuild t rid m = Inl NoPendingRebuild
    | Some i \<Rightarrow> \<exists>m'. execute_rebuild t rid m = Inr (m', i) \<and> wr_objs m' = on_obj i (rebuild_done t) (wr_objs m)
        \<and> wr_requests m' = wr_requests m \<and> wr_active m' = [] \<and> wr_max_concurrent m' = wr_max_concurrent m
        \<and> wr_total_rebuilt m' = wr_total_rebuilt m + 1"
proof (cases "wr.first_pending rid (wr_requests m) (wr_objs m)")
  case None
  then show ?thesis by (simp add: execute_rebuild_def begin_rebuild_def wr.first_pending_def)
next
  case (Some i)
  then have "i < length (wr_objs m)"
    using wr.first_pending_Some [OF Some] assms(1) by (simp add: rebuilder_ok_def)
  then have "on_obj i (rebuild_finished (snd t)) (on_obj i (\<lambda>r. r\<lparr>rb_status := Rebuilding, rb_started_at := fst t\<rparr>) (wr_objs m))
      = on_obj i (rebuild_done t) (wr_objs m)"
    by (simp add: on_obj_def rebuild_done_def)
  with Some assms(2,3) show ?thesis
    by (simp add: execute_rebuild_def begin_rebuild_def finish_rebuild_def wr.first_pending_def Let_def)
qed

lemma rebuild_each_eq:
  assumes "length ts = length ids" "rebuilder_ok m" "wr_active m = []" "0 < wr_max_concurrent m"
    and "mset ids = image_mset (\<lambda>i. rb_id (wr_objs m ! i)) (mset (wr.open_refs (wr_requests m) (wr_objs m)))"
  shows "case rebuild_each ts ids m of (m', refs) \<Rightarrow>
     wr.carry_out (wr_requests m) ts ids (wr_objs m) = (refs, wr_objs m') \<and> wr_requests m' = wr_requests m
     \<and> wr_total_rebuilt m' = wr_total_rebuilt m + length refs \<and> wr_active m' = []"
  using assms
proof (induction ids arbitrary: ts m)
  case Nil
  then show ?case by simp
next
  case (Cons rid ids)
  obtain t us where ts: "ts = t # us" "length us = length ids" using Cons.prems(1) by (cases ts) auto
  have w: "distinct (wr_requests m)" "\<forall>j \<in> set (wr_requests m). j < length (wr_objs m)"
    using Cons.prems(2) by (simp_all add: rebuilder_ok_def)
  have "rid \<in># image_mset (\<lambda>i. rb_id (wr_objs m ! i)) (mset (wr.open_refs (wr_requests m) (wr_objs m)))"
    by (simp only: Cons.prems(5) [symmetric]) simp
  then obtain j where "j \<in> set (wr.open_refs (wr_requests m) (wr_objs m))" "rb_id (wr_objs m ! j) = rid" by auto
  then have "wr.first_pending rid (wr_requests m) (wr_objs m) \<noteq> None"
    by (auto simp: wr.first_pending_def find_None_iff wr.open_refs_def)
  then obtain i where i: "wr.first_pending rid (wr_requests m) (wr_objs m) = Some i" by blast
  obtain m1 where m1: "execute_rebuild t rid m = Inr (m1, i)" "wr_objs m1 = on_obj i (rebuild_done t) (wr_objs m)"
      "wr_requests m1 = wr_requests m" "wr_active m1 = []" "wr_max_concurrent m1 = wr_max_concurrent m"
      "wr_total_rebuilt m1 = wr_total_rebuilt m + 1"
    using execute_rebuild_eq [OF Cons.prems(2-4), of t rid] i by auto
  note fp = wr.first_pending_Some [OF i]
  have mem: "i \<in> set (wr.open_refs (wr_requests m) (wr_objs m))" using fp by (simp add: wr.open_refs_def)
  have len: "i < length (wr_objs m)" using fp w(2) by blast
  have id: "rb_id (wr_objs m1 ! j) = rb_id (wr_objs m ! j)" for j
    by (simp add: m1(2) nth_on_obj [OF len] wr.ident_complete)
  have ok: "rebuilder_ok m1" using Cons.prems(2) by (simp add: rebuilder_ok_def m1)
  have "mset ids = image_mset (\<lambda>i. rb_id (wr_objs m1 ! i)) (mset (wr.open_refs (wr_requests m1) (wr_objs m1)))"
    using Cons.prems(5) wr.open_refs_done [OF w mem, of t] fp by (simp add: id) (simp add: m1)
  from Cons.IH [OF ts(2) ok m1(4) _ this] Cons.prems(4) m1(5)
  have IH: "case rebuild_each us ids m1 of (m', refs) \<Rightarrow>
     wr.carry_out (wr_requests m1) us ids (wr_objs m1) = (refs, wr_objs m') \<and> wr_requests m' = wr_requests m1
     \<and> wr_total_rebuilt m' = wr_total_rebuilt m1 + length refs \<and> wr_active m' = []" by simp
  obtain m2 refs where run: "rebuild_each us ids m1 = (m2, refs)" by fastforce
  with IH m1 ts i show ?case by (simp add: Let_def)
qed

text \<open>
  a batch of rebuilds leaves nothing behind: with a positive concurrency limit it carries out
  every pending request exactly once, in descending order of priority, and none is pending
  afterwards, also when several requests of one second share an id.
\<close>

theorem rebuild_batch_complete:
  assumes "rebuilder_ok m" "wr_active m = []" "0 < wr_max_concurrent m" "length ts = length (pending_rebuilds m)"
  defines "res \<equiv> rebuild_all_pending ts m"
  shows "pending_rebuilds (fst res) = []
    \<and> mset (snd res) = mset (pending_rebuilds m)
    \<and> map (\<lambda>i. rb_id (wr_objs m ! i)) (snd res)
        = map (\<lambda>i. rb_id (wr_objs m ! i)) (sort_desc (\<lambda>i. rb_priority (wr_objs m ! i)) (pending_rebuilds m))
    \<and> wr_total_rebuilt (fst res) = wr_total_rebuilt m + length (pending_rebuilds m)"
proof -
  let ?sorted = "sort_desc (\<lambda>i. rb_priority (wr_objs m ! i)) (pending_rebuilds m)"
  let ?ids = "map (\<lambda>i. rb_id (wr_objs m ! i)) ?sorted"
  have open_refs: "wr.open_refs (wr_requests m) (wr_objs m) = pending_rebuilds m"
    by (simp add: wr.open_refs_def pending_rebuilds_def)
  have ms: "mset ?sorted = mset (pending_rebuilds m)" by (simp add: sort_desc_def)
  then have ids: "mset ?ids = image_mset (\<lambda>i. rb_id (wr_objs m ! i)) (mset (wr.open_refs (wr_requests m) (wr_objs m)))"
    by (simp add: open_refs)
  have len: "length ts = length ?ids" using assms(4) by simp
  obtain m' refs where run: "rebuild_each ts ?ids m = (m', refs)" by fastforce
  from rebuild_each_eq [OF len assms(1-3) ids] run
  have eq: "wr.carry_out (wr_requests m) ts ?ids (wr_objs m) = (refs, wr_objs m')" "wr_requests m' = wr_requests m"
      "wr_total_rebuilt m' = wr_total_rebuilt m + length refs" by simp_all
  have w: "distinct (wr_requests m)" "\<forall>j \<in> set (wr_requests m). j < length (wr_objs m)"
    using assms(1) by (simp_all add: rebuilder_ok_def)
  note all = wr.carry_out_all [OF w len ids eq(1)]
  have res: "res = (m', refs)" unfolding res_def rebuild_all_pending_def by (rule run)
  have "length refs = length (pending_rebuilds m)" using all by (metis open_refs size_mset)
  moreover have "pending_rebuilds m' = wr.open_refs (wr_requests m) (wr_objs m')"
    by (simp add: pending_rebuilds_def wr.open_refs_def eq(2))
  ultimately show ?thesis using all eq(3) by (simp add: res open_refs)
qed

lemma rebuilder_ok_new: "rebuilder_ok (new_rebuilder c h)"
  by (simp add: rebuilder_ok_def new_rebuilder_def)

lemma distinct_py_cap: "distinct xs \<Longrightarrow> distinct (py_cap n xs)"
  using py_cap_suffix [of xs n] by (metis distinct_append)

lemma rebuilder_ok_request: "rebuilder_ok m \<Longrightarrow> rebuilder_ok (request_rebuild t w rg tg rs pr pri m)"
  using set_py_cap [of "wr_max_history m" "wr_requests m @ [length (wr_objs m)]"]
  by (auto simp: rebuilder_ok_def request_rebuild_def Let_def intro!: distinct_py_cap) fastforce

theorem rebuild_batch_complete_witness:
  "snd (rebuild_all_pending [(2, 3), (3, 4)]
     (request_rebuild 1 ''b'' [] [] [] True 9 (request_rebuild 0 ''a'' [] [] [] True 1 (new_rebuilder 1 500)))) = [1, 0]"
proof -
  let ?m = "request_rebuild 1 ''b'' [] [] [] True 9 (request_rebuild 0 ''a'' [] [] [] True 1 (new_rebuilder 1 500))"
  have ok: "rebuilder_ok ?m" by (intro rebuilder_ok_request rebuilder_ok_new)
  have m: "wr_active ?m = []" "0 < wr_max_concurrent ?m" "pending_rebuilds ?m = [0, 1]"
      "wr_objs ?m ! 0 = \<lparr>rb_id = ''rebuild-a-0'', rb_workload = ''a'', rb_region = [], rb_target_region = [], rb_reason = [],
        rb_status = RebPending, rb_preserve_state = True, rb_priority = 1, rb_created_at = 0, rb_started_at = 0,
        rb_completed_at = 0, rb_time_ms = 0, rb_result = []\<rparr>"
      "rb_id (wr_objs ?m ! 1) = ''rebuild-b-1''" "rb_priority (wr_objs ?m ! 1) = 9"
    by code_simp+
  from rebuild_batch_complete [OF ok m(1,2), of "[(2, 3), (3, 4)]"] m(3)
  have "mset (snd (rebuild_all_pending [(2, 3), (3, 4)] ?m)) = {#0, 1#}"
    "map (\<lambda>i. rb_id (wr_objs ?m ! i)) (snd (rebuild_all_pending [(2, 3), (3, 4)] ?m))
      = [''rebuild-b-1'', ''rebuild-a-0'']"
    using m(4-6) by (simp_all add: sort_desc_def)
  moreover obtain x y where "snd (rebuild_all_pending [(2, 3), (3, 4)] ?m) = [x, y]"
    using calculation(2) by (auto simp: map_eq_Cons_conv)
  ultimately show ?thesis using m(4,5) by (auto simp: add_eq_conv_ex)
qed

text \<open>Rebuilds that run at the same time, their halves interleaved in any way, respect the limit.\<close>

datatype rebuild_op = BeginRebuild pyfloat string | FinishRebuild pyfloat string nat

fun rebuild_step :: "rebuild_op \<Rightarrow> rebuilder \<Rightarrow> rebuilder" where
  "rebuild_step (BeginRebuild t rid) m = (case begin_rebuild t rid m of Inl e \<Rightarrow> m | Inr (m1, i) \<Rightarrow> m1)"
| "rebuild_step (FinishRebuild t rid i) m = finish_rebuild t rid i m"

interpretation rebuilding: admission wr_active wr_max_concurrent rebuild_step
proof unfold_locales
  fix opn and m :: rebuilder
  show "wr_max_concurrent (rebuild_step opn m) = wr_max_concurrent m"
    by (cases opn) (auto simp: begin_rebuild_def finish_rebuild_def Let_def split: option.split)
  show "(\<exists>k v. wr_active (rebuild_step opn m) = dput k v (wr_active m) \<and> int (length (wr_active m)) < wr_max_concurrent m)
      \<or> (\<exists>k. wr_active (rebuild_step opn m) = ddel k (wr_active m)) \<or> wr_active (rebuild_step opn m) = wr_active m"
    by (cases opn) (auto simp: begin_rebuild_def finish_rebuild_def Let_def split: option.split)
qed

text \<open>
  the repair manager settles every pending repair: a batch carries out each of them exactly once
  and leaves none pending, whichever share an id.
\<close>

theorem repair_batch_complete:
  assumes "distinct (rm_repairs m)" "list_all (\<lambda>i. i < length (rm_objs m)) (rm_repairs m)"
    and "length ts = length (pending_repairs m)"
  defines "res \<equiv> repair_all_pending ts m"
  shows "pending_repairs (fst res) = [] \<and> mset (snd res) = mset (pending_repairs m)
    \<and> rm_total_repaired (fst res) = rm_total_repaired m + length (pending_repairs m)"
proof -
  let ?ids = "map (\<lambda>i. rp_id (rm_objs m ! i)) (pending_repairs m)"
  have open_refs: "dr.open_refs (rm_repairs m) (rm_objs m) = pending_repairs m"
    by (simp add: dr.open_refs_def pending_repairs_def)
  have ids: "mset ?ids = image_mset (\<lambda>i. rp_id (rm_objs m ! i)) (mset (dr.open_refs (rm_repairs m) (rm_objs m)))"
    by (simp add: open_refs)
  have len: "length ts = length ?ids" using assms(3) by simp
  have w: "\<forall>j \<in> set (rm_repairs m). j < length (rm_objs m)" using assms(2) by (simp add: list_all_iff)
  obtain m' refs where run: "repair_each ts ?ids m = (m', refs)" by fastforce
  from repair_each_eq [OF len, of m] run
  have eq: "dr.carry_out (rm_repairs m) ts ?ids (rm_objs m) = (refs, rm_objs m')" "rm_repairs m' = rm_repairs m"
      "rm_total_repaired m' = rm_total_repaired m + length refs" by simp_all
  note all = dr.carry_out_all [OF assms(1) w len ids eq(1)]
  have res: "res = (m', refs)" unfolding res_def repair_all_pending_def by (rule run)
  have "length refs = length (pending_repairs m)" using all by (metis open_refs size_mset)
  moreover have "pending_repairs m' = dr.open_refs (rm_repairs m) (rm_objs m')"
    by (simp add: pending_repairs_def dr.open_refs_def eq(2))
  ultimately show ?thesis using all eq(3) by (simp add: res open_refs)
qed

theorem repair_batch_complete_witness:
  "pending_repairs (fst (repair_all_pending [(2, 3)] (request_repair 1 ''d'' [] ''OOM kill'' [] (new_repair_manager 500)))) = []"
proof -
  let ?m = "request_repair 1 ''d'' [] ''OOM kill'' [] (new_repair_manager 500)"
  have m: "rm_repairs ?m = [0]" "length (rm_objs ?m) = 1" "length (pending_repairs ?m) = 1" by code_simp+
  show ?thesis by (rule repair_batch_complete [THEN conjunct1]) (simp_all add: m)
qed

end
