(* ===== verification/Healing.thy ===== *)
theory Healing
  imports Repair
begin

text \<open>
  \<open>repair/failure_recovery.py\<close> (failures that are recorded, recovered, retried and escalated) and
  \<open>repair/auto_healing.py\<close> (healing actions derived from telemetry), over stores of objects as in
  theory \<open>Repair\<close>. A recovery and a healing action release the lock while they work: each is split
  there into a beginning and an end.
\<close>

section \<open>Failure recovery\<close>

datatype recovery_strategy = StRestart | StFailover | StRebuild | StRollback | StEscalate

datatype recovery_status = FDetected | FRecovering | FRecovered | FFailed | FEscalated

record failure =
  fl_id :: string
  fl_component :: string
  fl_component_type :: string
  fl_region :: string
  fl_type :: string
  fl_severity :: rat
  fl_strategy :: recovery_strategy
  fl_status :: recovery_status
  fl_retry_count :: nat
  fl_detected_at :: pyfloat
  fl_started_at :: pyfloat
  fl_recovered_at :: pyfloat
  fl_time_ms :: rat

datatype recovery_event =
    FailureDetected string string string recovery_strategy pyfloat
  | FailureRecovered string recovery_strategy rat pyfloat
  | FailureEscalated string string pyfloat

record recovery_manager =
  fm_objs :: "failure list"
  fm_failures :: "nat list"
  fm_active :: "(string, nat) dict"
  fm_max_retries :: nat
  fm_max_history :: nat
  fm_total_recovered :: nat
  fm_total_escalated :: nat
  fm_events :: "recovery_event list"

definition new_recovery_manager :: "nat \<Rightarrow> nat \<Rightarrow> recovery_manager" where
  "new_recovery_manager max_retries max_history =
     \<lparr>fm_objs = [], fm_failures = [], fm_active = [], fm_max_retries = max_retries, fm_max_history = max_history,
      fm_total_recovered = 0, fm_total_escalated = 0, fm_events = []\<rparr>"

definition select_strategy :: "nat \<Rightarrow> string \<Rightarrow> rat \<Rightarrow> nat \<Rightarrow> recovery_strategy" where
  "select_strategy max_retries ty severity retries =
     (if retries \<ge> max_retries then StEscalate
      else if severity > 9 / 10 then StFailover
      else if ty \<in> {''crash'', ''oom'', ''segfault''} then StRebuild
      else if ty \<in> {''config_error'', ''bad_deploy''} then StRollback
      else StRestart)"

definition record_failure ::
    "pyfloat \<Rightarrow> string \<Rightarrow> string \<Rightarrow> string \<Rightarrow> string \<Rightarrow> rat \<Rightarrow> recovery_manager \<Rightarrow> recovery_manager" where
  "record_failure t cid cty fty rg severity m =
     (let st = select_strategy (fm_max_retries m) fty severity 0;
          fid = stamped_id ''fail-'' cid t; i = length (fm_objs m);
          f = \<lparr>fl_id = fid, fl_component = cid, fl_component_type = cty, fl_region = rg, fl_type = fty,
               fl_severity = severity, fl_strategy = st, fl_status = FDetected, fl_retry_count = 0,
               fl_detected_at = t, fl_started_at = 0, fl_recovered_at = 0, fl_time_ms = 0\<rparr>
      in m\<lparr>fm_objs := fm_objs m @ [f],
           fm_failures := py_cap (fm_max_history m) (fm_failures m @ [i]),
           fm_active := dput fid i (fm_active m),
           fm_events := fm_events m @ [FailureDetected fid cid fty st t]\<rparr>)"

text \<open>\<open>None\<close> is the \<open>ValueError\<close> of a failure that is not active.\<close>

definition begin_recover :: "pyfloat \<Rightarrow> string \<Rightarrow> recovery_manager \<Rightarrow> (recovery_manager \<times> nat) option" where
  "begin_recover t fid m =
     (case dget (fm_active m) fid of
        None \<Rightarrow> None
      | Some i \<Rightarrow> Some (m\<lparr>fm_objs := on_obj i (\<lambda>f. f\<lparr>fl_status := FRecovering, fl_started_at := t\<rparr>) (fm_objs m)\<rparr>, i))"

definition recovered :: "pyfloat \<Rightarrow> failure \<Rightarrow> failure" where
  "recovered t f = f\<lparr>fl_status := FRecovered, fl_recovered_at := t, fl_time_ms := py_round ((t - fl_started_at f) * 1000) 1\<rparr>"

definition finish_recover :: "pyfloat \<Rightarrow> string \<Rightarrow> nat \<Rightarrow> recovery_manager \<Rightarrow> recovery_manager" where
  "finish_recover t fid i m =
     (let objs = on_obj i (recovered t) (fm_objs m)
      in m\<lparr>fm_objs := objs, fm_active := ddel fid (fm_active m), fm_total_recovered := fm_total_recovered m + 1,
           fm_events := py_cap (fm_max_history m)
             (fm_events m @ [FailureRecovered fid (fl_strategy (objs ! i)) (fl_time_ms (objs ! i)) t])\<rparr>)"

definition recover :: "pyfloat \<Rightarrow> pyfloat \<Rightarrow> string \<Rightarrow> recovery_manager \<Rightarrow> (recovery_manager \<times> nat) option" where
  "recover t t' fid m =
     (case begin_recover t fid m of None \<Rightarrow> None | Some (m1, i) \<Rightarrow> Some (finish_recover t' fid i m1, i))"

definition escalate :: "pyfloat \<Rightarrow> string \<Rightarrow> recovery_manager \<Rightarrow> (recovery_manager \<times> nat) option" where
  "escalate t fid m =
     (case dget (fm_active m) fid of
        None \<Rightarrow> None
      | Some i \<Rightarrow>
          Some (m\<lparr>fm_objs := on_obj i (\<lambda>f. f\<lparr>fl_status := FEscalated\<rparr>) (fm_objs m),
                  fm_active := ddel fid (fm_active m), fm_total_escalated := fm_total_escalated m + 1,
                  fm_events := fm_events m @ [FailureEscalated fid (fl_component (fm_objs m ! i)) t]\<rparr>, i))"

definition retried :: "nat \<Rightarrow> failure \<Rightarrow> failure" where
  "retried max_retries f =
     (let n = fl_retry_count f + 1
      in f\<lparr>fl_retry_count := n, fl_strategy := select_strategy max_retries (fl_type f) (fl_severity f) n\<rparr>)"

definition retry :: "pyfloat \<Rightarrow> pyfloat \<Rightarrow> string \<Rightarrow> recovery_manager \<Rightarrow> (recovery_manager \<times> nat) option" where
  "retry t t' fid m =
     (case dget (fm_active m) fid of
        None \<Rightarrow> None
      | Some i \<Rightarrow>
          let m1 = m\<lparr>fm_objs := on_obj i (retried (fm_max_retries m)) (fm_objs m)\<rparr>
          in if fl_strategy (fm_objs m1 ! i) = StEscalate then escalate t fid m1 else recover t t' fid m1)"

datatype recovery_op =
    RecordFailure pyfloat string string string string rat
  | Recover pyfloat pyfloat string
  | Escalate pyfloat string
  | Retry pyfloat pyfloat string

definition or_same :: "recovery_manager \<Rightarrow> (recovery_manager \<times> nat) option \<Rightarrow> recovery_manager" where
  "or_same m r = (case r of None \<Rightarrow> m | Some (m', i) \<Rightarrow> m')"

fun recovery_step :: "recovery_op \<Rightarrow> recovery_manager \<Rightarrow> recovery_manager" where
  "recovery_step (RecordFailure t c cty fty rg sev) m = record_failure t c cty fty rg sev m"
| "recovery_step (Recover t t' fid) m = or_same m (recover t t' fid m)"
| "recovery_step (Escalate t fid) m = or_same m (escalate t fid m)"
| "recovery_step (Retry t t' fid) m = or_same m (retry t t' fid m)"

text \<open>
  What holds of every failure: it was recovered, escalated, or is detected and then active under
  its id, unless a later failure has taken over the id.
\<close>

definition failure_ok :: "recovery_manager \<Rightarrow> nat \<Rightarrow> bool" where
  "failure_ok m i \<longleftrightarrow> (let f = fm_objs m ! i in
     fl_retry_count f \<le> 1
     \<and> (fl_status f = FDetected \<or> fl_status f = FRecovered \<or> fl_status f = FEscalated)
     \<and> (dget (fm_active m) (fl_id f) = Some i \<longleftrightarrow> fl_status f = FDetected
          \<and> (\<forall>j. i < j \<longrightarrow> j < length (fm_objs m) \<longrightarrow> fl_id (fm_objs m ! j) \<noteq> fl_id f))
     \<and> (fl_status f = FDetected \<longrightarrow> fl_retry_count f = 0))"

definition statuses :: "recovery_status \<Rightarrow> recovery_manager \<Rightarrow> nat" where
  "statuses st m = length (filter (\<lambda>f. fl_status f = st) (fm_objs m))"

definition recovery_inv :: "recovery_manager \<Rightarrow> bool" where
  "recovery_inv m \<longleftrightarrow> (\<forall>i < length (fm_objs m). failure_ok m i)
     \<and> (\<forall>fid i. dget (fm_active m) fid = Some i \<longrightarrow> i < length (fm_objs m) \<and> fl_id (fm_objs m ! i) = fid)
     \<and> fm_total_recovered m = statuses FRecovered m \<and> fm_total_escalated m = statuses FEscalated m"

lemma active_detected:
  assumes "recovery_inv m" "dget (fm_active m) fid = Some i"
  shows "i < length (fm_objs m)" "fl_id (fm_objs m ! i) = fid" "fl_status (fm_objs m ! i) = FDetected"
    "fl_retry_count (fm_objs m ! i) = 0"
proof -
  show i: "i < length (fm_objs m)" "fl_id (fm_objs m ! i) = fid" using assms unfolding recovery_inv_def by blast+
  then have "failure_ok m i" using assms(1) unfolding recovery_inv_def by blast
  with i assms(2) show "fl_status (fm_objs m ! i) = FDetected" "fl_retry_count (fm_objs m ! i) = 0"
    unfolding failure_ok_def Let_def by blast+
qed

text \<open>Taking an active failure out of the table with its final status.\<close>

lemma settle_inv:
  assumes inv: "recovery_inv m" and act: "dget (fm_active m) fid = Some i"
    and objs: "fm_objs m' = on_obj i g (fm_objs m)" and active: "fm_active m' = ddel fid (fm_active m)"
    and g: "\<And>f. fl_id (g f) = fl_id f" "fl_retry_count (g (fm_objs m ! i)) \<le> 1"
    and st: "fl_status (g (fm_objs m ! i)) = FRecovered \<and> fm_total_recovered m' = fm_total_recovered m + 1
        \<and> fm_total_escalated m' = fm_total_escalated m
      \<or> fl_status (g (fm_objs m ! i)) = FEscalated \<and> fm_total_recovered m' = fm_total_recovered m
        \<and> fm_total_escalated m' = fm_total_escalated m + 1"
  shows "recovery_inv m'"
proof -
  note a = active_detected [OF inv act]
  have nth: "fm_objs m' ! j = (if j = i then g (fm_objs m ! i) else fm_objs m ! j)" for j
    by (simp add: objs nth_on_obj [OF a(1)])
  have len: "length (fm_objs m') = length (fm_objs m)" by (simp add: objs)
  have id: "fl_id (fm_objs m' ! j) = fl_id (fm_objs m ! j)" for j by (simp add: nth g(1))
  have other: "fl_id (fm_objs m ! j) \<noteq> fid" if "dget (fm_active m) (fl_id (fm_objs m ! j)) = Some j" "j \<noteq> i" for j
    using act that by auto
  have latest: "fl_id (fm_objs m ! j) \<noteq> fid" if "i < j" "j < length (fm_objs m)" for j
  proof -
    have "failure_ok m i" using inv a(1) unfolding recovery_inv_def by blast
    then show ?thesis using that act a(2) unfolding failure_ok_def Let_def by metis
  qed
  have "failure_ok m' j" if j: "j < length (fm_objs m')" for j
  proof (cases "j = i")
    case True
    have "fl_status (g (fm_objs m ! i)) \<noteq> FDetected" using st by auto
    moreover have "dget (fm_active m') (fl_id (fm_objs m' ! i)) = None" by (simp add: active id a(2))
    ultimately show ?thesis using g(2) st by (auto simp: failure_ok_def Let_def nth True)
  next
    case False
    have ok: "failure_ok m j" using inv j len unfolding recovery_inv_def by simp
    have "dget (fm_active m') (fl_id (fm_objs m ! j)) = Some j \<longleftrightarrow> dget (fm_active m) (fl_id (fm_objs m ! j)) = Some j"
      using other [of j] False by (auto simp: active)
    with ok False show ?thesis by (simp add: failure_ok_def Let_def id len) (simp add: nth)
  qed
  moreover have "j < length (fm_objs m') \<and> fl_id (fm_objs m' ! j) = k" if "dget (fm_active m') k = Some j" for k j
    using inv that unfolding recovery_inv_def len id by (simp add: active split: if_splits)
  moreover have "fm_total_recovered m' = statuses FRecovered m' \<and> fm_total_escalated m' = statuses FEscalated m'"
    using inv st a(3) count_on_obj [OF a(1), of "\<lambda>f. fl_status f = FRecovered" g]
      count_on_obj [OF a(1), of "\<lambda>f. fl_status f = FEscalated" g]
    by (auto simp: statuses_def objs recovery_inv_def)
  ultimately show ?thesis unfolding recovery_inv_def by blast
qed

lemma recover_eq:
  assumes "recovery_inv m" "dget (fm_active m) fid = Some i"
  shows "\<exists>m'. recover t t' fid m = Some (m', i) \<and> fm_active m' = ddel fid (fm_active m)
    \<and> fm_objs m' = on_obj i (\<lambda>f. recovered t' (f\<lparr>fl_status := FRecovering, fl_started_at := t\<rparr>)) (fm_objs m)
    \<and> fm_total_recovered m' = fm_total_recovered m + 1 \<and> fm_total_escalated m' = fm_total_escalated m"
  using assms active_detected(1) [OF assms]
  by (simp add: recover_def begin_recover_def finish_recover_def Let_def on_obj_def)

lemma recover_inv: "recovery_inv m \<Longrightarrow> recover t t' fid m = Some (m', i) \<Longrightarrow> recovery_inv m'"
proof -
  assume inv: "recovery_inv m" and rec: "recover t t' fid m = Some (m', i)"
  then have act: "dget (fm_active m) fid = Some i"
    by (auto simp: recover_def begin_recover_def split: option.splits)
  note eq = recover_eq [OF inv act, of t t'] and a = active_detected [OF inv act]
  show "recovery_inv m'"
    by (rule settle_inv [OF inv act, where g = "\<lambda>f. recovered t' (f\<lparr>fl_status := FRecovering, fl_started_at := t\<rparr>)"])
      (use eq rec a in \<open>simp_all add: recovered_def\<close>)
qed

lemma escalate_inv: "recovery_inv m \<Longrightarrow> escalate t fid m = Some (m', i) \<Longrightarrow> recovery_inv m'"
proof -
  assume inv: "recovery_inv m" and esc: "escalate t fid m = Some (m', i)"
  then have act: "dget (fm_active m) fid = Some i" by (auto simp: escalate_def split: option.splits)
  note a = active_detected [OF inv act]
  show "recovery_inv m'"
    by (rule settle_inv [OF inv act, where g = "\<lambda>f. f\<lparr>fl_status := FEscalated\<rparr>"])
      (use esc act a in \<open>auto simp: escalate_def\<close>)
qed

lemma retry_inv: "recovery_inv m \<Longrightarrow> retry t t' fid m = Some (m', i) \<Longrightarrow> recovery_inv m'"
proof -
  assume inv: "recovery_inv m" and ret: "retry t t' fid m = Some (m', i)"
  then have "dget (fm_active m) fid \<noteq> None" by (cases "dget (fm_active m) fid") (simp_all add: retry_def)
  then obtain k where act: "dget (fm_active m) fid = Some k" by blast
  note a = active_detected [OF inv act]
  let ?m = "m\<lparr>fm_objs := on_obj k (retried (fm_max_retries m)) (fm_objs m)\<rparr>"
  have id: "fl_id (retried n f) = fl_id f" "fl_retry_count (retried n f) = Suc (fl_retry_count f)" for n f
    by (simp_all add: retried_def Let_def)
  show "recovery_inv m'"
  proof (cases "fl_strategy (fm_objs ?m ! k) = StEscalate")
    case True
    then have esc: "escalate t fid ?m = Some (m', i)" using ret act by (simp add: retry_def Let_def)
    show ?thesis
      by (rule settle_inv [OF inv act, where g = "\<lambda>f. (retried (fm_max_retries m) f)\<lparr>fl_status := FEscalated\<rparr>"])
        (use esc act a id in \<open>auto simp: escalate_def on_obj_def\<close>)
  next
    case False
    then have rec: "recover t t' fid ?m = Some (m', i)" using ret act by (simp add: retry_def Let_def)
    show ?thesis
      by (rule settle_inv [OF inv act, where g =
            "\<lambda>f. recovered t' ((retried (fm_max_retries m) f)\<lparr>fl_status := FRecovering, fl_started_at := t\<rparr>)"])
        (use rec act a id in \<open>auto simp: recover_def begin_recover_def finish_recover_def Let_def recovered_def on_obj_def\<close>)
  qed
qed

lemma record_inv:
  assumes inv: "recovery_inv m"
  shows "recovery_inv (record_failure t cid cty fty rg sev m)"
proof -
  let ?n = "length (fm_objs m)" and ?fid = "stamped_id ''fail-'' cid t"
  let ?m = "record_failure t cid cty fty rg sev m"
  obtain f where objs: "fm_objs ?m = fm_objs m @ [f]" and f: "fl_id f = ?fid" "fl_status f = FDetected" "fl_retry_count f = 0"
    by (simp add: record_failure_def Let_def)
  have act: "fm_active ?m = dput ?fid ?n (fm_active m)" by (simp add: record_failure_def Let_def)
  have tot: "fm_total_recovered ?m = fm_total_recovered m" "fm_total_escalated ?m = fm_total_escalated m"
    by (simp_all add: record_failure_def Let_def)
  have "failure_ok ?m i" if i: "i < length (fm_objs ?m)" for i
  proof (cases "i = ?n")
    case True
    then show ?thesis by (simp add: failure_ok_def Let_def objs act f)
  next
    case False
    then have lt: "i < ?n" using i by (simp add: objs)
    then have ok: "failure_ok m i" using inv unfolding recovery_inv_def by blast
    have nth: "fm_objs ?m ! j = (if j = ?n then f else fm_objs m ! j)" if "j \<le> ?n" for j
      using that by (auto simp: objs nth_append)
    have later: "(\<forall>j. i < j \<longrightarrow> j < length (fm_objs ?m) \<longrightarrow> fl_id (fm_objs ?m ! j) \<noteq> fl_id (fm_objs m ! i))
        \<longleftrightarrow> (\<forall>j. i < j \<longrightarrow> j < ?n \<longrightarrow> fl_id (fm_objs m ! j) \<noteq> fl_id (fm_objs m ! i)) \<and> fl_id (fm_objs m ! i) \<noteq> ?fid"
    proof (intro iffI conjI allI impI)
      fix j assume h: "\<forall>j. i < j \<longrightarrow> j < length (fm_objs ?m) \<longrightarrow> fl_id (fm_objs ?m ! j) \<noteq> fl_id (fm_objs m ! i)"
        and j: "i < j" "j < ?n"
      from h j have "fl_id (fm_objs ?m ! j) \<noteq> fl_id (fm_objs m ! i)" by (simp add: objs)
      then show "fl_id (fm_objs m ! j) \<noteq> fl_id (fm_objs m ! i)" using nth [of j] j by simp
    next
      assume h: "\<forall>j. i < j \<longrightarrow> j < length (fm_objs ?m) \<longrightarrow> fl_id (fm_objs ?m ! j) \<noteq> fl_id (fm_objs m ! i)"
      have "?n < length (fm_objs ?m)" by (simp add: objs)
      with h lt have "fl_id (fm_objs ?m ! ?n) \<noteq> fl_id (fm_objs m ! i)" by blast
      then show "fl_id (fm_objs m ! i) \<noteq> ?fid" using f(1) by (simp add: objs)
    next
      fix j assume h: "(\<forall>j. i < j \<longrightarrow> j < ?n \<longrightarrow> fl_id (fm_objs m ! j) \<noteq> fl_id (fm_objs m ! i)) \<and> fl_id (fm_objs m ! i) \<noteq> ?fid"
        and j: "i < j" "j < length (fm_objs ?m)"
      then have "j \<le> ?n" by (simp add: objs)
      with h j nth [of j] f(1) show "fl_id (fm_objs ?m ! j) \<noteq> fl_id (fm_objs m ! i)" by (cases "j = ?n") auto
    qed
    have same: "fm_objs ?m ! i = fm_objs m ! i" using nth [of i] lt by simp
    have act_iff: "dget (fm_active ?m) (fl_id (fm_objs m ! i)) = Some i \<longleftrightarrow>
        dget (fm_active m) (fl_id (fm_objs m ! i)) = Some i \<and> fl_id (fm_objs m ! i) \<noteq> ?fid"
      using lt by (auto simp: act)
    show ?thesis using ok unfolding failure_ok_def Let_def same later act_iff by blast
  qed
  moreover have "i < length (fm_objs ?m) \<and> fl_id (fm_objs ?m ! i) = k" if "dget (fm_active ?m) k = Some i" for k i
  proof (cases "k = ?fid")
    case True
    with that have "i = ?n" by (simp add: act)
    with True f(1) show ?thesis by (simp only: objs nth_append_length) simp
  next
    case False
    then have "dget (fm_active m) k = Some i" using that by (simp add: act)
    then have "i < ?n \<and> fl_id (fm_objs m ! i) = k" using inv unfolding recovery_inv_def by blast
    then show ?thesis by (simp add: objs nth_append)
  qed
  moreover have "fm_total_recovered ?m = statuses FRecovered ?m" "fm_total_escalated ?m = statuses FEscalated ?m"
    using inv f(2) unfolding tot by (simp_all add: statuses_def objs recovery_inv_def)
  ultimately show ?thesis unfolding recovery_inv_def by blast
qed

lemma or_same_inv: "P m \<Longrightarrow> (\<And>m' i. r = Some (m', i) \<Longrightarrow> P m') \<Longrightarrow> P (or_same m r)"
  by (simp add: or_same_def split: option.split)

lemma recovery_step_inv: "recovery_inv m \<Longrightarrow> recovery_inv (recovery_step opn m)"
proof (cases opn)
  case (Recover t t' fid)
  assume "recovery_inv m"
  with Recover recover_inv show ?thesis by (simp only: recovery_step.simps) (rule or_same_inv)
next
  case (Escalate t fid)
  assume "recovery_inv m"
  with Escalate escalate_inv show ?thesis by (simp only: recovery_step.simps) (rule or_same_inv)
next
  case (Retry t t' fid)
  assume "recovery_inv m"
  with Retry retry_inv show ?thesis by (simp only: recovery_step.simps) (rule or_same_inv)
qed (simp add: record_inv)

lemma recovery_run_inv: "recovery_inv (fold recovery_step ops (new_recovery_manager n h))"
proof (rule fold_inv [where P = recovery_inv])
  show "recovery_inv (new_recovery_manager n h)"
    by (simp add: recovery_inv_def new_recovery_manager_def statuses_def)
qed (rule recovery_step_inv)

lemma count_three:
  "\<forall>x \<in> set xs. f x = a \<or> f x = b \<or> f x = c \<Longrightarrow> a \<noteq> b \<Longrightarrow> a \<noteq> c \<Longrightarrow> b \<noteq> c \<Longrightarrow>
    length (filter (\<lambda>x. f x = a) xs) + length (filter (\<lambda>x. f x = b) xs) + length (filter (\<lambda>x. f x = c) xs) = length xs"
  by (induction xs) auto


text \<open>
  C29: a retry is decided at once: for a failure that is active it ends in recovery, and in escalation
  only when the limit of retries is at most one, however high the limit is set; for any other id it
  is an error and changes nothing.
\<close>

theorem retry_outcome:
  "let m = fold recovery_step ops (new_recovery_manager max_retries max_history) in
   case dget (fm_active m) fid of
     None \<Rightarrow> retry t t' fid m = None \<and> recover t t' fid m = None \<and> escalate t fid m = None
   | Some i \<Rightarrow> (\<exists>m'. retry t t' fid m = Some (m', i) \<and> dget (fm_active m') fid = None
       \<and> fl_status (fm_objs m' ! i) = (if max_retries \<le> 1 then FEscalated else FRecovered))"
proof -
  define m where "m = fold recovery_step ops (new_recovery_manager max_retries max_history)"
  have inv: "recovery_inv m" unfolding m_def by (rule recovery_run_inv)
  have step: "fm_max_retries (recovery_step opn k) = fm_max_retries k" for opn k
    by (cases opn) (auto simp: or_same_def record_failure_def recover_def begin_recover_def finish_recover_def
        escalate_def retry_def Let_def split: option.splits if_splits)
  have limit: "fm_max_retries m = max_retries"
    unfolding m_def by (rule fold_inv [where P = "\<lambda>k. fm_max_retries k = max_retries"])
      (simp_all add: step new_recovery_manager_def)
  show ?thesis
  proof (cases "dget (fm_active m) fid")
    case None
    then show ?thesis
      unfolding m_def [symmetric] Let_def by (simp add: retry_def recover_def begin_recover_def escalate_def)
  next
    case (Some i)
    note a = active_detected [OF inv Some]
    have strat: "fl_strategy (retried (fm_max_retries m) (fm_objs m ! i)) = StEscalate \<longleftrightarrow> max_retries \<le> 1"
      using a(4) by (simp add: retried_def Let_def select_strategy_def limit)
    show ?thesis
      unfolding m_def [symmetric] Let_def using Some a(1) strat
      by (simp add: retry_def Let_def nth_on_obj on_obj_def recover_def begin_recover_def finish_recover_def
          escalate_def recovered_def)
  qed
qed

text \<open>A failure whose id a later one took over stays detected for ever.\<close>

definition orphaned :: "nat \<Rightarrow> recovery_manager \<Rightarrow> bool" where
  "orphaned i m \<longleftrightarrow> i < length (fm_objs m) \<and> fl_status (fm_objs m ! i) = FDetected
     \<and> (\<forall>fid. dget (fm_active m) fid \<noteq> Some i)"

lemma orphaned_settle:
  assumes "orphaned i m" "dget (fm_active m) fid = Some k"
    and "fm_objs m' = on_obj k g (fm_objs m)" "fm_active m' = ddel fid (fm_active m)"
  shows "orphaned i m'"
proof -
  have "i \<noteq> k" using assms(1,2) unfolding orphaned_def by blast
  then have "fm_objs m' ! i = fm_objs m ! i" by (simp add: assms(3) on_obj_def)
  with assms(1,3,4) show ?thesis by (simp add: orphaned_def)
qed

lemma orphaned_step: "orphaned i m \<Longrightarrow> orphaned i (recovery_step opn m)"
proof (cases opn)
  case (RecordFailure t c cty fty rg sev)
  assume "orphaned i m"
  with RecordFailure show ?thesis by (auto simp: orphaned_def record_failure_def Let_def nth_append)
next
  case (Recover t t' fid)
  assume o: "orphaned i m"
  show ?thesis
  proof (cases "dget (fm_active m) fid")
    case (Some k)
    have "\<exists>m' g. recover t t' fid m = Some (m', k) \<and> fm_objs m' = on_obj k g (fm_objs m) \<and> fm_active m' = ddel fid (fm_active m)"
      using Some by (auto simp: recover_def begin_recover_def finish_recover_def Let_def on_obj_def)
    with orphaned_settle [OF o Some] Recover show ?thesis by (auto simp: or_same_def)
  qed (use o Recover in \<open>simp add: or_same_def recover_def begin_recover_def\<close>)
next
  case (Escalate t fid)
  assume o: "orphaned i m"
  show ?thesis
  proof (cases "dget (fm_active m) fid")
    case (Some k)
    have "\<exists>m' g. escalate t fid m = Some (m', k) \<and> fm_objs m' = on_obj k g (fm_objs m) \<and> fm_active m' = ddel fid (fm_active m)"
      using Some by (auto simp: escalate_def)
    with orphaned_settle [OF o Some] Escalate show ?thesis by (auto simp: or_same_def)
  qed (use o Escalate in \<open>simp add: or_same_def escalate_def\<close>)
next
  case (Retry t t' fid)
  assume o: "orphaned i m"
  show ?thesis
  proof (cases "dget (fm_active m) fid")
    case (Some k)
    have "\<exists>m' g. retry t t' fid m = Some (m', k) \<and> fm_objs m' = on_obj k g (fm_objs m) \<and> fm_active m' = ddel fid (fm_active m)"
      using Some by (auto simp: retry_def recover_def begin_recover_def finish_recover_def escalate_def Let_def on_obj_def
          nth_list_update split: if_splits)
    with orphaned_settle [OF o Some] Retry show ?thesis by (auto simp: or_same_def)
  qed (use o Retry in \<open>simp add: or_same_def retry_def\<close>)
qed

lemma collided_failure_stuck: "orphaned i m \<Longrightarrow> orphaned i (fold recovery_step ops m)"
  by (rule fold_inv [where P = "orphaned i"]) (rule orphaned_step)

text \<open>Two recoveries of one failure whose halves interleave count it twice.\<close>

lemma concurrent_recovery_counts_twice:
  assumes "begin_recover t fid m = Some (m1, i)" "begin_recover t' fid m1 = Some (m2, i')"
  shows "i' = i \<and> fm_total_recovered (finish_recover u fid i' (finish_recover v fid i m2)) = fm_total_recovered m + 2"
  using assms by (auto simp: begin_recover_def finish_recover_def Let_def split: option.splits)

section \<open>Healing actions\<close>

datatype healing_type =
    RestartDeployment | ReplaceNode | RerouteWorkload | RebuildService | RestoreReplica | IsolateRegion | RollbackChange

datatype healing_status = HPending | HExecuting | HCompleted | HFailed | HRolledBack

datatype healing_priority = PLow | PMedium | PHigh | PCritical

record healing_action =
  ha_id :: string
  ha_type :: healing_type
  ha_status :: healing_status
  ha_priority :: healing_priority
  ha_target :: string
  ha_target_type :: string
  ha_region :: string
  ha_created_at :: pyfloat
  ha_started_at :: pyfloat
  ha_completed_at :: pyfloat
  ha_result :: string

datatype healing_event =
    HealingCompleted string healing_type string string rat pyfloat
  | HealingRolledBack string pyfloat

record auto_healing =
  ah_max_concurrent :: int
  ah_max_history :: nat
  ah_objs :: "healing_action list"
  ah_actions :: "nat list"
  ah_active :: "(string, nat) dict"
  ah_total_healed :: nat
  ah_total_rollbacks :: nat
  ah_events :: "healing_event list"

definition new_auto_healing :: "int \<Rightarrow> nat \<Rightarrow> auto_healing" where
  "new_auto_healing max_concurrent max_history =
     \<lparr>ah_max_concurrent = max_concurrent, ah_max_history = max_history, ah_objs = [], ah_actions = [],
      ah_active = [], ah_total_healed = 0, ah_total_rollbacks = 0, ah_events = []\<rparr>"

text \<open>Telemetry, with the defaults that the code fills in for missing fields.\<close>

record report =
  re_id :: string
  re_status :: string
  re_error_rate :: rat
  re_restarts :: int
  re_region :: string

record healing_telemetry =
  te_deployments :: "report list"
  te_nodes :: "report list"
  te_services :: "report list"
  te_replicas :: "report list"
  te_regions :: "report list"

definition new_action ::
    "pyfloat \<Rightarrow> string \<Rightarrow> healing_type \<Rightarrow> healing_priority \<Rightarrow> string \<Rightarrow> string \<Rightarrow> string \<Rightarrow> healing_action" where
  "new_action t prefix ty priority target target_type rg =
     \<lparr>ha_id = stamped_id prefix target t, ha_type = ty, ha_status = HPending, ha_priority = priority,
      ha_target = target, ha_target_type = target_type, ha_region = rg, ha_created_at = t,
      ha_started_at = 0, ha_completed_at = 0, ha_result = []\<rparr>"

definition deployment_action :: "pyfloat \<Rightarrow> report \<Rightarrow> healing_action list" where
  "deployment_action t d =
     (if re_status d = ''failed'' \<or> re_error_rate d > 1 / 2
      then [new_action t ''heal-deploy-'' RestartDeployment
              (if re_status d = ''failed'' then PCritical else PHigh) (re_id d) ''deployment'' (re_region d)]
      else [])"

definition node_action :: "pyfloat \<Rightarrow> report \<Rightarrow> healing_action list" where
  "node_action t n =
     (if re_status n = ''failed''
      then [new_action t ''heal-node-'' ReplaceNode PCritical (re_id n) ''node'' (re_region n)]
      else if re_restarts n > 5
      then [new_action t ''heal-unstable-'' RerouteWorkload PHigh (re_id n) ''node'' (re_region n)]
      else [])"

definition service_action :: "pyfloat \<Rightarrow> report \<Rightarrow> healing_action list" where
  "service_action t s =
     (if re_status s = ''crashed''
      then [new_action t ''heal-svc-'' RebuildService PCritical (re_id s) ''service'' (re_region s)] else [])"

definition replica_action :: "pyfloat \<Rightarrow> report \<Rightarrow> healing_action list" where
  "replica_action t r =
     (if re_status r = ''lost''
      then [new_action t ''heal-replica-'' RestoreReplica PHigh (re_id r) ''replica'' (re_region r)] else [])"

definition region_action :: "pyfloat \<Rightarrow> report \<Rightarrow> healing_action list" where
  "region_action t r =
     (if re_error_rate r > 8 / 10
      then [new_action t ''heal-isolate-'' IsolateRegion PCritical (re_id r) ''region'' (re_id r)] else [])"

fun priority_rank :: "healing_priority \<Rightarrow> nat" where
  "priority_rank PCritical = 0"
| "priority_rank PHigh = 1"
| "priority_rank PMedium = 2"
| "priority_rank PLow = 3"

definition detected_actions :: "pyfloat \<Rightarrow> healing_telemetry \<Rightarrow> healing_action list" where
  "detected_actions t te =
     sort_key (\<lambda>a. priority_rank (ha_priority a))
       (concat (map (deployment_action t) (te_deployments te)) @ concat (map (node_action t) (te_nodes te))
        @ concat (map (service_action t) (te_services te)) @ concat (map (replica_action t) (te_replicas te))
        @ concat (map (region_action t) (te_regions te)))"

definition detect_failures :: "pyfloat \<Rightarrow> healing_telemetry \<Rightarrow> auto_healing \<Rightarrow> auto_healing \<times> nat list" where
  "detect_failures t te s =
     (let acts = detected_actions t te; refs = [length (ah_objs s)..<length (ah_objs s) + length acts]
      in (s\<lparr>ah_objs := ah_objs s @ acts, ah_actions := py_cap (ah_max_history s) (ah_actions s @ refs)\<rparr>, refs))"

text \<open>The two halves of \<open>execute_action\<close>; \<open>None\<close> is the refusal at the concurrency limit.\<close>

definition begin_action :: "pyfloat \<Rightarrow> nat \<Rightarrow> auto_healing \<Rightarrow> auto_healing option" where
  "begin_action t i s =
     (if int (length (ah_active s)) \<ge> ah_max_concurrent s then None
      else Some (s\<lparr>ah_objs := on_obj i (\<lambda>a. a\<lparr>ha_status := HExecuting, ha_started_at := t\<rparr>) (ah_objs s),
                   ah_active := dput (ha_id (ah_objs s ! i)) i (ah_active s)\<rparr>))"

definition finish_action :: "pyfloat \<Rightarrow> nat \<Rightarrow> auto_healing \<Rightarrow> auto_healing" where
  "finish_action t i s =
     (let objs = on_obj i (\<lambda>a. a\<lparr>ha_status := HCompleted, ha_completed_at := t, ha_result := ''healed''\<rparr>) (ah_objs s);
          a = objs ! i
      in s\<lparr>ah_objs := objs, ah_active := ddel (ha_id a) (ah_active s), ah_total_healed := ah_total_healed s + 1,
           ah_events := py_cap (ah_max_history s) (ah_events s @
             [HealingCompleted (ha_id a) (ha_type a) (ha_target a) (ha_region a)
                (py_round ((t - ha_started_at a) * 1000) 1) t])\<rparr>)"

definition execute_action :: "pyfloat \<times> pyfloat \<Rightarrow> nat \<Rightarrow> auto_healing \<Rightarrow> auto_healing" where
  "execute_action t i s = (case begin_action (fst t) i s of None \<Rightarrow> s | Some s1 \<Rightarrow> finish_action (snd t) i s1)"

fun execute_each :: "(pyfloat \<times> pyfloat) list \<Rightarrow> nat list \<Rightarrow> auto_healing \<Rightarrow> auto_healing" where
  "execute_each (t # ts) (i # is) s = execute_each ts is (execute_action t i s)"
| "execute_each _ _ s = s"

definition heal :: "pyfloat \<Rightarrow> (pyfloat \<times> pyfloat) list \<Rightarrow> healing_telemetry \<Rightarrow> auto_healing \<Rightarrow> auto_healing \<times> nat list" where
  "heal t ts te s = (let (s1, refs) = detect_failures t te s in (execute_each ts refs s1, refs))"

definition rollback_action :: "pyfloat \<Rightarrow> string \<Rightarrow> auto_healing \<Rightarrow> auto_healing \<times> bool" where
  "rollback_action t aid s =
     (case find (\<lambda>i. ha_id (ah_objs s ! i) = aid \<and> ha_status (ah_objs s ! i) = HCompleted) (ah_actions s) of
        None \<Rightarrow> (s, False)
      | Some i \<Rightarrow> (s\<lparr>ah_objs := on_obj i (\<lambda>a. a\<lparr>ha_status := HRolledBack\<rparr>) (ah_objs s),
                     ah_total_rollbacks := ah_total_rollbacks s + 1,
                     ah_events := ah_events s @ [HealingRolledBack aid t]\<rparr>, True))"

datatype healing_op = BeginAction pyfloat nat | FinishAction pyfloat nat

fun healing_step :: "healing_op \<Rightarrow> auto_healing \<Rightarrow> auto_healing" where
  "healing_step (BeginAction t i) s = (case begin_action t i s of None \<Rightarrow> s | Some s1 \<Rightarrow> s1)"
| "healing_step (FinishAction t i) s = finish_action t i s"

interpretation healing: admission ah_active ah_max_concurrent healing_step
proof unfold_locales
  fix opn and s :: auto_healing
  show "ah_max_concurrent (healing_step opn s) = ah_max_concurrent s"
    by (cases opn) (auto simp: begin_action_def finish_action_def Let_def)
  show "(\<exists>k v. ah_active (healing_step opn s) = dput k v (ah_active s) \<and> int (length (ah_active s)) < ah_max_concurrent s)
      \<or> (\<exists>k. ah_active (healing_step opn s) = ddel k (ah_active s)) \<or> ah_active (healing_step opn s) = ah_active s"
    by (cases opn) (auto simp: begin_action_def finish_action_def Let_def)
qed

text \<open>
  at any time no more healing actions and no more rebuilds are under way than their limits
  allow, however the beginnings and ends of concurrent callers interleave.
\<close>

theorem repair_concurrency_bounded:
  "int (length (ah_active (fold healing_step ops (new_auto_healing limit h)))) \<le> max 0 limit
   \<and> int (length (wr_active (fold rebuild_step ops' ((fold (\<lambda>(t, w, rg, tg, rs, pr, pri). request_rebuild t w rg tg rs pr pri)
        reqs (new_rebuilder limit h)))))) \<le> max 0 limit"
proof
  show "int (length (ah_active (fold healing_step ops (new_auto_healing limit h)))) \<le> max 0 limit"
    using healing.within_limit [of "new_auto_healing limit h" ops] by (simp add: new_auto_healing_def)
  let ?m = "fold (\<lambda>(t, w, rg, tg, rs, pr, pri). request_rebuild t w rg tg rs pr pri) reqs (new_rebuilder limit h)"
  have "wr_active ?m = [] \<and> wr_max_concurrent ?m = limit"
    by (rule fold_inv [where P = "\<lambda>m. wr_active m = [] \<and> wr_max_concurrent m = limit"])
      (auto simp: request_rebuild_def new_rebuilder_def Let_def)
  then show "int (length (wr_active (fold rebuild_step ops' ?m))) \<le> max 0 limit"
    using rebuilding.within_limit [of ?m ops'] by simp
qed

lemma execute_action_open:
  assumes "ah_active s = []" "0 < ah_max_concurrent s" "i < length (ah_objs s)"
  shows "ah_active (execute_action t i s) = [] \<and> ah_max_concurrent (execute_action t i s) = ah_max_concurrent s
    \<and> ah_total_healed (execute_action t i s) = ah_total_healed s + 1
    \<and> ah_objs (execute_action t i s) = on_obj i (\<lambda>a. a\<lparr>ha_started_at := fst t, ha_status := HCompleted,
        ha_completed_at := snd t, ha_result := ''healed''\<rparr>) (ah_objs s)"
  using assms by (simp add: execute_action_def begin_action_def finish_action_def Let_def on_obj_def)

lemma execute_each_open:
  assumes "ah_active s = []" "0 < ah_max_concurrent s" "\<forall>i \<in> set refs. i < length (ah_objs s)" "distinct refs"
    "length ts = length refs"
  shows "ah_active (execute_each ts refs s) = [] \<and> length (ah_objs (execute_each ts refs s)) = length (ah_objs s)
    \<and> ah_total_healed (execute_each ts refs s) = ah_total_healed s + length refs
    \<and> (\<forall>j < length (ah_objs s). let a = ah_objs s ! j; b = ah_objs (execute_each ts refs s) ! j in
        if j \<in> set refs then ha_status b = HCompleted \<and> ha_type b = ha_type a \<and> ha_target b = ha_target a
          \<and> ha_priority b = ha_priority a else b = a)"
  using assms
proof (induction ts refs s rule: execute_each.induct)
  case (1 t ts i "is" s)
  let ?s = "execute_action t i s"
  have i: "i < length (ah_objs s)" using "1.prems"(3) by simp
  note open1 = execute_action_open [OF "1.prems"(1,2) i, of t]
  have len: "length (ah_objs ?s) = length (ah_objs s)" using open1 by simp
  have nth: "ah_objs ?s ! j = (if j = i then (ah_objs s ! i)\<lparr>ha_started_at := fst t, ha_status := HCompleted,
        ha_completed_at := snd t, ha_result := ''healed''\<rparr> else ah_objs s ! j)" for j
    using open1 by (simp add: nth_on_obj [OF i])
  have IH: "ah_active (execute_each ts is ?s) = [] \<and> length (ah_objs (execute_each ts is ?s)) = length (ah_objs ?s)
    \<and> ah_total_healed (execute_each ts is ?s) = ah_total_healed ?s + length is
    \<and> (\<forall>j < length (ah_objs ?s). let a = ah_objs ?s ! j; b = ah_objs (execute_each ts is ?s) ! j in
        if j \<in> set is then ha_status b = HCompleted \<and> ha_type b = ha_type a \<and> ha_target b = ha_target a
          \<and> ha_priority b = ha_priority a else b = a)"
    by (rule "1.IH") (use open1 "1.prems" len in simp_all)
  have "i \<notin> set is" using "1.prems"(4) by simp
  then have "let a = ah_objs s ! j; b = ah_objs (execute_each ts is ?s) ! j in
        if j \<in> set (i # is) then ha_status b = HCompleted \<and> ha_type b = ha_type a \<and> ha_target b = ha_target a
          \<and> ha_priority b = ha_priority a else b = a" if "j < length (ah_objs s)" for j
    using IH that len by (auto simp: Let_def nth split: if_splits)
  with IH open1 len show ?case by simp
qed (auto simp: Let_def)

lemma execute_each_refused:
  "ah_max_concurrent s \<le> 0 \<Longrightarrow> execute_each ts refs s = s"
  by (induction ts refs s rule: execute_each.induct) (simp_all add: execute_action_def begin_action_def)

text \<open>
  healing acts on exactly what the telemetry reports: it creates the action each failing
  deployment, node, service, replica and region calls for, the critical ones first, and completes
  all of them when the concurrency limit is positive; with a limit of zero it completes none.
\<close>

theorem heal_settles:
  assumes "ah_active s = []" "length ts = length (detected_actions t te)"
  shows "let (s', refs) = heal t ts te s; acts = detected_actions t te in
    length refs = length acts
    \<and> map (\<lambda>i. (ha_type (ah_objs s' ! i), ha_target (ah_objs s' ! i))) refs = map (\<lambda>a. (ha_type a, ha_target a)) acts
    \<and> sorted (map (\<lambda>i. priority_rank (ha_priority (ah_objs s' ! i))) refs)
    \<and> list_all (\<lambda>i. ha_status (ah_objs s' ! i) = (if 0 < ah_max_concurrent s then HCompleted else HPending)) refs
    \<and> ah_total_healed s' = ah_total_healed s + (if 0 < ah_max_concurrent s then length acts else 0)"
proof -
  let ?acts = "detected_actions t te" and ?n = "length (ah_objs s)"
  let ?s1 = "fst (detect_failures t te s)"
  let ?refs = "[?n..<?n + length ?acts]"
  have s1: "ah_objs ?s1 = ah_objs s @ ?acts" "ah_active ?s1 = []" "ah_max_concurrent ?s1 = ah_max_concurrent s"
      "ah_total_healed ?s1 = ah_total_healed s" "snd (detect_failures t te s) = ?refs"
    by (simp_all add: detect_failures_def Let_def assms(1))
  have run: "heal t ts te s = (execute_each ts ?refs ?s1, ?refs)"
    using s1(5) by (simp add: heal_def case_prod_unfold Let_def)
  have new: "ah_objs ?s1 ! i = ?acts ! (i - ?n)" if "i \<in> set ?refs" for i
    using that by (simp add: s1(1) nth_append)
  have pend: "ha_status a = HPending" if "a \<in> set ?acts" for a
    using that by (auto simp: detected_actions_def deployment_action_def node_action_def service_action_def
        replica_action_def region_action_def new_action_def split: if_splits)
  have sorted: "sorted (map (\<lambda>a. priority_rank (ha_priority a)) ?acts)" by (simp add: detected_actions_def)
  have idx: "map (\<lambda>i. f (?acts ! (i - ?n))) ?refs = map f ?acts" for f :: "healing_action \<Rightarrow> 'z"
    by (rule nth_equalityI) simp_all
  define s2 where "s2 = execute_each ts ?refs ?s1"
  have s2: "(\<forall>i \<in> set ?refs. ha_status (ah_objs s2 ! i) = (if 0 < ah_max_concurrent s then HCompleted else HPending)
      \<and> ha_type (ah_objs s2 ! i) = ha_type (?acts ! (i - ?n)) \<and> ha_target (ah_objs s2 ! i) = ha_target (?acts ! (i - ?n))
      \<and> ha_priority (ah_objs s2 ! i) = ha_priority (?acts ! (i - ?n)))
    \<and> ah_total_healed s2 = ah_total_healed s + (if 0 < ah_max_concurrent s then length ?acts else 0)"
  proof (cases "0 < ah_max_concurrent s")
    case True
    have "length ts = length ?refs" using assms(2) by simp
    moreover have "\<forall>i \<in> set ?refs. i < length (ah_objs ?s1)" by (simp add: s1(1))
    ultimately have ex: "ah_total_healed s2 = ah_total_healed ?s1 + length ?refs"
        "\<forall>j < length (ah_objs ?s1). let a = ah_objs ?s1 ! j; b = ah_objs s2 ! j in
        if j \<in> set ?refs then ha_status b = HCompleted \<and> ha_type b = ha_type a \<and> ha_target b = ha_target a
          \<and> ha_priority b = ha_priority a else b = a"
      unfolding s2_def using execute_each_open [of ?s1 ?refs ts] True s1(2,3) by simp_all
    have "i < length (ah_objs ?s1)" if "i \<in> set ?refs" for i using that by (simp add: s1(1))
    with ex(2) new True have "\<forall>i \<in> set ?refs. ha_status (ah_objs s2 ! i) = HCompleted
      \<and> ha_type (ah_objs s2 ! i) = ha_type (?acts ! (i - ?n)) \<and> ha_target (ah_objs s2 ! i) = ha_target (?acts ! (i - ?n))
      \<and> ha_priority (ah_objs s2 ! i) = ha_priority (?acts ! (i - ?n))" unfolding Let_def by metis
    with ex(1) s1(4) True show ?thesis by simp
  next
    case False
    then have "s2 = ?s1" unfolding s2_def by (simp add: execute_each_refused s1(3))
    moreover have "\<forall>i \<in> set ?refs. ha_status (?acts ! (i - ?n)) = HPending" using pend by auto
    ultimately show ?thesis using False new s1(4) by simp
  qed
  have "map (\<lambda>i. (ha_type (ah_objs s2 ! i), ha_target (ah_objs s2 ! i))) ?refs
      = map (\<lambda>i. (ha_type (?acts ! (i - ?n)), ha_target (?acts ! (i - ?n)))) ?refs"
    using s2 by (intro map_cong refl) auto
  moreover have "map (\<lambda>i. priority_rank (ha_priority (ah_objs s2 ! i))) ?refs
      = map (\<lambda>i. priority_rank (ha_priority (?acts ! (i - ?n)))) ?refs"
    using s2 by (intro map_cong refl) auto
  ultimately show ?thesis
    unfolding run s2_def [symmetric] Let_def prod.case
    using s2 sorted idx [of "\<lambda>a. (ha_type a, ha_target a)"] idx [of "\<lambda>a. priority_rank (ha_priority a)"]
    by (simp only: list_all_iff length_upt) simp
qed

definition demo_report :: "string \<Rightarrow> string \<Rightarrow> rat \<Rightarrow> int \<Rightarrow> report" where
  "demo_report i st er rs = \<lparr>re_id = i, re_status = st, re_error_rate = er, re_restarts = rs, re_region = ''eu''\<rparr>"

definition demo_telemetry :: healing_telemetry where
  "demo_telemetry = \<lparr>te_deployments = [demo_report ''d'' ''running'' (6 / 10) 0], te_nodes = [demo_report ''n'' ''failed'' 0 0],
     te_services = [], te_replicas = [], te_regions = []\<rparr>"

theorem heal_settles_witness:
  "let (s', refs) = heal 1 [(2, 3), (3, 4)] demo_telemetry (new_auto_healing 5 1000) in
     map (\<lambda>i. (ha_type (ah_objs s' ! i), ha_target (ah_objs s' ! i))) refs = [(ReplaceNode, ''n''), (RestartDeployment, ''d'')]
     \<and> ah_total_healed s' = 2"
proof -
  have d: "map (\<lambda>a. (ha_type a, ha_target a)) (detected_actions 1 demo_telemetry)
      = [(ReplaceNode, ''n''), (RestartDeployment, ''d'')]"
    by code_simp
  have len: "length (detected_actions 1 demo_telemetry) = 2" by code_simp
  have "ah_active (new_auto_healing 5 1000) = []" by (simp add: new_auto_healing_def)
  from heal_settles [OF this, of "[(2, 3), (3, 4)]" 1 demo_telemetry] d len show ?thesis
    by (simp add: new_auto_healing_def case_prod_unfold Let_def)
qed

text \<open>A roll-back concerns a completed action only, and takes back one of them.\<close>

lemma rollback_outcome:
  assumes "rollback_action t aid s = (s', ok)"
  shows "if ok then \<exists>i \<in> set (ah_actions s). ha_id (ah_objs s ! i) = aid \<and> ha_status (ah_objs s ! i) = HCompleted
           \<and> ah_objs s' = on_obj i (\<lambda>a. a\<lparr>ha_status := HRolledBack\<rparr>) (ah_objs s)
         else s' = s \<and> (\<forall>i \<in> set (ah_actions s). ha_id (ah_objs s ! i) = aid \<longrightarrow> ha_status (ah_objs s ! i) \<noteq> HCompleted)"
  using assms by (auto simp: rollback_action_def find_None_iff find_Some_iff split: option.splits)

end
