(* ===== verification/Models.thy ===== *)
theory Models
  imports Repair
begin

text \<open>
  Models and the GPUs they run on: the registry (\<open>models/registry.py\<close>), the quota of the artifact
  cache (\<open>models/cache_manager.py\<close>), compatibility and quantization, the choice of a GPU
  (\<open>gpu/gpu_scheduler.py\<close>) over VRAM reservations (\<open>gpu/vram_manager.py\<close>), and the router that
  combines them (\<open>models/model_router.py\<close>). The discovery of devices parses the output of external
  tools: its result is an argument. The files of the cache are a set of paths.
\<close>

section \<open>Registry\<close>

record model_record =
  mr_id :: string
  mr_name :: string
  mr_version :: string
  mr_parameter_count :: int
  mr_quantization :: string
  mr_gpu_types :: "string list"
  mr_required_vram_mb :: int
  mr_tokenizer :: string
  mr_architecture :: string
  mr_source_uri :: string
  mr_checksum :: string
  mr_updated_at :: pyfloat

type_synonym model_registry = "(string, model_record) dict"

definition upsert_model :: "pyfloat \<Rightarrow> model_record \<Rightarrow> model_registry \<Rightarrow> model_registry" where
  "upsert_model t r d = dput (mr_id r) (r\<lparr>mr_updated_at := t\<rparr>) d"

definition get_model :: "string \<Rightarrow> model_registry \<Rightarrow> model_record option" where
  "get_model mid d = dget d mid"

definition model_matches :: "string \<Rightarrow> model_record \<Rightarrow> bool" where
  "model_matches q r \<longleftrightarrow> contains q (py_lower (mr_name r)) \<or> contains q (py_lower (mr_architecture r))"

text \<open>The loop of \<open>search\<close>: the limit is tested after each row, so that a limit of zero still takes a match.\<close>

fun search_rows :: "string \<Rightarrow> nat \<Rightarrow> model_record list \<Rightarrow> model_record list \<Rightarrow> model_record list" where
  "search_rows q limit out [] = out"
| "search_rows q limit out (r # rs) =
     (let out' = (if model_matches q r then out @ [r] else out)
      in if length out' \<ge> limit then out' else search_rows q limit out' rs)"

definition search_models :: "string \<Rightarrow> nat \<Rightarrow> model_registry \<Rightarrow> model_record list" where
  "search_models query limit d = search_rows (py_lower query) limit [] (sort_desc mr_updated_at (dvalues d))"

definition validate_record :: "model_record \<Rightarrow> string list" where
  "validate_record r =
     (if mr_name r = [] then [''model_name required''] else [])
     @ (if mr_required_vram_mb r \<le> 0 then [''required_vram_mb must be positive''] else [])"

definition compatible_gpus :: "model_record \<Rightarrow> string list \<Rightarrow> string list" where
  "compatible_gpus r offered =
     (if mr_gpu_types r = [] then offered else filter (\<lambda>g. g \<in> set (mr_gpu_types r)) offered)"

datatype quantization = QNone | QInt8 | QInt4 | QGguf

definition vram_multiplier :: "string \<Rightarrow> rat" where
  "vram_multiplier q =
     (if q = ''none'' then 1 else if q = ''int8'' then 55 / 100 else if q = ''int4'' then 35 / 100
      else if q = ''gguf'' then 4 / 10 else 1)"

section \<open>The quota of the artifact cache\<close>

record artifact =
  ar_size_bytes :: int
  ar_last_access :: pyfloat

type_synonym artifact_index = "(string, artifact) dict"

definition touch_artifact :: "pyfloat \<Rightarrow> string \<Rightarrow> int \<Rightarrow> artifact_index \<Rightarrow> artifact_index" where
  "touch_artifact t path n d = dput path \<lparr>ar_size_bytes = n, ar_last_access = t\<rparr> d"

definition total_mb :: "artifact_index \<Rightarrow> rat" where
  "total_mb d = of_int (sum_list (map ar_size_bytes (dvalues d))) / (1024 * 1024)"

definition oldest_artifact :: "artifact_index \<Rightarrow> string" where
  "oldest_artifact d = fst (py_min (\<lambda>p. ar_last_access (snd p)) (hd d) (tl d))"

lemma oldest_artifact_in: "d \<noteq> [] \<Longrightarrow> oldest_artifact d \<in> fst ` set d"
  using py_min_in [of "\<lambda>p. ar_last_access (snd p)" "hd d" "tl d"]
  by (cases d) (auto simp: oldest_artifact_def)

text \<open>The loop over the index and the set of files that exist, with the count of removed files.\<close>

function evict_artifacts :: "rat \<Rightarrow> artifact_index \<Rightarrow> string set \<Rightarrow> nat \<Rightarrow> artifact_index \<times> string set \<times> nat" where
  "evict_artifacts quota d files n =
     (if total_mb d > quota
      then if d = [] then (d, files, n)
           else let rel = oldest_artifact d; d1 = ddel rel d
                in if rel \<in> files then evict_artifacts quota d1 (files - {rel}) (n + 1)
                   else (d1, files, n)
      else (d, files, n))"
  by auto

termination
  by (relation "measure (\<lambda>(quota, d, files, n). length d)") (auto intro!: length_ddel_less oldest_artifact_in simp: Let_def)

declare evict_artifacts.simps [simp del]

definition evict_if_needed :: "rat \<Rightarrow> artifact_index \<Rightarrow> string set \<Rightarrow> artifact_index \<times> string set \<times> nat" where
  "evict_if_needed quota d files = evict_artifacts quota d files 0"

section \<open>GPUs\<close>

record gpu_device =
  gd_index :: int
  gd_free_vram_mb :: int
  gd_utilization_pct :: rat
  gd_temperature_c :: rat

type_synonym vram_table = "(int, int) dict"

definition vram_reserved :: "int \<Rightarrow> vram_table \<Rightarrow> int" where
  "vram_reserved i d = (case dget d i of Some mb \<Rightarrow> mb | None \<Rightarrow> 0)"

definition vram_reserve :: "int \<Rightarrow> int \<Rightarrow> vram_table \<Rightarrow> vram_table \<times> bool" where
  "vram_reserve i mb d = (dput i (vram_reserved i d + mb) d, True)"

definition vram_release :: "int \<Rightarrow> int \<Rightarrow> vram_table \<Rightarrow> vram_table" where
  "vram_release i mb d = dput i (max 0 (vram_reserved i d - mb)) d"

definition effective_free :: "vram_table \<Rightarrow> gpu_device \<Rightarrow> int" where
  "effective_free v g = gd_free_vram_mb g - vram_reserved (gd_index g) v"

definition gpu_device_score :: "vram_table \<Rightarrow> int \<Rightarrow> string \<Rightarrow> gpu_device \<Rightarrow> rat" where
  "gpu_device_score v tokens quant g =
     (let s = of_int (effective_free v g) - max 0 (gd_temperature_c g - 80) * 5 - gd_utilization_pct g * 2
              - min (of_int tokens / 100000) 50
      in if quant \<noteq> ''none'' then s + 128 else s)"

definition better_gpu ::
    "vram_table \<Rightarrow> int \<Rightarrow> int \<Rightarrow> string \<Rightarrow> gpu_device \<Rightarrow> (rat \<times> int) option \<Rightarrow> (rat \<times> int) option" where
  "better_gpu v required tokens quant g best =
     (if effective_free v g < required then best
      else let score = gpu_device_score v tokens quant g
           in case best of
                None \<Rightarrow> Some (score, gd_index g)
              | Some b \<Rightarrow> if score > fst b then Some (score, gd_index g) else best)"

definition pick_gpu :: "gpu_device list \<Rightarrow> vram_table \<Rightarrow> int \<Rightarrow> int \<Rightarrow> string \<Rightarrow> int option" where
  "pick_gpu devices v required tokens quant =
     map_option snd (fold (better_gpu v required tokens quant) devices None)"

section \<open>The model router\<close>

definition placement_score :: "model_record \<Rightarrow> int option \<Rightarrow> rat" where
  "placement_score r gpu = of_int (mr_required_vram_mb r) * (- 1 / 100) + (if gpu \<noteq> None then 5000 else 0)"

definition better_model ::
    "gpu_device list \<Rightarrow> vram_table \<Rightarrow> int \<Rightarrow> int \<Rightarrow> string \<Rightarrow> model_record
      \<Rightarrow> (model_record \<times> int option) option \<times> rat \<Rightarrow> (model_record \<times> int option) option \<times> rat" where
  "better_model devices v required tokens quant r best =
     (let gpu = pick_gpu devices v (max required (mr_required_vram_mb r)) tokens quant;
          score = placement_score r gpu
      in if score > snd best then (Some (r, gpu), score) else best)"

text \<open>\<open>None\<close> is the answer \<open>no_model_match\<close>.\<close>

definition route_model ::
    "model_registry \<Rightarrow> gpu_device list \<Rightarrow> vram_table \<Rightarrow> string \<Rightarrow> int \<Rightarrow> int \<Rightarrow> string
      \<Rightarrow> (string \<times> int option \<times> rat) option" where
  "route_model reg devices v name required tokens quant =
     (case fold (better_model devices v required tokens quant) (search_models name 8 reg) (None, - 1000000000) of
        (None, score) \<Rightarrow> None
      | (Some (r, gpu), score) \<Rightarrow> Some (mr_id r, gpu, score))"

section \<open>Search\<close>

lemma search_rows_eq:
  "length out < limit \<Longrightarrow> search_rows q limit out rs = out @ take (limit - length out) (filter (model_matches q) rs)"
proof (induction rs arbitrary: out)
  case (Cons r rs)
  show ?case
  proof (cases "model_matches q r \<and> Suc (length out) = limit")
    case True
    then show ?thesis by (auto simp: Let_def)
  next
    case False
    then have "length (if model_matches q r then out @ [r] else out) < limit" using Cons.prems by auto
    with Cons.IH [OF this] False Cons.prems show ?thesis
      by (auto simp: Let_def Suc_diff_Suc [symmetric] simp del: diff_Suc_Suc)
  qed
qed simp

text \<open>
  a search returns exactly the first matching models in the order of their last update, newest
  first, as many as the limit allows, and for a limit of zero none or one.
\<close>

theorem search_exact:
  "search_models query limit d =
    (if limit = 0
     then case sort_desc mr_updated_at (dvalues d) of [] \<Rightarrow> [] | r # rs \<Rightarrow> filter (model_matches (py_lower query)) [r]
     else take limit (filter (model_matches (py_lower query)) (sort_desc mr_updated_at (dvalues d))))"
  using search_rows_eq [of "[]" limit "py_lower query"]
  by (auto simp: search_models_def Let_def sort_desc_def split: list.split)

lemma search_sound: "r \<in> set (search_models query limit d) \<Longrightarrow> r \<in> set (dvalues d) \<and> model_matches (py_lower query) r"
proof -
  have sub: "x \<in> set (search_rows q limit out rs) \<Longrightarrow> x \<in> set out \<or> x \<in> set rs \<and> model_matches q x" for q out rs x
  proof (induction rs arbitrary: out)
    case (Cons a rs)
    from Cons.prems Cons.IH [of "if model_matches q a then out @ [a] else out"] show ?case
      by (auto simp: Let_def split: if_splits)
  qed simp
  show "r \<in> set (search_models query limit d) \<Longrightarrow> ?thesis"
    using sub [of r "py_lower query" "[]" "sort_desc mr_updated_at (dvalues d)"] by (simp add: search_models_def)
qed

section \<open>Eviction\<close>

lemma oldest_artifact_least:
  assumes "d \<noteq> []" "dwf d"
  obtains a where "dget d (oldest_artifact d) = Some a" "\<And>k b. dget d k = Some b \<Longrightarrow> ar_last_access a \<le> ar_last_access b"
proof -
  obtain x xs where d: "d = x # xs" using assms(1) by (cases d) auto
  let ?p = "py_min (\<lambda>p. ar_last_access (snd p)) x xs"
  have "?p \<in> set d" using py_min_in [of "\<lambda>p. ar_last_access (snd p)" x xs] by (simp add: d)
  then have a: "dget d (oldest_artifact d) = Some (snd ?p)"
    using assms(2) dwf_dget_iff [of d "fst ?p" "snd ?p"] by (simp add: d oldest_artifact_def)
  have "ar_last_access (snd ?p) \<le> ar_last_access b" if "dget d k = Some b" for k b
    using py_min_le [of "(k, b)" x xs "\<lambda>p. ar_last_access (snd p)"] dget_SomeD [OF that] by (simp add: d)
  with a show ?thesis by (rule that)
qed

text \<open>What the loop leaves behind.\<close>

definition evicted_to :: "rat \<Rightarrow> artifact_index \<Rightarrow> string set \<Rightarrow> nat \<Rightarrow> artifact_index \<times> string set \<times> nat \<Rightarrow> bool" where
  "evicted_to quota d files n res = (case res of (d', files', n') \<Rightarrow>
     dwf d'
     \<and> (total_mb d' \<le> quota \<or> d' = [] \<or> (\<exists>k. k \<notin> files \<and> dget d k \<noteq> None \<and> dget d' k = None))
     \<and> files' = {k \<in> files. dget d k = None \<or> dget d' k \<noteq> None}
     \<and> n' = n + card (files - files')
     \<and> (\<forall>k. dget d' k = None \<or> dget d' k = dget d k)
     \<and> (\<forall>k a k' a'. dget d k = Some a \<longrightarrow> dget d' k = None \<longrightarrow> dget d' k' = Some a' \<longrightarrow> ar_last_access a \<le> ar_last_access a'))"

lemma evict_artifacts_spec: "dwf d \<Longrightarrow> evicted_to quota d files n (evict_artifacts quota d files n)"
proof (induction quota d files n rule: evict_artifacts.induct)
  case (1 quota d files n)
  show ?case
  proof (cases "total_mb d > quota \<and> d \<noteq> []")
    case False
    have "{k \<in> files. dget d k = None \<or> dget d k \<noteq> None} = files" by blast
    with False "1.prems" show ?thesis
      by (auto simp: evict_artifacts.simps [of quota d files n] evicted_to_def)
  next
    case True
    let ?rel = "oldest_artifact d"
    let ?d = "ddel ?rel d"
    obtain a where a: "dget d ?rel = Some a" "\<And>k b. dget d k = Some b \<Longrightarrow> ar_last_access a \<le> ar_last_access b"
      using oldest_artifact_least True "1.prems" by blast
    have wf: "dwf ?d" using "1.prems" by simp
    show ?thesis
    proof (cases "?rel \<in> files")
      case False
      have "{k \<in> files. dget d k = None \<or> dget ?d k \<noteq> None} = files" using False by auto
      moreover have "\<exists>k. k \<notin> files \<and> dget d k \<noteq> None \<and> dget ?d k = None"
        using False a(1) by (intro exI [of _ ?rel]) simp
      moreover have "ar_last_access b \<le> ar_last_access c"
        if "dget d k = Some b" "dget ?d k = None" "dget ?d k' = Some c" for k b k' c
      proof -
        have "k = ?rel" using that(1,2) by (auto split: if_splits)
        with that(1) a(1) have "b = a" by simp
        moreover have "dget d k' = Some c" using that(3) by (simp split: if_splits)
        ultimately show ?thesis using a(2) by simp
      qed
      moreover have "\<forall>k. dget ?d k = None \<or> dget ?d k = dget d k" by simp
      moreover have "n = n + card (files - files)" by simp
      ultimately have "evicted_to quota d files n (?d, files, n)"
        using wf unfolding evicted_to_def prod.case by blast
      then show ?thesis using True False by (simp add: evict_artifacts.simps [of quota d files n] Let_def)
    next
      case rel: True
      obtain d' files' n' where res: "evict_artifacts quota ?d (files - {?rel}) (n + 1) = (d', files', n')"
        by (metis prod_cases3)
      have IH: "evicted_to quota ?d (files - {?rel}) (n + 1) (d', files', n')"
        using "1.IH" [OF _ _ refl refl] True rel wf res by simp
      note IH = IH [unfolded evicted_to_def prod.case]
      have subs: "\<forall>k. dget d' k = None \<or> dget d' k = dget ?d k" using IH by (elim conjE) assumption
      then have sub: "dget d' k = None \<or> dget d' k = dget ?d k" for k by blast
      then have gone: "dget d' ?rel = None" by (metis dget_ddel)
      have files: "files' = {k \<in> files - {?rel}. dget ?d k = None \<or> dget d' k \<noteq> None}"
        using IH by blast
      then have files_d: "files' = {k \<in> files. dget d k = None \<or> dget d' k \<noteq> None}"
        using gone a(1) by (auto simp: dget_ddel)
      have "files - files' \<subseteq> fst ` set d"
      proof
        fix x assume "x \<in> files - files'"
        then have "dget d x \<noteq> None" unfolding files_d by simp
        then show "x \<in> fst ` set d" by (metis dget_None_iff)
      qed
      then have fin: "finite (files - files')" by (rule finite_subset) simp
      have "files - files' = insert ?rel (files - {?rel} - files')" "?rel \<notin> files - {?rel} - files'"
        using rel gone a(1) unfolding files_d by auto
      then have "card (files - files') = Suc (card (files - {?rel} - files'))"
        using fin by (metis card_insert_disjoint finite_insert)
      then have n': "n' = n + card (files - files')" using IH by simp
      have "total_mb d' \<le> quota \<or> d' = [] \<or> (\<exists>k. k \<notin> files - {?rel} \<and> dget ?d k \<noteq> None \<and> dget d' k = None)"
        using IH by blast
      moreover have "k \<notin> files \<and> dget d k \<noteq> None" if "k \<notin> files - {?rel}" "dget ?d k \<noteq> None" for k
        using that by (auto split: if_splits)
      ultimately have stop: "total_mb d' \<le> quota \<or> d' = [] \<or> (\<exists>k. k \<notin> files \<and> dget d k \<noteq> None \<and> dget d' k = None)"
        by blast
      have sub_d: "dget d' k = None \<or> dget d' k = dget d k" for k using sub [of k] by (auto split: if_splits)
      have lru: "ar_last_access b \<le> ar_last_access a'"
        if "dget d k = Some b" "dget d' k = None" "dget d' k' = Some a'" for k b k' a'
      proof (cases "k = ?rel")
        case True
        have "dget d k' = Some a'" using sub_d [of k'] that(3) by simp
        with True that(1) a show ?thesis by simp
      next
        case False
        have rest: "\<forall>k a k' a'. dget ?d k = Some a \<longrightarrow> dget d' k = None \<longrightarrow> dget d' k' = Some a' \<longrightarrow> ar_last_access a \<le> ar_last_access a'"
          using IH by (elim conjE) assumption
        have "dget ?d k = Some b" using False that(1) by simp
        with rest that(2,3) show ?thesis by blast
      qed
      have "dwf d'" using IH by blast
      then have "evicted_to quota d files n (d', files', n')"
        unfolding evicted_to_def prod.case using stop files_d n' sub_d lru by (intro conjI allI impI) assumption+
      then show ?thesis using True rel res by (simp add: evict_artifacts.simps [of quota d files n] Let_def)
    qed
  qed
qed

text \<open>
  eviction returns, gives up the artifacts that were used longest ago together with their files,
  counts the removed files, and brings the cache under its quota, provided every artifact it lists
  has its file; it stops early at an artifact whose file is missing.
\<close>

theorem eviction_meets_quota:
  assumes "dwf d" "0 \<le> quota" "evict_if_needed quota d files = (d', files', n)"
  shows "(total_mb d' \<le> quota \<or> (\<exists>k. k \<notin> files \<and> dget d k \<noteq> None))
    \<and> files' = {k \<in> files. dget d k = None \<or> dget d' k \<noteq> None} \<and> n = card (files - files')
    \<and> (\<forall>k. dget d' k = None \<or> dget d' k = dget d k)
    \<and> (\<forall>k a k' a'. dget d k = Some a \<longrightarrow> dget d' k = None \<longrightarrow> dget d' k' = Some a' \<longrightarrow> ar_last_access a \<le> ar_last_access a')"
proof -
  have ev: "evicted_to quota d files 0 (d', files', n)"
    using evict_artifacts_spec [OF assms(1), of quota files 0] assms(3) by (simp add: evict_if_needed_def)
  moreover have "total_mb [] \<le> quota" using assms(2) by (simp add: total_mb_def)
  ultimately have "total_mb d' \<le> quota \<or> (\<exists>k. k \<notin> files \<and> dget d k \<noteq> None)" "n = card (files - files')"
    unfolding evicted_to_def by auto
  with ev show ?thesis unfolding evicted_to_def prod.case by (elim conjE) (intro conjI; assumption)
qed

definition demo_artifacts :: artifact_index where
  "demo_artifacts = [(''a'', \<lparr>ar_size_bytes = 2097152, ar_last_access = 5\<rparr>), (''b'', \<lparr>ar_size_bytes = 1048576, ar_last_access = 3\<rparr>)]"

theorem eviction_meets_quota_witness:
  "total_mb (fst (evict_if_needed 2 demo_artifacts {''a'', ''b''})) \<le> 2"
proof -
  obtain d' files' n where res: "evict_if_needed 2 demo_artifacts {''a'', ''b''} = (d', files', n)" by (metis prod_cases3)
  have "dwf demo_artifacts" by (simp add: dwf_def demo_artifacts_def)
  from eviction_meets_quota [OF this _ res] show ?thesis
    using res by (auto simp: demo_artifacts_def split: if_splits)
qed

section \<open>Choosing a GPU\<close>

lemma pick_gpu_fold:
  assumes "fold (better_gpu v required tokens quant) gs best = best'"
  shows "(best' = None \<longleftrightarrow> best = None \<and> (\<forall>g \<in> set gs. effective_free v g < required))
    \<and> (\<forall>b'. best' = Some b' \<longrightarrow>
        (best = Some b' \<or> (\<exists>g \<in> set gs. required \<le> effective_free v g \<and> b' = (gpu_device_score v tokens quant g, gd_index g)))
        \<and> (\<forall>b. best = Some b \<longrightarrow> fst b \<le> fst b')
        \<and> (\<forall>g \<in> set gs. required \<le> effective_free v g \<longrightarrow> gpu_device_score v tokens quant g \<le> fst b'))"
  using assms
proof (induction gs arbitrary: best)
  case (Cons g gs)
  let ?b = "better_gpu v required tokens quant g best"
  have IH: "(best' = None \<longleftrightarrow> ?b = None \<and> (\<forall>g \<in> set gs. effective_free v g < required))
    \<and> (\<forall>b'. best' = Some b' \<longrightarrow>
        (?b = Some b' \<or> (\<exists>g \<in> set gs. required \<le> effective_free v g \<and> b' = (gpu_device_score v tokens quant g, gd_index g)))
        \<and> (\<forall>b. ?b = Some b \<longrightarrow> fst b \<le> fst b')
        \<and> (\<forall>g \<in> set gs. required \<le> effective_free v g \<longrightarrow> gpu_device_score v tokens quant g \<le> fst b'))"
    using Cons.IH [of ?b] Cons.prems by simp
  show ?case
  proof (cases "effective_free v g < required")
    case True
    then have "?b = best" by (simp add: better_gpu_def)
    with IH True show ?thesis by auto
  next
    case False
    show ?thesis
    proof (cases best)
      case None
      with False have b: "?b = Some (gpu_device_score v tokens quant g, gd_index g)" by (simp add: better_gpu_def)
      show ?thesis using IH False None unfolding b by fastforce
    next
      case (Some b)
      show ?thesis
      proof (cases "gpu_device_score v tokens quant g > fst b")
        case True
        with False Some have b1: "?b = Some (gpu_device_score v tokens quant g, gd_index g)" by (simp add: better_gpu_def)
        show ?thesis using IH False Some True unfolding b1 by fastforce
      next
        case lower: False
        with False Some have b1: "?b = Some b" by (simp add: better_gpu_def)
        show ?thesis using IH False Some lower unfolding b1 by fastforce
      qed
    qed
  qed
qed simp

text \<open>
  the GPU scheduler picks a device only when the memory that is free and not reserved covers the
  demand, the one with the best score of all such devices, and refuses only when there is none.
\<close>

theorem pick_gpu_best:
  "case pick_gpu devices v required tokens quant of
     None \<Rightarrow> list_all (\<lambda>g. effective_free v g < required) devices
   | Some i \<Rightarrow> \<exists>g. g \<in> set devices \<and> gd_index g = i \<and> required \<le> effective_free v g
       \<and> list_all (\<lambda>h. effective_free v h < required \<or> gpu_device_score v tokens quant h \<le> gpu_device_score v tokens quant g) devices"
proof -
  note f = pick_gpu_fold [OF refl, of v required tokens quant devices None]
  show ?thesis
  proof (cases "fold (better_gpu v required tokens quant) devices None")
    case None
    with f show ?thesis by (simp add: pick_gpu_def list_all_iff)
  next
    case (Some b)
    then obtain g where g: "g \<in> set devices" "required \<le> effective_free v g"
        "b = (gpu_device_score v tokens quant g, gd_index g)"
      and top: "\<forall>h \<in> set devices. required \<le> effective_free v h \<longrightarrow> gpu_device_score v tokens quant h \<le> fst b"
      using f by auto
    have "list_all (\<lambda>h. effective_free v h < required \<or> gpu_device_score v tokens quant h \<le> gpu_device_score v tokens quant g) devices"
      using top g(3) by (auto simp: list_all_iff not_less)
    with Some g show ?thesis by (auto simp: pick_gpu_def)
  qed
qed

text \<open>
  Reservations: what is reserved is what was asked for minus what was given back, as long as nobody
  gives back more than is reserved; the table itself never refuses.
\<close>

datatype vram_op = Reserve int int | Release int int

fun vram_step :: "vram_op \<Rightarrow> vram_table \<Rightarrow> vram_table" where
  "vram_step (Reserve i mb) d = fst (vram_reserve i mb d)"
| "vram_step (Release i mb) d = vram_release i mb d"

fun vram_delta :: "int \<Rightarrow> vram_op \<Rightarrow> int" where
  "vram_delta j (Reserve i mb) = (if i = j then mb else 0)"
| "vram_delta j (Release i mb) = (if i = j then - mb else 0)"

lemma reserved_step:
  "vram_reserved j (vram_step opn d) =
     (case opn of Reserve i mb \<Rightarrow> vram_reserved j d + vram_delta j opn
      | Release i mb \<Rightarrow> if i = j then max 0 (vram_reserved j d + vram_delta j opn) else vram_reserved j d)"
  by (cases opn) (simp_all add: vram_reserved_def vram_reserve_def vram_release_def)

text \<open>
  a reservation lasts until it is given back: whatever other GPUs do, the memory reserved on a
  GPU is the sum of its reservations minus its releases, if no release exceeds what is reserved then.
\<close>

theorem reservations_balance:
  assumes "list_all (\<lambda>n. 0 \<le> sum_list (map (vram_delta j) (take n ops))) [0..<Suc (length ops)]"
  shows "vram_reserved j (fold vram_step ops []) = sum_list (map (vram_delta j) ops)"
  using assms
proof (induction ops rule: rev_induct)
  case Nil
  show ?case by (simp add: vram_reserved_def)
next
  case (snoc opn ops)
  have "list_all (\<lambda>n. 0 \<le> sum_list (map (vram_delta j) (take n ops))) [0..<Suc (length ops)]"
    using snoc.prems unfolding list_all_iff by fastforce
  then have IH: "vram_reserved j (fold vram_step ops []) = sum_list (map (vram_delta j) ops)" by (rule snoc.IH)
  have "0 \<le> sum_list (map (vram_delta j) (take (Suc (length ops)) (ops @ [opn])))"
    using snoc.prems unfolding list_all_iff by (metis atLeastLessThan_iff length_append_singleton lessI set_upt zero_le)
  then have "0 \<le> sum_list (map (vram_delta j) ops) + vram_delta j opn" by simp
  with IH show ?case by (cases opn) (auto simp: reserved_step max_def simp del: vram_step.simps split: if_splits)
qed

theorem reservations_balance_witness:
  "vram_reserved 0 (fold vram_step [Reserve 0 8000, Reserve 1 500, Reserve 0 4000, Release 0 8000] []) = 4000"
  using reservations_balance [of 0 "[Reserve 0 8000, Reserve 1 500, Reserve 0 4000, Release 0 8000]"]
  by (simp add: upt_rec)

text \<open>A release beyond what is left takes away what others reserved.\<close>

lemma double_release_frees_others:
  assumes "0 < a" "0 \<le> b" "b \<le> a"
  shows "vram_reserved j (fold vram_step [Reserve j a, Reserve j b, Release j a, Release j a] []) = 0"
  using assms by (simp add: reserved_step vram_reserved_def vram_reserve_def vram_release_def)

section \<open>Routing to a model\<close>

lemma better_model_fold:
  "fold (better_model devices v required tokens quant) rs (None, s0) = (Some (r, gpu), score) \<Longrightarrow>
     r \<in> set rs \<and> gpu = pick_gpu devices v (max required (mr_required_vram_mb r)) tokens quant
     \<and> score = placement_score r gpu
     \<and> (\<forall>q \<in> set rs. placement_score q (pick_gpu devices v (max required (mr_required_vram_mb q)) tokens quant) \<le> score)"
proof -
  let ?gpu = "\<lambda>r. pick_gpu devices v (max required (mr_required_vram_mb r)) tokens quant"
  let ?step = "better_model devices v required tokens quant"
  have inv: "(fold ?step rs b = (b', score)) \<Longrightarrow>
      snd b \<le> score \<and> (\<forall>q \<in> set rs. placement_score q (?gpu q) \<le> score)
      \<and> (b = (b', score) \<or> (\<exists>q \<in> set rs. b' = Some (q, ?gpu q) \<and> score = placement_score q (?gpu q)))" for rs b b' score
  proof (induction rs arbitrary: b)
    case (Cons q rs)
    from Cons.prems have "fold ?step rs (?step q b) = (b', score)" by simp
    from Cons.IH [OF this] show ?case
      by (auto simp: better_model_def Let_def split: if_splits)
  qed simp
  assume "fold ?step rs (None, s0) = (Some (r, gpu), score)"
  from inv [OF this] show ?thesis by auto
qed

text \<open>
  the model router answers with a registered model whose name or architecture matches, on the
  GPU the scheduler picks for it, and no other of the matches it looked at has a better score.
\<close>

theorem route_model_sound:
  "case route_model reg devices v name required tokens quant of
     None \<Rightarrow> True
   | Some (mid, gpu, score) \<Rightarrow> (\<exists>r. r \<in> set (dvalues reg) \<and> mr_id r = mid \<and> model_matches (py_lower name) r
        \<and> gpu = pick_gpu devices v (max required (mr_required_vram_mb r)) tokens quant \<and> score = placement_score r gpu
        \<and> list_all (\<lambda>q. placement_score q (pick_gpu devices v (max required (mr_required_vram_mb q)) tokens quant) \<le> score)
            (search_models name 8 reg))"
proof (cases "fold (better_model devices v required tokens quant) (search_models name 8 reg) (None, - 1000000000)")
  case (Pair b score)
  show ?thesis
  proof (cases b)
    case None
    with Pair show ?thesis by (simp add: route_model_def)
  next
    case (Some rg)
    obtain r gpu where rg: "rg = (r, gpu)" by (cases rg)
    note fm = better_model_fold [OF Pair [unfolded Some rg]]
    have "list_all (\<lambda>q. placement_score q (pick_gpu devices v (max required (mr_required_vram_mb q)) tokens quant) \<le> score)
            (search_models name 8 reg)" using fm unfolding list_all_iff by blast
    moreover have mem: "r \<in> set (search_models name 8 reg)" using fm by blast
    moreover have "gpu = pick_gpu devices v (max required (mr_required_vram_mb r)) tokens quant" "score = placement_score r gpu"
      using fm by blast+
    moreover note search_sound [OF mem]
    moreover have rm: "route_model reg devices v name required tokens quant = Some (mr_id r, gpu, score)"
      by (simp add: route_model_def Pair Some rg)
    ultimately show ?thesis unfolding rm option.case prod.case by (intro exI [of _ r] conjI refl) blast+
  qed
qed

end
