(* ===== verification/Deployments.thy ===== *)
theory Deployments
  imports Prelude
begin

text \<open>
  Model replicas in regions (\<open>replication/model_replication.py\<close>), container deployments and their
  rollouts (\<open>orchestrator/runtime_manager.py\<close>, \<open>deployment_manager.py\<close>, \<open>rollout_manager.py\<close>,
  \<open>resource_allocator.py\<close>) and sandbox profiles (\<open>containers/sandbox_profiles.py\<close>,
  \<open>container_policies.py\<close>). The tables are keyed by their primary keys; the order of a query
  without \<open>ORDER BY\<close> is the order of the table, and no statement depends on it. The id of a
  deployment is a fresh UUID, an argument here.
\<close>

section \<open>Model replicas\<close>

datatype replication_tier = Hot | Warm | Cold

datatype replication_state = RepStPending | RepStInProgress | RepStCompleted | RepStFailed

record replica =
  re_model_id :: string
  re_region_id :: string
  re_tier :: replication_tier
  re_state :: replication_state
  re_size_gb :: rat
  re_request_frequency :: rat
  re_last_accessed :: pyfloat
  re_replicated_at :: pyfloat
  re_version :: int

record replication_policy =
  po_model_id :: string
  po_min_replicas :: int
  po_max_replicas :: int
  po_tier :: replication_tier
  po_frequency_threshold :: rat
  po_latency_threshold_ms :: rat

datatype replication_event =
    ReplicaAdded pyfloat string string
  | ReplicaStateChanged pyfloat string string replication_state
  | ReplicaRemoved pyfloat string string

record replication_manager =
  mm_rows :: "(string \<times> string, replica) dict"
  mm_events :: "replication_event list"
  mm_policies :: "(string, replication_policy) dict"
  mm_replication_count :: nat
  mm_failure_count :: nat

definition new_replication_manager :: replication_manager where
  "new_replication_manager =
     \<lparr>mm_rows = [], mm_events = [], mm_policies = [], mm_replication_count = 0, mm_failure_count = 0\<rparr>"

definition add_replica :: "pyfloat \<Rightarrow> replica \<Rightarrow> replication_manager \<Rightarrow> replication_manager" where
  "add_replica t r m =
     (let r1 = (if re_replicated_at r = 0 then r\<lparr>re_replicated_at := t\<rparr> else r)
      in m\<lparr>mm_rows := dput (re_model_id r, re_region_id r) r1 (mm_rows m),
           mm_replication_count := mm_replication_count m + 1,
           mm_events := mm_events m @ [ReplicaAdded t (re_model_id r) (re_region_id r)]\<rparr>)"

definition get_replica :: "string \<Rightarrow> string \<Rightarrow> replication_manager \<Rightarrow> replica option" where
  "get_replica mid rid m = dget (mm_rows m) (mid, rid)"

definition list_replicas :: "string option \<Rightarrow> string option \<Rightarrow> replication_manager \<Rightarrow> replica list" where
  "list_replicas mid rid m =
     map snd (filter (\<lambda>p. (case truthy mid of None \<Rightarrow> True | Some x \<Rightarrow> fst (fst p) = x)
        \<and> (case truthy rid of None \<Rightarrow> True | Some x \<Rightarrow> snd (fst p) = x)) (mm_rows m))"

definition completed_replicas :: "string \<Rightarrow> replication_manager \<Rightarrow> replica list" where
  "completed_replicas mid m = filter (\<lambda>r. re_state r = RepStCompleted) (list_replicas (Some mid) None m)"

definition regions_for_model :: "string \<Rightarrow> replication_manager \<Rightarrow> string list" where
  "regions_for_model mid m = map re_region_id (completed_replicas mid m)"

definition update_replica_state ::
    "pyfloat \<Rightarrow> string \<Rightarrow> string \<Rightarrow> replication_state \<Rightarrow> replication_manager \<Rightarrow> replication_manager \<times> replica option" where
  "update_replica_state t mid rid st m =
     (case get_replica mid rid m of
        None \<Rightarrow> (m, None)
      | Some r \<Rightarrow>
          let r1 = r\<lparr>re_state := st\<rparr>
          in (m\<lparr>mm_rows := dput (mid, rid) r1 (mm_rows m),
                mm_failure_count := (if st = RepStFailed then mm_failure_count m + 1 else mm_failure_count m),
                mm_events := mm_events m @ [ReplicaStateChanged t mid rid st]\<rparr>, Some r1))"

definition remove_replica :: "pyfloat \<Rightarrow> string \<Rightarrow> string \<Rightarrow> replication_manager \<Rightarrow> replication_manager" where
  "remove_replica t mid rid m =
     m\<lparr>mm_rows := ddel (mid, rid) (mm_rows m), mm_events := mm_events m @ [ReplicaRemoved t mid rid]\<rparr>"

definition record_access :: "pyfloat \<Rightarrow> string \<Rightarrow> string \<Rightarrow> replication_manager \<Rightarrow> replication_manager" where
  "record_access t mid rid m =
     (case get_replica mid rid m of
        None \<Rightarrow> m
      | Some r \<Rightarrow> m\<lparr>mm_rows := dput (mid, rid)
          (r\<lparr>re_request_frequency := re_request_frequency r + 1, re_last_accessed := t\<rparr>) (mm_rows m)\<rparr>)"

definition set_policy :: "replication_policy \<Rightarrow> replication_manager \<Rightarrow> replication_manager" where
  "set_policy p m = m\<lparr>mm_policies := dput (po_model_id p) p (mm_policies m)\<rparr>"

definition evaluate_replication_needs :: "string \<Rightarrow> replication_manager \<Rightarrow> string list" where
  "evaluate_replication_needs mid m =
     (case dget (mm_policies m) mid of
        None \<Rightarrow> []
      | Some p \<Rightarrow>
          let n = int (length (completed_replicas mid m))
          in if n \<ge> po_max_replicas p then []
             else map (\<lambda>i. ''need_'' @ string_of_nat i) [0..<nat (max 0 (po_min_replicas p - n))])"

datatype replication_op =
    AddReplica pyfloat replica
  | UpdateReplica pyfloat string string replication_state
  | RemoveReplica pyfloat string string
  | RecordAccess pyfloat string string
  | SetPolicy replication_policy

fun replication_step :: "replication_op \<Rightarrow> replication_manager \<Rightarrow> replication_manager" where
  "replication_step (AddReplica t r) m = add_replica t r m"
| "replication_step (UpdateReplica t mid rid st) m = fst (update_replica_state t mid rid st m)"
| "replication_step (RemoveReplica t mid rid) m = remove_replica t mid rid m"
| "replication_step (RecordAccess t mid rid) m = record_access t mid rid m"
| "replication_step (SetPolicy p) m = set_policy p m"

text \<open>Each row stands under its own key.\<close>

definition rows_ok :: "replication_manager \<Rightarrow> bool" where
  "rows_ok m \<longleftrightarrow> keyed (\<lambda>r. (re_model_id r, re_region_id r)) (mm_rows m)"

lemma rows_ok_row: "rows_ok m \<Longrightarrow> dget (mm_rows m) (mid, rid) = Some r \<Longrightarrow> re_model_id r = mid \<and> re_region_id r = rid"
  unfolding rows_ok_def using keyed_dget by fastforce

lemma rows_ok_step: "rows_ok m \<Longrightarrow> rows_ok (replication_step opn m)"
proof (cases opn)
  case (AddReplica t r)
  then show "rows_ok m \<Longrightarrow> ?thesis"
    by (auto simp: rows_ok_def add_replica_def Let_def intro!: keyed_dput)
next
  case (UpdateReplica t mid rid st)
  assume ok: "rows_ok m"
  show ?thesis
  proof (cases "get_replica mid rid m")
    case (Some r)
    have "re_model_id r = mid \<and> re_region_id r = rid" using rows_ok_row [OF ok] Some by (simp add: get_replica_def)
    then have "keyed (\<lambda>r. (re_model_id r, re_region_id r)) (dput (mid, rid) (r\<lparr>re_state := st\<rparr>) (mm_rows m))"
      by (intro keyed_dput) (use ok in \<open>simp_all add: rows_ok_def\<close>)
    then show ?thesis by (simp add: UpdateReplica update_replica_state_def Some rows_ok_def Let_def)
  qed (use ok UpdateReplica in \<open>simp add: update_replica_state_def\<close>)
next
  case (RecordAccess t mid rid)
  assume ok: "rows_ok m"
  show ?thesis
  proof (cases "get_replica mid rid m")
    case (Some r)
    have "re_model_id r = mid \<and> re_region_id r = rid" using rows_ok_row [OF ok] Some by (simp add: get_replica_def)
    then have "keyed (\<lambda>r. (re_model_id r, re_region_id r)) (dput (mid, rid)
        (r\<lparr>re_request_frequency := re_request_frequency r + 1, re_last_accessed := t\<rparr>) (mm_rows m))"
      by (intro keyed_dput) (use ok in \<open>simp_all add: rows_ok_def\<close>)
    then show ?thesis by (simp add: RecordAccess record_access_def Some rows_ok_def)
  qed (use ok RecordAccess in \<open>simp add: record_access_def\<close>)
qed (auto simp: rows_ok_def remove_replica_def set_policy_def intro!: keyed_ddel)

lemma rows_ok_run: "rows_ok (fold replication_step ops new_replication_manager)"
  by (rule fold_inv [where P = rows_ok]) (simp_all add: rows_ok_step, simp add: rows_ok_def new_replication_manager_def)

text \<open>The completed replicas of a model are the completed rows with its id, one for each region.\<close>

lemma completed_iff:
  assumes "rows_ok m" "mid \<noteq> []"
  shows "rid \<in> set (regions_for_model mid m) \<longleftrightarrow> (\<exists>r. get_replica mid rid m = Some r \<and> re_state r = RepStCompleted)"
proof -
  have wf: "dwf (mm_rows m)" using assms(1) by (simp add: rows_ok_def keyed_def)
  have "rid \<in> set (regions_for_model mid m) \<longleftrightarrow>
      (\<exists>k r. (k, r) \<in> set (mm_rows m) \<and> fst k = mid \<and> re_state r = RepStCompleted \<and> re_region_id r = rid)"
    using assms(2) by (force simp: regions_for_model_def completed_replicas_def list_replicas_def truthy_def)
  also have "\<dots> \<longleftrightarrow> (\<exists>r. dget (mm_rows m) (mid, rid) = Some r \<and> re_state r = RepStCompleted)"
  proof
    assume "\<exists>k r. (k, r) \<in> set (mm_rows m) \<and> fst k = mid \<and> re_state r = RepStCompleted \<and> re_region_id r = rid"
    then obtain k r where r: "(k, r) \<in> set (mm_rows m)" "fst k = mid" "re_state r = RepStCompleted" "re_region_id r = rid" by blast
    have "snd k = rid" using r(1,4) assms(1) by (force simp: rows_ok_def keyed_def)
    with r have "((mid, rid), r) \<in> set (mm_rows m)" by (cases k) simp
    with wf r(3) show "\<exists>r. dget (mm_rows m) (mid, rid) = Some r \<and> re_state r = RepStCompleted" by (auto simp: dwf_dget_iff)
  next
    assume "\<exists>r. dget (mm_rows m) (mid, rid) = Some r \<and> re_state r = RepStCompleted"
    then obtain r where r: "dget (mm_rows m) (mid, rid) = Some r" "re_state r = RepStCompleted" by blast
    with rows_ok_row [OF assms(1) r(1)] dget_SomeD [OF r(1)]
    show "\<exists>k r. (k, r) \<in> set (mm_rows m) \<and> fst k = mid \<and> re_state r = RepStCompleted \<and> re_region_id r = rid" by force
  qed
  finally show ?thesis by (simp add: get_replica_def)
qed

lemma regions_distinct:
  assumes "rows_ok m" "mid \<noteq> []"
  shows "distinct (regions_for_model mid m)"
proof -
  let ?rows = "filter (\<lambda>p. fst (fst p) = mid) (mm_rows m)"
  have "distinct (map fst ?rows)" using assms(1) by (simp add: rows_ok_def keyed_def dwf_def distinct_map_filter)
  moreover have "inj_on snd (set (map fst ?rows))" by (auto simp: inj_on_def)
  ultimately have "distinct (map snd (map fst ?rows))" by (simp only: distinct_map)
  moreover have "map snd (map fst ?rows) = map re_region_id (map snd ?rows)"
    using assms(1) by (auto simp: rows_ok_def keyed_def)
  ultimately have "distinct (map re_region_id (map snd ?rows))" by (simp only:)
  moreover have "list_replicas (Some mid) None m = map snd ?rows" using assms(2) by (simp add: list_replicas_def truthy_def)
  ultimately show ?thesis unfolding regions_for_model_def completed_replicas_def by (simp only: distinct_map_filter)
qed

lemma length_completed:
  assumes "rows_ok m" "mid \<noteq> []"
  shows "length (completed_replicas mid m) = card {rid. \<exists>r. get_replica mid rid m = Some r \<and> re_state r = RepStCompleted}"
proof -
  have "length (completed_replicas mid m) = card (set (regions_for_model mid m))"
    using distinct_card [OF regions_distinct [OF assms]] by (simp add: regions_for_model_def)
  also have "set (regions_for_model mid m) = {rid. \<exists>r. get_replica mid rid m = Some r \<and> re_state r = RepStCompleted}"
    using completed_iff [OF assms] by auto
  finally show ?thesis .
qed

definition placed :: "pyfloat \<Rightarrow> string \<Rightarrow> string \<Rightarrow> replication_op" where
  "placed t mid rid = AddReplica t \<lparr>re_model_id = mid, re_region_id = rid, re_tier = Warm, re_state = RepStCompleted,
     re_size_gb = 0, re_request_frequency = 0, re_last_accessed = 0, re_replicated_at = 0, re_version = 1\<rparr>"

lemma placed_completed:
  assumes "rows_ok m" "mid \<noteq> []" "distinct rids" "set rids \<inter> set (regions_for_model mid m) = {}"
  shows "length (completed_replicas mid (fold (\<lambda>rid. replication_step (placed t mid rid)) rids m))
      = length (completed_replicas mid m) + length rids
    \<and> mm_policies (fold (\<lambda>rid. replication_step (placed t mid rid)) rids m) = mm_policies m"
  using assms
proof (induction rids arbitrary: m)
  case (Cons rid rids)
  let ?m = "replication_step (placed t mid rid) m"
  have ok: "rows_ok ?m" by (rule rows_ok_step [OF Cons.prems(1)])
  have row: "(\<exists>r. get_replica mid j ?m = Some r \<and> re_state r = RepStCompleted)
      \<longleftrightarrow> j = rid \<or> (\<exists>r. get_replica mid j m = Some r \<and> re_state r = RepStCompleted)" for j
    by (auto simp: placed_def add_replica_def get_replica_def Let_def)
  have set1: "set (regions_for_model mid ?m) = insert rid (set (regions_for_model mid m))"
    using completed_iff [OF ok Cons.prems(2)] completed_iff [OF Cons.prems(1,2)] row by auto
  have new: "rid \<notin> set (regions_for_model mid m)" using Cons.prems(4) by simp
  have "length (completed_replicas mid ?m) = card (set (regions_for_model mid ?m))"
    using distinct_card [OF regions_distinct [OF ok Cons.prems(2)]] by (simp add: regions_for_model_def)
  also have "\<dots> = Suc (length (completed_replicas mid m))"
    using new distinct_card [OF regions_distinct [OF Cons.prems(1,2)]] by (simp add: set1) (simp add: regions_for_model_def)
  finally have len: "length (completed_replicas mid ?m) = Suc (length (completed_replicas mid m))" .
  have "mm_policies ?m = mm_policies m" by (simp add: placed_def add_replica_def Let_def)
  moreover have "set rids \<inter> set (regions_for_model mid ?m) = {}" using Cons.prems(3,4) set1 by auto
  ultimately show ?case using Cons.IH [OF ok Cons.prems(2)] Cons.prems(3) len by simp
qed simp

text \<open>
  the replication needs of a model are exact: when as many completed replicas are placed in new
  regions as were reported missing, nothing is missing any more, and unless the maximum forbids it
  the minimum of the policy is reached.
\<close>

theorem replication_needs_exact:
  fixes ops :: "replication_op list" and t :: pyfloat
  assumes "mid \<noteq> []" "distinct rids"
  defines "m \<equiv> fold replication_step ops new_replication_manager"
  assumes "length rids = length (evaluate_replication_needs mid m)"
    and "list_all (\<lambda>rid. rid \<notin> set (regions_for_model mid m)) rids"
  defines "m' \<equiv> fold (\<lambda>rid. replication_step (placed t mid rid)) rids m"
  shows "evaluate_replication_needs mid m' = []
    \<and> (case dget (mm_policies m) mid of None \<Rightarrow> rids = []
       | Some p \<Rightarrow> min (po_min_replicas p) (po_max_replicas p) \<le> int (length (regions_for_model mid m'))
           \<and> length (regions_for_model mid m') = length (regions_for_model mid m) + length rids)"
proof -
  have ok: "rows_ok m" unfolding m_def by (rule rows_ok_run)
  have "set rids \<inter> set (regions_for_model mid m) = {}" using assms(5) by (auto simp: list_all_iff)
  note pl = placed_completed [OF ok assms(1,2) this, of t, folded m'_def]
  show ?thesis
  proof (cases "dget (mm_policies m) mid")
    case None
    with pl assms(4) show ?thesis by (simp add: evaluate_replication_needs_def)
  next
    case (Some p)
    with pl assms(4) show ?thesis
      by (auto simp: evaluate_replication_needs_def regions_for_model_def Let_def split: if_splits)
  qed
qed

theorem replication_needs_exact_witness:
  "evaluate_replication_needs ''m'' (fold (\<lambda>rid. replication_step (placed 1 ''m'' rid)) [''eu'', ''us'']
     (fold replication_step [SetPolicy \<lparr>po_model_id = ''m'', po_min_replicas = 2, po_max_replicas = 5, po_tier = Hot,
        po_frequency_threshold = 10, po_latency_threshold_ms = 200\<rparr>] new_replication_manager)) = []"
  using replication_needs_exact [of "''m''" "[''eu'', ''us'']" "[SetPolicy \<lparr>po_model_id = ''m'', po_min_replicas = 2,
      po_max_replicas = 5, po_tier = Hot, po_frequency_threshold = 10, po_latency_threshold_ms = 200\<rparr>]" 1]
  by (simp add: evaluate_replication_needs_def regions_for_model_def completed_replicas_def list_replicas_def
      set_policy_def new_replication_manager_def Let_def)

text \<open>The thresholds of a policy on frequency and latency have no effect on what is missing.\<close>

lemma thresholds_ignored:
  "evaluate_replication_needs mid (set_policy (p\<lparr>po_frequency_threshold := f, po_latency_threshold_ms := l\<rparr>) m)
     = evaluate_replication_needs mid (set_policy p m)"
  by (simp add: evaluate_replication_needs_def set_policy_def completed_replicas_def list_replicas_def Let_def split: option.split)

section \<open>Deployments and rollouts\<close>

datatype deployment_state = DPending | DDeploying | DHealthy | DDegraded | DFailed | DRollingBack

record deployment =
  dp_name :: string
  dp_image :: string
  dp_state :: deployment_state
  dp_restart_count :: nat
  dp_desired_replicas :: int
  dp_healthy_replicas :: int
  dp_updated_at :: pyfloat

type_synonym deployments = "(string, deployment) dict"

definition create_deployment :: "pyfloat \<Rightarrow> string \<Rightarrow> string \<Rightarrow> string \<Rightarrow> int \<Rightarrow> deployments \<Rightarrow> deployments" where
  "create_deployment t dep_id name img desired d =
     dput dep_id \<lparr>dp_name = name, dp_image = img, dp_state = DPending, dp_restart_count = 0,
       dp_desired_replicas = desired, dp_healthy_replicas = 0, dp_updated_at = t\<rparr> d"

definition on_row :: "string \<Rightarrow> (deployment \<Rightarrow> deployment) \<Rightarrow> deployments \<Rightarrow> deployments" where
  "on_row i f d = (case dget d i of None \<Rightarrow> d | Some r \<Rightarrow> dput i (f r) d)"

definition set_deployment_state :: "pyfloat \<Rightarrow> string \<Rightarrow> deployment_state \<Rightarrow> deployments \<Rightarrow> deployments" where
  "set_deployment_state t i st d = on_row i (\<lambda>r. r\<lparr>dp_state := st, dp_updated_at := t\<rparr>) d"

definition bump_restart :: "pyfloat \<Rightarrow> string \<Rightarrow> deployments \<Rightarrow> deployments" where
  "bump_restart t i d = on_row i (\<lambda>r. r\<lparr>dp_restart_count := dp_restart_count r + 1, dp_updated_at := t\<rparr>) d"

definition list_deployments :: "deployments \<Rightarrow> (string \<times> deployment) list" where
  "list_deployments d = sort_desc (\<lambda>p. dp_updated_at (snd p)) d"

definition graceful_shutdown_marker :: "pyfloat \<Rightarrow> string \<Rightarrow> deployments \<Rightarrow> deployments" where
  "graceful_shutdown_marker t i d = set_deployment_state t i DRollingBack d"

definition mark_healthy :: "pyfloat \<Rightarrow> string \<Rightarrow> int \<Rightarrow> deployments \<Rightarrow> deployments" where
  "mark_healthy t i healthy d = set_deployment_state t i (if healthy > 0 then DHealthy else DDegraded) d"

definition start_rollout :: "pyfloat \<Rightarrow> string \<Rightarrow> string \<Rightarrow> rat \<Rightarrow> deployments \<Rightarrow> deployments \<times> string \<times> string \<times> rat \<times> pyfloat" where
  "start_rollout t i img canary d = (set_deployment_state t i DDeploying d, i, img, canary, t)"

definition health_state :: "int \<Rightarrow> int \<Rightarrow> deployment_state" where
  "health_state healthy desired = (if healthy \<ge> desired then DHealthy else if healthy > 0 then DDegraded else DFailed)"

definition validate_health :: "pyfloat \<Rightarrow> string \<Rightarrow> int \<Rightarrow> int \<Rightarrow> deployments \<Rightarrow> deployments \<times> deployment_state" where
  "validate_health t i healthy desired d =
     (let st = health_state healthy desired in (set_deployment_state t i st d, st))"

definition rollback_deployment :: "pyfloat \<Rightarrow> pyfloat \<Rightarrow> string \<Rightarrow> deployments \<Rightarrow> deployments" where
  "rollback_deployment t t' i d = set_deployment_state t' i DRollingBack (graceful_shutdown_marker t i d)"

datatype deployment_op =
    CreateDeployment pyfloat string string string int
  | SetState pyfloat string deployment_state
  | BumpRestart pyfloat string
  | MarkHealthy pyfloat string int
  | StartRollout pyfloat string string rat
  | ValidateHealth pyfloat string int int
  | RollbackDeployment pyfloat pyfloat string

fun deployment_step :: "deployment_op \<Rightarrow> deployments \<Rightarrow> deployments" where
  "deployment_step (CreateDeployment t i nm im n) d = create_deployment t i nm im n d"
| "deployment_step (SetState t i st) d = set_deployment_state t i st d"
| "deployment_step (BumpRestart t i) d = bump_restart t i d"
| "deployment_step (MarkHealthy t i h) d = mark_healthy t i h d"
| "deployment_step (StartRollout t i im c) d = fst (start_rollout t i im c d)"
| "deployment_step (ValidateHealth t i h n) d = fst (validate_health t i h n d)"
| "deployment_step (RollbackDeployment t t' i) d = rollback_deployment t t' i d"

fun creates :: "string \<Rightarrow> deployment_op \<Rightarrow> bool" where
  "creates j (CreateDeployment t i nm im n) = (i = j)"
| "creates j opn = False"

lemma on_row_dget: "dget (on_row i f d) j = (if j = i then map_option f (dget d i) else dget d j)"
  by (auto simp: on_row_def split: option.split)

lemmas deployment_ops = set_deployment_state_def bump_restart_def mark_healthy_def start_rollout_def validate_health_def
  rollback_deployment_def graceful_shutdown_marker_def on_row_dget

lemma deployment_step_keeps:
  "\<not> creates i opn \<Longrightarrow> map_option (\<lambda>r. (dp_name r, dp_image r, dp_desired_replicas r, dp_healthy_replicas r)) (dget (deployment_step opn d) i)
     = map_option (\<lambda>r. (dp_name r, dp_image r, dp_desired_replicas r, dp_healthy_replicas r)) (dget d i)"
  by (cases opn) (auto simp: deployment_ops create_deployment_def Let_def option.map_comp comp_def)

text \<open>
  a rollout changes nothing but a state: whatever rollouts, health validations and roll-backs
  follow its creation, the record of a deployment keeps its image, its replica target and the zero
  healthy replicas that it was created with.
\<close>

theorem rollout_keeps_image:
  assumes "list_all (\<lambda>opn. \<not> creates i opn) ops"
  shows "map_option (\<lambda>r. (dp_image r, dp_desired_replicas r, dp_healthy_replicas r))
      (dget (fold deployment_step ops (create_deployment t i name img n d)) i) = Some (img, n, 0)"
proof -
  let ?key = "\<lambda>d. map_option (\<lambda>r. (dp_name r, dp_image r, dp_desired_replicas r, dp_healthy_replicas r)) (dget d i)"
  have "?key (fold deployment_step ops d) = ?key d" for d
    using assms by (induction ops arbitrary: d) (simp_all add: deployment_step_keeps)
  then have "?key (fold deployment_step ops (create_deployment t i name img n d)) = Some (name, img, n, 0)"
    by (simp add: create_deployment_def)
  then show ?thesis by auto
qed

theorem rollout_keeps_image_witness:
  "map_option dp_image (dget (fold deployment_step [StartRollout 2 ''d'' ''img:2'' (1 / 10), ValidateHealth 3 ''d'' 0 2,
      RollbackDeployment 4 4 ''d''] (create_deployment 1 ''d'' ''web'' ''img:1'' 2 [])) ''d'') = Some ''img:1''"
  using rollout_keeps_image [of "''d''" "[StartRollout 2 ''d'' ''img:2'' (1 / 10), ValidateHealth 3 ''d'' 0 2,
      RollbackDeployment 4 4 ''d'']" 1 "''web''" "''img:1''" 2 "[]"]
  by (auto simp: )

section \<open>Resources and sandboxes\<close>

datatype workload_kind = Inference | Embeddings | Reranking | FineTuning | BatchGeneration | StreamingInference

record workload_spec =
  ws_kind :: workload_kind
  ws_gpu_required :: bool
  ws_vram_mb_estimate :: int
  ws_gpu_devices :: "string list"

record allocation =
  al_cpu_cores :: rat
  al_memory_mb :: int
  al_gpu_devices :: "string list"
  al_vram_mb :: int

definition allocate :: "int \<Rightarrow> workload_spec \<Rightarrow> int \<Rightarrow> allocation" where
  "allocate cluster_mem_mb spec available_gpus =
     \<lparr>al_cpu_cores = (if ws_gpu_required spec then 1 else 1 / 2),
      al_memory_mb = min (ws_vram_mb_estimate spec + 1024) (cluster_mem_mb div 4),
      al_gpu_devices = (if ws_gpu_required spec \<and> available_gpus > 0 then [''0''] else []),
      al_vram_mb = ws_vram_mb_estimate spec\<rparr>"

datatype network_policy = NetDefault | NetNone

record sandbox_profile =
  sp_read_only_root :: bool
  sp_network :: network_policy
  sp_memory_mb :: "int option"
  sp_cpu_quota :: "rat option"
  sp_gpu_devices :: "string list"

definition profile_for_workload :: "workload_spec \<Rightarrow> sandbox_profile" where
  "profile_for_workload spec =
     \<lparr>sp_read_only_root = True,
      sp_network = (if ws_kind spec = BatchGeneration \<or> ws_kind spec = FineTuning then NetNone else NetDefault),
      sp_memory_mb = Some (min (max (ws_vram_mb_estimate spec + 2048) 512) 131072),
      sp_cpu_quota = Some (if ws_gpu_required spec then 2 else 1),
      sp_gpu_devices = ws_gpu_devices spec\<rparr>"

text \<open>\<open>override.x or base.x\<close>: a zero is overridden like a missing value; the merged devices are a set.\<close>

definition or_base :: "'a::zero option \<Rightarrow> 'a option \<Rightarrow> 'a option" where
  "or_base x base = (case x of Some v \<Rightarrow> if v = 0 then base else Some v | None \<Rightarrow> base)"

definition merge_profiles :: "sandbox_profile \<Rightarrow> sandbox_profile \<Rightarrow> bool \<times> network_policy \<times> int option \<times> rat option \<times> string set" where
  "merge_profiles base override =
     (sp_read_only_root override, sp_network override, or_base (sp_memory_mb override) (sp_memory_mb base),
      or_base (sp_cpu_quota override) (sp_cpu_quota base), set (sp_gpu_devices base) \<union> set (sp_gpu_devices override))"

text \<open>A default profile as override lifts the restrictions of the base.\<close>

lemma merge_lifts_restrictions:
  "merge_profiles (profile_for_workload spec)
     \<lparr>sp_read_only_root = False, sp_network = NetDefault, sp_memory_mb = None, sp_cpu_quota = None, sp_gpu_devices = []\<rparr>
   = (False, NetDefault, sp_memory_mb (profile_for_workload spec), sp_cpu_quota (profile_for_workload spec), set (ws_gpu_devices spec))"
  by (simp add: merge_profiles_def or_base_def profile_for_workload_def)

text \<open>The docker command line of \<open>container_runtime.py\<close>, from the profile to the image.\<close>

definition sandbox_bounds_ok :: "workload_spec \<Rightarrow> bool" where
  "sandbox_bounds_ok spec \<longleftrightarrow> (case sp_memory_mb (profile_for_workload spec) of Some mb \<Rightarrow> 512 \<le> mb \<and> mb \<le> 131072 | None \<Rightarrow> False)"

lemma sandbox_bounded: "sandbox_bounds_ok spec"
  by (simp add: sandbox_bounds_ok_def profile_for_workload_def)

end
