(* ===== verification/Coordinator.thy ===== *)
theory Coordinator
  imports Prelude
begin

text \<open>
  \<open>control_plane/coordinator.py\<close>: which replica of the control plane runs the loops that change the
  cluster. The PostgreSQL coordinator polls a session advisory lock. The lock of the server is the
  session that holds it: a poll is granted when the lock is free or its own, refused when another
  session holds it, and fails when the connection does; a session that ends frees its lock. The
  replicas and the server together are a step relation. The Raft coordinator asks a third-party
  object: what its probes answer is an argument.
\<close>

section \<open>The choice of a coordinator\<close>

datatype coordinator_kind = SingleKind | PostgresKind | RaftKind

datatype coordinator_error = DatabaseUrlRequired

definition build_coordinator :: "string \<Rightarrow> string \<Rightarrow> coordinator_error + coordinator_kind" where
  "build_coordinator mode_env dsn =
     (let mode = py_lower mode_env
      in if mode \<in> {''postgres'', ''pg'', ''postgres_lock'', ''sql''}
         then if \<not> starts_with ''postgresql'' dsn then Inl DatabaseUrlRequired else Inr PostgresKind
         else if mode = ''raft'' then Inr RaftKind
         else Inr SingleKind)"

section \<open>The PostgreSQL coordinator\<close>

text \<open>
  Replicas are numbered. \<open>co_leader\<close> is the flag \<open>_is_leader\<close>, \<open>co_was\<close> the variable \<open>was_leader\<close> of
  the loop, \<open>co_holder\<close> the session that holds the lock; \<open>co_stale\<close> records the replicas whose
  session ended since they last polled.
\<close>

record coordination =
  co_leader :: "nat \<Rightarrow> bool"
  co_was :: "nat \<Rightarrow> bool"
  co_holder :: "nat option"
  co_stale :: "nat set"

definition initial_coordination :: coordination where
  "initial_coordination = \<lparr>co_leader = (\<lambda>_. False), co_was = (\<lambda>_. False), co_holder = None, co_stale = {}\<rparr>"

definition freed :: "nat \<Rightarrow> nat option \<Rightarrow> nat option" where
  "freed r holder = (if holder = Some r then None else holder)"

text \<open>What a replica does with the answer of a poll; a lost office closes the connection.\<close>

definition after_poll :: "nat \<Rightarrow> bool \<Rightarrow> nat option \<Rightarrow> coordination \<Rightarrow> coordination" where
  "after_poll r ok holder s =
     s\<lparr>co_leader := (co_leader s)(r := ok), co_was := (co_was s)(r := ok),
       co_holder := (if \<not> ok \<and> co_was s r then freed r holder else holder),
       co_stale := co_stale s - {r}\<rparr>"

definition after_start :: "nat \<Rightarrow> bool \<Rightarrow> nat option \<Rightarrow> coordination \<Rightarrow> coordination" where
  "after_start r ok holder s =
     s\<lparr>co_leader := (co_leader s)(r := ok), co_was := (co_was s)(r := False), co_holder := holder,
       co_stale := co_stale s - {r}\<rparr>"

text \<open>What the server answers: granted, refused, or a failure that may still have taken the lock.\<close>

inductive pg_answer :: "nat \<Rightarrow> nat option \<Rightarrow> bool \<Rightarrow> nat option \<Rightarrow> bool" where
  granted: "holder = None \<or> holder = Some r \<Longrightarrow> pg_answer r holder True (Some r)"
| refused: "q \<noteq> r \<Longrightarrow> pg_answer r (Some q) False (Some q)"
| failed: "pg_answer r holder False holder"
| answer_lost: "holder = None \<Longrightarrow> pg_answer r holder False (Some r)"

inductive coord_step :: "coordination \<Rightarrow> coordination \<Rightarrow> bool" where
  start: "pg_answer r (co_holder s) ok holder \<Longrightarrow> coord_step s (after_start r ok holder s)"
| poll: "pg_answer r (co_holder s) ok holder \<Longrightarrow> coord_step s (after_poll r ok holder s)"
| stop: "coord_step s (s\<lparr>co_leader := (co_leader s)(r := False), co_holder := freed r (co_holder s)\<rparr>)"
| dropped: "coord_step s (s\<lparr>co_holder := freed r (co_holder s), co_stale := insert r (co_stale s)\<rparr>)"

inductive_cases pg_answerE: "pg_answer r holder ok holder'"
inductive_cases coord_stepE: "coord_step s s'"
inductive_simps pg_answer_True [simp]: "pg_answer r holder True holder'"

inductive reachable :: "coordination \<Rightarrow> bool" where
  init: "reachable initial_coordination"
| step: "reachable s \<Longrightarrow> coord_step s s' \<Longrightarrow> reachable s'"

text \<open>A leader whose session lives holds the lock.\<close>

definition office_ok :: "coordination \<Rightarrow> bool" where
  "office_ok s \<longleftrightarrow> (\<forall>r. co_leader s r \<longrightarrow> r \<in> co_stale s \<or> co_holder s = Some r)"

lemma answer_keeps_others: "pg_answer r holder ok holder' \<Longrightarrow> q \<noteq> r \<Longrightarrow> holder = Some q \<Longrightarrow> holder' = Some q"
  by (auto elim: pg_answerE)

lemma office_step:
  assumes "office_ok s" "coord_step s s'"
  shows "office_ok s'"
  using assms(2)
proof cases
  case (start r ok holder)
  have "q \<in> co_stale s' \<or> co_holder s' = Some q" if "co_leader s' q" for q
  proof (cases "q = r")
    case True
    with that start show ?thesis by (auto simp: after_start_def)
  next
    case False
    with that start have "q \<in> co_stale s \<or> co_holder s = Some q" using assms(1) by (auto simp: after_start_def office_ok_def)
    with answer_keeps_others [OF start(2) False] False start(1) show ?thesis by (auto simp: after_start_def)
  qed
  then show ?thesis by (simp add: office_ok_def)
next
  case (poll r ok holder)
  have "q \<in> co_stale s' \<or> co_holder s' = Some q" if "co_leader s' q" for q
  proof (cases "q = r")
    case True
    with that poll show ?thesis by (auto simp: after_poll_def)
  next
    case False
    with that poll have "q \<in> co_stale s \<or> co_holder s = Some q" using assms(1) by (auto simp: after_poll_def office_ok_def)
    with answer_keeps_others [OF poll(2) False] False poll(1) show ?thesis by (auto simp: after_poll_def freed_def)
  qed
  then show ?thesis by (simp add: office_ok_def)
next
  case (stop r)
  with assms(1) show ?thesis by (auto simp: office_ok_def freed_def)
next
  case (dropped r)
  with assms(1) show ?thesis by (auto simp: office_ok_def freed_def)
qed

lemma office_reachable: "reachable s \<Longrightarrow> office_ok s"
  by (induction rule: reachable.induct) (simp add: office_ok_def initial_coordination_def, rule office_step)

text \<open>
  C26: two replicas of the control plane are leader at once only while one of them has lost its
  database session and has not polled since: among replicas with a live session there is one leader
  at most, in every order of starts, polls, lost answers, stops and lost connections.
\<close>

theorem leader_unique_while_connected:
  assumes "reachable s" "co_leader s r" "co_leader s q" "r \<noteq> q"
  shows "r \<in> co_stale s \<or> q \<in> co_stale s"
  using office_reachable [OF assms(1)] assms(2-4) by (metis office_ok_def option.inject)

definition split_office :: coordination where
  "split_office = after_poll 1 True (Some 1) (after_poll 0 True (Some 0) initial_coordination
     \<lparr>co_holder := None, co_stale := {0}\<rparr>)"

lemma split_office_reachable: "reachable split_office"
proof -
  let ?a = "after_poll 0 True (Some 0) initial_coordination"
  let ?b = "?a\<lparr>co_holder := freed 0 (co_holder ?a), co_stale := insert 0 (co_stale ?a)\<rparr>"
  have "reachable ?a" by (rule reachable.step [OF reachable.init]) (rule poll, simp add: initial_coordination_def)
  then have "reachable ?b" by (rule reachable.step) (rule dropped)
  then have "reachable (after_poll 1 True (Some 1) ?b)"
    by (rule reachable.step) (rule poll, simp add: freed_def after_poll_def initial_coordination_def)
  moreover have "?b = ?a\<lparr>co_holder := None, co_stale := {0}\<rparr>"
    by (simp add: freed_def after_poll_def initial_coordination_def)
  ultimately show ?thesis by (simp add: split_office_def)
qed

theorem leader_unique_while_connected_witness:
  "co_leader split_office 0 \<and> co_leader split_office 1 \<and> (0 \<in> co_stale split_office \<or> 1 \<in> co_stale split_office)"
proof -
  have "co_leader split_office 0" "co_leader split_office 1"
    by (simp_all add: split_office_def after_poll_def)
  with leader_unique_while_connected [OF split_office_reachable, of 0 1] show ?thesis by simp
qed

text \<open>A poll that fails or is refused ends the office, and a free lock is taken by whoever polls first.\<close>

lemma poll_outcome:
  "co_leader (after_poll r ok holder s) r = ok"
  "co_holder s = None \<Longrightarrow> pg_answer r (co_holder s) True (Some r)"
  by (simp_all add: after_poll_def)

text \<open>
  a leader that cannot reach the database steps down with the poll that fails and gives the
  lock back, and the next replica that polls, whichever it is, becomes leader.
\<close>

theorem office_handed_over:
  assumes "reachable s" "co_was s r" "co_holder s = Some r"
  shows "coord_step s (after_poll r False (Some r) s)
    \<and> \<not> co_leader (after_poll r False (Some r) s) r
    \<and> coord_step (after_poll r False (Some r) s) (after_poll q True (Some q) (after_poll r False (Some r) s))
    \<and> co_leader (after_poll q True (Some q) (after_poll r False (Some r) s)) q"
proof (intro conjI)
  let ?s = "after_poll r False (Some r) s"
  show "coord_step s ?s" by (rule poll) (simp only: assms(3), rule failed)
  show "\<not> co_leader ?s r" by (simp add: after_poll_def)
  have "co_holder ?s = None" using assms(2) by (simp add: after_poll_def freed_def)
  then show "coord_step ?s (after_poll q True (Some q) ?s)" by (intro poll) simp
  show "co_leader (after_poll q True (Some q) ?s) q" by (simp add: after_poll_def)
qed

theorem office_handed_over_witness:
  "co_leader (after_poll 5 True (Some 5) (after_poll 1 False (Some 1) split_office)) 5"
proof -
  have "co_was split_office 1" "co_holder split_office = Some 1" by (simp_all add: split_office_def after_poll_def)
  from office_handed_over [OF split_office_reachable this, of 5] show ?thesis by blast
qed

section \<open>The Raft coordinator\<close>

text \<open>
  The probes of the synchronised object: \<open>isLeader()\<close>, then the field \<open>leader\<close> of \<open>getStatus()\<close>,
  then \<open>_isLeader()\<close>; \<open>None\<close> is a probe that is missing or raises.
\<close>

definition leader_from_sync :: "bool \<Rightarrow> bool option \<Rightarrow> bool option \<Rightarrow> bool option \<Rightarrow> bool" where
  "leader_from_sync has_sync is_leader status private =
     (if \<not> has_sync then True
      else case is_leader of Some b \<Rightarrow> b
      | None \<Rightarrow> (case status of Some b \<Rightarrow> b
          | None \<Rightarrow> (case private of Some b \<Rightarrow> b | None \<Rightarrow> True)))"

text \<open>The flag and the presence of the synchronised object after \<open>start\<close>; the constructor sets the flag.\<close>

definition raft_start :: "string \<Rightarrow> bool \<Rightarrow> bool \<Rightarrow> bool \<times> bool" where
  "raft_start self_addr library_installed leader =
     (if self_addr = [] then (True, False) else if \<not> library_installed then (leader, False) else (leader, True))"

text \<open>
  A replica whose Raft library is missing, and one whose probes all fail, keep the office that the
  constructor gave them: several such replicas are leader at once.
\<close>

lemma raft_fails_open: "leader_from_sync True None None None" "fst (raft_start self_addr False True)"
  by (simp_all add: leader_from_sync_def raft_start_def)

end
