(* ===== verification/Paths.thy ===== *)
theory Paths
  imports Prelude
begin

text \<open>
  Weighted graphs and Dijkstra's labels, for the two searches of the system: \<open>InfraGraph\<close> picks the
  nearest unvisited node of a list, \<open>Fabric\<close> pops it from a heap. A graph is its edge relation; the
  labels are the dictionaries \<open>dist\<close> and \<open>prev\<close> of the code.
\<close>

section \<open>Walks\<close>

type_synonym 'n edges = "'n \<Rightarrow> 'n \<Rightarrow> rat \<Rightarrow> bool"

type_synonym 'n labels = "('n, rat) dict \<times> ('n, 'n) dict"

inductive walk :: "'n edges \<Rightarrow> 'n \<Rightarrow> 'n list \<Rightarrow> rat \<Rightarrow> bool" for E src where
  here: "walk E src [src] 0"
| there: "walk E src p c \<Longrightarrow> E (last p) n w \<Longrightarrow> walk E src (p @ [n]) (c + w)"

definition nonneg :: "'n edges \<Rightarrow> bool" where
  "nonneg E \<longleftrightarrow> (\<forall>a b w. E a b w \<longrightarrow> 0 \<le> w)"

lemma nonnegD: "nonneg E \<Longrightarrow> E a b w \<Longrightarrow> 0 \<le> w"
  by (simp add: nonneg_def)

lemma walk_nonneg: "walk E src p c \<Longrightarrow> nonneg E \<Longrightarrow> 0 \<le> c"
  by (induction rule: walk.induct) (use nonnegD in fastforce)+

section \<open>The way back\<close>

inductive traced :: "('n, 'n) dict \<Rightarrow> 'n \<Rightarrow> 'n list \<Rightarrow> bool" for prev where
  root: "dget prev n = None \<Longrightarrow> traced prev n [n]"
| trail: "dget prev n = Some m \<Longrightarrow> traced prev m q \<Longrightarrow> traced prev n (q @ [n])"

lemma traced_last: "traced prev n p \<Longrightarrow> p \<noteq> [] \<and> last p = n"
  by (induction rule: traced.induct) auto

lemma traced_other: "traced prev n p \<Longrightarrow> x \<notin> set p \<Longrightarrow> traced (dput x y prev) n p"
  by (induction rule: traced.induct) (auto intro!: traced.root traced.trail)

text \<open>Following \<open>prev\<close> back from the target, with fuel for every node.\<close>

fun walk_back :: "nat \<Rightarrow> ('n, 'n) dict \<Rightarrow> 'n \<Rightarrow> 'n list option" where
  "walk_back 0 prev n = None"
| "walk_back (Suc k) prev n =
     (case dget prev n of None \<Rightarrow> Some [n] | Some m \<Rightarrow> map_option (\<lambda>p. n # p) (walk_back k prev m))"

lemma walk_back_traced: "traced prev n p \<Longrightarrow> length p \<le> k \<Longrightarrow> walk_back k prev n = Some (rev p)"
proof (induction arbitrary: k rule: traced.induct)
  case (root n)
  then show ?case by (cases k) auto
next
  case (trail n m q)
  then obtain k' where "k = Suc k'" by (cases k) auto
  with trail show ?case by simp
qed

section \<open>Labels\<close>

text \<open>
  \<open>V\<close> are the visited nodes, \<open>us\<close> the unvisited ones and \<open>F\<close> the edges that have been relaxed, all of
  them out of \<open>V\<close>: every label is the cost of a walk that \<open>prev\<close> traces through visited nodes, no edge
  of \<open>F\<close> shortens a label, and no visited node is farther than an unvisited one.
\<close>

definition relaxed :: "('n, rat) dict \<Rightarrow> 'n \<Rightarrow> 'n \<Rightarrow> rat \<Rightarrow> bool" where
  "relaxed dd m n w \<longleftrightarrow> (\<forall>a. dget dd m = Some a \<longrightarrow> (\<exists>d. dget dd n = Some d \<and> d \<le> a + w))"

definition labels_ok :: "'n edges \<Rightarrow> 'n \<Rightarrow> 'n set \<Rightarrow> ('n \<times> 'n \<times> rat) set \<Rightarrow> 'n set \<Rightarrow> 'n labels \<Rightarrow> bool" where
  "labels_ok E src V F us s \<longleftrightarrow>
     dget (fst s) src = Some 0
     \<and> (\<forall>n d. dget (fst s) n = Some d \<longrightarrow> n \<in> V \<union> us
          \<and> (\<exists>p. traced (snd s) n p \<and> walk E src p d \<and> distinct p \<and> set p \<subseteq> insert n V))
     \<and> (\<forall>m \<in> V. \<exists>a. dget (fst s) m = Some a)
     \<and> (\<forall>m n w. (m, n, w) \<in> F \<longrightarrow> m \<in> V \<and> relaxed (fst s) m n w)
     \<and> (\<forall>m \<in> V. \<forall>u \<in> us. \<forall>a b. dget (fst s) m = Some a \<longrightarrow> dget (fst s) u = Some b \<longrightarrow> a \<le> b)"

lemma labels_okD:
  assumes "labels_ok E src V F us s"
  shows "dget (fst s) src = Some 0"
    and "dget (fst s) n = Some d \<Longrightarrow> n \<in> V \<union> us"
    and "dget (fst s) n = Some d \<Longrightarrow> \<exists>p. traced (snd s) n p \<and> walk E src p d \<and> distinct p \<and> set p \<subseteq> insert n V"
    and "m \<in> V \<Longrightarrow> \<exists>a. dget (fst s) m = Some a"
    and "(m, n, w) \<in> F \<Longrightarrow> m \<in> V \<and> relaxed (fst s) m n w"
    and "m \<in> V \<Longrightarrow> u \<in> us \<Longrightarrow> dget (fst s) m = Some a \<Longrightarrow> dget (fst s) u = Some b \<Longrightarrow> a \<le> b"
  using assms unfolding labels_ok_def by simp_all

lemma labels_init:
  assumes "src \<in> us"
  shows "labels_ok E src {} {} us ([(src, 0)], [])"
proof -
  have get: "dget (fst ([(src, 0)], [])) n = Some d \<longleftrightarrow> n = src \<and> d = 0" for n d by auto
  have "traced [] src [src]" by (rule traced.root) simp
  then show ?thesis
    unfolding labels_ok_def get using assms by (auto intro!: exI [of _ "[src]"] walk.here)
qed

text \<open>
  Every walk to a node costs at least its label if it is visited, and at least the least label of an
  unvisited node otherwise.
\<close>

definition covers :: "'n edges \<Rightarrow> 'n set \<Rightarrow> ('n \<times> 'n \<times> rat) set \<Rightarrow> bool" where
  "covers E V F \<longleftrightarrow> (\<forall>m n w. m \<in> V \<longrightarrow> E m n w \<longrightarrow> (m, n, w) \<in> F)"

lemma frontier:
  assumes ok: "labels_ok E src V F us s" and cov: "covers E V F" and nn: "nonneg E"
    and least: "\<forall>u \<in> us. \<forall>b. dget (fst s) u = Some b \<longrightarrow> (\<exists>m. least = Some m \<and> m \<le> b)"
    and above: "\<forall>m. least = Some m \<longrightarrow> (\<forall>v \<in> V. \<forall>a. dget (fst s) v = Some a \<longrightarrow> a \<le> m)"
    and walk: "walk E src p c"
  shows "(last p \<in> V \<and> (\<exists>d. dget (fst s) (last p) = Some d \<and> d \<le> c)) \<or> (last p \<notin> V \<and> (\<exists>m. least = Some m \<and> m \<le> c))"
  using walk
proof (induction rule: walk.induct)
  case here
  have src: "dget (fst s) src = Some 0" "src \<in> V \<union> us" using labels_okD(1,2) [OF ok] by blast+
  show ?case
  proof (cases "src \<in> V")
    case False
    with src least have "\<exists>m. least = Some m \<and> m \<le> 0" by blast
    with False show ?thesis by simp
  qed (use src in simp)
next
  case (there p c n w)
  have w: "0 \<le> w" using nonnegD [OF nn there.hyps(2)] .
  from there.IH show ?case
  proof (elim disjE conjE exE)
    fix d assume v: "last p \<in> V" and d: "dget (fst s) (last p) = Some d" "d \<le> c"
    have "(last p, n, w) \<in> F" using cov v there.hyps(2) by (simp add: covers_def)
    then obtain e where e: "dget (fst s) n = Some e" "e \<le> d + w"
      using labels_okD(5) [OF ok] d(1) unfolding relaxed_def by blast
    then have le: "e \<le> c + w" using d(2) by simp
    show ?thesis
    proof (cases "n \<in> V")
      case True
      with e le show ?thesis by auto
    next
      case False
      then have "n \<in> us" using labels_okD(2) [OF ok e(1)] by blast
      with least e(1) obtain m where "least = Some m" "m \<le> e" by blast
      with le False show ?thesis by auto
    qed
  next
    fix m assume m: "last p \<notin> V" "least = Some m" "m \<le> c"
    show ?thesis
    proof (cases "n \<in> V")
      case True
      then obtain a where a: "dget (fst s) n = Some a" using labels_okD(4) [OF ok] by blast
      have "a \<le> m" using above m(2) True a by blast
      with m(3) w True a show ?thesis by auto
    next
      case False
      with m w show ?thesis by auto
    qed
  qed
qed

text \<open>Visiting the nearest node.\<close>

lemma labels_visit:
  assumes ok: "labels_ok E src V F us s" and c: "c \<in> us" "dget (fst s) c = Some dc"
    and min: "\<forall>u \<in> us. \<forall>b. dget (fst s) u = Some b \<longrightarrow> dc \<le> b"
  shows "labels_ok E src (insert c V) F (us - {c}) s"
proof -
  have "\<exists>p. traced (snd s) n p \<and> walk E src p d \<and> distinct p \<and> set p \<subseteq> insert n (insert c V)"
    if n: "dget (fst s) n = Some d" for n d
  proof -
    obtain p where "traced (snd s) n p" "walk E src p d" "distinct p" "set p \<subseteq> insert n V"
      using labels_okD(3) [OF ok n] by blast
    then show ?thesis by (intro exI [of _ p]) auto
  qed
  moreover have "n \<in> insert c V \<union> (us - {c})" if "dget (fst s) n = Some d" for n d
    using labels_okD(2) [OF ok that] by blast
  moreover have "\<exists>a. dget (fst s) m = Some a" if "m \<in> insert c V" for m
    using that labels_okD(4) [OF ok] c(2) by blast
  moreover have "a \<le> b" if "m \<in> insert c V" "u \<in> us - {c}" "dget (fst s) m = Some a" "dget (fst s) u = Some b" for m u a b
  proof (cases "m = c")
    case True
    then have "a = dc" using that(3) c(2) by simp
    with that(2,4) min show ?thesis by blast
  next
    case False
    then have "m \<in> V" "u \<in> us" using that(1,2) by blast+
    then show ?thesis using labels_okD(6) [OF ok] that(3,4) by blast
  qed
  ultimately show ?thesis
    unfolding labels_ok_def using labels_okD(1,5) [OF ok] by simp
qed

section \<open>Relaxing an edge\<close>

definition improves :: "('n, rat) dict \<Rightarrow> 'n \<Rightarrow> rat \<Rightarrow> bool" where
  "improves dd n d = (case dget dd n of None \<Rightarrow> True | Some old \<Rightarrow> d < old)"

definition improve :: "'n \<Rightarrow> 'n \<Rightarrow> rat \<Rightarrow> 'n labels \<Rightarrow> 'n labels" where
  "improve c n d s = (dput n d (fst s), dput n c (snd s))"

lemma relaxed_improve:
  assumes "relaxed (fst s) m n w" "m \<noteq> nb" "improves (fst s) nb d"
  shows "relaxed (fst (improve c nb d s)) m n w"
  unfolding relaxed_def
proof (intro allI impI)
  fix a assume "dget (fst (improve c nb d s)) m = Some a"
  then have "dget (fst s) m = Some a" using assms(2) by (simp add: improve_def)
  then obtain e where e: "dget (fst s) n = Some e" "e \<le> a + w" using assms(1) unfolding relaxed_def by blast
  show "\<exists>e. dget (fst (improve c nb d s)) n = Some e \<and> e \<le> a + w"
  proof (cases "n = nb")
    case True
    then have "d < e" using assms(3) e(1) by (simp add: improves_def)
    with True e(2) show ?thesis by (simp add: improve_def)
  next
    case False
    with e show ?thesis by (simp add: improve_def)
  qed
qed

lemma improve_walk:
  assumes ok: "labels_ok E src V F us s" and c: "c \<in> V" "dget (fst s) c = Some dc"
    and nb: "nb \<notin> V" and e: "E c nb w"
  shows "\<exists>p. traced (snd (improve c nb (dc + w) s)) nb p \<and> walk E src p (dc + w) \<and> distinct p \<and> set p \<subseteq> insert nb V"
proof -
  obtain pc where pc: "traced (snd s) c pc" "walk E src pc dc" "distinct pc" "set pc \<subseteq> insert c V"
    using labels_okD(3) [OF ok c(2)] by blast
  have pcV: "set pc \<subseteq> V" using pc(4) c(1) by blast
  have "traced (snd (improve c nb (dc + w) s)) c pc"
    using traced_other [OF pc(1), of nb c] pcV nb by (auto simp: improve_def)
  then have "traced (snd (improve c nb (dc + w) s)) nb (pc @ [nb])" by (intro traced.trail) (simp add: improve_def)
  moreover have "last pc = c" using traced_last [OF pc(1)] by simp
  then have "walk E src (pc @ [nb]) (dc + w)" using walk.there [OF pc(2)] e by simp
  moreover have "distinct (pc @ [nb])" "set (pc @ [nb]) \<subseteq> insert nb V" using pc(3) pcV nb by auto
  ultimately show ?thesis by blast
qed

lemma labels_improve:
  assumes ok: "labels_ok E src V F us s" and c: "c \<in> V" "dget (fst s) c = Some dc"
    and top: "\<forall>v \<in> V. \<forall>a. dget (fst s) v = Some a \<longrightarrow> a \<le> dc" and nn: "nonneg E"
    and nb: "nb \<in> us" "nb \<notin> V" and e: "E c nb w" and less: "improves (fst s) nb (dc + w)"
  shows "labels_ok E src V F us (improve c nb (dc + w) s)"
proof -
  let ?s = "improve c nb (dc + w) s"
  have get: "dget (fst ?s) n = (if n = nb then Some (dc + w) else dget (fst s) n)" for n by (simp add: improve_def)
  have w0: "0 \<le> w" using nonnegD [OF nn e] .
  have dc0: "0 \<le> dc" using labels_okD(3) [OF ok c(2)] walk_nonneg [OF _ nn] by blast
  have src: "nb \<noteq> src"
    using less labels_okD(1) [OF ok] dc0 w0 by (auto simp: improves_def)
  have old: "\<exists>p. traced (snd ?s) n p \<and> walk E src p d \<and> distinct p \<and> set p \<subseteq> insert n V"
    if n: "n \<noteq> nb" "dget (fst s) n = Some d" for n d
  proof -
    obtain p where p: "traced (snd s) n p" "walk E src p d" "distinct p" "set p \<subseteq> insert n V"
      using labels_okD(3) [OF ok n(2)] by blast
    have "nb \<notin> set p" using p(4) nb(2) n(1) by blast
    then have "traced (snd ?s) n p" using traced_other [OF p(1)] by (simp add: improve_def)
    with p show ?thesis by blast
  qed
  show ?thesis
    unfolding labels_ok_def
  proof (intro conjI)
    show "dget (fst ?s) src = Some 0" using labels_okD(1) [OF ok] src by (simp add: get)
    show "\<forall>n d. dget (fst ?s) n = Some d \<longrightarrow> n \<in> V \<union> us
        \<and> (\<exists>p. traced (snd ?s) n p \<and> walk E src p d \<and> distinct p \<and> set p \<subseteq> insert n V)"
    proof (intro allI impI)
      fix n d assume d: "dget (fst ?s) n = Some d"
      show "n \<in> V \<union> us \<and> (\<exists>p. traced (snd ?s) n p \<and> walk E src p d \<and> distinct p \<and> set p \<subseteq> insert n V)"
      proof (cases "n = nb")
        case True
        then have "d = dc + w" using d by (simp add: get)
        with improve_walk [OF ok c nb(2), of w] e True nb(1) show ?thesis by blast
      next
        case False
        then have "dget (fst s) n = Some d" using d by (simp add: get)
        with old [OF False] labels_okD(2) [OF ok] show ?thesis by blast
      qed
    qed
    show "\<forall>m \<in> V. \<exists>a. dget (fst ?s) m = Some a" using labels_okD(4) [OF ok] by (auto simp: get)
    show "\<forall>m n u. (m, n, u) \<in> F \<longrightarrow> m \<in> V \<and> relaxed (fst ?s) m n u"
    proof (intro allI impI)
      fix m n u assume "(m, n, u) \<in> F"
      with labels_okD(5) [OF ok] have m: "m \<in> V" "relaxed (fst s) m n u" by blast+
      then have "m \<noteq> nb" using nb(2) by blast
      with relaxed_improve [OF m(2) _ less] m(1) show "m \<in> V \<and> relaxed (fst ?s) m n u" by blast
    qed
    show "\<forall>m \<in> V. \<forall>u \<in> us. \<forall>a b. dget (fst ?s) m = Some a \<longrightarrow> dget (fst ?s) u = Some b \<longrightarrow> a \<le> b"
    proof (intro ballI allI impI)
      fix m u a b assume m: "m \<in> V" and u: "u \<in> us" and a: "dget (fst ?s) m = Some a" and b: "dget (fst ?s) u = Some b"
      have "m \<noteq> nb" using m nb(2) by blast
      then have a': "dget (fst s) m = Some a" using a by (simp add: get)
      show "a \<le> b"
      proof (cases "u = nb")
        case True
        then have "b = dc + w" using b by (simp add: get)
        moreover have "a \<le> dc" using top m a' by blast
        ultimately show ?thesis using w0 by simp
      next
        case False
        then have "dget (fst s) u = Some b" using b by (simp add: get)
        with labels_okD(6) [OF ok m u a'] show ?thesis by blast
      qed
    qed
  qed
qed

lemma labels_insert_edge:
  "labels_ok E src V F us s \<Longrightarrow> m \<in> V \<Longrightarrow> relaxed (fst s) m n w \<Longrightarrow> labels_ok E src V (insert (m, n, w) F) us s"
  unfolding labels_ok_def by blast

text \<open>
  What one turn of the loop over the neighbours does: the edge counts as relaxed afterwards, and the
  labels of visited nodes stay.
\<close>

lemma labels_relax:
  assumes ok: "labels_ok E src V F us s" and c: "c \<in> V" "dget (fst s) c = Some dc"
    and top: "\<forall>v \<in> V. \<forall>a. dget (fst s) v = Some a \<longrightarrow> a \<le> dc" and nn: "nonneg E"
    and disj: "V \<inter> us = {}" and nb: "nb \<in> V \<union> us" and e: "E c nb w"
  defines "s' \<equiv> (if nb \<in> us \<and> improves (fst s) nb (dc + w) then improve c nb (dc + w) s else s)"
  shows "labels_ok E src V (insert (c, nb, w) F) us s'" and "v \<in> V \<Longrightarrow> dget (fst s') v = dget (fst s) v"
proof -
  have ok': "labels_ok E src V F us s'"
    using labels_improve [OF ok c top nn _ _ e] ok disj unfolding s'_def by auto
  have same: "dget (fst s') v = dget (fst s) v" if "v \<in> V" for v
    using that disj by (auto simp: s'_def improve_def)
  have "relaxed (fst s') c nb w"
    unfolding relaxed_def same [OF c(1)] c(2)
  proof (intro allI impI)
    fix a assume "Some dc = Some a"
    then have a: "a = dc" by simp
    show "\<exists>d. dget (fst s') nb = Some d \<and> d \<le> a + w"
    proof (cases "nb \<in> us")
      case True
      then show ?thesis unfolding a
        by (cases "dget (fst s) nb") (auto simp: s'_def improve_def improves_def)
    next
      case False
      then have "nb \<in> V" using nb by blast
      then obtain b where b: "dget (fst s) nb = Some b" using labels_okD(4) [OF ok] by blast
      have "b \<le> dc" using top \<open>nb \<in> V\<close> b by blast
      with same [OF \<open>nb \<in> V\<close>] b nonnegD [OF nn e] show ?thesis unfolding a by force
    qed
  qed
  with labels_insert_edge [OF ok' c(1)] show "labels_ok E src V (insert (c, nb, w) F) us s'" by blast
  show "v \<in> V \<Longrightarrow> dget (fst s') v = dget (fst s) v" by (rule same)
qed

end
