(* ===== verification/InfraGraph.thy ===== *)
theory InfraGraph
  imports Paths
begin

text \<open>
  \<open>fabric_core/infrastructure_graph.py\<close>: the graph of regions, GPU clusters and edge nodes with its
  links, and Dijkstra's algorithm on it. Nodes, links and adjacency are dictionaries as in the code;
  a Python set of neighbours is the list of its elements in the order of insertion. A distance that
  is absent from \<open>dist\<close> is infinite. Of several nearest nodes the code takes one in the order of a
  hash set, the model the first in the order of the nodes.
\<close>

section \<open>The graph\<close>

datatype graph_node_type = NtRegion | NtGpuCluster | NtEdgeNode | NtComputePool

datatype link_type = LtBackbone | LtEdgeLink | LtOverlay | LtPeering

record graph_node =
  gn_id :: string
  gn_type :: graph_node_type
  gn_continent :: string
  gn_region_id :: string
  gn_gpu_count :: int
  gn_gpu_types :: "string list"
  gn_vram_gb :: rat
  gn_capacity :: rat
  gn_utilization :: rat
  gn_thermal_pressure :: rat
  gn_power_w :: rat
  gn_renewable_pct :: rat
  gn_carbon_intensity :: rat
  gn_status :: string
  gn_updated_at :: pyfloat

record graph_link =
  gl_source :: string
  gl_target :: string
  gl_type :: link_type
  gl_latency_ms :: rat
  gl_bandwidth_mbps :: rat
  gl_bandwidth_utilization :: rat
  gl_packet_loss_pct :: rat
  gl_encrypted :: bool
  gl_status :: string
  gl_updated_at :: pyfloat

record infra_graph =
  ig_nodes :: "(string, graph_node) dict"
  ig_links :: "(string, graph_link) dict"
  ig_adjacency :: "(string, string list) dict"

definition new_graph :: infra_graph where
  "new_graph = \<lparr>ig_nodes = [], ig_links = [], ig_adjacency = []\<rparr>"

definition link_key :: "string \<Rightarrow> string \<Rightarrow> string" where
  "link_key src tgt = src @ ''::'' @ tgt"

definition graph_neighbors :: "infra_graph \<Rightarrow> string \<Rightarrow> string list" where
  "graph_neighbors g n = (case dget (ig_adjacency g) n of Some ns \<Rightarrow> ns | None \<Rightarrow> [])"

definition add_graph_node :: "pyfloat \<Rightarrow> graph_node \<Rightarrow> infra_graph \<Rightarrow> infra_graph" where
  "add_graph_node t n g =
     g\<lparr>ig_nodes := dput (gn_id n) (n\<lparr>gn_updated_at := t\<rparr>) (ig_nodes g),
       ig_adjacency := (if dget (ig_adjacency g) (gn_id n) = None then dput (gn_id n) [] (ig_adjacency g)
                        else ig_adjacency g)\<rparr>"

definition unlink :: "string \<Rightarrow> string \<Rightarrow> infra_graph \<Rightarrow> infra_graph" where
  "unlink nid n g =
     g\<lparr>ig_adjacency := (case dget (ig_adjacency g) n of
          None \<Rightarrow> ig_adjacency g | Some ns \<Rightarrow> dput n (removeAll nid ns) (ig_adjacency g)),
       ig_links := ddel (link_key n nid) (ddel (link_key nid n) (ig_links g))\<rparr>"

definition remove_graph_node :: "string \<Rightarrow> infra_graph \<Rightarrow> infra_graph \<times> bool" where
  "remove_graph_node nid g =
     (if dget (ig_nodes g) nid = None then (g, False)
      else (fold (unlink nid) (graph_neighbors g nid)
              (g\<lparr>ig_nodes := ddel nid (ig_nodes g), ig_adjacency := ddel nid (ig_adjacency g)\<rparr>), True))"

definition add_neighbor :: "string \<Rightarrow> string \<Rightarrow> (string, string list) dict \<Rightarrow> (string, string list) dict" where
  "add_neighbor a b adj =
     (case dget adj a of None \<Rightarrow> dput a [b] adj | Some ns \<Rightarrow> if b \<in> set ns then adj else dput a (ns @ [b]) adj)"

definition add_graph_link :: "pyfloat \<Rightarrow> graph_link \<Rightarrow> infra_graph \<Rightarrow> infra_graph" where
  "add_graph_link t l g =
     g\<lparr>ig_links := dput (link_key (gl_source l) (gl_target l)) (l\<lparr>gl_updated_at := t\<rparr>) (ig_links g),
       ig_adjacency := add_neighbor (gl_target l) (gl_source l) (add_neighbor (gl_source l) (gl_target l) (ig_adjacency g))\<rparr>"

definition get_link :: "infra_graph \<Rightarrow> string \<Rightarrow> string \<Rightarrow> graph_link option" where
  "get_link g a b =
     (case dget (ig_links g) (link_key a b) of Some l \<Rightarrow> Some l | None \<Rightarrow> dget (ig_links g) (link_key b a))"

definition regions_by_continent :: "infra_graph \<Rightarrow> (string, string list) dict" where
  "regions_by_continent g =
     fold (\<lambda>n d. if gn_type n = NtRegion \<and> gn_continent n \<noteq> []
                 then dput (gn_continent n) ((case dget d (gn_continent n) of Some xs \<Rightarrow> xs | None \<Rightarrow> []) @ [gn_id n]) d
                 else d) (dvalues (ig_nodes g)) []"

definition hottest_nodes :: "nat \<Rightarrow> infra_graph \<Rightarrow> graph_node list" where
  "hottest_nodes limit g = take limit (sort_desc gn_thermal_pressure (dvalues (ig_nodes g)))"

definition most_utilized :: "nat \<Rightarrow> infra_graph \<Rightarrow> graph_node list" where
  "most_utilized limit g = take limit (sort_desc gn_utilization (dvalues (ig_nodes g)))"

definition least_utilized :: "nat \<Rightarrow> infra_graph \<Rightarrow> graph_node list" where
  "least_utilized limit g =
     take limit (sort_key gn_utilization (filter (\<lambda>n. gn_status n = ''active'') (dvalues (ig_nodes g))))"

definition congested_links :: "rat \<Rightarrow> infra_graph \<Rightarrow> graph_link list" where
  "congested_links threshold g = filter (\<lambda>l. gl_bandwidth_utilization l \<ge> threshold) (dvalues (ig_links g))"

section \<open>Shortest paths\<close>

definition usable :: "infra_graph \<Rightarrow> string \<Rightarrow> string \<Rightarrow> rat option" where
  "usable g a b =
     (case get_link g a b of
        None \<Rightarrow> None
      | Some l \<Rightarrow> if gl_status l \<noteq> ''active'' then None else Some (gl_latency_ms l))"

definition dist_key :: "(string, rat) dict \<Rightarrow> string \<Rightarrow> bool \<times> rat" where
  "dist_key dd n = (case dget dd n of None \<Rightarrow> (True, 0) | Some d \<Rightarrow> (False, d))"

definition relax :: "infra_graph \<Rightarrow> string \<Rightarrow> rat \<Rightarrow> string list \<Rightarrow> string \<Rightarrow> string labels \<Rightarrow> string labels" where
  "relax g current dc unvisited nb s =
     (if nb \<notin> set unvisited then s
      else case usable g current nb of
             None \<Rightarrow> s
           | Some w \<Rightarrow>
               if (case dget (fst s) nb of None \<Rightarrow> True | Some old \<Rightarrow> dc + w < old)
               then (dput nb (dc + w) (fst s), dput nb current (snd s)) else s)"

definition nearest :: "(string, rat) dict \<Rightarrow> string list \<Rightarrow> string" where
  "nearest dd unvisited = py_min (dist_key dd) (hd unvisited) (tl unvisited)"

lemma nearest_in: "unvisited \<noteq> [] \<Longrightarrow> nearest dd unvisited \<in> set unvisited"
  using py_min_in [of "dist_key dd" "hd unvisited" "tl unvisited"] by (cases unvisited) (simp_all add: nearest_def)

function visit_all :: "infra_graph \<Rightarrow> string \<Rightarrow> string list \<Rightarrow> string labels \<Rightarrow> string labels" where
  "visit_all g tgt unvisited s =
     (if unvisited = [] then s
      else let current = nearest (fst s) unvisited
           in case dget (fst s) current of
                None \<Rightarrow> s
              | Some dc \<Rightarrow>
                  if current = tgt then s
                  else let rest = remove1 current unvisited
                       in visit_all g tgt rest (fold (relax g current dc rest) (graph_neighbors g current) s))"
  by auto
termination
  by (relation "measure (\<lambda>(g, tgt, unvisited, s). length unvisited)")
    (auto simp: length_remove1 nearest_in length_greater_0_conv)

declare visit_all.simps [simp del]

text \<open>The path and its latency; \<open>None\<close> is an infinite latency.\<close>

definition shortest_path :: "infra_graph \<Rightarrow> string \<Rightarrow> string \<Rightarrow> string list \<times> rat option" where
  "shortest_path g src tgt =
     (if dget (ig_nodes g) src = None \<or> dget (ig_nodes g) tgt = None then ([], None)
      else let (dd, prev) = visit_all g tgt (dkeys (ig_nodes g)) ([(src, 0)], [])
           in case dget dd tgt of
                None \<Rightarrow> ([], None)
              | Some d \<Rightarrow> (case walk_back (length (ig_nodes g)) prev tgt of
                            None \<Rightarrow> ([], Some d) | Some p \<Rightarrow> (rev p, Some d)))"

section \<open>Walks\<close>

definition edge :: "infra_graph \<Rightarrow> string \<Rightarrow> string \<Rightarrow> rat \<Rightarrow> bool" where
  "edge g a b w \<longleftrightarrow> b \<in> set (graph_neighbors g a) \<and> dget (ig_nodes g) b \<noteq> None \<and> usable g a b = Some w"

definition nonneg_links :: "infra_graph \<Rightarrow> bool" where
  "nonneg_links g \<longleftrightarrow> list_all (\<lambda>l. 0 \<le> gl_latency_ms l) (dvalues (ig_links g))"

lemma edge_nonneg: "nonneg_links g \<Longrightarrow> nonneg (edge g)"
  by (force simp: nonneg_def edge_def usable_def get_link_def nonneg_links_def list_all_iff
      split: option.splits if_splits dest!: dget_SomeD)

section \<open>The search\<close>

lemma nearest_least:
  assumes "u \<in> set us" "dget dd u = Some b"
  shows "\<exists>m. dget dd (nearest dd us) = Some m \<and> m \<le> b"
proof -
  have "dist_key dd (nearest dd us) \<le> dist_key dd u"
    unfolding nearest_def by (rule py_min_le) (use assms(1) in \<open>cases us; auto\<close>)
  then show ?thesis using assms(2)
    by (cases "dget dd (nearest dd us)") (auto simp: dist_key_def less_eq_prod_def)
qed

text \<open>\<open>relax\<close> follows an edge to an unvisited neighbour, and relaxes it.\<close>

lemma relax_edge:
  "edge g c nb w \<Longrightarrow> relax g c dc rest nb s =
     (if nb \<in> set rest \<and> improves (fst s) nb (dc + w) then improve c nb (dc + w) s else s)"
  by (auto simp: relax_def edge_def improves_def improve_def)

lemma relax_no_edge:
  "nb \<in> set (graph_neighbors g c) \<Longrightarrow> set rest \<subseteq> fst ` set (ig_nodes g) \<Longrightarrow> \<nexists>w. edge g c nb w \<Longrightarrow> relax g c dc rest nb s = s"
  by (auto simp: relax_def edge_def dget_None_iff split: option.splits)

definition edges_to :: "infra_graph \<Rightarrow> string \<Rightarrow> string list \<Rightarrow> (string \<times> string \<times> rat) set" where
  "edges_to g c ns = {(m, n, w). m = c \<and> n \<in> set ns \<and> edge g c n w}"

lemma edge_fun: "edge g c n w \<Longrightarrow> edge g c n u \<Longrightarrow> u = w"
  by (simp add: edge_def)

lemma edges_to_Nil [simp]: "edges_to g c [] = {}"
  by (auto simp: edges_to_def)

lemma labels_relax_all:
  assumes "labels_ok (edge g) src V F (set rest) s" "c \<in> V" "dget (fst s) c = Some dc"
    and "V \<inter> set rest = {}" "V \<union> set rest = fst ` set (ig_nodes g)" "nonneg (edge g)"
    and "\<forall>v \<in> V. \<forall>a. dget (fst s) v = Some a \<longrightarrow> a \<le> dc"
    and "set ns \<subseteq> set (graph_neighbors g c)"
  shows "labels_ok (edge g) src V (F \<union> edges_to g c ns) (set rest) (fold (relax g c dc rest) ns s)"
  using assms
proof (induction ns arbitrary: s F)
  case Nil
  then show ?case by simp
next
  case (Cons nb ns)
  have nb: "nb \<in> set (graph_neighbors g c)" using Cons.prems(8) by simp
  have ns: "set ns \<subseteq> set (graph_neighbors g c)" using Cons.prems(8) by simp
  show ?case
  proof (cases "\<exists>w. edge g c nb w")
    case True
    then obtain w where w: "edge g c nb w" by blast
    have in_nodes: "nb \<in> V \<union> set rest" using w Cons.prems(5) by (auto simp: edge_def dget_None_iff)
    note one = labels_relax [OF Cons.prems(1-3,7,6,4) in_nodes w, folded relax_edge [OF w]]
    have "dget (fst (relax g c dc rest nb s)) c = Some dc" using one(2) [OF Cons.prems(2)] Cons.prems(3) by simp
    moreover have "\<forall>v \<in> V. \<forall>a. dget (fst (relax g c dc rest nb s)) v = Some a \<longrightarrow> a \<le> dc"
      using one(2) Cons.prems(7) by auto
    ultimately have "labels_ok (edge g) src V (insert (c, nb, w) F \<union> edges_to g c ns) (set rest)
        (fold (relax g c dc rest) ns (relax g c dc rest nb s))"
      by (intro Cons.IH one(1) Cons.prems(2,4,5,6) ns) simp_all
    moreover have "insert (c, nb, w) F \<union> edges_to g c ns = F \<union> edges_to g c (nb # ns)"
      using w by (auto simp: edges_to_def dest: edge_fun)
    ultimately show ?thesis by simp
  next
    case False
    have "edges_to g c (nb # ns) = edges_to g c ns" using False by (auto simp: edges_to_def)
    moreover have "relax g c dc rest nb s = s" using relax_no_edge [OF nb _ False] Cons.prems(5) by blast
    ultimately show ?thesis using Cons.IH [OF Cons.prems(1-7) ns] by simp
  qed
qed

lemma visit_all_correct:
  assumes "labels_ok (edge g) src V F (set us) s" "covers (edge g) V F" "V \<inter> set us = {}" "V \<union> set us = fst ` set (ig_nodes g)"
    and "distinct us" "nonneg (edge g)" "tgt \<in> set us"
  shows "(\<forall>p c. walk (edge g) src p c \<longrightarrow> last p = tgt \<longrightarrow> (\<exists>d. dget (fst (visit_all g tgt us s)) tgt = Some d \<and> d \<le> c))
    \<and> (\<forall>d. dget (fst (visit_all g tgt us s)) tgt = Some d \<longrightarrow>
        (\<exists>p. traced (snd (visit_all g tgt us s)) tgt p \<and> walk (edge g) src p d \<and> distinct p \<and> set p \<subseteq> fst ` set (ig_nodes g)))"
  using assms
proof (induction g tgt us s arbitrary: V F rule: visit_all.induct)
  case (1 g tgt us s)
  let ?c = "nearest (fst s) us"
  have ne: "us \<noteq> []" using "1.prems"(7) by auto
  have cin: "?c \<in> set us" by (rule nearest_in [OF ne])
  have tgtV: "tgt \<notin> V" using "1.prems"(3,7) by blast
  have least: "\<forall>u \<in> set us. \<forall>b. dget (fst s) u = Some b \<longrightarrow> (\<exists>m. dget (fst s) ?c = Some m \<and> m \<le> b)"
    using nearest_least by blast
  have above: "\<forall>m. dget (fst s) ?c = Some m \<longrightarrow> (\<forall>v \<in> V. \<forall>a. dget (fst s) v = Some a \<longrightarrow> a \<le> m)"
    using labels_okD(6) [OF "1.prems"(1) _ cin] by blast
  note front = frontier [OF "1.prems"(1,2,6) least above]
  have sub: "V \<subseteq> fst ` set (ig_nodes g)" "tgt \<in> fst ` set (ig_nodes g)" using "1.prems"(4,7) by blast+
  have here: "\<exists>p. traced (snd s) tgt p \<and> walk (edge g) src p d \<and> distinct p \<and> set p \<subseteq> fst ` set (ig_nodes g)"
    if d: "dget (fst s) tgt = Some d" for d
  proof -
    obtain p where "traced (snd s) tgt p" "walk (edge g) src p d" "distinct p" "set p \<subseteq> insert tgt V"
      using labels_okD(3) [OF "1.prems"(1) d] by blast
    with sub show ?thesis by (intro exI [of _ p]) auto
  qed
  show ?case
  proof (cases "dget (fst s) ?c")
    case None
    have "visit_all g tgt us s = s" using None ne by (simp add: visit_all.simps [of g tgt us s] Let_def)
    moreover have False if "walk (edge g) src p c" "last p = tgt" for p c
      using front [OF that(1)] that(2) tgtV None by auto
    ultimately show ?thesis using here by auto
  next
    case (Some dc)
    show ?thesis
    proof (cases "?c = tgt")
      case True
      have res: "visit_all g tgt us s = s" using Some True ne by (simp add: visit_all.simps [of g tgt us s] Let_def)
      have "\<exists>d. dget (fst s) tgt = Some d \<and> d \<le> c" if "walk (edge g) src p c" "last p = tgt" for p c
        using front [OF that(1)] that(2) tgtV True by auto
      then show ?thesis unfolding res using here by blast
    next
      case False
      let ?rest = "remove1 ?c us"
      let ?s = "fold (relax g ?c dc ?rest) (graph_neighbors g ?c) s"
      have res: "visit_all g tgt us s = visit_all g tgt ?rest ?s"
        using Some False ne by (simp add: visit_all.simps [of g tgt us s] Let_def)
      have rest: "set ?rest = set us - {?c}" using "1.prems"(5) by simp
      have min: "\<forall>u \<in> set us. \<forall>b. dget (fst s) u = Some b \<longrightarrow> dc \<le> b"
        using least Some by auto
      have ok1: "labels_ok (edge g) src (insert ?c V) F (set ?rest) s"
        unfolding rest by (rule labels_visit [OF "1.prems"(1) cin Some min])
      have disj: "insert ?c V \<inter> set ?rest = {}" using "1.prems"(3) unfolding rest by blast
      have un: "insert ?c V \<union> set ?rest = fst ` set (ig_nodes g)" using "1.prems"(4) cin unfolding rest by blast
      have top: "\<forall>v \<in> insert ?c V. \<forall>a. dget (fst s) v = Some a \<longrightarrow> a \<le> dc"
        using above Some by auto
      let ?F = "F \<union> edges_to g ?c (graph_neighbors g ?c)"
      have ok2: "labels_ok (edge g) src (insert ?c V) ?F (set ?rest) ?s"
        by (rule labels_relax_all [OF ok1 _ Some disj un "1.prems"(6) top]) auto
      have cov: "covers (edge g) (insert ?c V) ?F"
        using "1.prems"(2) by (auto simp: covers_def edges_to_def edge_def)
      have "tgt \<in> set ?rest" using "1.prems"(7) False unfolding rest by blast
      then show ?thesis
        unfolding res using "1.IH" [OF ne refl Some False refl ok2 cov disj un _ "1.prems"(6)] "1.prems"(5) by simp
    qed
  qed
qed

text \<open>
  C6: the path that the graph engine returns is a shortest path: when no link has a negative latency,
  it is a walk over active links between existing nodes that costs the latency returned with it, no
  other walk costs less, and an infinite latency is returned only when there is no walk at all.
\<close>

theorem shortest_path_optimal:
  assumes "nonneg_links g" "dwf (ig_nodes g)" "dget (ig_nodes g) src \<noteq> None" "dget (ig_nodes g) tgt \<noteq> None"
  shows "case shortest_path g src tgt of
      (path, None) \<Rightarrow> path = [] \<and> (\<nexists>p c. walk (edge g) src p c \<and> last p = tgt)
    | (path, Some d) \<Rightarrow> walk (edge g) src path d \<and> last path = tgt \<and> distinct path
        \<and> (\<forall>p c. walk (edge g) src p c \<and> last p = tgt \<longrightarrow> d \<le> c)"
proof -
  let ?us = "dkeys (ig_nodes g)"
  let ?s0 = "([(src, 0)], []) :: string labels"
  have nodes: "src \<in> set ?us" "tgt \<in> set ?us" using assms(3,4) by (simp_all add: dget_None_iff)
  have ok: "labels_ok (edge g) src {} {} (set ?us) ?s0" by (rule labels_init [OF nodes(1)])
  have cov: "covers (edge g) {} {}" by (simp add: covers_def)
  have "distinct ?us" using assms(2) by (simp add: dwf_def)
  note vis = visit_all_correct [OF ok cov _ _ this edge_nonneg [OF assms(1)] nodes(2)]
  obtain dd prev where run: "visit_all g tgt ?us ?s0 = (dd, prev)" by fastforce
  have vis: "(\<forall>p c. walk (edge g) src p c \<longrightarrow> last p = tgt \<longrightarrow> (\<exists>d. dget dd tgt = Some d \<and> d \<le> c))
    \<and> (\<forall>d. dget dd tgt = Some d \<longrightarrow>
        (\<exists>p. traced prev tgt p \<and> walk (edge g) src p d \<and> distinct p \<and> set p \<subseteq> fst ` set (ig_nodes g)))"
    using vis unfolding run by simp
  have sp: "shortest_path g src tgt = (case dget dd tgt of None \<Rightarrow> ([], None)
      | Some d \<Rightarrow> (case walk_back (length (ig_nodes g)) prev tgt of None \<Rightarrow> ([], Some d) | Some p \<Rightarrow> (rev p, Some d)))"
    using run by (simp only: shortest_path_def assms(3,4) simp_thms if_False Let_def prod.case)
  show ?thesis
  proof (cases "dget dd tgt")
    case None
    with vis sp show ?thesis by auto
  next
    case (Some d)
    then obtain p where p: "traced prev tgt p" "walk (edge g) src p d" "distinct p" "set p \<subseteq> fst ` set (ig_nodes g)"
      using vis by blast
    have "length p = card (set p)" using distinct_card [OF p(3)] by simp
    also have "\<dots> \<le> card (set ?us)" using p(4) by (intro card_mono) simp_all
    also have "\<dots> \<le> length (ig_nodes g)" using card_length [of ?us] by simp
    finally have "walk_back (length (ig_nodes g)) prev tgt = Some (rev p)" by (rule walk_back_traced [OF p(1)])
    then have "shortest_path g src tgt = (p, Some d)" using sp Some by simp
    moreover have "d \<le> c" if "walk (edge g) src q c" "last q = tgt" for q c
      using vis that Some by (metis option.inject)
    ultimately show ?thesis using p(2,3) traced_last [OF p(1)] by auto
  qed
qed

definition demo_node :: "string \<Rightarrow> graph_node" where
  "demo_node i = \<lparr>gn_id = i, gn_type = NtRegion, gn_continent = [], gn_region_id = i, gn_gpu_count = 0, gn_gpu_types = [],
     gn_vram_gb = 0, gn_capacity = 1, gn_utilization = 0, gn_thermal_pressure = 0, gn_power_w = 0, gn_renewable_pct = 0,
     gn_carbon_intensity = 0, gn_status = ''active'', gn_updated_at = 0\<rparr>"

definition demo_link :: "string \<Rightarrow> string \<Rightarrow> rat \<Rightarrow> graph_link" where
  "demo_link a b ms = \<lparr>gl_source = a, gl_target = b, gl_type = LtBackbone, gl_latency_ms = ms, gl_bandwidth_mbps = 0,
     gl_bandwidth_utilization = 0, gl_packet_loss_pct = 0, gl_encrypted = True, gl_status = ''active'', gl_updated_at = 0\<rparr>"

definition demo_graph :: infra_graph where
  "demo_graph = fold (add_graph_link 1) [demo_link ''a'' ''c'' 90, demo_link ''a'' ''b'' 20, demo_link ''b'' ''c'' 30]
     (fold (\<lambda>i. add_graph_node 0 (demo_node i)) [''a'', ''b'', ''c''] new_graph)"

theorem shortest_path_optimal_witness:
  "walk (edge demo_graph) ''a'' [''a'', ''b'', ''c''] 50 \<and> snd (shortest_path demo_graph ''a'' ''c'') = Some 50"
proof -
  have g: "nonneg_links demo_graph" "dwf (ig_nodes demo_graph)" "dget (ig_nodes demo_graph) ''a'' \<noteq> None"
      "dget (ig_nodes demo_graph) ''c'' \<noteq> None" "shortest_path demo_graph ''a'' ''c'' = ([''a'', ''b'', ''c''], Some 50)"
    by code_simp+
  show ?thesis using shortest_path_optimal [OF g(1-4)] g(5) by simp
qed

text \<open>Two links of different pairs can share a key, because the separator may occur in an id.\<close>

lemma link_keys_collide: "link_key ''a'' ''b::c'' = link_key ''a::b'' ''c''"
  by (simp add: link_key_def)

section \<open>Changes of the graph\<close>

datatype graph_op = AddNode pyfloat graph_node | RemoveNode string | AddLink pyfloat graph_link

fun graph_step :: "graph_op \<Rightarrow> infra_graph \<Rightarrow> infra_graph" where
  "graph_step (AddNode t n) g = add_graph_node t n g"
| "graph_step (RemoveNode i) g = fst (remove_graph_node i g)"
| "graph_step (AddLink t l) g = add_graph_link t l g"

definition symmetric_graph :: "infra_graph \<Rightarrow> bool" where
  "symmetric_graph g \<longleftrightarrow> (\<forall>a b. b \<in> set (graph_neighbors g a) \<longleftrightarrow> a \<in> set (graph_neighbors g b))"

lemma neighbors_add_node [simp]: "set (graph_neighbors (add_graph_node t n g) a) = set (graph_neighbors g a)"
  by (auto simp: graph_neighbors_def add_graph_node_def split: option.split)

lemma neighbors_add_link [simp]:
  "set (graph_neighbors (add_graph_link t l g) a) = set (graph_neighbors g a)
     \<union> (if a = gl_source l then {gl_target l} else {}) \<union> (if a = gl_target l then {gl_source l} else {})"
  by (auto simp: graph_neighbors_def add_graph_link_def add_neighbor_def split: option.split)

lemma neighbors_unlink: "set (graph_neighbors (unlink nid n g) a) = set (graph_neighbors g a) - (if a = n then {nid} else {})"
  by (auto simp: graph_neighbors_def unlink_def split: option.split)

lemma neighbors_unlink_all:
  "set (graph_neighbors (fold (unlink nid) ns g) a) = set (graph_neighbors g a) - (if a \<in> set ns then {nid} else {})"
  by (induction ns arbitrary: g) (auto simp: neighbors_unlink)

lemma nodes_unlink_all: "ig_nodes (fold (unlink nid) ns g) = ig_nodes g"
  by (induction ns arbitrary: g) (simp_all add: unlink_def)

lemma neighbors_remove:
  assumes "symmetric_graph g" "dget (ig_nodes g) nid \<noteq> None"
  shows "set (graph_neighbors (fst (remove_graph_node nid g)) a) =
    (if a = nid then {} else set (graph_neighbors g a) - {nid})"
proof -
  let ?g = "g\<lparr>ig_nodes := ddel nid (ig_nodes g), ig_adjacency := ddel nid (ig_adjacency g)\<rparr>"
  have "graph_neighbors ?g a = (if a = nid then [] else graph_neighbors g a)" by (simp add: graph_neighbors_def)
  moreover have "nid \<notin> set (graph_neighbors g a)" if "a \<notin> set (graph_neighbors g nid)"
    using assms(1) that unfolding symmetric_graph_def by blast
  moreover have "fst (remove_graph_node nid g) = fold (unlink nid) (graph_neighbors g nid) ?g"
    by (simp only: remove_graph_node_def assms(2) if_False fst_conv)
  ultimately show ?thesis
    using neighbors_unlink_all [of nid "graph_neighbors g nid" ?g a] by (simp only: split: if_split) auto
qed

lemma symmetric_step: "symmetric_graph g \<Longrightarrow> symmetric_graph (graph_step opn g)"
proof (cases opn)
  case (RemoveNode i)
  assume sym: "symmetric_graph g"
  show ?thesis
  proof (cases "dget (ig_nodes g) i")
    case None
    with sym RemoveNode show ?thesis by (simp add: remove_graph_node_def)
  next
    case (Some n)
    then have "dget (ig_nodes g) i \<noteq> None" by simp
    from neighbors_remove [OF sym this] sym RemoveNode show ?thesis
      unfolding symmetric_graph_def by auto
  qed
qed (auto simp: symmetric_graph_def)


definition demo_ops :: "graph_op list" where
  "demo_ops = [AddNode 1 (demo_node ''a''), AddNode 2 (demo_node ''b''), AddLink 3 (demo_link ''a'' ''b'' 5)]"


end
