(* ===== verification/Planetary.thy ===== *)
theory Planetary
  imports Repair
begin

text \<open>
  The planetary layer over one telemetry record of regions: the scheduler
  (\<open>fabric_core/planetary_scheduler.py\<close>) and the continental failover
  (\<open>planetary/continental_failover.py\<close>). A row of telemetry is a dictionary that the code reads with
  defaults; a field whose default differs between places is an option, the others carry their default.
  Failover events are objects shared by the history and the table of active events; a reference is
  an index into the store of objects. A clock gives the successive readings of an operation.
\<close>

section \<open>Telemetry\<close>

record planet_region =
  pr_id :: string
  pr_continent :: "string option"
  pr_status :: string
  pr_available_gpus :: int
  pr_total_gpus :: int
  pr_latency_ms :: "rat option"
  pr_saturation :: rat
  pr_gpu_utilization :: rat
  pr_cost_per_hour :: rat
  pr_carbon_intensity :: rat
  pr_renewable_pct :: rat
  pr_thermal_pressure :: rat
  pr_thermal_reported :: rat
  pr_gpu_temp_c :: rat
  pr_bandwidth_utilization :: rat

definition opt_default :: "'a \<Rightarrow> 'a option \<Rightarrow> 'a" where
  "opt_default d x = (case x of Some v \<Rightarrow> v | None \<Rightarrow> d)"

section \<open>The scheduler\<close>

datatype scheduling_tier = Realtime | Interactive | Batch | Background

datatype scheduling_strategy = LatencyFirst | ThroughputFirst | CostFirst | CarbonFirst | Balanced

record planetary_workload =
  pw_id :: string
  pw_tier :: scheduling_tier
  pw_strategy :: scheduling_strategy
  pw_preferred :: "string list"
  pw_gpu_required :: bool
  pw_max_latency_ms :: rat
  pw_priority :: int

record score_factors =
  sf_latency :: rat
  sf_load :: rat
  sf_gpu :: rat
  sf_cost :: rat
  sf_carbon :: rat
  sf_energy :: rat
  sf_thermal :: rat
  sf_bandwidth :: rat

record scheduling_decision =
  sd_workload_id :: string
  sd_region :: string
  sd_continent :: string
  sd_score :: rat
  sd_latency_ms :: rat
  sd_factors :: score_factors
  sd_alternatives :: "string list"
  sd_time_ms :: rat
  sd_ts :: pyfloat

record planetary_scheduler =
  ps_max_history :: nat
  ps_decisions :: "scheduling_decision list"
  ps_total_scheduled :: nat
  ps_by_tier :: "(scheduling_tier, nat) dict"
  ps_by_strategy :: "(scheduling_strategy, nat) dict"
  ps_events :: "(string \<times> string \<times> rat \<times> pyfloat) list"

definition new_planetary_scheduler :: "nat \<Rightarrow> planetary_scheduler" where
  "new_planetary_scheduler h =
     \<lparr>ps_max_history = h, ps_decisions = [], ps_total_scheduled = 0, ps_by_tier = [], ps_by_strategy = [], ps_events = []\<rparr>"

definition narrow :: "('r \<Rightarrow> bool) \<Rightarrow> 'r list \<Rightarrow> 'r list" where
  "narrow p rs = (if filter p rs \<noteq> [] then filter p rs else rs)"

definition filter_candidates :: "planetary_workload \<Rightarrow> planet_region list \<Rightarrow> planet_region list" where
  "filter_candidates w regions =
     (let c0 = filter (\<lambda>r. pr_status r \<noteq> ''offline'') regions;
          c1 = (if pw_gpu_required w then narrow (\<lambda>r. pr_available_gpus r > 0 \<or> pr_total_gpus r > 0) c0 else c0);
          c2 = (if pw_max_latency_ms w > 0
                then narrow (\<lambda>r. opt_default 0 (pr_latency_ms r) \<le> pw_max_latency_ms w \<or> opt_default 0 (pr_latency_ms r) = 0) c1
                else c1)
      in if pw_preferred w \<noteq> [] then narrow (\<lambda>r. pr_id r \<in> set (pw_preferred w)) c2 else c2)"

fun strategy_weights :: "scheduling_strategy \<Rightarrow> rat list" where
  "strategy_weights LatencyFirst = [40 / 100, 20 / 100, 15 / 100, 5 / 100, 2 / 100, 3 / 100, 5 / 100, 10 / 100]"
| "strategy_weights ThroughputFirst = [10 / 100, 35 / 100, 20 / 100, 5 / 100, 2 / 100, 3 / 100, 10 / 100, 15 / 100]"
| "strategy_weights CostFirst = [10 / 100, 10 / 100, 10 / 100, 40 / 100, 5 / 100, 10 / 100, 5 / 100, 10 / 100]"
| "strategy_weights CarbonFirst = [5 / 100, 10 / 100, 10 / 100, 10 / 100, 30 / 100, 25 / 100, 5 / 100, 5 / 100]"
| "strategy_weights Balanced = [20 / 100, 20 / 100, 15 / 100, 15 / 100, 5 / 100, 5 / 100, 10 / 100, 10 / 100]"

definition region_scores :: "planetary_workload \<Rightarrow> planet_region \<Rightarrow> rat list" where
  "region_scores w r =
     [max 0 (1 - opt_default 50 (pr_latency_ms r) / 500),
      1 - pr_saturation r,
      if pw_gpu_required w then 1 - pr_gpu_utilization r else 1 / 2,
      max 0 (1 - pr_cost_per_hour r / 200),
      max 0 (1 - pr_carbon_intensity r),
      pr_renewable_pct r,
      max 0 (1 - pr_thermal_pressure r),
      max 0 (1 - pr_bandwidth_utilization r)]"

definition score_region :: "planetary_workload \<Rightarrow> planet_region \<Rightarrow> rat" where
  "score_region w r =
     (let s = region_scores w r;
          total = sum_list (map2 (*) (strategy_weights (pw_strategy w)) s)
      in if pw_tier w = Realtime then total + 5 / 100 * s ! 0
         else if pw_tier w = Background then total + 5 / 100 * s ! 3 else total)"

definition factors_of :: "rat list \<Rightarrow> score_factors" where
  "factors_of s =
     \<lparr>sf_latency = py_round (s ! 0) 3, sf_load = py_round (s ! 1) 3, sf_gpu = py_round (s ! 2) 3, sf_cost = py_round (s ! 3) 3,
      sf_carbon = py_round (s ! 4) 3, sf_energy = py_round (s ! 5) 3, sf_thermal = py_round (s ! 6) 3,
      sf_bandwidth = py_round (s ! 7) 3\<rparr>"

definition scheduling_candidates :: "planetary_workload \<Rightarrow> planet_region list \<Rightarrow> planet_region list" where
  "scheduling_candidates w regions = (if filter_candidates w regions = [] then regions else filter_candidates w regions)"

definition bump :: "'k \<Rightarrow> ('k, nat) dict \<Rightarrow> ('k, nat) dict" where
  "bump k d = dput k (opt_default 0 (dget d k) + 1) d"

definition ps_schedule ::
    "clock \<Rightarrow> planetary_workload \<Rightarrow> planet_region list \<Rightarrow> planetary_scheduler
      \<Rightarrow> planetary_scheduler \<times> scheduling_decision option" where
  "ps_schedule now w regions s =
     (case sort_desc (score_region w) (scheduling_candidates w regions) of
        [] \<Rightarrow> (s, None)
      | r # rest \<Rightarrow>
          let d = \<lparr>sd_workload_id = pw_id w, sd_region = pr_id r, sd_continent = opt_default [] (pr_continent r),
                   sd_score = py_round (score_region w r) 4, sd_latency_ms = py_round (opt_default 0 (pr_latency_ms r)) 1,
                   sd_factors = factors_of (region_scores w r), sd_alternatives = map pr_id (take 3 rest),
                   sd_time_ms = py_round ((now 1 - now 0) * 1000) 2, sd_ts = now 2\<rparr>
          in (s\<lparr>ps_decisions := py_cap (ps_max_history s) (ps_decisions s @ [d]),
                ps_total_scheduled := ps_total_scheduled s + 1,
                ps_by_tier := bump (pw_tier w) (ps_by_tier s),
                ps_by_strategy := bump (pw_strategy w) (ps_by_strategy s),
                ps_events := py_cap (ps_max_history s) (ps_events s @ [(pw_id w, sd_region d, sd_score d, sd_ts d)])\<rparr>, Some d))"

fun schedule_each ::
    "clock \<Rightarrow> planet_region list \<Rightarrow> planetary_workload list \<Rightarrow> planetary_scheduler
      \<Rightarrow> planetary_scheduler \<times> scheduling_decision list" where
  "schedule_each now regions [] s = (s, [])"
| "schedule_each now regions (w # ws) s =
     (let (s1, d) = ps_schedule now w regions s; (s2, ds) = schedule_each (\<lambda>n. now (n + 3)) regions ws s1
      in (s2, (case d of Some d \<Rightarrow> [d] | None \<Rightarrow> []) @ ds))"

definition ps_schedule_batch ::
    "clock \<Rightarrow> planetary_workload list \<Rightarrow> planet_region list \<Rightarrow> planetary_scheduler
      \<Rightarrow> planetary_scheduler \<times> scheduling_decision list" where
  "ps_schedule_batch now ws regions s = schedule_each now regions (sort_desc pw_priority ws) s"

lemma narrow_sub: "set (narrow p rs) \<subseteq> set rs"
  by (auto simp: narrow_def)

lemma narrow_Nil [simp]: "narrow p rs = [] \<longleftrightarrow> rs = []"
  by (auto simp: narrow_def)

lemma narrow_holds: "r \<in> set (narrow p rs) \<Longrightarrow> x \<in> set rs \<Longrightarrow> p x \<Longrightarrow> p r"
  by (auto simp: narrow_def filter_empty_conv split: if_splits)

lemma in_narrow: "r \<in> set (if b then narrow p rs else rs) \<Longrightarrow> r \<in> set rs"
  using narrow_sub [of p rs] by (auto split: if_splits)

lemma candidates_online:
  "filter_candidates w regions = [] \<longleftrightarrow> filter (\<lambda>r. pr_status r \<noteq> ''offline'') regions = []"
  by (simp add: filter_candidates_def Let_def)

lemma candidates_sub:
  assumes "r \<in> set (filter_candidates w regions)"
  shows "r \<in> set regions \<and> pr_status r \<noteq> ''offline''"
  using assms unfolding filter_candidates_def Let_def by (auto dest!: in_narrow)

lemma scheduling_candidates_sub: "set (scheduling_candidates w regions) \<subseteq> set regions"
  using candidates_sub [of _ w regions] by (auto simp: scheduling_candidates_def)

lemma scheduling_candidates_Nil [simp]: "scheduling_candidates w regions = [] \<longleftrightarrow> regions = []"
  by (auto simp: scheduling_candidates_def candidates_online)

lemma scheduling_candidates_online:
  assumes "r \<in> set (scheduling_candidates w regions)" and "x \<in> set regions" "pr_status x \<noteq> ''offline''"
  shows "pr_status r \<noteq> ''offline''"
proof -
  from assms(2,3) have "filter_candidates w regions \<noteq> []"
    by (auto simp: candidates_online filter_empty_conv)
  with assms(1) show ?thesis using candidates_sub [of r w regions] by (simp add: scheduling_candidates_def)
qed

lemma ps_schedule_picks:
  assumes "ps_schedule now w regions s = (s', Some d)"
  obtains r where "r \<in> set (scheduling_candidates w regions)" "sd_region d = pr_id r"
    "sd_score d = py_round (score_region w r) 4"
    "\<forall>x \<in> set (scheduling_candidates w regions). score_region w x \<le> score_region w r"
proof -
  define q where "q = sort_desc (score_region w) (scheduling_candidates w regions)"
  from assms obtain r rest where q: "q = r # rest" and d: "sd_region d = pr_id r" "sd_score d = py_round (score_region w r) 4"
    by (auto simp: ps_schedule_def q_def [symmetric] Let_def split: list.splits)
  have "r \<in> set (scheduling_candidates w regions)"
    using q unfolding q_def by (metis list.set_intros(1) set_sort_desc)
  moreover have "\<forall>x \<in> set (scheduling_candidates w regions). score_region w x \<le> score_region w r"
    using sort_desc_hd_max [of _ "scheduling_candidates w regions" "score_region w"] q unfolding q_def [symmetric] by simp
  ultimately show ?thesis using d that by blast
qed

text \<open>C0. A region is chosen whenever there is one, and it is the best by score among the candidates;
  an offline region is chosen only when every region is offline.\<close>

theorem planetary_schedule_best:
  assumes "ps_schedule now w regions s = (s', d)"
  shows "(d = None \<longleftrightarrow> regions = [])
    \<and> (\<forall>dd. d = Some dd \<longrightarrow> (\<exists>r \<in> set (scheduling_candidates w regions).
          r \<in> set regions \<and> sd_region dd = pr_id r \<and> sd_score dd = py_round (score_region w r) 4
          \<and> (\<forall>x \<in> set (scheduling_candidates w regions). score_region w x \<le> score_region w r)
          \<and> (pr_status r = ''offline'' \<longrightarrow> (\<forall>x \<in> set regions. pr_status x = ''offline''))))"
proof
  have "(case sort_desc (score_region w) (scheduling_candidates w regions) of [] \<Rightarrow> True | _ \<Rightarrow> False) = (regions = [])"
    by (simp split: list.split) (metis list.distinct(1) scheduling_candidates_Nil sort_desc_Nil_iff)
  with assms show "d = None \<longleftrightarrow> regions = []"
    by (auto simp: ps_schedule_def Let_def split: list.splits)
next
  show "\<forall>dd. d = Some dd \<longrightarrow> (\<exists>r \<in> set (scheduling_candidates w regions).
          r \<in> set regions \<and> sd_region dd = pr_id r \<and> sd_score dd = py_round (score_region w r) 4
          \<and> (\<forall>x \<in> set (scheduling_candidates w regions). score_region w x \<le> score_region w r)
          \<and> (pr_status r = ''offline'' \<longrightarrow> (\<forall>x \<in> set regions. pr_status x = ''offline'')))"
  proof (intro allI impI)
    fix dd assume "d = Some dd"
    with assms obtain r where "r \<in> set (scheduling_candidates w regions)" "sd_region dd = pr_id r"
      "sd_score dd = py_round (score_region w r) 4"
      "\<forall>x \<in> set (scheduling_candidates w regions). score_region w x \<le> score_region w r"
      using ps_schedule_picks by blast
    then show "\<exists>r \<in> set (scheduling_candidates w regions).
          r \<in> set regions \<and> sd_region dd = pr_id r \<and> sd_score dd = py_round (score_region w r) 4
          \<and> (\<forall>x \<in> set (scheduling_candidates w regions). score_region w x \<le> score_region w r)
          \<and> (pr_status r = ''offline'' \<longrightarrow> (\<forall>x \<in> set regions. pr_status x = ''offline''))"
      using scheduling_candidates_sub scheduling_candidates_online by blast
  qed
qed

definition demo_planet_region :: "string \<Rightarrow> string option \<Rightarrow> string \<Rightarrow> rat \<Rightarrow> planet_region" where
  "demo_planet_region i c st lat =
     \<lparr>pr_id = i, pr_continent = c, pr_status = st, pr_available_gpus = 4, pr_total_gpus = 8, pr_latency_ms = Some lat,
      pr_saturation = 1 / 2, pr_gpu_utilization = 1 / 2, pr_cost_per_hour = 50, pr_carbon_intensity = 1 / 2,
      pr_renewable_pct = 0, pr_thermal_pressure = 3 / 10, pr_thermal_reported = 0, pr_gpu_temp_c = 0,
      pr_bandwidth_utilization = 3 / 10\<rparr>"

definition demo_planetary_workload :: planetary_workload where
  "demo_planetary_workload =
     \<lparr>pw_id = ''w'', pw_tier = Realtime, pw_strategy = LatencyFirst, pw_preferred = [], pw_gpu_required = False,
      pw_max_latency_ms = 0, pw_priority = 5\<rparr>"

lemma planetary_schedule_best_witness:
  "\<exists>d. snd (ps_schedule (\<lambda>_. 0) demo_planetary_workload
        [demo_planet_region ''a'' (Some ''eu'') ''offline'' 10, demo_planet_region ''b'' (Some ''eu'') ''active'' 400,
         demo_planet_region ''c'' (Some ''us'') ''active'' 100] (new_planetary_scheduler 10)) = Some d \<and> sd_region d = ''c''"
proof -
  let ?rs = "[demo_planet_region ''a'' (Some ''eu'') ''offline'' 10, demo_planet_region ''b'' (Some ''eu'') ''active'' 400,
         demo_planet_region ''c'' (Some ''us'') ''active'' 100]"
  let ?x = "ps_schedule (\<lambda>_. 0) demo_planetary_workload ?rs (new_planetary_scheduler 10)"
  obtain d where d: "snd ?x = Some d"
    using planetary_schedule_best [of "\<lambda>_. 0" demo_planetary_workload ?rs "new_planetary_scheduler 10" "fst ?x" "snd ?x"] by auto
  have "map_option sd_region (snd ?x) = Some ''c''" by code_simp
  with d show ?thesis by simp
qed

lemma sum_bump: "dwf d \<Longrightarrow> sum_list (dvalues (bump k d)) = sum_list (dvalues d) + 1"
  unfolding bump_def dwf_def by (induction d) (auto simp: opt_default_def split: option.split)

lemma dwf_bump [simp]: "dwf d \<Longrightarrow> dwf (bump k d)"
  by (simp add: bump_def)

definition ps_tallied :: "planetary_scheduler \<Rightarrow> bool" where
  "ps_tallied s \<longleftrightarrow> dwf (ps_by_tier s) \<and> dwf (ps_by_strategy s)
     \<and> sum_list (dvalues (ps_by_tier s)) = ps_total_scheduled s
     \<and> sum_list (dvalues (ps_by_strategy s)) = ps_total_scheduled s"

lemma ps_schedule_tallied:
  "ps_tallied s \<Longrightarrow> ps_schedule now w regions s = (s', d) \<Longrightarrow>
     ps_tallied s' \<and> ps_total_scheduled s' = ps_total_scheduled s + (if regions = [] then 0 else 1) \<and> (d = None \<longleftrightarrow> regions = [])"
  using sort_desc_Nil_iff [of "score_region w" "scheduling_candidates w regions"]
  by (cases "sort_desc (score_region w) (scheduling_candidates w regions)")
    (auto simp: ps_schedule_def ps_tallied_def Let_def sum_bump)

lemma schedule_each_tallied:
  "ps_tallied s \<Longrightarrow> schedule_each now regions ws s = (s', ds) \<Longrightarrow>
     ps_tallied s' \<and> ps_total_scheduled s' = ps_total_scheduled s + length ds
       \<and> map sd_workload_id ds = (if regions = [] then [] else map pw_id ws)"
proof (induction ws arbitrary: now s s' ds)
  case (Cons w ws)
  obtain s1 d where 1: "ps_schedule now w regions s = (s1, d)" by fastforce
  obtain s2 ds2 where 2: "schedule_each (\<lambda>n. now (n + 3)) regions ws s1 = (s2, ds2)" by fastforce
  note st = ps_schedule_tallied [OF Cons.prems(1) 1]
  note IH = Cons.IH [OF _ 2]
  have wid: "d = Some dd \<Longrightarrow> sd_workload_id dd = pw_id w" for dd
    using 1 by (auto simp: ps_schedule_def Let_def split: list.splits)
  from IH st 1 2 Cons.prems wid show ?case by (cases d) auto
qed simp

text \<open>C0. The counters by tier and by strategy each add up to the number of scheduled workloads, and a batch
  places every workload, the urgent ones first, as soon as there is a region at all.\<close>

theorem planetary_counters_agree:
  "case ps_schedule_batch now ws regions (new_planetary_scheduler h) of (s, ds) \<Rightarrow>
     sum_list (dvalues (ps_by_tier s)) = length ds \<and> sum_list (dvalues (ps_by_strategy s)) = length ds
     \<and> ps_total_scheduled s = length ds
     \<and> map sd_workload_id ds = (if regions = [] then [] else map pw_id (sort_desc pw_priority ws))"
proof -
  obtain s ds where e: "schedule_each now regions (sort_desc pw_priority ws) (new_planetary_scheduler h) = (s, ds)" by fastforce
  have "ps_tallied (new_planetary_scheduler h)" by (simp add: ps_tallied_def new_planetary_scheduler_def)
  from schedule_each_tallied [OF this e] e show ?thesis
    by (simp add: ps_schedule_batch_def ps_tallied_def new_planetary_scheduler_def)
qed

section \<open>Continental failover\<close>

datatype cf_trigger = CfOutage | CfLatencySpike | CfCapacityExhaustion | CfThermalCritical | CfNetworkPartition | CfDisaster

datatype cf_status = CfDetected | CfIsolating | CfRerouting | CfRecovered | CfFailed

record cf_event =
  cf_id :: string
  cf_event_trigger :: cf_trigger
  cf_event_status :: cf_status
  cf_affected_continent :: string
  cf_affected_regions :: "string list"
  cf_target_continents :: "string list"
  cf_target_regions :: "string list"
  cf_rerouted :: nat
  cf_reroute_ms :: rat
  cf_detected_at :: pyfloat
  cf_isolated_at :: pyfloat
  cf_recovered_at :: pyfloat

record cf_manager =
  cf_max_history :: nat
  cf_objs :: "cf_event list"
  cf_events :: "nat list"
  cf_active :: "(string, nat) dict"
  cf_total_failovers :: nat
  cf_total_rerouted :: nat
  cf_log :: "(string \<times> string \<times> nat \<times> pyfloat) list"

definition new_cf_manager :: "nat \<Rightarrow> cf_manager" where
  "new_cf_manager h =
     \<lparr>cf_max_history = h, cf_objs = [], cf_events = [], cf_active = [], cf_total_failovers = 0, cf_total_rerouted = 0,
      cf_log = []\<rparr>"

definition group_by :: "('r \<Rightarrow> 'k) \<Rightarrow> ('r \<Rightarrow> 'v) \<Rightarrow> 'r list \<Rightarrow> ('k, 'v list) dict" where
  "group_by key val rs = fold (\<lambda>r d. dput (key r) (opt_default [] (dget d (key r)) @ [val r]) d) rs []"

definition down_in :: "planet_region list \<Rightarrow> planet_region list" where
  "down_in rs = filter (\<lambda>r. pr_status r = ''offline'') rs"

definition slow_in :: "planet_region list \<Rightarrow> planet_region list" where
  "slow_in rs = filter (\<lambda>r. opt_default 0 (pr_latency_ms r) > 500) rs"

definition hot_in :: "planet_region list \<Rightarrow> planet_region list" where
  "hot_in rs = filter (\<lambda>r. pr_gpu_temp_c r > 90 \<or> pr_thermal_reported r > 9 / 10) rs"

definition more_than :: "rat \<Rightarrow> 'a list \<Rightarrow> 'a list \<Rightarrow> bool" where
  "more_than share part whole \<longleftrightarrow> rat_of_nat (length part) > rat_of_nat (length whole) * share"

definition new_cf_event :: "pyfloat \<Rightarrow> string \<Rightarrow> cf_trigger \<Rightarrow> string \<Rightarrow> planet_region list \<Rightarrow> cf_event" where
  "new_cf_event ts prefix tr continent rs =
     \<lparr>cf_id = stamped_id prefix continent ts, cf_event_trigger = tr, cf_event_status = CfDetected,
      cf_affected_continent = continent, cf_affected_regions = map pr_id rs, cf_target_continents = [],
      cf_target_regions = [], cf_rerouted = 0, cf_reroute_ms = 0, cf_detected_at = ts, cf_isolated_at = 0,
      cf_recovered_at = 0\<rparr>"

definition detect_continent :: "pyfloat \<Rightarrow> string \<times> planet_region list \<Rightarrow> cf_event option" where
  "detect_continent ts g =
     (let (continent, rs) = g
      in if more_than (1 / 2) (down_in rs) rs \<and> length (down_in rs) \<ge> 2
         then Some (new_cf_event ts ''fo-continent-'' CfOutage continent (down_in rs))
         else if more_than (6 / 10) (slow_in rs) rs \<and> length (slow_in rs) \<ge> 2
         then Some (new_cf_event ts ''fo-latency-'' CfLatencySpike continent (slow_in rs))
         else if more_than (1 / 2) (hot_in rs) rs
         then Some (new_cf_event ts ''fo-thermal-'' CfThermalCritical continent (hot_in rs))
         else None)"

definition continents :: "planet_region list \<Rightarrow> (string, planet_region list) dict" where
  "continents regions = group_by (\<lambda>r. opt_default ''unknown'' (pr_continent r)) (\<lambda>r. r) regions"

definition cf_detect :: "pyfloat \<Rightarrow> planet_region list \<Rightarrow> cf_manager \<Rightarrow> cf_manager \<times> nat list" where
  "cf_detect ts regions m =
     (let found = List.map_filter (detect_continent ts) (continents regions);
          objs = cf_objs m @ found;
          refs = [length (cf_objs m) ..< length objs]
      in (m\<lparr>cf_objs := objs,
            cf_events := py_cap (cf_max_history m) (cf_events m @ refs),
            cf_active := fold (\<lambda>i. dput (cf_id (objs ! i)) i) refs (cf_active m)\<rparr>, refs))"

definition healthy_continents :: "string \<Rightarrow> planet_region list \<Rightarrow> (string, string list) dict" where
  "healthy_continents affected regions =
     group_by (\<lambda>r. opt_default ''other'' (pr_continent r)) pr_id
       (filter (\<lambda>r. opt_default [] (pr_continent r) \<noteq> affected \<and> pr_status r \<noteq> ''offline'') regions)"

definition target_continents :: "string \<Rightarrow> planet_region list \<Rightarrow> string list" where
  "target_continents affected regions = sort (dkeys (healthy_continents affected regions))"

definition target_regions :: "string \<Rightarrow> planet_region list \<Rightarrow> string list" where
  "target_regions affected regions =
     concat (map (\<lambda>c. opt_default [] (dget (healthy_continents affected regions) c)) (target_continents affected regions))"

definition settled :: "clock \<Rightarrow> planet_region list \<Rightarrow> cf_event \<Rightarrow> cf_event" where
  "settled now regions e =
     e\<lparr>cf_event_status := CfRecovered,
       cf_target_continents := target_continents (cf_affected_continent e) regions,
       cf_target_regions := take 10 (target_regions (cf_affected_continent e) regions),
       cf_rerouted := length (cf_affected_regions e) * 5,
       cf_reroute_ms := py_round ((now 2 - now 0) * 1000) 2,
       cf_isolated_at := now 1,
       cf_recovered_at := now 3\<rparr>"

definition execute_continental ::
    "clock \<Rightarrow> string \<Rightarrow> planet_region list \<Rightarrow> cf_manager \<Rightarrow> cf_manager \<times> nat option" where
  "execute_continental now eid regions m =
     (case dget (cf_active m) eid of
        None \<Rightarrow> (m, None)
      | Some i \<Rightarrow>
          let e = settled now regions (cf_objs m ! i)
          in (m\<lparr>cf_objs := on_obj i (settled now regions) (cf_objs m),
                cf_active := ddel eid (cf_active m),
                cf_total_failovers := cf_total_failovers m + 1,
                cf_total_rerouted := cf_total_rerouted m + cf_rerouted e,
                cf_log := py_cap (cf_max_history m)
                  (cf_log m @ [(eid, cf_affected_continent e, length (cf_affected_regions e), now 4)])\<rparr>, Some i))"

fun execute_continents ::
    "clock \<Rightarrow> planet_region list \<Rightarrow> nat list \<Rightarrow> cf_manager \<Rightarrow> cf_manager \<times> nat list" where
  "execute_continents now regions [] m = (m, [])"
| "execute_continents now regions (i # is) m =
     (let (m1, done_ref) = execute_continental now (cf_id (cf_objs m ! i)) regions m;
          (m2, js) = execute_continents (\<lambda>n. now (n + 5)) regions is m1
      in (m2, (case done_ref of Some j \<Rightarrow> [j] | None \<Rightarrow> []) @ js))"

definition continental_failover :: "clock \<Rightarrow> planet_region list \<Rightarrow> cf_manager \<Rightarrow> cf_manager \<times> nat list" where
  "continental_failover now regions m =
     (let (m1, refs) = cf_detect (now 0) regions m
      in execute_continents (\<lambda>n. now (n + 1)) regions refs m1)"

lemma group_by_dget:
  "dget (group_by key val rs) k = (if k \<in> key ` set rs then Some (map val (filter (\<lambda>r. key r = k) rs)) else None)"
proof (induction rs rule: rev_induct)
  case (snoc r rs)
  have "group_by key val (rs @ [r]) =
      dput (key r) (opt_default [] (dget (group_by key val rs) (key r)) @ [val r]) (group_by key val rs)"
    by (simp add: group_by_def)
  with snoc show ?case by (auto simp: opt_default_def filter_empty_conv image_iff) (metis)
qed (simp add: group_by_def)

lemma group_by_dwf: "dwf (group_by key val rs)"
  unfolding group_by_def by (rule fold_inv) auto

lemma continent_members:
  "(c, rs) \<in> set (continents regions) \<Longrightarrow> rs = filter (\<lambda>r. opt_default ''unknown'' (pr_continent r) = c) regions"
  using dwf_dget_iff [OF group_by_dwf, of "\<lambda>r. opt_default ''unknown'' (pr_continent r)" "\<lambda>r. r" regions c rs]
  by (auto simp: continents_def group_by_dget split: if_splits)

lemma target_regions_sound:
  assumes "x \<in> set (target_regions affected regions)"
  shows "\<exists>r \<in> set regions. pr_id r = x \<and> pr_status r \<noteq> ''offline'' \<and> opt_default [] (pr_continent r) \<noteq> affected"
proof -
  from assms obtain c where "x \<in> set (opt_default [] (dget (healthy_continents affected regions) c))"
    by (auto simp: target_regions_def)
  then show ?thesis
    by (auto simp: healthy_continents_def group_by_dget opt_default_def split: if_splits)
qed

lemma detect_continent_Some:
  assumes "detect_continent ts (c, rs) = Some e"
  shows "cf_affected_continent e = c \<and> cf_id e \<in> (\<lambda>p. stamped_id p c ts) ` {''fo-continent-'', ''fo-latency-'', ''fo-thermal-''}"
  using assms by (auto simp: detect_continent_def new_cf_event_def split: if_splits)

lemma event_id_continent:
  assumes "stamped_id p c ts = stamped_id q d ts"
    and "p \<in> {''fo-continent-'', ''fo-latency-'', ''fo-thermal-''}" and "q \<in> {''fo-continent-'', ''fo-latency-'', ''fo-thermal-''}"
  shows "c = d"
  using assms by (auto simp: stamped_id_def)

lemma detected_ids_distinct:
  assumes "distinct (map fst gs)"
  shows "distinct (map cf_id (List.map_filter (detect_continent ts) gs))"
  using assms
proof (induction gs)
  case (Cons g gs)
  obtain c rs where g: "g = (c, rs)" by fastforce
  have "cf_id e \<notin> cf_id ` set (List.map_filter (detect_continent ts) gs)" if e: "detect_continent ts (c, rs) = Some e" for e
  proof
    assume "cf_id e \<in> cf_id ` set (List.map_filter (detect_continent ts) gs)"
    then obtain d qs f where f: "(d, qs) \<in> set gs" "detect_continent ts (d, qs) = Some f" "cf_id f = cf_id e"
      by (auto simp: List.map_filter_def)
    let ?P = "{''fo-continent-'', ''fo-latency-'', ''fo-thermal-''}"
    obtain p where p: "p \<in> ?P" "cf_id e = stamped_id p c ts" using detect_continent_Some [OF e] by blast
    obtain q where q: "q \<in> ?P" "cf_id f = stamped_id q d ts" using detect_continent_Some [OF f(2)] by blast
    have "c = d" by (rule event_id_continent [OF _ p(1) q(1)]) (use p q f(3) in simp)
    with f(1) Cons.prems g show False by force
  qed
  with Cons g show ?case by (auto split: option.splits)
qed simp

lemma detected_continents:
  "map cf_affected_continent (List.map_filter (detect_continent ts) gs) = map fst (filter (\<lambda>g. detect_continent ts g \<noteq> None) gs)"
proof (induction gs)
  case (Cons g gs)
  obtain c rs where "g = (c, rs)" by fastforce
  with Cons show ?case using detect_continent_Some [of ts c rs] by (auto split: option.splits)
qed simp

lemma fold_dput_refs:
  "distinct (map f is) \<Longrightarrow> i \<in> set is \<Longrightarrow> dget (fold (\<lambda>i. dput (f i) i) is d) (f i) = Some i"
proof (induction "is" arbitrary: d)
  case (Cons j js)
  have keep: "dget (fold (\<lambda>i. dput (f i) i) js d) k = dget d k" if "k \<notin> f ` set js" for k d
    using that by (induction js arbitrary: d) auto
  from Cons keep [of "f j" "dput (f j) j d"] show ?case by auto
qed simp

lemma settled_id [simp]: "cf_id (settled now regions e) = cf_id e"
  "cf_affected_continent (settled now regions e) = cf_affected_continent e"
  by (simp_all add: settled_def)

lemma execute_continents_all:
  assumes "execute_continents now regions is m = (m', js)"
    and "distinct (map (\<lambda>i. cf_id (cf_objs m ! i)) is)" and "set is \<subseteq> {..< length (cf_objs m)}"
    and "\<forall>i \<in> set is. dget (cf_active m) (cf_id (cf_objs m ! i)) = Some i"
  shows "js = is \<and> length (cf_objs m') = length (cf_objs m)
    \<and> cf_total_failovers m' = cf_total_failovers m + length is
    \<and> (\<forall>j. j \<notin> set is \<longrightarrow> cf_objs m' ! j = cf_objs m ! j)
    \<and> (\<forall>i \<in> set is. (\<exists>n. cf_objs m' ! i = settled n regions (cf_objs m ! i)))
    \<and> (\<forall>k. dget (cf_active m') k = (if k \<in> (\<lambda>i. cf_id (cf_objs m ! i)) ` set is then None else dget (cf_active m) k))"
  using assms
proof (induction "is" arbitrary: now m m' js)
  case (Cons i "is")
  let ?id = "\<lambda>i. cf_id (cf_objs m ! i)"
  define m1 where "m1 = fst (execute_continental now (?id i) regions m)"
  have ex: "execute_continental now (?id i) regions m = (m1, Some i)"
    using Cons.prems(4) by (simp add: m1_def execute_continental_def Let_def)
  have m1: "cf_objs m1 = on_obj i (settled now regions) (cf_objs m)" "cf_active m1 = ddel (?id i) (cf_active m)"
      "cf_total_failovers m1 = cf_total_failovers m + 1"
    using Cons.prems(4) by (simp_all add: m1_def execute_continental_def Let_def)
  obtain js' where e: "execute_continents (\<lambda>n. now (n + 5)) regions is m1 = (m', js')" and js: "js = i # js'"
    using Cons.prems(1) ex by (auto simp: Let_def split: prod.splits)
  have len: "i < length (cf_objs m)" using Cons.prems(3) by simp
  have nth: "cf_objs m1 ! j = (if j = i then settled now regions (cf_objs m ! j) else cf_objs m ! j)" for j
    using len m1(1) by (simp add: nth_on_obj)
  have ids: "cf_id (cf_objs m1 ! j) = ?id j" for j by (simp add: nth)
  have notin: "i \<notin> set is" "?id i \<notin> ?id ` set is" using Cons.prems(2) by auto
  have act: "\<forall>j \<in> set is. dget (cf_active m1) (cf_id (cf_objs m1 ! j)) = Some j"
  proof
    fix j assume j: "j \<in> set is"
    then have "?id j \<noteq> ?id i" using notin(2) by (metis imageI)
    moreover have "dget (cf_active m) (?id j) = Some j" using Cons.prems(4) j by simp
    ultimately show "dget (cf_active m1) (cf_id (cf_objs m1 ! j)) = Some j" by (simp add: ids m1(2))
  qed
  have d: "distinct (map (\<lambda>i. cf_id (cf_objs m1 ! i)) is)" unfolding ids using Cons.prems(2) by simp
  have sub: "set is \<subseteq> {..< length (cf_objs m1)}" using Cons.prems(3) by (simp add: m1(1))
  note A = Cons.IH [OF e d sub act]
  note B = A [THEN conjunct2, THEN conjunct2]
  note IH = A [THEN conjunct1] A [THEN conjunct2, THEN conjunct1] B [THEN conjunct1] B [THEN conjunct2, THEN conjunct1]
    B [THEN conjunct2, THEN conjunct2, THEN conjunct1] B [THEN conjunct2, THEN conjunct2, THEN conjunct2]
  show ?case
  proof (intro conjI)
    show "js = i # is" "length (cf_objs m') = length (cf_objs m)"
      "cf_total_failovers m' = cf_total_failovers m + length (i # is)"
      using IH(1-3) js m1 by simp_all
    show "\<forall>j. j \<notin> set (i # is) \<longrightarrow> cf_objs m' ! j = cf_objs m ! j"
      using IH(4) by (simp add: nth)
    show "\<forall>j \<in> set (i # is). \<exists>n. cf_objs m' ! j = settled n regions (cf_objs m ! j)"
    proof
      fix j assume "j \<in> set (i # is)"
      then show "\<exists>n. cf_objs m' ! j = settled n regions (cf_objs m ! j)"
        using IH(4) [rule_format, of j] IH(5) [rule_format, of j] notin(1) nth [of j] by (cases "j = i") auto
    qed
    show "\<forall>k. dget (cf_active m') k = (if k \<in> ?id ` set (i # is) then None else dget (cf_active m) k)"
      using IH(6) by (simp add: ids m1(2))
  qed
qed simp

definition settled_event :: "planet_region list \<Rightarrow> cf_manager \<Rightarrow> cf_event \<Rightarrow> bool" where
  "settled_event regions m e \<longleftrightarrow> cf_event_status e = CfRecovered \<and> dget (cf_active m) (cf_id e) = None
     \<and> length (cf_target_regions e) \<le> 10
     \<and> (\<forall>x \<in> set (cf_target_regions e). \<exists>r \<in> set regions.
           pr_id r = x \<and> pr_status r \<noteq> ''offline'' \<and> opt_default [] (pr_continent r) \<noteq> cf_affected_continent e)"

lemma settled_sound:
  "dget (cf_active m) (cf_id e) = None \<Longrightarrow> settled_event regions m (settled now regions e)"
  unfolding settled_event_def settled_id using target_regions_sound
  by (auto simp: settled_def dest: in_set_takeD)

lemma failover_run:
  assumes "cf_detect (now 0) regions m = (m1, refs)"
  obtains m' where "continental_failover now regions m = (m', refs)" "length (cf_objs m') = length (cf_objs m1)"
    "cf_total_failovers m' = cf_total_failovers m1 + length refs"
    "\<forall>i \<in> set refs. \<exists>n. cf_objs m' ! i = settled n regions (cf_objs m1 ! i)"
    "\<forall>i \<in> set refs. dget (cf_active m') (cf_id (cf_objs m1 ! i)) = None"
proof -
  define found where "found = List.map_filter (detect_continent (now 0)) (continents regions)"
  have m1: "cf_objs m1 = cf_objs m @ found" "refs = [length (cf_objs m) ..< length (cf_objs m @ found)]"
    "cf_active m1 = fold (\<lambda>i. dput (cf_id (cf_objs m1 ! i)) i) refs (cf_active m)"
    using assms by (auto simp: cf_detect_def Let_def found_def)
  have new: "map ((!) (cf_objs m1)) refs = found"
    by (rule nth_equalityI) (auto simp: m1(1,2) nth_append)
  have "distinct (map cf_id found)"
    unfolding found_def by (rule detected_ids_distinct) (use group_by_dwf in \<open>simp add: continents_def dwf_def\<close>)
  then have dist: "distinct (map (\<lambda>i. cf_id (cf_objs m1 ! i)) refs)"
    using arg_cong [OF new, of "map cf_id"] by (simp add: comp_def)
  have act: "\<forall>i \<in> set refs. dget (cf_active m1) (cf_id (cf_objs m1 ! i)) = Some i"
    unfolding m1(3) using fold_dput_refs [OF dist] by blast
  obtain m' js where ex: "execute_continents (\<lambda>n. now (n + 1)) regions refs m1 = (m', js)" by fastforce
  have "set refs \<subseteq> {..< length (cf_objs m1)}" by (auto simp: m1)
  from execute_continents_all [OF ex dist this act]
  show ?thesis using assms ex by (intro that [of m']) (auto simp: continental_failover_def)
qed

text \<open>C0. A failover round raises one event for each continent that meets a condition, carries out all of
  them and leaves none active; the targets, at most ten, are regions that are not offline and do not
  belong to the affected continent.\<close>

theorem continental_failover_settles:
  "case continental_failover now regions m of (m', refs) \<Rightarrow>
     refs = [length (cf_objs m) ..< length (cf_objs m')]
     \<and> map (\<lambda>i. cf_affected_continent (cf_objs m' ! i)) refs
         = map fst (filter (\<lambda>g. detect_continent (now 0) g \<noteq> None) (continents regions))
     \<and> cf_total_failovers m' = cf_total_failovers m + length refs
     \<and> (\<forall>i \<in> set refs. settled_event regions m' (cf_objs m' ! i))"
proof -
  obtain m1 refs where det: "cf_detect (now 0) regions m = (m1, refs)" by fastforce
  define found where "found = List.map_filter (detect_continent (now 0)) (continents regions)"
  have m1: "cf_objs m1 = cf_objs m @ found" "refs = [length (cf_objs m) ..< length (cf_objs m @ found)]"
    "cf_total_failovers m1 = cf_total_failovers m"
    using det by (auto simp: cf_detect_def Let_def found_def)
  from failover_run [where now = now, OF det] obtain m' where run: "continental_failover now regions m = (m', refs)"
    and len: "length (cf_objs m') = length (cf_objs m1)" "cf_total_failovers m' = cf_total_failovers m1 + length refs"
    and objs: "\<forall>i \<in> set refs. \<exists>n. cf_objs m' ! i = settled n regions (cf_objs m1 ! i)"
    and gone: "\<forall>i \<in> set refs. dget (cf_active m') (cf_id (cf_objs m1 ! i)) = None" .
  have each: "settled_event regions m' (cf_objs m' ! i)"
    "cf_affected_continent (cf_objs m' ! i) = cf_affected_continent (cf_objs m1 ! i)" if "i \<in> set refs" for i
    using that objs gone settled_sound by (metis settled_id)+
  have "map ((!) (cf_objs m1)) refs = found"
    by (rule nth_equalityI) (auto simp: m1(1,2) nth_append)
  then have "map (\<lambda>i. cf_affected_continent (cf_objs m' ! i)) refs = map cf_affected_continent found"
    using each(2) by (auto simp: list_eq_iff_nth_eq)
  then show ?thesis
    unfolding run prod.case using each(1) len m1(2,3) detected_continents [of "now 0" "continents regions"]
    by (intro conjI ballI) (simp_all add: found_def m1(1))
qed

definition demo_outage :: "planet_region list" where
  "demo_outage =
     [demo_planet_region ''a'' (Some ''eu'') ''offline'' 10, demo_planet_region ''b'' (Some ''eu'') ''offline'' 10,
      demo_planet_region ''c'' (Some ''us'') ''active'' 100, demo_planet_region ''d'' (Some ''asia'') ''draining'' 100,
      demo_planet_region ''e'' (Some ''asia'') ''offline'' 100]"

lemma continental_failover_settles_witness:
  "\<exists>m'. continental_failover (\<lambda>_. 0) demo_outage (new_cf_manager 10) = (m', [0])
     \<and> cf_target_regions (cf_objs m' ! 0) = [''d'', ''c''] \<and> cf_event_status (cf_objs m' ! 0) = CfRecovered"
proof -
  obtain m' refs where run: "continental_failover (\<lambda>_. 0) demo_outage (new_cf_manager 10) = (m', refs)" by fastforce
  have "map fst (filter (\<lambda>g. detect_continent 0 g \<noteq> None) (continents demo_outage)) = [''eu'']" by code_simp
  then have "map (\<lambda>i. cf_affected_continent (cf_objs m' ! i)) refs = [''eu'']" and r: "refs = [0 ..< length (cf_objs m')]"
    and st: "\<forall>i \<in> set refs. settled_event demo_outage m' (cf_objs m' ! i)"
    using continental_failover_settles [where now = "\<lambda>_. 0" and regions = demo_outage and m = "new_cf_manager 10"]
    unfolding run prod.case by (simp_all (no_asm_use) add: new_cf_manager_def, (elim conjE, simp)+)
  then have "length refs = 1" by (metis length_Cons length_map list.size(3) One_nat_def)
  with r have "refs = [0]" by simp
  moreover from this st have "cf_event_status (cf_objs m' ! 0) = CfRecovered" by (simp add: settled_event_def)
  moreover have "cf_target_regions (cf_objs (fst (continental_failover (\<lambda>_. 0) demo_outage (new_cf_manager 10))) ! 0) = [''d'', ''c'']"
    by code_simp
  ultimately show ?thesis using run by simp
qed

text \<open>Regions that report no continent form the group \<open>unknown\<close>, but count as outside it: the failing
  region itself is a target. And an outage of everything is reported as recovered.\<close>

lemma unknown_continent_fails_over_to_itself:
  "cf_target_regions (cf_objs (fst (continental_failover (\<lambda>_. 0)
      [demo_planet_region ''a'' None ''active'' 900, demo_planet_region ''b'' None ''active'' 900] (new_cf_manager 10))) ! 0)
   = [''a'', ''b'']"
  by code_simp

lemma total_outage_recovered:
  "map (\<lambda>e. (cf_event_status e, cf_target_regions e, cf_rerouted e)) (cf_objs (fst (continental_failover (\<lambda>_. 0)
      [demo_planet_region ''a'' (Some ''eu'') ''offline'' 0, demo_planet_region ''b'' (Some ''eu'') ''offline'' 0] (new_cf_manager 10))))
   = [(CfRecovered, [], 10)]"
  by code_simp

end
