(* ===== verification/Runtime.thy ===== *)
theory Runtime
  imports Repair Bags
begin

text \<open>
  The runtime for very many jobs, \<open>runtime/ultra_scale_runtime.py\<close>: a bounded queue of job ids, the
  table of jobs, the table of running jobs and the bounded history. A job is an object that sits in
  several of them: the state has a store of objects and the collections hold references; every
  submission brings a new object. Its interpretation of the locale \<open>conservation\<close> says that no job is lost.
\<close>

section \<open>Jobs\<close>

datatype runtime_state = RtQueued | RtDispatched | RtRunning | RtStreaming | RtCompleted | RtFailed | RtCancelled

datatype runtime_priority = JpCritical | JpHigh | JpNormal | JpLow | JpBackground

record runtime_job =
  rj_id :: string
  rj_workload :: string
  rj_state :: runtime_state
  rj_priority :: runtime_priority
  rj_region :: string
  rj_streaming :: bool
  rj_tokens :: int
  rj_tps :: rat
  rj_queue_ms :: rat
  rj_execution_ms :: rat
  rj_created_at :: pyfloat
  rj_started_at :: pyfloat
  rj_completed_at :: pyfloat

record ultra_runtime =
  us_max_concurrent :: int
  us_max_queue :: int
  us_max_history :: nat
  us_objs :: "runtime_job list"
  us_jobs :: "(string, nat) dict"
  us_queued :: "string list"
  us_running :: "(string, nat) dict"
  us_completed :: "nat list"
  us_total_submitted :: nat
  us_total_completed :: nat
  us_total_failed :: nat
  us_total_tokens :: int
  us_events :: "(string \<times> runtime_priority \<times> pyfloat) list"

definition new_ultra_runtime :: "int \<Rightarrow> int \<Rightarrow> nat \<Rightarrow> ultra_runtime" where
  "new_ultra_runtime max_concurrent max_queue max_history =
     \<lparr>us_max_concurrent = max_concurrent, us_max_queue = max_queue, us_max_history = max_history, us_objs = [],
      us_jobs = [], us_queued = [], us_running = [], us_completed = [], us_total_submitted = 0,
      us_total_completed = 0, us_total_failed = 0, us_total_tokens = 0, us_events = []\<rparr>"

definition us_submit :: "clock \<Rightarrow> runtime_job \<Rightarrow> ultra_runtime \<Rightarrow> ultra_runtime \<times> bool" where
  "us_submit now job s =
     (if int (length (us_queued s)) \<ge> us_max_queue s then (s, False)
      else (s\<lparr>us_objs := us_objs s @ [job\<lparr>rj_state := RtQueued, rj_created_at := now 0\<rparr>],
              us_jobs := dput (rj_id job) (length (us_objs s)) (us_jobs s),
              us_queued := us_queued s @ [rj_id job],
              us_total_submitted := us_total_submitted s + 1,
              us_events := py_cap (us_max_history s) (us_events s @ [(rj_id job, rj_priority job, now 1)])\<rparr>, True))"

fun priority_order :: "runtime_priority \<Rightarrow> nat" where
  "priority_order JpCritical = 0"
| "priority_order JpHigh = 1"
| "priority_order JpNormal = 2"
| "priority_order JpLow = 3"
| "priority_order JpBackground = 4"

fun submit_each :: "clock \<Rightarrow> runtime_job list \<Rightarrow> ultra_runtime \<Rightarrow> ultra_runtime \<times> nat" where
  "submit_each now [] s = (s, 0)"
| "submit_each now (job # jobs) s =
     (let (s1, accepted) = us_submit now job s; (s2, n) = submit_each (\<lambda>k. now (k + 2)) jobs s1
      in (s2, (if accepted then n + 1 else n)))"

definition us_submit_batch :: "clock \<Rightarrow> runtime_job list \<Rightarrow> ultra_runtime \<Rightarrow> ultra_runtime \<times> nat" where
  "us_submit_batch now jobs s = submit_each now (sort_key (\<lambda>j. priority_order (rj_priority j)) jobs) s"

definition queue_rank :: "ultra_runtime \<Rightarrow> string \<Rightarrow> nat" where
  "queue_rank s jid =
     (case dget (us_jobs s) jid of
        Some i \<Rightarrow> priority_order (rj_priority (us_objs s ! i)) | None \<Rightarrow> priority_order JpNormal)"

definition dispatched_at :: "pyfloat \<Rightarrow> runtime_job \<Rightarrow> runtime_job" where
  "dispatched_at t j =
     j\<lparr>rj_state := RtDispatched, rj_started_at := t, rj_queue_ms := py_round ((t - rj_created_at j) * 1000) 2\<rparr>"

text \<open>The loop of \<open>dispatch\<close>: an id that the table does not know uses up its turn.\<close>

fun dispatch_loop :: "clock \<Rightarrow> nat \<Rightarrow> ultra_runtime \<Rightarrow> ultra_runtime \<times> nat list" where
  "dispatch_loop now 0 s = (s, [])"
| "dispatch_loop now (Suc k) s =
     (case us_queued s of
        [] \<Rightarrow> (s, [])
      | jid # rest \<Rightarrow>
          (case dget (us_jobs s) jid of
             None \<Rightarrow> dispatch_loop now k (s\<lparr>us_queued := rest\<rparr>)
           | Some i \<Rightarrow>
               let s1 = s\<lparr>us_objs := on_obj i (dispatched_at (now 0)) (us_objs s), us_queued := rest,
                          us_running := dput jid i (us_running s)\<rparr>;
                   (s2, refs) = dispatch_loop (\<lambda>n. now (n + 1)) k s1
               in (s2, i # refs)))"

definition us_dispatch :: "clock \<Rightarrow> int \<Rightarrow> ultra_runtime \<Rightarrow> ultra_runtime \<times> nat list" where
  "us_dispatch now max_dispatch s =
     (let available = us_max_concurrent s - int (length (us_running s));
          n = min (min available max_dispatch) (int (length (us_queued s)))
      in dispatch_loop now (nat n) (s\<lparr>us_queued := sort_key (queue_rank s) (us_queued s)\<rparr>))"

definition us_mark_running :: "string \<Rightarrow> bool \<Rightarrow> ultra_runtime \<Rightarrow> ultra_runtime \<times> bool" where
  "us_mark_running jid streaming s =
     (case dget (us_running s) jid of
        None \<Rightarrow> (s, False)
      | Some i \<Rightarrow> (s\<lparr>us_objs := on_obj i (\<lambda>j. j\<lparr>rj_state := if streaming then RtStreaming else RtRunning\<rparr>) (us_objs s)\<rparr>, True))"

definition us_update_tokens :: "string \<Rightarrow> int \<Rightarrow> rat \<Rightarrow> ultra_runtime \<Rightarrow> ultra_runtime \<times> bool" where
  "us_update_tokens jid tokens tps s =
     (case dget (us_running s) jid of
        None \<Rightarrow> (s, False)
      | Some i \<Rightarrow> (s\<lparr>us_objs := on_obj i (\<lambda>j. j\<lparr>rj_tokens := tokens, rj_tps := tps\<rparr>) (us_objs s),
                     us_total_tokens := us_total_tokens s + tokens\<rparr>, True))"

definition finished_at :: "pyfloat \<Rightarrow> bool \<Rightarrow> runtime_job \<Rightarrow> runtime_job" where
  "finished_at t success j =
     j\<lparr>rj_completed_at := t,
       rj_execution_ms := (if rj_started_at j \<noteq> 0 then py_round ((t - rj_started_at j) * 1000) 2 else 0),
       rj_state := (if success then RtCompleted else RtFailed)\<rparr>"

definition us_complete :: "pyfloat \<Rightarrow> string \<Rightarrow> bool \<Rightarrow> ultra_runtime \<Rightarrow> ultra_runtime \<times> nat option" where
  "us_complete t jid success s =
     (case dget (us_running s) jid of
        None \<Rightarrow> (s, None)
      | Some i \<Rightarrow>
          (s\<lparr>us_objs := on_obj i (finished_at t success) (us_objs s),
             us_jobs := ddel jid (us_jobs s),
             us_running := ddel jid (us_running s),
             us_completed := py_cap (us_max_history s) (us_completed s @ [i]),
             us_total_completed := (if success then us_total_completed s + 1 else us_total_completed s),
             us_total_failed := (if success then us_total_failed s else us_total_failed s + 1)\<rparr>, Some i))"

definition us_cancel :: "string \<Rightarrow> ultra_runtime \<Rightarrow> ultra_runtime \<times> bool" where
  "us_cancel jid s =
     (case dget (us_running s) jid of
        Some i \<Rightarrow>
          (s\<lparr>us_objs := on_obj i (\<lambda>j. j\<lparr>rj_state := RtCancelled\<rparr>) (us_objs s),
             us_jobs := ddel jid (us_jobs s), us_running := ddel jid (us_running s)\<rparr>, True)
      | None \<Rightarrow>
          if jid \<in> set (us_queued s)
          then (s\<lparr>us_objs := (case dget (us_jobs s) jid of
                    Some i \<Rightarrow> on_obj i (\<lambda>j. j\<lparr>rj_state := RtCancelled\<rparr>) (us_objs s) | None \<Rightarrow> us_objs s),
                  us_jobs := ddel jid (us_jobs s), us_queued := remove1 jid (us_queued s)\<rparr>, True)
          else (s, False))"

text \<open>Calls, the ids they offer, and the ids that they accept and end.\<close>

datatype us_op =
    UsSubmit clock runtime_job
  | UsDispatch clock int
  | UsMark string bool
  | UsTokens string int rat
  | UsComplete pyfloat string bool
  | UsCancel string

fun us_offered :: "us_op \<Rightarrow> string list" where
  "us_offered (UsSubmit now job) = [rj_id job]"
| "us_offered _ = []"

fun us_step :: "us_op \<Rightarrow> ultra_runtime \<Rightarrow> ultra_runtime \<times> string list \<times> string list" where
  "us_step (UsSubmit now job) s = (let (s', accepted) = us_submit now job s in (s', if accepted then [rj_id job] else [], []))"
| "us_step (UsDispatch now n) s = (fst (us_dispatch now n s), [], [])"
| "us_step (UsMark jid streaming) s = (fst (us_mark_running jid streaming s), [], [])"
| "us_step (UsTokens jid tokens tps) s = (fst (us_update_tokens jid tokens tps s), [], [])"
| "us_step (UsComplete t jid success) s = (let (s', r) = us_complete t jid success s in (s', [], if r = None then [] else [jid]))"
| "us_step (UsCancel jid) s = (let (s', cancelled) = us_cancel jid s in (s', [], if cancelled then [jid] else []))"

definition us_live :: "ultra_runtime \<Rightarrow> string multiset" where
  "us_live s = mset (us_queued s) + mset (dkeys (us_running s))"

text \<open>A queued id names an object of that id that is queued, a running id one that is not.\<close>

definition queued_ok :: "ultra_runtime \<Rightarrow> string \<Rightarrow> bool" where
  "queued_ok s jid \<longleftrightarrow> (\<exists>i. dget (us_jobs s) jid = Some i \<and> i < length (us_objs s) \<and> rj_id (us_objs s ! i) = jid
     \<and> rj_state (us_objs s ! i) = RtQueued)"

definition running_ok :: "ultra_runtime \<Rightarrow> string \<Rightarrow> nat \<Rightarrow> bool" where
  "running_ok s jid i \<longleftrightarrow> dget (us_jobs s) jid = Some i \<and> i < length (us_objs s) \<and> rj_id (us_objs s ! i) = jid
     \<and> rj_state (us_objs s ! i) \<in> {RtDispatched, RtRunning, RtStreaming}"

definition us_ok :: "int \<Rightarrow> int \<Rightarrow> ultra_runtime \<Rightarrow> bool" where
  "us_ok c q s \<longleftrightarrow> us_max_concurrent s = c \<and> us_max_queue s = q
     \<and> int (length (us_queued s)) \<le> max 0 q \<and> int (length (us_running s)) \<le> max 0 c \<and> dwf (us_running s)
     \<and> (\<forall>jid \<in> set (us_queued s). queued_ok s jid)
     \<and> (\<forall>jid i. dget (us_running s) jid = Some i \<longrightarrow> running_ok s jid i)"

lemma us_okD:
  assumes "us_ok c q s"
  shows "us_max_concurrent s = c" "us_max_queue s = q" "int (length (us_queued s)) \<le> max 0 q"
    "int (length (us_running s)) \<le> max 0 c" "dwf (us_running s)"
    "jid \<in> set (us_queued s) \<Longrightarrow> queued_ok s jid" "dget (us_running s) jid = Some i \<Longrightarrow> running_ok s jid i"
  using assms by (simp_all add: us_ok_def)

lemma us_submit_ok:
  assumes ok: "us_ok c q s" and new: "rj_id job \<notin> set (us_queued s)" "dget (us_running s) (rj_id job) = None"
    and sub: "us_submit now job s = (s', True)"
  shows "us_ok c q s' \<and> us_live s' = add_mset (rj_id job) (us_live s)"
proof -
  have room: "int (length (us_queued s)) < q" using sub us_okD(2) [OF ok] by (auto simp: us_submit_def split: if_splits)
  have f: "us_objs s' = us_objs s @ [job\<lparr>rj_state := RtQueued, rj_created_at := now 0\<rparr>]"
    "us_jobs s' = dput (rj_id job) (length (us_objs s)) (us_jobs s)" "us_queued s' = us_queued s @ [rj_id job]"
    "us_running s' = us_running s" "us_max_concurrent s' = us_max_concurrent s" "us_max_queue s' = us_max_queue s"
    using sub by (auto simp: us_submit_def split: if_splits)
  have "queued_ok s' jid" if "jid \<in> set (us_queued s)" for jid
    using us_okD(6) [OF ok that] new(1) that by (auto simp: queued_ok_def f nth_append)
  moreover have "queued_ok s' (rj_id job)" by (simp add: queued_ok_def f)
  moreover have "running_ok s' jid i" if "dget (us_running s) jid = Some i" for jid i
    using us_okD(7) [OF ok that] new(2) that by (auto simp: running_ok_def f nth_append)
  ultimately show ?thesis using room us_okD [OF ok]
    by (simp add: us_ok_def us_live_def f)
qed

lemma dispatch_loop_spec:
  assumes "us_ok c q s" and "distinct (us_queued s @ dkeys (us_running s))" and "int k \<le> max 0 (c - int (length (us_running s)))"
    and "dispatch_loop now k s = (s', refs)"
  shows "us_ok c q s' \<and> us_queued s' = drop k (us_queued s)
    \<and> dkeys (us_running s') = dkeys (us_running s) @ take k (us_queued s)
    \<and> map (\<lambda>i. rj_id (us_objs s' ! i)) refs = take k (us_queued s)
    \<and> (\<forall>j. rj_id (us_objs s' ! j) = rj_id (us_objs s ! j))"
  using assms
proof (induction k arbitrary: now s s' refs)
  case (Suc k)
  show ?case
  proof (cases "us_queued s")
    case Nil
    with Suc.prems show ?thesis by simp
  next
    case (Cons jid rest)
    obtain i where i: "dget (us_jobs s) jid = Some i" "i < length (us_objs s)" "rj_id (us_objs s ! i) = jid"
      using us_okD(6) [OF Suc.prems(1), of jid] Cons by (auto simp: queued_ok_def)
    define s1 where "s1 = s\<lparr>us_objs := on_obj i (dispatched_at (now 0)) (us_objs s), us_queued := rest,
      us_running := dput jid i (us_running s)\<rparr>"
    obtain refs1 where run: "dispatch_loop (\<lambda>n. now (n + 1)) k s1 = (s', refs1)" and refs: "refs = i # refs1"
      using Suc.prems(4) Cons i by (auto simp: s1_def split: prod.splits)
    have f: "us_jobs s1 = us_jobs s" "us_queued s1 = rest" "us_running s1 = dput jid i (us_running s)"
      "us_objs s1 ! j = (if j = i then dispatched_at (now 0) (us_objs s ! j) else us_objs s ! j)"
      "length (us_objs s1) = length (us_objs s)" "us_max_concurrent s1 = us_max_concurrent s" "us_max_queue s1 = us_max_queue s" for j
      using i(2) by (simp_all add: s1_def nth_on_obj)
    have ids: "rj_id (us_objs s1 ! j) = rj_id (us_objs s ! j)" for j by (simp add: f dispatched_at_def)
    have new: "jid \<notin> set rest" "jid \<notin> fst ` set (us_running s)" using Suc.prems(2) Cons by auto
    have keys: "dkeys (us_running s1) = dkeys (us_running s) @ [jid]" "length (us_running s1) = Suc (length (us_running s))"
      by (simp_all add: f dput_new [OF new(2)])
    have "queued_ok s1 x" if "x \<in> set rest" for x
      using us_okD(6) [OF Suc.prems(1), of x] that Cons new(1) i(3) by (auto simp: queued_ok_def f)
    moreover have "running_ok s1 x j" if "dget (us_running s1) x = Some j" for x j
    proof (cases "x = jid")
      case True
      with that i show ?thesis by (auto simp: running_ok_def f dispatched_at_def)
    next
      case False
      with that have "running_ok s x j" by (intro us_okD(7) [OF Suc.prems(1)]) (simp add: f)
      with False i show ?thesis by (auto simp: running_ok_def f)
    qed
    moreover have "int (length rest) \<le> max 0 q" "int (length (us_running s1)) \<le> max 0 c"
      using us_okD(3) [OF Suc.prems(1)] Suc.prems(3) by (simp_all add: Cons keys)
    ultimately have ok1: "us_ok c q s1" using us_okD [OF Suc.prems(1)] by (auto simp: us_ok_def f)
    have d1: "distinct (us_queued s1 @ dkeys (us_running s1))" using Suc.prems(2) Cons by (auto simp: f(2) keys(1))
    have k1: "int k \<le> max 0 (c - int (length (us_running s1)))" using Suc.prems(3) by (simp add: keys)
    from Suc.IH [OF ok1 d1 k1 run] show ?thesis
      using i(3) by (auto simp: Cons refs f(2) keys(1) ids)
  qed
qed simp

lemma us_dispatch_spec:
  assumes ok: "us_ok c q s" and d: "distinct (us_queued s @ dkeys (us_running s))"
    and run: "us_dispatch now m s = (s', refs)"
  defines "n \<equiv> nat (min (min (c - int (length (us_running s))) m) (int (length (us_queued s))))"
    and "by_rank \<equiv> sort_key (queue_rank s) (us_queued s)"
  shows "us_ok c q s'" "us_live s' = us_live s" "us_queued s' = drop n by_rank"
    "map (\<lambda>i. rj_id (us_objs s' ! i)) refs = take n by_rank" "rj_id (us_objs s' ! j) = rj_id (us_objs s ! j)"
proof -
  let ?s = "s\<lparr>us_queued := by_rank\<rparr>"
  have set: "set by_rank = set (us_queued s)" "mset by_rank = mset (us_queued s)" by (simp_all add: by_rank_def)
  have "us_ok c q ?s" using us_okD [OF ok] by (auto simp: us_ok_def set queued_ok_def running_ok_def by_rank_def)
  moreover have "distinct (us_queued ?s @ dkeys (us_running ?s))" using d by (simp add: set by_rank_def)
  moreover have "int n \<le> max 0 (c - int (length (us_running ?s)))" by (simp add: n_def min_le_iff_disj)
  moreover have "dispatch_loop now n ?s = (s', refs)"
    using run us_okD(1) [OF ok] by (simp add: us_dispatch_def Let_def n_def by_rank_def)
  ultimately have *: "us_ok c q s' \<and> us_queued s' = drop n (us_queued ?s)
    \<and> dkeys (us_running s') = dkeys (us_running ?s) @ take n (us_queued ?s)
    \<and> map (\<lambda>i. rj_id (us_objs s' ! i)) refs = take n (us_queued ?s)
    \<and> (\<forall>j. rj_id (us_objs s' ! j) = rj_id (us_objs ?s ! j))"
    by (rule dispatch_loop_spec)
  have "us_live s' = (mset (drop n by_rank) + mset (take n by_rank)) + mset (dkeys (us_running s))"
    using * by (simp only: us_live_def mset_append) (simp add: ac_simps)
  also have "mset (drop n by_rank) + mset (take n by_rank) = mset (us_queued s)"
    by (metis append_take_drop_id mset_append add.commute set(2))
  finally show "us_live s' = us_live s" by (simp only: us_live_def)
  show "us_ok c q s'" using * by blast
  show "us_queued s' = drop n by_rank" using * by simp
  from * have "map (\<lambda>i. rj_id (us_objs s' ! i)) refs = take n (us_queued ?s)" by blast
  then show "map (\<lambda>i. rj_id (us_objs s' ! i)) refs = take n by_rank" by simp
  show "rj_id (us_objs s' ! j) = rj_id (us_objs s ! j)" using * by simp
qed

lemma queued_elsewhere:
  assumes "queued_ok s x" "running_ok s jid i"
  shows "\<exists>k. dget (us_jobs s) x = Some k \<and> k \<noteq> i \<and> k < length (us_objs s) \<and> rj_id (us_objs s ! k) = x
    \<and> rj_state (us_objs s ! k) = RtQueued"
proof -
  obtain k where k: "dget (us_jobs s) x = Some k" "k < length (us_objs s)" "rj_id (us_objs s ! k) = x"
    "rj_state (us_objs s ! k) = RtQueued" using assms(1) by (auto simp: queued_ok_def)
  then have "k \<noteq> i" using assms(2) by (auto simp: running_ok_def)
  with k show ?thesis by blast
qed

text \<open>An update of the object of a running job, and the end of a job.\<close>

lemma us_ok_touch:
  assumes ok: "us_ok c q s" and i: "dget (us_running s) jid = Some i"
    and keep: "\<And>j. rj_id (f j) = rj_id j" "\<And>j. rj_state j \<in> {RtDispatched, RtRunning, RtStreaming}
      \<Longrightarrow> rj_state (f j) \<in> {RtDispatched, RtRunning, RtStreaming}"
    and s': "us_objs s' = on_obj i f (us_objs s)" "us_jobs s' = us_jobs s" "us_queued s' = us_queued s"
      "us_running s' = us_running s" "us_max_concurrent s' = us_max_concurrent s" "us_max_queue s' = us_max_queue s"
  shows "us_ok c q s' \<and> us_live s' = us_live s"
proof -
  have ri: "running_ok s jid i" by (rule us_okD(7) [OF ok i])
  have nth: "us_objs s' ! j = (if j = i then f (us_objs s ! j) else us_objs s ! j)" for j
    using ri by (simp add: s'(1) nth_on_obj running_ok_def)
  have len: "length (us_objs s') = length (us_objs s)" by (simp add: s'(1))
  have "queued_ok s' x" if "x \<in> set (us_queued s)" for x
    using queued_elsewhere [OF us_okD(6) [OF ok that] ri] by (auto simp: queued_ok_def s'(2) len nth)
  moreover have "running_ok s' x j" if "dget (us_running s) x = Some j" for x j
    using us_okD(7) [OF ok that] keep by (auto simp: running_ok_def s'(2) len nth)
  ultimately show ?thesis using us_okD [OF ok] by (simp add: us_ok_def us_live_def s')
qed

lemma us_ok_end:
  assumes ok: "us_ok c q s" and i: "dget (us_running s) jid = Some i" and new: "jid \<notin> set (us_queued s)"
    and keep: "\<And>j. rj_id (f j) = rj_id j"
    and s': "us_objs s' = on_obj i f (us_objs s)" "us_jobs s' = ddel jid (us_jobs s)" "us_queued s' = us_queued s"
      "us_running s' = ddel jid (us_running s)" "us_max_concurrent s' = us_max_concurrent s" "us_max_queue s' = us_max_queue s"
  shows "us_ok c q s' \<and> us_live s = add_mset jid (us_live s')"
proof -
  have ri: "running_ok s jid i" by (rule us_okD(7) [OF ok i])
  have nth: "us_objs s' ! j = (if j = i then f (us_objs s ! j) else us_objs s ! j)" for j
    using ri by (simp add: s'(1) nth_on_obj running_ok_def)
  have len: "length (us_objs s') = length (us_objs s)" by (simp add: s'(1))
  have "queued_ok s' x" if "x \<in> set (us_queued s)" for x
    using queued_elsewhere [OF us_okD(6) [OF ok that] ri] new that by (auto simp: queued_ok_def s'(2) len nth)
  moreover have "running_ok s' x j" if "dget (us_running s') x = Some j" for x j
  proof -
    have x: "x \<noteq> jid" "dget (us_running s) x = Some j" using that by (auto simp: s' split: if_splits)
    have rj: "running_ok s x j" by (rule us_okD(7) [OF ok x(2)])
    then have "j \<noteq> i" using x(1) ri by (auto simp: running_ok_def)
    with rj x(1) show ?thesis by (simp add: running_ok_def s'(2) len nth)
  qed
  moreover have "length (us_running s') \<le> length (us_running s)"
    using length_ddel [OF us_okD(5) [OF ok], of jid] i by (simp add: s'(4))
  moreover have "mset (dkeys (us_running s)) = add_mset jid (mset (dkeys (us_running s')))"
    unfolding s'(4) by (rule mset_dkeys_ddel [OF us_okD(5) [OF ok] i])
  ultimately show ?thesis using us_okD [OF ok] by (simp add: us_ok_def us_live_def s')
qed

lemma us_cancel_queued:
  assumes ok: "us_ok c q s" and d: "distinct (us_queued s @ dkeys (us_running s))"
    and none: "dget (us_running s) jid = None" and mem: "jid \<in> set (us_queued s)"
  shows "snd (us_cancel jid s) \<and> us_ok c q (fst (us_cancel jid s)) \<and> us_live s = add_mset jid (us_live (fst (us_cancel jid s)))"
proof -
  define s' where "s' = fst (us_cancel jid s)"
  obtain i where i: "dget (us_jobs s) jid = Some i" "i < length (us_objs s)" "rj_id (us_objs s ! i) = jid"
    using us_okD(6) [OF ok mem] by (auto simp: queued_ok_def)
  have f: "us_objs s' = on_obj i (\<lambda>j. j\<lparr>rj_state := RtCancelled\<rparr>) (us_objs s)" "us_jobs s' = ddel jid (us_jobs s)"
    "us_queued s' = remove1 jid (us_queued s)" "us_running s' = us_running s" "us_max_concurrent s' = us_max_concurrent s"
    "us_max_queue s' = us_max_queue s" "snd (us_cancel jid s)"
    using none mem i by (simp_all add: s'_def us_cancel_def)
  have nth: "us_objs s' ! j = (if j = i then (us_objs s ! j)\<lparr>rj_state := RtCancelled\<rparr> else us_objs s ! j)" for j
    using i(2) by (simp add: f(1) nth_on_obj)
  have len: "length (us_objs s') = length (us_objs s)" by (simp add: f(1))
  have "queued_ok s' x" if "x \<in> set (us_queued s')" for x
  proof -
    have x: "x \<in> set (us_queued s)" "x \<noteq> jid" using that d by (auto simp: f(3))
    then obtain k where k: "dget (us_jobs s) x = Some k" "k < length (us_objs s)" "rj_id (us_objs s ! k) = x"
      "rj_state (us_objs s ! k) = RtQueued" using us_okD(6) [OF ok x(1)] by (auto simp: queued_ok_def)
    then have "k \<noteq> i" using i(3) x(2) by auto
    with k x(2) show ?thesis by (simp add: queued_ok_def f(2) len nth)
  qed
  moreover have "running_ok s' x j" if "dget (us_running s') x = Some j" for x j
  proof -
    have rj: "running_ok s x j" using that by (intro us_okD(7) [OF ok]) (simp add: f(4))
    have "x \<noteq> jid" using that none by (auto simp: f(4))
    moreover from this have "j \<noteq> i" using rj i(3) by (auto simp: running_ok_def)
    ultimately show ?thesis using rj by (simp add: running_ok_def f(2) len nth)
  qed
  moreover have "length (us_queued s') \<le> length (us_queued s)" by (simp add: f(3) length_remove1)
  moreover have "us_live s = add_mset jid (us_live s')" using mem by (simp add: us_live_def f(3,4))
  ultimately show ?thesis using us_okD [OF ok] f(7)
    unfolding s'_def [symmetric] by (auto simp: us_ok_def f(4,5,6))
qed

lemma us_step_conserves:
  assumes ok: "us_ok c q s" and new: "\<forall>i. count (us_live s) i + count (mset (us_offered p)) i \<le> 1"
    and st: "us_step p s = (s', acc, fin)"
  shows "us_ok c q s' \<and> us_live s' + mset fin = us_live s + mset acc \<and> mset acc \<subseteq># mset (us_offered p)"
proof -
  have d: "distinct (us_queued s @ dkeys (us_running s))"
    by (rule distinct_if_count) (use new in \<open>auto simp: us_live_def intro: add_leD1\<close>)
  show ?thesis
  proof (cases p)
    case (UsSubmit now job)
    obtain s1 good where sub: "us_submit now job s = (s1, good)" by fastforce
    have "count (us_live s) (rj_id job) = 0" using new [rule_format, of "rj_id job"] UsSubmit by simp
    then have "rj_id job \<notin> set (us_queued s)" "dget (us_running s) (rj_id job) = None"
      by (auto simp: us_live_def count_eq_zero_iff dget_None_iff)
    note step = us_submit_ok [OF ok this, of now s1]
    show ?thesis
    proof (cases good)
      case True
      with step sub st UsSubmit show ?thesis by simp
    next
      case False
      with sub have "s1 = s" by (auto simp: us_submit_def split: if_splits)
      with False sub st UsSubmit ok show ?thesis by simp
    qed
  next
    case (UsDispatch now n)
    then show ?thesis using us_dispatch_spec(1,2) [OF ok d, of now n] st by (cases "us_dispatch now n s") auto
  next
    case (UsMark jid streaming)
    show ?thesis
    proof (cases "dget (us_running s) jid")
      case (Some i)
      from us_ok_touch [OF ok Some, of "\<lambda>j. j\<lparr>rj_state := if streaming then RtStreaming else RtRunning\<rparr>" s'] st UsMark Some
      show ?thesis by (auto simp: us_mark_running_def)
    qed (use st UsMark ok in \<open>simp add: us_mark_running_def\<close>)
  next
    case (UsTokens jid tokens tps)
    show ?thesis
    proof (cases "dget (us_running s) jid")
      case (Some i)
      from us_ok_touch [OF ok Some, of "\<lambda>j. j\<lparr>rj_tokens := tokens, rj_tps := tps\<rparr>" s'] st UsTokens Some
      show ?thesis by (auto simp: us_update_tokens_def)
    qed (use st UsTokens ok in \<open>simp add: us_update_tokens_def\<close>)
  next
    case (UsComplete t jid success)
    show ?thesis
    proof (cases "dget (us_running s) jid")
      case (Some i)
      then have "jid \<in> set (dkeys (us_running s))" using dget_in_keys [of "us_running s" jid i] by simp
      then have "jid \<notin> set (us_queued s)" using d by auto
      from us_ok_end [OF ok Some this, of "finished_at t success" s'] st UsComplete Some
      show ?thesis by (auto simp: us_complete_def finished_at_def)
    qed (use st UsComplete ok in \<open>simp add: us_complete_def\<close>)
  next
    case (UsCancel jid)
    show ?thesis
    proof (cases "dget (us_running s) jid")
      case (Some i)
      then have "jid \<in> set (dkeys (us_running s))" using dget_in_keys [of "us_running s" jid i] by simp
      then have "jid \<notin> set (us_queued s)" using d by auto
      from us_ok_end [OF ok Some this, of "\<lambda>j. j\<lparr>rj_state := RtCancelled\<rparr>" s'] st UsCancel Some
      show ?thesis by (auto simp: us_cancel_def)
    next
      case None
      show ?thesis
      proof (cases "jid \<in> set (us_queued s)")
        case True
        note queued = us_cancel_queued [OF ok d None True]
        have eqs: "s' = fst (us_cancel jid s)" "acc = []" "fin = [jid]"
          using st queued unfolding UsCancel by (simp_all add: split_beta Let_def)
        show ?thesis unfolding eqs using queued by simp
      qed (use st UsCancel ok None in \<open>simp add: us_cancel_def\<close>)
    qed
  qed
qed

interpretation ultra: conservation "us_ok c q" us_live us_offered us_step
  by unfold_locales (rule us_step_conserves)

lemma us_ok_new: "us_ok c q (new_ultra_runtime c q h)"
  by (simp add: us_ok_def new_ultra_runtime_def)

lemma us_run:
  assumes "distinct (concat (map us_offered ops))" and "run_ops us_step ops (new_ultra_runtime c q h) = (s, acc, fin)"
  shows "us_ok c q s \<and> us_live s + mset fin = mset acc \<and> distinct acc"
  by (rule ultra.run_from_empty [OF us_ok_new _ assms]) (simp add: us_live_def new_ultra_runtime_def)

text \<open>when no id is submitted twice, every job that the runtime accepts is waiting, running or ended, and
  is so exactly once; the queue and the number of running jobs keep their limits.\<close>

theorem runtime_jobs_conserved:
  assumes "distinct (concat (map us_offered ops))"
  shows "case run_ops us_step ops (new_ultra_runtime c q h) of (s, accepted, ended) \<Rightarrow>
    mset (us_queued s) + mset (dkeys (us_running s)) + mset ended = mset accepted
    \<and> distinct (us_queued s @ dkeys (us_running s) @ ended)
    \<and> int (length (us_queued s)) \<le> max 0 q \<and> int (length (us_running s)) \<le> max 0 c"
proof -
  obtain s acc fin where run: "run_ops us_step ops (new_ultra_runtime c q h) = (s, acc, fin)" by (metis prod_cases3)
  note ok = us_run [OF assms run]
  have eq: "mset (us_queued s @ dkeys (us_running s) @ fin) = mset acc"
    using ok by (simp add: us_live_def add.assoc)
  have "distinct (us_queued s @ dkeys (us_running s) @ fin)"
    using ok mset_eq_imp_distinct_iff [OF eq] by blast
  with ok eq show ?thesis unfolding run prod.case using us_okD(3,4) [of c q s] by (simp add: add.assoc)
qed

definition demo_job :: "string \<Rightarrow> runtime_priority \<Rightarrow> runtime_job" where
  "demo_job i p = \<lparr>rj_id = i, rj_workload = ''w'', rj_state = RtQueued, rj_priority = p, rj_region = [], rj_streaming = False,
     rj_tokens = 0, rj_tps = 0, rj_queue_ms = 0, rj_execution_ms = 0, rj_created_at = 0, rj_started_at = 0, rj_completed_at = 0\<rparr>"

definition demo_us_ops :: "us_op list" where
  "demo_us_ops = [UsSubmit (\<lambda>_. 1) (demo_job ''a'' JpLow), UsSubmit (\<lambda>_. 2) (demo_job ''b'' JpCritical),
     UsSubmit (\<lambda>_. 3) (demo_job ''c'' JpNormal), UsDispatch (\<lambda>_. 4) 5, UsMark ''b'' True, UsComplete 6 ''b'' True,
     UsCancel ''a'', UsSubmit (\<lambda>_. 7) (demo_job ''d'' JpHigh)]"

theorem runtime_jobs_conserved_witness:
  "\<exists>s ended. run_ops us_step demo_us_ops (new_ultra_runtime 2 3 10) = (s, [''a'', ''b'', ''c'', ''d''], ended)
     \<and> mset (us_queued s) + mset (dkeys (us_running s)) + mset ended = mset [''a'', ''b'', ''c'', ''d'']"
proof -
  obtain s acc fin where run: "run_ops us_step demo_us_ops (new_ultra_runtime 2 3 10) = (s, acc, fin)" by (metis prod_cases3)
  have "distinct (concat (map us_offered demo_us_ops))" by code_simp
  from runtime_jobs_conserved [OF this, where c = 2 and q = 3 and h = 10]
  have "mset (us_queued s) + mset (dkeys (us_running s)) + mset fin = mset acc" unfolding run by simp
  moreover have "fst (snd (run_ops us_step demo_us_ops (new_ultra_runtime 2 3 10))) = [''a'', ''b'', ''c'', ''d'']" by code_simp
  ultimately show ?thesis using run by auto
qed

text \<open>a dispatch starts as many jobs as the limits allow, the most urgent first and the older first among
  equals, and none that waits is more urgent than one that was started.\<close>

theorem dispatch_most_urgent:
  assumes "distinct (concat (map us_offered ops))" and "run_ops us_step ops (new_ultra_runtime c q h) = (s, accepted, ended)"
    and "us_dispatch now m s = (s', refs)"
  shows "map (\<lambda>i. rj_id (us_objs s' ! i)) refs @ us_queued s' = sort_key (queue_rank s) (us_queued s)
    \<and> int (length refs) = max 0 (min (min (c - int (length (us_running s))) m) (int (length (us_queued s))))
    \<and> (\<forall>i \<in> set refs. \<forall>jid \<in> set (us_queued s'). queue_rank s (rj_id (us_objs s' ! i)) \<le> queue_rank s jid)"
proof -
  from us_run [OF assms(1,2)] have ok: "us_ok c q s" and eq: "us_live s + mset ended = mset accepted" and d: "distinct accepted"
    by blast+
  have "mset (us_queued s @ dkeys (us_running s) @ ended) = mset accepted"
    using eq by (simp add: us_live_def add.assoc)
  from mset_eq_imp_distinct_iff [OF this] d have "distinct (us_queued s @ dkeys (us_running s))" by auto
  note spec = us_dispatch_spec [OF ok this assms(3)]
  define n where "n = nat (min (min (c - int (length (us_running s))) m) (int (length (us_queued s))))"
  define xs where "xs = sort_key (queue_rank s) (us_queued s)"
  have refs: "map (\<lambda>i. rj_id (us_objs s' ! i)) refs = take n xs" and rest: "us_queued s' = drop n xs"
    using spec(3,4) by (simp_all add: n_def xs_def)
  have "sorted_wrt (\<lambda>x y. queue_rank s x \<le> queue_rank s y) (take n xs @ drop n xs)"
    using sorted_sort_key [of "queue_rank s" "us_queued s"] by (simp add: xs_def sorted_wrt_map)
  then have "\<forall>x \<in> set (take n xs). \<forall>y \<in> set (drop n xs). queue_rank s x \<le> queue_rank s y"
    unfolding sorted_wrt_append by blast
  then have "\<forall>i \<in> set refs. \<forall>jid \<in> set (us_queued s'). queue_rank s (rj_id (us_objs s' ! i)) \<le> queue_rank s jid"
    unfolding refs [symmetric] rest [symmetric] by simp
  moreover have "length refs = n" using arg_cong [OF refs, of length] by (simp add: n_def xs_def)
  then have "int (length refs) = max 0 (min (min (c - int (length (us_running s))) m) (int (length (us_queued s))))"
    unfolding n_def by linarith
  moreover have "map (\<lambda>i. rj_id (us_objs s' ! i)) refs @ us_queued s' = xs" by (simp add: refs rest)
  ultimately show ?thesis unfolding xs_def by blast
qed

theorem dispatch_most_urgent_witness:
  "\<exists>s s' refs. us_dispatch (\<lambda>_. 4) 5 s = (s', refs) \<and> map (\<lambda>i. rj_id (us_objs s' ! i)) refs @ us_queued s' = [''b'', ''c'', ''a'']
     \<and> length refs = 2"
proof -
  let ?ops = "take 3 demo_us_ops"
  obtain s acc fin where run: "run_ops us_step ?ops (new_ultra_runtime 2 3 10) = (s, acc, fin)" by (metis prod_cases3)
  obtain s' refs where dis: "us_dispatch (\<lambda>_. 4) 5 s = (s', refs)" by fastforce
  have "distinct (concat (map us_offered ?ops))" by code_simp
  note * = dispatch_most_urgent [OF this run dis]
  have s: "s = fst (run_ops us_step ?ops (new_ultra_runtime 2 3 10))" using run by simp
  have "sort_key (queue_rank s) (us_queued s) = [''b'', ''c'', ''a'']" "length (us_queued s) = 3" "us_running s = []"
    unfolding s by code_simp+
  with * dis show ?thesis by auto
qed

text \<open>An id that is submitted a second time while it waits is queued twice, but the table knows only the
  second job: the first one is never run, and the spare entry uses up a turn of a later dispatch.\<close>

lemma resubmission_drops_job:
  "let s = fst (run_ops us_step [UsSubmit (\<lambda>_. 1) (demo_job ''a'' JpNormal), UsSubmit (\<lambda>_. 2) (demo_job ''a'' JpHigh),
       UsDispatch (\<lambda>_. 3) 1, UsComplete 4 ''a'' True] (new_ultra_runtime 2 9 9))
   in us_queued s = [''a''] \<and> us_jobs s = [] \<and> map rj_state (us_objs s) = [RtQueued, RtCompleted]"
  by code_simp

text \<open>\<open>update_tokens\<close> stores the number of tokens of a job but adds it to the total: two progress
  reports of one job count the first tokens twice.\<close>

lemma tokens_counted_twice:
  "let s = fst (run_ops us_step [UsSubmit (\<lambda>_. 1) (demo_job ''a'' JpNormal), UsDispatch (\<lambda>_. 3) 1, UsTokens ''a'' 10 5,
       UsTokens ''a'' 20 5] (new_ultra_runtime 2 9 9))
   in us_total_tokens s = 30 \<and> map rj_tokens (us_objs s) = [20]"
  by code_simp

end
