(* ===== verification/Executions.thy ===== *)
theory Executions
  imports Repair Bags
begin

text \<open>
  Distributed executions (\<open>runtime/distributed_execution.py\<close>) and streaming sessions
  (\<open>runtime/workload_streaming.py\<close>). An execution or a session is in one table at a time and moves to
  the history when it ends, so both are values. The two services interpret the locale
  \<open>conservation\<close>. Metadata and the sizes of inputs and outputs, which nothing reads, are left out.
\<close>

section \<open>Executions\<close>

datatype execution_mode = SingleNode | DataParallel | ModelParallel | PipelineParallel | HybridMode

datatype shard_state = ShPending | ShRunning | ShCompleted | ShFailed

record shard =
  sh_id :: string
  sh_execution :: string
  sh_region :: string
  sh_state :: shard_state
  sh_tokens :: int
  sh_ms :: rat
  sh_started_at :: pyfloat
  sh_completed_at :: pyfloat

record execution =
  ex_id :: string
  ex_workload :: string
  ex_mode :: execution_mode
  ex_total :: nat
  ex_completed :: nat
  ex_failed :: nat
  ex_regions :: "string list"
  ex_shards :: "shard list"
  ex_tokens :: int
  ex_ms :: rat
  ex_created_at :: pyfloat
  ex_completed_at :: pyfloat

datatype execution_event =
    ExecutionCreated string execution_mode nat "string list" pyfloat
  | ExecutionCompleted string nat nat nat int rat pyfloat

record execution_manager =
  xm_max_history :: nat
  xm_executions :: "(string, execution) dict"
  xm_completed :: "execution list"
  xm_total_created :: nat
  xm_total_completed :: nat
  xm_total_shards :: nat
  xm_events :: "execution_event list"

definition new_execution_manager :: "nat \<Rightarrow> execution_manager" where
  "new_execution_manager h =
     \<lparr>xm_max_history = h, xm_executions = [], xm_completed = [], xm_total_created = 0, xm_total_completed = 0,
      xm_total_shards = 0, xm_events = []\<rparr>"

definition create_execution :: "clock \<Rightarrow> execution \<Rightarrow> execution_manager \<Rightarrow> execution_manager" where
  "create_execution now e m =
     (let e1 = e\<lparr>ex_created_at := now 0, ex_total := length (ex_shards e)\<rparr>
      in m\<lparr>xm_executions := dput (ex_id e) e1 (xm_executions m),
           xm_total_created := xm_total_created m + 1,
           xm_events := py_cap (xm_max_history m)
             (xm_events m @ [ExecutionCreated (ex_id e) (ex_mode e) (ex_total e1) (ex_regions e) (now 1)])\<rparr>)"

text \<open>A region without an id gets a name from its position; shards go round the regions.\<close>

definition region_names :: "string option list \<Rightarrow> string list" where
  "region_names rs =
     map (\<lambda>(i, r). case r of Some rid \<Rightarrow> rid | None \<Rightarrow> ''region-'' @ string_of_nat i) (enumerate 0 rs)"

definition new_shard :: "string \<Rightarrow> string list \<Rightarrow> nat \<Rightarrow> shard" where
  "new_shard eid regions i =
     \<lparr>sh_id = eid @ ''-shard-'' @ string_of_nat i, sh_execution = eid,
      sh_region = (if regions = [] then [] else regions ! (i mod length regions)), sh_state = ShPending,
      sh_tokens = 0, sh_ms = 0, sh_started_at = 0, sh_completed_at = 0\<rparr>"

definition planned_execution :: "pyfloat \<Rightarrow> string \<Rightarrow> execution_mode \<Rightarrow> string option list \<Rightarrow> nat \<Rightarrow> execution" where
  "planned_execution t wid mode rs n =
     (let eid = stamped_id ''exec-'' wid t; regions = region_names rs
      in \<lparr>ex_id = eid, ex_workload = wid, ex_mode = mode, ex_total = 1, ex_completed = 0, ex_failed = 0,
          ex_regions = regions, ex_shards = map (new_shard eid regions) [0..<n], ex_tokens = 0, ex_ms = 0,
          ex_created_at = 0, ex_completed_at = 0\<rparr>)"

definition plan_execution ::
    "clock \<Rightarrow> string \<Rightarrow> execution_mode \<Rightarrow> string option list \<Rightarrow> nat \<Rightarrow> execution_manager \<Rightarrow> execution_manager \<times> string" where
  "plan_execution now wid mode rs n m =
     (let e = planned_execution (now 0) wid mode rs n in (create_execution (\<lambda>k. now (k + 1)) e m, ex_id e))"

text \<open>The loops over shards change the first one with the id.\<close>

fun update_first :: "('a \<Rightarrow> bool) \<Rightarrow> ('a \<Rightarrow> 'a) \<Rightarrow> 'a list \<Rightarrow> 'a list" where
  "update_first p f [] = []"
| "update_first p f (x # xs) = (if p x then f x # xs else x # update_first p f xs)"

definition start_shard :: "pyfloat \<Rightarrow> string \<Rightarrow> string \<Rightarrow> execution_manager \<Rightarrow> execution_manager \<times> bool" where
  "start_shard t eid sid m =
     (case dget (xm_executions m) eid of
        None \<Rightarrow> (m, False)
      | Some e \<Rightarrow>
          if sid \<in> sh_id ` set (ex_shards e)
          then (m\<lparr>xm_executions := dput eid (e\<lparr>ex_shards := update_first (\<lambda>s. sh_id s = sid)
                  (\<lambda>s. s\<lparr>sh_state := ShRunning, sh_started_at := t\<rparr>) (ex_shards e)\<rparr>) (xm_executions m)\<rparr>, True)
          else (m, False))"

definition finalize_execution :: "pyfloat \<Rightarrow> pyfloat \<Rightarrow> string \<Rightarrow> execution_manager \<Rightarrow> execution_manager" where
  "finalize_execution t t' eid m =
     (case dget (xm_executions m) eid of
        None \<Rightarrow> m
      | Some e \<Rightarrow>
          let e1 = e\<lparr>ex_completed_at := t, ex_ms := py_round ((t - ex_created_at e) * 1000) 2\<rparr>
          in m\<lparr>xm_executions := ddel eid (xm_executions m),
               xm_total_completed := xm_total_completed m + 1,
               xm_completed := py_cap (xm_max_history m) (xm_completed m @ [e1]),
               xm_events := xm_events m @ [ExecutionCompleted eid (ex_total e1) (ex_completed e1) (ex_failed e1) (ex_tokens e1) (ex_ms e1) t']\<rparr>)"

definition shard_finished :: "pyfloat \<Rightarrow> int \<Rightarrow> bool \<Rightarrow> shard \<Rightarrow> shard" where
  "shard_finished t tokens success s =
     s\<lparr>sh_completed_at := t, sh_ms := (if sh_started_at s \<noteq> 0 then py_round ((t - sh_started_at s) * 1000) 2 else 0),
       sh_tokens := tokens, sh_state := (if success then ShCompleted else ShFailed)\<rparr>"

definition shard_counted :: "pyfloat \<Rightarrow> string \<Rightarrow> int \<Rightarrow> bool \<Rightarrow> execution \<Rightarrow> execution" where
  "shard_counted t sid tokens success e =
     e\<lparr>ex_shards := update_first (\<lambda>s. sh_id s = sid) (shard_finished t tokens success) (ex_shards e),
       ex_completed := (if success then ex_completed e + 1 else ex_completed e),
       ex_failed := (if success then ex_failed e else ex_failed e + 1),
       ex_tokens := ex_tokens e + tokens\<rparr>"

definition complete_shard ::
    "clock \<Rightarrow> string \<Rightarrow> string \<Rightarrow> int \<Rightarrow> bool \<Rightarrow> execution_manager \<Rightarrow> execution_manager \<times> bool" where
  "complete_shard now eid sid tokens success m =
     (case dget (xm_executions m) eid of
        None \<Rightarrow> (m, False)
      | Some e \<Rightarrow>
          if sid \<in> sh_id ` set (ex_shards e)
          then let e1 = shard_counted (now 0) sid tokens success e;
                   m1 = m\<lparr>xm_executions := dput eid e1 (xm_executions m),
                          xm_total_shards := (if success then xm_total_shards m + 1 else xm_total_shards m)\<rparr>
               in (if ex_completed e1 + ex_failed e1 \<ge> ex_total e1 then finalize_execution (now 1) (now 2) eid m1 else m1, True)
          else (m, False))"

section \<open>Streaming sessions\<close>

datatype stream_state = StInitializing | StActive | StPaused | StBackpressure | StCompleted | StFailed

record streaming_session =
  ss_id :: string
  ss_workload :: string
  ss_region :: string
  ss_state :: stream_state
  ss_tokens :: int
  ss_tps :: rat
  ss_chunks :: nat
  ss_bytes :: int
  ss_first_ms :: rat
  ss_inter_ms :: rat
  ss_backpressure :: nat
  ss_created_at :: pyfloat
  ss_completed_at :: pyfloat

record streaming_manager =
  sm_max_concurrent :: int
  sm_max_history :: nat
  sm_sessions :: "(string, streaming_session) dict"
  sm_completed :: "streaming_session list"
  sm_total_created :: nat
  sm_total_completed :: nat
  sm_total_tokens :: int

definition new_streaming_manager :: "int \<Rightarrow> nat \<Rightarrow> streaming_manager" where
  "new_streaming_manager c h =
     \<lparr>sm_max_concurrent = c, sm_max_history = h, sm_sessions = [], sm_completed = [], sm_total_created = 0,
      sm_total_completed = 0, sm_total_tokens = 0\<rparr>"

definition create_stream :: "pyfloat \<Rightarrow> streaming_session \<Rightarrow> streaming_manager \<Rightarrow> streaming_manager \<times> bool" where
  "create_stream t x m =
     (if int (length (sm_sessions m)) \<ge> sm_max_concurrent m then (m, False)
      else (m\<lparr>sm_sessions := dput (ss_id x) (x\<lparr>ss_created_at := t, ss_state := StInitializing\<rparr>) (sm_sessions m),
              sm_total_created := sm_total_created m + 1\<rparr>, True))"

definition activate_stream :: "string \<Rightarrow> rat \<Rightarrow> streaming_manager \<Rightarrow> streaming_manager \<times> bool" where
  "activate_stream sid first_ms m =
     (case dget (sm_sessions m) sid of
        None \<Rightarrow> (m, False)
      | Some x \<Rightarrow> (m\<lparr>sm_sessions := dput sid (x\<lparr>ss_state := StActive, ss_first_ms := first_ms\<rparr>) (sm_sessions m)\<rparr>, True))"

definition stream_tokens :: "string \<Rightarrow> int \<Rightarrow> rat \<Rightarrow> rat \<Rightarrow> int \<Rightarrow> streaming_manager \<Rightarrow> streaming_manager \<times> bool" where
  "stream_tokens sid tokens tps inter_ms bytes m =
     (case dget (sm_sessions m) sid of
        None \<Rightarrow> (m, False)
      | Some x \<Rightarrow>
          if ss_state x \<notin> {StActive, StBackpressure} then (m, False)
          else (m\<lparr>sm_sessions := dput sid
                   (x\<lparr>ss_tokens := ss_tokens x + tokens, ss_tps := tps, ss_chunks := ss_chunks x + 1,
                      ss_bytes := ss_bytes x + bytes, ss_inter_ms := (if inter_ms > 0 then inter_ms else ss_inter_ms x)\<rparr>)
                   (sm_sessions m),
                 sm_total_tokens := sm_total_tokens m + tokens\<rparr>, True))"

definition apply_backpressure :: "string \<Rightarrow> streaming_manager \<Rightarrow> streaming_manager \<times> bool" where
  "apply_backpressure sid m =
     (case dget (sm_sessions m) sid of
        None \<Rightarrow> (m, False)
      | Some x \<Rightarrow> (m\<lparr>sm_sessions := dput sid (x\<lparr>ss_state := StBackpressure, ss_backpressure := ss_backpressure x + 1\<rparr>)
                     (sm_sessions m)\<rparr>, True))"

definition resume_stream :: "string \<Rightarrow> streaming_manager \<Rightarrow> streaming_manager \<times> bool" where
  "resume_stream sid m =
     (case dget (sm_sessions m) sid of
        None \<Rightarrow> (m, False)
      | Some x \<Rightarrow> if ss_state x \<noteq> StBackpressure then (m, False)
          else (m\<lparr>sm_sessions := dput sid (x\<lparr>ss_state := StActive\<rparr>) (sm_sessions m)\<rparr>, True))"

definition complete_stream :: "pyfloat \<Rightarrow> string \<Rightarrow> bool \<Rightarrow> streaming_manager \<Rightarrow> streaming_manager \<times> streaming_session option" where
  "complete_stream t sid success m =
     (case dget (sm_sessions m) sid of
        None \<Rightarrow> (m, None)
      | Some x \<Rightarrow>
          let y = x\<lparr>ss_completed_at := t, ss_state := (if success then StCompleted else StFailed)\<rparr>
          in (m\<lparr>sm_sessions := ddel sid (sm_sessions m), sm_total_completed := sm_total_completed m + 1,
                sm_completed := py_cap (sm_max_history m) (sm_completed m @ [y])\<rparr>, Some y))"

section \<open>Executions end exactly when their last shard is reported\<close>

text \<open>An execution that is created has no shard counted yet.\<close>

datatype xm_op =
    XCreate clock execution
  | XPlan clock string execution_mode "string option list" nat
  | XStart pyfloat string string
  | XComplete clock string string int bool

fun xm_offered :: "xm_op \<Rightarrow> string list" where
  "xm_offered (XCreate now e) = [ex_id e]"
| "xm_offered (XPlan now wid mode rs n) = [stamped_id ''exec-'' wid (now 0)]"
| "xm_offered _ = []"

fun xm_step :: "xm_op \<Rightarrow> execution_manager \<Rightarrow> execution_manager \<times> string list \<times> string list" where
  "xm_step (XCreate now e) m = (create_execution now (e\<lparr>ex_completed := 0, ex_failed := 0\<rparr>) m, [ex_id e], [])"
| "xm_step (XPlan now wid mode rs n) m = (let (m', eid) = plan_execution now wid mode rs n m in (m', [eid], []))"
| "xm_step (XStart t eid sid) m = (fst (start_shard t eid sid m), [], [])"
| "xm_step (XComplete now eid sid tokens success) m =
     (let m' = fst (complete_shard now eid sid tokens success m)
      in (m', [], if dget (xm_executions m) eid \<noteq> None \<and> dget (xm_executions m') eid = None then [eid] else []))"

definition counted :: "execution \<Rightarrow> nat" where
  "counted e = ex_completed e + ex_failed e"

definition active_ok :: "string \<Rightarrow> execution \<Rightarrow> bool" where
  "active_ok eid e \<longleftrightarrow> ex_id e = eid \<and> ex_total e = length (ex_shards e) \<and> (ex_shards e = [] \<or> counted e < ex_total e)"

definition xm_ok :: "execution_manager \<Rightarrow> bool" where
  "xm_ok m \<longleftrightarrow> dwf (xm_executions m) \<and> (\<forall>eid e. dget (xm_executions m) eid = Some e \<longrightarrow> active_ok eid e)
     \<and> (\<forall>e \<in> set (xm_completed m). counted e = ex_total e)"

definition xm_live :: "execution_manager \<Rightarrow> string multiset" where
  "xm_live m = mset (dkeys (xm_executions m))"

lemma length_update_first [simp]: "length (update_first p f xs) = length xs"
  by (induction xs) auto

lemma update_first_ids: "(\<And>x. g (f x) = g x) \<Longrightarrow> map g (update_first p f xs) = map g xs"
  by (induction xs) auto

lemma active_ok_shards:
  assumes "active_ok eid e" "length ss = length (ex_shards e)"
  shows "active_ok eid (e\<lparr>ex_shards := ss\<rparr>)"
proof -
  have "ss = [] \<longleftrightarrow> ex_shards e = []" using assms(2) by auto
  with assms show ?thesis by (simp add: active_ok_def counted_def) metis
qed

lemma xm_ok_put:
  assumes "xm_ok m" "active_ok eid e"
    and "xm_executions m' = dput eid e (xm_executions m)" "xm_completed m' = xm_completed m"
  shows "xm_ok m'"
  using assms by (auto simp: xm_ok_def)

lemma create_execution_ok:
  assumes "xm_ok m" "ex_completed e = 0" "ex_failed e = 0" "dget (xm_executions m) (ex_id e) = None"
  shows "xm_ok (create_execution now e m) \<and> xm_live (create_execution now e m) = add_mset (ex_id e) (xm_live m)"
proof -
  have "active_ok (ex_id e) (e\<lparr>ex_created_at := now 0, ex_total := length (ex_shards e)\<rparr>)"
    using assms(2,3) by (auto simp: active_ok_def counted_def)
  with assms(1,4) show ?thesis
    by (auto simp: create_execution_def Let_def xm_ok_def xm_live_def mset_dkeys_dput simp del: mset_map)
qed

lemma shard_counted_simps:
  "ex_id (shard_counted t sid tokens success e) = ex_id e" "ex_total (shard_counted t sid tokens success e) = ex_total e"
  "length (ex_shards (shard_counted t sid tokens success e)) = length (ex_shards e)"
  "counted (shard_counted t sid tokens success e) = Suc (counted e)"
  by (simp_all add: shard_counted_def counted_def)

lemma finalize_eq:
  assumes "dget (xm_executions m) eid = Some e"
  shows "xm_executions (finalize_execution t t' eid m) = ddel eid (xm_executions m)"
    "xm_completed (finalize_execution t t' eid m) = py_cap (xm_max_history m)
       (xm_completed m @ [e\<lparr>ex_completed_at := t, ex_ms := py_round ((t - ex_created_at e) * 1000) 2\<rparr>])"
    "xm_max_history (finalize_execution t t' eid m) = xm_max_history m"
  using assms by (simp_all add: finalize_execution_def Let_def)

lemma complete_shard_eq:
  fixes now :: clock and tokens :: int and success :: bool
  assumes "dget (xm_executions m) eid = Some e" "sid \<in> sh_id ` set (ex_shards e)"
  defines "e1 \<equiv> shard_counted (now 0) sid tokens success e"
  defines "m1 \<equiv> m\<lparr>xm_executions := dput eid e1 (xm_executions m),
     xm_total_shards := (if success then xm_total_shards m + 1 else xm_total_shards m)\<rparr>"
  shows "fst (complete_shard now eid sid tokens success m) =
    (if counted e1 \<ge> ex_total e1 then finalize_execution (now 1) (now 2) eid m1 else m1)"
  using assms by (simp add: complete_shard_def Let_def counted_def)

lemma complete_shard_ok:
  assumes ok: "xm_ok m" and st: "xm_step (XComplete now eid sid tokens success) m = (m', acc, fin)"
  shows "xm_ok m' \<and> xm_live m' + mset fin = xm_live m \<and> acc = []"
proof -
  have m': "m' = fst (complete_shard now eid sid tokens success m)" and acc: "acc = []"
    and fin: "fin = (if dget (xm_executions m) eid \<noteq> None \<and> dget (xm_executions m') eid = None then [eid] else [])"
    using st by (auto simp: Let_def)
  show ?thesis
  proof (cases "dget (xm_executions m) eid")
    case None
    then have "m' = m" by (simp add: m' complete_shard_def)
    with None ok acc fin show ?thesis by simp
  next
    case (Some e)
    have act: "active_ok eid e" using ok Some by (simp add: xm_ok_def)
    show ?thesis
    proof (cases "sid \<in> sh_id ` set (ex_shards e)")
      case False
      then have "m' = m" using Some by (simp add: m' complete_shard_def)
      with Some ok acc fin show ?thesis by simp
    next
      case True
      define e1 where "e1 = shard_counted (now 0) sid tokens success e"
      define m1 where "m1 = m\<lparr>xm_executions := dput eid e1 (xm_executions m),
        xm_total_shards := (if success then xm_total_shards m + 1 else xm_total_shards m)\<rparr>"
      have run: "m' = (if counted e1 \<ge> ex_total e1 then finalize_execution (now 1) (now 2) eid m1 else m1)"
        unfolding m' e1_def m1_def by (rule complete_shard_eq [OF Some True])
      have lt: "counted e < ex_total e" using act True by (auto simp: active_ok_def)
      have m1: "dget (xm_executions m1) eid = Some e1" "xm_live m1 = xm_live m" "dwf (xm_executions m1)"
        using ok Some by (simp_all add: m1_def xm_live_def mset_dkeys_dput xm_ok_def del: mset_map)
      show ?thesis
      proof (cases "counted e1 \<ge> ex_total e1")
        case False
        then have "active_ok eid e1" using act by (auto simp: active_ok_def e1_def shard_counted_simps)
        then have "xm_ok m1" by (rule xm_ok_put [OF ok]) (simp_all add: m1_def)
        with False run m1(1,2) acc fin show ?thesis by simp
      next
        case True
        then have done1: "counted e1 = ex_total e1" using lt by (simp add: e1_def shard_counted_simps)
        have m'1: "m' = finalize_execution (now 1) (now 2) eid m1" using True run by simp
        note f = finalize_eq [OF m1(1), of "now 1" "now 2", folded m'1]
        have "xm_ok m'"
          using ok done1 set_py_cap by (auto simp: xm_ok_def f m1_def counted_def dest!: subsetD [OF set_py_cap] split: if_splits)
        moreover have "xm_live m = add_mset eid (xm_live m')"
          using mset_dkeys_ddel [OF m1(3) m1(1)] m1(2) by (simp add: xm_live_def f)
        moreover have "fin = [eid]" using Some by (simp add: fin f)
        ultimately show ?thesis using acc by simp
      qed
    qed
  qed
qed

lemma xm_step_conserves:
  assumes ok: "xm_ok m" and new: "\<forall>i. count (xm_live m) i + count (mset (xm_offered p)) i \<le> 1"
    and st: "xm_step p m = (m', acc, fin)"
  shows "xm_ok m' \<and> xm_live m' + mset fin = xm_live m + mset acc \<and> mset acc \<subseteq># mset (xm_offered p)"
proof -
  have absent: "dget (xm_executions m) i = None" if "xm_offered p = [i]" for i
  proof -
    have "count (xm_live m) i = 0" using new [rule_format, of i] that by simp
    then show ?thesis by (auto simp: xm_live_def count_eq_zero_iff dget_None_iff)
  qed
  show ?thesis
  proof (cases p)
    case (XCreate now e)
    from create_execution_ok [OF ok, of "e\<lparr>ex_completed := 0, ex_failed := 0\<rparr>" now] absent st XCreate
    show ?thesis by auto
  next
    case (XPlan now wid mode rs n)
    let ?e = "planned_execution (now 0) wid mode rs n"
    have "ex_id ?e = stamped_id ''exec-'' wid (now 0)" "ex_completed ?e = 0" "ex_failed ?e = 0"
      by (simp_all add: planned_execution_def Let_def)
    with create_execution_ok [OF ok, of ?e "\<lambda>k. now (k + 1)"] absent st XPlan
    show ?thesis by (auto simp: plan_execution_def Let_def)
  next
    case (XStart t eid sid)
    show ?thesis
    proof (cases "\<exists>e. dget (xm_executions m) eid = Some e \<and> sid \<in> sh_id ` set (ex_shards e)")
      case True
      then obtain e where e: "dget (xm_executions m) eid = Some e" "sid \<in> sh_id ` set (ex_shards e)" by blast
      let ?e = "e\<lparr>ex_shards := update_first (\<lambda>s. sh_id s = sid) (\<lambda>s. s\<lparr>sh_state := ShRunning, sh_started_at := t\<rparr>) (ex_shards e)\<rparr>"
      have "active_ok eid e" using ok e(1) by (simp add: xm_ok_def)
      then have "active_ok eid ?e" by (rule active_ok_shards) simp
      then have "xm_ok (fst (start_shard t eid sid m))" by (rule xm_ok_put [OF ok]) (use e in \<open>simp_all add: start_shard_def\<close>)
      moreover have "xm_live (fst (start_shard t eid sid m)) = xm_live m"
        using e by (simp add: start_shard_def xm_live_def mset_dkeys_dput del: mset_map)
      moreover have "m' = fst (start_shard t eid sid m)" "acc = []" "fin = []" using st unfolding XStart by simp_all
      ultimately show ?thesis by simp
    next
      case False
      then have "fst (start_shard t eid sid m) = m" by (auto simp: start_shard_def split: option.splits)
      with st XStart ok show ?thesis by simp
    qed
  next
    case (XComplete now eid sid tokens success)
    with complete_shard_ok [OF ok] st show ?thesis by fastforce
  qed
qed

interpretation executions: conservation xm_ok xm_live xm_offered xm_step
  by unfold_locales (rule xm_step_conserves)

text \<open>when no execution id is used twice, every accepted execution is active or was finalized, once; an
  active one still waits for a shard (unless it has none) and a finalized one has been reported exactly
  as many shards as it has.\<close>

theorem executions_finalized_exactly:
  assumes "distinct (concat (map xm_offered ops))"
  shows "case run_ops xm_step ops (new_execution_manager h) of (m, accepted, ended) \<Rightarrow>
    mset (dkeys (xm_executions m)) + mset ended = mset accepted
    \<and> list_all (\<lambda>e. ex_shards e = [] \<or> counted e < length (ex_shards e)) (dvalues (xm_executions m))
    \<and> list_all (\<lambda>e. counted e = ex_total e) (xm_completed m)"
proof -
  obtain m acc fin where run: "run_ops xm_step ops (new_execution_manager h) = (m, acc, fin)" by (metis prod_cases3)
  have live: "xm_live (new_execution_manager h) = {#}" "xm_ok (new_execution_manager h)"
    by (simp_all add: xm_live_def xm_ok_def new_execution_manager_def)
  have "xm_ok m \<and> xm_live m + mset fin = mset acc"
    using executions.run_from_empty [OF live(2,1) assms run] by blast
  then have ok: "xm_ok m" and eq: "mset (dkeys (xm_executions m)) + mset fin = mset acc" by (simp_all only: xm_live_def)
  have "ex_shards e = [] \<or> counted e < length (ex_shards e)" if "(eid, e) \<in> set (xm_executions m)" for eid e
  proof -
    have "active_ok eid e" using ok that dwf_dget_iff [of "xm_executions m" eid e] by (simp add: xm_ok_def)
    then show ?thesis by (auto simp: active_ok_def)
  qed
  then have "list_all (\<lambda>e. ex_shards e = [] \<or> counted e < length (ex_shards e)) (dvalues (xm_executions m))"
    unfolding list_all_iff by (metis (no_types, lifting) imageE list.set_map prod.collapse)
  with ok eq show ?thesis unfolding run prod.case by (simp add: xm_ok_def list_all_iff del: mset_map)
qed

definition demo_xm_ops :: "xm_op list" where
  "demo_xm_ops = [XPlan (\<lambda>_. 1) ''w'' DataParallel [Some ''eu'', None] 2, XStart 2 ''exec-w-1'' ''exec-w-1-shard-0'',
     XComplete (\<lambda>_. 3) ''exec-w-1'' ''exec-w-1-shard-0'' 5 True, XPlan (\<lambda>_. 4) ''v'' SingleNode [] 1,
     XComplete (\<lambda>_. 5) ''exec-w-1'' ''exec-w-1-shard-1'' 6 False]"

theorem executions_finalized_exactly_witness:
  "\<exists>m. run_ops xm_step demo_xm_ops (new_execution_manager 9) = (m, [''exec-w-1'', ''exec-v-4''], [''exec-w-1''])
     \<and> list_all (\<lambda>e. counted e = ex_total e) (xm_completed m) \<and> length (xm_completed m) = 1"
proof -
  obtain m acc fin where run: "run_ops xm_step demo_xm_ops (new_execution_manager 9) = (m, acc, fin)" by (metis prod_cases3)
  have "distinct (concat (map xm_offered demo_xm_ops))" by code_simp
  from executions_finalized_exactly [OF this, of 9] have "list_all (\<lambda>e. counted e = ex_total e) (xm_completed m)"
    unfolding run by simp
  moreover have "snd (run_ops xm_step demo_xm_ops (new_execution_manager 9)) = ([''exec-w-1'', ''exec-v-4''], [''exec-w-1''])"
    "length (xm_completed (fst (run_ops xm_step demo_xm_ops (new_execution_manager 9)))) = 1" by code_simp+
  ultimately show ?thesis using run by simp
qed

text \<open>A shard that is reported twice counts twice: the execution is finalized while another shard has
  not even started.\<close>

lemma double_report_finalizes:
  "map (\<lambda>e. (counted e, map sh_state (ex_shards e))) (xm_completed (fst (run_ops xm_step
     [XPlan (\<lambda>_. 1) ''w'' DataParallel [Some ''eu''] 2, XComplete (\<lambda>_. 3) ''exec-w-1'' ''exec-w-1-shard-0'' 5 True,
      XComplete (\<lambda>_. 4) ''exec-w-1'' ''exec-w-1-shard-0'' 5 True] (new_execution_manager 9))))
   = [(2, [ShCompleted, ShPending])]"
  by code_simp

section \<open>Every shard once, in any order\<close>

fun complete_shards :: "clock \<Rightarrow> string \<Rightarrow> (string \<times> int \<times> bool) list \<Rightarrow> execution_manager \<Rightarrow> execution_manager" where
  "complete_shards now eid [] m = m"
| "complete_shards now eid ((sid, tokens, success) # rs) m =
     complete_shards (\<lambda>k. now (k + 3)) eid rs (fst (complete_shard now eid sid tokens success m))"

definition reported_state :: "(string \<times> int \<times> bool) list \<Rightarrow> shard \<Rightarrow> shard_state" where
  "reported_state rs s =
     (case map_of rs (sh_id s) of None \<Rightarrow> sh_state s | Some (tokens, success) \<Rightarrow> if success then ShCompleted else ShFailed)"

lemma update_first_map:
  "distinct (map g xs) \<Longrightarrow> update_first (\<lambda>x. g x = k) f xs = map (\<lambda>x. if g x = k then f x else x) xs"
proof (induction xs)
  case (Cons a xs)
  then have "g a \<notin> g ` set xs" by simp
  then have "g x \<noteq> g a" if "x \<in> set xs" for x using that by (metis imageI)
  then have "map (\<lambda>x. if g x = g a then f x else x) xs = xs" by (simp add: map_idI)
  with Cons show ?case by auto
qed simp

lemma shard_counted_shards:
  assumes "distinct (map sh_id (ex_shards e))"
  shows "map sh_id (ex_shards (shard_counted t sid tokens success e)) = map sh_id (ex_shards e)"
    "sid \<notin> fst ` set rs \<Longrightarrow> map (reported_state rs) (ex_shards (shard_counted t sid tokens success e))
       = map (reported_state ((sid, tokens, success) # rs)) (ex_shards e)"
    "map sh_state (ex_shards (shard_counted t sid tokens success e)) = map (reported_state [(sid, tokens, success)]) (ex_shards e)"
  using assms
  by (auto simp: shard_counted_def update_first_map shard_finished_def reported_state_def split: option.split dest: dget_in_keys)

lemma complete_shards_finish:
  assumes "dget (xm_executions m) eid = Some e" and "distinct (map sh_id (ex_shards e))" and "distinct (map fst rs)"
    and "set (map fst rs) \<subseteq> sh_id ` set (ex_shards e)" and "rs \<noteq> []" and "counted e + length rs = ex_total e"
    and "0 < xm_max_history m"
  shows "dget (xm_executions (complete_shards now eid rs m)) eid = None
    \<and> (let f = last (xm_completed (complete_shards now eid rs m)) in ex_id f = ex_id e
        \<and> map sh_state (ex_shards f) = map (reported_state rs) (ex_shards e)
        \<and> ex_completed f = ex_completed e + length (filter (\<lambda>(sid, tokens, success). success) rs)
        \<and> ex_failed f = ex_failed e + length (filter (\<lambda>(sid, tokens, success). \<not> success) rs)
        \<and> ex_tokens f = ex_tokens e + sum_list (map (\<lambda>(sid, tokens, success). tokens) rs))"
  using assms
proof (induction rs arbitrary: now m e)
  case (Cons r rs)
  obtain sid tokens success where r: "r = (sid, tokens, success)" by (cases r)
  define e1 where "e1 = shard_counted (now 0) sid tokens success e"
  define m1 where "m1 = m\<lparr>xm_executions := dput eid e1 (xm_executions m),
     xm_total_shards := (if success then xm_total_shards m + 1 else xm_total_shards m)\<rparr>"
  have mem: "sid \<in> sh_id ` set (ex_shards e)" using Cons.prems(4) r by simp
  have run: "fst (complete_shard now eid sid tokens success m) =
      (if counted e1 \<ge> ex_total e1 then finalize_execution (now 1) (now 2) eid m1 else m1)"
    unfolding e1_def m1_def by (rule complete_shard_eq [OF Cons.prems(1) mem])
  note sc = shard_counted_shards [OF Cons.prems(2), where t = "now 0" and sid = sid and tokens = tokens and success = success, folded e1_def]
  have e1: "ex_id e1 = ex_id e" "counted e1 = Suc (counted e)" "ex_total e1 = ex_total e"
    "ex_completed e1 = ex_completed e + (if success then 1 else 0)" "ex_failed e1 = ex_failed e + (if success then 0 else 1)"
    "ex_tokens e1 = ex_tokens e + tokens"
    by (simp_all add: e1_def shard_counted_def counted_def)
  have m1: "dget (xm_executions m1) eid = Some e1" "xm_max_history m1 = xm_max_history m" by (simp_all add: m1_def)
  show ?case
  proof (cases "rs = []")
    case True
    then have "counted e1 = ex_total e1" using Cons.prems(6) e1 by simp
    then have fin: "complete_shards now eid (r # rs) m = finalize_execution (now 1) (now 2) eid m1"
      using run True by (simp add: r)
    note f = finalize_eq [OF m1(1), of "now 1" "now 2"]
    have lst: "last (xm_completed (finalize_execution (now 1) (now 2) eid m1)) =
        e1\<lparr>ex_completed_at := now 1, ex_ms := py_round ((now 1 - ex_created_at e1) * 1000) 2\<rparr>"
      unfolding f(2) by (simp add: last_py_cap)
    show ?thesis using sc(3) e1 True unfolding fin f(1) lst by (simp add: r Let_def)
  next
    case False
    then have "counted e1 < ex_total e1" using Cons.prems(6) e1 by (cases rs) auto
    then have nxt: "complete_shards now eid (r # rs) m = complete_shards (\<lambda>k. now (k + 3)) eid rs m1"
      using run by (simp add: r)
    have dist: "distinct (map sh_id (ex_shards e1))" using Cons.prems(2) by (simp add: sc(1))
    have new: "sid \<notin> fst ` set rs" "distinct (map fst rs)" using Cons.prems(3) r by auto
    have ids: "sh_id ` set (ex_shards e1) = sh_id ` set (ex_shards e)" using sc(1) by (metis list.set_map)
    have sub: "set (map fst rs) \<subseteq> sh_id ` set (ex_shards e1)" using Cons.prems(4) by (simp add: ids)
    have total: "counted e1 + length rs = ex_total e1" using Cons.prems(6) e1 by simp
    from Cons.IH [OF m1(1) dist new(2) sub False total, of "\<lambda>k. now (k + 3)"] Cons.prems(7)
    show ?thesis unfolding nxt using sc(2) [OF new(1)] e1 by (simp add: m1(2) r Let_def)
  qed
qed simp

lemma string_of_nat_inj: "string_of_nat m = string_of_nat n \<Longrightarrow> m = n"
  using py_int_string_of_int [of "int m"] py_int_string_of_int [of "int n"] by (simp add: string_of_int_def)

lemma planned_ids: "distinct (map sh_id (map (new_shard eid regions) [0..<n]))"
  by (auto simp: distinct_map inj_on_def new_shard_def dest: string_of_nat_inj)

text \<open>C39: a planned execution whose shards are each reported once, in whatever order and with whatever
  outcome, is finalized by the last report, with every shard in the state that was reported and the
  counts of successes, failures and tokens.\<close>

theorem execution_finishes:
  assumes "plan_execution now wid mode regions n m = (m1, eid)" and "0 < n" and "0 < xm_max_history m"
    and "mset (map fst reports) = mset (map (\<lambda>i. eid @ ''-shard-'' @ string_of_nat i) [0..<n])"
  shows "let m2 = complete_shards later eid reports m1; e = last (xm_completed m2)
    in dget (xm_executions m2) eid = None \<and> ex_id e = eid
      \<and> ex_completed e = length (filter (\<lambda>(sid, tokens, success). success) reports)
      \<and> ex_failed e = length (filter (\<lambda>(sid, tokens, success). \<not> success) reports)
      \<and> ex_tokens e = sum_list (map (\<lambda>(sid, tokens, success). tokens) reports)
      \<and> map sh_state (ex_shards e) = map (reported_state reports) (map (new_shard eid (region_names regions)) [0..<n])"
proof -
  let ?e = "planned_execution (now 0) wid mode regions n"
  let ?e1 = "?e\<lparr>ex_created_at := now 1, ex_total := length (ex_shards ?e)\<rparr>"
  have eid: "eid = stamped_id ''exec-'' wid (now 0)" "ex_id ?e = eid"
    and m1: "dget (xm_executions m1) eid = Some ?e1" "xm_max_history m1 = xm_max_history m"
    using assms(1) by (auto simp: plan_execution_def planned_execution_def create_execution_def Let_def)
  have shards: "ex_shards ?e1 = map (new_shard eid (region_names regions)) [0..<n]"
    by (simp add: planned_execution_def Let_def eid(1))
  have ids: "map sh_id (ex_shards ?e1) = map (\<lambda>i. eid @ ''-shard-'' @ string_of_nat i) [0..<n]"
    unfolding shards by (simp add: new_shard_def)
  have dist: "distinct (map sh_id (ex_shards ?e1))" unfolding shards by (rule planned_ids)
  have "mset (map fst reports) = mset (map sh_id (ex_shards ?e1))" unfolding ids by (rule assms(4))
  note eq = this
  have same: "set (map fst reports) = sh_id ` set (ex_shards ?e1)" using mset_eq_setD [OF eq] by simp
  have len: "length reports = n" using mset_eq_length [OF eq] shards by simp
  have "distinct (map fst reports)" using mset_eq_imp_distinct_iff [OF eq] dist by simp
  note dr = this
  have counts: "ex_completed ?e1 = 0" "ex_failed ?e1 = 0" "ex_tokens ?e1 = 0" "ex_total ?e1 = n"
    by (simp_all add: planned_execution_def Let_def)
  have "reports \<noteq> []" using len assms(2) by auto
  from complete_shards_finish [OF m1(1) dist dr _ this, of later]
  have "dget (xm_executions (complete_shards later eid reports m1)) eid = None
    \<and> (let f = last (xm_completed (complete_shards later eid reports m1)) in ex_id f = ex_id ?e1
        \<and> map sh_state (ex_shards f) = map (reported_state reports) (ex_shards ?e1)
        \<and> ex_completed f = ex_completed ?e1 + length (filter (\<lambda>(sid, tokens, success). success) reports)
        \<and> ex_failed f = ex_failed ?e1 + length (filter (\<lambda>(sid, tokens, success). \<not> success) reports)
        \<and> ex_tokens f = ex_tokens ?e1 + sum_list (map (\<lambda>(sid, tokens, success). tokens) reports))"
    using same len assms(3) m1(2) counts by (simp add: counted_def)
  then show ?thesis unfolding shards counts Let_def add_0 using eid(2) by simp
qed

theorem execution_finishes_witness:
  "\<exists>m1. plan_execution (\<lambda>_. 1) ''w'' DataParallel [Some ''eu''] 2 (new_execution_manager 9) = (m1, ''exec-w-1'')
     \<and> dget (xm_executions (complete_shards (\<lambda>_. 2) ''exec-w-1''
           [(''exec-w-1-shard-1'', 7, False), (''exec-w-1-shard-0'', 5, True)] m1)) ''exec-w-1'' = None"
proof -
  obtain m1 eid where plan: "plan_execution (\<lambda>_. 1) ''w'' DataParallel [Some ''eu''] 2 (new_execution_manager 9) = (m1, eid)"
    by fastforce
  have eid: "eid = ''exec-w-1''"
  proof -
    have "snd (plan_execution (\<lambda>_. 1) ''w'' DataParallel [Some ''eu''] 2 (new_execution_manager 9)) = ''exec-w-1''" by code_simp
    with plan show ?thesis by simp
  qed
  let ?rs = "[(''exec-w-1-shard-1'', 7, False), (''exec-w-1-shard-0'', 5, True)] :: (string \<times> int \<times> bool) list"
  have "mset (map fst ?rs) = mset (map (\<lambda>i. eid @ ''-shard-'' @ string_of_nat i) [0..<2])"
  proof -
    have "string_of_nat 0 = ''0''" "string_of_nat (Suc 0) = ''1''" by code_simp+
    then show ?thesis unfolding eid by (simp add: upt_rec)
  qed
  from execution_finishes [OF plan _ _ this, of "\<lambda>_. 2"]
  have "dget (xm_executions (complete_shards (\<lambda>_. 2) eid ?rs m1)) eid = None"
    by (simp add: Let_def new_execution_manager_def)
  with plan show ?thesis unfolding eid by blast
qed

section \<open>Sessions are accounted for\<close>

datatype sm_op =
    SmCreate pyfloat streaming_session
  | SmActivate string rat
  | SmTokens string int rat rat int
  | SmBackpressure string
  | SmResume string
  | SmComplete pyfloat string bool

fun sm_offered :: "sm_op \<Rightarrow> string list" where
  "sm_offered (SmCreate t x) = [ss_id x]"
| "sm_offered _ = []"

fun sm_step :: "sm_op \<Rightarrow> streaming_manager \<Rightarrow> streaming_manager \<times> string list \<times> string list" where
  "sm_step (SmCreate t x) m = (let (m', ok) = create_stream t x m in (m', if ok then [ss_id x] else [], []))"
| "sm_step (SmActivate sid ms) m = (fst (activate_stream sid ms m), [], [])"
| "sm_step (SmTokens sid n tps ms bytes) m = (fst (stream_tokens sid n tps ms bytes m), [], [])"
| "sm_step (SmBackpressure sid) m = (fst (apply_backpressure sid m), [], [])"
| "sm_step (SmResume sid) m = (fst (resume_stream sid m), [], [])"
| "sm_step (SmComplete t sid success) m =
     (let (m', r) = complete_stream t sid success m in (m', [], case r of None \<Rightarrow> [] | Some x \<Rightarrow> [sid]))"

definition sm_live :: "streaming_manager \<Rightarrow> string multiset" where
  "sm_live m = mset (dkeys (sm_sessions m))"

definition live_state :: "streaming_session \<Rightarrow> bool" where
  "live_state x \<longleftrightarrow> ss_state x \<in> {StInitializing, StActive, StBackpressure}"

definition sm_ok :: "int \<Rightarrow> streaming_manager \<Rightarrow> bool" where
  "sm_ok c m \<longleftrightarrow> sm_max_concurrent m = c \<and> int (length (sm_sessions m)) \<le> max 0 c \<and> dwf (sm_sessions m)
     \<and> (\<forall>sid x. dget (sm_sessions m) sid = Some x \<longrightarrow> live_state x)
     \<and> sm_total_created m = length (sm_sessions m) + sm_total_completed m"

lemma sm_ok_put:
  assumes "sm_ok c m" "dget (sm_sessions m) sid = Some x" "live_state y"
    and "sm_sessions m' = dput sid y (sm_sessions m)" "sm_max_concurrent m' = sm_max_concurrent m"
      "sm_total_created m' = sm_total_created m" "sm_total_completed m' = sm_total_completed m"
  shows "sm_ok c m' \<and> sm_live m' = sm_live m"
proof -
  have "length (sm_sessions m') = length (sm_sessions m)" using assms(2,4) by (simp add: length_dput_known)
  with assms show ?thesis by (simp add: sm_ok_def sm_live_def mset_dkeys_dput del: mset_map)
qed

lemma sm_touch_ok:
  assumes ok: "sm_ok c m" and p: "sm_offered p = []" "\<forall>t sid good. p \<noteq> SmComplete t sid good" and st: "sm_step p m = (m', acc, fin)"
  shows "sm_ok c m' \<and> sm_live m' = sm_live m \<and> acc = [] \<and> fin = []"
proof -
  have eqs: "m' = fst (sm_step p m)" "acc = []" "fin = []" using p st by (cases p; simp)+
  have "sm_ok c m' \<and> sm_live m' = sm_live m"
  proof (cases p)
    case (SmActivate sid ms)
    show ?thesis
    proof (cases "dget (sm_sessions m) sid")
      case (Some x)
      show ?thesis
        by (rule sm_ok_put [OF ok Some, of "x\<lparr>ss_state := StActive, ss_first_ms := ms\<rparr>"])
          (use SmActivate Some in \<open>simp_all add: eqs(1) activate_stream_def live_state_def\<close>)
    qed (use SmActivate ok in \<open>simp add: eqs(1) activate_stream_def\<close>)
  next
    case (SmTokens sid n tps ms bytes)
    show ?thesis
    proof (cases "dget (sm_sessions m) sid")
      case (Some x)
      show ?thesis
      proof (cases "ss_state x \<in> {StActive, StBackpressure}")
        case True
        show ?thesis
          by (rule sm_ok_put [OF ok Some, of "x\<lparr>ss_tokens := ss_tokens x + n, ss_tps := tps, ss_chunks := ss_chunks x + 1,
                ss_bytes := ss_bytes x + bytes, ss_inter_ms := (if ms > 0 then ms else ss_inter_ms x)\<rparr>"])
            (use SmTokens Some True in \<open>auto simp: eqs(1) stream_tokens_def live_state_def\<close>)
      qed (use SmTokens Some ok in \<open>simp add: eqs(1) stream_tokens_def\<close>)
    qed (use SmTokens ok in \<open>simp add: eqs(1) stream_tokens_def\<close>)
  next
    case (SmBackpressure sid)
    show ?thesis
    proof (cases "dget (sm_sessions m) sid")
      case (Some x)
      show ?thesis
        by (rule sm_ok_put [OF ok Some, of "x\<lparr>ss_state := StBackpressure, ss_backpressure := ss_backpressure x + 1\<rparr>"])
          (use SmBackpressure Some in \<open>simp_all add: eqs(1) apply_backpressure_def live_state_def\<close>)
    qed (use SmBackpressure ok in \<open>simp add: eqs(1) apply_backpressure_def\<close>)
  next
    case (SmResume sid)
    show ?thesis
    proof (cases "dget (sm_sessions m) sid")
      case (Some x)
      show ?thesis
      proof (cases "ss_state x = StBackpressure")
        case True
        show ?thesis
          by (rule sm_ok_put [OF ok Some, of "x\<lparr>ss_state := StActive\<rparr>"])
            (use SmResume Some True in \<open>simp_all add: eqs(1) resume_stream_def live_state_def\<close>)
      qed (use SmResume Some ok in \<open>simp add: eqs(1) resume_stream_def\<close>)
    qed (use SmResume ok in \<open>simp add: eqs(1) resume_stream_def\<close>)
  qed (use p in auto)
  with eqs show ?thesis by simp
qed

lemma sm_step_conserves:
  assumes ok: "sm_ok c m" and new: "\<forall>i. count (sm_live m) i + count (mset (sm_offered p)) i \<le> 1"
    and st: "sm_step p m = (m', acc, fin)"
  shows "sm_ok c m' \<and> sm_live m' + mset fin = sm_live m + mset acc \<and> mset acc \<subseteq># mset (sm_offered p)"
proof (cases "sm_offered p = [] \<and> (\<forall>t sid good. p \<noteq> SmComplete t sid good)")
  case True
  with sm_touch_ok [OF ok _ _ st] show ?thesis by simp
next
  case False
  then consider (create) t x where "p = SmCreate t x" | (complete) t sid good where "p = SmComplete t sid good"
    by (cases p) auto
  then show ?thesis
  proof cases
    case create
    have "count (sm_live m) (ss_id x) = 0" using new [rule_format, of "ss_id x"] create by simp
    then have none: "dget (sm_sessions m) (ss_id x) = None" by (auto simp: sm_live_def count_eq_zero_iff dget_None_iff)
    show ?thesis
    proof (cases "int (length (sm_sessions m)) \<ge> sm_max_concurrent m")
      case True
      with st create ok show ?thesis by (simp add: create_stream_def)
    next
      case False
      have len: "length (dput (ss_id x) y (sm_sessions m)) = Suc (length (sm_sessions m))" for y
        using none by (simp add: dput_new dget_None_iff)
      from False st create have eqs: "m' = fst (create_stream t x m)" "acc = [ss_id x]" "fin = []"
        by (simp_all add: create_stream_def)
      have f: "sm_sessions m' = dput (ss_id x) (x\<lparr>ss_created_at := t, ss_state := StInitializing\<rparr>) (sm_sessions m)"
        "sm_total_created m' = Suc (sm_total_created m)" "sm_max_concurrent m' = sm_max_concurrent m"
        "sm_total_completed m' = sm_total_completed m"
        using False by (simp_all add: eqs(1) create_stream_def)
      have "sm_ok c m'" using ok False by (auto simp: sm_ok_def f len live_state_def)
      moreover have "sm_live m' = add_mset (ss_id x) (sm_live m)"
        using none by (simp add: sm_live_def f mset_dkeys_dput del: mset_map)
      ultimately show ?thesis using create by (simp add: eqs)
    qed
  next
    case complete
    show ?thesis
    proof (cases "dget (sm_sessions m) sid")
      case None
      with st complete ok show ?thesis by (simp add: complete_stream_def)
    next
      case (Some x)
      have eqs: "m' = fst (complete_stream t sid good m)" "acc = []" "fin = [sid]"
        using st complete Some by (simp_all add: complete_stream_def Let_def)
      have f: "sm_sessions m' = ddel sid (sm_sessions m)" "sm_total_created m' = sm_total_created m"
        "sm_max_concurrent m' = sm_max_concurrent m" "sm_total_completed m' = Suc (sm_total_completed m)"
        using Some by (simp_all add: eqs(1) complete_stream_def Let_def)
      have wf: "dwf (sm_sessions m)" using ok by (simp add: sm_ok_def)
      have "Suc (length (sm_sessions m')) = length (sm_sessions m)"
        unfolding f using length_ddel [OF wf, of sid] Some by simp
      then have "sm_ok c m'" using ok by (auto simp: sm_ok_def f)
      moreover have "sm_live m = add_mset sid (sm_live m')"
        unfolding sm_live_def f by (rule mset_dkeys_ddel [OF wf Some])
      ultimately show ?thesis by (simp add: eqs)
    qed
  qed
qed

lemma sm_created: "sm_step p m = (m', acc, fin) \<Longrightarrow> sm_total_created m' = sm_total_created m + length acc"
  by (cases p)
    (auto simp: create_stream_def activate_stream_def stream_tokens_def apply_backpressure_def resume_stream_def
      complete_stream_def Let_def split: option.splits if_splits)

lemma sm_created_run: "run_ops sm_step ps m = (m', acc, fin) \<Longrightarrow> sm_total_created m' = sm_total_created m + length acc"
proof (induction ps arbitrary: m acc fin)
  case (Cons p ps)
  obtain m1 a f where one: "sm_step p m = (m1, a, f)" by (cases "sm_step p m")
  obtain a' f' where rest: "run_ops sm_step ps m1 = (m', a', f')" "acc = a @ a'"
    using Cons.prems one by (auto split: prod.splits)
  from sm_created [OF one] Cons.IH [OF rest(1)] rest(2) show ?case by simp
qed simp

interpretation streams: conservation "sm_ok c" sm_live sm_offered sm_step
  by unfold_locales (rule sm_step_conserves)

text \<open>when no session id is used twice, every session that was admitted is open or ended, once; the
  counters agree with the tables, the number of open sessions keeps its limit, and an open session is
  initializing, active or under backpressure.\<close>

theorem sessions_accounted:
  assumes "distinct (concat (map sm_offered ops))"
  shows "case run_ops sm_step ops (new_streaming_manager c h) of (m, accepted, ended) \<Rightarrow>
    mset (dkeys (sm_sessions m)) + mset ended = mset accepted
    \<and> sm_total_created m = length accepted \<and> sm_total_completed m = length ended
    \<and> int (length (sm_sessions m)) \<le> max 0 c \<and> list_all live_state (dvalues (sm_sessions m))"
proof -
  obtain m acc fin where run: "run_ops sm_step ops (new_streaming_manager c h) = (m, acc, fin)" by (metis prod_cases3)
  have live: "sm_live (new_streaming_manager c h) = {#}" "sm_ok c (new_streaming_manager c h)"
    by (simp_all add: sm_live_def sm_ok_def new_streaming_manager_def)
  have "sm_ok c m \<and> sm_live m + mset fin = mset acc"
    using streams.run_from_empty [OF live(2,1) assms run] by blast
  then have ok: "sm_ok c m" and eq: "mset (dkeys (sm_sessions m)) + mset fin = mset acc" by (simp_all only: sm_live_def)
  have len: "length (sm_sessions m) + length fin = length acc" using arg_cong [OF eq, of size] by simp
  have "list_all live_state (dvalues (sm_sessions m))"
    using ok dwf_dget_iff [of "sm_sessions m"] by (fastforce simp: list_all_iff sm_ok_def)
  moreover have "sm_total_created m = length acc"
    using sm_created_run [OF run] by (simp add: new_streaming_manager_def)
  ultimately show ?thesis unfolding run prod.case using ok eq len by (simp add: sm_ok_def del: mset_map)
qed

definition demo_session :: "string \<Rightarrow> streaming_session" where
  "demo_session i = \<lparr>ss_id = i, ss_workload = ''w'', ss_region = [], ss_state = StInitializing, ss_tokens = 0, ss_tps = 0,
     ss_chunks = 0, ss_bytes = 0, ss_first_ms = 0, ss_inter_ms = 0, ss_backpressure = 0, ss_created_at = 0, ss_completed_at = 0\<rparr>"

definition demo_sm_ops :: "sm_op list" where
  "demo_sm_ops = [SmCreate 1 (demo_session ''a''), SmCreate 2 (demo_session ''b''), SmCreate 3 (demo_session ''c''),
     SmActivate ''a'' 4, SmTokens ''a'' 5 2 0 10, SmBackpressure ''a'', SmResume ''a'', SmComplete 9 ''b'' False]"

theorem sessions_accounted_witness:
  "\<exists>m. run_ops sm_step demo_sm_ops (new_streaming_manager 2 9) = (m, [''a'', ''b''], [''b''])
     \<and> sm_total_created m = 2 \<and> sm_total_completed m = 1"
proof -
  obtain m acc fin where run: "run_ops sm_step demo_sm_ops (new_streaming_manager 2 9) = (m, acc, fin)" by (metis prod_cases3)
  have "distinct (concat (map sm_offered demo_sm_ops))" by code_simp
  from sessions_accounted [OF this, where c = 2 and h = 9]
  have "sm_total_created m = length acc" "sm_total_completed m = length fin" unfolding run by simp_all
  moreover have "snd (run_ops sm_step demo_sm_ops (new_streaming_manager 2 9)) = ([''a'', ''b''], [''b''])" by code_simp
  ultimately show ?thesis using run by simp
qed

text \<open>A session id that is created again replaces the open session, which then never ends.\<close>

lemma recreated_session_lost:
  "let m = fst (run_ops sm_step [SmCreate 1 (demo_session ''a''), SmActivate ''a'' 4, SmTokens ''a'' 5 2 0 10,
       SmCreate 6 (demo_session ''a''), SmComplete 9 ''a'' True] (new_streaming_manager 5 9))
   in sm_total_created m = 2 \<and> sm_total_completed m = 1 \<and> sm_sessions m = [] \<and> map ss_tokens (sm_completed m) = [0]
     \<and> sm_total_tokens m = 5"
  by code_simp

end
