(* ===== verification/Overlay.thy ===== *)
theory Overlay
  imports Routing Signatures
begin

text \<open>
  Connections between regions: \<open>networking/overlay_network.py\<close>, \<open>networking/bandwidth_optimizer.py\<close>
  and \<open>networking/encrypted_transport.py\<close>. The HMAC is an argument, as in \<open>Signatures\<close>, and so is
  the text of a float, \<open>str(ts)\<close>; reading a float back is modelled. The heartbeat thread is the
  sequence of its turns. Values of infinity and NaN are told apart from numbers only where a text
  from outside is read.
\<close>

section \<open>Reading a float\<close>

datatype float_value = FNum rat | FInf bool | FNan

text \<open>Digits with single underscores between them: their value and their number, and what follows.\<close>

fun digit_run :: "int \<Rightarrow> nat \<Rightarrow> string \<Rightarrow> int \<times> nat \<times> string" where
  "digit_run v n [] = (v, n, [])"
| "digit_run v n (c # cs) =
     (case digit_value c of
        Some d \<Rightarrow> digit_run (10 * v + d) (n + 1) cs
      | None \<Rightarrow>
          if c = CHR ''_'' \<and> n > 0 \<and> (case cs of [] \<Rightarrow> False | c' # cs' \<Rightarrow> digit_value c' \<noteq> None)
          then digit_run v n cs else (v, n, c # cs))"

definition sign_of :: "string \<Rightarrow> bool \<times> string" where
  "sign_of s = 
     (case s of
        [] \<Rightarrow> (False, [])
      | c # cs \<Rightarrow> if c = CHR ''-'' then (True, cs) else if c = CHR ''+'' then (False, cs) else (False, s))"

definition exponent_of :: "string \<Rightarrow> int option" where
  "exponent_of s =
     (case s of
        [] \<Rightarrow> Some 0
      | c # cs \<Rightarrow>
          if c \<noteq> CHR ''e'' then None
          else let (neg, ds) = sign_of cs; (v, n, rest) = digit_run 0 0 ds
               in if n = 0 \<or> rest \<noteq> [] then None else Some (if neg then - v else v))"

definition power10 :: "int \<Rightarrow> rat" where
  "power10 e = (if e \<ge> 0 then 10 ^ nat e else 1 / 10 ^ nat (- e))"

definition decimal_of :: "string \<Rightarrow> rat option" where
  "decimal_of s =
     (let (v, n, rest) = digit_run 0 0 s;
          (w, k, rest') = (case rest of [] \<Rightarrow> (0, 0, []) | c # ds \<Rightarrow> if c = CHR ''.'' then digit_run 0 0 ds else (0, 0, rest))
      in if n + k = 0 then None
         else map_option (\<lambda>e. (of_int v + of_int w / 10 ^ k) * power10 e) (exponent_of rest'))"

definition py_float :: "string \<Rightarrow> float_value option" where
  "py_float text =
     (let (neg, s) = sign_of (py_lower (py_strip text))
      in if s = ''nan'' then Some FNan
         else if s = ''inf'' \<or> s = ''infinity'' then Some (FInf neg)
         else map_option (\<lambda>x. FNum (if neg then - x else x)) (decimal_of s))"

section \<open>Transport\<close>

record transport_session =
  ts_peer :: string
  ts_direction :: string
  ts_created_at :: pyfloat
  ts_last_active :: pyfloat
  ts_messages_sent :: nat
  ts_messages_received :: nat
  ts_bytes_sent :: int
  ts_bytes_received :: int
  ts_authenticated :: bool

record transport =
  et_local_id :: string
  et_secret :: string
  et_max_skew :: rat
  et_sessions :: "(string, transport_session) dict"
  et_trusted :: "string list"
  et_audit :: "(pyfloat \<times> string \<times> string \<times> rat option) list"
  et_failures :: nat

definition new_transport :: "string \<Rightarrow> string \<Rightarrow> rat \<Rightarrow> transport" where
  "new_transport local secret skew =
     \<lparr>et_local_id = local, et_secret = secret, et_max_skew = skew, et_sessions = [], et_trusted = [], et_audit = [],
      et_failures = 0\<rparr>"

definition add_trusted_peer :: "string \<Rightarrow> transport \<Rightarrow> transport" where
  "add_trusted_peer p s = s\<lparr>et_trusted := List.insert p (et_trusted s)\<rparr>"

definition remove_trusted_peer :: "string \<Rightarrow> transport \<Rightarrow> transport" where
  "remove_trusted_peer p s = s\<lparr>et_trusted := removeAll p (et_trusted s)\<rparr>"

definition is_trusted :: "string \<Rightarrow> transport \<Rightarrow> bool" where
  "is_trusted p s = (if et_trusted s = [] then True else p \<in> set (et_trusted s))"

definition transport_key :: "transport \<Rightarrow> string" where
  "transport_key s = (if et_secret s \<noteq> [] then et_secret s else ''default'')"

text \<open>The signature, the text of the time and the sender.\<close>

definition transport_sign ::
    "hmac_fun \<Rightarrow> (pyfloat \<Rightarrow> string) \<Rightarrow> pyfloat \<Rightarrow> string \<Rightarrow> pyfloat option \<Rightarrow> transport \<Rightarrow> string \<times> string \<times> string" where
  "transport_sign hmac show_float now payload timestamp s =
     (let ts = (case timestamp of Some t \<Rightarrow> if t \<noteq> 0 then t else now | None \<Rightarrow> now)
      in (hmac (transport_key s) (payload @ show_float ts), show_float ts, et_local_id s))"

definition record_audit :: "pyfloat \<Rightarrow> string \<Rightarrow> string \<Rightarrow> rat option \<Rightarrow> transport \<Rightarrow> transport" where
  "record_audit t event peer details s = s\<lparr>et_audit := py_cap 500 (et_audit s @ [(t, event, peer, details)])\<rparr>"

definition auth_rejected :: "pyfloat \<Rightarrow> string \<Rightarrow> string \<Rightarrow> rat option \<Rightarrow> transport \<Rightarrow> transport \<times> bool" where
  "auth_rejected t event peer details s =
     ((record_audit t event peer details s)\<lparr>et_failures := et_failures s + 1\<rparr>, False)"

text \<open>The skew of an infinite time is infinite, and no comparison with NaN holds.\<close>

definition skewed :: "pyfloat \<Rightarrow> rat \<Rightarrow> float_value \<Rightarrow> bool" where
  "skewed now limit t = (case t of FNum x \<Rightarrow> \<bar>now - x\<bar> > limit | FInf neg \<Rightarrow> True | FNan \<Rightarrow> False)"

definition skew_of :: "pyfloat \<Rightarrow> float_value \<Rightarrow> rat option" where
  "skew_of now t = (case t of FNum x \<Rightarrow> Some \<bar>now - x\<bar> | _ \<Rightarrow> None)"

definition transport_verify ::
    "hmac_fun \<Rightarrow> clock \<Rightarrow> string \<Rightarrow> string \<Rightarrow> string \<Rightarrow> string \<Rightarrow> transport \<Rightarrow> transport \<times> bool" where
  "transport_verify hmac now payload signature timestamp sender s =
     (if \<not> is_trusted sender s then auth_rejected (now 0) ''auth_rejected_untrusted'' sender None s
      else case py_float timestamp of
        None \<Rightarrow> auth_rejected (now 0) ''auth_rejected_bad_timestamp'' sender None s
      | Some t \<Rightarrow>
          if skewed (now 0) (et_max_skew s) t
          then auth_rejected (now 1) ''auth_rejected_clock_skew'' sender (skew_of (now 0) t) s
          else if hmac (transport_key s) (payload @ timestamp) \<noteq> signature
          then auth_rejected (now 1) ''auth_rejected_bad_signature'' sender None s
          else (record_audit (now 1) ''auth_success'' sender None s, True))"

text \<open>The id of a session joins the two names and the text of the time.\<close>

definition transport_open ::
    "(pyfloat \<Rightarrow> string) \<Rightarrow> clock \<Rightarrow> string \<Rightarrow> string \<Rightarrow> transport \<Rightarrow> transport \<times> string" where
  "transport_open show_float now peer direction s =
     (let sid = et_local_id s @ '':'' @ peer @ '':'' @ show_float (now 0)
      in (s\<lparr>et_sessions := dput sid \<lparr>ts_peer = peer, ts_direction = direction, ts_created_at = now 1, ts_last_active = now 1,
            ts_messages_sent = 0, ts_messages_received = 0, ts_bytes_sent = 0, ts_bytes_received = 0,
            ts_authenticated = is_trusted peer s\<rparr> (et_sessions s)\<rparr>, sid))"

definition transport_close :: "string \<Rightarrow> transport \<Rightarrow> transport" where
  "transport_close sid s = s\<lparr>et_sessions := ddel sid (et_sessions s)\<rparr>"

definition record_message :: "pyfloat \<Rightarrow> string \<Rightarrow> bool \<Rightarrow> int \<Rightarrow> transport \<Rightarrow> transport" where
  "record_message t sid sent nbytes s =
     (case dget (et_sessions s) sid of
        None \<Rightarrow> s
      | Some x \<Rightarrow>
          let y = x\<lparr>ts_last_active := t\<rparr>
          in s\<lparr>et_sessions := dput sid
               (if sent then y\<lparr>ts_messages_sent := ts_messages_sent x + 1, ts_bytes_sent := ts_bytes_sent x + nbytes\<rparr>
                else y\<lparr>ts_messages_received := ts_messages_received x + 1, ts_bytes_received := ts_bytes_received x + nbytes\<rparr>)
               (et_sessions s)\<rparr>)"

section \<open>Overlay\<close>

datatype transport_protocol = Tcp | Quic | Wireguard

record peer_connection =
  pc_endpoint :: string
  pc_protocol :: transport_protocol
  pc_connected :: bool
  pc_established_at :: pyfloat
  pc_last_activity :: pyfloat
  pc_bytes_sent :: int
  pc_bytes_received :: int
  pc_latency_ms :: rat

record overlay =
  ov_secret :: string
  ov_max_connections :: int
  ov_interval :: rat
  ov_peers :: "(string, peer_connection) dict"
  ov_services :: "(string, string \<times> string \<times> pyfloat) dict"
  ov_bytes_sent :: int
  ov_bytes_received :: int

definition new_overlay :: "string \<Rightarrow> int \<Rightarrow> rat \<Rightarrow> overlay" where
  "new_overlay secret max_connections interval =
     \<lparr>ov_secret = secret, ov_max_connections = max_connections, ov_interval = interval, ov_peers = [], ov_services = [],
      ov_bytes_sent = 0, ov_bytes_received = 0\<rparr>"

definition stop_overlay :: "overlay \<Rightarrow> overlay" where
  "stop_overlay s = s\<lparr>ov_peers := dmap (\<lambda>_ p. p\<lparr>pc_connected := False\<rparr>) (ov_peers s)\<rparr>"

definition check_overlay_peers :: "pyfloat \<Rightarrow> overlay \<Rightarrow> overlay" where
  "check_overlay_peers t s =
     s\<lparr>ov_peers := dmap (\<lambda>_ p. if pc_connected p \<and> t - pc_last_activity p > ov_interval s * 3
                              then p\<lparr>pc_connected := False\<rparr> else p) (ov_peers s)\<rparr>"

definition idle_peer :: "(string, peer_connection) dict \<Rightarrow> string" where
  "idle_peer d = fst (py_min (\<lambda>p. pc_last_activity (snd p)) (hd d) (tl d))"

definition evict_idle_peer :: "(string, peer_connection) dict \<Rightarrow> (string, peer_connection) dict" where
  "evict_idle_peer d = (if d = [] then d else ddel (idle_peer d) d)"

definition add_overlay_peer :: "clock \<Rightarrow> string \<Rightarrow> string \<Rightarrow> transport_protocol \<Rightarrow> overlay \<Rightarrow> overlay" where
  "add_overlay_peer now pid endpoint protocol s =
     (let d = (if int (length (ov_peers s)) \<ge> ov_max_connections s then evict_idle_peer (ov_peers s) else ov_peers s)
      in s\<lparr>ov_peers := dput pid \<lparr>pc_endpoint = endpoint, pc_protocol = protocol, pc_connected = True,
           pc_established_at = now 0, pc_last_activity = now 1, pc_bytes_sent = 0, pc_bytes_received = 0,
           pc_latency_ms = 0\<rparr> d\<rparr>)"

definition remove_overlay_peer :: "string \<Rightarrow> overlay \<Rightarrow> overlay" where
  "remove_overlay_peer pid s = s\<lparr>ov_peers := ddel pid (ov_peers s)\<rparr>"

definition connected_peers :: "overlay \<Rightarrow> (string \<times> peer_connection) list" where
  "connected_peers s = filter (\<lambda>p. pc_connected (snd p)) (ov_peers s)"

definition record_traffic :: "pyfloat \<Rightarrow> string \<Rightarrow> int \<Rightarrow> int \<Rightarrow> overlay \<Rightarrow> overlay" where
  "record_traffic t pid sent received s =
     (case dget (ov_peers s) pid of
        None \<Rightarrow> s
      | Some p \<Rightarrow>
          s\<lparr>ov_peers := dput pid (p\<lparr>pc_bytes_sent := pc_bytes_sent p + sent, pc_bytes_received := pc_bytes_received p + received,
              pc_last_activity := t\<rparr>) (ov_peers s),
            ov_bytes_sent := ov_bytes_sent s + sent, ov_bytes_received := ov_bytes_received s + received\<rparr>)"

definition update_peer_latency :: "string \<Rightarrow> rat \<Rightarrow> overlay \<Rightarrow> overlay" where
  "update_peer_latency pid ms s =
     (case dget (ov_peers s) pid of
        None \<Rightarrow> s | Some p \<Rightarrow> s\<lparr>ov_peers := dput pid (p\<lparr>pc_latency_ms := ms\<rparr>) (ov_peers s)\<rparr>)"

definition register_service :: "pyfloat \<Rightarrow> string \<Rightarrow> string \<Rightarrow> string \<Rightarrow> overlay \<Rightarrow> overlay" where
  "register_service t name pid endpoint s = s\<lparr>ov_services := dput name (pid, endpoint, t) (ov_services s)\<rparr>"

definition discover_service :: "string \<Rightarrow> overlay \<Rightarrow> (string \<times> string \<times> pyfloat) option" where
  "discover_service name s = dget (ov_services s) name"

definition overlay_sign :: "hmac_fun \<Rightarrow> string \<Rightarrow> overlay \<Rightarrow> string" where
  "overlay_sign hmac message s = (if ov_secret s = [] then [] else hmac (ov_secret s) message)"

definition overlay_verify :: "hmac_fun \<Rightarrow> string \<Rightarrow> string \<Rightarrow> overlay \<Rightarrow> bool" where
  "overlay_verify hmac message signature s = (if ov_secret s = [] then True else hmac (ov_secret s) message = signature)"

section \<open>Bandwidth\<close>

record transfer =
  tr_source :: string
  tr_target :: string
  tr_size :: int
  tr_priority :: int
  tr_scheduled_at :: pyfloat
  tr_status :: string

record bandwidth =
  bw_alpha :: rat
  bw_measurements :: "(string \<times> string, rat) dict"
  bw_history :: "(string \<times> string \<times> rat \<times> pyfloat) list"
  bw_queue :: "transfer list"
  bw_total_transfers :: nat
  bw_total_bytes :: int

definition new_bandwidth :: "rat \<Rightarrow> bandwidth" where
  "new_bandwidth alpha =
     \<lparr>bw_alpha = alpha, bw_measurements = [], bw_history = [], bw_queue = [], bw_total_transfers = 0, bw_total_bytes = 0\<rparr>"

definition record_bandwidth :: "pyfloat \<Rightarrow> string \<Rightarrow> string \<Rightarrow> rat \<Rightarrow> bandwidth \<Rightarrow> bandwidth" where
  "record_bandwidth t source target mbps s =
     s\<lparr>bw_measurements := record_sample (bw_alpha s) (source, target) mbps (bw_measurements s),
       bw_history := py_cap 1000 (bw_history s @ [(source, target, mbps, t)])\<rparr>"

definition get_bandwidth :: "string \<Rightarrow> string \<Rightarrow> bandwidth \<Rightarrow> rat option" where
  "get_bandwidth source target s = dget (bw_measurements s) (source, target)"

text \<open>The bandwidth of the way over a relay.\<close>

definition relayed :: "string \<Rightarrow> string \<Rightarrow> bandwidth \<Rightarrow> string \<Rightarrow> rat option" where
  "relayed source target s mid =
     (case (get_bandwidth source mid s, get_bandwidth mid target s) of
        (Some x, Some y) \<Rightarrow> Some (min x y) | _ \<Rightarrow> None)"

definition better_relay ::
    "string \<Rightarrow> string \<Rightarrow> bandwidth \<Rightarrow> string \<Rightarrow> string option \<times> rat \<Rightarrow> string option \<times> rat" where
  "better_relay source target s mid best =
     (case relayed source target s mid of
        Some e \<Rightarrow> if e > snd best then (Some mid, e) else best | None \<Rightarrow> best)"

definition best_path :: "string \<Rightarrow> string \<Rightarrow> string list \<Rightarrow> bandwidth \<Rightarrow> string option" where
  "best_path source target candidates s =
     (let (best, best_bw) = fold (better_relay source target s) candidates (None, 0)
      in case get_bandwidth source target s of
           Some d \<Rightarrow> if d \<ge> best_bw then None else best | None \<Rightarrow> best)"

definition schedule_transfer :: "pyfloat \<Rightarrow> string \<Rightarrow> string \<Rightarrow> int \<Rightarrow> int \<Rightarrow> bandwidth \<Rightarrow> bandwidth" where
  "schedule_transfer t source target nbytes priority s =
     s\<lparr>bw_queue := sort_desc tr_priority (bw_queue s @ [\<lparr>tr_source = source, tr_target = target, tr_size = nbytes,
         tr_priority = priority, tr_scheduled_at = t, tr_status = ''queued''\<rparr>]),
       bw_total_transfers := bw_total_transfers s + 1, bw_total_bytes := bw_total_bytes s + nbytes\<rparr>"


section \<open>Reading back what is written\<close>

lemma digit_run_string_of_nat:
  "\<exists>k > 0. digit_run acc m (string_of_nat n @ cs) = digit_run (acc * 10 ^ k + int n) (m + k) cs"
proof (induction n arbitrary: acc m cs rule: string_of_nat.induct)
  case (1 n)
  show ?case
  proof (cases "n < 10")
    case True
    then have "digit_run acc m (string_of_nat n @ cs) = digit_run (acc * 10 ^ 1 + int n) (m + 1) cs"
      by (simp add: string_of_nat.simps [of n] digit_value_char_of mult.commute)
    then show ?thesis by blast
  next
    case False
    then obtain k where k: "digit_run acc m (string_of_nat (n div 10) @ char_of (48 + n mod 10) # cs)
        = digit_run (acc * 10 ^ k + int (n div 10)) (m + k) (char_of (48 + n mod 10) # cs)"
      using 1 by blast
    have n: "int n = 10 * int (n div 10) + int (n mod 10)"
      using div_mult_mod_eq [of n 10] by linarith
    have "digit_run acc m (string_of_nat n @ cs)
        = digit_run (10 * (acc * 10 ^ k + int (n div 10)) + int (n mod 10)) (m + k + 1) cs"
      using False k by (simp add: string_of_nat.simps [of n] digit_value_char_of)
    also have "\<dots> = digit_run (acc * 10 ^ Suc k + int n) (m + Suc k) cs"
      using n by (simp add: algebra_simps)
    finally show ?thesis by blast
  qed
qed

lemma digit_run_stop: "digit_value c = None \<Longrightarrow> c \<noteq> CHR ''_'' \<Longrightarrow> digit_run v n (c # cs) = (v, n, c # cs)"
  by simp

lemma digit_run_zeros: "digit_run 0 m (replicate k CHR ''0'' @ cs) = digit_run 0 (m + k) cs"
  by (induction k arbitrary: m) (auto simp: digit_value_def)

lemma to_lower_digit: "digit_value c \<noteq> None \<Longrightarrow> to_lower c = c"
  by (auto simp: digit_value_def to_lower_def Let_def split: if_splits)

lemma to_lower_dot: "to_lower CHR ''.'' = CHR ''.''"
  by code_simp

lemma digit_not_letter:
  "digit_value c \<noteq> None \<Longrightarrow> c \<noteq> CHR ''-'' \<and> c \<noteq> CHR ''+'' \<and> c \<noteq> CHR ''n'' \<and> c \<noteq> CHR ''i''"
  by (auto simp: digit_value_def)

text \<open>Whole seconds, with zeros before them or not, as Python writes them.\<close>

definition seconds_text :: "nat \<Rightarrow> string" where
  "seconds_text n = string_of_nat n @ ''.0''"

lemma decimal_of_seconds: "decimal_of (replicate k CHR ''0'' @ seconds_text n) = Some (of_nat n)"
proof -
  have "digit_run 0 0 (replicate k CHR ''0'' @ seconds_text n) = digit_run 0 k (seconds_text n)"
    using digit_run_zeros [of 0 k "seconds_text n"] by simp
  moreover obtain j where "j > 0" "digit_run 0 k (seconds_text n) = digit_run (0 * 10 ^ j + int n) (k + j) ''.0''"
    unfolding seconds_text_def using digit_run_string_of_nat [of 0 k n "''.0''"] by blast
  ultimately have "digit_run 0 0 (replicate k CHR ''0'' @ seconds_text n) = (int n, k + j, ''.0'')" and "j > 0"
    by (simp_all add: digit_value_def)
  then show ?thesis
    by (simp add: decimal_of_def digit_value_def exponent_of_def power10_def Let_def)
qed

lemma plain_first: "\<exists>c cs. replicate k CHR ''0'' @ seconds_text n = c # cs \<and> digit_value c \<noteq> None"
  using string_of_nat_digits [of n] by (cases k) (auto simp: seconds_text_def digit_value_def)

lemma py_float_seconds: "py_float (replicate k CHR ''0'' @ seconds_text n) = Some (FNum (of_nat n))"
proof -
  let ?s = "replicate k CHR ''0'' @ seconds_text n"
  obtain c cs where c: "?s = c # cs" "digit_value c \<noteq> None" using plain_first by blast
  have dig: "x \<in> set ?s \<Longrightarrow> digit_value x \<noteq> None \<or> x = CHR ''.''" for x
    using string_of_nat_set [of x n] by (auto simp: seconds_text_def digit_value_def)
  have nosp: "\<not> is_space x" if "x \<in> set ?s" for x
    using dig [OF that] digit_not_space by (auto simp: is_space_def)
  have strip: "py_strip ?s = ?s"
  proof (rule py_strip_id)
    show "?s \<noteq> []" using c by simp
    then show "\<not> is_space (hd ?s)" "\<not> is_space (last ?s)" using nosp hd_in_set last_in_set by blast+
  qed
  have lower: "py_lower ?s = ?s"
    unfolding py_lower_def
  proof (rule map_idI)
    fix x assume "x \<in> set ?s"
    from dig [OF this] show "to_lower x = x" using to_lower_digit [of x] to_lower_dot by blast
  qed
  have sign: "sign_of ?s = (False, ?s)"
    using digit_not_letter [OF c(2)] by (simp add: sign_of_def c(1))
  have "?s \<noteq> ''nan'' \<and> ?s \<noteq> ''inf'' \<and> ?s \<noteq> ''infinity''"
    using digit_not_letter [OF c(2)] by (simp add: c(1))
  then show ?thesis
    by (simp add: py_float_def strip lower sign decimal_of_seconds)
qed


section \<open>Signed requests\<close>

lemma audit_frame [frame_simps]:
  "et_failures (record_audit t e p d s) = et_failures s" "et_trusted (record_audit t e p d s) = et_trusted s"
  "et_secret (record_audit t e p d s) = et_secret s" "et_max_skew (record_audit t e p d s) = et_max_skew s"
  "et_local_id (record_audit t e p d s) = et_local_id s"
  "et_audit (record_audit t e p d s) = py_cap 500 (et_audit s @ [(t, e, p, d)])"
  by (simp_all add: record_audit_def)

lemma transport_accepts:
  "is_trusted from s \<Longrightarrow> py_float ts = Some v \<Longrightarrow> \<not> skewed (now 0) (et_max_skew s) v
    \<Longrightarrow> hmac (transport_key s) (payload @ ts) = sig
    \<Longrightarrow> transport_verify hmac now payload sig ts from s = (record_audit (now 1) ''auth_success'' from None s, True)"
  by (simp add: transport_verify_def)

text \<open>
  C0. A request that one side signs is accepted by every side with the same secret that trusts the
  sender, while the clocks are within the allowed skew: the text of the time is read back as the time.
\<close>

theorem signed_request_accepted:
  assumes "transport_sign hmac show_float t0 payload (Some t) a = (sig, ts, from)"
    and "t \<noteq> 0" and "py_float (show_float t) = Some (FNum t)"
    and "et_secret b = et_secret a" and "is_trusted (et_local_id a) b" and "\<bar>now 0 - t\<bar> \<le> et_max_skew b"
  shows "snd (transport_verify hmac now payload sig ts from b)
    \<and> et_failures (fst (transport_verify hmac now payload sig ts from b)) = et_failures b"
proof -
  have eqs: "ts = show_float t" "from = et_local_id a" "hmac (transport_key b) (payload @ ts) = sig"
    using assms(1,2,4) by (auto simp: transport_sign_def transport_key_def Let_def)
  have "transport_verify hmac now payload sig ts from b = (record_audit (now 1) ''auth_success'' from None b, True)"
    using assms(3,5,6) eqs by (intro transport_accepts) (auto simp: skewed_def)
  then show ?thesis by (simp add: frame_simps)
qed

definition toy_hmac :: hmac_fun where
  "toy_hmac k m = k @ ''/'' @ m"

definition show_seconds :: "pyfloat \<Rightarrow> string" where
  "show_seconds t = seconds_text (nat \<lfloor>t\<rfloor>)"

lemma show_seconds_read: "py_float (show_seconds (of_nat n)) = Some (FNum (of_nat n))"
  using py_float_seconds [of 0 n] by (simp add: show_seconds_def)

lemma signed_request_accepted_witness:
  "let a = new_transport ''eu'' ''k'' 300; b = add_trusted_peer ''eu'' (new_transport ''us'' ''k'' 300);
       (sig, ts, from) = transport_sign toy_hmac show_seconds 0 ''pay'' (Some 1700) a
   in snd (transport_verify toy_hmac (\<lambda>_. 1800) ''pay'' sig ts from b)
    \<and> et_failures (fst (transport_verify toy_hmac (\<lambda>_. 1800) ''pay'' sig ts from b)) = et_failures b"
proof -
  let ?a = "new_transport ''eu'' ''k'' 300" and ?b = "add_trusted_peer ''eu'' (new_transport ''us'' ''k'' 300)"
  obtain sig ts frm where q: "transport_sign toy_hmac show_seconds 0 ''pay'' (Some 1700) ?a = (sig, ts, frm)"
    by (metis prod_cases3)
  have "py_float (show_seconds 1700) = Some (FNum 1700)" using show_seconds_read [of 1700] by simp
  from signed_request_accepted [OF q _ this, of ?b "\<lambda>_. 1800"] q
  show ?thesis by (simp add: new_transport_def add_trusted_peer_def is_trusted_def)
qed

text \<open>Every verdict is written to the log, and the failures are counted.\<close>

definition failed_verdicts :: "bool list \<Rightarrow> nat" where
  "failed_verdicts vs = length (filter Not vs)"

fun verify_all ::
    "hmac_fun \<Rightarrow> (clock \<times> string \<times> string \<times> string \<times> string) list \<Rightarrow> transport \<Rightarrow> transport \<times> bool list" where
  "verify_all hmac [] s = (s, [])"
| "verify_all hmac ((now, payload, sig, ts, from) # rs) s =
     (let (s1, v) = transport_verify hmac now payload sig ts from s; (s2, vs) = verify_all hmac rs s1
      in (s2, v # vs))"

text \<open>The entry that a verdict writes: its event says whether the request was accepted.\<close>

definition verdict_entry :: "string \<Rightarrow> bool \<Rightarrow> pyfloat \<times> string \<times> string \<times> rat option \<Rightarrow> bool" where
  "verdict_entry from v e = ((fst (snd e) = ''auth_success'') = v \<and> fst (snd (snd e)) = from)"

definition verdict_step :: "string \<Rightarrow> transport \<Rightarrow> transport \<Rightarrow> bool \<Rightarrow> bool" where
  "verdict_step from s s' v \<longleftrightarrow>
     et_failures s' = et_failures s + (if v then 0 else 1) \<and> et_trusted s' = et_trusted s
     \<and> et_secret s' = et_secret s \<and> (\<exists>e. et_audit s' = py_cap 500 (et_audit s @ [e]) \<and> verdict_entry from v e)"

lemma verdict_stepI:
  "ev \<noteq> ''auth_success'' \<Longrightarrow> verdict_step from s (fst (auth_rejected t ev from d s)) False"
  "verdict_step from s (record_audit t ''auth_success'' from d s) True"
  unfolding verdict_step_def verdict_entry_def auth_rejected_def by (force simp: frame_simps)+

lemma snd_auth_rejected [simp]: "snd (auth_rejected t ev p d s) = False"
  by (simp add: auth_rejected_def)

lemma verify_step:
  "verdict_step from s (fst (transport_verify hmac now payload sig ts from s))
     (snd (transport_verify hmac now payload sig ts from s))"
  by (simp add: transport_verify_def verdict_stepI split: option.split)

text \<open>
  C0. Over any sequence of requests the counter of failures is the number of rejected ones, and the log
  holds the verdicts in order: its last 500 entries name the senders and say who was accepted.
\<close>

theorem every_verdict_audited:
  assumes "length (et_audit s) \<le> 500" and "verify_all hmac rs s = (s', vs)"
  shows "et_failures s' = et_failures s + failed_verdicts vs
    \<and> et_trusted s' = et_trusted s \<and> et_secret s' = et_secret s
    \<and> (\<exists>es. et_audit s' = py_cap 500 (et_audit s @ es)
         \<and> list_all2 (\<lambda>(_, _, _, _, from) (v, e). verdict_entry from v e) rs (zip vs es) \<and> length es = length vs)"
  using assms
proof (induction rs arbitrary: s vs)
  case (Cons r rs)
  obtain now payload sig ts frm where r: "r = (now, payload, sig, ts, frm)" by (rule prod_cases5)
  obtain s1 v where one: "transport_verify hmac now payload sig ts frm s = (s1, v)" by force
  obtain ws where rest: "verify_all hmac rs s1 = (s', ws)" and vs: "vs = v # ws"
    using Cons.prems(2) by (auto simp: r one split: prod.splits)
  obtain e where e: "et_audit s1 = py_cap 500 (et_audit s @ [e])" "verdict_entry frm v e"
    and fr: "et_failures s1 = et_failures s + (if v then 0 else 1)" "et_trusted s1 = et_trusted s" "et_secret s1 = et_secret s"
    using verify_step [of frm s hmac now payload sig ts] by (auto simp: one verdict_step_def)
  have "length (et_audit s1) \<le> 500" unfolding e(1) by (rule length_py_cap) simp
  from Cons.IH [OF this rest] obtain es where es: "et_audit s' = py_cap 500 (et_audit s1 @ es)" "length es = length ws"
      "list_all2 (\<lambda>(_, _, _, _, from) (v, e). verdict_entry from v e) rs (zip ws es)"
    and more: "et_failures s' = et_failures s1 + failed_verdicts ws" "et_trusted s' = et_trusted s1" "et_secret s' = et_secret s1"
    by blast
  have "et_audit s' = py_cap 500 (et_audit s @ e # es)"
    using es(1) by (simp add: e(1) py_cap_nested)
  then show ?case
    using es(2,3) e(2) more fr by (auto simp: r vs failed_verdicts_def intro!: exI [of _ "e # es"])
qed (simp add: py_cap_small failed_verdicts_def)

lemma every_verdict_audited_witness:
  "\<exists>s' vs. verify_all toy_hmac [((\<lambda>_. 1700), ''pay'', ''k/pay1700.0'', ''1700.0'', ''eu''), ((\<lambda>_. 1700), ''pay'', ''x'', ''1700.0'', ''us'')]
       (new_transport ''ap'' ''k'' 300) = (s', vs)
     \<and> et_failures s' = failed_verdicts vs \<and> length (et_audit s') = length vs"
proof -
  let ?rs = "[((\<lambda>_. 1700), ''pay'', ''k/pay1700.0'', ''1700.0'', ''eu''), ((\<lambda>_. 1700), ''pay'', ''x'', ''1700.0'', ''us'')] ::
      (clock \<times> string \<times> string \<times> string \<times> string) list"
  let ?s = "new_transport ''ap'' ''k'' 300"
  obtain s' vs where q: "verify_all toy_hmac ?rs ?s = (s', vs)" by force
  have zero: "et_failures ?s = 0" "et_audit ?s = []" by (simp_all add: new_transport_def)
  then obtain es where es: "et_failures s' = failed_verdicts vs" "et_audit s' = py_cap 500 es"
      "list_all2 (\<lambda>(_, _, _, _, from) (v, e). verdict_entry from v e) ?rs (zip vs es)" "length es = length vs"
    using every_verdict_audited [OF _ q] by auto
  then have "length es = 2" using list_all2_lengthD [OF es(3)] by simp
  with es q show ?thesis by (simp add: py_cap_small)
qed

text \<open>
  The signature covers the payload followed by the time, with nothing between them, and zeros before
  the time do not change it: digits at the end of the payload can be moved to the time.
\<close>

lemma payload_boundary_moves:
  assumes "transport_sign hmac show_seconds t0 (payload @ replicate k CHR ''0'') (Some (of_nat n)) a = (sig, ts, from)"
    and "0 < n" and "et_secret b = et_secret a" "is_trusted (et_local_id a) b" "\<bar>now 0 - of_nat n\<bar> \<le> et_max_skew b"
  shows "snd (transport_verify hmac now payload sig (replicate k CHR ''0'' @ ts) from b)"
proof -
  have ts: "ts = seconds_text n" "from = et_local_id a"
    "hmac (transport_key b) (payload @ replicate k CHR ''0'' @ ts) = sig"
    using assms(1,2,3) by (auto simp: transport_sign_def transport_key_def show_seconds_def Let_def)
  have "py_float (replicate k CHR ''0'' @ ts) = Some (FNum (of_nat n))" unfolding ts(1) by (rule py_float_seconds)
  from transport_accepts [OF _ this, of "from" b now hmac payload sig] ts(2,3) assms(4,5)
  show ?thesis by (simp add: skewed_def)
qed

text \<open>The sender is not part of what is signed, and a time that is no number is never out of date.\<close>

lemma sender_not_signed:
  "is_trusted x s = is_trusted y s
    \<Longrightarrow> snd (transport_verify hmac now p sig ts x s) = snd (transport_verify hmac now p sig ts y s)"
  by (simp add: transport_verify_def auth_rejected_def split: option.split)

lemma nan_never_skewed:
  "is_trusted from s \<Longrightarrow> snd (transport_verify hmac now p (hmac (transport_key s) (p @ ''nan'')) ''nan'' from s)"
proof -
  have "py_float ''nan'' = Some FNan" by code_simp
  then show "is_trusted from s \<Longrightarrow> ?thesis" by (simp add: transport_verify_def skewed_def)
qed

lemma default_key_opens:
  "et_secret s = [] \<Longrightarrow> et_trusted s = [] \<Longrightarrow> py_float ts = Some t \<Longrightarrow> \<not> skewed (now 0) (et_max_skew s) t
    \<Longrightarrow> snd (transport_verify hmac now p (hmac ''default'' (p @ ts)) ts from s)"
  by (simp add: transport_verify_def transport_key_def is_trusted_def)

section \<open>Peers of the overlay\<close>

datatype overlay_op =
    OvAdd clock string string transport_protocol
  | OvRemove string
  | OvCheck pyfloat
  | OvTraffic pyfloat string int int
  | OvLatency string rat
  | OvService pyfloat string string string
  | OvStop

fun overlay_step :: "overlay_op \<Rightarrow> overlay \<Rightarrow> overlay" where
  "overlay_step (OvAdd now pid endpoint protocol) s = add_overlay_peer now pid endpoint protocol s"
| "overlay_step (OvRemove pid) s = remove_overlay_peer pid s"
| "overlay_step (OvCheck t) s = check_overlay_peers t s"
| "overlay_step (OvTraffic t pid sent received) s = record_traffic t pid sent received s"
| "overlay_step (OvLatency pid ms) s = update_peer_latency pid ms s"
| "overlay_step (OvService t name pid endpoint) s = register_service t name pid endpoint s"
| "overlay_step OvStop s = stop_overlay s"

lemma idle_peer_known: "d \<noteq> [] \<Longrightarrow> idle_peer d \<in> fst ` set d"
  using py_min_in [of "\<lambda>p. pc_last_activity (snd p)" "hd d" "tl d"] by (cases d) (auto simp: idle_peer_def)

lemma length_evict_idle: "length (evict_idle_peer d) \<le> length d - 1"
  using length_ddel_less [OF idle_peer_known, of d] by (auto simp: evict_idle_peer_def)

lemma dwf_evict_idle: "dwf d \<Longrightarrow> dwf (evict_idle_peer d)"
  by (simp add: evict_idle_peer_def dwf_ddel)

definition overlay_ok :: "overlay \<Rightarrow> bool" where
  "overlay_ok s \<longleftrightarrow> dwf (ov_peers s) \<and> int (length (ov_peers s)) \<le> max 1 (ov_max_connections s)"

lemma overlay_ok_add: "overlay_ok s \<Longrightarrow> overlay_ok (add_overlay_peer now pid endpoint protocol s)"
  using length_evict_idle [of "ov_peers s"]
  by (auto simp: overlay_ok_def add_overlay_peer_def Let_def length_dput dwf_evict_idle)

lemma overlay_step_ok: "overlay_ok s \<Longrightarrow> overlay_ok (overlay_step p s)"
proof (cases p)
  case OvAdd
  then show "overlay_ok s \<Longrightarrow> ?thesis" using overlay_ok_add by simp
next
  case (OvRemove pid)
  then show "overlay_ok s \<Longrightarrow> ?thesis"
    using AList.length_delete_le [of pid "ov_peers s"]
    by (auto simp: overlay_ok_def remove_overlay_peer_def)
qed (auto simp: overlay_ok_def check_overlay_peers_def record_traffic_def update_peer_latency_def register_service_def
      stop_overlay_def length_dput_known split: option.split)

text \<open>
  C0. Over every sequence of operations the overlay keeps at most \<open>max_connections\<close> peers (one, if that
  is not positive), under distinct ids.
\<close>

theorem overlay_bounded:
  "int (length (ov_peers (fold overlay_step ops (new_overlay secret m i)))) \<le> max 1 m
    \<and> dwf (ov_peers (fold overlay_step ops (new_overlay secret m i)))"
proof -
  let ?s = "fold overlay_step ops (new_overlay secret m i)"
  have m: "ov_max_connections (overlay_step p s) = ov_max_connections s" for p s
    by (cases p) (auto simp: add_overlay_peer_def remove_overlay_peer_def check_overlay_peers_def record_traffic_def
        update_peer_latency_def register_service_def stop_overlay_def Let_def split: option.split)
  have "overlay_ok (new_overlay secret m i)" by (simp add: overlay_ok_def new_overlay_def)
  then have "overlay_ok ?s" by (rule fold_inv [where P = overlay_ok, rotated]) (rule overlay_step_ok)
  moreover have "ov_max_connections ?s = m"
    by (rule fold_inv [where P = "\<lambda>s. ov_max_connections s = m"]) (simp_all add: m new_overlay_def)
  ultimately show ?thesis by (simp add: overlay_ok_def)
qed

definition online :: "string \<Rightarrow> overlay \<Rightarrow> bool" where
  "online pid s = (case dget (ov_peers s) pid of None \<Rightarrow> False | Some p \<Rightarrow> pc_connected p)"

definition reconnects :: "string \<Rightarrow> overlay_op \<Rightarrow> bool" where
  "reconnects pid p = (case p of OvAdd now q endpoint protocol \<Rightarrow> q = pid | _ \<Rightarrow> False)"

lemma dget_evict_idle: "dget (evict_idle_peer d) k = None \<or> dget (evict_idle_peer d) k = dget d k"
  by (auto simp: evict_idle_peer_def)

lemma offline_step: "\<not> online pid s \<Longrightarrow> \<not> reconnects pid p \<Longrightarrow> \<not> online pid (overlay_step p s)"
proof (cases p)
  case (OvAdd now q endpoint protocol)
  then show "\<not> online pid s \<Longrightarrow> \<not> reconnects pid p \<Longrightarrow> ?thesis"
    using dget_evict_idle [of "ov_peers s" pid]
    by (auto simp: online_def reconnects_def add_overlay_peer_def Let_def)
qed (auto simp: online_def remove_overlay_peer_def check_overlay_peers_def record_traffic_def update_peer_latency_def
      register_service_def stop_overlay_def split: option.splits)

text \<open>
  C0. After a check every connected peer was active within three heartbeats, and a peer that has been
  disconnected stays so, whatever traffic it reports, until it is added again.
\<close>

theorem disconnected_until_added:
  assumes "\<not> online pid s" and "\<not> list_ex (reconnects pid) ops"
  shows "\<not> online pid (fold overlay_step ops s)
    \<and> list_all (\<lambda>p. t - pc_last_activity (snd p) \<le> ov_interval r * 3) (connected_peers (check_overlay_peers t r))"
proof
  show "\<not> online pid (fold overlay_step ops s)"
    using assms by (induction ops arbitrary: s) (auto simp: offline_step)
  show "list_all (\<lambda>p. t - pc_last_activity (snd p) \<le> ov_interval r * 3) (connected_peers (check_overlay_peers t r))"
    by (auto simp: list_all_iff connected_peers_def check_overlay_peers_def dmap_def split: if_splits)
qed

lemma disconnected_until_added_witness:
  "let s = check_overlay_peers 100 (add_overlay_peer (\<lambda>_. 0) ''a'' ''tcp://a'' Tcp (new_overlay [] 2 15));
       ops = [OvTraffic 101 ''a'' 10 10, OvAdd (\<lambda>_. 102) ''b'' ''tcp://b'' Tcp]
   in \<not> online ''a'' (fold overlay_step ops s)
    \<and> list_all (\<lambda>p. 120 - pc_last_activity (snd p) \<le> ov_interval s * 3) (connected_peers (check_overlay_peers 120 s))"
proof -
  let ?s = "check_overlay_peers 100 (add_overlay_peer (\<lambda>_. 0) ''a'' ''tcp://a'' Tcp (new_overlay [] 2 15))"
  let ?ops = "[OvTraffic 101 ''a'' 10 10, OvAdd (\<lambda>_. 102) ''b'' ''tcp://b'' Tcp]"
  have "\<not> online ''a'' ?s" and "\<not> list_ex (reconnects ''a'') ?ops" by code_simp+
  from disconnected_until_added [OF this, of 120 ?s] show ?thesis unfolding Let_def .
qed

lemma traffic_does_not_reconnect:
  "\<not> online pid s \<Longrightarrow> \<not> online pid (record_traffic t pid sent received s)"
  using offline_step [of pid s "OvTraffic t pid sent received"] by (simp add: reconnects_def)

text \<open>A peer that is added again while the overlay is full costs another peer its place.\<close>

lemma readding_evicts_another:
  "\<exists>s now. online ''a'' s \<and> online ''b'' s
    \<and> \<not> online ''a'' (add_overlay_peer now ''b'' ''tcp://b'' Tcp s)
    \<and> int (length (ov_peers (add_overlay_peer now ''b'' ''tcp://b'' Tcp s))) < ov_max_connections s"
proof -
  let ?s = "add_overlay_peer (\<lambda>_. 1) ''b'' ''tcp://b'' Tcp (add_overlay_peer (\<lambda>_. 0) ''a'' ''tcp://a'' Tcp (new_overlay [] 2 15))"
  have "online ''a'' ?s \<and> online ''b'' ?s \<and> \<not> online ''a'' (add_overlay_peer (\<lambda>_. 2) ''b'' ''tcp://b'' Tcp ?s)
    \<and> int (length (ov_peers (add_overlay_peer (\<lambda>_. 2) ''b'' ''tcp://b'' Tcp ?s))) < ov_max_connections ?s"
    by code_simp
  then show ?thesis by blast
qed

section \<open>The widest path\<close>

definition route_width :: "string \<Rightarrow> string \<Rightarrow> bandwidth \<Rightarrow> string option \<Rightarrow> rat option" where
  "route_width source target s r =
     (case r of None \<Rightarrow> get_bandwidth source target s | Some mid \<Rightarrow> relayed source target s mid)"

definition relay_inv :: "string \<Rightarrow> string \<Rightarrow> bandwidth \<Rightarrow> string list \<Rightarrow> string option \<times> rat \<Rightarrow> bool" where
  "relay_inv source target s cs best \<longleftrightarrow> 0 \<le> snd best
     \<and> (case fst best of None \<Rightarrow> snd best = 0
        | Some m \<Rightarrow> m \<in> set cs \<and> relayed source target s m = Some (snd best))
     \<and> (\<forall>c \<in> set cs. \<forall>x. relayed source target s c = Some x \<longrightarrow> x \<le> snd best)"

lemma relay_inv_step:
  "relay_inv source target s cs best \<Longrightarrow> relay_inv source target s (cs @ [c]) (better_relay source target s c best)"
  by (cases "relayed source target s c")
    (force simp: relay_inv_def better_relay_def split: option.splits)+

lemma relay_inv_fold: "relay_inv source target s cs (fold (better_relay source target s) cs (None, 0))"
proof (induction cs rule: rev_induct)
  case Nil
  then show ?case by (simp add: relay_inv_def)
next
  case (snoc c cs)
  from relay_inv_step [OF this, of c] show ?case by simp
qed

text \<open>
  C0. \<open>best_path\<close> names a candidate or the direct link; no candidate with two measured links is wider than
  what it names, the direct link is not either, and a relay is named only if it is strictly wider than
  the direct link.
\<close>

theorem best_path_widest:
  assumes "c \<in> set candidates" and "relayed source target s c = Some x"
  shows "x \<le> (case route_width source target s (best_path source target candidates s) of None \<Rightarrow> 0 | Some w \<Rightarrow> max 0 w)
    \<and> (case best_path source target candidates s of
         None \<Rightarrow> True
       | Some m \<Rightarrow> m \<in> set candidates
           \<and> (case (get_bandwidth source target s, relayed source target s m) of
                (Some d, Some w) \<Rightarrow> d < w | (None, Some w) \<Rightarrow> True | _ \<Rightarrow> False))"
proof -
  obtain b w where f: "fold (better_relay source target s) candidates (None, 0) = (b, w)" by force
  from relay_inv_fold [of source target s candidates] f assms show ?thesis
    by (auto simp: relay_inv_def best_path_def route_width_def split: option.splits)
qed

lemma best_path_widest_witness:
  "let s = fold (\<lambda>(a, b, w). record_bandwidth 0 a b w) [(''eu'', ''us'', 100), (''eu'', ''ap'', 300), (''ap'', ''us'', 200)] (new_bandwidth (3 / 10))
   in best_path ''eu'' ''us'' [''sa'', ''ap''] s = Some ''ap''
    \<and> (200 :: rat) \<le> (case route_width ''eu'' ''us'' s (best_path ''eu'' ''us'' [''sa'', ''ap''] s) of None \<Rightarrow> 0 | Some w \<Rightarrow> max 0 w)"
proof -
  let ?s = "fold (\<lambda>(a, b, w). record_bandwidth 0 a b w) [(''eu'', ''us'', 100), (''eu'', ''ap'', 300), (''ap'', ''us'', 200)] (new_bandwidth (3 / 10))"
  have "best_path ''eu'' ''us'' [''sa'', ''ap''] ?s = Some ''ap''" and "relayed ''eu'' ''us'' ?s ''ap'' = Some 200" by code_simp+
  with best_path_widest [of "''ap''" "[''sa'', ''ap'']" "''eu''" "''us''" ?s 200] show ?thesis by (simp add: Let_def)
qed

text \<open>What is scheduled is queued, most urgent first, and counted.\<close>

lemma schedule_transfer_queue:
  "set (bw_queue (schedule_transfer t a b n p s)) = insert \<lparr>tr_source = a, tr_target = b, tr_size = n, tr_priority = p, tr_scheduled_at = t, tr_status = ''queued''\<rparr> (set (bw_queue s))
   \<and> sorted_wrt (\<lambda>x y. tr_priority y \<le> tr_priority x) (bw_queue (schedule_transfer t a b n p s))
   \<and> length (bw_queue (schedule_transfer t a b n p s)) = length (bw_queue s) + 1"
  by (simp add: schedule_transfer_def sorted_sort_desc)

end
