(* ===== verification/Telemetry.thy ===== *)
theory Telemetry
  imports Repair Bags
begin

text \<open>
  What the engines that watch the infrastructure share. A report about a region or a node is a free-form
  dictionary that is read with defaults (\<open>r.get(key, default)\<close>): here its texts and its numbers. The
  engines keep the objects that they hand out in a history of bounded length and change them later: a
  \<open>journal\<close> is a store of such objects with the references that the history still holds. The locale
  \<open>history\<close> is the contract of a bounded history.
\<close>

section \<open>Reports\<close>

record tele =
  te_text :: "(string, string) dict"
  te_num :: "(string, rat) dict"
  te_workloads :: "string option list"

definition dict_num :: "(string, rat) dict \<Rightarrow> string \<Rightarrow> rat \<Rightarrow> rat" where
  "dict_num m k d = (case dget m k of Some v \<Rightarrow> v | None \<Rightarrow> d)"

definition num :: "tele \<Rightarrow> string \<Rightarrow> rat \<Rightarrow> rat" where
  "num r k d = dict_num (te_num r) k d"

definition text_of :: "tele \<Rightarrow> string \<Rightarrow> string \<Rightarrow> string" where
  "text_of r k d = (case dget (te_text r) k of Some v \<Rightarrow> v | None \<Rightarrow> d)"

abbreviation region_of :: "tele \<Rightarrow> string" where
  "region_of r \<equiv> text_of r ''region_id'' ''unknown''"

text \<open>The report of a region with these figures.\<close>

definition tele_of :: "string \<Rightarrow> (string \<times> rat) list \<Rightarrow> tele" where
  "tele_of rid fs = \<lparr>te_text = [(''region_id'', rid)], te_num = fs, te_workloads = []\<rparr>"

definition average :: "(tele \<Rightarrow> rat) \<Rightarrow> tele list \<Rightarrow> rat" where
  "average f rs = sum_list (map f rs) / of_nat (length rs)"

section \<open>Series of samples\<close>

text \<open>The last values of each metric, by key.\<close>

type_synonym metric_history = "(string, rat list) dict"

definition samples :: "metric_history \<Rightarrow> string \<Rightarrow> rat list" where
  "samples m key = (case dget m key of Some vs \<Rightarrow> vs | None \<Rightarrow> [])"

definition record_sample :: "nat \<Rightarrow> string \<Rightarrow> rat \<Rightarrow> metric_history \<Rightarrow> metric_history" where
  "record_sample cap key v m = dput key (py_cap cap (samples m key @ [v])) m"

lemma samples_record_sample:
  "samples (record_sample cap key v m) k = (if k = key then py_cap cap (samples m key @ [v]) else samples m k)"
  by (auto simp: samples_def record_sample_def)

section \<open>Tables of profiles\<close>

lemma list_all_dput: "list_all P (dvalues d) \<Longrightarrow> P v \<Longrightarrow> list_all P (dvalues (dput k v d))"
  using set_dput_subset [of k v d] by (fastforce simp: list_all_iff)

lemma set_map_filter: "x \<in> set (List.map_filter f ps) \<longleftrightarrow> (\<exists>p \<in> set ps. f p = Some x)"
  by (induction ps) (auto simp: map_filter_simps split: option.splits)

text \<open>A table of at most \<open>n\<close> entries loses those with the oldest stamps.\<close>

definition drop_oldest :: "nat \<Rightarrow> ('v \<Rightarrow> pyfloat) \<Rightarrow> (string, 'v) dict \<Rightarrow> (string, 'v) dict" where
  "drop_oldest n stamp d =
     (if length d > n
      then fold ddel (take (length d - n) (sort_key (\<lambda>k. case dget d k of Some v \<Rightarrow> stamp v | None \<Rightarrow> 0) (dkeys d))) d
      else d)"

lemma dget_fold_drop: "dget (fold ddel ks d) k = (if k \<in> set ks then None else dget d k)"
  by (induction ks arbitrary: d) auto

lemma dwf_fold_ddel: "dwf d \<Longrightarrow> dwf (fold ddel ks d)"
  by (rule fold_inv) auto

lemma length_fold_ddel:
  "dwf d \<Longrightarrow> distinct ks \<Longrightarrow> set ks \<subseteq> fst ` set d \<Longrightarrow> length (fold ddel ks d) + length ks = length d"
proof (induction ks arbitrary: d)
  case (Cons k ks)
  then have "dget d k \<noteq> None" by (auto simp: dget_None_iff)
  then have "Suc (length (ddel k d)) = length d" by (rule length_ddel [OF Cons.prems(1)])
  moreover have "set ks \<subseteq> fst ` set (ddel k d)" using Cons.prems(2,3) unfolding set_dkeys_ddel by auto
  ultimately show ?case using Cons.IH [of "ddel k d"] Cons.prems(1,2) by simp
qed simp

lemma drop_oldest_keeps:
  assumes wf: "dwf d"
  shows "dwf (drop_oldest n stamp d) \<and> length (drop_oldest n stamp d) = min n (length d)
    \<and> (\<forall>k v. dget (drop_oldest n stamp d) k = Some v \<longrightarrow> dget d k = Some v)
    \<and> (\<forall>k v j u. dget (drop_oldest n stamp d) k = Some v \<longrightarrow> dget d j = Some u \<longrightarrow> dget (drop_oldest n stamp d) j = None
          \<longrightarrow> stamp u \<le> stamp v)"
proof (cases "length d > n")
  case True
  define f where "f = (\<lambda>k. case dget d k of Some v \<Rightarrow> stamp v | None \<Rightarrow> 0)"
  let ?ks = "sort_key f (dkeys d)"
  let ?gone = "take (length d - n) ?ks"
  have eq: "drop_oldest n stamp d = fold ddel ?gone d" using True by (simp add: drop_oldest_def f_def)
  have d: "distinct ?ks" using wf by (simp add: dwf_def)
  have sub: "set ?gone \<subseteq> fst ` set d" using set_take_subset [of "length d - n" ?ks] by simp
  have "length (fold ddel ?gone d) + length ?gone = length d"
    by (rule length_fold_ddel [OF wf distinct_take [OF d] sub])
  then have len: "length (drop_oldest n stamp d) = min n (length d)" using True by (simp add: eq)
  have "sorted_wrt (\<lambda>a b. f a \<le> f b) (?gone @ drop (length d - n) ?ks)"
    using sorted_sort_key [of f "dkeys d"] by (simp add: sorted_wrt_map)
  then have le: "f a \<le> f b" if "a \<in> set ?gone" "b \<in> set (drop (length d - n) ?ks)" for a b
    using that unfolding sorted_wrt_append by blast
  have old: "stamp u \<le> stamp v"
    if k: "dget (fold ddel ?gone d) k = Some v" and j: "dget d j = Some u" "dget (fold ddel ?gone d) j = None" for k v j u
  proof -
    have kin: "k \<notin> set ?gone" "dget d k = Some v" using k by (auto simp: dget_fold_drop split: if_splits)
    have "set ?ks = set ?gone \<union> set (drop (length d - n) ?ks)" by (metis append_take_drop_id set_append)
    then have "k \<in> set (drop (length d - n) ?ks)" using kin dget_in_keys [OF kin(2)] by auto
    moreover have "j \<in> set ?gone" using j by (auto simp: dget_fold_drop split: if_splits)
    ultimately have "f j \<le> f k" using le by blast
    then show ?thesis using j(1) kin(2) by (simp add: f_def)
  qed
  show ?thesis unfolding eq using dwf_fold_ddel [OF wf] len old by (simp add: eq dget_fold_drop)
qed (use wf in \<open>auto simp: drop_oldest_def\<close>)

text \<open>Entries that are not older than \<open>t\<close> survive as long as they are no more than the table holds.\<close>

lemma drop_oldest_recent:
  assumes wf: "dwf d" and few: "card {k. \<exists>v. dget d k = Some v \<and> t \<le> stamp v} \<le> n"
    and j: "dget d j = Some u" "t \<le> stamp u"
  shows "dget (drop_oldest n stamp d) j = Some u"
proof (rule ccontr)
  let ?e = "drop_oldest n stamp d" and ?N = "{k. \<exists>v. dget d k = Some v \<and> t \<le> stamp v}"
  note keeps = drop_oldest_keeps [OF wf, of n stamp]
  assume "dget ?e j \<noteq> Some u"
  then have gone: "dget ?e j = None" using keeps j(1) by (metis not_None_eq option.inject)
  then have "\<not> length d \<le> n" using j(1) by (auto simp: drop_oldest_def)
  then have len: "length ?e = n" using keeps by simp
  have fin: "finite ?N" by (rule finite_subset [of _ "fst ` set d"]) (auto dest: dget_in_keys)
  have "set (dkeys ?e) \<subseteq> ?N"
  proof
    fix k assume "k \<in> set (dkeys ?e)"
    then have "dget ?e k \<noteq> None" by (simp add: dget_None_iff)
    then obtain v where v: "dget ?e k = Some v" by blast
    then have "stamp u \<le> stamp v" using keeps j(1) gone by blast
    then show "k \<in> ?N" using keeps v j(2) by fastforce
  qed
  moreover have "j \<notin> set (dkeys ?e)" using gone by (simp add: dget_None_iff)
  moreover have "j \<in> ?N" using j by blast
  ultimately have "insert j (set (dkeys ?e)) \<subseteq> ?N" by blast
  then have "card (insert j (set (dkeys ?e))) \<le> n" using card_mono [OF fin] few by (meson le_trans)
  moreover have "card (set (dkeys ?e)) = n" using keeps len distinct_card [of "dkeys ?e"] by (simp add: dwf_def)
  ultimately show False using \<open>j \<notin> set (dkeys ?e)\<close> by (simp add: card_insert_if)
qed

section \<open>Journals\<close>

record 'a journal =
  jo_objs :: "'a list"
  jo_refs :: "nat list"

definition new_journal :: "'a journal" where
  "new_journal = \<lparr>jo_objs = [], jo_refs = []\<rparr>"

text \<open>New objects, of which the history keeps the last \<open>n\<close>, and their references.\<close>

definition jo_extend :: "nat \<Rightarrow> 'a list \<Rightarrow> 'a journal \<Rightarrow> 'a journal \<times> nat list" where
  "jo_extend n xs j =
     (let new = [length (jo_objs j)..<length (jo_objs j) + length xs]
      in (\<lparr>jo_objs = jo_objs j @ xs, jo_refs = py_cap n (jo_refs j @ new)\<rparr>, new))"

definition jo_get :: "'a journal \<Rightarrow> nat \<Rightarrow> 'a" where
  "jo_get j i = jo_objs j ! i"

definition jo_change :: "nat \<Rightarrow> ('a \<Rightarrow> 'a) \<Rightarrow> 'a journal \<Rightarrow> 'a journal" where
  "jo_change i f j = j\<lparr>jo_objs := on_obj i f (jo_objs j)\<rparr>"

definition jo_history :: "'a journal \<Rightarrow> 'a list" where
  "jo_history j = map (jo_get j) (jo_refs j)"

definition jo_ok :: "'a journal \<Rightarrow> bool" where
  "jo_ok j \<longleftrightarrow> distinct (jo_refs j) \<and> (\<forall>i \<in> set (jo_refs j). i < length (jo_objs j))"

lemma py_cap_map: "py_cap n (map f xs) = map f (py_cap n xs)"
  by (simp add: py_cap_def py_last_def drop_map)

lemma jo_ok_new [simp]: "jo_ok new_journal"
  by (simp add: jo_ok_def new_journal_def)

lemma jo_ok_extend: "jo_ok j \<Longrightarrow> jo_ok (fst (jo_extend n xs j))"
proof -
  let ?all = "jo_refs j @ [length (jo_objs j)..<length (jo_objs j) + length xs]"
  assume ok: "jo_ok j"
  have "\<forall>i \<in> set ?all. i < length (jo_objs j) + length xs" using ok by (auto simp: jo_ok_def)
  then have "\<forall>i \<in> set (py_cap n ?all). i < length (jo_objs j) + length xs" using set_py_cap [of n ?all] by blast
  moreover have "distinct (py_cap n ?all)" using ok by (intro distinct_py_cap) (auto simp: jo_ok_def)
  ultimately show ?thesis by (simp add: jo_ok_def jo_extend_def Let_def)
qed

lemma jo_refs_bound: "0 < n \<Longrightarrow> length (jo_refs (fst (jo_extend n xs j))) \<le> n"
  by (simp add: jo_extend_def Let_def length_py_cap)

lemma jo_ok_change [simp]: "jo_ok (jo_change i f j) = jo_ok j"
  by (simp add: jo_ok_def jo_change_def)

text \<open>The history after new objects: the old entries and the new ones, cut to the last \<open>n\<close>.\<close>

lemma jo_history_extend:
  assumes "jo_ok j"
  shows "jo_history (fst (jo_extend n xs j)) = py_cap n (jo_history j @ xs)"
proof -
  let ?g = "\<lambda>i. (jo_objs j @ xs) ! i"
  have old: "map ?g (jo_refs j) = jo_history j"
    using assms by (auto simp: jo_history_def jo_get_def jo_ok_def nth_append)
  have new: "map ?g [length (jo_objs j)..<length (jo_objs j) + length xs] = xs"
    by (rule nth_equalityI) auto
  have "jo_history (fst (jo_extend n xs j)) = map ?g (py_cap n (jo_refs j @ [length (jo_objs j)..<length (jo_objs j) + length xs]))"
    by (simp add: jo_history_def jo_get_def jo_extend_def Let_def)
  also have "\<dots> = py_cap n (map ?g (jo_refs j @ [length (jo_objs j)..<length (jo_objs j) + length xs]))"
    by (simp only: py_cap_map)
  finally show ?thesis by (simp only: map_append old new)
qed

lemma jo_new_refs:
  assumes "jo_extend n xs j = (j', refs)"
  shows "length refs = length xs" "distinct refs" "set refs = {length (jo_objs j)..<length (jo_objs j')}"
    and "i < length xs \<Longrightarrow> jo_get j' (refs ! i) = xs ! i" "k \<in> set refs \<Longrightarrow> jo_get j' k \<in> set xs"
    and "k < length (jo_objs j) \<Longrightarrow> jo_get j' k = jo_get j k"
  using assms by (auto simp: jo_extend_def Let_def jo_get_def nth_append)

lemma jo_get_change: "i < length (jo_objs j) \<Longrightarrow> jo_get (jo_change i f j) k = (if k = i then f (jo_get j i) else jo_get j k)"
  by (simp add: jo_get_def jo_change_def nth_on_obj)

lemma jo_refs_change [simp]: "jo_refs (jo_change i f j) = jo_refs j" "length (jo_objs (jo_change i f j)) = length (jo_objs j)"
  by (simp_all add: jo_change_def)

text \<open>Changing every object that was just added.\<close>

lemma jo_change_all:
  assumes "distinct is" "\<forall>i \<in> set is. i < length (jo_objs j)"
  shows "jo_get (fold (\<lambda>i. jo_change i f) is j) k = (if k \<in> set is then f (jo_get j k) else jo_get j k)
    \<and> jo_refs (fold (\<lambda>i. jo_change i f) is j) = jo_refs j
    \<and> length (jo_objs (fold (\<lambda>i. jo_change i f) is j)) = length (jo_objs j)"
  using assms
proof (induction "is" arbitrary: j)
  case (Cons i "is")
  from Cons.IH [of "jo_change i f j"] Cons.prems show ?case by (auto simp: jo_get_change)
qed simp

section \<open>Bounded histories\<close>

locale history =
  fixes ok :: "'s \<Rightarrow> bool"
    and log :: "'s \<Rightarrow> 'e list"
    and limit :: "'s \<Rightarrow> nat"
    and total :: "'s \<Rightarrow> nat"
    and step :: "'o \<Rightarrow> 's \<Rightarrow> 's \<times> 'e list"
  assumes keeps: "ok s \<Longrightarrow> step p s = (s', es) \<Longrightarrow>
      ok s' \<and> limit s' = limit s \<and> log s' = py_cap (limit s) (log s @ es) \<and> total s' = total s + length es"
    and limit_pos: "ok s \<Longrightarrow> 0 < limit s"
begin

text \<open>The history is the end of everything that was ever reported, and the total counts all of it.\<close>

lemma history_complete:
  assumes "ok s" "length (log s) \<le> limit s" "run_outputs step ps s = (s', es)"
  shows "ok s' \<and> log s' = py_cap (limit s) (log s @ es) \<and> total s' = total s + length es \<and> limit s' = limit s"
  using assms
proof (induction ps arbitrary: s es)
  case (Cons p ps)
  obtain s1 es1 where one: "step p s = (s1, es1)" by fastforce
  obtain es2 where rest: "run_outputs step ps s1 = (s', es2)" and es: "es = es1 @ es2"
    using Cons.prems(3) one by (auto split: prod.splits)
  note k = keeps [OF Cons.prems(1) one]
  have pos: "0 < limit s" by (rule limit_pos [OF Cons.prems(1)])
  have "length (log s1) \<le> limit s1" using k length_py_cap [OF pos, of "log s @ es1"] by simp
  with Cons.IH [OF _ this rest] k show ?case by (simp add: es py_cap_nested [OF pos] add.assoc)
qed (simp add: py_cap_small)

lemma history_bounded:
  assumes "ok s" "length (log s) \<le> limit s" "run_outputs step ps s = (s', es)"
  shows "length (log s') \<le> limit s"
  using history_complete [OF assms] length_py_cap [OF limit_pos [OF assms(1)]] by simp

end

end
