(* ===== verification/Fabric.thy ===== *)
theory Fabric
  imports Regions Paths Telemetry
begin

text \<open>
  The compute fabric: placement of workloads (\<open>fabric/placement_engine.py\<close>), the graph of links
  between regions with its shortest paths (\<open>fabric/topology_manager.py\<close>) and the workloads that run
  (\<open>fabric/compute_fabric.py\<close>). Regions come from the registry of \<open>Regions\<close>. \<open>heapq\<close> is a list from
  which the least pair is taken.
\<close>

section \<open>Placement\<close>

record placement_request =
  wr_id :: string
  wr_require_gpu :: bool
  wr_gpu_type :: string
  wr_min_vram_gb :: rat
  wr_preferred_region :: string
  wr_max_latency_ms :: rat
  wr_cost_weight :: rat
  wr_performance_weight :: rat
  wr_efficiency_weight :: rat
  wr_power_weight :: rat
  wr_thermal_weight :: rat
  wr_historical_weight :: rat
  wr_predicted_weight :: rat

record placement =
  pl_workload :: string
  pl_region :: string
  pl_score :: rat
  pl_factors :: "(string \<times> rat) list"
  pl_alternatives :: "string list"
  pl_time_ms :: rat
  pl_ts :: pyfloat

record placement_engine =
  pe_intelligence :: "(string, (string, rat) dict) dict"
  pe_decisions :: "placement list"
  pe_total_placed :: nat

definition new_placement_engine :: "(string, (string, rat) dict) dict \<Rightarrow> placement_engine" where
  "new_placement_engine intelligence = \<lparr>pe_intelligence = intelligence, pe_decisions = [], pe_total_placed = 0\<rparr>"

definition set_intelligence :: "(string, (string, rat) dict) dict \<Rightarrow> placement_engine \<Rightarrow> placement_engine" where
  "set_intelligence ctx e = e\<lparr>pe_intelligence := ctx\<rparr>"

definition placement_candidates :: "placement_request \<Rightarrow> region_db \<Rightarrow> region list" where
  "placement_candidates q db =
     (let c0 = active_regions db;
          c1 = (if wr_require_gpu q then filter (\<lambda>r. gi_available_gpus (rg_gpu_inventory r) > 0) c0 else c0);
          c2 = (if wr_min_vram_gb q > 0
                then filter (\<lambda>r. gi_available_vram_gb (rg_gpu_inventory r) \<ge> wr_min_vram_gb q) c1 else c1);
          c3 = (if wr_gpu_type q \<noteq> []
                then filter (\<lambda>r. wr_gpu_type q \<in> set (dkeys (gi_gpu_types (rg_gpu_inventory r)))) c2 else c2)
      in if wr_max_latency_ms q > 0
         then filter (\<lambda>r. rg_avg_latency_ms r \<le> wr_max_latency_ms q \<or> rg_avg_latency_ms r = 0) c3 else c3)"

definition gpu_score :: "region \<Rightarrow> placement_request \<Rightarrow> rat" where
  "gpu_score r q =
     (let inv = rg_gpu_inventory r in
      if \<not> wr_require_gpu q then 1 / 2
      else if gi_total_gpus inv = 0 then 0
      else let base = of_int (gi_available_gpus inv) / of_int (gi_total_gpus inv);
               base1 = (if wr_gpu_type q \<noteq> [] \<and> wr_gpu_type q \<in> set (dkeys (gi_gpu_types inv)) then base + 1 / 10 else base);
               base2 = (if wr_min_vram_gb q > 0 \<and> gi_available_vram_gb inv \<ge> wr_min_vram_gb q * 2 then base1 + 1 / 10 else base1)
           in min base2 1)"

text \<open>The scores for power, heat, history and predicted traffic; one half each without intelligence.\<close>

definition intel_scores :: "placement_engine \<Rightarrow> region \<Rightarrow> rat \<times> rat \<times> rat \<times> rat" where
  "intel_scores e r =
     (case dget (pe_intelligence e) (rg_id r) of
        None \<Rightarrow> (1 / 2, 1 / 2, 1 / 2, 1 / 2)
      | Some [] \<Rightarrow> (1 / 2, 1 / 2, 1 / 2, 1 / 2)
      | Some d \<Rightarrow>
          (3 / 10 + dict_num d ''renewable_pct'' 0 * (7 / 10),
           max 0 (1 - dict_num d ''thermal_pressure'' 0),
           dict_num d ''historical_success_rate'' (1 / 2),
           max 0 (1 - dict_num d ''predicted_saturation'' 0)))"

definition weighted :: "rat \<Rightarrow> rat \<Rightarrow> rat" where
  "weighted w x = (if w > 0 then w * x else 0)"

definition placement_score :: "placement_engine \<Rightarrow> placement_request \<Rightarrow> region \<Rightarrow> rat \<times> (string \<times> rat) list" where
  "placement_score e q r =
     (let gpu = gpu_score r q;
          load = 1 - rg_saturation r;
          latency = (if rg_avg_latency_ms r > 0 then max 0 (1 - rg_avg_latency_ms r / 500) else 7 / 10);
          cap = min (rg_capacity r) 1;
          connectivity = (if rg_edge_connectivity r then 1 else 1 / 2);
          cost = load * (6 / 10) + cap * (4 / 10);
          perf = latency * (1 / 2) + gpu * (1 / 2);
          efficiency = connectivity * (4 / 10) + (1 - rg_saturation r) * (6 / 10);
          s0 = wr_cost_weight q * cost + wr_performance_weight q * perf + wr_efficiency_weight q * efficiency;
          s1 = (if wr_preferred_region q \<noteq> [] \<and> rg_id r = wr_preferred_region q then s0 + 1 / 10 else s0);
          s2 = (if rg_status r = RDegraded then s1 * (7 / 10) else s1);
          (power, thermal, historical, predicted) = intel_scores e r
      in (s2 + weighted (wr_power_weight q) power + weighted (wr_thermal_weight q) thermal
            + weighted (wr_historical_weight q) historical + weighted (wr_predicted_weight q) predicted,
          map (\<lambda>(k, v). (k, py_round v 3))
            [(''gpu'', gpu), (''load'', load), (''latency'', latency), (''capacity'', cap), (''connectivity'', connectivity),
             (''cost'', cost), (''performance'', perf), (''efficiency'', efficiency), (''power'', power),
             (''thermal'', thermal), (''historical'', historical), (''predicted'', predicted)]))"

definition place_request ::
    "clock \<Rightarrow> placement_request \<Rightarrow> region_db \<Rightarrow> placement_engine \<Rightarrow> placement_engine \<times> placement option" where
  "place_request now q db e =
     (case sort_desc (\<lambda>x. fst (snd x)) (map (\<lambda>r. (r, placement_score e q r)) (placement_candidates q db)) of
        [] \<Rightarrow> (e, None)
      | (r, score, factors) # others \<Rightarrow>
          let d = \<lparr>pl_workload = wr_id q, pl_region = rg_id r, pl_score = py_round score 4, pl_factors = factors,
                   pl_alternatives = map (\<lambda>x. rg_id (fst x)) (take 3 others),
                   pl_time_ms = py_round ((now 1 - now 0) * 1000) 2, pl_ts = now 2\<rparr>
          in (e\<lparr>pe_decisions := py_cap 500 (pe_decisions e @ [d]), pe_total_placed := pe_total_placed e + 1\<rparr>, Some d))"

section \<open>Links between regions\<close>

record topology_link =
  tl_source :: string
  tl_target :: string
  tl_latency_ms :: rat
  tl_bandwidth_mbps :: rat
  tl_healthy :: bool
  tl_updated_at :: pyfloat

type_synonym topology = "(string \<times> string, topology_link) dict"

definition update_topology_link :: "pyfloat \<Rightarrow> string \<Rightarrow> string \<Rightarrow> rat \<Rightarrow> rat \<Rightarrow> bool \<Rightarrow> topology \<Rightarrow> topology" where
  "update_topology_link t source target latency bandwidth healthy ls =
     dput (source, target) \<lparr>tl_source = source, tl_target = target, tl_latency_ms = latency, tl_bandwidth_mbps = bandwidth,
       tl_healthy = healthy, tl_updated_at = t\<rparr> ls"

definition get_topology_link :: "string \<Rightarrow> string \<Rightarrow> topology \<Rightarrow> topology_link option" where
  "get_topology_link source target ls = dget ls (source, target)"

definition remove_topology_link :: "string \<Rightarrow> string \<Rightarrow> topology \<Rightarrow> topology" where
  "remove_topology_link source target ls = ddel (source, target) ls"

definition neighbor_over :: "string \<Rightarrow> (string \<times> string) \<times> topology_link \<Rightarrow> string list" where
  "neighbor_over rid p =
     (let ((src, dst), l) = p in
      if \<not> tl_healthy l then [] else if src = rid then [dst] else if dst = rid then [src] else [])"

definition topology_neighbors :: "string \<Rightarrow> topology \<Rightarrow> string list" where
  "topology_neighbors rid ls = sort (remdups (concat (map (neighbor_over rid) ls)))"

definition healthy_links :: "topology \<Rightarrow> topology_link list" where
  "healthy_links ls = filter tl_healthy (dvalues ls)"

type_synonym arc_graph = "(string, (string \<times> rat) list) dict"

definition arcs :: "arc_graph \<Rightarrow> string \<Rightarrow> (string \<times> rat) list" where
  "arcs g a = (case dget g a of None \<Rightarrow> [] | Some bs \<Rightarrow> bs)"

definition add_arc :: "string \<Rightarrow> string \<Rightarrow> rat \<Rightarrow> arc_graph \<Rightarrow> arc_graph" where
  "add_arc a b w g = dput a (arcs g a @ [(b, w)]) g"

fun add_link_arcs :: "(string \<times> string) \<times> topology_link \<Rightarrow> arc_graph \<Rightarrow> arc_graph" where
  "add_link_arcs ((src, dst), l) g =
     (if \<not> tl_healthy l then g
      else add_arc dst src (tl_latency_ms l) (add_arc src dst (tl_latency_ms l) g))"

definition link_graph :: "topology \<Rightarrow> arc_graph" where
  "link_graph ls = fold add_link_arcs ls []"

section \<open>Shortest paths with a heap\<close>

type_synonym path_heap = "(rat \<times> string) list"

definition heap_pop :: "path_heap \<Rightarrow> ((rat \<times> string) \<times> path_heap) option" where
  "heap_pop h = (case h of [] \<Rightarrow> None | x # xs \<Rightarrow> let m = py_min id x xs in Some (m, remove1 m h))"

fun relax_arc ::
    "string list \<Rightarrow> rat \<Rightarrow> string \<Rightarrow> string \<times> rat \<Rightarrow> string labels \<times> path_heap \<Rightarrow> string labels \<times> path_heap" where
  "relax_arc visited d node (nb, w) (s, h) =
     (if nb \<in> set visited then (s, h)
      else if improves (fst s) nb (d + w) then (improve node nb (d + w) s, h @ [(d + w, nb)])
      else (s, h))"

lemma heap_pop_SomeD:
  assumes "heap_pop h = Some (m, rest)"
  shows "m \<in> set h" "rest = remove1 m h" "x \<in> set h \<Longrightarrow> m \<le> x"
proof -
  obtain y ys where h: "h = y # ys" "m = py_min id y ys" "rest = remove1 m h"
    using assms by (auto simp: heap_pop_def Let_def split: list.splits)
  show "m \<in> set h" using py_min_in [of id y ys] h by simp
  show "rest = remove1 m h" by (rule h(3))
  show "x \<in> set h \<Longrightarrow> m \<le> x" using py_min_le [of x y ys id] h by simp
qed

lemma heap_pop_None: "heap_pop h = None \<longleftrightarrow> h = []"
  by (simp add: heap_pop_def Let_def split: list.split)

lemma relax_arc_heap:
  "fold (relax_arc vs d node) bs (s, h) = (s', h') \<Longrightarrow> snd ` set h' \<subseteq> snd ` set h \<union> fst ` set bs"
proof (induction bs arbitrary: s h)
  case (Cons b bs)
  obtain nb w where b: "b = (nb, w)" by (cases b)
  obtain s1 h1 where one: "relax_arc vs d node b (s, h) = (s1, h1)" by fastforce
  have "snd ` set h1 \<subseteq> insert nb (snd ` set h)" using one by (auto simp: b split: if_splits)
  with Cons.IH [of s1 h1] Cons.prems one show ?case by (auto simp: b)
qed simp

definition arc_targets :: "arc_graph \<Rightarrow> string set" where
  "arc_targets g = (\<Union>p \<in> set g. fst ` set (snd p))"

lemma arcs_targets: "fst ` set (arcs g a) \<subseteq> arc_targets g"
proof (cases "dget g a")
  case (Some bs)
  from dget_SomeD [OF Some] show ?thesis by (force simp: arcs_def arc_targets_def Some)
qed (simp add: arcs_def)

lemma finite_arc_targets: "finite (arc_targets g)"
  by (simp add: arc_targets_def)

lemma search_smaller:
  assumes "heap_pop h = Some ((d, node), rest)" "node \<notin> set vs"
    and "fold (relax_arc (node # vs) d node) (arcs g node) (s, rest) = (s', h')"
  shows "card (snd ` set h' \<union> arc_targets g - set (node # vs)) < card (snd ` set h \<union> arc_targets g - set vs)"
proof (rule psubset_card_mono)
  show "finite (snd ` set h \<union> arc_targets g - set vs)" using finite_arc_targets by simp
  have "set rest \<subseteq> set h" using heap_pop_SomeD(2) [OF assms(1)] by (simp add: set_remove1_subset)
  then have "snd ` set h' \<subseteq> snd ` set h \<union> arc_targets g"
    using relax_arc_heap [OF assms(3)] arcs_targets [of g node] by blast
  moreover have "node \<in> snd ` set h" using heap_pop_SomeD(1) [OF assms(1)] by force
  ultimately show "snd ` set h' \<union> arc_targets g - set (node # vs) \<subset> snd ` set h \<union> arc_targets g - set vs"
    using assms(2) by auto
qed

lemma search_skip:
  assumes "heap_pop h = Some ((d, node), rest)"
  shows "card (snd ` set rest \<union> arc_targets g - set vs) \<le> card (snd ` set h \<union> arc_targets g - set vs)"
    and "length rest < length h"
proof -
  note p = heap_pop_SomeD(1,2) [OF assms]
  have "set rest \<subseteq> set h" unfolding p(2) by (rule set_remove1_subset)
  then show "card (snd ` set rest \<union> arc_targets g - set vs) \<le> card (snd ` set h \<union> arc_targets g - set vs)"
    using finite_arc_targets [of g] by (intro card_mono) auto
  show "length rest < length h" unfolding p(2) using p(1) length_pos_if_in_set [OF p(1)] by (simp add: length_remove1)
qed

function topo_search ::
    "arc_graph \<Rightarrow> string \<Rightarrow> string list \<Rightarrow> string labels \<Rightarrow> path_heap \<Rightarrow> string list option" where
  "topo_search g tgt visited s h =
     (case heap_pop h of
        None \<Rightarrow> None
      | Some ((d, node), rest) \<Rightarrow>
          if node \<in> set visited then topo_search g tgt visited s rest
          else if node = tgt then map_option rev (walk_back (length (node # visited)) (snd s) tgt)
          else (case fold (relax_arc (node # visited) d node) (arcs g node) (s, rest) of
                  (s', h') \<Rightarrow> topo_search g tgt (node # visited) s' h'))"
  by auto
termination
proof (relation "measures [\<lambda>(g, tgt, visited, s, h). card (snd ` set h \<union> arc_targets g - set visited),
                          \<lambda>(g, tgt, visited, s, h). length h]", goal_cases)
  case (2 g tgt visited s h p top rest d node)
  then have pop: "heap_pop h = Some ((d, node), rest)" by simp
  from search_skip(1) [OF pop, where g = g and vs = visited] search_skip(2) [OF pop]
  show ?case by (simp add: le_less)
next
  case (3 g tgt visited s h p top rest d node s' h')
  then have "heap_pop h = Some ((d, node), rest)" by simp
  from search_smaller [OF this 3(4) sym [OF 3(6)]] show ?case by simp
qed simp

declare topo_search.simps [simp del]

definition topology_path :: "topology \<Rightarrow> string \<Rightarrow> string \<Rightarrow> string list option" where
  "topology_path ls source target =
     (let g = link_graph ls in
      if dget g source = None then None
      else topo_search g target [] ([(source, 0)], []) [(0, source)])"

section \<open>The heap finds shortest paths\<close>

definition arc :: "arc_graph \<Rightarrow> string edges" where
  "arc g a b w \<longleftrightarrow> (b, w) \<in> set (arcs g a)"

text \<open>Every unvisited label waits in the heap, and nothing in the heap is below a label.\<close>

definition heap_ok :: "string set \<Rightarrow> (string, rat) dict \<Rightarrow> path_heap \<Rightarrow> bool" where
  "heap_ok V dd h \<longleftrightarrow> (\<forall>n d. dget dd n = Some d \<longrightarrow> n \<in> V \<or> (d, n) \<in> set h)
     \<and> (\<forall>d n. (d, n) \<in> set h \<longrightarrow> (\<exists>e. dget dd n = Some e \<and> e \<le> d))"

lemma heap_ok_relax:
  assumes "heap_ok V (fst s) h" and "relax_arc vs d node (nb, w) (s, h) = (s', h')"
  shows "heap_ok V (fst s') h'"
proof (cases "nb \<in> set vs \<or> \<not> improves (fst s) nb (d + w)")
  case True
  with assms show ?thesis by (auto split: if_splits)
next
  case False
  then have s': "fst s' = dput nb (d + w) (fst s)" "h' = h @ [(d + w, nb)]"
    using assms(2) by (auto simp: improve_def)
  have low: "d + w \<le> e" if "dget (fst s) nb = Some e" for e
    using False that by (simp add: improves_def)
  have "\<exists>e. dget (fst s') n = Some e \<and> e \<le> b" if h: "(b, n) \<in> set h" for b n
  proof -
    obtain e where e: "dget (fst s) n = Some e" "e \<le> b" using assms(1) h unfolding heap_ok_def by blast
    show ?thesis
    proof (cases "n = nb")
      case True
      with low e have "d + w \<le> b" by force
      with True s'(1) show ?thesis by simp
    next
      case False
      with e s'(1) show ?thesis by simp
    qed
  qed
  then show ?thesis using assms(1) unfolding heap_ok_def s'(2) by (auto simp: s'(1) split: if_splits)
qed

lemma relax_arc_labels:
  "fst (relax_arc vs d node (nb, w) (s, h)) =
     (if nb \<in> - set vs \<and> improves (fst s) nb (d + w) then improve node nb (d + w) s else s)"
  by simp

definition arcs_to :: "string \<Rightarrow> (string \<times> rat) list \<Rightarrow> (string \<times> string \<times> rat) set" where
  "arcs_to c bs = {(m, n, w). m = c \<and> (n, w) \<in> set bs}"

lemma arcs_to_simps [simp]: "arcs_to c [] = {}" "arcs_to c (b # bs) = insert (c, b) (arcs_to c bs)"
  by (auto simp: arcs_to_def)

lemma relax_arcs:
  assumes "labels_ok (arc g) src (set vs) F (- set vs) s" "node \<in> set vs" "dget (fst s) node = Some d"
    and "nonneg (arc g)" "\<forall>v \<in> set vs. \<forall>a. dget (fst s) v = Some a \<longrightarrow> a \<le> d"
    and "set bs \<subseteq> set (arcs g node)" "heap_ok (set vs) (fst s) h"
    and "fold (relax_arc vs d node) bs (s, h) = (s', h')"
  shows "labels_ok (arc g) src (set vs) (F \<union> arcs_to node bs) (- set vs) s' \<and> heap_ok (set vs) (fst s') h'"
  using assms
proof (induction bs arbitrary: s h F)
  case (Cons b bs)
  obtain nb w where b: "b = (nb, w)" by (cases b)
  obtain s1 h1 where one: "relax_arc vs d node (nb, w) (s, h) = (s1, h1)" by fastforce
  have e: "arc g node nb w" using Cons.prems(6) by (simp add: arc_def b)
  have s1: "s1 = (if nb \<in> - set vs \<and> improves (fst s) nb (d + w) then improve node nb (d + w) s else s)"
    using relax_arc_labels [of vs d node nb w s h] one by simp
  have nb: "nb \<in> set vs \<union> - set vs" by simp
  note step = labels_relax [OF Cons.prems(1-3,5,4) _ nb e, folded s1]
  have same: "dget (fst s1) v = dget (fst s) v" if "v \<in> set vs" for v by (rule step(2) [OF _ that]) simp
  have ok1: "labels_ok (arc g) src (set vs) (insert (node, nb, w) F) (- set vs) s1" by (rule step(1)) simp
  have top: "\<forall>v \<in> set vs. \<forall>a. dget (fst s1) v = Some a \<longrightarrow> a \<le> d" using same Cons.prems(5) by simp
  have at: "dget (fst s1) node = Some d" using same [OF Cons.prems(2)] Cons.prems(3) by simp
  have heap1: "heap_ok (set vs) (fst s1) h1" by (rule heap_ok_relax [OF Cons.prems(7) one])
  have rest: "fold (relax_arc vs d node) bs (s1, h1) = (s', h')" using Cons.prems(8) by (simp add: b one del: relax_arc.simps)
  have "set bs \<subseteq> set (arcs g node)" using Cons.prems(6) by simp
  from Cons.IH [OF ok1 Cons.prems(2) at Cons.prems(4) top this heap1 rest] show ?case by (simp add: b)
qed simp

text \<open>The pair that is popped is the nearest unvisited node with its label.\<close>

lemma popped_nearest:
  assumes "heap_ok V dd h" "heap_pop h = Some ((d, node), rest)" "node \<notin> V"
  shows "dget dd node = Some d" "u \<notin> V \<Longrightarrow> dget dd u = Some b \<Longrightarrow> d \<le> b"
proof -
  note pop = heap_pop_SomeD [OF assms(2)]
  have least: "d \<le> b" if "u \<notin> V" "dget dd u = Some b" for u b
  proof -
    have "(b, u) \<in> set h" using assms(1) that unfolding heap_ok_def by blast
    then have "(d, node) \<le> (b, u)" by (rule pop(3))
    then show ?thesis by (auto simp: less_eq_prod_def)
  qed
  obtain e where e: "dget dd node = Some e" "e \<le> d" using assms(1) pop(1) unfolding heap_ok_def by blast
  with least [OF assms(3) e(1)] show "dget dd node = Some d" by simp
  show "u \<notin> V \<Longrightarrow> dget dd u = Some b \<Longrightarrow> d \<le> b" by (rule least)
qed

lemma heap_ok_rest:
  assumes "heap_ok V dd h" "heap_pop h = Some ((d, node), rest)" "insert node V \<subseteq> W"
  shows "heap_ok W dd rest"
proof -
  have rest: "rest = remove1 (d, node) h" by (rule heap_pop_SomeD(2) [OF assms(2)])
  have "(b, u) \<in> set rest" if "(b, u) \<in> set h" "u \<noteq> node" for b u
    using that unfolding rest by (metis in_set_remove1 prod.inject)
  moreover have "set rest \<subseteq> set h" unfolding rest by (rule set_remove1_subset)
  ultimately show ?thesis using assms(1,3) unfolding heap_ok_def by blast
qed

definition search_result :: "arc_graph \<Rightarrow> string \<Rightarrow> string \<Rightarrow> string list option \<Rightarrow> bool" where
  "search_result g src tgt r \<longleftrightarrow>
     (case r of
        None \<Rightarrow> \<nexists>p c. walk (arc g) src p c \<and> last p = tgt
      | Some p \<Rightarrow> \<exists>c. walk (arc g) src p c \<and> last p = tgt \<and> distinct p
          \<and> (\<forall>q e. walk (arc g) src q e \<and> last q = tgt \<longrightarrow> c \<le> e))"

lemma topo_search_correct:
  assumes "labels_ok (arc g) src (set vs) F (- set vs) s" "covers (arc g) (set vs) F" "heap_ok (set vs) (fst s) h"
    and "nonneg (arc g)" "tgt \<notin> set vs"
  shows "search_result g src tgt (topo_search g tgt vs s h)"
  using assms
proof (induction g tgt vs s h arbitrary: F rule: topo_search.induct)
  case (1 g tgt vs s h)
  note pre = "1.prems"
  show ?case
  proof (cases "heap_pop h")
    case None
    then have "u \<in> set vs" if "dget (fst s) u = Some b" for u b
      using pre(3) that by (auto simp: heap_ok_def heap_pop_None)
    then have "\<forall>u \<in> - set vs. \<forall>b. dget (fst s) u = Some b \<longrightarrow> (\<exists>m. None = Some m \<and> m \<le> b)" by blast
    from frontier [OF pre(1,2,4) this] have "last p \<in> set vs" if "walk (arc g) src p c" for p c
      using that by blast
    then have "\<nexists>p c. walk (arc g) src p c \<and> last p = tgt" using pre(5) by blast
    then show ?thesis using None by (simp add: topo_search.simps [of g tgt vs s h] search_result_def)
  next
    case (Some x)
    obtain d node rest where x: "x = ((d, node), rest)" by (metis surj_pair)
    note pop = Some [unfolded x]
    show ?thesis
    proof (cases "node \<in> set vs")
      case True
      have "heap_ok (set vs) (fst s) rest" by (rule heap_ok_rest [OF pre(3) pop]) (use True in simp)
      from "1.IH"(1) [OF Some sym [OF x] refl True pre(1,2) this pre(4,5)] True pop
      show ?thesis by (simp add: topo_search.simps [of g tgt vs s h])
    next
      case False
      note near = popped_nearest [OF pre(3) pop False]
      have least: "\<forall>u \<in> - set vs. \<forall>b. dget (fst s) u = Some b \<longrightarrow> (\<exists>m. Some d = Some m \<and> m \<le> b)"
        using near(2) by blast
      have above: "\<forall>m. Some d = Some m \<longrightarrow> (\<forall>v \<in> set vs. \<forall>a. dget (fst s) v = Some a \<longrightarrow> a \<le> m)"
        using labels_okD(6) [OF pre(1) _ _ _ near(1)] False by blast
      show ?thesis
      proof (cases "node = tgt")
        case True
        obtain p where p: "traced (snd s) tgt p" "walk (arc g) src p d" "distinct p" "set p \<subseteq> insert tgt (set vs)"
          using labels_okD(3) [OF pre(1) near(1)] True by blast
        have "length p = card (set p)" using distinct_card [OF p(3)] by simp
        also have "\<dots> \<le> card (set (node # vs))" using p(4) True by (intro card_mono) simp_all
        also have "\<dots> \<le> length (node # vs)" by (rule card_length)
        finally have "walk_back (length (node # vs)) (snd s) tgt = Some (rev p)" by (rule walk_back_traced [OF p(1)])
        then have res: "topo_search g tgt vs s h = Some p"
          using pop False True by (simp add: topo_search.simps [of g tgt vs s h])
        have "d \<le> e" if "walk (arc g) src q e" "last q = tgt" for q e
          using frontier [OF pre(1,2,4) least above that(1)] that(2) pre(5) by auto
        with p traced_last [OF p(1)] show ?thesis unfolding res search_result_def by auto
      next
        case other: False
        let ?vs = "node # vs"
        obtain s' h' where run: "fold (relax_arc ?vs d node) (arcs g node) (s, rest) = (s', h')" by fastforce
        have compl: "- set vs - {node} = - set ?vs" by auto
        have ok1: "labels_ok (arc g) src (set ?vs) F (- set ?vs) s"
          using labels_visit [OF pre(1) _ near(1)] near(2) False unfolding compl by simp
        have top: "\<forall>v \<in> set ?vs. \<forall>a. dget (fst s) v = Some a \<longrightarrow> a \<le> d" using above near(1) by auto
        have heap1: "heap_ok (set ?vs) (fst s) rest" by (rule heap_ok_rest [OF pre(3) pop]) simp
        note all = relax_arcs [OF ok1 _ near(1) pre(4) top _ heap1 run]
        have cov: "covers (arc g) (set ?vs) (F \<union> arcs_to node (arcs g node))"
          using pre(2) by (auto simp: covers_def arcs_to_def arc_def)
        have "tgt \<notin> set ?vs" using pre(5) other by auto
        from "1.IH"(2) [OF Some sym [OF x] refl False other sym [OF run] _ cov _ pre(4) this] all
        have "search_result g src tgt (topo_search g tgt ?vs s' h')" by simp
        then show ?thesis using pop False other run by (simp add: topo_search.simps [of g tgt vs s h])
      qed
    qed
  qed
qed

text \<open>The graph of the healthy links, each in both directions.\<close>

definition linked :: "topology \<Rightarrow> string edges" where
  "linked ls a b w \<longleftrightarrow> (\<exists>l. (((a, b), l) \<in> set ls \<or> ((b, a), l) \<in> set ls) \<and> tl_healthy l \<and> tl_latency_ms l = w)"

lemma arcs_add_arc [simp]: "arcs (add_arc a b w g) x = (if x = a then arcs g a @ [(b, w)] else arcs g x)"
  by (simp add: arcs_def add_arc_def)

lemma arcs_fold_links:
  "(b, w) \<in> set (arcs (fold add_link_arcs ls g) a) \<longleftrightarrow> (b, w) \<in> set (arcs g a) \<or> linked ls a b w"
proof (induction ls arbitrary: g)
  case Nil
  then show ?case by (simp add: linked_def)
next
  case (Cons p ls)
  obtain src dst l where p: "p = ((src, dst), l)" by (metis surj_pair)
  have "linked (p # ls) a b w \<longleftrightarrow> linked ls a b w
      \<or> (tl_healthy l \<and> tl_latency_ms l = w \<and> (src = a \<and> dst = b \<or> src = b \<and> dst = a))"
    unfolding linked_def p by auto
  moreover have "(b, w) \<in> set (arcs (add_link_arcs p g) a) \<longleftrightarrow> (b, w) \<in> set (arcs g a)
      \<or> (tl_healthy l \<and> tl_latency_ms l = w \<and> (src = a \<and> dst = b \<or> src = b \<and> dst = a))"
    unfolding p by auto
  ultimately show ?case using Cons.IH [of "add_link_arcs p g"] by auto
qed

lemma arc_link_graph: "arc (link_graph ls) = linked ls"
  by (intro ext) (simp add: arc_def link_graph_def arcs_fold_links, simp add: arcs_def)

lemma walk_isolated: "walk E a p c \<Longrightarrow> (\<And>b w. \<not> E a b w) \<Longrightarrow> p = [a]"
  by (induction rule: walk.induct) auto

text \<open>
  C0. The path between two regions is a shortest path over healthy links, which count in both directions:
  it visits no region twice and no other walk has less latency; there is no path only if no healthy link
  leads from the one to the other.
\<close>

theorem topology_path_shortest:
  assumes "list_all (\<lambda>p. 0 \<le> tl_latency_ms (snd p)) ls"
  shows "case topology_path ls a b of
      Some p \<Rightarrow> \<exists>c. walk (linked ls) a p c \<and> last p = b \<and> distinct p
        \<and> (\<forall>q e. walk (linked ls) a q e \<and> last q = b \<longrightarrow> c \<le> e)
    | None \<Rightarrow> \<forall>q e. walk (linked ls) a q e \<and> last q = b \<longrightarrow> q = [a]"
proof (cases "dget (link_graph ls) a")
  case None
  then have "\<not> linked ls a b' w" for b' w
    unfolding arc_link_graph [symmetric] by (simp add: arc_def arcs_def)
  with walk_isolated [of "linked ls" a] None show ?thesis by (auto simp: topology_path_def)
next
  case (Some bs)
  let ?g = "link_graph ls"
  let ?s = "([(a, 0)], []) :: string labels"
  have nn: "nonneg (arc ?g)"
    using assms unfolding arc_link_graph by (auto simp: nonneg_def linked_def list_all_iff)
  have "labels_ok (arc ?g) a (set []) {} (- set []) ?s" using labels_init [of a UNIV "arc ?g"] by simp
  moreover have "heap_ok (set []) (fst ?s) [(0, a)]" by (auto simp: heap_ok_def split: if_splits)
  ultimately have "search_result ?g a b (topo_search ?g b [] ?s [(0, a)])"
    by (intro topo_search_correct [where F = "{}"] nn) (simp_all add: covers_def)
  then have "search_result ?g a b (topology_path ls a b)" using Some by (simp add: topology_path_def)
  then show ?thesis unfolding search_result_def arc_link_graph by (auto split: option.splits)
qed

definition demo_links :: topology where
  "demo_links = fold (\<lambda>(a, b, ms, up). update_topology_link 0 a b ms 100 up)
     [(''eu'', ''us'', 90, True), (''ap'', ''eu'', 20, True), (''us'', ''ap'', 30, True), (''eu'', ''sa'', 1, False)] []"

theorem topology_path_shortest_witness:
  "topology_path demo_links ''eu'' ''us'' = Some [''eu'', ''ap'', ''us''] \<and> topology_path demo_links ''eu'' ''sa'' = None
    \<and> (\<exists>c. walk (linked demo_links) ''eu'' [''eu'', ''ap'', ''us''] c)"
proof -
  have nn: "list_all (\<lambda>p. 0 \<le> tl_latency_ms (snd p)) demo_links"
    and p: "topology_path demo_links ''eu'' ''us'' = Some [''eu'', ''ap'', ''us'']" "topology_path demo_links ''eu'' ''sa'' = None"
    by code_simp+
  from topology_path_shortest [OF nn, of "''eu''" "''us''"] p show ?thesis by auto
qed

text \<open>The neighbours are the regions one healthy link away, sorted.\<close>

lemma neighbor_over_iff: "b \<in> set (neighbor_over a p) \<longleftrightarrow> tl_healthy (snd p) \<and> (fst p = (a, b) \<or> fst p = (b, a))"
  by (cases p) (auto simp: neighbor_over_def split: if_splits)

lemma topology_neighbors_linked:
  "set (topology_neighbors a ls) = {b. \<exists>w. linked ls a b w}" "sorted (topology_neighbors a ls)"
proof -
  have "b \<in> set (topology_neighbors a ls) \<longleftrightarrow> (\<exists>w. linked ls a b w)" for b
    unfolding topology_neighbors_def linked_def by (auto simp: neighbor_over_iff) (metis fst_conv snd_conv)+
  then show "set (topology_neighbors a ls) = {b. \<exists>w. linked ls a b w}" by blast
  show "sorted (topology_neighbors a ls)" by (simp add: topology_neighbors_def)
qed

section \<open>Placements are best\<close>

definition fits :: "placement_request \<Rightarrow> region \<Rightarrow> bool" where
  "fits q r \<longleftrightarrow> serving r
     \<and> (wr_require_gpu q \<longrightarrow> gi_available_gpus (rg_gpu_inventory r) > 0)
     \<and> (wr_min_vram_gb q > 0 \<longrightarrow> gi_available_vram_gb (rg_gpu_inventory r) \<ge> wr_min_vram_gb q)
     \<and> (wr_gpu_type q \<noteq> [] \<longrightarrow> wr_gpu_type q \<in> set (dkeys (gi_gpu_types (rg_gpu_inventory r))))
     \<and> (wr_max_latency_ms q > 0 \<longrightarrow> rg_avg_latency_ms r \<le> wr_max_latency_ms q \<or> rg_avg_latency_ms r = 0)"

lemma placement_candidates_iff:
  assumes "regions_ok db"
  shows "r \<in> set (placement_candidates q db) \<longleftrightarrow> get_region (rg_id r) db = Some r \<and> fits q r"
proof -
  have "r \<in> set (placement_candidates q db) \<longleftrightarrow> r \<in> set (active_regions db) \<and> fits q r"
    using active_regions_iff [OF assms, of r] by (auto simp: placement_candidates_def fits_def Let_def active_regions_def)
  then show ?thesis using set_list_regions [OF assms, of r] by (auto simp: active_regions_def fits_def)
qed

text \<open>
  C0. A workload is placed in a serving region that has what it asks for, and no such region scores
  higher; it is refused only if no serving region has it. At most three alternatives are named, none
  of them the region itself, and every placement is counted.
\<close>

theorem placement_best:
  assumes "regions_ok db" and "place_request now q db e = (e', d)"
  shows "case d of
      None \<Rightarrow> e' = e \<and> (\<nexists>r. get_region (rg_id r) db = Some r \<and> fits q r)
    | Some p \<Rightarrow> pe_total_placed e' = pe_total_placed e + 1 \<and> length (pl_alternatives p) \<le> 3 \<and> pl_region p \<notin> set (pl_alternatives p)
        \<and> (\<exists>r. get_region (pl_region p) db = Some r \<and> fits q r
             \<and> (\<forall>r'. get_region (rg_id r') db = Some r' \<and> fits q r' \<longrightarrow> fst (placement_score e q r') \<le> fst (placement_score e q r)))"
proof -
  let ?cs = "placement_candidates q db"
  let ?f = "\<lambda>x. fst (snd x) :: rat"
  let ?xs = "map (\<lambda>r. (r, placement_score e q r)) ?cs"
  note cand = placement_candidates_iff [OF assms(1), of _ q]
  show ?thesis
  proof (cases "sort_desc ?f ?xs")
    case Nil
    then have "?cs = []" by simp
    then have "\<nexists>r. get_region (rg_id r) db = Some r \<and> fits q r" using cand by auto
    moreover have "d = None \<and> e' = e" using assms(2) Nil by (simp add: place_request_def)
    ultimately show ?thesis by simp
  next
    case (Cons x others)
    obtain r score factors where x: "x = (r, score, factors)" by (metis prod_cases3)
    have "x \<in> set (sort_desc ?f ?xs)" unfolding Cons by simp
    then have r: "r \<in> set ?cs" "score = fst (placement_score e q r)" by (auto simp: x) (metis fst_conv)
    have best: "fst (placement_score e q r') \<le> score" if "r' \<in> set ?cs" for r'
    proof -
      have "(r', placement_score e q r') \<in> set ?xs" using that by simp
      from sort_desc_hd_max [OF this, of ?f] show ?thesis unfolding Cons by (simp add: x)
    qed
    have "distinct (map rg_id ?cs)"
      using distinct_list_regions [OF assms(1)]
      by (auto simp: placement_candidates_def active_regions_def Let_def intro!: distinct_map_filter)
    then have dist: "distinct (map (\<lambda>x. rg_id (fst x)) (sort_desc ?f ?xs))"
      by (simp add: distinct_map_sort_desc comp_def)
    have alts: "rg_id r \<notin> set (map (\<lambda>x. rg_id (fst x)) (take 3 others))"
      using dist Cons by (auto simp: x dest!: in_set_takeD)
    let ?p = "\<lparr>pl_workload = wr_id q, pl_region = rg_id r, pl_score = py_round score 4, pl_factors = factors,
        pl_alternatives = map (\<lambda>x. rg_id (fst x)) (take 3 others), pl_time_ms = py_round ((now 1 - now 0) * 1000) 2, pl_ts = now 2\<rparr>"
    have p: "d = Some ?p" "pe_total_placed e' = pe_total_placed e + 1"
      using assms(2) unfolding place_request_def Cons x by (auto simp: Let_def)
    have "get_region (rg_id r) db = Some r \<and> fits q r" using cand r(1) by blast
    moreover have "\<forall>r'. get_region (rg_id r') db = Some r' \<and> fits q r' \<longrightarrow> fst (placement_score e q r') \<le> fst (placement_score e q r)"
      using cand best r(2) by blast
    ultimately show ?thesis using alts by (auto simp: p)
  qed
qed

section \<open>Running workloads\<close>

record fabric_workload =
  fw_region :: string
  fw_score :: rat
  fw_factors :: "(string \<times> rat) list"
  fw_submitted_at :: pyfloat
  fw_migrated :: "(string \<times> pyfloat) option"

record fabric =
  fb_engine :: placement_engine
  fb_active :: "(string, fabric_workload) dict"
  fb_completed :: nat
  fb_failed :: nat

definition new_fabric :: fabric where
  "new_fabric = \<lparr>fb_engine = new_placement_engine [], fb_active = [], fb_completed = 0, fb_failed = 0\<rparr>"

definition submit_workload :: "clock \<Rightarrow> placement_request \<Rightarrow> region_db \<Rightarrow> fabric \<Rightarrow> fabric \<times> fabric_workload option" where
  "submit_workload now q db f =
     (case place_request now q db (fb_engine f) of
        (e, None) \<Rightarrow> (f\<lparr>fb_engine := e\<rparr>, None)
      | (e, Some d) \<Rightarrow>
          let w = \<lparr>fw_region = pl_region d, fw_score = pl_score d, fw_factors = pl_factors d, fw_submitted_at = now 3,
                   fw_migrated = None\<rparr>
          in (f\<lparr>fb_engine := e, fb_active := dput (wr_id q) w (fb_active f)\<rparr>, Some w))"

definition complete_workload :: "string \<Rightarrow> bool \<Rightarrow> fabric \<Rightarrow> fabric" where
  "complete_workload wid success f =
     (if dget (fb_active f) wid = None then f
      else if success then f\<lparr>fb_active := ddel wid (fb_active f), fb_completed := fb_completed f + 1\<rparr>
      else f\<lparr>fb_active := ddel wid (fb_active f), fb_failed := fb_failed f + 1\<rparr>)"

definition migrate_workload :: "pyfloat \<Rightarrow> string \<Rightarrow> string \<Rightarrow> fabric \<Rightarrow> fabric \<times> fabric_workload option" where
  "migrate_workload t wid target f =
     (case dget (fb_active f) wid of
        None \<Rightarrow> (f, None)
      | Some w \<Rightarrow>
          let w' = w\<lparr>fw_region := target, fw_migrated := Some (fw_region w, t)\<rparr>
          in (f\<lparr>fb_active := dput wid w' (fb_active f)\<rparr>, Some w'))"

definition workloads_in_region :: "string \<Rightarrow> fabric \<Rightarrow> string list" where
  "workloads_in_region rid f = dkeys (filter (\<lambda>p. fw_region (snd p) = rid) (fb_active f))"

fun migrate_each :: "clock \<Rightarrow> nat \<Rightarrow> string list \<Rightarrow> string \<Rightarrow> fabric \<Rightarrow> fabric \<times> nat" where
  "migrate_each now k [] target f = (f, 0)"
| "migrate_each now k (wid # wids) target f =
     (let (f1, w) = migrate_workload (now k) wid target f; (f2, n) = migrate_each now (k + 1) wids target f1
      in (f2, if w = None then n else n + 1))"

definition drain_fabric_region :: "clock \<Rightarrow> string \<Rightarrow> string \<Rightarrow> fabric \<Rightarrow> fabric \<times> nat" where
  "drain_fabric_region now rid target f = migrate_each now 0 (workloads_in_region rid f) target f"

definition located :: "fabric \<Rightarrow> string \<Rightarrow> string option" where
  "located f i = map_option fw_region (dget (fb_active f) i)"

lemma migrate_known:
  assumes "dget (fb_active f) wid = Some w"
  shows "\<exists>f' w'. migrate_workload t wid target f = (f', Some w') \<and> dkeys (fb_active f') = dkeys (fb_active f)
    \<and> fb_completed f' = fb_completed f \<and> fb_failed f' = fb_failed f
    \<and> (\<forall>i. located f' i = (if i = wid then Some target else located f i))"
proof -
  have "dkeys (dput wid v d) = dkeys d" if "dget d wid = Some u" for v u and d :: "(string, fabric_workload) dict"
    using that by (induction d) auto
  with assms show ?thesis by (auto simp: migrate_workload_def located_def Let_def)
qed

lemma migrate_each_spec:
  assumes "distinct wids" "set wids \<subseteq> set (dkeys (fb_active f))" "migrate_each now k wids target f = (f', n)"
  shows "n = length wids \<and> dkeys (fb_active f') = dkeys (fb_active f) \<and> fb_completed f' = fb_completed f \<and> fb_failed f' = fb_failed f
    \<and> (\<forall>i. located f' i = (if i \<in> set wids then Some target else located f i))"
  using assms
proof (induction wids arbitrary: f n k)
  case (Cons wid wids)
  obtain w where "dget (fb_active f) wid = Some w"
    using Cons.prems(2) by (cases "dget (fb_active f) wid") (auto simp: dget_None_iff)
  then obtain f1 w1 where one: "migrate_workload (now k) wid target f = (f1, Some w1)" "dkeys (fb_active f1) = dkeys (fb_active f)"
    "fb_completed f1 = fb_completed f" "fb_failed f1 = fb_failed f" "\<And>i. located f1 i = (if i = wid then Some target else located f i)"
    using migrate_known by metis
  obtain m where rest: "migrate_each now (k + 1) wids target f1 = (f', m)" and n: "n = m + 1"
    using Cons.prems(3) one(1) by (auto split: prod.splits)
  have "set wids \<subseteq> set (dkeys (fb_active f1))" using Cons.prems(2) unfolding one(2) by simp
  from Cons.IH [OF _ this rest] Cons.prems(1) one n show ?case by auto
qed simp

lemma drain_spec:
  assumes "dwf (fb_active f)" and "drain_fabric_region now rid target f = (f', n)"
  shows "n = length (workloads_in_region rid f)" "dkeys (fb_active f') = dkeys (fb_active f)"
    and "fb_completed f' = fb_completed f" "fb_failed f' = fb_failed f"
    and "located f' i = (if i \<in> set (workloads_in_region rid f) then Some target else located f i)"
proof -
  let ?wids = "workloads_in_region rid f"
  have "distinct ?wids" using assms(1) by (simp add: workloads_in_region_def dwf_def distinct_map_filter)
  moreover have "set ?wids \<subseteq> set (dkeys (fb_active f))" by (auto simp: workloads_in_region_def)
  moreover note assms(2) [unfolded drain_fabric_region_def]
  ultimately have all: "n = length ?wids \<and> dkeys (fb_active f') = dkeys (fb_active f) \<and> fb_completed f' = fb_completed f \<and> fb_failed f' = fb_failed f
    \<and> (\<forall>i. located f' i = (if i \<in> set ?wids then Some target else located f i))" by (rule migrate_each_spec)
  show "n = length ?wids" "dkeys (fb_active f') = dkeys (fb_active f)" "fb_completed f' = fb_completed f" "fb_failed f' = fb_failed f"
    using all by simp_all
  show "located f' i = (if i \<in> set ?wids then Some target else located f i)" using all by blast
qed

text \<open>
  C0. Draining a region moves exactly the workloads that run in it to the target: none is left there
  (unless the target is the region itself), none is lost or ended, the others stay where they are and
  the answer is the number that was moved.
\<close>

theorem drain_moves_all:
  assumes "dwf (fb_active f)" and "drain_fabric_region now rid target f = (f', n)"
  shows "n = length (workloads_in_region rid f) \<and> dkeys (fb_active f') = dkeys (fb_active f)
    \<and> fb_completed f' = fb_completed f \<and> fb_failed f' = fb_failed f
    \<and> (rid \<noteq> target \<longrightarrow> workloads_in_region rid f' = [])
    \<and> (\<forall>i. located f' i = (if located f i = Some rid then Some target else located f i))"
proof -
  let ?wids = "workloads_in_region rid f"
  have mem: "i \<in> set (workloads_in_region rid g) \<longleftrightarrow> located g i = Some rid" if "dwf (fb_active g)" for i g
    using that by (auto simp: workloads_in_region_def located_def dwf_dget_iff intro: rev_image_eqI)
  note spec = drain_spec(1-4) [OF assms] and get = drain_spec(5) [OF assms]
  have at: "located f' i = (if located f i = Some rid then Some target else located f i)" for i
    using get [of i] mem [OF assms(1), of i] by simp
  have wf: "dwf (fb_active f')" using assms(1) spec(2) by (simp add: dwf_def)
  have "workloads_in_region rid f' = []" if "rid \<noteq> target"
  proof -
    have "i \<notin> set (workloads_in_region rid f')" for i using mem [OF wf, of i] at [of i] that by simp
    then show ?thesis by (metis last_in_set)
  qed
  with spec at show ?thesis by blast
qed

definition demo_request :: "string \<Rightarrow> placement_request" where
  "demo_request i = \<lparr>wr_id = i, wr_require_gpu = False, wr_gpu_type = [], wr_min_vram_gb = 0, wr_preferred_region = ''r2'',
     wr_max_latency_ms = 0, wr_cost_weight = 3 / 10, wr_performance_weight = 1 / 2, wr_efficiency_weight = 1 / 5,
     wr_power_weight = 0, wr_thermal_weight = 0, wr_historical_weight = 0, wr_predicted_weight = 0\<rparr>"

definition fabric_regions :: region_db where
  "fabric_regions = fold (register_region 1) [demo_region ''r1'' RActive (1 / 2) 0, demo_region ''r2'' RActive (1 / 5) 0,
     demo_region ''r3'' ROffline 0 0] empty_region_db"

lemma fabric_regions_ok: "regions_ok fabric_regions"
  by (auto simp: regions_ok_def fabric_regions_def register_region_def demo_region_def Let_def empty_region_db_def keyed_def dwf_def)

lemma placement_best_witness:
  "snd (place_request (\<lambda>_. 0) (demo_request ''w'') fabric_regions (new_placement_engine [])) \<noteq> None
    \<and> pe_total_placed (fst (place_request (\<lambda>_. 0) (demo_request ''w'') fabric_regions (new_placement_engine []))) = 1"
proof -
  obtain e d where run: "place_request (\<lambda>_. 0) (demo_request ''w'') fabric_regions (new_placement_engine []) = (e, d)" by fastforce
  have "snd (place_request (\<lambda>_. 0) (demo_request ''w'') fabric_regions (new_placement_engine [])) \<noteq> None" by code_simp
  with placement_best [OF fabric_regions_ok run] run show ?thesis
    by (auto simp: new_placement_engine_def)
qed

definition one_region :: region_db where
  "one_region = register_region 1 (demo_region ''r2'' RActive (1 / 5) 0) empty_region_db"

definition demo_fabric :: fabric where
  "demo_fabric = fold (\<lambda>i f. fst (submit_workload (\<lambda>_. 0) (demo_request i) one_region f)) [''a'', ''b''] new_fabric"

lemma drain_moves_all_witness:
  "workloads_in_region ''r2'' demo_fabric = [''a'', ''b'']
    \<and> snd (drain_fabric_region (\<lambda>_. 1) ''r2'' ''r1'' demo_fabric) = 2
    \<and> workloads_in_region ''r2'' (fst (drain_fabric_region (\<lambda>_. 1) ''r2'' ''r1'' demo_fabric)) = []"
proof -
  obtain f n where run: "drain_fabric_region (\<lambda>_. 1) ''r2'' ''r1'' demo_fabric = (f, n)" by fastforce
  have "dwf (fb_active demo_fabric)" and "workloads_in_region ''r2'' demo_fabric = [''a'', ''b'']" by code_simp+
  with drain_moves_all [OF _ run] run show ?thesis by simp
qed

text \<open>A drained region can be its own target: every workload is counted as moved and none has moved.\<close>

lemma drain_into_itself:
  "snd (drain_fabric_region (\<lambda>_. 1) ''r2'' ''r2'' demo_fabric) = 2
    \<and> workloads_in_region ''r2'' (fst (drain_fabric_region (\<lambda>_. 1) ''r2'' ''r2'' demo_fabric)) = [''a'', ''b'']"
  by code_simp

text \<open>Nothing asks whether the target of a migration exists.\<close>

lemma migrates_to_unknown_region:
  "get_region ''nowhere'' one_region = None
    \<and> located (fst (migrate_workload 1 ''a'' ''nowhere'' demo_fabric)) ''a'' = Some ''nowhere''"
  by code_simp

subsection \<open>No workload is lost\<close>

datatype fabric_op =
    FbSubmit clock placement_request region_db
  | FbComplete string bool
  | FbMigrate pyfloat string string
  | FbDrain clock string string
  | FbIntelligence "(string, (string, rat) dict) dict"

fun fb_offered :: "fabric_op \<Rightarrow> string list" where
  "fb_offered (FbSubmit now q db) = [wr_id q]"
| "fb_offered _ = []"

fun fb_step :: "fabric_op \<Rightarrow> fabric \<Rightarrow> fabric \<times> string list \<times> string list" where
  "fb_step (FbSubmit now q db) f =
     (let (f', w) = submit_workload now q db f in (f', if w = None then [] else [wr_id q], []))"
| "fb_step (FbComplete wid success) f =
     (complete_workload wid success f, [], if dget (fb_active f) wid = None then [] else [wid])"
| "fb_step (FbMigrate t wid target) f = (fst (migrate_workload t wid target f), [], [])"
| "fb_step (FbDrain now rid target) f = (fst (drain_fabric_region now rid target f), [], [])"
| "fb_step (FbIntelligence ctx) f = (f\<lparr>fb_engine := set_intelligence ctx (fb_engine f)\<rparr>, [], [])"

definition fb_live :: "fabric \<Rightarrow> string multiset" where
  "fb_live f = mset (dkeys (fb_active f))"

definition fb_ok :: "fabric \<Rightarrow> bool" where
  "fb_ok f \<longleftrightarrow> dwf (fb_active f)"

lemma fb_same_keys: "dkeys (fb_active f') = dkeys (fb_active f) \<Longrightarrow> fb_ok f \<Longrightarrow> fb_ok f' \<and> fb_live f' = fb_live f"
  by (simp only: fb_ok_def fb_live_def dwf_def)

lemma migrate_keys: "dkeys (fb_active (fst (migrate_workload t wid target f))) = dkeys (fb_active f)"
  using migrate_known [of f wid _ t target] by (cases "dget (fb_active f) wid") (auto simp: migrate_workload_def)

lemma fb_step_conserves:
  assumes ok: "fb_ok f" and new: "\<forall>i. count (fb_live f) i + count (mset (fb_offered p)) i \<le> 1"
    and st: "fb_step p f = (f', acc, fin)"
  shows "fb_ok f' \<and> fb_live f' + mset fin = fb_live f + mset acc \<and> mset acc \<subseteq># mset (fb_offered p)"
proof (cases p)
  case (FbSubmit now q db)
  have "count (fb_live f) (wr_id q) = 0" using new [rule_format, of "wr_id q"] FbSubmit by simp
  then have "dget (fb_active f) (wr_id q) = None" by (simp add: fb_live_def count_eq_zero_iff dget_None_iff)
  then show ?thesis using st ok FbSubmit
    by (auto simp: fb_ok_def fb_live_def submit_workload_def Let_def mset_dkeys_dput split: prod.splits option.splits simp del: mset_map)
next
  case (FbComplete wid success)
  then show ?thesis using st ok mset_dkeys_ddel [of "fb_active f" wid]
    by (cases "dget (fb_active f) wid") (auto simp: fb_ok_def fb_live_def complete_workload_def simp del: mset_map)
next
  case (FbMigrate t wid target)
  then show ?thesis using st fb_same_keys [OF migrate_keys ok] by auto
next
  case (FbDrain now rid target)
  obtain f1 n where run: "drain_fabric_region now rid target f = (f1, n)" by fastforce
  have "dkeys (fb_active f1) = dkeys (fb_active f)" by (rule drain_spec(2) [OF _ run]) (use ok in \<open>simp add: fb_ok_def\<close>)
  from fb_same_keys [OF this ok] st FbDrain run show ?thesis by auto
next
  case (FbIntelligence ctx)
  then show ?thesis using st ok by (auto simp: fb_ok_def fb_live_def)
qed

interpretation fabric: conservation fb_ok fb_live fb_offered fb_step
  by unfold_locales (rule fb_step_conserves)

lemma fb_step_counts:
  assumes "fb_ok f" "fb_step p f = (f', acc, fin)"
  shows "fb_completed f' + fb_failed f' = fb_completed f + fb_failed f + length fin"
proof (cases p)
  case (FbDrain now rid target)
  obtain f1 n where run: "drain_fabric_region now rid target f = (f1, n)" by fastforce
  have "dwf (fb_active f)" using assms(1) by (simp add: fb_ok_def)
  from drain_spec(3,4) [OF this run] assms(2) FbDrain run show ?thesis by auto
next
  case (FbMigrate t wid target)
  then show ?thesis using assms(2) by (auto simp: migrate_workload_def Let_def split: option.splits)
qed (use assms(2) in \<open>auto simp: submit_workload_def complete_workload_def Let_def split: prod.splits option.splits if_splits\<close>)

lemma fb_ok_step: "fb_ok f \<Longrightarrow> fb_ok (fst (fb_step p f))"
proof (cases p)
  case (FbDrain now rid target)
  obtain f1 n where run: "drain_fabric_region now rid target f = (f1, n)" by fastforce
  show "fb_ok f \<Longrightarrow> ?thesis" using drain_spec(2) [OF _ run] FbDrain run by (simp add: fb_ok_def dwf_def)
qed (auto simp: fb_ok_def submit_workload_def complete_workload_def migrate_workload_def Let_def split: prod.split option.split)

lemma fb_counts:
  "fb_ok f \<Longrightarrow> run_ops fb_step ps f = (f', acc, fin) \<Longrightarrow> fb_completed f' + fb_failed f' = fb_completed f + fb_failed f + length fin"
proof (induction ps arbitrary: f acc fin)
  case (Cons p ps)
  obtain f1 a e where one: "fb_step p f = (f1, a, e)" by (metis prod_cases3)
  obtain a' e' where rest: "run_ops fb_step ps f1 = (f', a', e')" and fin: "fin = e @ e'"
    using Cons.prems(2) one by (auto split: prod.splits)
  have "fb_ok f1" using fb_ok_step [OF Cons.prems(1), of p] one by simp
  from Cons.IH [OF this rest] fb_step_counts [OF Cons.prems(1) one] fin show ?case by simp
qed simp

text \<open>
  C0. When no id is submitted twice, every workload that the fabric accepts is running or ended, exactly
  once, over every sequence of submissions, completions, migrations and drains, and the two counters
  add up to the number that ended.
\<close>

theorem workloads_conserved:
  assumes "distinct (concat (map fb_offered ops))"
  shows "case run_ops fb_step ops new_fabric of (f, accepted, ended) \<Rightarrow>
    mset (dkeys (fb_active f)) + mset ended = mset accepted \<and> distinct (dkeys (fb_active f) @ ended)
    \<and> fb_completed f + fb_failed f = length ended"
proof -
  obtain f acc fin where run: "run_ops fb_step ops new_fabric = (f, acc, fin)" by (metis prod_cases3)
  have new: "fb_ok new_fabric" "fb_live new_fabric = {#}" by (simp_all add: fb_ok_def fb_live_def new_fabric_def)
  from fabric.run_from_empty [OF new assms run]
  have eq: "mset (dkeys (fb_active f) @ fin) = mset acc" and d: "distinct acc" by (simp_all add: fb_live_def)
  have "distinct (dkeys (fb_active f) @ fin)" using d mset_eq_imp_distinct_iff [OF eq] by blast
  with eq fb_counts [OF new(1) run] show ?thesis unfolding run prod.case by (simp add: new_fabric_def)
qed

definition demo_fabric_ops :: "fabric_op list" where
  "demo_fabric_ops = [FbSubmit (\<lambda>_. 0) (demo_request ''a'') one_region, FbSubmit (\<lambda>_. 1) (demo_request ''b'') one_region,
     FbDrain (\<lambda>_. 2) ''r2'' ''r1'', FbComplete ''a'' True, FbSubmit (\<lambda>_. 3) (demo_request ''c'') empty_region_db]"

lemma workloads_conserved_witness:
  "case run_ops fb_step demo_fabric_ops new_fabric of (f, accepted, ended) \<Rightarrow>
    accepted = [''a'', ''b''] \<and> ended = [''a''] \<and> mset (dkeys (fb_active f)) + mset ended = mset accepted
    \<and> fb_completed f + fb_failed f = length ended"
proof -
  obtain f acc fin where run: "run_ops fb_step demo_fabric_ops new_fabric = (f, acc, fin)" by (metis prod_cases3)
  have d: "distinct (concat (map fb_offered demo_fabric_ops))"
    and "snd (run_ops fb_step demo_fabric_ops new_fabric) = ([''a'', ''b''], [''a''])" by code_simp+
  with workloads_conserved [OF d] show ?thesis by (simp add: run)
qed

text \<open>A second submission of a running id replaces the first workload, which never ends.\<close>

lemma resubmission_replaces_workload:
  "snd (run_ops fb_step [FbSubmit (\<lambda>_. 0) (demo_request ''a'') one_region, FbSubmit (\<lambda>_. 1) (demo_request ''a'') one_region,
     FbComplete ''a'' True, FbComplete ''a'' True] new_fabric) = ([''a'', ''a''], [''a''])"
  by code_simp

end
