(* ===== verification/Anomalies.thy ===== *)
theory Anomalies
  imports Telemetry
begin

text \<open>
  \<open>intelligence/anomaly_detector.py\<close>: thresholds and statistical deviation over the reports of regions and
  nodes. An anomaly is an object of a journal, since \<open>resolve\<close> changes it later; descriptions and remediation
  texts are left out. \<open>abs(value - mean) > factor * sqrt(variance)\<close> is decided on the squares. The thresholds
  that divide a score are configured and not zero.
\<close>

section \<open>State\<close>

datatype anomaly_type =
    LatencySpike | NodeInstability | SuspiciousTraffic | MemoryLeak | RunawayWorkload | GpuDegradation
  | ReplicationAnomaly | ThroughputDrop

datatype severity = SvLow | SvMedium | SvHigh | SvCritical

record anomaly =
  an_id :: string
  an_type :: anomaly_type
  an_severity :: severity
  an_score :: rat
  an_region :: string
  an_node :: string
  an_metric :: string
  an_value :: rat
  an_threshold :: rat
  an_detected_at :: pyfloat
  an_resolved :: bool
  an_resolved_at :: pyfloat

record anomaly_detector =
  ad_latency_threshold :: rat
  ad_gpu_temp_threshold :: rat
  ad_memory_threshold :: rat
  ad_lag_threshold :: rat
  ad_traffic_factor :: rat
  ad_max_history :: nat
  ad_anomalies :: "anomaly journal"
  ad_metrics :: metric_history
  ad_total_detected :: nat
  ad_total_resolved :: nat
  ad_events :: "(string \<times> string \<times> (anomaly_type \<times> severity \<times> string) option \<times> pyfloat) list"

definition new_detector :: "rat \<Rightarrow> rat \<Rightarrow> rat \<Rightarrow> rat \<Rightarrow> rat \<Rightarrow> nat \<Rightarrow> anomaly_detector" where
  "new_detector latency temp memory lag factor mh =
     \<lparr>ad_latency_threshold = latency, ad_gpu_temp_threshold = temp, ad_memory_threshold = memory, ad_lag_threshold = lag,
      ad_traffic_factor = factor, ad_max_history = mh, ad_anomalies = new_journal, ad_metrics = [], ad_total_detected = 0,
      ad_total_resolved = 0, ad_events = []\<rparr>"

section \<open>Statistics\<close>

definition record_metric :: "string \<Rightarrow> rat \<Rightarrow> metric_history \<Rightarrow> metric_history" where
  "record_metric = record_sample 200"

definition mean :: "rat list \<Rightarrow> rat" where
  "mean vs = sum_list vs / of_nat (length vs)"

definition variance :: "rat list \<Rightarrow> rat" where
  "variance vs = sum_list (map (\<lambda>v. (v - mean vs)\<^sup>2) vs) / of_nat (length vs)"

definition is_anomalous :: "metric_history \<Rightarrow> string \<Rightarrow> rat \<Rightarrow> rat \<Rightarrow> bool" where
  "is_anomalous m key v factor =
     (let vs = samples m key
      in length vs \<ge> 5 \<and> variance vs \<noteq> 0 \<and> (factor < 0 \<or> (v - mean vs)\<^sup>2 > factor\<^sup>2 * variance vs))"

section \<open>Detection\<close>

definition region_anomaly ::
    "string \<Rightarrow> anomaly_type \<Rightarrow> severity \<Rightarrow> rat \<Rightarrow> string \<Rightarrow> rat \<Rightarrow> rat \<Rightarrow> pyfloat \<Rightarrow> string \<Rightarrow> anomaly" where
  "region_anomaly prefix ty sv score metric v threshold t rid =
     \<lparr>an_id = stamped_id prefix rid t, an_type = ty, an_severity = sv, an_score = score, an_region = rid, an_node = [],
      an_metric = metric, an_value = v, an_threshold = threshold, an_detected_at = t, an_resolved = False, an_resolved_at = 0\<rparr>"

definition node_anomaly ::
    "string \<Rightarrow> anomaly_type \<Rightarrow> rat \<Rightarrow> string \<Rightarrow> rat \<Rightarrow> rat \<Rightarrow> pyfloat \<Rightarrow> string \<Rightarrow> anomaly" where
  "node_anomaly prefix ty score metric v threshold t nid =
     \<lparr>an_id = stamped_id prefix nid t, an_type = ty, an_severity = SvHigh, an_score = score, an_region = [], an_node = nid,
      an_metric = metric, an_value = v, an_threshold = threshold, an_detected_at = t, an_resolved = False, an_resolved_at = 0\<rparr>"

definition detect_region :: "anomaly_detector \<Rightarrow> pyfloat \<Rightarrow> tele \<Rightarrow> metric_history \<Rightarrow> metric_history \<times> anomaly list" where
  "detect_region a t r m =
     (let rid = region_of r;
          latency = num r ''avg_latency_ms'' 0;
          lkey = ''latency:'' @ rid;
          m1 = record_metric lkey latency m;
          l1 = (if latency > ad_latency_threshold a \<or> is_anomalous m1 lkey latency (5 / 2)
                then [region_anomaly ''latency-'' LatencySpike
                        (if latency > ad_latency_threshold a * 2 then SvCritical else SvHigh)
                        (min (latency / ad_latency_threshold a) 2) ''avg_latency_ms'' latency (ad_latency_threshold a) t rid]
                else []);
          temp = num r ''gpu_temp_c'' 0;
          l2 = (if temp > ad_gpu_temp_threshold a
                then [region_anomaly ''gpu-temp-'' GpuDegradation (if temp > 95 then SvCritical else SvHigh)
                        (min (temp / 100) (3 / 2)) ''gpu_temp_c'' temp (ad_gpu_temp_threshold a) t rid]
                else []);
          growth = num r ''memory_growth_rate'' 0;
          l3 = (if growth > ad_memory_threshold a
                then [region_anomaly ''memleak-'' MemoryLeak SvHigh (min (growth / ad_memory_threshold a) 2)
                        ''memory_growth_rate'' growth (ad_memory_threshold a) t rid]
                else []);
          rps = num r ''requests_per_second'' 0;
          rkey = ''rps:'' @ rid;
          m2 = record_metric rkey rps m1;
          l4 = (if is_anomalous m2 rkey rps (ad_traffic_factor a)
                then [region_anomaly ''traffic-'' SuspiciousTraffic SvMedium (min (rps / 1000) (3 / 2))
                        ''requests_per_second'' rps 0 t rid]
                else []);
          lag = num r ''replication_lag_s'' 0;
          l5 = (if lag > ad_lag_threshold a
                then [region_anomaly ''repl-lag-'' ReplicationAnomaly SvHigh (min (lag / ad_lag_threshold a) 2)
                        ''replication_lag_s'' lag (ad_lag_threshold a) t rid]
                else [])
      in (m2, l1 @ l2 @ l3 @ l4 @ l5))"

fun detect_regions :: "anomaly_detector \<Rightarrow> pyfloat \<Rightarrow> tele list \<Rightarrow> metric_history \<Rightarrow> metric_history \<times> anomaly list" where
  "detect_regions a t [] m = (m, [])"
| "detect_regions a t (r # rs) m =
     (let (m1, l1) = detect_region a t r m; (m2, l2) = detect_regions a t rs m1 in (m2, l1 @ l2))"

definition detect_node :: "pyfloat \<Rightarrow> tele \<Rightarrow> anomaly list" where
  "detect_node t n =
     (let nid = text_of n ''node_id'' ''unknown'';
          restarts = num n ''restart_count_1h'' 0;
          cpu = num n ''cpu_usage'' 0
      in (if restarts > 3
          then [node_anomaly ''unstable-'' NodeInstability (min (restarts / 5) 2) ''restart_count_1h'' restarts 3 t nid] else [])
       @ (if cpu > 95 / 100
          then [node_anomaly ''runaway-'' RunawayWorkload cpu ''cpu_usage'' cpu (95 / 100) t nid] else []))"

definition detected_event :: "anomaly \<Rightarrow> string \<times> string \<times> (anomaly_type \<times> severity \<times> string) option \<times> pyfloat" where
  "detected_event x = (''anomaly_detected'', an_id x, Some (an_type x, an_severity x, an_region x), an_detected_at x)"

definition detect :: "pyfloat \<Rightarrow> tele list \<Rightarrow> tele list \<Rightarrow> anomaly_detector \<Rightarrow> anomaly_detector \<times> anomaly list" where
  "detect t regions nodes a =
     (let (m, l) = detect_regions a t regions (ad_metrics a);
          found = l @ concat (map (detect_node t) nodes)
      in (a\<lparr>ad_metrics := m, ad_anomalies := fst (jo_extend (ad_max_history a) found (ad_anomalies a)),
            ad_total_detected := ad_total_detected a + length found,
            ad_events := py_cap (ad_max_history a) (ad_events a @ map detected_event found)\<rparr>, found))"

definition resolve :: "pyfloat \<Rightarrow> string \<Rightarrow> anomaly_detector \<Rightarrow> anomaly_detector \<times> bool" where
  "resolve t aid a =
     (let j = ad_anomalies a in
      case List.find (\<lambda>i. an_id (jo_get j i) = aid \<and> \<not> an_resolved (jo_get j i)) (jo_refs j) of
        None \<Rightarrow> (a, False)
      | Some i \<Rightarrow>
          (a\<lparr>ad_anomalies := jo_change i (\<lambda>x. x\<lparr>an_resolved := True, an_resolved_at := t\<rparr>) j,
             ad_total_resolved := ad_total_resolved a + 1,
             ad_events := ad_events a @ [(''anomaly_resolved'', aid, None, t)]\<rparr>, True))"

definition active_anomalies :: "anomaly_detector \<Rightarrow> anomaly list" where
  "active_anomalies a = filter (\<lambda>x. \<not> an_resolved x) (jo_history (ad_anomalies a))"

section \<open>How far a sample can lie from the mean of its own series\<close>

lemma sum_squared_le: "(sum_list ds)\<^sup>2 \<le> of_nat (length ds) * sum_list (map (\<lambda>d. d\<^sup>2) (ds :: rat list))"
proof (induction ds)
  case (Cons a ds)
  let ?S = "sum_list ds" and ?Q = "sum_list (map (\<lambda>d. d\<^sup>2) ds)" and ?k = "of_nat (length ds) :: rat"
  have "2 * a * ?S \<le> ?k * a\<^sup>2 + ?Q"
  proof (cases "ds = []")
    case False
    then have k: "?k > 0" by simp
    have "0 \<le> (?k * a - ?S)\<^sup>2" by simp
    then have "?k * (2 * a * ?S) \<le> ?k\<^sup>2 * a\<^sup>2 + ?S\<^sup>2" by (simp add: power2_diff power_mult_distrib algebra_simps)
    also have "\<dots> \<le> ?k * (?k * a\<^sup>2 + ?Q)" using Cons.IH by (simp add: power2_eq_square algebra_simps)
    finally show ?thesis using k by simp
  qed simp
  with Cons.IH show ?case by (simp add: power2_sum algebra_simps)
qed simp

lemma sum_deviation: "vs \<noteq> [] \<Longrightarrow> sum_list (map (\<lambda>v. v - mean vs) vs) = 0"
proof -
  have "sum_list (map (\<lambda>v. v - c) vs) = sum_list vs - of_nat (length vs) * c" for c :: rat and vs
    by (induction vs) (simp_all add: algebra_simps)
  then show "vs \<noteq> [] \<Longrightarrow> ?thesis" by (simp add: mean_def)
qed

text \<open>Samuelson's inequality: the square of a deviation is at most \<open>n - 1\<close> times the variance.\<close>

lemma deviation_bound:
  assumes "vs = ws @ [v]"
  shows "(v - mean vs)\<^sup>2 \<le> (of_nat (length vs) - 1) * variance vs"
proof -
  let ?d = "\<lambda>x. x - mean vs"
  let ?k = "of_nat (length ws) :: rat" and ?Q = "sum_list (map (\<lambda>x. (?d x)\<^sup>2) ws)"
  have "sum_list (map ?d ws) = - ?d v" using sum_deviation [of vs] assms by simp
  then have "(?d v)\<^sup>2 = (sum_list (map ?d ws))\<^sup>2" by (simp add: power2_commute)
  also have "\<dots> \<le> ?k * ?Q" using sum_squared_le [of "map ?d ws"] by (simp add: comp_def)
  finally have le: "(?d v)\<^sup>2 * (?k + 1) \<le> ?k * (?Q + (?d v)\<^sup>2)" by (simp add: algebra_simps)
  have pos: "1 + ?k > 0" by (simp add: add_pos_nonneg)
  then have "variance vs * (?k + 1) = ?Q + (?d v)\<^sup>2" using assms by (simp add: variance_def add.commute [of ?k])
  with le have "(?d v)\<^sup>2 * (?k + 1) \<le> (?k * variance vs) * (?k + 1)" by (simp only: mult.assoc)
  then have "(?d v)\<^sup>2 \<le> ?k * variance vs" by (rule mult_right_le_imp_le) (use pos in \<open>simp add: add.commute\<close>)
  then show ?thesis using assms by simp
qed

lemma samples_record: "samples (record_metric key v m) k = (if k = key then py_cap 200 (samples m key @ [v]) else samples m k)"
  by (simp add: record_metric_def samples_record_sample)

lemma py_cap_snoc: "0 < n \<Longrightarrow> \<exists>ys. py_cap n (xs @ [x]) = ys @ [x]"
  by (auto simp: py_cap_def py_last_def intro: exI [of _ xs])

lemma anomalous_length:
  assumes "is_anomalous m key v factor" "samples m key = ws @ [v]" "0 \<le> factor"
  shows "factor\<^sup>2 < of_nat (length (samples m key)) - 1"
proof -
  let ?vs = "samples m key"
  have out: "variance ?vs \<noteq> 0" "factor\<^sup>2 * variance ?vs < (v - mean ?vs)\<^sup>2"
    using assms(1,3) by (auto simp: is_anomalous_def Let_def)
  have "0 \<le> variance ?vs" by (auto simp: variance_def intro!: divide_nonneg_nonneg sum_list_nonneg)
  then have pos: "0 < variance ?vs" using out(1) by simp
  have "factor\<^sup>2 * variance ?vs < (of_nat (length ?vs) - 1) * variance ?vs"
    using out(2) deviation_bound [OF assms(2)] by simp
  with pos show ?thesis by (simp add: mult_less_cancel_right)
qed

lemma recorded_anomalous:
  assumes "is_anomalous (record_metric key v m) key v factor" "0 \<le> factor" "of_int k \<le> factor\<^sup>2 + 2"
  shows "k \<le> int (length (samples (record_metric key v m) key))"
proof -
  obtain ws where "samples (record_metric key v m) key = ws @ [v]"
    using py_cap_snoc [of 200 "samples m key" v] by (auto simp: samples_record)
  from anomalous_length [OF assms(1) this assms(2)] assms(3)
  have "(of_int k :: rat) < of_int (int (length (samples (record_metric key v m) key)) + 1)" by simp
  then show ?thesis by (simp only: of_int_less_iff)
qed

lemma detect_region_latency:
  assumes "x \<in> set (snd (detect_region a t r m))" "an_type x = LatencySpike"
  shows "an_value x = num r ''avg_latency_ms'' 0 \<and> (an_value x > ad_latency_threshold a
    \<or> is_anomalous (record_metric (''latency:'' @ region_of r) (an_value x) m) (''latency:'' @ region_of r) (an_value x) (5 / 2))"
  using assms by (auto simp: detect_region_def Let_def region_anomaly_def split: if_splits)

lemma detect_region_traffic:
  assumes "x \<in> set (snd (detect_region a t r m))" "an_type x = SuspiciousTraffic"
  shows "is_anomalous (record_metric (''rps:'' @ region_of r) (an_value x) (record_metric (''latency:'' @ region_of r) (num r ''avg_latency_ms'' 0) m))
      (''rps:'' @ region_of r) (an_value x) (ad_traffic_factor a) \<and> an_value x = num r ''requests_per_second'' 0"
  using assms by (auto simp: detect_region_def Let_def region_anomaly_def split: if_splits)

lemma detect_region_metrics:
  "fst (detect_region a t r m) = record_metric (''rps:'' @ region_of r) (num r ''requests_per_second'' 0)
     (record_metric (''latency:'' @ region_of r) (num r ''avg_latency_ms'' 0) m)"
  by (simp add: detect_region_def Let_def)

text \<open>
  C0. A sample is compared with a series that already contains it, and no member of a series of \<open>n\<close> lies
  more than \<open>sqrt (n - 1)\<close> deviations from its mean. So a latency under the threshold is reported only
  once the region has 8 samples, and traffic with a factor of 3 or more only from 11 samples on, not from
  the 5 that the guard asks for.
\<close>

theorem deviation_needs_history:
  assumes "detect_region a t r m = (m', found)" and "x \<in> set found" and "3 \<le> ad_traffic_factor a"
  shows "(an_type x = LatencySpike \<longrightarrow> an_value x \<le> ad_latency_threshold a \<longrightarrow>
      8 \<le> int (length (samples m' (''latency:'' @ region_of r))))
    \<and> (an_type x = SuspiciousTraffic \<longrightarrow> 11 \<le> int (length (samples m' (''rps:'' @ region_of r))))"
proof (intro conjI impI)
  have found: "x \<in> set (snd (detect_region a t r m))" and m': "m' = fst (detect_region a t r m)"
    using assms(1,2) by simp_all
  show "8 \<le> int (length (samples m' (''latency:'' @ region_of r)))"
    if "an_type x = LatencySpike" "an_value x \<le> ad_latency_threshold a"
  proof -
    from detect_region_latency [OF found that(1)] that(2)
    have "an_value x = num r ''avg_latency_ms'' 0"
      and "is_anomalous (record_metric (''latency:'' @ region_of r) (an_value x) m) (''latency:'' @ region_of r) (an_value x) (5 / 2)"
      by auto
    then show ?thesis using recorded_anomalous [of "''latency:'' @ region_of r" "an_value x" m "5 / 2" 8]
      unfolding m' detect_region_metrics by (simp add: samples_record power2_eq_square)
  qed
  show "11 \<le> int (length (samples m' (''rps:'' @ region_of r)))" if "an_type x = SuspiciousTraffic"
  proof -
    have "3\<^sup>2 \<le> (ad_traffic_factor a)\<^sup>2" using assms(3) by (intro power_mono) simp_all
    then have "of_int 11 \<le> (ad_traffic_factor a)\<^sup>2 + 2" by simp
    with recorded_anomalous [OF conjunct1 [OF detect_region_traffic [OF found that]], of 11] assms(3)
      conjunct2 [OF detect_region_traffic [OF found that]]
    show ?thesis unfolding m' detect_region_metrics by simp
  qed
qed

definition demo_detector :: anomaly_detector where
  "demo_detector = new_detector 500 85 (15 / 100) 30 3 1000"

definition report :: "string \<Rightarrow> (string \<times> rat) list \<Rightarrow> tele" where
  "report rid ns = \<lparr>te_text = [(''region_id'', rid)], te_num = ns, te_workloads = []\<rparr>"

definition calm_metrics :: metric_history where
  "calm_metrics = fold (\<lambda>_. record_metric ''latency:eu'' 100) [0..<7] []"

lemma deviation_needs_history_witness:
  "\<exists>x. x \<in> set (snd (detect_region demo_detector 9 (report ''eu'' [(''avg_latency_ms'', 400)]) calm_metrics))
    \<and> an_type x = LatencySpike \<and> an_value x = 400
    \<and> 8 \<le> int (length (samples (fst (detect_region demo_detector 9 (report ''eu'' [(''avg_latency_ms'', 400)]) calm_metrics)) ''latency:eu''))"
proof -
  let ?r = "report ''eu'' [(''avg_latency_ms'', 400)]"
  obtain m found where run: "detect_region demo_detector 9 ?r calm_metrics = (m, found)" by fastforce
  have "map (\<lambda>x. (an_type x, an_value x)) (snd (detect_region demo_detector 9 ?r calm_metrics)) = [(LatencySpike, 400)]"
    by code_simp
  then obtain x where x: "x \<in> set found" "an_type x = LatencySpike" "an_value x = 400" unfolding run by auto
  have "3 \<le> ad_traffic_factor demo_detector" and "ad_latency_threshold demo_detector = 500" and "region_of ?r = ''eu''"
    by code_simp+
  with deviation_needs_history [OF run x(1)] x run show ?thesis by auto
qed

section \<open>What is detected is accounted for\<close>

datatype anomaly_op =
    AnDetect pyfloat "tele list" "tele list"
  | AnResolve pyfloat string

fun an_step :: "anomaly_op \<Rightarrow> anomaly_detector \<Rightarrow> anomaly_detector \<times> string list" where
  "an_step (AnDetect t regions nodes) a = (let (a', found) = detect t regions nodes a in (a', map an_id found))"
| "an_step (AnResolve t aid) a = (fst (resolve t aid a), [])"

definition an_ok :: "anomaly_detector \<Rightarrow> bool" where
  "an_ok a \<longleftrightarrow> 0 < ad_max_history a \<and> length (jo_refs (ad_anomalies a)) \<le> ad_max_history a
     \<and> jo_ok (ad_anomalies a) \<and> ad_total_detected a = length (jo_objs (ad_anomalies a))
     \<and> ad_total_resolved a = length (filter an_resolved (jo_objs (ad_anomalies a)))"

definition an_log :: "anomaly_detector \<Rightarrow> string list" where
  "an_log a = map an_id (jo_history (ad_anomalies a))"

lemma detected_unresolved: "x \<in> set (snd (detect_regions a t rs m)) \<Longrightarrow> \<not> an_resolved x"
proof (induction rs arbitrary: m)
  case (Cons r rs)
  have "\<not> an_resolved y" if "y \<in> set (snd (detect_region a t r m))" for y
    using that by (auto simp: detect_region_def Let_def region_anomaly_def split: if_splits)
  with Cons show ?case by (auto simp: split_beta)
qed simp

lemma detect_unresolved: "x \<in> set (snd (detect t regions nodes a)) \<Longrightarrow> \<not> an_resolved x"
  using detected_unresolved [of x a t regions "ad_metrics a"]
  by (auto simp: detect_def split_beta Let_def detect_node_def node_anomaly_def split: if_splits)

lemma detect_ok:
  assumes "an_ok a" "detect t regions nodes a = (a', found)"
  shows "an_ok a' \<and> ad_max_history a' = ad_max_history a \<and> an_log a' = py_cap (ad_max_history a) (an_log a @ map an_id found)
    \<and> ad_total_detected a' = ad_total_detected a + length found"
proof -
  have j: "ad_anomalies a' = fst (jo_extend (ad_max_history a) found (ad_anomalies a))"
    and f: "ad_max_history a' = ad_max_history a" "ad_total_detected a' = ad_total_detected a + length found"
      "ad_total_resolved a' = ad_total_resolved a"
    using assms(2) by (auto simp: detect_def Let_def split: prod.splits)
  have ok: "jo_ok (ad_anomalies a)" using assms(1) by (simp add: an_ok_def)
  have objs: "jo_objs (ad_anomalies a') = jo_objs (ad_anomalies a) @ found" by (simp add: j jo_extend_def Let_def)
  have "filter an_resolved found = []" using detect_unresolved [of _ t regions nodes a] assms(2) by (simp add: filter_empty_conv)
  then have "an_ok a'" using assms(1) jo_ok_extend [OF ok, of "ad_max_history a" found]
      jo_refs_bound [of "ad_max_history a" found "ad_anomalies a"] by (simp add: an_ok_def f objs) (simp add: j)
  moreover have "an_log a' = py_cap (ad_max_history a) (an_log a @ map an_id found)"
    by (simp add: an_log_def j jo_history_extend [OF ok] py_cap_map [symmetric])
  ultimately show ?thesis using f by simp
qed

lemma resolve_ok:
  assumes "an_ok a" "resolve t aid a = (a', done)"
  shows "an_ok a' \<and> ad_max_history a' = ad_max_history a \<and> an_log a' = an_log a \<and> ad_total_detected a' = ad_total_detected a
    \<and> ad_total_resolved a' = ad_total_resolved a + (if done then 1 else 0)"
proof (cases "List.find (\<lambda>i. an_id (jo_get (ad_anomalies a) i) = aid \<and> \<not> an_resolved (jo_get (ad_anomalies a) i)) (jo_refs (ad_anomalies a))")
  case None
  with assms show ?thesis by (auto simp: resolve_def Let_def)
next
  case (Some i)
  let ?j = "ad_anomalies a" and ?f = "\<lambda>x. x\<lparr>an_resolved := True, an_resolved_at := t\<rparr>"
  have i: "i \<in> set (jo_refs ?j)" "\<not> an_resolved (jo_get ?j i)" using Some by (auto simp: find_Some_iff)
  then have lt: "i < length (jo_objs ?j)" using assms(1) by (auto simp: an_ok_def jo_ok_def)
  have a': "ad_anomalies a' = jo_change i ?f ?j" "done" "ad_total_resolved a' = ad_total_resolved a + 1"
    "ad_total_detected a' = ad_total_detected a" "ad_max_history a' = ad_max_history a"
    using assms(2) Some by (auto simp: resolve_def Let_def)
  have "length (filter an_resolved (jo_objs (jo_change i ?f ?j))) = Suc (length (filter an_resolved (jo_objs ?j)))"
    using count_on_obj [OF lt, of an_resolved ?f] i(2) by (simp add: jo_change_def jo_get_def)
  then have "an_ok a'" using assms(1) by (simp add: an_ok_def a')
  moreover have "an_log a' = an_log a"
    by (auto simp: an_log_def jo_history_def a' jo_get_change [OF lt])
  ultimately show ?thesis using a' by simp
qed

interpretation anomalies: history an_ok an_log ad_max_history ad_total_detected an_step
proof
  fix a p a' es assume ok: "an_ok a" and st: "an_step p a = (a', es)"
  have pos: "0 < ad_max_history a" using ok by (simp add: an_ok_def)
  show "an_ok a' \<and> ad_max_history a' = ad_max_history a \<and> an_log a' = py_cap (ad_max_history a) (an_log a @ es)
      \<and> ad_total_detected a' = ad_total_detected a + length es"
  proof (cases p)
    case (AnDetect t regions nodes)
    then show ?thesis using st detect_ok [OF ok] by (auto split: prod.splits)
  next
    case (AnResolve t aid)
    obtain b d where run: "resolve t aid a = (b, d)" by fastforce
    have "length (an_log a) \<le> ad_max_history a" using ok by (simp add: an_ok_def an_log_def jo_history_def)
    then show ?thesis using st AnResolve run resolve_ok [OF ok run] by (simp add: py_cap_small)
  qed
qed (simp add: an_ok_def)

text \<open>
  C0. Over every sequence of detections and resolutions the history is the end of all that was ever
  detected, at most \<open>max_history\<close> anomalies; the one counter is the number of detected anomalies, the other
  the number of those that are resolved, each of which was resolved once.
\<close>

theorem anomalies_accounted:
  assumes "0 < mh"
  shows "case run_outputs an_step ops (new_detector latency temp memory lag factor mh) of (a, ids) \<Rightarrow>
    map an_id (jo_history (ad_anomalies a)) = py_cap mh ids \<and> length (jo_history (ad_anomalies a)) \<le> mh
    \<and> ad_total_detected a = length ids
    \<and> ad_total_resolved a = length (filter an_resolved (jo_objs (ad_anomalies a))) \<and> ad_total_resolved a \<le> ad_total_detected a"
proof -
  let ?new = "new_detector latency temp memory lag factor mh"
  obtain a ids where run: "run_outputs an_step ops ?new = (a, ids)" by fastforce
  have new: "an_ok ?new" "an_log ?new = []" "ad_max_history ?new = mh" "ad_total_detected ?new = 0"
    using assms by (simp_all add: an_ok_def an_log_def new_detector_def jo_history_def new_journal_def jo_ok_def)
  have small: "length (an_log ?new) \<le> ad_max_history ?new" by (simp add: new)
  from anomalies.history_complete [OF new(1) small run]
  have a: "an_ok a" "an_log a = py_cap mh ids" "ad_total_detected a = length ids" by (simp_all add: new)
  have "length (an_log a) \<le> mh" unfolding a(2) by (rule length_py_cap [OF assms])
  then have "length (jo_history (ad_anomalies a)) \<le> mh" unfolding an_log_def by simp
  with a show ?thesis unfolding run prod.case by (simp add: an_ok_def an_log_def)
qed

lemma anomalies_accounted_witness:
  "case run_outputs an_step [AnDetect 7 [report ''eu'' [(''avg_latency_ms'', 900)]] [], AnResolve 8 ''latency-eu-7''] (new_detector 500 85 (15 / 100) 30 3 10)
     of (a, ids) \<Rightarrow> ids = [''latency-eu-7''] \<and> map an_id (jo_history (ad_anomalies a)) = py_cap 10 ids \<and> ad_total_resolved a \<le> ad_total_detected a"
proof -
  let ?ops = "[AnDetect 7 [report ''eu'' [(''avg_latency_ms'', 900)]] [], AnResolve 8 ''latency-eu-7'']"
  let ?new = "new_detector 500 85 (15 / 100) 30 3 10"
  obtain a ids where run: "run_outputs an_step ?ops ?new = (a, ids)" by fastforce
  have "snd (run_outputs an_step ?ops ?new) = [''latency-eu-7'']" by code_simp
  with run anomalies_accounted [of 10 ?ops 500 85 "15 / 100" 30 3] show ?thesis by simp
qed

text \<open>The id of an anomaly has the resolution of a second: two detections in it share their ids.\<close>

lemma same_second_same_id:
  "snd (run_outputs an_step [AnDetect 7 [report ''eu'' [(''avg_latency_ms'', 900)]] [], AnDetect (15 / 2) [report ''eu'' [(''avg_latency_ms'', 901)]] []]
     demo_detector) = [''latency-eu-7'', ''latency-eu-7'']"
  by code_simp

text \<open>No detection reports a throughput drop or a low severity.\<close>

lemma never_reported:
  assumes "x \<in> set (snd (detect_region a t r m)) \<or> x \<in> set (detect_node t r)"
  shows "an_type x \<noteq> ThroughputDrop" "an_severity x \<noteq> SvLow"
  using assms by (auto simp: detect_region_def detect_node_def Let_def region_anomaly_def node_anomaly_def split: if_splits)

end
