(* ===== verification/Policies.thy ===== *)
theory Policies
  imports Telemetry
begin

text \<open>
  Policies that adapt to the reports of the regions (\<open>coordination/adaptive_policies.py\<close>) and the zones that
  group regions (\<open>planetary/infrastructure_zones.py\<close>). A policy is a shared object; its table holds it under
  its id and every operation works on that entry. Reasons are texts for people and are left out, and so are
  the free fields of a policy that nothing reads (\<open>weights\<close>, \<open>conditions\<close>, \<open>metadata\<close>).
\<close>

section \<open>Policies\<close>

datatype policy_type = PtScaling | PtRouting | PtFailover | PtEnergy | PtCarbon | PtThermal | PtCost | PtSecurity

datatype policy_mode = PmConservative | PmBalanced | PmAggressive | PmEmergency

record policy =
  po_type :: policy_type
  po_mode :: policy_mode
  po_enabled :: bool
  po_thresholds :: "(string, rat) dict"
  po_actions :: "string list"
  po_triggers :: nat
  po_last_triggered :: pyfloat
  po_last_adapted :: pyfloat
  po_created_at :: pyfloat

record evaluation =
  ev_policy :: string
  ev_before :: policy_mode
  ev_after :: policy_mode
  ev_action :: string
  ev_affected :: "string list"
  ev_ts :: pyfloat

record policy_manager =
  pm_max_history :: nat
  pm_policies :: "(string, policy) dict"
  pm_evaluations :: "evaluation list"
  pm_total_evaluations :: nat
  pm_total_adaptations :: nat

definition plain_policy :: "policy_type \<Rightarrow> (string, rat) dict \<Rightarrow> string list \<Rightarrow> policy" where
  "plain_policy ty thresholds actions =
     \<lparr>po_type = ty, po_mode = PmBalanced, po_enabled = True, po_thresholds = thresholds, po_actions = actions,
      po_triggers = 0, po_last_triggered = 0, po_last_adapted = 0, po_created_at = 0\<rparr>"

definition default_policies :: "(string, policy) dict" where
  "default_policies =
     [(''scaling-auto'', plain_policy PtScaling [(''scale_up'', 8 / 10), (''scale_down'', 3 / 10), (''cooldown_s'', 60)]
         [''scale_up'', ''scale_down'', ''rebalance'']),
      (''routing-latency'', plain_policy PtRouting [(''max_latency_ms'', 200), (''reroute_threshold_ms'', 400), (''failover_threshold_ms'', 800)]
         [''reroute'', ''failover'', ''degrade'']),
      (''failover-auto'', plain_policy PtFailover [(''health_threshold'', 1 / 2), (''region_offline_pct'', 1 / 2), (''recovery_timeout_s'', 120)]
         [''isolate'', ''reroute'', ''recover'']),
      (''energy-green'', plain_policy PtEnergy [(''max_carbon_intensity'', 6 / 10), (''min_renewable_pct'', 3 / 10), (''cost_ceiling'', 100)]
         [''shift_to_green'', ''throttle_brown'', ''schedule_off_peak'']),
      (''thermal-safety'', plain_policy PtThermal [(''warning_temp_c'', 75), (''critical_temp_c'', 85), (''throttle_pressure'', 8 / 10)]
         [''throttle'', ''migrate'', ''shutdown'']),
      (''cost-optimize'', plain_policy PtCost [(''max_cost_per_hour'', 150), (''spot_threshold'', 1 / 2), (''idle_timeout_s'', 300)]
         [''use_spot'', ''consolidate'', ''terminate_idle''])]"

definition new_policy_manager :: "clock \<Rightarrow> nat \<Rightarrow> policy_manager" where
  "new_policy_manager now mh =
     \<lparr>pm_max_history = mh,
      pm_policies = map (\<lambda>(i, k, p). (k, p\<lparr>po_created_at := now i\<rparr>)) (enumerate 0 default_policies),
      pm_evaluations = [], pm_total_evaluations = 0, pm_total_adaptations = 0\<rparr>"

definition register_policy :: "pyfloat \<Rightarrow> string \<Rightarrow> policy \<Rightarrow> policy_manager \<Rightarrow> policy_manager" where
  "register_policy t pid p m = m\<lparr>pm_policies := dput pid (p\<lparr>po_created_at := t\<rparr>) (pm_policies m)\<rparr>"

definition remove_policy :: "string \<Rightarrow> policy_manager \<Rightarrow> policy_manager \<times> bool" where
  "remove_policy pid m = (m\<lparr>pm_policies := ddel pid (pm_policies m)\<rparr>, dget (pm_policies m) pid \<noteq> None)"

text \<open>What a policy does about the reports: its new mode, the action and the regions it names.\<close>

definition reaction :: "policy \<Rightarrow> tele list \<Rightarrow> (policy_mode \<times> string \<times> string list) option" where
  "reaction p rs =
     (let th = dict_num (po_thresholds p); mode = po_mode p in
      case po_type p of
        PtScaling \<Rightarrow>
          let sat = average (\<lambda>r. num r ''workload_saturation'' 0) rs; up = th ''scale_up'' (8 / 10); down = th ''scale_down'' (3 / 10)
          in if sat > up then Some (if sat > 95 / 100 then PmEmergency else PmAggressive, ''scale_up'', [])
             else if sat < down then Some (PmConservative, ''scale_down'', []) else None
      | PtRouting \<Rightarrow>
          if average (\<lambda>r. num r ''avg_latency_ms'' 0) rs > th ''max_latency_ms'' 200 then Some (mode, ''reroute'', []) else None
      | PtFailover \<Rightarrow>
          if of_nat (length (filter (\<lambda>r. dget (te_text r) ''status'' = Some ''offline'') rs)) / of_nat (length rs)
             > th ''region_offline_pct'' (1 / 2)
          then Some (PmEmergency, ''failover'', []) else None
      | PtEnergy \<Rightarrow>
          if average (\<lambda>r. num r ''carbon_intensity'' (1 / 2)) rs > th ''max_carbon_intensity'' (6 / 10)
          then Some (mode, ''shift_to_green'', []) else None
      | PtThermal \<Rightarrow>
          let hot = filter (\<lambda>r. num r ''thermal_pressure'' 0 > th ''throttle_pressure'' (8 / 10)) rs
          in if hot \<noteq> [] then Some (mode, ''throttle'', map (\<lambda>r. text_of r ''region_id'' []) hot) else None
      | PtCost \<Rightarrow>
          if average (\<lambda>r. num r ''cost_per_hour'' 0) rs > th ''max_cost_per_hour'' 150 then Some (mode, ''consolidate'', []) else None
      | PtCarbon \<Rightarrow> None
      | PtSecurity \<Rightarrow> None)"

definition evaluate_policy :: "clock \<Rightarrow> tele list \<Rightarrow> string \<Rightarrow> policy \<Rightarrow> (policy \<times> evaluation) option" where
  "evaluate_policy now rs pid p =
     (if rs = [] then None
      else case reaction p rs of
        None \<Rightarrow> None
      | Some (mode, action, affected) \<Rightarrow>
          Some (p\<lparr>po_mode := mode, po_triggers := po_triggers p + 1, po_last_triggered := now 0,
                  po_last_adapted := (if mode \<noteq> po_mode p then now 1 else po_last_adapted p)\<rparr>,
                \<lparr>ev_policy = pid, ev_before = po_mode p, ev_after = mode, ev_action = action, ev_affected = affected, ev_ts = now 2\<rparr>))"

text \<open>The loop over the policies that were there at the start; each has a clock of its own.\<close>

fun evaluate_each :: "(nat \<Rightarrow> clock) \<Rightarrow> nat \<Rightarrow> tele list \<Rightarrow> string list \<Rightarrow> policy_manager \<Rightarrow> policy_manager \<times> evaluation list" where
  "evaluate_each now k rs [] m = (m, [])"
| "evaluate_each now k rs (pid # pids) m =
     (case dget (pm_policies m) pid of
        None \<Rightarrow> evaluate_each now (k + 1) rs pids m
      | Some p \<Rightarrow>
          if \<not> po_enabled p then evaluate_each now (k + 1) rs pids m
          else case evaluate_policy (now k) rs pid p of
                 None \<Rightarrow> evaluate_each now (k + 1) rs pids m
               | Some (p', e) \<Rightarrow>
                   let (m', es) = evaluate_each now (k + 1) rs pids
                         (m\<lparr>pm_policies := dput pid p' (pm_policies m),
                            pm_total_adaptations := pm_total_adaptations m + (if po_mode p' \<noteq> po_mode p then 1 else 0)\<rparr>)
                   in (m', e # es))"

definition evaluate_all :: "(nat \<Rightarrow> clock) \<Rightarrow> tele list \<Rightarrow> policy_manager \<Rightarrow> policy_manager \<times> evaluation list" where
  "evaluate_all now rs m =
     (let (m1, es) = evaluate_each now 0 rs (dkeys (pm_policies m)) m
      in (m1\<lparr>pm_evaluations := py_cap (pm_max_history m) (pm_evaluations m1 @ es),
             pm_total_evaluations := pm_total_evaluations m1 + length es\<rparr>, es))"

section \<open>Zones\<close>

datatype zone_type = ZtPrimary | ZtSecondary | ZtEdge | ZtRecovery

datatype zone_status = ZsActive | ZsDegraded | ZsDraining | ZsIsolated | ZsOffline

record zone =
  zn_type :: zone_type
  zn_continent :: string
  zn_regions :: "string list"
  zn_status :: zone_status
  zn_utilization :: rat
  zn_gpu_count :: rat
  zn_active_workloads :: rat
  zn_failover_target :: string
  zn_created_at :: pyfloat
  zn_updated_at :: pyfloat

record zone_manager =
  zm_zones :: "(string, zone) dict"
  zm_events :: "(string \<times> string \<times> (zone_status \<times> zone_status) option \<times> pyfloat) list"
  zm_max_history :: nat

definition new_zone_manager :: "nat \<Rightarrow> zone_manager" where
  "new_zone_manager mh = \<lparr>zm_zones = [], zm_events = [], zm_max_history = mh\<rparr>"

definition register_zone :: "clock \<Rightarrow> string \<Rightarrow> zone \<Rightarrow> zone_manager \<Rightarrow> zone_manager" where
  "register_zone now zid z m =
     m\<lparr>zm_zones := dput zid (z\<lparr>zn_created_at := now 0, zn_updated_at := now 1\<rparr>) (zm_zones m),
       zm_events := zm_events m @ [(''zone_registered'', zid, None, now 2)]\<rparr>"

definition remove_zone :: "string \<Rightarrow> zone_manager \<Rightarrow> zone_manager \<times> bool" where
  "remove_zone zid m =
     (if dget (zm_zones m) zid = None then (m, False) else (m\<lparr>zm_zones := ddel zid (zm_zones m)\<rparr>, True))"

definition update_zone_status :: "clock \<Rightarrow> string \<Rightarrow> zone_status \<Rightarrow> zone_manager \<Rightarrow> zone_manager \<times> bool" where
  "update_zone_status now zid st m =
     (case dget (zm_zones m) zid of
        None \<Rightarrow> (m, False)
      | Some z \<Rightarrow>
          (m\<lparr>zm_zones := dput zid (z\<lparr>zn_status := st, zn_updated_at := now 0\<rparr>) (zm_zones m),
             zm_events := py_cap (zm_max_history m)
               (zm_events m @ [(''zone_status_change'', zid, Some (zn_status z, st), now 1)])\<rparr>, True))"

definition region_map :: "tele list \<Rightarrow> (string, tele) dict" where
  "region_map rs = fold (\<lambda>r. dput (text_of r ''region_id'' []) r) rs []"

definition zone_reports :: "(string, tele) dict \<Rightarrow> zone \<Rightarrow> tele list" where
  "zone_reports rm z = List.map_filter (\<lambda>rid. dget rm rid) (zn_regions z)"

definition is_offline :: "tele \<Rightarrow> bool" where
  "is_offline r \<longleftrightarrow> dget (te_text r) ''status'' = Some ''offline''"

text \<open>The status after the counts: a zone is set offline or degraded, and left as it is otherwise.\<close>

definition zone_status_after :: "nat \<Rightarrow> nat \<Rightarrow> zone_status \<Rightarrow> zone_status" where
  "zone_status_after active offline st =
     (if offline > 0 \<and> active = 0 then ZsOffline else if offline > active then ZsDegraded else st)"

definition update_zone :: "pyfloat \<Rightarrow> (string, tele) dict \<Rightarrow> zone \<Rightarrow> zone" where
  "update_zone t rm z =
     (let rs = zone_reports rm z; total = (\<lambda>k. sum_list (map (\<lambda>r. num r k 0) rs));
          offline = length (filter is_offline rs); active = length (filter (\<lambda>r. \<not> is_offline r) rs); n = active + offline
      in z\<lparr>zn_gpu_count := total ''total_gpus'', zn_active_workloads := total ''active_workloads'',
           zn_utilization := (if n > 0 then py_round (total ''workload_saturation'' / of_nat n) 3 else 0),
           zn_status := zone_status_after active offline (zn_status z), zn_updated_at := t\<rparr>)"

definition zones_from_telemetry :: "(string \<Rightarrow> pyfloat) \<Rightarrow> tele list \<Rightarrow> zone_manager \<Rightarrow> zone_manager" where
  "zones_from_telemetry now rs m = m\<lparr>zm_zones := dmap (\<lambda>zid. update_zone (now zid) (region_map rs)) (zm_zones m)\<rparr>"

definition zones_by_continent :: "string \<Rightarrow> zone_manager \<Rightarrow> string list" where
  "zones_by_continent c m = dkeys (filter (\<lambda>p. zn_continent (snd p) = c) (zm_zones m))"

definition active_zones :: "zone_manager \<Rightarrow> string list" where
  "active_zones m = dkeys (filter (\<lambda>p. zn_status (snd p) = ZsActive) (zm_zones m))"

definition zone_failover_targets :: "string \<Rightarrow> zone_manager \<Rightarrow> string list" where
  "zone_failover_targets zid m =
     (case dget (zm_zones m) zid of
        None \<Rightarrow> []
      | Some z \<Rightarrow>
          let same = dkeys (filter (\<lambda>p. fst p \<noteq> zid \<and> zn_continent (snd p) = zn_continent z \<and> zn_status (snd p) = ZsActive) (zm_zones m))
          in if zn_failover_target z = [] then same
             else case dget (zm_zones m) (zn_failover_target z) of
                    None \<Rightarrow> same
                  | Some target \<Rightarrow> if zn_status target = ZsActive \<or> zn_status target = ZsDegraded then [zn_failover_target z] else same)"

section \<open>Evaluations are accounted for\<close>

definition adapted :: "evaluation list \<Rightarrow> nat" where
  "adapted es = length (filter (\<lambda>e. ev_before e \<noteq> ev_after e) es)"

lemma evaluate_policy_modes:
  "evaluate_policy now rs pid p = Some (p', e) \<Longrightarrow> ev_before e = po_mode p \<and> ev_after e = po_mode p' \<and> ev_policy e = pid
    \<and> po_triggers p' = po_triggers p + 1 \<and> po_enabled p' = po_enabled p \<and> po_type p' = po_type p"
  by (auto simp: evaluate_policy_def split: if_splits option.splits)

lemma evaluate_each_frame:
  "evaluate_each now k rs pids m = (m', es) \<Longrightarrow> pm_max_history m' = pm_max_history m \<and> pm_evaluations m' = pm_evaluations m
    \<and> pm_total_evaluations m' = pm_total_evaluations m \<and> pm_total_adaptations m' = pm_total_adaptations m + adapted es"
proof (induction now k rs pids m arbitrary: m' es rule: evaluate_each.induct)
  case (1 now k rs m)
  then show ?case by (simp add: adapted_def)
next
  case (2 now k rs pid pids m)
  show ?case
  proof (cases "dget (pm_policies m) pid")
    case None
    from "2.IH"(1) [OF None, of m' es] "2.prems" None show ?thesis by simp
  next
    case (Some p)
    show ?thesis
    proof (cases "po_enabled p \<and> evaluate_policy (now k) rs pid p \<noteq> None")
      case False
      show ?thesis
      proof (cases "po_enabled p")
        case True
        then have none: "evaluate_policy (now k) rs pid p = None" using False by blast
        from "2.IH"(3) [OF Some _ none, of m' es] "2.prems" Some none True show ?thesis by simp
      next
        case off: False
        from "2.IH"(2) [OF Some off, of m' es] "2.prems" Some off show ?thesis by simp
      qed
    next
      case True
      then obtain p' e where e: "evaluate_policy (now k) rs pid p = Some (p', e)" by auto
      let ?m = "m\<lparr>pm_policies := dput pid p' (pm_policies m),
                  pm_total_adaptations := pm_total_adaptations m + (if po_mode p' \<noteq> po_mode p then 1 else 0)\<rparr>"
      obtain es' where rest: "evaluate_each now (k + 1) rs pids ?m = (m', es')" and es: "es = e # es'"
        using "2.prems" Some True e by (auto split: prod.splits)
      from "2.IH"(4) [OF Some _ e refl rest] True evaluate_policy_modes [OF e] show ?thesis by (simp add: es adapted_def)
    qed
  qed
qed

lemma evaluate_all_spec:
  assumes "evaluate_all now rs m = (m', es)"
  shows "pm_max_history m' = pm_max_history m \<and> pm_evaluations m' = py_cap (pm_max_history m) (pm_evaluations m @ es)
    \<and> pm_total_evaluations m' = pm_total_evaluations m + length es \<and> pm_total_adaptations m' = pm_total_adaptations m + adapted es"
  using assms evaluate_each_frame [of now 0 rs "dkeys (pm_policies m)" m]
  by (auto simp: evaluate_all_def split: prod.splits)

datatype policy_op =
    PoRegister pyfloat string policy
  | PoRemove string
  | PoEvaluate "nat \<Rightarrow> clock" "tele list"

fun policy_step :: "policy_op \<Rightarrow> policy_manager \<Rightarrow> policy_manager \<times> evaluation list" where
  "policy_step (PoRegister t pid p) m = (register_policy t pid p m, [])"
| "policy_step (PoRemove pid) m = (fst (remove_policy pid m), [])"
| "policy_step (PoEvaluate now rs) m = evaluate_all now rs m"

definition pm_ok :: "policy_manager \<Rightarrow> bool" where
  "pm_ok m \<longleftrightarrow> 0 < pm_max_history m \<and> length (pm_evaluations m) \<le> pm_max_history m"

interpretation policies: history pm_ok pm_evaluations pm_max_history pm_total_evaluations policy_step
proof
  fix m p m' es assume ok: "pm_ok m" and st: "policy_step p m = (m', es)"
  show "pm_ok m' \<and> pm_max_history m' = pm_max_history m \<and> pm_evaluations m' = py_cap (pm_max_history m) (pm_evaluations m @ es)
      \<and> pm_total_evaluations m' = pm_total_evaluations m + length es"
  proof (cases p)
    case (PoEvaluate now rs)
    with st have "evaluate_all now rs m = (m', es)" by simp
    from evaluate_all_spec [OF this] ok length_py_cap [of "pm_max_history m"] show ?thesis by (simp add: pm_ok_def)
  qed (use ok st in \<open>auto simp: pm_ok_def register_policy_def remove_policy_def py_cap_small\<close>)
qed (simp add: pm_ok_def)

lemma adaptations_run:
  "run_outputs policy_step ops m = (m', es) \<Longrightarrow> pm_total_adaptations m' = pm_total_adaptations m + adapted es"
proof (induction ops arbitrary: m es)
  case Nil
  then show ?case by (simp add: adapted_def)
next
  case (Cons p ops)
  obtain m1 es1 where one: "policy_step p m = (m1, es1)" by fastforce
  obtain es2 where rest: "run_outputs policy_step ops m1 = (m', es2)" and es: "es = es1 @ es2"
    using Cons.prems one by (auto split: prod.splits)
  have "pm_total_adaptations m1 = pm_total_adaptations m + adapted es1"
    using one evaluate_all_spec by (cases p) (auto simp: register_policy_def remove_policy_def adapted_def)
  with Cons.IH [OF rest] show ?case by (simp add: es adapted_def)
qed

text \<open>
  C0. Whatever policies are registered and removed in between: the recent evaluations are the end of all
  that were ever made, their number is counted, and the adaptations are those that changed a mode.
\<close>

theorem policies_accounted:
  assumes "0 < mh" and "run_outputs policy_step ops (new_policy_manager now mh) = (m, es)"
  shows "pm_evaluations m = py_cap mh es \<and> length (pm_evaluations m) \<le> mh \<and> pm_total_evaluations m = length es
    \<and> pm_total_adaptations m = adapted es"
proof -
  let ?new = "new_policy_manager now mh"
  have new: "pm_ok ?new" "pm_evaluations ?new = []" "pm_max_history ?new = mh" "pm_total_evaluations ?new = 0" "pm_total_adaptations ?new = 0"
    using assms(1) by (simp_all add: pm_ok_def new_policy_manager_def)
  have "length (pm_evaluations ?new) \<le> pm_max_history ?new" by (simp add: new)
  from policies.history_complete [OF new(1) this assms(2)] policies.history_bounded [OF new(1) this assms(2)] adaptations_run [OF assms(2)]
  show ?thesis by (simp add: new)
qed

definition hot_report :: tele where
  "hot_report = \<lparr>te_text = [(''region_id'', ''eu''), (''status'', ''offline'')], te_num = [(''workload_saturation'', 97 / 100), (''thermal_pressure'', 9 / 10)], te_workloads = []\<rparr>"

lemma policies_accounted_witness:
  "\<exists>m es. run_outputs policy_step [PoEvaluate (\<lambda>_ _. 1) [hot_report], PoRemove ''thermal-safety'', PoEvaluate (\<lambda>_ _. 2) [hot_report]]
       (new_policy_manager (\<lambda>_. 0) 4) = (m, es)
    \<and> length es = 5 \<and> length (pm_evaluations m) \<le> 4 \<and> pm_total_adaptations m = 2 \<and> pm_total_evaluations m = length es"
proof -
  let ?ops = "[PoEvaluate (\<lambda>_ _. 1) [hot_report], PoRemove ''thermal-safety'', PoEvaluate (\<lambda>_ _. 2) [hot_report]]"
  obtain m es where run: "run_outputs policy_step ?ops (new_policy_manager (\<lambda>_. 0) 4) = (m, es)" by fastforce
  have "map (\<lambda>e. (ev_policy e, ev_before e, ev_after e)) (snd (run_outputs policy_step ?ops (new_policy_manager (\<lambda>_. 0) 4)))
    = [(''scaling-auto'', PmBalanced, PmEmergency), (''failover-auto'', PmBalanced, PmEmergency), (''thermal-safety'', PmBalanced, PmBalanced),
       (''scaling-auto'', PmEmergency, PmEmergency), (''failover-auto'', PmEmergency, PmEmergency)]"
    by code_simp
  then have "map (\<lambda>e. (ev_policy e, ev_before e, ev_after e)) es
    = [(''scaling-auto'', PmBalanced, PmEmergency), (''failover-auto'', PmBalanced, PmEmergency), (''thermal-safety'', PmBalanced, PmBalanced),
       (''scaling-auto'', PmEmergency, PmEmergency), (''failover-auto'', PmEmergency, PmEmergency)]" using run by simp
  then have "length es = 5" and "adapted es = 2" by (auto simp: adapted_def map_eq_Cons_conv)
  moreover have "length (pm_evaluations m) \<le> 4" "pm_total_evaluations m = length es" "pm_total_adaptations m = adapted es"
    using policies_accounted [OF zero_less_numeral run] by blast+
  ultimately show ?thesis using run by metis
qed

section \<open>Modes\<close>

text \<open>No reaction leads back to the balanced mode, and a failover policy that is in an emergency stays in it.\<close>

lemma reaction_mode: "reaction p rs = Some (mode, a, l) \<Longrightarrow> mode = po_mode p \<or> mode \<noteq> PmBalanced"
  by (cases "po_type p") (simp_all add: reaction_def Let_def split: if_splits)

lemma never_balanced_again:
  "evaluate_policy now rs pid p = Some (p', e) \<Longrightarrow> po_mode p \<noteq> PmBalanced \<Longrightarrow> po_mode p' \<noteq> PmBalanced"
  using reaction_mode [of p rs] by (auto simp: evaluate_policy_def split: if_splits option.splits)

lemma failover_emergency_stays:
  "evaluate_policy now rs pid p = Some (p', e) \<Longrightarrow> po_type p = PtFailover \<Longrightarrow> po_mode p' = PmEmergency"
  by (auto simp: evaluate_policy_def reaction_def Let_def split: if_splits option.splits)

text \<open>Policies for carbon and security never react.\<close>

lemma never_reacts: "po_type p = PtCarbon \<or> po_type p = PtSecurity \<Longrightarrow> evaluate_policy now rs pid p = None"
  by (auto simp: evaluate_policy_def reaction_def)

section \<open>Zones that serve and zones that take over\<close>

text \<open>
  C0. What takes over for a zone is a known zone that is active or degraded; unless it was configured as the
  target it is an active zone of the same continent and not the zone itself, and every such zone is named
  when no configured target can be used.
\<close>

theorem zone_failover_sound:
  assumes "dwf (zm_zones m)" and "dget (zm_zones m) zid = Some z" and "b \<in> set (zone_failover_targets zid m)"
  shows "\<exists>t. dget (zm_zones m) b = Some t \<and> (zn_status t = ZsActive \<or> zn_status t = ZsDegraded)
    \<and> (b = zn_failover_target z \<and> zone_failover_targets zid m = [b]
       \<or> b \<noteq> zid \<and> zn_continent t = zn_continent z \<and> zn_status t = ZsActive
         \<and> (\<forall>c u. dget (zm_zones m) c = Some u \<and> c \<noteq> zid \<and> zn_continent u = zn_continent z \<and> zn_status u = ZsActive
              \<longrightarrow> c \<in> set (zone_failover_targets zid m)))"
proof -
  let ?same = "dkeys (filter (\<lambda>p. fst p \<noteq> zid \<and> zn_continent (snd p) = zn_continent z \<and> zn_status (snd p) = ZsActive) (zm_zones m))"
  have same: "c \<in> set ?same \<longleftrightarrow> (\<exists>u. dget (zm_zones m) c = Some u \<and> c \<noteq> zid \<and> zn_continent u = zn_continent z \<and> zn_status u = ZsActive)" for c
    using dwf_dget_iff [OF assms(1)] by (force intro: rev_image_eqI)
  consider (set) t where "zn_failover_target z \<noteq> []" "dget (zm_zones m) (zn_failover_target z) = Some t"
      "zn_status t = ZsActive \<or> zn_status t = ZsDegraded" "zone_failover_targets zid m = [zn_failover_target z]"
    | (same) "zone_failover_targets zid m = ?same"
  proof (cases "zn_failover_target z = []")
    case True
    with assms(2) show ?thesis by (intro same) (simp add: zone_failover_targets_def)
  next
    case ne: False
    show ?thesis
    proof (cases "dget (zm_zones m) (zn_failover_target z)")
      case None
      with assms(2) ne show ?thesis by (intro same) (simp add: zone_failover_targets_def)
    next
      case (Some t)
      show ?thesis
      proof (cases "zn_status t = ZsActive \<or> zn_status t = ZsDegraded")
        case True
        with assms(2) ne Some show ?thesis by (intro set) (simp_all add: zone_failover_targets_def)
      next
        case False
        with assms(2) ne Some show ?thesis by (intro same) (simp add: zone_failover_targets_def)
      qed
    qed
  qed
  then show ?thesis
  proof cases
    case set
    with assms(3) show ?thesis by auto
  next
    case same': same
    show ?thesis using assms(3) same unfolding same' by blast
  qed
qed

definition plain_zone :: "string \<Rightarrow> string list \<Rightarrow> string \<Rightarrow> zone" where
  "plain_zone c rs target = \<lparr>zn_type = ZtPrimary, zn_continent = c, zn_regions = rs, zn_status = ZsActive, zn_utilization = 0,
     zn_gpu_count = 0, zn_active_workloads = 0, zn_failover_target = target, zn_created_at = 0, zn_updated_at = 0\<rparr>"

definition demo_zones :: zone_manager where
  "demo_zones = fold (\<lambda>(zid, z). register_zone (\<lambda>_. 0) zid z)
     [(''z1'', plain_zone ''europe'' [''eu''] []), (''z2'', plain_zone ''europe'' [''fr''] []), (''z3'', plain_zone ''asia'' [''ap''] ''z3'')] (new_zone_manager 10)"

lemma zone_failover_sound_witness:
  "zone_failover_targets ''z1'' demo_zones = [''z2'']
    \<and> (\<exists>t. dget (zm_zones demo_zones) ''z2'' = Some t \<and> (zn_status t = ZsActive \<or> zn_status t = ZsDegraded))"
proof -
  have wf: "dwf (zm_zones demo_zones)" and t: "zone_failover_targets ''z1'' demo_zones = [''z2'']" by code_simp+
  have "dget (zm_zones demo_zones) ''z1'' = Some (plain_zone ''europe'' [''eu''] [])" by code_simp
  from zone_failover_sound [OF wf this, of "''z2''"] t show ?thesis by auto
qed

text \<open>A zone that was configured as its own target is named as its own replacement.\<close>

lemma zone_takes_over_itself: "zone_failover_targets ''z3'' demo_zones = [''z3'']"
  by code_simp

text \<open>The reports only ever make a zone worse: one that is not active never becomes active again.\<close>

lemma zone_never_recovers:
  assumes "dget (zm_zones m) zid = Some z" "zn_status z \<noteq> ZsActive"
  shows "\<exists>z'. dget (zm_zones (fold (\<lambda>(now, rs). zones_from_telemetry now rs) reports m)) zid = Some z' \<and> zn_status z' \<noteq> ZsActive"
  using assms
proof (induction reports arbitrary: m z)
  case (Cons q reports)
  obtain now rs where q: "q = (now, rs)" by (cases q)
  let ?z = "update_zone (now zid) (region_map rs) z"
  have "dget (zm_zones (zones_from_telemetry now rs m)) zid = Some ?z" using Cons.prems(1) by (simp add: zones_from_telemetry_def)
  moreover have "zn_status ?z \<noteq> ZsActive" using Cons.prems(2) by (simp add: update_zone_def Let_def zone_status_after_def)
  ultimately show ?case using Cons.IH by (simp add: q)
qed simp

end
