(* ===== verification/Migrations.thy ===== *)
theory Migrations
  imports Telemetry
begin

text \<open>
  What adapts the placement of work to the reports: migrations between regions
  (\<open>adaptation/dynamic_routing.py\<close>) and scaling of resources (\<open>adaptation/adaptive_scaling.py\<close>). Planned
  migrations and scale actions are objects of a journal: executing one changes the entry in the history.
\<close>

section \<open>Migrations\<close>

datatype migration_reason =
    MrLatency | MrGpuSaturation | MrThermal | MrBandwidth | MrEnergy | MrCost | MrPredictive

datatype migration_status = MsPlanned | MsDraining | MsMigrating | MsCompleted | MsFailed | MsCancelled

record migration =
  mi_id :: string
  mi_workload :: string
  mi_source :: string
  mi_target :: string
  mi_reason :: migration_reason
  mi_status :: migration_status
  mi_priority :: int
  mi_planned_at :: pyfloat
  mi_started_at :: pyfloat
  mi_completed_at :: pyfloat
  mi_time_ms :: rat

record routing_adapter =
  dr_latency_threshold :: rat
  dr_gpu_threshold :: rat
  dr_thermal_threshold :: rat
  dr_max_concurrent :: int
  dr_max_history :: nat
  dr_migrations :: "migration journal"
  dr_active :: "(string, nat) dict"
  dr_total_migrated :: nat
  dr_total_failed :: nat
  dr_events :: "(string \<times> pyfloat) list"

definition new_routing_adapter :: "rat \<Rightarrow> rat \<Rightarrow> rat \<Rightarrow> int \<Rightarrow> nat \<Rightarrow> routing_adapter" where
  "new_routing_adapter latency gpu thermal concurrent mh =
     \<lparr>dr_latency_threshold = latency, dr_gpu_threshold = gpu, dr_thermal_threshold = thermal, dr_max_concurrent = concurrent,
      dr_max_history = mh, dr_migrations = new_journal, dr_active = [], dr_total_migrated = 0, dr_total_failed = 0, dr_events = []\<rparr>"

text \<open>What a target is sorted by: the least comes first.\<close>

fun target_key :: "migration_reason \<Rightarrow> tele \<Rightarrow> rat" where
  "target_key MrLatency r = num r ''avg_latency_ms'' 9999"
| "target_key MrGpuSaturation r = num r ''gpu_utilization'' 1"
| "target_key MrThermal r = num r ''thermal_pressure'' 1"
| "target_key MrCost r = num r ''cost_per_hour'' 9999"
| "target_key MrEnergy r = - num r ''renewable_pct'' 0"
| "target_key _ r = num r ''workload_saturation'' 1"

definition migration_candidates :: "string \<Rightarrow> tele list \<Rightarrow> tele list" where
  "migration_candidates source rs =
     filter (\<lambda>r. dget (te_text r) ''region_id'' \<noteq> Some source \<and> text_of r ''status'' [] \<noteq> ''offline'') rs"

definition find_best_target :: "string \<Rightarrow> tele list \<Rightarrow> migration_reason \<Rightarrow> string" where
  "find_best_target source rs reason =
     (case sort_key (target_key reason) (migration_candidates source rs) of
        [] \<Rightarrow> [] | r # _ \<Rightarrow> text_of r ''region_id'' [])"

definition migration_reason_of :: "routing_adapter \<Rightarrow> tele \<Rightarrow> migration_reason option" where
  "migration_reason_of a r =
     (if num r ''avg_latency_ms'' 0 > dr_latency_threshold a then Some MrLatency
      else if num r ''gpu_utilization'' 0 > dr_gpu_threshold a then Some MrGpuSaturation
      else if num r ''thermal_pressure'' 0 > dr_thermal_threshold a then Some MrThermal
      else None)"

definition planned_migration :: "pyfloat \<Rightarrow> string \<Rightarrow> string \<Rightarrow> migration_reason \<Rightarrow> string option \<Rightarrow> migration" where
  "planned_migration t source target reason w =
     (let wid = (case w of Some i \<Rightarrow> i | None \<Rightarrow> stamped_id ''wl-'' source t)
      in \<lparr>mi_id = stamped_id ''mig-'' wid t, mi_workload = wid, mi_source = source, mi_target = target, mi_reason = reason,
          mi_status = MsPlanned, mi_priority = (if reason = MrThermal then 8 else 5), mi_planned_at = t, mi_started_at = 0,
          mi_completed_at = 0, mi_time_ms = 0\<rparr>)"

definition plan_region :: "routing_adapter \<Rightarrow> pyfloat \<Rightarrow> tele list \<Rightarrow> tele \<Rightarrow> migration list" where
  "plan_region a t rs r =
     (case migration_reason_of a r of
        None \<Rightarrow> []
      | Some reason \<Rightarrow>
          let target = find_best_target (region_of r) rs reason in
          if target = [] then []
          else map (planned_migration t (region_of r) target reason)
                 (take (max 1 (length (te_workloads r) div 4)) (te_workloads r)))"

definition plan_migrations :: "pyfloat \<Rightarrow> tele list \<Rightarrow> routing_adapter \<Rightarrow> routing_adapter \<times> nat list" where
  "plan_migrations t rs a =
     (let (j, refs) = jo_extend (dr_max_history a) (concat (map (plan_region a t rs) rs)) (dr_migrations a)
      in (a\<lparr>dr_migrations := j\<rparr>, refs))"

text \<open>
  The execution of one migration: admission and registration, the move, and the end, which takes the
  migration out of the active ones by its id.
\<close>

definition execute_migration :: "clock \<Rightarrow> nat \<Rightarrow> routing_adapter \<Rightarrow> routing_adapter" where
  "execute_migration now i a =
     (if int (length (dr_active a)) \<ge> dr_max_concurrent a then a
      else let mid = mi_id (jo_get (dr_migrations a) i);
               j1 = jo_change i (\<lambda>m. m\<lparr>mi_status := MsDraining, mi_started_at := now 0\<rparr>) (dr_migrations a);
               active = dput mid i (dr_active a);
               j2 = jo_change i (\<lambda>m. m\<lparr>mi_status := MsCompleted, mi_completed_at := now 1,
                      mi_time_ms := py_round ((now 1 - mi_started_at m) * 1000) 1\<rparr>) j1
           in a\<lparr>dr_migrations := j2, dr_active := ddel mid active, dr_total_migrated := dr_total_migrated a + 1,
                dr_events := py_cap (dr_max_history a) (dr_events a @ [(mid, now 1)])\<rparr>)"

fun execute_migrations :: "(nat \<Rightarrow> clock) \<Rightarrow> nat list \<Rightarrow> routing_adapter \<Rightarrow> routing_adapter" where
  "execute_migrations now [] a = a"
| "execute_migrations now (i # is) a = execute_migrations now is (execute_migration (now i) i a)"

definition migrate :: "pyfloat \<Rightarrow> (nat \<Rightarrow> clock) \<Rightarrow> tele list \<Rightarrow> routing_adapter \<Rightarrow> routing_adapter \<times> nat list" where
  "migrate t now rs a = (let (a1, refs) = plan_migrations t rs a in (execute_migrations now refs a1, refs))"

definition cancel_migration :: "string \<Rightarrow> routing_adapter \<Rightarrow> routing_adapter \<times> bool" where
  "cancel_migration mid a =
     (let j = dr_migrations a in
      case List.find (\<lambda>i. mi_id (jo_get j i) = mid \<and> mi_status (jo_get j i) = MsPlanned) (jo_refs j) of
        None \<Rightarrow> (a, False)
      | Some i \<Rightarrow> (a\<lparr>dr_migrations := jo_change i (\<lambda>m. m\<lparr>mi_status := MsCancelled\<rparr>) j\<rparr>, True))"

section \<open>Scaling\<close>

datatype scale_direction = SdUp | SdDown | SdNone

record scale_action =
  sa_id :: string
  sa_region :: string
  sa_resource :: string
  sa_direction :: scale_direction
  sa_current :: int
  sa_target :: int
  sa_delta :: int
  sa_confidence :: rat
  sa_executed :: bool
  sa_created_at :: pyfloat
  sa_executed_at :: pyfloat

record scaler =
  sc_up :: rat
  sc_down :: rat
  sc_cooldown :: rat
  sc_max_step :: int
  sc_max_history :: nat
  sc_actions :: "scale_action journal"
  sc_last_scale :: "(string, pyfloat) dict"
  sc_total_ups :: nat
  sc_total_downs :: nat
  sc_events :: "(string \<times> int \<times> pyfloat) list"

definition new_scaler :: "rat \<Rightarrow> rat \<Rightarrow> rat \<Rightarrow> int \<Rightarrow> nat \<Rightarrow> scaler" where
  "new_scaler up down cooldown step mh =
     \<lparr>sc_up = up, sc_down = down, sc_cooldown = cooldown, sc_max_step = step, sc_max_history = mh, sc_actions = new_journal,
      sc_last_scale = [], sc_total_ups = 0, sc_total_downs = 0, sc_events = []\<rparr>"

definition scale_key :: "string \<Rightarrow> string \<Rightarrow> string" where
  "scale_key resource rid = resource @ '':'' @ rid"

definition in_cooldown :: "pyfloat \<Rightarrow> string \<Rightarrow> scaler \<Rightarrow> bool" where
  "in_cooldown t key s = (t - (case dget (sc_last_scale s) key of Some l \<Rightarrow> l | None \<Rightarrow> 0) < sc_cooldown s)"

definition scaled_resources :: "(string \<times> string \<times> string) list" where
  "scaled_resources = [(''gpu'', ''gpu_utilization'', ''total_gpus''), (''workers'', ''cpu_utilization'', ''worker_count''),
     (''replicas'', ''workload_saturation'', ''replica_count'')]"

text \<open>The step up or down for a usage and a count, nothing in between.\<close>

definition scale_delta :: "scaler \<Rightarrow> rat \<Rightarrow> int \<Rightarrow> int" where
  "scale_delta s usage current =
     (if usage > sc_up s then min (sc_max_step s) (max 1 (py_trunc (of_int current * (usage - sc_up s))))
      else if usage < sc_down s \<and> current > 1
      then - min (min (sc_max_step s) (max 1 (py_trunc (of_int current * (sc_down s - usage) * (1 / 2))))) (current - 1)
      else 0)"

definition scale_decision :: "scaler \<Rightarrow> pyfloat \<Rightarrow> pyfloat \<Rightarrow> tele \<Rightarrow> string \<times> string \<times> string \<Rightarrow> scale_action list" where
  "scale_decision s t now r x =
     (let (resource, usage_key, count_key) = x; rid = region_of r; usage = num r usage_key 0; current = py_trunc (num r count_key 0);
          delta = scale_delta s usage current
      in if current = 0 \<and> resource \<noteq> ''gpu'' then []
         else if in_cooldown now (scale_key resource rid) s then []
         else if usage > sc_up s
         then [\<lparr>sa_id = stamped_id (''scale-up-'' @ resource @ ''-'') rid t, sa_region = rid, sa_resource = resource, sa_direction = SdUp,
                sa_current = current, sa_target = current + delta, sa_delta = delta, sa_confidence = min (95 / 100) usage,
                sa_executed = False, sa_created_at = t, sa_executed_at = 0\<rparr>]
         else if delta < 0
         then [\<lparr>sa_id = stamped_id (''scale-down-'' @ resource @ ''-'') rid t, sa_region = rid, sa_resource = resource, sa_direction = SdDown,
                sa_current = current, sa_target = current + delta, sa_delta = delta, sa_confidence = min (95 / 100) (1 - usage),
                sa_executed = False, sa_created_at = t, sa_executed_at = 0\<rparr>]
         else [])"

definition evaluate_scaling :: "pyfloat \<Rightarrow> (nat \<Rightarrow> pyfloat) \<Rightarrow> tele list \<Rightarrow> scaler \<Rightarrow> scaler \<times> nat list" where
  "evaluate_scaling t now rs s =
     (let checks = enumerate 0 [(r, x). r \<leftarrow> rs, x \<leftarrow> scaled_resources];
          (j, refs) = jo_extend (sc_max_history s) (concat (map (\<lambda>(k, r, x). scale_decision s t (now k) r x) checks)) (sc_actions s)
      in (s\<lparr>sc_actions := j\<rparr>, refs))"

definition execute_scale :: "pyfloat \<Rightarrow> nat \<Rightarrow> scaler \<Rightarrow> scaler" where
  "execute_scale t i s =
     (let x = jo_get (sc_actions s) i
      in s\<lparr>sc_actions := jo_change i (\<lambda>y. y\<lparr>sa_executed := True, sa_executed_at := t\<rparr>) (sc_actions s),
           sc_last_scale := dput (scale_key (sa_resource x) (sa_region x)) t (sc_last_scale s),
           sc_total_ups := (if sa_direction x = SdUp then sc_total_ups s + 1 else sc_total_ups s),
           sc_total_downs := (if sa_direction x = SdUp then sc_total_downs s else sc_total_downs s + 1),
           sc_events := py_cap (sc_max_history s) (sc_events s @ [(sa_id x, sa_delta x, t)])\<rparr>)"

definition scale :: "pyfloat \<Rightarrow> (nat \<Rightarrow> pyfloat) \<Rightarrow> (nat \<Rightarrow> pyfloat) \<Rightarrow> tele list \<Rightarrow> scaler \<Rightarrow> scaler \<times> nat list" where
  "scale t now now' rs s =
     (let (s1, refs) = evaluate_scaling t now rs s in (fold (\<lambda>i. execute_scale (now' i) i) refs s1, refs))"

section \<open>A migration round\<close>

lemma sort_key_hd_min:
  assumes "sort_key f xs = y # ys" "x \<in> set xs"
  shows "y \<in> set xs \<and> f y \<le> f x"
proof -
  have "set (y # ys) = set xs" using assms(1) by (metis set_sort)
  moreover have "sorted (map f (y # ys))" using assms(1) by (metis sorted_sort_key)
  ultimately show ?thesis using assms(2) by auto
qed

text \<open>A target is a reported region other than the source, not offline, and the best one for the reason.\<close>

definition good_target :: "string \<Rightarrow> tele list \<Rightarrow> migration_reason \<Rightarrow> string \<Rightarrow> bool" where
  "good_target source rs reason target \<longleftrightarrow>
     (\<exists>b \<in> set rs. dget (te_text b) ''region_id'' = Some target \<and> target \<noteq> source \<and> text_of b ''status'' [] \<noteq> ''offline''
        \<and> (\<forall>r \<in> set (migration_candidates source rs). target_key reason b \<le> target_key reason r))"

lemma best_target_good:
  assumes "find_best_target source rs reason = target" "target \<noteq> []"
  shows "good_target source rs reason target"
proof -
  obtain b bs where b: "sort_key (target_key reason) (migration_candidates source rs) = b # bs" and t: "text_of b ''region_id'' [] = target"
    using assms by (auto simp: find_best_target_def split: list.splits)
  have "b \<in> set (sort_key (target_key reason) (migration_candidates source rs))" unfolding b by simp
  then have mem: "b \<in> set (migration_candidates source rs)" by simp
  have "\<forall>r \<in> set (migration_candidates source rs). target_key reason b \<le> target_key reason r"
    using sort_key_hd_min [OF b] by blast
  moreover have "dget (te_text b) ''region_id'' = Some target"
    using t assms(2) by (auto simp: text_of_def split: option.splits)
  ultimately show ?thesis using mem unfolding good_target_def migration_candidates_def by auto
qed

lemma plan_region_good:
  assumes "m \<in> set (plan_region a t rs r)"
  shows "mi_source m = region_of r \<and> mi_status m = MsPlanned \<and> migration_reason_of a r = Some (mi_reason m)
    \<and> good_target (mi_source m) rs (mi_reason m) (mi_target m)"
proof -
  obtain reason where reason: "migration_reason_of a r = Some reason"
    using assms by (cases "migration_reason_of a r") (auto simp: plan_region_def)
  let ?b = "find_best_target (region_of r) rs reason"
  have ne: "?b \<noteq> []" using assms reason by (auto simp: plan_region_def)
  then obtain w where "m = planned_migration t (region_of r) ?b reason w"
    using assms reason by (auto simp: plan_region_def)
  then have "mi_source m = region_of r" "mi_status m = MsPlanned" "mi_reason m = reason" "mi_target m = ?b"
    by (simp_all add: planned_migration_def Let_def)
  with reason best_target_good [OF refl ne] show ?thesis by simp
qed

lemma plan_region_count: "length (plan_region a t rs r) \<le> max 1 (length (te_workloads r) div 4)"
  by (simp add: plan_region_def Let_def split: option.split)

text \<open>Executing one planned migration after the other, none of them already active.\<close>

definition settled_migration :: "migration \<Rightarrow> migration \<Rightarrow> bool" where
  "settled_migration m m' \<longleftrightarrow> mi_status m' = MsCompleted \<and> mi_id m' = mi_id m \<and> mi_workload m' = mi_workload m
     \<and> mi_source m' = mi_source m \<and> mi_target m' = mi_target m \<and> mi_reason m' = mi_reason m"

lemma execute_migration_spec:
  fixes now :: clock
  assumes "dr_active a = []" "0 < dr_max_concurrent a" "i < length (jo_objs (dr_migrations a))"
  defines "a' \<equiv> execute_migration now i a"
  shows "dr_active a' = []" "dr_max_concurrent a' = dr_max_concurrent a" "dr_total_migrated a' = dr_total_migrated a + 1"
    "length (jo_objs (dr_migrations a')) = length (jo_objs (dr_migrations a))" "jo_refs (dr_migrations a') = jo_refs (dr_migrations a)"
    "settled_migration (jo_get (dr_migrations a) i) (jo_get (dr_migrations a') i)"
    "k \<noteq> i \<Longrightarrow> jo_get (dr_migrations a') k = jo_get (dr_migrations a) k"
  using assms by (auto simp: a'_def execute_migration_def Let_def settled_migration_def jo_get_change)

lemma execute_migrations_spec:
  assumes "dr_active a = []" "0 < dr_max_concurrent a" "\<forall>i \<in> set is. i < length (jo_objs (dr_migrations a))" "distinct is"
  shows "dr_active (execute_migrations now is a) = [] \<and> dr_total_migrated (execute_migrations now is a) = dr_total_migrated a + length is
    \<and> jo_refs (dr_migrations (execute_migrations now is a)) = jo_refs (dr_migrations a)
    \<and> (\<forall>i \<in> set is. settled_migration (jo_get (dr_migrations a) i) (jo_get (dr_migrations (execute_migrations now is a)) i))
    \<and> (\<forall>k. k \<notin> set is \<longrightarrow> jo_get (dr_migrations (execute_migrations now is a)) k = jo_get (dr_migrations a) k)"
  using assms
proof (induction "is" arbitrary: a)
  case (Cons i "is")
  have i: "i < length (jo_objs (dr_migrations a))" using Cons.prems(3) by simp
  note one = execute_migration_spec [OF Cons.prems(1,2) i, where now = "now i"]
  from Cons.IH [of "execute_migration (now i) i a"] one Cons.prems
  show ?case by simp (metis one(7))
qed simp

text \<open>
  C0. One round of planning and execution carries out everything that it plans: every planned migration is
  completed and counted and nothing stays active. Each leaves a region that is over a threshold, for the
  first reason that applies, to another reported region that is not offline and is best for that reason;
  at most a quarter of the workloads of a region (one, if there are fewer than four) are moved.
\<close>

theorem migration_round_settles:
  assumes "dr_active a = []" "0 < dr_max_concurrent a" "migrate t now rs a = (a', refs)"
  shows "dr_active a' = [] \<and> dr_total_migrated a' = dr_total_migrated a + length refs
    \<and> int (length refs) \<le> sum_list (map (\<lambda>r. max 1 (int (length (te_workloads r) div 4))) rs)
    \<and> (\<forall>i \<in> set refs. let m = jo_get (dr_migrations a') i in
         mi_status m = MsCompleted \<and> good_target (mi_source m) rs (mi_reason m) (mi_target m)
         \<and> (\<exists>r \<in> set rs. mi_source m = region_of r \<and> migration_reason_of a r = Some (mi_reason m)))"
proof -
  let ?plan = "concat (map (plan_region a t rs) rs)"
  obtain j where ext: "jo_extend (dr_max_history a) ?plan (dr_migrations a) = (j, refs)"
    and a': "a' = execute_migrations now refs (a\<lparr>dr_migrations := j\<rparr>)"
    using assms(3) by (auto simp: migrate_def plan_migrations_def split: prod.splits)
  note new = jo_new_refs [OF ext]
  have "\<forall>i \<in> set refs. i < length (jo_objs (dr_migrations (a\<lparr>dr_migrations := j\<rparr>)))" using new(3) by simp
  from execute_migrations_spec [OF _ _ this new(2), of now] assms(1,2)
  have run: "dr_active a' = []" "dr_total_migrated a' = dr_total_migrated a + length refs"
    and settled: "\<And>i. i \<in> set refs \<Longrightarrow> settled_migration (jo_get j i) (jo_get (dr_migrations a') i)"
    by (simp_all add: a')
  have "int (length (concat (map (plan_region a t rs) qs))) \<le> sum_list (map (\<lambda>r. max 1 (int (length (te_workloads r) div 4))) qs)" for qs
  proof (induction qs)
    case (Cons q qs)
    have "int (length (plan_region a t rs q)) \<le> max 1 (int (length (te_workloads q) div 4))"
      using plan_region_count [of a t rs q] by linarith
    with Cons show ?case by simp
  qed simp
  then have "int (length refs) \<le> sum_list (map (\<lambda>r. max 1 (int (length (te_workloads r) div 4))) rs)"
    unfolding new(1) .
  moreover have "let m = jo_get (dr_migrations a') i in mi_status m = MsCompleted \<and> good_target (mi_source m) rs (mi_reason m) (mi_target m)
      \<and> (\<exists>r \<in> set rs. mi_source m = region_of r \<and> migration_reason_of a r = Some (mi_reason m))" if i: "i \<in> set refs" for i
  proof -
    obtain r where r: "r \<in> set rs" "jo_get j i \<in> set (plan_region a t rs r)" using new(5) [OF i] by auto
    with plan_region_good [OF r(2)] settled [OF i] show ?thesis by (auto simp: Let_def settled_migration_def)
  qed
  ultimately show ?thesis using run by blast
qed

definition region_report :: "string \<Rightarrow> string \<Rightarrow> (string \<times> rat) list \<Rightarrow> string option list \<Rightarrow> tele" where
  "region_report rid st ns ws = \<lparr>te_text = [(''region_id'', rid), (''status'', st)], te_num = ns, te_workloads = ws\<rparr>"

definition demo_reports :: "tele list" where
  "demo_reports = [region_report ''eu'' ''active'' [(''avg_latency_ms'', 400)] [Some ''w1'', Some ''w2''],
     region_report ''us'' ''active'' [(''avg_latency_ms'', 90)] [], region_report ''ap'' ''offline'' [(''avg_latency_ms'', 10)] []]"

lemma migration_round_settles_witness:
  "\<exists>a refs. migrate 5 (\<lambda>_ _. 6) demo_reports (new_routing_adapter 300 (9 / 10) (8 / 10) 10 500) = (a, refs)
    \<and> refs = [0] \<and> mi_target (jo_get (dr_migrations a) 0) = ''us'' \<and> mi_status (jo_get (dr_migrations a) 0) = MsCompleted"
proof -
  let ?a = "new_routing_adapter 300 (9 / 10) (8 / 10) 10 500"
  obtain a refs where run: "migrate 5 (\<lambda>_ _. 6) demo_reports ?a = (a, refs)" by fastforce
  have "snd (migrate 5 (\<lambda>_ _. 6) demo_reports ?a) = [0]"
    and "mi_target (jo_get (dr_migrations (fst (migrate 5 (\<lambda>_ _. 6) demo_reports ?a))) 0) = ''us''" by code_simp+
  with migration_round_settles [OF _ _ run] run show ?thesis by (auto simp: new_routing_adapter_def Let_def)
qed

text \<open>A migration that was cancelled is still carried out when it is executed.\<close>

lemma cancelled_still_runs:
  assumes "dr_active a = []" "0 < dr_max_concurrent a" "i < length (jo_objs (dr_migrations a))"
    "mi_status (jo_get (dr_migrations a) i) = MsCancelled"
  shows "mi_status (jo_get (dr_migrations (execute_migration now i a)) i) = MsCompleted"
  using execute_migration_spec(6) [OF assms(1-3), of now] by (simp add: settled_migration_def)

section \<open>Scaling steps\<close>

definition sound_step :: "scaler \<Rightarrow> scale_action \<Rightarrow> bool" where
  "sound_step s x \<longleftrightarrow> sa_target x = sa_current x + sa_delta x \<and> \<bar>sa_delta x\<bar> \<le> sc_max_step s \<and> \<not> sa_executed x
     \<and> (case sa_direction x of SdUp \<Rightarrow> 1 \<le> sa_delta x | SdDown \<Rightarrow> sa_delta x \<le> -1 \<and> 1 \<le> sa_target x | SdNone \<Rightarrow> False)"

lemma scale_delta_up: "usage > sc_up s \<Longrightarrow> 1 \<le> sc_max_step s \<Longrightarrow> 1 \<le> scale_delta s usage n \<and> scale_delta s usage n \<le> sc_max_step s"
  by (simp add: scale_delta_def)

lemma scale_delta_down:
  "\<not> usage > sc_up s \<Longrightarrow> scale_delta s usage n < 0 \<Longrightarrow> - sc_max_step s \<le> scale_delta s usage n \<and> 1 \<le> n + scale_delta s usage n"
  by (auto simp: scale_delta_def split: if_splits)

lemma scale_decision_cases:
  assumes "x \<in> set (scale_decision s t now r (resource, uk, ck))"
  shows "sa_resource x = resource \<and> sa_region x = region_of r \<and> \<not> in_cooldown now (scale_key resource (region_of r)) s
    \<and> \<not> sa_executed x \<and> sa_current x = py_trunc (num r ck 0) \<and> sa_delta x = scale_delta s (num r uk 0) (py_trunc (num r ck 0))
    \<and> sa_target x = sa_current x + sa_delta x
    \<and> (sa_direction x = SdUp \<and> num r uk 0 > sc_up s \<or> sa_direction x = SdDown \<and> \<not> num r uk 0 > sc_up s \<and> sa_delta x < 0)"
  using assms unfolding scale_decision_def prod.case Let_def by (simp split: if_splits)

lemma scale_decision_sound:
  assumes "x \<in> set (scale_decision s t now r q)" "1 \<le> sc_max_step s"
  shows "sound_step s x" "\<not> in_cooldown now (scale_key (sa_resource x) (sa_region x)) s"
proof -
  obtain resource uk ck where q: "q = (resource, uk, ck)" by (rule prod_cases3)
  note c = scale_decision_cases [OF assms(1) [unfolded q]]
  show "\<not> in_cooldown now (scale_key (sa_resource x) (sa_region x)) s" using c by simp
  from c consider (up) "sa_direction x = SdUp" "num r uk 0 > sc_up s" | (down) "sa_direction x = SdDown" "\<not> num r uk 0 > sc_up s" "sa_delta x < 0"
    by blast
  then show "sound_step s x"
  proof cases
    case up
    with c have "1 \<le> sa_delta x" "sa_delta x \<le> sc_max_step s" using scale_delta_up [OF up(2) assms(2)] by simp_all
    with c up show ?thesis by (simp add: sound_step_def)
  next
    case down
    then have "scale_delta s (num r uk 0) (py_trunc (num r ck 0)) < 0" using c by simp
    from scale_delta_down [OF down(2) this] c have "- sc_max_step s \<le> sa_delta x" "1 \<le> sa_target x" by simp_all
    with c down show ?thesis by (simp add: sound_step_def)
  qed
qed

lemma evaluate_scaling_refs:
  assumes "evaluate_scaling t now rs s = (s', refs)" "i \<in> set refs"
  shows "\<exists>k r q. jo_get (sc_actions s') i \<in> set (scale_decision s t (now k) r q)"
proof -
  let ?checks = "enumerate 0 [(r, x). r \<leftarrow> rs, x \<leftarrow> scaled_resources]"
  have ext: "jo_extend (sc_max_history s) (concat (map (\<lambda>(k, r, x). scale_decision s t (now k) r x) ?checks)) (sc_actions s) = (sc_actions s', refs)"
    using assms(1) by (auto simp: evaluate_scaling_def split: prod.splits)
  have "jo_get (sc_actions s') i \<in> set (concat (map (\<lambda>(k, r, x). scale_decision s t (now k) r x) ?checks))"
    by (rule jo_new_refs(5) [OF ext assms(2)])
  then show ?thesis by auto blast
qed

text \<open>Executing actions sets the time of the last scaling of their keys.\<close>

definition action_key :: "scale_action \<Rightarrow> string" where
  "action_key x = scale_key (sa_resource x) (sa_region x)"

lemma execute_scale_frame:
  "sc_cooldown (execute_scale t i s) = sc_cooldown s"
  "dget (sc_last_scale (execute_scale t i s)) key = (if key = action_key (jo_get (sc_actions s) i) then Some t else dget (sc_last_scale s) key)"
  "action_key (jo_get (sc_actions (execute_scale t i s)) k) = action_key (jo_get (sc_actions s) k)"
  by (simp_all add: execute_scale_def Let_def action_key_def jo_get_def jo_change_def on_obj_def)
    (cases "i < length (jo_objs (sc_actions s))"; cases "k = i"; simp add: list_update_beyond)

lemma execute_scales:
  fixes now' :: "nat \<Rightarrow> pyfloat"
  defines "run is \<equiv> fold (\<lambda>i. execute_scale (now' i) i) is"
  shows "sc_cooldown (run is s) = sc_cooldown s \<and> (\<forall>k. action_key (jo_get (sc_actions (run is s)) k) = action_key (jo_get (sc_actions s) k))
    \<and> (\<forall>i \<in> set is. \<exists>k \<in> set is. dget (sc_last_scale (run is s)) (action_key (jo_get (sc_actions s) i)) = Some (now' k))"
  unfolding run_def
proof (induction "is" rule: rev_induct)
  case (snoc i "is")
  then show ?case by (auto simp: execute_scale_frame)
qed simp

text \<open>
  C0. Scaling makes sound steps and does not flap: a step is at most \<open>max_step\<close>, up by at least one or down to
  at least one, and after a round no resource that was scaled is scaled again while its cooldown lasts.
\<close>

theorem scaling_sound:
  assumes "1 \<le> sc_max_step s" and "scale t now now' rs s = (s1, refs)" and "evaluate_scaling t2 now2 rs2 s1 = (s2, refs2)"
    and "\<forall>i \<in> set refs. \<forall>k. now2 k - now' i < sc_cooldown s"
  shows "(\<forall>i \<in> set refs. \<exists>x. sound_step s x \<and> action_key x = action_key (jo_get (sc_actions s1) i))
    \<and> (\<forall>i \<in> set refs. \<forall>j \<in> set refs2. action_key (jo_get (sc_actions s2) j) \<noteq> action_key (jo_get (sc_actions s1) i))"
proof -
  obtain s0 where ev: "evaluate_scaling t now rs s = (s0, refs)" and s1: "s1 = fold (\<lambda>i. execute_scale (now' i) i) refs s0"
    using assms(2) by (auto simp: scale_def split: prod.splits)
  have "sc_cooldown s0 = sc_cooldown s" using ev by (auto simp: evaluate_scaling_def split: prod.splits)
  with execute_scales [of now' refs s0] have cool: "sc_cooldown s1 = sc_cooldown s"
    and key: "\<And>k. action_key (jo_get (sc_actions s1) k) = action_key (jo_get (sc_actions s0) k)"
    and last: "\<And>i. i \<in> set refs \<Longrightarrow> \<exists>k \<in> set refs. dget (sc_last_scale s1) (action_key (jo_get (sc_actions s0) i)) = Some (now' k)"
    by (simp_all add: s1)
  have "\<exists>x. sound_step s x \<and> action_key x = action_key (jo_get (sc_actions s1) i)" if "i \<in> set refs" for i
    using evaluate_scaling_refs [OF ev that] scale_decision_sound(1) [OF _ assms(1)] key by metis
  moreover have False if i: "i \<in> set refs" and j: "j \<in> set refs2"
    and eq: "action_key (jo_get (sc_actions s2) j) = action_key (jo_get (sc_actions s1) i)" for i j
  proof -
    obtain k r q where x: "jo_get (sc_actions s2) j \<in> set (scale_decision s1 t2 (now2 k) r q)"
      using evaluate_scaling_refs [OF assms(3) j] by blast
    obtain resource uk ck where q: "q = (resource, uk, ck)" by (rule prod_cases3)
    have "\<not> in_cooldown (now2 k) (action_key (jo_get (sc_actions s2) j)) s1"
      using scale_decision_cases [OF x [unfolded q]] by (simp add: action_key_def)
    moreover obtain l where "l \<in> set refs" "dget (sc_last_scale s1) (action_key (jo_get (sc_actions s2) j)) = Some (now' l)"
      using last [OF i] eq key by auto
    ultimately show False using assms(4) cool by (auto simp: in_cooldown_def)
  qed
  ultimately show ?thesis by blast
qed

lemma scaling_sound_witness:
  "\<exists>s1 refs s2 refs2. scale 100 (\<lambda>_. 100) (\<lambda>_. 101) [region_report ''eu'' ''active'' [(''gpu_utilization'', 95 / 100), (''total_gpus'', 8)] []]
        (new_scaler (8 / 10) (3 / 10) 60 5 500) = (s1, refs)
    \<and> refs = [0] \<and> evaluate_scaling 130 (\<lambda>_. 130) [region_report ''eu'' ''active'' [(''gpu_utilization'', 99 / 100), (''total_gpus'', 8)] []] s1 = (s2, refs2)
    \<and> (\<exists>x. sound_step (new_scaler (8 / 10) (3 / 10) 60 5 500) x \<and> action_key x = action_key (jo_get (sc_actions s1) 0))"
proof -
  let ?s = "new_scaler (8 / 10) (3 / 10) 60 5 500"
  let ?rs = "[region_report ''eu'' ''active'' [(''gpu_utilization'', 95 / 100), (''total_gpus'', 8)] []]"
  let ?rs2 = "[region_report ''eu'' ''active'' [(''gpu_utilization'', 99 / 100), (''total_gpus'', 8)] []]"
  obtain s1 refs where run: "scale 100 (\<lambda>_. 100) (\<lambda>_. 101) ?rs ?s = (s1, refs)" by fastforce
  obtain s2 refs2 where run2: "evaluate_scaling 130 (\<lambda>_. 130) ?rs2 s1 = (s2, refs2)" by fastforce
  have "snd (scale 100 (\<lambda>_. 100) (\<lambda>_. 101) ?rs ?s) = [0]" and st: "1 \<le> sc_max_step ?s" and "sc_cooldown ?s = 60" by code_simp+
  then have "refs = [0]" and cool: "\<forall>i \<in> set refs. \<forall>k :: nat. (130 :: pyfloat) - 101 < sc_cooldown ?s" using run by simp_all
  with scaling_sound [OF st run run2 cool] run run2 show ?thesis by auto
qed

end
