(* ===== verification/Optimizers.thy ===== *)
theory Optimizers
  imports Telemetry
begin

text \<open>
  Inefficiencies and what is done about them (\<open>intelligence/optimization_engine.py\<close>) and recommendations
  with their life cycle (\<open>intelligence/recommendation_engine.py\<close>). Actions and recommendations are objects of
  a journal. Descriptions are texts for people and are left out; an inefficiency that is handed to the
  recommendation engine is the record that the optimization engine makes.
\<close>

section \<open>Inefficiencies\<close>

datatype optimization_category =
    OcPlacement | OcLatency | OcGpu | OcCongestion | OcReplication | OcCost | OcThermal | OcEnergy

fun category_name :: "optimization_category \<Rightarrow> string" where
  "category_name OcPlacement = ''placement''"
| "category_name OcLatency = ''latency''"
| "category_name OcGpu = ''gpu_utilization''"
| "category_name OcCongestion = ''congestion''"
| "category_name OcReplication = ''replication''"
| "category_name OcCost = ''cost''"
| "category_name OcThermal = ''thermal''"
| "category_name OcEnergy = ''energy''"

record inefficiency =
  ie_id :: string
  ie_category :: optimization_category
  ie_region :: string
  ie_severity :: rat
  ie_improvement :: rat
  ie_detected_at :: pyfloat

record opt_action =
  oa_id :: string
  oa_category :: optimization_category
  oa_region :: string
  oa_type :: string
  oa_parameters :: "(string \<times> json) list"
  oa_improvement :: rat
  oa_executed :: bool
  oa_executed_at :: pyfloat
  oa_result :: string

record optimizer =
  op_max_history :: nat
  op_inefficiencies :: "inefficiency list"
  op_actions :: "opt_action journal"
  op_total_optimizations :: nat
  op_total_improvements :: nat
  op_events :: "(string \<times> string \<times> string \<times> pyfloat) list"

definition new_optimizer :: "nat \<Rightarrow> optimizer" where
  "new_optimizer mh =
     \<lparr>op_max_history = mh, op_inefficiencies = [], op_actions = new_journal, op_total_optimizations = 0,
      op_total_improvements = 0, op_events = []\<rparr>"

definition new_inefficiency :: "string \<Rightarrow> optimization_category \<Rightarrow> rat \<Rightarrow> rat \<Rightarrow> pyfloat \<Rightarrow> string \<Rightarrow> inefficiency" where
  "new_inefficiency prefix c sv improvement t rid =
     \<lparr>ie_id = stamped_id prefix rid t, ie_category = c, ie_region = rid, ie_severity = sv,
      ie_improvement = py_round improvement 1, ie_detected_at = t\<rparr>"

definition analyze_region :: "pyfloat \<Rightarrow> tele \<Rightarrow> inefficiency list" where
  "analyze_region t r =
     (let rid = region_of r;
          saturation = num r ''workload_saturation'' 0;
          latency = num r ''avg_latency_ms'' 0;
          util = num r ''gpu_utilization'' 0;
          thermal = num r ''thermal_pressure'' 0
      in (if saturation > 85 / 100
          then [new_inefficiency ''congestion-'' OcCongestion (min saturation 1) ((saturation - 7 / 10) * 100) t rid] else [])
       @ (if latency > 200
          then [new_inefficiency ''latency-'' OcLatency (min (latency / 500) 1) ((latency - 100) / latency * 100) t rid] else [])
       @ (if util < 3 / 10 \<and> num r ''total_gpus'' 0 > 0
          then [new_inefficiency ''gpu-underutil-'' OcGpu (1 - util) ((7 / 10 - util) * 100) t rid]
          else if util > 95 / 100
          then [new_inefficiency ''gpu-exhaust-'' OcGpu util ((util - 8 / 10) * 100) t rid] else [])
       @ (if thermal > 8 / 10
          then [new_inefficiency ''thermal-'' OcThermal thermal ((thermal - 6 / 10) * 100) t rid] else []))"

definition analyze_telemetry :: "pyfloat \<Rightarrow> tele list \<Rightarrow> optimizer \<Rightarrow> optimizer \<times> inefficiency list" where
  "analyze_telemetry t rs s =
     (let found = concat (map (analyze_region t) rs)
      in (s\<lparr>op_inefficiencies := py_cap (op_max_history s) (op_inefficiencies s @ found)\<rparr>, found))"

definition new_action :: "string \<Rightarrow> string \<Rightarrow> (string \<times> json) list \<Rightarrow> pyfloat \<Rightarrow> inefficiency \<Rightarrow> opt_action" where
  "new_action prefix ty params t e =
     \<lparr>oa_id = stamped_id prefix (ie_region e) t, oa_category = ie_category e, oa_region = ie_region e, oa_type = ty,
      oa_parameters = params, oa_improvement = ie_improvement e, oa_executed = False, oa_executed_at = 0, oa_result = []\<rparr>"

definition action_for :: "pyfloat \<Rightarrow> inefficiency \<Rightarrow> opt_action option" where
  "action_for t e =
     (case ie_category e of
        OcCongestion \<Rightarrow> Some (new_action ''migrate-'' ''workload_migration''
          [(''direction'', JStr ''outbound''), (''max_migrate_pct'', JNum (2 / 10))] t e)
      | OcLatency \<Rightarrow> Some (new_action ''reroute-'' ''traffic_reroute'' [(''strategy'', JStr ''lowest_latency'')] t e)
      | OcGpu \<Rightarrow> Some (new_action ''gpu-opt-'' (if ie_severity e > 1 / 2 then ''consolidate'' else ''offload'')
          [(''target_utilization'', JNum (7 / 10))] t e)
      | OcThermal \<Rightarrow> Some (new_action ''thermal-'' ''thermal_rebalance'' [(''target_thermal'', JNum (6 / 10))] t e)
      | _ \<Rightarrow> None)"

definition generate_actions :: "pyfloat \<Rightarrow> inefficiency list \<Rightarrow> optimizer \<Rightarrow> optimizer \<times> nat list" where
  "generate_actions t es s =
     (let (j, refs) = jo_extend (op_max_history s) (List.map_filter (action_for t) es) (op_actions s)
      in (s\<lparr>op_actions := j, op_total_optimizations := op_total_optimizations s + length refs\<rparr>, refs))"

definition execute_action :: "pyfloat \<Rightarrow> nat \<Rightarrow> optimizer \<Rightarrow> optimizer" where
  "execute_action t i s =
     (let x = jo_get (op_actions s) i
      in s\<lparr>op_actions := jo_change i (\<lambda>y. y\<lparr>oa_executed := True, oa_executed_at := t, oa_result := ''applied''\<rparr>) (op_actions s),
           op_total_improvements := op_total_improvements s + 1,
           op_events := py_cap (op_max_history s) (op_events s @ [(oa_id x, oa_type x, oa_region x, t)])\<rparr>)"

definition run_optimization_loop :: "pyfloat \<Rightarrow> pyfloat \<Rightarrow> (nat \<Rightarrow> pyfloat) \<Rightarrow> tele list \<Rightarrow> optimizer \<Rightarrow> optimizer \<times> nat list" where
  "run_optimization_loop t t' now rs s =
     (let (s1, es) = analyze_telemetry t rs s; (s2, refs) = generate_actions t' es s1
      in (fold (\<lambda>i. execute_action (now i) i) refs s2, refs))"

section \<open>Recommendations\<close>

datatype recommendation_priority = RpLow | RpMedium | RpHigh | RpUrgent

datatype recommendation_status = RsPending | RsApproved | RsExecuted | RsDismissed

record recommendation =
  re_id :: string
  re_category :: string
  re_priority :: recommendation_priority
  re_status :: recommendation_status
  re_improvement :: rat
  re_region :: string
  re_auto :: bool
  re_created_at :: pyfloat
  re_executed_at :: pyfloat

record recommender =
  rr_max_history :: nat
  rr_recommendations :: "recommendation journal"
  rr_total_generated :: nat
  rr_total_executed :: nat
  rr_events :: "(string \<times> string \<times> pyfloat) list"

definition new_recommender :: "nat \<Rightarrow> recommender" where
  "new_recommender mh =
     \<lparr>rr_max_history = mh, rr_recommendations = new_journal, rr_total_generated = 0, rr_total_executed = 0, rr_events = []\<rparr>"

definition recommend_for :: "pyfloat \<Rightarrow> inefficiency \<Rightarrow> recommendation" where
  "recommend_for t e =
     \<lparr>re_id = stamped_id (''rec-'' @ category_name (ie_category e) @ ''-'') (ie_region e) t,
      re_category = category_name (ie_category e),
      re_priority = (if ie_severity e > 9 / 10 then RpUrgent else if ie_severity e > 7 / 10 then RpHigh else RpMedium),
      re_status = RsPending, re_improvement = ie_improvement e, re_region = ie_region e, re_auto = ie_severity e < 8 / 10,
      re_created_at = t, re_executed_at = 0\<rparr>"

text \<open>A prediction is its recommendation text, trend, metric and region.\<close>

definition recommend_prediction :: "pyfloat \<Rightarrow> string \<times> string \<times> string \<times> string \<Rightarrow> recommendation option" where
  "recommend_prediction t q =
     (let (advice, trend, metric, rid) = q in
      if advice = [] then None
      else Some \<lparr>re_id = stamped_id (''rec-pred-'' @ metric @ ''-'') rid t, re_category = ''predictive_scaling'',
                 re_priority = (if trend = ''increasing'' then RpHigh else RpMedium), re_status = RsPending, re_improvement = 15,
                 re_region = rid, re_auto = True, re_created_at = t, re_executed_at = 0\<rparr>)"

definition add_recommendations :: "recommendation list \<Rightarrow> recommender \<Rightarrow> recommender \<times> nat list" where
  "add_recommendations xs s =
     (let (j, refs) = jo_extend (rr_max_history s) xs (rr_recommendations s)
      in (s\<lparr>rr_recommendations := j, rr_total_generated := rr_total_generated s + length refs\<rparr>, refs))"

definition generate_from_inefficiencies :: "pyfloat \<Rightarrow> inefficiency list \<Rightarrow> recommender \<Rightarrow> recommender \<times> nat list" where
  "generate_from_inefficiencies t es s = add_recommendations (map (recommend_for t) es) s"

definition generate_from_predictions ::
    "pyfloat \<Rightarrow> (string \<times> string \<times> string \<times> string) list \<Rightarrow> recommender \<Rightarrow> recommender \<times> nat list" where
  "generate_from_predictions t qs s = add_recommendations (List.map_filter (recommend_prediction t) qs) s"

definition find_recommendation :: "string \<Rightarrow> recommendation_status list \<Rightarrow> recommender \<Rightarrow> nat option" where
  "find_recommendation rid sts s =
     List.find (\<lambda>i. re_id (jo_get (rr_recommendations s) i) = rid \<and> re_status (jo_get (rr_recommendations s) i) \<in> set sts)
       (jo_refs (rr_recommendations s))"

definition set_recommendation ::
    "string \<Rightarrow> pyfloat \<Rightarrow> string \<Rightarrow> nat \<Rightarrow> (recommendation \<Rightarrow> recommendation) \<Rightarrow> recommender \<Rightarrow> recommender" where
  "set_recommendation event t rid i f s =
     s\<lparr>rr_recommendations := jo_change i f (rr_recommendations s), rr_events := rr_events s @ [(event, rid, t)]\<rparr>"

definition approve_recommendation :: "pyfloat \<Rightarrow> string \<Rightarrow> recommender \<Rightarrow> recommender \<times> bool" where
  "approve_recommendation t rid s =
     (case find_recommendation rid [RsPending] s of
        None \<Rightarrow> (s, False)
      | Some i \<Rightarrow> (set_recommendation ''recommendation_approved'' t rid i (\<lambda>x. x\<lparr>re_status := RsApproved\<rparr>) s, True))"

definition execute_recommendation :: "pyfloat \<Rightarrow> string \<Rightarrow> recommender \<Rightarrow> recommender \<times> bool" where
  "execute_recommendation t rid s =
     (case find_recommendation rid [RsPending, RsApproved] s of
        None \<Rightarrow> (s, False)
      | Some i \<Rightarrow>
          let s1 = set_recommendation ''recommendation_executed'' t rid i (\<lambda>x. x\<lparr>re_status := RsExecuted, re_executed_at := t\<rparr>) s
          in (s1\<lparr>rr_total_executed := rr_total_executed s1 + 1\<rparr>, True))"

definition dismiss_recommendation :: "pyfloat \<Rightarrow> string \<Rightarrow> recommender \<Rightarrow> recommender \<times> bool" where
  "dismiss_recommendation t rid s =
     (case find_recommendation rid [RsPending] s of
        None \<Rightarrow> (s, False)
      | Some i \<Rightarrow> (set_recommendation ''recommendation_dismissed'' t rid i (\<lambda>x. x\<lparr>re_status := RsDismissed\<rparr>) s, True))"

section \<open>A round of the optimization loop\<close>

lemma analyzed_category:
  "e \<in> set (analyze_region t r) \<Longrightarrow> ie_category e \<in> {OcCongestion, OcLatency, OcGpu, OcThermal} \<and> ie_region e = region_of r
    \<and> action_for t' e \<noteq> None"
proof -
  assume "e \<in> set (analyze_region t r)"
  then have c: "ie_category e \<in> {OcCongestion, OcLatency, OcGpu, OcThermal} \<and> ie_region e = region_of r"
    unfolding analyze_region_def Let_def set_append Un_iff
    by (elim disjE) (simp_all add: new_inefficiency_def split: if_split_asm)
  then have "action_for t' e \<noteq> None" by (auto simp: action_for_def)
  with c show ?thesis by blast
qed

lemma map_filter_all: "\<forall>x \<in> set xs. f x \<noteq> None \<Longrightarrow> List.map_filter f xs = map (\<lambda>x. the (f x)) xs"
  by (induction xs) auto

lemma execute_action_frame:
  "i < length (jo_objs (op_actions s)) \<Longrightarrow> jo_get (op_actions (execute_action t i s)) k =
     (if k = i then (jo_get (op_actions s) i)\<lparr>oa_executed := True, oa_executed_at := t, oa_result := ''applied''\<rparr> else jo_get (op_actions s) k)"
  "length (jo_objs (op_actions (execute_action t i s))) = length (jo_objs (op_actions s))"
  "op_total_improvements (execute_action t i s) = op_total_improvements s + 1"
  "op_total_optimizations (execute_action t i s) = op_total_optimizations s"
  "op_inefficiencies (execute_action t i s) = op_inefficiencies s"
  by (simp_all add: execute_action_def Let_def jo_get_change)

lemma execute_actions:
  assumes "\<forall>i \<in> set is. i < length (jo_objs (op_actions s))"
  shows "let s' = fold (\<lambda>i. execute_action (now i) i) is s
    in op_total_improvements s' = op_total_improvements s + length is \<and> op_total_optimizations s' = op_total_optimizations s
      \<and> op_inefficiencies s' = op_inefficiencies s \<and> length (jo_objs (op_actions s')) = length (jo_objs (op_actions s))
      \<and> (\<forall>k. oa_category (jo_get (op_actions s') k) = oa_category (jo_get (op_actions s) k)
           \<and> oa_region (jo_get (op_actions s') k) = oa_region (jo_get (op_actions s) k)
           \<and> (oa_executed (jo_get (op_actions s') k) \<longleftrightarrow> k \<in> set is \<or> oa_executed (jo_get (op_actions s) k)))"
  using assms
proof (induction "is" rule: rev_induct)
  case (snoc i "is")
  then show ?case by (auto simp: Let_def execute_action_frame)
qed simp

text \<open>
  C0. One round of the loop answers every inefficiency that it finds with one executed action of the same
  category for the same region, and counts as many improvements as optimizations.
\<close>

theorem optimization_round:
  assumes "run_optimization_loop t t' now rs s = (s', refs)"
  shows "let found = concat (map (analyze_region t) rs)
    in op_inefficiencies s' = py_cap (op_max_history s) (op_inefficiencies s @ found)
      \<and> length refs = length found
      \<and> op_total_optimizations s' = op_total_optimizations s + length found
      \<and> op_total_improvements s' = op_total_improvements s + length found
      \<and> list_all2 (\<lambda>e i. oa_executed (jo_get (op_actions s') i) \<and> oa_category (jo_get (op_actions s') i) = ie_category e
           \<and> oa_region (jo_get (op_actions s') i) = ie_region e) found refs"
proof -
  let ?found = "concat (map (analyze_region t) rs)"
  let ?acts = "map (\<lambda>e. the (action_for t' e)) ?found"
  let ?s1 = "s\<lparr>op_inefficiencies := py_cap (op_max_history s) (op_inefficiencies s @ ?found)\<rparr>"
  have some: "action_for t' e \<noteq> None" if "e \<in> set ?found" for e using that analyzed_category by auto
  then have acts: "List.map_filter (action_for t') ?found = ?acts" by (intro map_filter_all) blast
  obtain j where ext: "jo_extend (op_max_history s) ?acts (op_actions s) = (j, refs)"
    and s': "s' = fold (\<lambda>i. execute_action (now i) i) refs (?s1\<lparr>op_actions := j, op_total_optimizations := op_total_optimizations s + length refs\<rparr>)"
    using assms unfolding run_optimization_loop_def analyze_telemetry_def generate_actions_def Let_def prod.case acts
    by (auto split: prod.splits)
  note new = jo_new_refs [OF ext]
  have "\<forall>i \<in> set refs. i < length (jo_objs j)" using new(3) by simp
  with execute_actions [of refs "?s1\<lparr>op_actions := j, op_total_optimizations := op_total_optimizations s + length refs\<rparr>" now]
  have run: "op_total_improvements s' = op_total_improvements s + length refs" "op_total_optimizations s' = op_total_optimizations s + length refs"
      "op_inefficiencies s' = py_cap (op_max_history s) (op_inefficiencies s @ ?found)"
    and get: "\<And>k. oa_category (jo_get (op_actions s') k) = oa_category (jo_get j k) \<and> oa_region (jo_get (op_actions s') k) = oa_region (jo_get j k)
        \<and> (oa_executed (jo_get (op_actions s') k) \<longleftrightarrow> k \<in> set refs \<or> oa_executed (jo_get j k))"
    by (simp_all add: s' Let_def)
  have len: "length refs = length ?found" using new(1) by simp
  have "oa_executed (jo_get (op_actions s') (refs ! n)) \<and> oa_category (jo_get (op_actions s') (refs ! n)) = ie_category (?found ! n)
      \<and> oa_region (jo_get (op_actions s') (refs ! n)) = ie_region (?found ! n)" if n: "n < length ?found" for n
  proof -
    obtain a where a: "action_for t' (?found ! n) = Some a" using some [OF nth_mem [OF n]] by blast
    have "jo_get j (refs ! n) = a" using new(4) [of n] n a by simp
    moreover have "oa_category a = ie_category (?found ! n) \<and> oa_region a = ie_region (?found ! n)"
      using a by (auto simp: action_for_def new_action_def split: optimization_category.splits)
    moreover have "refs ! n \<in> set refs" using n len by simp
    ultimately show ?thesis using get [of "refs ! n"] by simp
  qed
  with run len show ?thesis by (simp add: Let_def list_all2_conv_all_nth)
qed

definition busy_region :: tele where
  "busy_region = \<lparr>te_text = [(''region_id'', ''eu'')],
     te_num = [(''workload_saturation'', 9 / 10), (''gpu_utilization'', 99 / 100), (''total_gpus'', 8)], te_workloads = []\<rparr>"

lemma optimization_round_witness:
  "\<exists>s' refs. run_optimization_loop 5 6 (\<lambda>_. 7) [busy_region] (new_optimizer 100) = (s', refs)
    \<and> length (concat (map (analyze_region 5) [busy_region])) = 2 \<and> length refs = 2 \<and> op_total_improvements s' = 2"
proof -
  obtain s' refs where run: "run_optimization_loop 5 6 (\<lambda>_. 7) [busy_region] (new_optimizer 100) = (s', refs)" by fastforce
  have "length (concat (map (analyze_region 5) [busy_region])) = 2" by code_simp
  with optimization_round [OF run] run show ?thesis by (simp add: Let_def new_optimizer_def)
qed

text \<open>The answer to exhausted GPUs is the same as to idle ones: to consolidate. Nothing is ever offloaded.\<close>

lemma exhausted_gpus_consolidated:
  "e \<in> set (analyze_region t r) \<Longrightarrow> ie_category e = OcGpu \<Longrightarrow> action_for t' e = Some a \<Longrightarrow> oa_type a = ''consolidate''"
  by (auto simp: analyze_region_def Let_def new_inefficiency_def action_for_def new_action_def split: if_splits)

section \<open>The life of a recommendation\<close>

datatype recommendation_op =
    RoInefficiencies pyfloat "inefficiency list"
  | RoPredictions pyfloat "(string \<times> string \<times> string \<times> string) list"
  | RoApprove pyfloat string
  | RoExecute pyfloat string
  | RoDismiss pyfloat string

definition generated :: "recommender \<times> nat list \<Rightarrow> recommender \<times> string list" where
  "generated q = (fst q, map (\<lambda>i. re_id (jo_get (rr_recommendations (fst q)) i)) (snd q))"

fun recommend_step :: "recommendation_op \<Rightarrow> recommender \<Rightarrow> recommender \<times> string list" where
  "recommend_step (RoInefficiencies t es) s = generated (generate_from_inefficiencies t es s)"
| "recommend_step (RoPredictions t qs) s = generated (generate_from_predictions t qs s)"
| "recommend_step (RoApprove t rid) s = (fst (approve_recommendation t rid s), [])"
| "recommend_step (RoExecute t rid) s = (fst (execute_recommendation t rid s), [])"
| "recommend_step (RoDismiss t rid) s = (fst (dismiss_recommendation t rid s), [])"

definition executed :: "recommendation \<Rightarrow> bool" where
  "executed x \<longleftrightarrow> re_status x = RsExecuted"

definition rr_ok :: "recommender \<Rightarrow> bool" where
  "rr_ok s \<longleftrightarrow> 0 < rr_max_history s \<and> length (jo_refs (rr_recommendations s)) \<le> rr_max_history s \<and> jo_ok (rr_recommendations s)
     \<and> rr_total_generated s = length (jo_objs (rr_recommendations s))
     \<and> rr_total_executed s = length (filter executed (jo_objs (rr_recommendations s)))"

definition rr_log :: "recommender \<Rightarrow> string list" where
  "rr_log s = map re_id (jo_history (rr_recommendations s))"

fun may_become :: "recommendation_status \<Rightarrow> recommendation_status \<Rightarrow> bool" where
  "may_become RsPending st = True"
| "may_become RsApproved st = (st = RsApproved \<or> st = RsExecuted)"
| "may_become st st' = (st' = st)"

lemma may_become_refl [simp]: "may_become st st"
  by (cases st) auto

lemma may_become_trans: "may_become a b \<Longrightarrow> may_become b c \<Longrightarrow> may_become a c"
  by (cases a; cases b) auto

text \<open>What one operation does: the invariant, the history and every recommendation that was there.\<close>

definition rr_step_ok :: "recommender \<Rightarrow> recommender \<Rightarrow> string list \<Rightarrow> bool" where
  "rr_step_ok s s' ids \<longleftrightarrow> rr_ok s' \<and> rr_max_history s' = rr_max_history s \<and> rr_log s' = py_cap (rr_max_history s) (rr_log s @ ids)
     \<and> rr_total_generated s' = rr_total_generated s + length ids
     \<and> length (jo_objs (rr_recommendations s)) \<le> length (jo_objs (rr_recommendations s'))
     \<and> (\<forall>k < length (jo_objs (rr_recommendations s)).
          may_become (re_status (jo_get (rr_recommendations s) k)) (re_status (jo_get (rr_recommendations s') k)))"

lemma add_step_ok:
  assumes ok: "rr_ok s" and new: "\<forall>x \<in> set xs. re_status x = RsPending" and st: "generated (add_recommendations xs s) = (s', ids)"
  shows "rr_step_ok s s' ids"
proof -
  obtain j refs where ext: "jo_extend (rr_max_history s) xs (rr_recommendations s) = (j, refs)" by fastforce
  have s': "s' = s\<lparr>rr_recommendations := j, rr_total_generated := rr_total_generated s + length refs\<rparr>"
    and ids: "ids = map (\<lambda>i. re_id (jo_get j i)) refs" using st ext by (auto simp: add_recommendations_def generated_def)
  note refs = jo_new_refs [OF ext]
  have jok: "jo_ok (rr_recommendations s)" and len: "length refs = length xs" using ok refs(1) by (simp_all add: rr_ok_def)
  have ids': "ids = map re_id xs" unfolding ids by (rule nth_equalityI) (simp_all add: len refs(4))
  have objs: "jo_objs j = jo_objs (rr_recommendations s) @ xs" using ext by (auto simp: jo_extend_def Let_def)
  have "filter executed xs = []" using new by (auto simp: filter_empty_conv executed_def)
  then have "rr_ok s'" using ok jo_ok_extend [OF jok, of "rr_max_history s" xs] jo_refs_bound [of "rr_max_history s" xs "rr_recommendations s"]
    by (simp add: rr_ok_def s' ext objs len)
  moreover have "rr_log s' = py_cap (rr_max_history s) (rr_log s @ ids)"
    using jo_history_extend [OF jok, of "rr_max_history s" xs] by (simp add: rr_log_def s' ext ids' py_cap_map [symmetric])
  moreover have "jo_get j k = jo_get (rr_recommendations s) k" if "k < length (jo_objs (rr_recommendations s))" for k
    by (rule refs(6) [OF that])
  ultimately show ?thesis by (simp add: rr_step_ok_def s' ids objs)
qed

lemma change_step_ok:
  assumes ok: "rr_ok s" and found: "find_recommendation rid sts s = Some i"
    and become: "\<And>x. re_status x \<in> set sts \<Longrightarrow> may_become (re_status x) (re_status (f x)) \<and> \<not> executed x"
    and same: "\<And>x. re_id (f x) = re_id x"
    and j: "rr_recommendations s' = jo_change i f (rr_recommendations s)" "rr_max_history s' = rr_max_history s"
      "rr_total_generated s' = rr_total_generated s"
      "rr_total_executed s' = rr_total_executed s + (if executed (f (jo_get (rr_recommendations s) i)) then 1 else 0)"
  shows "rr_step_ok s s' []"
proof -
  let ?j = "rr_recommendations s"
  have i: "i \<in> set (jo_refs ?j)" "re_status (jo_get ?j i) \<in> set sts" using found by (auto simp: find_recommendation_def find_Some_iff)
  then have lt: "i < length (jo_objs ?j)" using ok by (auto simp: rr_ok_def jo_ok_def)
  note b = become [OF i(2)]
  have "length (filter executed (jo_objs (jo_change i f ?j))) = length (filter executed (jo_objs ?j)) + (if executed (f (jo_get ?j i)) then 1 else 0)"
  proof (cases "executed (f (jo_get ?j i))")
    case True
    with count_on_obj [OF lt, of executed f] b show ?thesis by (simp add: jo_change_def jo_get_def)
  next
    case False
    have "filter executed (xs[i := y]) = filter executed xs" if "i < length xs" "\<not> executed (xs ! i)" "\<not> executed y" for xs y
      using that by (simp add: upd_conv_take_nth_drop) (metis append_Nil filter.simps(2) filter_append id_take_nth_drop)
    with False b lt show ?thesis by (simp add: jo_change_def jo_get_def on_obj_def)
  qed
  then have "rr_ok s'" using ok by (simp add: rr_ok_def j)
  moreover have "rr_log s' = rr_log s"
    by (auto simp: rr_log_def jo_history_def j jo_get_change [OF lt] same)
  moreover have "length (rr_log s) \<le> rr_max_history s" using ok by (simp add: rr_ok_def rr_log_def jo_history_def)
  ultimately show ?thesis using b by (auto simp: rr_step_ok_def j jo_get_change [OF lt] py_cap_small)
qed

lemma recommend_step_ok:
  assumes ok: "rr_ok s" and st: "recommend_step p s = (s', ids)"
  shows "rr_step_ok s s' ids"
proof -
  have none: "rr_step_ok s s []"
    using ok by (simp add: rr_step_ok_def py_cap_small rr_ok_def rr_log_def jo_history_def)
  note defs = approve_recommendation_def execute_recommendation_def dismiss_recommendation_def set_recommendation_def Let_def
  show ?thesis
  proof (cases p)
    case (RoInefficiencies t es)
    with st have "generated (add_recommendations (map (recommend_for t) es) s) = (s', ids)"
      by (simp add: generate_from_inefficiencies_def)
    with ok show ?thesis by (intro add_step_ok) (auto simp: recommend_for_def Let_def)
  next
    case (RoPredictions t qs)
    with st have "generated (add_recommendations (List.map_filter (recommend_prediction t) qs) s) = (s', ids)"
      by (simp add: generate_from_predictions_def)
    with ok show ?thesis
      by (intro add_step_ok) (auto simp: recommend_prediction_def map_filter_def Let_def split: prod.splits if_splits)
  next
    case (RoApprove t rid)
    show ?thesis
    proof (cases "find_recommendation rid [RsPending] s")
      case None
      with st RoApprove none show ?thesis by (simp add: defs)
    next
      case (Some i)
      with st RoApprove have "s' = fst (approve_recommendation t rid s)" and ids: "ids = []" by simp_all
      with Some have "rr_step_ok s s' []"
        by (intro change_step_ok [OF ok Some, where f = "\<lambda>x. x\<lparr>re_status := RsApproved\<rparr>"]) (auto simp: defs executed_def)
      then show ?thesis by (simp add: ids)
    qed
  next
    case (RoExecute t rid)
    show ?thesis
    proof (cases "find_recommendation rid [RsPending, RsApproved] s")
      case None
      with st RoExecute none show ?thesis by (simp add: defs)
    next
      case (Some i)
      with st RoExecute have "s' = fst (execute_recommendation t rid s)" and ids: "ids = []" by simp_all
      with Some have "rr_step_ok s s' []"
        by (intro change_step_ok [OF ok Some, where f = "\<lambda>x. x\<lparr>re_status := RsExecuted, re_executed_at := t\<rparr>"])
          (auto simp: defs executed_def)
      then show ?thesis by (simp add: ids)
    qed
  next
    case (RoDismiss t rid)
    show ?thesis
    proof (cases "find_recommendation rid [RsPending] s")
      case None
      with st RoDismiss none show ?thesis by (simp add: defs)
    next
      case (Some i)
      with st RoDismiss have "s' = fst (dismiss_recommendation t rid s)" and ids: "ids = []" by simp_all
      with Some have "rr_step_ok s s' []"
        by (intro change_step_ok [OF ok Some, where f = "\<lambda>x. x\<lparr>re_status := RsDismissed\<rparr>"]) (auto simp: defs executed_def)
      then show ?thesis by (simp add: ids)
    qed
  qed
qed

interpretation recommendations: history rr_ok rr_log rr_max_history rr_total_generated recommend_step
proof
  show "rr_ok s \<Longrightarrow> recommend_step p s = (s', es) \<Longrightarrow>
      rr_ok s' \<and> rr_max_history s' = rr_max_history s \<and> rr_log s' = py_cap (rr_max_history s) (rr_log s @ es)
        \<and> rr_total_generated s' = rr_total_generated s + length es" for s p s' es
    by (drule (1) recommend_step_ok) (simp add: rr_step_ok_def)
qed (simp add: rr_ok_def)

text \<open>Over any operations a recommendation only moves forward.\<close>

lemma recommendations_forward:
  "rr_ok s \<Longrightarrow> run_outputs recommend_step ps s = (s', es) \<Longrightarrow> k < length (jo_objs (rr_recommendations s)) \<Longrightarrow>
     may_become (re_status (jo_get (rr_recommendations s) k)) (re_status (jo_get (rr_recommendations s') k))"
proof (induction ps arbitrary: s es)
  case (Cons p ps)
  obtain s1 es1 where one: "recommend_step p s = (s1, es1)" by fastforce
  obtain es2 where rest: "run_outputs recommend_step ps s1 = (s', es2)" using Cons.prems(2) one by (auto split: prod.splits)
  note k = recommend_step_ok [OF Cons.prems(1) one, unfolded rr_step_ok_def]
  from k Cons.prems(3) have "may_become (re_status (jo_get (rr_recommendations s) k)) (re_status (jo_get (rr_recommendations s1) k))" by simp
  moreover have "may_become (re_status (jo_get (rr_recommendations s1) k)) (re_status (jo_get (rr_recommendations s') k))"
    using k Cons.prems(3) by (intro Cons.IH [OF _ rest]) auto
  ultimately show ?case by (rule may_become_trans)
qed simp

text \<open>
  C0. Recommendations from start to end. Whatever the engine is asked to generate, approve, execute and
  dismiss, its list holds exactly the last \<open>max_history\<close> of all the recommendations it ever generated, in
  order; \<open>total_generated\<close> counts all of them and \<open>total_executed\<close> those that were executed, each once;
  and from any moment on, a recommendation that was approved can only be executed, while one that was
  executed or dismissed never changes its status again.
\<close>

theorem recommendation_lifecycle:
  assumes "0 < mh" and first: "run_outputs recommend_step ps (new_recommender mh) = (s, ids)"
    and more: "run_outputs recommend_step qs s = (s', ids')"
  shows "map re_id (jo_history (rr_recommendations s)) = py_cap mh ids
    \<and> rr_total_generated s = length ids
    \<and> rr_total_executed s = length (filter (\<lambda>x. re_status x = RsExecuted) (jo_objs (rr_recommendations s)))
    \<and> (\<forall>k < length (jo_objs (rr_recommendations s)).
         may_become (re_status (jo_get (rr_recommendations s) k)) (re_status (jo_get (rr_recommendations s') k)))"
proof -
  have new: "rr_ok (new_recommender mh)" "rr_log (new_recommender mh) = []" "rr_max_history (new_recommender mh) = mh"
      "rr_total_generated (new_recommender mh) = 0"
    using assms(1) by (simp_all add: rr_ok_def rr_log_def new_recommender_def jo_history_def new_journal_def jo_ok_def)
  note h = recommendations.history_complete [OF new(1) _ first, unfolded new, simplified]
  have ok: "rr_ok s" using h by simp
  have ex: "executed = (\<lambda>x. re_status x = RsExecuted)" by (rule ext) (simp add: executed_def)
  show ?thesis
    using h recommendations_forward [OF ok more] ok by (simp add: rr_log_def rr_ok_def ex)
qed

definition sample_ops :: "recommendation_op list" where
  "sample_ops =
     [RoPredictions 5 [(''add nodes'', ''increasing'', ''cpu'', ''eu''), ('''', ''stable'', ''gpu'', ''eu''),
                       (''add gpus'', ''stable'', ''gpu'', ''us'')],
      RoApprove 6 ''rec-pred-cpu-eu-5'', RoExecute 7 ''rec-pred-cpu-eu-5'', RoDismiss 8 ''rec-pred-cpu-eu-5'']"

lemma recommendation_lifecycle_witness:
  "\<exists>s s' ids'. run_outputs recommend_step sample_ops (new_recommender 1) = (s, [''rec-pred-cpu-eu-5'', ''rec-pred-gpu-us-5''])
     \<and> run_outputs recommend_step [RoDismiss 9 ''rec-pred-gpu-us-5''] s = (s', ids')
     \<and> map re_id (jo_history (rr_recommendations s)) = [''rec-pred-gpu-us-5'']
     \<and> may_become (re_status (jo_get (rr_recommendations s) 1)) (re_status (jo_get (rr_recommendations s') 1))"
proof -
  let ?r = "run_outputs recommend_step sample_ops (new_recommender 1)"
  let ?q = "run_outputs recommend_step [RoDismiss 9 ''rec-pred-gpu-us-5''] (fst ?r)"
  have r: "?r = (fst ?r, [''rec-pred-cpu-eu-5'', ''rec-pred-gpu-us-5''])" by code_simp
  have q: "?q = (fst ?q, snd ?q)" by simp
  have c: "py_cap 1 [''rec-pred-cpu-eu-5'', ''rec-pred-gpu-us-5''] = [''rec-pred-gpu-us-5'']" by code_simp
  have l: "1 < length (jo_objs (rr_recommendations (fst ?r)))" by code_simp
  note t = recommendation_lifecycle [OF _ r q, unfolded c]
  show ?thesis by (rule exI [of _ "fst ?r"], rule exI [of _ "fst ?q"], rule exI [of _ "snd ?q"]) (use t r q l in simp)
qed

end
