(* ===== verification/JobOrders.thy ===== *)
theory JobOrders
  imports ClusterRun
begin

text \<open>
  What a job asks for never changes while the control plane works on it: every operation of
  \<open>storage/job_queue.py\<close> and every event of a run keeps each known job known, with the same request,
  the same origin and the same order to report. The services that hand jobs to a cluster (the mesh and the
  federation) rest on these lemmas.
\<close>

section \<open>Orders\<close>

definition same_order :: "job_record \<Rightarrow> job_record \<Rightarrow> bool" where
  "same_order i j \<longleftrightarrow> job_request.truncate i = job_request.truncate j
     \<and> job_originating_cluster_id i = job_originating_cluster_id j
     \<and> job_report_to_federation i = job_report_to_federation j
     \<and> job_federation_controller_url i = job_federation_controller_url j"

lemma same_order_refl [simp]: "same_order j j"
  by (simp add: same_order_def)

lemma same_order_trans: "same_order i j \<Longrightarrow> same_order j k \<Longrightarrow> same_order i k"
  by (simp add: same_order_def)

text \<open>All jobs of \<open>m\<close> are jobs of \<open>m'\<close>, and those outside \<open>S\<close> as they were.\<close>

definition carries :: "string set \<Rightarrow> cluster_memory \<Rightarrow> cluster_memory \<Rightarrow> bool" where
  "carries S m m' \<longleftrightarrow>
     (\<forall>k j. dget (mem_jobs m) k = Some j \<longrightarrow> (\<exists>j'. dget (mem_jobs m') k = Some j' \<and> (k \<in> S \<or> same_order j j')))"

lemma carries_same: "mem_jobs m' = mem_jobs m \<Longrightarrow> carries S m m'"
  by (simp add: carries_def)

lemma carries_refl [simp]: "carries S m m"
  by (simp add: carries_same)

lemma carries_trans [trans]: "carries S m m1 \<Longrightarrow> carries S m1 m2 \<Longrightarrow> carries S m m2"
  unfolding carries_def using same_order_trans by meson

lemma carries_mono: "carries S m m' \<Longrightarrow> S \<subseteq> S' \<Longrightarrow> carries S' m m'"
  unfolding carries_def by blast

lemma carriesD: "carries S m m' \<Longrightarrow> dget (mem_jobs m) k = Some j \<Longrightarrow> k \<notin> S \<Longrightarrow> \<exists>j'. dget (mem_jobs m') k = Some j' \<and> same_order j j'"
  unfolding carries_def by blast

lemma carries_known: "carries S m m' \<Longrightarrow> fst ` set (mem_jobs m) \<subseteq> fst ` set (mem_jobs m')"
  unfolding carries_def using dget_None_iff by (metis option.exhaust subsetI option.distinct(1))

lemma carries_fold: "(\<And>x m. P m \<Longrightarrow> carries S m (f x m) \<and> P (f x m)) \<Longrightarrow> P m \<Longrightarrow> carries S m (fold f xs m)"
proof (induction xs arbitrary: m)
  case (Cons x xs)
  note f = Cons.prems(1) [OF Cons.prems(2), of x]
  have "carries S (f x m) (fold f xs (f x m))" by (rule Cons.IH) (use Cons.prems f in auto)
  with f show ?case using carries_trans by fastforce
qed simp

text \<open>A job in the hands of a handler that started on \<open>m0\<close>.\<close>

definition in_hand :: "string set \<Rightarrow> cluster_memory \<Rightarrow> job_record \<times> cluster_memory \<Rightarrow> bool" where
  "in_hand S m0 jm \<longleftrightarrow> carries S m0 (snd jm)
     \<and> (\<forall>j0. dget (mem_jobs m0) (job_id (fst jm)) = Some j0 \<longrightarrow> job_id (fst jm) \<in> S \<or> same_order j0 (fst jm))"

lemma same_order_id: "same_order i j \<Longrightarrow> job_id i = job_id j"
  by (simp add: same_order_def job_request.truncate_def)

lemma in_hand_carries: "in_hand S m0 jm \<Longrightarrow> carries S m0 (snd jm)"
  by (simp add: in_hand_def)

lemma in_hand_save: "in_hand S m0 jm \<Longrightarrow> same_order (fst jm) j \<Longrightarrow> in_hand S m0 (j, save_job j (snd jm))"
  unfolding in_hand_def carries_def using same_order_trans [of _ "fst jm" j] same_order_id [of "fst jm" j] by auto

lemma in_hand_frame:
  "in_hand S m0 jm \<Longrightarrow> same_order (fst jm) j \<Longrightarrow> mem_jobs m' = mem_jobs (snd jm) \<Longrightarrow> in_hand S m0 (j, m')"
  unfolding in_hand_def carries_def using same_order_trans [of _ "fst jm" j] same_order_id [of "fst jm" j] by auto

lemma in_hand_log: "in_hand S m0 (i, m) \<Longrightarrow> same_order i j \<Longrightarrow> in_hand S m0 (log_job t s (j, m))"
  unfolding log_job_def Let_def fst_conv snd_conv
  using in_hand_save [of S m0 "(i, m)"] by (simp add: same_order_def job_request.truncate_def)

lemma in_hand_start: "dget (mem_jobs m) (job_id j) = Some j \<Longrightarrow> in_hand S m (j, m)"
  by (simp add: in_hand_def)

lemma in_hand_mark_running: "in_hand S m0 jm \<Longrightarrow> in_hand S m0 (mark_running t jm)"
  unfolding mark_running_def Let_def
  by (rule in_hand_log [where i = "fst jm"]) (simp_all add: same_order_def job_request.truncate_def)

lemma in_hand_mark_finished: "in_hand S m0 jm \<Longrightarrow> in_hand S m0 (mark_finished t ok jm)"
  unfolding mark_finished_def Let_def
  by (rule in_hand_log [where i = "fst jm"]) (simp_all add: same_order_def job_request.truncate_def)

lemma carries_requeue: 
  assumes h: "in_hand S m0 jm"
  shows "carries S m0 (snd (requeue_or_fail t r jm))"
proof -
  have st: "in_hand S m0 (log_job t s ((fst jm)\<lparr>job_status := st\<rparr>, snd jm))" for s st
    by (rule in_hand_log [where i = "fst jm"]) (use h in \<open>simp_all add: same_order_def job_request.truncate_def\<close>)
  have "carries S m0 (snd (log_job t s ((fst jm)\<lparr>job_status := st\<rparr>, snd jm)))" for s st
    by (rule in_hand_carries [OF st])
  moreover have "carries S m0 (ensure_job_queued k m)" if "carries S m0 m" for k m
    using that by (rule carries_trans) (simp add: carries_same)
  ultimately show ?thesis by (simp add: requeue_or_fail_def Let_def case_prod_unfold)
qed

section \<open>The handlers\<close>

lemma jobs_dispatch_job [simp]: "mem_jobs (fst (dispatch_job t out n j m)) = mem_jobs m"
  by (auto simp: dispatch_job_def dispatch_ok_def dispatch_failed_def Let_def split: http_outcome.split)

lemma in_hand_dispatch_all: "in_hand S m0 jm \<Longrightarrow> in_hand S m0 (fst (dispatch_all t net ns jm asg))"
proof (induction ns arbitrary: jm asg)
  case (Cons n ns)
  obtain m1 ok where d: "dispatch_job t (net (node_id n)) n (fst jm) (snd jm) = (m1, ok)" by fastforce
  have k: "mem_jobs m1 = mem_jobs (snd jm)" using jobs_dispatch_job [of t "net (node_id n)" n "fst jm" "snd jm"] d by simp
  have h: "in_hand S m0 (fst jm, m1)" by (rule in_hand_frame [OF Cons.prems _ k]) simp
  then have l: "in_hand S m0 (log_job t s (fst jm, m1))" for s by (rule in_hand_log) simp
  show ?case
  proof (cases ok)
    case True
    then show ?thesis using Cons.IH [OF h, of "asg @ [node_id n]"] by (simp add: d)
  next
    case False
    then show ?thesis using Cons.IH [OF l, of "''dispatch failure node='' @ node_id n" asg] by (simp add: d)
  qed
qed simp

lemma carries_schedule_job:
  assumes h: "in_hand S m0 (j, m)"
  shows "carries S m0 (schedule_job t net j m)"
proof -
  obtain jm asg where d: "dispatch_all t net (select_nodes j (dvalues (mem_nodes m))) (mark_running t (j, m)) [] = (jm, asg)"
    by fastforce
  have jm: "in_hand S m0 jm" using in_hand_dispatch_all [OF in_hand_mark_running [OF h]] d by (metis fst_conv)
  have "in_hand S m0 ((fst jm)\<lparr>job_assigned_nodes := asg\<rparr>, save_job ((fst jm)\<lparr>job_assigned_nodes := asg\<rparr>) (snd jm))"
    by (rule in_hand_save [OF jm]) (simp add: same_order_def job_request.truncate_def)
  from in_hand_carries [OF this]
  have "carries S m0 (persist_queue (save_job ((fst jm)\<lparr>job_assigned_nodes := asg\<rparr>) (snd jm)))"
    unfolding snd_conv by (rule carries_trans) (simp add: carries_same)
  moreover note carries_requeue [OF jm, of t "''partial_dispatch_failure''"]
  moreover have "carries S m0 (snd (log_job t ''retry limit reached before dispatch'' (j\<lparr>job_status := Failed\<rparr>, m)))"
    by (intro in_hand_carries in_hand_log [OF h]) (simp add: same_order_def job_request.truncate_def)
  moreover have "carries S m0 (emit t ''warning'' ''insufficient_nodes'' [(''job_id'', JStr (job_id j))]
      (snd (requeue_or_fail t ''insufficient_nodes'' (j, m))))"
    using carries_requeue [OF h, of t "''insufficient_nodes''"] by (rule carries_trans) (simp add: carries_same)
  moreover note in_hand_carries [OF h]
  ultimately show ?thesis by (simp add: schedule_job_def Let_def d)
qed

lemma carries_schedule_once:
  assumes m: "cp_inv {} m"
  shows "carries S m (schedule_once leader t locked net m)"
proof -
  obtain m1 r where p: "pop_next_job locked m = (m1, r)" by fastforce
  show ?thesis
  proof (cases r)
    case None
    with cp_inv_pop_None(1) [OF m, of locked m1] p show ?thesis by (simp add: schedule_once_def)
  next
    case (Some j)
    have "\<not> mem_pg m" using cp_inv_synced [OF m] by (simp add: synced_def)
    with p have "mem_jobs m1 = mem_jobs m"
      by (auto simp: pop_next_job_def pop_next_job_sqlite_def persist_queue_sqlite_def upd_db_def split: list.splits)
    then have "carries S m m1" by (rule carries_same)
    moreover have "carries S m1 (schedule_job t net j m1)"
      by (rule carries_schedule_job [OF in_hand_start]) (use cp_inv_pop [OF m] p Some in blast)
    ultimately show ?thesis using p Some carries_trans by (auto simp: schedule_once_def)
  qed
qed

lemma jobs_release [simp]: "mem_jobs (release_nodes t jid nids m) = mem_jobs m"
  unfolding release_nodes_def by (induction nids arbitrary: m) (simp_all add: release_node_def split: option.split)

lemma jobs_record_result [simp]: "mem_jobs (record_result t beta ok nid m) = mem_jobs m"
  by (simp add: record_result_def Let_def split: option.split)

lemma carries_job_result:
  assumes m: "cp_inv {} m" and r: "job_result leader t locked net beta nid jid payload ok m = Inr m'"
  shows "carries S m m'"
proof -
  obtain j where j: "dget (mem_jobs m) jid = Some j" using r by (auto simp: job_result_def split: option.splits)
  then have id: "job_id j = jid" using cp_inv_dget [OF m] by simp
  define jm where "jm = mark_finished t ok (j\<lparr>job_result := Some payload\<rparr>, m)"
  define m4 where "m4 = emit t ''info'' ''job_finished'' [(''job_id'', JStr jid), (''status'', JStr (status_name (job_status (fst jm)))),
      (''node_id'', JStr nid)] (release_nodes t jid (job_assigned_nodes (fst jm)) (record_result t beta ok nid (snd jm)))"
  define m5 where "m5 = (if job_status (fst jm) = Failed then snd (requeue_or_fail t ''node_reported_failure'' (fst jm, m4)) else m4)"
  have m': "m' = schedule_once leader t locked net m5"
    using r j unfolding m5_def m4_def by (auto simp add: job_result_def jm_def [symmetric] Let_def case_prod_unfold)
  have start: "in_hand S m (j, m)" using j id by (intro in_hand_start) simp
  have jm: "in_hand S m jm"
    unfolding jm_def by (intro in_hand_mark_finished in_hand_frame [OF start]) (simp_all add: same_order_def job_request.truncate_def)
  have h4: "in_hand S m (fst jm, m4)" by (rule in_hand_frame [OF jm]) (simp_all add: m4_def)
  have c5: "carries S m m5"
    using in_hand_carries [OF h4] carries_requeue [OF h4, of t "''node_reported_failure''"] by (simp add: m5_def)
  have jm5: "cp_inv {} m5"
  proof -
    have "attempts_ok (j\<lparr>job_result := Some payload\<rparr>)" using cp_inv_dget [OF m j] by (simp add: attempts_ok_def)
    then have a: "attempts_ok (fst jm)" by (simp add: jm_def)
    have "cp_inv {} (snd jm)" unfolding jm_def using cp_inv_dget [OF m j] m by (intro cp_inv_mark_finished) (simp_all add: attempts_ok_def)
    then have m4: "cp_inv {} m4" unfolding m4_def by auto
    have "cp_inv {} (snd (requeue_or_fail t ''node_reported_failure'' (fst jm, m4)))"
      using cp_inv_mono [OF m4] a by (intro cp_inv_requeue_or_fail) simp_all
    with m4 show ?thesis by (simp add: m5_def)
  qed
  show ?thesis unfolding m' using c5 carries_schedule_once [OF jm5] by (rule carries_trans)
qed

lemma carries_requeue_job:
  assumes m: "cp_inv {} m"
  shows "carries S m (requeue_job t jid m)"
proof (cases "dget (mem_jobs m) jid")
  case (Some j)
  then have "in_hand S m (j, m)" using cp_inv_dget [OF m Some] by (intro in_hand_start) simp
  then have "carries S m (snd (requeue_or_fail t ''node_dead_recovery'' (j, m)))" by (rule carries_requeue)
  then have "carries S m (emit t ''warning'' ''job_requeued'' [(''job_id'', JStr jid)] (snd (requeue_or_fail t ''node_dead_recovery'' (j, m))))"
    by (rule carries_trans) (simp add: carries_same)
  with Some show ?thesis by (simp add: requeue_job_def)
qed (simp add: requeue_job_def)

lemma carries_requeue_jobs: "cp_inv {} m \<Longrightarrow> carries S m (requeue_jobs t jids m)"
  unfolding requeue_jobs_def by (rule carries_fold [where P = "cp_inv {}"]) (auto intro: carries_requeue_job)

lemma carries_check_node:
  assumes m: "cp_inv {} m"
  shows "carries S m (check_node now da row m)"
proof -
  have inv: "cp_inv {} (fst (remove_node now (fst row)
      (emit now l e d (m\<lparr>mem_nodes := dput (fst row) n (mem_nodes m)\<rparr>))))" for l e d n
    unfolding remove_node_mutated using m by auto
  have "carries S m (requeue_jobs now js (fst (remove_node now (fst row)
      (emit now l e d (m\<lparr>mem_nodes := dput (fst row) n (mem_nodes m)\<rparr>)))))" for js l e d n
    using carries_same carries_requeue_jobs [OF inv] by (rule carries_trans) simp
  then show ?thesis by (simp add: check_node_def Let_def)
qed

section \<open>Runs\<close>

fun submits :: "cp_event \<Rightarrow> string set" where
  "submits (Submit leader t net r) = {job_id r}"
| "submits ev = {}"

lemma carries_enqueue: "dget (mem_jobs m) (job_id j) = None \<or> job_id j \<in> S \<Longrightarrow> carries S m (enqueue_job j m)"
  by (auto simp: carries_def)

lemma carries_step:
  assumes m: "cp_inv {} m"
  shows "carries (submits ev) m (cp_step ev m)"
proof (cases ev)
  case (Submit leader t net r)
  let ?m = "emit t ''info'' ''job_submitted'' [(''job_id'', JStr (job_id (build_job_record t r)))] (enqueue_job (build_job_record t r) m)"
  have "cp_inv {} (enqueue_job (build_job_record t r) m)"
    by (rule cp_inv_enqueue_job [OF m]) (simp add: build_job_record_def attempts_ok_def MAX_JOB_RETRIES_def)
  then have "cp_inv {} ?m" by auto
  have "carries {job_id r} m (enqueue_job (build_job_record t r) m)" by (rule carries_enqueue) (simp add: build_job_record_def)
  then have "carries {job_id r} m ?m" by (rule carries_trans) (simp add: carries_same)
  then have "carries {job_id r} m (schedule_once leader t [] net ?m)"
    using carries_schedule_once [OF \<open>cp_inv {} ?m\<close>] by (rule carries_trans)
  then show ?thesis by (simp add: Submit submit_job_def Let_def)
next
  case (Result leader t net beta nid jid payload ok)
  then show ?thesis using carries_job_result [OF m, of leader t "[]" net beta nid jid payload ok] by (simp split: sum.split)
next
  case (HealthCheck now da)
  have "carries {} m (check_nodes_once now da m)"
    unfolding check_nodes_once_def by (rule carries_fold [where P = "cp_inv {}"]) (use m in \<open>auto intro: carries_check_node\<close>)
  with HealthCheck show ?thesis by simp
next
  case (Provision t out ntype)
  then show ?thesis by (auto intro!: carries_same simp: provision_node_def register_node_def Let_def split: provision_outcome.split)
next
  case Restart
  have s: "synced m" by (rule cp_inv_synced [OF m])
  then have "dget (db_jobs (mem_db m)) k = dget (mem_jobs m) k" for k
    by (auto simp: synced_def keyed_def intro: dwf_same_dget)
  then show ?thesis using restore_synced [OF s] by (simp add: Restart carries_def restore_sqlite_def)
qed (use m carries_schedule_once in \<open>auto intro!: carries_same simp: heartbeat_def register_def register_node_def Let_def split: option.split sum.split\<close>)

text \<open>Over any run the jobs that it does not submit again keep their orders.\<close>

lemma carries_run: "cp_inv {} m \<Longrightarrow> (\<And>ev. ev \<in> set evs \<Longrightarrow> submits ev \<subseteq> S) \<Longrightarrow> carries S m (cp_run evs m) \<and> cp_inv {} (cp_run evs m)"
proof (induction evs arbitrary: m)
  case (Cons ev evs)
  have "carries S m (cp_step ev m)" using carries_step [OF Cons.prems(1)] Cons.prems(2) by (rule carries_mono) simp
  with Cons.IH [OF cp_inv_step [OF Cons.prems(1)]] Cons.prems(2) carries_trans show ?case
    unfolding cp_run_def by fastforce
qed (simp add: cp_run_def)

end
