(* ===== verification/MeshHost.thy ===== *)
theory MeshHost
  imports MeshRouting ReplicatedQueue EventLog JobOrders Signatures
begin

text \<open>
  A cluster as a member of the mesh: the runtime that \<open>control_plane/mesh_bootstrap.py\<close> starts and the
  handlers of \<open>control_plane/mesh_routes.py\<close>, which put the peer registry, the event log, the replicated
  queue, the request signatures and the control plane's memory together. A host is the runtime, when the
  mesh is enabled, and the memory, when the routes are wired. A body is the record of its fields after the
  conversions of the handler (\<open>str\<close>, \<open>int\<close>, \<open>bool\<close>) with their defaults. HMAC, canonical text and digest
  are part of the configuration; \<open>uuid\<close> and \<open>token\<close> are the random ids of a handler.
  \<open>int(time.time())\<close> is the floor of the clock.
\<close>

section \<open>Hosts\<close>

record mesh_metrics =
  mm_gossip :: gossip_metrics
  mm_routes_attempted :: nat
  mm_routes_succeeded :: nat
  mm_routes_failed :: nat
  mm_queue_replications :: nat
  mm_anti_entropy_ticks :: nat

definition new_mesh_metrics :: mesh_metrics where
  "new_mesh_metrics =
     \<lparr>mm_gossip = \<lparr>gossip_messages_in = 0, gossip_success = 0, gossip_failures = 0\<rparr>, mm_routes_attempted = 0,
      mm_routes_succeeded = 0, mm_routes_failed = 0, mm_queue_replications = 0, mm_anti_entropy_ticks = 0\<rparr>"

record mesh_runtime =
  rt_cluster_id :: string
  rt_public_url :: string
  rt_region :: string
  rt_registry :: registry
  rt_log :: event_log
  rt_replicated :: rep_jobs
  rt_metrics :: mesh_metrics
  rt_partition :: partition_state

record mesh_host =
  mh_runtime :: "mesh_runtime option"
  mh_memory :: "cluster_memory option"

definition build_snapshot :: "pyfloat \<Rightarrow> cluster_memory \<Rightarrow> string \<Rightarrow> string \<Rightarrow> string \<Rightarrow> gossip_state" where
  "build_snapshot t m cid url region =
     (let ns = dvalues (mem_nodes m)
      in \<lparr>gos_cluster_id = cid, gos_public_url = rstrip_slash url, gos_region = region,
          gos_gpu_capacity = int (length (filter node_has_gpu ns)), gos_load = node_mean node_current_load ns,
          gos_health = (if ns = [] then ''degraded'' else ''healthy''), gos_queue_depth = int (length (queue_snapshot m)),
          gos_latency_ms = node_mean node_avg_latency_ms ns, gos_heartbeat_ts = t, gos_version = \<lfloor>t\<rfloor>,
          gos_reliability = 1, gos_hop_distance = 0\<rparr>)"

record mesh_environ =
  me_mode :: string
  me_enabled :: string
  me_cluster_id :: string
  me_public_url :: string
  me_region :: string

definition mesh_enabled :: "mesh_environ \<Rightarrow> bool" where
  "mesh_enabled e =
     (if py_strip (py_lower (me_mode e)) = ''mesh'' then True else py_lower (me_enabled e) \<in> {''1'', ''true'', ''yes''})"

text \<open>The three stores open their database files: \<open>tables\<close> is what an earlier run left there.\<close>

definition maybe_start_mesh ::
    "pyfloat \<Rightarrow> mesh_environ \<Rightarrow> registry \<times> event_log \<times> rep_jobs \<Rightarrow> cluster_memory \<Rightarrow> mesh_runtime option \<Rightarrow> mesh_runtime option" where
  "maybe_start_mesh t e tables m current =
     (if \<not> mesh_enabled e then current
      else if current \<noteq> None then current
      else let cid = py_strip (me_cluster_id e); url = py_strip (me_public_url e); region = py_strip (me_region e) in
        if cid = [] \<or> url = [] then current
        else let (r, l, q) = tables;
                 self = to_peer_record t (build_snapshot t m cid url region)
             in Some \<lparr>rt_cluster_id = cid, rt_public_url = url, rt_region = region, rt_registry = fst (merge_state [self] r),
                      rt_log = l, rt_replicated = q, rt_metrics = new_mesh_metrics,
                      rt_partition = \<lparr>part_unreachable = {}, part_last_ts = 0\<rparr>\<rparr>)"

section \<open>Requests\<close>

record routed_job =
  rb_id :: string
  rb_type :: string
  rb_task :: string
  rb_required :: "int option"
  rb_power :: string
  rb_gpu :: bool
  rb_source :: string

datatype mesh_body =
    GossipBody gossip_envelope
  | RouteBody routed_job
  | ForwardBody string
  | MergeBody "remote_event list option"

record mesh_config =
  mc_hmac :: hmac_fun
  mc_secret :: string
  mc_canonical :: "mesh_body \<Rightarrow> string"
  mc_sha256 :: "string \<Rightarrow> string"
  mc_trusted :: string
  mc_lease :: pyfloat
  mc_network_cost :: rat

record mesh_headers =
  hd_signature :: "string option"
  hd_timestamp :: "string option"

datatype mesh_response =
    MAck nat
  | MAccepted string
  | MDuplicate string
  | MForwarded string rat
  | MInserted nat
  | MError nat string

fun split_on :: "char \<Rightarrow> string \<Rightarrow> string list" where
  "split_on c [] = [[]]"
| "split_on c (x # xs) =
     (if x = c then [] # split_on c xs else (case split_on c xs of [] \<Rightarrow> [[x]] | p # ps \<Rightarrow> (x # p) # ps))"

definition peer_trusted :: "string \<Rightarrow> string \<Rightarrow> bool" where
  "peer_trusted setting cid =
     (let raw = py_strip setting
      in if raw = [] then True else cid \<in> set (filter (\<lambda>x. x \<noteq> []) (map py_strip (split_on CHR '','' raw))))"

definition mesh_verified :: "mesh_config \<Rightarrow> pyfloat \<Rightarrow> mesh_body \<Rightarrow> mesh_headers \<Rightarrow> bool" where
  "mesh_verified c t body hs =
     verify_incoming_gossip (mc_hmac c) \<lfloor>t\<rfloor> (mc_secret c) (mc_canonical c body) (hd_timestamp hs) (hd_signature hs)"

text \<open>A \<open>ValueError\<close>, that is an unknown name, a count that is no number or one that the model refuses, is None.\<close>

definition request_of_body :: "routed_job \<Rightarrow> job_request option" where
  "request_of_body b =
     (case (type_of_name (rb_type b), rb_required b, power_of_name (rb_power b)) of
        (Some ty, Some n, Some p) \<Rightarrow>
          let r = \<lparr>job_id = py_strip (rb_id b), job_type = ty, job_task = rb_task b, job_required_nodes = n,
                   job_power = p, job_gpu_required = rb_gpu b\<rparr>
          in if valid_job_request r then Some r else None
      | _ \<Rightarrow> None)"

section \<open>Handlers\<close>

text \<open>An event of the log; the rare clash of two random ids is an exception that nothing catches.\<close>

definition mesh_gossip ::
    "mesh_config \<Rightarrow> pyfloat \<Rightarrow> string \<Rightarrow> gossip_envelope \<Rightarrow> mesh_headers \<Rightarrow> mesh_host \<Rightarrow> mesh_host \<times> mesh_response" where
  "mesh_gossip c t uuid env hs h =
     (case mh_runtime h of
        None \<Rightarrow> (h, MError 503 ''mesh disabled'')
      | Some rt \<Rightarrow>
          if \<not> mesh_verified c t (GossipBody env) hs then (h, MError 403 ''invalid mesh signature or timestamp'')
          else if \<not> peer_trusted (mc_trusted c) (gos_cluster_id (env_sender env)) then (h, MError 403 ''untrusted peer'')
          else let ((r, g), merged) = handle_incoming t env (rt_registry rt, mm_gossip (rt_metrics rt));
                   rt1 = rt\<lparr>rt_registry := r\<rparr>;
                   counted = (\<lambda>x. x\<lparr>rt_metrics := (rt_metrics x)\<lparr>mm_gossip := g\<rparr>\<rparr>)
               in if merged = 0 then (h\<lparr>mh_runtime := Some (counted rt1)\<rparr>, MAck merged)
                  else case log_append uuid t ''PEER_DISCOVERED'' (JObj [(''merged'', JNum (of_nat merged))]) (rt_cluster_id rt)
                              (rt_log rt1) of
                         Inl e \<Rightarrow> (h\<lparr>mh_runtime := Some rt1\<rparr>, MError 500 ''IntegrityError'')
                       | Inr (l, ev) \<Rightarrow> (h\<lparr>mh_runtime := Some (counted (rt1\<lparr>rt_log := l\<rparr>))\<rparr>, MAck merged))"

definition routed_record :: "pyfloat \<Rightarrow> routed_job \<Rightarrow> job_request \<Rightarrow> job_record" where
  "routed_record t b r = (build_job_record t r)\<lparr>job_originating_cluster_id := Some (rb_source b)\<rparr>"

definition queued_replica :: "(string \<Rightarrow> string) \<Rightarrow> string \<Rightarrow> string \<Rightarrow> job_record \<Rightarrow> rep_job" where
  "queued_replica sha256 token cid j =
     \<lparr>rj_job_id = job_id j, rj_state = ''queued'', rj_owner_cluster_id = cid, rj_claim_token = token, rj_updated_at = 0,
      rj_payload_digest = take 24 (sha256 (job_task j))\<rparr>"

text \<open>What is done with a job that is new here; \<open>sched\<close> is the scheduling step that is wired in.\<close>

definition admit_routed ::
    "mesh_config \<Rightarrow> pyfloat \<Rightarrow> string \<Rightarrow> string \<Rightarrow> (cluster_memory \<Rightarrow> cluster_memory) \<Rightarrow> job_record \<Rightarrow> mesh_runtime \<Rightarrow> cluster_memory
      \<Rightarrow> mesh_host \<times> mesh_response" where
  "admit_routed c t uuid token sched j rt m =
     (let rt1 = rt\<lparr>rt_replicated := rq_upsert (mc_lease c) t (queued_replica (mc_sha256 c) token (rt_cluster_id rt) j) (rt_replicated rt)\<rparr>;
          m1 = enqueue_job j m
      in case log_append uuid t ''JOB_CREATED'' (JObj [(''job_id'', JStr (job_id j)), (''via'', JStr ''mesh_route'')])
                (rt_cluster_id rt) (rt_log rt1) of
           Inl e \<Rightarrow> (\<lparr>mh_runtime = Some rt1, mh_memory = Some m1\<rparr>, MError 500 ''IntegrityError'')
         | Inr (l, ev) \<Rightarrow>
             (\<lparr>mh_runtime = Some (rt1\<lparr>rt_log := l,
                 rt_metrics := (rt_metrics rt1)\<lparr>mm_routes_succeeded := mm_routes_succeeded (rt_metrics rt1) + 1\<rparr>\<rparr>),
               mh_memory = Some (sched m1)\<rparr>, MAccepted (job_id j)))"

definition receive_routed_job ::
    "mesh_config \<Rightarrow> pyfloat \<Rightarrow> string \<Rightarrow> string \<Rightarrow> (cluster_memory \<Rightarrow> cluster_memory) \<Rightarrow> routed_job \<Rightarrow> mesh_headers \<Rightarrow> mesh_host
      \<Rightarrow> mesh_host \<times> mesh_response" where
  "receive_routed_job c t uuid token sched b hs h =
     (case (mh_runtime h, mh_memory h) of
        (Some rt, Some m) \<Rightarrow>
          if \<not> mesh_verified c t (RouteBody b) hs then (h, MError 403 ''invalid mesh signature or timestamp'')
          else if \<not> peer_trusted (mc_trusted c) (rb_source b) then (h, MError 403 ''untrusted source'')
          else if py_strip (rb_id b) = [] then (h, MError 400 ''job id required'')
          else (case request_of_body b of
                  None \<Rightarrow> (h, MError 400 ''invalid job'')
                | Some r \<Rightarrow>
                    if dget (mem_jobs m) (job_id r) \<noteq> None then (h, MDuplicate (job_id r))
                    else admit_routed c t uuid token sched (routed_record t b r) rt m)
      | _ \<Rightarrow> (h, MError 503 ''mesh disabled''))"

definition forward_payload :: "string \<Rightarrow> job_record \<Rightarrow> routed_job" where
  "forward_payload cid j =
     \<lparr>rb_id = job_id j, rb_type = type_name (job_type j), rb_task = job_task j, rb_required = Some (job_required_nodes j),
      rb_power = power_name (job_power j), rb_gpu = job_gpu_required j, rb_source = cid\<rparr>"

definition signed_headers :: "mesh_config \<Rightarrow> pyfloat \<Rightarrow> mesh_body \<Rightarrow> mesh_headers" where
  "signed_headers c t body =
     (let (s, ts) = mesh_auth_headers (mc_hmac c) \<lfloor>t\<rfloor> (mc_secret c) (mc_canonical c body)
      in \<lparr>hd_signature = Some s, hd_timestamp = Some ts\<rparr>)"

definition migrated_replica :: "string \<Rightarrow> string \<Rightarrow> string \<Rightarrow> rep_job" where
  "migrated_replica token jid cid =
     \<lparr>rj_job_id = jid, rj_state = ''migrated'', rj_owner_cluster_id = cid, rj_claim_token = token, rj_updated_at = 0,
      rj_payload_digest = []\<rparr>"

definition route_failed :: "mesh_runtime \<Rightarrow> mesh_runtime" where
  "route_failed rt = rt\<lparr>rt_metrics := (rt_metrics rt)\<lparr>mm_routes_failed := mm_routes_failed (rt_metrics rt) + 1\<rparr>\<rparr>"

text \<open>\<open>net\<close> answers a POST to an address with a status code, or not at all.\<close>

definition forward_job ::
    "mesh_config \<Rightarrow> pyfloat \<Rightarrow> string \<Rightarrow> (string \<Rightarrow> routed_job \<Rightarrow> mesh_headers \<Rightarrow> nat option) \<Rightarrow> string \<Rightarrow> mesh_headers \<Rightarrow> mesh_host
      \<Rightarrow> mesh_host \<times> mesh_response" where
  "forward_job c t token net jid hs h =
     (case (mh_runtime h, mh_memory h) of
        (Some rt, Some m) \<Rightarrow>
          if \<not> mesh_verified c t (ForwardBody jid) hs then (h, MError 403 ''invalid mesh signature or timestamp'')
          else (case dget (mem_jobs m) jid of
                  None \<Rightarrow> (h, MError 404 ''job not found'')
                | Some j \<Rightarrow>
                    (case best_forward (mc_network_cost c) (rt_cluster_id rt) (rt_region rt) j (rt_registry rt) of
                       None \<Rightarrow> (h\<lparr>mh_runtime := Some (route_failed rt)\<rparr>, MError 409 ''no eligible peer'')
                     | Some d \<Rightarrow>
                         let rt1 = rt\<lparr>rt_metrics := (rt_metrics rt)\<lparr>mm_routes_attempted := mm_routes_attempted (rt_metrics rt) + 1\<rparr>\<rparr>;
                             body = forward_payload (rt_cluster_id rt) j
                         in case net (rd_target_public_url d @ ''/mesh/receive_routed_job'') body (signed_headers c t (RouteBody body)) of
                              None \<Rightarrow> (h\<lparr>mh_runtime := Some (route_failed rt1)\<rparr>, MError 502 ''request failed'')
                            | Some status \<Rightarrow>
                                if status \<ge> 400
                                then (h\<lparr>mh_runtime := Some (route_failed rt1)\<rparr>, MError 502 (''peer returned '' @ string_of_nat status))
                                else (h\<lparr>mh_runtime := Some (rt1\<lparr>
                                          rt_metrics := (rt_metrics rt1)\<lparr>mm_routes_succeeded := mm_routes_succeeded (rt_metrics rt1) + 1\<rparr>,
                                          rt_replicated := rq_upsert (mc_lease c) t (migrated_replica token (job_id j) (rd_target_cluster_id d))
                                            (rt_replicated rt1)\<rparr>)\<rparr>,
                                      MForwarded (rd_target_public_url d) (rd_score d))))
      | _ \<Rightarrow> (h, MError 503 ''mesh disabled''))"

definition mesh_events_merge ::
    "mesh_config \<Rightarrow> pyfloat \<Rightarrow> remote_event list option \<Rightarrow> mesh_headers \<Rightarrow> mesh_host \<Rightarrow> mesh_host \<times> mesh_response" where
  "mesh_events_merge c t events hs h =
     (case mh_runtime h of
        None \<Rightarrow> (h, MError 503 ''mesh disabled'')
      | Some rt \<Rightarrow>
          if \<not> mesh_verified c t (MergeBody events) hs then (h, MError 403 ''invalid mesh signature or timestamp'')
          else (case events of
                  None \<Rightarrow> (h, MError 400 ''events must be a list'')
                | Some es \<Rightarrow>
                    let (l, inserted) = merge_events t es (rt_log rt)
                    in (h\<lparr>mh_runtime := Some (rt\<lparr>rt_log := l,
                          rt_metrics := (rt_metrics rt)\<lparr>mm_queue_replications := mm_queue_replications (rt_metrics rt) + inserted\<rparr>\<rparr>)\<rparr>,
                        MInserted inserted)))"

text \<open>What the views answer.\<close>

definition mesh_peers_view :: "mesh_host \<Rightarrow> peer list option" where
  "mesh_peers_view h = map_option (\<lambda>rt. list_peers (rt_registry rt)) (mh_runtime h)"

definition mesh_events_view :: "nat \<Rightarrow> nat \<Rightarrow> mesh_host \<Rightarrow> (mesh_event list \<times> nat) option" where
  "mesh_events_view since limit h = map_option (\<lambda>rt. (replay since limit (rt_log rt), last_seq (rt_log rt))) (mh_runtime h)"

definition mesh_failover_snapshot :: "pyfloat \<Rightarrow> cluster_memory \<Rightarrow> registry \<Rightarrow> string list \<times> nat" where
  "mesh_failover_snapshot t m r = (detect_orphaned_jobs t 180 m, length (list_peers r))"

definition sample_ranking :: "mesh_config \<Rightarrow> mesh_runtime \<Rightarrow> cluster_memory \<Rightarrow> route_decision list option" where
  "sample_ranking c rt m =
     (case take 1 (queue_snapshot m) of
        [] \<Rightarrow> None
      | jid # _ \<Rightarrow>
          (case dget (mem_jobs m) jid of
             None \<Rightarrow> None
           | Some j \<Rightarrow> Some (take 8 (rank_peers_for_job (mc_network_cost c) (rt_cluster_id rt) (rt_region rt) j (rt_registry rt)))))"

section \<open>Runs of a host\<close>

datatype mesh_call =
    CallGossip pyfloat string gossip_envelope mesh_headers
  | CallReceive pyfloat string string bool "string \<Rightarrow> http_outcome" routed_job mesh_headers
  | CallForward pyfloat string "string \<Rightarrow> routed_job \<Rightarrow> mesh_headers \<Rightarrow> nat option" string mesh_headers
  | CallMerge pyfloat "remote_event list option" mesh_headers
  | CallCluster cp_event

fun mesh_step :: "mesh_config \<Rightarrow> mesh_call \<Rightarrow> mesh_host \<Rightarrow> mesh_host \<times> mesh_response list" where
  "mesh_step c (CallGossip t uuid env hs) h = map_prod id (\<lambda>x. [x]) (mesh_gossip c t uuid env hs h)"
| "mesh_step c (CallReceive t uuid token leader net b hs) h =
     map_prod id (\<lambda>x. [x]) (receive_routed_job c t uuid token (schedule_once leader t [] net) b hs h)"
| "mesh_step c (CallForward t token net jid hs) h = map_prod id (\<lambda>x. [x]) (forward_job c t token net jid hs h)"
| "mesh_step c (CallMerge t es hs) h = map_prod id (\<lambda>x. [x]) (mesh_events_merge c t es hs h)"
| "mesh_step c (CallCluster ev) h = (h\<lparr>mh_memory := map_option (cp_step ev) (mh_memory h)\<rparr>, [])"

fun call_body :: "mesh_call \<Rightarrow> (mesh_body \<times> mesh_headers) option" where
  "call_body (CallGossip t uuid env hs) = Some (GossipBody env, hs)"
| "call_body (CallReceive t uuid token leader net b hs) = Some (RouteBody b, hs)"
| "call_body (CallForward t token net jid hs) = Some (ForwardBody jid, hs)"
| "call_body (CallMerge t es hs) = Some (MergeBody es, hs)"
| "call_body (CallCluster ev) = None"

text \<open>
  C0. Without the secret of the mesh nothing can be done to a host: a call to one of its four routes whose
  signature is not the HMAC of its body is answered 403 (503 when the mesh is off) and changes nothing.
\<close>

theorem forged_call_refused:
  assumes "mc_secret c \<noteq> []" "call_body call = Some (body, hs)"
    and "hd_signature hs \<noteq> Some (mc_hmac c (mc_secret c) (mc_canonical c body))"
  shows "\<exists>code msg. mesh_step c call h = (h, [MError code msg]) \<and> code \<in> {403, 503}"
proof -
  have "\<not> mesh_verified c t body hs" for t using assms by (simp add: mesh_verified_def mesh_accepts_iff)
  with assms(2) show ?thesis
    by (cases call) (auto simp: mesh_gossip_def receive_routed_job_def forward_job_def mesh_events_merge_def split: option.splits)
qed

section \<open>Every run of a host\<close>

definition host_ok :: "mesh_host \<Rightarrow> bool" where
  "host_ok h \<longleftrightarrow> (case mh_runtime h of None \<Rightarrow> True | Some rt \<Rightarrow> log_ok (rt_log rt))
     \<and> (case mh_memory h of None \<Rightarrow> True | Some m \<Rightarrow> cp_inv {} m)"

abbreviation known :: "cluster_memory \<Rightarrow> string set" where
  "known m \<equiv> fst ` set (mem_jobs m)"

definition known_jobs :: "mesh_host \<Rightarrow> string set" where
  "known_jobs h = (case mh_memory h of None \<Rightarrow> {} | Some m \<Rightarrow> known m)"

text \<open>What one call does to a host.\<close>

definition host_step_ok :: "mesh_host \<Rightarrow> mesh_host \<Rightarrow> mesh_response list \<Rightarrow> bool" where
  "host_step_ok h h' rs \<longleftrightarrow> host_ok h' \<and> (mh_runtime h' = None \<longleftrightarrow> mh_runtime h = None)
     \<and> (mh_memory h' = None \<longleftrightarrow> mh_memory h = None) \<and> known_jobs h \<subseteq> known_jobs h' \<and> length rs \<le> 1
     \<and> (\<forall>jid. MAccepted jid \<in> set rs \<longrightarrow> jid \<notin> known_jobs h \<and> jid \<in> known_jobs h')"

lemma step_refused: "host_ok h \<Longrightarrow> \<forall>jid. MAccepted jid \<noteq> r \<Longrightarrow> host_step_ok h h [r]"
  by (simp add: host_step_ok_def)

lemma step_runtime:
  "host_ok h \<Longrightarrow> mh_runtime h \<noteq> None \<Longrightarrow> mh_runtime h' = Some rt \<Longrightarrow> log_ok (rt_log rt) \<Longrightarrow> mh_memory h' = mh_memory h \<Longrightarrow>
     \<forall>jid. MAccepted jid \<noteq> r \<Longrightarrow> host_step_ok h h' [r]"
  by (simp add: host_step_ok_def host_ok_def known_jobs_def)

lemma gossip_step:
  assumes ok: "host_ok h" and st: "mesh_gossip c t uuid env hs h = (h', r)"
  shows "host_step_ok h h' [r]"
proof (cases "mh_runtime h")
  case (Some rt)
  have log: "log_ok (rt_log rt)" using ok Some by (simp add: host_ok_def)
  have app: "log_ok l" if "log_append uuid t ty p src (rt_log rt) = Inr (l, ev)" for ty p src l ev
    using that log_append_ok log by blast
  obtain rg merged where in': "handle_incoming t env (rt_registry rt, mm_gossip (rt_metrics rt)) = (rg, merged)" by fastforce
  from st ok log Some show ?thesis
    unfolding mesh_gossip_def Some option.case Let_def in' case_prod_unfold fst_conv snd_conv
    by (auto split: if_splits sum.splits intro!: step_refused step_runtime dest: app simp: Some)
qed (use st ok in \<open>auto simp: mesh_gossip_def intro: step_refused\<close>)

lemma merge_step:
  assumes ok: "host_ok h" and st: "mesh_events_merge c t es hs h = (h', r)"
  shows "host_step_ok h h' [r]"
proof (cases "mh_runtime h")
  case (Some rt)
  have log: "log_ok (rt_log rt)" using ok Some by (simp add: host_ok_def)
  have "log_ok (fst (merge_events t xs (rt_log rt)))" for xs using merge_events_ok [OF log] by simp
  with st ok Some show ?thesis
    unfolding mesh_events_merge_def Some option.case Let_def case_prod_unfold
    by (auto split: if_splits option.splits intro!: step_refused step_runtime simp: Some)
qed (use st ok in \<open>auto simp: mesh_events_merge_def intro: step_refused\<close>)

lemma forward_step:
  assumes ok: "host_ok h" and st: "forward_job c t token net jid hs h = (h', r)"
  shows "host_step_ok h h' [r]"
proof (cases "mh_runtime h")
  case (Some rt)
  have log: "log_ok (rt_log rt)" using ok Some by (simp add: host_ok_def)
  show ?thesis
  proof (cases "mh_memory h")
    case (Some m)
    from st ok log \<open>mh_runtime h = Some rt\<close> show ?thesis
      unfolding forward_job_def \<open>mh_runtime h = Some rt\<close> Some option.case prod.case Let_def
      by (auto split: if_splits option.splits intro!: step_refused step_runtime simp: route_failed_def \<open>mh_runtime h = Some rt\<close>)
  qed (use st ok in \<open>auto simp: forward_job_def intro: step_refused split: option.splits\<close>)
qed (use st ok in \<open>auto simp: forward_job_def intro: step_refused\<close>)

lemma request_id: "request_of_body b = Some r \<Longrightarrow> job_id r = py_strip (rb_id b)"
  by (auto simp: request_of_body_def Let_def split: option.splits if_splits)

lemma routed_record_simps [simp]:
  "job_id (routed_record t b r) = job_id r" "attempts_ok (routed_record t b r)"
  "job_originating_cluster_id (routed_record t b r) = Some (rb_source b)"
  by (simp_all add: routed_record_def build_job_record_def attempts_ok_def MAX_JOB_RETRIES_def)

lemma receive_step:
  assumes ok: "host_ok h" and st: "receive_routed_job c t uuid token (schedule_once leader t [] net) b hs h = (h', resp)"
  shows "host_step_ok h h' [resp]"
proof (cases "\<exists>rt m. mh_runtime h = Some rt \<and> mh_memory h = Some m")
  case True
  then obtain rt m where h: "mh_runtime h = Some rt" "mh_memory h = Some m" by blast
  have log: "log_ok (rt_log rt)" and inv: "cp_inv {} m" using ok h by (simp_all add: host_ok_def)
  have app: "log_ok l" if "log_append uuid t ty p src (rt_log rt) = Inr (l, ev)" for ty p src l ev
    using that log_append_ok log by blast
  have admit: "host_step_ok h (fst (admit_routed c t uuid token (schedule_once leader t [] net) j rt m))
      [snd (admit_routed c t uuid token (schedule_once leader t [] net) j rt m)]"
    if j: "job_id j \<notin> known m" "attempts_ok j" for j
  proof -
    have e: "cp_inv {} (enqueue_job j m)" by (rule cp_inv_enqueue_job [OF inv j(2)])
    have k: "insert (job_id j) (known m) \<subseteq> known (schedule_once leader t [] net (enqueue_job j m))"
      using carries_known [OF carries_schedule_once [OF e], of leader t "[]" net] by simp
    show ?thesis
      using e k j log unfolding admit_routed_def Let_def
      by (auto simp: host_step_ok_def host_ok_def known_jobs_def h split: sum.split intro: app)
  qed
  have new: "job_id (routed_record t b r) \<notin> known m" if "dget (mem_jobs m) (job_id r) = None" for r
    using that by (simp add: dget_None_iff)
  from st ok show ?thesis
    unfolding receive_routed_job_def h option.case prod.case
    using admit [OF new] by (auto split: if_splits option.splits intro!: step_refused) (metis fst_conv snd_conv)
next
  case False
  with st ok show ?thesis
    by (auto simp: receive_routed_job_def intro!: step_refused split: option.splits)
qed

lemma mesh_step_ok:
  assumes ok: "host_ok h" and st: "mesh_step c call h = (h', rs)"
  shows "host_step_ok h h' rs"
proof (cases call)
  case (CallCluster ev)
  with st have h': "h' = h\<lparr>mh_memory := map_option (cp_step ev) (mh_memory h)\<rparr>" and rs: "rs = []" by simp_all
  show ?thesis
  proof (cases "mh_memory h")
    case (Some m)
    with ok have "cp_inv {} m" by (simp add: host_ok_def)
    with carries_known [OF carries_step [OF this, of ev]] cp_inv_step [OF this, of ev] ok Some show ?thesis
      by (auto simp: host_step_ok_def host_ok_def known_jobs_def h' rs)
  qed (use ok in \<open>simp add: host_step_ok_def host_ok_def known_jobs_def h' rs\<close>)
next
  case (CallReceive t uuid token leader net b hs)
  with st receive_step [OF ok] show ?thesis by (cases "receive_routed_job c t uuid token (schedule_once leader t [] net) b hs h") auto
next
  case (CallGossip t uuid env hs)
  with st gossip_step [OF ok] show ?thesis by (cases "mesh_gossip c t uuid env hs h") auto
next
  case (CallForward t token net jid hs)
  with st forward_step [OF ok] show ?thesis by (cases "forward_job c t token net jid hs h") auto
next
  case (CallMerge t es hs)
  with st merge_step [OF ok] show ?thesis by (cases "mesh_events_merge c t es hs h") auto
qed

lemma mesh_run_ok:
  "host_ok h \<Longrightarrow> run_outputs (mesh_step c) calls h = (h', rs) \<Longrightarrow>
     host_ok h' \<and> (mh_runtime h' = None \<longleftrightarrow> mh_runtime h = None) \<and> (mh_memory h' = None \<longleftrightarrow> mh_memory h = None)
     \<and> count_list rs (MAccepted jid) \<le> (if jid \<in> known_jobs h then 0 else 1)"
proof (induction calls arbitrary: h rs)
  case (Cons call calls)
  obtain h1 rs1 where one: "mesh_step c call h = (h1, rs1)" by fastforce
  obtain rs2 where rest: "run_outputs (mesh_step c) calls h1 = (h', rs2)" and rs: "rs = rs1 @ rs2"
    using Cons.prems(2) one by (auto split: prod.splits)
  note k = mesh_step_ok [OF Cons.prems(1) one, unfolded host_step_ok_def]
  have ih: "host_ok h'" "mh_runtime h' = None \<longleftrightarrow> mh_runtime h = None" "mh_memory h' = None \<longleftrightarrow> mh_memory h = None"
      "count_list rs2 (MAccepted jid) \<le> (if jid \<in> known_jobs h1 then 0 else 1)"
    using Cons.IH [OF _ rest] k by simp_all
  have "count_list rs1 (MAccepted jid) \<le> 1" using k count_le_length [of rs1 "MAccepted jid"] by linarith
  then have "count_list rs (MAccepted jid) \<le> (if jid \<in> known_jobs h then 0 else 1)"
    using ih k by (cases "MAccepted jid \<in> set rs1") (auto simp: rs split: if_splits)
  with ih show ?case by simp
qed simp

lemma start_host_ok:
  assumes "log_ok l" "maybe_start_mesh t e (r, l, q) m None = Some rt"
  shows "log_ok (rt_log rt)"
  using assms by (auto simp: maybe_start_mesh_def Let_def split: if_splits)


section \<open>From one cluster to another\<close>

text \<open>The two hosts of a forwarded job: \<open>arrive\<close> answers the sender with the status of the receiver.\<close>

fun status_code :: "mesh_response \<Rightarrow> nat" where
  "status_code (MError n msg) = n"
| "status_code r = 200"

definition arrive ::
    "mesh_config \<Rightarrow> pyfloat \<Rightarrow> string \<Rightarrow> string \<Rightarrow> (cluster_memory \<Rightarrow> cluster_memory) \<Rightarrow> mesh_host
      \<Rightarrow> string \<Rightarrow> routed_job \<Rightarrow> mesh_headers \<Rightarrow> nat option" where
  "arrive c t uuid token sched h url b hs = Some (status_code (snd (receive_routed_job c t uuid token sched b hs h)))"

lemma payload_read:
  "valid_job_request j \<Longrightarrow> py_strip (job_id j) = job_id j \<Longrightarrow>
     request_of_body (forward_payload cid j) = Some \<lparr>job_id = job_id j, job_type = job_type j, job_task = job_task j,
       job_required_nodes = job_required_nodes j, job_power = job_power j, job_gpu_required = job_gpu_required j\<rparr>"
  by (simp add: request_of_body_def forward_payload_def valid_job_request_def Let_def)

lemma signed_verified:
  assumes "mc_secret c' = mc_secret c" "mc_hmac c' = mc_hmac c" "mc_canonical c' = mc_canonical c"
    and "mc_hmac c (mc_secret c) (mc_canonical c b) \<noteq> []" "\<bar>\<lfloor>t'\<rfloor> - \<lfloor>t\<rfloor>\<bar> \<le> MAX_SKEW"
  shows "mesh_verified c' t' b (signed_headers c t b)"
proof (cases "mc_secret c = []")
  case True
  with assms(1) show ?thesis by (simp add: mesh_verified_def open_accepts)
next
  case False
  with assms show ?thesis
    by (simp add: mesh_verified_def signed_headers_def mesh_auth_headers_def mesh_accepts_iff sign_mesh_payload_def py_int_string_of_int)
qed

lemma fresh_append: "uuid \<notin> log_ids l \<Longrightarrow> \<exists>l' ev. log_append uuid t ty p src l = Inr (l', ev)"
  by (auto simp: log_append_def insert_row_def log_ids_def Let_def)

text \<open>The receiving side: what a new job that verifies leaves there.\<close>

lemma receive_new:
  assumes h: "mh_runtime h = Some rt" "mh_memory h = Some m"
    and "mesh_verified c t (RouteBody b) hs" "peer_trusted (mc_trusted c) (rb_source b)" "py_strip (rb_id b) \<noteq> []"
    and r: "request_of_body b = Some r" and "dget (mem_jobs m) (job_id r) = None" "uuid \<notin> log_ids (rt_log rt)"
  shows "\<exists>rt'. receive_routed_job c t uuid token sched b hs h
      = (\<lparr>mh_runtime = Some rt', mh_memory = Some (sched (enqueue_job (routed_record t b r) m))\<rparr>, MAccepted (job_id r))
    \<and> map_option rj_owner_cluster_id (rq_get (job_id r) (rt_replicated rt')) = Some (rt_cluster_id rt)"
proof -
  let ?q = "rq_upsert (mc_lease c) t (queued_replica (mc_sha256 c) token (rt_cluster_id rt) (routed_record t b r)) (rt_replicated rt)"
  obtain l ev where "log_append uuid t ''JOB_CREATED'' (JObj [(''job_id'', JStr (job_id r)), (''via'', JStr ''mesh_route'')])
      (rt_cluster_id rt) (rt_log rt) = Inr (l, ev)" using fresh_append [OF assms(8)] by blast
  moreover have "map_option rj_owner_cluster_id (rq_get (job_id r) ?q) = Some (rt_cluster_id rt)"
    by (simp add: rq_upsert_def rq_get_def queued_replica_def Let_def)
  ultimately show ?thesis using assms(3-7)
    by (simp add: receive_routed_job_def h r admit_routed_def Let_def)
qed

text \<open>
  C38: C0. A job that one cluster forwards arrives at the other as it was. The sender knows the job and a peer
  for it; both have the same secret and clocks that differ by no more than the allowed skew; the receiver
  trusts the sender and does not know the job. Then the receiver accepts it: it queues a job with the same
  id, type, task, node count, power and GPU need, marked as coming from the sender, before its scheduling
  step, and owns its replica; the sender records it as migrated to the peer and answers with the peer's
  address.
\<close>

theorem forwarded_job_arrives:
  assumes a: "mh_runtime ha = Some rta" "mh_memory ha = Some ma" and b: "mh_runtime hb = Some rtb" "mh_memory hb = Some mb"
    and "mesh_verified ca t (ForwardBody jid) hs"
    and j: "dget (mem_jobs ma) jid = Some j" "job_id j = jid" "valid_job_request j" "py_strip jid = jid" "jid \<noteq> []"
    and d: "best_forward (mc_network_cost ca) (rt_cluster_id rta) (rt_region rta) j (rt_registry rta) = Some d"
    and keys: "mc_secret cb = mc_secret ca" "mc_hmac cb = mc_hmac ca" "mc_canonical cb = mc_canonical ca"
    and mac: "mc_hmac ca (mc_secret ca) (mc_canonical ca (RouteBody (forward_payload (rt_cluster_id rta) j))) \<noteq> []"
    and skew: "\<bar>\<lfloor>t'\<rfloor> - \<lfloor>t\<rfloor>\<bar> \<le> MAX_SKEW" and trust: "peer_trusted (mc_trusted cb) (rt_cluster_id rta)"
    and new: "dget (mem_jobs mb) jid = None" "uuid \<notin> log_ids (rt_log rtb)"
  shows "\<exists>ha' rta' hb' rtb' r.
      forward_job ca t tok (arrive cb t' uuid tok' sched hb) jid hs ha = (ha', MForwarded (rd_target_public_url d) (rd_score d))
    \<and> receive_routed_job cb t' uuid tok' sched (forward_payload (rt_cluster_id rta) j)
        (signed_headers ca t (RouteBody (forward_payload (rt_cluster_id rta) j))) hb = (hb', MAccepted jid)
    \<and> mh_memory hb' = Some (sched (enqueue_job r mb)) \<and> job_status r = Queued
    \<and> job_request.truncate r = job_request.truncate j \<and> job_originating_cluster_id r = Some (rt_cluster_id rta)
    \<and> mh_runtime hb' = Some rtb' \<and> map_option rj_owner_cluster_id (rq_get jid (rt_replicated rtb')) = Some (rt_cluster_id rtb)
    \<and> mh_runtime ha' = Some rta' \<and> map_option rj_state (rq_get jid (rt_replicated rta')) = Some ''migrated''
    \<and> map_option rj_owner_cluster_id (rq_get jid (rt_replicated rta')) = Some (rd_target_cluster_id d)"
proof -
  let ?b = "forward_payload (rt_cluster_id rta) j" and ?req = "job_request.truncate j"
  have req: "request_of_body ?b = Some ?req" using payload_read [of j] j by (simp add: job_request.truncate_def)
  have id: "job_id ?req = jid" "py_strip (rb_id ?b) = jid" "rb_source ?b = rt_cluster_id rta"
    using j by (simp_all add: job_request.truncate_def forward_payload_def)
  have "mesh_verified cb t' (RouteBody ?b) (signed_headers ca t (RouteBody ?b))"
    by (rule signed_verified [OF keys mac skew])
  from receive_new [OF b this _ _ req, of uuid tok' sched] obtain rtb' where
    rec: "receive_routed_job cb t' uuid tok' sched ?b (signed_headers ca t (RouteBody ?b)) hb
        = (\<lparr>mh_runtime = Some rtb', mh_memory = Some (sched (enqueue_job (routed_record t' ?b ?req) mb))\<rparr>, MAccepted jid)"
    and own: "map_option rj_owner_cluster_id (rq_get jid (rt_replicated rtb')) = Some (rt_cluster_id rtb)"
    using trust new j by (auto simp: id)
  let ?rta = "rta\<lparr>rt_metrics := (rt_metrics rta)\<lparr>mm_routes_attempted := mm_routes_attempted (rt_metrics rta) + 1,
        mm_routes_succeeded := mm_routes_succeeded (rt_metrics rta) + 1\<rparr>,
      rt_replicated := rq_upsert (mc_lease ca) t (migrated_replica tok jid (rd_target_cluster_id d)) (rt_replicated rta)\<rparr>"
  have "forward_job ca t tok (arrive cb t' uuid tok' sched hb) jid hs ha
      = (ha\<lparr>mh_runtime := Some ?rta\<rparr>, MForwarded (rd_target_public_url d) (rd_score d))"
    using assms(5) by (simp add: forward_job_def a j d arrive_def rec Let_def)
  moreover have "map_option rj_state (rq_get jid (rt_replicated ?rta)) = Some ''migrated''"
      "map_option rj_owner_cluster_id (rq_get jid (rt_replicated ?rta)) = Some (rd_target_cluster_id d)"
    by (simp_all add: rq_upsert_def rq_get_def migrated_replica_def Let_def)
  moreover have "job_request.truncate (routed_record t' ?b ?req) = ?req" "job_status (routed_record t' ?b ?req) = Queued"
    by (simp_all add: routed_record_def build_job_record_def job_request.truncate_def)
  ultimately show ?thesis using rec own id(3) by (intro exI conjI) (assumption | simp)+
qed

text \<open>What the sender keeps: forwarding never touches its memory, so a forwarded job stays in its queue and runs here too.\<close>

lemma forwarded_job_stays_queued: "mh_memory (fst (forward_job c t tok net jid hs h)) = mh_memory h"
  by (simp add: forward_job_def route_failed_def Let_def split: option.split)

text \<open>The events of anybody with the secret are merged, trusted or not.\<close>

lemma untrusted_events_merged:
  "mesh_events_merge (c\<lparr>mc_trusted := trusted\<rparr>) t es hs h = mesh_events_merge c t es hs h"
  by (simp add: mesh_events_merge_def mesh_verified_def split: option.split)

section \<open>Examples\<close>

definition sample_config :: "string \<Rightarrow> mesh_config" where
  "sample_config secret =
     \<lparr>mc_hmac = plain_hmac, mc_secret = secret, mc_canonical = (\<lambda>b. ''{}''), mc_sha256 = (\<lambda>s. s), mc_trusted = ''us, eu'',
      mc_lease = 30, mc_network_cost = 0\<rparr>"

definition no_headers :: mesh_headers where
  "no_headers = \<lparr>hd_signature = None, hd_timestamp = None\<rparr>"

definition sample_environ :: "string \<Rightarrow> mesh_environ" where
  "sample_environ cid = \<lparr>me_mode = ''mesh'', me_enabled = [], me_cluster_id = cid, me_public_url = ''http://'' @ cid, me_region = ''r''\<rparr>"

definition sample_routed :: routed_job where
  "sample_routed = \<lparr>rb_id = ''j'', rb_type = ''code'', rb_task = [], rb_required = Some 1, rb_power = ''low'', rb_gpu = False, rb_source = ''us''\<rparr>"

lemma forged_call_refused_witness:
  "\<exists>code msg. mesh_step (sample_config ''k'') (CallMerge 0 (Some []) no_headers) \<lparr>mh_runtime = None, mh_memory = None\<rparr>
     = (\<lparr>mh_runtime = None, mh_memory = None\<rparr>, [MError code msg]) \<and> code \<in> {403, 503}"
  by (rule forged_call_refused [where body = "MergeBody (Some [])" and hs = no_headers]) (simp_all add: sample_config_def no_headers_def)

definition sample_calls :: "mesh_call list" where
  "sample_calls =
     [CallReceive 5 ''e1'' ''t1'' True (\<lambda>n. HttpFail []) sample_routed no_headers,
      CallReceive 6 ''e2'' ''t2'' True (\<lambda>n. HttpFail []) sample_routed no_headers]"

definition sample_runtime :: "string \<Rightarrow> mesh_runtime" where
  "sample_runtime cid = the (maybe_start_mesh 1 (sample_environ cid) ([], empty_log, []) (cp_run [] empty_memory) None)"

lemma sample_start: "maybe_start_mesh 1 (sample_environ ''eu'') ([], empty_log, []) (cp_run [] empty_memory) None = Some (sample_runtime ''eu'')"
proof -
  have "maybe_start_mesh 1 (sample_environ ''eu'') ([], empty_log, []) (cp_run [] empty_memory) None \<noteq> None"
    by (simp add: maybe_start_mesh_def sample_environ_def mesh_enabled_def Let_def, code_simp)
  then show ?thesis by (simp add: sample_runtime_def)
qed


definition knows :: "string \<Rightarrow> registry" where
  "knows cid = [(cid, (seen_peer 1 5)\<lparr>peer_cluster_id := cid, peer_public_url := ''http://'' @ cid\<rparr>)]"

definition sample_host :: "string \<Rightarrow> registry \<Rightarrow> cluster_memory \<Rightarrow> mesh_host" where
  "sample_host cid r m = \<lparr>mh_runtime = Some ((sample_runtime cid)\<lparr>rt_registry := r\<rparr>), mh_memory = Some m\<rparr>"

definition one_job :: cluster_memory where
  "one_job = enqueue_job (build_job_record 2 plain_job) empty_memory"

lemma forwarded_job_arrives_witness:
  "\<exists>ha' hb' score. forward_job (sample_config ''k'') 100 ''t'' (arrive (sample_config ''k'') 101 ''e'' ''t'' id (sample_host ''eu'' [] empty_memory)) ''j''
        (signed_headers (sample_config ''k'') 100 (ForwardBody ''j'')) (sample_host ''us'' (knows ''eu'') one_job)
      = (ha', MForwarded ''http://eu'' score)
    \<and> receive_routed_job (sample_config ''k'') 101 ''e'' ''t'' id (forward_payload ''us'' (build_job_record 2 plain_job))
        (signed_headers (sample_config ''k'') 100 (RouteBody (forward_payload ''us'' (build_job_record 2 plain_job))))
        (sample_host ''eu'' [] empty_memory) = (hb', MAccepted ''j'')"
proof -
  let ?c = "sample_config ''k''" and ?j = "build_job_record 2 plain_job"
  let ?us = "(sample_runtime ''us'')\<lparr>rt_registry := knows ''eu''\<rparr>" and ?eu = "(sample_runtime ''eu'')\<lparr>rt_registry := []\<rparr>"
  have ids: "rt_cluster_id ?us = ''us''" "log_ids (rt_log ?eu) = {}" by code_simp+
  have job: "dget (mem_jobs one_job) ''j'' = Some ?j" "dget (mem_jobs empty_memory) ''j'' = None" "valid_job_request ?j"
      "job_id ?j = ''j''" "py_strip ''j'' = ''j''" by code_simp+
  obtain d where d: "best_forward (mc_network_cost ?c) (rt_cluster_id ?us) (rt_region ?us) ?j (rt_registry ?us) = Some d"
    and url: "rd_target_public_url d = ''http://eu''"
  proof -
    have "map_option rd_target_public_url (best_forward (mc_network_cost ?c) (rt_cluster_id ?us) (rt_region ?us) ?j (rt_registry ?us))
        = Some ''http://eu''" by code_simp
    then show ?thesis using that by blast
  qed
  have v: "mesh_verified ?c 100 (ForwardBody ''j'') (signed_headers ?c 100 (ForwardBody ''j''))" by code_simp
  have trust: "peer_trusted (mc_trusted ?c) (rt_cluster_id ?us)" by code_simp
  have mac: "mc_hmac ?c (mc_secret ?c) (mc_canonical ?c (RouteBody (forward_payload (rt_cluster_id ?us) ?j))) \<noteq> []" by code_simp
  have skew: "\<bar>\<lfloor>101 :: rat\<rfloor> - \<lfloor>100 :: rat\<rfloor>\<bar> \<le> MAX_SKEW" by (simp add: MAX_SKEW_def)
  let ?ha = "sample_host ''us'' (knows ''eu'') one_job" and ?hb = "sample_host ''eu'' [] empty_memory"
  have hosts: "mh_runtime ?ha = Some ?us" "mh_memory ?ha = Some one_job" "mh_runtime ?hb = Some ?eu" "mh_memory ?hb = Some empty_memory"
    by (simp_all add: sample_host_def)
  have ne: "''j'' \<noteq> []" and fresh: "''e'' \<notin> log_ids (rt_log ?eu)" using ids by auto
  from forwarded_job_arrives [OF hosts v job(1) job(4,3,5) ne d refl refl refl mac skew trust job(2) fresh, of "''t''" "''t''" id, unfolded url ids]
  show ?thesis by blast
qed

end
