(* ===== verification/FederatedCluster.thy ===== *)
theory FederatedCluster
  imports Federation JobDispatch JobOrders Signatures
begin

text \<open>
  A cluster under the federation controller: the agent that registers it and sends its heartbeats
  (\<open>cluster_client/cluster_agent.py\<close>), the route on which the controller pushes global jobs
  (\<open>control_plane/federation_api.py\<close>, \<open>push_inbound\<close> of \<open>federation/controller.py\<close>) and the report
  of a finished job (\<open>control_plane/federation_callbacks.py\<close>), over the models of both sides. HMAC and
  canonical text are part of the keys. One turn of the agent's loop is a step; whether a request reaches
  the controller and passes its token is an argument.
\<close>

section \<open>Messages\<close>

record inbound_payload =
  ib_id :: string
  ib_origin :: "string option"
  ib_region :: "string option"
  ib_type :: string
  ib_task :: string
  ib_required :: int
  ib_power :: string
  ib_gpu :: bool

record completion =
  cm_job_id :: string
  cm_cluster_id :: string
  cm_ok :: bool
  cm_result :: json

datatype fed_body = InboundBody inbound_payload | CompletionBody completion

record fed_keys =
  fk_hmac :: hmac_fun
  fk_secret :: string
  fk_canonical :: "fed_body \<Rightarrow> string"

definition build_headers :: "fed_keys \<Rightarrow> pyfloat \<Rightarrow> fed_body \<Rightarrow> string \<times> string" where
  "build_headers k t body = (sign_payload (fk_hmac k) (fk_secret k) (fk_canonical k body), string_of_int \<lfloor>t\<rfloor>)"

definition fed_verified :: "fed_keys \<Rightarrow> pyfloat \<Rightarrow> fed_body \<Rightarrow> string option \<Rightarrow> string option \<Rightarrow> bool" where
  "fed_verified k t body sig ts =
     verify_signed_cluster_request (fk_hmac k) \<lfloor>t\<rfloor> (fk_secret k) (fk_canonical k body) sig ts"

section \<open>A job comes in\<close>

datatype inbound_response = IbAccepted string | IbDuplicate string | IbError nat string

definition federation_enabled :: "string option \<Rightarrow> bool" where
  "federation_enabled setting = (py_lower (case setting of None \<Rightarrow> ''true'' | Some s \<Rightarrow> s) \<in> {''1'', ''true'', ''yes''})"

text \<open>The model refuses unknown names and node counts out of range.\<close>

definition inbound_request :: "inbound_payload \<Rightarrow> job_request option" where
  "inbound_request b =
     (case (type_of_name (ib_type b), power_of_name (ib_power b)) of
        (Some ty, Some p) \<Rightarrow>
          let r = \<lparr>job_id = ib_id b, job_type = ty, job_task = ib_task b, job_required_nodes = ib_required b,
                   job_power = p, job_gpu_required = ib_gpu b\<rparr>
          in if valid_job_request r then Some r else None
      | _ \<Rightarrow> None)"

definition inbound_record :: "pyfloat \<Rightarrow> string \<Rightarrow> inbound_payload \<Rightarrow> job_request \<Rightarrow> job_record" where
  "inbound_record t url b r =
     (build_job_record t r)\<lparr>job_originating_cluster_id := ib_origin b, job_report_to_federation := True,
        job_federation_controller_url := Some url\<rparr>"

definition inbound_job ::
    "fed_keys \<Rightarrow> string option \<Rightarrow> string \<Rightarrow> pyfloat \<Rightarrow> (cluster_memory \<Rightarrow> cluster_memory) \<Rightarrow> inbound_payload
      \<Rightarrow> string option \<Rightarrow> string option \<Rightarrow> cluster_memory option \<Rightarrow> cluster_memory option \<times> inbound_response" where
  "inbound_job k setting url t sched b sig ts mem =
     (if \<not> federation_enabled setting then (mem, IbError 404 ''federation inbound disabled'')
      else if \<not> fed_verified k t (InboundBody b) sig ts then (mem, IbError 403 ''invalid federation signature or timestamp'')
      else case mem of
        None \<Rightarrow> (mem, IbError 503 ''federation not wired'')
      | Some m \<Rightarrow>
          if dget (mem_jobs m) (ib_id b) \<noteq> None then (mem, IbDuplicate (ib_id b))
          else (case inbound_request b of
                  None \<Rightarrow> (mem, IbError 400 ''invalid job'')
                | Some r \<Rightarrow> (Some (sched (enqueue_job (inbound_record t url b r) m)), IbAccepted (ib_id b))))"

text \<open>What the controller pushes, and how it takes the answer: \<open>raise_for_status\<close> fails from 400 on.\<close>

definition push_payload :: "global_job \<Rightarrow> inbound_payload" where
  "push_payload j =
     \<lparr>ib_id = gj_id j, ib_origin = gj_origin j, ib_region = gj_preferred_region j, ib_type = gj_type j, ib_task = gj_task j,
      ib_required = gj_required_nodes j, ib_power = gj_power j, ib_gpu = gj_gpu_required j\<rparr>"

definition push_inbound :: "(inbound_payload \<Rightarrow> inbound_response option) \<Rightarrow> global_job \<Rightarrow> string option" where
  "push_inbound answer j =
     (case answer (push_payload j) of
        None \<Rightarrow> Some ''unreachable''
      | Some (IbError n msg) \<Rightarrow> Some msg
      | Some r \<Rightarrow> None)"

section \<open>A job is reported\<close>

definition maybe_report_global_completion :: "string \<Rightarrow> string \<Rightarrow> job_record \<Rightarrow> completion option" where
  "maybe_report_global_completion url cid j =
     (if \<not> job_report_to_federation j then None
      else if rstrip_slash url = [] then None
      else Some \<lparr>cm_job_id = job_id j, cm_cluster_id = cid, cm_ok = (job_status j = Completed),
                 cm_result = (case job_record.job_result j of Some r \<Rightarrow> r | None \<Rightarrow> JObj [])\<rparr>)"

text \<open>
  The result handler with its report: the report is made of the job as \<open>mark_finished\<close> left it, before the
  retry of a failed job.
\<close>

definition job_result_report :: "string \<Rightarrow> string \<Rightarrow> pyfloat \<Rightarrow> string \<Rightarrow> json \<Rightarrow> bool \<Rightarrow> cluster_memory \<Rightarrow> completion option" where
  "job_result_report url cid t jid payload ok m =
     (case dget (mem_jobs m) jid of
        None \<Rightarrow> None
      | Some j \<Rightarrow> maybe_report_global_completion url cid (fst (mark_finished t ok (j\<lparr>job_result := Some payload\<rparr>, m))))"

definition report_completion :: "pyfloat \<Rightarrow> completion \<Rightarrow> federation \<Rightarrow> fed_error + federation" where
  "report_completion t c f = global_job_complete t (cm_job_id c) (cm_cluster_id c) (cm_ok c) (Some (cm_result c)) f"

section \<open>The agent\<close>

record cluster_agent =
  ca_cluster_id :: string
  ca_region :: string
  ca_url :: string
  ca_api_token :: string
  ca_registered :: bool

definition agent_registration :: "cluster_agent \<Rightarrow> cluster_memory \<Rightarrow> cluster_registration" where
  "agent_registration a m =
     (let ns = dvalues (mem_nodes m)
      in \<lparr>cl_id = ca_cluster_id a, cl_region = ca_region a, cl_url = ca_url a, cl_api_token = ca_api_token a,
          cl_node_count = int (length ns), cl_gpu_capacity = int (length (filter node_has_gpu ns)),
          cl_current_load = node_mean node_current_load ns, cl_queue_depth = int (length (queue_snapshot m)),
          cl_avg_latency_ms = (if ns = [] then 10 else node_mean node_avg_latency_ms ns),
          cl_health = (if ns = [] then HDegraded else HHealthy)\<rparr>)"

definition agent_heartbeat :: "cluster_agent \<Rightarrow> cluster_memory \<Rightarrow> fed_heartbeat" where
  "agent_heartbeat a m =
     (let ns = dvalues (mem_nodes m)
      in \<lparr>fh_cluster_id = ca_cluster_id a, fh_node_count = int (length ns), fh_gpu_capacity = int (length (filter node_has_gpu ns)),
          fh_current_load = node_mean node_current_load ns, fh_queue_depth = int (length (queue_snapshot m)),
          fh_avg_latency_ms = node_mean node_avg_latency_ms ns, fh_health = (if ns = [] then HDegraded else HHealthy)\<rparr>)"

definition agent_turn :: "pyfloat \<Rightarrow> bool \<Rightarrow> cluster_memory \<Rightarrow> cluster_agent \<times> federation \<Rightarrow> cluster_agent \<times> federation" where
  "agent_turn t up m s =
     (let (a, f) = s
      in if \<not> ca_registered a
         then if \<not> up then s
              else (case register_cluster t (agent_registration a m) f of
                      Inl e \<Rightarrow> s
                    | Inr f' \<Rightarrow> (a\<lparr>ca_registered := True\<rparr>, f'))
         else if \<not> up then s
              else (case apply_heartbeat t (agent_heartbeat a m) f of
                      Inl e \<Rightarrow> s
                    | Inr (f', c) \<Rightarrow> (a, f')))"

record agent_environ =
  ae_cluster_id :: string
  ae_federation_url :: string
  ae_region :: string
  ae_public_url :: string
  ae_api_token :: string

definition maybe_start_cluster_agent :: "agent_environ \<Rightarrow> cluster_agent option \<Rightarrow> cluster_agent option" where
  "maybe_start_cluster_agent e current =
     (if py_strip (ae_cluster_id e) = [] \<or> py_strip (ae_federation_url e) = [] then current
      else if current \<noteq> None then current
      else Some \<lparr>ca_cluster_id = py_strip (ae_cluster_id e), ca_region = ae_region e,
                 ca_url = rstrip_slash (py_strip (ae_public_url e)), ca_api_token = ae_api_token e, ca_registered = False\<rparr>)"

section \<open>From the controller to the cluster\<close>

text \<open>The push of the controller at time \<open>t\<close>, answered by a cluster whose clock shows \<open>t'\<close>.\<close>

definition deliver ::
    "fed_keys \<Rightarrow> pyfloat \<Rightarrow> string option \<Rightarrow> string \<Rightarrow> pyfloat \<Rightarrow> (cluster_memory \<Rightarrow> cluster_memory) \<Rightarrow> cluster_memory option
      \<Rightarrow> inbound_payload \<Rightarrow> inbound_response option" where
  "deliver k t setting url t' sched mem b =
     (let (sig, ts) = build_headers k t (InboundBody b)
      in Some (snd (inbound_job k setting url t' sched b (Some sig) (Some ts) mem)))"

definition routed_job :: "pyfloat \<Rightarrow> string \<Rightarrow> global_job \<Rightarrow> global_job" where
  "routed_job t target j =
     j\<lparr>gj_assigned := Some target, gj_status := GRouted, gj_logs := gj_logs j @ [(t, ''routed to '' @ target)]\<rparr>"

lemma headers_verified:
  assumes "fk_hmac k (fk_secret k) (fk_canonical k body) \<noteq> []" "\<bar>\<lfloor>t'\<rfloor> - \<lfloor>t\<rfloor>\<bar> \<le> MAX_SKEW"
  shows "fed_verified k t' body (Some (fst (build_headers k t body))) (Some (snd (build_headers k t body)))"
proof (cases "fk_secret k = []")
  case True
  then show ?thesis by (simp add: fed_verified_def open_accepts)
next
  case False
  with assms show ?thesis
    by (simp add: fed_verified_def build_headers_def federation_accepts_iff sign_payload_def py_int_string_of_int)
qed

lemma saved_job [simp]: "get_global_job i (save_global_job t j f) = (if i = gj_id j then Some (j\<lparr>gj_updated_at := t\<rparr>) else get_global_job i f)"
  by (simp add: get_global_job_def save_global_job_def)

lemma saved_clusters [simp]: "get_cluster cid (save_global_job t j f) = get_cluster cid f" "fed_clusters (save_global_job t j f) = fed_clusters f"
  by (simp_all add: get_cluster_def save_global_job_def)

lemma metric_frame [simp]: "get_global_job i (fst (increment_metric key d f)) = get_global_job i f"
  by (simp add: increment_metric_def get_global_job_def Let_def)

text \<open>The answer to a pushed job that the cluster can read and does not know.\<close>

lemma inbound_accepted:
  assumes "federation_enabled setting" "fed_verified k t' (InboundBody b) sig ts" "dget (mem_jobs m) (ib_id b) = None"
    and "inbound_request b = Some r"
  shows "inbound_job k setting url t' sched b sig ts (Some m) = (Some (sched (enqueue_job (inbound_record t' url b r) m)), IbAccepted (ib_id b))"
  using assms by (simp add: inbound_job_def)

text \<open>
  C40: C0. A job submitted to the federation reaches the cluster that it is routed to. When controller and cluster
  share their keys, their clocks differ by no more than the allowed skew, the cluster takes federation jobs,
  can read this one and does not know it yet, then the controller answers that it routed the job to the
  target with the target's score, records it as routed and assigned there, and the cluster enqueues, before
  its scheduling step, a job with the same id, task, node count and GPU need and with the type and power that
  the names stand for, which it will report.
\<close>

theorem global_job_arrives:
  assumes gj: "gj = new_global_job t fresh b"
    and route: "decide_route (save_global_job t gj f) gj = (target, score, ranked)" "target \<noteq> []" "get_cluster target f = Some c"
    and mac: "fk_hmac k (fk_secret k) (fk_canonical k (InboundBody (push_payload gj))) \<noteq> []" and skew: "\<bar>\<lfloor>t'\<rfloor> - \<lfloor>t\<rfloor>\<bar> \<le> MAX_SKEW"
    and on: "federation_enabled setting" and new: "dget (mem_jobs m) (gj_id gj) = None"
    and read: "inbound_request (push_payload gj) = Some r"
    and push: "push = (\<lambda>cid. push_inbound (deliver k t setting url t' sched (Some m)) (routed_job t target gj))"
  shows "\<exists>f' sig ts. submit_global_job t fresh push b f = (f', Inr (SubmittedRouted target score))
    \<and> map_option gj_status (get_global_job (gj_id gj) f') = Some GRouted
    \<and> map_option gj_assigned (get_global_job (gj_id gj) f') = Some (Some target)
    \<and> inbound_job k setting url t' sched (push_payload gj) sig ts (Some m)
        = (Some (sched (enqueue_job (inbound_record t' url (push_payload gj) r) m)), IbAccepted (gj_id gj))
    \<and> job_id r = gj_id gj \<and> job_task r = gj_task gj \<and> job_required_nodes r = gj_required_nodes gj \<and> job_gpu_required r = gj_gpu_required gj
    \<and> type_name (job_type r) = gj_type gj \<and> power_name (job_power r) = gj_power gj
    \<and> job_report_to_federation (inbound_record t' url (push_payload gj) r)"
proof -
  let ?p = "push_payload gj" and ?hs = "build_headers k t (InboundBody (push_payload gj))"
  have same: "push_payload (routed_job t target gj) = ?p" by (simp add: push_payload_def routed_job_def)
  have id: "ib_id ?p = gj_id gj" by (simp add: push_payload_def)
  have acc: "inbound_job k setting url t' sched ?p (Some (fst ?hs)) (Some (snd ?hs)) (Some m)
      = (Some (sched (enqueue_job (inbound_record t' url ?p r) m)), IbAccepted (gj_id gj))"
    using inbound_accepted [OF on headers_verified [OF mac skew] _ read, of m url sched] new by (simp add: id)
  then have none: "push cid = None" for cid
    by (simp add: push push_inbound_def same deliver_def case_prod_unfold)
  have "submit_global_job t fresh push b f
      = (fst (increment_metric ''cross_cluster_transfers_total'' 1 (save_global_job t (routed_job t target gj) (save_global_job t gj f))),
         Inr (SubmittedRouted target score))"
    using route none by (simp add: submit_global_job_def gj [symmetric] routed_job_def Let_def)
  moreover have "job_id r = gj_id gj \<and> job_task r = gj_task gj \<and> job_required_nodes r = gj_required_nodes gj
      \<and> job_gpu_required r = gj_gpu_required gj \<and> type_name (job_type r) = gj_type gj \<and> power_name (job_power r) = gj_power gj"
    using read by (auto simp: inbound_request_def push_payload_def type_of_name_def power_of_name_def Let_def find_Some_iff
        split: option.splits if_splits)
  ultimately show ?thesis using acc by (simp add: inbound_record_def routed_job_def) blast
qed

text \<open>A type that no cluster knows is taken by the controller, refused by the cluster and never tried again.\<close>

lemma unknown_type_stays_queued:
  assumes "type_of_name (sb_type b) = None" "decide_route (save_global_job t (new_global_job t fresh b) f) (new_global_job t fresh b) = (target, score, ranked)"
    and "target \<noteq> []" "get_cluster target f = Some c"
    and "push = (\<lambda>cid. push_inbound (deliver k t setting url t' sched (Some m)) (routed_job t target (new_global_job t fresh b)))"
    and "dget (mem_jobs m) (gj_id (new_global_job t fresh b)) = None"
  shows "\<exists>f' err g. submit_global_job t fresh push b f = (f', Inl (Unreachable err))
    \<and> get_global_job (gj_id (new_global_job t fresh b)) f' = Some g \<and> gj_status g = GQueued \<and> gj_assigned g = None"
proof -
  let ?g = "new_global_job t fresh b"
  have same: "push_payload (routed_job t target ?g) = push_payload ?g" by (simp add: push_payload_def routed_job_def)
  have "inbound_request (push_payload ?g) = None" using assms(1) by (simp add: inbound_request_def push_payload_def new_global_job_def)
  moreover have "ib_id (push_payload ?g) = gj_id ?g" by (simp add: push_payload_def)
  ultimately have "\<exists>n msg. snd (inbound_job k setting url t' sched (push_payload ?g) sig ts (Some m)) = IbError n msg" for sig ts
    using assms(6) by (simp add: inbound_job_def)
  then obtain err where "push cid = Some err" for cid
    unfolding assms(5) push_inbound_def same deliver_def case_prod_unfold Let_def option.case by (metis inbound_response.simps(12))
  with assms(2,3,4) show ?thesis by (simp add: submit_global_job_def routed_job_def Let_def)
qed

section \<open>From the cluster back to the controller\<close>

lemma report_of_result:
  assumes "dget (mem_jobs m) jid = Some j" "job_id j = jid" "job_report_to_federation j" "rstrip_slash url \<noteq> []"
  shows "job_result_report url cid t jid payload ok m = Some \<lparr>cm_job_id = jid, cm_cluster_id = cid, cm_ok = ok, cm_result = payload\<rparr>"
  using assms by (simp add: job_result_report_def maybe_report_global_completion_def mark_finished_def log_job_def Let_def)

lemma completion_recorded:
  assumes "get_global_job (cm_job_id c) f = Some g"
  shows "\<exists>f'. report_completion t c f = Inr f' \<and> map_option gj_status (get_global_job (gj_id g) f') = Some (if cm_ok c then GCompleted else GFailed)
    \<and> map_option gj_result (get_global_job (gj_id g) f') = Some (Some (cm_result c))"
  using assms by (simp add: report_completion_def global_job_complete_def)


text \<open>
  A failed attempt is reported before the retry: the controller records the job as failed, so that no
  failover moves it any more, while the cluster has queued it again.
\<close>

lemma premature_failure_reported:
  assumes "cp_inv {} m" "dget (mem_jobs m) jid = Some j" "job_report_to_federation j" "rstrip_slash url \<noteq> []"
    and "job_attempts j < MAX_JOB_RETRIES" "job_result False t [] net beta nid jid payload False m = Inr m'"
  shows "\<exists>c i. job_result_report url cid t jid payload False m = Some c \<and> \<not> cm_ok c
    \<and> dget (mem_jobs m') jid = Some i \<and> job_status i = Queued"
proof -
  have id: "job_id j = jid" using cp_inv_dget [OF assms(1,2)] by simp
  define jm where "jm = mark_finished t False (j\<lparr>job_result := Some payload\<rparr>, m)"
  have jm: "job_id (fst jm) = jid" "job_attempts (fst jm) = job_attempts j" "job_status (fst jm) = Failed"
    by (simp_all add: jm_def id mark_finished_def log_job_def Let_def)
  obtain m4 where "m' = snd (requeue_or_fail t ''node_reported_failure'' (fst jm, m4))"
    using assms(2,6) jm(3) by (auto simp: job_result_def jm_def [symmetric] Let_def case_prod_unfold schedule_once_def)
  with requeue_or_fail_stored [of t "''node_reported_failure''" "(fst jm, m4)"] jm assms(5)
  have "\<exists>i. dget (mem_jobs m') jid = Some i \<and> job_status i = Queued" by auto
  with report_of_result [OF assms(2) id assms(3,4)] show ?thesis by auto
qed

lemma failed_job_not_rerouted: "\<not> active_status GFailed"
  by (simp add: active_status_def)

section \<open>What the controller knows of the cluster\<close>

text \<open>The figures of a cluster as the controller holds them.\<close>

definition shows_memory :: "cluster \<Rightarrow> cluster_memory \<Rightarrow> bool" where
  "shows_memory c m \<longleftrightarrow>
     (let ns = dvalues (mem_nodes m)
      in cl_node_count c = int (length ns) \<and> cl_gpu_capacity c = int (length (filter node_has_gpu ns))
       \<and> cl_current_load c = node_mean node_current_load ns \<and> cl_queue_depth c = int (length (queue_snapshot m))
       \<and> cl_health c = (if ns = [] then HDegraded else HHealthy))"

text \<open>
  C0. A turn of the agent that gets through keeps the controller's picture of the cluster true: the agent is
  registered, and the controller's record shows the number of nodes and of GPU nodes, the mean load and the
  queue length of the cluster's memory, calls it healthy exactly when it has nodes, and counts as heard now,
  so that no sweep takes the cluster offline before the timeout.
\<close>

theorem agent_keeps_federation_current:
  assumes "\<not> ca_registered a \<Longrightarrow>
      List.find (\<lambda>c. cl_id c \<noteq> ca_cluster_id a \<and> normalize_cp_url (cl_url c) = normalize_cp_url (ca_url a)) (list_clusters f) = None"
    and "ca_registered a \<Longrightarrow> map_option cl_id (get_cluster (ca_cluster_id a) f) = Some (ca_cluster_id a)"
    and "now - t \<le> timeout"
  shows "\<exists>a' f' c. agent_turn t True m (a, f) = (a', f') \<and> ca_registered a' \<and> get_cluster (ca_cluster_id a) f' = Some c
    \<and> shows_memory c m \<and> cl_last_heartbeat c = t \<and> sweep_cluster now timeout c fo = fo"
proof (cases "ca_registered a")
  case True
  with assms(2) obtain c0 where "get_cluster (ca_cluster_id a) f = Some c0" "cl_id c0 = ca_cluster_id a" by auto
  with True assms(3) show ?thesis
    by (simp add: agent_turn_def apply_heartbeat_def agent_heartbeat_def Let_def shows_memory_def sweep_cluster_def
        upsert_cluster_def get_cluster_def emit_event_def)
next
  case False
  with assms(1,3) show ?thesis
    by (simp add: agent_turn_def register_cluster_def agent_registration_def Let_def shows_memory_def sweep_cluster_def
        upsert_cluster_def get_cluster_def emit_event_def cluster_registration.extend_def cluster.fields_def)
qed

text \<open>An agent that the controller has forgotten never registers again: its heartbeats are refused and nobody looks.\<close>

lemma forgotten_agent_never_returns:
  assumes "ca_registered a" "get_cluster (ca_cluster_id a) f = None"
  shows "fold (\<lambda>(t, up, m). agent_turn t up m) turns (a, f) = (a, f)"
proof (induction turns)
  case (Cons x turns)
  have "agent_turn t up m (a, f) = (a, f)" for t up m
    using assms by (simp add: agent_turn_def apply_heartbeat_def agent_heartbeat_def Let_def)
  with Cons show ?case by (cases x) simp
qed simp

section \<open>Examples\<close>

definition sample_agent :: cluster_agent where
  "sample_agent = \<lparr>ca_cluster_id = ''eu'', ca_region = ''r'', ca_url = ''http://eu'', ca_api_token = [], ca_registered = False\<rparr>"

definition sample_keys :: fed_keys where
  "sample_keys = \<lparr>fk_hmac = plain_hmac, fk_secret = ''k'', fk_canonical = (\<lambda>b. ''{}'')\<rparr>"

definition sample_submission :: submit_body where
  "sample_submission = \<lparr>sb_id = Some ''g'', sb_type = ''code'', sb_task = ''x'', sb_required_nodes = 1, sb_power = ''low'',
     sb_gpu_required = False, sb_origin = None, sb_preferred_region = None\<rparr>"

definition eu_federation :: federation where
  "eu_federation = snd (agent_turn 5 True empty_memory (sample_agent, empty_federation))"

definition sample_global :: global_job where
  "sample_global = new_global_job 10 [] sample_submission"

lemma agent_keeps_federation_current_witness:
  "\<exists>a' f' c. agent_turn 5 True empty_memory (sample_agent, empty_federation) = (a', f') \<and> ca_registered a'
    \<and> get_cluster ''eu'' f' = Some c \<and> cl_node_count c = 0 \<and> cl_last_heartbeat c = 5"
  using agent_keeps_federation_current [of sample_agent empty_federation 20 5 30 empty_memory "(empty_federation, [])"]
  by (auto simp: sample_agent_def list_clusters_def empty_federation_def shows_memory_def Let_def empty_memory_def restore_sqlite_def
      restore_nodes_def init_sqlite_def)

lemma global_job_arrives_witness:
  "\<exists>f' sig ts score. submit_global_job 10 [] (\<lambda>cid. push_inbound (deliver sample_keys 10 None ''http://fed'' 12 id (Some empty_memory))
        (routed_job 10 ''eu'' sample_global)) sample_submission eu_federation = (f', Inr (SubmittedRouted ''eu'' score))
    \<and> snd (inbound_job sample_keys None ''http://fed'' 12 id (push_payload sample_global) sig ts (Some empty_memory)) = IbAccepted ''g''"
proof -
  let ?r = "\<lparr>job_id = ''g'', job_type = Code, job_task = ''x'', job_required_nodes = 1, job_power = Low, job_gpu_required = False\<rparr>"
  have "fst (decide_route (save_global_job 10 sample_global eu_federation) sample_global) = ''eu''" by code_simp
  then obtain score ranked where route: "decide_route (save_global_job 10 sample_global eu_federation) sample_global = (''eu'', score, ranked)"
    by (metis prod.collapse)
  obtain c where c: "get_cluster ''eu'' eu_federation = Some c"
    using agent_keeps_federation_current_witness by (auto simp: eu_federation_def)
  have read: "inbound_request (push_payload sample_global) = Some ?r" by code_simp
  have id: "gj_id sample_global = ''g''" by code_simp
  have new: "dget (mem_jobs empty_memory) (gj_id sample_global) = None" by code_simp
  have mac: "fk_hmac sample_keys (fk_secret sample_keys) (fk_canonical sample_keys (InboundBody (push_payload sample_global))) \<noteq> []" by code_simp
  have skew: "\<bar>\<lfloor>12 :: rat\<rfloor> - \<lfloor>10 :: rat\<rfloor>\<bar> \<le> MAX_SKEW" by (simp add: MAX_SKEW_def)
  have on: "federation_enabled None" by code_simp
  from global_job_arrives [OF sample_global_def route _ c mac skew on new read refl, of "''http://fed''" id] show ?thesis
    unfolding id by (metis list.discI snd_conv)
qed


end
