(* ===== verification/NodeAgent.thy ===== *)
theory NodeAgent
  imports ControlPlane Signatures "HOL-Library.Multiset"
begin

text \<open>
  The worker node, \<open>node/agent.py\<close>, with the signature of job payloads (\<open>security/job_payload.py\<close>) and the
  request that the control plane sends it (\<open>control_plane/nodes.py\<close>). The process is the global \<open>STATE\<close>
  and its threads: a job is accepted, then a thread books it, runs it in the sandbox and reports it. The
  sandbox, HMAC, digest, canonical texts and Python's \<open>repr\<close> are arguments. A payload is a dictionary in which
  any key may be missing; reading a missing one ends the thread. One change of \<open>STATE\<close> is one step.
\<close>

section \<open>Job payloads\<close>

record job_body =
  jb_id :: "string option"
  jb_type :: "string option"
  jb_task :: "string option"
  jb_core :: json
  jb_sig :: "string option"

text \<open>\<open>jb_core\<close> is the rest of the signed fields (nodes, power, GPU); the signature is over these and the first three.\<close>

record job_keys =
  jk_hmac :: hmac_fun
  jk_signing_key :: string
  jk_canonical_job :: "job_body \<Rightarrow> string"

definition sign_job_payload :: "job_keys \<Rightarrow> job_body \<Rightarrow> string" where
  "sign_job_payload k b =
     (if jk_signing_key k = [] then []
      else jk_hmac k (jk_signing_key k) (jk_canonical_job k (b\<lparr>jb_sig := None\<rparr>)))"

definition verify_job_payload :: "job_keys \<Rightarrow> job_body \<Rightarrow> string option \<Rightarrow> bool" where
  "verify_job_payload k b signature =
     (if jk_signing_key k = [] then True
      else case truthy signature of None \<Rightarrow> False | Some s \<Rightarrow> sign_job_payload k b = s)"

section \<open>The agent\<close>

record node_agent =
  na_node_id :: string
  na_host :: string
  na_port :: int
  na_type :: node_type
  na_has_gpu :: bool
  na_load :: rat
  na_running :: "string list"
  na_latency :: rat
  na_secret :: string
  na_jwt :: string

text \<open>\<open>ap_dead\<close> are the jobs whose thread ended with an exception after it had booked them.\<close>

record agent_process =
  ap_state :: node_agent
  ap_starting :: "job_body list"
  ap_working :: "string list"
  ap_dead :: "string list"

definition new_process :: "node_agent \<Rightarrow> agent_process" where
  "new_process a = \<lparr>ap_state = a\<lparr>na_load := 0, na_running := [], na_latency := 0\<rparr>, ap_starting = [], ap_working = [], ap_dead = []\<rparr>"

section \<open>Talking to the control plane\<close>

definition control_headers ::
    "hmac_fun \<Rightarrow> (string \<Rightarrow> string) \<Rightarrow> int \<Rightarrow> string \<Rightarrow> string \<Rightarrow> string \<Rightarrow> string option \<Rightarrow> node_agent \<Rightarrow> (string \<times> string) list" where
  "control_headers hmac sha256 now token path verb body a =
     (if token \<noteq> [] then [(''Authorization'', ''Bearer '' @ token)] else [])
     @ (if na_jwt a \<noteq> [] then [(''X-Node-JWT'', na_jwt a)] else [])
     @ (if na_secret a \<noteq> []
        then (let (i, ts, s) = build_auth_headers hmac sha256 now (na_secret a)
                    \<lparr>req_node_id = na_node_id a, req_method = verb, req_path = path, req_body = body\<rparr>
              in [(''X-Node-Id'', i), (''X-Auth-Timestamp'', ts), (''X-Auth-Signature'', s)])
        else [])"

definition register_payload :: "node_agent \<Rightarrow> node_registration" where
  "register_payload a =
     \<lparr>node_id = na_node_id a, node_host = na_host a, node_port = na_port a, node_type = na_type a, node_has_gpu = na_has_gpu a,
      node_secret = na_secret a\<rparr>"

text \<open>The answer of the control plane is its token, when it issues one, or no answer at all (an error included).\<close>

definition register_answered :: "string option option \<Rightarrow> node_agent \<Rightarrow> node_agent \<times> bool" where
  "register_answered answer a =
     (case answer of
        None \<Rightarrow> (a, False)
      | Some tok \<Rightarrow> (case truthy tok of None \<Rightarrow> (a, True) | Some jwt \<Rightarrow> (a\<lparr>na_jwt := jwt\<rparr>, True)))"

definition heartbeat_body :: "node_agent \<Rightarrow> heartbeat_payload" where
  "heartbeat_body a =
     \<lparr>hb_current_load = Some (na_load a), hb_running_jobs = Some (na_running a),
      hb_queue_size = Some (int (length (na_running a))), hb_avg_latency_ms = Some (na_latency a)\<rparr>"

section \<open>A job on the node\<close>

definition sandbox_plan :: "(string \<Rightarrow> string) \<Rightarrow> string \<Rightarrow> string \<Rightarrow> (string \<times> nat) option" where
  "sandbox_plan repr ty task =
     (if ty \<in> {''code'', ''ai''} then Some (task, 35)
      else if ty \<in> {''shell'', ''system''}
      then Some (''import subprocess; print(subprocess.getoutput('' @ repr task @ ''))'', 25)
      else None)"

record sandbox_result =
  sr_ok :: bool
  sr_exit :: int
  sr_stdout :: string
  sr_stderr :: string

definition execute_job :: "(string \<Rightarrow> nat \<Rightarrow> sandbox_result) \<Rightarrow> (string \<Rightarrow> string) \<Rightarrow> string \<Rightarrow> string \<Rightarrow> sandbox_result" where
  "execute_job docker repr ty task =
     (case sandbox_plan repr ty task of
        Some (code, timeout) \<Rightarrow> docker code timeout
      | None \<Rightarrow> \<lparr>sr_ok = False, sr_exit = 1, sr_stdout = [], sr_stderr = ''Unknown job type''\<rparr>)"

definition book_job :: "string \<Rightarrow> node_agent \<Rightarrow> node_agent" where
  "book_job jid a = a\<lparr>na_running := na_running a @ [jid], na_load := min 1 (na_load a + 1 / 4)\<rparr>"

definition release_job :: "string \<Rightarrow> node_agent \<Rightarrow> node_agent" where
  "release_job jid a = a\<lparr>na_load := max 0 (na_load a - 1 / 4), na_running := remove1 jid (na_running a)\<rparr>"

text \<open>The start of a thread: \<open>id\<close> and \<open>task\<close> are read before the booking, \<open>type\<close> after it.\<close>

definition begin_job :: "job_body \<Rightarrow> agent_process \<Rightarrow> agent_process" where
  "begin_job b s =
     (case (jb_id b, jb_task b) of
        (Some jid, Some task) \<Rightarrow>
          let s1 = s\<lparr>ap_state := book_job jid (ap_state s)\<rparr>
          in (case jb_type b of
                None \<Rightarrow> s1\<lparr>ap_dead := jid # ap_dead s1\<rparr>
              | Some ty \<Rightarrow> s1\<lparr>ap_working := ap_working s1 @ [jid]\<rparr>)
      | _ \<Rightarrow> s)"

text \<open>The report is sent, whether it arrives or not, and the job is released.\<close>

definition finish_job :: "string \<Rightarrow> agent_process \<Rightarrow> agent_process" where
  "finish_job jid s = s\<lparr>ap_state := release_job jid (ap_state s), ap_working := remove1 jid (ap_working s)\<rparr>"

section \<open>Accepting a job\<close>

record run_request =
  rq_node_id :: "string option"
  rq_ts :: "string option"
  rq_sig :: "string option"
  rq_body :: job_body

record agent_config =
  ac_hmac :: hmac_fun
  ac_sha256 :: "string \<Rightarrow> string"
  ac_body_text :: "job_body \<Rightarrow> string"
  ac_job_keys :: job_keys

definition run_job :: "agent_config \<Rightarrow> int \<Rightarrow> run_request \<Rightarrow> agent_process \<Rightarrow> agent_process \<times> (http_error + string)" where
  "run_job c now q s =
     (let a = ap_state s; b = rq_body q;
          req = \<lparr>req_node_id = na_node_id a, req_method = ''POST'', req_path = ''/run_job'', req_body = Some (ac_body_text c b)\<rparr>
      in if rq_node_id q \<noteq> Some (na_node_id a) then (s, Inl (403, ''invalid node identity''))
         else if na_secret a \<noteq> [] \<and> \<not> verify_headers (ac_hmac c) (ac_sha256 c) 60 now (na_secret a) req (rq_ts q) (rq_sig q)
         then (s, Inl (403, ''invalid signature''))
         else if \<not> verify_job_payload (ac_job_keys c) (b\<lparr>jb_sig := None\<rparr>) (jb_sig b)
         then (s, Inl (403, ''invalid job payload signature''))
         else (s\<lparr>ap_starting := ap_starting s @ [b\<lparr>jb_sig := None\<rparr>]\<rparr>,
               (case jb_id b of None \<Rightarrow> Inl (500, ''KeyError'') | Some jid \<Rightarrow> Inr jid)))"

text \<open>The request of the control plane for a job, given the secret that it has stored for the node.\<close>

definition dispatch_request :: "agent_config \<Rightarrow> int \<Rightarrow> string \<Rightarrow> string option \<Rightarrow> job_body \<Rightarrow> run_request" where
  "dispatch_request c now nid secret b =
     (let s = sign_job_payload (ac_job_keys c) b;
          body = (if s \<noteq> [] then b\<lparr>jb_sig := Some s\<rparr> else b)
      in case truthy secret of
           None \<Rightarrow> \<lparr>rq_node_id = None, rq_ts = None, rq_sig = None, rq_body = body\<rparr>
         | Some sec \<Rightarrow>
             let (i, ts, sg) = build_auth_headers (ac_hmac c) (ac_sha256 c) now sec
                   \<lparr>req_node_id = nid, req_method = ''POST'', req_path = ''/run_job'', req_body = Some (ac_body_text c body)\<rparr>
             in \<lparr>rq_node_id = Some i, rq_ts = Some ts, rq_sig = Some sg, rq_body = body\<rparr>)"

section \<open>Runs of the agent\<close>

datatype agent_op =
    OpRun int run_request
  | OpBegin nat
  | OpFinish nat
  | OpRegister "string option option"

text \<open>Threads make their steps in any order; an index that stands for no thread does nothing.\<close>

fun agent_step :: "agent_config \<Rightarrow> agent_op \<Rightarrow> agent_process \<Rightarrow> agent_process" where
  "agent_step c (OpRun now q) s = fst (run_job c now q s)"
| "agent_step c (OpBegin i) s =
     (if i < length (ap_starting s)
      then begin_job (ap_starting s ! i) (s\<lparr>ap_starting := take i (ap_starting s) @ drop (Suc i) (ap_starting s)\<rparr>) else s)"
| "agent_step c (OpFinish i) s = (if i < length (ap_working s) then finish_job (ap_working s ! i) s else s)"
| "agent_step c (OpRegister answer) s = s\<lparr>ap_state := fst (register_answered answer (ap_state s))\<rparr>"

definition agent_ok :: "agent_process \<Rightarrow> bool" where
  "agent_ok s \<longleftrightarrow> (let a = ap_state s
     in mset (na_running a) = mset (ap_working s) + mset (ap_dead s)
      \<and> 0 \<le> na_load a \<and> na_load a \<le> 1 \<and> 4 * na_load a \<le> of_nat (length (na_running a)))"

lemma run_job_frame:
  "ap_state (fst (run_job c now q s)) = ap_state s" "ap_working (fst (run_job c now q s)) = ap_working s"
  "ap_dead (fst (run_job c now q s)) = ap_dead s"
  by (simp_all add: run_job_def Let_def)

text \<open>The arithmetic of the load: a quarter up, cut at 1, and a quarter down, cut at 0.\<close>

lemma load_up:
  fixes l n :: rat
  assumes "0 \<le> l" "l \<le> 1" "4 * l \<le> n"
  shows "0 \<le> min 1 (l + 1 / 4)" "min 1 (l + 1 / 4) \<le> 1" "4 * min 1 (l + 1 / 4) \<le> 1 + n"
  using assms by (simp_all add: min_def)

lemma load_down:
  fixes l n :: rat
  assumes "0 \<le> l" "l \<le> 1" "4 * l \<le> 1 + n" "0 \<le> n"
  shows "0 \<le> max 0 (l - 1 / 4)" "max 0 (l - 1 / 4) \<le> 1" "4 * max 0 (l - 1 / 4) \<le> n"
  using assms by (simp_all add: max_def)

lemma length_remove: "x \<in> set xs \<Longrightarrow> length xs = Suc (length (remove1 x xs))"
  by (induction xs) auto

lemma agent_ok_begin: "agent_ok s \<Longrightarrow> agent_ok (begin_job b s)"
  by (cases "jb_id b"; cases "jb_task b"; cases "jb_type b")
    (simp_all add: agent_ok_def begin_job_def book_job_def Let_def load_up)

lemma working_running: "agent_ok s \<Longrightarrow> jid \<in> set (ap_working s) \<Longrightarrow> jid \<in> set (na_running (ap_state s))"
proof -
  assume "agent_ok s" "jid \<in> set (ap_working s)"
  then have "jid \<in># mset (na_running (ap_state s))" by (simp add: agent_ok_def Let_def)
  then show ?thesis by simp
qed

lemma agent_ok_finish:
  assumes ok: "agent_ok s" and jid: "jid \<in> set (ap_working s)"
  shows "agent_ok (finish_job jid s)"
proof -
  let ?a = "ap_state s" and ?n = "of_nat (length (remove1 jid (na_running (ap_state s)))) :: rat"
  have m: "mset (na_running ?a) = mset (ap_working s) + mset (ap_dead s)"
    and l: "0 \<le> na_load ?a" "na_load ?a \<le> 1" "4 * na_load ?a \<le> 1 + ?n"
    using ok length_remove [OF working_running [OF ok jid]] by (simp_all add: agent_ok_def Let_def)
  have "mset (remove1 jid (na_running ?a)) = mset (remove1 jid (ap_working s)) + mset (ap_dead s)"
    using m jid by simp
  then show ?thesis using load_down [OF l] by (simp add: agent_ok_def finish_job_def release_job_def Let_def)
qed

lemma agent_ok_step: "agent_ok s \<Longrightarrow> agent_ok (agent_step c p s)"
proof (cases p)
  case (OpRun now q)
  moreover assume "agent_ok s"
  ultimately show ?thesis by (simp add: agent_ok_def run_job_frame)
next
  case (OpBegin i)
  assume "agent_ok s"
  then have "agent_ok (s\<lparr>ap_starting := take i (ap_starting s) @ drop (Suc i) (ap_starting s)\<rparr>)" by (simp add: agent_ok_def)
  with OpBegin \<open>agent_ok s\<close> show ?thesis by (simp add: agent_ok_begin)
next
  case (OpFinish i)
  moreover assume "agent_ok s"
  ultimately show ?thesis by (auto intro!: agent_ok_finish)
next
  case (OpRegister answer)
  moreover assume "agent_ok s"
  ultimately show ?thesis by (simp add: agent_ok_def register_answered_def Let_def split: option.split)
qed

text \<open>A run that never has more than four jobs booked.\<close>

fun calm_run :: "agent_config \<Rightarrow> agent_op list \<Rightarrow> agent_process \<Rightarrow> bool" where
  "calm_run c [] s = (length (na_running (ap_state s)) \<le> 4)"
| "calm_run c (p # ps) s = (length (na_running (ap_state s)) \<le> 4 \<and> calm_run c ps (agent_step c p s))"

definition load_exact :: "agent_process \<Rightarrow> bool" where
  "load_exact s \<longleftrightarrow> 4 * na_load (ap_state s) = of_nat (length (na_running (ap_state s)))"

lemma load_exact_begin:
  "load_exact s \<Longrightarrow> length (na_running (ap_state (begin_job b s))) \<le> 4 \<Longrightarrow> load_exact (begin_job b s)"
  by (cases "jb_id b"; cases "jb_task b"; cases "jb_type b")
    (simp_all add: load_exact_def begin_job_def book_job_def Let_def min_def)

lemma load_exact_finish:
  assumes "load_exact s" "agent_ok s" "jid \<in> set (ap_working s)"
  shows "load_exact (finish_job jid s)"
proof -
  note len = length_remove [OF working_running [OF assms(2,3)]]
  from assms(1) show ?thesis by (simp add: load_exact_def finish_job_def release_job_def max_def len)
qed

lemma load_exact_step:
  assumes "load_exact s" "agent_ok s" "length (na_running (ap_state (agent_step c p s))) \<le> 4"
  shows "load_exact (agent_step c p s)"
proof (cases p)
  case (OpRun now q)
  with assms show ?thesis by (simp add: load_exact_def run_job_frame)
next
  case (OpBegin i)
  show ?thesis
  proof (cases "i < length (ap_starting s)")
    case True
    then have "load_exact (begin_job (ap_starting s ! i) (s\<lparr>ap_starting := take i (ap_starting s) @ drop (Suc i) (ap_starting s)\<rparr>))"
      using assms OpBegin by (intro load_exact_begin) (simp_all add: load_exact_def)
    with True OpBegin show ?thesis by simp
  qed (use assms OpBegin in simp)
next
  case (OpFinish i)
  with assms show ?thesis by (simp add: load_exact_finish)
next
  case (OpRegister answer)
  with assms show ?thesis by (simp add: load_exact_def register_answered_def split: option.split)
qed

lemma agent_run:
  "agent_ok s \<Longrightarrow> agent_ok (fold (agent_step c) ps s) \<and> (load_exact s \<longrightarrow> calm_run c ps s \<longrightarrow> load_exact (fold (agent_step c) ps s))"
proof (induction ps arbitrary: s)
  case (Cons p ps)
  have "length (na_running (ap_state (agent_step c p s))) \<le> 4" if "calm_run c ps (agent_step c p s)"
    using that by (cases ps) simp_all
  with Cons.IH [OF agent_ok_step [OF Cons.prems], of c p] load_exact_step [OF _ Cons.prems, of c p] show ?case by auto
qed simp


section \<open>The control plane and the node\<close>

lemma payload_signature:
  assumes "jb_sig b = None" "\<And>key msg. jk_hmac k key msg \<noteq> []"
  shows "verify_job_payload k b (jb_sig (if sign_job_payload k b \<noteq> [] then b\<lparr>jb_sig := Some (sign_job_payload k b)\<rparr> else b))"
  using assms by (simp add: verify_job_payload_def sign_job_payload_def truthy_def)

text \<open>
  C32: C0. A dispatched job is accepted. When the control plane and the node share the node's secret and the key
  of the job payloads, and their clocks differ by at most a minute, the node accepts the job that the control
  plane sends it and starts one thread for exactly that job.
\<close>

theorem dispatched_job_accepted:
  assumes "jb_sig b = None" "jb_id b = Some jid" "na_secret (ap_state s) \<noteq> []" "\<bar>later - now\<bar> \<le> 60"
    and "\<And>key msg. ac_hmac c key msg \<noteq> []" "\<And>key msg. jk_hmac (ac_job_keys c) key msg \<noteq> []"
  shows "run_job c later (dispatch_request c now (na_node_id (ap_state s)) (Some (na_secret (ap_state s))) b) s
    = (s\<lparr>ap_starting := ap_starting s @ [b]\<rparr>, Inr jid)"
proof -
  let ?k = "ac_job_keys c" and ?a = "ap_state s"
  define body where "body = (if sign_job_payload ?k b \<noteq> [] then b\<lparr>jb_sig := Some (sign_job_payload ?k b)\<rparr> else b)"
  have strip: "body\<lparr>jb_sig := None\<rparr> = b" "jb_id body = jb_id b" using assms(1) by (cases b; simp add: body_def)+
  have sig: "verify_job_payload ?k b (jb_sig body)" unfolding body_def by (rule payload_signature [OF assms(1,6)])
  define req where "req = \<lparr>req_node_id = na_node_id ?a, req_method = ''POST'', req_path = ''/run_job'', req_body = Some (ac_body_text c body)\<rparr>"
  have disp: "dispatch_request c now (na_node_id ?a) (Some (na_secret ?a)) b
      = \<lparr>rq_node_id = Some (na_node_id ?a), rq_ts = Some (string_of_int now),
         rq_sig = Some (sign_request (ac_hmac c) (ac_sha256 c) (na_secret ?a) req now), rq_body = body\<rparr>"
    using assms(3) by (simp add: dispatch_request_def body_def [symmetric] req_def [symmetric] truthy_def build_auth_headers_def Let_def)
  have "verify_headers (ac_hmac c) (ac_sha256 c) 60 later (na_secret ?a) req (Some (string_of_int now))
      (Some (sign_request (ac_hmac c) (ac_sha256 c) (na_secret ?a) req now))"
    using assms(4,5) by (simp add: node_accepts_iff py_int_string_of_int sign_request_def)
  with sig assms(2) show ?thesis
    by (simp add: run_job_def disp req_def [symmetric] strip Let_def)
qed

text \<open>A node whose secret the control plane does not have gets requests without an identity and refuses each of them.\<close>

lemma secretless_node_refuses:
  "truthy secret = None \<Longrightarrow> snd (run_job c later (dispatch_request c now nid secret b) s) = Inl (403, ''invalid node identity'')"
  by (simp add: dispatch_request_def run_job_def Let_def)

text \<open>A provisioned node is stored without a secret.\<close>

lemma provisioned_node_secretless:
  "get_node_secret nid (register_node t (r\<lparr>node_secret := []\<rparr>) m) = get_node_secret nid m"
  by (simp add: register_node_def get_node_secret_def add_node_def persist_node_def emit_def upd_db_def Let_def)

text \<open>
  C0. A heartbeat carries the state of the node into the control plane: the node that the memory holds
  afterwards has the load, the running jobs, their number and the latency of the agent, is healthy and was
  seen now.
\<close>

theorem heartbeat_carries_state:
  assumes "heartbeat t beta nid (heartbeat_body a) m = Inr m'" "synced m"
  shows "\<exists>n. dget (mem_nodes m') nid = Some n \<and> node_current_load n = na_load a \<and> node_running_jobs n = na_running a
    \<and> node_queue_size n = int (length (na_running a)) \<and> node_avg_latency_ms n = na_latency a
    \<and> node_healthy n \<and> node_last_seen n = t"
proof -
  obtain n where n: "dget (mem_nodes m) nid = Some n" using assms(1) by (auto simp: heartbeat_def split: option.splits)
  have id: "node_id n = nid" using assms(2) n by (auto simp: synced_def dest: keyed_dget)
  from assms(1) n show ?thesis
    by (auto simp: heartbeat_def heartbeat_body_def or_else_def Let_def store_node_def put_node_def add_node_def rejoin_def
        persist_node_def registry_put_def emit_def upd_db_def ema_def id)
qed

text \<open>The agent never measures a latency, so each heartbeat erases the one that the control plane measured.\<close>

lemma latency_never_measured: "na_latency (ap_state (fold (agent_step c) ps (new_process a))) = 0"
proof -
  have "na_latency (ap_state (agent_step c p s)) = na_latency (ap_state s)" for p s
    by (cases p)
      (simp_all add: run_job_frame begin_job_def book_job_def finish_job_def release_job_def register_answered_def Let_def split: option.split)
  then have "na_latency (ap_state (fold (agent_step c) ps s)) = na_latency (ap_state s)" for s
    by (induction ps arbitrary: s) simp_all
  then show ?thesis by (simp add: new_process_def)
qed

section \<open>Examples\<close>

definition sample_node :: node_agent where
  "sample_node = \<lparr>na_node_id = ''n1'', na_host = ''h'', na_port = 9001, na_type = CPU, na_has_gpu = False, na_load = 0,
     na_running = [], na_latency = 0, na_secret = ''s'', na_jwt = []\<rparr>"

definition sample_agent_config :: agent_config where
  "sample_agent_config = \<lparr>ac_hmac = (\<lambda>k m. CHR ''h'' # m), ac_sha256 = (\<lambda>b. b), ac_body_text = (\<lambda>b. case jb_id b of None \<Rightarrow> [] | Some i \<Rightarrow> i),
     ac_job_keys = \<lparr>jk_hmac = (\<lambda>k m. CHR ''h'' # m), jk_signing_key = ''p'', jk_canonical_job = (\<lambda>b. case jb_id b of None \<Rightarrow> [] | Some i \<Rightarrow> i)\<rparr>\<rparr>"

definition sample_body :: "string \<Rightarrow> string option \<Rightarrow> job_body" where
  "sample_body jid ty = \<lparr>jb_id = Some jid, jb_type = ty, jb_task = Some [], jb_core = JNull, jb_sig = None\<rparr>"

definition send_job :: "string \<Rightarrow> string option \<Rightarrow> agent_op" where
  "send_job jid ty = OpRun 130 (dispatch_request sample_agent_config 100 ''n1'' (Some ''s'') (sample_body jid ty))"

lemma dispatched_job_accepted_witness:
  "run_job sample_agent_config 130 (dispatch_request sample_agent_config 100 ''n1'' (Some ''s'') (sample_body ''j'' None)) (new_process sample_node)
    = ((new_process sample_node)\<lparr>ap_starting := [sample_body ''j'' None]\<rparr>, Inr ''j'')"
  using dispatched_job_accepted [of "sample_body ''j'' None" "''j''" "new_process sample_node" 130 100 sample_agent_config]
  by (simp add: sample_body_def new_process_def sample_node_def sample_agent_config_def)

definition busy_ops :: "agent_op list" where
  "busy_ops = [send_job ''a'' (Some ''code''), OpBegin 0, send_job ''b'' None, OpBegin 0]"


text \<open>A payload without a type is booked for ever.\<close>

lemma typeless_job_leaks:
  "na_running (ap_state (fold (agent_step sample_agent_config) [send_job ''b'' None, OpBegin 0, OpFinish 0] (new_process sample_node))) = [''b'']"
  by code_simp

text \<open>With a fifth job at once the load forgets one: four jobs later it is 0 while a job still runs.\<close>

lemma load_forgets_a_job:
  "let s = fold (agent_step sample_agent_config)
       (concat (map (\<lambda>j. [send_job j (Some ''code''), OpBegin 0]) [''a'', ''b'', ''c'', ''d'', ''e''])
        @ [OpFinish 0, OpFinish 0, OpFinish 0, OpFinish 0]) (new_process sample_node)
   in na_running (ap_state s) = [''e''] \<and> na_load (ap_state s) = 0"
  by code_simp

definition one_node :: cluster_memory where
  "one_node = register_node 1 (register_payload sample_node) empty_memory"

lemma heartbeat_carries_state_witness:
  "\<exists>m' n. heartbeat 5 (1 / 4) ''n1'' (heartbeat_body (book_job ''j'' sample_node)) one_node = Inr m'
    \<and> dget (mem_nodes m') ''n1'' = Some n \<and> node_current_load n = 1 / 4 \<and> node_running_jobs n = [''j'']"
proof -
  have s: "synced one_node"
    unfolding one_node_def register_node_def Let_def
    by (auto intro!: synced_save_node_secret synced_add_node synced_empty)
  have "dget (mem_nodes one_node) ''n1'' \<noteq> None" by code_simp
  then obtain m' where m': "heartbeat 5 (1 / 4) ''n1'' (heartbeat_body (book_job ''j'' sample_node)) one_node = Inr m'"
    by (auto simp: heartbeat_def Let_def)
  have "na_load (book_job ''j'' sample_node) = 1 / 4" "na_running (book_job ''j'' sample_node) = [''j'']" by code_simp+
  with heartbeat_carries_state [OF m' s] m' show ?thesis by auto
qed

end
