(* ===== verification/Engines.thy ===== *)
theory Engines
  imports Telemetry
begin

text \<open>
  The four engines of \<open>optimization/\<close> work alike: a round reads the reports of the regions, remembers a
  profile of each, keeps the actions that it finds in a bounded history and executes some of them. Here that
  round is stated once for any reports, profiles and actions; the theory Efficiency gives each engine its
  analysis. An executed action is the same object as the one in the history.
\<close>

section \<open>Rounds\<close>

record ('v, 'a) rounds =
  en_max_history :: nat
  en_view :: 'v
  en_actions :: "'a journal"
  en_executed :: nat
  en_saved :: rat
  en_events :: "'a list"

definition new_rounds :: "nat \<Rightarrow> 'v \<Rightarrow> ('v, 'a) rounds" where
  "new_rounds mh v =
     \<lparr>en_max_history = mh, en_view = v, en_actions = new_journal, en_executed = 0, en_saved = 0, en_events = []\<rparr>"

definition latest_actions :: "nat \<Rightarrow> ('v, 'a) rounds \<Rightarrow> 'a list" where
  "latest_actions limit s = take limit (rev (jo_history (en_actions s)))"

definition latest_events :: "nat \<Rightarrow> ('v, 'a) rounds \<Rightarrow> 'a list" where
  "latest_events limit s = take limit (rev (en_events s))"

text \<open>\<open>observe\<close> remembers a report, \<open>propose\<close> gives its actions.\<close>

definition engine_analyze ::
    "('r \<Rightarrow> 'v \<Rightarrow> 'v) \<Rightarrow> ('r \<Rightarrow> 'a list) \<Rightarrow> 'r list \<Rightarrow> ('v, 'a) rounds \<Rightarrow> ('v, 'a) rounds \<times> nat list" where
  "engine_analyze observe propose rs s =
     (let (j, refs) = jo_extend (en_max_history s) (concat (map propose rs)) (en_actions s)
      in (s\<lparr>en_view := fold observe rs (en_view s), en_actions := j\<rparr>, refs))"

text \<open>\<open>mark\<close> sets the executed flag, \<open>gain\<close> is what the totals add; the event is taken of the marked action.\<close>

definition engine_execute ::
    "('a \<Rightarrow> 'a) \<Rightarrow> ('a \<Rightarrow> rat) \<Rightarrow> nat \<Rightarrow> ('v, 'a) rounds \<Rightarrow> ('v, 'a) rounds" where
  "engine_execute mark gain i s =
     (let x = mark (jo_get (en_actions s) i)
      in s\<lparr>en_actions := jo_change i mark (en_actions s), en_executed := en_executed s + 1, en_saved := en_saved s + gain x,
           en_events := py_cap (en_max_history s) (en_events s @ [x])\<rparr>)"

definition engine_round ::
    "('r \<Rightarrow> 'v \<Rightarrow> 'v) \<Rightarrow> ('r \<Rightarrow> 'a list) \<Rightarrow> ('a \<Rightarrow> bool) \<Rightarrow> ('a \<Rightarrow> 'a) \<Rightarrow> ('a \<Rightarrow> rat) \<Rightarrow> 'r list
      \<Rightarrow> ('v, 'a) rounds \<Rightarrow> ('v, 'a) rounds \<times> nat list" where
  "engine_round observe propose chosen mark gain rs s =
     (let (s1, refs) = engine_analyze observe propose rs s
      in (fold (\<lambda>i s. if chosen (jo_get (en_actions s) i) then engine_execute mark gain i s else s) refs s1, refs))"

section \<open>What a round does\<close>

text \<open>Executing some of a list of distinct objects.\<close>

lemma execute_chosen:
  assumes "distinct is" "\<forall>i \<in> set is. i < length (jo_objs (en_actions s))"
    and s': "s' = fold (\<lambda>i s. if chosen (jo_get (en_actions s) i) then engine_execute mark gain i s else s) is s"
  shows "(\<forall>k. jo_get (en_actions s') k =
        (if k \<in> set is \<and> chosen (jo_get (en_actions s) k) then mark (jo_get (en_actions s) k) else jo_get (en_actions s) k))
    \<and> jo_refs (en_actions s') = jo_refs (en_actions s) \<and> length (jo_objs (en_actions s')) = length (jo_objs (en_actions s))
    \<and> en_executed s' = en_executed s + length (filter chosen (map (jo_get (en_actions s)) is))
    \<and> en_saved s' = en_saved s + sum_list (map (\<lambda>x. gain (mark x)) (filter chosen (map (jo_get (en_actions s)) is)))
    \<and> en_view s' = en_view s \<and> en_max_history s' = en_max_history s"
  using assms
proof (induction "is" arbitrary: s)
  case (Cons i "is")
  define s1 where "s1 = (if chosen (jo_get (en_actions s) i) then engine_execute mark gain i s else s)"
  have lt: "i < length (jo_objs (en_actions s))" using Cons.prems by simp
  have get: "jo_get (en_actions s1) k = (if k = i \<and> chosen (jo_get (en_actions s) i) then mark (jo_get (en_actions s) i) else jo_get (en_actions s) k)" for k
    using lt by (simp add: s1_def engine_execute_def Let_def jo_get_change)
  have frame: "jo_refs (en_actions s1) = jo_refs (en_actions s)" "length (jo_objs (en_actions s1)) = length (jo_objs (en_actions s))"
    "en_view s1 = en_view s" "en_max_history s1 = en_max_history s"
    "en_executed s1 = en_executed s + (if chosen (jo_get (en_actions s) i) then 1 else 0)"
    "en_saved s1 = en_saved s + (if chosen (jo_get (en_actions s) i) then gain (mark (jo_get (en_actions s) i)) else 0)"
    by (simp_all add: s1_def engine_execute_def Let_def)
  have same: "map (jo_get (en_actions s1)) is = map (jo_get (en_actions s)) is"
    using Cons.prems(1) by (auto simp: get)
  have "s' = fold (\<lambda>i s. if chosen (jo_get (en_actions s) i) then engine_execute mark gain i s else s) is s1"
    using Cons.prems(3) by (simp add: s1_def)
  from Cons.IH [OF _ _ this] Cons.prems(1,2) frame(2)
  have ih: "\<forall>k. jo_get (en_actions s') k =
        (if k \<in> set is \<and> chosen (jo_get (en_actions s1) k) then mark (jo_get (en_actions s1) k) else jo_get (en_actions s1) k)"
    "jo_refs (en_actions s') = jo_refs (en_actions s1)" "length (jo_objs (en_actions s')) = length (jo_objs (en_actions s1))"
    "en_executed s' = en_executed s1 + length (filter chosen (map (jo_get (en_actions s1)) is))"
    "en_saved s' = en_saved s1 + sum_list (map (\<lambda>x. gain (mark x)) (filter chosen (map (jo_get (en_actions s1)) is)))"
    "en_view s' = en_view s1" "en_max_history s' = en_max_history s1" by simp_all
  have "i \<notin> set is" using Cons.prems(1) by simp
  then have "\<forall>k. jo_get (en_actions s') k =
        (if k \<in> set (i # is) \<and> chosen (jo_get (en_actions s) k) then mark (jo_get (en_actions s) k) else jo_get (en_actions s) k)"
    using ih(1) get by auto
  with ih(2-) frame same show ?case by simp
qed simp

text \<open>
  A round in one sentence: the view has seen every report, the new actions are those proposed, in order, the
  chosen ones marked, the totals count the chosen ones, and nothing older is touched.
\<close>

definition round_ok ::
    "('r \<Rightarrow> 'v \<Rightarrow> 'v) \<Rightarrow> 'a list \<Rightarrow> ('a \<Rightarrow> bool) \<Rightarrow> ('a \<Rightarrow> 'a) \<Rightarrow> ('a \<Rightarrow> rat) \<Rightarrow> 'r list
      \<Rightarrow> ('v, 'a) rounds \<Rightarrow> ('v, 'a) rounds \<Rightarrow> nat list \<Rightarrow> bool" where
  "round_ok observe acts chosen mark gain rs s s' refs \<longleftrightarrow>
     en_view s' = fold observe rs (en_view s)
     \<and> map (jo_get (en_actions s')) refs = map (\<lambda>x. if chosen x then mark x else x) acts
     \<and> (\<forall>k < length (jo_objs (en_actions s)). jo_get (en_actions s') k = jo_get (en_actions s) k)
     \<and> jo_refs (en_actions s') = py_cap (en_max_history s) (jo_refs (en_actions s) @ refs)
     \<and> en_executed s' = en_executed s + length (filter chosen acts)
     \<and> en_saved s' = en_saved s + sum_list (map (\<lambda>x. gain (mark x)) (filter chosen acts))
     \<and> en_max_history s' = en_max_history s"

lemma engine_round_ok:
  assumes "engine_round observe propose chosen mark gain rs s = (s', refs)"
  shows "round_ok observe (concat (map propose rs)) chosen mark gain rs s s' refs"
proof -
  let ?acts = "concat (map propose rs)"
  obtain j where ext: "jo_extend (en_max_history s) ?acts (en_actions s) = (j, refs)"
    and s': "s' = fold (\<lambda>i s. if chosen (jo_get (en_actions s) i) then engine_execute mark gain i s else s) refs
        (s\<lparr>en_view := fold observe rs (en_view s), en_actions := j\<rparr>)"
    using assms by (auto simp: engine_round_def engine_analyze_def Let_def split: prod.splits)
  note new = jo_new_refs [OF ext]
  let ?s1 = "s\<lparr>en_view := fold observe rs (en_view s), en_actions := j\<rparr>"
  have "\<forall>i \<in> set refs. i < length (jo_objs (en_actions ?s1))" using new(3) by simp
  note ex = execute_chosen [OF new(2) this s']
  have acts: "map (jo_get j) refs = ?acts" using new(1,4) by (auto intro: nth_equalityI)
  have "map (jo_get (en_actions s')) refs = map (\<lambda>x. if chosen x then mark x else x) (map (jo_get j) refs)"
    using ex by simp
  moreover have "jo_get (en_actions s') k = jo_get (en_actions s) k" if "k < length (jo_objs (en_actions s))" for k
    using ex new(3) new(6) [OF that] that by auto
  moreover have "jo_refs j = py_cap (en_max_history s) (jo_refs (en_actions s) @ refs)"
    using ext by (auto simp: jo_extend_def Let_def)
  ultimately show ?thesis using ex by (simp add: round_ok_def acts)
qed

text \<open>The events are the last executed actions.\<close>

definition engine_ok :: "('v, 'a) rounds \<Rightarrow> bool" where
  "engine_ok s \<longleftrightarrow> 0 < en_max_history s \<and> length (en_events s) \<le> en_max_history s"

lemma engine_ok_new: "0 < mh \<Longrightarrow> engine_ok (new_rounds mh v)"
  by (simp add: engine_ok_def new_rounds_def)

lemma execute_events:
  assumes "engine_ok s" "distinct is" "\<forall>i \<in> set is. i < length (jo_objs (en_actions s))"
    and "s' = fold (\<lambda>i s. if chosen (jo_get (en_actions s) i) then engine_execute mark gain i s else s) is s"
  shows "en_events s' = py_cap (en_max_history s) (en_events s @ map mark (filter chosen (map (jo_get (en_actions s)) is)))"
  using assms
proof (induction "is" arbitrary: s)
  case Nil
  then show ?case by (simp add: engine_ok_def py_cap_small)
next
  case (Cons i "is")
  define s1 where "s1 = (if chosen (jo_get (en_actions s) i) then engine_execute mark gain i s else s)"
  have n: "0 < en_max_history s" using Cons.prems(1) by (simp add: engine_ok_def)
  have lt: "i < length (jo_objs (en_actions s))" using Cons.prems by simp
  have same: "map (jo_get (en_actions s1)) is = map (jo_get (en_actions s)) is"
    using Cons.prems(2) lt by (auto simp: s1_def engine_execute_def Let_def jo_get_change)
  have ev: "en_events s1 = py_cap (en_max_history s) (en_events s @ map mark (filter chosen [jo_get (en_actions s) i]))"
    using Cons.prems(1) by (simp add: s1_def engine_execute_def engine_ok_def py_cap_small Let_def)
  have frame: "en_max_history s1 = en_max_history s" "length (jo_objs (en_actions s1)) = length (jo_objs (en_actions s))"
    by (simp_all add: s1_def engine_execute_def Let_def)
  have ok: "engine_ok s1" using n length_py_cap [OF n] unfolding engine_ok_def frame ev by blast
  have "s' = fold (\<lambda>i s. if chosen (jo_get (en_actions s) i) then engine_execute mark gain i s else s) is s1"
    using Cons.prems(4) by (simp add: s1_def)
  from Cons.IH [OF ok _ _ this] Cons.prems(2,3) frame
  have "en_events s' = py_cap (en_max_history s) (en_events s1 @ map mark (filter chosen (map (jo_get (en_actions s)) is)))"
    by (simp add: same)
  then show ?case by (simp add: ev py_cap_nested [OF n])
qed

text \<open>A round as an operation that reports the actions it executed: the contract of a bounded history.\<close>

definition executed_round ::
    "('r \<Rightarrow> 'v \<Rightarrow> 'v) \<Rightarrow> ('r \<Rightarrow> 'a list) \<Rightarrow> ('a \<Rightarrow> bool) \<Rightarrow> ('a \<Rightarrow> 'a) \<Rightarrow> ('a \<Rightarrow> rat) \<Rightarrow> 'r list
      \<Rightarrow> ('v, 'a) rounds \<Rightarrow> ('v, 'a) rounds \<times> 'a list" where
  "executed_round observe propose chosen mark gain rs s =
     (fst (engine_round observe propose chosen mark gain rs s), map mark (filter chosen (concat (map propose rs))))"

lemma executed_round_keeps:
  assumes ok: "engine_ok s" and st: "executed_round observe propose chosen mark gain rs s = (s', es)"
  shows "engine_ok s' \<and> en_max_history s' = en_max_history s \<and> en_events s' = py_cap (en_max_history s) (en_events s @ es)
    \<and> en_executed s' = en_executed s + length es"
proof -
  let ?acts = "concat (map propose rs)"
  obtain refs where r: "engine_round observe propose chosen mark gain rs s = (s', refs)"
    using st by (cases "engine_round observe propose chosen mark gain rs s") (simp add: executed_round_def)
  note k = engine_round_ok [OF r, unfolded round_ok_def]
  have es: "es = map mark (filter chosen ?acts)" using st by (simp add: executed_round_def)
  obtain j where ext: "jo_extend (en_max_history s) ?acts (en_actions s) = (j, refs)"
    and s': "s' = fold (\<lambda>i s. if chosen (jo_get (en_actions s) i) then engine_execute mark gain i s else s) refs
        (s\<lparr>en_view := fold observe rs (en_view s), en_actions := j\<rparr>)"
    using r by (auto simp: engine_round_def engine_analyze_def Let_def split: prod.splits)
  note new = jo_new_refs [OF ext]
  let ?s1 = "s\<lparr>en_view := fold observe rs (en_view s), en_actions := j\<rparr>"
  have "engine_ok ?s1" "\<forall>i \<in> set refs. i < length (jo_objs (en_actions ?s1))" using ok new(3) by (simp_all add: engine_ok_def)
  note ev = execute_events [OF this(1) new(2) this(2) s']
  have "map (jo_get j) refs = ?acts" using new(1,4) by (auto intro: nth_equalityI)
  with ev have "en_events s' = py_cap (en_max_history s) (en_events s @ es)" by (simp add: es)
  with k ok show ?thesis by (simp add: es engine_ok_def length_py_cap)
qed

text \<open>Rounds at any moments, as the steps of a history.\<close>

definition engine_step ::
    "(pyfloat \<Rightarrow> 'r \<Rightarrow> 'v \<Rightarrow> 'v) \<Rightarrow> (pyfloat \<Rightarrow> 'r \<Rightarrow> 'a list) \<Rightarrow> ('a \<Rightarrow> bool) \<Rightarrow> ('a \<Rightarrow> 'a) \<Rightarrow> ('a \<Rightarrow> rat)
      \<Rightarrow> pyfloat \<times> 'r list \<Rightarrow> ('v, 'a) rounds \<Rightarrow> ('v, 'a) rounds \<times> 'a list" where
  "engine_step observe propose chosen mark gain q s =
     executed_round (observe (fst q)) (propose (fst q)) chosen mark gain (snd q) s"

interpretation engine_log: history engine_ok en_events en_max_history en_executed
    "engine_step observe propose chosen mark gain" for observe propose chosen mark gain
proof
  show "engine_ok s \<Longrightarrow> engine_step observe propose chosen mark gain q s = (s', es) \<Longrightarrow>
      engine_ok s' \<and> en_max_history s' = en_max_history s \<and> en_events s' = py_cap (en_max_history s) (en_events s @ es)
        \<and> en_executed s' = en_executed s + length es" for q s s' es
    by (rule executed_round_keeps) (simp_all add: engine_step_def)
qed (simp add: engine_ok_def)

text \<open>What all the rounds since the start have executed.\<close>

lemma engine_run:
  assumes "0 < mh" and run: "run_outputs (engine_step observe propose chosen mark gain) qs (new_rounds mh v) = (s, es)"
  shows "en_events s = py_cap mh es \<and> en_executed s = length es \<and> en_saved s = sum_list (map gain es)
    \<and> es = concat (map (\<lambda>q. map mark (filter chosen (concat (map (propose (fst q)) (snd q))))) qs)"
proof -
  have new: "engine_ok (new_rounds mh v)" "en_events (new_rounds mh v) = []" "en_max_history (new_rounds mh v) = mh"
      "en_executed (new_rounds mh v) = 0" "en_saved (new_rounds mh v) = 0"
    using assms(1) by (simp_all add: engine_ok_def new_rounds_def)
  have saved: "en_saved s2 = en_saved s1 + sum_list (map gain es2)
      \<and> es2 = concat (map (\<lambda>q. map mark (filter chosen (concat (map (propose (fst q)) (snd q))))) qs)"
    if "run_outputs (engine_step observe propose chosen mark gain) qs s1 = (s2, es2)" for s1 s2 es2 qs
    using that
  proof (induction qs arbitrary: s1 es2)
    case (Cons q qs)
    let ?p = "concat (map (propose (fst q)) (snd q))"
    obtain s' refs where r: "engine_round (observe (fst q)) (propose (fst q)) chosen mark gain (snd q) s1 = (s', refs)" by fastforce
    then have one: "engine_step observe propose chosen mark gain q s1 = (s', map mark (filter chosen ?p))"
      by (simp add: engine_step_def executed_round_def)
    obtain es3 where rest: "run_outputs (engine_step observe propose chosen mark gain) qs s' = (s2, es3)"
      and es: "es2 = map mark (filter chosen ?p) @ es3"
      using Cons.prems one by (auto split: prod.splits)
    note ih = Cons.IH [OF rest]
    have "en_saved s' = en_saved s1 + sum_list (map (\<lambda>x. gain (mark x)) (filter chosen ?p))"
      using engine_round_ok [OF r] by (simp add: round_ok_def)
    then have "en_saved s2 = en_saved s1 + sum_list (map gain es2)" using ih by (simp add: es comp_def)
    moreover have "es2 = concat (map (\<lambda>q. map mark (filter chosen (concat (map (propose (fst q)) (snd q))))) (q # qs))"
      using ih by (simp add: es)
    ultimately show ?case by (rule conjI)
  qed simp
  show ?thesis using engine_log.history_complete [OF new(1) _ run] saved [OF run] unfolding new by simp
qed

text \<open>The view of an engine that remembers one profile per region: the last report of a region counts.\<close>

definition remember :: "('r \<Rightarrow> string) \<Rightarrow> ('r \<Rightarrow> 'p) \<Rightarrow> 'r \<Rightarrow> (string, 'p) dict \<Rightarrow> (string, 'p) dict" where
  "remember rid prof r d = dput (rid r) (prof r) d"

lemma remember_all:
  "dget (fold (remember rid prof) rs d) k =
     (case filter (\<lambda>r. rid r = k) rs of [] \<Rightarrow> dget d k | xs \<Rightarrow> Some (prof (last xs)))"
proof (induction rs rule: rev_induct)
  case (snoc r rs)
  then show ?case by (cases "filter (\<lambda>r. rid r = k) rs") (auto simp: remember_def)
qed simp

end
