(* ===== verification/Efficiency.thy ===== *)
theory Efficiency
  imports Engines
begin

text \<open>
  The analyses of the engines of \<open>optimization/\<close>: GPU temperatures (\<open>thermal_balancer.py\<close>), energy
  (\<open>energy_scheduler.py\<close>), cost (\<open>cost_optimizer.py\<close>) and GPU utilization (\<open>gpu_optimizer.py\<close>), as
  instances of the round of theory Engines. A report that names one figure in two ways gives the first that
  it has. The temperatures for safe and critical differ, as their defaults do.
\<close>

section \<open>Temperature\<close>

datatype thermal_zone = TzSafe | TzWarm | TzHot | TzCritical

record thermal_action =
  th_id :: string
  th_region :: string
  th_zone :: thermal_zone
  th_temp :: rat
  th_target :: rat
  th_power :: rat
  th_type :: string
  th_migrate :: int
  th_executed :: bool
  th_created_at :: pyfloat

record thermal_snapshot =
  ts_region :: string
  ts_avg_temp :: rat
  ts_max_temp :: rat
  ts_pressure :: rat
  ts_zone :: thermal_zone
  ts_power :: rat
  ts_cooling :: rat
  ts_gpu_count :: int
  ts_time :: pyfloat

record thermal_limits =
  tl_safe :: rat
  tl_warm :: rat
  tl_hot :: rat
  tl_critical :: rat
  tl_target :: rat

definition thermal_defaults :: thermal_limits where
  "thermal_defaults = \<lparr>tl_safe = 65, tl_warm = 75, tl_hot = 85, tl_critical = 92, tl_target = 70\<rparr>"

definition classify_zone :: "thermal_limits \<Rightarrow> rat \<Rightarrow> thermal_zone" where
  "classify_zone l temp =
     (if temp \<ge> tl_critical l then TzCritical else if temp \<ge> tl_hot l then TzHot
      else if temp \<ge> tl_warm l then TzWarm else TzSafe)"

definition thermal_snapshot_of :: "thermal_limits \<Rightarrow> pyfloat \<Rightarrow> tele \<Rightarrow> thermal_snapshot" where
  "thermal_snapshot_of l t r =
     (let avg = num r ''gpu_temp_c'' (num r ''avg_gpu_temp_c'' 0);
          pressure = (if avg > 0 then min 1 (max 0 ((avg - tl_safe l) / (tl_critical l - tl_safe l))) else 0)
      in \<lparr>ts_region = region_of r, ts_avg_temp = py_round avg 1, ts_max_temp = py_round (num r ''max_gpu_temp_c'' avg) 1,
          ts_pressure = py_round pressure 3, ts_zone = classify_zone l avg, ts_power = py_round (num r ''power_consumption_w'' 0) 1,
          ts_cooling = py_round (num r ''cooling_efficiency'' 1) 3, ts_gpu_count = \<lfloor>num r ''total_gpus'' 0\<rfloor>, ts_time = t\<rparr>)"

definition thermal_action_of :: "thermal_limits \<Rightarrow> pyfloat \<Rightarrow> thermal_snapshot \<Rightarrow> string \<Rightarrow> string \<Rightarrow> int \<Rightarrow> thermal_action" where
  "thermal_action_of l t p prefix ty n =
     \<lparr>th_id = stamped_id prefix (ts_region p) t, th_region = ts_region p, th_zone = ts_zone p, th_temp = ts_avg_temp p,
      th_target = tl_target l, th_power = ts_power p, th_type = ty, th_migrate = n, th_executed = False, th_created_at = t\<rparr>"

definition thermal_actions :: "thermal_limits \<Rightarrow> pyfloat \<Rightarrow> thermal_snapshot \<Rightarrow> thermal_action list" where
  "thermal_actions l t p =
     (case ts_zone p of
        TzCritical \<Rightarrow> [thermal_action_of l t p ''thermal-emergency-'' ''emergency_throttle'' (max 1 (ts_gpu_count p div 2))]
      | TzHot \<Rightarrow> [thermal_action_of l t p ''thermal-rebalance-'' ''workload_redistribution'' (max 1 (ts_gpu_count p div 4))]
      | TzWarm \<Rightarrow> [thermal_action_of l t p ''thermal-monitor-'' ''increase_monitoring'' 0]
      | TzSafe \<Rightarrow> [])"

type_synonym thermal_balancer = "((string, thermal_snapshot) dict, thermal_action) rounds"

definition new_balancer :: "nat \<Rightarrow> thermal_balancer" where
  "new_balancer mh = new_rounds mh []"

definition thermal_monitor :: "thermal_limits \<Rightarrow> pyfloat \<Rightarrow> tele \<Rightarrow> (string, thermal_snapshot) dict \<Rightarrow> (string, thermal_snapshot) dict" where
  "thermal_monitor l t = remember region_of (thermal_snapshot_of l t)"

definition thermal_analyze :: "thermal_limits \<Rightarrow> pyfloat \<Rightarrow> tele list \<Rightarrow> thermal_balancer \<Rightarrow> thermal_balancer \<times> nat list" where
  "thermal_analyze l t = engine_analyze (thermal_monitor l t) (\<lambda>r. thermal_actions l t (thermal_snapshot_of l t r))"

definition thermal_execute :: "nat \<Rightarrow> thermal_balancer \<Rightarrow> thermal_balancer" where
  "thermal_execute = engine_execute (\<lambda>a. a\<lparr>th_executed := True\<rparr>) (\<lambda>a. 0)"

definition thermal_balance :: "thermal_limits \<Rightarrow> pyfloat \<Rightarrow> tele list \<Rightarrow> thermal_balancer \<Rightarrow> thermal_balancer \<times> nat list" where
  "thermal_balance l t rs s =
     (let (s1, refs) = thermal_analyze l t rs s
      in (fold (\<lambda>i s. if th_zone (jo_get (en_actions s) i) \<in> {TzHot, TzCritical} then thermal_execute i s else s) refs s1, refs))"

definition hotspots :: "thermal_balancer \<Rightarrow> thermal_snapshot list" where
  "hotspots s = filter (\<lambda>p. ts_zone p \<in> {TzHot, TzCritical}) (dvalues (en_view s))"

text \<open>The summary: rebalances, mean temperature, hotspots, power and regions.\<close>

definition thermal_metrics :: "thermal_balancer \<Rightarrow> nat \<times> rat \<times> nat \<times> rat \<times> nat" where
  "thermal_metrics s =
     (let ps = dvalues (en_view s)
      in (en_executed s, py_round (if ps = [] then 0 else sum_list (map ts_avg_temp ps) / of_nat (length ps)) 1, length (hotspots s),
          py_round (sum_list (map ts_power ps)) 1, length ps))"

section \<open>Energy\<close>

datatype energy_tier = EtGreen | EtStandard | EtPeak

record energy_action =
  ea_id :: string
  ea_region :: string
  ea_type :: string
  ea_energy_kwh :: rat
  ea_savings_kwh :: rat
  ea_tier :: energy_tier
  ea_executed :: bool
  ea_created_at :: pyfloat

record energy_profile =
  ep_region :: string
  ep_cost :: rat
  ep_power :: rat
  ep_tier :: energy_tier
  ep_renewable :: rat
  ep_carbon :: rat
  ep_pue :: rat
  ep_ts :: pyfloat

definition classify_tier :: "rat \<Rightarrow> rat \<Rightarrow> rat \<Rightarrow> rat \<Rightarrow> energy_tier" where
  "classify_tier peak green cost renewable =
     (if renewable \<ge> green then EtGreen else if cost > peak then EtPeak else EtStandard)"

definition energy_tier_of :: "rat \<Rightarrow> rat \<Rightarrow> tele \<Rightarrow> energy_tier" where
  "energy_tier_of peak green r = classify_tier peak green (num r ''energy_cost_per_kwh'' (10 / 100)) (num r ''renewable_pct'' 0)"

definition energy_profile_of :: "rat \<Rightarrow> rat \<Rightarrow> pyfloat \<Rightarrow> tele \<Rightarrow> energy_profile" where
  "energy_profile_of peak green t r =
     \<lparr>ep_region = region_of r, ep_cost = py_round (num r ''energy_cost_per_kwh'' (10 / 100)) 4,
      ep_power = py_round (num r ''power_consumption_w'' 0) 1, ep_tier = energy_tier_of peak green r,
      ep_renewable = py_round (num r ''renewable_pct'' 0) 3, ep_carbon = py_round (num r ''carbon_intensity'' (5 / 10)) 3,
      ep_pue = py_round (num r ''pue'' (15 / 10)) 2, ep_ts = t\<rparr>"

definition energy_actions :: "rat \<Rightarrow> rat \<Rightarrow> pyfloat \<Rightarrow> tele \<Rightarrow> energy_action list" where
  "energy_actions peak green t r =
     (let rid = region_of r; power = num r ''power_consumption_w'' 0; tier = energy_tier_of peak green r
      in (if tier = EtPeak
          then [\<lparr>ea_id = stamped_id ''energy-defer-'' rid t, ea_region = rid, ea_type = ''defer_to_offpeak'',
                 ea_energy_kwh = py_round (power / 1000) 3, ea_savings_kwh = py_round (power / 1000 * (3 / 10)) 3, ea_tier = tier,
                 ea_executed = False, ea_created_at = t\<rparr>] else [])
       @ (if tier = EtGreen \<and> num r ''workload_saturation'' 0 < 1 / 2
          then [\<lparr>ea_id = stamped_id ''energy-attract-'' rid t, ea_region = rid, ea_type = ''attract_workloads'', ea_energy_kwh = 0,
                 ea_savings_kwh = 0, ea_tier = tier, ea_executed = False, ea_created_at = t\<rparr>] else []))"

type_synonym energy_scheduler = "((string, energy_profile) dict, energy_action) rounds"

definition energy_schedule :: "rat \<Rightarrow> rat \<Rightarrow> pyfloat \<Rightarrow> tele list \<Rightarrow> energy_scheduler \<Rightarrow> energy_scheduler \<times> nat list" where
  "energy_schedule peak green t =
     engine_round (remember region_of (energy_profile_of peak green t)) (energy_actions peak green t) (\<lambda>a. True)
       (\<lambda>a. a\<lparr>ea_executed := True\<rparr>) (\<lambda>a. 0)"

definition green_regions :: "energy_scheduler \<Rightarrow> energy_profile list" where
  "green_regions s = filter (\<lambda>p. ep_tier p = EtGreen) (dvalues (en_view s))"

definition energy_metrics :: "energy_scheduler \<Rightarrow> nat \<times> rat \<times> rat \<times> nat \<times> nat" where
  "energy_metrics s =
     (let ps = dvalues (en_view s)
      in (en_executed s, py_round (sum_list (map ep_power ps)) 1,
          py_round (if ps = [] then 0 else sum_list (map ep_renewable ps) / of_nat (length ps)) 3,
          length (filter (\<lambda>p. ep_tier p = EtGreen) ps), length (filter (\<lambda>p. ep_tier p = EtPeak) ps)))"

section \<open>Cost\<close>

datatype cost_category = CcGpu | CcBandwidth | CcEnergy | CcIdle | CcReplication | CcStorage

record cost_action =
  ct_id :: string
  ct_category :: cost_category
  ct_region :: string
  ct_type :: string
  ct_current :: rat
  ct_projected :: rat
  ct_savings_pct :: rat
  ct_executed :: bool
  ct_created_at :: pyfloat

record cost_profile =
  cp_region :: string
  cp_gpu_cost :: rat
  cp_bandwidth_cost :: rat
  cp_energy_cost :: rat
  cp_idle :: rat
  cp_total :: rat
  cp_efficiency :: rat
  cp_ts :: pyfloat

definition region_cost :: "tele \<Rightarrow> rat" where
  "region_cost r = num r ''gpu_cost_per_hour'' 0 + num r ''bandwidth_cost_per_gb'' 0 * num r ''bandwidth_usage_gb'' 0
     + num r ''energy_cost_per_kwh'' 0 * num r ''energy_kwh'' 0"

definition idle_waste :: "rat \<Rightarrow> rat" where
  "idle_waste util = (if util < 1 / 2 then max 0 (1 - util) else 0)"

definition efficiency :: "rat \<Rightarrow> rat" where
  "efficiency util = min 1 (util * (6 / 10) + (1 - idle_waste util) * (4 / 10))"

definition cost_profile_of :: "pyfloat \<Rightarrow> tele \<Rightarrow> cost_profile" where
  "cost_profile_of t r =
     (let util = num r ''gpu_utilization'' 0
      in \<lparr>cp_region = region_of r, cp_gpu_cost = py_round (num r ''gpu_cost_per_hour'' 0) 4,
          cp_bandwidth_cost = py_round (num r ''bandwidth_cost_per_gb'' 0) 4, cp_energy_cost = py_round (num r ''energy_cost_per_kwh'' 0) 4,
          cp_idle = py_round (idle_waste util) 3, cp_total = py_round (region_cost r) 4, cp_efficiency = py_round (efficiency util) 3,
          cp_ts = t\<rparr>)"

definition cost_action_of :: "pyfloat \<Rightarrow> tele \<Rightarrow> string \<Rightarrow> cost_category \<Rightarrow> string \<Rightarrow> rat \<Rightarrow> rat \<Rightarrow> cost_action" where
  "cost_action_of t r prefix c ty projected savings =
     \<lparr>ct_id = stamped_id prefix (region_of r) t, ct_category = c, ct_region = region_of r, ct_type = ty, ct_current = region_cost r,
      ct_projected = py_round projected 4, ct_savings_pct = savings, ct_executed = False, ct_created_at = t\<rparr>"

definition cost_actions :: "rat \<Rightarrow> pyfloat \<Rightarrow> tele \<Rightarrow> cost_action list" where
  "cost_actions threshold t r =
     (let util = num r ''gpu_utilization'' 0; gpu = num r ''gpu_cost_per_hour'' 0; total = region_cost r; idle = idle_waste util;
          repl = num r ''replication_overhead_pct'' 0
      in (if idle > threshold
          then [cost_action_of t r ''cost-idle-'' CcIdle ''consolidate_idle'' (total - py_round (idle * gpu) 4) (py_round (idle * 100) 1)]
          else [])
       @ (if gpu > 0 \<and> util > 9 / 10
          then [cost_action_of t r ''cost-spot-'' CcGpu ''spot_routing'' (total * (7 / 10)) 30] else [])
       @ (if repl > 15 / 100
          then [cost_action_of t r ''cost-repl-'' CcReplication ''reduce_replication'' (total * (1 - repl * (5 / 10))) (py_round (repl * 50) 1)]
          else []))"

type_synonym cost_optimizer = "((string, cost_profile) dict, cost_action) rounds"

definition cost_optimize :: "rat \<Rightarrow> pyfloat \<Rightarrow> tele list \<Rightarrow> cost_optimizer \<Rightarrow> cost_optimizer \<times> nat list" where
  "cost_optimize threshold t =
     engine_round (remember region_of (cost_profile_of t)) (cost_actions threshold t) (\<lambda>a. True)
       (\<lambda>a. a\<lparr>ct_executed := True\<rparr>) ct_savings_pct"

definition cheapest_regions :: "nat \<Rightarrow> cost_optimizer \<Rightarrow> cost_profile list" where
  "cheapest_regions limit s = take limit (sort_key cp_total (dvalues (en_view s)))"

text \<open>The savings that were added up are not among the figures.\<close>

definition cost_metrics :: "cost_optimizer \<Rightarrow> nat \<times> rat \<times> rat \<times> nat" where
  "cost_metrics s =
     (let ps = dvalues (en_view s)
      in (en_executed s, py_round (sum_list (map cp_total ps)) 4,
          py_round (if ps = [] then 0 else sum_list (map cp_efficiency ps) / of_nat (length ps)) 3, length ps))"

section \<open>GPU utilization\<close>

text \<open>A region report with the reports of its GPUs: their id and utilization.\<close>

type_synonym gpu_report = "tele \<times> (string \<times> rat) list"

record gpu_action =
  ga_id :: string
  ga_region :: string
  ga_gpu :: string
  ga_type :: string
  ga_utilization :: rat
  ga_target :: rat
  ga_affected :: int
  ga_improvement :: rat
  ga_executed :: bool
  ga_created_at :: pyfloat

record gpu_limits =
  gl_target :: rat
  gl_under :: rat
  gl_over :: rat

definition gpu_action_of :: "gpu_limits \<Rightarrow> pyfloat \<Rightarrow> string \<Rightarrow> string \<Rightarrow> string \<Rightarrow> string \<Rightarrow> rat \<Rightarrow> int \<Rightarrow> rat \<Rightarrow> gpu_action" where
  "gpu_action_of l t i rid gid ty util n gain =
     \<lparr>ga_id = i, ga_region = rid, ga_gpu = gid, ga_type = ty, ga_utilization = py_round util 3, ga_target = gl_target l,
      ga_affected = n, ga_improvement = py_round (gain * 100) 1, ga_executed = False, ga_created_at = t\<rparr>"

definition gpu_actions :: "gpu_limits \<Rightarrow> pyfloat \<Rightarrow> gpu_report \<Rightarrow> gpu_action list" where
  "gpu_actions l t q =
     (let r = fst q; rid = region_of r; util = num r ''gpu_utilization'' 0; total = num r ''total_gpus'' 0
      in (if util < gl_under l \<and> total > 0
          then [gpu_action_of l t (stamped_id ''gpu-consolidate-'' rid t) rid [] ''consolidate'' util (max 1 \<lfloor>total * (1 - util)\<rfloor>)
                  (gl_target l - util)]
          else if util > gl_over l
          then [gpu_action_of l t (stamped_id ''gpu-offload-'' rid t) rid [] ''offload'' util (max 1 \<lfloor>total * (util - gl_target l)\<rfloor>)
                  (util - gl_target l)]
          else [])
       @ concat (map (\<lambda>(gid, u). if u > gl_over l
           then [gpu_action_of l t (stamped_id ''gpu-rebalance-'' gid t) rid gid ''rebalance'' u 0 (u - gl_target l)] else []) (snd q)))"

type_synonym gpu_optimizer = "(unit, gpu_action) rounds"

definition gpu_optimize :: "gpu_limits \<Rightarrow> pyfloat \<Rightarrow> gpu_report list \<Rightarrow> gpu_optimizer \<Rightarrow> gpu_optimizer \<times> nat list" where
  "gpu_optimize l t = engine_round (\<lambda>r v. v) (gpu_actions l t) (\<lambda>a. True) (\<lambda>a. a\<lparr>ga_executed := True\<rparr>) (\<lambda>a. 0)"

definition gpu_metrics :: "gpu_optimizer \<Rightarrow> nat \<times> nat" where
  "gpu_metrics s = (en_executed s, length (filter (\<lambda>a. \<not> ga_executed a) (jo_history (en_actions s))))"

section \<open>Temperature: who is throttled\<close>

abbreviation reported_temp :: "tele \<Rightarrow> rat" where
  "reported_temp r \<equiv> num r ''gpu_temp_c'' (num r ''avg_gpu_temp_c'' 0)"

lemma thermal_balance_round:
  "thermal_balance l t rs s =
     engine_round (thermal_monitor l t) (\<lambda>r. thermal_actions l t (thermal_snapshot_of l t r))
       (\<lambda>a. th_zone a \<in> {TzHot, TzCritical}) (\<lambda>a. a\<lparr>th_executed := True\<rparr>) (\<lambda>a. 0) rs s"
  by (simp only: thermal_balance_def engine_round_def thermal_analyze_def thermal_execute_def)

lemma classify_zone_hot: "tl_hot l \<le> tl_critical l \<Longrightarrow> classify_zone l x \<in> {TzHot, TzCritical} \<longleftrightarrow> tl_hot l \<le> x"
  by (auto simp: classify_zone_def)

lemma thermal_actions_hot:
  "filter (\<lambda>a. th_zone a \<in> {TzHot, TzCritical}) (thermal_actions l t p) =
     (if ts_zone p \<in> {TzHot, TzCritical} then thermal_actions l t p else [])"
  by (cases "ts_zone p") (simp_all add: thermal_actions_def thermal_action_of_def)

lemma thermal_actions_one:
  "ts_zone p \<in> {TzHot, TzCritical} \<Longrightarrow> map th_region (thermal_actions l t p) = [ts_region p]
     \<and> list_all (\<lambda>a. 1 \<le> th_migrate a \<and> \<not> th_executed a) (thermal_actions l t p)"
  by (cases "ts_zone p") (simp_all add: thermal_actions_def thermal_action_of_def)

lemma thermal_unexecuted: "a \<in> set (thermal_actions l t p) \<Longrightarrow> \<not> th_executed a"
  by (auto simp: thermal_actions_def thermal_action_of_def split: thermal_zone.splits)

lemma executed_after_marking:
  "list_all (\<lambda>a. \<not> th_executed a) xs \<Longrightarrow>
     filter th_executed (map (\<lambda>a. if c a then a\<lparr>th_executed := True\<rparr> else a) xs) = map (\<lambda>a. a\<lparr>th_executed := True\<rparr>) (filter c xs)"
  by (induction xs) auto

lemma thermal_hot_regions:
  assumes "tl_hot l \<le> tl_critical l"
  shows "map th_region (filter (\<lambda>a. th_zone a \<in> {TzHot, TzCritical})
           (concat (map (\<lambda>r. thermal_actions l t (thermal_snapshot_of l t r)) rs)))
         = map region_of (filter (\<lambda>r. tl_hot l \<le> reported_temp r) rs)
    \<and> list_all (\<lambda>a. 1 \<le> th_migrate a) (filter (\<lambda>a. th_zone a \<in> {TzHot, TzCritical})
           (concat (map (\<lambda>r. thermal_actions l t (thermal_snapshot_of l t r)) rs)))"
proof (induction rs)
  case (Cons r rs)
  let ?p = "thermal_snapshot_of l t r"
  have z: "ts_zone ?p \<in> {TzHot, TzCritical} \<longleftrightarrow> tl_hot l \<le> reported_temp r" and id: "ts_region ?p = region_of r"
    using classify_zone_hot [OF assms] by (simp_all add: thermal_snapshot_of_def Let_def)
  show ?case
  proof (cases "tl_hot l \<le> reported_temp r")
    case True
    then have hot: "ts_zone ?p \<in> {TzHot, TzCritical}" using z by simp
    note one = thermal_actions_one [OF hot, of l t]
    from one have "list_all (\<lambda>a. 1 \<le> th_migrate a) (thermal_actions l t ?p)" by (auto simp: list_all_iff)
    with one show ?thesis using Cons.IH True
      by (simp only: list.map concat.simps filter_append map_append list_all_append thermal_actions_hot if_P [OF hot] id filter.simps if_True
          append_Cons append_Nil simp_thms)
  next
    case False
    then have cold: "ts_zone ?p \<notin> {TzHot, TzCritical}" using z by simp
    show ?thesis using Cons.IH False
      by (simp only: list.map concat.simps filter_append thermal_actions_hot if_not_P [OF cold] append_Nil filter.simps if_False)
  qed
qed simp

text \<open>
  C0. Heat is answered where it is reported. In one round of the thermal balancer, the regions whose new
  actions were executed are exactly those, in the order of the reports, whose average GPU temperature is at
  or above the hot limit: each of them gets one executed action, which moves at least one workload away, and
  no other region gets one. The counter of rebalances grows by their number, no earlier action is touched,
  and afterwards the balancer holds of each reported region the snapshot of its last report.
\<close>

theorem heat_is_answered:
  assumes "tl_hot l \<le> tl_critical l" and "thermal_balance l t rs s = (s', refs)"
  defines "hot \<equiv> filter (\<lambda>r. tl_hot l \<le> reported_temp r) rs"
  defines "fired \<equiv> filter th_executed (map (jo_get (en_actions s')) refs)"
  shows "map th_region fired = map region_of hot \<and> list_all (\<lambda>a. 1 \<le> th_migrate a) fired
    \<and> en_executed s' = en_executed s + length hot
    \<and> (\<forall>k < length (jo_objs (en_actions s)). jo_get (en_actions s') k = jo_get (en_actions s) k)
    \<and> (\<forall>k. dget (en_view s') k = (case filter (\<lambda>r. region_of r = k) rs of [] \<Rightarrow> dget (en_view s) k
          | xs \<Rightarrow> Some (thermal_snapshot_of l t (last xs))))"
proof -
  let ?acts = "concat (map (\<lambda>r. thermal_actions l t (thermal_snapshot_of l t r)) rs)"
  let ?hot = "filter (\<lambda>a. th_zone a \<in> {TzHot, TzCritical}) ?acts"
  note r = engine_round_ok [OF assms(2) [unfolded thermal_balance_round], unfolded round_ok_def]
  have "list_all (\<lambda>a. \<not> th_executed a) ?acts" by (auto simp: list_all_iff dest: thermal_unexecuted)
  then have d: "fired = map (\<lambda>a. a\<lparr>th_executed := True\<rparr>) ?hot"
    using r unfolding fired_def by (simp only: executed_after_marking)
  note h = thermal_hot_regions [OF assms(1), of t rs]
  have "map th_region fired = map th_region ?hot" by (simp add: d)
  moreover have "list_all (\<lambda>a. 1 \<le> th_migrate a) fired" using h by (auto simp: d list_all_iff)
  moreover have "length ?hot = length hot" using arg_cong [OF conjunct1 [OF h], of length] by (simp add: hot_def)
  ultimately show ?thesis using r h by (simp add: hot_def thermal_monitor_def remember_all del: insert_iff filter_concat)
qed

definition sample_heat :: "tele list" where
  "sample_heat = [tele_of ''eu'' [(''gpu_temp_c'', 95), (''total_gpus'', 8)], tele_of ''us'' [(''avg_gpu_temp_c'', 80)],
     tele_of ''ap'' [(''gpu_temp_c'', 86)]]"

lemma heat_is_answered_witness:
  "\<exists>s' refs. thermal_balance thermal_defaults 7 sample_heat (new_balancer 5) = (s', refs)
     \<and> map th_region (filter th_executed (map (jo_get (en_actions s')) refs)) = [''eu'', ''ap''] \<and> en_executed s' = 2 \<and> length refs = 3
     \<and> map th_migrate (map (jo_get (en_actions s')) refs) = [4, 0, 1]"
proof -
  let ?r = "thermal_balance thermal_defaults 7 sample_heat (new_balancer 5)"
  have r: "?r = (fst ?r, snd ?r)" by simp
  have hot: "map region_of (filter (\<lambda>r. tl_hot thermal_defaults \<le> reported_temp r) sample_heat) = [''eu'', ''ap'']"
    "length (filter (\<lambda>r. tl_hot thermal_defaults \<le> reported_temp r) sample_heat) = 2" by code_simp+
  have l: "tl_hot thermal_defaults \<le> tl_critical thermal_defaults" by code_simp
  have new: "en_executed (new_balancer 5) = 0" by (simp add: new_balancer_def new_rounds_def)
  have rest: "length (snd ?r) = 3 \<and> map th_migrate (map (jo_get (en_actions (fst ?r))) (snd ?r)) = [4, 0, 1]" by code_simp
  note t = heat_is_answered [OF l r, unfolded hot new]
  show ?thesis by (rule exI [of _ "fst ?r"], rule exI [of _ "snd ?r"]) (use t r rest in simp)
qed

text \<open>The hottest GPU of a region does not count: only the average decides.\<close>

lemma hot_gpu_ignored:
  "fst (thermal_balance thermal_defaults 7 [tele_of ''eu'' [(''gpu_temp_c'', 60), (''max_gpu_temp_c'', 110)]] (new_balancer 5))
     = (new_balancer 5)\<lparr>en_view := [(''eu'', thermal_snapshot_of thermal_defaults 7 (tele_of ''eu'' [(''gpu_temp_c'', 60), (''max_gpu_temp_c'', 110)]))]\<rparr>
   \<and> ts_zone (thermal_snapshot_of thermal_defaults 7 (tele_of ''eu'' [(''gpu_temp_c'', 60), (''max_gpu_temp_c'', 110)])) = TzSafe"
  by code_simp

section \<open>Energy: who defers and who attracts\<close>

abbreviation defers :: "rat \<Rightarrow> rat \<Rightarrow> tele \<Rightarrow> bool" where
  "defers peak green r \<equiv> num r ''renewable_pct'' 0 < green \<and> peak < num r ''energy_cost_per_kwh'' (10 / 100)"

abbreviation attracts :: "rat \<Rightarrow> tele \<Rightarrow> bool" where
  "attracts green r \<equiv> green \<le> num r ''renewable_pct'' 0 \<and> num r ''workload_saturation'' 0 < 1 / 2"

lemma energy_actions_of:
  "map (\<lambda>a. (ea_region a, ea_type a)) (energy_actions peak green t r) =
     (if defers peak green r then [(region_of r, ''defer_to_offpeak'')]
      else if attracts green r then [(region_of r, ''attract_workloads'')] else [])
   \<and> list_all (\<lambda>a. \<not> ea_executed a \<and> ea_savings_kwh a \<le> max 0 (ea_energy_kwh a)) (energy_actions peak green t r)"
proof -
  have "py_round (p / 1000 * (3 / 10)) 3 \<le> max 0 (py_round (p / 1000) 3)" for p :: rat
  proof (cases "0 \<le> p")
    case True
    then have "p / 1000 * (3 / 10) \<le> p / 1000" by simp
    then have "py_round (p / 1000 * (3 / 10)) 3 \<le> py_round (p / 1000) 3" by (rule py_round_mono)
    then show ?thesis by simp
  next
    case False
    then have "p / 1000 * (3 / 10) \<le> 0" by simp
    then have "py_round (p / 1000 * (3 / 10)) 3 \<le> py_round 0 3" by (rule py_round_mono)
    then show ?thesis by simp
  qed
  then show ?thesis by (auto simp: energy_actions_def energy_tier_of_def classify_tier_def Let_def)
qed

section \<open>Cost: what the books say\<close>

lemma py_round_nonneg: "0 \<le> x \<Longrightarrow> 0 \<le> py_round x n"
  using py_round_mono [of 0 x n] by simp

lemma py_round_pct: "x \<le> 100 \<Longrightarrow> py_round x 1 \<le> 100"
proof -
  assume "x \<le> 100"
  then have "py_round x 1 \<le> py_round 100 1" by (rule py_round_mono)
  also have "py_round 100 1 = 100" by code_simp
  finally show ?thesis .
qed

lemma efficiency_eq:
  assumes "0 \<le> u" "u \<le> 1"
  shows "efficiency u = (if u < 1 / 2 then u else min 1 (u * (6 / 10) + 4 / 10))"
proof (cases "u < 1 / 2")
  case True
  then have "idle_waste u = 1 - u" using assms by (simp add: idle_waste_def)
  moreover have "u * (6 / 10) + (1 - (1 - u)) * (4 / 10) = u" by (simp add: field_simps)
  ultimately show ?thesis using True by (simp add: efficiency_def)
qed (simp add: efficiency_def idle_waste_def)

text \<open>A region that is used more is never rated less efficient.\<close>

lemma efficiency_mono: "0 \<le> u \<Longrightarrow> u \<le> v \<Longrightarrow> v \<le> 1 \<Longrightarrow> 0 \<le> efficiency u \<and> efficiency u \<le> efficiency v \<and> efficiency v \<le> 1"
  by (auto simp: efficiency_eq min_def)

lemma idle_waste_bounds: "0 \<le> u \<Longrightarrow> 0 \<le> idle_waste u \<and> idle_waste u \<le> 1"
  by (simp add: idle_waste_def)

abbreviation sane_costs :: "tele \<Rightarrow> bool" where
  "sane_costs r \<equiv> 0 \<le> num r ''gpu_utilization'' 0 \<and> num r ''gpu_utilization'' 0 \<le> 1 \<and> 0 \<le> num r ''gpu_cost_per_hour'' 0
     \<and> 0 \<le> region_cost r \<and> 0 \<le> num r ''replication_overhead_pct'' 0 \<and> num r ''replication_overhead_pct'' 0 \<le> 1"

lemma cost_action_saves:
  assumes "sane_costs r" "a \<in> set (cost_actions threshold t r)"
  shows "ct_region a = region_of r \<and> ct_current a = region_cost r \<and> ct_projected a \<le> py_round (region_cost r) 4
    \<and> 0 \<le> ct_savings_pct a \<and> ct_savings_pct a \<le> 100"
proof -
  let ?u = "num r ''gpu_utilization'' 0" and ?g = "num r ''gpu_cost_per_hour'' 0" and ?c = "region_cost r"
  let ?o = "num r ''replication_overhead_pct'' 0"
  note i = idle_waste_bounds [of ?u]
  have "0 \<le> idle_waste ?u * ?g" using assms(1) i by simp
  from py_round_nonneg [OF this, of 4] have p1: "py_round (?c - py_round (idle_waste ?u * ?g) 4) 4 \<le> py_round ?c 4"
    by (intro py_round_mono) simp
  have p2: "py_round (?c * (7 / 10)) 4 \<le> py_round ?c 4" using assms(1) by (intro py_round_mono) simp
  have "?c * (1 - ?o * (5 / 10)) \<le> ?c" using assms(1) by (intro mult_left_le) simp_all
  then have p3: "py_round (?c * (1 - ?o * (5 / 10))) 4 \<le> py_round ?c 4" by (rule py_round_mono)
  have s1: "0 \<le> py_round (idle_waste ?u * 100) 1" "py_round (idle_waste ?u * 100) 1 \<le> 100"
    using i assms(1) by (auto intro!: py_round_nonneg py_round_pct simp del: One_nat_def)
  have s3: "0 \<le> py_round (?o * 50) 1" "py_round (?o * 50) 1 \<le> 100"
    using assms(1) by (auto intro!: py_round_nonneg py_round_pct simp del: One_nat_def)
  show ?thesis using assms(2) p1 p2 p3 s1 s3
    by (auto simp: cost_actions_def cost_action_of_def Let_def simp del: divide_le_eq_numeral1 split: if_splits)
qed

definition cost_step :: "rat \<Rightarrow> pyfloat \<times> tele list \<Rightarrow> cost_optimizer \<Rightarrow> cost_optimizer \<times> cost_action list" where
  "cost_step threshold = engine_step (\<lambda>t. remember region_of (cost_profile_of t)) (cost_actions threshold) (\<lambda>a. True)
     (\<lambda>a. a\<lparr>ct_executed := True\<rparr>) ct_savings_pct"

lemma cost_step_state: "fst (cost_step threshold (t, rs) s) = fst (cost_optimize threshold t rs s)"
  by (simp add: cost_step_def engine_step_def executed_round_def cost_optimize_def)

text \<open>
  C0. The books of the cost optimizer. After any rounds since the start, the events are the last
  \<open>max_history\<close> executed actions, the number of optimizations counts every one of them and the savings add
  up theirs; and when the reported figures are sane, no executed action projects a higher cost than the
  region has, and none claims to save less than nothing or more than everything.
\<close>

theorem cost_books:
  assumes "0 < mh" and "run_outputs (cost_step threshold) qs (new_rounds mh []) = (s, es)"
    and "list_all (\<lambda>q. list_all sane_costs (snd q)) qs"
  shows "en_events s = py_cap mh es \<and> en_executed s = length es \<and> en_saved s = sum_list (map ct_savings_pct es)
    \<and> list_all (\<lambda>a. ct_executed a \<and> ct_projected a \<le> py_round (ct_current a) 4 \<and> 0 \<le> ct_savings_pct a \<and> ct_savings_pct a \<le> 100) es"
proof -
  note e = engine_run [OF assms(1) assms(2) [unfolded cost_step_def]]
  then have books: "en_events s = py_cap mh es" "en_executed s = length es" "en_saved s = sum_list (map ct_savings_pct es)"
    and es: "es = concat (map (\<lambda>q. map (\<lambda>a. a\<lparr>ct_executed := True\<rparr>) (concat (map (cost_actions threshold (fst q)) (snd q)))) qs)"
    by (blast, blast, blast, simp)
  have "ct_executed a \<and> ct_projected a \<le> py_round (ct_current a) 4 \<and> 0 \<le> ct_savings_pct a \<and> ct_savings_pct a \<le> 100"
    if a: "a \<in> set es" for a
  proof -
    obtain q r b where q: "q \<in> set qs" "r \<in> set (snd q)" "b \<in> set (cost_actions threshold (fst q) r)" and b: "a = b\<lparr>ct_executed := True\<rparr>"
      using a unfolding es by auto
    have "sane_costs r" using assms(3) q(1,2) by (auto simp: list_all_iff)
    from cost_action_saves [OF this q(3)] show ?thesis by (simp add: b)
  qed
  then have "list_all (\<lambda>a. ct_executed a \<and> ct_projected a \<le> py_round (ct_current a) 4 \<and> 0 \<le> ct_savings_pct a \<and> ct_savings_pct a \<le> 100) es"
    unfolding list_all_iff by blast
  with books show ?thesis by blast
qed

lemma cost_books_witness:
  "\<exists>s es. run_outputs (cost_step (2 / 10)) [(7, [tele_of ''eu'' [(''gpu_cost_per_hour'', 10), (''gpu_utilization'', 1 / 4)]]),
         (9, [tele_of ''us'' [(''gpu_cost_per_hour'', 4), (''gpu_utilization'', 95 / 100)]])] (new_rounds 1 []) = (s, es)
     \<and> en_executed s = 2 \<and> map ct_type (en_events s) = [''spot_routing''] \<and> en_saved s = 105"
proof -
  let ?qs = "[(7, [tele_of ''eu'' [(''gpu_cost_per_hour'', 10), (''gpu_utilization'', 1 / 4)]]),
         (9, [tele_of ''us'' [(''gpu_cost_per_hour'', 4), (''gpu_utilization'', 95 / 100)]])] :: (pyfloat \<times> tele list) list"
  let ?r = "run_outputs (cost_step (2 / 10)) ?qs (new_rounds 1 [])"
  have r: "?r = (fst ?r, snd ?r)" by simp
  have sane: "list_all (\<lambda>q. list_all sane_costs (snd q)) ?qs" by code_simp
  have v: "length (snd ?r) = 2" "map ct_type (py_cap 1 (snd ?r)) = [''spot_routing'']" "sum_list (map ct_savings_pct (snd ?r)) = 105"
    subgoal by code_simp
    subgoal by code_simp
    by code_simp
  note t = cost_books [OF _ r sane]
  show ?thesis by (rule exI [of _ "fst ?r"], rule exI [of _ "snd ?r"]) (use t r v in simp)
qed

text \<open>The cheapest regions are sorted by cost, and no region that is left out is cheaper.\<close>

lemma cheapest_regions_sorted:
  "sorted (map cp_total (cheapest_regions n s))
   \<and> list_all (\<lambda>p. list_all (\<lambda>q. cp_total p \<le> cp_total q) (drop n (sort_key cp_total (dvalues (en_view s))))) (cheapest_regions n s)"
proof -
  let ?xs = "sort_key cp_total (dvalues (en_view s))"
  have s: "sorted (map cp_total (take n ?xs @ drop n ?xs))" by (simp only: append_take_drop_id) simp
  then have "sorted (map cp_total (take n ?xs)) \<and> (\<forall>x \<in> set (map cp_total (take n ?xs)). \<forall>y \<in> set (map cp_total (drop n ?xs)). x \<le> y)"
    by (simp only: map_append sorted_append) simp
  then show ?thesis by (simp add: cheapest_regions_def list_all_iff)
qed

section \<open>GPUs\<close>

text \<open>A regional action never moves more workloads than the region has GPUs, unless it moves just one.\<close>

lemma gpu_affected_bounds:
  assumes "a \<in> set (gpu_actions l t q)" "0 \<le> num (fst q) ''gpu_utilization'' 0" "num (fst q) ''gpu_utilization'' 0 \<le> 1"
    "0 \<le> gl_target l" "0 \<le> num (fst q) ''total_gpus'' 0"
  shows "0 \<le> ga_affected a \<and> of_int (ga_affected a) \<le> max 1 (num (fst q) ''total_gpus'' 0)
    \<and> ga_region a = region_of (fst q) \<and> \<not> ga_executed a"
proof -
  let ?n = "num (fst q) ''total_gpus'' 0" and ?u = "num (fst q) ''gpu_utilization'' 0"
  have fl: "of_int (max 1 \<lfloor>?n * x\<rfloor>) \<le> max 1 ?n" if "x \<le> 1" for x :: rat
  proof -
    have "?n * x \<le> ?n" using assms(5) that by (intro mult_left_le) simp_all
    then have "of_int \<lfloor>?n * x\<rfloor> \<le> ?n" by linarith
    moreover have "of_int (max 1 k) = max 1 (rat_of_int k)" for k by (simp add: max_def)
    ultimately show ?thesis by (metis max.mono order_refl)
  qed
  have "1 - ?u \<le> 1" "?u - gl_target l \<le> 1" using assms(2-4) by simp_all
  note fl [OF this(1)] fl [OF this(2)]
  with assms(1) show ?thesis
    by (auto simp: gpu_actions_def gpu_action_of_def Let_def split: if_splits prod.splits)
qed

end
