(* ===== verification/Forecasts.thy ===== *)
theory Forecasts
  imports Optimizers
begin

text \<open>
  The forecasters: \<open>intelligence/prediction_engine.py\<close> and the three of \<open>prediction/\<close> (GPU demand, scaling,
  traffic). Each records one value per region and metric, smooths the series and hands out a forecast that it
  keeps in a bounded history; that loop is stated once. Texts are kept up to the figure that they end in.
\<close>

section \<open>Forecasters\<close>

record 'f forecaster =
  fr_max_history :: nat
  fr_series :: metric_history
  fr_forecasts :: "'f list"
  fr_total :: nat

definition new_forecaster :: "nat \<Rightarrow> 'f forecaster" where
  "new_forecaster mh = \<lparr>fr_max_history = mh, fr_series = [], fr_forecasts = [], fr_total = 0\<rparr>"

text \<open>\<open>one\<close> records the value of one item and gives its forecasts.\<close>

definition forecast_all ::
    "('p \<Rightarrow> metric_history \<Rightarrow> metric_history \<times> 'f list) \<Rightarrow> 'p list \<Rightarrow> ('f, 'z) forecaster_scheme
      \<Rightarrow> ('f, 'z) forecaster_scheme \<times> 'f list" where
  "forecast_all one ps s =
     (let (m, fs) = run_outputs one ps (fr_series s)
      in (s\<lparr>fr_series := m, fr_forecasts := py_cap (fr_max_history s) (fr_forecasts s @ fs), fr_total := fr_total s + length fs\<rparr>, fs))"

definition recent_forecasts :: "nat \<Rightarrow> ('f, 'z) forecaster_scheme \<Rightarrow> 'f list" where
  "recent_forecasts limit s = take limit (rev (fr_forecasts s))"

definition fr_ok :: "('f, 'z) forecaster_scheme \<Rightarrow> bool" where
  "fr_ok s \<longleftrightarrow> 0 < fr_max_history s"

lemma forecast_all_keeps:
  "fr_ok s \<Longrightarrow> forecast_all one ps s = (s', fs) \<Longrightarrow>
     fr_ok s' \<and> fr_max_history s' = fr_max_history s \<and> fr_forecasts s' = py_cap (fr_max_history s) (fr_forecasts s @ fs)
       \<and> fr_total s' = fr_total s + length fs"
  by (auto simp: forecast_all_def fr_ok_def split: prod.splits)

lemma forecast_all_mem:
  assumes "forecast_all one ps s = (s', fs)" "f \<in> set fs"
  shows "\<exists>p \<in> set ps. \<exists>m. f \<in> set (snd (one p m))"
proof -
  have "run_outputs one ps (fr_series s) = (fst (run_outputs one ps (fr_series s)), fs)"
    using assms(1) by (auto simp: forecast_all_def split: prod.splits)
  from run_outputs_mem [OF this assms(2)] show ?thesis .
qed

lemma forecast_all_map:
  assumes "forecast_all one ps s = (s', fs)" "\<And>p m. p \<in> set ps \<Longrightarrow> map g (snd (one p m)) = h p"
  shows "map g fs = concat (map h ps)"
proof -
  have "run_outputs one ps (fr_series s) = (fst (run_outputs one ps (fr_series s)), fs)"
    using assms(1) by (auto simp: forecast_all_def split: prod.splits)
  from run_outputs_map [OF this assms(2)] show ?thesis .
qed

section \<open>Smoothing\<close>

definition smooth :: "rat \<Rightarrow> rat list \<Rightarrow> rat" where
  "smooth a vs = (case vs of [] \<Rightarrow> 0 | v # vs \<Rightarrow> fold (\<lambda>v s. a * v + (1 - a) * s) vs v)"

definition holt_step :: "rat \<Rightarrow> rat \<Rightarrow> rat \<Rightarrow> rat \<times> rat \<Rightarrow> rat \<times> rat" where
  "holt_step a b v lt =
     (let l = a * v + (1 - a) * (fst lt + snd lt) in (l, b * (l - fst lt) + (1 - b) * snd lt))"

definition holt :: "rat \<Rightarrow> rat \<Rightarrow> rat list \<Rightarrow> rat \<times> rat" where
  "holt a b vs = (case vs of [] \<Rightarrow> (0, 0) | v # vs \<Rightarrow> fold (holt_step a b) vs (v, 0))"

definition trend_of :: "rat list \<Rightarrow> string" where
  "trend_of vs =
     (if length vs < 3 then ''stable''
      else if last vs > vs ! (length vs - 3) * (11 / 10) then ''increasing''
      else if last vs < vs ! (length vs - 3) * (9 / 10) then ''decreasing'' else ''stable'')"

definition growing_confidence :: "nat \<Rightarrow> rat" where
  "growing_confidence n = min (9 / 10) (3 / 10 + of_nat n * (1 / 100))"

text \<open>A series that stays at \<open>u\<close> is smoothed to \<open>u\<close>, without a trend.\<close>

lemma smooth_steady: "vs \<noteq> [] \<Longrightarrow> list_all (\<lambda>v. v = u) vs \<Longrightarrow> smooth a vs = u"
proof -
  have "list_all (\<lambda>v. v = u) vs \<Longrightarrow> fold (\<lambda>v s. a * v + (1 - a) * s) vs u = u" for vs
    by (induction vs) (simp_all add: algebra_simps)
  then show "vs \<noteq> [] \<Longrightarrow> list_all (\<lambda>v. v = u) vs \<Longrightarrow> smooth a vs = u"
    by (cases vs) (auto simp: smooth_def)
qed

lemma holt_steady: "vs \<noteq> [] \<Longrightarrow> list_all (\<lambda>v. v = u) vs \<Longrightarrow> holt a b vs = (u, 0)"
proof -
  have "list_all (\<lambda>v. v = u) vs \<Longrightarrow> fold (holt_step a b) vs (u, 0) = (u, 0)" for vs
    by (induction vs) (simp_all add: holt_step_def Let_def algebra_simps)
  then show "vs \<noteq> [] \<Longrightarrow> list_all (\<lambda>v. v = u) vs \<Longrightarrow> holt a b vs = (u, 0)"
    by (cases vs) (auto simp: holt_def)
qed

lemma trend_steady: "list_all (\<lambda>v. v = u) vs \<Longrightarrow> 0 \<le> u \<Longrightarrow> trend_of vs = ''stable''"
proof -
  assume all: "list_all (\<lambda>v. v = u) vs" and u: "0 \<le> u"
  have "last vs = u \<and> vs ! (length vs - 3) = u" if long: "\<not> length vs < 3"
  proof -
    from long have "vs \<noteq> []" "length vs - 3 < length vs" by auto
    then have "last vs \<in> set vs" "vs ! (length vs - 3) \<in> set vs" by simp_all
    then show ?thesis using all unfolding list_all_iff by blast
  qed
  then show ?thesis using u by (auto simp: trend_of_def)
qed

text \<open>Smoothing stays between the least and the greatest value, and follows a change of unit and of zero.\<close>

lemma smooth_between:
  assumes "0 \<le> a" "a \<le> 1" "vs \<noteq> []" "list_all (\<lambda>v. lo \<le> v \<and> v \<le> hi) vs"
  shows "lo \<le> smooth a vs \<and> smooth a vs \<le> hi"
proof -
  have mix: "lo \<le> a * v + (1 - a) * s \<and> a * v + (1 - a) * s \<le> hi" if "lo \<le> v" "v \<le> hi" "lo \<le> s" "s \<le> hi" for v s
  proof -
    have "a * lo \<le> a * v" "a * v \<le> a * hi" "(1 - a) * lo \<le> (1 - a) * s" "(1 - a) * s \<le> (1 - a) * hi"
      using assms(1,2) that by (simp_all add: mult_left_mono)
    moreover have "a * lo + (1 - a) * lo = lo" "a * hi + (1 - a) * hi = hi" by (simp_all add: algebra_simps)
    ultimately show ?thesis by linarith
  qed
  have "list_all (\<lambda>v. lo \<le> v \<and> v \<le> hi) vs \<Longrightarrow> lo \<le> s \<and> s \<le> hi \<Longrightarrow>
      lo \<le> fold (\<lambda>v s. a * v + (1 - a) * s) vs s \<and> fold (\<lambda>v s. a * v + (1 - a) * s) vs s \<le> hi" for vs s
    using mix by (induction vs arbitrary: s) auto
  then show ?thesis using assms(3,4) by (cases vs) (auto simp: smooth_def)
qed

lemma holt_affine:
  assumes "vs \<noteq> []"
  shows "holt a b (map (\<lambda>v. c * v + d) vs) = (c * fst (holt a b vs) + d, c * snd (holt a b vs))"
proof -
  have "fold (holt_step a b) (map (\<lambda>v. c * v + d) vs) (c * fst x + d, c * snd x)
      = (c * fst (fold (holt_step a b) vs x) + d, c * snd (fold (holt_step a b) vs x))" for vs x
  proof (induction vs arbitrary: x)
    case (Cons v vs)
    have "holt_step a b (c * v + d) (c * fst x + d, c * snd x) = (c * fst (holt_step a b v x) + d, c * snd (holt_step a b v x))"
      by (simp add: holt_step_def Let_def algebra_simps)
    then show ?case using Cons.IH [of "holt_step a b v x"] by simp
  qed simp
  from this [of "tl vs" "(hd vs, 0)"] assms show ?thesis by (cases vs) (simp_all add: holt_def)
qed

section \<open>The prediction engine\<close>

record prediction =
  pd_id :: string
  pd_metric :: string
  pd_region :: string
  pd_current :: rat
  pd_predicted :: rat
  pd_confidence :: rat
  pd_horizon :: int
  pd_trend :: string
  pd_advice :: string
  pd_at :: pyfloat

type_synonym prediction_engine = "prediction forecaster"

definition predicted_metrics :: "string list" where
  "predicted_metrics = [''avg_latency_ms'', ''workload_saturation'', ''gpu_utilization'', ''requests_per_second'', ''bandwidth_usage_mbps'']"

definition prediction_confidence :: "nat \<Rightarrow> rat" where
  "prediction_confidence n = (if n < 5 then 3 / 10 else if n < 15 then 5 / 10 else if n < 50 then 7 / 10 else 85 / 100)"

definition predicted_value :: "rat \<Rightarrow> int \<Rightarrow> rat list \<Rightarrow> rat" where
  "predicted_value a horizon vs =
     (let s = smooth a vs; trend = trend_of vs
      in if trend = ''increasing'' then s * (1 + 1 / 10 * (of_int horizon / 15))
         else if trend = ''decreasing'' then s * (1 - 5 / 100 * (of_int horizon / 15)) else s)"

definition prediction_advice :: "string \<Rightarrow> string \<Rightarrow> rat \<Rightarrow> string" where
  "prediction_advice metric rid x =
     (if metric = ''workload_saturation'' \<and> x > 85 / 100 then ''Pre-scale '' @ rid @ '': predicted saturation ''
      else if metric = ''gpu_utilization'' \<and> x > 9 / 10 then ''Add GPU capacity in '' @ rid @ '': predicted utilization ''
      else if metric = ''avg_latency_ms'' \<and> x > 300 then ''Reroute from '' @ rid @ '': predicted latency '' else [])"

definition predict_metric ::
    "rat \<Rightarrow> int \<Rightarrow> pyfloat \<Rightarrow> tele \<times> string \<Rightarrow> metric_history \<Rightarrow> metric_history \<times> prediction list" where
  "predict_metric a horizon t p m =
     (let (r, metric) = p; rid = region_of r; v = num r metric 0
      in if v = 0 \<and> metric \<noteq> ''workload_saturation'' then (m, [])
         else let key = metric @ '':'' @ rid; m' = record_sample 200 key v m; vs = samples m' key; x = predicted_value a horizon vs
              in (m', [\<lparr>pd_id = stamped_id (''pred-'' @ metric @ ''-'') rid t, pd_metric = metric, pd_region = rid, pd_current = py_round v 3,
                        pd_predicted = py_round x 3, pd_confidence = prediction_confidence (length vs), pd_horizon = horizon,
                        pd_trend = trend_of vs, pd_advice = prediction_advice metric rid x, pd_at = t\<rparr>]))"

definition predict :: "rat \<Rightarrow> int \<Rightarrow> pyfloat \<Rightarrow> tele list \<Rightarrow> prediction_engine \<Rightarrow> prediction_engine \<times> prediction list" where
  "predict a horizon t rs = forecast_all (predict_metric a horizon t) (List.product rs predicted_metrics)"

definition predictions_for_region :: "string \<Rightarrow> prediction_engine \<Rightarrow> prediction list" where
  "predictions_for_region rid s = filter (\<lambda>p. pd_region p = rid) (fr_forecasts s)"

section \<open>The scaling forecaster\<close>

datatype scaling_direction = SdUp | SdDown | SdSame

record scaling_forecast =
  sf_id :: string
  sf_region :: string
  sf_resource :: string
  sf_usage :: rat
  sf_predicted :: rat
  sf_direction :: scaling_direction
  sf_delta :: rat
  sf_confidence :: rat
  sf_horizon :: int
  sf_threshold :: rat
  sf_warm :: int
  sf_at :: pyfloat

record scaling_limits =
  sl_up :: rat
  sl_down :: rat
  sl_alpha :: rat

text \<open>A pre-scale event: region, resource, predicted usage, warm standbys and its time.\<close>

type_synonym pre_scale = "string \<times> string \<times> rat \<times> int \<times> pyfloat"

record scaling_forecaster = "scaling_forecast forecaster" +
  sr_events :: "pre_scale list"

definition scaled_resources :: "(string \<times> string) list" where
  "scaled_resources =
     [(''gpu'', ''gpu_utilization''), (''cpu'', ''cpu_utilization''), (''memory'', ''memory_utilization''), (''bandwidth'', ''bandwidth_utilization'')]"

definition forecast_steps :: "int \<Rightarrow> int" where
  "forecast_steps horizon = max 1 (horizon div 5)"

definition scaling_predicted :: "rat \<Rightarrow> int \<Rightarrow> rat list \<Rightarrow> rat" where
  "scaling_predicted a horizon vs =
     (let (l, t) = holt a (1 / 10) vs in max 0 (min 1 (l + t * of_int (forecast_steps horizon))))"

definition scaling_decision :: "scaling_limits \<Rightarrow> rat \<Rightarrow> scaling_direction \<times> rat \<times> int" where
  "scaling_decision sl x =
     (if x > sl_up sl then (let d = py_round ((x - 7 / 10) * 100) 1 in (SdUp, d, max 1 (py_trunc (d / 10))))
      else if x < sl_down sl then (SdDown, py_round ((1 / 2 - x) * (- 100)) 1, 0)
      else (SdSame, 0, 0))"

definition forecast_resource ::
    "scaling_limits \<Rightarrow> int \<Rightarrow> pyfloat \<Rightarrow> tele \<times> string \<times> string \<Rightarrow> metric_history \<Rightarrow> metric_history \<times> scaling_forecast list" where
  "forecast_resource sl horizon t p m =
     (let (r, resource, field) = p; rid = region_of r; usage = num r field 0
      in if usage = 0 \<and> resource \<noteq> ''gpu'' then (m, [])
         else let key = ''scaling:'' @ resource @ '':'' @ rid; m' = record_sample 200 key usage m;
                  x = scaling_predicted (sl_alpha sl) horizon (samples m' key); (dir, delta, warm) = scaling_decision sl x
              in (m', [\<lparr>sf_id = stamped_id (''sf-'' @ resource @ ''-'') rid t, sf_region = rid, sf_resource = resource, sf_usage = py_round usage 3,
                        sf_predicted = py_round x 3, sf_direction = dir, sf_delta = delta,
                        sf_confidence = py_round (growing_confidence (length (samples m' key))) 3, sf_horizon = horizon, sf_threshold = sl_up sl,
                        sf_warm = warm, sf_at = t\<rparr>]))"

definition pre_scale_of :: "scaling_forecast \<Rightarrow> pre_scale" where
  "pre_scale_of f = (sf_region f, sf_resource f, sf_predicted f, sf_warm f, sf_at f)"

definition forecast_scaling ::
    "scaling_limits \<Rightarrow> int \<Rightarrow> pyfloat \<Rightarrow> tele list \<Rightarrow> scaling_forecaster \<Rightarrow> scaling_forecaster \<times> scaling_forecast list" where
  "forecast_scaling sl horizon t rs s =
     (let (s1, fs) = forecast_all (forecast_resource sl horizon t) (List.product rs scaled_resources) s
      in (s1\<lparr>sr_events := py_cap (fr_max_history s) (sr_events s @ map pre_scale_of (filter (\<lambda>f. sf_direction f = SdUp) fs))\<rparr>, fs))"

definition scale_up_recommendations :: "scaling_forecaster \<Rightarrow> scaling_forecast list" where
  "scale_up_recommendations s = filter (\<lambda>f. sf_direction f = SdUp) (fr_forecasts s)"

section \<open>The GPU demand predictor\<close>

record gpu_forecast =
  gf_id :: string
  gf_region :: string
  gf_type :: string
  gf_demand :: rat
  gf_predicted :: rat
  gf_supply :: int
  gf_recommended :: int
  gf_deficit :: int
  gf_confidence :: rat
  gf_horizon :: int
  gf_trend :: string
  gf_at :: pyfloat

text \<open>A region report with the GPU types that it names.\<close>

type_synonym typed_report = "tele \<times> string list option"

definition gpu_demand :: "tele \<Rightarrow> rat" where
  "gpu_demand r =
     (let n = num r ''total_gpus'' 0; u = num r ''gpu_utilization'' 0 in if n > 0 then u * n else u * 10)"

definition gpu_predicted :: "rat \<Rightarrow> int \<Rightarrow> rat list \<Rightarrow> rat" where
  "gpu_predicted a horizon vs =
     (if vs = [] then 0 else let (l, t) = holt a (1 / 10) vs in max 0 (l + t * of_int (forecast_steps horizon)))"

definition gpu_recommended :: "int \<Rightarrow> rat \<Rightarrow> int" where
  "gpu_recommended supply x = max supply (py_trunc (x * (12 / 10)) + 1)"

definition forecast_gpus ::
    "rat \<Rightarrow> int \<Rightarrow> pyfloat \<Rightarrow> tele \<times> string \<Rightarrow> metric_history \<Rightarrow> metric_history \<times> gpu_forecast list" where
  "forecast_gpus a horizon t p m =
     (let (r, ty) = p; rid = region_of r; supply = \<lfloor>num r ''total_gpus'' 0\<rfloor>; demand = gpu_demand r;
          key = ''gpu_demand:'' @ ty @ '':'' @ rid; m' = record_sample 200 key demand m; vs = samples m' key;
          x = gpu_predicted a horizon vs; rec = gpu_recommended supply x
      in (m', [\<lparr>gf_id = stamped_id (''gpu-'' @ ty @ ''-'') rid t, gf_region = rid, gf_type = ty, gf_demand = py_round demand 2,
                gf_predicted = py_round x 2, gf_supply = supply, gf_recommended = rec, gf_deficit = max 0 (rec - supply),
                gf_confidence = py_round (growing_confidence (length vs)) 3, gf_horizon = horizon, gf_trend = trend_of vs, gf_at = t\<rparr>]))"

definition typed_items :: "typed_report list \<Rightarrow> (tele \<times> string) list" where
  "typed_items qs = concat (map (\<lambda>(r, tys). map (Pair r) (case tys of Some tys \<Rightarrow> tys | None \<Rightarrow> [''generic''])) qs)"

definition forecast_gpu_demand ::
    "rat \<Rightarrow> int \<Rightarrow> pyfloat \<Rightarrow> typed_report list \<Rightarrow> gpu_forecast forecaster \<Rightarrow> gpu_forecast forecaster \<times> gpu_forecast list" where
  "forecast_gpu_demand a horizon t qs = forecast_all (forecast_gpus a horizon t) (typed_items qs)"

definition gpu_deficit_regions :: "gpu_forecast forecaster \<Rightarrow> gpu_forecast list" where
  "gpu_deficit_regions s = filter (\<lambda>f. gf_deficit f > 0) (fr_forecasts s)"

section \<open>The traffic forecaster\<close>

datatype traffic_advice = TaNone | TaPreScale string rat | TaScaleDown string

record traffic_forecast =
  tf_id :: string
  tf_region :: string
  tf_rps :: rat
  tf_predicted :: rat
  tf_peak :: rat
  tf_horizon :: int
  tf_confidence :: rat
  tf_trend :: string
  tf_season :: rat
  tf_advice :: traffic_advice
  tf_at :: pyfloat

definition seasonality :: "rat list \<Rightarrow> rat" where
  "seasonality vs =
     (if length vs < 20 then 1
      else let recent = sum_list (py_last 10 vs) / 10; older = sum_list (take 10 (py_last 20 vs)) / 10
           in if older = 0 then 1 else py_round (recent / older) 3)"

definition traffic_predicted :: "rat \<Rightarrow> rat \<Rightarrow> int \<Rightarrow> rat list \<Rightarrow> rat" where
  "traffic_predicted a b horizon vs = (let (l, t) = holt a b vs in (l + t * of_int (horizon div 5)) * seasonality vs)"

definition advise_traffic :: "string \<Rightarrow> rat \<Rightarrow> rat \<Rightarrow> traffic_advice" where
  "advise_traffic rid rps x =
     (if x > rps * (15 / 10) then TaPreScale rid (x / max rps 1)
      else if x < rps * (5 / 10) \<and> rps > 10 then TaScaleDown rid else TaNone)"

definition forecast_region ::
    "rat \<Rightarrow> rat \<Rightarrow> int \<Rightarrow> pyfloat \<Rightarrow> tele \<Rightarrow> metric_history \<Rightarrow> metric_history \<times> traffic_forecast list" where
  "forecast_region a b horizon t r m =
     (let rid = region_of r; rps = num r ''requests_per_second'' 0; key = ''traffic:'' @ rid; m' = record_sample 300 key rps m;
          vs = samples m' key; trend = snd (holt a b vs); x = traffic_predicted a b horizon vs
      in (m', [\<lparr>tf_id = stamped_id ''tf-'' rid t, tf_region = rid, tf_rps = py_round rps 2, tf_predicted = py_round (max 0 x) 2,
                tf_peak = py_round (max 0 (x * (13 / 10))) 2, tf_horizon = horizon,
                tf_confidence = py_round (growing_confidence (length vs)) 3,
                tf_trend = (if trend > 1 / 2 then ''increasing'' else if trend < - (1 / 2) then ''decreasing'' else ''stable''),
                tf_season = seasonality vs, tf_advice = advise_traffic rid rps x, tf_at = t\<rparr>]))"

definition forecast_traffic ::
    "rat \<Rightarrow> rat \<Rightarrow> int \<Rightarrow> pyfloat \<Rightarrow> tele list \<Rightarrow> traffic_forecast forecaster \<Rightarrow> traffic_forecast forecaster \<times> traffic_forecast list" where
  "forecast_traffic a b horizon t = forecast_all (forecast_region a b horizon t)"

section \<open>From predictions to recommendations\<close>

definition prediction_view :: "prediction \<Rightarrow> string \<times> string \<times> string \<times> string" where
  "prediction_view p = (pd_advice p, pd_trend p, pd_metric p, pd_region p)"

definition breaches :: "string \<Rightarrow> rat \<Rightarrow> bool" where
  "breaches metric x =
     (case dget [(''workload_saturation'', 85 / 100), (''gpu_utilization'', 9 / 10), (''avg_latency_ms'', 300)] metric of
        Some l \<Rightarrow> x > l | None \<Rightarrow> False)"

lemma prediction_advice_iff: "prediction_advice metric rid x \<noteq> [] \<longleftrightarrow> breaches metric x"
  by (auto simp: prediction_advice_def breaches_def)

lemma recommend_prediction_view:
  "recommend_prediction t (prediction_view p) =
     (if pd_advice p = [] then None
      else Some (the (recommend_prediction t (prediction_view p))))"
  by (simp add: recommend_prediction_def prediction_view_def)

lemma predictions_generate:
  assumes "generate_from_predictions t (map prediction_view ps) r = (r', refs)"
  shows "map (jo_get (rr_recommendations r')) refs
      = map (\<lambda>p. the (recommend_prediction t (prediction_view p))) (filter (\<lambda>p. pd_advice p \<noteq> []) ps)
    \<and> rr_total_generated r' = rr_total_generated r + length (filter (\<lambda>p. pd_advice p \<noteq> []) ps)"
proof -
  let ?xs = "map (\<lambda>p. the (recommend_prediction t (prediction_view p))) (filter (\<lambda>p. pd_advice p \<noteq> []) ps)"
  have "List.map_filter (recommend_prediction t) (map prediction_view ps) = ?xs"
    by (induction ps) (simp_all add: map_filter_def recommend_prediction_def prediction_view_def)
  then have gen: "add_recommendations ?xs r = (r', refs)" using assms by (simp add: generate_from_predictions_def)
  then obtain j where ext: "jo_extend (rr_max_history r) ?xs (rr_recommendations r) = (j, refs)"
    and r': "r' = r\<lparr>rr_recommendations := j, rr_total_generated := rr_total_generated r + length refs\<rparr>"
    by (auto simp: add_recommendations_def Let_def split: prod.splits)
  note new = jo_new_refs [OF ext]
  have "map (jo_get j) refs = ?xs" using new(1,4) by (auto intro: nth_equalityI)
  then show ?thesis using new(1) by (simp add: r')
qed

lemma predict_metric_advice:
  "p \<in> set (snd (predict_metric a h t q m)) \<Longrightarrow>
     \<exists>x. pd_predicted p = py_round x 3 \<and> (pd_advice p \<noteq> [] \<longleftrightarrow> breaches (pd_metric p) x)"
proof -
  assume p: "p \<in> set (snd (predict_metric a h t q m))"
  obtain r metric where q: "q = (r, metric)" by fastforce
  let ?x = "predicted_value a h (samples (record_sample 200 (metric @ '':'' @ region_of r) (num r metric 0) m) (metric @ '':'' @ region_of r))"
  have "pd_predicted p = py_round ?x 3" "pd_advice p = prediction_advice metric (region_of r) ?x" "pd_metric p = metric"
    using p by (auto simp: predict_metric_def q Let_def split: if_splits)
  then show ?thesis using prediction_advice_iff [of metric "region_of r" ?x] by metis
qed

text \<open>
  C36: C0. From telemetry to recommendations. Whatever was recorded before, when the predictions of a round are
  handed to the recommendation engine, it adds exactly one pending recommendation for each prediction whose
  value breaches the limit of its metric, in the order of the predictions, named after metric, region and
  second, and with high priority when the metric is rising; no other prediction leads to one.
\<close>

theorem predictions_become_recommendations:
  assumes "predict a h t rs s = (s', ps)" "generate_from_predictions t' (map prediction_view ps) r = (r', refs)"
  shows "\<exists>xs. length xs = length ps \<and> map pd_predicted ps = map (\<lambda>x. py_round x 3) xs
    \<and> map (\<lambda>i. let x = jo_get (rr_recommendations r') i in (re_region x, re_id x, re_priority x = RpHigh, re_status x)) refs
      = map (\<lambda>(p, x). (pd_region p, stamped_id (''rec-pred-'' @ pd_metric p @ ''-'') (pd_region p) t', pd_trend p = ''increasing'', RsPending))
          (filter (\<lambda>(p, x). breaches (pd_metric p) x) (zip ps xs))
    \<and> rr_total_generated r' = rr_total_generated r + length refs"
proof -
  have "\<forall>p \<in> set ps. \<exists>x. pd_predicted p = py_round x 3 \<and> (pd_advice p \<noteq> [] \<longleftrightarrow> breaches (pd_metric p) x)"
    using forecast_all_mem [OF assms(1) [unfolded predict_def]] predict_metric_advice by blast
  then obtain v where v: "\<forall>p \<in> set ps. pd_predicted p = py_round (v p) 3 \<and> (pd_advice p \<noteq> [] \<longleftrightarrow> breaches (pd_metric p) (v p))"
    by metis
  let ?row = "\<lambda>x. (re_region x, re_id x, re_priority x = RpHigh, re_status x)"
  let ?out = "\<lambda>p. (pd_region p, stamped_id (''rec-pred-'' @ pd_metric p @ ''-'') (pd_region p) t', pd_trend p = ''increasing'', RsPending)"
  note g = predictions_generate [OF assms(2)]
  have zip: "zip ps (map v ps) = map (\<lambda>p. (p, v p)) ps" by (simp add: zip_map2 zip_same_conv_map)
  have same: "filter (\<lambda>p. pd_advice p \<noteq> []) ps = filter (\<lambda>p. breaches (pd_metric p) (v p)) ps" using v by (auto intro: filter_cong)
  have "map (\<lambda>i. ?row (jo_get (rr_recommendations r') i)) refs = map ?row (map (jo_get (rr_recommendations r')) refs)" by (simp add: comp_def)
  also have "\<dots> = map (\<lambda>p. ?row (the (recommend_prediction t' (prediction_view p)))) (filter (\<lambda>p. pd_advice p \<noteq> []) ps)"
    using g by (simp add: comp_def)
  also have "\<dots> = map ?out (filter (\<lambda>p. pd_advice p \<noteq> []) ps)"
    by (rule map_cong [OF refl]) (simp add: recommend_prediction_def prediction_view_def)
  finally have rows: "map (\<lambda>i. ?row (jo_get (rr_recommendations r') i)) refs = map ?out (filter (\<lambda>p. breaches (pd_metric p) (v p)) ps)"
    by (simp only: same)
  moreover have "length refs = length (filter (\<lambda>p. pd_advice p \<noteq> []) ps)" using arg_cong [OF conjunct1 [OF g], of length] by simp
  ultimately show ?thesis using v g
    by (intro exI [of _ "map v ps"]) (simp add: zip filter_map comp_def Let_def)
qed

lemma predictions_become_recommendations_witness:
  "\<exists>s' ps r' refs. predict (3 / 10) 15 7 [tele_of ''eu'' [(''workload_saturation'', 95 / 100), (''avg_latency_ms'', 50)]] (new_forecaster 9) = (s', ps)
     \<and> generate_from_predictions 8 (map prediction_view ps) (new_recommender 5) = (r', refs)
     \<and> length ps = 2 \<and> map (\<lambda>i. re_id (jo_get (rr_recommendations r') i)) refs = [''rec-pred-workload_saturation-eu-8'']
     \<and> rr_total_generated r' = 1"
proof -
  let ?p = "predict (3 / 10) 15 7 [tele_of ''eu'' [(''workload_saturation'', 95 / 100), (''avg_latency_ms'', 50)]] (new_forecaster 9)"
  let ?g = "generate_from_predictions 8 (map prediction_view (snd ?p)) (new_recommender 5)"
  have p: "?p = (fst ?p, snd ?p)" and g: "?g = (fst ?g, snd ?g)" by simp_all
  have v: "length (snd ?p) = 2" "map (\<lambda>i. re_id (jo_get (rr_recommendations (fst ?g)) i)) (snd ?g) = [''rec-pred-workload_saturation-eu-8'']"
    "length (snd ?g) = 1" "rr_total_generated (new_recommender 5) = 0"
    by code_simp+
  from predictions_become_recommendations [OF p g]
  have "rr_total_generated (fst ?g) = rr_total_generated (new_recommender 5) + length (snd ?g)" by blast
  with v p g show ?thesis by (intro exI [of _ "fst ?p"] exI [of _ "snd ?p"] exI [of _ "fst ?g"] exI [of _ "snd ?g"]) simp
qed

section \<open>Steady traffic\<close>

interpretation traffic_log: history fr_ok fr_forecasts fr_max_history fr_total
    "\<lambda>q :: pyfloat \<times> tele list. forecast_traffic a b horizon (fst q) (snd q)" for a b horizon
proof
  show "fr_ok s \<Longrightarrow> forecast_traffic a b horizon (fst q) (snd q) s = (s', es) \<Longrightarrow>
      fr_ok s' \<and> fr_max_history s' = fr_max_history s \<and> fr_forecasts s' = py_cap (fr_max_history s) (fr_forecasts s @ es)
        \<and> fr_total s' = fr_total s + length es" for q s s' es
    unfolding forecast_traffic_def by (rule forecast_all_keeps)
qed (simp add: fr_ok_def)

definition steady_series :: "(string \<Rightarrow> rat) \<Rightarrow> metric_history \<Rightarrow> bool" where
  "steady_series rate m \<longleftrightarrow> (\<forall>rid. list_all (\<lambda>v. v = rate rid) (samples m (''traffic:'' @ rid)))"

lemma sum_steady: "list_all (\<lambda>v. v = u) vs \<Longrightarrow> sum_list vs = of_nat (length vs) * (u :: rat)"
  by (induction vs) (auto simp: algebra_simps)

lemma seasonality_steady:
  assumes "list_all (\<lambda>v. v = u) vs"
  shows "seasonality vs = 1"
proof (cases "length vs < 20")
  case False
  have sub: "list_all (\<lambda>v. v = u) (py_last 10 vs)" "list_all (\<lambda>v. v = u) (take 10 (py_last 20 vs))"
    using assms by (auto simp: list_all_iff py_last_def dest!: in_set_takeD in_set_dropD)
  have len: "length (py_last 10 vs) = 10" "length (take 10 (py_last 20 vs)) = 10" using False by (simp_all add: py_last_def)
  have "py_round 1 3 = 1" by code_simp
  then show ?thesis using False sum_steady [OF sub(1)] sum_steady [OF sub(2)] len by (simp add: seasonality_def Let_def)
qed (simp add: seasonality_def)

lemma steady_region:
  assumes m: "steady_series rate m" and r: "num r ''requests_per_second'' 0 = rate (region_of r)" "0 \<le> rate (region_of r)"
    and one: "forecast_region a b horizon t r m = (m', fs)"
  shows "steady_series rate m' \<and> list_all (\<lambda>f. tf_predicted f = py_round (rate (tf_region f)) 2 \<and> tf_trend f = ''stable'' \<and> tf_advice f = TaNone) fs
    \<and> map tf_region fs = [region_of r]"
proof -
  let ?rid = "region_of r" and ?key = "''traffic:'' @ region_of r"
  have m': "m' = record_sample 300 ?key (rate ?rid) m" using one r by (auto simp: forecast_region_def Let_def)
  have old: "list_all (\<lambda>v. v = rate rid) (samples m (''traffic:'' @ rid))" for rid using m by (simp add: steady_series_def)
  have vs: "samples m' ?key = py_cap 300 (samples m ?key @ [rate ?rid])" by (simp add: m' samples_record_sample)
  have all: "list_all (\<lambda>v. v = rate ?rid) (samples m' ?key)"
    using old [of ?rid] set_py_cap [of 300 "samples m ?key @ [rate ?rid]"] unfolding vs list_all_iff by auto
  have ne: "samples m' ?key \<noteq> []" unfolding vs by (simp add: py_cap_def py_last_def)
  have steady: "steady_series rate m'"
    unfolding steady_series_def
  proof
    fix rid
    show "list_all (\<lambda>v. v = rate rid) (samples m' (''traffic:'' @ rid))"
      using all old [of rid] by (cases "rid = ?rid") (simp_all add: m' samples_record_sample)
  qed
  have h: "holt a b (samples m' ?key) = (rate ?rid, 0)" by (rule holt_steady [OF ne all])
  have x: "traffic_predicted a b horizon (samples m' ?key) = rate ?rid"
    unfolding traffic_predicted_def h seasonality_steady [OF all] by simp
  have a: "advise_traffic ?rid (rate ?rid) (rate ?rid) = TaNone" using r(2) by (simp add: advise_traffic_def)
  have m: "max 0 (rate ?rid) = rate ?rid" using r(2) by simp
  define f where "f = hd fs"
  have "tf_predicted f = py_round (rate ?rid) 2 \<and> tf_trend f = ''stable'' \<and> tf_region f = ?rid \<and> tf_advice f = TaNone \<and> fs = [f]"
    using one unfolding f_def forecast_region_def Let_def r(1) m' [symmetric] x h a m by (clarsimp split del: if_split)
  then have "tf_predicted f = py_round (rate ?rid) 2" "tf_trend f = ''stable''" "tf_region f = ?rid" "tf_advice f = TaNone" "fs = [f]"
    by blast+
  then show ?thesis using steady by simp
qed

text \<open>
  C0. Steady traffic is forecast as it is. If every region reports the same, non-negative rate in every round
  (each its own), then after any number of rounds every forecast ever made predicts exactly the rate of its
  region, as a stable trend, and advises nothing; the history holds the last of them, one per report, and the
  total counts all of them.
\<close>

theorem steady_traffic_is_forecast:
  assumes "0 < mh" "\<forall>rid. 0 \<le> rate rid"
    and "list_all (\<lambda>q. list_all (\<lambda>r. num r ''requests_per_second'' 0 = rate (region_of r)) (snd q)) qs"
    and "run_outputs (\<lambda>q. forecast_traffic a b horizon (fst q) (snd q)) qs (new_forecaster mh) = (s, fs)"
  shows "list_all (\<lambda>f. tf_predicted f = py_round (rate (tf_region f)) 2 \<and> tf_trend f = ''stable'' \<and> tf_advice f = TaNone) fs
    \<and> map tf_region fs = concat (map (\<lambda>q. map region_of (snd q)) qs)
    \<and> fr_forecasts s = py_cap mh fs \<and> fr_total s = length fs"
proof -
  let ?P = "\<lambda>f. tf_predicted f = py_round (rate (tf_region f)) 2 \<and> tf_trend f = ''stable'' \<and> tf_advice f = TaNone"
  let ?same = "\<lambda>r. num r ''requests_per_second'' 0 = rate (region_of r)"
  have one: "steady_series rate m' \<and> list_all ?P fs \<and> map tf_region fs = map region_of rs"
    if "run_outputs (forecast_region a b horizon t) rs m = (m', fs)" "steady_series rate m" "list_all ?same rs" for t rs m m' fs
    using that
  proof (induction rs arbitrary: m fs)
    case (Cons r rs)
    obtain m1 fs1 where st: "forecast_region a b horizon t r m = (m1, fs1)" by fastforce
    obtain fs2 where rest: "run_outputs (forecast_region a b horizon t) rs m1 = (m', fs2)" and fs: "fs = fs1 @ fs2"
      using Cons.prems(1) st by (auto split: prod.splits)
    from steady_region [OF Cons.prems(2) _ _ st] Cons.prems(3) assms(2) Cons.IH [OF rest] show ?case by (simp add: fs)
  qed simp
  have "steady_series rate (fr_series s') \<and> list_all ?P es \<and> map tf_region es = concat (map (\<lambda>q. map region_of (snd q)) qs)"
    if "run_outputs (\<lambda>q. forecast_traffic a b horizon (fst q) (snd q)) qs s = (s', es)" "steady_series rate (fr_series s)"
      "list_all (\<lambda>q. list_all ?same (snd q)) qs" for s s' es qs
    using that
  proof (induction qs arbitrary: s es)
    case (Cons q qs)
    obtain m1 es1 where st: "run_outputs (forecast_region a b horizon (fst q)) (snd q) (fr_series s) = (m1, es1)" by fastforce
    let ?s1 = "s\<lparr>fr_series := m1, fr_forecasts := py_cap (fr_max_history s) (fr_forecasts s @ es1), fr_total := fr_total s + length es1\<rparr>"
    have turn: "forecast_traffic a b horizon (fst q) (snd q) s = (?s1, es1)" by (simp add: forecast_traffic_def forecast_all_def st)
    obtain es2 where rest: "run_outputs (\<lambda>q. forecast_traffic a b horizon (fst q) (snd q)) qs ?s1 = (s', es2)" and es: "es = es1 @ es2"
      using Cons.prems(1) turn by (auto split: prod.splits)
    from one [OF st Cons.prems(2)] Cons.prems(3) Cons.IH [OF rest] show ?case by (simp add: es)
  qed simp
  note steady = this [OF assms(4) _ assms(3)]
  have new: "fr_ok (new_forecaster mh)" "fr_forecasts (new_forecaster mh) = []" "fr_max_history (new_forecaster mh) = mh"
      "fr_total (new_forecaster mh) = 0" "steady_series rate (fr_series (new_forecaster mh))"
    using assms(1) by (simp_all add: fr_ok_def new_forecaster_def steady_series_def samples_def)
  show ?thesis using steady [OF new(5)] traffic_log.history_complete [OF new(1) _ assms(4)] unfolding new by simp
qed

lemma steady_traffic_is_forecast_witness:
  "\<exists>s fs. run_outputs (\<lambda>q. forecast_traffic (3 / 10) (1 / 10) 30 (fst q) (snd q))
       [(1, [tele_of ''eu'' [(''requests_per_second'', 40)], tele_of ''us'' [(''requests_per_second'', 40)]]),
        (2, [tele_of ''eu'' [(''requests_per_second'', 40)]])] (new_forecaster 2) = (s, fs)
     \<and> map tf_predicted fs = [40, 40, 40] \<and> map tf_region (fr_forecasts s) = [''us'', ''eu''] \<and> fr_total s = 3"
proof -
  let ?qs = "[(1, [tele_of ''eu'' [(''requests_per_second'', 40)], tele_of ''us'' [(''requests_per_second'', 40)]]),
        (2, [tele_of ''eu'' [(''requests_per_second'', 40)]])] :: (pyfloat \<times> tele list) list"
  let ?r = "run_outputs (\<lambda>q. forecast_traffic (3 / 10) (1 / 10) 30 (fst q) (snd q)) ?qs (new_forecaster 2)"
  have r: "?r = (fst ?r, snd ?r)" by simp
  have same: "list_all (\<lambda>q. list_all (\<lambda>r. num r ''requests_per_second'' 0 = (\<lambda>rid. 40) (region_of r)) (snd q)) ?qs" by code_simp
  have v: "map tf_predicted (snd ?r) = [40, 40, 40]" "length (snd ?r) = 3" by code_simp+
  have w: "map tf_region (py_cap 2 (snd ?r)) = [''us'', ''eu'']" by code_simp
  have t: "fr_forecasts (fst ?r) = py_cap 2 (snd ?r) \<and> fr_total (fst ?r) = length (snd ?r)"
    using steady_traffic_is_forecast [OF _ _ same r] by simp
  show ?thesis by (rule exI [of _ "fst ?r"], rule exI [of _ "snd ?r"]) (use t r v w in simp)
qed

section \<open>Scaling ahead of demand\<close>

definition new_scaling :: "nat \<Rightarrow> scaling_forecaster" where
  "new_scaling mh = \<lparr>fr_max_history = mh, fr_series = [], fr_forecasts = [], fr_total = 0, sr_events = []\<rparr>"

definition scaling_step :: "scaling_limits \<Rightarrow> int \<times> pyfloat \<times> tele list \<Rightarrow> scaling_forecaster \<Rightarrow> scaling_forecaster \<times> scaling_forecast list" where
  "scaling_step sl q = forecast_scaling sl (fst q) (fst (snd q)) (snd (snd q))"

lemma scaling_step_keeps:
  assumes "fr_ok s" "scaling_step sl q s = (s', es)"
  shows "fr_ok s' \<and> fr_max_history s' = fr_max_history s \<and> fr_forecasts s' = py_cap (fr_max_history s) (fr_forecasts s @ es)
        \<and> fr_total s' = fr_total s + length es
        \<and> sr_events s' = py_cap (fr_max_history s) (sr_events s @ map pre_scale_of (filter (\<lambda>f. sf_direction f = SdUp) es))"
proof -
  let ?one = "forecast_resource sl (fst q) (fst (snd q))" and ?ps = "List.product (snd (snd q)) scaled_resources"
  obtain s1 where f: "forecast_all ?one ?ps s = (s1, es)"
    and s': "s' = s1\<lparr>sr_events := py_cap (fr_max_history s) (sr_events s @ map pre_scale_of (filter (\<lambda>f. sf_direction f = SdUp) es))\<rparr>"
    using assms(2) by (auto simp: scaling_step_def forecast_scaling_def split: prod.splits)
  from forecast_all_keeps [OF assms(1) f] show ?thesis by (simp add: s' fr_ok_def)
qed

interpretation scaling_log: history fr_ok fr_forecasts fr_max_history fr_total "scaling_step sl" for sl
proof
  show "fr_ok s \<Longrightarrow> scaling_step sl q s = (s', es) \<Longrightarrow>
      fr_ok s' \<and> fr_max_history s' = fr_max_history s \<and> fr_forecasts s' = py_cap (fr_max_history s) (fr_forecasts s @ es)
        \<and> fr_total s' = fr_total s + length es" for q s s' es
    by (drule (1) scaling_step_keeps) simp
qed (simp add: fr_ok_def)

lemma growing_confidence_bounds: "3 / 10 \<le> py_round (growing_confidence n) 3 \<and> py_round (growing_confidence n) 3 \<le> 9 / 10"
proof -
  have "3 / 10 \<le> growing_confidence n" by (simp add: growing_confidence_def)
  moreover have "growing_confidence n \<le> 9 / 10" unfolding growing_confidence_def by (rule min.cobounded1)
  ultimately have "py_round (3 / 10) 3 \<le> py_round (growing_confidence n) 3" "py_round (growing_confidence n) 3 \<le> py_round (9 / 10) 3"
    by (simp_all add: py_round_mono)
  moreover have "py_round (3 / 10) 3 = 3 / 10" "py_round (9 / 10) 3 = 9 / 10" by code_simp+
  ultimately show ?thesis by simp
qed

definition sound_forecast :: "scaling_limits \<Rightarrow> scaling_forecast \<Rightarrow> bool" where
  "sound_forecast sl f \<longleftrightarrow> 0 \<le> sf_predicted f \<and> sf_predicted f \<le> 1 \<and> 3 / 10 \<le> sf_confidence f \<and> sf_confidence f \<le> 9 / 10
     \<and> (sf_warm f > 0 \<longleftrightarrow> sf_direction f = SdUp)
     \<and> (case sf_direction f of SdUp \<Rightarrow> py_round (sl_up sl) 3 \<le> sf_predicted f | SdDown \<Rightarrow> sf_predicted f \<le> py_round (sl_down sl) 3
        | SdSame \<Rightarrow> py_round (sl_down sl) 3 \<le> sf_predicted f \<and> sf_predicted f \<le> py_round (sl_up sl) 3)"

lemma scaling_predicted_clipped: "0 \<le> scaling_predicted a h vs \<and> scaling_predicted a h vs \<le> 1"
  by (simp add: scaling_predicted_def split: prod.splits)

lemma forecast_resource_sound:
  assumes "f \<in> set (snd (forecast_resource sl h t q m))"
  shows "sound_forecast sl f"
proof -
  obtain r resource field where q: "q = (r, resource, field)" by (metis prod.exhaust)
  let ?key = "''scaling:'' @ resource @ '':'' @ region_of r"
  let ?vs = "samples (record_sample 200 ?key (num r field 0) m) ?key"
  let ?x = "scaling_predicted (sl_alpha sl) h ?vs"
  have f: "sf_predicted f = py_round ?x 3" "sf_confidence f = py_round (growing_confidence (length ?vs)) 3"
    "(sf_direction f, sf_delta f, sf_warm f) = scaling_decision sl ?x"
    using assms by (auto simp: forecast_resource_def q Let_def split: if_splits prod.splits)
  have "py_round 0 3 \<le> py_round ?x 3" "py_round ?x 3 \<le> py_round 1 3"
    by (intro py_round_mono, simp add: scaling_predicted_clipped)+
  moreover have "py_round 1 3 = 1" by code_simp
  ultimately have p: "0 \<le> sf_predicted f \<and> sf_predicted f \<le> 1" by (simp add: f(1))
  have up: "py_round (sl_up sl) 3 \<le> py_round ?x 3" if "sl_up sl < ?x" using that by (intro py_round_mono) simp
  have up': "py_round ?x 3 \<le> py_round (sl_up sl) 3" if "\<not> sl_up sl < ?x" using that by (intro py_round_mono) simp
  have down: "py_round ?x 3 \<le> py_round (sl_down sl) 3" if "?x < sl_down sl" using that by (intro py_round_mono) simp
  have down': "py_round (sl_down sl) 3 \<le> py_round ?x 3" if "\<not> ?x < sl_down sl" using that by (intro py_round_mono) simp
  show ?thesis
    using p growing_confidence_bounds [of "length ?vs"] f(3) up up' down down'
    unfolding sound_forecast_def f(1,2) scaling_decision_def by (auto simp: Let_def split: if_splits)
qed

text \<open>
  C0. Scaling ahead. After any rounds of reports, the history holds the last \<open>max_history\<close> forecasts and the
  total counts all; every forecast predicts a usage within 0 and 1, asks to scale up, down or not at all as
  the prediction lies against the two thresholds, keeps a warm standby exactly when it asks to scale up; and
  the pre-scale events are, in order, the last of those that asked to.
\<close>

theorem scaling_forecasts_sound:
  assumes "0 < mh" and run: "run_outputs (scaling_step sl) qs (new_scaling mh) = (s, fs)"
  shows "list_all (sound_forecast sl) fs \<and> fr_forecasts s = py_cap mh fs \<and> fr_total s = length fs
    \<and> sr_events s = py_cap mh (map pre_scale_of (filter (\<lambda>f. sf_direction f = SdUp) fs))"
proof -
  have new: "fr_ok (new_scaling mh)" "fr_forecasts (new_scaling mh) = []" "fr_max_history (new_scaling mh) = mh"
      "fr_total (new_scaling mh) = 0" "sr_events (new_scaling mh) = []"
    using assms(1) by (simp_all add: fr_ok_def new_scaling_def)
  have sound: "sound_forecast sl f" if f: "f \<in> set fs" for f
  proof -
    obtain q s1 where st: "f \<in> set (snd (scaling_step sl q s1))" using run_outputs_mem [OF run f] by blast
    obtain s2 es where "forecast_all (forecast_resource sl (fst q) (fst (snd q))) (List.product (snd (snd q)) scaled_resources) s1 = (s2, es)"
      "f \<in> set es"
      using st by (auto simp: scaling_step_def forecast_scaling_def split: prod.splits)
    from forecast_all_mem [OF this] obtain p m where "f \<in> set (snd (forecast_resource sl (fst q) (fst (snd q)) p m))" by blast
    then show ?thesis by (rule forecast_resource_sound)
  qed
  have "sr_events s' = py_cap (fr_max_history s) (sr_events s @ map pre_scale_of (filter (\<lambda>f. sf_direction f = SdUp) es))"
    if "fr_ok s" "length (sr_events s) \<le> fr_max_history s" "run_outputs (scaling_step sl) qs s = (s', es)" for s s' es qs
    using that
  proof (induction qs arbitrary: s es)
    case (Cons q qs)
    obtain s1 es1 where one: "scaling_step sl q s = (s1, es1)" by fastforce
    obtain es2 where rest: "run_outputs (scaling_step sl) qs s1 = (s', es2)" and es: "es = es1 @ es2"
      using Cons.prems(3) one by (auto split: prod.splits)
    note k = scaling_step_keeps [OF Cons.prems(1) one]
    have pos: "0 < fr_max_history s" using Cons.prems(1) by (simp add: fr_ok_def)
    have "length (sr_events s1) \<le> fr_max_history s1" using k length_py_cap [OF pos] by simp
    with Cons.IH [OF _ this rest] k show ?case by (simp add: es py_cap_nested [OF pos])
  qed (simp add: py_cap_small)
  from this [OF new(1) _ run] sound scaling_log.history_complete [OF new(1) _ run] show ?thesis
    unfolding new by (simp add: list_all_iff)
qed

lemma scaling_forecasts_sound_witness:
  "\<exists>s fs. run_outputs (scaling_step \<lparr>sl_up = 8 / 10, sl_down = 3 / 10, sl_alpha = 3 / 10\<rparr>)
       [(15, 7, [tele_of ''eu'' [(''gpu_utilization'', 9 / 10), (''cpu_utilization'', 5 / 10)]])] (new_scaling 5) = (s, fs)
     \<and> map (\<lambda>f. (sf_resource f, sf_direction f, sf_warm f)) fs = [(''gpu'', SdUp, 2), (''cpu'', SdSame, 0)]
     \<and> sr_events s = [(''eu'', ''gpu'', 9 / 10, 2, 7)]"
proof -
  let ?r = "run_outputs (scaling_step \<lparr>sl_up = 8 / 10, sl_down = 3 / 10, sl_alpha = 3 / 10\<rparr>)
       [(15, 7, [tele_of ''eu'' [(''gpu_utilization'', 9 / 10), (''cpu_utilization'', 5 / 10)]])] (new_scaling 5)"
  have r: "?r = (fst ?r, snd ?r)" by simp
  have v: "map (\<lambda>f. (sf_resource f, sf_direction f, sf_warm f)) (snd ?r) = [(''gpu'', SdUp, 2), (''cpu'', SdSame, 0)]"
    "py_cap 5 (map pre_scale_of (filter (\<lambda>f. sf_direction f = SdUp) (snd ?r))) = [(''eu'', ''gpu'', 9 / 10, 2, 7)]"
    by code_simp+
  note t = scaling_forecasts_sound [OF _ r]
  show ?thesis by (rule exI [of _ "fst ?r"], rule exI [of _ "snd ?r"]) (use t r v in simp)
qed

section \<open>GPUs to order\<close>

text \<open>What is recommended covers the predicted demand with a fifth to spare, and the deficit is what is missing of it.\<close>

lemma supply_covers_demand:
  assumes "f \<in> set (snd (forecast_gpus a h t q m))"
  shows "\<exists>x \<ge> 0. gf_predicted f = py_round x 2 \<and> x * (12 / 10) < of_int (gf_recommended f)
    \<and> gf_supply f \<le> gf_recommended f \<and> gf_deficit f = gf_recommended f - gf_supply f"
proof -
  obtain r ty where q: "q = (r, ty)" by fastforce
  let ?key = "''gpu_demand:'' @ ty @ '':'' @ region_of r"
  let ?x = "gpu_predicted a h (samples (record_sample 200 ?key (gpu_demand r) m) ?key)"
  have x: "0 \<le> ?x" by (simp add: gpu_predicted_def split: prod.splits)
  have "?x * (12 / 10) < of_int (py_trunc (?x * (12 / 10)) + 1)" using x by (simp add: py_trunc_def) linarith
  also have "\<dots> \<le> of_int (gpu_recommended \<lfloor>num r ''total_gpus'' 0\<rfloor> ?x)"
    unfolding gpu_recommended_def of_int_le_iff by (rule max.cobounded2)
  finally have c: "?x * (12 / 10) < of_int (gpu_recommended \<lfloor>num r ''total_gpus'' 0\<rfloor> ?x)" .
  have "gf_predicted f = py_round ?x 2" "gf_recommended f = gpu_recommended \<lfloor>num r ''total_gpus'' 0\<rfloor> ?x"
    "gf_supply f = \<lfloor>num r ''total_gpus'' 0\<rfloor>" "gf_deficit f = max 0 (gf_recommended f - gf_supply f)"
    using assms by (auto simp: forecast_gpus_def q Let_def)
  then show ?thesis using x c by (intro exI [of _ ?x]) (simp add: gpu_recommended_def)
qed

text \<open>A region without GPUs and without any demand is short of one GPU.\<close>

lemma deficit_without_demand:
  "map (\<lambda>f. (gf_demand f, gf_predicted f, gf_deficit f))
     (gpu_deficit_regions (fst (forecast_gpu_demand (3 / 10) 30 7 [(tele_of ''eu'' [], None)] (new_forecaster 5)))) = [(0, 0, 1)]"
  by code_simp

end
