(* ===== verification/GlobalPlane.thy ===== *)
theory GlobalPlane
  imports GlobalConsensus GlobalState Regions
begin

text \<open>
  \<open>global_control/global_control_plane.py\<close>: the node of the global control plane, which puts the region
  registry, the global state, the consensus, the health monitor and the replicator together. Its operations
  are those of the parts; its threads run between \<open>start\<close> and \<open>stop\<close>, each as the sequence of its ticks.
  \<open>enc\<close> is the JSON of a region record, \<open>dumps\<close> its text. The plane passes no sync callback to the
  replicator and has no route by which the heartbeat of another node could arrive.
\<close>

section \<open>The plane\<close>

record global_plane =
  gp_node_id :: string
  gp_regions :: region_db
  gp_health :: health_history
  gp_state :: global_state
  gp_consensus :: consensus
  gp_replicator :: replicator
  gp_started :: bool

text \<open>\<open>node_id or os.getenv("ARSONIST_GLOBAL_NODE_ID", "global-primary")\<close>.\<close>

definition plane_id :: "string option \<Rightarrow> string option \<Rightarrow> string" where
  "plane_id node_id env =
     (case truthy node_id of Some i \<Rightarrow> i | None \<Rightarrow> (case env of Some e \<Rightarrow> e | None \<Rightarrow> ''global-primary''))"

definition new_plane :: "string option \<Rightarrow> string option \<Rightarrow> pyfloat \<Rightarrow> global_plane" where
  "new_plane node_id env ttl =
     (let i = plane_id node_id env
      in \<lparr>gp_node_id = i, gp_regions = empty_region_db, gp_health = [], gp_state = empty_state, gp_consensus = new_consensus i ttl,
          gp_replicator = new_replicator i, gp_started = False\<rparr>)"

definition plane_start :: "global_plane \<Rightarrow> global_plane" where
  "plane_start p = (if gp_started p then p else p\<lparr>gp_started := True\<rparr>)"

definition plane_stop :: "global_plane \<Rightarrow> global_plane" where
  "plane_stop p = p\<lparr>gp_started := False\<rparr>"

text \<open>\<open>register\<close> stamps the record that the caller passed, so the state gets the stamped one.\<close>

definition plane_register ::
    "(region \<Rightarrow> json) \<Rightarrow> (json \<Rightarrow> string) \<Rightarrow> pyfloat \<Rightarrow> pyfloat \<Rightarrow> region \<Rightarrow> global_plane \<Rightarrow> global_plane" where
  "plane_register enc dumps t1 t2 r p =
     (let db = register_region t1 r (gp_regions p)
      in case get_region (rg_id r) db of
           None \<Rightarrow> p
         | Some r1 \<Rightarrow> p\<lparr>gp_regions := db, gp_state := fst (gs_put dumps t2 ''regions'' (rg_id r) (enc r1) (gp_state p))\<rparr>)"

definition plane_remove :: "pyfloat \<Rightarrow> string \<Rightarrow> global_plane \<Rightarrow> global_plane" where
  "plane_remove t rid p =
     p\<lparr>gp_regions := remove_region t rid (gp_regions p), gp_state := fst (gs_delete ''regions'' rid (gp_state p))\<rparr>"

definition plane_heartbeat :: "pyfloat \<Rightarrow> string \<Rightarrow> region_update list \<Rightarrow> global_plane \<Rightarrow> global_plane \<times> region option" where
  "plane_heartbeat t rid us p =
     (let (db, r) = region_heartbeat t rid us (gp_regions p) in (p\<lparr>gp_regions := db\<rparr>, r))"

text \<open>The status report: consensus, regions by status, capacity, and what the replicator did.\<close>

definition region_health_summary :: "region_db \<Rightarrow> nat \<times> (string, nat) dict" where
  "region_health_summary db =
     (let rs = list_regions None None db in (length rs, fold (\<lambda>r. tally (region_status_name (rg_status r))) rs []))"

definition replicator_status :: "replicator \<Rightarrow> string \<times> nat \<times> nat \<times> nat \<times> (string, checkpoint) dict" where
  "replicator_status r = (rep_local_region r, length (rep_pending r), rep_sync_count r, rep_conflict_count r, rep_checkpoints r)"

definition global_status ::
    "global_plane \<Rightarrow> (string \<times> leader_state \<times> string option \<times> pyfloat \<times> nat) \<times> (nat \<times> (string, nat) dict) \<times> capacity_summary
      \<times> (string \<times> nat \<times> nat \<times> nat \<times> (string, checkpoint) dict)" where
  "global_status p =
     (consensus_status (gp_consensus p), region_health_summary (gp_regions p), global_capacity_summary (gp_regions p),
      replicator_status (gp_replicator p))"

section \<open>Everything that happens to it\<close>

datatype plane_event =
    PRegister pyfloat pyfloat region
  | PRemove pyfloat string
  | PHeartbeat pyfloat string "region_update list"
  | PStart
  | PStop
  | PConsensusTick pyfloat
  | PHealthTick "rat \<times> rat \<times> rat" pyfloat
  | PSyncTick

definition plane_ticks :: "plane_event \<Rightarrow> global_plane \<Rightarrow> global_plane" where
  "plane_ticks ev p =
     (case ev of
        PConsensusTick t \<Rightarrow> p\<lparr>gp_consensus := consensus_tick t (gp_consensus p)\<rparr>
      | PHealthTick th t \<Rightarrow>
          (let (db, h) = check_regions th t (gp_regions p, gp_health p) in p\<lparr>gp_regions := db, gp_health := h\<rparr>)
      | PSyncTick \<Rightarrow> p\<lparr>gp_replicator := fst (sync_tick None [] (gp_replicator p))\<rparr>
      | _ \<Rightarrow> p)"

fun plane_step :: "(region \<Rightarrow> json) \<Rightarrow> (json \<Rightarrow> string) \<Rightarrow> plane_event \<Rightarrow> global_plane \<Rightarrow> global_plane" where
  "plane_step enc dumps (PRegister t1 t2 r) p = plane_register enc dumps t1 t2 r p"
| "plane_step enc dumps (PRemove t rid) p = plane_remove t rid p"
| "plane_step enc dumps (PHeartbeat t rid us) p = fst (plane_heartbeat t rid us p)"
| "plane_step enc dumps PStart p = plane_start p"
| "plane_step enc dumps PStop p = plane_stop p"
| "plane_step enc dumps ev p = (if gp_started p then plane_ticks ev p else p)"

definition plane_run :: "(region \<Rightarrow> json) \<Rightarrow> (json \<Rightarrow> string) \<Rightarrow> plane_event list \<Rightarrow> global_plane \<Rightarrow> global_plane" where
  "plane_run enc dumps evs p = fold (plane_step enc dumps) evs p"

section \<open>What the global state knows of the regions\<close>

text \<open>Who is registered, by the events alone: the record of the last registration that was not removed.\<close>

definition stamped :: "pyfloat \<Rightarrow> region \<Rightarrow> region" where
  "stamped t r = r\<lparr>rg_registered_at := (if rg_registered_at r = 0 then t else rg_registered_at r), rg_last_heartbeat := t, rg_updated_at := t\<rparr>"

fun note_registration :: "plane_event \<Rightarrow> (string \<rightharpoonup> region) \<Rightarrow> (string \<rightharpoonup> region)" where
  "note_registration (PRegister t1 t2 r) m = m(rg_id r \<mapsto> stamped t1 r)"
| "note_registration (PRemove t rid) m = m(rid := None)"
| "note_registration ev m = m"

definition registrations :: "plane_event list \<Rightarrow> (string \<rightharpoonup> region)" where
  "registrations evs = fold note_registration evs Map.empty"

text \<open>What of a record no heartbeat and no health check changes.\<close>

definition fixed_part :: "region \<Rightarrow> string \<times> string \<times> string \<times> region_type \<times> json \<times> pyfloat" where
  "fixed_part r = (rg_id r, rg_display_name r, rg_location r, rg_type r, rg_metadata r, rg_registered_at r)"

definition plane_ok :: "(region \<Rightarrow> json) \<Rightarrow> (json \<Rightarrow> string) \<Rightarrow> (string \<rightharpoonup> region) \<Rightarrow> global_plane \<Rightarrow> bool" where
  "plane_ok enc dumps m p \<longleftrightarrow>
     regions_ok (gp_regions p)
     \<and> (\<forall>rid. map_option fixed_part (get_region rid (gp_regions p)) = map_option fixed_part (m rid))
     \<and> (\<forall>rid. map_option kv_v (dget (gs_kv (gp_state p)) (''regions'', rid)) = map_option (\<lambda>r. serialize dumps (enc r)) (m rid))
     \<and> role_ok (gp_consensus p) \<and> rep_pending (gp_replicator p) = [] \<and> rep_sync_count (gp_replicator p) = 0"

lemma get_region_put: "get_region rid (db\<lparr>db_regions := dput k r (db_regions db)\<rparr>) = (if rid = k then Some r else get_region rid db)"
  by (simp add: get_region_def)

lemma get_region_register:
  "get_region rid (register_region t r db) = (if rid = rg_id r then Some (stamped t r) else get_region rid db)"
  by (simp add: register_region_def stamped_def get_region_def Let_def)

lemma fixed_part_update [simp]: "fixed_part (apply_update u r) = fixed_part r"
  by (cases u) (simp_all add: fixed_part_def)

lemma fixed_part_updates: "fixed_part (fold apply_update us r) = fixed_part r"
  by (induction us arbitrary: r) simp_all

lemma heartbeat_fixed:
  "map_option fixed_part (get_region j (fst (region_heartbeat t rid us db))) = map_option fixed_part (get_region j db)"
proof (cases "get_region rid db")
  case (Some r)
  have "fixed_part (fold apply_update us (r\<lparr>rg_last_heartbeat := t, rg_updated_at := t\<rparr>)) = fixed_part r"
    unfolding fixed_part_updates by (simp add: fixed_part_def)
  with Some show ?thesis by (simp add: region_heartbeat_def Let_def get_region_put)
qed (simp add: region_heartbeat_def)

lemma update_status_fixed:
  "map_option fixed_part (get_region j (fst (update_status t rid st db))) = map_option fixed_part (get_region j db)"
proof (cases "get_region rid db")
  case (Some r)
  have "get_region j (fst (update_status t rid st db)) = (if j = rid then Some (r\<lparr>rg_status := st, rg_updated_at := t\<rparr>) else get_region j db)"
    using Some by (simp add: update_status_def Let_def get_region_def)
  moreover have "fixed_part (r\<lparr>rg_status := st, rg_updated_at := t\<rparr>) = fixed_part r" by (simp add: fixed_part_def)
  ultimately show ?thesis using Some by simp
qed (simp add: update_status_def)

lemma check_regions_fixed:
  "map_option fixed_part (get_region j (fst (check_regions th t (db, h)))) = map_option fixed_part (get_region j db)"
  unfolding check_regions_def
  by (rule fold_inv [where P = "\<lambda>s. map_option fixed_part (get_region j (fst s)) = map_option fixed_part (get_region j db)"])
    (simp_all add: check_region_def Let_def update_status_fixed)

lemma kv_put: "dget (gs_kv (fst (gs_put dumps t ns k v s))) nk =
    (if nk = (ns, k) then Some \<lparr>kv_v = serialize dumps v, kv_version = gs_version (ns, k) s + 1, kv_updated_at = t\<rparr> else dget (gs_kv s) nk)"
  by (simp add: gs_put_def Let_def)

lemma plane_step_ok:
  assumes ok: "plane_ok enc dumps m p"
  shows "plane_ok enc dumps (note_registration ev m) (plane_step enc dumps ev p)"
proof -
  have db: "regions_ok (gp_regions p)" using ok by (simp add: plane_ok_def)
  show ?thesis
  proof (cases ev)
    case (PRegister t1 t2 r)
    have "regions_ok (register_region t1 r (gp_regions p))"
      using db by (auto simp: register_region_def Let_def regions_ok_def intro!: keyed_dput)
    then show ?thesis using ok
      by (simp add: PRegister plane_register_def plane_ok_def get_region_register kv_put Let_def)
  next
    case (PRemove t rid)
    have "regions_ok (remove_region t rid (gp_regions p))"
      using db by (auto simp: remove_region_def regions_ok_def intro!: keyed_ddel)
    moreover have "get_region j (remove_region t rid (gp_regions p)) = (if j = rid then None else get_region j (gp_regions p))" for j
      by (simp add: remove_region_def get_region_def)
    ultimately show ?thesis using ok by (simp add: PRemove plane_remove_def plane_ok_def gs_delete_def)
  next
    case (PHeartbeat t rid us)
    then show ?thesis using ok heartbeat_frame(1) [OF db] heartbeat_fixed
      by (simp add: plane_ok_def plane_heartbeat_def case_prod_unfold Let_def)
  next
    case (PConsensusTick t)
    then show ?thesis using ok role_ok_step [of "gp_consensus p" "TickAt t"] by (simp add: plane_ok_def plane_ticks_def)
  next
    case (PHealthTick th t)
    then show ?thesis using ok checks_frame(1) [OF db] check_regions_fixed
      by (simp add: plane_ok_def plane_ticks_def case_prod_unfold Let_def)
  next
    case PSyncTick
    then show ?thesis using ok by (simp add: plane_ok_def plane_ticks_def sync_tick_def Let_def)
  qed (use ok in \<open>simp_all add: plane_ok_def plane_start_def plane_stop_def\<close>)
qed


section \<open>What it does not do\<close>

definition hears_nobody :: "global_plane \<Rightarrow> bool" where
  "hears_nobody p \<longleftrightarrow> gc_state (gp_consensus p) = Leader \<or> gc_leader_id (gp_consensus p) = None"

lemma consensus_of_step:
  "gp_consensus (plane_step enc dumps ev p) =
     (case ev of PConsensusTick t \<Rightarrow> if gp_started p then consensus_tick t (gp_consensus p) else gp_consensus p | _ \<Rightarrow> gp_consensus p)"
  by (cases ev) (auto simp: plane_register_def plane_remove_def plane_heartbeat_def plane_start_def plane_stop_def plane_ticks_def Let_def
    split: option.splits prod.splits)

lemma hears_nobody_step: "hears_nobody p \<Longrightarrow> hears_nobody (plane_step enc dumps ev p)"
  by (auto simp: hears_nobody_def consensus_of_step consensus_tick_def try_promote_def split: plane_event.split)

lemma leader_step: "gc_state (gp_consensus p) = Leader \<Longrightarrow> gc_state (gp_consensus (plane_step enc dumps ev p)) = Leader"
  by (auto simp: consensus_of_step consensus_tick_def split: plane_event.split)

text \<open>
  C0. Every plane leads. Once a plane was started and its consensus ticked, it regards itself as the leader
  for ever, whatever happens: no heartbeat of another node can reach it, so any number of planes lead at the
  same time.
\<close>

theorem every_plane_leads:
  "gc_state (gp_consensus (plane_run enc dumps (evs @ PStart # PConsensusTick t # evs') (new_plane node_id env ttl))) = Leader"
proof -
  let ?p = "fold (plane_step enc dumps) evs (new_plane node_id env ttl)"
  have "hears_nobody (new_plane node_id env ttl)" by (simp add: hears_nobody_def new_plane_def new_consensus_def Let_def)
  from fold_inv [where P = hears_nobody, OF hears_nobody_step this] have "hears_nobody ?p" .
  then have "gc_state (gp_consensus (plane_step enc dumps (PConsensusTick t) (plane_start ?p))) = Leader"
    by (auto simp: consensus_of_step hears_nobody_def plane_start_def plane_ticks_def consensus_tick_def try_promote_def)
  from fold_inv [where P = "\<lambda>p. gc_state (gp_consensus p) = Leader" and f = "plane_step enc dumps", OF leader_step this] show ?thesis by (simp add: plane_run_def)
qed

text \<open>Without a sync callback a tick of the replicator throws away what was enqueued.\<close>

lemma tick_without_callback_drops:
  "rep_pending (fst (sync_tick None [] (enqueue_change c r))) = [] \<and> snd (sync_tick None [] (enqueue_change c r)) = []"
  by (simp add: sync_tick_def enqueue_change_def Let_def)

text \<open>The global state is not told of heartbeats: it keeps saying what the region registered with.\<close>

definition stale_run :: "plane_event list" where
  "stale_run = [PRegister 1 1 (demo_region ''eu'' RActive (1 / 10) 0), PHeartbeat 5 ''eu'' [SetStatus ROffline, SetSaturation 1]]"

definition status_json :: "region \<Rightarrow> json" where
  "status_json r = JStr (region_status_name (rg_status r))"

lemma state_goes_stale:
  "map_option rg_status (get_region ''eu'' (gp_regions (plane_run status_json (\<lambda>_. []) stale_run (new_plane None None 30)))) = Some ROffline
   \<and> map_option kv_v (dget (gs_kv (gp_state (plane_run status_json (\<lambda>_. []) stale_run (new_plane None None 30)))) (''regions'', ''eu''))
       = Some ''active''"
  by code_simp

end
