(* ===== verification/InferenceApi.thy ===== *)
theory InferenceApi
  imports Gateway Bags
begin

text \<open>
  The inference API: its routes (\<open>inference/openai_routes.py\<close>), who may call them
  (\<open>security/inference_auth.py\<close> behind the tenant gateway), the tokenizer pool, the rolling metrics
  (\<open>telemetry/inference_metrics.py\<close>) with the scalers that read them, and the request signatures of
  \<open>gateway/auth.py\<close>. A route suspends while the backend works, so a request arrives and is answered in two
  steps between which others may run. The answer of the backend is an argument (\<open>None\<close>: it raises).
\<close>

section \<open>Metrics\<close>

record inference_metrics =
  im_window :: nat
  im_latencies :: "rat list"
  im_tokens :: "nat list"
  im_requests :: nat
  im_failures :: nat

definition new_inference_metrics :: "nat \<Rightarrow> inference_metrics" where
  "new_inference_metrics w = \<lparr>im_window = w, im_latencies = [], im_tokens = [], im_requests = 0, im_failures = 0\<rparr>"

text \<open>A deque with \<open>maxlen\<close> drops its oldest entries.\<close>

definition record_chat_call :: "rat \<Rightarrow> nat \<Rightarrow> inference_metrics \<Rightarrow> inference_metrics" where
  "record_chat_call latency tokens m =
     m\<lparr>im_requests := im_requests m + 1, im_latencies := py_cap (im_window m) (im_latencies m @ [latency]),
       im_tokens := py_cap (im_window m) (im_tokens m @ [tokens])\<rparr>"

definition record_embedding_call :: "rat \<Rightarrow> inference_metrics \<Rightarrow> inference_metrics" where
  "record_embedding_call latency m =
     m\<lparr>im_requests := im_requests m + 1, im_latencies := py_cap (im_window m) (im_latencies m @ [latency])\<rparr>"

definition record_generate_call :: "rat \<Rightarrow> nat \<Rightarrow> inference_metrics \<Rightarrow> inference_metrics" where
  "record_generate_call = record_chat_call"

definition pctl :: "rat list \<Rightarrow> nat \<Rightarrow> rat option" where
  "pctl vs p =
     (if vs = [] then None
      else Some (sort vs ! nat (round_half_even (of_nat p / 100 * of_nat (length vs - 1)))))"

text \<open>Requests, failures, p50, p95 and the estimated tokens per second; a p95 of 0 counts as 1.\<close>

definition inference_snapshot :: "inference_metrics \<Rightarrow> nat \<times> nat \<times> rat option \<times> rat option \<times> rat" where
  "inference_snapshot m =
     (let p95 = pctl (im_latencies m) 95; ms = (case p95 of Some x \<Rightarrow> if x = 0 then 1 else x | None \<Rightarrow> 1)
      in (im_requests m, im_failures m, pctl (im_latencies m) 50, p95,
          py_round (if im_tokens m = [] then 0 else of_nat (sum_list (im_tokens m)) / max (1 / 1000000) (ms / 1000)) 3))"

section \<open>The scalers that read them\<close>

text \<open>A scaler calls its hook, if it has one, when the figure is above the threshold.\<close>

definition inference_scaler_tick :: "rat \<Rightarrow> bool \<Rightarrow> inference_metrics \<Rightarrow> (string \<times> nat) list" where
  "inference_scaler_tick threshold hooked m =
     (let p95 = (case pctl (im_latencies m) 95 of Some x \<Rightarrow> x | None \<Rightarrow> 0)
      in if p95 > threshold \<and> hooked then [(''latency'', 1)] else [])"

definition gpu_scaler_tick :: "rat \<Rightarrow> bool \<Rightarrow> rat list \<Rightarrow> bool" where
  "gpu_scaler_tick threshold hooked utils = (Max (set (if utils = [] then [0] else utils)) > threshold \<and> hooked)"

definition observe_rps :: "nat \<Rightarrow> rat \<Rightarrow> rat list \<Rightarrow> rat list" where
  "observe_rps window x hist = py_cap window (hist @ [x])"

definition predict_next :: "rat list \<Rightarrow> rat" where
  "predict_next hist =
     (if length hist < 3 then (if hist = [] then 0 else last hist)
      else sum_list (py_last 5 hist) / of_nat (length (py_last 5 hist)))"

section \<open>Who may call\<close>

record inference_config =
  ic_multitenant :: bool
  ic_allow_legacy :: bool
  ic_api_token :: string
  ic_inference_token :: string
  ic_jwt_secret :: string
  ic_chat_model :: string
  ic_embed_model :: string

definition legacy_tokens :: "inference_config \<Rightarrow> string set" where
  "legacy_tokens c = set (filter (\<lambda>t. t \<noteq> []) (map py_strip [ic_api_token c, ic_inference_token c]))"

definition inference_scopes :: "string list" where
  "inference_scopes = [''arsonist-inference'', ''arsonist-node'', ''arsonist-admin'']"

text \<open>\<open>jwt\<close>: the claims of a token that verifies under the configured secret.\<close>

definition verify_jwt_inference :: "(string \<Rightarrow> claims option) \<Rightarrow> inference_config \<Rightarrow> string \<Rightarrow> bool" where
  "verify_jwt_inference jwt c token =
     (if ic_jwt_secret c = [] then False
      else case jwt token of
        None \<Rightarrow> False
      | Some cl \<Rightarrow> (case cl_scope cl of None \<Rightarrow> False | Some s \<Rightarrow> s \<in> set inference_scopes))"

text \<open>\<open>tenant\<close> and \<open>legacy\<close> are what the gateway left in the state of the request.\<close>

definition require_inference_auth ::
    "(string \<Rightarrow> claims option) \<Rightarrow> inference_config \<Rightarrow> tenant_context option \<Rightarrow> bool \<Rightarrow> string option \<Rightarrow> http_error option" where
  "require_inference_auth jwt c tenant legacy authorization =
     (if ic_multitenant c
      then (if tenant \<noteq> None \<or> legacy then None else Some (401, ''v12 gateway authentication required''))
      else if ic_api_token c = [] \<and> ic_inference_token c = [] \<and> ic_jwt_secret c = [] then None
      else case bearer authorization of
        None \<Rightarrow> Some (401, ''missing bearer token'')
      | Some token \<Rightarrow>
          if ic_api_token c \<noteq> [] \<and> token = ic_api_token c then None
          else if ic_inference_token c \<noteq> [] \<and> token = ic_inference_token c then None
          else if verify_jwt_inference jwt c token then None
          else Some (403, ''invalid inference credentials''))"

section \<open>The routes\<close>

datatype route = RChat | REmbed | RGenerate

fun route_path :: "route \<Rightarrow> string" where
  "route_path RChat = ''/v1/chat/completions''"
| "route_path REmbed = ''/v1/embeddings''"
| "route_path RGenerate = ''/v1/generate''"

record inference_request =
  iq_route :: route
  iq_model :: "string option"
  iq_stream :: bool
  iq_authorization :: "string option"

record call =
  ca_route :: route
  ca_tenant :: "tenant_context option"
  ca_model :: string
  ca_handle :: "string option"
  ca_arrived :: rat
  ca_t0 :: rat

text \<open>The tokenizer pool is a queue of handles; a request that finds it empty goes on without one.\<close>

definition new_pool :: "nat \<Rightarrow> string list" where
  "new_pool n = map (\<lambda>i. ''tok-'' @ string_of_int (int i)) [0..<n]"

definition pool_acquire :: "string list \<Rightarrow> string list \<times> string option" where
  "pool_acquire q = (case q of [] \<Rightarrow> ([], None) | h # q' \<Rightarrow> (q', Some h))"

definition pool_release :: "string option \<Rightarrow> string list \<Rightarrow> string list" where
  "pool_release h q = (case truthy h of Some x \<Rightarrow> q @ [x] | None \<Rightarrow> q)"

record inference_api =
  ap_gateway :: gateway_state
  ap_pool :: "string list"
  ap_metrics :: inference_metrics
  ap_calls :: "(nat, call) dict"
  ap_next :: nat

definition chosen_model :: "inference_config \<Rightarrow> inference_request \<Rightarrow> string" where
  "chosen_model c q =
     (case iq_model q of Some m \<Rightarrow> m | None \<Rightarrow> (if iq_route q = REmbed then ic_embed_model c else ic_chat_model c))"

text \<open>A route up to the call of the backend; \<open>clocks\<close> are when the gateway and when the route took its time.\<close>

definition start_call ::
    "(string \<Rightarrow> claims option) \<Rightarrow> inference_config \<Rightarrow> bool \<Rightarrow> rat \<times> rat \<Rightarrow> tenant_context option \<Rightarrow> bool \<Rightarrow> inference_request
      \<Rightarrow> string list \<Rightarrow> string list \<times> (http_error + call)" where
  "start_call jwt c available clocks tenant legacy q pool =
     (case require_inference_auth jwt c tenant legacy (iq_authorization q) of
        Some e \<Rightarrow> (pool, Inl e)
      | None \<Rightarrow>
          if iq_route q = RChat \<and> iq_stream q then (pool, Inl (400, ''streaming mode not implemented; set stream=false''))
          else if \<not> available
          then (pool, Inl (503, if iq_route q = RChat then ''inference backend unavailable (set OLLAMA_HOST)'' else ''inference backend unavailable''))
          else let (pool', h) = (if iq_route q = RChat then pool_acquire pool else (pool, None))
               in (pool', Inr \<lparr>ca_route = iq_route q, ca_tenant = tenant, ca_model = chosen_model c q, ca_handle = h,
                           ca_arrived = fst clocks, ca_t0 = snd clocks\<rparr>))"

text \<open>The answer of the backend: the text of a chat or a generation, the vector of an embedding.\<close>

datatype backend_answer = Content string | Vector nat

fun answer_text :: "backend_answer \<Rightarrow> string" where
  "answer_text (Content s) = s"
| "answer_text (Vector n) = []"

fun answer_dim :: "backend_answer \<Rightarrow> nat" where
  "answer_dim (Content s) = 0"
| "answer_dim (Vector n) = n"

definition bill_call ::
    "string \<Rightarrow> int \<Rightarrow> rat \<Rightarrow> call \<Rightarrow> backend_answer \<Rightarrow> gateway_state \<Rightarrow> gateway_state" where
  "bill_call ts now dt k a g =
     (let org = map_option tc_org_id (ca_tenant k); m = ca_model k; ids = gw_ids g; b = gw_billing g
      in g\<lparr>gw_billing :=
            (case ca_route k of
               RChat \<Rightarrow> maybe_record_chat ts now org m dt (answer_text a) ids b
             | REmbed \<Rightarrow> maybe_record_embed ts now org m (answer_dim a) ids b
             | RGenerate \<Rightarrow> maybe_record_generate ts now org m (answer_text a) ids b)\<rparr>)"

definition measure_call :: "rat \<Rightarrow> call \<Rightarrow> backend_answer \<Rightarrow> inference_metrics \<Rightarrow> inference_metrics" where
  "measure_call dt k a m =
     (case ca_route k of
        RChat \<Rightarrow> record_chat_call dt (length (answer_text a) div 4) m
      | REmbed \<Rightarrow> record_embedding_call dt m
      | RGenerate \<Rightarrow> record_generate_call dt (length (answer_text a) div 4) m)"

text \<open>The rest of a route and, for a tenant, of the gateway: the handle goes back in any case.\<close>

definition finish_call ::
    "string \<Rightarrow> int \<Rightarrow> rat \<times> rat \<Rightarrow> call \<Rightarrow> backend_answer option \<Rightarrow> inference_api \<Rightarrow> inference_api" where
  "finish_call ts now clocks k answer s =
     (let s1 = s\<lparr>ap_pool := pool_release (ca_handle k) (ap_pool s)\<rparr>; dt = (fst clocks - ca_t0 k) * 1000
      in case answer of
           None \<Rightarrow> s1
         | Some a \<Rightarrow>
             let g = bill_call ts now dt k a (ap_gateway s1)
             in s1\<lparr>ap_metrics := measure_call dt k a (ap_metrics s1),
                   ap_gateway := (case ca_tenant k of None \<Rightarrow> g
                     | Some t \<Rightarrow> gateway_done ts (tc_org_id t) (route_path (ca_route k)) ((snd clocks - ca_arrived k) * 1000) 200 g)\<rparr>)"

section \<open>Requests and answers\<close>

definition tenant_of :: "gateway_decision \<Rightarrow> tenant_context option" where
  "tenant_of d = (case d of Forward t \<Rightarrow> Some t | _ \<Rightarrow> None)"

text \<open>An arriving request: the gateway when it is attached, then the route. The result is the number of the call.\<close>

definition arrive ::
    "(string \<Rightarrow> string) \<Rightarrow> (string \<Rightarrow> claims option) \<Rightarrow> inference_config \<Rightarrow> string \<Rightarrow> rat \<Rightarrow> rat \<times> rat \<Rightarrow> bool \<Rightarrow> inference_request
      \<Rightarrow> inference_api \<Rightarrow> inference_api \<times> (http_error + nat)" where
  "arrive sha jwt c ts rl_clock clocks available q s =
     (let (g, d) = (if ic_multitenant c
                    then gateway_request sha jwt (ic_allow_legacy c) (legacy_tokens c) ts rl_clock ''POST'' (route_path (iq_route q))
                           (iq_authorization q) (ap_gateway s)
                    else (ap_gateway s, Bypass));
          s1 = s\<lparr>ap_gateway := g\<rparr>
      in case d of
           Refuse e \<Rightarrow> (s1, Inl e)
         | _ \<Rightarrow>
             (case start_call jwt c available clocks (tenant_of d) (d = Legacy) q (ap_pool s1) of
                (pool, Inl e) \<Rightarrow>
                  (s1\<lparr>ap_gateway := (case tenant_of d of None \<Rightarrow> g
                     | Some t \<Rightarrow> gateway_done ts (tc_org_id t) (route_path (iq_route q))
                        ((snd clocks - fst clocks) * 1000) (of_nat (fst e)) g)\<rparr>, Inl e)
              | (pool, Inr k) \<Rightarrow>
                  (s1\<lparr>ap_pool := pool, ap_calls := dput (ap_next s) k (ap_calls s1), ap_next := ap_next s + 1\<rparr>, Inr (ap_next s))))"

datatype api_event =
    Arrive string rat "rat \<times> rat" bool inference_request
  | Answer nat string int "rat \<times> rat" "backend_answer option"

fun api_step :: "(string \<Rightarrow> string) \<Rightarrow> (string \<Rightarrow> claims option) \<Rightarrow> inference_config \<Rightarrow> api_event \<Rightarrow> inference_api \<Rightarrow> inference_api" where
  "api_step sha jwt c (Arrive ts rl_clock clocks available q) s = fst (arrive sha jwt c ts rl_clock clocks available q s)"
| "api_step sha jwt c (Answer n ts now clocks answer) s =
     (case dget (ap_calls s) n of
        None \<Rightarrow> s
      | Some k \<Rightarrow> finish_call ts now clocks k answer (s\<lparr>ap_calls := ddel n (ap_calls s)\<rparr>))"

definition new_api :: "gateway_state \<Rightarrow> nat \<Rightarrow> nat \<Rightarrow> inference_api" where
  "new_api g pool window =
     \<lparr>ap_gateway = g, ap_pool = new_pool pool, ap_metrics = new_inference_metrics window, ap_calls = [], ap_next = 0\<rparr>"

definition api_run ::
    "(string \<Rightarrow> string) \<Rightarrow> (string \<Rightarrow> claims option) \<Rightarrow> inference_config \<Rightarrow> api_event list \<Rightarrow> inference_api \<Rightarrow> inference_api" where
  "api_run sha jwt c evs s = fold (api_step sha jwt c) evs s"

section \<open>Request signatures of the gateway\<close>

definition canonical_request :: "string \<Rightarrow> string \<Rightarrow> string \<Rightarrow> string \<Rightarrow> string" where
  "canonical_request http_method path ts body_hash = map to_upper http_method @ [CHR 10] @ path @ [CHR 10] @ ts @ [CHR 10] @ body_hash"

definition verify_request_signature ::
    "(string \<Rightarrow> string \<Rightarrow> string) \<Rightarrow> (string \<Rightarrow> string) \<Rightarrow> int \<Rightarrow> int \<Rightarrow> string \<Rightarrow> string \<Rightarrow> string \<Rightarrow> string \<Rightarrow> string option
      \<Rightarrow> string option \<Rightarrow> bool" where
  "verify_request_signature hmac sha now skew secret http_method path body ts_header sig_header =
     (if secret = [] then False
      else case (truthy ts_header, truthy sig_header) of
        (Some t, Some g) \<Rightarrow>
          (case py_int t of
             None \<Rightarrow> False
           | Some n \<Rightarrow>
               if \<bar>now - n\<bar> > skew then False
               else hmac secret (canonical_request http_method path t (sha body)) = py_lower (py_strip g))
      | _ \<Rightarrow> False)"

section \<open>The tokenizers\<close>

definition handle_of :: "call \<Rightarrow> string list" where
  "handle_of k = (case ca_handle k of Some h \<Rightarrow> [h] | None \<Rightarrow> [])"

definition held :: "(nat, call) dict \<Rightarrow> string list" where
  "held d = concat (map handle_of (dvalues d))"

lemma held_dput_new: "dget d n = None \<Longrightarrow> held (dput n k d) = held d @ handle_of k"
  by (simp add: held_def dput_new dget_None_iff)

lemma mset_held_ddel: "dwf d \<Longrightarrow> dget d n = Some k \<Longrightarrow> mset (held d) = mset (handle_of k) + mset (held (ddel n d))"
proof (induction d)
  case (Cons p d)
  obtain j u where p: "p = (j, u)" by (cases p)
  show ?case
  proof (cases "j = n")
    case True
    then have "n \<notin> fst ` set d" using Cons.prems(1) by (auto simp: dwf_def p)
    then have "ddel n (p # d) = d" using True by (simp add: p)
    then show ?thesis using Cons.prems(2) True by (simp add: p held_def)
  next
    case False
    then show ?thesis using Cons.IH Cons.prems by (simp add: p held_def dwf_def)
  qed
qed simp

definition api_ok :: "nat \<Rightarrow> inference_api \<Rightarrow> bool" where
  "api_ok n s \<longleftrightarrow> dwf (ap_calls s) \<and> (\<forall>i \<in> fst ` set (ap_calls s). i < ap_next s)
     \<and> mset (ap_pool s) + mset (held (ap_calls s)) = mset (new_pool n)"

lemma new_pool_distinct: "distinct (new_pool n)"
proof -
  have "inj (\<lambda>i. ''tok-'' @ string_of_int (int i))"
  proof (rule injI)
    fix i j assume "''tok-'' @ string_of_int (int i) = ''tok-'' @ string_of_int (int j)"
    then have "py_int (string_of_int (int i)) = py_int (string_of_int (int j))" by simp
    then show "i = j" by (simp add: py_int_string_of_int)
  qed
  from inj_on_subset [OF this subset_UNIV] show ?thesis by (simp only: new_pool_def distinct_map distinct_upt simp_thms)
qed

lemma start_call_pool:
  assumes "start_call jwt c available clocks tenant legacy q pool = (pool', r)"
  shows "case r of Inl e \<Rightarrow> pool' = pool | Inr k \<Rightarrow> mset pool = mset (handle_of k) + mset pool' \<and> ca_tenant k = tenant"
  using assms
  by (auto simp: start_call_def Let_def pool_acquire_def handle_of_def split: option.splits if_splits list.splits prod.splits)

lemma arrive_cases:
  assumes "arrive sha jwt c ts rl clocks available q s = (s', r)"
  shows "case r of
      Inl e \<Rightarrow> ap_calls s' = ap_calls s \<and> ap_pool s' = ap_pool s \<and> ap_next s' = ap_next s \<and> ap_metrics s' = ap_metrics s
    | Inr n \<Rightarrow> \<exists>tenant legacy k pool'. n = ap_next s \<and> start_call jwt c available clocks tenant legacy q (ap_pool s) = (pool', Inr k)
        \<and> ap_calls s' = dput n k (ap_calls s) \<and> ap_pool s' = pool' \<and> ap_next s' = n + 1 \<and> ap_metrics s' = ap_metrics s
        \<and> (\<exists>g d. (if ic_multitenant c
                  then gateway_request sha jwt (ic_allow_legacy c) (legacy_tokens c) ts rl ''POST'' (route_path (iq_route q))
                         (iq_authorization q) (ap_gateway s) = (g, d)
                  else d = Bypass) \<and> tenant = tenant_of d \<and> legacy = (d = Legacy))"
proof -
  obtain g d where d: "(if ic_multitenant c
      then gateway_request sha jwt (ic_allow_legacy c) (legacy_tokens c) ts rl ''POST'' (route_path (iq_route q)) (iq_authorization q) (ap_gateway s)
      else (ap_gateway s, Bypass)) = (g, d)" by fastforce
  obtain pool' x where st: "start_call jwt c available clocks (tenant_of d) (d = Legacy) q (ap_pool s) = (pool', x)" by fastforce
  show ?thesis
  proof (cases "\<exists>e. d = Refuse e")
    case True
    then show ?thesis using assms d by (auto simp: arrive_def Let_def)
  next
    case False
    then have run: "arrive sha jwt c ts rl clocks available q s =
        (case (pool', x) of
           (pool, Inl e) \<Rightarrow> (s\<lparr>ap_gateway := (case tenant_of d of None \<Rightarrow> g
              | Some t \<Rightarrow> gateway_done ts (tc_org_id t) (route_path (iq_route q)) ((snd clocks - fst clocks) * 1000) (of_nat (fst e)) g)\<rparr>, Inl e)
         | (pool, Inr k) \<Rightarrow> (s\<lparr>ap_gateway := g, ap_pool := pool, ap_calls := dput (ap_next s) k (ap_calls s), ap_next := ap_next s + 1\<rparr>,
              Inr (ap_next s)))"
      using d st by (cases d; cases x) (simp_all add: arrive_def Let_def)
    show ?thesis
    proof (cases x)
      case (Inl e)
      with assms run show ?thesis by auto
    next
      case (Inr k)
      with assms run have r: "r = Inr (ap_next s)" "ap_calls s' = dput (ap_next s) k (ap_calls s)" "ap_pool s' = pool'"
        "ap_next s' = ap_next s + 1" "ap_metrics s' = ap_metrics s" by auto
      show ?thesis unfolding r(1) sum.case
        by (rule exI [of _ "tenant_of d"], rule exI [of _ "d = Legacy"], rule exI [of _ k], rule exI [of _ pool'])
          (use r st Inr d in \<open>auto split: if_splits\<close>)
    qed
  qed
qed

lemma handle_in_pool: "api_ok n s \<Longrightarrow> dget (ap_calls s) i = Some k \<Longrightarrow> ca_handle k = Some h \<Longrightarrow> h \<noteq> []"
proof -
  assume ok: "api_ok n s" and k: "dget (ap_calls s) i = Some k" and h: "ca_handle k = Some h"
  have "h \<in># mset (held (ap_calls s))" using mset_held_ddel [of "ap_calls s" i k] ok k h by (simp add: api_ok_def handle_of_def)
  then have "h \<in># mset (new_pool n)" using ok unfolding api_ok_def by (metis union_iff)
  then show "h \<noteq> []" by (auto simp: new_pool_def)
qed

lemma finish_call_frame:
  "ap_calls (finish_call ts now clocks k answer s) = ap_calls s" "ap_next (finish_call ts now clocks k answer s) = ap_next s"
  "ap_pool (finish_call ts now clocks k answer s) = pool_release (ca_handle k) (ap_pool s)"
  by (simp_all add: finish_call_def Let_def split: option.split)

lemma api_step_ok:
  assumes ok: "api_ok n s"
  shows "api_ok n (api_step sha jwt c ev s)"
proof (cases ev)
  case (Arrive ts rl clocks available q)
  obtain s' r where a: "arrive sha jwt c ts rl clocks available q s = (s', r)" by fastforce
  show ?thesis
  proof (cases r)
    case (Inl e)
    then show ?thesis using arrive_cases [OF a] ok by (simp add: Arrive a api_ok_def)
  next
    case (Inr m)
    then obtain tenant legacy k pool' where st: "start_call jwt c available clocks tenant legacy q (ap_pool s) = (pool', Inr k)"
      and s': "m = ap_next s" "ap_calls s' = dput m k (ap_calls s)" "ap_pool s' = pool'" "ap_next s' = m + 1"
      using arrive_cases [OF a] by auto
    have "dget (ap_calls s) m = None" using ok s'(1) by (auto simp: api_ok_def dget_None_iff)
    then have "held (ap_calls s') = held (ap_calls s) @ handle_of k" by (simp add: s'(2) held_dput_new)
    then show ?thesis using ok start_call_pool [OF st] s' by (auto simp: Arrive a api_ok_def ac_simps)
  qed
next
  case (Answer i ts now clocks answer)
  show ?thesis
  proof (cases "dget (ap_calls s) i")
    case (Some k)
    have "mset (held (ap_calls s)) = mset (handle_of k) + mset (held (ddel i (ap_calls s)))"
      using ok Some by (intro mset_held_ddel) (simp_all add: api_ok_def)
    moreover have "mset (pool_release (ca_handle k) (ap_pool s)) = mset (ap_pool s) + mset (handle_of k)"
      using handle_in_pool [OF ok Some] by (cases "ca_handle k") (auto simp: pool_release_def handle_of_def truthy_def)
    moreover have "fst ` set (ddel i (ap_calls s)) \<subseteq> fst ` set (ap_calls s)" by (simp add: Diff_subset)
    ultimately show ?thesis using ok by (auto simp: Answer Some api_ok_def finish_call_frame ac_simps)
  qed (use ok Answer in simp)
qed

text \<open>
  C12: C0. No tokenizer is lost or used twice. However requests arrive and are answered, and whether the backend
  answers or raises, the handles in the pool and those that the calls under way hold are together exactly
  those that the pool was made of, each once.
\<close>

theorem tokenizers_conserved:
  "let s = api_run sha jwt c evs (new_api g n w)
   in mset (ap_pool s @ held (ap_calls s)) = mset (new_pool n) \<and> distinct (ap_pool s @ held (ap_calls s))"
proof -
  have "api_ok n (new_api g n w)" by (simp add: api_ok_def new_api_def held_def)
  from fold_inv [where P = "api_ok n" and f = "api_step sha jwt c", OF api_step_ok this]
  have "api_ok n (api_run sha jwt c evs (new_api g n w))" by (simp add: api_run_def)
  then have m: "mset (ap_pool (api_run sha jwt c evs (new_api g n w)) @ held (ap_calls (api_run sha jwt c evs (new_api g n w)))) = mset (new_pool n)"
    by (simp add: api_ok_def)
  with new_pool_distinct [of n] show ?thesis by (metis (no_types, lifting) mset_eq_imp_distinct_iff)
qed

section \<open>Who gets through\<close>

definition credential_ok ::
    "(string \<Rightarrow> string) \<Rightarrow> (string \<Rightarrow> claims option) \<Rightarrow> inference_config \<Rightarrow> string option \<Rightarrow> identity_state \<Rightarrow> tenant_context option \<Rightarrow> bool" where
  "credential_ok sha jwt c auth ids tenant \<longleftrightarrow>
     (if ic_multitenant c
      then (\<exists>res. authenticate_bearer sha jwt (ic_allow_legacy c) (legacy_tokens c) auth ids = Inr res \<and> tenant = ar_tenant res)
      else tenant = None \<and> (ic_api_token c = [] \<and> ic_inference_token c = [] \<and> ic_jwt_secret c = []
        \<or> (\<exists>token. bearer auth = Some token \<and> (token \<in> {ic_api_token c, ic_inference_token c} - {[]} \<or> verify_jwt_inference jwt c token))))"

lemma require_inference_auth_None:
  "require_inference_auth jwt c tenant legacy auth = None \<Longrightarrow> \<not> ic_multitenant c \<Longrightarrow>
     ic_api_token c = [] \<and> ic_inference_token c = [] \<and> ic_jwt_secret c = []
        \<or> (\<exists>token. bearer auth = Some token \<and> (token \<in> {ic_api_token c, ic_inference_token c} - {[]} \<or> verify_jwt_inference jwt c token))"
  by (auto simp: require_inference_auth_def split: option.splits if_splits)

lemma inference_path:
  "starts_with ''/v1'' (route_path r)" "\<not> starts_with ''/v12/session'' (route_path r)" "rstrip_slash (route_path r) \<noteq> ''/v12/orgs''"
  by (induction r) (code_simp, code_simp, code_simp)+

lemma gateway_admits:
  assumes "gateway_request sha jwt allow legacy ts rl ''POST'' (route_path r) auth g = (g', d)" "d = Legacy \<or> tenant_of d \<noteq> None"
  shows "\<exists>res. authenticate_bearer sha jwt allow legacy auth (gw_ids g) = Inr res \<and> tenant_of d = ar_tenant res"
proof (cases "authenticate_bearer sha jwt allow legacy auth (gw_ids g)")
  case (Inl e)
  then have "d = Refuse e" using assms(1) inference_path [of r] by (simp add: gateway_request_def)
  with assms(2) show ?thesis by (simp add: tenant_of_def)
next
  case (Inr res)
  have "tenant_of d = ar_tenant res"
  proof (cases "ar_tenant res")
    case None
    then have "d = Legacy" using assms(1) Inr inference_path [of r] by (simp add: gateway_request_def)
    with None show ?thesis by (simp add: tenant_of_def)
  next
    case (Some t)
    then have "d = Forward t \<or> (\<exists>e. d = Refuse e)" using assms(1) Inr inference_path [of r]
      by (simp add: gateway_request_def Let_def split: prod.splits if_splits) blast+
    with Some assms(2) show ?thesis by (auto simp: tenant_of_def)
  qed
  with Inr show ?thesis by blast
qed

text \<open>
  C24: C0. Who gets to the backend. A request becomes a call only while the backend is available and with a
  credential: under multi-tenancy one that the gateway accepted, and the call is booked to the tenant that
  this credential names; otherwise one of the configured tokens or a JWT with a scope for inference, unless
  nothing at all is configured. A request that is refused takes no tokenizer and leaves no call behind.
\<close>

theorem inference_guarded:
  assumes "arrive sha jwt c ts rl clocks available q s = (s', r)"
  shows "case r of
      Inl e \<Rightarrow> ap_calls s' = ap_calls s \<and> ap_pool s' = ap_pool s
    | Inr n \<Rightarrow> available \<and> (\<exists>k. dget (ap_calls s') n = Some k \<and> ca_route k = iq_route q
        \<and> credential_ok sha jwt c (iq_authorization q) (gw_ids (ap_gateway s)) (ca_tenant k))"
proof (cases r)
  case (Inl e)
  then show ?thesis using arrive_cases [OF assms] by simp
next
  case (Inr n)
  then obtain tenant legacy k pool' g d where st: "start_call jwt c available clocks tenant legacy q (ap_pool s) = (pool', Inr k)"
    and s': "ap_calls s' = dput n k (ap_calls s)" and td: "tenant = tenant_of d" "legacy = (d = Legacy)"
    and gw: "if ic_multitenant c
             then gateway_request sha jwt (ic_allow_legacy c) (legacy_tokens c) ts rl ''POST'' (route_path (iq_route q))
                    (iq_authorization q) (ap_gateway s) = (g, d)
             else d = Bypass"
    using arrive_cases [OF assms] by auto
  have auth: "require_inference_auth jwt c tenant legacy (iq_authorization q) = None" and av: "available"
    and k: "ca_route k = iq_route q" "ca_tenant k = tenant"
    using st by (auto simp: start_call_def Let_def split: option.splits if_splits prod.splits)
  have "credential_ok sha jwt c (iq_authorization q) (gw_ids (ap_gateway s)) tenant"
  proof (cases "ic_multitenant c")
    case True
    then have "d = Legacy \<or> tenant_of d \<noteq> None" using auth td by (auto simp: require_inference_auth_def split: if_splits)
    with gw True td gateway_admits show ?thesis unfolding credential_ok_def by auto
  next
    case False
    then show ?thesis using require_inference_auth_None [OF auth False] gw td by (simp add: credential_ok_def tenant_of_def)
  qed
  then show ?thesis using Inr av k s' by simp
qed

definition sample_config :: inference_config where
  "sample_config = \<lparr>ic_multitenant = True, ic_allow_legacy = False, ic_api_token = [], ic_inference_token = [], ic_jwt_secret = ''s'',
     ic_chat_model = ''llama3.2'', ic_embed_model = ''nomic-embed-text''\<rparr>"

definition sample_call :: inference_request where
  "sample_call = \<lparr>iq_route = RChat, iq_model = None, iq_stream = False, iq_authorization = Some ''Bearer J''\<rparr>"

lemma inference_guarded_witness:
  "\<exists>s'. arrive (\<lambda>x. x) sample_jwt sample_config ''1'' 1 (1, 1) True sample_call (new_api sample_gateway 2 10) = (s', Inr 0)
     \<and> (\<exists>k. dget (ap_calls s') 0 = Some k \<and> map_option tc_org_id (ca_tenant k) = Some ''o'' \<and> ca_handle k = Some ''tok-0'' \<and> ca_route k = RChat)"
proof -
  let ?r = "arrive (\<lambda>x. x) sample_jwt sample_config ''1'' 1 (1, 1) True sample_call (new_api sample_gateway 2 10)"
  have r: "?r = (fst ?r, Inr 0)" by code_simp
  have v: "map_option (\<lambda>k. (map_option tc_org_id (ca_tenant k), ca_handle k)) (dget (ap_calls (fst ?r)) 0) = Some (Some ''o'', Some ''tok-0'')"
    by code_simp
  have "\<exists>k. dget (ap_calls (fst ?r)) 0 = Some k \<and> ca_route k = iq_route sample_call"
    using inference_guarded [OF r] by auto
  then show ?thesis using r v by (intro exI [of _ "fst ?r"]) (auto simp: sample_call_def)
qed

section \<open>Who is billed\<close>

lemma usage_of_record: "oid \<noteq> o' \<Longrightarrow> usage_of oid (record_usage ts o' metric x unit meta b) = usage_of oid b"
  by (simp add: usage_of_def record_usage_def)

lemma usage_of_consume: "oid \<noteq> o' \<Longrightarrow> usage_of oid (fst (consume_tokens ts now o' n ids b)) = usage_of oid b"
  by (simp add: consume_tokens_def incr_meter_def usage_of_record Let_def) (simp add: usage_of_def)

lemma usage_of_maybe:
  assumes "org \<noteq> Some oid"
  shows "usage_of oid (maybe_record_chat ts now org m dt txt ids b) = usage_of oid b"
    and "usage_of oid (maybe_record_units ts now org m u kind ids b) = usage_of oid b"
proof -
  have none: "truthy org = Some o' \<Longrightarrow> oid \<noteq> o'" for o' using assms by (auto simp: truthy_def split: option.splits if_splits)
  have consume: "truthy org = Some o' \<Longrightarrow> usage_of oid (fst (consume_tokens ts now o' n ids b)) = usage_of oid b" for o' n
    using usage_of_consume none by blast
  show "usage_of oid (maybe_record_chat ts now org m dt txt ids b) = usage_of oid b"
    using none consume by (auto simp: maybe_record_chat_def usage_of_record case_prod_unfold Let_def split: option.split)
  show "usage_of oid (maybe_record_units ts now org m u kind ids b) = usage_of oid b"
    using none consume by (auto simp: maybe_record_units_def usage_of_record case_prod_unfold Let_def split: option.split)
qed

definition billed_to :: "nat \<Rightarrow> inference_api \<Rightarrow> string option" where
  "billed_to i s = Option.bind (dget (ap_calls s) i) (\<lambda>k. map_option tc_org_id (ca_tenant k))"

text \<open>
  C0. Nobody pays for another. The answer of a call changes the usage records of no organization but the one
  that the credential of the call named; a call without a tenant, and one whose backend raised, is billed to
  nobody.
\<close>

theorem answer_bills_caller:
  assumes "billed_to i s \<noteq> Some oid \<or> answer = None"
  shows "usage_of oid (gw_billing (ap_gateway (api_step sha jwt c (Answer i ts now clocks answer) s))) = usage_of oid (gw_billing (ap_gateway s))"
proof (cases "dget (ap_calls s) i")
  case (Some k)
  let ?org = "map_option tc_org_id (ca_tenant k)"
  show ?thesis
  proof (cases answer)
    case (Some a)
    then have "?org \<noteq> Some oid" using assms \<open>dget (ap_calls s) i = Some k\<close> by (auto simp: billed_to_def)
    note bill = usage_of_maybe [OF this]
    have "usage_of oid (gw_billing (bill_call ts now dt k a g)) = usage_of oid (gw_billing g)" for dt g
      using bill by (simp add: bill_call_def maybe_record_embed_def maybe_record_generate_def Let_def split: route.split)
    then show ?thesis using Some \<open>dget (ap_calls s) i = Some k\<close>
      by (auto simp: finish_call_def gateway_done_def Let_def split: option.split)
  qed (simp add: Some finish_call_def Let_def)
qed simp

definition sample_served :: inference_api where
  "sample_served = fst (arrive (\<lambda>x. x) sample_jwt sample_config ''1'' 1 (1, 1) True sample_call (new_api sample_gateway 2 10))"

lemma answer_bills_caller_witness:
  "usage_of ''p'' (gw_billing (ap_gateway (api_step (\<lambda>x. x) sample_jwt sample_config (Answer 0 ''2'' 2 (2, 2) (Some (Content ''hello''))) sample_served)))
     = usage_of ''p'' (gw_billing (ap_gateway sample_served))
   \<and> billed_to 0 sample_served = Some ''o''"
proof -
  have b: "billed_to 0 sample_served = Some ''o''" by code_simp
  then have "billed_to 0 sample_served \<noteq> Some ''p'' \<or> Some (Content ''hello'') = None" by simp
  note t = answer_bills_caller [OF this, of "\<lambda>x. x" sample_jwt sample_config "''2''" 2 "(2, 2)"]
  show ?thesis by (rule conjI [OF t b])
qed

text \<open>A backend that raises is not counted anywhere.\<close>

lemma failures_never_counted: "im_failures (ap_metrics (api_run sha jwt c evs (new_api g n w))) = 0"
proof -
  have "im_failures (ap_metrics (api_step sha jwt c ev s)) = 0" if "im_failures (ap_metrics s) = 0" for ev s
  proof (cases ev)
    case (Arrive ts rl clocks available q)
    obtain s' r where a: "arrive sha jwt c ts rl clocks available q s = (s', r)" by fastforce
    then show ?thesis using arrive_cases [OF a] that Arrive by (auto split: sum.splits)
  next
    case (Answer i ts now clocks answer)
    then show ?thesis using that
      by (auto simp: finish_call_def measure_call_def record_chat_call_def record_embedding_call_def record_generate_call_def Let_def
          split: option.split route.split)
  qed
  from fold_inv [where P = "\<lambda>s. im_failures (ap_metrics s) = 0" and f = "api_step sha jwt c", OF this]
  show ?thesis by (simp add: api_run_def new_api_def new_inference_metrics_def)
qed

section \<open>Percentiles\<close>

lemma round_half_even_le: "x \<le> of_int n \<Longrightarrow> round_half_even x \<le> n"
  using round_half_even_mono [of x "of_int n"] by simp

text \<open>
  C0. Percentiles are measured values in order. Of any latencies, a percentile up to 100 is one of them (the
  index is never out of range), and a higher percentile is not less than a lower one.
\<close>

theorem percentiles_ordered:
  assumes "vs \<noteq> []" "p \<le> q" "q \<le> 100"
  shows "\<exists>x y. pctl vs p = Some x \<and> pctl vs q = Some y \<and> x \<in> set vs \<and> y \<in> set vs \<and> x \<le> y"
proof -
  let ?n = "length vs - 1" and ?i = "\<lambda>p. round_half_even (of_nat p / 100 * of_nat (length vs - 1))"
  have mono: "rat_of_nat p / 100 * of_nat ?n \<le> of_nat q / 100 * of_nat ?n"
    using assms(2) by (intro mult_right_mono divide_right_mono) simp_all
  then have "?i p \<le> ?i q" by (rule round_half_even_mono)
  moreover have "?i q \<le> int ?n"
  proof (rule round_half_even_le)
    have "rat_of_nat q / 100 \<le> 1" using assms(3) by simp
    then have "of_nat q / 100 * rat_of_nat ?n \<le> 1 * of_nat ?n" by (intro mult_right_mono) simp_all
    then show "of_nat q / 100 * rat_of_nat ?n \<le> of_int (int ?n)" by simp
  qed
  moreover have "a \<le> b \<Longrightarrow> b \<le> int ?n \<Longrightarrow> nat a \<le> nat b \<and> nat b < length (sort vs)" for a b
    using assms(1) by (cases vs) auto
  ultimately have i: "nat (?i p) \<le> nat (?i q)" "nat (?i q) < length (sort vs)" by blast+
  have "sort vs ! nat (?i p) \<le> sort vs ! nat (?i q)" by (rule sorted_nth_mono [OF sorted_sort i])
  moreover have "sort vs ! nat (?i p) \<in> set vs" "sort vs ! nat (?i q) \<in> set vs"
    using nth_mem [OF le_less_trans [OF i]] nth_mem [OF i(2)] unfolding set_sort .
  ultimately show ?thesis using assms(1) by (simp add: pctl_def)
qed

lemma percentiles_ordered_witness: "\<exists>x y. pctl [40, 10, 30] 50 = Some x \<and> pctl [40, 10, 30] 95 = Some y \<and> x \<le> y \<and> x = 30 \<and> y = 40"
proof -
  have v: "pctl [40, 10, 30] 50 = Some 30" "pctl [40, 10, 30] 95 = Some 40" by code_simp+
  from percentiles_ordered [of "[40, 10, 30]" 50 95] show ?thesis by (simp add: v)
qed

section \<open>Signed requests\<close>

text \<open>
  C0. A signed request is accepted, and only for its own time. Signed over method, path, the time and the hash
  of the body, a request is accepted within the allowed skew, whatever the case of the method; and a signature
  is accepted with a time stamp only if it is the code of exactly that time stamp, method, path and body.
\<close>

theorem request_signature_exact:
  assumes "secret \<noteq> []" "\<bar>now - n\<bar> \<le> skew"
    and sig: "sig = hmac secret (canonical_request http_method path (string_of_int n) (sha body))" "sig \<noteq> []" "py_lower (py_strip sig) = sig"
  shows "verify_request_signature hmac sha now skew secret http_method path body (Some (string_of_int n)) (Some sig)
    \<and> (verify_request_signature hmac sha now' skew secret m' path' body' (Some t') (Some sig) \<longrightarrow>
        hmac secret (canonical_request m' path' t' (sha body')) = sig \<and> (\<exists>n'. py_int t' = Some n' \<and> \<bar>now' - n'\<bar> \<le> skew))"
proof -
  have "py_int [] = None" by code_simp
  then have "string_of_int n \<noteq> []" using py_int_string_of_int [of n] by auto
  then have t: "truthy (Some (string_of_int n)) = Some (string_of_int n)" "truthy (Some sig) = Some sig" using sig(2) by (simp_all add: truthy_def)
  have "verify_request_signature hmac sha now skew secret http_method path body (Some (string_of_int n)) (Some sig)"
    unfolding verify_request_signature_def t using assms by (simp add: py_int_string_of_int)
  moreover have "hmac secret (canonical_request m' path' t' (sha body')) = sig \<and> (\<exists>n'. py_int t' = Some n' \<and> \<bar>now' - n'\<bar> \<le> skew)"
    if v: "verify_request_signature hmac sha now' skew secret m' path' body' (Some t') (Some sig)"
  proof (cases "truthy (Some t')")
    case (Some x)
    then have "x = t'" by (auto simp: truthy_def split: if_splits)
    with v Some t(2) sig(3) assms(1) show ?thesis
      by (auto simp: verify_request_signature_def split: option.splits if_splits)
  qed (use v assms(1) in \<open>simp add: verify_request_signature_def\<close>)
  ultimately show ?thesis by blast
qed

lemma request_signature_exact_witness:
  "verify_request_signature (\<lambda>k m. py_lower (filter (\<lambda>c. c \<noteq> CHR 10) m)) (\<lambda>x. x) 105 300 ''k'' ''Post'' ''/v1'' ''b'' (Some (string_of_int 100)) (Some ''post/v1100b'')"
proof -
  let ?h = "\<lambda>k m :: string. py_lower (filter (\<lambda>c. c \<noteq> CHR 10) m)"
  have v: "''post/v1100b'' = ?h ''k'' (canonical_request ''Post'' ''/v1'' (string_of_int 100) ((\<lambda>x. x) ''b''))"
    "py_lower (py_strip ''post/v1100b'') = ''post/v1100b''" by code_simp+
  have "''k'' \<noteq> ([] :: string)" "\<bar>105 - 100 :: int\<bar> \<le> 300" "''post/v1100b'' \<noteq> ([] :: string)" by simp_all
  from request_signature_exact [where hmac = ?h and sha = "\<lambda>x. x", OF this(1,2) v(1) this(3) v(2)] show ?thesis by blast
qed

end
