(* ===== verification/V11Api.thy ===== *)
theory V11Api
  imports ControlPlane Models Deployments InferenceApi
begin

text \<open>
  The management routes of \<open>control_plane/v11_api.py\<close>: registering and searching models, creating deployments
  and starting rollouts, with the counters of \<open>telemetry/workload_metrics.py\<close>, all behind the API token. The
  parts are the models of the registry, the deployments and the inference metrics. Identifiers are arguments.
\<close>

section \<open>State\<close>

record workload_metrics =
  wm_deployments :: nat
  wm_rollouts :: nat
  wm_failures :: nat

record v11 =
  v_registry :: model_registry
  v_deployments :: deployments
  v_workload :: workload_metrics

definition new_v11 :: v11 where
  "new_v11 = \<lparr>v_registry = [], v_deployments = [], v_workload = \<lparr>wm_deployments = 0, wm_rollouts = 0, wm_failures = 0\<rparr>\<rparr>"

text \<open>\<open>ARSONIST_ORCHESTRATION_MODE\<close> or the explicit switch.\<close>

definition ai_orchestration_enabled :: "string \<Rightarrow> string \<Rightarrow> bool" where
  "ai_orchestration_enabled mode switch \<longleftrightarrow>
     py_strip (py_lower mode) \<in> {''ai'', ''ai_native'', ''v11''} \<or> py_lower switch \<in> {''1'', ''true'', ''yes''}"

section \<open>Routes\<close>

datatype v11_request =
    RegisterModel model_record
  | SearchModels string
  | CreateDeployment string "string option" "string option" "int option"
  | StartRollout string string "rat option"

datatype v11_response =
    V11Error nat string
  | V11Invalid "string list"
  | V11Registered string
  | V11Models "model_record list"
  | V11Deployed string
  | V11Rollout string string rat pyfloat
  | V11Missing

fun v11_handle :: "pyfloat \<Rightarrow> v11_request \<Rightarrow> v11 \<Rightarrow> v11 \<times> v11_response" where
  "v11_handle t (RegisterModel r) s =
     (let errs = validate_record r
      in if errs \<noteq> [] then (s, V11Invalid errs) else (s\<lparr>v_registry := upsert_model t r (v_registry s)\<rparr>, V11Registered (mr_id r)))"
| "v11_handle t (SearchModels q) s = (s, V11Models (search_models q 50 (v_registry s)))"
| "v11_handle t (CreateDeployment dep_id name img replicas) s =
     (s\<lparr>v_deployments := create_deployment t dep_id (case name of Some n \<Rightarrow> n | None \<Rightarrow> ''app'')
           (case img of Some i \<Rightarrow> i | None \<Rightarrow> ''python:3.11-slim'') (case replicas of Some n \<Rightarrow> n | None \<Rightarrow> 1) (v_deployments s),
        v_workload := (v_workload s)\<lparr>wm_deployments := wm_deployments (v_workload s) + 1\<rparr>\<rparr>, V11Deployed dep_id)"
| "v11_handle t (StartRollout dep_id img canary) s =
     (if dep_id = [] \<or> img = [] then (s, V11Missing)
      else let (d, i, m, c, ts) = start_rollout t dep_id img (case canary of Some c \<Rightarrow> c | None \<Rightarrow> 1 / 10) (v_deployments s)
           in (s\<lparr>v_deployments := d, v_workload := (v_workload s)\<lparr>wm_rollouts := wm_rollouts (v_workload s) + 1\<rparr>\<rparr>, V11Rollout i m c ts))"

definition v11_call :: "string \<Rightarrow> string option \<Rightarrow> pyfloat \<Rightarrow> v11_request \<Rightarrow> v11 \<Rightarrow> v11 \<times> v11_response" where
  "v11_call api_token authorization t q s =
     (case require_token api_token authorization of
        Some e \<Rightarrow> (s, V11Error (fst e) (snd e))
      | None \<Rightarrow> v11_handle t q s)"

section \<open>What the routes keep\<close>

definition v11_ok :: "v11 \<Rightarrow> bool" where
  "v11_ok s \<longleftrightarrow> keyed mr_id (v_registry s) \<and> (\<forall>r \<in> set (dvalues (v_registry s)). validate_record r = [])
     \<and> dwf (v_deployments s) \<and> length (v_deployments s) \<le> wm_deployments (v_workload s) \<and> wm_failures (v_workload s) = 0"

lemma validate_stamped: "validate_record (r\<lparr>mr_updated_at := t\<rparr>) = validate_record r"
  by (simp add: validate_record_def)

lemma length_dput_le: "length (dput k v d) \<le> Suc (length d)"
  by (induction d) auto

lemma length_on_row: "length (on_row i f d) = length d"
proof (cases "dget d i")
  case (Some r)
  have "length (dput i x d) = length d" if "dget d i = Some r" for x
    using that by (induction d) (auto split: if_splits)
  with Some show ?thesis by (simp add: on_row_def)
qed (simp add: on_row_def)

lemma dwf_on_row: "dwf d \<Longrightarrow> dwf (on_row i f d)"
  by (auto simp: on_row_def split: option.split)

lemma v11_handle_ok:
  assumes "v11_ok s"
  shows "v11_ok (fst (v11_handle t q s))"
proof (cases q)
  case (RegisterModel r)
  have "keyed mr_id (upsert_model t r (v_registry s))" using assms by (auto simp: upsert_model_def v11_ok_def intro!: keyed_dput)
  moreover have "\<forall>x \<in> set (dvalues (upsert_model t r (v_registry s))). validate_record x = []" if "validate_record r = []"
    using assms that by (auto simp: upsert_model_def v11_ok_def keyed_def set_dput validate_stamped)
  ultimately show ?thesis using assms RegisterModel by (auto simp: v11_ok_def Let_def)
next
  case (CreateDeployment dep_id name img replicas)
  have "length (dput k v (v_deployments s)) \<le> Suc (wm_deployments (v_workload s))" for k v
    using length_dput_le [of k v "v_deployments s"] assms by (simp add: v11_ok_def)
  with CreateDeployment assms show ?thesis by (auto simp: v11_ok_def create_deployment_def)
next
  case (StartRollout dep_id img canary)
  with assms show ?thesis
    by (auto simp: v11_ok_def start_rollout_def set_deployment_state_def length_on_row dwf_on_row Let_def)
qed (use assms in simp)

text \<open>
  C0. The management routes keep the registry sound. Whatever is requested with whatever token, every model in
  the registry is stored under its own id with a name and a positive need of memory, and no more deployments
  exist than the counter of created ones says; and a request without the configured token changes nothing.
\<close>

theorem v11_registry_sound:
  "v11_ok (fold (\<lambda>(auth, t, q) s. fst (v11_call token auth t q s)) qs new_v11)
   \<and> (fst (v11_call token auth t q s) = s \<or> require_token token auth = None)"
proof
  have new: "v11_ok new_v11" by (simp add: v11_ok_def new_v11_def)
  have step: "v11_ok s \<Longrightarrow> v11_ok (fst (v11_call token auth t q s))" for auth t q s
    by (simp add: v11_call_def v11_handle_ok split: option.split)
  have "v11_ok ((\<lambda>(auth, t, q) s. fst (v11_call token auth t q s)) x s)" if "v11_ok s" for x s
    using step [OF that] by (cases x) simp
  from fold_inv [where P = v11_ok and f = "\<lambda>(auth, t, q) s. fst (v11_call token auth t q s)", OF this new]
  show "v11_ok (fold (\<lambda>(auth, t, q) s. fst (v11_call token auth t q s)) qs new_v11)" .
  show "fst (v11_call token auth t q s) = s \<or> require_token token auth = None"
    by (cases "require_token token auth") (simp_all add: v11_call_def)
qed

text \<open>A rollout of a deployment that does not exist is answered and counted.\<close>

lemma rollout_of_nothing:
  "v11_call [] None 5 (StartRollout ''ghost'' ''img:2'' None) new_v11 =
     (new_v11\<lparr>v_workload := \<lparr>wm_deployments = 0, wm_rollouts = 1, wm_failures = 0\<rparr>\<rparr>, V11Rollout ''ghost'' ''img:2'' (1 / 10) 5)"
  by code_simp

end
