(* ===== verification/GreenPlacement.thy ===== *)
theory GreenPlacement
  imports Telemetry Planetary
begin

text \<open>
  Placement by place, carbon, cooling and power grid: \<open>planetary/geo_optimizer.py\<close>,
  \<open>efficiency/carbon_optimizer.py\<close>, \<open>efficiency/cooling_efficiency.py\<close> and
  \<open>efficiency/energy_grid_awareness.py\<close>. The three of \<open>efficiency/\<close> keep one profile per region, the last
  that was reported; two of them turn the profiles into recommendations. The reasons of recommendations
  (texts for people) and the tables \<open>_events\<close>, which nothing writes, are left out.
\<close>

section \<open>Geographic placement\<close>

record geo_constraint =
  gk_id :: string
  gk_type :: string
  gk_max_latency :: rat
  gk_preferred :: "string list"
  gk_excluded :: "string list"
  gk_residency :: string
  gk_max_carbon :: rat

record geo_placement =
  ge_workload :: string
  ge_region :: string
  ge_continent :: string
  ge_score :: rat
  ge_latency :: rat
  ge_carbon :: rat
  ge_cost :: rat
  ge_factors :: "(string \<times> rat) list"
  ge_ts :: pyfloat

record geo_optimizer =
  go_max_history :: nat
  go_placements :: "geo_placement list"
  go_total :: nat

definition new_geo_optimizer :: "nat \<Rightarrow> geo_optimizer" where
  "new_geo_optimizer mh = \<lparr>go_max_history = mh, go_placements = [], go_total = 0\<rparr>"

definition geo_factors :: "tele \<Rightarrow> (string \<times> rat) list" where
  "geo_factors r =
     [(''latency'', max 0 (1 - num r ''avg_latency_ms'' 50 / 500)),
      (''capacity'', 1 - num r ''workload_saturation'' (1 / 2)),
      (''cost'', max 0 (1 - num r ''cost_per_hour'' 50 / 200)),
      (''carbon'', max 0 (1 - num r ''carbon_intensity'' (1 / 2))),
      (''energy'', num r ''renewable_pct'' 0),
      (''thermal'', max 0 (1 - num r ''thermal_pressure'' (3 / 10)))]"

definition weighed :: "rat list \<Rightarrow> (string \<times> rat) list \<Rightarrow> rat" where
  "weighed ws fs = sum_list (map2 (*) ws (map snd fs))"

definition geo_score :: "tele \<Rightarrow> rat" where
  "geo_score r = weighed [25 / 100, 20 / 100, 15 / 100, 15 / 100, 10 / 100, 15 / 100] (geo_factors r)"

definition rounded_factors :: "(string \<times> rat) list \<Rightarrow> (string \<times> rat) list" where
  "rounded_factors fs = map (\<lambda>(k, v). (k, py_round v 3)) fs"

definition apply_constraints :: "tele list \<Rightarrow> geo_constraint option \<Rightarrow> tele list" where
  "apply_constraints regions co =
     (case co of None \<Rightarrow> regions
      | Some k \<Rightarrow>
          let c0 = (if gk_excluded k \<noteq> [] then filter (\<lambda>r. text_of r ''region_id'' [] \<notin> set (gk_excluded k)) regions else regions);
              c1 = (if gk_preferred k \<noteq> [] then narrow (\<lambda>r. text_of r ''continent'' [] \<in> set (gk_preferred k)) c0 else c0);
              c2 = (if gk_max_latency k > 0 then narrow (\<lambda>r. num r ''avg_latency_ms'' 0 \<le> gk_max_latency k) c1 else c1)
          in if gk_max_carbon k < 1 then narrow (\<lambda>r. num r ''carbon_intensity'' (1 / 2) \<le> gk_max_carbon k) c2 else c2)"

definition geo_candidates :: "tele list \<Rightarrow> geo_constraint option \<Rightarrow> tele list" where
  "geo_candidates regions co = (if apply_constraints regions co = [] then regions else apply_constraints regions co)"

definition geo_placement_of :: "pyfloat \<Rightarrow> string \<Rightarrow> tele \<Rightarrow> geo_placement" where
  "geo_placement_of t w r =
     \<lparr>ge_workload = w, ge_region = text_of r ''region_id'' [], ge_continent = text_of r ''continent'' [],
      ge_score = py_round (geo_score r) 4, ge_latency = py_round (num r ''avg_latency_ms'' 0) 1,
      ge_carbon = py_round (num r ''carbon_intensity'' (1 / 2)) 3,
      ge_cost = py_round (dict_num (rounded_factors (geo_factors r)) ''cost'' 0) 3,
      ge_factors = rounded_factors (geo_factors r), ge_ts = t\<rparr>"

definition geo_optimize ::
    "pyfloat \<Rightarrow> string \<Rightarrow> tele list \<Rightarrow> geo_constraint option \<Rightarrow> geo_optimizer \<Rightarrow> geo_optimizer \<times> geo_placement option" where
  "geo_optimize t w regions co s =
     (if regions = [] then (s, None)
      else
        let p = geo_placement_of t w (hd (sort_desc geo_score (geo_candidates regions co)))
        in (s\<lparr>go_placements := py_cap (go_max_history s) (go_placements s @ [p]), go_total := go_total s + 1\<rparr>, Some p))"

definition geo_recent :: "nat \<Rightarrow> geo_optimizer \<Rightarrow> geo_placement list" where
  "geo_recent limit s = take limit (rev (go_placements s))"

definition geo_metrics :: "geo_optimizer \<Rightarrow> nat \<times> rat" where
  "geo_metrics s =
     (let recent = py_last 100 (go_placements s)
      in (go_total s, py_round (if recent \<noteq> [] then sum_list (map ge_score recent) / of_nat (length recent) else 0) 4))"

subsection \<open>The constraints in their order\<close>

lemma narrow_Nil_iff [simp]: "narrow p rs = [] \<longleftrightarrow> rs = []"
  by (auto simp: narrow_def)

definition allowed :: "geo_constraint \<Rightarrow> tele \<Rightarrow> bool" where
  "allowed k r \<longleftrightarrow> text_of r ''region_id'' [] \<notin> set (gk_excluded k)"

definition preferred :: "geo_constraint \<Rightarrow> tele \<Rightarrow> bool" where
  "preferred k r \<longleftrightarrow> gk_preferred k = [] \<or> text_of r ''continent'' [] \<in> set (gk_preferred k)"

definition near_enough :: "geo_constraint \<Rightarrow> tele \<Rightarrow> bool" where
  "near_enough k r \<longleftrightarrow> \<not> gk_max_latency k > 0 \<or> num r ''avg_latency_ms'' 0 \<le> gk_max_latency k"

lemma candidates_obey:
  assumes ne: "\<exists>r \<in> set regions. allowed k r" and x: "x \<in> set (geo_candidates regions (Some k))"
  shows "x \<in> set regions \<and> allowed k x
    \<and> ((\<exists>r \<in> set regions. allowed k r \<and> preferred k r) \<longrightarrow> preferred k x)
    \<and> ((\<exists>r \<in> set regions. allowed k r \<and> preferred k r \<and> near_enough k r) \<longrightarrow> near_enough k x)"
proof -
  define c0 where "c0 = filter (allowed k) regions"
  define c1 where "c1 = (if gk_preferred k \<noteq> [] then narrow (\<lambda>r. text_of r ''continent'' [] \<in> set (gk_preferred k)) c0 else c0)"
  define c2 where "c2 = (if gk_max_latency k > 0 then narrow (\<lambda>r. num r ''avg_latency_ms'' 0 \<le> gk_max_latency k) c1 else c1)"
  define c3 where "c3 = (if gk_max_carbon k < 1 then narrow (\<lambda>r. num r ''carbon_intensity'' (1 / 2) \<le> gk_max_carbon k) c2 else c2)"
  have allowed: "allowed k = (\<lambda>r. text_of r ''region_id'' [] \<notin> set (gk_excluded k))" by (rule ext) (simp add: allowed_def)
  have c0: "(if gk_excluded k \<noteq> [] then filter (\<lambda>r. text_of r ''region_id'' [] \<notin> set (gk_excluded k)) regions else regions) = c0"
    by (simp add: c0_def allowed)
  have cands: "apply_constraints regions (Some k) = c3"
    unfolding apply_constraints_def option.case Let_def c0 by (simp add: c1_def c2_def c3_def)
  have "c0 \<noteq> []" using ne by (auto simp: c0_def filter_empty_conv)
  then have "c3 \<noteq> []" by (simp add: c1_def c2_def c3_def)
  then have x3: "x \<in> set c3" using x by (simp add: geo_candidates_def cands)
  have x2: "x \<in> set c2" using x3 narrow_sub by (fastforce simp: c3_def split: if_splits)
  have x1: "x \<in> set c1" using x2 narrow_sub by (fastforce simp: c2_def split: if_splits)
  have x0: "x \<in> set c0" using x1 narrow_sub by (fastforce simp: c1_def split: if_splits)
  have pref: "preferred k x" if "r \<in> set c0" "preferred k r" for r
    using that x1 narrow_holds [of x _ c0 r] by (auto simp: c1_def preferred_def split: if_splits)
  have in1: "r \<in> set c1" if "r \<in> set c0" "preferred k r" for r
    using that by (auto simp: c1_def preferred_def narrow_def)
  have near: "near_enough k x" if "r \<in> set c0" "preferred k r" "near_enough k r" for r
    using narrow_holds [of x _ c1 r] in1 [OF that(1,2)] that(3) x2 by (auto simp: c2_def near_enough_def split: if_splits)
  show ?thesis using x0 pref near by (auto simp: c0_def)
qed

text \<open>C0. The geographic optimizer answers whenever there is a region: the best score among the candidates. As long as
  one region is not excluded, no excluded region is chosen; a preferred continent is kept when an allowed region is
  there, and the latency limit when one of these meets it.\<close>

theorem geo_choice_obeys:
  assumes st: "geo_optimize t w regions (Some k) s = (s', Some p)" and ne: "\<exists>r \<in> set regions. allowed k r"
  shows "\<exists>r \<in> set regions. ge_region p = text_of r ''region_id'' [] \<and> allowed k r
    \<and> ge_score p = py_round (geo_score r) 4 \<and> (\<forall>q \<in> set (geo_candidates regions (Some k)). geo_score q \<le> geo_score r)
    \<and> ((\<exists>q \<in> set regions. allowed k q \<and> preferred k q) \<longrightarrow> preferred k r)
    \<and> ((\<exists>q \<in> set regions. allowed k q \<and> preferred k q \<and> near_enough k q) \<longrightarrow> near_enough k r)"
proof -
  let ?c = "geo_candidates regions (Some k)"
  let ?r = "hd (sort_desc geo_score ?c)"
  have "regions \<noteq> []" using ne by auto
  then have "?c \<noteq> []" by (simp add: geo_candidates_def)
  then have r: "?r \<in> set ?c" by (metis hd_in_set set_sort_desc sort_desc_Nil_iff)
  have "p = geo_placement_of t w ?r" using st \<open>regions \<noteq> []\<close> by (simp add: geo_optimize_def Let_def)
  then have "ge_region p = text_of ?r ''region_id'' []" "ge_score p = py_round (geo_score ?r) 4"
    by (simp_all add: geo_placement_of_def)
  moreover have "\<forall>q \<in> set ?c. geo_score q \<le> geo_score ?r" by (simp add: sort_desc_hd_max)
  ultimately show ?thesis using candidates_obey [OF ne r] by (intro bexI [of _ ?r]) simp_all
qed

definition demo_geo :: "tele list" where
  "demo_geo = [tele_of ''a'' [(''avg_latency_ms'', 10)], tele_of ''b'' [(''avg_latency_ms'', 90)]]"

definition demo_constraint :: geo_constraint where
  "demo_constraint = \<lparr>gk_id = [], gk_type = ''latency'', gk_max_latency = 0, gk_preferred = [], gk_excluded = [''a''],
     gk_residency = [], gk_max_carbon = 1\<rparr>"

lemma demo_geo_run:
  "map_option ge_region (snd (geo_optimize 0 ''w'' demo_geo (Some demo_constraint) (new_geo_optimizer 5))) = Some ''b''"
  by code_simp

theorem geo_choice_obeys_witness:
  "\<exists>s p. geo_optimize 0 ''w'' demo_geo (Some demo_constraint) (new_geo_optimizer 5) = (s, Some p) \<and> ge_region p = ''b''
    \<and> (\<exists>r \<in> set demo_geo. ge_region p = text_of r ''region_id'' [] \<and> allowed demo_constraint r)"
proof -
  obtain s p where p: "geo_optimize 0 ''w'' demo_geo (Some demo_constraint) (new_geo_optimizer 5) = (s, Some p)" "ge_region p = ''b''"
    using demo_geo_run by (cases "geo_optimize 0 ''w'' demo_geo (Some demo_constraint) (new_geo_optimizer 5)") auto
  have "\<exists>r \<in> set demo_geo. allowed demo_constraint r" by code_simp
  from geo_choice_obeys [OF p(1) this] p show ?thesis by blast
qed

text \<open>When every region is excluded, the exclusion is dropped: an excluded region is chosen.\<close>

lemma excluded_chosen:
  "map_option ge_region (snd (geo_optimize 0 ''w'' [tele_of ''a'' []] (Some demo_constraint) (new_geo_optimizer 5))) = Some ''a''"
  by code_simp

text \<open>\<open>data_residency\<close> is never read.\<close>

lemma residency_ignored:
  "geo_candidates regions (Some (k\<lparr>gk_residency := d\<rparr>)) = geo_candidates regions (Some k)"
proof -
  have "apply_constraints regions (Some (k\<lparr>gk_residency := d\<rparr>)) = apply_constraints regions (Some k)"
    unfolding apply_constraints_def option.case by simp
  then show ?thesis by (simp only: geo_candidates_def)
qed


section \<open>Carbon\<close>

datatype carbon_tier = CtGreen | CtMixed | CtBrown | CtCritical

datatype energy_source = EsSolar | EsWind | EsHydro | EsNuclear | EsNaturalGas | EsCoal | EsGridMix

record carbon_profile =
  cf_region :: string
  cf_continent :: string
  cf_carbon :: rat
  cf_renewable :: rat
  cf_cost :: rat
  cf_pue :: rat
  cf_source :: energy_source
  cf_tier :: carbon_tier
  cf_power :: rat
  cf_green_capacity :: rat
  cf_updated_at :: pyfloat

record carbon_placement =
  cl_workload :: string
  cl_region :: string
  cl_score :: rat
  cl_co2 :: rat
  cl_cost :: rat
  cl_renewable :: rat
  cl_factors :: "(string \<times> rat) list"
  cl_ts :: pyfloat

record carbon_optimizer =
  co_max_history :: nat
  co_profiles :: "(string, carbon_profile) dict"
  co_placements :: "carbon_placement list"
  co_total :: nat
  co_saved :: rat

definition new_carbon_optimizer :: "nat \<Rightarrow> carbon_optimizer" where
  "new_carbon_optimizer mh =
     \<lparr>co_max_history = mh, co_profiles = [], co_placements = [], co_total = 0, co_saved = 0\<rparr>"

definition carbon_tier_of :: "rat \<Rightarrow> carbon_tier" where
  "carbon_tier_of c = (if c < 100 then CtGreen else if c < 400 then CtMixed else if c < 700 then CtBrown else CtCritical)"

definition carbon_update :: "pyfloat \<Rightarrow> carbon_profile \<Rightarrow> carbon_optimizer \<Rightarrow> carbon_optimizer" where
  "carbon_update t p s =
     s\<lparr>co_profiles := dput (cf_region p) (p\<lparr>cf_updated_at := t, cf_tier := carbon_tier_of (cf_carbon p)\<rparr>) (co_profiles s)\<rparr>"

definition carbon_profile_of :: "tele \<Rightarrow> carbon_profile" where
  "carbon_profile_of r =
     \<lparr>cf_region = text_of r ''region_id'' [], cf_continent = text_of r ''continent'' [],
      cf_carbon = num r ''carbon_intensity'' (1 / 2) * 1000, cf_renewable = num r ''renewable_pct'' 0,
      cf_cost = num r ''power_cost_kwh'' (10 / 100), cf_pue = num r ''pue'' (15 / 10), cf_source = EsGridMix, cf_tier = CtMixed,
      cf_power = num r ''power_consumption_w'' 0,
      cf_green_capacity = max 0 (1 - num r ''workload_saturation'' (1 / 2)), cf_updated_at = 0\<rparr>"

definition carbon_update_from :: "clock \<Rightarrow> tele list \<Rightarrow> carbon_optimizer \<Rightarrow> carbon_optimizer" where
  "carbon_update_from clk rs s = fold (\<lambda>(i, r). carbon_update (clk i) (carbon_profile_of r)) (enumerate 0 rs) s"

definition carbon_factors :: "carbon_profile \<Rightarrow> (string \<times> rat) list" where
  "carbon_factors p =
     [(''carbon'', max 0 (1 - cf_carbon p / 1000)),
      (''renewable'', cf_renewable p),
      (''cost'', max 0 (1 - cf_cost p / (30 / 100))),
      (''pue'', max 0 (1 - (cf_pue p - 1) / 1)),
      (''capacity'', cf_green_capacity p)]"

definition carbon_score :: "carbon_profile \<Rightarrow> rat" where
  "carbon_score p = weighed [35 / 100, 25 / 100, 15 / 100, 10 / 100, 15 / 100] (carbon_factors p)"

definition co2_of :: "rat \<Rightarrow> carbon_profile \<Rightarrow> rat" where
  "co2_of kwh p = cf_carbon p * kwh * cf_pue p"

definition carbon_placement_of :: "pyfloat \<Rightarrow> string \<Rightarrow> rat \<Rightarrow> carbon_profile \<Rightarrow> carbon_placement" where
  "carbon_placement_of t w kwh p =
     \<lparr>cl_workload = w, cl_region = cf_region p, cl_score = py_round (carbon_score p) 4, cl_co2 = py_round (co2_of kwh p) 2,
      cl_cost = py_round (cf_cost p * kwh * cf_pue p) 4, cl_renewable = py_round (cf_renewable p) 3,
      cl_factors = rounded_factors (carbon_factors p), cl_ts = t\<rparr>"

text \<open>The argument \<open>regions\<close> is never read.\<close>

definition carbon_optimize ::
    "pyfloat \<Rightarrow> string \<Rightarrow> rat \<Rightarrow> tele list option \<Rightarrow> carbon_optimizer \<Rightarrow> carbon_optimizer \<times> carbon_placement option" where
  "carbon_optimize t w kwh regions s =
     (let ps = dvalues (co_profiles s) in
      if ps = [] then (s, None)
      else
        let best = hd (sort_desc carbon_score ps);
            worst_co2 = co2_of kwh (py_max (co2_of kwh) (hd ps) (tl ps));
            p = carbon_placement_of t w kwh best
        in (s\<lparr>co_placements := py_cap (co_max_history s) (co_placements s @ [p]), co_total := co_total s + 1,
              co_saved := co_saved s + max 0 (worst_co2 - co2_of kwh best)\<rparr>, Some p))"

definition greenest_regions :: "nat \<Rightarrow> carbon_optimizer \<Rightarrow> carbon_profile list" where
  "greenest_regions limit s = take limit (sort_key cf_carbon (dvalues (co_profiles s)))"

definition brownest_regions :: "nat \<Rightarrow> carbon_optimizer \<Rightarrow> carbon_profile list" where
  "brownest_regions limit s = take limit (sort_desc cf_carbon (dvalues (co_profiles s)))"

definition carbon_recent :: "nat \<Rightarrow> carbon_optimizer \<Rightarrow> carbon_placement list" where
  "carbon_recent limit s = take limit (rev (co_placements s))"

definition mean_of :: "('p \<Rightarrow> rat) \<Rightarrow> 'p list \<Rightarrow> rat" where
  "mean_of f ps = sum_list (map f ps) / of_nat (length ps)"

definition carbon_summary :: "carbon_optimizer \<Rightarrow> (nat \<times> rat \<times> rat \<times> rat \<times> (carbon_tier, nat) dict) option" where
  "carbon_summary s =
     (let ps = dvalues (co_profiles s) in
      if ps = [] then None
      else Some (length ps, py_round (mean_of cf_carbon ps) 1, py_round (mean_of cf_renewable ps) 3, py_round (mean_of cf_pue ps) 2,
                 fold tally (map cf_tier ps) []))"

definition carbon_metrics :: "carbon_optimizer \<Rightarrow> nat \<times> rat \<times> nat" where
  "carbon_metrics s = (co_total s, py_round (co_saved s) 2, length (co_profiles s))"

text \<open>One region is at least as good as another in every figure and has more renewable energy.\<close>

definition clearly_greener :: "carbon_profile \<Rightarrow> carbon_profile \<Rightarrow> bool" where
  "clearly_greener q p \<longleftrightarrow> cf_carbon q \<le> cf_carbon p \<and> cf_cost q \<le> cf_cost p \<and> cf_pue q \<le> cf_pue p
     \<and> cf_green_capacity p \<le> cf_green_capacity q \<and> cf_renewable p < cf_renewable q"

lemma weighted_less:
  "(a::rat) \<le> a' \<Longrightarrow> b < b' \<Longrightarrow> c \<le> c' \<Longrightarrow> d \<le> d' \<Longrightarrow> e \<le> e'
    \<Longrightarrow> 35 / 100 * a + 25 / 100 * b + 15 / 100 * c + 10 / 100 * d + 15 / 100 * e
      < 35 / 100 * a' + 25 / 100 * b' + 15 / 100 * c' + 10 / 100 * d' + 15 / 100 * e'"
  by linarith

lemma clearly_greener_score: "clearly_greener q p \<Longrightarrow> carbon_score p < carbon_score q"
proof -
  assume g: "clearly_greener q p"
  let ?f = "\<lambda>p. max 0 (1 - cf_carbon p / 1000)" and ?c = "\<lambda>p. max 0 (1 - cf_cost p / (30 / 100))"
    and ?u = "\<lambda>p. max 0 (1 - (cf_pue p - 1) / 1)"
  have "?f p \<le> ?f q" "?c p \<le> ?c q" "?u p \<le> ?u q" using g by (simp_all add: clearly_greener_def max_def)
  moreover have "cf_renewable p < cf_renewable q" "cf_green_capacity p \<le> cf_green_capacity q"
    using g by (simp_all add: clearly_greener_def)
  moreover have "carbon_score x = 35 / 100 * ?f x + 25 / 100 * cf_renewable x + 15 / 100 * ?c x + 10 / 100 * ?u x
      + 15 / 100 * cf_green_capacity x" for x
    unfolding carbon_score_def weighed_def carbon_factors_def by simp
  ultimately show ?thesis by (simp only: weighted_less)
qed

datatype carbon_op =
    CarbonReport clock "tele list"
  | CarbonPlace pyfloat string rat "tele list option"

fun carbon_step :: "carbon_op \<Rightarrow> carbon_optimizer \<Rightarrow> carbon_optimizer \<times> carbon_placement list" where
  "carbon_step (CarbonReport clk rs) s = (carbon_update_from clk rs s, [])"
| "carbon_step (CarbonPlace t w kwh regions) s =
     (let (s1, p) = carbon_optimize t w kwh regions s in (s1, case p of None \<Rightarrow> [] | Some x \<Rightarrow> [x]))"

definition carbon_ok :: "carbon_optimizer \<Rightarrow> bool" where
  "carbon_ok s \<longleftrightarrow> 0 < co_max_history s \<and> keyed cf_region (co_profiles s)
     \<and> list_all (\<lambda>p. cf_tier p = carbon_tier_of (cf_carbon p)) (dvalues (co_profiles s)) \<and> 0 \<le> co_saved s
     \<and> length (co_placements s) \<le> co_max_history s"

lemma carbon_ok_update: "carbon_ok s \<Longrightarrow> carbon_ok (carbon_update t p s)"
  unfolding carbon_ok_def carbon_update_def by (simp add: list_all_dput keyed_dput)

lemma carbon_update_frame [frame_simps]:
  "co_max_history (carbon_update t p s) = co_max_history s" "co_placements (carbon_update t p s) = co_placements s"
  "co_total (carbon_update t p s) = co_total s"
  by (simp_all add: carbon_update_def)

lemma carbon_reports:
  assumes "carbon_ok s"
  shows "carbon_ok (carbon_update_from clk rs s) \<and> co_max_history (carbon_update_from clk rs s) = co_max_history s
    \<and> co_placements (carbon_update_from clk rs s) = co_placements s \<and> co_total (carbon_update_from clk rs s) = co_total s"
  unfolding carbon_update_from_def
  by (rule fold_inv [where P = "\<lambda>x. carbon_ok x \<and> co_max_history x = co_max_history s \<and> co_placements x = co_placements s
      \<and> co_total x = co_total s"]) (use assms in \<open>auto simp: carbon_ok_update frame_simps split: prod.splits\<close>)

lemma carbon_step_keeps:
  assumes ok: "carbon_ok s" and st: "carbon_step p s = (s', es)"
  shows "carbon_ok s' \<and> co_max_history s' = co_max_history s \<and> co_placements s' = py_cap (co_max_history s) (co_placements s @ es)
    \<and> co_total s' = co_total s + length es"
proof (cases p)
  case (CarbonReport clk rs)
  with st carbon_reports [OF ok, of clk rs] ok show ?thesis by (auto simp: carbon_ok_def py_cap_small)
next
  case (CarbonPlace t w kwh regions)
  show ?thesis
  proof (cases "co_profiles s = []")
    case True
    with CarbonPlace st ok show ?thesis by (auto simp: carbon_optimize_def carbon_ok_def py_cap_small)
  next
    case False
    with CarbonPlace st ok show ?thesis
      by (auto simp: carbon_optimize_def carbon_ok_def Let_def length_py_cap)
  qed
qed

interpretation carbon_log: history carbon_ok co_placements co_max_history co_total carbon_step
proof
  show "carbon_ok s \<Longrightarrow> carbon_step p s = (s', es) \<Longrightarrow>
      carbon_ok s' \<and> co_max_history s' = co_max_history s \<and> co_placements s' = py_cap (co_max_history s) (co_placements s @ es)
        \<and> co_total s' = co_total s + length es" for p s s' es
    by (rule carbon_step_keeps)
qed (simp add: carbon_ok_def)

text \<open>C0. Whatever is reported and placed, the placements kept are the last that were answered, the counter counts them
  all, the CO2 saved is never negative, every tier is the one of its intensity, and a region that another
  clearly beats is never chosen.\<close>

theorem carbon_books:
  assumes "0 < mh" and run: "run_outputs carbon_step ops (new_carbon_optimizer mh) = (s, es)"
  shows "co_placements s = py_cap mh es \<and> co_total s = length es \<and> 0 \<le> co_saved s
    \<and> list_all (\<lambda>p. cf_tier p = carbon_tier_of (cf_carbon p)) (dvalues (co_profiles s))
    \<and> (\<forall>t w kwh regions s' p. carbon_optimize t w kwh regions s = (s', Some p)
        \<longrightarrow> (\<exists>r. dget (co_profiles s) (cl_region p) = Some r \<and> (\<forall>q \<in> set (dvalues (co_profiles s)). \<not> clearly_greener q r)))"
proof -
  have new: "carbon_ok (new_carbon_optimizer mh)" "co_placements (new_carbon_optimizer mh) = []"
      "co_max_history (new_carbon_optimizer mh) = mh" "co_total (new_carbon_optimizer mh) = 0"
    using assms(1) by (simp_all add: carbon_ok_def new_carbon_optimizer_def)
  from carbon_log.history_complete [OF new(1) _ run] new
  have k: "carbon_ok s" "co_placements s = py_cap mh es" "co_total s = length es" by simp_all
  have "\<exists>r. dget (co_profiles s) (cl_region p) = Some r \<and> (\<forall>q \<in> set (dvalues (co_profiles s)). \<not> clearly_greener q r)"
    if "carbon_optimize t w kwh regions s = (s', Some p)" for t w kwh regions s' p
  proof -
    let ?ps = "dvalues (co_profiles s)"
    let ?r = "hd (sort_desc carbon_score ?ps)"
    have ne: "?ps \<noteq> []" and "p = carbon_placement_of t w kwh ?r"
      using that by (auto simp: carbon_optimize_def Let_def split: if_splits)
    then have reg: "cl_region p = cf_region ?r" by (simp add: carbon_placement_of_def)
    have "?r \<in> set ?ps" using ne by (metis hd_in_set set_sort_desc sort_desc_Nil_iff)
    then have "dget (co_profiles s) (cl_region p) = Some ?r"
      using k(1) keyed_member [of cf_region "co_profiles s" ?r] unfolding carbon_ok_def reg by blast
    moreover have "\<not> clearly_greener q ?r" if "q \<in> set ?ps" for q
      using sort_desc_hd_max [OF that, of carbon_score] clearly_greener_score [of q ?r] by fastforce
    ultimately show ?thesis by blast
  qed
  with k show ?thesis by (auto simp: carbon_ok_def)
qed

definition demo_carbon :: "carbon_op list" where
  "demo_carbon = [CarbonReport (\<lambda>_. 0) [tele_of ''a'' [(''carbon_intensity'', 2 / 10)], tele_of ''b'' [(''carbon_intensity'', 8 / 10)]],
     CarbonPlace 1 ''w'' 2 None]"

lemma demo_carbon_run:
  "let (s, es) = run_outputs carbon_step demo_carbon (new_carbon_optimizer 3) in map cl_region es = [''a''] \<and> co_saved s = 1800"
  by code_simp

theorem carbon_books_witness:
  "\<exists>s es. run_outputs carbon_step demo_carbon (new_carbon_optimizer 3) = (s, es) \<and> map cl_region es = [''a'']
    \<and> co_placements s = py_cap 3 es \<and> co_total s = 1"
proof -
  obtain s es where "run_outputs carbon_step demo_carbon (new_carbon_optimizer 3) = (s, es)" "map cl_region es = [''a'']"
    using demo_carbon_run by (cases "run_outputs carbon_step demo_carbon (new_carbon_optimizer 3)") auto
  note r = this
  have pos: "(0::nat) < 3" by simp
  note w = carbon_books [OF pos r(1)]
  have "length es = 1" using r(2) by (metis length_map length_Cons list.size(3) One_nat_def)
  then have total: "co_total s = 1" using w by simp
  show ?thesis by (rule exI, rule exI, intro conjI, rule r(1), rule r(2), rule w [THEN conjunct1], rule total)
qed

text \<open>
  Least carbon is not what decides: the region chosen emits four times what the other would, and the total of
  CO2 saved compares it with the worst region.
\<close>

lemma not_least_carbon:
  "let (s, es) = run_outputs carbon_step
      [CarbonReport (\<lambda>_. 0) [tele_of ''clean'' [(''carbon_intensity'', 5 / 100), (''power_cost_kwh'', 30 / 100)],
                           tele_of ''cheap'' [(''carbon_intensity'', 20 / 100), (''renewable_pct'', 1 / 2)]],
       CarbonPlace 1 ''w'' 1 None] (new_carbon_optimizer 3) in map (\<lambda>p. (cl_region p, cl_co2 p)) es = [(''cheap'', 300)]
    \<and> map cf_region (greenest_regions 1 s) = [''clean''] \<and> co_saved s = 0"
  by code_simp


section \<open>Recommendations from profiles\<close>

text \<open>
  The cooling manager and the grid manager are the same program around their profiles: an analysis gives at
  most one recommendation for each profile, and the last of all recommendations are kept.
\<close>

record ('p, 'r) advisor =
  av_max_history :: nat
  av_profiles :: "(string, 'p) dict"
  av_advice :: "'r list"

definition new_advisor :: "nat \<Rightarrow> ('p, 'r) advisor" where
  "new_advisor mh = \<lparr>av_max_history = mh, av_profiles = [], av_advice = []\<rparr>"

definition advisor_update :: "('p \<Rightarrow> string) \<Rightarrow> (pyfloat \<Rightarrow> 'p \<Rightarrow> 'p) \<Rightarrow> pyfloat \<Rightarrow> 'p \<Rightarrow> ('p, 'r) advisor \<Rightarrow> ('p, 'r) advisor" where
  "advisor_update key settle t p s = s\<lparr>av_profiles := dput (key p) (settle t p) (av_profiles s)\<rparr>"

definition advisor_update_from ::
    "('p \<Rightarrow> string) \<Rightarrow> (pyfloat \<Rightarrow> 'p \<Rightarrow> 'p) \<Rightarrow> (tele \<Rightarrow> 'p) \<Rightarrow> clock \<Rightarrow> tele list \<Rightarrow> ('p, 'r) advisor \<Rightarrow> ('p, 'r) advisor" where
  "advisor_update_from key settle profile_of clk rs s =
     fold (\<lambda>(i, r). advisor_update key settle (clk i) (profile_of r)) (enumerate 0 rs) s"

definition advise :: "('p \<Rightarrow> 'r option) \<Rightarrow> ('p, 'r) advisor \<Rightarrow> ('p, 'r) advisor \<times> 'r list" where
  "advise propose s =
     (let rs = List.map_filter propose (dvalues (av_profiles s))
      in (s\<lparr>av_advice := py_cap (av_max_history s) (av_advice s @ rs)\<rparr>, rs))"

datatype 'p advisor_op = AdvUpdate pyfloat 'p | AdvReport clock "tele list" | AdvAnalyze pyfloat

fun advisor_step ::
    "('p \<Rightarrow> string) \<Rightarrow> (pyfloat \<Rightarrow> 'p \<Rightarrow> 'p) \<Rightarrow> (tele \<Rightarrow> 'p) \<Rightarrow> (pyfloat \<Rightarrow> 'p \<Rightarrow> 'r option) \<Rightarrow> 'p advisor_op
      \<Rightarrow> ('p, 'r) advisor \<Rightarrow> ('p, 'r) advisor \<times> 'r list" where
  "advisor_step key settle profile_of propose (AdvUpdate t p) s = (advisor_update key settle t p s, [])"
| "advisor_step key settle profile_of propose (AdvReport clk rs) s = (advisor_update_from key settle profile_of clk rs s, [])"
| "advisor_step key settle profile_of propose (AdvAnalyze t) s = advise (propose t) s"

text \<open>Every profile is under its region and as the update leaves it.\<close>

definition all_settled :: "('p \<Rightarrow> string) \<Rightarrow> ('p \<Rightarrow> bool) \<Rightarrow> nat \<Rightarrow> ('p, 'r) advisor \<Rightarrow> bool" where
  "all_settled key good mh s \<longleftrightarrow> av_max_history s = mh \<and> keyed key (av_profiles s) \<and> list_all good (dvalues (av_profiles s))"

locale profiled =
  fixes key :: "'p \<Rightarrow> string"
    and settle :: "pyfloat \<Rightarrow> 'p \<Rightarrow> 'p"
    and profile_of :: "tele \<Rightarrow> 'p"
    and propose :: "pyfloat \<Rightarrow> 'p \<Rightarrow> 'r option"
    and good :: "'p \<Rightarrow> bool"
    and about :: "'r \<Rightarrow> string"
  assumes settle_key: "key (settle t p) = key p"
    and settle_good: "good (settle t p)"
    and propose_about: "propose t p = Some r \<Longrightarrow> about r = key p"
begin

lemma settled_update: "all_settled key good mh s \<Longrightarrow> all_settled key good mh (advisor_update key settle t p s)"
  unfolding all_settled_def advisor_update_def by (simp add: list_all_dput keyed_dput settle_key settle_good)

lemma update_advice: "av_advice (advisor_update key settle t p s) = av_advice s"
  by (simp add: advisor_update_def)

lemma settled_update_from:
  assumes "all_settled key good mh s"
  shows "all_settled key good mh (advisor_update_from key settle profile_of clk rs s)
    \<and> av_advice (advisor_update_from key settle profile_of clk rs s) = av_advice s"
  unfolding advisor_update_from_def
  by (rule fold_inv [where P = "\<lambda>x. all_settled key good mh x \<and> av_advice x = av_advice s"])
    (use assms in \<open>auto simp: settled_update update_advice split: prod.splits\<close>)

text \<open>Every profile is settled and under its region, and the advice kept is the end of all that was given.\<close>

lemma advisor_run:
  assumes "0 < mh"
  shows "all_settled key good mh s \<Longrightarrow> length (av_advice s) \<le> mh
    \<Longrightarrow> run_outputs (advisor_step key settle profile_of propose) ops s = (s', es)
    \<Longrightarrow> all_settled key good mh s' \<and> av_advice s' = py_cap mh (av_advice s @ es)"
proof (induction ops arbitrary: s es)
  case Nil
  then show ?case by (simp add: py_cap_small)
next
  case (Cons p ops)
  obtain s1 es1 where one: "advisor_step key settle profile_of propose p s = (s1, es1)" by fastforce
  obtain es2 where rest: "run_outputs (advisor_step key settle profile_of propose) ops s1 = (s', es2)" and es: "es = es1 @ es2"
    using Cons.prems(3) one by (auto split: prod.splits)
  have "all_settled key good mh s1 \<and> av_advice s1 = py_cap mh (av_advice s @ es1)"
  proof (cases p)
    case (AdvUpdate t q)
    with one Cons.prems show ?thesis by (auto simp: settled_update update_advice py_cap_small)
  next
    case (AdvReport clk rs)
    with one Cons.prems settled_update_from [of mh s clk rs] show ?thesis by (auto simp: py_cap_small)
  next
    case (AdvAnalyze t)
    with one Cons.prems show ?thesis by (auto simp: advise_def Let_def all_settled_def)
  qed
  moreover from this have "length (av_advice s1) \<le> mh" using length_py_cap [OF assms] by simp
  ultimately show ?case using Cons.IH [OF _ _ rest] by (simp add: es py_cap_nested [OF assms])
qed

lemma advisor_run_new:
  assumes "0 < mh" "run_outputs (advisor_step key settle profile_of propose) ops (new_advisor mh) = (s, es)"
  shows "all_settled key good mh s \<and> av_advice s = py_cap mh es"
proof -
  have new: "all_settled key good mh (new_advisor mh)" "length (av_advice (new_advisor mh)) \<le> mh" "av_advice (new_advisor mh) = []"
    by (simp_all add: all_settled_def new_advisor_def)
  show ?thesis using advisor_run [OF assms(1) new(1,2) assms(2)] unfolding new(3) by simp
qed

text \<open>An analysis speaks of each region at most once.\<close>

lemma advice_of_distinct: "distinct (map key ps) \<Longrightarrow> distinct (map about (List.map_filter (propose t) ps))"
proof (induction ps)
  case (Cons p ps)
  have "about r \<in> key ` set qs" if "r \<in> set (List.map_filter (propose t) qs)" for r qs
    using that by (induction qs) (auto simp: map_filter_simps propose_about split: option.splits)
  with Cons show ?case by (auto simp: map_filter_simps propose_about split: option.splits)
qed (simp add: map_filter_simps)

lemma advice_distinct:
  assumes "all_settled key good mh s"
  shows "distinct (map about (snd (advise (propose t) s)))"
proof -
  have keys: "map key (dvalues (av_profiles s)) = dkeys (av_profiles s)" using assms by (simp add: all_settled_def keyed_def)
  have "distinct (map key (dvalues (av_profiles s)))"
    unfolding keys using assms by (simp add: all_settled_def keyed_def dwf_def)
  then show ?thesis by (simp add: advise_def Let_def advice_of_distinct)
qed

end

section \<open>Cooling\<close>

datatype cooling_mode = CmFree | CmHybrid | CmMechanical | CmLiquid | CmImmersion

datatype cooling_zone = CzOptimal | CzWarm | CzHot | CzCritical

record cooling_profile =
  cg_region :: string
  cg_mode :: cooling_mode
  cg_pue :: rat
  cg_ambient :: rat
  cg_inlet :: rat
  cg_exhaust :: rat
  cg_capacity :: rat
  cg_load :: rat
  cg_status :: cooling_zone
  cg_free_available :: bool
  cg_gpu_avg :: rat
  cg_gpu_max :: rat
  cg_updated_at :: pyfloat

record cooling_recommendation =
  cr_region :: string
  cr_action :: string
  cr_improvement :: rat
  cr_priority :: string
  cr_ts :: pyfloat

definition load_ratio :: "rat \<Rightarrow> rat \<Rightarrow> rat" where
  "load_ratio load capacity = (if capacity > 0 then load / capacity else 0)"

definition zone_status_of :: "cooling_profile \<Rightarrow> cooling_zone" where
  "zone_status_of p =
     (let q = load_ratio (cg_load p) (cg_capacity p) in
      if q > 9 / 10 \<or> cg_gpu_max p > 90 then CzCritical
      else if q > 7 / 10 \<or> cg_gpu_max p > 80 then CzHot
      else if q > 5 / 10 \<or> cg_gpu_avg p > 70 then CzWarm else CzOptimal)"

definition cooling_settle :: "pyfloat \<Rightarrow> cooling_profile \<Rightarrow> cooling_profile" where
  "cooling_settle t p =
     p\<lparr>cg_updated_at := t, cg_status := zone_status_of p,
       cg_free_available := (if cg_ambient p < 18 then True else cg_free_available p)\<rparr>"

definition cooling_profile_of :: "tele \<Rightarrow> cooling_profile" where
  "cooling_profile_of r =
     (let thermal = num r ''thermal_pressure'' (3 / 10) in
      \<lparr>cg_region = text_of r ''region_id'' [],
       cg_mode = (if thermal > 8 / 10 then CmLiquid else if thermal > 5 / 10 then CmMechanical else CmHybrid),
       cg_pue = num r ''pue'' (15 / 10), cg_ambient = num r ''ambient_temp_c'' 25, cg_inlet = num r ''inlet_temp_c'' 22,
       cg_exhaust = num r ''exhaust_temp_c'' 35, cg_capacity = num r ''cooling_capacity_kw'' 500,
       cg_load = num r ''cooling_load_kw'' 250, cg_status = CzOptimal, cg_free_available = False,
       cg_gpu_avg = num r ''gpu_temp_c'' 65, cg_gpu_max = num r ''gpu_max_temp_c'' 80, cg_updated_at = 0\<rparr>)"

definition cooling_advice :: "pyfloat \<Rightarrow> cooling_profile \<Rightarrow> cooling_recommendation option" where
  "cooling_advice t p =
     (if cg_status p = CzCritical
      then Some \<lparr>cr_region = cg_region p, cr_action = ''emergency_throttle'', cr_improvement = 0, cr_priority = ''critical'', cr_ts = t\<rparr>
      else if cg_free_available p \<and> cg_mode p \<noteq> CmFree
      then Some \<lparr>cr_region = cg_region p, cr_action = ''switch_to_free_cooling'', cr_improvement = py_round (cg_pue p - 11 / 10) 2,
                 cr_priority = ''normal'', cr_ts = t\<rparr>
      else if cg_pue p > 18 / 10
      then Some \<lparr>cr_region = cg_region p, cr_action = ''optimize_cooling'', cr_improvement = py_round (cg_pue p - 15 / 10) 2,
                 cr_priority = ''normal'', cr_ts = t\<rparr>
      else None)"

type_synonym cooling_manager = "(cooling_profile, cooling_recommendation) advisor"

definition new_cooling :: "nat \<Rightarrow> cooling_manager" where
  "new_cooling mh = new_advisor mh"

definition cooling_update :: "pyfloat \<Rightarrow> cooling_profile \<Rightarrow> cooling_manager \<Rightarrow> cooling_manager" where
  "cooling_update = advisor_update cg_region cooling_settle"

definition cooling_update_from :: "clock \<Rightarrow> tele list \<Rightarrow> cooling_manager \<Rightarrow> cooling_manager" where
  "cooling_update_from = advisor_update_from cg_region cooling_settle cooling_profile_of"

definition cooling_analyze :: "pyfloat \<Rightarrow> cooling_manager \<Rightarrow> cooling_manager \<times> cooling_recommendation list" where
  "cooling_analyze t s = advise (cooling_advice t) s"

definition coolest_regions :: "nat \<Rightarrow> cooling_manager \<Rightarrow> cooling_profile list" where
  "coolest_regions limit s = take limit (sort_key cg_gpu_avg (dvalues (av_profiles s)))"

definition hottest_regions :: "nat \<Rightarrow> cooling_manager \<Rightarrow> cooling_profile list" where
  "hottest_regions limit s = take limit (sort_desc cg_gpu_avg (dvalues (av_profiles s)))"

definition cooling_summary :: "cooling_manager \<Rightarrow> (nat \<times> rat \<times> rat \<times> (cooling_zone, nat) dict) option" where
  "cooling_summary s =
     (let ps = dvalues (av_profiles s) in
      if ps = [] then None
      else Some (length ps, py_round (mean_of cg_pue ps) 2, py_round (mean_of cg_gpu_avg ps) 1, fold tally (map cg_status ps) []))"

definition advisor_metrics :: "('p, 'r) advisor \<Rightarrow> nat \<times> nat" where
  "advisor_metrics s = (length (av_profiles s), length (av_advice s))"

definition cooling_step ::
    "cooling_profile advisor_op \<Rightarrow> cooling_manager \<Rightarrow> cooling_manager \<times> cooling_recommendation list" where
  "cooling_step = advisor_step cg_region cooling_settle cooling_profile_of cooling_advice"

definition cooling_good :: "cooling_profile \<Rightarrow> bool" where
  "cooling_good p \<longleftrightarrow> cg_status p = zone_status_of p \<and> (cg_free_available p \<or> 18 \<le> cg_ambient p)"

interpretation cooling: profiled cg_region cooling_settle cooling_profile_of cooling_advice cooling_good cr_region
proof
  show "cooling_good (cooling_settle t p)" for t p
    by (auto simp: cooling_good_def cooling_settle_def zone_status_of_def Let_def)
  show "cooling_advice t p = Some r \<Longrightarrow> cr_region r = cg_region p" for t p r
    by (auto simp: cooling_advice_def split: if_splits)
qed (simp add: cooling_settle_def)

definition overloaded_zone :: "cooling_profile \<Rightarrow> bool" where
  "overloaded_zone p \<longleftrightarrow> load_ratio (cg_load p) (cg_capacity p) > 9 / 10 \<or> cg_gpu_max p > 90"

lemma zone_critical: "zone_status_of p = CzCritical \<longleftrightarrow> overloaded_zone p"
  by (simp add: zone_status_of_def overloaded_zone_def Let_def)

text \<open>C0. After any updates, reports and analyses, an analysis speaks of each region at most once and asks to throttle
  exactly the regions whose cooling is above nine tenths of its capacity or that have a GPU above 90 degrees; the
  recommendations kept are the last that were given.\<close>

theorem cooling_emergencies_exact:
  assumes "0 < mh" and run: "run_outputs cooling_step ops (new_cooling mh) = (s, es)" and an: "cooling_analyze t s = (s', rs)"
  shows "av_advice s' = py_cap mh (es @ rs) \<and> distinct (map cr_region rs)
    \<and> (\<forall>rid. (\<exists>x \<in> set rs. cr_region x = rid \<and> cr_action x = ''emergency_throttle'')
          \<longleftrightarrow> (\<exists>p. dget (av_profiles s) rid = Some p \<and> overloaded_zone p))"
proof -
  have k: "all_settled cg_region cooling_good mh s" "av_advice s = py_cap mh es"
    using cooling.advisor_run_new [OF assms(1)] run by (simp_all add: cooling_step_def new_cooling_def)
  let ?ps = "dvalues (av_profiles s)"
  have rs: "rs = snd (advise (cooling_advice t) s)" and s': "av_advice s' = py_cap mh (es @ rs)"
    using an k by (auto simp: cooling_analyze_def advise_def Let_def all_settled_def py_cap_nested [OF assms(1)])
  have mem: "p \<in> set ?ps \<longleftrightarrow> dget (av_profiles s) (cg_region p) = Some p" for p
    using k(1) keyed_member [of cg_region "av_profiles s" p] unfolding all_settled_def by blast
  have crit: "cg_status p = CzCritical \<longleftrightarrow> overloaded_zone p" if "p \<in> set ?ps" for p
  proof -
    have "cooling_good p" using k(1) that unfolding all_settled_def list_all_iff by blast
    then show ?thesis by (simp add: cooling_good_def zone_critical)
  qed
  have set_rs: "x \<in> set rs \<longleftrightarrow> (\<exists>p \<in> set ?ps. cooling_advice t p = Some x)" for x
    by (simp only: rs advise_def Let_def snd_conv set_map_filter)
  have adv: "(\<exists>x. cooling_advice t p = Some x \<and> cr_region x = rid \<and> cr_action x = ''emergency_throttle'')
      \<longleftrightarrow> cg_status p = CzCritical \<and> cg_region p = rid" for p rid
    by (auto simp: cooling_advice_def)
  have one: "(\<exists>x \<in> set rs. cr_region x = rid \<and> cr_action x = ''emergency_throttle'')
      \<longleftrightarrow> (\<exists>p \<in> set ?ps. cg_status p = CzCritical \<and> cg_region p = rid)" for rid
    using set_rs adv by blast
  have two: "(\<exists>p \<in> set ?ps. cg_status p = CzCritical \<and> cg_region p = rid)
      \<longleftrightarrow> (\<exists>p. dget (av_profiles s) rid = Some p \<and> overloaded_zone p)" for rid
    using mem crit keyed_dget [of cg_region "av_profiles s" rid] k(1) unfolding all_settled_def by metis
  show ?thesis using one two cooling.advice_distinct [OF k(1), of t] s' by (simp add: rs)
qed

definition demo_cooling :: "cooling_profile advisor_op list" where
  "demo_cooling = [AdvReport (\<lambda>_. 0) [tele_of ''a'' [(''ambient_temp_c'', 10)], tele_of ''b'' [(''gpu_max_temp_c'', 95)]], AdvAnalyze 1]"

lemma demo_cooling_run:
  "let (s, es) = run_outputs cooling_step demo_cooling (new_cooling 2) in
     map cr_action (snd (cooling_analyze 2 s)) = [''switch_to_free_cooling'', ''emergency_throttle'']"
  by code_simp

theorem cooling_emergencies_exact_witness:
  "\<exists>s es. run_outputs cooling_step demo_cooling (new_cooling 2) = (s, es) \<and> distinct (map cr_region (snd (cooling_analyze 2 s)))
     \<and> map cr_action (snd (cooling_analyze 2 s)) = [''switch_to_free_cooling'', ''emergency_throttle'']"
proof -
  obtain s es where r: "run_outputs cooling_step demo_cooling (new_cooling 2) = (s, es)"
      "map cr_action (snd (cooling_analyze 2 s)) = [''switch_to_free_cooling'', ''emergency_throttle'']"
    using demo_cooling_run by (cases "run_outputs cooling_step demo_cooling (new_cooling 2)") auto
  have "(0::nat) < 2" by simp
  note w = cooling_emergencies_exact [OF this r(1) prod.collapse [symmetric], of 2]
  show ?thesis by (rule exI, rule exI, intro conjI, rule r(1), rule w [THEN conjunct2, THEN conjunct1], rule r(2))
qed

text \<open>No report ever sets the free cooling mode: a cold region that reports is told to switch for ever.\<close>

lemma switch_for_ever:
  assumes "num r ''ambient_temp_c'' 25 < 18" "\<not> overloaded_zone (cooling_profile_of r)"
  shows "map_option cr_action (cooling_advice t (cooling_settle t' (cooling_profile_of r))) = Some ''switch_to_free_cooling''"
proof -
  have "cg_ambient (cooling_profile_of r) < 18" "cg_mode (cooling_profile_of r) \<noteq> CmFree"
    using assms(1) by (simp_all add: cooling_profile_of_def Let_def)
  then show ?thesis using assms(2) by (simp add: cooling_advice_def cooling_settle_def zone_critical)
qed

section \<open>Power grids\<close>

datatype grid_status = GsNormal | GsPeak | GsOffPeak | GsStressed | GsEmergency

record energy_grid =
  eg_region :: string
  eg_continent :: string
  eg_status :: grid_status
  eg_renewable_mw :: rat
  eg_capacity :: rat
  eg_load :: rat
  eg_renewable :: rat
  eg_price :: rat
  eg_carbon :: rat
  eg_solar :: bool
  eg_wind :: bool
  eg_hydro :: bool
  eg_reliability :: rat
  eg_updated_at :: pyfloat

record grid_recommendation =
  gr_region :: string
  gr_action :: string
  gr_priority :: string
  gr_savings :: rat
  gr_ts :: pyfloat

definition grid_status_of :: "energy_grid \<Rightarrow> grid_status" where
  "grid_status_of g =
     (let q = load_ratio (eg_load g) (eg_capacity g) in
      if q > 9 / 10 then GsEmergency else if q > 8 / 10 then GsStressed else if q > 6 / 10 then GsPeak
      else if q < 3 / 10 then GsOffPeak else GsNormal)"

definition grid_settle :: "pyfloat \<Rightarrow> energy_grid \<Rightarrow> energy_grid" where
  "grid_settle t g =
     g\<lparr>eg_updated_at := t, eg_status := grid_status_of g,
       eg_renewable := (if eg_capacity g > 0 then eg_renewable_mw g / eg_capacity g else eg_renewable g)\<rparr>"

text \<open>The three flags of a report are numbers here, true when they are not 0.\<close>

definition energy_grid_of :: "tele \<Rightarrow> energy_grid" where
  "energy_grid_of r =
     \<lparr>eg_region = text_of r ''region_id'' [], eg_continent = text_of r ''continent'' [], eg_status = GsNormal,
      eg_renewable_mw = num r ''renewable_mw'' 50, eg_capacity = num r ''total_power_mw'' 100,
      eg_load = num r ''current_load_mw'' 50, eg_renewable = num r ''renewable_pct'' 0,
      eg_price = num r ''power_cost_kwh'' (10 / 100), eg_carbon = num r ''carbon_intensity'' (1 / 2) * 1000,
      eg_solar = (num r ''solar'' 0 \<noteq> 0), eg_wind = (num r ''wind'' 0 \<noteq> 0), eg_hydro = (num r ''hydro'' 0 \<noteq> 0),
      eg_reliability = num r ''grid_reliability'' (99 / 100), eg_updated_at = 0\<rparr>"

definition grid_advice :: "pyfloat \<Rightarrow> energy_grid \<Rightarrow> grid_recommendation option" where
  "grid_advice t g =
     (if eg_status g = GsEmergency
      then Some \<lparr>gr_region = eg_region g, gr_action = ''reduce_load'', gr_priority = ''critical'', gr_savings = 20, gr_ts = t\<rparr>
      else if eg_status g = GsOffPeak \<and> eg_renewable g > 1 / 2
      then Some \<lparr>gr_region = eg_region g, gr_action = ''increase_load'', gr_priority = ''low'', gr_savings = 15, gr_ts = t\<rparr>
      else if eg_price g > 20 / 100
      then Some \<lparr>gr_region = eg_region g, gr_action = ''shift_workloads'', gr_priority = ''normal'', gr_savings = 10, gr_ts = t\<rparr>
      else None)"

type_synonym grid_manager = "(energy_grid, grid_recommendation) advisor"

definition new_grids :: "nat \<Rightarrow> grid_manager" where
  "new_grids mh = new_advisor mh"

definition grid_update :: "pyfloat \<Rightarrow> energy_grid \<Rightarrow> grid_manager \<Rightarrow> grid_manager" where
  "grid_update = advisor_update eg_region grid_settle"

definition grid_update_from :: "clock \<Rightarrow> tele list \<Rightarrow> grid_manager \<Rightarrow> grid_manager" where
  "grid_update_from = advisor_update_from eg_region grid_settle energy_grid_of"

definition grid_analyze :: "pyfloat \<Rightarrow> grid_manager \<Rightarrow> grid_manager \<times> grid_recommendation list" where
  "grid_analyze t s = advise (grid_advice t) s"

text \<open>Sorting by the pair in descending order: most renewable first, then the lowest price.\<close>

definition batch_key :: "energy_grid \<Rightarrow> rat \<times> rat" where
  "batch_key g = (- eg_renewable g, eg_price g)"

definition batch_eligible :: "energy_grid \<Rightarrow> bool" where
  "batch_eligible g \<longleftrightarrow> eg_status g = GsNormal \<or> eg_status g = GsOffPeak"

definition best_regions_for_batch :: "nat \<Rightarrow> grid_manager \<Rightarrow> energy_grid list" where
  "best_regions_for_batch limit s = take limit (sort_key batch_key (filter batch_eligible (dvalues (av_profiles s))))"

definition grid_summary :: "grid_manager \<Rightarrow> (nat \<times> rat \<times> rat \<times> (grid_status, nat) dict) option" where
  "grid_summary s =
     (let ps = dvalues (av_profiles s) in
      if ps = [] then None
      else Some (length ps, py_round (mean_of eg_renewable ps) 3, py_round (mean_of eg_price ps) 4, fold tally (map eg_status ps) []))"

definition grid_step :: "energy_grid advisor_op \<Rightarrow> grid_manager \<Rightarrow> grid_manager \<times> grid_recommendation list" where
  "grid_step = advisor_step eg_region grid_settle energy_grid_of grid_advice"

definition grid_good :: "energy_grid \<Rightarrow> bool" where
  "grid_good g \<longleftrightarrow> eg_status g = grid_status_of g \<and> (eg_capacity g \<le> 0 \<or> eg_renewable g = eg_renewable_mw g / eg_capacity g)"

interpretation grids: profiled eg_region grid_settle energy_grid_of grid_advice grid_good gr_region
proof
  show "grid_good (grid_settle t g)" for t g
    by (simp add: grid_good_def grid_settle_def grid_status_of_def)
  show "grid_advice t g = Some r \<Longrightarrow> gr_region r = eg_region g" for t g r
    by (auto simp: grid_advice_def split: if_splits)
qed (simp add: grid_settle_def)

lemma eligible_by_load:
  "grid_good g \<Longrightarrow> batch_eligible g \<longleftrightarrow> load_ratio (eg_load g) (eg_capacity g) \<le> 6 / 10"
  by (simp add: grid_good_def batch_eligible_def grid_status_of_def Let_def)

lemma take_sort_key_best:
  assumes "x \<in> set (take n (sort_key f xs))" "y \<in> set xs" "y \<notin> set (take n (sort_key f xs))"
  shows "f x \<le> f y"
proof -
  have "y \<in> set (drop n (sort_key f xs))" using assms(2,3) by (metis Un_iff append_take_drop_id set_append set_sort)
  moreover have "sorted_wrt (\<lambda>a b. f a \<le> f b) (take n (sort_key f xs) @ drop n (sort_key f xs))"
    using sorted_sort_key [of f xs] by (simp add: sorted_wrt_map)
  ultimately show ?thesis using assms(1) unfolding sorted_wrt_append by blast
qed

text \<open>C0. After any updates, reports and analyses, the regions named for batch work are as many as asked for or all that
  carry at most six tenths of their capacity, each of them does, the one with more renewable power (at
  equal share the cheaper one) comes first, and none that is left out would come before one that is named.\<close>

theorem batch_regions_best:
  assumes "0 < mh" and run: "run_outputs grid_step ops (new_grids mh) = (s, es)"
    and best: "best_regions_for_batch limit s = bs"
  shows "av_advice s = py_cap mh es
    \<and> (\<forall>g \<in> set bs. dget (av_profiles s) (eg_region g) = Some g \<and> load_ratio (eg_load g) (eg_capacity g) \<le> 6 / 10)
    \<and> sorted (map batch_key bs)
    \<and> (\<forall>g \<in> set (dvalues (av_profiles s)). load_ratio (eg_load g) (eg_capacity g) \<le> 6 / 10 \<longrightarrow> g \<notin> set bs
          \<longrightarrow> length bs = limit \<and> (\<forall>b \<in> set bs. batch_key b \<le> batch_key g))"
proof -
  have k: "all_settled eg_region grid_good mh s" "av_advice s = py_cap mh es"
    using grids.advisor_run_new [OF assms(1)] run by (simp_all add: grid_step_def new_grids_def)
  let ?ps = "dvalues (av_profiles s)"
  let ?el = "filter batch_eligible ?ps"
  have bs: "bs = take limit (sort_key batch_key ?el)" using best by (simp add: best_regions_for_batch_def)
  have el: "g \<in> set ?el \<longleftrightarrow> g \<in> set ?ps \<and> load_ratio (eg_load g) (eg_capacity g) \<le> 6 / 10" for g
  proof -
    have "grid_good g" if "g \<in> set ?ps" using k(1) that unfolding all_settled_def list_all_iff by blast
    then show ?thesis using eligible_by_load by auto
  qed
  have known: "dget (av_profiles s) (eg_region g) = Some g" if "g \<in> set ?ps" for g
    using k(1) that keyed_member [of eg_region "av_profiles s" g] unfolding all_settled_def by blast
  have sub: "set bs \<subseteq> set ?el"
    using set_take_subset [of limit "sort_key batch_key ?el"] unfolding bs set_sort .
  have srt: "sorted (map batch_key bs)" unfolding bs take_map [symmetric] by (rule sorted_wrt_take) simp
  have out: "length bs = limit \<and> (\<forall>b \<in> set bs. batch_key b \<le> batch_key g)" if "g \<in> set ?el" "g \<notin> set bs" for g
  proof (rule conjI)
    have "limit < length (sort_key batch_key ?el)"
    proof (rule ccontr)
      assume "\<not> limit < length (sort_key batch_key ?el)"
      then have "bs = sort_key batch_key ?el" by (simp add: bs)
      with that show False by simp
    qed
    then show "length bs = limit" by (simp add: bs)
    show "\<forall>b \<in> set bs. batch_key b \<le> batch_key g"
      using take_sort_key_best [of _ limit batch_key ?el g] that unfolding bs by blast
  qed
  have named: "\<forall>g \<in> set bs. dget (av_profiles s) (eg_region g) = Some g \<and> load_ratio (eg_load g) (eg_capacity g) \<le> 6 / 10"
    using sub el known by blast
  have rest: "\<forall>g \<in> set ?ps. load_ratio (eg_load g) (eg_capacity g) \<le> 6 / 10 \<longrightarrow> g \<notin> set bs
      \<longrightarrow> length bs = limit \<and> (\<forall>b \<in> set bs. batch_key b \<le> batch_key g)"
    using out el by blast
  show ?thesis using k(2) named srt rest by blast
qed

definition demo_grids :: "energy_grid advisor_op list" where
  "demo_grids = [AdvReport (\<lambda>_. 0) [tele_of ''a'' [(''renewable_mw'', 20)], tele_of ''b'' [(''current_load_mw'', 95)],
     tele_of ''c'' [(''renewable_mw'', 80)]], AdvAnalyze 1]"

lemma demo_grids_run:
  "let (s, es) = run_outputs grid_step demo_grids (new_grids 2) in
     map eg_region (best_regions_for_batch 5 s) = [''c'', ''a''] \<and> map gr_action es = [''reduce_load'']"
  by code_simp

theorem batch_regions_best_witness:
  "\<exists>s es. run_outputs grid_step demo_grids (new_grids 2) = (s, es) \<and> av_advice s = py_cap 2 es
     \<and> map eg_region (best_regions_for_batch 5 s) = [''c'', ''a''] \<and> sorted (map batch_key (best_regions_for_batch 5 s))"
proof -
  obtain s es where r: "run_outputs grid_step demo_grids (new_grids 2) = (s, es)"
      "map eg_region (best_regions_for_batch 5 s) = [''c'', ''a'']"
    using demo_grids_run by (cases "run_outputs grid_step demo_grids (new_grids 2)") auto
  have "(0::nat) < 2" by simp
  note w = batch_regions_best [OF this r(1) refl, of 5]
  show ?thesis
    by (rule exI, rule exI, intro conjI, rule r(1), rule w [THEN conjunct1], rule r(2),
        rule w [THEN conjunct2, THEN conjunct2, THEN conjunct1])
qed

text \<open>The share of renewable power that a region reports is overwritten from a megawatt figure that has a default.\<close>

lemma reported_share_lost:
  "eg_renewable (grid_settle 0 (energy_grid_of (tele_of ''a'' [(''renewable_pct'', 9 / 10)]))) = 1 / 2"
  by code_simp

end
