(* ===== verification/Insights.thy ===== *)
theory Insights
  imports Telemetry
begin

text \<open>
  Views of the whole infrastructure, each computed from one telemetry record: health and insights
  (\<open>telemetry/infrastructure_intelligence.py\<close>), metrics by continent (\<open>telemetry/planetary_metrics.py\<close>), the
  status of the fabric controller (\<open>fabric_core/global_fabric_controller.py\<close>) and profiles of workloads
  (\<open>intelligence/workload_analyzer.py\<close>). Texts for people (titles, descriptions, advice) are left out, as are
  the event tables that nothing writes. A clock gives the successive readings of an operation.
\<close>

section \<open>Health and insights\<close>

datatype insight_severity = IvInfo | IvWarning | IvCritical | IvOpportunity

datatype insight_category = IcPerformance | IcEfficiency | IcReliability | IcCost | IcCarbon | IcCapacity | IcThermal

record insight =
  it_id :: string
  it_category :: insight_category
  it_severity :: insight_severity
  it_regions :: "string list"
  it_continent :: string
  it_score :: rat
  it_ts :: pyfloat

record health_score =
  hs_region :: string
  hs_continent :: string
  hs_overall :: rat
  hs_performance :: rat
  hs_reliability :: rat
  hs_efficiency :: rat
  hs_thermal :: rat
  hs_carbon :: rat
  hs_ts :: pyfloat

record intelligence =
  ii_max_history :: nat
  ii_insights :: "insight list"
  ii_health :: "(string, health_score) dict"
  ii_global :: rat
  ii_total :: nat

definition new_intelligence :: "nat \<Rightarrow> intelligence" where
  "new_intelligence mh = \<lparr>ii_max_history = mh, ii_insights = [], ii_health = [], ii_global = 1, ii_total = 0\<rparr>"

abbreviation rid_of :: "tele \<Rightarrow> string" where
  "rid_of r \<equiv> text_of r ''region_id'' []"

definition compute_health :: "pyfloat \<Rightarrow> tele \<Rightarrow> health_score" where
  "compute_health t r =
     (let perf = max 0 (1 - num r ''avg_latency_ms'' 0 / 500);
          status = text_of r ''status'' ''active'';
          reliability = (if status = ''active'' then 1 else if status = ''degraded'' then 1 / 2 else 0);
          eff = max 0 (1 - num r ''workload_saturation'' 0);
          thermal = max 0 (1 - num r ''thermal_pressure'' 0);
          carbon = max 0 (1 - num r ''carbon_intensity'' (1 / 2));
          overall = perf * (25 / 100) + reliability * (30 / 100) + eff * (20 / 100) + thermal * (15 / 100) + carbon * (10 / 100)
      in \<lparr>hs_region = rid_of r, hs_continent = text_of r ''continent'' [], hs_overall = py_round overall 3,
          hs_performance = py_round perf 3, hs_reliability = py_round reliability 3, hs_efficiency = py_round eff 3,
          hs_thermal = py_round thermal 3, hs_carbon = py_round carbon 3, hs_ts = t\<rparr>)"

definition insight_of :: "pyfloat \<Rightarrow> tele \<Rightarrow> string \<Rightarrow> insight_category \<Rightarrow> insight_severity \<Rightarrow> rat \<Rightarrow> insight" where
  "insight_of t r prefix c v score =
     \<lparr>it_id = stamped_id prefix (rid_of r) t, it_category = c, it_severity = v, it_regions = [rid_of r],
      it_continent = text_of r ''continent'' [], it_score = score, it_ts = t\<rparr>"

definition region_insights :: "pyfloat \<Rightarrow> tele \<Rightarrow> insight list" where
  "region_insights t r =
     (let sat = num r ''workload_saturation'' 0; thermal = num r ''thermal_pressure'' 0;
          carbon = num r ''carbon_intensity'' (1 / 2); latency = num r ''avg_latency_ms'' 0
      in (if sat > 9 / 10 then [insight_of t r ''cap-'' IcCapacity IvCritical sat]
          else if sat > 75 / 100 then [insight_of t r ''cap-warn-'' IcCapacity IvWarning sat] else [])
       @ (if thermal > 85 / 100 then [insight_of t r ''thermal-'' IcThermal IvCritical thermal] else [])
       @ (if carbon > 7 / 10 \<and> num r ''renewable_pct'' 0 < 2 / 10 then [insight_of t r ''carbon-'' IcCarbon IvOpportunity carbon] else [])
       @ (if latency > 300 then [insight_of t r ''perf-'' IcPerformance IvWarning (min 1 (latency / 500))] else []))"

definition intelligence_analyze :: "clock \<Rightarrow> tele list \<Rightarrow> intelligence \<Rightarrow> intelligence \<times> insight list" where
  "intelligence_analyze clk rs s =
     (let insights = concat (map (region_insights (clk 0)) rs);
          health = fold (\<lambda>(i, r). dput (rid_of r) (compute_health (clk i) r)) (enumerate 1 rs) (ii_health s);
          scores = map hs_overall (dvalues health)
      in (s\<lparr>ii_health := health,
            ii_global := (if scores \<noteq> [] then py_round (sum_list scores / of_nat (length scores)) 3 else ii_global s),
            ii_insights := py_cap (ii_max_history s) (ii_insights s @ insights),
            ii_total := ii_total s + length insights\<rparr>, insights))"

definition intelligence_recent :: "nat \<Rightarrow> intelligence \<Rightarrow> insight list" where
  "intelligence_recent limit s = take limit (rev (ii_insights s))"

definition critical_insights :: "intelligence \<Rightarrow> insight list" where
  "critical_insights s = filter (\<lambda>i. it_severity i = IvCritical) (ii_insights s)"

definition insights_by_category :: "insight_category \<Rightarrow> intelligence \<Rightarrow> insight list" where
  "insights_by_category c s = filter (\<lambda>i. it_category i = c) (ii_insights s)"

definition intelligence_metrics :: "intelligence \<Rightarrow> nat \<times> rat \<times> nat" where
  "intelligence_metrics s = (ii_total s, ii_global s, length (ii_health s))"

definition intelligence_step :: "clock \<times> tele list \<Rightarrow> intelligence \<Rightarrow> intelligence \<times> insight list" where
  "intelligence_step p s = intelligence_analyze (fst p) (snd p) s"

definition intelligence_ok :: "intelligence \<Rightarrow> bool" where
  "intelligence_ok s \<longleftrightarrow> 0 < ii_max_history s"

interpretation insight_log: history intelligence_ok ii_insights ii_max_history ii_total intelligence_step
proof
  show "intelligence_ok s \<Longrightarrow> intelligence_step p s = (s', es) \<Longrightarrow>
      intelligence_ok s' \<and> ii_max_history s' = ii_max_history s \<and> ii_insights s' = py_cap (ii_max_history s) (ii_insights s @ es)
        \<and> ii_total s' = ii_total s + length es" for p s s' es
    by (auto simp: intelligence_step_def intelligence_analyze_def intelligence_ok_def Let_def)
qed (simp add: intelligence_ok_def)

subsection \<open>Health lies between 0 and 1\<close>

definition plausible :: "tele \<Rightarrow> bool" where
  "plausible r \<longleftrightarrow> 0 \<le> num r ''avg_latency_ms'' 0 \<and> 0 \<le> num r ''workload_saturation'' 0 \<and> 0 \<le> num r ''thermal_pressure'' 0
     \<and> 0 \<le> num r ''carbon_intensity'' (1 / 2)"

definition unit_score :: "rat \<Rightarrow> bool" where
  "unit_score x \<longleftrightarrow> 0 \<le> x \<and> x \<le> 1"

lemma py_round_unit: "unit_score x \<Longrightarrow> unit_score (py_round x n)"
proof -
  assume u: "unit_score x"
  have one: "py_round 1 n = 1"
    using round_half_even_of_int [of "10 ^ n"] by (simp add: py_round_def)
  show ?thesis using py_round_mono [of 0 x n] py_round_mono [of x 1 n] u unfolding unit_score_def one py_round_0 by simp
qed

lemma weighted_unit:
  assumes "unit_score a" "unit_score b" "unit_score c" "unit_score d" "unit_score e"
  shows "unit_score (a * (25 / 100) + b * (30 / 100) + c * (20 / 100) + d * (15 / 100) + e * (10 / 100))"
  using assms unfolding unit_score_def by linarith

lemma health_unit: "plausible r \<Longrightarrow> unit_score (hs_overall (compute_health t r))"
proof -
  assume p: "plausible r"
  have cut: "unit_score (max 0 (1 - x))" if "0 \<le> x" for x using that by (simp add: unit_score_def)
  have "0 \<le> num r ''avg_latency_ms'' 0 / 500" using p by (simp add: plausible_def)
  then have "unit_score (max 0 (1 - num r ''avg_latency_ms'' 0 / 500))" by (rule cut)
  moreover have "unit_score (if text_of r ''status'' ''active'' = ''active'' then 1
      else if text_of r ''status'' ''active'' = ''degraded'' then 1 / 2 else 0)" by (simp add: unit_score_def)
  ultimately show ?thesis using p unfolding compute_health_def Let_def health_score.simps plausible_def
    by (intro py_round_unit weighted_unit cut) auto
qed

lemma mean_unit: "list_all unit_score xs \<Longrightarrow> xs \<noteq> [] \<Longrightarrow> unit_score (sum_list xs / of_nat (length xs))"
proof -
  assume u: "list_all unit_score xs" and ne: "xs \<noteq> []"
  have "0 \<le> sum_list xs \<and> sum_list xs \<le> of_nat (length xs)"
    using u by (induction xs) (auto simp: unit_score_def)
  with ne show ?thesis by (simp add: unit_score_def divide_le_eq)
qed

lemma dput_fold_all:
  assumes "list_all P (dvalues d)" "\<forall>x \<in> set xs. P (v x)"
  shows "list_all P (dvalues (fold (\<lambda>x. dput (k x) (v x)) xs d))"
  using assms by (induction xs arbitrary: d) (auto simp: list_all_dput)

definition healthy :: "intelligence \<Rightarrow> bool" where
  "healthy s \<longleftrightarrow> list_all (\<lambda>h. unit_score (hs_overall h)) (dvalues (ii_health s)) \<and> unit_score (ii_global s)"

lemma healthy_analyze:
  assumes h: "healthy s" and p: "list_all plausible rs"
  shows "healthy (fst (intelligence_analyze clk rs s))"
proof -
  define health where "health = fold (\<lambda>x. dput (rid_of (snd x)) (compute_health (clk (fst x)) (snd x))) (enumerate 1 rs) (ii_health s)"
  have "\<forall>x \<in> set (enumerate 1 rs). unit_score (hs_overall (compute_health (clk (fst x)) (snd x)))"
    using p by (auto simp: list_all_iff health_unit in_set_enumerate_eq)
  then have all: "list_all (\<lambda>h. unit_score (hs_overall h)) (dvalues health)"
    using h unfolding health_def healthy_def by (intro dput_fold_all) auto
  define sc where "sc = map hs_overall (dvalues health)"
  have sc: "list_all unit_score sc" using all by (simp add: list_all_iff sc_def)
  have "unit_score (if sc \<noteq> [] then py_round (sum_list sc / of_nat (length sc)) 3 else ii_global s)"
  proof (cases "sc = []")
    case True
    then show ?thesis using h by (simp add: healthy_def)
  next
    case False
    then show ?thesis using py_round_unit [OF mean_unit [OF sc False], of 3] by simp
  qed
  moreover have "ii_health (fst (intelligence_analyze clk rs s)) = health"
      "ii_global (fst (intelligence_analyze clk rs s)) = (if sc \<noteq> [] then py_round (sum_list sc / of_nat (length sc)) 3 else ii_global s)"
    unfolding sc_def health_def by (simp_all add: intelligence_analyze_def Let_def case_prod_beta')
  ultimately show ?thesis using all by (simp only: healthy_def)
qed

text \<open>C0. As long as reports are plausible (no negative latency, saturation, thermal pressure or carbon intensity), every
  health score and the global health stay between 0 and 1, the insights kept are the last of all that were
  given, and all of them are counted.\<close>

theorem health_in_range:
  assumes "0 < mh" and ok: "list_all (\<lambda>p. list_all plausible (snd p)) ps"
    and run: "run_outputs intelligence_step ps (new_intelligence mh) = (s, es)"
  shows "list_all (\<lambda>h. unit_score (hs_overall h)) (dvalues (ii_health s)) \<and> unit_score (ii_global s)
    \<and> ii_insights s = py_cap mh es \<and> ii_total s = length es"
proof -
  have "healthy s'" if "healthy s0" "run_outputs intelligence_step ps s0 = (s', es')" for s0 s' es'
    using that ok
  proof (induction ps arbitrary: s0 es')
    case (Cons p ps)
    obtain s1 e1 where one: "intelligence_analyze (fst p) (snd p) s0 = (s1, e1)" by fastforce
    have "healthy s1" using healthy_analyze [OF Cons.prems(1), of "snd p" "fst p"] Cons.prems(3) by (simp add: one)
    then show ?case using Cons.IH [of s1] Cons.prems(2,3) by (auto simp: intelligence_step_def one split: prod.splits)
  qed simp
  moreover have "healthy (new_intelligence mh)" by (simp add: healthy_def new_intelligence_def unit_score_def)
  ultimately have "healthy s" using run by blast
  moreover have new: "intelligence_ok (new_intelligence mh)" "ii_insights (new_intelligence mh) = []"
      "ii_max_history (new_intelligence mh) = mh" "ii_total (new_intelligence mh) = 0"
    using assms(1) by (simp_all add: intelligence_ok_def new_intelligence_def)
  ultimately show ?thesis using insight_log.history_complete [OF new(1) _ run] by (simp add: healthy_def new)
qed

definition demo_intel :: "(clock \<times> tele list) list" where
  "demo_intel = [((\<lambda>_. 5), [tele_of ''a'' [(''workload_saturation'', 95 / 100)], tele_of ''b'' [(''avg_latency_ms'', 400)]])]"

lemma demo_intel_run:
  "let (s, es) = run_outputs intelligence_step demo_intel (new_intelligence 9)
   in map it_id es = [''cap-a-5'', ''perf-b-5''] \<and> ii_global s = 755 / 1000"
  by code_simp

theorem health_in_range_witness:
  "\<exists>s es. run_outputs intelligence_step demo_intel (new_intelligence 9) = (s, es) \<and> map it_id es = [''cap-a-5'', ''perf-b-5'']
    \<and> unit_score (ii_global s)"
proof -
  obtain s es where r: "run_outputs intelligence_step demo_intel (new_intelligence 9) = (s, es)" "map it_id es = [''cap-a-5'', ''perf-b-5'']"
    using demo_intel_run by (cases "run_outputs intelligence_step demo_intel (new_intelligence 9)") auto
  have pos: "(0::nat) < 9" by simp
  have ok: "list_all (\<lambda>p. list_all plausible (snd p)) demo_intel" by code_simp
  note w = health_in_range [OF pos ok r(1)]
  show ?thesis by (rule exI, rule exI, intro conjI, rule r(1), rule r(2), rule w [THEN conjunct2, THEN conjunct1])
qed

text \<open>The score of a region that has not reported for long counts in the global health for ever.\<close>

lemma gone_region_counts:
  "dget (ii_health s) g = Some h \<Longrightarrow> g \<notin> rid_of ` set rs
    \<Longrightarrow> dget (ii_health (fst (intelligence_analyze clk rs s))) g = Some h"
proof -
  assume d: "dget (ii_health s) g = Some h" and out: "g \<notin> rid_of ` set rs"
  have "dget (fold (\<lambda>(i, r). dput (rid_of r) (compute_health (clk i) r)) xs d) g = dget d g"
    if "g \<notin> (\<lambda>x. rid_of (snd x)) ` set xs" for xs :: "(nat \<times> tele) list" and d
    using that by (induction xs arbitrary: d) auto
  moreover have "(\<lambda>x. rid_of (snd x)) ` set (enumerate 1 rs) = rid_of ` set rs"
  proof -
    have "snd ` set (enumerate 1 rs) = set rs" unfolding list.set_map [symmetric] map_snd_enumerate ..
    then show ?thesis by (simp add: image_image [symmetric, of rid_of snd])
  qed
  ultimately show ?thesis using d out by (simp add: intelligence_analyze_def Let_def)
qed

section \<open>Metrics by continent\<close>

record continent_metrics =
  cm_continent :: string
  cm_regions :: nat
  cm_active :: nat
  cm_gpus :: rat
  cm_workloads :: rat
  cm_latency :: rat
  cm_utilization :: rat
  cm_carbon :: rat
  cm_renewable :: rat
  cm_failovers :: nat
  cm_ts :: pyfloat

record planet_snapshot =
  sn_continents :: nat
  sn_regions :: nat
  sn_gpus :: rat
  sn_workloads :: rat
  sn_latency :: rat
  sn_utilization :: rat
  sn_carbon :: rat
  sn_renewable :: rat
  sn_failovers :: nat
  sn_energy :: rat
  sn_co2 :: rat
  sn_by_continent :: "(string, continent_metrics) dict"
  sn_ts :: pyfloat

text \<open>An event is a dictionary; recording it sets its \<open>ts\<close>.\<close>

type_synonym event_dict = "(string, json) dict"

record planet_collector =
  pc_max_history :: nat
  pc_snapshots :: "planet_snapshot list"
  pc_failover_log :: "event_dict list"
  pc_energy_log :: "event_dict list"
  pc_total :: nat

definition new_collector :: "nat \<Rightarrow> planet_collector" where
  "new_collector mh = \<lparr>pc_max_history = mh, pc_snapshots = [], pc_failover_log = [], pc_energy_log = [], pc_total = 0\<rparr>"

definition total_of :: "string \<Rightarrow> rat \<Rightarrow> tele list \<Rightarrow> rat" where
  "total_of k d rs = sum_list (map (\<lambda>r. num r k d) rs)"

definition group_of :: "(string, tele list) dict \<Rightarrow> string \<Rightarrow> tele list" where
  "group_of d c = (case dget d c of Some g \<Rightarrow> g | None \<Rightarrow> [])"

definition into_group :: "tele \<Rightarrow> (string, tele list) dict \<Rightarrow> (string, tele list) dict" where
  "into_group r d = (let c = text_of r ''continent'' ''unknown'' in dput c (group_of d c @ [r]) d)"

definition by_continent :: "tele list \<Rightarrow> (string, tele list) dict" where
  "by_continent rs = fold into_group rs []"

definition continent_of :: "pyfloat \<Rightarrow> string \<Rightarrow> tele list \<Rightarrow> continent_metrics" where
  "continent_of t c g =
     (let n = of_nat (length g) in
      \<lparr>cm_continent = c, cm_regions = length g, cm_active = length (filter (\<lambda>r. text_of r ''status'' ''active'' \<noteq> ''offline'') g),
       cm_gpus = total_of ''total_gpus'' 0 g, cm_workloads = total_of ''active_workloads'' 0 g,
       cm_latency = (if g \<noteq> [] then py_round (total_of ''avg_latency_ms'' 0 g / n) 1 else 0),
       cm_utilization = (if g \<noteq> [] then py_round (total_of ''workload_saturation'' 0 g / n) 3 else 0),
       cm_carbon = (if g \<noteq> [] then py_round (total_of ''carbon_intensity'' (1 / 2) g / n) 3 else 0),
       cm_renewable = (if g \<noteq> [] then py_round (total_of ''renewable_pct'' 0 g / n) 3 else 0),
       cm_failovers = 0, cm_ts = t\<rparr>)"

definition over_groups :: "(tele list \<Rightarrow> rat) \<Rightarrow> (string, tele list) dict \<Rightarrow> rat" where
  "over_groups f d = sum_list (map f (dvalues d))"

definition collect :: "clock \<Rightarrow> tele list \<Rightarrow> planet_collector \<Rightarrow> planet_collector \<times> planet_snapshot" where
  "collect clk rs s =
     (let groups = by_continent rs;
          n = of_nat (if rs = [] then 1 else length rs);
          sn = \<lparr>sn_continents = length groups, sn_regions = length rs,
                sn_gpus = over_groups (total_of ''total_gpus'' 0) groups,
                sn_workloads = over_groups (total_of ''active_workloads'' 0) groups,
                sn_latency = py_round (over_groups (total_of ''avg_latency_ms'' 0) groups / n) 1,
                sn_utilization = py_round (over_groups (total_of ''workload_saturation'' 0) groups / n) 3,
                sn_carbon = py_round (over_groups (total_of ''carbon_intensity'' (1 / 2)) groups / n) 3,
                sn_renewable = py_round (over_groups (total_of ''renewable_pct'' 0) groups / n) 3,
                sn_failovers = 0,
                sn_energy = py_round (over_groups (\<lambda>g. total_of ''power_consumption_w'' 0 g / 1000) groups) 2,
                sn_co2 = 0,
                sn_by_continent = map (\<lambda>(i, c, g). (c, continent_of (clk i) c g)) (enumerate 0 groups),
                sn_ts = clk (length groups)\<rparr>
      in (s\<lparr>pc_snapshots := py_cap (pc_max_history s) (pc_snapshots s @ [sn]), pc_total := pc_total s + 1\<rparr>, sn))"

definition record_failover :: "pyfloat \<Rightarrow> event_dict \<Rightarrow> planet_collector \<Rightarrow> planet_collector" where
  "record_failover t e s =
     s\<lparr>pc_failover_log := py_cap (pc_max_history s) (pc_failover_log s @ [dput ''ts'' (JNum t) e])\<rparr>"

definition record_energy :: "pyfloat \<Rightarrow> event_dict \<Rightarrow> planet_collector \<Rightarrow> planet_collector" where
  "record_energy t e s =
     s\<lparr>pc_energy_log := py_cap (pc_max_history s) (pc_energy_log s @ [dput ''ts'' (JNum t) e])\<rparr>"

definition latest_snapshot :: "planet_collector \<Rightarrow> planet_snapshot option" where
  "latest_snapshot s = (if pc_snapshots s = [] then None else Some (last (pc_snapshots s)))"

definition snapshot_history :: "nat \<Rightarrow> planet_collector \<Rightarrow> planet_snapshot list" where
  "snapshot_history limit s = take limit (rev (pc_snapshots s))"

definition failover_history :: "nat \<Rightarrow> planet_collector \<Rightarrow> event_dict list" where
  "failover_history limit s = take limit (rev (pc_failover_log s))"

definition energy_history :: "nat \<Rightarrow> planet_collector \<Rightarrow> event_dict list" where
  "energy_history limit s = take limit (rev (pc_energy_log s))"

definition continental_breakdown :: "planet_collector \<Rightarrow> (string, continent_metrics) dict" where
  "continental_breakdown s = (if pc_snapshots s = [] then [] else sn_by_continent (last (pc_snapshots s)))"

definition collector_metrics :: "planet_collector \<Rightarrow> nat \<times> nat \<times> nat" where
  "collector_metrics s = (pc_total s, length (pc_failover_log s), length (pc_energy_log s))"

subsection \<open>Groups\<close>

lemma group_into_group:
  "group_of (into_group r d) c = (if text_of r ''continent'' ''unknown'' = c then group_of d c @ [r] else group_of d c)"
  by (simp add: into_group_def group_of_def Let_def)

lemma group_by_continent: "group_of (by_continent rs) c = filter (\<lambda>r. text_of r ''continent'' ''unknown'' = c) rs"
proof -
  have "group_of (fold into_group rs d) c = group_of d c @ filter (\<lambda>r. text_of r ''continent'' ''unknown'' = c) rs" for d
    by (induction rs arbitrary: d) (simp_all add: group_into_group)
  then show ?thesis by (simp add: by_continent_def group_of_def)
qed

lemma dwf_by_continent: "dwf (by_continent rs)"
  unfolding by_continent_def by (rule fold_inv) (auto simp: into_group_def Let_def)

lemma dkeys_by_continent: "fst ` set (by_continent rs) = (\<lambda>r. text_of r ''continent'' ''unknown'') ` set rs"
proof -
  have "fst ` set (fold into_group rs d) = fst ` set d \<union> (\<lambda>r. text_of r ''continent'' ''unknown'') ` set rs" for d
    by (induction rs arbitrary: d) (auto simp: into_group_def Let_def)
  then show ?thesis by (simp add: by_continent_def)
qed

lemma over_dput: "over_groups h (dput k v d) = over_groups h d - (case dget d k of Some u \<Rightarrow> h u | None \<Rightarrow> 0) + h v"
  unfolding over_groups_def by (induction d) auto

text \<open>What adds up over the regions of each group adds up over all of them.\<close>

lemma over_by_continent:
  assumes "h [] = 0" "\<And>g r. h (g @ [r]) = h g + f r"
  shows "over_groups h (by_continent rs) = sum_list (map f rs)"
proof -
  have "over_groups h (into_group r d) = over_groups h d + f r" for r d
    using assms(1) assms(2) [of "[]" r] by (auto simp: into_group_def Let_def over_dput group_of_def assms(2) split: option.splits)
  then have "over_groups h (fold into_group rs d) = over_groups h d + sum_list (map f rs)" for d
    by (induction rs arbitrary: d) simp_all
  then show ?thesis by (simp add: by_continent_def over_groups_def)
qed

lemma over_total [simp]: "over_groups (total_of k d) (by_continent rs) = total_of k d rs"
  unfolding total_of_def by (rule over_by_continent) simp_all

lemma of_nat_sum: "(of_nat (sum_list xs) :: rat) = sum_list (map of_nat xs)"
  by (induction xs) simp_all

lemma sum_of_enumerated: "(\<And>i c g. f (F i c g) = h g) \<Longrightarrow>
    map f (dvalues (map (\<lambda>(i, c, g). (c, F i c g)) (enumerate n gs))) = map h (dvalues gs)"
  by (induction gs arbitrary: n) auto

lemma dget_enumerated:
  "case dget (map (\<lambda>(i, c, g). (c, F i c g)) (enumerate n gs)) k of
     None \<Rightarrow> dget gs k = None | Some m \<Rightarrow> \<exists>i g. dget gs k = Some g \<and> m = F i k g"
proof (induction gs arbitrary: n)
  case (Cons p gs)
  show ?case using Cons.IH [of "Suc n"] by (cases p) (auto split: option.splits)
qed simp

lemma planetary_totals_facts:
  "let sn = snd (collect clk rs s); n = of_nat (if rs = [] then 1 else length rs) in
     sn_regions sn = length rs \<and> sn_gpus sn = total_of ''total_gpus'' 0 rs \<and> sn_workloads sn = total_of ''active_workloads'' 0 rs
     \<and> sn_latency sn = py_round (total_of ''avg_latency_ms'' 0 rs / n) 1
     \<and> sn_utilization sn = py_round (total_of ''workload_saturation'' 0 rs / n) 3"
  by (simp add: collect_def Let_def)

text \<open>C0. A snapshot counts every region exactly once: the totals of the planet are those of all regions and the sums over
  the continents, and the metrics of a continent are computed from exactly the regions that name it.\<close>

theorem planetary_totals:
  "let sn = snd (collect clk rs s); n = of_nat (if rs = [] then 1 else length rs) in
     sn_regions sn = length rs \<and> sn_gpus sn = total_of ''total_gpus'' 0 rs \<and> sn_workloads sn = total_of ''active_workloads'' 0 rs
     \<and> sn_latency sn = py_round (total_of ''avg_latency_ms'' 0 rs / n) 1
     \<and> sn_utilization sn = py_round (total_of ''workload_saturation'' 0 rs / n) 3
     \<and> sum_list (map cm_gpus (dvalues (sn_by_continent sn))) = sn_gpus sn
     \<and> sum_list (map cm_workloads (dvalues (sn_by_continent sn))) = sn_workloads sn
     \<and> sum_list (map cm_regions (dvalues (sn_by_continent sn))) = sn_regions sn
     \<and> (\<forall>c. case dget (sn_by_continent sn) c of
          None \<Rightarrow> filter (\<lambda>r. text_of r ''continent'' ''unknown'' = c) rs = []
        | Some m \<Rightarrow> \<exists>t. m = continent_of t c (filter (\<lambda>r. text_of r ''continent'' ''unknown'' = c) rs))"
proof -
  let ?g = "by_continent rs"
  define cms where "cms = map (\<lambda>(i, c, g). (c, continent_of (clk i) c g)) (enumerate 0 ?g)"
  note over = over_total [of _ _ rs, unfolded over_groups_def]
  have "map cm_gpus (dvalues cms) = map (total_of ''total_gpus'' 0) (dvalues ?g)"
    unfolding cms_def by (rule sum_of_enumerated) (simp add: continent_of_def Let_def)
  then have gpus: "sum_list (map cm_gpus (dvalues cms)) = total_of ''total_gpus'' 0 rs" by (simp only: over)
  have "map cm_workloads (dvalues cms) = map (total_of ''active_workloads'' 0) (dvalues ?g)"
    unfolding cms_def by (rule sum_of_enumerated) (simp add: continent_of_def Let_def)
  then have work: "sum_list (map cm_workloads (dvalues cms)) = total_of ''active_workloads'' 0 rs" by (simp only: over)
  have "over_groups (\<lambda>g. of_nat (length g)) ?g = sum_list (map (\<lambda>_. 1) rs)"
    by (rule over_by_continent) simp_all
  then have "(of_nat (sum_list (map length (dvalues ?g))) :: rat) = of_nat (length rs)"
    by (simp add: over_groups_def sum_list_triv of_nat_sum comp_def)
  then have "sum_list (map length (dvalues ?g)) = length rs" by (simp only: of_nat_eq_iff)
  moreover have "map cm_regions (dvalues cms) = map length (dvalues ?g)"
    unfolding cms_def by (rule sum_of_enumerated) (simp add: continent_of_def Let_def)
  ultimately have regions: "sum_list (map cm_regions (dvalues cms)) = length rs" by (simp only:)
  have each: "case dget cms c of None \<Rightarrow> filter (\<lambda>r. text_of r ''continent'' ''unknown'' = c) rs = []
        | Some m \<Rightarrow> \<exists>t. m = continent_of t c (filter (\<lambda>r. text_of r ''continent'' ''unknown'' = c) rs)" for c
    using dget_enumerated [where F = "\<lambda>i. continent_of (clk i)" and n = 0 and gs = ?g and k = c] group_by_continent [of rs c]
    unfolding cms_def group_of_def by (auto split: option.splits)
  show ?thesis using gpus work regions each by (simp add: collect_def Let_def cms_def [symmetric])
qed

text \<open>Recorded failovers never reach the counters of a snapshot, nor does any CO2.\<close>

lemma failovers_not_counted:
  "sn_failovers (snd (collect clk rs (record_failover t e s))) = 0 \<and> sn_co2 (snd (collect clk rs s)) = 0"
  by (simp add: collect_def Let_def)

section \<open>The fabric controller\<close>

record fabric_status =
  fs_controller :: string
  fs_continents :: "string list"
  fs_regions :: nat
  fs_gpus :: rat
  fs_workloads :: rat
  fs_utilization :: rat
  fs_latency :: rat
  fs_carbon_efficiency :: rat
  fs_uptime :: rat
  fs_ts :: pyfloat
  fs_loop_time :: rat

record loop_event =
  le_loop :: nat
  le_regions :: nat
  le_continents :: nat
  le_time :: rat
  le_ts :: pyfloat

record fabric_controller =
  fc_id :: string
  fc_started_at :: pyfloat
  fc_loops :: nat
  fc_events :: "loop_event list"
  fc_last :: "fabric_status option"
  fc_subsystems :: "(string, json) dict"

definition new_controller :: "string \<Rightarrow> pyfloat \<Rightarrow> fabric_controller" where
  "new_controller i t = \<lparr>fc_id = i, fc_started_at = t, fc_loops = 0, fc_events = [], fc_last = None, fc_subsystems = []\<rparr>"

definition named_continents :: "tele list \<Rightarrow> string list" where
  "named_continents rs = sort (remdups (filter (\<lambda>c. c \<noteq> []) (map (\<lambda>r. text_of r ''continent'' []) rs)))"

definition run_control_loop :: "clock \<Rightarrow> tele list \<Rightarrow> fabric_controller \<Rightarrow> fabric_controller \<times> fabric_status" where
  "run_control_loop clk rs c =
     (let n = of_nat (if rs = [] then 1 else length rs);
          st = \<lparr>fs_controller = fc_id c, fs_continents = named_continents rs, fs_regions = length rs,
                fs_gpus = total_of ''total_gpus'' 0 rs, fs_workloads = total_of ''active_workloads'' 0 rs,
                fs_utilization = py_round (total_of ''workload_saturation'' 0 rs / n) 3,
                fs_latency = py_round (total_of ''avg_latency_ms'' 0 rs / n) 1,
                fs_carbon_efficiency =
                  py_round (if rs \<noteq> [] then 1 - total_of ''carbon_intensity'' (1 / 2) rs / of_nat (length rs) else 1 / 2) 3,
                fs_uptime = py_round (clk 1 - fc_started_at c) 1, fs_ts = clk 2,
                fs_loop_time = py_round ((clk 3 - clk 0) * 1000) 2\<rparr>
      in (c\<lparr>fc_loops := fc_loops c + 1, fc_last := Some st,
            fc_events := py_cap 500 (fc_events c @ [\<lparr>le_loop = fc_loops c + 1, le_regions = length rs,
               le_continents = length (named_continents rs), le_time = fs_loop_time st, le_ts = clk 4\<rparr>])\<rparr>, st))"

definition register_subsystem :: "string \<Rightarrow> json \<Rightarrow> fabric_controller \<Rightarrow> fabric_controller" where
  "register_subsystem name metrics c = c\<lparr>fc_subsystems := dput name metrics (fc_subsystems c)\<rparr>"

definition controller_events :: "nat \<Rightarrow> fabric_controller \<Rightarrow> loop_event list" where
  "controller_events limit c = take limit (rev (fc_events c))"

definition controller_metrics :: "pyfloat \<Rightarrow> fabric_controller \<Rightarrow> string \<times> nat \<times> rat \<times> nat" where
  "controller_metrics t c = (fc_id c, fc_loops c, py_round (t - fc_started_at c) 1, length (fc_subsystems c))"


text \<open>They do not agree on the continents: a region that names none counts as a continent of its own for one of them only.\<close>

lemma continents_disagree:
  "let rs = [tele_of ''a'' []] in
     fs_continents (snd (run_control_loop (\<lambda>_. 0) rs (new_controller ''primary'' 0))) = []
     \<and> sn_continents (snd (collect (\<lambda>_. 0) rs (new_collector 5))) = 1"
  by code_simp

section \<open>Profiles of workloads\<close>

record workload_profile =
  wp_id :: string
  wp_region :: string
  wp_type :: string
  wp_latency :: rat
  wp_gpu :: rat
  wp_memory :: rat
  wp_cpu :: rat
  wp_rate :: rat
  wp_errors :: rat
  wp_cost :: rat
  wp_efficiency :: rat
  wp_quality :: rat
  wp_samples :: rat
  wp_updated :: pyfloat

record workload_analyzer =
  wa_profiles :: "(string, workload_profile) dict"
  wa_max :: nat
  wa_total :: nat

definition new_workload_analyzer :: "nat \<Rightarrow> workload_analyzer" where
  "new_workload_analyzer n = \<lparr>wa_profiles = [], wa_max = n, wa_total = 0\<rparr>"

definition workload_efficiency :: "rat \<Rightarrow> rat \<Rightarrow> rat \<Rightarrow> rat \<Rightarrow> rat" where
  "workload_efficiency gpu cpu latency errors =
     (let resource = 1 - \<bar>gpu - 7 / 10\<bar> - \<bar>cpu - 6 / 10\<bar> * (1 / 2);
          latency_score = max 0 (1 - latency / 500);
          error_score = max 0 (1 - errors * 10)
      in max 0 (min 1 (resource * (4 / 10) + latency_score * (4 / 10) + error_score * (2 / 10))))"

definition placement_quality :: "tele \<Rightarrow> rat" where
  "placement_quality w =
     ((if num w ''latency_ms'' 0 < 200 then 1 else 1 / 2)
      + (if 3 / 10 < num w ''gpu_usage'' 0 \<and> num w ''gpu_usage'' 0 < 9 / 10 then 1 else 1 / 2)
      + (if num w ''error_rate'' 0 < 1 / 100 then 1 else 3 / 10)) / 3"

definition workload_profile_of :: "pyfloat \<Rightarrow> tele \<Rightarrow> workload_profile" where
  "workload_profile_of t w =
     (let gpu = num w ''gpu_usage'' 0; cpu = num w ''cpu_usage'' 0; latency = num w ''latency_ms'' 0; errors = num w ''error_rate'' 0
      in \<lparr>wp_id = text_of w ''workload_id'' [], wp_region = rid_of w, wp_type = text_of w ''workload_type'' ''inference'',
          wp_latency = py_round latency 2, wp_gpu = py_round gpu 3, wp_memory = num w ''memory_mb'' 0, wp_cpu = py_round cpu 3,
          wp_rate = num w ''request_rate'' 0, wp_errors = py_round errors 4, wp_cost = num w ''cost_per_hour'' 0,
          wp_efficiency = py_round (workload_efficiency gpu cpu latency errors) 3, wp_quality = py_round (placement_quality w) 3,
          wp_samples = num w ''samples'' 1, wp_updated = t\<rparr>)"

definition analyze_workloads :: "pyfloat \<Rightarrow> tele list \<Rightarrow> workload_analyzer \<Rightarrow> workload_analyzer \<times> workload_profile list" where
  "analyze_workloads t ws s =
     (let ps = map (workload_profile_of t) (filter (\<lambda>w. text_of w ''workload_id'' [] \<noteq> []) ws)
      in (s\<lparr>wa_profiles := drop_oldest (wa_max s) wp_updated (fold (\<lambda>p. dput (wp_id p) p) ps (wa_profiles s)),
            wa_total := wa_total s + length ps\<rparr>, ps))"

definition inefficient_workloads :: "rat \<Rightarrow> workload_analyzer \<Rightarrow> workload_profile list" where
  "inefficient_workloads threshold s = filter (\<lambda>p. wp_efficiency p < threshold) (dvalues (wa_profiles s))"

definition badly_placed :: "workload_analyzer \<Rightarrow> workload_profile list" where
  "badly_placed s = filter (\<lambda>p. wp_quality p < 6 / 10 \<or> wp_efficiency p < 4 / 10) (dvalues (wa_profiles s))"

definition get_workload_profile :: "string \<Rightarrow> workload_analyzer \<Rightarrow> workload_profile option" where
  "get_workload_profile i s = dget (wa_profiles s) i"

definition workload_analyzer_metrics :: "workload_analyzer \<Rightarrow> nat \<times> nat \<times> rat \<times> nat" where
  "workload_analyzer_metrics s =
     (let ps = dvalues (wa_profiles s) in
      (wa_total s, length ps, py_round (if ps \<noteq> [] then sum_list (map wp_efficiency ps) / of_nat (length ps) else 0) 3,
       length (filter (\<lambda>p. wp_quality p < 6 / 10) ps)))"

definition analyzer_step :: "pyfloat \<times> tele list \<Rightarrow> workload_analyzer \<Rightarrow> workload_analyzer \<times> workload_profile list" where
  "analyzer_step q s = analyze_workloads (fst q) (snd q) s"

definition rated :: "workload_profile \<Rightarrow> bool" where
  "rated p \<longleftrightarrow> unit_score (wp_efficiency p) \<and> 433 / 1000 \<le> wp_quality p \<and> wp_quality p \<le> 1"

definition analyzer_ok :: "workload_analyzer \<Rightarrow> bool" where
  "analyzer_ok s \<longleftrightarrow> keyed wp_id (wa_profiles s) \<and> length (wa_profiles s) \<le> wa_max s \<and> list_all rated (dvalues (wa_profiles s))"

lemma profile_rated: "rated (workload_profile_of t w)"
proof -
  have "unit_score (py_round (workload_efficiency a b c d) 3)" for a b c d
    by (rule py_round_unit) (simp add: unit_score_def workload_efficiency_def Let_def)
  moreover have "13 / 30 \<le> placement_quality w \<and> placement_quality w \<le> 1"
    by (simp add: placement_quality_def)
  then have "py_round (13 / 30) 3 \<le> py_round (placement_quality w) 3 \<and> py_round (placement_quality w) 3 \<le> py_round 1 3"
    by (simp add: py_round_mono)
  moreover have "py_round (13 / 30) 3 = 433 / 1000" "py_round 1 3 = 1" by code_simp+
  ultimately show ?thesis unfolding rated_def workload_profile_of_def Let_def workload_profile.simps by simp
qed

lemma keyed_fold_dput: "keyed f d \<Longrightarrow> keyed f (fold (\<lambda>p. dput (f p) p) ps d)"
  by (rule fold_inv) auto

lemma list_all_fold_dput:
  "list_all P (dvalues d) \<Longrightarrow> list_all P ps \<Longrightarrow> list_all P (dvalues (fold (\<lambda>p. dput (f p) p) ps d))"
  by (rule dput_fold_all) (auto simp: list_all_iff)

lemma dget_fold_dput:
  "dget (fold (\<lambda>p. dput (f p) p) ps d) k = (case find (\<lambda>p. f p = k) (rev ps) of Some p \<Rightarrow> Some p | None \<Rightarrow> dget d k)"
proof (induction ps rule: rev_induct)
  case (snoc p ps)
  then show ?case by simp
qed simp

lemma find_mem: "find P xs = Some p \<Longrightarrow> p \<in> set xs \<and> P p"
  by (induction xs) (auto split: if_splits)

lemma keyed_drop_oldest:
  assumes "keyed f d"
  shows "keyed f (drop_oldest n stamp d)"
proof -
  have wf: "dwf d" using assms by (simp add: keyed_def)
  note keeps = drop_oldest_keeps [OF wf, of n stamp]
  have "f (snd p) = fst p" if "p \<in> set (drop_oldest n stamp d)" for p
  proof -
    have "dget (drop_oldest n stamp d) (fst p) = Some (snd p)" using that keeps by (simp add: dwf_dget_iff)
    then show ?thesis using keeps keyed_dget [OF assms] by blast
  qed
  with keeps show ?thesis by (simp add: keyed_def)
qed

lemma list_all_drop_oldest:
  assumes "dwf d" "list_all P (dvalues d)"
  shows "list_all P (dvalues (drop_oldest n stamp d))"
proof -
  note keeps = drop_oldest_keeps [OF assms(1), of n stamp]
  have "P (snd p)" if "p \<in> set (drop_oldest n stamp d)" for p
  proof -
    have "dget (drop_oldest n stamp d) (fst p) = Some (snd p)" using that keeps by (simp add: dwf_dget_iff)
    then have "dget d (fst p) = Some (snd p)" using keeps by blast
    then show ?thesis using assms(2) dget_SomeD [of d "fst p" "snd p"] by (fastforce simp: list_all_iff)
  qed
  then show ?thesis by (simp add: list_all_iff)
qed

lemma analyzer_ok_step: "analyzer_ok s \<Longrightarrow> analyzer_ok (fst (analyze_workloads t ws s)) \<and> wa_max (fst (analyze_workloads t ws s)) = wa_max s"
proof -
  assume ok: "analyzer_ok s"
  let ?ps = "map (workload_profile_of t) (filter (\<lambda>w. text_of w ''workload_id'' [] \<noteq> []) ws)"
  let ?d = "fold (\<lambda>p. dput (wp_id p) p) ?ps (wa_profiles s)"
  have k: "keyed wp_id ?d" using ok by (simp add: keyed_fold_dput analyzer_ok_def del: map_map)
  then have wf: "dwf ?d" by (simp add: keyed_def)
  have "list_all rated ?ps" by (simp add: list_all_iff profile_rated)
  then have "list_all rated (dvalues ?d)" using ok unfolding analyzer_ok_def by (intro list_all_fold_dput) auto
  then show ?thesis using keyed_drop_oldest [OF k] list_all_drop_oldest [OF wf] drop_oldest_keeps [OF wf]
    by (simp add: analyzer_ok_def analyze_workloads_def Let_def)
qed

text \<open>C0. However many workloads are analysed, the table never exceeds its bound, every score is in its range and every
  result is counted; and the results of an analysis that is newer than all profiles are all in the table
  afterwards as long as its workloads are no more than the bound.\<close>

theorem analyzer_keeps_newest:
  assumes run: "run_outputs analyzer_step qs (new_workload_analyzer n) = (s, es)"
    and newer: "list_all (\<lambda>p. wp_updated p < t) (dvalues (wa_profiles s))"
    and few: "card (set (map wp_id rs)) \<le> n" and an: "analyze_workloads t ws s = (s', rs)"
  shows "length (wa_profiles s') \<le> n \<and> list_all rated (dvalues (wa_profiles s')) \<and> wa_total s' = length es + length rs
    \<and> (\<forall>i. case find (\<lambda>p. wp_id p = i) (rev rs) of None \<Rightarrow> True | Some p \<Rightarrow> dget (wa_profiles s') i = Some p)"
proof -
  have inv: "analyzer_ok s2 \<and> wa_max s2 = wa_max s1 \<and> wa_total s2 = wa_total s1 + length es2"
    if "analyzer_ok s1" "run_outputs analyzer_step qs s1 = (s2, es2)" for s1 s2 es2
    using that
  proof (induction qs arbitrary: s1 es2)
    case (Cons q qs)
    obtain s3 e3 where one: "analyze_workloads (fst q) (snd q) s1 = (s3, e3)" by fastforce
    have tot: "wa_total s3 = wa_total s1 + length e3" using one by (auto simp: analyze_workloads_def Let_def)
    show ?case using analyzer_ok_step [OF Cons.prems(1), of "fst q" "snd q"] Cons.IH [of s3] Cons.prems(2) tot
      by (auto simp: analyzer_step_def one split: prod.splits)
  qed simp
  have "analyzer_ok (new_workload_analyzer n)" "wa_max (new_workload_analyzer n) = n" "wa_total (new_workload_analyzer n) = 0"
    by (simp_all add: analyzer_ok_def new_workload_analyzer_def)
  with inv [OF _ run] have ok: "analyzer_ok s" "wa_max s = n" "wa_total s = length es" by simp_all
  let ?d = "fold (\<lambda>p. dput (wp_id p) p) rs (wa_profiles s)"
  have s': "wa_profiles s' = drop_oldest n wp_updated ?d" "wa_total s' = length es + length rs"
    and stamped: "list_all (\<lambda>p. wp_updated p = t) rs"
    using an ok by (auto simp: analyze_workloads_def Let_def list_all_iff workload_profile_of_def)
  have wf: "dwf ?d" using ok keyed_fold_dput [of wp_id "wa_profiles s" rs] by (simp add: analyzer_ok_def keyed_def)
  have sub: "{k. \<exists>v. dget ?d k = Some v \<and> t \<le> wp_updated v} \<subseteq> set (map wp_id rs)"
  proof
    fix k assume "k \<in> {k. \<exists>v. dget ?d k = Some v \<and> t \<le> wp_updated v}"
    then obtain v where v: "dget ?d k = Some v" "t \<le> wp_updated v" by blast
    have "dget (wa_profiles s) k \<noteq> Some v"
      using newer v(2) dget_SomeD [of "wa_profiles s" k v] by (fastforce simp: list_all_iff)
    then obtain p where "find (\<lambda>p. wp_id p = k) (rev rs) = Some p"
      using v(1) by (auto simp: dget_fold_dput split: option.splits)
    from find_mem [OF this] show "k \<in> set (map wp_id rs)" by auto
  qed
  have "card {k. \<exists>v. dget ?d k = Some v \<and> t \<le> wp_updated v} \<le> n"
    using card_mono [OF _ sub] few by fastforce
  note recent = drop_oldest_recent [OF wf this]
  have "dget (wa_profiles s') i = Some p" if "find (\<lambda>p. wp_id p = i) (rev rs) = Some p" for i p
  proof -
    have "dget ?d i = Some p" using that by (simp add: dget_fold_dput)
    moreover have "p \<in> set rs" using find_mem [OF that] by simp
    then have "wp_updated p = t" using stamped by (simp add: list_all_iff)
    ultimately show ?thesis using recent by (simp add: s')
  qed
  moreover have "analyzer_ok s'" "wa_max s' = n" using analyzer_ok_step [OF ok(1), of t ws] an ok(2) by simp_all
  ultimately show ?thesis using s'(2) by (simp add: analyzer_ok_def split: option.splits)
qed

definition demo_workload :: "string \<Rightarrow> tele" where
  "demo_workload i = \<lparr>te_text = [(''workload_id'', i)], te_num = [(''error_rate'', 1 / 2)], te_workloads = []\<rparr>"

lemma demo_analyzer_run:
  "let (s, es) = run_outputs analyzer_step [(1, [demo_workload ''a''])] (new_workload_analyzer 1);
       (s', rs) = analyze_workloads 2 [demo_workload ''b''] s
   in list_all (\<lambda>p. wp_updated p < 2) (dvalues (wa_profiles s)) \<and> card (set (map wp_id rs)) \<le> 1
      \<and> length es = 1 \<and> length rs = 1 \<and> dkeys (wa_profiles s') = [''b'']"
  by code_simp

theorem analyzer_keeps_newest_witness:
  "\<exists>s es s' rs. run_outputs analyzer_step [(1, [demo_workload ''a''])] (new_workload_analyzer 1) = (s, es)
     \<and> analyze_workloads 2 [demo_workload ''b''] s = (s', rs) \<and> dkeys (wa_profiles s') = [''b'']
     \<and> list_all rated (dvalues (wa_profiles s'))"
proof -
  obtain s es where r: "run_outputs analyzer_step [(1, [demo_workload ''a''])] (new_workload_analyzer 1) = (s, es)" by fastforce
  obtain s' rs where a: "analyze_workloads 2 [demo_workload ''b''] s = (s', rs)" by fastforce
  have k: "list_all (\<lambda>p. wp_updated p < 2) (dvalues (wa_profiles s))" "card (set (map wp_id rs)) \<le> 1" "dkeys (wa_profiles s') = [''b'']"
    using demo_analyzer_run unfolding r a Let_def prod.case by simp_all
  note w = analyzer_keeps_newest [OF r k(1,2) a]
  show ?thesis by (intro exI conjI, rule r, rule a, rule k(3), rule w [THEN conjunct2, THEN conjunct1])
qed

text \<open>The number of migration candidates in the metrics leaves out those that only lack efficiency.\<close>

lemma candidates_disagree:
  "let s = fst (analyze_workloads 1 [\<lparr>te_text = [(''workload_id'', ''a'')],
       te_num = [(''gpu_usage'', 0), (''cpu_usage'', 5), (''latency_ms'', 150)], te_workloads = []\<rparr>] (new_workload_analyzer 5))
   in map wp_id (badly_placed s) = [''a''] \<and> snd (snd (snd (workload_analyzer_metrics s))) = 0"
  by code_simp

end
