(* ===== verification/Learning.thy ===== *)
theory Learning
  imports Forecasts Insights
begin

text \<open>
  What learns from past telemetry: insights from deviations (\<open>learning/historical_optimizer.py\<close>), patterns of
  metrics (\<open>learning/telemetry_learning.py\<close>) and patterns of workloads (\<open>learning/workload_patterns.py\<close>). The
  first is a forecaster in the sense of theory Forecasts, the others keep a table that loses its oldest entries.
  Recommendations are kept up to the figure that they end in, descriptions are left out. The square root of
  the standard deviation and the order in which Python enumerates a set are arguments.
\<close>

section \<open>Deviations from history\<close>

record historical_insight =
  hi_id :: string
  hi_category :: string
  hi_region :: string
  hi_avg :: rat
  hi_current :: rat
  hi_deviation :: rat
  hi_recommendation :: string
  hi_confidence :: rat
  hi_samples :: nat
  hi_at :: pyfloat

type_synonym historical_optimizer = "historical_insight forecaster"

definition historical_metrics :: "(string \<times> string) list" where
  "historical_metrics = [(''avg_latency_ms'', ''latency''), (''gpu_utilization'', ''gpu''), (''workload_saturation'', ''capacity''),
     (''error_rate'', ''reliability''), (''cost_per_hour'', ''cost'')]"

definition series_mean :: "rat list \<Rightarrow> rat" where
  "series_mean vs = sum_list vs / of_nat (length vs)"

definition historical_advice :: "string \<Rightarrow> string \<Rightarrow> rat \<Rightarrow> string" where
  "historical_advice metric rid dev =
     (if \<bar>dev\<bar> > 30
      then if metric = ''avg_latency_ms'' \<and> dev > 30 then ''Latency in '' @ rid @ '' is ''
           else if metric = ''gpu_utilization'' \<and> dev < -30 then ''GPU utilization in '' @ rid @ '' dropped ''
           else if metric = ''error_rate'' \<and> dev > 50 then ''Error rate in '' @ rid @ '' spiked ''
           else if metric = ''cost_per_hour'' \<and> dev > 20 then ''Costs in '' @ rid @ '' are '' else []
      else [])"

definition historical_one ::
    "nat \<Rightarrow> pyfloat \<Rightarrow> tele \<times> string \<times> string \<Rightarrow> metric_history \<Rightarrow> metric_history \<times> historical_insight list" where
  "historical_one window t q m =
     (let (r, metric, category) = q; rid = region_of r; v = num r metric 0; key = ''hist:'' @ metric @ '':'' @ rid;
          m' = record_sample window key v m; vs = samples m' key; avg = series_mean vs; dev = (v - avg) / avg * 100;
          advice = historical_advice metric rid dev
      in if length vs < 10 \<or> avg = 0 \<or> advice = [] then (m', [])
         else (m', [\<lparr>hi_id = stamped_id (''hist-'' @ metric @ ''-'') rid t, hi_category = category, hi_region = rid,
                    hi_avg = py_round avg 3, hi_current = py_round v 3, hi_deviation = py_round dev 1, hi_recommendation = advice,
                    hi_confidence = min (9 / 10) (3 / 10 + of_nat (length vs) * (6 / 1000)), hi_samples = length vs, hi_at = t\<rparr>]))"

definition historical_analyze ::
    "nat \<Rightarrow> pyfloat \<Rightarrow> tele list \<Rightarrow> historical_optimizer \<Rightarrow> historical_optimizer \<times> historical_insight list" where
  "historical_analyze window t rs = forecast_all (historical_one window t) (List.product rs historical_metrics)"

definition insights_for_region :: "string \<Rightarrow> historical_optimizer \<Rightarrow> historical_insight list" where
  "insights_for_region rid s = filter (\<lambda>i. hi_region i = rid) (fr_forecasts s)"

definition historical_optimizer_metrics :: "historical_optimizer \<Rightarrow> nat \<times> nat" where
  "historical_optimizer_metrics s = (fr_total s, length (fr_series s))"

interpretation historical_log: history fr_ok fr_forecasts fr_max_history fr_total
    "\<lambda>q :: pyfloat \<times> tele list. historical_analyze window (fst q) (snd q)" for window
proof
  show "fr_ok s \<Longrightarrow> historical_analyze window (fst q) (snd q) s = (s', es) \<Longrightarrow>
      fr_ok s' \<and> fr_max_history s' = fr_max_history s \<and> fr_forecasts s' = py_cap (fr_max_history s) (fr_forecasts s @ es)
        \<and> fr_total s' = fr_total s + length es" for q s s' es
    unfolding historical_analyze_def by (rule forecast_all_keeps)
qed (simp add: fr_ok_def)

text \<open>What an insight says of the deviation that led to it.\<close>

definition deviates :: "string \<Rightarrow> rat \<Rightarrow> bool" where
  "deviates category dev \<longleftrightarrow>
     category = ''latency'' \<and> dev > 30 \<or> category = ''gpu'' \<and> dev < -30 \<or> category = ''reliability'' \<and> dev > 50
     \<or> category = ''cost'' \<and> dev > 30"

definition insight_sound :: "nat \<Rightarrow> historical_insight \<Rightarrow> bool" where
  "insight_sound window i \<longleftrightarrow> 10 \<le> hi_samples i \<and> hi_samples i \<le> window \<and> 36 / 100 \<le> hi_confidence i \<and> hi_confidence i \<le> 9 / 10
     \<and> (\<exists>dev. hi_deviation i = py_round dev 1 \<and> deviates (hi_category i) dev)"

lemma historical_one_sound:
  assumes "0 < window" "i \<in> set (snd (historical_one window t q m))" "snd q \<in> set historical_metrics"
  shows "insight_sound window i"
proof -
  obtain r metric category where q: "q = (r, metric, category)" by (cases q) auto
  let ?key = "''hist:'' @ metric @ '':'' @ region_of r"
  let ?vs = "samples (record_sample window ?key (num r metric 0) m) ?key"
  let ?dev = "(num r metric 0 - series_mean ?vs) / series_mean ?vs * 100"
  have i: "10 \<le> length ?vs" "historical_advice metric (region_of r) ?dev \<noteq> []" "hi_samples i = length ?vs"
      "hi_deviation i = py_round ?dev 1" "hi_category i = category"
      "hi_confidence i = min (9 / 10) (3 / 10 + of_nat (length ?vs) * (6 / 1000))"
    using assms(2) by (auto simp: historical_one_def q Let_def split: if_splits)
  have len: "length ?vs \<le> window" using length_py_cap [OF assms(1)] by (simp add: samples_record_sample)
  have dev: "deviates category ?dev"
    using i(2) assms(3) by (auto simp: historical_advice_def historical_metrics_def deviates_def q split: if_splits)
  have "(10 :: rat) \<le> of_nat (length ?vs)" using i(1) by (metis of_nat_le_iff of_nat_numeral)
  then have c: "36 / 100 \<le> min (9 / 10) (3 / 10 + of_nat (length ?vs) * (6 / 1000 :: rat))
      \<and> min (9 / 10) (3 / 10 + of_nat (length ?vs) * (6 / 1000 :: rat)) \<le> 9 / 10" by (auto simp: min_def)
  show ?thesis unfolding insight_sound_def i(3-6) using i(1) len dev c by blast
qed

text \<open>C0. In every history, an insight rests on at least ten samples and on a deviation beyond the limit of its category in
  the direction that matters; the insights kept are the last of all that were given, each counted.\<close>

theorem historical_insights_sound:
  assumes pos: "0 < mh" "0 < window"
    and run: "run_outputs (\<lambda>q. historical_analyze window (fst q) (snd q)) qs (new_forecaster mh) = (s, es)"
  shows "list_all (insight_sound window) es \<and> fr_forecasts s = py_cap mh es \<and> fr_total s = length es"
proof -
  have "insight_sound window i" if i: "i \<in> set es" for i
  proof -
    obtain q s1 where "i \<in> set (snd (historical_analyze window (fst q) (snd q) s1))"
      using run_outputs_mem [OF run i] by blast
    then have "i \<in> set (snd (forecast_all (historical_one window (fst q)) (List.product (snd q) historical_metrics) s1))"
      by (simp add: historical_analyze_def)
    from forecast_all_mem [OF prod.collapse [symmetric] this]
    obtain p m where "p \<in> set (List.product (snd q) historical_metrics)" "i \<in> set (snd (historical_one window (fst q) p m))"
      by blast
    then show ?thesis by (intro historical_one_sound [OF pos(2)]) auto
  qed
  moreover have new: "fr_ok (new_forecaster mh :: historical_optimizer)" "fr_forecasts (new_forecaster mh :: historical_optimizer) = []"
      "fr_max_history (new_forecaster mh :: historical_optimizer) = mh" "fr_total (new_forecaster mh :: historical_optimizer) = 0"
    using pos(1) by (simp_all add: fr_ok_def new_forecaster_def)
  moreover note historical_log.history_complete [OF new(1) _ run]
  ultimately show ?thesis by (simp add: list_all_iff)
qed

lemma spike_is_found:
  "map (\<lambda>i. (hi_id i, hi_deviation i)) (snd (historical_one 100 7 (tele_of ''eu'' [(''error_rate'', 3)], ''error_rate'', ''reliability'')
     [(''hist:error_rate:eu'', [1, 1, 1, 1, 1, 1, 1, 1, 1])])) = [(''hist-error_rate-eu-7'', 150)]"
  by code_simp

theorem historical_insights_sound_witness:
  "\<exists>s es. run_outputs (\<lambda>q. historical_analyze 100 (fst q) (snd q)) [(7, [tele_of ''eu'' [(''error_rate'', 3)]])] (new_forecaster 5) = (s, es)
     \<and> list_all (insight_sound 100) es \<and> fr_forecasts s = py_cap 5 es"
proof -
  obtain s es where r: "run_outputs (\<lambda>q. historical_analyze 100 (fst q) (snd q)) [(7, [tele_of ''eu'' [(''error_rate'', 3)]])] (new_forecaster 5) = (s, es)"
    by fastforce
  have pos: "(0::nat) < 5" "(0::nat) < 100" by simp_all
  note w = historical_insights_sound [OF pos r]
  show ?thesis by (intro exI conjI, rule r, rule w [THEN conjunct1], rule w [THEN conjunct2, THEN conjunct1])
qed

text \<open>The limit of 20 per cent for costs stands behind one of 30 per cent; saturation is recorded and never leads to anything.\<close>

lemma cost_band_silent: "\<bar>dev\<bar> \<le> 30 \<Longrightarrow> historical_advice ''cost_per_hour'' rid dev = []"
  by (simp add: historical_advice_def)

lemma capacity_silent: "historical_advice ''workload_saturation'' rid dev = []"
  by (simp add: historical_advice_def)

section \<open>Learned patterns of metrics\<close>

record learned_pattern =
  lp_id :: string
  lp_metric :: string
  lp_region :: string
  lp_type :: string
  lp_confidence :: rat
  lp_samples :: nat
  lp_avg :: rat
  lp_stddev :: rat
  lp_trend :: string
  lp_actionable :: bool
  lp_recommendation :: string
  lp_at :: pyfloat

record learner =
  ln_min_samples :: nat
  ln_max_patterns :: nat
  ln_series :: metric_history
  ln_patterns :: "(string, learned_pattern) dict"
  ln_total :: nat

text \<open>Events of scaling and deployment: the region and whether it succeeded.\<close>

record learning_input =
  li_regions :: "tele list"
  li_scaling :: "(string option \<times> bool) list"
  li_deployments :: "(string option \<times> bool) list"

definition new_learner :: "nat \<Rightarrow> nat \<Rightarrow> learner" where
  "new_learner mn mx = \<lparr>ln_min_samples = mn, ln_max_patterns = mx, ln_series = [], ln_patterns = [], ln_total = 0\<rparr>"

definition learned_metrics :: "string list" where
  "learned_metrics = [''avg_latency_ms'', ''workload_saturation'', ''gpu_utilization'', ''requests_per_second'', ''error_rate'',
     ''bandwidth_usage_mbps'']"

definition compute_stats :: "(rat \<Rightarrow> rat) \<Rightarrow> rat list \<Rightarrow> rat \<times> rat" where
  "compute_stats rt vs =
     (if vs = [] then (0, 0)
      else let mn = series_mean vs
           in if length vs < 2 then (mn, 0)
              else (mn, rt (sum_list (map (\<lambda>v. (v - mn)\<^sup>2) vs) / of_nat (length vs))))"

definition detect_trend :: "rat list \<Rightarrow> string" where
  "detect_trend vs =
     (if length vs < 5 then ''stable''
      else let h = length vs div 2; first = sum_list (take h vs) / of_nat h;
               second = sum_list (drop h vs) / of_nat (length vs - h)
           in if first = 0 then ''stable''
              else if second / first > 115 / 100 then ''increasing''
              else if second / first < 85 / 100 then ''decreasing'' else ''stable'')"

definition learned_advice :: "string \<Rightarrow> string \<Rightarrow> rat \<Rightarrow> string \<Rightarrow> string" where
  "learned_advice metric rid avg trend =
     (if metric = ''workload_saturation'' \<and> avg > 75 / 100 \<and> trend = ''increasing''
      then ''Pre-scale '' @ rid @ '': sustained high saturation trending up''
      else if metric = ''gpu_utilization'' \<and> avg < 3 / 10
      then ''Consolidate GPU workloads in '' @ rid @ '': low average utilization''
      else if metric = ''error_rate'' \<and> avg > 5 / 100 then ''Investigate '' @ rid @ '': elevated error rate pattern''
      else if metric = ''avg_latency_ms'' \<and> avg > 200 \<and> trend = ''increasing''
      then ''Reroute from '' @ rid @ '': latency trending upward'' else [])"

definition learn_metric ::
    "(rat \<Rightarrow> rat) \<Rightarrow> nat \<Rightarrow> pyfloat \<Rightarrow> tele \<times> string \<Rightarrow> metric_history \<Rightarrow> metric_history \<times> learned_pattern list" where
  "learn_metric rt mn t q m =
     (let (r, metric) = q; rid = region_of r; key = metric @ '':'' @ rid; m' = record_sample 500 key (num r metric 0) m;
          vs = samples m' key; (avg, sd) = compute_stats rt vs; trend = detect_trend vs; advice = learned_advice metric rid avg trend
      in if length vs < mn then (m', [])
         else (m', [\<lparr>lp_id = ''pattern-'' @ metric @ ''-'' @ rid, lp_metric = metric, lp_region = rid, lp_type = trend @ ''_'' @ metric,
                    lp_confidence = py_round (min (95 / 100) (3 / 10 + of_nat (length vs) * (5 / 1000))) 3, lp_samples = length vs,
                    lp_avg = py_round avg 3, lp_stddev = py_round sd 3, lp_trend = trend, lp_actionable = (advice \<noteq> []),
                    lp_recommendation = advice, lp_at = t\<rparr>]))"

definition record_outcome :: "string \<Rightarrow> string option \<times> bool \<Rightarrow> metric_history \<Rightarrow> metric_history" where
  "record_outcome prefix e =
     record_sample 500 (prefix @ (case fst e of Some r \<Rightarrow> r | None \<Rightarrow> ''unknown'')) (if snd e then 1 else 0)"

definition learn :: "(rat \<Rightarrow> rat) \<Rightarrow> pyfloat \<Rightarrow> learning_input \<Rightarrow> learner \<Rightarrow> learner \<times> learned_pattern list" where
  "learn rt t x s =
     (let (m, ps) = run_outputs (learn_metric rt (ln_min_samples s) t) (List.product (li_regions x) learned_metrics) (ln_series s);
          m1 = fold (record_outcome ''scaling_success:'') (li_scaling x) m;
          m2 = fold (record_outcome ''deploy_success:'') (li_deployments x) m1
      in (s\<lparr>ln_series := m2, ln_total := ln_total s + length ps,
            ln_patterns := drop_oldest (ln_max_patterns s) lp_at (fold (\<lambda>p. dput (lp_id p) p) ps (ln_patterns s))\<rparr>, ps))"

definition actionable_insights :: "learner \<Rightarrow> learned_pattern list" where
  "actionable_insights s = filter lp_actionable (dvalues (ln_patterns s))"

definition patterns_for_region :: "string \<Rightarrow> learner \<Rightarrow> learned_pattern list" where
  "patterns_for_region rid s = filter (\<lambda>p. lp_region p = rid) (dvalues (ln_patterns s))"

definition learner_metrics :: "learner \<Rightarrow> nat \<times> nat \<times> nat \<times> nat" where
  "learner_metrics s = (ln_total s, length (ln_patterns s), length (filter lp_actionable (dvalues (ln_patterns s))), length (ln_series s))"

definition learner_step :: "(rat \<Rightarrow> rat) \<Rightarrow> pyfloat \<times> learning_input \<Rightarrow> learner \<Rightarrow> learner \<times> learned_pattern list" where
  "learner_step rt q s = learn rt (fst q) (snd q) s"

definition pattern_sound :: "nat \<Rightarrow> learned_pattern \<Rightarrow> bool" where
  "pattern_sound mn p \<longleftrightarrow> mn \<le> lp_samples p \<and> lp_samples p \<le> 500 \<and> 3 / 10 \<le> lp_confidence p \<and> lp_confidence p \<le> 95 / 100
     \<and> (lp_actionable p \<longleftrightarrow> lp_recommendation p \<noteq> []) \<and> lp_id p = ''pattern-'' @ lp_metric p @ ''-'' @ lp_region p
     \<and> lp_type p = lp_trend p @ ''_'' @ lp_metric p"

lemma learn_metric_sound:
  assumes "p \<in> set (snd (learn_metric rt mn t q m))"
  shows "pattern_sound mn p"
proof -
  obtain r metric where q: "q = (r, metric)" by fastforce
  let ?key = "metric @ '':'' @ region_of r"
  let ?vs = "samples (record_sample 500 ?key (num r metric 0) m) ?key"
  let ?c = "min (95 / 100) (3 / 10 + of_nat (length ?vs) * (5 / 1000))"
  have p: "mn \<le> length ?vs" "lp_samples p = length ?vs" "lp_confidence p = py_round ?c 3" "lp_actionable p \<longleftrightarrow> lp_recommendation p \<noteq> []"
      "lp_id p = ''pattern-'' @ lp_metric p @ ''-'' @ lp_region p" "lp_type p = lp_trend p @ ''_'' @ lp_metric p"
    using assms by (auto simp: learn_metric_def q Let_def split: if_splits prod.splits)
  have "length ?vs \<le> 500" using length_py_cap [of 500] by (simp add: samples_record_sample)
  moreover have "py_round (3 / 10) 3 \<le> py_round ?c 3" "py_round ?c 3 \<le> py_round (95 / 100) 3" by (rule py_round_mono, simp) (rule py_round_mono, rule min.cobounded1)
  moreover have "py_round (3 / 10) 3 = 3 / 10" "py_round (95 / 100) 3 = 95 / 100" by code_simp+
  ultimately show ?thesis unfolding pattern_sound_def using p by simp
qed

definition learner_ok :: "nat \<Rightarrow> nat \<Rightarrow> learner \<Rightarrow> bool" where
  "learner_ok mn mx s \<longleftrightarrow> ln_min_samples s = mn \<and> ln_max_patterns s = mx \<and> keyed lp_id (ln_patterns s)
     \<and> length (ln_patterns s) \<le> mx \<and> list_all (pattern_sound mn) (dvalues (ln_patterns s))"

lemma learner_ok_step:
  assumes ok: "learner_ok mn mx s" and st: "learn rt t x s = (s', ps)"
  shows "learner_ok mn mx s' \<and> ln_total s' = ln_total s + length ps \<and> list_all (pattern_sound mn) ps"
proof -
  obtain m where run: "run_outputs (learn_metric rt mn t) (List.product (li_regions x) learned_metrics) (ln_series s) = (m, ps)"
    and s': "ln_patterns s' = drop_oldest mx lp_at (fold (\<lambda>p. dput (lp_id p) p) ps (ln_patterns s))"
      "ln_total s' = ln_total s + length ps" "ln_min_samples s' = mn" "ln_max_patterns s' = mx"
    using ok st by (auto simp: learn_def learner_ok_def Let_def split: prod.splits)
  have sound: "list_all (pattern_sound mn) ps"
    using run_outputs_mem [OF run] learn_metric_sound by (fastforce simp: list_all_iff)
  let ?d = "fold (\<lambda>p. dput (lp_id p) p) ps (ln_patterns s)"
  have k: "keyed lp_id ?d" using ok by (simp add: keyed_fold_dput learner_ok_def)
  then have wf: "dwf ?d" by (simp add: keyed_def)
  have "list_all (pattern_sound mn) (dvalues ?d)" using ok sound unfolding learner_ok_def by (intro list_all_fold_dput) auto
  then show ?thesis using keyed_drop_oldest [OF k] list_all_drop_oldest [OF wf] drop_oldest_keeps [OF wf] s' sound
    by (simp add: learner_ok_def)
qed

text \<open>C0. Whatever is learned, the table of patterns never exceeds its bound and is keyed by the pattern; every pattern rests
  on enough samples and at most 500, its confidence lies between 0.3 and 0.95, it is actionable exactly when
  it recommends something, and all patterns ever learned are counted.\<close>

theorem learned_patterns_sound:
  assumes "run_outputs (learner_step rt) qs (new_learner mn mx) = (s, es)"
  shows "keyed lp_id (ln_patterns s) \<and> length (ln_patterns s) \<le> mx \<and> list_all (pattern_sound mn) (dvalues (ln_patterns s))
    \<and> list_all (pattern_sound mn) es \<and> ln_total s = length es"
proof -
  have all: "learner_ok mn mx s2 \<and> ln_total s2 = ln_total s1 + length es2 \<and> list_all (pattern_sound mn) es2"
    if "learner_ok mn mx s1" "run_outputs (learner_step rt) qs s1 = (s2, es2)" for s1 s2 es2
    using that
  proof (induction qs arbitrary: s1 es2)
    case (Cons q qs)
    obtain s3 e3 where one: "learn rt (fst q) (snd q) s1 = (s3, e3)" by fastforce
    then have step: "learner_step rt q s1 = (s3, e3)" by (simp add: learner_step_def)
    note k = learner_ok_step [OF Cons.prems(1) one]
    obtain e4 where rest: "run_outputs (learner_step rt) qs s3 = (s2, e4)" and es: "es2 = e3 @ e4"
      using Cons.prems(2) step by (auto split: prod.splits)
    from Cons.IH [OF conjunct1 [OF k] rest] k show ?case by (simp add: es)
  qed simp
  have new: "learner_ok mn mx (new_learner mn mx)" "ln_total (new_learner mn mx) = 0"
    by (simp_all add: learner_ok_def new_learner_def)
  show ?thesis using all [OF new(1) assms] new(2) by (simp add: learner_ok_def)
qed

definition demo_lessons :: "(pyfloat \<times> learning_input) list" where
  "demo_lessons = map (\<lambda>v. (7, \<lparr>li_regions = [tele_of ''eu'' [(''error_rate'', v)]], li_scaling = [], li_deployments = []\<rparr>)) [1 / 10, 2 / 10]"

lemma demo_lessons_run:
  "map lp_id (actionable_insights (fst (run_outputs (learner_step (\<lambda>x. x)) demo_lessons (new_learner 2 2)))) = [''pattern-error_rate-eu'']
   \<and> length (snd (run_outputs (learner_step (\<lambda>x. x)) demo_lessons (new_learner 2 2))) = 6"
  by code_simp

theorem learned_patterns_sound_witness:
  "\<exists>s es. run_outputs (learner_step (\<lambda>x. x)) demo_lessons (new_learner 2 2) = (s, es) \<and> length (ln_patterns s) \<le> 2
     \<and> list_all (pattern_sound 2) es"
proof -
  obtain s es where r: "run_outputs (learner_step (\<lambda>x. x)) demo_lessons (new_learner 2 2) = (s, es)" by fastforce
  note w = learned_patterns_sound [OF r]
  show ?thesis by (intro exI conjI, rule r, rule w [THEN conjunct2, THEN conjunct1],
      rule w [THEN conjunct2, THEN conjunct2, THEN conjunct2, THEN conjunct1])
qed

text \<open>The successes of scaling and of deployments are recorded, and no pattern is ever learned from them.\<close>

lemma outcomes_not_learned:
  "snd (learn rt t (x\<lparr>li_scaling := a, li_deployments := b\<rparr>) s) = snd (learn rt t x s)"
  by (simp add: learn_def Let_def split: prod.splits)

section \<open>Patterns of workloads\<close>

record workload_pattern =
  wq_id :: string
  wq_type :: string
  wq_region :: string
  wq_duration :: rat
  wq_gpu :: rat
  wq_memory :: rat
  wq_frequency :: rat
  wq_success :: rat
  wq_gpu_type :: string
  wq_samples :: nat
  wq_updated :: pyfloat

record pattern_analyzer =
  wq_min_samples :: nat
  wq_max_patterns :: nat
  wq_raw :: "(string, tele list) dict"
  wq_patterns :: "(string, workload_pattern) dict"
  wq_total :: nat

definition new_pattern_analyzer :: "nat \<Rightarrow> nat \<Rightarrow> pattern_analyzer" where
  "new_pattern_analyzer mn mx = \<lparr>wq_min_samples = mn, wq_max_patterns = mx, wq_raw = [], wq_patterns = [], wq_total = 0\<rparr>"

definition pattern_key :: "string \<Rightarrow> string \<Rightarrow> string" where
  "pattern_key ty rid = ty @ '':'' @ rid"

text \<open>\<open>key.split(":", 1)\<close>\<close>

definition split_key :: "string \<Rightarrow> string \<times> string" where
  "split_key key =
     (let ty = takeWhile (\<lambda>c. c \<noteq> CHR '':'') key; rest = dropWhile (\<lambda>c. c \<noteq> CHR '':'') key
      in (ty, if rest = [] then ''global'' else tl rest))"

definition record_observation :: "string \<Rightarrow> tele \<Rightarrow> pattern_analyzer \<Rightarrow> pattern_analyzer" where
  "record_observation ty w s =
     (let key = pattern_key ty (text_of w ''region_id'' ''global'')
      in s\<lparr>wq_raw := dput key (py_cap 200 ((case dget (wq_raw s) key of Some os \<Rightarrow> os | None \<Rightarrow> []) @ [w])) (wq_raw s)\<rparr>)"

definition mean_or_zero :: "rat list \<Rightarrow> rat" where
  "mean_or_zero vs = (if vs \<noteq> [] then sum_list vs / of_nat (length vs) else 0)"

definition present :: "string \<Rightarrow> tele list \<Rightarrow> rat list" where
  "present k os = List.map_filter (\<lambda>w. dget (te_num w) k) os"

definition preferred_gpu :: "(string list \<Rightarrow> string list) \<Rightarrow> tele list \<Rightarrow> string" where
  "preferred_gpu elements os =
     (let ts = filter (\<lambda>g. g \<noteq> []) (map (\<lambda>w. text_of w ''gpu_type'' []) os)
      in case elements (remdups ts) of [] \<Rightarrow> [] | g # gs \<Rightarrow> py_max (count_list ts) g gs)"

text \<open>An observation succeeded unless it says otherwise; the flag is a number, false when it is 0.\<close>

definition pattern_of :: "(string list \<Rightarrow> string list) \<Rightarrow> pyfloat \<Rightarrow> string \<Rightarrow> tele list \<Rightarrow> workload_pattern" where
  "pattern_of elements t key os =
     \<lparr>wq_id = ''wp-'' @ key, wq_type = fst (split_key key), wq_region = snd (split_key key),
      wq_duration = py_round (mean_or_zero (filter (\<lambda>v. v \<noteq> 0) (present ''duration_ms'' os))) 1,
      wq_gpu = py_round (mean_or_zero (present ''gpu_usage'' os)) 3,
      wq_memory = py_round (mean_or_zero (filter (\<lambda>v. v \<noteq> 0) (present ''memory_mb'' os))) 1,
      wq_frequency = py_round (of_nat (length os) / max 1 ((t - num (hd os) ''ts'' t) / 3600)) 2,
      wq_success = py_round (if os \<noteq> [] then of_nat (length (filter (\<lambda>w. num w ''success'' 1 \<noteq> 0) os)) / of_nat (length os) else 1) 3,
      wq_gpu_type = preferred_gpu elements os, wq_samples = length os, wq_updated = t\<rparr>"

definition analyze_patterns ::
    "(string list \<Rightarrow> string list) \<Rightarrow> pyfloat \<Rightarrow> tele list \<Rightarrow> pattern_analyzer \<Rightarrow> pattern_analyzer \<times> workload_pattern list" where
  "analyze_patterns elements t ws s =
     (let s1 = fold (\<lambda>w. record_observation (text_of w ''workload_type'' ''inference'') w) ws s;
          kps = map (\<lambda>(key, os). (key, pattern_of elements t key os)) (filter (\<lambda>p. wq_min_samples s \<le> length (snd p)) (wq_raw s1))
      in (s1\<lparr>wq_patterns := drop_oldest (wq_max_patterns s) wq_updated (fold (\<lambda>(k, p). dput k p) kps (wq_patterns s1)),
             wq_total := wq_total s1 + length kps\<rparr>, map snd kps))"

definition get_pattern :: "string \<Rightarrow> string \<Rightarrow> pattern_analyzer \<Rightarrow> workload_pattern option" where
  "get_pattern ty rid s = dget (wq_patterns s) (pattern_key ty rid)"

definition low_success_patterns :: "rat \<Rightarrow> pattern_analyzer \<Rightarrow> workload_pattern list" where
  "low_success_patterns threshold s = filter (\<lambda>p. wq_success p < threshold) (dvalues (wq_patterns s))"

definition pattern_analyzer_metrics :: "pattern_analyzer \<Rightarrow> nat \<times> nat \<times> nat" where
  "pattern_analyzer_metrics s = (wq_total s, length (wq_patterns s), length (wq_raw s))"

subsection \<open>Series of observations\<close>

definition raw_ok :: "pattern_analyzer \<Rightarrow> bool" where
  "raw_ok s \<longleftrightarrow> dwf (wq_raw s) \<and> list_all (\<lambda>os. os \<noteq> [] \<and> length os \<le> 200) (dvalues (wq_raw s))"

lemma raw_ok_record: "raw_ok s \<Longrightarrow> raw_ok (record_observation ty w s)"
proof -
  assume ok: "raw_ok s"
  let ?os = "(case dget (wq_raw s) (pattern_key ty (text_of w ''region_id'' ''global'')) of Some os \<Rightarrow> os | None \<Rightarrow> []) @ [w]"
  have "length (py_cap 200 ?os) \<le> 200" by (rule length_py_cap) simp
  moreover have "py_cap 200 (xs @ [w]) \<noteq> []" for xs using py_cap_snoc_mem [of w 200 xs] by auto
  ultimately show ?thesis using ok unfolding raw_ok_def record_observation_def Let_def
    by (intro conjI) (auto intro: list_all_dput)
qed

lemma record_observation_frame:
  "wq_patterns (record_observation ty w s) = wq_patterns s" "wq_max_patterns (record_observation ty w s) = wq_max_patterns s"
  "wq_min_samples (record_observation ty w s) = wq_min_samples s" "wq_total (record_observation ty w s) = wq_total s"
  by (simp_all add: record_observation_def Let_def)

definition pattern_ok :: "nat \<Rightarrow> string \<Rightarrow> workload_pattern \<Rightarrow> bool" where
  "pattern_ok mn key p \<longleftrightarrow> wq_id p = ''wp-'' @ key \<and> (wq_type p, wq_region p) = split_key key
     \<and> mn \<le> wq_samples p \<and> 0 < wq_samples p \<and> wq_samples p \<le> 200 \<and> unit_score (wq_success p)"

lemma pattern_of_ok:
  assumes "mn \<le> length os" "os \<noteq> []" "length os \<le> 200"
  shows "pattern_ok mn key (pattern_of elements t key os)"
proof -
  have "length (filter (\<lambda>w. num w ''success'' 1 \<noteq> 0) os) \<le> length os" by (rule length_filter_le)
  then have "unit_score (of_nat (length (filter (\<lambda>w. num w ''success'' 1 \<noteq> 0) os)) / of_nat (length os) :: rat)"
    using assms(2) by (simp add: unit_score_def divide_le_eq)
  then have "unit_score (wq_success (pattern_of elements t key os))"
    using assms(2) by (simp add: pattern_of_def py_round_unit)
  then show ?thesis using assms by (simp add: pattern_ok_def pattern_of_def)
qed

definition patterns_ok :: "nat \<Rightarrow> nat \<Rightarrow> pattern_analyzer \<Rightarrow> bool" where
  "patterns_ok mn mx s \<longleftrightarrow> raw_ok s \<and> wq_min_samples s = mn \<and> wq_max_patterns s = mx \<and> dwf (wq_patterns s)
     \<and> length (wq_patterns s) \<le> mx \<and> list_all (\<lambda>(k, p). pattern_ok mn k p) (wq_patterns s)"

lemma fold_pairs:
  "dwf d \<Longrightarrow> \<forall>k p. dget d k = Some p \<longrightarrow> Q k p \<Longrightarrow> \<forall>x \<in> set xs. Q (fst x) (snd x) \<Longrightarrow>
     dwf (fold (\<lambda>(k, p). dput k p) xs d) \<and> (\<forall>k p. dget (fold (\<lambda>(k, p). dput k p) xs d) k = Some p \<longrightarrow> Q k p)"
proof (induction xs arbitrary: d)
  case (Cons x xs)
  have "\<forall>k p. dget (dput (fst x) (snd x) d) k = Some p \<longrightarrow> Q k p" using Cons.prems(2,3) by auto
  from Cons.IH [OF dwf_dput [OF Cons.prems(1)] this] Cons.prems(3) show ?case by (simp add: case_prod_beta)
qed simp

lemma patterns_ok_analyze:
  assumes ok: "patterns_ok mn mx s"
  shows "patterns_ok mn mx (fst (analyze_patterns elements t ws s))"
proof -
  define s1 where "s1 = fold (\<lambda>w. record_observation (text_of w ''workload_type'' ''inference'') w) ws s"
  have s1: "raw_ok s1 \<and> wq_patterns s1 = wq_patterns s \<and> wq_max_patterns s1 = wq_max_patterns s
      \<and> wq_min_samples s1 = wq_min_samples s"
    unfolding s1_def
    by (rule fold_inv [where P = "\<lambda>x. raw_ok x \<and> wq_patterns x = wq_patterns s \<and> wq_max_patterns x = wq_max_patterns s
      \<and> wq_min_samples x = wq_min_samples s"])
      (use ok in \<open>auto simp: raw_ok_record record_observation_frame patterns_ok_def\<close>)
  define kps where "kps = map (\<lambda>(key, os). (key, pattern_of elements t key os)) (filter (\<lambda>p. wq_min_samples s \<le> length (snd p)) (wq_raw s1))"
  have new: "pattern_ok mn (fst x) (snd x)" if x: "x \<in> set kps" for x
  proof -
    obtain key os where "(key, os) \<in> set (wq_raw s1)" "mn \<le> length os" "x = (key, pattern_of elements t key os)"
      using x ok by (auto simp: kps_def patterns_ok_def)
    moreover from this have "os \<in> set (dvalues (wq_raw s1))" by force
    then have "os \<noteq> [] \<and> length os \<le> 200" using s1 unfolding raw_ok_def list_all_iff by blast
    ultimately show ?thesis by (simp add: pattern_of_ok)
  qed
  let ?d = "fold (\<lambda>(k, p). dput k p) kps (wq_patterns s1)"
  have old: "\<forall>k p. dget (wq_patterns s1) k = Some p \<longrightarrow> pattern_ok mn k p"
    using ok s1 by (auto simp: patterns_ok_def list_all_iff dest: dget_SomeD)
  have "dwf (wq_patterns s1)" using ok s1 by (simp add: patterns_ok_def)
  from fold_pairs [OF this old] new have "dwf ?d \<and> (\<forall>k p. dget ?d k = Some p \<longrightarrow> pattern_ok mn k p)" by blast
  note d = conjunct1 [OF this] conjunct2 [OF this]
  note keeps = drop_oldest_keeps [OF d(1), of mx wq_updated]
  have "pattern_ok mn (fst x) (snd x)" if "x \<in> set (drop_oldest mx wq_updated ?d)" for x
  proof -
    have "dget (drop_oldest mx wq_updated ?d) (fst x) = Some (snd x)" using that keeps by (simp add: dwf_dget_iff)
    then show ?thesis using keeps d(2) by blast
  qed
  then have "list_all (\<lambda>(k, p). pattern_ok mn k p) (drop_oldest mx wq_updated ?d)" by (simp add: list_all_iff case_prod_beta)
  moreover have "wq_patterns (fst (analyze_patterns elements t ws s)) = drop_oldest mx wq_updated ?d"
      "wq_raw (fst (analyze_patterns elements t ws s)) = wq_raw s1"
      "wq_max_patterns (fst (analyze_patterns elements t ws s)) = mx" "wq_min_samples (fst (analyze_patterns elements t ws s)) = mn"
    using ok s1 by (simp_all add: analyze_patterns_def Let_def s1_def kps_def patterns_ok_def)
  ultimately show ?thesis using keeps s1 by (simp add: patterns_ok_def raw_ok_def)
qed

text \<open>The key of a pattern gives back the type and region of its workloads, unless the type has a colon.\<close>

lemma split_pattern_key: "CHR '':'' \<notin> set ty \<Longrightarrow> split_key (pattern_key ty rid) = (ty, rid)"
  by (simp add: split_key_def pattern_key_def takeWhile_append dropWhile_append)

lemma colon_in_type: "split_key (pattern_key ''llm:chat'' ''eu'') = (''llm'', ''chat:eu'')"
  by code_simp

text \<open>C33: C0. Whatever is analysed, in any order and for any enumeration of sets, the table of patterns never exceeds its bound,
  and each pattern stands for its key, rests on enough and at most 200 observations and has a success rate
  between 0 and 1; for a type without a colon, looking up type and region gives a pattern of just these.\<close>

theorem workload_patterns_sound:
  assumes "s = fold (\<lambda>q s. fst (analyze_patterns elements (fst q) (snd q) s)) qs (new_pattern_analyzer mn mx)"
    and "get_pattern ty rid s = Some p" "CHR '':'' \<notin> set ty"
  shows "length (wq_patterns s) \<le> mx \<and> wq_type p = ty \<and> wq_region p = rid \<and> mn \<le> wq_samples p \<and> 0 < wq_samples p
    \<and> wq_samples p \<le> 200 \<and> unit_score (wq_success p)"
proof -
  have new: "patterns_ok mn mx (new_pattern_analyzer mn mx)"
    by (simp add: patterns_ok_def new_pattern_analyzer_def raw_ok_def)
  have "patterns_ok mn mx s"
    unfolding assms(1) by (rule fold_inv) (rule patterns_ok_analyze, assumption, rule new)
  then have len: "length (wq_patterns s) \<le> mx" and all: "list_all (\<lambda>(k, p). pattern_ok mn k p) (wq_patterns s)"
    by (simp_all add: patterns_ok_def)
  have "(pattern_key ty rid, p) \<in> set (wq_patterns s)" using assms(2) by (simp add: get_pattern_def dget_SomeD)
  then have "pattern_ok mn (pattern_key ty rid) p" using all by (auto simp: list_all_iff)
  with len split_pattern_key [OF assms(3), of rid] show ?thesis by (simp add: pattern_ok_def)
qed

definition demo_observations :: "(pyfloat \<times> tele list) list" where
  "demo_observations = [(1, [tele_of ''eu'' [(''duration_ms'', 10)], tele_of ''eu'' [(''success'', 0)]])]"

lemma demo_observations_run:
  "map_option (\<lambda>p. (wq_success p, wq_samples p))
     (get_pattern ''inference'' ''eu'' (fold (\<lambda>q s. fst (analyze_patterns (\<lambda>x. x) (fst q) (snd q) s)) demo_observations (new_pattern_analyzer 2 9)))
   = Some (1 / 2, 2)"
  by code_simp

theorem workload_patterns_sound_witness:
  "\<exists>s p. s = fold (\<lambda>q s. fst (analyze_patterns (\<lambda>x. x) (fst q) (snd q) s)) demo_observations (new_pattern_analyzer 2 9)
     \<and> get_pattern ''inference'' ''eu'' s = Some p \<and> wq_type p = ''inference''"
proof -
  let ?s = "fold (\<lambda>q s. fst (analyze_patterns (\<lambda>x. x) (fst q) (snd q) s)) demo_observations (new_pattern_analyzer 2 9)"
  obtain p where p: "get_pattern ''inference'' ''eu'' ?s = Some p" using demo_observations_run by blast
  have c: "CHR '':'' \<notin> set ''inference''" by code_simp
  note w = workload_patterns_sound [OF refl p c]
  show ?thesis by (intro exI conjI, rule refl, rule p, rule w [THEN conjunct2, THEN conjunct1])
qed

end
