(* ===== verification/Observability.thy ===== *)
theory Observability
  imports Engines Regions ControlPlane
begin

text \<open>
  Collectors of metrics and what is decided from them: global, regional and routing metrics
  (\<open>telemetry/global_metrics.py\<close>, \<open>telemetry/regional_metrics.py\<close>, \<open>telemetry/routing_metrics.py\<close>), relays
  between regions (\<open>adaptation/topology_optimizer.py\<close>, an engine in the sense of theory Engines), the nearest
  region (\<open>regions/geo_routing.py\<close>) and the discovery of nodes (\<open>control_plane/discovery.py\<close>). The distance on
  the globe and the answers of probed hosts are arguments.
\<close>

section \<open>Global metrics\<close>

record global_metrics =
  gm_counters :: "(string, int) dict"
  gm_gauges :: "(string, rat) dict"
  gm_histograms :: metric_history
  gm_events :: "(pyfloat \<times> string \<times> (string, json) dict) list"
  gm_regional :: "(string, (string, json) dict) dict"

definition new_global_metrics :: global_metrics where
  "new_global_metrics = \<lparr>gm_counters = [], gm_gauges = [], gm_histograms = [], gm_events = [], gm_regional = []\<rparr>"

definition counter_of :: "global_metrics \<Rightarrow> string \<Rightarrow> int" where
  "counter_of s name = (case dget (gm_counters s) name of Some v \<Rightarrow> v | None \<Rightarrow> 0)"

definition inc_counter :: "string \<Rightarrow> int \<Rightarrow> global_metrics \<Rightarrow> global_metrics" where
  "inc_counter name delta s = s\<lparr>gm_counters := dput name (counter_of s name + delta) (gm_counters s)\<rparr>"

definition set_gauge :: "string \<Rightarrow> rat \<Rightarrow> global_metrics \<Rightarrow> global_metrics" where
  "set_gauge name v s = s\<lparr>gm_gauges := dput name v (gm_gauges s)\<rparr>"

definition record_histogram :: "string \<Rightarrow> rat \<Rightarrow> global_metrics \<Rightarrow> global_metrics" where
  "record_histogram name v s = s\<lparr>gm_histograms := Telemetry.record_sample 1000 name v (gm_histograms s)\<rparr>"

definition record_metric_event :: "pyfloat \<Rightarrow> string \<Rightarrow> (string, json) dict \<Rightarrow> global_metrics \<Rightarrow> global_metrics" where
  "record_metric_event t ev details s = s\<lparr>gm_events := py_cap 500 (gm_events s @ [(t, ev, details)])\<rparr>"

definition update_regional_data :: "pyfloat \<Rightarrow> string \<Rightarrow> (string, json) dict \<Rightarrow> global_metrics \<Rightarrow> global_metrics" where
  "update_regional_data t rid data s = s\<lparr>gm_regional := dput rid (dput ''updated_at'' (JNum t) data) (gm_regional s)\<rparr>"

definition record_request_flow ::
    "pyfloat \<Rightarrow> string \<Rightarrow> string \<Rightarrow> string \<Rightarrow> rat \<Rightarrow> bool \<Rightarrow> global_metrics \<Rightarrow> global_metrics" where
  "record_request_flow t rid src tgt latency ok s =
     record_metric_event t ''request_flow''
       [(''request_id'', JStr rid), (''source'', JStr src), (''target'', JStr tgt), (''latency_ms'', JNum latency), (''success'', JBool ok)]
       (record_histogram (''request_latency_ms:'' @ tgt) latency
         (record_histogram ''request_latency_ms'' latency
           (inc_counter (if ok then ''global_requests_success'' else ''global_requests_failed'') 1
             (inc_counter ''global_requests_total'' 1 s))))"

definition record_cross_region_latency :: "string \<Rightarrow> string \<Rightarrow> rat \<Rightarrow> global_metrics \<Rightarrow> global_metrics" where
  "record_cross_region_latency src tgt latency s =
     set_gauge (''latency:'' @ src @ '':'' @ tgt) latency (record_histogram ''cross_region_latency_ms'' latency s)"

definition record_replication_lag :: "string \<Rightarrow> rat \<Rightarrow> global_metrics \<Rightarrow> global_metrics" where
  "record_replication_lag rid lag s = record_histogram ''replication_lag_ms'' lag (set_gauge (''replication_lag_ms:'' @ rid) lag s)"

definition record_edge_health :: "pyfloat \<Rightarrow> string \<Rightarrow> bool \<Rightarrow> (string, json) dict \<Rightarrow> global_metrics \<Rightarrow> global_metrics" where
  "record_edge_health t nid healthy details s =
     (let s1 = set_gauge (''edge_health:'' @ nid) (if healthy then 1 else 0) s
      in if healthy then s1
         else record_metric_event t ''edge_unhealthy'' (fold (\<lambda>(k, v). dput k v) details [(''node_id'', JStr nid)])
                (inc_counter ''edge_unhealthy_events'' 1 s1))"

definition record_global_failover :: "pyfloat \<Rightarrow> string \<Rightarrow> string \<Rightarrow> string \<Rightarrow> global_metrics \<Rightarrow> global_metrics" where
  "record_global_failover t src tgt trigger s =
     record_metric_event t ''failover'' [(''source'', JStr src), (''target'', JStr tgt), (''trigger'', JStr trigger)]
       (inc_counter ''failover_events_total'' 1 s)"

definition record_link_bandwidth :: "string \<Rightarrow> string \<Rightarrow> rat \<Rightarrow> global_metrics \<Rightarrow> global_metrics" where
  "record_link_bandwidth src tgt mbps s = record_histogram ''bandwidth_mbps'' mbps (set_gauge (''bandwidth_mbps:'' @ src @ '':'' @ tgt) mbps s)"

definition record_saturation :: "string \<Rightarrow> rat \<Rightarrow> global_metrics \<Rightarrow> global_metrics" where
  "record_saturation rid v s = set_gauge (''saturation:'' @ rid) v s"

record histogram_stats =
  hx_count :: nat
  hx_avg :: rat
  hx_min :: rat
  hx_max :: rat
  hx_p50 :: rat
  hx_p95 :: rat
  hx_p99 :: rat

definition at_share :: "rat \<Rightarrow> nat \<Rightarrow> nat" where
  "at_share q n = nat \<lfloor>of_nat n * q\<rfloor>"

definition stats_of :: "rat list \<Rightarrow> histogram_stats" where
  "stats_of vals =
     (if vals = [] then \<lparr>hx_count = 0, hx_avg = 0, hx_min = 0, hx_max = 0, hx_p50 = 0, hx_p95 = 0, hx_p99 = 0\<rparr>
      else let sv = sort vals; n = length sv
           in \<lparr>hx_count = n, hx_avg = py_round (sum_list sv / of_nat n) 2, hx_min = py_round (sv ! 0) 2,
               hx_max = py_round (sv ! (n - 1)) 2, hx_p50 = py_round (sv ! at_share (5 / 10) n) 2,
               hx_p95 = py_round (sv ! min (at_share (95 / 100) n) (n - 1)) 2,
               hx_p99 = py_round (sv ! min (at_share (99 / 100) n) (n - 1)) 2\<rparr>)"

definition histogram_stats_of :: "string \<Rightarrow> global_metrics \<Rightarrow> histogram_stats" where
  "histogram_stats_of name s = stats_of (samples (gm_histograms s) name)"

definition global_report ::
    "global_metrics \<Rightarrow> (string, int) dict \<times> (string, rat) dict \<times> histogram_stats list" where
  "global_report s =
     (gm_counters s, gm_gauges s,
      map (\<lambda>n. histogram_stats_of n s) [''request_latency_ms'', ''cross_region_latency_ms'', ''replication_lag_ms'', ''bandwidth_mbps''])"

text \<open>\<open>region_id in k\<close>\<close>

fun has_infix :: "string \<Rightarrow> string \<Rightarrow> bool" where
  "has_infix p [] \<longleftrightarrow> p = []"
| "has_infix p (c # s) \<longleftrightarrow> starts_with p (c # s) \<or> has_infix p s"

definition report_of_region ::
    "string \<Rightarrow> global_metrics \<Rightarrow> (string, json) dict \<times> (string, rat) dict \<times> histogram_stats" where
  "report_of_region rid s =
     ((case dget (gm_regional s) rid of Some d \<Rightarrow> d | None \<Rightarrow> []), filter (\<lambda>p. has_infix rid (fst p)) (gm_gauges s),
      histogram_stats_of (''request_latency_ms:'' @ rid) s)"

definition recent_metric_events :: "nat \<Rightarrow> global_metrics \<Rightarrow> (pyfloat \<times> string \<times> (string, json) dict) list" where
  "recent_metric_events limit s = take limit (rev (gm_events s))"

datatype metric_op =
    MFlow pyfloat string string string rat bool
  | MLatency string string rat
  | MLag string rat
  | MEdge pyfloat string bool "(string, json) dict"
  | MFailover pyfloat string string string
  | MBandwidth string string rat
  | MSaturation string rat
  | MRegional pyfloat string "(string, json) dict"

fun metric_step :: "metric_op \<Rightarrow> global_metrics \<Rightarrow> global_metrics" where
  "metric_step (MFlow t i src tgt l ok) s = record_request_flow t i src tgt l ok s"
| "metric_step (MLatency src tgt l) s = record_cross_region_latency src tgt l s"
| "metric_step (MLag rid l) s = record_replication_lag rid l s"
| "metric_step (MEdge t nid ok d) s = record_edge_health t nid ok d s"
| "metric_step (MFailover t src tgt trg) s = record_global_failover t src tgt trg s"
| "metric_step (MBandwidth src tgt b) s = record_link_bandwidth src tgt b s"
| "metric_step (MSaturation rid v) s = record_saturation rid v s"
| "metric_step (MRegional t rid d) s = update_regional_data t rid d s"

fun is_flow :: "bool \<Rightarrow> metric_op \<Rightarrow> bool" where
  "is_flow b (MFlow t i src tgt l ok) \<longleftrightarrow> ok = b"
| "is_flow b _ \<longleftrightarrow> False"

fun is_failover :: "metric_op \<Rightarrow> bool" where
  "is_failover (MFailover t src tgt trg) \<longleftrightarrow> True"
| "is_failover _ \<longleftrightarrow> False"

lemma counter_inc [simp]: "counter_of (inc_counter name d s) n = (if n = name then counter_of s n + d else counter_of s n)"
  by (simp add: counter_of_def inc_counter_def)

lemma counter_frame [simp]:
  "counter_of (set_gauge g v s) n = counter_of s n" "counter_of (record_histogram g v s) n = counter_of s n"
  "counter_of (record_metric_event t e d s) n = counter_of s n" "counter_of (update_regional_data t r d' s) n = counter_of s n"
  by (simp_all add: counter_of_def set_gauge_def record_histogram_def record_metric_event_def update_regional_data_def)

lemmas metric_defs = record_request_flow_def record_cross_region_latency_def record_replication_lag_def record_edge_health_def
  record_global_failover_def record_link_bandwidth_def record_saturation_def Let_def

text \<open>C0. Every recorded request is counted once, as a success or as a failure, and every failover once, whatever else is
  recorded in between.\<close>

theorem requests_accounted:
  "let s = fold metric_step ops new_global_metrics in
     counter_of s ''global_requests_success'' = int (length (filter (is_flow True) ops))
     \<and> counter_of s ''global_requests_failed'' = int (length (filter (is_flow False) ops))
     \<and> counter_of s ''global_requests_total'' = counter_of s ''global_requests_success'' + counter_of s ''global_requests_failed''
     \<and> counter_of s ''failover_events_total'' = int (length (filter is_failover ops))"
proof -
  let ?c = counter_of
  have one: "?c (metric_step p s) ''global_requests_success'' = ?c s ''global_requests_success'' + (if is_flow True p then 1 else 0)"
    "?c (metric_step p s) ''global_requests_failed'' = ?c s ''global_requests_failed'' + (if is_flow False p then 1 else 0)"
    "?c (metric_step p s) ''global_requests_total'' = ?c s ''global_requests_total'' + (if is_flow True p \<or> is_flow False p then 1 else 0)"
    "?c (metric_step p s) ''failover_events_total'' = ?c s ''failover_events_total'' + (if is_failover p then 1 else 0)" for p s
    by (cases p; simp add: metric_defs)+
  have "?c (fold metric_step ops s) ''global_requests_success'' = ?c s ''global_requests_success'' + int (length (filter (is_flow True) ops))
    \<and> ?c (fold metric_step ops s) ''global_requests_failed'' = ?c s ''global_requests_failed'' + int (length (filter (is_flow False) ops))
    \<and> ?c (fold metric_step ops s) ''global_requests_total'' = ?c s ''global_requests_total''
        + int (length (filter (is_flow True) ops)) + int (length (filter (is_flow False) ops))
    \<and> ?c (fold metric_step ops s) ''failover_events_total'' = ?c s ''failover_events_total'' + int (length (filter is_failover ops))" for s
  proof (induction ops arbitrary: s)
    case (Cons p ops)
    have excl: "\<not> (is_flow True p \<and> is_flow False p)" by (cases p) auto
    show ?case using Cons.IH [of "metric_step p s"] one [of p s] excl by auto
  qed simp
  moreover have "?c new_global_metrics n = 0" for n by (simp add: counter_of_def new_global_metrics_def)
  ultimately show ?thesis by (simp add: Let_def)
qed

lemma share_less: "0 < n \<Longrightarrow> 0 \<le> q \<Longrightarrow> q < 1 \<Longrightarrow> at_share q n < n"
proof -
  assume n: "0 < n" and q: "0 \<le> q" "q < 1"
  then have "of_nat n * q < (of_nat n :: rat)" by simp
  then have "\<lfloor>of_nat n * q\<rfloor> < int n" by (simp add: floor_less_iff)
  then show ?thesis using n by (simp add: at_share_def)
qed

lemma share_mono: "p \<le> q \<Longrightarrow> at_share p n \<le> at_share q n"
  unfolding at_share_def by (intro nat_mono floor_mono mult_left_mono) simp_all

lemma mean_sorted:
  assumes "sorted vs" "vs \<noteq> []"
  shows "vs ! 0 \<le> sum_list vs / of_nat (length vs) \<and> sum_list vs / of_nat (length vs) \<le> (vs ! (length vs - 1) :: rat)"
proof -
  have lo: "vs ! 0 \<le> v" and hi: "v \<le> vs ! (length vs - 1)" if "v \<in> set vs" for v
    using that assms by (auto simp: in_set_conv_nth sorted_nth_mono)
  have lower: "of_nat (length vs) * a \<le> sum_list vs" if "\<forall>v \<in> set vs. a \<le> v" for a :: rat and vs
    using that by (induction vs) (auto simp: algebra_simps)
  have upper: "sum_list vs \<le> of_nat (length vs) * a" if "\<forall>v \<in> set vs. v \<le> a" for a :: rat and vs
    using that by (induction vs) (auto simp: algebra_simps)
  have "(0 :: rat) < of_nat (length vs)" using assms(2) by simp
  moreover have "of_nat (length vs) * vs ! 0 \<le> sum_list vs" using lo by (intro lower) blast
  moreover have "sum_list vs \<le> of_nat (length vs) * vs ! (length vs - 1)" using hi by (intro upper) blast
  ultimately show ?thesis by (simp only: pos_le_divide_eq pos_divide_le_eq mult.commute)
qed

text \<open>C0. The statistics of every series are in order: minimum, median, 95th and 99th percentile, maximum; the average lies
  between minimum and maximum.\<close>

theorem statistics_ordered:
  "let h = stats_of vals in
     hx_min h \<le> hx_p50 h \<and> hx_p50 h \<le> hx_p95 h \<and> hx_p95 h \<le> hx_p99 h \<and> hx_p99 h \<le> hx_max h
     \<and> hx_min h \<le> hx_avg h \<and> hx_avg h \<le> hx_max h \<and> hx_count h = length vals"
proof (cases "vals = []")
  case False
  let ?sv = "sort vals" and ?n = "length vals"
  have n: "0 < ?n" using False by simp
  have half: "at_share (5 / 10) ?n < ?n" by (rule share_less [OF n]) simp_all
  have last: "min a (?n - 1) < ?n" for a by (rule le_less_trans [OF min.cobounded2]) (simp add: n diff_less del: length_greater_0_conv)
  have le: "at_share (5 / 10) ?n \<le> at_share (95 / 100) ?n" "at_share (95 / 100) ?n \<le> at_share (99 / 100) ?n"
    by (rule share_mono; simp)+
  have nth: "i \<le> j \<Longrightarrow> j < ?n \<Longrightarrow> py_round (?sv ! i) 2 \<le> py_round (?sv ! j) 2" for i j
    by (rule py_round_mono, rule sorted_nth_mono) simp_all
  have "py_round (?sv ! 0) 2 \<le> py_round (?sv ! at_share (5 / 10) ?n) 2" by (rule nth) (use half in simp_all)
  moreover have "py_round (?sv ! at_share (5 / 10) ?n) 2 \<le> py_round (?sv ! min (at_share (95 / 100) ?n) (?n - 1)) 2"
    by (rule nth [OF _ last]) (use half le in auto)
  moreover have "py_round (?sv ! min (at_share (95 / 100) ?n) (?n - 1)) 2 \<le> py_round (?sv ! min (at_share (99 / 100) ?n) (?n - 1)) 2"
    by (rule nth [OF _ last]) (use le in auto)
  moreover have "py_round (?sv ! min (at_share (99 / 100) ?n) (?n - 1)) 2 \<le> py_round (?sv ! (?n - 1)) 2"
    by (rule nth) (simp_all add: n diff_less del: length_greater_0_conv)
  moreover have "?sv \<noteq> []" using False by (metis length_0_conv length_sort)
  note m = mean_sorted [OF sorted_sort this]
  moreover have "py_round (?sv ! 0) 2 \<le> py_round (sum_list ?sv / of_nat ?n) 2" "py_round (sum_list ?sv / of_nat ?n) 2 \<le> py_round (?sv ! (?n - 1)) 2"
    using m by (auto intro: py_round_mono)
  ultimately show ?thesis using False by (simp add: stats_of_def Let_def)
qed (simp add: stats_of_def)

text \<open>The gauges of a region are found by its name anywhere in theirs: eu also gets those of eu-west.\<close>

lemma gauges_of_another_region:
  "fst (snd (report_of_region ''eu'' (record_saturation ''eu-west'' 1 new_global_metrics))) = [(''saturation:eu-west'', 1)]"
  by code_simp

section \<open>Regional metrics\<close>

record regional_snapshot =
  rn_ts :: pyfloat
  rn_region :: string
  rn_total :: nat
  rn_success :: nat
  rn_failed :: nat
  rn_inference :: nat
  rn_latency :: rat
  rn_gpu :: rat
  rn_cpu :: rat
  rn_memory :: rat
  rn_models :: "(string, nat) dict"
  rn_edge_online :: int
  rn_edge_total :: int
  rn_error_rate :: rat

record regional_metrics =
  rm_region :: string
  rm_total :: nat
  rm_success :: nat
  rm_failed :: nat
  rm_inference :: nat
  rm_latency :: rat
  rm_gpu :: rat
  rm_cpu :: rat
  rm_memory :: rat
  rm_models :: "(string, nat) dict"
  rm_edge_online :: int
  rm_edge_total :: int
  rm_snapshots :: "regional_snapshot list"

definition new_regional_metrics :: "string \<Rightarrow> regional_metrics" where
  "new_regional_metrics rid =
     \<lparr>rm_region = rid, rm_total = 0, rm_success = 0, rm_failed = 0, rm_inference = 0, rm_latency = 0, rm_gpu = 0, rm_cpu = 0,
      rm_memory = 0, rm_models = [], rm_edge_online = 0, rm_edge_total = 0, rm_snapshots = []\<rparr>"

definition record_regional_request :: "bool \<Rightarrow> rat \<Rightarrow> string \<Rightarrow> regional_metrics \<Rightarrow> regional_metrics" where
  "record_regional_request ok latency model s =
     (let s1 = s\<lparr>rm_total := rm_total s + 1,
                 rm_success := (if ok then rm_success s + 1 else rm_success s),
                 rm_failed := (if ok then rm_failed s else rm_failed s + 1),
                 rm_latency := rm_latency s * (1 - 1 / 10) + latency * (1 / 10)\<rparr>
      in if model \<noteq> [] then s1\<lparr>rm_models := tally model (rm_models s1), rm_inference := rm_inference s1 + 1\<rparr> else s1)"

definition update_utilization :: "rat option \<Rightarrow> rat option \<Rightarrow> rat option \<Rightarrow> regional_metrics \<Rightarrow> regional_metrics" where
  "update_utilization gpu cpu mem s =
     s\<lparr>rm_gpu := (case gpu of Some v \<Rightarrow> v | None \<Rightarrow> rm_gpu s), rm_cpu := (case cpu of Some v \<Rightarrow> v | None \<Rightarrow> rm_cpu s),
       rm_memory := (case mem of Some v \<Rightarrow> v | None \<Rightarrow> rm_memory s)\<rparr>"

definition update_edge_status :: "int \<Rightarrow> int \<Rightarrow> regional_metrics \<Rightarrow> regional_metrics" where
  "update_edge_status online known s = s\<lparr>rm_edge_online := online, rm_edge_total := known\<rparr>"

definition regional_snapshot_of :: "pyfloat \<Rightarrow> regional_metrics \<Rightarrow> regional_snapshot" where
  "regional_snapshot_of t s =
     \<lparr>rn_ts = t, rn_region = rm_region s, rn_total = rm_total s, rn_success = rm_success s, rn_failed = rm_failed s,
      rn_inference = rm_inference s, rn_latency = py_round (rm_latency s) 2, rn_gpu = py_round (rm_gpu s) 4,
      rn_cpu = py_round (rm_cpu s) 4, rn_memory = py_round (rm_memory s) 4, rn_models = rm_models s,
      rn_edge_online = rm_edge_online s, rn_edge_total = rm_edge_total s,
      rn_error_rate = (if rm_total s \<noteq> 0 then py_round (of_nat (rm_failed s) / of_nat (rm_total s)) 4 else 0)\<rparr>"

definition take_regional_snapshot :: "pyfloat \<Rightarrow> regional_metrics \<Rightarrow> regional_metrics \<times> regional_snapshot" where
  "take_regional_snapshot t s =
     (let sn = regional_snapshot_of t s in (s\<lparr>rm_snapshots := py_cap 200 (rm_snapshots s @ [sn])\<rparr>, sn))"

definition regional_history :: "nat \<Rightarrow> regional_metrics \<Rightarrow> regional_snapshot list" where
  "regional_history limit s = take limit (rev (rm_snapshots s))"

datatype regional_op =
    RmRequest bool rat string
  | RmUtilization "rat option" "rat option" "rat option"
  | RmEdge int int
  | RmSnapshot pyfloat

fun regional_step :: "regional_op \<Rightarrow> regional_metrics \<Rightarrow> regional_metrics" where
  "regional_step (RmRequest ok l m) s = record_regional_request ok l m s"
| "regional_step (RmUtilization g c m) s = update_utilization g c m s"
| "regional_step (RmEdge a b) s = update_edge_status a b s"
| "regional_step (RmSnapshot t) s = fst (take_regional_snapshot t s)"

definition counts_sum :: "('k, nat) dict \<Rightarrow> nat" where
  "counts_sum d = sum_list (dvalues d)"

lemma counts_sum_tally [simp]: "counts_sum (tally k d) = Suc (counts_sum d)"
  unfolding counts_sum_def tally_def by (induction d) auto

definition snapshot_sound :: "regional_snapshot \<Rightarrow> bool" where
  "snapshot_sound n \<longleftrightarrow> rn_total n = rn_success n + rn_failed n \<and> counts_sum (rn_models n) = rn_inference n
     \<and> rn_inference n \<le> rn_total n \<and> 0 \<le> rn_error_rate n \<and> rn_error_rate n \<le> 1"

definition regional_ok :: "regional_metrics \<Rightarrow> bool" where
  "regional_ok s \<longleftrightarrow> rm_total s = rm_success s + rm_failed s \<and> counts_sum (rm_models s) = rm_inference s
     \<and> rm_inference s \<le> rm_total s \<and> length (rm_snapshots s) \<le> 200 \<and> list_all snapshot_sound (rm_snapshots s)"

lemma snapshot_of_ok: "regional_ok s \<Longrightarrow> snapshot_sound (regional_snapshot_of t s)"
proof -
  assume ok: "regional_ok s"
  then have "rm_failed s \<le> rm_total s" by (simp add: regional_ok_def)
  then have "0 \<le> of_nat (rm_failed s) / (of_nat (rm_total s) :: rat) \<and> of_nat (rm_failed s) / (of_nat (rm_total s) :: rat) \<le> 1"
    by (simp add: divide_le_eq)
  then have "py_round 0 4 \<le> py_round (of_nat (rm_failed s) / of_nat (rm_total s)) 4
      \<and> py_round (of_nat (rm_failed s) / of_nat (rm_total s)) 4 \<le> py_round 1 4"
    by (intro conjI py_round_mono) simp_all
  moreover have "py_round 1 4 = 1" by code_simp
  ultimately show ?thesis using ok by (simp add: snapshot_sound_def regional_ok_def regional_snapshot_of_def)
qed

lemma regional_ok_step: "regional_ok s \<Longrightarrow> regional_ok (regional_step p s)"
proof (cases p)
  case (RmSnapshot t)
  assume ok: "regional_ok s"
  have "length (py_cap 200 (rm_snapshots s @ [regional_snapshot_of t s])) \<le> 200" by (rule length_py_cap) simp
  moreover have "list_all snapshot_sound (py_cap 200 (rm_snapshots s @ [regional_snapshot_of t s]))"
    using set_py_cap [of 200 "rm_snapshots s @ [regional_snapshot_of t s]"] ok snapshot_of_ok [OF ok, of t]
    unfolding list_all_iff regional_ok_def by auto
  ultimately show ?thesis using ok RmSnapshot by (simp add: regional_ok_def take_regional_snapshot_def Let_def)
qed (auto simp: regional_ok_def record_regional_request_def update_utilization_def update_edge_status_def Let_def)

text \<open>C0. Whatever a region records, its requests are its successes and its failures, the uses of its models are its
  inferences, and every snapshot it keeps (200 at most) says so, with an error rate between 0 and 1.\<close>

theorem regional_books:
  "let s = fold regional_step ops (new_regional_metrics rid) in
     rm_total s = rm_success s + rm_failed s \<and> counts_sum (rm_models s) = rm_inference s \<and> rm_inference s \<le> rm_total s
     \<and> length (rm_snapshots s) \<le> 200 \<and> list_all snapshot_sound (rm_snapshots s)"
proof -
  have "regional_ok (fold regional_step ops (new_regional_metrics rid))"
    by (rule fold_inv, erule regional_ok_step) (simp add: regional_ok_def new_regional_metrics_def counts_sum_def)
  then show ?thesis by (simp add: regional_ok_def Let_def)
qed

section \<open>Routing metrics\<close>

record routing_metrics =
  rt_routes :: nat
  rt_reroutes :: nat
  rt_failovers :: nat
  rt_by_region :: "(string, nat) dict"
  rt_by_strategy :: "(string, nat) dict"
  rt_samples :: "rat list"
  rt_failover_events :: "(pyfloat \<times> string \<times> string \<times> string) list"
  rt_reroute_events :: "(pyfloat \<times> string \<times> string \<times> string) list"

definition new_routing_metrics :: routing_metrics where
  "new_routing_metrics =
     \<lparr>rt_routes = 0, rt_reroutes = 0, rt_failovers = 0, rt_by_region = [], rt_by_strategy = [], rt_samples = [],
      rt_failover_events = [], rt_reroute_events = []\<rparr>"

definition record_route :: "string \<Rightarrow> string \<Rightarrow> rat \<Rightarrow> routing_metrics \<Rightarrow> routing_metrics" where
  "record_route rid strategy ms s =
     s\<lparr>rt_routes := rt_routes s + 1, rt_by_region := tally rid (rt_by_region s), rt_by_strategy := tally strategy (rt_by_strategy s),
       rt_samples := py_cap 1000 (rt_samples s @ [ms])\<rparr>"

definition record_reroute :: "pyfloat \<Rightarrow> string \<Rightarrow> string \<Rightarrow> string \<Rightarrow> routing_metrics \<Rightarrow> routing_metrics" where
  "record_reroute t src tgt reason s =
     s\<lparr>rt_reroutes := rt_reroutes s + 1, rt_reroute_events := py_cap 200 (rt_reroute_events s @ [(t, src, tgt, reason)])\<rparr>"

definition record_routing_failover :: "pyfloat \<Rightarrow> string \<Rightarrow> string \<Rightarrow> string \<Rightarrow> routing_metrics \<Rightarrow> routing_metrics" where
  "record_routing_failover t src tgt trigger s =
     s\<lparr>rt_failovers := rt_failovers s + 1, rt_failover_events := py_cap 200 (rt_failover_events s @ [(t, src, tgt, trigger)])\<rparr>"

definition routing_snapshot ::
    "routing_metrics \<Rightarrow> nat \<times> nat \<times> nat \<times> (string, nat) dict \<times> (string, nat) dict \<times> rat list
       \<times> (pyfloat \<times> string \<times> string \<times> string) list \<times> (pyfloat \<times> string \<times> string \<times> string) list" where
  "routing_snapshot s =
     (let h = stats_of (rt_samples s)
      in (rt_routes s, rt_reroutes s, rt_failovers s, rt_by_region s, rt_by_strategy s, [hx_avg h, hx_p50 h, hx_p95 h, hx_p99 h],
          take 10 (rev (rt_failover_events s)), take 10 (rev (rt_reroute_events s))))"

datatype routing_op =
    RtRoute string string rat
  | RtReroute pyfloat string string string
  | RtFailover pyfloat string string string

fun routing_step :: "routing_op \<Rightarrow> routing_metrics \<Rightarrow> routing_metrics" where
  "routing_step (RtRoute rid st ms) s = record_route rid st ms s"
| "routing_step (RtReroute t a b r) s = record_reroute t a b r s"
| "routing_step (RtFailover t a b r) s = record_routing_failover t a b r s"

fun routed_in :: "routing_op \<Rightarrow> rat list" where
  "routed_in (RtRoute rid st ms) = [ms]"
| "routed_in _ = []"

text \<open>C0. The routes are counted once by region and once by strategy, the samples kept are the last thousand decision times, and
  the counters of reroutes and failovers bound the events kept.\<close>

theorem routes_accounted:
  "let s = fold routing_step ops new_routing_metrics; ms = concat (map routed_in ops) in
     rt_routes s = length ms \<and> counts_sum (rt_by_region s) = rt_routes s \<and> counts_sum (rt_by_strategy s) = rt_routes s
     \<and> rt_samples s = py_cap 1000 ms
     \<and> length (rt_reroute_events s) = min 200 (rt_reroutes s) \<and> length (rt_failover_events s) = min 200 (rt_failovers s)"
proof -
  have cap: "length (py_cap 200 (xs @ [x])) = min 200 (Suc n)" if "length xs = min 200 n" for xs :: "'a list" and x n
    using that by (auto simp: py_cap_def py_last_def)
  have "rt_routes s' = rt_routes s + length (concat (map routed_in ops))
      \<and> counts_sum (rt_by_region s') = rt_routes s' \<and> counts_sum (rt_by_strategy s') = rt_routes s'
      \<and> rt_samples s' = py_cap 1000 (rt_samples s @ concat (map routed_in ops))
      \<and> length (rt_reroute_events s') = min 200 (rt_reroutes s') \<and> length (rt_failover_events s') = min 200 (rt_failovers s')"
    if "s' = fold routing_step ops s" "counts_sum (rt_by_region s) = rt_routes s" "counts_sum (rt_by_strategy s) = rt_routes s"
      "length (rt_samples s) \<le> 1000"
      "length (rt_reroute_events s) = min 200 (rt_reroutes s)" "length (rt_failover_events s) = min 200 (rt_failovers s)" for s s'
    using that
  proof (induction ops arbitrary: s)
    case Nil
    then show ?case by (simp add: py_cap_small)
  next
    case (Cons p ops)
    let ?s1 = "routing_step p s"
    have "length (py_cap 1000 (rt_samples s @ [ms])) \<le> 1000" for ms by (rule length_py_cap) simp
    then have "counts_sum (rt_by_region ?s1) = rt_routes ?s1 \<and> counts_sum (rt_by_strategy ?s1) = rt_routes ?s1
        \<and> length (rt_samples ?s1) \<le> 1000
        \<and> length (rt_reroute_events ?s1) = min 200 (rt_reroutes ?s1) \<and> length (rt_failover_events ?s1) = min 200 (rt_failovers ?s1)"
      using Cons.prems(2-) cap
      by (cases p) (simp_all add: record_route_def record_reroute_def record_routing_failover_def)
    moreover have "rt_routes ?s1 = rt_routes s + length (routed_in p)"
        "rt_samples ?s1 = py_cap 1000 (rt_samples s @ routed_in p)"
      using Cons.prems(4)
      by (cases p; simp add: record_route_def record_reroute_def record_routing_failover_def py_cap_small)+
    ultimately show ?case using Cons.IH [of ?s1] Cons.prems(1) by (simp add: py_cap_nested)
  qed
  from this [OF refl, of new_routing_metrics] show ?thesis
    by (simp add: new_routing_metrics_def counts_sum_def Let_def)
qed

section \<open>Relays and links between regions\<close>

type_synonym latency_matrix = "(string, (string, rat) dict) dict"

record topology_action =
  ta_id :: string
  ta_type :: string
  ta_source :: string
  ta_target :: string
  ta_current :: rat
  ta_expected :: rat
  ta_improvement :: rat
  ta_executed :: bool
  ta_created_at :: pyfloat

record topology_report =
  tp_latency :: latency_matrix
  tp_regions :: "tele list"

type_synonym topology_optimizer = "(latency_matrix, topology_action) rounds"

definition new_topology :: "nat \<Rightarrow> topology_optimizer" where
  "new_topology mh = new_rounds mh []"

definition latency_row :: "latency_matrix \<Rightarrow> string \<Rightarrow> (string, rat) dict" where
  "latency_row m src = (case dget m src of Some d \<Rightarrow> d | None \<Rightarrow> [])"

definition update_matrix :: "latency_matrix \<Rightarrow> latency_matrix \<Rightarrow> latency_matrix" where
  "update_matrix new m = fold (\<lambda>(src, ts) m. dput src (fold (\<lambda>(tgt, l). dput tgt l) ts (latency_row m src)) m) new m"

definition second_leg :: "latency_matrix \<Rightarrow> string \<Rightarrow> string \<Rightarrow> rat" where
  "second_leg m mid tgt = (case dget (latency_row m mid) tgt of Some l \<Rightarrow> l | None \<Rightarrow> 9999)"

definition gain_of :: "rat \<Rightarrow> rat \<Rightarrow> rat" where
  "gain_of direct hop = (direct - hop) / direct * 100"

definition relay_action :: "pyfloat \<Rightarrow> string \<Rightarrow> string \<Rightarrow> string \<Rightarrow> rat \<Rightarrow> rat \<Rightarrow> topology_action" where
  "relay_action t src tgt mid direct hop =
     \<lparr>ta_id = stamped_id (''topo-'' @ src @ ''-'' @ tgt @ ''-via-'') mid t, ta_type = ''add_relay'', ta_source = src, ta_target = tgt,
      ta_current = py_round direct 1, ta_expected = py_round hop 1, ta_improvement = py_round (gain_of direct hop) 1,
      ta_executed = False, ta_created_at = t\<rparr>"

definition relays_between :: "rat \<Rightarrow> pyfloat \<Rightarrow> latency_matrix \<Rightarrow> string \<Rightarrow> string \<times> rat \<Rightarrow> topology_action list" where
  "relays_between threshold t m src q =
     (let (tgt, direct) = q in
      if direct \<le> 0 then []
      else concat (map (\<lambda>(mid, l).
             let hop = l + second_leg m mid tgt in
             if mid \<noteq> tgt \<and> mid \<noteq> src \<and> hop < direct \<and> threshold \<le> gain_of direct hop
             then [relay_action t src tgt mid direct hop] else []) (latency_row m src)))"

definition relay_actions :: "rat \<Rightarrow> pyfloat \<Rightarrow> latency_matrix \<Rightarrow> topology_action list" where
  "relay_actions threshold t m = concat (map (\<lambda>(src, ts). concat (map (relays_between threshold t m src) ts)) m)"

definition link_actions :: "pyfloat \<Rightarrow> latency_matrix \<Rightarrow> tele list \<Rightarrow> topology_action list" where
  "link_actions t m rs =
     concat (map (\<lambda>(s, u).
        let src = text_of s ''region_id'' []; tgt = text_of u ''region_id'' [];
            l = (case dget (latency_row m src) tgt of Some l \<Rightarrow> l | None \<Rightarrow> 0)
        in if 0 < l \<and> l < 200
           then [\<lparr>ta_id = stamped_id (''topo-link-'' @ src @ ''-'') tgt t, ta_type = ''priority_link'', ta_source = src, ta_target = tgt,
                  ta_current = py_round l 1, ta_expected = 0, ta_improvement = 0, ta_executed = False, ta_created_at = t\<rparr>] else [])
      (List.product (filter (\<lambda>r. num r ''workload_saturation'' 0 > 9 / 10) rs) (filter (\<lambda>r. num r ''workload_saturation'' 0 < 3 / 10) rs)))"

definition topology_proposals :: "rat \<Rightarrow> pyfloat \<Rightarrow> latency_matrix \<times> tele list \<Rightarrow> topology_action list" where
  "topology_proposals threshold t q = relay_actions threshold t (fst q) @ link_actions t (fst q) (snd q)"

definition topology_input :: "topology_report \<Rightarrow> topology_optimizer \<Rightarrow> (latency_matrix \<times> tele list) list" where
  "topology_input x s = [(update_matrix (tp_latency x) (en_view s), tp_regions x)]"

definition topology_analyze :: "rat \<Rightarrow> pyfloat \<Rightarrow> topology_report \<Rightarrow> topology_optimizer \<Rightarrow> topology_optimizer \<times> nat list" where
  "topology_analyze threshold t x s = engine_analyze (\<lambda>q _. fst q) (topology_proposals threshold t) (topology_input x s) s"

definition topology_execute :: "nat \<Rightarrow> topology_optimizer \<Rightarrow> topology_optimizer" where
  "topology_execute = engine_execute (\<lambda>a. a\<lparr>ta_executed := True\<rparr>) (\<lambda>_. 0)"

definition topology_optimize :: "rat \<Rightarrow> pyfloat \<Rightarrow> topology_report \<Rightarrow> topology_optimizer \<Rightarrow> topology_optimizer \<times> nat list" where
  "topology_optimize threshold t x s =
     engine_round (\<lambda>q _. fst q) (topology_proposals threshold t) (\<lambda>_. True) (\<lambda>a. a\<lparr>ta_executed := True\<rparr>) (\<lambda>_. 0)
       (topology_input x s) s"

definition topology_metrics :: "topology_optimizer \<Rightarrow> nat \<times> nat \<times> nat" where
  "topology_metrics s = (en_executed s, sum_list (map length (dvalues (en_view s))), length (en_view s))"

definition shorter_by :: "rat \<Rightarrow> latency_matrix \<Rightarrow> topology_action \<Rightarrow> bool" where
  "shorter_by threshold m a \<longleftrightarrow>
     (\<exists>mid l1 l2 direct ts. (ta_source a, ts) \<in> set m \<and> (ta_target a, direct) \<in> set ts \<and> (mid, l1) \<in> set (latency_row m (ta_source a))
        \<and> dget (latency_row m mid) (ta_target a) = Some l2 \<and> mid \<noteq> ta_source a \<and> mid \<noteq> ta_target a
        \<and> l1 + l2 < direct \<and> threshold \<le> gain_of direct (l1 + l2) \<and> ta_expected a = py_round (l1 + l2) 1)"

lemma relays_shorter:
  assumes known: "list_all (\<lambda>ts. list_all (\<lambda>p. 0 \<le> snd p \<and> snd p \<le> 9999) ts) (dvalues m)" and a: "a \<in> set (relay_actions threshold t m)"
  shows "shorter_by threshold m a"
proof -
  obtain src ts tgt direct mid l where ts: "(src, ts) \<in> set m" "(tgt, direct) \<in> set ts" and l: "(mid, l) \<in> set (latency_row m src)"
    and hop: "mid \<noteq> tgt" "mid \<noteq> src" "l + second_leg m mid tgt < direct" "threshold \<le> gain_of direct (l + second_leg m mid tgt)"
    and a': "a = relay_action t src tgt mid direct (l + second_leg m mid tgt)"
    using a by (auto simp: relay_actions_def relays_between_def Let_def split: if_splits)
  have "direct \<le> 9999" using known ts by (fastforce simp: list_all_iff)
  moreover have "0 \<le> l"
  proof -
    obtain row where row: "dget m src = Some row" "(mid, l) \<in> set row" using l by (cases "dget m src") (simp_all add: latency_row_def)
    then have "(src, row) \<in> set m" by (simp add: dget_SomeD)
    then show ?thesis using known row(2) by (fastforce simp: list_all_iff)
  qed
  ultimately have "second_leg m mid tgt < 9999" using hop(3) by simp
  then obtain l2 where "dget (latency_row m mid) tgt = Some l2" "second_leg m mid tgt = l2"
    by (auto simp: second_leg_def split: option.splits)
  then show ?thesis unfolding shorter_by_def using ts l hop a'
    by (intro exI [of _ mid] exI [of _ l] exI [of _ l2] exI [of _ direct] exI [of _ ts]) (simp add: relay_action_def)
qed

text \<open>C0. As long as latencies lie between 0 and 9999 ms, every relay that a round proposes leads over two known links that are
  together shorter than the direct one by at least the threshold, and everything proposed is executed and counted.\<close>

theorem relays_really_shorter:
  assumes st: "topology_optimize threshold t x s = (s', refs)"
    and known: "list_all (\<lambda>ts. list_all (\<lambda>p. 0 \<le> snd p \<and> snd p \<le> 9999) ts) (dvalues (en_view s'))"
  shows "list_all (\<lambda>i. ta_executed (jo_get (en_actions s') i)
      \<and> (ta_type (jo_get (en_actions s') i) = ''priority_link'' \<or> shorter_by threshold (en_view s') (jo_get (en_actions s') i))) refs
    \<and> en_executed s' = en_executed s + length refs \<and> en_view s' = update_matrix (tp_latency x) (en_view s)"
proof -
  let ?m = "update_matrix (tp_latency x) (en_view s)"
  let ?acts = "topology_proposals threshold t (?m, tp_regions x)"
  let ?ex = "\<lambda>a. a\<lparr>ta_executed := True\<rparr>"
  note ok = engine_round_ok [OF st [unfolded topology_optimize_def], unfolded round_ok_def topology_input_def]
  have view: "en_view s' = ?m" using ok by simp
  have acts: "map (jo_get (en_actions s')) refs = map ?ex ?acts" using ok by simp
  have sound: "ta_executed (?ex a) \<and> (ta_type (?ex a) = ''priority_link'' \<or> shorter_by threshold ?m (?ex a))" if "a \<in> set ?acts" for a
  proof (cases "a \<in> set (relay_actions threshold t ?m)")
    case True
    then have "shorter_by threshold ?m a" using relays_shorter known view by simp
    then show ?thesis by (simp add: shorter_by_def)
  next
    case False
    then have "a \<in> set (link_actions t ?m (tp_regions x))" using that by (simp add: topology_proposals_def)
    then have "ta_type a = ''priority_link''" by (auto simp: link_actions_def Let_def split: if_splits)
    then show ?thesis by simp
  qed
  have all: "ta_executed a \<and> (ta_type a = ''priority_link'' \<or> shorter_by threshold ?m a)" if "a \<in> set (map ?ex ?acts)" for a
  proof -
    have "a \<in> ?ex ` set ?acts" using that unfolding set_map .
    then obtain b where b: "b \<in> set ?acts" "a = ?ex b" by blast
    show ?thesis unfolding b(2) by (rule sound [OF b(1)])
  qed
  have "jo_get (en_actions s') i \<in> set (map ?ex ?acts)" if "i \<in> set refs" for i
    unfolding acts [symmetric] using that by simp
  then have "list_all (\<lambda>i. ta_executed (jo_get (en_actions s') i)
      \<and> (ta_type (jo_get (en_actions s') i) = ''priority_link'' \<or> shorter_by threshold ?m (jo_get (en_actions s') i))) refs"
    using all by (simp only: list_all_iff) blast
  moreover have "length refs = length ?acts" using arg_cong [OF acts, of length] by simp
  ultimately show ?thesis using ok view by simp
qed

definition demo_topology :: topology_report where
  "demo_topology = \<lparr>tp_latency = [(''a'', [(''b'', 100), (''c'', 20)]), (''c'', [(''b'', 30)])], tp_regions = []\<rparr>"

lemma demo_topology_run:
  "let (s, refs) = topology_optimize 10 1 demo_topology (new_topology 5) in
     map (\<lambda>i. ta_id (jo_get (en_actions s) i)) refs = [''topo-a-b-via-c-1''] \<and> en_executed s = 1
     \<and> list_all (\<lambda>ts. list_all (\<lambda>p. 0 \<le> snd p \<and> snd p \<le> 9999) ts) (dvalues (en_view s))"
  by code_simp

theorem relays_really_shorter_witness:
  "\<exists>s refs. topology_optimize 10 1 demo_topology (new_topology 5) = (s, refs)
     \<and> map (\<lambda>i. ta_id (jo_get (en_actions s) i)) refs = [''topo-a-b-via-c-1''] \<and> en_view s = update_matrix (tp_latency demo_topology) []"
proof -
  obtain s refs where r: "topology_optimize 10 1 demo_topology (new_topology 5) = (s, refs)" by fastforce
  have k: "map (\<lambda>i. ta_id (jo_get (en_actions s) i)) refs = [''topo-a-b-via-c-1'']"
    "list_all (\<lambda>ts. list_all (\<lambda>p. 0 \<le> snd p \<and> snd p \<le> 9999) ts) (dvalues (en_view s))"
    using demo_topology_run unfolding r Let_def prod.case by simp_all
  have "en_view (new_topology 5) = []" by (simp add: new_topology_def new_rounds_def)
  then have v: "en_view s = update_matrix (tp_latency demo_topology) []" using relays_really_shorter [OF r k(2)] by simp
  show ?thesis by (intro exI conjI, rule r, rule k(1), rule v)
qed

text \<open>An unknown link counts as 9999 ms: a relay over a link that nobody has measured is proposed for a slower one.\<close>

lemma relay_over_unknown_link:
  "map ta_id (relay_actions 10 1 [(''a'', [(''b'', 20000), (''c'', 20)])]) = [''topo-a-b-via-c-1'']"
  by code_simp

section \<open>The nearest region\<close>

definition geo_eligible :: "string list \<Rightarrow> bool \<Rightarrow> region \<Rightarrow> bool" where
  "geo_eligible exclude gpu r \<longleftrightarrow> rg_id r \<notin> set exclude \<and> rg_status r \<noteq> RDraining
     \<and> (gpu \<longrightarrow> 0 < gi_available_gpus (rg_gpu_inventory r))"

definition geo_ranked ::
    "(rat \<Rightarrow> rat \<Rightarrow> rat \<Rightarrow> rat \<Rightarrow> rat) \<Rightarrow> rat \<Rightarrow> rat \<Rightarrow> string list \<Rightarrow> bool \<Rightarrow> region_db \<Rightarrow> (rat \<times> region) list" where
  "geo_ranked distance lat lon exclude gpu db =
     sort_key fst (map (\<lambda>r. (distance lat lon (rg_latitude r) (rg_longitude r), r)) (filter (geo_eligible exclude gpu) (active_regions db)))"

definition nearest_region ::
    "(rat \<Rightarrow> rat \<Rightarrow> rat \<Rightarrow> rat \<Rightarrow> rat) \<Rightarrow> rat \<Rightarrow> rat \<Rightarrow> string list \<Rightarrow> bool \<Rightarrow> region_db \<Rightarrow> region option" where
  "nearest_region distance lat lon exclude gpu db =
     (case geo_ranked distance lat lon exclude gpu db of [] \<Rightarrow> None | p # _ \<Rightarrow> Some (snd p))"

definition ranked_regions ::
    "(rat \<Rightarrow> rat \<Rightarrow> rat \<Rightarrow> rat \<Rightarrow> rat) \<Rightarrow> rat \<Rightarrow> rat \<Rightarrow> string list \<Rightarrow> bool \<Rightarrow> nat \<Rightarrow> region_db \<Rightarrow> (rat \<times> region) list" where
  "ranked_regions distance lat lon exclude gpu limit db = take limit (geo_ranked distance lat lon exclude gpu db)"

text \<open>C0. Whatever the distance, a request goes to an eligible region that none of the eligible ones beats, and to none only if
  there is none.\<close>

theorem nearest_region_nearest:
  "case nearest_region distance lat lon exclude gpu db of
     None \<Rightarrow> filter (geo_eligible exclude gpu) (active_regions db) = []
   | Some r \<Rightarrow> r \<in> set (active_regions db) \<and> geo_eligible exclude gpu r
       \<and> list_all (\<lambda>q. distance lat lon (rg_latitude r) (rg_longitude r) \<le> distance lat lon (rg_latitude q) (rg_longitude q))
           (filter (geo_eligible exclude gpu) (active_regions db))"
proof -
  let ?d = "\<lambda>r. distance lat lon (rg_latitude r) (rg_longitude r)" and ?rs = "filter (geo_eligible exclude gpu) (active_regions db)"
  let ?pairs = "map (\<lambda>r. (?d r, r)) ?rs"
  show ?thesis
  proof (cases "geo_ranked distance lat lon exclude gpu db")
    case Nil
    then have "length (sort_key fst ?pairs) = 0" by (simp add: geo_ranked_def)
    then have "?rs = []" by (simp del: filter_empty_conv)
    then show ?thesis by (simp only: nearest_region_def Nil list.case option.case)
  next
    case (Cons p ps)
    have sorted: "sorted (map fst (p # ps))" and set: "set (p # ps) = set ?pairs"
      unfolding Cons [symmetric] geo_ranked_def by simp_all
    then obtain r where r: "r \<in> set ?rs" "p = (?d r, r)" by auto
    have "?d r \<le> ?d q" if "q \<in> set ?rs" for q
    proof -
      have "(?d q, q) \<in> set (p # ps)" using that unfolding set by simp
      then show ?thesis using sorted r(2) by auto
    qed
    with r show ?thesis by (simp add: nearest_region_def Cons list_all_iff)
  qed
qed

section \<open>Discovery of nodes\<close>

text \<open>The JSON that a probed host answers, or nothing.\<close>

record probe_answer =
  pa_node_id :: "string option"
  pa_host :: "string option"
  pa_port :: "int option"
  pa_type :: "string option"
  pa_gpu :: bool

fun node_kind_name :: "node_type \<Rightarrow> string" where
  "node_kind_name GPU = ''GPU''"
| "node_kind_name CPU = ''CPU''"
| "node_kind_name EDGE = ''EDGE''"

definition node_kind_of_name :: "string \<Rightarrow> node_type option" where
  "node_kind_of_name s = List.find (\<lambda>ty. node_kind_name ty = s) [GPU, CPU, EDGE]"

definition probed_registration :: "int \<Rightarrow> string \<Rightarrow> node_type \<Rightarrow> probe_answer \<Rightarrow> node_registration" where
  "probed_registration port nid ty a =
     \<lparr>node_id = nid, node_host = (case pa_host a of Some h \<Rightarrow> h | None \<Rightarrow> ''127.0.0.1''),
      node_port = (case pa_port a of Some p \<Rightarrow> p | None \<Rightarrow> port), node_type = ty, node_has_gpu = pa_gpu a, node_secret = []\<rparr>"

text \<open>The answers in the order in which the probes finish; a missing id or an unknown type raises.\<close>

fun scan_answers ::
    "clock \<Rightarrow> int \<Rightarrow> probe_answer option list \<Rightarrow> nat \<Rightarrow> string list \<Rightarrow> cluster_memory \<Rightarrow> cluster_memory \<times> (string + string list)" where
  "scan_answers clk port [] k found m = (m, Inr found)"
| "scan_answers clk port (None # as) k found m = scan_answers clk port as (k + 1) found m"
| "scan_answers clk port (Some a # as) k found m =
     (case pa_node_id a of
        None \<Rightarrow> (m, Inl ''KeyError'')
      | Some nid \<Rightarrow>
          if dget (mem_nodes m) nid \<noteq> None then scan_answers clk port as (k + 1) found m
          else case node_kind_of_name (case pa_type a of Some ty \<Rightarrow> ty | None \<Rightarrow> ''CPU'') of
            None \<Rightarrow> (m, Inl ''ValueError'')
          | Some ty \<Rightarrow> scan_answers clk port as (k + 1) (found @ [nid]) (register_node (clk k) (probed_registration port nid ty a) m))"

definition scan_and_register ::
    "clock \<Rightarrow> int \<Rightarrow> probe_answer option list \<Rightarrow> cluster_memory \<Rightarrow> cluster_memory \<times> (string + string list)" where
  "scan_and_register clk port as m =
     (case scan_answers clk port as 0 [] m of
        (m1, Inl e) \<Rightarrow> (m1, Inl e)
      | (m1, Inr found) \<Rightarrow>
          (if found \<noteq> [] then emit (clk (length as)) ''info'' ''discovery_registered'' [(''nodes'', JList (map JStr found))] m1 else m1,
           Inr found))"

definition discovery_task ::
    "string \<Rightarrow> bool option \<Rightarrow> clock \<Rightarrow> int \<Rightarrow> probe_answer option list \<Rightarrow> cluster_memory \<Rightarrow> cluster_memory" where
  "discovery_task mode leader clk port as m =
     (if py_lower mode \<noteq> ''scan'' \<and> py_lower mode \<noteq> ''both'' then m
      else if leader = Some False then m
      else fst (scan_and_register clk port as m))"

definition answered_ids :: "probe_answer option list \<Rightarrow> string list" where
  "answered_ids as = List.map_filter (\<lambda>a. Option.bind a pa_node_id) as"

lemma register_new_node:
  assumes "synced m" "dget (mem_nodes m) (node_id r) = None" "node_secret r = []"
  shows "synced (register_node t r m)
    \<and> mem_nodes (register_node t r m) = dput (node_id r) ((node_state_of r t)\<lparr>node_last_seen := t\<rparr>) (mem_nodes m)"
proof
  show "synced (register_node t r m)" using assms by (simp add: register_node_def synced_add_node)
  show "mem_nodes (register_node t r m) = dput (node_id r) ((node_state_of r t)\<lparr>node_last_seen := t\<rparr>) (mem_nodes m)"
    using assms by (simp add: register_node_def add_node_def emit_def persist_node_def upd_db_def Let_def)
qed

lemma scan_answers_spec:
  assumes "synced m" "distinct found" "set found \<subseteq> fst ` set (mem_nodes m)"
    and "scan_answers clk port as k found m = (m', Inr found')"
  shows "synced m' \<and> distinct found' \<and> fst ` set (mem_nodes m') = fst ` set (mem_nodes m) \<union> set (answered_ids as)
    \<and> set found' = set found \<union> (set (answered_ids as) - fst ` set (mem_nodes m))
    \<and> (\<forall>i. dget (mem_nodes m) i \<noteq> None \<longrightarrow> dget (mem_nodes m') i = dget (mem_nodes m) i)"
  using assms
proof (induction as arbitrary: k found m)
  case Nil
  then show ?case by (simp add: answered_ids_def map_filter_simps)
next
  case (Cons x as)
  show ?case
  proof (cases x)
    case None
    with Cons show ?thesis by (simp add: answered_ids_def map_filter_simps)
  next
    case (Some a)
    obtain nid where nid: "pa_node_id a = Some nid" using Cons.prems(4) Some by (cases "pa_node_id a") auto
    have ids: "answered_ids (x # as) = nid # answered_ids as" by (simp add: answered_ids_def map_filter_simps Some nid)
    show ?thesis
    proof (cases "dget (mem_nodes m) nid")
      case (Some n)
      have run: "scan_answers clk port as (k + 1) found m = (m', Inr found')"
        using Cons.prems(4) \<open>x = Some a\<close> nid Some by simp
      have "nid \<in> fst ` set (mem_nodes m)" using Some by (rule dget_in_keys)
      with Cons.IH [OF Cons.prems(1-3) run] show ?thesis unfolding ids by auto
    next
      case None
      obtain ty where ty: "node_kind_of_name (case pa_type a of Some ty \<Rightarrow> ty | None \<Rightarrow> ''CPU'') = Some ty"
        and run: "scan_answers clk port as (k + 1) (found @ [nid]) (register_node (clk k) (probed_registration port nid ty a) m) = (m', Inr found')"
        using Cons.prems(4) \<open>x = Some a\<close> nid None by (auto split: option.splits)
      let ?m1 = "register_node (clk k) (probed_registration port nid ty a) m"
      have reg: "node_id (probed_registration port nid ty a) = nid" "node_secret (probed_registration port nid ty a) = []"
        by (simp_all add: probed_registration_def)
      have new: "nid \<notin> fst ` set (mem_nodes m)" using None by (simp add: dget_None_iff)
      have "synced ?m1 \<and> mem_nodes ?m1 = dput nid ((node_state_of (probed_registration port nid ty a) (clk k))\<lparr>node_last_seen := clk k\<rparr>) (mem_nodes m)"
        using register_new_node [OF Cons.prems(1), of "probed_registration port nid ty a" "clk k"] None unfolding reg by blast
      then have m1: "synced ?m1" "fst ` set (mem_nodes ?m1) = insert nid (fst ` set (mem_nodes m))"
          "\<forall>i. i \<noteq> nid \<longrightarrow> dget (mem_nodes ?m1) i = dget (mem_nodes m) i"
        by simp_all
      have "nid \<notin> set found" using Cons.prems(3) new by blast
      then have d: "distinct (found @ [nid])" "set (found @ [nid]) \<subseteq> fst ` set (mem_nodes ?m1)"
        using Cons.prems(2,3) m1(2) by auto
      note ih = Cons.IH [OF m1(1) d run]
      have keep: "dget (mem_nodes m') i = dget (mem_nodes m) i" if "dget (mem_nodes m) i \<noteq> None" for i
        using ih m1(3) that None by (cases "i = nid") auto
      have "set found' = set found \<union> (set (nid # answered_ids as) - fst ` set (mem_nodes m))"
        using ih new unfolding m1(2) by auto
      then show ?thesis using ih keep unfolding ids m1(2) by simp
    qed
  qed
qed

text \<open>C35: C0. A scan that does not raise registers every node that answered and was unknown, once, however many probes it answered
  and in whatever order; nodes that were known stay as they were, and the database stays in step with the memory.\<close>

theorem scan_registers_once:
  assumes "synced m" and scan: "scan_and_register clk port as m = (m', Inr found)"
  shows "distinct found \<and> set found = set (answered_ids as) - fst ` set (mem_nodes m)
    \<and> fst ` set (mem_nodes m') = fst ` set (mem_nodes m) \<union> set found \<and> synced m'
    \<and> (\<forall>i. case dget (mem_nodes m) i of None \<Rightarrow> True | Some n \<Rightarrow> dget (mem_nodes m') i = Some n)"
proof -
  obtain m1 where run: "scan_answers clk port as 0 [] m = (m1, Inr found)"
    and m': "m' = (if found \<noteq> [] then emit (clk (length as)) ''info'' ''discovery_registered'' [(''nodes'', JList (map JStr found))] m1 else m1)"
    using scan by (auto simp: scan_and_register_def split: prod.splits sum.splits)
  note k = scan_answers_spec [OF assms(1) _ _ run]
  have nodes: "mem_nodes m' = mem_nodes m1" by (simp add: m' emit_def upd_db_def Let_def)
  have "synced m'" using k by (simp add: m' synced_emit)
  then show ?thesis using k unfolding nodes by (auto split: option.splits)
qed

definition demo_answer :: "string \<Rightarrow> probe_answer option" where
  "demo_answer i = Some \<lparr>pa_node_id = Some i, pa_host = None, pa_port = None, pa_type = Some ''GPU'', pa_gpu = True\<rparr>"

lemma demo_scan: "snd (scan_and_register (\<lambda>_. 1) 9001 [demo_answer ''n1'', None, demo_answer ''n1'', demo_answer ''n2''] empty_memory) = Inr [''n1'', ''n2'']"
  by code_simp

theorem scan_registers_once_witness:
  "\<exists>m'. scan_and_register (\<lambda>_. 1) 9001 [demo_answer ''n1'', None, demo_answer ''n1'', demo_answer ''n2''] empty_memory = (m', Inr [''n1'', ''n2''])
     \<and> fst ` set (mem_nodes m') = {''n1'', ''n2''}"
proof -
  obtain m' where r: "scan_and_register (\<lambda>_. 1) 9001 [demo_answer ''n1'', None, demo_answer ''n1'', demo_answer ''n2''] empty_memory = (m', Inr [''n1'', ''n2''])"
    using demo_scan by (cases "scan_and_register (\<lambda>_. 1) 9001 [demo_answer ''n1'', None, demo_answer ''n1'', demo_answer ''n2''] empty_memory") auto
  have "mem_nodes empty_memory = []" by (simp add: empty_memory_def restore_sqlite_def restore_nodes_def init_sqlite_def)
  then have "fst ` set (mem_nodes m') = {''n1'', ''n2''}" using scan_registers_once [OF synced_empty r] by auto
  with r show ?thesis by blast
qed

text \<open>One host that answers with an unknown type ends the scan: the nodes after it are not registered, no event tells of those before.\<close>

lemma scan_ends_early:
  "let (m, r) = scan_and_register (\<lambda>_. 1) 9001 [demo_answer ''n1'', map_option (\<lambda>a. a\<lparr>pa_type := Some ''TPU''\<rparr>) (demo_answer ''n2''), demo_answer ''n3''] empty_memory
   in r = Inl ''ValueError'' \<and> dkeys (mem_nodes m) = [''n1'']"
  by code_simp

end
