(* ===== verification/Simulations.thy ===== *)
theory Simulations
  imports Insights Observability
begin

text \<open>
  The simulators of \<open>simulation/\<close>: scenarios of \<open>planetary_simulation.py\<close>, outages of whole continents
  of \<open>continent_outage_test.py\<close> and load tests of \<open>extreme_load_test.py\<close>. They compute the figures of a result
  from the reports of the regions and keep the last results. \<open>random.uniform\<close> is an argument, the draws
  between 0 and 1 in their order, and so are \<open>random.choice\<close> and the order in which Python lists a set.
  The texts for people (descriptions, test names) and the dictionaries of details are left out. A flag of a report is the
  number 1 or 0.
\<close>

section \<open>Kept results\<close>

record 'a lab =
  lab_max :: nat
  lab_results :: "'a list"
  lab_total :: nat

definition new_lab :: "nat \<Rightarrow> 'a lab" where
  "new_lab mh = \<lparr>lab_max = mh, lab_results = [], lab_total = 0\<rparr>"

definition lab_store :: "'a \<Rightarrow> 'a lab \<Rightarrow> 'a lab" where
  "lab_store x s = s\<lparr>lab_results := py_cap (lab_max s) (lab_results s @ [x]), lab_total := lab_total s + 1\<rparr>"

definition lab_recent :: "nat \<Rightarrow> 'a lab \<Rightarrow> 'a list" where
  "lab_recent limit s = take limit (rev (lab_results s))"

definition uniform :: "rat \<Rightarrow> rat \<Rightarrow> rat \<Rightarrow> rat" where
  "uniform a b u = a + (b - a) * u"

definition worst :: "rat list \<Rightarrow> rat" where
  "worst xs = (if xs = [] then 0 else Max (set xs))"

definition avg_of :: "rat list \<Rightarrow> rat" where
  "avg_of xs = (if xs = [] then 0 else sum_list xs / of_nat (length xs))"

abbreviation in_continent :: "string \<Rightarrow> tele \<Rightarrow> bool" where
  "in_continent c r \<equiv> dget (te_text r) ''continent'' = Some c"

abbreviation id_of :: "tele \<Rightarrow> string" where
  "id_of r \<equiv> text_of r ''region_id'' []"

definition sim_id :: "string \<Rightarrow> pyfloat \<Rightarrow> string" where
  "sim_id prefix start = prefix @ string_of_int (py_trunc start)"

section \<open>Scenarios\<close>

datatype scenario_type = TrafficSpike | RegionalBlackout | ContinentalFailover | InferenceSurge | EdgeIsolation
  | CascadeFailure | GlobalStress

record sim_result =
  sr_id :: string
  sr_type :: scenario_type
  sr_duration :: rat
  sr_affected :: nat
  sr_rerouted :: rat
  sr_failover :: rat
  sr_recovery :: rat
  sr_avg :: rat
  sr_max :: rat
  sr_efficiency :: rat
  sr_resilience :: rat
  sr_throughput :: rat
  sr_loss :: rat
  sr_map :: "(string, rat) dict"
  sr_ts :: pyfloat

definition sim_latencies :: "(tele \<Rightarrow> rat) \<Rightarrow> tele list \<Rightarrow> (string, rat) dict \<Rightarrow> (string, rat) dict" where
  "sim_latencies f rs m = fold (\<lambda>r. dput (id_of r) (f r)) rs m"

subsection \<open>A spike of traffic\<close>

definition spiked :: "rat \<Rightarrow> tele \<Rightarrow> rat" where
  "spiked factor r = min 1 (num r ''workload_saturation'' (1 / 2) * factor)"

definition spike_latency :: "rat \<Rightarrow> tele \<Rightarrow> rat" where
  "spike_latency factor r =
     (let sat = spiked factor r; base = num r ''avg_latency_ms'' 30
      in py_round (if sat > 95 / 100 then base * (1 + (sat - 1 / 2) * 4) else base * (1 + sat * (1 / 2))) 1)"

definition simulate_traffic_spike :: "clock \<Rightarrow> (nat \<Rightarrow> rat) \<Rightarrow> tele list \<Rightarrow> rat \<Rightarrow> sim_result lab \<Rightarrow> sim_result lab \<times> sim_result" where
  "simulate_traffic_spike clk u regions factor s =
     (let hit = filter (\<lambda>r. spiked factor r > 95 / 100) regions; affected = length hit;
          lats = sim_latencies (spike_latency factor) regions [];
          resilience = (if regions \<noteq> [] then max 0 (1 - of_nat affected / of_nat (length regions)) else 0);
          r = \<lparr>sr_id = sim_id ''sim-spike-'' (clk 0), sr_type = TrafficSpike, sr_duration = py_round (clk 1 - clk 0) 3,
               sr_affected = affected,
               sr_rerouted = of_int (sum_list (map (\<lambda>r. py_trunc (num r ''active_workloads'' 10 * (3 / 10))) hit)),
               sr_failover = py_round (uniform 50 200 (u 0)) 1, sr_recovery = py_round (uniform 500 3000 (u 1)) 1,
               sr_avg = py_round (avg_of (dvalues lats)) 1, sr_max = py_round (worst (dvalues lats)) 1,
               sr_efficiency = py_round (max (1 / 2) (1 - of_nat affected * (5 / 100))) 3,
               sr_resilience = py_round resilience 3,
               sr_throughput = py_round (max 0 (100 * (1 - of_nat affected * (1 / 10)))) 1,
               sr_loss = 0, sr_map = lats, sr_ts = clk 2\<rparr>
      in (lab_store r s, r))"

subsection \<open>A continent goes dark\<close>

text \<open>Without a target one of the continents is drawn. The maximum over no latencies raises: \<open>None\<close>.\<close>

definition blackout_target :: "(string list \<Rightarrow> string list) \<Rightarrow> (string list \<Rightarrow> string) \<Rightarrow> tele list \<Rightarrow> string \<Rightarrow> string" where
  "blackout_target listed pick regions target =
     (if target \<noteq> [] then target
      else let cs = listed (map (\<lambda>r. text_of r ''continent'' []) regions) in if cs \<noteq> [] then pick cs else ''NA'')"

definition simulate_regional_blackout ::
    "clock \<Rightarrow> (nat \<Rightarrow> rat) \<Rightarrow> (string list \<Rightarrow> string list) \<Rightarrow> (string list \<Rightarrow> string) \<Rightarrow> tele list \<Rightarrow> string \<Rightarrow>
      sim_result lab \<Rightarrow> sim_result lab \<times> sim_result option" where
  "simulate_regional_blackout clk u listed pick regions target s =
     (let c = blackout_target listed pick regions target;
          dark = filter (in_continent c) regions; surviving = filter (\<lambda>r. \<not> in_continent c r) regions;
          lats = sim_latencies (\<lambda>_. 9999) dark (sim_latencies (\<lambda>r. py_round (num r ''avg_latency_ms'' 30 * (3 / 2)) 1) surviving []);
          up = filter (\<lambda>v. v < 9000) (dvalues lats);
          resilience = (if regions \<noteq> [] then of_nat (length surviving) / of_nat (length regions) else 0);
          r = \<lparr>sr_id = sim_id ''sim-blackout-'' (clk 0), sr_type = RegionalBlackout, sr_duration = py_round (clk 1 - clk 0) 3,
               sr_affected = length dark, sr_rerouted = total_of ''active_workloads'' 5 dark,
               sr_failover = py_round (uniform 100 500 (u 0)) 1, sr_recovery = py_round (uniform 5000 30000 (u 1)) 1,
               sr_avg = py_round (sum_list up / of_nat (max 1 (length surviving))) 1,
               sr_max = (if surviving \<noteq> [] then worst up else 9999),
               sr_efficiency = py_round (max (3 / 10) (resilience * (9 / 10))) 3,
               sr_resilience = py_round resilience 3, sr_throughput = py_round (resilience * 100) 1,
               sr_loss = py_round (uniform 0 (1 / 2) (u 2)) 2, sr_map = lats, sr_ts = clk 2\<rparr>
      in if surviving \<noteq> [] \<and> up = [] then (s, None) else (lab_store r s, Some r))"

subsection \<open>One continent takes over another\<close>

definition named_continents_of :: "(string list \<Rightarrow> string list) \<Rightarrow> tele list \<Rightarrow> string list" where
  "named_continents_of listed regions =
     listed (filter (\<lambda>c. c \<noteq> []) (map (\<lambda>r. text_of r ''continent'' []) regions))"

definition continental_failover_result ::
    "clock \<Rightarrow> (nat \<Rightarrow> rat) \<Rightarrow> (string list \<Rightarrow> string list) \<Rightarrow> tele list \<Rightarrow> string \<Rightarrow> string \<Rightarrow> sim_result" where
  "continental_failover_result clk u listed regions source target =
     (let cs = named_continents_of listed regions;
          src = (if source = [] \<and> cs \<noteq> [] then cs ! 0 else source);
          tgt = (if target = [] \<and> length cs > 1 then cs ! 1 else target);
          from_regions = filter (in_continent src) regions; to_regions = filter (in_continent tgt) regions;
          rerouted = total_of ''active_workloads'' 5 from_regions;
          lats = sim_latencies (\<lambda>r. py_round (num r ''avg_latency_ms'' 30 + rerouted * (1 / 2)) 1) to_regions [];
          efficiency = (if rerouted \<noteq> 0 then max (1 / 2) (1 - rerouted / 100 * (1 / 10)) else 1)
      in \<lparr>sr_id = sim_id ''sim-failover-'' (clk 0), sr_type = ContinentalFailover, sr_duration = py_round (clk 1 - clk 0) 3,
               sr_affected = length from_regions, sr_rerouted = rerouted,
               sr_failover = py_round (uniform 200 1000 (u 0)) 1, sr_recovery = py_round (uniform 2000 15000 (u 1)) 1,
               sr_avg = py_round (avg_of (dvalues lats)) 1, sr_max = py_round (worst (dvalues lats)) 1,
               sr_efficiency = py_round efficiency 3,
               sr_resilience = py_round (min 1 (of_nat (length to_regions) / of_nat (max 1 (length from_regions)))) 3,
               sr_throughput = py_round (min 100 (efficiency * 100)) 1,
               sr_loss = 0, sr_map = lats, sr_ts = clk 2\<rparr>)"

definition simulate_continental_failover ::
    "clock \<Rightarrow> (nat \<Rightarrow> rat) \<Rightarrow> (string list \<Rightarrow> string list) \<Rightarrow> tele list \<Rightarrow> string \<Rightarrow> string \<Rightarrow>
      sim_result lab \<Rightarrow> sim_result lab \<times> sim_result" where
  "simulate_continental_failover clk u listed regions source target s =
     (let r = continental_failover_result clk u listed regions source target in (lab_store r s, r))"

subsection \<open>A surge of inference\<close>

definition surged :: "rat \<Rightarrow> tele \<Rightarrow> rat" where
  "surged factor r = min 1 (num r ''gpu_utilization'' (1 / 2) * factor / 10)"

definition surge_latency :: "rat \<Rightarrow> tele \<Rightarrow> rat" where
  "surge_latency factor r =
     (let x = surged factor r; base = num r ''avg_latency_ms'' 30
      in py_round (if x > 95 / 100 then base * 5 else if x > 8 / 10 then base * 2 else base * (12 / 10)) 1)"

definition simulate_inference_surge :: "clock \<Rightarrow> (nat \<Rightarrow> rat) \<Rightarrow> tele list \<Rightarrow> rat \<Rightarrow> sim_result lab \<Rightarrow> sim_result lab \<times> sim_result" where
  "simulate_inference_surge clk u regions factor s =
     (let hit = filter (\<lambda>r. surged factor r > 95 / 100) regions; affected = length hit;
          lats = sim_latencies (surge_latency factor) regions [];
          r = \<lparr>sr_id = sim_id ''sim-surge-'' (clk 0), sr_type = InferenceSurge, sr_duration = py_round (clk 1 - clk 0) 3,
               sr_affected = affected,
               sr_rerouted = of_int (sum_list (map (\<lambda>r. py_trunc (num r ''active_workloads'' 10 * (1 / 2))) hit)),
               sr_failover = py_round (uniform 100 400 (u 0)) 1, sr_recovery = py_round (uniform 1000 8000 (u 1)) 1,
               sr_avg = py_round (avg_of (dvalues lats)) 1, sr_max = py_round (worst (dvalues lats)) 1,
               sr_efficiency = py_round (max (4 / 10) (1 - of_nat affected * (8 / 100))) 3,
               sr_resilience = (if regions \<noteq> [] then py_round (max 0 (1 - of_nat affected / of_nat (length regions))) 3 else 0),
               sr_throughput = py_round (max 0 (100 - of_nat affected * 8)) 1,
               sr_loss = 0, sr_map = lats, sr_ts = clk 2\<rparr>
      in (lab_store r s, r))"

subsection \<open>Edge regions are cut off\<close>

text \<open>Without edge regions the first 30 percent of all count as such.\<close>

definition edge_regions_of :: "tele list \<Rightarrow> tele list" where
  "edge_regions_of regions =
     (let es = filter (\<lambda>r. num r ''is_edge'' 0 \<noteq> 0 \<or> text_of r ''node_type'' [] = ''edge'') regions
      in if es = [] then take (max 1 (nat (py_trunc (of_nat (length regions) * (3 / 10))))) regions else es)"

definition isolated_count :: "tele list \<Rightarrow> rat \<Rightarrow> nat" where
  "isolated_count regions pct = nat (max 1 (py_trunc (of_nat (length (edge_regions_of regions)) * pct)))"

definition edge_isolation_result :: "clock \<Rightarrow> (nat \<Rightarrow> rat) \<Rightarrow> tele list \<Rightarrow> rat \<Rightarrow> sim_result" where
  "edge_isolation_result clk u regions pct =
     (let k = isolated_count regions pct; isolated = take k (edge_regions_of regions);
          lats = sim_latencies (\<lambda>r. if r \<in> set isolated then 9999 else py_round (num r ''avg_latency_ms'' 30 * (11 / 10)) 1) regions [];
          up = filter (\<lambda>v. v < 9000) (dvalues lats); n = max 1 (length regions)
      in \<lparr>sr_id = sim_id ''sim-edge-iso-'' (clk 0), sr_type = EdgeIsolation, sr_duration = py_round (clk 1 - clk 0) 3,
               sr_affected = k, sr_rerouted = total_of ''active_workloads'' 3 isolated,
               sr_failover = py_round (uniform 50 300 (u 0)) 1, sr_recovery = py_round (uniform 1000 10000 (u 1)) 1,
               sr_avg = py_round (sum_list up / of_int (max 1 (int (length regions) - int k))) 1,
               sr_max = worst up,
               sr_efficiency = py_round (1 - of_nat k * (5 / 100)) 3,
               sr_resilience = py_round (1 - of_nat k / of_nat n) 3,
               sr_throughput = py_round (100 * (1 - of_nat k / of_nat n)) 1,
               sr_loss = py_round (uniform 0 1 (u 2)) 2, sr_map = lats, sr_ts = clk 2\<rparr>)"

definition simulate_edge_isolation :: "clock \<Rightarrow> (nat \<Rightarrow> rat) \<Rightarrow> tele list \<Rightarrow> rat \<Rightarrow> sim_result lab \<Rightarrow> sim_result lab \<times> sim_result" where
  "simulate_edge_isolation clk u regions pct s =
     (let r = edge_isolation_result clk u regions pct in (lab_store r s, r))"

subsection \<open>All five, and the reports\<close>

text \<open>Every simulation has its own clock readings and draws. When the blackout raises, the three after it do not run.\<close>

definition run_full_stress_test ::
    "(nat \<Rightarrow> clock) \<Rightarrow> (nat \<Rightarrow> nat \<Rightarrow> rat) \<Rightarrow> (string list \<Rightarrow> string list) \<Rightarrow> (string list \<Rightarrow> string) \<Rightarrow> tele list \<Rightarrow>
      sim_result lab \<Rightarrow> sim_result lab \<times> sim_result list option" where
  "run_full_stress_test clk u listed pick regions s =
     (let (s1, r1) = simulate_traffic_spike (clk 0) (u 0) regions 10 s;
          (s2, o2) = simulate_regional_blackout (clk 1) (u 1) listed pick regions [] s1
      in case o2 of None \<Rightarrow> (s2, None)
         | Some r2 \<Rightarrow>
             let (s3, r3) = simulate_continental_failover (clk 2) (u 2) listed regions [] [] s2;
                 (s4, r4) = simulate_inference_surge (clk 3) (u 3) regions 50 s3;
                 (s5, r5) = simulate_edge_isolation (clk 4) (u 4) regions (1 / 2) s4
             in (s5, Some [r1, r2, r3, r4, r5]))"

definition results_by_type :: "scenario_type \<Rightarrow> sim_result lab \<Rightarrow> sim_result list" where
  "results_by_type k s = filter (\<lambda>r. sr_type r = k) (lab_results s)"

definition resilience_summary :: "sim_result lab \<Rightarrow> (nat \<times> rat \<times> rat \<times> rat \<times> (scenario_type, nat) dict) option" where
  "resilience_summary s =
     (let rs = lab_results s in
      if rs = [] then None
      else Some (length rs, py_round (avg_of (map sr_resilience rs)) 3, py_round (avg_of (map sr_failover rs)) 1,
                 py_round (avg_of (map sr_recovery rs)) 1, fold tally (map sr_type rs) []))"

section \<open>Outages of continents\<close>

record outage_result =
  or_id :: string
  or_continent :: string
  or_offline :: nat
  or_surviving :: nat
  or_migrated :: rat
  or_failover :: rat
  or_recovery :: rat
  or_integrity :: rat
  or_continuity :: rat
  or_latency :: rat
  or_capacity :: rat
  or_passed :: bool
  or_ts :: pyfloat

abbreviation capacity_of :: "tele list \<Rightarrow> rat" where
  "capacity_of rs \<equiv> total_of ''capacity'' 1 rs"

abbreviation workloads_of :: "tele list \<Rightarrow> rat" where
  "workloads_of rs \<equiv> total_of ''active_workloads'' 5 rs"

definition spare_capacity :: "tele list \<Rightarrow> rat" where
  "spare_capacity rs = sum_list (map (\<lambda>r. num r ''capacity'' 1 * (1 - num r ''workload_saturation'' (1 / 2))) rs)"

definition blackout_continuity :: "rat \<Rightarrow> rat \<Rightarrow> rat" where
  "blackout_continuity spare workloads =
     (if workloads \<noteq> 0 then min 100 (spare * 10000 / max 1 workloads * 100) else 100)"

definition outage_blackout_result :: "clock \<Rightarrow> (nat \<Rightarrow> rat) \<Rightarrow> tele list \<Rightarrow> string \<Rightarrow> outage_result" where
  "outage_blackout_result clk u regions c =
     (let affected = filter (in_continent c) regions; surviving = filter (\<lambda>r. \<not> in_continent c r) regions;
          workloads = workloads_of affected; spare = spare_capacity surviving;
          whole = capacity_of regions;
          after = (if whole \<noteq> 0 then (whole - capacity_of affected) / whole * 100 else 0);
          continuity = blackout_continuity spare workloads
      in \<lparr>or_id = ''outage-blackout-'' @ c @ ''-'' @ string_of_int (py_trunc (clk 0)), or_continent = c,
          or_offline = length affected, or_surviving = length surviving,
          or_migrated = (if spare * 10000 > workloads then workloads else of_int (py_trunc (workloads * continuity / 100))),
          or_failover = py_round (uniform 200 2000 (u 0)) 1, or_recovery = py_round (uniform 10000 120000 (u 1)) 1,
          or_integrity = py_round (uniform (995 / 10) 100 (u 2)) 2, or_continuity = py_round continuity 1,
          or_latency = py_round (uniform 80 300 (u 3)) 1, or_capacity = py_round after 1,
          or_passed = (continuity > 50 \<and> uniform 200 2000 (u 0) < 5000), or_ts = clk 1\<rparr>)"

definition test_complete_blackout ::
    "clock \<Rightarrow> (nat \<Rightarrow> rat) \<Rightarrow> (string list \<Rightarrow> string list) \<Rightarrow> (string list \<Rightarrow> string) \<Rightarrow> tele list \<Rightarrow> string \<Rightarrow>
      outage_result lab \<Rightarrow> outage_result lab \<times> outage_result" where
  "test_complete_blackout clk u listed pick regions continent s =
     (let cs = named_continents_of listed regions;
          c = (if continent = [] \<and> cs \<noteq> [] then pick cs else continent);
          r = outage_blackout_result clk u regions c
      in (lab_store r s, r))"

text \<open>With fewer than two continents the test fails and its result is not kept.\<close>

definition empty_outage :: "string \<Rightarrow> pyfloat \<Rightarrow> outage_result" where
  "empty_outage i t =
     \<lparr>or_id = i, or_continent = [], or_offline = 0, or_surviving = 0, or_migrated = 0, or_failover = 0, or_recovery = 0,
      or_integrity = 100, or_continuity = 0, or_latency = 0, or_capacity = 0, or_passed = False, or_ts = t\<rparr>"

definition test_cascading_failure ::
    "clock \<Rightarrow> (nat \<Rightarrow> rat) \<Rightarrow> (string list \<Rightarrow> string list) \<Rightarrow> tele list \<Rightarrow> outage_result lab \<Rightarrow> outage_result lab \<times> outage_result" where
  "test_cascading_failure clk u listed regions s =
     (let cs = named_continents_of listed regions; i = sim_id ''outage-cascade-'' (clk 0) in
      if length cs < 2 then (s, empty_outage i (clk 1))
      else
        let a = cs ! 0; b = cs ! 1;
            as = filter (in_continent a) regions; bs = filter (in_continent b) regions;
            surviving = filter (\<lambda>r. \<not> in_continent a r \<and> \<not> in_continent b r) regions;
            after = (if capacity_of regions \<noteq> 0 then capacity_of surviving / capacity_of regions * 100 else 0);
            continuity = min 100 (after * (8 / 10));
            r = \<lparr>or_id = i, or_continent = a @ ''+'' @ b, or_offline = length as + length bs, or_surviving = length surviving,
                 or_migrated = of_int (py_trunc (workloads_of (as @ bs) * continuity / 100)),
                 or_failover = py_round (uniform 500 5000 (u 0)) 1, or_recovery = py_round (uniform 30000 300000 (u 1)) 1,
                 or_integrity = py_round (uniform 98 100 (u 2)) 2, or_continuity = py_round continuity 1,
                 or_latency = py_round (uniform 150 500 (u 3)) 1, or_capacity = py_round after 1,
                 or_passed = (continuity > 30), or_ts = clk 1\<rparr>
        in (lab_store r s, r))"

definition partition_of :: "(string list \<Rightarrow> string list) \<Rightarrow> tele list \<Rightarrow> tele list \<times> tele list" where
  "partition_of listed regions =
     (let cs = named_continents_of listed regions in
      if length cs < 2 then (take (length regions div 2) regions, drop (length regions div 2) regions)
      else let group = take (length cs div 2) cs;
               inside = (\<lambda>r. \<exists>c \<in> set group. in_continent c r)
           in (filter inside regions, filter (\<lambda>r. \<not> inside r) regions))"

definition test_network_partition ::
    "clock \<Rightarrow> (nat \<Rightarrow> rat) \<Rightarrow> (string list \<Rightarrow> string list) \<Rightarrow> tele list \<Rightarrow> outage_result lab \<Rightarrow> outage_result lab \<times> outage_result" where
  "test_network_partition clk u listed regions s =
     (let (a, b) = partition_of listed regions;
          least = min (capacity_of a) (capacity_of b) / max (1 / 100) (capacity_of a + capacity_of b);
          r = \<lparr>or_id = sim_id ''outage-partition-'' (clk 0), or_continent = [], or_offline = 0, or_surviving = length regions,
               or_migrated = 0,
               or_failover = py_round (uniform 100 1000 (u 0)) 1, or_recovery = py_round (uniform 5000 60000 (u 1)) 1,
               or_integrity = py_round (uniform 99 100 (u 2)) 2, or_continuity = py_round (min 100 (least * 200)) 1,
               or_latency = 9999, or_capacity = py_round (least * 100) 1, or_passed = True, or_ts = clk 1\<rparr>
      in (lab_store r s, r))"

definition run_outage_suite ::
    "(nat \<Rightarrow> clock) \<Rightarrow> (nat \<Rightarrow> nat \<Rightarrow> rat) \<Rightarrow> (string list \<Rightarrow> string list) \<Rightarrow> (string list \<Rightarrow> string) \<Rightarrow> tele list \<Rightarrow>
      outage_result lab \<Rightarrow> outage_result lab \<times> outage_result list" where
  "run_outage_suite clk u listed pick regions s =
     (let cs = take 3 (named_continents_of listed regions);
          (s1, rs) = fold (\<lambda>(i, c) (s, rs).
              let (s', r) = test_complete_blackout (clk i) (u i) listed pick regions c s in (s', rs @ [r]))
            (enumerate 0 cs) (s, []);
          (s2, r2) = test_cascading_failure (clk 3) (u 3) listed regions s1;
          (s3, r3) = test_network_partition (clk 4) (u 4) listed regions s2
      in (s3, rs @ [r2, r3]))"

definition pass_rate :: "outage_result lab \<Rightarrow> rat" where
  "pass_rate s =
     (if lab_results s = [] then 0
      else py_round (of_nat (length (filter or_passed (lab_results s))) / of_nat (length (lab_results s))) 3)"

definition outage_metrics :: "outage_result lab \<Rightarrow> nat \<times> rat" where
  "outage_metrics s = (lab_total s, pass_rate s)"

section \<open>Load tests\<close>

record load_result =
  lo_id :: string
  lo_total :: int
  lo_successful :: int
  lo_failed :: int
  lo_rejected :: int
  lo_avg :: rat
  lo_p50 :: rat
  lo_p95 :: rat
  lo_p99 :: rat
  lo_max :: rat
  lo_throughput :: rat
  lo_gpu_peak :: rat
  lo_queue_peak :: int
  lo_saturated :: nat
  lo_duration :: rat
  lo_ts :: pyfloat

definition share_per_region :: "int \<Rightarrow> tele list \<Rightarrow> int" where
  "share_per_region n regions = n div max 1 (int (length regions))"

definition available_for :: "tele \<Rightarrow> rat" where
  "available_for r = max 0 ((1 - num r ''workload_saturation'' (1 / 2)) * num r ''capacity'' 1 * 10000)"

definition handled_by :: "int \<Rightarrow> tele \<Rightarrow> int" where
  "handled_by q r = min q (py_trunc (available_for r))"

definition rejected_by :: "int \<Rightarrow> tele \<Rightarrow> int" where
  "rejected_by q r = max 0 (q - py_trunc (available_for r * (12 / 10)))"

definition failed_at :: "int \<Rightarrow> tele \<Rightarrow> int" where
  "failed_at q r = max 0 (q - handled_by q r - rejected_by q r)"

definition loaded_latency :: "int \<Rightarrow> tele \<Rightarrow> rat" where
  "loaded_latency q r = num r ''avg_latency_ms'' 30 * (1 + of_int q / max 1 (available_for r) * 3)"

definition test_massive_concurrency ::
    "clock \<Rightarrow> tele list \<Rightarrow> int \<Rightarrow> load_result lab \<Rightarrow> load_result lab \<times> load_result" where
  "test_massive_concurrency clk regions n s =
     (let q = share_per_region n regions;
          ok = sum_list (map (handled_by q) regions); d = clk 1 - clk 0;
          ls = sort (map (loaded_latency q) regions); k = length ls;
          nth_lat = (\<lambda>i. if k \<noteq> 0 then ls ! i else 0);
          r = \<lparr>lo_id = sim_id ''load-concurrency-'' (clk 0), lo_total = n, lo_successful = ok,
               lo_failed = sum_list (map (failed_at q) regions), lo_rejected = sum_list (map (rejected_by q) regions),
               lo_avg = py_round (avg_of ls) 1, lo_p50 = py_round (nth_lat (at_share (5 / 10) k)) 1,
               lo_p95 = py_round (nth_lat (at_share (95 / 100) k)) 1,
               lo_p99 = py_round (nth_lat (min (at_share (99 / 100) k) (k - 1))) 1, lo_max = py_round (nth_lat (k - 1)) 1,
               lo_throughput = py_round (of_int ok / max (1 / 1000) d) 0,
               lo_gpu_peak = min 1 (1 / 2 + of_int n / 2000000), lo_queue_peak = max 0 (n - ok),
               lo_saturated = length (filter (\<lambda>r. of_int q > available_for r * (9 / 10)) regions),
               lo_duration = py_round d 3, lo_ts = clk 2\<rparr>
      in (lab_store r s, r))"

text \<open>GPU counts are whole numbers.\<close>

definition gpus_of :: "tele \<Rightarrow> int \<Rightarrow> int" where
  "gpus_of r d = \<lfloor>num r ''total_gpus'' (of_int d)\<rfloor>"

definition gpu_handled :: "tele \<Rightarrow> int" where
  "gpu_handled r = min (gpus_of r 8 * 100) (py_trunc (of_int (gpus_of r 8) * (1 - num r ''gpu_utilization'' (1 / 2)) * 10))"

definition gpu_saturated :: "tele \<Rightarrow> bool" where
  "gpu_saturated r \<longleftrightarrow> num r ''gpu_utilization'' (1 / 2) > 9 / 10 \<or> of_int (gpu_handled r) < of_int (gpus_of r 8 * 100) * (1 / 2 :: rat)"

definition test_gpu_saturation ::
    "clock \<Rightarrow> (nat \<Rightarrow> rat) \<Rightarrow> tele list \<Rightarrow> load_result lab \<Rightarrow> load_result lab \<times> load_result" where
  "test_gpu_saturation clk u regions s =
     (let ok = sum_list (map gpu_handled regions); d = clk 1 - clk 0;
          r = \<lparr>lo_id = sim_id ''load-gpu-sat-'' (clk 0), lo_total = sum_list (map (\<lambda>r. gpus_of r 0) regions) * 100,
               lo_successful = ok, lo_failed = sum_list (map (\<lambda>r. max 0 (gpus_of r 8 * 100 - gpu_handled r)) regions),
               lo_rejected = 0,
               lo_avg = py_round (uniform 50 200 (u 0)) 1, lo_p50 = 0, lo_p95 = py_round (uniform 200 800 (u 1)) 1,
               lo_p99 = py_round (uniform 500 2000 (u 2)) 1, lo_max = py_round (uniform 1000 5000 (u 3)) 1,
               lo_throughput = py_round (of_int ok / max (1 / 1000) d) 0, lo_gpu_peak = 99 / 100, lo_queue_peak = 0,
               lo_saturated = length (filter gpu_saturated regions), lo_duration = py_round d 3, lo_ts = clk 2\<rparr>
      in (lab_store r s, r))"

definition queue_room :: "tele \<Rightarrow> int" where
  "queue_room r = py_trunc (num r ''capacity'' 1 * 100000)"

definition test_queue_overflow ::
    "clock \<Rightarrow> (nat \<Rightarrow> rat) \<Rightarrow> tele list \<Rightarrow> int \<Rightarrow> load_result lab \<Rightarrow> load_result lab \<times> load_result" where
  "test_queue_overflow clk u regions n s =
     (let q = share_per_region n regions; ok = sum_list (map (\<lambda>r. min q (queue_room r)) regions);
          r = \<lparr>lo_id = sim_id ''load-queue-'' (clk 0), lo_total = n, lo_successful = ok, lo_failed = 0,
               lo_rejected = sum_list (map (\<lambda>r. max 0 (q - queue_room r)) regions),
               lo_avg = py_round (uniform 500 5000 (u 0)) 1, lo_p50 = 0, lo_p95 = 0,
               lo_p99 = py_round (uniform 5000 30000 (u 1)) 1, lo_max = py_round (uniform 10000 60000 (u 2)) 1,
               lo_throughput = 0, lo_gpu_peak = 0, lo_queue_peak = ok,
               lo_saturated = length (filter (\<lambda>r. num r ''workload_saturation'' 0 > 9 / 10) regions),
               lo_duration = py_round (clk 1 - clk 0) 3, lo_ts = clk 2\<rparr>
      in (lab_store r s, r))"

definition run_load_suite ::
    "(nat \<Rightarrow> clock) \<Rightarrow> (nat \<Rightarrow> nat \<Rightarrow> rat) \<Rightarrow> tele list \<Rightarrow> load_result lab \<Rightarrow> load_result lab \<times> load_result list" where
  "run_load_suite clk u regions s =
     (let (s1, r1) = test_massive_concurrency (clk 0) regions 1000000 s;
          (s2, r2) = test_gpu_saturation (clk 1) (u 1) regions s1;
          (s3, r3) = test_queue_overflow (clk 2) (u 2) regions 5000000 s2
      in (s3, [r1, r2, r3]))"

section \<open>Histories\<close>

definition lab_ok :: "'a lab \<Rightarrow> bool" where
  "lab_ok s \<longleftrightarrow> 0 < lab_max s \<and> length (lab_results s) \<le> lab_max s"

definition lab_step :: "'a \<Rightarrow> 'a lab \<Rightarrow> 'a lab \<times> 'a list" where
  "lab_step x s = (lab_store x s, [x])"

interpretation lab_log: history lab_ok lab_results lab_max lab_total lab_step
  by unfold_locales (auto simp: lab_ok_def lab_step_def lab_store_def length_py_cap)

lemma run_lab_steps: "run_outputs lab_step xs s = (fold lab_store xs s, xs)"
  by (induction xs arbitrary: s) (simp_all add: lab_step_def)

lemma lab_fold:
  "lab_ok s \<Longrightarrow> lab_ok (fold lab_store xs s) \<and> lab_results (fold lab_store xs s) = py_cap (lab_max s) (lab_results s @ xs)
     \<and> lab_total (fold lab_store xs s) = lab_total s + length xs"
  using lab_log.history_complete [OF _ _ run_lab_steps, of s xs] length_py_cap [of "lab_max s" "lab_results s @ xs"]
  by (simp add: lab_ok_def)

lemma lab_total_store [simp]: "lab_total (lab_store x s) = Suc (lab_total s)"
  by (simp add: lab_store_def)

lemma lab_ok_new: "0 < mh \<Longrightarrow> lab_ok (new_lab mh)"
  by (simp add: lab_ok_def new_lab_def)

section \<open>Load tests account for every request they spread\<close>

lemma trunc_mono: "0 \<le> x \<Longrightarrow> x \<le> y \<Longrightarrow> py_trunc x \<le> py_trunc y"
  by (simp add: py_trunc_def floor_mono)

lemma split_load: "handled_by q r + failed_at q r + rejected_by q r = q"
proof -
  have a: "0 \<le> available_for r" by (simp add: available_for_def)
  have "py_trunc (available_for r) \<le> py_trunc (available_for r * (12 / 10))" by (rule trunc_mono [OF a]) (use a in simp)
  then show ?thesis by (simp add: handled_by_def failed_at_def rejected_by_def)
qed

lemma split_sum3:
  "(\<And>r. f r + g r + h r = (q :: int)) \<Longrightarrow> sum_list (map f rs) + sum_list (map g rs) + sum_list (map h rs) = int (length rs) * q"
proof (induction rs)
  case (Cons r rs)
  then show ?case using Cons.prems [of r] by (simp add: algebra_simps)
qed simp

lemma share_left: "n - int (length rs) * share_per_region n rs = (if rs = [] then n else n mod int (length rs))"
proof (cases rs)
  case (Cons r xs)
  then have "max 1 (int (length rs)) = int (length rs)" by simp
  then show ?thesis using Cons by (simp add: share_per_region_def minus_mult_div_eq_mod)
qed simp

lemma gpu_split: "gpu_handled r + max 0 (gpus_of r 8 * 100 - gpu_handled r) = gpus_of r 8 * 100"
  by (simp add: gpu_handled_def)

text \<open>C0. A load test accounts for all requests that it spreads: handled, failed and rejected ones add up to the
  target less the rest of the division among the regions (all of it when there is no region); the GPU test accounts
  for a hundred requests per GPU, and the percentiles of the latencies are in order.\<close>

theorem load_tests_account:
  "let r = snd (test_massive_concurrency clk regions n s); q = snd (test_queue_overflow clk' u regions n s);
       g = snd (test_gpu_saturation clk'' u regions s); rest = (if regions = [] then n else n mod int (length regions)) in
     lo_successful r + lo_failed r + lo_rejected r = n - rest
     \<and> lo_successful q + lo_rejected q = n - rest
     \<and> lo_successful g + lo_failed g = sum_list (map (\<lambda>r. gpus_of r 8 * 100) regions)
     \<and> lo_p50 r \<le> lo_p95 r \<and> lo_p95 r \<le> lo_p99 r \<and> lo_p99 r \<le> lo_max r"
proof -
  let ?q = "share_per_region n regions" and ?ls = "sort (map (loaded_latency (share_per_region n regions)) regions)"
  have spread: "int (length regions) * ?q = n - (if regions = [] then n else n mod int (length regions))"
    using share_left [of n regions] by simp
  have conc: "sum_list (map (handled_by ?q) regions) + sum_list (map (failed_at ?q) regions) + sum_list (map (rejected_by ?q) regions)
      = int (length regions) * ?q" by (rule split_sum3 [OF split_load])
  have queue: "sum_list (map (\<lambda>r. min ?q (queue_room r)) regions) + sum_list (map (\<lambda>r. 0) regions)
      + sum_list (map (\<lambda>r. max 0 (?q - queue_room r)) regions) = int (length regions) * ?q" by (rule split_sum3) simp
  have gpu: "sum_list (map gpu_handled regions) + sum_list (map (\<lambda>r. max 0 (gpus_of r 8 * 100 - gpu_handled r)) regions)
      = sum_list (map (\<lambda>r. gpus_of r 8 * 100) regions)"
    unfolding sum_list_addf [symmetric] by (simp only: gpu_split)
  have perc: "regions \<noteq> [] \<Longrightarrow>
      ?ls ! at_share (5 / 10) (length regions) \<le> ?ls ! at_share (95 / 100) (length regions)
      \<and> ?ls ! at_share (95 / 100) (length regions) \<le> ?ls ! min (at_share (99 / 100) (length regions)) (length regions - 1)
      \<and> ?ls ! min (at_share (99 / 100) (length regions)) (length regions - 1) \<le> ?ls ! (length regions - 1)"
  proof -
    assume "regions \<noteq> []"
    then have n: "0 < length regions" by simp
    have "at_share (95 / 100) (length regions) < length regions" by (rule share_less [OF n]) simp_all
    moreover have "at_share (5 / 10) (length regions) \<le> at_share (95 / 100) (length regions)"
      "at_share (95 / 100) (length regions) \<le> at_share (99 / 100) (length regions)" by (rule share_mono; simp)+
    moreover have "i \<le> j \<Longrightarrow> j < length regions \<Longrightarrow> ?ls ! i \<le> ?ls ! j" for i j by (rule sorted_nth_mono) simp_all
    ultimately show ?thesis using n by simp
  qed
  have "sum_list (map (\<lambda>r. min ?q (queue_room r)) regions) + sum_list (map (\<lambda>r. max 0 (?q - queue_room r)) regions)
      = int (length regions) * ?q" using queue by simp
  then show ?thesis
    unfolding test_massive_concurrency_def test_queue_overflow_def test_gpu_saturation_def Let_def snd_conv
      load_result.select_convs length_sort length_map
    using conc gpu spread perc by (cases "regions = []") (auto intro!: py_round_mono)
qed

text \<open>A region that does not report its GPUs counts 0 of them in the requests sent and 8 in those handled.\<close>

lemma gpu_requests_disagree:
  "let r = snd (test_gpu_saturation (\<lambda>_. 0) (\<lambda>_. 0) [tele_of ''eu'' []] (new_lab 100)) in
     lo_total r = 0 \<and> lo_successful r = 40 \<and> lo_failed r = 760"
  unfolding test_gpu_saturation_def Let_def snd_conv load_result.select_convs
  by (simp add: gpu_handled_def gpus_of_def num_def dict_num_def tele_of_def py_trunc_def)

section \<open>The stress test\<close>

lemma spike_unit: "unit_score (sr_resilience (snd (simulate_traffic_spike clk u regions factor s)))"
proof -
  have "unit_score (if regions \<noteq> [] then max 0 (1 - of_nat (length (filter (\<lambda>r. spiked factor r > 95 / 100) regions)) / of_nat (length regions)) else 0)"
    by (simp add: unit_score_def)
  then show ?thesis
    unfolding simulate_traffic_spike_def Let_def snd_conv sim_result.select_convs by (rule py_round_unit)
qed

lemma surge_unit: "unit_score (sr_resilience (snd (simulate_inference_surge clk u regions f s)))"
proof -
  have "unit_score (max 0 (1 - of_nat (length (filter (\<lambda>r. surged f r > 95 / 100) regions)) / of_nat (length regions)))"
    by (simp add: unit_score_def)
  then have "unit_score (py_round (max 0 (1 - of_nat (length (filter (\<lambda>r. surged f r > 95 / 100) regions)) / of_nat (length regions))) 3)"
    by (rule py_round_unit)
  moreover have "unit_score 0" by (simp add: unit_score_def)
  ultimately show ?thesis
    unfolding simulate_inference_surge_def Let_def snd_conv sim_result.select_convs by presburger
qed

lemma blackout_unit:
  "snd (simulate_regional_blackout clk u listed pick regions target s) = Some r \<Longrightarrow> unit_score (sr_resilience r)"
proof -
  assume some: "snd (simulate_regional_blackout clk u listed pick regions target s) = Some r"
  let ?alive = "filter (\<lambda>r. \<not> in_continent (blackout_target listed pick regions target) r) regions"
  have "unit_score (if regions \<noteq> [] then of_nat (length ?alive) / of_nat (length regions) else 0)"
    by (simp add: unit_score_def divide_le_eq)
  then show ?thesis using some by (auto simp: simulate_regional_blackout_def Let_def py_round_unit split: if_splits)
qed

lemma failover_unit: "unit_score (sr_resilience (snd (simulate_continental_failover clk u listed regions a b s)))"
  unfolding simulate_continental_failover_def continental_failover_result_def Let_def snd_conv sim_result.select_convs
  by (rule py_round_unit) (simp only: unit_score_def, simp)

lemma edge_regions_length: "length (edge_regions_of regions) \<le> length regions"
  by (simp add: edge_regions_of_def Let_def)

lemma isolated_le: "0 \<le> pct \<Longrightarrow> pct \<le> 1 \<Longrightarrow> isolated_count regions pct \<le> max 1 (length regions)"
proof -
  assume p: "0 \<le> pct" "pct \<le> 1"
  have "of_nat (length (edge_regions_of regions)) * pct \<le> of_nat (length (edge_regions_of regions)) * 1"
    by (rule mult_left_mono [OF p(2)]) simp
  then have "py_trunc (of_nat (length (edge_regions_of regions)) * pct) \<le> py_trunc (of_nat (length (edge_regions_of regions)))"
    using p by (intro trunc_mono) simp_all
  also have "\<dots> \<le> int (length regions)" using edge_regions_length [of regions] by (simp add: py_trunc_def)
  finally show ?thesis by (simp add: isolated_count_def)
qed

lemma edge_unit: "0 \<le> pct \<Longrightarrow> pct \<le> 1 \<Longrightarrow> unit_score (sr_resilience (snd (simulate_edge_isolation clk u regions pct s)))"
proof -
  assume "0 \<le> pct" "pct \<le> 1"
  from isolated_le [OF this, of regions]
  have "(of_nat (isolated_count regions pct) :: rat) \<le> of_nat (max 1 (length regions))" by (simp only: of_nat_le_iff)
  moreover have "(0 :: rat) < of_nat (max 1 (length regions))" by simp
  ultimately have "unit_score (1 - of_nat (isolated_count regions pct) / of_nat (max 1 (length regions)))"
    by (simp add: unit_score_def divide_le_eq)
  then show ?thesis by (simp add: simulate_edge_isolation_def edge_isolation_result_def Let_def py_round_unit)
qed

text \<open>What every scenario does: one result of its own type, stored.\<close>

definition kept :: "scenario_type \<Rightarrow> sim_result lab \<Rightarrow> sim_result lab \<Rightarrow> sim_result \<Rightarrow> bool" where
  "kept k s s' r \<longleftrightarrow> s' = lab_store r s \<and> sr_type r = k \<and> unit_score (sr_resilience r)"

lemma spike_kept: "simulate_traffic_spike clk u regions factor s = (s', r) \<Longrightarrow> kept TrafficSpike s s' r"
  using spike_unit [of clk u regions factor s] by (auto simp: kept_def simulate_traffic_spike_def Let_def)

lemma surge_kept: "simulate_inference_surge clk u regions factor s = (s', r) \<Longrightarrow> kept InferenceSurge s s' r"
  using surge_unit [of clk u regions factor s] by (auto simp: kept_def simulate_inference_surge_def Let_def)

lemma failover_type: "sr_type (continental_failover_result clk u listed regions a b) = ContinentalFailover"
  unfolding continental_failover_result_def Let_def sim_result.select_convs by (rule refl)

lemma failover_kept: "simulate_continental_failover clk u listed regions a b s = (s', r) \<Longrightarrow> kept ContinentalFailover s s' r"
  using failover_unit [of clk u listed regions a b s] by (auto simp: kept_def simulate_continental_failover_def Let_def failover_type)

lemma edge_type: "sr_type (edge_isolation_result clk u regions pct) = EdgeIsolation"
  unfolding edge_isolation_result_def Let_def sim_result.select_convs by (rule refl)

lemma edge_kept:
  assumes "simulate_edge_isolation clk u regions pct s = (s', r)" "0 \<le> pct" "pct \<le> 1"
  shows "kept EdgeIsolation s s' r"
  using edge_unit [OF assms(2,3), of clk u regions s] assms(1)
  by (auto simp: kept_def simulate_edge_isolation_def Let_def edge_type)

lemma blackout_kept:
  "simulate_regional_blackout clk u listed pick regions target s = (s', out) \<Longrightarrow>
    (case out of Some r \<Rightarrow> kept RegionalBlackout s s' r | None \<Rightarrow> s' = s)"
  using blackout_unit [of clk u listed pick regions target s]
  by (cases out) (auto simp: kept_def simulate_regional_blackout_def Let_def split: if_splits)

lemma full_stress:
  assumes run: "run_full_stress_test clk u listed pick regions s = (s', out)"
  obtains r rs where "s' = fold lab_store (r # rs) s" "list_all (\<lambda>r. unit_score (sr_resilience r)) (r # rs)"
    "out = None \<and> rs = [] \<or> out = Some (r # rs) \<and> length rs = 4
      \<and> map sr_type (r # rs) = [TrafficSpike, RegionalBlackout, ContinentalFailover, InferenceSurge, EdgeIsolation]"
proof -
  obtain s1 r1 where q1: "simulate_traffic_spike (clk 0) (u 0) regions 10 s = (s1, r1)" by fastforce
  obtain s2 o2 where q2: "simulate_regional_blackout (clk 1) (u 1) listed pick regions [] s1 = (s2, o2)" by fastforce
  note k1 = spike_kept [OF q1] and k2 = blackout_kept [OF q2]
  show thesis
  proof (cases o2)
    case None
    then have "s' = s2 \<and> out = None" using run unfolding run_full_stress_test_def q1 Let_def prod.case q2 by simp
    with None k1 k2 show thesis by (intro that [of r1 "[]"]) (simp_all add: kept_def)
  next
    case (Some r2)
    obtain s3 r3 where q3: "simulate_continental_failover (clk 2) (u 2) listed regions [] [] s2 = (s3, r3)" by fastforce
    obtain s4 r4 where q4: "simulate_inference_surge (clk 3) (u 3) regions 50 s3 = (s4, r4)" by fastforce
    obtain s5 r5 where q5: "simulate_edge_isolation (clk 4) (u 4) regions (1 / 2) s4 = (s5, r5)" by fastforce
    have "s' = s5 \<and> out = Some [r1, r2, r3, r4, r5]"
      using run Some unfolding run_full_stress_test_def q1 Let_def prod.case q2 by (simp add: q3 q4 q5)
    moreover have "kept EdgeIsolation s4 s5 r5" by (rule edge_kept [OF q5]) simp_all
    ultimately show thesis
      using k1 k2 Some failover_kept [OF q3] surge_kept [OF q4]
      by (intro that [of r1 "[r2, r3, r4, r5]"]) (simp_all add: kept_def)
  qed
qed

text \<open>C0. A stress test that returns runs its five scenarios in order and keeps their results as the last ones of the
  history, each counted; when the maximum over the surviving regions raises, just the spike before it is kept. Every
  resilience score that it keeps lies between 0 and 1, and with it the mean that the summary reports.\<close>

theorem stress_test_outcome:
  assumes ok: "lab_ok s" "list_all (\<lambda>r. unit_score (sr_resilience r)) (lab_results s)"
    and run: "run_full_stress_test clk u listed pick regions s = (s', out)"
  shows "(case out of
        Some rs \<Rightarrow> map sr_type rs = [TrafficSpike, RegionalBlackout, ContinentalFailover, InferenceSurge, EdgeIsolation]
          \<and> lab_results s' = py_cap (lab_max s) (lab_results s @ rs) \<and> lab_total s' = lab_total s + 5
      | None \<Rightarrow> lab_total s' = lab_total s + 1)
    \<and> lab_ok s' \<and> list_all (\<lambda>r. unit_score (sr_resilience r)) (lab_results s')
    \<and> (case resilience_summary s' of Some (n, mean, rest) \<Rightarrow> n \<le> lab_max s' \<and> unit_score mean | None \<Rightarrow> False)"
proof -
  obtain r1 rs where
    rs: "s' = fold lab_store (r1 # rs) s" "list_all (\<lambda>r. unit_score (sr_resilience r)) (r1 # rs)"
      "out = None \<and> rs = [] \<or> out = Some (r1 # rs) \<and> length rs = 4
        \<and> map sr_type (r1 # rs) = [TrafficSpike, RegionalBlackout, ContinentalFailover, InferenceSurge, EdgeIsolation]"
    by (rule full_stress [OF run])
  note f = lab_fold [OF ok(1), of "r1 # rs"]
  have ok': "lab_ok s'" and log: "lab_results s' = py_cap (lab_max s) (lab_results s @ r1 # rs)"
    and tot: "lab_total s' = lab_total s + length (r1 # rs)" using f rs(1) by simp_all
  have ne: "lab_results s' \<noteq> []" unfolding log using py_cap_snoc_mem [of "last (lab_results s @ r1 # rs)" "lab_max s" "butlast (lab_results s @ r1 # rs)"]
    by (metis append_butlast_last_id append_is_Nil_conv empty_iff list.distinct(1) list.set(1))
  have unit: "list_all (\<lambda>r. unit_score (sr_resilience r)) (lab_results s')"
    using ok(2) rs(2) set_py_cap [of "lab_max s" "lab_results s @ r1 # rs"] unfolding log list_all_iff by auto
  then have "unit_score (avg_of (map sr_resilience (lab_results s')))"
    using mean_unit [of "map sr_resilience (lab_results s')"] ne by (simp add: avg_of_def list_all_iff)
  then have "case resilience_summary s' of Some (n, mean, rest) \<Rightarrow> n \<le> lab_max s' \<and> unit_score mean | None \<Rightarrow> False"
    using ne ok' by (simp add: resilience_summary_def Let_def py_round_unit lab_ok_def)
  with rs(3) log tot ok' unit show ?thesis by auto
qed

theorem stress_test_outcome_witness:
  "lab_ok (new_lab 3 :: sim_result lab) \<and> (\<exists>s' out.
     run_full_stress_test (\<lambda>_ _. 0) (\<lambda>_ _. 0) remdups hd [tele_of ''eu'' []] (new_lab 3) = (s', out)
     \<and> lab_ok s' \<and> list_all (\<lambda>r. unit_score (sr_resilience r)) (lab_results s'))"
proof -
  obtain s' out where r: "run_full_stress_test (\<lambda>_ _. 0) (\<lambda>_ _. 0) remdups hd [tele_of ''eu'' []] (new_lab 3) = (s', out)"
    by fastforce
  have ok: "lab_ok (new_lab 3 :: sim_result lab)" by (rule lab_ok_new) simp
  have "list_all (\<lambda>r. unit_score (sr_resilience r)) (lab_results (new_lab 3))" by (simp add: new_lab_def)
  from stress_test_outcome [OF ok this r] show ?thesis using ok r by blast
qed

text \<open>A surviving region with a latency of 6000 ms makes the blackout raise.\<close>

lemma slow_survivor_raises:
  "snd (simulate_regional_blackout clk u remdups hd [tele_of ''eu'' [(''avg_latency_ms'', 6000)]] ''NA'' s) = None"
  by (simp add: simulate_regional_blackout_def blackout_target_def tele_of_def sim_latencies_def text_of_def num_def dict_num_def
      py_round_def round_half_even_def Let_def)

text \<open>With twenty-four edge regions cut off, the routing efficiency is negative.\<close>

lemma negative_efficiency:
  "sr_efficiency (snd (simulate_edge_isolation clk u (replicate 24 (tele_of ''eu'' [(''is_edge'', 1)])) 1 s)) = - (1 / 5)"
  unfolding simulate_edge_isolation_def edge_isolation_result_def Let_def snd_conv sim_result.select_convs
  by (simp add: isolated_count_def edge_regions_of_def Let_def num_def dict_num_def tele_of_def
      py_trunc_def py_round_def round_half_even_def numeral_eq_Suc)

text \<open>A continent that is named as the source can be chosen as its own target.\<close>

lemma failover_onto_itself:
  "let rs = [\<lparr>te_text = [(''continent'', ''NA'')], te_num = [], te_workloads = []\<rparr>, \<lparr>te_text = [(''continent'', ''EU''), (''region_id'', ''eu'')], te_num = [], te_workloads = []\<rparr>];
       r = snd (simulate_continental_failover clk u remdups rs ''EU'' [] s) in
     sr_affected r = 1 \<and> dkeys (sr_map r) = [''eu'']"
  unfolding simulate_continental_failover_def continental_failover_result_def Let_def snd_conv sim_result.select_convs
  by (simp add: named_continents_of_def sim_latencies_def text_of_def)

section \<open>Outages\<close>

lemma total_of_split: "total_of k d rs = total_of k d (filter P rs) + total_of k d (filter (\<lambda>r. \<not> P r) rs)"
  by (induction rs) (simp_all add: total_of_def)

lemma migrated_at_most: "0 \<le> w \<Longrightarrow> of_int (py_trunc (w * blackout_continuity x w / 100)) \<le> w"
proof -
  assume w: "0 \<le> w"
  have "blackout_continuity x w \<le> 100" by (simp add: blackout_continuity_def)
  then have "w * blackout_continuity x w \<le> w * 100" by (rule mult_left_mono [OF _ w])
  then have le: "w * blackout_continuity x w / 100 \<le> w" by simp
  show ?thesis
  proof (cases "0 \<le> w * blackout_continuity x w / 100")
    case True
    then have "of_int (py_trunc (w * blackout_continuity x w / 100)) \<le> w * blackout_continuity x w / 100"
      unfolding py_trunc_def if_P [OF True] using of_int_floor_le by blast
    with le show ?thesis by simp
  next
    case False
    then have "py_trunc (w * blackout_continuity x w / 100) \<le> 0" by (simp add: py_trunc_def ceiling_le_iff)
    then have "of_int (py_trunc (w * blackout_continuity x w / 100)) \<le> (0 :: rat)" by simp
    with w show ?thesis by simp
  qed
qed

text \<open>C0. A blackout divides the regions into lost and surviving ones, the capacity left is the share of the surviving,
  no more workloads move than there are on the lost continent and all of them when the spare capacity takes them; and the
  verdict is the continuity alone, the limit on the failover time is never reached.\<close>

theorem blackout_books:
  assumes "0 \<le> workloads_of (filter (in_continent c) regions)" "0 \<le> u 0" "u 0 \<le> 1"
  shows "let r = outage_blackout_result clk u regions c; lost = filter (in_continent c) regions;
             alive = filter (\<lambda>r. \<not> in_continent c r) regions in
           or_offline r + or_surviving r = length regions
           \<and> or_capacity r = (if capacity_of regions \<noteq> 0 then py_round (capacity_of alive / capacity_of regions * 100) 1 else 0)
           \<and> or_migrated r \<le> workloads_of lost
           \<and> (or_migrated r = workloads_of lost \<or> spare_capacity alive * 10000 \<le> workloads_of lost)
           \<and> (or_passed r \<longleftrightarrow> blackout_continuity (spare_capacity alive) (workloads_of lost) > 50)"
proof -
  have quick: "uniform 200 2000 (u 0) < 5000" using assms(3) by (simp add: uniform_def)
  have "capacity_of regions - capacity_of (filter (in_continent c) regions) = capacity_of (filter (\<lambda>r. \<not> in_continent c r) regions)"
    using total_of_split [of "''capacity''" 1 regions "in_continent c"] by simp
  with quick migrated_at_most [OF assms(1)] show ?thesis
    by (simp add: outage_blackout_result_def Let_def sum_length_filter_compl not_less)
qed

theorem blackout_books_witness:
  "let r = outage_blackout_result (\<lambda>_. 0) (\<lambda>_. 1 / 2) [tele_of ''eu'' []] ''EU'' in
     or_offline r + or_surviving r = 1 \<and> or_passed r"
  using blackout_books [of "''EU''" "[tele_of ''eu'' []]" "\<lambda>_. 1 / 2" "\<lambda>_. 0"]
  by (simp add: Let_def tele_of_def total_of_def blackout_continuity_def)

lemma partition_complete: "mset (fst (partition_of listed rs)) + mset (snd (partition_of listed rs)) = mset rs"
proof (cases "length (named_continents_of listed rs) < 2")
  case True
  have "mset (take k rs) + mset (drop k rs) = mset rs" for k by (metis append_take_drop_id mset_append)
  with True show ?thesis by (simp add: partition_of_def Let_def)
qed (simp add: partition_of_def Let_def)

lemma partition_capacity:
  "partition_of listed rs = (a, b) \<Longrightarrow> capacity_of a + capacity_of b = capacity_of rs"
proof -
  assume "partition_of listed rs = (a, b)"
  then have "mset (map (\<lambda>r. num r ''capacity'' 1) (a @ b)) = mset (map (\<lambda>r. num r ''capacity'' 1) rs)"
    using partition_complete [of listed rs] by (simp only: mset_map mset_append fst_conv snd_conv)
  then have "sum_list (map (\<lambda>r. num r ''capacity'' 1) (a @ b)) = sum_list (map (\<lambda>r. num r ''capacity'' 1) rs)"
    by (metis sum_mset_sum_list)
  then show ?thesis by (simp add: total_of_def)
qed

lemma blackout_fold:
  "\<exists>rs'. fold (\<lambda>(i, c) (s, rs). let (s', r) = test_complete_blackout (clk i) (u i) listed pick regions c s in (s', rs @ [r])) ics (s, rs)
     = (fold lab_store rs' s, rs @ rs') \<and> length rs' = length ics"
proof (induction ics arbitrary: s rs)
  case (Cons ic ics)
  obtain i c where ic: "ic = (i, c)" by fastforce
  obtain r where one: "test_complete_blackout (clk i) (u i) listed pick regions c s = (lab_store r s, r)"
    by (simp add: test_complete_blackout_def Let_def)
  from Cons.IH [of "lab_store r s" "rs @ [r]"] obtain rs' where
    "fold (\<lambda>(i, c) (s, rs). let (s', r) = test_complete_blackout (clk i) (u i) listed pick regions c s in (s', rs @ [r])) ics (lab_store r s, rs @ [r])
       = (fold lab_store rs' (lab_store r s), (rs @ [r]) @ rs')" "length rs' = length ics" by blast
  then show ?case using ic one by (intro exI [of _ "r # rs'"]) simp
qed simp

lemma lab_total_fold: "lab_total (fold lab_store xs s) = lab_total s + length xs"
  by (induction xs arbitrary: s) simp_all

text \<open>C0. The suite runs a blackout for each of the first three continents, a cascade and a partition. Every result is
  returned and kept, except that of a cascade for want of a second continent, which is not counted.\<close>

theorem outage_suite_counts:
  "let n = length (named_continents_of listed regions); (s', rs) = run_outage_suite clk u listed pick regions s in
     length rs = min 3 n + 2 \<and> lab_total s' = lab_total s + min 3 n + (if n < 2 then 1 else 2)
     \<and> or_passed (last rs) \<and> or_surviving (last rs) = length regions"
proof -
  let ?cs = "named_continents_of listed regions"
  obtain rs where f: "fold (\<lambda>(i, c) (s, rs). let (s', r) = test_complete_blackout (clk i) (u i) listed pick regions c s in (s', rs @ [r]))
      (enumerate 0 (take 3 ?cs)) (s, []) = (fold lab_store rs s, rs)" and len: "length rs = min 3 (length ?cs)"
    using blackout_fold [of clk u listed pick regions "enumerate 0 (take 3 ?cs)" s "[]"] by (auto simp: min.commute)
  obtain a b where ab: "partition_of listed regions = (a, b)" by fastforce
  show ?thesis
    unfolding run_outage_suite_def test_cascading_failure_def test_network_partition_def Let_def ab prod.case
      f [unfolded Let_def]
    by (simp add: len lab_total_fold)
qed

end
