(* ===== verification/ClusterStatus.thy ===== *)
theory ClusterStatus
  imports FederatedCluster ClusterRun Observability
begin

text \<open>
  What the services report of themselves: the read-only routes of \<open>control_plane/app.py\<close> and
  \<open>federation/controller.py\<close>, with the heartbeat route of the controller, the registry and provisioning routes of the control
  plane and the turn of its scheduling loop. The reports of one state are views of it; the theorems say how
  their figures fit together after every run.
\<close>

section \<open>The control plane\<close>

record health_report =
  hr_nodes :: nat
  hr_queued :: nat
  hr_leader :: bool
  hr_coordinator :: string

definition cluster_health_report :: "bool \<Rightarrow> string \<Rightarrow> cluster_memory \<Rightarrow> health_report" where
  "cluster_health_report leader mode m =
     \<lparr>hr_nodes = length (mem_nodes m), hr_queued = length (queue_snapshot m), hr_leader = leader, hr_coordinator = mode\<rparr>"

record metrics_report =
  mr_nodes :: nat
  mr_load :: rat
  mr_gpu_load :: rat
  mr_queued :: nat
  mr_running :: nat
  mr_failed :: nat
  mr_completed :: nat
  mr_leader :: bool

definition jobs_in :: "job_status \<Rightarrow> cluster_memory \<Rightarrow> nat" where
  "jobs_in st m = length (filter (\<lambda>j. job_status j = st) (dvalues (mem_jobs m)))"

definition cluster_metrics_report :: "bool \<Rightarrow> cluster_memory \<Rightarrow> metrics_report" where
  "cluster_metrics_report leader m =
     (let ns = dvalues (mem_nodes m)
      in \<lparr>mr_nodes = length (mem_nodes m), mr_load = py_round (node_mean node_current_load ns) 4,
          mr_gpu_load = py_round (node_mean node_current_load (filter node_has_gpu ns)) 4,
          mr_queued = jobs_in Queued m, mr_running = jobs_in Running m, mr_failed = jobs_in Failed m,
          mr_completed = jobs_in Completed m, mr_leader = leader\<rparr>)"

record status_report =
  st_nodes :: "node_state list"
  st_jobs :: "job_record list"
  st_depth :: nat
  st_ranked :: "(string \<times> rat) list"
  st_leader :: bool
  st_ts :: pyfloat

definition peek_ranking :: "cluster_memory \<Rightarrow> (string \<times> rat) list" where
  "peek_ranking m =
     (case queue_snapshot m of
        [] \<Rightarrow> []
      | jid # _ \<Rightarrow>
          if jid = [] then []
          else case dget (mem_jobs m) jid of
            None \<Rightarrow> []
          | Some j \<Rightarrow> map (\<lambda>(n, s). (node_id n, s)) (rank_nodes j (dvalues (mem_nodes m))))"

definition cluster_status_report :: "bool \<Rightarrow> pyfloat \<Rightarrow> cluster_memory \<Rightarrow> status_report" where
  "cluster_status_report leader t m =
     \<lparr>st_nodes = dvalues (mem_nodes m), st_jobs = dvalues (mem_jobs m), st_depth = length (queue_snapshot m),
      st_ranked = peek_ranking m, st_leader = leader, st_ts = t\<rparr>"

definition jobs_report :: "cluster_memory \<Rightarrow> job_record list \<times> string list" where
  "jobs_report m = (dvalues (mem_jobs m), queue_snapshot m)"

definition registry_get_route :: "string \<Rightarrow> cluster_memory \<Rightarrow> http_error + string \<times> json" where
  "registry_get_route key m =
     (case registry_get key m of None \<Rightarrow> Inl (404, ''unknown key'') | Some v \<Rightarrow> Inr (key, v))"

definition registry_put_route :: "pyfloat \<Rightarrow> string \<Rightarrow> json \<Rightarrow> cluster_memory \<Rightarrow> cluster_memory \<times> string" where
  "registry_put_route t key payload m = (registry_put t key payload m, key)"

text \<open>An unknown type name raises in the handler: \<open>None\<close>, and nothing is provisioned.\<close>

definition provision_request ::
    "pyfloat \<Rightarrow> provision_outcome \<Rightarrow> string option \<Rightarrow> cluster_memory \<Rightarrow> cluster_memory \<times> node_type option" where
  "provision_request t out name m =
     (case node_kind_of_name (case name of Some s \<Rightarrow> s | None \<Rightarrow> ''CPU'') of
        None \<Rightarrow> (m, None)
      | Some k \<Rightarrow> (provision_node t out k m, Some k))"

definition scheduler_turn :: "bool \<Rightarrow> pyfloat \<Rightarrow> nat list \<Rightarrow> (string \<Rightarrow> http_outcome) \<Rightarrow> cluster_memory \<Rightarrow> cluster_memory" where
  "scheduler_turn leader t locked net m = (if leader then schedule_once leader t locked net m else m)"

subsection \<open>The reports of a cluster fit together\<close>

lemma count_statuses: "jobs_in Queued m + jobs_in Running m + jobs_in Failed m + jobs_in Completed m = length (mem_jobs m)"
proof -
  have "length (filter (\<lambda>j. job_status j = Queued) js) + length (filter (\<lambda>j. job_status j = Running) js)
      + length (filter (\<lambda>j. job_status j = Failed) js) + length (filter (\<lambda>j. job_status j = Completed) js) = length js"
    for js :: "job_record list"
  proof (induction js)
    case (Cons j js)
    then show ?case by (cases "job_status j") simp_all
  qed simp
  from this [of "dvalues (mem_jobs m)"] show ?thesis by (simp add: jobs_in_def)
qed

lemma queued_in_queue:
  assumes "cp_inv {} m"
  shows "jobs_in Queued m \<le> length (mem_queue m) \<and> length (mem_queue m) \<le> length (mem_jobs m)"
proof -
  let ?q = "map fst (filter (\<lambda>p. job_status (snd p) = Queued) (mem_jobs m))"
  have d: "distinct (map fst (mem_jobs m))"
    using cp_inv_synced [OF assms] by (simp add: synced_def keyed_def dwf_def)
  have "distinct ?q" by (rule distinct_map_filter [OF d])
  moreover have "set ?q \<subseteq> set (mem_queue m)"
    using cp_inv_promises(2) [OF assms] by (auto simp: no_lost_jobs_def)
  ultimately have "length ?q \<le> length (mem_queue m)"
    by (metis card_length card_mono distinct_card finite_set le_trans)
  moreover have "length ?q = jobs_in Queued m"
    unfolding jobs_in_def by (simp add: filter_map o_def)
  moreover have "distinct (mem_queue m)" "set (mem_queue m) \<subseteq> set (map fst (mem_jobs m))"
    using cp_inv_promises(4) [OF assms] by (simp_all add: queue_well_formed_def)
  then have "length (mem_queue m) \<le> length (map fst (mem_jobs m))"
    by (metis card_length card_mono distinct_card finite_set le_trans)
  ultimately show ?thesis by simp
qed

text \<open>C0. After every run the reports of a cluster fit together: every job is counted in one status, at
  least the queued ones stand in the queue that the health and status reports give the length of, and what the heartbeat
  of its agent tells the federation is the same.\<close>

theorem cluster_reports_agree:
  "let m = cp_run evs empty_memory; h = cluster_health_report leader mode m; r = cluster_metrics_report leader m;
       s = cluster_status_report leader t m; b = agent_heartbeat a m in
     mr_queued r + mr_running r + mr_failed r + mr_completed r = length (st_jobs s)
     \<and> mr_queued r \<le> hr_queued h \<and> hr_queued h \<le> length (st_jobs s) \<and> st_depth s = hr_queued h
     \<and> fh_queue_depth b = int (hr_queued h) \<and> fh_node_count b = int (mr_nodes r) \<and> mr_nodes r = hr_nodes h
     \<and> py_round (fh_current_load b) 4 = mr_load r"
  using count_statuses [of "cp_run evs empty_memory"] queued_in_queue [OF cp_inv_run, of evs]
    cp_inv_synced [OF cp_inv_run, of evs]
  by (simp add: Let_def cluster_metrics_report_def cluster_status_report_def cluster_health_report_def agent_heartbeat_def
      queue_snapshot_def synced_def)

text \<open>No request of the reports or of an unknown node type changes the memory, and a replica that does not lead
  schedules nothing.\<close>

lemma idle_routes:
  "node_kind_of_name name = None \<Longrightarrow> provision_request t out (Some name) m = (m, None)"
  "scheduler_turn False t locked net m = m"
  by (simp_all add: provision_request_def scheduler_turn_def)

lemma registry_round_trip: "registry_get_route k (fst (registry_put_route t k v m)) = Inr (k, v)"
  by (simp add: registry_get_route_def registry_put_route_def registry_get_def registry_put_def upd_db_def)

section \<open>The federation controller\<close>

record global_health =
  gh_total :: nat
  gh_healthy :: nat
  gh_degraded :: nat
  gh_offline :: nat
  gh_depth :: nat
  gh_ts :: pyfloat

definition clusters_in :: "cluster_health \<Rightarrow> federation \<Rightarrow> nat" where
  "clusters_in h f = length (filter (\<lambda>c. cl_health c = h) (list_clusters f))"

definition active_jobs :: "federation \<Rightarrow> nat" where
  "active_jobs f = length (filter (\<lambda>j. active_status (gj_status j)) (list_global_jobs None f))"

definition global_health_report :: "pyfloat \<Rightarrow> federation \<Rightarrow> global_health" where
  "global_health_report t f =
     \<lparr>gh_total = length (list_clusters f), gh_healthy = clusters_in HHealthy f, gh_degraded = clusters_in HDegraded f,
      gh_offline = clusters_in HOffline f, gh_depth = active_jobs f, gh_ts = t\<rparr>"

record cluster_load =
  cd_region :: string
  cd_load :: rat
  cd_queue :: int
  cd_health :: string

record federation_metrics =
  fm_total :: nat
  fm_active :: nat
  fm_failed :: nat
  fm_queue :: nat
  fm_transfers :: int
  fm_failovers :: int
  fm_reroutes :: int
  fm_jobs :: nat
  fm_by_status :: "(gj_status, nat) dict"
  fm_loads :: "(string, cluster_load) dict"
  fm_ts :: pyfloat

definition cluster_load_of :: "cluster \<Rightarrow> cluster_load" where
  "cluster_load_of c = \<lparr>cd_region = cl_region c, cd_load = cl_current_load c, cd_queue = cl_queue_depth c, cd_health = health_name (cl_health c)\<rparr>"

definition federation_metrics_report :: "pyfloat \<Rightarrow> federation \<Rightarrow> federation_metrics" where
  "federation_metrics_report t f =
     (let cs = list_clusters f; js = list_global_jobs None f
      in \<lparr>fm_total = length cs, fm_active = length (filter (\<lambda>c. cl_health c \<noteq> HOffline) cs),
          fm_failed = length (filter (\<lambda>c. cl_health c = HOffline) cs), fm_queue = active_jobs f,
          fm_transfers = get_metric ''cross_cluster_transfers_total'' f,
          fm_failovers = get_metric ''failover_events_total'' f,
          fm_reroutes = get_metric ''failover_reroutes_total'' f, fm_jobs = length js,
          fm_by_status = fold tally (map gj_status js) [],
          fm_loads = fold (\<lambda>c. dput (cl_id c) (cluster_load_of c)) cs [], fm_ts = t\<rparr>)"

record cluster_row =
  cw_id :: string
  cw_region :: string
  cw_health :: string
  cw_load :: rat
  cw_queue :: int
  cw_nodes :: int
  cw_gpus :: int
  cw_latency :: rat
  cw_heartbeat :: pyfloat

definition cluster_rows :: "federation \<Rightarrow> cluster_row list" where
  "cluster_rows f =
     map (\<lambda>c. \<lparr>cw_id = cl_id c, cw_region = cl_region c, cw_health = health_name (cl_health c), cw_load = cl_current_load c,
               cw_queue = cl_queue_depth c, cw_nodes = cl_node_count c, cw_gpus = cl_gpu_capacity c,
               cw_latency = cl_avg_latency_ms c, cw_heartbeat = cl_last_heartbeat c\<rparr>) (list_clusters f)"

text \<open>The heartbeat route: the signature is over the canonical text of the body.\<close>

definition heartbeat_route ::
    "hmac_fun \<Rightarrow> string \<Rightarrow> (fed_heartbeat \<Rightarrow> string) \<Rightarrow> pyfloat \<Rightarrow> fed_heartbeat \<Rightarrow> string option \<Rightarrow> string option \<Rightarrow>
      federation \<Rightarrow> federation \<times> (http_error + string \<times> pyfloat)" where
  "heartbeat_route hmac secret canonical t p sig ts f =
     (if \<not> verify_signed_cluster_request hmac \<lfloor>t\<rfloor> secret (canonical p) sig ts
      then (f, Inl (403, ''invalid federation body signature or timestamp''))
      else case apply_heartbeat t p f of
        Inl e \<Rightarrow> (f, Inl (404, ''cluster not registered''))
      | Inr (f', c) \<Rightarrow> (f', Inr (cl_id c, cl_last_heartbeat c)))"

subsection \<open>The reports of the controller fit together\<close>

lemma sum_tally: "sum_list (dvalues (tally k d)) = Suc (sum_list (dvalues d))"
  by (induction d) (auto simp: tally_def)

lemma sum_tally_fold: "sum_list (dvalues (fold tally ks d)) = sum_list (dvalues d) + length ks"
  by (induction ks arbitrary: d) (simp_all add: sum_tally)

lemma count_healths:
  "clusters_in HHealthy f + clusters_in HDegraded f + clusters_in HOffline f + clusters_in HUnknown f = length (list_clusters f)"
proof -
  have "length (filter (\<lambda>c. cl_health c = HHealthy) cs) + length (filter (\<lambda>c. cl_health c = HDegraded) cs)
      + length (filter (\<lambda>c. cl_health c = HOffline) cs) + length (filter (\<lambda>c. cl_health c = HUnknown) cs) = length cs"
    for cs :: "cluster list"
  proof (induction cs)
    case (Cons c cs)
    then show ?case by (cases "cl_health c") simp_all
  qed simp
  then show ?thesis by (simp add: clusters_in_def)
qed

lemma active_by_status:
  "active_jobs f = (let d = fold tally (map gj_status (list_global_jobs None f)) [] in
     tally_of d GQueued + tally_of d GRouted + tally_of d GRunning + tally_of d GMigrated)"
proof -
  have "length (filter (\<lambda>j. active_status (gj_status j)) js) =
      count_list (map gj_status js) GQueued + count_list (map gj_status js) GRouted
      + count_list (map gj_status js) GRunning + count_list (map gj_status js) GMigrated" for js :: "global_job list"
  proof (induction js)
    case (Cons j js)
    then show ?case by (cases "gj_status j") (simp_all add: active_status_def)
  qed simp
  then show ?thesis by (simp add: active_jobs_def Let_def tally_of_fold)
qed

lemma fold_dput_keys: "fst ` set (fold (\<lambda>c. dput (k c) (g c)) cs d) = k ` set cs \<union> fst ` set d"
  by (induction cs arbitrary: d) auto

text \<open>C0. After every run the two reports of the controller agree: every cluster is active or failed, the health
  report misses just those whose health is unknown, every job is counted in one status, the depth of the global queue is that of
  the four active statuses, and the map of loads has exactly the registered clusters.\<close>

theorem federation_reports_agree:
  "let f = fold fed_step ops empty_federation; h = global_health_report t f; r = federation_metrics_report t f; d = fm_by_status r in
     fm_active r + fm_failed r = fm_total r \<and> gh_total h = fm_total r \<and> gh_offline h = fm_failed r
     \<and> gh_healthy h + gh_degraded h + clusters_in HUnknown f = fm_active r
     \<and> gh_depth h = fm_queue r \<and> fm_queue r = tally_of d GQueued + tally_of d GRouted + tally_of d GRunning + tally_of d GMigrated
     \<and> sum_list (dvalues d) = fm_jobs r \<and> fm_jobs r = length (fed_jobs f)
     \<and> set (dkeys (fm_loads r)) = set (dkeys (fed_clusters f)) \<and> length (cluster_rows f) = fm_total r"
proof -
  let ?f = "fold fed_step ops empty_federation"
  have ok: "keyed cl_id (fed_clusters ?f)" using fed_ok_run [of ops] by (simp add: fed_ok_def)
  have ids: "cl_id ` set (list_clusters ?f) = set (dkeys (fed_clusters ?f))"
    unfolding set_list_clusters using ok by (force simp: keyed_def image_iff)
  have parts: "length (filter (\<lambda>c. cl_health c = HOffline) cs) + length (filter (\<lambda>c. cl_health c \<noteq> HOffline) cs) = length cs"
    for cs :: "cluster list" by (rule sum_length_filter_compl)
  have "length (list_global_jobs None ?f) = length (fed_jobs ?f)" by (simp add: list_global_jobs_def)
  with count_healths [of ?f] active_by_status [of ?f] ids parts [of "list_clusters ?f"] show ?thesis
    unfolding Let_def global_health_report_def federation_metrics_report_def global_health.select_convs federation_metrics.select_convs
    by (simp add: sum_tally_fold fold_dput_keys clusters_in_def cluster_rows_def)
qed

text \<open>A refused heartbeat leaves the registry alone.\<close>

lemma refused_heartbeat: "heartbeat_route hmac secret canonical t p sig ts f = (f', Inl e) \<Longrightarrow> f' = f"
  by (auto simp: heartbeat_route_def split: if_splits sum.splits)

text \<open>C0. With a shared secret an accepted heartbeat carries the signature of its body and a time stamp of now; it sets
  the figures of its own, registered cluster, with no missed beat, and of no other.\<close>

theorem heartbeat_guarded:
  assumes "secret \<noteq> []" "fed_ok f" "heartbeat_route hmac secret canonical t p sig ts f = (f', Inr (cid, beat))"
  shows "sig = Some (hmac secret (canonical p)) \<and> (\<exists>x n. ts = Some x \<and> py_int x = Some n \<and> \<bar>\<lfloor>t\<rfloor> - n\<bar> \<le> MAX_SKEW)
    \<and> cid = fh_cluster_id p \<and> beat = t
    \<and> (\<exists>old c. get_cluster cid f = Some old \<and> fed_clusters f' = dput cid c (fed_clusters f)
         \<and> cl_misses c = 0 \<and> cl_last_heartbeat c = t \<and> cl_health c = fh_health p \<and> cl_url c = cl_url old)
    \<and> fed_jobs f' = fed_jobs f"
proof -
  have v: "verify_signed_cluster_request hmac \<lfloor>t\<rfloor> secret (canonical p) sig ts"
    using assms(3) by (auto simp: heartbeat_route_def split: if_splits)
  then obtain c where ap: "apply_heartbeat t p f = Inr (f', c)" and out: "cid = cl_id c" "beat = cl_last_heartbeat c"
    using assms(3) by (auto simp: heartbeat_route_def split: sum.splits prod.splits)
  from ap obtain old where old: "get_cluster (fh_cluster_id p) f = Some old"
    by (auto simp: apply_heartbeat_def split: option.splits)
  have id: "cl_id old = fh_cluster_id p"
    using assms(2) old by (auto simp: fed_ok_def get_cluster_def dest: keyed_dget)
  have c: "cl_id c = cl_id old \<and> cl_misses c = 0 \<and> cl_last_heartbeat c = t \<and> cl_health c = fh_health p \<and> cl_url c = cl_url old
      \<and> fed_clusters f' = dput (cl_id c) c (fed_clusters f) \<and> fed_jobs f' = fed_jobs f"
    using ap old by (auto simp: apply_heartbeat_def Let_def)
  with v assms(1) old id out show ?thesis unfolding federation_accepts_iff [OF assms(1)] by metis
qed

definition demo_beat :: fed_heartbeat where
  "demo_beat =
     \<lparr>fh_cluster_id = ''eu'', fh_node_count = 1, fh_gpu_capacity = 0, fh_current_load = 0, fh_queue_depth = 0,
      fh_avg_latency_ms = 10, fh_health = HHealthy\<rparr>"

definition demo_fed :: federation where
  "demo_fed = fold fed_step [RegisterCluster 0 (example_registration ''eu'' ''http://eu'')] empty_federation"

theorem heartbeat_guarded_witness:
  "\<exists>f'. heartbeat_route (\<lambda>k m. k @ m) ''k'' (\<lambda>_. ''body'') 5 demo_beat (Some ''kbody'') (Some ''5'') demo_fed = (f', Inr (''eu'', 5))
     \<and> fed_jobs f' = fed_jobs demo_fed"
proof -
  have "snd (heartbeat_route (\<lambda>k m. k @ m) ''k'' (\<lambda>_. ''body'') 5 demo_beat (Some ''kbody'') (Some ''5'') demo_fed) = Inr (''eu'', 5)"
    by code_simp
  then obtain f' where r: "heartbeat_route (\<lambda>k m. k @ m) ''k'' (\<lambda>_. ''body'') 5 demo_beat (Some ''kbody'') (Some ''5'') demo_fed
      = (f', Inr (''eu'', 5))" by (metis prod.collapse)
  have "fed_ok demo_fed" unfolding demo_fed_def by (rule fed_ok_run)
  from heartbeat_guarded [OF _ this r] r show ?thesis by blast
qed

end
